(* ===== verification/Emu_Prelude.thy ===== *)
theory Emu_Prelude
  imports Main "HOL-Library.Word"
begin

unbundle bit_operations_syntax

text \<open>
  Shared vocabulary of the development: the machine-integer types of the C sources, C's shift
  operators on them, bit tests and masks, little-endian byte access (what the sources do with
  \<^verbatim>\<open>memcpy\<close> on a little-endian host), counting trailing zeros, and the ring buffers that
  the multicore mailbox, the UART, the SPI controllers, the ADC and the flash serial interface
  all implement with a buffer, two indices and a counter. The interface of such a queue is the
  locale \<open>fifo_queue\<close>; each component interprets it on its own operations.
\<close>

section \<open>Machine integers\<close>

type_synonym u8 = "8 word"
type_synonym u16 = "16 word"
type_synonym u32 = "32 word"
type_synonym u64 = "64 word"

named_theorems emu_defs \<open>definitions of the model, unfolded when a concrete input is evaluated\<close>

text \<open>C's \<^verbatim>\<open>w << n\<close> and \<^verbatim>\<open>w >> n\<close> on unsigned operands.\<close>

abbreviation shl :: "'a::len word \<Rightarrow> nat \<Rightarrow> 'a word" where
  "shl w n \<equiv> push_bit n w"

abbreviation shr :: "'a::len word \<Rightarrow> nat \<Rightarrow> 'a word" where
  "shr w n \<equiv> drop_bit n w"

text \<open>A bit field used as an array index: \<^verbatim>\<open>(w >> n) & m\<close>.\<close>

abbreviation idx :: "'a::len word \<Rightarrow> nat \<Rightarrow> 'a word \<Rightarrow> nat" where
  "idx w n m \<equiv> unat (shr w n AND m)"

text \<open>\<^verbatim>\<open>c ? m : 0\<close>, the usual way the sources assemble a status word.\<close>

definition cond_mask :: "bool \<Rightarrow> 'a::len word \<Rightarrow> 'a word" where
  "cond_mask c m = (if c then m else 0)"

lemma cond_mask_simps [simp]:
  "cond_mask True m = m" "cond_mask False m = 0"
  by (simp_all add: cond_mask_def)

text \<open>\<^verbatim>\<open>(int32_t)(a - b) >= 0\<close>: the wrap-tolerant comparison of two 32-bit times.\<close>

definition time_reached :: "u32 \<Rightarrow> u32 \<Rightarrow> bool" where
  "time_reached now target \<longleftrightarrow> \<not> bit (now - target) 31"

text \<open>Address \<^verbatim>\<open>a\<close> lies in a register block.\<close>

definition in_block :: "u32 \<Rightarrow> u32 \<Rightarrow> u32 \<Rightarrow> bool" where
  "in_block a start sz \<longleftrightarrow> a \<ge> start \<and> a < start + sz"

subsection \<open>Masks and single bits\<close>

lemma and_push_bit_1_eq_0 [simp]:
  fixes w :: "'a::len word"
  shows "(w AND push_bit n 1 = 0) \<longleftrightarrow> \<not> bit w n"
proof -
  have "w AND push_bit n 1 = (if bit w n then push_bit n 1 else 0)"
    by (rule bit_word_eqI) (auto simp: bit_simps)
  moreover have "bit w n \<Longrightarrow> push_bit n (1 :: 'a word) \<noteq> 0"
    using bit_imp_le_length [of w n] by (auto simp: bit_eq_iff bit_simps)
  ultimately show ?thesis by auto
qed

lemma and_exp_eq_0 [simp]:
  fixes w :: "'a::len word"
  shows "(w AND 2 ^ n = 0) \<longleftrightarrow> \<not> bit w n"
  using and_push_bit_1_eq_0 [of w n] by (simp add: push_bit_eq_mult)

lemma bit_not_word_iff [simp]:
  fixes w :: "'a::len word"
  shows "bit (NOT w) n \<longleftrightarrow> n < LENGTH('a) \<and> \<not> bit w n"
  by (simp add: bit_simps)

lemma word_and_mask_cases:
  fixes w m :: "'a::len word"
  assumes "\<And>i. bit m i \<Longrightarrow> i = n"
  shows "w AND m = (if bit w n then m else 0)"
proof (rule bit_word_eqI)
  fix i
  assume "i < LENGTH('a)"
  show "bit (w AND m) i = bit (if bit w n then m else 0) i"
    using assms [of i] by (auto simp: bit_simps)
qed

lemma drop_bit_31_eq_0 [simp]:
  fixes w :: u32
  shows "(drop_bit 31 w = 0) \<longleftrightarrow> \<not> bit w 31"
proof -
  have "bit w (31 + n) \<longleftrightarrow> n = 0 \<and> bit w 31" for n
    using bit_imp_le_length [of w "31 + n"] by auto
  then have "drop_bit 31 w = (if bit w 31 then 1 else 0)"
    by (intro bit_word_eqI) (auto simp: bit_simps)
  then show ?thesis by simp
qed

lemma time_reached_iff_sint: "time_reached now target \<longleftrightarrow> 0 \<le> sint (now - target)"
  using bit_last_iff [of "now - target"] by (simp add: time_reached_def not_less)

lemma time_reached_same [simp]: "time_reached t t"
  by (simp add: time_reached_def)

lemma less_4_cases: "(n :: nat) < 4 \<longleftrightarrow> n = 0 \<or> n = 1 \<or> n = 2 \<or> n = 3"
  by arith

lemma upt_0_4: "[0..<4] = [0, 1, 2, 3 :: nat]"
  by (simp add: upt_rec)

lemma less_32_cases:
  "(n :: nat) < 32 \<longleftrightarrow> n \<in>
    {31, 30, 29, 28, 27, 26, 25, 24, 23, 22, 21, 20, 19, 18, 17, 16, 15, 14, 13, 12, 11, 10,
    9, 8, 7, 6, 5, 4, 3, 2, 1, 0}"
  unfolding insert_iff empty_iff by arith

lemmas bit_cases_32 = less_32_cases [unfolded insert_iff empty_iff]

lemma quad_index [simp]:
  "Suc (k * 4) div 4 = k" "Suc (k * 4) mod 4 = 1"
  "Suc (Suc (k * 4)) div 4 = k" "Suc (Suc (k * 4)) mod 4 = 2"
  by presburger+

lemma u32_le_max [simp]: "x \<le> (0xFFFFFFFF :: u32)"
proof -
  have "unat x < 2 ^ LENGTH(32)" by (rule unsigned_less)
  then show ?thesis by (simp add: word_le_nat_alt)
qed

lemma ucast_add_down:
  fixes a b :: "'a::len word"
  assumes "LENGTH('b) \<le> LENGTH('a)"
  shows "(ucast (a + b) :: 'b::len word) = ucast a + ucast b"
proof -
  have e: "take_bit LENGTH('b) (take_bit LENGTH('a) k) = take_bit LENGTH('b) k" for k :: int
    using assms by (simp add: min_def)
  then show ?thesis
    by (transfer, simp add: e) (metis e take_bit_add)
qed

lemma ucast_down_up:
  "LENGTH('b) \<le> LENGTH('a) \<Longrightarrow> ucast (ucast (d :: 'b::len word) :: 'a::len word) = d"
  by (rule bit_word_eqI) (auto simp: bit_simps)

text \<open>Numerals of the sources that are masks of contiguous low bits.\<close>

lemma numeral_masks:
  "(0xF :: 'a::len word) = mask 4" "(0xFF :: 'a word) = mask 8" "(0xFFFF :: 'a word) = mask 16"
  "(0xFFFFFF :: 'a word) = mask 24" "(0xFFFFFFFF :: 'a word) = mask 32"
  by (simp_all add: mask_eq_exp_minus_1)

lemma bit_times_2: "bit (w * 2) n \<longleftrightarrow> n \<noteq> 0 \<and> n < 32 \<and> bit w (n - 1)" for w :: u32
  using bit_push_bit_iff [of 1 w n] by (auto simp: push_bit_eq_mult)

lemma bit31_iff: "bit x 31 \<longleftrightarrow> 2 ^ 31 \<le> unat x" for x :: u32
proof -
  have "\<not> bit x 31 \<longleftrightarrow> unat (drop_bit 31 x) = 0"
    by (metis drop_bit_31_eq_0 unsigned_0 word_unat_eq_iff)
  also have "unat (drop_bit 31 x) = unat x div 2 ^ 31"
    by (simp add: drop_bit_eq_div unat_div)
  finally show ?thesis by (auto simp: div_eq_0_iff)
qed

lemma unat_of_nat_lt: "k < 2 ^ LENGTH('a) \<Longrightarrow> unat (of_nat k :: 'a::len word) = k"
  by (simp add: unat_of_nat take_bit_nat_eq_self)

lemma unat_minus_of_nat:
  fixes w :: "'a::len word"
  assumes "k \<le> unat w"
  shows "unat (w - of_nat k) = unat w - k"
proof -
  have k: "unat (of_nat k :: 'a word) = k"
    using assms unsigned_less [of w] by (intro unat_of_nat_lt) (rule le_less_trans)
  then show ?thesis
    using assms by (subst unat_sub) (simp_all add: word_le_nat_alt)
qed

lemma unat_uminus_word:
  fixes w :: "'a::len word"
  assumes "w \<noteq> 0"
  shows "unat (- w) = 2 ^ LENGTH('a) - unat w"
proof -
  have lt: "unat w < 2 ^ LENGTH('a)" by (rule unsigned_less)
  have "of_nat (2 ^ LENGTH('a) - unat w) = (of_nat (2 ^ LENGTH('a)) - of_nat (unat w) :: 'a word)"
    using lt by (intro of_nat_diff) (rule less_imp_le)
  also have "\<dots> = - w" by simp
  finally have "of_nat (2 ^ LENGTH('a) - unat w) = - w" .
  moreover have "0 < unat w" using assms by (simp add: unat_gt_0)
  ultimately show ?thesis
    using lt by (metis diff_less unat_of_nat_lt zero_less_numeral zero_less_power)
qed

section \<open>Counting trailing zeros\<close>

text \<open>
  \<^verbatim>\<open>__builtin_ctz\<close> on a 32-bit word. The builtin is undefined at 0; the sources only call
  it on non-zero words, and the value 32 here is what the search returns when no bit is set.
\<close>

definition ctz32 :: "u32 \<Rightarrow> nat" where
  "ctz32 w = (case List.find (bit w) [0..<32] of Some i \<Rightarrow> i | None \<Rightarrow> 32)"

lemma ctz32_props:
  assumes "w \<noteq> 0"
  shows "bit w (ctz32 w)" "ctz32 w < 32" "\<And>j. j < ctz32 w \<Longrightarrow> \<not> bit w j"
proof -
  obtain j where "bit w j"
    using assms by (auto simp: bit_eq_iff)
  moreover have "j < 32"
    using calculation bit_imp_le_length [of w j] by simp
  ultimately obtain i where i: "List.find (bit w) [0..<32] = Some i"
    by (metis atLeastLessThan_iff find_None_iff2 not_Some_eq set_upt zero_le)
  have "bit w i \<and> i < 32 \<and> (\<forall>j<i. \<not> bit w j)"
    using i by (auto simp: find_Some_iff)
  moreover have "ctz32 w = i"
    using i by (simp add: ctz32_def)
  ultimately show "bit w (ctz32 w)" "ctz32 w < 32" "\<And>j. j < ctz32 w \<Longrightarrow> \<not> bit w j"
    by auto
qed

lemma ctz32_least: "bit w j \<Longrightarrow> ctz32 w \<le> j"
  using ctz32_props(3) [of w j] by (cases "w = 0") (auto simp: not_le [symmetric])

text \<open>The loop step \<^verbatim>\<open>bits &= bits - 1\<close> clears exactly the lowest set bit.\<close>

lemma and_minus_1_clears_lowest:
  fixes w :: u32
  assumes "w \<noteq> 0"
  shows "w AND (w - 1) = unset_bit (ctz32 w) w"
proof -
  define k where "k = ctz32 w"
  define y where "y = unset_bit k w"
  note k = ctz32_props [OF assms, folded k_def]
  have low: "\<not> bit y j" if "j \<le> k" for j
    using that k(3) [of j] by (cases "j = k") (auto simp: y_def bit_simps)
  have "w = y OR push_bit k 1"
    using k(1,2) by (intro bit_word_eqI) (auto simp: y_def bit_simps)
  also have "\<dots> = y + push_bit k 1"
    using low [of k] by (intro disjunctive_add [symmetric]) (auto simp: bit_simps)
  finally have w: "w = y + 2 ^ k"
    by (simp add: push_bit_eq_mult)
  have "w - 1 = y + mask k"
    by (simp add: w mask_eq_exp_minus_1)
  also have "\<dots> = y OR mask k"
    using low by (intro disjunctive_add) (auto simp: bit_simps)
  finally have w1: "w - 1 = y OR mask k" .
  show ?thesis
    unfolding w1 k_def [symmetric] y_def [symmetric]
  proof (rule bit_word_eqI)
    fix n
    assume "n < LENGTH(32)"
    show "bit (w AND (y OR mask k)) n = bit y n"
      using k(3) [of n] by (auto simp: y_def bit_simps)
  qed
qed

lemma unset_bit_less:
  fixes w :: u32
  assumes "bit w k"
  shows "unset_bit k w < w"
proof -
  have "\<not> bit (unset_bit k w) k"
    by (simp add: bit_unset_bit_iff)
  then have "unset_bit k w \<noteq> w"
    using assms by metis
  moreover have "unset_bit k w = w AND NOT (push_bit k 1)"
    by (rule bit_word_eqI) (auto simp: bit_simps)
  then have "unset_bit k w \<le> w"
    by (simp add: word_and_le2)
  ultimately show ?thesis by simp
qed

lemma clear_lowest_less:
  fixes w :: u32
  assumes "w \<noteq> 0"
  shows "unat (w AND (w - 1)) < unat w"
  using unset_bit_less [OF ctz32_props(1) [OF assms]]
  by (simp add: and_minus_1_clears_lowest [OF assms] word_less_nat_alt)

section \<open>Little-endian byte access\<close>

definition rd16 :: "(nat \<Rightarrow> u8) \<Rightarrow> nat \<Rightarrow> u16" where
  "rd16 m o1 = ucast (m o1) OR shl (ucast (m (o1 + 1))) 8"

definition rd32 :: "(nat \<Rightarrow> u8) \<Rightarrow> nat \<Rightarrow> u32" where
  "rd32 m o1 = ucast (m o1) OR shl (ucast (m (o1 + 1))) 8 OR
     shl (ucast (m (o1 + 2))) 16 OR shl (ucast (m (o1 + 3))) 24"

definition wr16 :: "(nat \<Rightarrow> u8) \<Rightarrow> nat \<Rightarrow> u16 \<Rightarrow> (nat \<Rightarrow> u8)" where
  "wr16 m o1 v = m(o1 := ucast v, o1 + 1 := ucast (shr v 8))"

definition wr32 :: "(nat \<Rightarrow> u8) \<Rightarrow> nat \<Rightarrow> u32 \<Rightarrow> (nat \<Rightarrow> u8)" where
  "wr32 m o1 v = m(o1 := ucast v, o1 + 1 := ucast (shr v 8),
     o1 + 2 := ucast (shr v 16), o1 + 3 := ucast (shr v 24))"

text \<open>Byte reversal of halfwords and words.\<close>

definition bswap16 :: "u16 \<Rightarrow> u16" where
  "bswap16 v = shr v 8 OR shl v 8"

definition bswap32 :: "u32 \<Rightarrow> u32" where
  "bswap32 v = (shr v 24 AND 0xFF) OR (shr v 8 AND 0xFF00) OR (shl v 8 AND 0xFF0000) OR (shl v 24 AND 0xFF000000)"

lemma bytes_of_word32:
  fixes v :: u32
  shows "ucast (ucast v :: u8) OR push_bit 8 (ucast (ucast (drop_bit 8 v) :: u8)) OR
    push_bit 16 (ucast (ucast (drop_bit 16 v) :: u8)) OR
    push_bit 24 (ucast (ucast (drop_bit 24 v) :: u8)) = v" (is "?l = v")
proof (rule bit_word_eqI)
  fix n
  assume "n < LENGTH(32)"
  then consider "n < 8" | "8 \<le> n" "n < 16" | "16 \<le> n" "n < 24" | "24 \<le> n" "n < 32"
    by (fastforce simp: not_less)
  then show "bit ?l n = bit v n"
    by cases (auto simp: bit_simps)
qed

lemma rd32_wr32_same [simp]: "rd32 (wr32 m o1 v) o1 = v"
  by (simp add: rd32_def wr32_def bytes_of_word32)

lemma rd16_wr16_same [simp]: "rd16 (wr16 m o1 v) o1 = v"
  by (rule bit_word_eqI) (auto simp: rd16_def wr16_def bit_simps)

lemma rd32_wr32_other: "o2 + 4 \<le> o1 \<or> o1 + 4 \<le> o2 \<Longrightarrow> rd32 (wr32 m o1 v) o2 = rd32 m o2"
  by (auto simp: rd32_def wr32_def)

lemma wr32_apply_other: "p < o1 \<or> o1 + 4 \<le> p \<Longrightarrow> wr32 m o1 v p = m p"
  by (auto simp: wr32_def)

section \<open>Bounded queues\<close>

text \<open>
  The contract of a bounded first-in first-out queue that drops what does not fit: what the
  hardware FIFOs of the emulator promise their clients. \<open>contents\<close> is the abstraction to a
  list; \<open>wf\<close> the well-formedness of the concrete ring.
\<close>

locale fifo_queue =
  fixes depth :: nat
    and wf :: "'s \<Rightarrow> bool"
    and contents :: "'s \<Rightarrow> 'a list"
    and push :: "'a \<Rightarrow> 's \<Rightarrow> 's"
    and pop :: "'s \<Rightarrow> 'a \<times> 's"
  assumes wf_push: "wf s \<Longrightarrow> wf (push x s)"
    and wf_pop: "wf s \<Longrightarrow> wf (snd (pop s))"
    and bounded: "wf s \<Longrightarrow> length (contents s) \<le> depth"
    and contents_push: "wf s \<Longrightarrow> contents (push x s) = take depth (contents s @ [x])"
    and contents_pop: "wf s \<Longrightarrow> contents (snd (pop s)) = tl (contents s)"
    and pop_front: "wf s \<Longrightarrow> contents s \<noteq> [] \<Longrightarrow> fst (pop s) = hd (contents s)"
begin

lemma wf_push_all: "wf s \<Longrightarrow> wf (fold push xs s)"
  by (induction xs arbitrary: s) (auto intro: wf_push)

text \<open>Pushing a sequence keeps its longest prefix that fits and drops the rest.\<close>

lemma contents_push_all: "wf s \<Longrightarrow> contents (fold push xs s) = take depth (contents s @ xs)"
proof (induction xs arbitrary: s)
  case Nil
  then show ?case by (simp add: bounded)
next
  case (Cons x xs)
  have "contents (fold push xs (push x s)) = take depth (contents (push x s) @ xs)"
    by (rule Cons.IH) (rule wf_push, rule Cons.prems)
  also have "\<dots> = take depth (contents s @ x # xs)"
    using Cons.prems bounded [of s]
    by (cases "length (contents s) < depth") (auto simp: contents_push)
  finally show ?case by simp
qed

fun pop_n :: "nat \<Rightarrow> 's \<Rightarrow> 'a list \<times> 's" where
  "pop_n 0 s = ([], s)"
| "pop_n (Suc n) s = (let (x, s1) = pop s; (xs, s2) = pop_n n s1 in (x # xs, s2))"

lemma pop_n_contents:
  "wf s \<Longrightarrow> n \<le> length (contents s) \<Longrightarrow>
     fst (pop_n n s) = take n (contents s) \<and> contents (snd (pop_n n s)) = drop n (contents s)"
proof (induction n arbitrary: s)
  case 0
  then show ?case by simp
next
  case (Suc n)
  obtain x s1 where p: "pop s = (x, s1)" by (cases "pop s")
  obtain y ys where c: "contents s = y # ys" using Suc.prems(2) by (cases "contents s") auto
  have s1: "wf s1" "contents s1 = ys" and x: "x = y"
    using wf_pop [OF Suc.prems(1)] contents_pop [OF Suc.prems(1)] pop_front [OF Suc.prems(1)]
    by (simp_all add: p c)
  have "fst (pop_n n s1) = take n ys \<and> contents (snd (pop_n n s1)) = drop n ys"
    using Suc.IH [OF s1(1)] Suc.prems(2) by (simp add: s1(2) c)
  then show ?case
    by (cases "pop_n n s1") (simp add: p c x)
qed

text \<open>What is pushed comes out again, in order, as long as it fits.\<close>

lemma push_all_pop_n:
  assumes "wf s" "contents s = []" "length xs \<le> depth"
  shows "fst (pop_n (length xs) (fold push xs s)) = xs"
  using pop_n_contents [OF wf_push_all [OF assms(1)], of "length xs" xs] assms
  by (simp add: contents_push_all)

end

lemma take_take_append: "take n (take n xs @ ys) = take n (xs @ ys)"
  by (cases "length xs \<le> n") auto

subsection \<open>The ring that implements them\<close>

definition ring_list :: "(nat \<Rightarrow> 'a) \<Rightarrow> nat \<Rightarrow> nat \<Rightarrow> nat \<Rightarrow> 'a list" where
  "ring_list buf n rd cnt = map (\<lambda>i. buf ((rd + i) mod n)) [0..<cnt]"

definition ring_ok :: "nat \<Rightarrow> nat \<Rightarrow> nat \<Rightarrow> nat \<Rightarrow> bool" where
  "ring_ok n rd wr cnt \<longleftrightarrow> 0 < n \<and> rd < n \<and> wr = (rd + cnt) mod n \<and> cnt \<le> n"

lemma length_ring_list [simp]: "length (ring_list buf n rd cnt) = cnt"
  by (simp add: ring_list_def)

lemma ring_list_0 [simp]: "ring_list buf n rd 0 = []"
  by (simp add: ring_list_def)

lemma ring_index_distinct:
  "rd < n \<Longrightarrow> i < cnt \<Longrightarrow> cnt < n \<Longrightarrow> (rd + i) mod n \<noteq> (rd + cnt) mod (n :: nat)"
  by (auto simp: mod_if split: if_splits)

lemma ring_list_push:
  assumes "ring_ok n rd wr cnt" "cnt < n"
  shows "ring_list (buf(wr := x)) n rd (Suc cnt) = ring_list buf n rd cnt @ [x]"
  using assms ring_index_distinct [of rd n _ cnt] by (auto simp: ring_list_def ring_ok_def)

lemma ring_list_pop:
  assumes "rd < n" "0 < cnt"
  shows "ring_list buf n rd cnt = buf rd # ring_list buf n (Suc rd mod n) (cnt - 1)"
proof -
  obtain c where c: "cnt = Suc c" using assms(2) by (cases cnt) auto
  have "map (\<lambda>i. buf ((rd + i) mod n)) [0..<Suc c] =
      buf (rd mod n) # map (\<lambda>i. buf ((rd + Suc i) mod n)) [0..<c]"
    by (simp add: upt_conv_Cons map_Suc_upt [symmetric] comp_def del: upt_Suc)
  moreover have "(Suc rd mod n + i) mod n = (rd + Suc i) mod n" for i
    by (simp add: mod_simps)
  ultimately show ?thesis
    using assms(1) by (simp add: ring_list_def c)
qed

lemma ring_ok_push: "ring_ok n rd wr cnt \<Longrightarrow> cnt < n \<Longrightarrow> ring_ok n rd (Suc wr mod n) (Suc cnt)"
  by (auto simp: ring_ok_def mod_Suc_eq)

lemma ring_ok_pop: "ring_ok n rd wr cnt \<Longrightarrow> 0 < cnt \<Longrightarrow> ring_ok n (Suc rd mod n) wr (cnt - 1)"
proof -
  assume a: "ring_ok n rd wr cnt" "0 < cnt"
  then obtain c where "cnt = Suc c" by (cases cnt) auto
  with a show ?thesis by (auto simp: ring_ok_def mod_simps)
qed

lemma ring_ok_count: "ring_ok n rd wr cnt \<Longrightarrow> cnt \<le> n"
  by (simp add: ring_ok_def)

lemma ring_ok_rd: "ring_ok n rd wr cnt \<Longrightarrow> rd < n"
  by (simp add: ring_ok_def)

lemma ring_ok_wr: "ring_ok n rd wr cnt \<Longrightarrow> wr < n"
  by (simp add: ring_ok_def)

lemma ring_ok_empty [simp]: "0 < n \<Longrightarrow> ring_ok n 0 0 0"
  by (simp add: ring_ok_def)

lemmas ring_simps = ring_ok_push ring_ok_pop ring_list_push ring_list_pop ring_ok_count ring_ok_rd

section \<open>Banks of hardware locks\<close>

text \<open>
  The contract of a bank of test-and-set locks: an attempt returns a non-zero word exactly when the
  lock was free, and only a release of the same lock frees it. The spinlocks of the single-cycle IO
  block and the boot locks of the RP2350 keep it.
\<close>

datatype 'k lock_op = Acquire 'k | Release 'k

fun lock_step :: "('k \<Rightarrow> 's \<Rightarrow> u32 \<times> 's) \<Rightarrow> ('k \<Rightarrow> 's \<Rightarrow> 's) \<Rightarrow> 'k lock_op \<Rightarrow> 's \<Rightarrow> 's" where
  "lock_step acquire release (Acquire k) s = snd (acquire k s)"
| "lock_step acquire release (Release k) s = release k s"

locale lock_bank =
  fixes valid :: "'k \<Rightarrow> bool"
    and held :: "'k \<Rightarrow> 's \<Rightarrow> bool"
    and acquire :: "'k \<Rightarrow> 's \<Rightarrow> u32 \<times> 's"
    and release :: "'k \<Rightarrow> 's \<Rightarrow> 's"
  assumes acquire_fails: "valid k \<Longrightarrow> fst (acquire k s) = 0 \<longleftrightarrow> held k s"
    and acquire_holds: "valid k \<Longrightarrow> held k (snd (acquire k s))"
    and acquire_keeps: "valid k \<Longrightarrow> held k s \<Longrightarrow> held k (snd (acquire j s))"
    and release_keeps: "valid k \<Longrightarrow> j \<noteq> k \<Longrightarrow> held k s \<Longrightarrow> held k (release j s)"
    and release_frees: "valid k \<Longrightarrow> \<not> held k (release k s)"
begin

lemma steps_keep: "valid k \<Longrightarrow> Release k \<notin> set ops \<Longrightarrow> held k s \<Longrightarrow> held k (fold (lock_step acquire release) ops s)"
proof (induction ops arbitrary: s)
  case (Cons op ops)
  then show ?case by (cases op) (auto simp: acquire_keeps release_keeps)
qed simp

lemma exclusion:
  assumes "valid k" "Release k \<notin> set ops"
  shows "fst (acquire k (fold (lock_step acquire release) ops (snd (acquire k s)))) = 0"
    "fst (acquire k (release k s')) \<noteq> 0"
  using assms steps_keep acquire_holds by (simp_all add: acquire_fails release_frees)

end

end
