(* ===== verification/Nvic.thy ===== *)
theory Nvic
  imports Emu_Prelude
begin

unbundle bit_operations_syntax

text \<open>
  The interrupt system of \<^verbatim>\<open>src/nvic.c\<close> and \<^verbatim>\<open>include/nvic.h\<close>: the per-core interrupt
  controllers and SysTick timers, the fault registers, the memory protection unit and the
  security attribution unit of the M33. The file-level globals of the C code are the fields of
  the record \<open>nvic_ctx\<close>, which every operation takes and returns; \<open>active_core\<close> is what
  \<^verbatim>\<open>get_active_core()\<close> reads. C arrays are functions on \<open>nat\<close>; C flags are \<open>bool\<close>.
  The functions that only print, wake host threads (\<^verbatim>\<open>corepool_wake_cores\<close>) or collect
  latency statistics have no effect on this state.
\<close>

section \<open>State\<close>

record systick_state =
  st_csr :: u32
  st_rvr :: u32
  st_cvr :: u32
  st_pending :: bool
  st_zero_fired :: bool

record nvic_state =
  nv_enable :: "nat \<Rightarrow> u32"
  nv_pending :: "nat \<Rightarrow> u32"
  nv_priority :: "nat \<Rightarrow> u8"
  nv_iabr :: "nat \<Rightarrow> u32"
  nv_active_exceptions :: u32
  nv_active_exceptions_hi :: u32
  nv_shpr1 :: u32
  nv_shpr2 :: u32
  nv_shpr3 :: u32
  nv_pendsv_pending :: bool
  nv_priorities_nondefault :: bool
  nv_shcsr :: u32
  nv_cfsr :: u32
  nv_hfsr :: u32
  nv_mmfar :: u32
  nv_bfar :: u32

record mpu_state =
  mpu_ctrl :: u32
  mpu_rnr :: u32
  mpu_rbar :: "nat \<Rightarrow> u32"
  mpu_rlar :: "nat \<Rightarrow> u32"
  mpu_mair :: "nat \<Rightarrow> u32"

record sau_state =
  sau_ctrl :: u32
  sau_rnr :: u32
  sau_rbar :: "nat \<Rightarrow> u32"
  sau_rlar :: "nat \<Rightarrow> u32"

record nvic_ctx =
  active_core :: nat
  membus_rp2350_mode :: bool
  nvic_states :: "nat \<Rightarrow> nvic_state"
  systick_states :: "nat \<Rightarrow> systick_state"
  mpu :: mpu_state
  sau :: sau_state
  last_irq_signal :: u32
  irq_signal_count :: u32
  nvic_cpuid_value :: u32
  watchdog_reboot_pending :: bool

definition systick_zero :: systick_state where
  "systick_zero = \<lparr>st_csr = 0, st_rvr = 0, st_cvr = 0, st_pending = False, st_zero_fired = False\<rparr>"

definition nvic_zero :: nvic_state where
  "nvic_zero = \<lparr>nv_enable = (\<lambda>_. 0), nv_pending = (\<lambda>_. 0), nv_priority = (\<lambda>_. 0),
     nv_iabr = (\<lambda>_. 0), nv_active_exceptions = 0, nv_active_exceptions_hi = 0,
     nv_shpr1 = 0, nv_shpr2 = 0, nv_shpr3 = 0, nv_pendsv_pending = False,
     nv_priorities_nondefault = False, nv_shcsr = 0, nv_cfsr = 0, nv_hfsr = 0,
     nv_mmfar = 0, nv_bfar = 0\<rparr>"

definition mpu_zero :: mpu_state where
  "mpu_zero = \<lparr>mpu_ctrl = 0, mpu_rnr = 0, mpu_rbar = (\<lambda>_. 0), mpu_rlar = (\<lambda>_. 0),
     mpu_mair = (\<lambda>_. 0)\<rparr>"

definition sau_zero :: sau_state where
  "sau_zero = \<lparr>sau_ctrl = 0, sau_rnr = 0, sau_rbar = (\<lambda>_. 0), sau_rlar = (\<lambda>_. 0)\<rparr>"

text \<open>The static initialisers of the file-level variables.\<close>

definition nvic_boot :: nvic_ctx where
  "nvic_boot = \<lparr>active_core = 0, membus_rp2350_mode = False, nvic_states = (\<lambda>_. nvic_zero),
     systick_states = (\<lambda>_. systick_zero), mpu = mpu_zero, sau = sau_zero,
     last_irq_signal = 0xFFFFFFFF, irq_signal_count = 0, nvic_cpuid_value = 0x410CC601,
     watchdog_reboot_pending = False\<rparr>"

definition nvic_cur :: "nvic_ctx \<Rightarrow> nvic_state" where
  "nvic_cur c = nvic_states c (active_core c)"

definition systick_cur :: "nvic_ctx \<Rightarrow> systick_state" where
  "systick_cur c = systick_states c (active_core c)"

text \<open>Writing through the pointer \<^verbatim>\<open>nvic_cur()\<close> or \<^verbatim>\<open>systick_cur()\<close>.\<close>

definition upd_ns :: "(nvic_state \<Rightarrow> nvic_state) \<Rightarrow> nvic_ctx \<Rightarrow> nvic_ctx" where
  "upd_ns f c = c\<lparr>nvic_states := (nvic_states c)(active_core c := f (nvic_cur c))\<rparr>"

definition upd_st :: "(systick_state \<Rightarrow> systick_state) \<Rightarrow> nvic_ctx \<Rightarrow> nvic_ctx" where
  "upd_st f c = c\<lparr>systick_states := (systick_states c)(active_core c := f (systick_cur c))\<rparr>"

definition nvic_reset :: "nvic_ctx \<Rightarrow> nvic_ctx" where
  "nvic_reset c = c\<lparr>
     nvic_states := (nvic_states c)(0 := nvic_zero, 1 := nvic_zero),
     mpu := mpu_zero, sau := sau_zero,
     systick_states := (systick_states c)(0 := systick_zero, 1 := systick_zero),
     last_irq_signal := 0xFFFFFFFF, irq_signal_count := 0\<rparr>"

definition systick_reset :: "nvic_ctx \<Rightarrow> nvic_ctx" where
  "systick_reset c =
     c\<lparr>systick_states := (systick_states c)(0 := systick_zero, 1 := systick_zero)\<rparr>"

definition systick_init :: "nvic_ctx \<Rightarrow> nvic_ctx" where
  "systick_init c = systick_reset c"

definition nvic_init :: "nvic_ctx \<Rightarrow> nvic_ctx" where
  "nvic_init c = systick_reset (nvic_reset c)"

section \<open>SysTick\<close>

text \<open>Setting COUNTFLAG and, when TICKINT is set, pending the exception.\<close>

definition systick_pend :: "systick_state \<Rightarrow> systick_state" where
  "systick_pend st = (if st_csr st AND 2 \<noteq> 0 then st\<lparr>st_pending := True\<rparr> else st)"

definition systick_fire :: "systick_state \<Rightarrow> systick_state" where
  "systick_fire st = systick_pend (st\<lparr>st_csr := st_csr st OR shl 1 16\<rparr>)"

function systick_loop :: "u32 \<Rightarrow> u32 \<Rightarrow> systick_state \<Rightarrow> systick_state" where
  "systick_loop reload remaining st =
    (if remaining = 0 then st
     else if st_cvr st = 0 then
       (let reload0 = st_rvr st AND 0x00FFFFFF;
            st1 = st\<lparr>st_cvr := reload0\<rparr>
        in if reload0 = 0 then
             (if \<not> st_zero_fired st1 then systick_fire (st1\<lparr>st_zero_fired := True\<rparr>) else st1)
           else systick_loop reload (remaining - 1) (systick_fire st1))
     else if remaining < st_cvr st then st\<lparr>st_cvr := st_cvr st - remaining\<rparr>
     else
       (let rem1 = remaining - st_cvr st;
            st1 = systick_fire (st\<lparr>st_cvr := reload\<rparr>)
        in if reload = 0 then st1
           else if rem1 > reload then
             (let full_periods = (rem1 - 1) div reload
              in systick_loop reload (rem1 - full_periods * reload) (systick_pend st1))
           else systick_loop reload rem1 st1))"
  by pat_completeness auto

lemma full_periods_nat:
  fixes r p :: u32
  assumes "p \<noteq> 0" "p < r"
  shows "unat ((r - 1) div p * p) = (unat r - 1) div unat p * unat p"
    "unat (r - (r - 1) div p * p) = unat r - (unat r - 1) div unat p * unat p"
    "(unat r - 1) div unat p * unat p < unat r"
proof -
  have "0 < r"
    using assms(2) by (metis word_coorder.not_eq_extremum word_not_simps(1))
  then have r1: "unat (r - 1) = unat r - 1"
    by (metis One_nat_def gr_implies_not0 unat_minus_one word_less_nat_alt word_gt_0)
  have le: "(unat r - 1) div unat p * unat p \<le> unat r - 1"
    by (rule div_times_less_eq_dividend)
  then have "(unat r - 1) div unat p * unat p < 2 ^ LENGTH(32)"
    using unsigned_less [of r] by (meson diff_le_self le_less_trans)
  then show m: "unat ((r - 1) div p * p) = (unat r - 1) div unat p * unat p"
    by (simp add: unat_mult_lem [THEN iffD1] unat_div r1)
  show lt: "(unat r - 1) div unat p * unat p < unat r"
    using \<open>0 < r\<close> by (intro le_less_trans [OF le]) (simp add: word_less_nat_alt)
  then show "unat (r - (r - 1) div p * p) = unat r - (unat r - 1) div unat p * unat p"
    using m by (subst unat_sub) (simp_all add: word_le_nat_alt)
qed

lemma unat_pred_less:
  fixes w :: u32
  shows "w \<noteq> 0 \<Longrightarrow> unat (w - 1) < unat w"
  by (simp add: unat_minus_one unat_gt_0)

termination systick_loop
proof (relation "measure (\<lambda>(_, remaining, _). unat remaining)", goal_cases)
  case (2 reload remaining st)
  then show ?case by (simp add: unat_pred_less)
next
  case (3 reload remaining st rem1 st1 fp)
  then have "unat rem1 < unat remaining"
    by (simp add: not_less unat_sub word_le_nat_alt unat_gt_0)
  moreover have "unat (rem1 - fp * reload) \<le> unat rem1"
    using 3 full_periods_nat(2) [of reload rem1] by simp
  ultimately show ?case by simp
next
  case (4 reload remaining st rem1 st1)
  then show ?case
    by (simp add: not_less unat_sub word_le_nat_alt unat_gt_0)
qed simp

declare systick_loop.simps [simp del]

definition systick_tick :: "u32 \<Rightarrow> nvic_ctx \<Rightarrow> nvic_ctx" where
  "systick_tick cycles c =
     (if st_csr (systick_cur c) AND 1 = 0 then c
      else upd_st (\<lambda>st. systick_loop (st_rvr st AND 0x00FFFFFF) cycles st) c)"

definition systick_tick_for_core :: "int \<Rightarrow> u32 \<Rightarrow> nvic_ctx \<Rightarrow> nvic_ctx" where
  "systick_tick_for_core core_id cycles c =
     (if core_id < 0 \<or> core_id \<ge> 2 then c
      else let saved_core = active_core c
           in (systick_tick cycles (c\<lparr>active_core := nat core_id\<rparr>))\<lparr>active_core := saved_core\<rparr>)"

section \<open>Register addresses and exception numbers\<close>

abbreviation (input) NVIC_ISER :: u32 where "NVIC_ISER \<equiv> 0xE000E100"
abbreviation (input) NVIC_ICER :: u32 where "NVIC_ICER \<equiv> 0xE000E180"
abbreviation (input) NVIC_ISPR :: u32 where "NVIC_ISPR \<equiv> 0xE000E200"
abbreviation (input) NVIC_ICPR :: u32 where "NVIC_ICPR \<equiv> 0xE000E280"
abbreviation (input) NVIC_IABR :: u32 where "NVIC_IABR \<equiv> 0xE000E300"
abbreviation (input) NVIC_IPR :: u32 where "NVIC_IPR \<equiv> 0xE000E400"
abbreviation (input) NVIC_STIR :: u32 where "NVIC_STIR \<equiv> 0xE000EF00"
abbreviation (input) SYST_CSR :: u32 where "SYST_CSR \<equiv> 0xE000E010"
abbreviation (input) SYST_RVR :: u32 where "SYST_RVR \<equiv> 0xE000E014"
abbreviation (input) SYST_CVR :: u32 where "SYST_CVR \<equiv> 0xE000E018"
abbreviation (input) SYST_CALIB :: u32 where "SYST_CALIB \<equiv> 0xE000E01C"
abbreviation (input) SCB_BASE :: u32 where "SCB_BASE \<equiv> 0xE000ED00"
abbreviation (input) SCB_ICSR :: u32 where "SCB_ICSR \<equiv> 0xE000ED04"
abbreviation (input) SCB_VTOR :: u32 where "SCB_VTOR \<equiv> 0xE000ED08"
abbreviation (input) SCB_AIRCR :: u32 where "SCB_AIRCR \<equiv> 0xE000ED0C"
abbreviation (input) SCB_SCR :: u32 where "SCB_SCR \<equiv> 0xE000ED10"
abbreviation (input) SCB_CCR :: u32 where "SCB_CCR \<equiv> 0xE000ED14"
abbreviation (input) SCB_SHPR1 :: u32 where "SCB_SHPR1 \<equiv> 0xE000ED18"
abbreviation (input) SCB_SHPR2 :: u32 where "SCB_SHPR2 \<equiv> 0xE000ED1C"
abbreviation (input) SCB_SHPR3 :: u32 where "SCB_SHPR3 \<equiv> 0xE000ED20"
abbreviation (input) SCB_SHCSR :: u32 where "SCB_SHCSR \<equiv> 0xE000ED24"
abbreviation (input) SCB_CFSR :: u32 where "SCB_CFSR \<equiv> 0xE000ED28"
abbreviation (input) SCB_HFSR :: u32 where "SCB_HFSR \<equiv> 0xE000ED2C"
abbreviation (input) SCB_MMFAR :: u32 where "SCB_MMFAR \<equiv> 0xE000ED34"
abbreviation (input) SCB_BFAR :: u32 where "SCB_BFAR \<equiv> 0xE000ED38"
abbreviation (input) MPU_TYPE :: u32 where "MPU_TYPE \<equiv> 0xE000ED90"
abbreviation (input) MPU_CTRL :: u32 where "MPU_CTRL \<equiv> 0xE000ED94"
abbreviation (input) MPU_RNR :: u32 where "MPU_RNR \<equiv> 0xE000ED98"
abbreviation (input) MPU_RBAR :: u32 where "MPU_RBAR \<equiv> 0xE000ED9C"
abbreviation (input) MPU_RLAR :: u32 where "MPU_RLAR \<equiv> 0xE000EDA0"
abbreviation (input) MPU_RBAR_A1 :: u32 where "MPU_RBAR_A1 \<equiv> 0xE000EDA4"
abbreviation (input) MPU_RLAR_A1 :: u32 where "MPU_RLAR_A1 \<equiv> 0xE000EDA8"
abbreviation (input) MPU_RBAR_A2 :: u32 where "MPU_RBAR_A2 \<equiv> 0xE000EDAC"
abbreviation (input) MPU_RLAR_A2 :: u32 where "MPU_RLAR_A2 \<equiv> 0xE000EDB0"
abbreviation (input) MPU_RBAR_A3 :: u32 where "MPU_RBAR_A3 \<equiv> 0xE000EDB4"
abbreviation (input) MPU_RLAR_A3 :: u32 where "MPU_RLAR_A3 \<equiv> 0xE000EDB8"
abbreviation (input) MPU_MAIR0 :: u32 where "MPU_MAIR0 \<equiv> 0xE000EDC0"
abbreviation (input) MPU_MAIR1 :: u32 where "MPU_MAIR1 \<equiv> 0xE000EDC4"
abbreviation (input) SAU_CTRL :: u32 where "SAU_CTRL \<equiv> 0xE000EDD0"
abbreviation (input) SAU_TYPE :: u32 where "SAU_TYPE \<equiv> 0xE000EDD4"
abbreviation (input) SAU_RNR :: u32 where "SAU_RNR \<equiv> 0xE000EDD8"
abbreviation (input) SAU_RBAR :: u32 where "SAU_RBAR \<equiv> 0xE000EDDC"
abbreviation (input) SAU_RLAR :: u32 where "SAU_RLAR \<equiv> 0xE000EDE0"
abbreviation (input) EXC_RESET :: u32 where "EXC_RESET \<equiv> 1"
abbreviation (input) EXC_NMI :: u32 where "EXC_NMI \<equiv> 2"
abbreviation (input) EXC_HARDFAULT :: u32 where "EXC_HARDFAULT \<equiv> 3"
abbreviation (input) EXC_MEMFAULT :: u32 where "EXC_MEMFAULT \<equiv> 4"
abbreviation (input) EXC_BUSFAULT :: u32 where "EXC_BUSFAULT \<equiv> 5"
abbreviation (input) EXC_USAGEFAULT :: u32 where "EXC_USAGEFAULT \<equiv> 6"
abbreviation (input) EXC_SVCALL :: u32 where "EXC_SVCALL \<equiv> 11"
abbreviation (input) EXC_PENDSV :: u32 where "EXC_PENDSV \<equiv> 14"
abbreviation (input) EXC_SYSTICK :: u32 where "EXC_SYSTICK \<equiv> 15"

section \<open>Interrupt controller\<close>

text \<open>The two-word bit helpers of \<^verbatim>\<open>nvic.h\<close>: word \<open>irq >> 5\<close>, bit \<open>irq & 31\<close>.\<close>

definition nvic_bit_set :: "(nat \<Rightarrow> u32) \<Rightarrow> u32 \<Rightarrow> (nat \<Rightarrow> u32)" where
  "nvic_bit_set w irq =
     w(unat (shr irq 5) := w (unat (shr irq 5)) OR shl 1 (unat (irq AND 31)))"

definition nvic_bit_clear :: "(nat \<Rightarrow> u32) \<Rightarrow> u32 \<Rightarrow> (nat \<Rightarrow> u32)" where
  "nvic_bit_clear w irq =
     w(unat (shr irq 5) := w (unat (shr irq 5)) AND NOT (shl 1 (unat (irq AND 31))))"

definition nvic_bit_test :: "(nat \<Rightarrow> u32) \<Rightarrow> u32 \<Rightarrow> bool" where
  "nvic_bit_test w irq \<longleftrightarrow> shr (w (unat (shr irq 5))) (unat (irq AND 31)) AND 1 \<noteq> 0"

definition nvic_exc_set :: "u32 \<Rightarrow> nvic_state \<Rightarrow> nvic_state" where
  "nvic_exc_set vec ns =
     (if vec < 32
      then ns\<lparr>nv_active_exceptions := nv_active_exceptions ns OR shl 1 (unat vec)\<rparr>
      else ns\<lparr>nv_active_exceptions_hi := nv_active_exceptions_hi ns OR shl 1 (unat (vec - 32))\<rparr>)"

definition nvic_exc_clear :: "u32 \<Rightarrow> nvic_state \<Rightarrow> nvic_state" where
  "nvic_exc_clear vec ns =
     (if vec < 32
      then ns\<lparr>nv_active_exceptions := nv_active_exceptions ns AND NOT (shl 1 (unat vec))\<rparr>
      else ns\<lparr>nv_active_exceptions_hi :=
               nv_active_exceptions_hi ns AND NOT (shl 1 (unat (vec - 32)))\<rparr>)"

definition rp2040_to_rp2350 :: "u32 list" where
  "rp2040_to_rp2350 = [0, 1, 2, 3, 8, 14, 22, 15, 16, 17, 18, 10, 11, 21, 23, 25, 26, 30, 31, 32,
     33, 34, 35, 36, 37, 45, 46, 47, 48, 49, 50, 51]"

definition nvic_rp2350_irq :: "nvic_ctx \<Rightarrow> u32 \<Rightarrow> u32" where
  "nvic_rp2350_irq c irq =
     (if \<not> membus_rp2350_mode c \<or> irq \<ge> 32 then irq
      else rp2040_to_rp2350 ! unat (irq AND 31))"

definition nvic_get_exception_priority :: "nvic_ctx \<Rightarrow> u32 \<Rightarrow> u8" where
  "nvic_get_exception_priority c vector_num =
     (let ns = nvic_cur c in
      if vector_num = EXC_RESET \<or> vector_num = EXC_NMI \<or> vector_num = EXC_HARDFAULT then 0
      else if vector_num = EXC_SVCALL then ucast (shr (nv_shpr2 ns) 24 AND 0xC0)
      else if vector_num = EXC_PENDSV then ucast (shr (nv_shpr3 ns) 16 AND 0xC0)
      else if vector_num = EXC_SYSTICK then ucast (shr (nv_shpr3 ns) 24 AND 0xC0)
      else if vector_num \<ge> 16 \<and> vector_num - 16 < 64
        then nv_priority ns (unat (vector_num - 16)) AND 0xC0
      else 0xFF)"

definition nvic_enable_irq :: "u32 \<Rightarrow> nvic_ctx \<Rightarrow> nvic_ctx" where
  "nvic_enable_irq irq c =
     (if irq < 64 then upd_ns (\<lambda>ns. ns\<lparr>nv_enable := nvic_bit_set (nv_enable ns) irq\<rparr>) c else c)"

definition nvic_disable_irq :: "u32 \<Rightarrow> nvic_ctx \<Rightarrow> nvic_ctx" where
  "nvic_disable_irq irq c =
     (if irq < 64 then upd_ns (\<lambda>ns. ns\<lparr>nv_enable := nvic_bit_clear (nv_enable ns) irq\<rparr>) c else c)"

definition nvic_set_pending :: "u32 \<Rightarrow> nvic_ctx \<Rightarrow> nvic_ctx" where
  "nvic_set_pending irq c =
     (if irq < 64 then upd_ns (\<lambda>ns. ns\<lparr>nv_pending := nvic_bit_set (nv_pending ns) irq\<rparr>) c else c)"

definition nvic_clear_pending :: "u32 \<Rightarrow> nvic_ctx \<Rightarrow> nvic_ctx" where
  "nvic_clear_pending irq c =
     (if irq < 64 then upd_ns (\<lambda>ns. ns\<lparr>nv_pending := nvic_bit_clear (nv_pending ns) irq\<rparr>) c else c)"

definition nvic_set_priority :: "u32 \<Rightarrow> u8 \<Rightarrow> nvic_ctx \<Rightarrow> nvic_ctx" where
  "nvic_set_priority irq priority c =
     (if irq < 64 then
        upd_ns (\<lambda>ns. let p = (nv_priority ns)(unat irq := priority AND 0xC0)
                     in ns\<lparr>nv_priority := p,
                          nv_priorities_nondefault := list_ex (\<lambda>i. p i \<noteq> 0) [0..<64]\<rparr>) c
      else c)"

text \<open>
  The slow path of \<^verbatim>\<open>nvic_get_pending_irq\<close>: the inner loop over the set bits of one word,
  carrying \<open>highest_priority_irq\<close> and \<open>highest_priority_value\<close>.
\<close>

function nvic_scan_word :: "(nat \<Rightarrow> u8) \<Rightarrow> nat \<Rightarrow> u32 \<Rightarrow> u32 \<times> u8 \<Rightarrow> u32 \<times> u8" where
  "nvic_scan_word priority w bits (hp_irq, hp_value) =
     (if bits = 0 then (hp_irq, hp_value)
      else let irq = of_nat (w * 32) + of_nat (ctz32 bits);
               prio = priority (unat irq) AND 0xC0
           in nvic_scan_word priority w (bits AND (bits - 1))
                (if prio < hp_value \<or> (prio = hp_value \<and> irq < hp_irq)
                 then (irq, prio) else (hp_irq, hp_value)))"
  by pat_completeness auto
termination by (relation "measure (\<lambda>(_, _, bits, _). unat bits)") (auto simp: clear_lowest_less)

declare nvic_scan_word.simps [simp del]

definition nvic_get_pending_irq :: "nvic_ctx \<Rightarrow> u32" where
  "nvic_get_pending_irq c =
     (let ns = nvic_cur c;
          w0 = nv_pending ns 0 AND nv_enable ns 0;
          w1 = nv_pending ns 1 AND nv_enable ns 1
      in if w0 OR w1 = 0 then 0xFFFFFFFF
         else if \<not> nv_priorities_nondefault ns then
           (if w0 \<noteq> 0 then of_nat (ctz32 w0) else 32 + of_nat (ctz32 w1))
         else fst (nvic_scan_word (nv_priority ns) 1 w1
                     (nvic_scan_word (nv_priority ns) 0 w0 (0xFFFFFFFF, 0xFF))))"

definition nvic_signal_irq :: "u32 \<Rightarrow> nvic_ctx \<Rightarrow> nvic_ctx" where
  "nvic_signal_irq irq c =
     (if irq < 64 then
        c\<lparr>irq_signal_count := irq_signal_count c + 1,
          last_irq_signal := irq,
          nvic_states := (nvic_states c)
            (0 := (nvic_states c 0)\<lparr>nv_pending := nvic_bit_set (nv_pending (nvic_states c 0)) irq\<rparr>,
             1 := (nvic_states c 1)\<lparr>nv_pending := nvic_bit_set (nv_pending (nvic_states c 1)) irq\<rparr>)\<rparr>
      else c)"

definition nvic_signal_rp2350_irq :: "u32 \<Rightarrow> nvic_ctx \<Rightarrow> nvic_ctx" where
  "nvic_signal_rp2350_irq irq c = nvic_signal_irq (nvic_rp2350_irq c irq) c"

section \<open>Registers\<close>

definition nvic_read_ipr :: "nvic_state \<Rightarrow> u32 \<Rightarrow> u32" where
  "nvic_read_ipr ns addr =
     (let off = (addr - NVIC_IPR) div 4 in
      if off < 16 then
        fold (\<lambda>i result. let irq_idx = unat off * 4 + i in
                if irq_idx < 64
                then result OR shl (ucast (nv_priority ns irq_idx AND 0xC0)) (i * 8) else result)
          [0..<4] 0
      else 0)"

definition nvic_write_ipr :: "u32 \<Rightarrow> u32 \<Rightarrow> nvic_state \<Rightarrow> nvic_state" where
  "nvic_write_ipr addr val ns =
     (let off = (addr - NVIC_IPR) div 4 in
      if off < 16 then
        let p = fold (\<lambda>i p. let irq_idx = unat off * 4 + i in
                  if irq_idx < 64 then p(irq_idx := ucast (shr val (i * 8) AND 0xC0)) else p)
                [0..<4] (nv_priority ns)
        in ns\<lparr>nv_priority := p,
              nv_priorities_nondefault := list_ex (\<lambda>i. p i AND 0xC0 \<noteq> 0) [0..<64]\<rparr>
      else ns)"

definition nvic_read_icsr :: "nvic_ctx \<Rightarrow> u32" where
  "nvic_read_icsr c =
     (let pending_irq = nvic_get_pending_irq c in
      (if pending_irq \<noteq> 0xFFFFFFFF then shl (pending_irq + 16) 12 OR shl 1 22 else 0)
      OR cond_mask (st_pending (systick_cur c)) (shl 1 30)
      OR cond_mask (nv_pendsv_pending (nvic_cur c)) (shl 1 28))"

definition mpu_region_of :: "mpu_state \<Rightarrow> u32 \<Rightarrow> u32 \<Rightarrow> u32 \<Rightarrow> u32 \<Rightarrow> nat" where
  "mpu_region_of m addr r0 r1 r2 =
     (if addr = r0 then unat (mpu_rnr m AND 7) else if addr = r1 then 1
      else if addr = r2 then 2 else 3)"

text \<open>The registers that exist on the M33 only; they read as zero in RP2040 mode.\<close>

definition nvic_read_m33 :: "u32 \<Rightarrow> nvic_ctx \<Rightarrow> u32" where
  "nvic_read_m33 addr c =
    (let ns = nvic_cur c in
     if addr = SCB_SHCSR then nv_shcsr ns
     else if addr = SCB_CFSR then nv_cfsr ns
     else if addr = SCB_HFSR then nv_hfsr ns
     else if addr = SCB_MMFAR then nv_mmfar ns
     else if addr = SCB_BFAR then nv_bfar ns
     else if addr = MPU_TYPE then shl 8 8
     else if addr = MPU_CTRL then mpu_ctrl (mpu c)
     else if addr = MPU_RNR then mpu_rnr (mpu c) AND 7
     else if addr = MPU_RBAR \<or> addr = MPU_RBAR_A1 \<or> addr = MPU_RBAR_A2 \<or> addr = MPU_RBAR_A3 then
       mpu_rbar (mpu c) (mpu_region_of (mpu c) addr MPU_RBAR MPU_RBAR_A1 MPU_RBAR_A2)
     else if addr = MPU_RLAR \<or> addr = MPU_RLAR_A1 \<or> addr = MPU_RLAR_A2 \<or> addr = MPU_RLAR_A3 then
       mpu_rlar (mpu c) (mpu_region_of (mpu c) addr MPU_RLAR MPU_RLAR_A1 MPU_RLAR_A2)
     else if addr = MPU_MAIR0 then mpu_mair (mpu c) 0
     else if addr = MPU_MAIR1 then mpu_mair (mpu c) 1
     else if addr = SAU_CTRL then sau_ctrl (sau c) AND 3
     else if addr = SAU_TYPE then 8
     else if addr = SAU_RNR then sau_rnr (sau c) AND 7
     else if addr = SAU_RBAR then sau_rbar (sau c) (unat (sau_rnr (sau c) AND 7))
     else if addr = SAU_RLAR then sau_rlar (sau c) (unat (sau_rnr (sau c) AND 7))
     else 0)"

text \<open>The argument \<open>vtor\<close> is \<^verbatim>\<open>cpu.vtor\<close> of the running core. Only SYST_CSR has a read
  side effect: it clears COUNTFLAG.\<close>

definition nvic_read_register :: "u32 \<Rightarrow> u32 \<Rightarrow> nvic_ctx \<Rightarrow> u32 \<times> nvic_ctx" where
  "nvic_read_register vtor addr c =
    (let ns = nvic_cur c; st = systick_cur c in
     if addr = NVIC_STIR then (0, c)
     else if addr = SYST_CSR then
       (st_csr st, upd_st (\<lambda>st. st\<lparr>st_csr := st_csr st AND NOT (shl 1 16)\<rparr>) c)
     else if addr = SYST_RVR then (st_rvr st AND 0x00FFFFFF, c)
     else if addr = SYST_CVR then (st_cvr st AND 0x00FFFFFF, c)
     else if addr = SYST_CALIB then (0xC0002710, c)
     else if addr = NVIC_ISER \<or> addr = NVIC_ISER + 4 then
       (nv_enable ns (unat ((addr - NVIC_ISER) div 4)), c)
     else if addr = NVIC_ICER \<or> addr = NVIC_ICER + 4 then
       (nv_enable ns (unat ((addr - NVIC_ICER) div 4)), c)
     else if addr = NVIC_ISPR \<or> addr = NVIC_ISPR + 4 then
       (nv_pending ns (unat ((addr - NVIC_ISPR) div 4)), c)
     else if addr = NVIC_ICPR \<or> addr = NVIC_ICPR + 4 then
       (nv_pending ns (unat ((addr - NVIC_ICPR) div 4)), c)
     else if addr = NVIC_IABR then (nv_iabr ns 0, c)
     else if addr = NVIC_IABR + 4 then (nv_iabr ns 1, c)
     else if addr - NVIC_IPR \<le> 60 \<and> addr AND 3 = 0 then (nvic_read_ipr ns addr, c)
     else if addr = SCB_ICSR then (nvic_read_icsr c, c)
     else if addr = SCB_VTOR then (vtor, c)
     else if addr = SCB_BASE then (nvic_cpuid_value c, c)
     else if addr = SCB_AIRCR then (0x05FA0000, c)
     else if addr = SCB_SCR then (0, c)
     else if addr = SCB_CCR then (shl 1 9, c)
     else if addr = SCB_SHPR1 then (nv_shpr1 ns, c)
     else if addr = SCB_SHPR2 then (nv_shpr2 ns, c)
     else if addr = SCB_SHPR3 then (nv_shpr3 ns, c)
     else (if membus_rp2350_mode c then nvic_read_m33 addr c else 0, c))"

definition nvic_write_icsr :: "u32 \<Rightarrow> nvic_ctx \<Rightarrow> nvic_ctx" where
  "nvic_write_icsr val c =
     (let c1 = (if bit val 29 then upd_ns (\<lambda>ns. ns\<lparr>nv_pendsv_pending := False\<rparr>) c else c);
          c2 = (if bit val 31 then upd_st (\<lambda>st. st\<lparr>st_pending := False\<rparr>) c1 else c1);
          c3 = (if bit val 28 then upd_ns (\<lambda>ns. ns\<lparr>nv_pendsv_pending := True\<rparr>) c2 else c2)
      in if bit val 30 then upd_st (\<lambda>st. st\<lparr>st_pending := True\<rparr>) c3 else c3)"

definition upd_mpu :: "(mpu_state \<Rightarrow> mpu_state) \<Rightarrow> nvic_ctx \<Rightarrow> nvic_ctx" where
  "upd_mpu f c = c\<lparr>mpu := f (mpu c)\<rparr>"

definition upd_sau :: "(sau_state \<Rightarrow> sau_state) \<Rightarrow> nvic_ctx \<Rightarrow> nvic_ctx" where
  "upd_sau f c = c\<lparr>sau := f (sau c)\<rparr>"

definition nvic_write_m33 :: "u32 \<Rightarrow> u32 \<Rightarrow> nvic_ctx \<Rightarrow> nvic_ctx" where
  "nvic_write_m33 addr val c =
    (if addr = SCB_SHPR1 then upd_ns (\<lambda>ns. ns\<lparr>nv_shpr1 := val AND 0x00C0C0C0\<rparr>) c
     else if addr = SCB_SHCSR then
       upd_ns (\<lambda>ns. ns\<lparr>nv_pendsv_pending := bit val 15 \<or> nv_pendsv_pending ns,
                nv_shcsr := (nv_shcsr ns AND NOT 0x00070000) OR (val AND 0x00070000)\<rparr>) c
     else if addr = SCB_CFSR then upd_ns (\<lambda>ns. ns\<lparr>nv_cfsr := nv_cfsr ns AND NOT val\<rparr>) c
     else if addr = SCB_HFSR then upd_ns (\<lambda>ns. ns\<lparr>nv_hfsr := nv_hfsr ns AND NOT val\<rparr>) c
     else if addr = SCB_MMFAR then upd_ns (\<lambda>ns. ns\<lparr>nv_mmfar := val\<rparr>) c
     else if addr = SCB_BFAR then upd_ns (\<lambda>ns. ns\<lparr>nv_bfar := val\<rparr>) c
     else if addr = MPU_CTRL then upd_mpu (\<lambda>m. m\<lparr>mpu_ctrl := val AND 7\<rparr>) c
     else if addr = MPU_RNR then upd_mpu (\<lambda>m. m\<lparr>mpu_rnr := val AND 7\<rparr>) c
     else if addr = MPU_RBAR \<or> addr = MPU_RBAR_A1 \<or> addr = MPU_RBAR_A2 \<or> addr = MPU_RBAR_A3 then
       upd_mpu (\<lambda>m. m\<lparr>mpu_rbar := (mpu_rbar m)
          (mpu_region_of m addr MPU_RBAR MPU_RBAR_A1 MPU_RBAR_A2 := val AND 0xFFFFFF1F)\<rparr>) c
     else if addr = MPU_RLAR \<or> addr = MPU_RLAR_A1 \<or> addr = MPU_RLAR_A2 \<or> addr = MPU_RLAR_A3 then
       upd_mpu (\<lambda>m. m\<lparr>mpu_rlar := (mpu_rlar m)
          (mpu_region_of m addr MPU_RLAR MPU_RLAR_A1 MPU_RLAR_A2 := val AND 0xFFFFFF3F)\<rparr>) c
     else if addr = MPU_MAIR0 then upd_mpu (\<lambda>m. m\<lparr>mpu_mair := (mpu_mair m)(0 := val)\<rparr>) c
     else if addr = MPU_MAIR1 then upd_mpu (\<lambda>m. m\<lparr>mpu_mair := (mpu_mair m)(1 := val)\<rparr>) c
     else if addr = SAU_CTRL then upd_sau (\<lambda>m. m\<lparr>sau_ctrl := val AND 3\<rparr>) c
     else if addr = SAU_RNR then upd_sau (\<lambda>m. m\<lparr>sau_rnr := val AND 7\<rparr>) c
     else if addr = SAU_RBAR then
       upd_sau (\<lambda>m. m\<lparr>sau_rbar := (sau_rbar m)(unat (sau_rnr m AND 7) := val AND 0xFFFFFFE0)\<rparr>) c
     else if addr = SAU_RLAR then
       upd_sau (\<lambda>m. m\<lparr>sau_rlar := (sau_rlar m)(unat (sau_rnr m AND 7) := val AND 0xFFFFFFE3)\<rparr>) c
     else c)"

text \<open>The result carries the new value of \<^verbatim>\<open>cpu.vtor\<close> of the running core.\<close>

definition nvic_write_register :: "u32 \<Rightarrow> u32 \<Rightarrow> u32 \<Rightarrow> nvic_ctx \<Rightarrow> u32 \<times> nvic_ctx" where
  "nvic_write_register vtor addr val c =
    (let m33 = membus_rp2350_mode c in
     if addr = NVIC_STIR then
       (vtor, if m33 \<and> val AND 0x1FF < 64 then nvic_signal_irq (val AND 0x1FF) c else c)
     else if addr = SYST_CSR then
       (vtor, upd_st (\<lambda>st. st\<lparr>st_csr := (st_csr st AND NOT 7) OR (val AND 7)\<rparr>) c)
     else if addr = SYST_RVR then
       (vtor, upd_st (\<lambda>st. st\<lparr>st_rvr := val AND 0x00FFFFFF, st_zero_fired := False\<rparr>) c)
     else if addr = SYST_CVR then
       (vtor, upd_st (\<lambda>st. st\<lparr>st_cvr := 0, st_csr := st_csr st AND NOT (shl 1 16)\<rparr>) c)
     else if addr = NVIC_ISER \<or> addr = NVIC_ISER + 4 then
       (vtor, let grp = unat ((addr - NVIC_ISER) div 4) in
          upd_ns (\<lambda>ns. ns\<lparr>nv_enable := (nv_enable ns)(grp := nv_enable ns grp OR val)\<rparr>) c)
     else if addr = NVIC_ICER \<or> addr = NVIC_ICER + 4 then
       (vtor, let grp = unat ((addr - NVIC_ICER) div 4) in
          upd_ns (\<lambda>ns. ns\<lparr>nv_enable := (nv_enable ns)(grp := nv_enable ns grp AND NOT val)\<rparr>) c)
     else if addr = NVIC_ISPR \<or> addr = NVIC_ISPR + 4 then
       (vtor, let grp = unat ((addr - NVIC_ISPR) div 4) in
          upd_ns (\<lambda>ns. ns\<lparr>nv_pending := (nv_pending ns)(grp := nv_pending ns grp OR val)\<rparr>) c)
     else if addr = NVIC_ICPR \<or> addr = NVIC_ICPR + 4 then
       (vtor, let grp = unat ((addr - NVIC_ICPR) div 4) in
          upd_ns (\<lambda>ns. ns\<lparr>nv_pending := (nv_pending ns)(grp := nv_pending ns grp AND NOT val)\<rparr>) c)
     else if addr - NVIC_IPR \<le> 60 \<and> addr AND 3 = 0 then
       (vtor, upd_ns (nvic_write_ipr addr val) c)
     else if addr = SCB_ICSR then (vtor, nvic_write_icsr val c)
     else if addr = SCB_VTOR then (val AND 0xFFFFFF80, c)
     else if addr = SCB_SHPR2 then (vtor, upd_ns (\<lambda>ns. ns\<lparr>nv_shpr2 := val AND 0xC0000000\<rparr>) c)
     else if addr = SCB_SHPR3 then (vtor, upd_ns (\<lambda>ns. ns\<lparr>nv_shpr3 := val AND 0xC0C00000\<rparr>) c)
     else if addr = SCB_AIRCR then
       (vtor, if shr val 16 = 0x05FA \<and> bit val 2 then c\<lparr>watchdog_reboot_pending := True\<rparr> else c)
     else (vtor, if m33 then nvic_write_m33 addr val c else c))"

section \<open>Memory protection, attribution and faults\<close>

definition region_hit :: "u32 \<Rightarrow> u32 \<Rightarrow> u32 \<Rightarrow> bool" where
  "region_hit rbar rlar addr \<longleftrightarrow>
     rlar AND 1 \<noteq> 0 \<and> addr \<ge> rbar AND 0xFFFFFFE0 \<and> addr \<le> (rlar AND 0xFFFFFFE0) OR 0x1F"

definition sau_attr :: "nvic_ctx \<Rightarrow> u32 \<Rightarrow> nat" where
  "sau_attr c addr =
     (if \<not> membus_rp2350_mode c then 0
      else if sau_ctrl (sau c) AND 1 = 0 then (if sau_ctrl (sau c) AND 2 \<noteq> 0 then 1 else 0)
      else case List.find (\<lambda>r. region_hit (sau_rbar (sau c) r) (sau_rlar (sau c) r) addr) [0..<8] of
             Some r \<Rightarrow> (if sau_rlar (sau c) r AND 2 \<noteq> 0 then 2 else 1)
           | None \<Rightarrow> 0)"

definition mpu_check :: "nvic_ctx \<Rightarrow> u32 \<Rightarrow> bool \<Rightarrow> bool \<Rightarrow> u32" where
  "mpu_check c addr is_write is_priv =
     (if \<not> membus_rp2350_mode c then 0
      else if mpu_ctrl (mpu c) AND 1 = 0 then
        (if addr \<ge> 0xE0000000 \<and> addr < 0xE0010000 \<and> (\<not> is_priv \<or> mpu_ctrl (mpu c) AND 4 = 0)
         then EXC_HARDFAULT else 0)
      else case fold (\<lambda>r hit. if region_hit (mpu_rbar (mpu c) r) (mpu_rlar (mpu c) r) addr
                             then Some r else hit) [0..<8] None of
             None \<Rightarrow> (if is_priv \<and> mpu_ctrl (mpu c) AND 4 \<noteq> 0 then 0 else EXC_HARDFAULT)
           | Some hit \<Rightarrow>
               (let ap = shr (mpu_rbar (mpu c) hit) 1 AND 3 in
                if is_write then
                  (if ap = 3 then EXC_MEMFAULT
                   else if \<not> is_priv \<and> ap = 2 then EXC_MEMFAULT else 0)
                else if \<not> is_priv \<and> ap = 2 then EXC_MEMFAULT else 0))"

text \<open>The argument \<open>control\<close> is \<^verbatim>\<open>cpu.control\<close> of the running core.\<close>

definition tt_answer :: "u32 \<Rightarrow> nvic_ctx \<Rightarrow> u32 \<Rightarrow> bool \<Rightarrow> u32" where
  "tt_answer control c addr alt =
     (if sau_ctrl (sau c) AND 1 = 0 \<and> mpu_ctrl (mpu c) AND 1 = 0 then
        (if sau_ctrl (sau c) AND 2 \<noteq> 0 then shl 1 21 else shl 1 22)
      else let is_priv = (if alt then False else control AND 2 = 0) in
        (if sau_attr c addr = 0 then shl 1 22 else shl 1 21)
        OR cond_mask (mpu_check c addr False is_priv \<noteq> 0) 1)"

definition nvic_raise_fault :: "u32 \<Rightarrow> u32 \<Rightarrow> nvic_ctx \<Rightarrow> nvic_ctx" where
  "nvic_raise_fault exc cfsr_bits c =
     (if \<not> membus_rp2350_mode c
      then upd_ns (\<lambda>ns. ns\<lparr>nv_pending := nvic_bit_set (nv_pending ns) 32\<rparr>) c
      else upd_ns (\<lambda>ns0. let ns = ns0\<lparr>nv_hfsr := nv_hfsr ns0 OR shl 1 30\<rparr> in
             if exc = EXC_MEMFAULT
             then ns\<lparr>nv_cfsr := nv_cfsr ns OR cfsr_bits, nv_shcsr := nv_shcsr ns OR shl 1 0\<rparr>
             else if exc = EXC_BUSFAULT
             then ns\<lparr>nv_cfsr := nv_cfsr ns OR cfsr_bits, nv_shcsr := nv_shcsr ns OR shl 1 1\<rparr>
             else if exc = EXC_USAGEFAULT
             then ns\<lparr>nv_cfsr := nv_cfsr ns OR cfsr_bits, nv_shcsr := nv_shcsr ns OR shl 1 2\<rparr>
             else ns) c)"

section \<open>SysTick: batched ticking equals single cycles\<close>

text \<open>
  The reference behaviour that the comment above \<^verbatim>\<open>systick_tick\<close> states: one cycle
  decrements a non-zero counter; a cycle that leaves the counter at zero sets COUNTFLAG,
  reloads, and pends the exception when TICKINT is set.
\<close>

definition systick_cycle :: "systick_state \<Rightarrow> systick_state" where
  "systick_cycle st =
     (let st1 = (if st_cvr st \<noteq> 0 then st\<lparr>st_cvr := st_cvr st - 1\<rparr> else st)
      in if st_cvr st1 = 0 then systick_fire (st1\<lparr>st_cvr := st_rvr st1 AND 0x00FFFFFF\<rparr>) else st1)"

lemma systick_fire_fields [simp]:
  "st_cvr (systick_fire st) = st_cvr st"
  "st_rvr (systick_fire st) = st_rvr st"
  "st_csr (systick_fire st) = st_csr st OR shl 1 16"
  "st_zero_fired (systick_fire st) = st_zero_fired st"
  "st_pending (systick_fire st) = (st_csr st AND 2 \<noteq> 0 \<or> st_pending st)"
proof -
  have "(w OR push_bit 16 1) AND 2 = w AND 2" for w :: u32
    by (rule bit_word_eqI) (auto simp: bit_simps)
  then show "st_pending (systick_fire st) = (st_csr st AND 2 \<noteq> 0 \<or> st_pending st)"
    by (simp add: systick_fire_def systick_pend_def)
qed (simp_all add: systick_fire_def systick_pend_def)

lemma systick_pend_fire [simp]: "systick_pend (systick_fire st) = systick_fire st"
proof -
  have "(w OR push_bit 16 1) AND 2 = w AND 2" for w :: u32
    by (rule bit_word_eqI) (auto simp: bit_simps)
  then show ?thesis
    by (simp add: systick_fire_def systick_pend_def)
qed

lemma systick_fire_cvr: "systick_fire (st\<lparr>st_cvr := v\<rparr>) = (systick_fire st)\<lparr>st_cvr := v\<rparr>"
  by (simp add: systick_fire_def systick_pend_def)

lemma systick_fire_idem [simp]: "systick_fire (systick_fire st) = systick_fire st"
proof -
  have "(w OR push_bit 16 1) AND 2 = w AND 2" for w :: u32
    by (rule bit_word_eqI) (auto simp: bit_simps)
  then show ?thesis
    by (cases st) (simp add: systick_fire_def systick_pend_def or.assoc)
qed

lemma systick_cycle_dec:
  "c \<noteq> 0 \<Longrightarrow> c - 1 \<noteq> 0 \<Longrightarrow> systick_cycle (st\<lparr>st_cvr := c\<rparr>) = st\<lparr>st_cvr := c - 1\<rparr>"
  by (simp add: systick_cycle_def Let_def)

lemma systick_cycles_down:
  "k < unat (st_cvr st) \<Longrightarrow> (systick_cycle ^^ k) st = st\<lparr>st_cvr := st_cvr st - of_nat k\<rparr>"
proof (induction k)
  case (Suc k)
  have u: "unat (st_cvr st - of_nat k) = unat (st_cvr st) - k"
    "unat (st_cvr st - of_nat (Suc k)) = unat (st_cvr st) - Suc k"
    using Suc.prems by (simp_all add: unat_minus_of_nat del: of_nat_Suc)
  have nz: "st_cvr st - of_nat k \<noteq> 0" "st_cvr st - of_nat (Suc k) \<noteq> 0"
    using Suc.prems u by (metis diff_is_0_eq not_le unat_0 Suc_lessD)+
  have eq: "st_cvr st - of_nat k - 1 = st_cvr st - of_nat (Suc k)" by simp
  have "(systick_cycle ^^ Suc k) st = systick_cycle (st\<lparr>st_cvr := st_cvr st - of_nat k\<rparr>)"
    using Suc by simp
  also have "\<dots> = st\<lparr>st_cvr := st_cvr st - of_nat (Suc k)\<rparr>"
    by (rule systick_cycle_dec [OF nz(1), of st, unfolded eq, OF nz(2)])
  finally show ?case .
qed simp

lemma systick_cycles_to_zero:
  assumes "st_cvr st \<noteq> 0"
  shows "(systick_cycle ^^ unat (st_cvr st)) st =
    systick_fire (st\<lparr>st_cvr := st_rvr st AND 0x00FFFFFF\<rparr>)"
proof -
  define k where "k = unat (st_cvr st) - 1"
  have k: "unat (st_cvr st) = Suc k"
    using assms by (simp add: k_def unat_gt_0)
  then have "of_nat (Suc k) = st_cvr st" by (metis unat_eq_nat_uint of_nat_unat ucast_id)
  then have c: "st_cvr st - of_nat k = 1" by (simp add: algebra_simps)
  have "(systick_cycle ^^ Suc k) st = systick_cycle (st\<lparr>st_cvr := 1\<rparr>)"
    using systick_cycles_down [of k st] by (simp add: k c)
  then show ?thesis by (simp add: k systick_cycle_def)
qed

lemma systick_cycles_periods:
  assumes "p = st_rvr st AND 0x00FFFFFF" "p \<noteq> 0"
  shows "(systick_cycle ^^ (n * unat p)) (systick_fire (st\<lparr>st_cvr := p\<rparr>)) =
    systick_fire (st\<lparr>st_cvr := p\<rparr>)"
proof (induction n)
  case (Suc n)
  have "(systick_cycle ^^ unat p) (systick_fire (st\<lparr>st_cvr := p\<rparr>)) = systick_fire (st\<lparr>st_cvr := p\<rparr>)"
    using systick_cycles_to_zero [of "systick_fire (st\<lparr>st_cvr := p\<rparr>)"] assms
    by (simp add: systick_fire_cvr)
  then show ?case
    using Suc by (simp add: funpow_add)
qed simp

lemma systick_loop_cycles:
  assumes "p = st_rvr st AND 0x00FFFFFF" "p \<noteq> 0"
  shows "systick_loop p remaining st = (systick_cycle ^^ unat remaining) st"
  using assms
proof (induction p remaining st rule: systick_loop.induct)
  case (1 p remaining st)
  note loop = systick_loop.simps [of p remaining st]
  consider "remaining = 0" | "remaining \<noteq> 0" "st_cvr st = 0"
    | "remaining \<noteq> 0" "st_cvr st \<noteq> 0" "remaining < st_cvr st"
    | "remaining \<noteq> 0" "st_cvr st \<noteq> 0" "\<not> remaining < st_cvr st"
    by fastforce
  then show ?case
  proof cases
    case 1
    then show ?thesis by (subst loop) simp
  next
    case 2
    define st1 where "st1 = systick_fire (st\<lparr>st_cvr := p\<rparr>)"
    have "unat remaining = Suc (unat (remaining - 1))"
      using 2 by (simp add: unat_minus_one unat_gt_0)
    moreover have "systick_cycle st = st1"
      using 2 "1.prems"(1) by (simp add: systick_cycle_def st1_def)
    moreover have "systick_loop p remaining st = systick_loop p (remaining - 1) st1"
      using 2 "1.prems"(2) by (subst loop) (simp add: st1_def Let_def flip: "1.prems"(1))
    moreover have "systick_loop p (remaining - 1) st1 = (systick_cycle ^^ unat (remaining - 1)) st1"
      using "1.IH"(1) [OF 2 refl refl] "1.prems" by (simp add: st1_def)
    ultimately show ?thesis by (simp add: funpow_swap1)
  next
    case 3
    then show ?thesis
      using systick_cycles_down [of "unat remaining" st] by (simp add: loop word_less_nat_alt)
  next
    case 4
    define r where "r = remaining - st_cvr st"
    define st1 where "st1 = systick_fire (st\<lparr>st_cvr := p\<rparr>)"
    have st1: "st_rvr st1 = st_rvr st" by (simp add: st1_def)
    have "unat remaining = unat r + unat (st_cvr st)"
      using 4 by (simp add: r_def unat_sub word_le_nat_alt not_less)
    then have step: "(systick_cycle ^^ unat remaining) st = (systick_cycle ^^ unat r) st1"
      using systick_cycles_to_zero [OF 4(2)] "1.prems"(1) by (simp add: funpow_add st1_def)
    show ?thesis
    proof (cases "p < r")
      case True
      define q where "q = (unat r - 1) div unat p"
      define r2 where "r2 = r - (r - 1) div p * p"
      have "unat r = unat r2 + q * unat p"
        using full_periods_nat [OF "1.prems"(2) True] by (simp add: r2_def q_def)
      then have "(systick_cycle ^^ unat r) st1 = (systick_cycle ^^ unat r2) st1"
        using systick_cycles_periods [OF "1.prems"(1) "1.prems"(2), of q] by (simp add: funpow_add st1_def)
      moreover have "systick_loop p remaining st = systick_loop p r2 (systick_pend st1)"
        using 4 True "1.prems"(2) by (simp only: loop Let_def r2_def r_def st1_def if_False if_True)
      moreover have "systick_loop p r2 (systick_pend st1) = (systick_cycle ^^ unat r2) (systick_pend st1)"
        using "1.IH"(2) [OF 4 refl refl "1.prems"(2)] True "1.prems"
        by (simp add: r2_def r_def st1_def)
      ultimately show ?thesis by (simp add: step st1_def)
    next
      case False
      then have "systick_loop p remaining st = systick_loop p r st1"
        using 4 "1.prems"(2) by (simp only: loop Let_def r_def st1_def if_False if_True)
      moreover have "systick_loop p r st1 = (systick_cycle ^^ unat r) st1"
        using "1.IH"(3) [OF 4 refl refl "1.prems"(2)] False "1.prems" by (simp add: r_def st1_def)
      ultimately show ?thesis by (simp add: step)
    qed
  qed
qed

text \<open>C9. The constant-time batch update of the SysTick counter of the running core is exactly
  the per-cycle behaviour its comment describes, for every number of cycles and every non-zero
  reload value: no event is lost or added when whole periods are skipped, and nothing else of
  the interrupt system changes.\<close>

theorem systick_tick_equals_cycles:
  assumes "st_csr (systick_cur c) AND 1 \<noteq> 0" "st_rvr (systick_cur c) AND 0x00FFFFFF \<noteq> 0"
  shows "systick_tick cycles c = upd_st (systick_cycle ^^ unat cycles) c"
  using assms systick_loop_cycles [OF refl assms(2)] by (simp add: systick_tick_def upd_st_def)

section \<open>Which interrupt is taken\<close>

text \<open>An interrupt is ready on a core when it is pending and enabled there.\<close>

definition irq_ready :: "nvic_state \<Rightarrow> nat \<Rightarrow> bool" where
  "irq_ready ns i \<longleftrightarrow>
     i < 64 \<and> bit (nv_pending ns (i div 32)) (i mod 32) \<and> bit (nv_enable ns (i div 32)) (i mod 32)"

definition irq_prio :: "nvic_state \<Rightarrow> nat \<Rightarrow> u8" where
  "irq_prio ns i = nv_priority ns i AND 0xC0"

text \<open>The fast path is sound only while the flag \<^verbatim>\<open>priorities_nondefault\<close> tells the truth.\<close>

definition nvic_prio_ok :: "nvic_state \<Rightarrow> bool" where
  "nvic_prio_ok ns \<longleftrightarrow> (nv_priorities_nondefault ns \<or> (\<forall>i<64. irq_prio ns i = 0))"

definition nvic_ok :: "nvic_ctx \<Rightarrow> bool" where
  "nvic_ok c \<longleftrightarrow> (\<forall>k. nvic_prio_ok (nvic_states c k))"

definition beats :: "u32 \<times> u8 \<Rightarrow> u32 \<times> u8 \<Rightarrow> bool" where
  "beats a b \<longleftrightarrow> snd a < snd b \<or> (snd a = snd b \<and> fst a \<le> fst b)"

lemma beats_refl [simp]: "beats a a"
  by (simp add: beats_def)

lemma beats_trans: "beats a b \<Longrightarrow> beats b d \<Longrightarrow> beats a d"
  by (auto simp: beats_def)

lemma clear_lowest_bit: "w \<noteq> 0 \<Longrightarrow> bit (w AND (w - 1)) b \<longleftrightarrow> bit w b \<and> b \<noteq> ctz32 w"
  for w :: u32
  by (auto simp: and_minus_1_clears_lowest bit_unset_bit_iff)

definition scan_cand :: "(nat \<Rightarrow> u8) \<Rightarrow> nat \<Rightarrow> nat \<Rightarrow> u32 \<times> u8" where
  "scan_cand p w b = (of_nat (w * 32) + of_nat b,
     p (unat (of_nat (w * 32) + of_nat b :: u32)) AND 0xC0)"

lemma nvic_scan_word_step:
  assumes "bits \<noteq> 0"
  shows "nvic_scan_word p w bits a = nvic_scan_word p w (bits AND (bits - 1))
    (if beats (scan_cand p w (ctz32 bits)) a \<and> scan_cand p w (ctz32 bits) \<noteq> a
     then scan_cand p w (ctz32 bits) else a)"
proof (cases a)
  case (Pair i v)
  show ?thesis
    unfolding Pair nvic_scan_word.simps [of p w bits i v] using assms
    by (auto simp: scan_cand_def beats_def Let_def intro!: arg_cong [where f = "nvic_scan_word p w _"])
qed

lemma nvic_scan_word_min:
  "beats (nvic_scan_word p w bits a) a \<and>
    (\<forall>b. bit bits b \<longrightarrow> beats (nvic_scan_word p w bits a) (scan_cand p w b)) \<and>
    (nvic_scan_word p w bits a = a \<or>
     (\<exists>b. bit bits b \<and> nvic_scan_word p w bits a = scan_cand p w b))"
proof (induction "unat bits" arbitrary: bits a rule: less_induct)
  case less
  show ?case
  proof (cases "bits = 0")
    case True
    then show ?thesis by (cases a) (simp add: nvic_scan_word.simps)
  next
    case False
    define x where "x = scan_cand p w (ctz32 bits)"
    define a2 where "a2 = (if beats x a \<and> x \<noteq> a then x else a)"
    have a2: "beats a2 a" "beats a2 x" "a2 = a \<or> a2 = x"
      by (auto simp: a2_def beats_def)
    have step: "nvic_scan_word p w bits a = nvic_scan_word p w (bits AND (bits - 1)) a2"
      using nvic_scan_word_step [OF False] by (simp add: a2_def x_def)
    note IH = less [OF clear_lowest_less [OF False], of a2, folded step]
    have "beats (nvic_scan_word p w bits a) (scan_cand p w b)" if "bit bits b" for b
      using IH a2 that clear_lowest_bit [OF False, of b] unfolding x_def
      by (cases "b = ctz32 bits") (auto intro: beats_trans)
    then show ?thesis
      using IH a2 clear_lowest_bit [OF False] ctz32_props(1) [OF False]
      unfolding x_def by (auto intro: beats_trans)
  qed
qed

lemma scan_cand_irq:
  assumes "b < 32" "w < 2"
  shows "scan_cand p w b = (of_nat (w * 32 + b), p (w * 32 + b) AND 0xC0)"
proof -
  have "unat (of_nat (w * 32 + b) :: u32) = w * 32 + b"
    using assms by (intro unat_of_nat_lt) simp
  then show ?thesis by (simp add: scan_cand_def)
qed

lemma irq_ready_iff:
  "b < 32 \<Longrightarrow> w < 2 \<Longrightarrow> irq_ready ns (w * 32 + b) \<longleftrightarrow> bit (nv_pending ns w AND nv_enable ns w) b"
  by (auto simp: irq_ready_def bit_simps)

lemma irq_ready_cases:
  assumes "irq_ready ns i"
  obtains w b where "i = w * 32 + b" "w < 2" "b < 32" "bit (nv_pending ns w AND nv_enable ns w) b"
proof -
  have "i = (i div 32) * 32 + i mod 32" by simp
  moreover have "i div 32 < 2" using assms by (auto simp: irq_ready_def)
  ultimately show thesis
    using that [of "i div 32" "i mod 32"] irq_ready_iff [of "i mod 32" "i div 32" ns] assms by simp
qed

lemma bit_u32_less: "bit w b \<Longrightarrow> b < 32"
  for w :: u32
  using bit_imp_le_length [of w b] by simp

text \<open>The specification: the ready interrupt with the smallest priority value, and among those
  the smallest number.\<close>

definition is_next_irq :: "nvic_state \<Rightarrow> nat \<Rightarrow> bool" where
  "is_next_irq ns i \<longleftrightarrow> irq_ready ns i \<and>
     (\<forall>j. irq_ready ns j \<longrightarrow> irq_prio ns i < irq_prio ns j \<or> (irq_prio ns i = irq_prio ns j \<and> i \<le> j))"

lemma nvic_fast_path:
  assumes "nvic_prio_ok ns" "\<not> nv_priorities_nondefault ns"
    and w0: "w0 = nv_pending ns 0 AND nv_enable ns 0"
    and w1: "w1 = nv_pending ns 1 AND nv_enable ns 1"
    and nz: "w0 OR w1 \<noteq> 0"
  shows "is_next_irq ns (if w0 \<noteq> 0 then ctz32 w0 else 32 + ctz32 w1)"
proof -
  have prio: "irq_prio ns i = 0" if "irq_ready ns i" for i
    using assms(1,2) that by (simp add: nvic_prio_ok_def irq_ready_def)
  let ?i = "if w0 \<noteq> 0 then ctz32 w0 else 32 + ctz32 w1"
  have ready: "irq_ready ns ?i"
    using nz ctz32_props(1,2) [of w0] ctz32_props(1,2) [of w1]
      irq_ready_iff [of "ctz32 w0" 0 ns] irq_ready_iff [of "ctz32 w1" 1 ns] w0 w1
    by (auto simp: add.commute)
  moreover have "?i \<le> j" if "irq_ready ns j" for j
  proof -
    obtain w b where j: "j = w * 32 + b" "w < 2" "b < 32" "bit (nv_pending ns w AND nv_enable ns w) b"
      using \<open>irq_ready ns j\<close> by (rule irq_ready_cases)
    then consider "w = 0" "bit w0 b" | "w = 1" "bit w1 b"
      using w0 w1 by (auto simp: less_2_cases_iff)
    then show "?i \<le> j"
      using j(1) ctz32_least [of w0 b] ctz32_least [of w1 b] ctz32_props(2) [of w0]
      by cases auto
  qed
  ultimately show ?thesis
    using prio by (auto simp: is_next_irq_def)
qed

lemma nvic_slow_path:
  assumes w0: "w0 = nv_pending ns 0 AND nv_enable ns 0"
    and w1: "w1 = nv_pending ns 1 AND nv_enable ns 1"
    and nz: "w0 OR w1 \<noteq> 0"
  defines "r \<equiv> nvic_scan_word (nv_priority ns) 1 w1
                 (nvic_scan_word (nv_priority ns) 0 w0 (0xFFFFFFFF, 0xFF))"
  shows "is_next_irq ns (unat (fst r)) \<and> unat (fst r) < 64"
proof -
  let ?p = "nv_priority ns"
  define r0 where "r0 = nvic_scan_word ?p 0 w0 (0xFFFFFFFF, 0xFF)"
  have r: "r = nvic_scan_word ?p 1 w1 r0" by (simp add: r_def r0_def)
  note s0 = nvic_scan_word_min [of ?p 0 w0 "(0xFFFFFFFF, 0xFF)", folded r0_def]
  note s1 = nvic_scan_word_min [of ?p 1 w1 r0, folded r]
  have ge: "beats r (of_nat j, irq_prio ns j)" if "irq_ready ns j" for j
  proof -
    obtain w b where j: "j = w * 32 + b" "w < 2" "b < 32" "bit (nv_pending ns w AND nv_enable ns w) b"
      using \<open>irq_ready ns j\<close> by (rule irq_ready_cases)
    then consider "w = 0" "bit w0 b" | "w = 1" "bit w1 b"
      using w0 w1 by (auto simp: less_2_cases_iff)
    then have "beats r (scan_cand ?p w b)"
    proof cases
      case 1
      then show ?thesis using s0 beats_trans [OF conjunct1 [OF s1]] by blast
    next
      case 2
      then show ?thesis using s1 by simp
    qed
    then show ?thesis
      using scan_cand_irq [OF j(3,2), of ?p] j(1) by (simp add: irq_prio_def)
  qed
  obtain w b where "w < 2" "bit (nv_pending ns w AND nv_enable ns w) b"
  proof -
    obtain b where "bit (w0 OR w1) b" using nz by (metis bit_eqI bit_0_eq bot_apply bot_bool_def)
    then show thesis using that [of 0 b] that [of 1 b] w0 w1 by (auto simp: bit_or_iff)
  qed
  then obtain k where k: "irq_ready ns k"
    using irq_ready_iff bit_u32_less by blast
  have "irq_prio ns k < 0xFF"
    unfolding irq_prio_def by (rule le_less_trans [OF word_and_le1]) simp
  then have "r \<noteq> (0xFFFFFFFF, 0xFF)"
    using ge [OF k] by (auto simp: beats_def)
  then obtain w b where "w < 2" "b < 32" "bit (nv_pending ns w AND nv_enable ns w) b"
      "r = scan_cand ?p w b"
    using s0 s1 w0 w1 bit_u32_less that [of 0] that [of 1] by auto
  then obtain i where i: "irq_ready ns i" "r = (of_nat i, irq_prio ns i)"
    using scan_cand_irq irq_ready_iff unfolding irq_prio_def by blast
  have small: "unat (of_nat m :: u32) = m" if "m < 64" for m
    using that by (intro unat_of_nat_lt) simp
  have i64: "j < 64" if "irq_ready ns j" for j
    using that by (simp add: irq_ready_def)
  show ?thesis
    using i ge i64 small
    by (auto simp: is_next_irq_def beats_def word_le_nat_alt)
qed

lemma nvic_get_pending_irq_ok:
  assumes "nvic_ok c"
  shows "(if \<exists>i. irq_ready (nvic_cur c) i
          then is_next_irq (nvic_cur c) (unat (nvic_get_pending_irq c)) \<and>
               unat (nvic_get_pending_irq c) < 64
          else nvic_get_pending_irq c = 0xFFFFFFFF)"
proof -
  define ns where "ns = nvic_cur c"
  define w0 where "w0 = nv_pending ns 0 AND nv_enable ns 0"
  define w1 where "w1 = nv_pending ns 1 AND nv_enable ns 1"
  have ok: "nvic_prio_ok ns" using assms by (simp add: nvic_ok_def ns_def nvic_cur_def)
  have none: "(\<exists>i. irq_ready ns i) \<longleftrightarrow> w0 OR w1 \<noteq> 0"
  proof
    assume "\<exists>i. irq_ready ns i"
    then obtain w b where "w < 2" "bit (nv_pending ns w AND nv_enable ns w) b"
      by (blast elim: irq_ready_cases)
    then have "bit w0 b \<or> bit w1 b"
      by (auto simp: w0_def w1_def less_2_cases_iff)
    then show "w0 OR w1 \<noteq> 0" by (metis bit_0_eq bit_or_iff bot_apply bot_bool_def)
  next
    assume "w0 OR w1 \<noteq> 0"
    then show "\<exists>i. irq_ready ns i"
      using nvic_slow_path [OF w0_def w1_def] by (auto simp: is_next_irq_def)
  qed
  have pend: "nvic_get_pending_irq c =
      (if w0 OR w1 = 0 then 0xFFFFFFFF
       else if \<not> nv_priorities_nondefault ns then
         (if w0 \<noteq> 0 then of_nat (ctz32 w0) else 32 + of_nat (ctz32 w1))
       else fst (nvic_scan_word (nv_priority ns) 1 w1
                   (nvic_scan_word (nv_priority ns) 0 w0 (0xFFFFFFFF, 0xFF))))"
    by (simp only: nvic_get_pending_irq_def Let_def ns_def w0_def w1_def)
  let ?f = "if w0 \<noteq> 0 then ctz32 w0 else 32 + ctz32 w1"
  have fast: "unat (if w0 \<noteq> 0 then of_nat (ctz32 w0) else 32 + of_nat (ctz32 w1) :: u32) = ?f"
    if "w0 OR w1 \<noteq> 0"
  proof -
    have "?f < 64" using that ctz32_props(2) [of w0] ctz32_props(2) [of w1] by auto
    then have "unat (of_nat ?f :: u32) = ?f" by (intro unat_of_nat_lt) simp
    then show ?thesis by (simp split: if_splits)
  qed
  show ?thesis
    unfolding ns_def [symmetric] none pend
    using nvic_fast_path [OF ok _ w0_def w1_def] nvic_slow_path [OF w0_def w1_def] fast
    by (auto simp: is_next_irq_def irq_ready_def)
qed

section \<open>The invariant and what each operation keeps\<close>

lemma nvic_prio_ok_fields [simp]:
  "nvic_prio_ok (ns\<lparr>nv_enable := x1\<rparr>) = nvic_prio_ok ns"
  "nvic_prio_ok (ns\<lparr>nv_pending := x1\<rparr>) = nvic_prio_ok ns"
  "nvic_prio_ok (ns\<lparr>nv_iabr := x1\<rparr>) = nvic_prio_ok ns"
  "nvic_prio_ok (ns\<lparr>nv_active_exceptions := x2\<rparr>) = nvic_prio_ok ns"
  "nvic_prio_ok (ns\<lparr>nv_active_exceptions_hi := x2\<rparr>) = nvic_prio_ok ns"
  "nvic_prio_ok (ns\<lparr>nv_shpr1 := x2\<rparr>) = nvic_prio_ok ns"
  "nvic_prio_ok (ns\<lparr>nv_shpr2 := x2\<rparr>) = nvic_prio_ok ns"
  "nvic_prio_ok (ns\<lparr>nv_shpr3 := x2\<rparr>) = nvic_prio_ok ns"
  "nvic_prio_ok (ns\<lparr>nv_pendsv_pending := x3\<rparr>) = nvic_prio_ok ns"
  "nvic_prio_ok (ns\<lparr>nv_shcsr := x2\<rparr>) = nvic_prio_ok ns"
  "nvic_prio_ok (ns\<lparr>nv_cfsr := x2\<rparr>) = nvic_prio_ok ns"
  "nvic_prio_ok (ns\<lparr>nv_hfsr := x2\<rparr>) = nvic_prio_ok ns"
  "nvic_prio_ok (ns\<lparr>nv_mmfar := x2\<rparr>) = nvic_prio_ok ns"
  "nvic_prio_ok (ns\<lparr>nv_bfar := x2\<rparr>) = nvic_prio_ok ns"
  by (simp_all add: nvic_prio_ok_def irq_prio_def)

lemma nvic_prio_ok_recomputed:
  "nvic_prio_ok (ns\<lparr>nv_priority := p, nv_priorities_nondefault := list_ex (\<lambda>i. p i AND 0xC0 \<noteq> 0) [0..<64]\<rparr>)"
  "nvic_prio_ok (ns\<lparr>nv_priority := p, nv_priorities_nondefault := list_ex (\<lambda>i. p i \<noteq> 0) [0..<64]\<rparr>)"
  by (auto simp: nvic_prio_ok_def irq_prio_def list_ex_iff)

lemma nvic_prio_ok_zero [simp]: "nvic_prio_ok nvic_zero"
  by (simp add: nvic_prio_ok_def irq_prio_def nvic_zero_def)

lemma nvic_prio_ok_write_ipr: "nvic_prio_ok ns \<Longrightarrow> nvic_prio_ok (nvic_write_ipr addr val ns)"
  unfolding nvic_write_ipr_def Let_def by (simp add: nvic_prio_ok_recomputed del: upt.simps)

lemma nvic_prio_ok_exc [simp]:
  "nvic_prio_ok (nvic_exc_set v ns) = nvic_prio_ok ns"
  "nvic_prio_ok (nvic_exc_clear v ns) = nvic_prio_ok ns"
  by (simp_all add: nvic_exc_set_def nvic_exc_clear_def)

lemma nvic_ok_upd_ns: "nvic_ok c \<Longrightarrow> (\<And>ns. nvic_prio_ok ns \<Longrightarrow> nvic_prio_ok (f ns)) \<Longrightarrow> nvic_ok (upd_ns f c)"
  by (auto simp: nvic_ok_def upd_ns_def nvic_cur_def)

lemma nvic_ok_fields [simp]:
  "nvic_ok (upd_st g c) = nvic_ok c"
  "nvic_ok (upd_mpu h c) = nvic_ok c"
  "nvic_ok (upd_sau k c) = nvic_ok c"
  "nvic_ok (c\<lparr>watchdog_reboot_pending := b\<rparr>) = nvic_ok c"
  "nvic_ok (c\<lparr>active_core := n\<rparr>) = nvic_ok c"
  "nvic_ok (c\<lparr>membus_rp2350_mode := b\<rparr>) = nvic_ok c"
  by (simp_all add: nvic_ok_def upd_st_def upd_mpu_def upd_sau_def)

lemma nvic_ok_signal: "nvic_ok c \<Longrightarrow> nvic_ok (nvic_signal_irq irq c)"
  by (auto simp: nvic_ok_def nvic_signal_irq_def)

lemma nvic_ok_icsr: "nvic_ok c \<Longrightarrow> nvic_ok (nvic_write_icsr val c)"
  by (simp add: nvic_write_icsr_def Let_def nvic_ok_upd_ns)

lemma nvic_ok_write_m33: "nvic_ok c \<Longrightarrow> nvic_ok (nvic_write_m33 addr val c)"
  by (simp add: nvic_write_m33_def if_distrib [of nvic_ok] nvic_ok_upd_ns)

lemma nvic_ok_write: "nvic_ok c \<Longrightarrow> nvic_ok (snd (nvic_write_register vtor addr val c))"
  by (simp add: nvic_write_register_def Let_def if_distrib [of snd] if_distrib [of nvic_ok]
      nvic_ok_upd_ns nvic_ok_icsr nvic_ok_signal nvic_prio_ok_write_ipr nvic_ok_write_m33)

lemma nvic_ok_read: "nvic_ok c \<Longrightarrow> nvic_ok (snd (nvic_read_register vtor addr c))"
  by (simp add: nvic_read_register_def Let_def if_distrib [of snd] if_distrib [of nvic_ok])

lemma nvic_ok_set_priority: "nvic_ok c \<Longrightarrow> nvic_ok (nvic_set_priority irq prio c)"
  unfolding nvic_set_priority_def Let_def
  by (simp only: if_split) (blast intro: nvic_ok_upd_ns nvic_prio_ok_recomputed(2))

lemma nvic_ok_ops:
  assumes "nvic_ok c"
  shows "nvic_ok (nvic_enable_irq irq c)" "nvic_ok (nvic_disable_irq irq c)"
    "nvic_ok (nvic_set_pending irq c)" "nvic_ok (nvic_clear_pending irq c)"
    "nvic_ok (nvic_set_priority irq prio c)" "nvic_ok (nvic_raise_fault exc bits c)"
    "nvic_ok (systick_tick n c)" "nvic_ok (systick_tick_for_core k n c)"
  using assms
  by (simp_all add: nvic_enable_irq_def nvic_disable_irq_def nvic_set_pending_def
      nvic_clear_pending_def nvic_ok_set_priority nvic_raise_fault_def systick_tick_def
      systick_tick_for_core_def nvic_ok_upd_ns Let_def)

section \<open>The interface peripherals use\<close>

text \<open>
  What a peripheral relies on when it raises its interrupt line: the line becomes pending on
  every core and no other line or core-local setting changes.
\<close>

locale irq_lines =
  fixes signal :: "u32 \<Rightarrow> 'c \<Rightarrow> 'c"
    and pend :: "'c \<Rightarrow> nat \<Rightarrow> nat \<Rightarrow> bool"
    and inv :: "'c \<Rightarrow> bool"
  assumes signal_pends: "irq < 64 \<Longrightarrow> core < 2 \<Longrightarrow> pend (signal irq c) core (unat irq)"
    and signal_frame: "line \<noteq> unat irq \<or> \<not> irq < 64 \<Longrightarrow> pend (signal irq c) core line = pend c core line"
    and signal_mono: "pend c core line \<Longrightarrow> pend (signal irq c) core line"
    and signal_inv: "inv c \<Longrightarrow> inv (signal irq c)"
begin

lemma signals_inv: "inv c \<Longrightarrow> inv (fold signal irqs c)"
  by (induction irqs arbitrary: c) (auto intro: signal_inv)

lemma signals_keep: "pend c core line \<Longrightarrow> pend (fold signal irqs c) core line"
  by (induction irqs arbitrary: c) (auto intro: signal_mono)

lemma signals_pend:
  assumes "\<forall>irq\<in>set irqs. irq < 64" "core < 2"
  shows "pend (fold signal irqs c) core line \<longleftrightarrow> pend c core line \<or> line \<in> unat ` set irqs"
  using assms(1)
proof (induction irqs arbitrary: c)
  case (Cons irq irqs)
  then show ?case
    using assms(2) signal_pends [of irq core c] signal_frame [of line irq c core]
    by (cases "line = unat irq") auto
qed simp

end

definition irq_pending :: "nvic_ctx \<Rightarrow> nat \<Rightarrow> nat \<Rightarrow> bool" where
  "irq_pending c core i \<longleftrightarrow> bit (nv_pending (nvic_states c core) (i div 32)) (i mod 32)"

lemma irq_word_bit:
  fixes irq :: u32
  shows "unat (shr irq 5) = unat irq div 32" "unat (irq AND 31) = unat irq mod 32"
proof -
  show "unat (shr irq 5) = unat irq div 32"
    by (simp add: drop_bit_eq_div unat_div)
  have "irq AND 31 = take_bit 5 irq"
    by (simp add: take_bit_eq_mask mask_eq_exp_minus_1)
  then show "unat (irq AND 31) = unat irq mod 32"
    by (simp add: take_bit_eq_mod unat_mod)
qed

lemma nvic_bit_set_iff:
  "bit (nvic_bit_set w irq (i div 32)) (i mod 32) \<longleftrightarrow> i = unat irq \<or> bit (w (i div 32)) (i mod 32)"
  by (auto simp: nvic_bit_set_def irq_word_bit bit_simps) (metis div_mod_decomp)

lemma nvic_bit_clear_iff:
  "bit (nvic_bit_clear w irq (i div 32)) (i mod 32) \<longleftrightarrow> i \<noteq> unat irq \<and> bit (w (i div 32)) (i mod 32)"
  by (auto simp: nvic_bit_clear_def irq_word_bit bit_simps) (metis div_mod_decomp)+

interpretation nvl: irq_lines nvic_signal_irq irq_pending nvic_ok
proof unfold_locales
  show "nvic_ok c \<Longrightarrow> nvic_ok (nvic_signal_irq irq c)" for c irq
    by (rule nvic_ok_signal)
qed (auto simp: irq_pending_def nvic_signal_irq_def nvic_bit_set_iff less_2_cases_iff)

section \<open>Reachable states\<close>

text \<open>Everything that the rest of the emulator can do to the interrupt system: guest register
  accesses on either core, interrupt lines raised by peripherals, exception entry and return
  marking vectors and interrupts active and taking pending system exceptions, ticks, faults, the switch
  between the cores, and the choice of the chip.\<close>

inductive nvic_step :: "nvic_ctx \<Rightarrow> nvic_ctx \<Rightarrow> bool" where
  step_write: "nvic_step c (snd (nvic_write_register vtor addr val c))"
| step_read: "nvic_step c (snd (nvic_read_register vtor addr c))"
| step_signal: "nvic_step c (nvic_signal_irq irq c)"
| step_enable: "nvic_step c (nvic_enable_irq irq c)"
| step_disable: "nvic_step c (nvic_disable_irq irq c)"
| step_set_pending: "nvic_step c (nvic_set_pending irq c)"
| step_clear_pending: "nvic_step c (nvic_clear_pending irq c)"
| step_set_priority: "nvic_step c (nvic_set_priority irq prio c)"
| step_fault: "nvic_step c (nvic_raise_fault exc bits c)"
| step_tick: "nvic_step c (systick_tick cycles c)"
| step_tick_for_core: "nvic_step c (systick_tick_for_core k cycles c)"
| step_core: "nvic_step c (c\<lparr>active_core := k\<rparr>)"
| step_exc_set: "nvic_step c (upd_ns (nvic_exc_set vec) c)"
| step_exc_clear: "nvic_step c (upd_ns (nvic_exc_clear vec) c)"
| step_reset: "nvic_step c (nvic_reset c)"
| step_init: "nvic_step c (nvic_init c)"
| step_mode: "nvic_step c (c\<lparr>membus_rp2350_mode := b\<rparr>)"
| step_active: "nvic_step c (upd_ns (\<lambda>ns. ns\<lparr>nv_iabr := x\<rparr>) c)"
| step_pendsv: "nvic_step c (upd_ns (\<lambda>ns. ns\<lparr>nv_pendsv_pending := b\<rparr>) c)"
| step_systick: "nvic_step c (upd_st (\<lambda>st. st\<lparr>st_pending := b\<rparr>) c)"

abbreviation nvic_reachable :: "nvic_ctx \<Rightarrow> bool" where
  "nvic_reachable c \<equiv> nvic_step\<^sup>*\<^sup>* nvic_boot c"

lemma nvic_reachable_step: "nvic_step c d \<Longrightarrow> nvic_reachable c \<Longrightarrow> nvic_reachable d"
  by (rule rtranclp.rtrancl_into_rtrancl)

lemma nvic_ok_boot: "nvic_ok nvic_boot"
  by (simp add: nvic_ok_def nvic_boot_def)

lemma nvic_ok_reset: "nvic_ok c \<Longrightarrow> nvic_ok (nvic_reset c)" "nvic_ok c \<Longrightarrow> nvic_ok (nvic_init c)"
  by (simp_all add: nvic_ok_def nvic_reset_def nvic_init_def systick_reset_def)

lemma nvic_ok_step: "nvic_step c d \<Longrightarrow> nvic_ok c \<Longrightarrow> nvic_ok d"
  by (induction rule: nvic_step.induct)
    (simp_all add: nvic_ok_write nvic_ok_read nvic_ok_ops nvic_ok_signal nvic_ok_reset nvic_ok_upd_ns)

lemma nvic_ok_reachable: "nvic_reachable c \<Longrightarrow> nvic_ok c"
  by (induction rule: rtranclp_induct) (auto simp: nvic_ok_boot intro: nvic_ok_step)

text \<open>C4. In every state the emulator can bring the interrupt system into, the interrupt that
  is selected for the running core is its highest-priority ready one, ties going to the lowest
  number, on the count-trailing-zeros fast path and on the scanning slow path alike; when none
  is ready the all-ones marker is returned.\<close>

theorem nvic_get_pending_irq_correct:
  assumes "nvic_reachable c"
  shows "(if \<exists>i. irq_ready (nvic_cur c) i
          then is_next_irq (nvic_cur c) (unat (nvic_get_pending_irq c)) \<and>
               unat (nvic_get_pending_irq c) < 64
          else nvic_get_pending_irq c = 0xFFFFFFFF)"
  by (rule nvic_get_pending_irq_ok [OF nvic_ok_reachable [OF assms]])

definition nvic_demo :: nvic_ctx where
  "nvic_demo = nvic_set_priority 7 0x40 (nvic_set_priority 3 0x80 (nvic_signal_irq 7
     (nvic_signal_irq 3 (nvic_enable_irq 7 (nvic_enable_irq 3 nvic_boot)))))"

lemma nvic_demo_reachable: "nvic_reachable nvic_demo"
  unfolding nvic_demo_def
  by (intro nvic_reachable_step [OF step_set_priority] nvic_reachable_step [OF step_signal]
      nvic_reachable_step [OF step_enable] rtranclp.rtrancl_refl)

lemmas nvic_eval = nvic_boot_def nvic_zero_def systick_zero_def mpu_zero_def sau_zero_def
  nvic_cur_def systick_cur_def upd_ns_def upd_st_def nvic_bit_set_def nvic_bit_clear_def
  nvic_enable_irq_def nvic_set_priority_def nvic_signal_irq_def

lemma nvic_demo_ready: "irq_ready (nvic_cur nvic_demo) 7"
  by (simp add: nvic_demo_def nvic_eval irq_ready_def Let_def)

theorem nvic_get_pending_irq_witness:
  "nvic_reachable nvic_demo \<and> is_next_irq (nvic_cur nvic_demo) (unat (nvic_get_pending_irq nvic_demo))"
  using nvic_get_pending_irq_correct [OF nvic_demo_reachable] nvic_demo_ready nvic_demo_reachable
  by metis

definition systick_demo :: nvic_ctx where
  "systick_demo = snd (nvic_write_register 0 SYST_CSR 3 (snd (nvic_write_register 0 SYST_RVR 9 nvic_boot)))"

theorem systick_tick_equals_cycles_witness:
  "systick_tick 1000 systick_demo = upd_st (systick_cycle ^^ 1000) systick_demo"
proof -
  have "st_csr (systick_cur systick_demo) AND 1 \<noteq> 0"
       "st_rvr (systick_cur systick_demo) AND 0x00FFFFFF \<noteq> 0"
    by (simp_all add: systick_demo_def nvic_write_register_def nvic_eval)
  from systick_tick_equals_cycles [OF this, of 1000] show ?thesis by simp
qed

section \<open>Register behaviour\<close>

lemma ipr_offset:
  fixes addr :: u32
  assumes "addr - NVIC_IPR \<le> 60"
  shows "(addr - NVIC_IPR) div 4 < 16" "unat ((addr - NVIC_IPR) div 4) < 16"
  using assms by (simp_all add: word_less_nat_alt word_le_nat_alt unat_div)

lemma and_c0_bytes:
  fixes v :: u32
  shows "ucast (ucast (v AND 0xC0) AND 0xC0 :: u8) OR
    push_bit 8 (ucast (ucast (drop_bit 8 v AND 0xC0) AND 0xC0 :: u8)) OR
    push_bit 16 (ucast (ucast (drop_bit 16 v AND 0xC0) AND 0xC0 :: u8)) OR
    push_bit 24 (ucast (ucast (drop_bit 24 v AND 0xC0) AND 0xC0 :: u8)) = v AND 0xC0C0C0C0"
    (is "?l = _")
proof (rule bit_word_eqI)
  fix n
  assume "n < LENGTH(32)"
  then have "n < 32" by simp
  then show "bit ?l n = bit (v AND 0xC0C0C0C0) n"
    unfolding bit_cases_32 by (elim disjE) (simp_all add: bit_simps)
qed

lemma nvic_ipr_write_priority:
  assumes "addr - NVIC_IPR \<le> 60" and k: "k = unat ((addr - NVIC_IPR) div 4)"
  shows "nv_priority (nvic_write_ipr addr val ns) i =
    (if i div 4 = k then ucast (shr val (i mod 4 * 8) AND 0xC0) else nv_priority ns i)"
proof -
  have "i div 4 = k \<longleftrightarrow> i \<in> {k * 4, k * 4 + 1, k * 4 + 2, k * 4 + 3}"
    by (auto; presburger)
  then show ?thesis
    using ipr_offset [OF assms(1)] k
    by (auto simp: nvic_write_ipr_def Let_def upt_0_4)
qed

lemma ipr_not_other:
  fixes addr a :: u32
  shows "addr - NVIC_IPR \<le> 60 \<Longrightarrow> \<not> a - NVIC_IPR \<le> 60 \<Longrightarrow> (addr = a) = False"
  by auto

lemma nvic_access_ipr:
  assumes "addr - NVIC_IPR \<le> 60" "addr AND 3 = 0"
  shows "nvic_write_register vtor addr val c = (vtor, upd_ns (nvic_write_ipr addr val) c)"
    and "nvic_read_register vtor addr c = (nvic_read_ipr (nvic_cur c) addr, c)"
  using assms
  by (simp_all add: nvic_write_register_def nvic_read_register_def Let_def ipr_not_other [OF assms(1)])

lemma nvic_cur_upd_ns [simp]: "nvic_cur (upd_ns f c) = f (nvic_cur c)"
  by (simp add: nvic_cur_def upd_ns_def)

text \<open>Writing an interrupt priority register stores the two implemented priority bits of
  its four interrupts, which reading it returns, and leaves the priority of every other
  interrupt alone.\<close>

theorem nvic_ipr_roundtrip:
  fixes c :: nvic_ctx
  assumes "addr - NVIC_IPR \<le> 60" "addr AND 3 = 0"
    and d: "d = snd (nvic_write_register vtor addr val c)"
  shows "fst (nvic_read_register vtor addr d) = val AND 0xC0C0C0C0 \<and>
    (\<forall>i. i div 4 \<noteq> unat ((addr - NVIC_IPR) div 4) \<longrightarrow>
         nv_priority (nvic_cur d) i = nv_priority (nvic_cur c) i)"
proof -
  define k where "k = unat ((addr - NVIC_IPR) div 4)"
  note p = nvic_ipr_write_priority [OF assms(1) k_def, of val "nvic_cur c"]
  have k: "k < 16" "(addr - NVIC_IPR) div 4 < 16"
    using ipr_offset [OF assms(1)] by (simp_all add: k_def)
  have cur: "nvic_cur d = nvic_write_ipr addr val (nvic_cur c)"
    by (simp add: d nvic_access_ipr(1) [OF assms(1,2)])
  have "nvic_read_ipr (nvic_cur d) addr = val AND 0xC0C0C0C0"
    using k p [of "k * 4"] p [of "k * 4 + 1"] p [of "k * 4 + 2"] p [of "k * 4 + 3"] and_c0_bytes [of val]
    by (simp add: nvic_read_ipr_def Let_def cur upt_0_4 k_def [symmetric] or.assoc)
  then show ?thesis
    using p by (simp add: nvic_access_ipr(2) [OF assms(1,2)] cur k_def)
qed

theorem nvic_ipr_roundtrip_witness:
  "fst (nvic_read_register 0 0xE000E404 (snd (nvic_write_register 0 0xE000E404 0x12345678 nvic_boot)))
     = 0x00004040"
  using nvic_ipr_roundtrip [where addr = "0xE000E404" and vtor = 0 and val = "0x12345678" and c = nvic_boot, OF _ _ refl] by simp

text \<open>The set-enable and clear-enable registers of interrupt group \<open>g\<close> change exactly the
  interrupts whose bit is set in the written value, in the enable mask of the running core only;
  the set-pending and clear-pending registers do the same for the pending mask.\<close>

theorem nvic_set_clear_registers:
  fixes val :: u32
  assumes "g < 2" "c' = nvic_states (snd (nvic_write_register vtor (base + 4 * of_nat g) val c))"
  shows "(base = NVIC_ISER \<longrightarrow> c' = (nvic_states c)(active_core c :=
            (nvic_cur c)\<lparr>nv_enable := (nv_enable (nvic_cur c))(g := nv_enable (nvic_cur c) g OR val)\<rparr>)) \<and>
    (base = NVIC_ICER \<longrightarrow> c' = (nvic_states c)(active_core c :=
            (nvic_cur c)\<lparr>nv_enable := (nv_enable (nvic_cur c))(g := nv_enable (nvic_cur c) g AND NOT val)\<rparr>)) \<and>
    (base = NVIC_ISPR \<longrightarrow> c' = (nvic_states c)(active_core c :=
            (nvic_cur c)\<lparr>nv_pending := (nv_pending (nvic_cur c))(g := nv_pending (nvic_cur c) g OR val)\<rparr>)) \<and>
    (base = NVIC_ICPR \<longrightarrow> c' = (nvic_states c)(active_core c :=
            (nvic_cur c)\<lparr>nv_pending := (nv_pending (nvic_cur c))(g := nv_pending (nvic_cur c) g AND NOT val)\<rparr>))"
proof -
  consider "g = 0" | "g = 1" using assms(1) by (auto simp: less_2_cases_iff)
  then show ?thesis
    by cases (auto simp: assms(2) nvic_write_register_def upd_ns_def)
qed

theorem nvic_set_clear_registers_witness:
  "nv_enable (nvic_states (snd (nvic_write_register 0 0xE000E104 0x30 nvic_boot)) 0) 1 = 0x30"
  using nvic_set_clear_registers [of 1 "nvic_states (snd (nvic_write_register 0 0xE000E104 0x30 nvic_boot))"
    0 "0xE000E100" "0x30" nvic_boot]
  by (simp add: nvic_boot_def nvic_zero_def nvic_cur_def)

text \<open>The last hit of the loop over the regions is the highest-numbered matching region.\<close>

lemma fold_last_hit:
  "fold (\<lambda>r hit. if P r then Some r else hit) [0..<n] None =
     (if \<exists>r<n. P r then Some (GREATEST r. r < n \<and> P r) else None)"
proof (induction n)
  case (Suc n)
  show ?case
  proof (cases "P n")
    case True
    then have "(GREATEST r. r < Suc n \<and> P r) = n"
      by (intro Greatest_equality) auto
    then show ?thesis using True by auto
  next
    case False
    then have "(r < Suc n \<and> P r) = (r < n \<and> P r)" for r
      by (auto simp: less_Suc_eq)
    then show ?thesis using False Suc by (auto simp: less_Suc_eq)
  qed
qed simp

text \<open>With the memory protection unit on, the highest-numbered enabled region that contains
  the address decides: a write faults when the region is read-only, an unprivileged access
  faults when the region is privileged-only, everything else passes. An address in no region is
  allowed only to privileged code with the background map enabled.\<close>

theorem mpu_check_highest_region:
  assumes "membus_rp2350_mode c" "mpu_ctrl (mpu c) AND 1 \<noteq> 0"
    and "\<And>q. hits q = region_hit (mpu_rbar (mpu c) q) (mpu_rlar (mpu c) q) addr"
  shows "(\<forall>r<8. hits r \<longrightarrow> (\<forall>q<8. r < q \<longrightarrow> \<not> hits q) \<longrightarrow>
           mpu_check c addr is_write is_priv =
             (if shr (mpu_rbar (mpu c) r) 1 AND 3 = 3 \<and> is_write \<or>
                 shr (mpu_rbar (mpu c) r) 1 AND 3 = 2 \<and> \<not> is_priv
              then EXC_MEMFAULT else 0)) \<and>
         ((\<forall>r<8. \<not> hits r) \<longrightarrow>
           mpu_check c addr is_write is_priv =
             (if is_priv \<and> mpu_ctrl (mpu c) AND 4 \<noteq> 0 then 0 else EXC_HARDFAULT))"
proof -
  have m: "mpu_check c addr is_write is_priv =
      (case (if \<exists>r<8. hits r then Some (GREATEST r. r < 8 \<and> hits r) else None) of
         None \<Rightarrow> (if is_priv \<and> mpu_ctrl (mpu c) AND 4 \<noteq> 0 then 0 else EXC_HARDFAULT)
       | Some hit \<Rightarrow>
           (let ap = shr (mpu_rbar (mpu c) hit) 1 AND 3 in
            if is_write then
              (if ap = 3 then EXC_MEMFAULT
               else if \<not> is_priv \<and> ap = 2 then EXC_MEMFAULT else 0)
            else if \<not> is_priv \<and> ap = 2 then EXC_MEMFAULT else 0))"
    unfolding mpu_check_def fold_last_hit using assms by (simp only: if_False if_True not_True_eq_False)
  have "(GREATEST r. r < 8 \<and> hits r) = r" if "r < 8" "hits r" "\<forall>q<8. r < q \<longrightarrow> \<not> hits q" for r
    using that by (intro Greatest_equality) (auto simp: not_less [symmetric])
  then show ?thesis
    unfolding m by (auto simp: Let_def)
qed

definition mpu_demo :: nvic_ctx where
  "mpu_demo = nvic_boot\<lparr>membus_rp2350_mode := True,
     mpu := mpu_zero\<lparr>mpu_ctrl := 1, mpu_rbar := (\<lambda>_. 0)(2 := 0x20000006),
                    mpu_rlar := (\<lambda>_. 0)(0 := 0xFFFFFFE1, 2 := 0x200000E1)\<rparr>\<rparr>"

theorem mpu_check_highest_region_witness:
  "mpu_check mpu_demo 0x20000010 True True = EXC_MEMFAULT \<and> mpu_check mpu_demo 0x10 True True = 0"
proof -
  note a = mpu_check_highest_region [where c = mpu_demo, OF _ _ refl]
  have on: "membus_rp2350_mode mpu_demo" "mpu_ctrl (mpu mpu_demo) AND 1 \<noteq> 0"
    by (simp_all add: mpu_demo_def)
  have hit: "region_hit (mpu_rbar (mpu mpu_demo) q) (mpu_rlar (mpu mpu_demo) q) x \<longleftrightarrow>
      q = 0 \<or> q = 2 \<and> 0x20000000 \<le> x \<and> x \<le> 0x200000FF" for q x
    by (auto simp: mpu_demo_def mpu_zero_def region_hit_def)
  have "mpu_check mpu_demo 0x20000010 True True = EXC_MEMFAULT"
    using a [OF on, of "0x20000010" True True] unfolding hit
    by (auto dest!: spec [of _ "2 :: nat"] simp: mpu_demo_def)
  moreover have "mpu_check mpu_demo 0x10 True True = 0"
    using a [OF on, of "0x10" True True] unfolding hit
    by (auto dest!: spec [of _ "0 :: nat"] simp: mpu_demo_def mpu_zero_def)
  ultimately show ?thesis by simp
qed

lemma rp2350_table_props:
  "length rp2040_to_rp2350 = 32" "distinct rp2040_to_rp2350" "list_all (\<lambda>x. x < 64) rp2040_to_rp2350"
  by (simp_all add: rp2040_to_rp2350_def)

lemma and_31_small: "irq < 32 \<Longrightarrow> unat (irq AND 31) = unat irq \<and> unat irq < 32" for irq :: u32
  by (simp add: irq_word_bit word_less_nat_alt)

lemma rp2350_irq_lt: "irq < 32 \<Longrightarrow> nvic_rp2350_irq c irq < 64"
proof -
  assume a: "irq < 32"
  have l: "list_all (\<lambda>x. x < 64) rp2040_to_rp2350" by (simp add: rp2040_to_rp2350_def)
  have "unat (irq AND 31) < length rp2040_to_rp2350"
    by (simp add: irq_word_bit rp2040_to_rp2350_def)
  then show ?thesis
    using a l by (auto simp: nvic_rp2350_irq_def list_all_length not_le word_less_nat_alt)
qed

lemma signal_rp2350_pends:
  "irq < 32 \<Longrightarrow> core < 2 \<Longrightarrow>
     irq_pending (nvic_signal_rp2350_irq irq c) core (unat (nvic_rp2350_irq c irq))"
  unfolding nvic_signal_rp2350_irq_def by (intro nvl.signal_pends rp2350_irq_lt)

text \<open>The interrupt lines of the RP2040 are translated to the RP2350 without collision, and
  raising a translated line makes it, and no other line, pending on both cores.\<close>

theorem rp2350_irq_translation:
  assumes "irq < 32"
  shows "nvic_rp2350_irq c irq < 64 \<and>
    (\<forall>irq'<32. nvic_rp2350_irq c irq' = nvic_rp2350_irq c irq \<longrightarrow> irq' = irq) \<and>
    (\<forall>core<2. \<forall>line. irq_pending (nvic_signal_rp2350_irq irq c) core line \<longleftrightarrow>
       line = unat (nvic_rp2350_irq c irq) \<or> irq_pending c core line)"
proof -
  have lt: "nvic_rp2350_irq c irq < 64"
    using assms by (rule rp2350_irq_lt)
  have inj: "irq' = irq" if "irq' < 32" "nvic_rp2350_irq c irq' = nvic_rp2350_irq c irq" for irq'
  proof (cases "membus_rp2350_mode c")
    case True
    then have "rp2040_to_rp2350 ! unat irq' = rp2040_to_rp2350 ! unat irq"
      using that assms and_31_small [of irq'] and_31_small [of irq]
      by (simp add: nvic_rp2350_irq_def not_le [symmetric])
    then have "unat irq' = unat irq"
      using rp2350_table_props(1,2) and_31_small [of irq'] and_31_small [of irq] that assms
      by (simp add: nth_eq_iff_index_eq)
    then show ?thesis by (simp add: word_unat_eq_iff)
  next
    case False
    then show ?thesis using that by (simp add: nvic_rp2350_irq_def)
  qed
  show ?thesis
    using lt inj nvl.signals_pend [of "[nvic_rp2350_irq c irq]"]
    by (auto simp: nvic_signal_rp2350_irq_def)
qed

theorem rp2350_irq_translation_witness:
  "irq_pending (nvic_signal_rp2350_irq 13 (nvic_boot\<lparr>membus_rp2350_mode := True\<rparr>)) 1 21"
  using rp2350_irq_translation [of 13 "nvic_boot\<lparr>membus_rp2350_mode := True\<rparr>"]
  by (simp add: nvic_rp2350_irq_def rp2040_to_rp2350_def)

section \<open>Two deviations\<close>

text \<open>With a zero reload value the event is meant to fire once until RVR is rewritten, but the
  path that counts down to zero does not set \<^verbatim>\<open>zero_fired\<close>: a second tick pends again.\<close>

lemma systick_zero_reload_fires_twice:
  fixes st :: systick_state
  defines "st \<equiv> systick_zero\<lparr>st_csr := 3, st_cvr := 2\<rparr>"
  shows "st_pending (systick_loop 0 2 st) \<and>
    st_pending (systick_loop 0 1 ((systick_loop 0 2 st)\<lparr>st_pending := False\<rparr>))"
  by (simp add: st_def systick_zero_def systick_loop.simps systick_fire_def systick_pend_def)

text \<open>Writing SVCALLPENDED (bit 15 of SHCSR) pends PendSV instead of SVCall.\<close>

lemma shcsr_svcallpended_pends_pendsv:
  "membus_rp2350_mode c \<Longrightarrow>
     nv_pendsv_pending (nvic_cur (snd (nvic_write_register vtor SCB_SHCSR 0x8000 c)))"
  by (simp add: nvic_write_register_def nvic_write_m33_def)

end
