(* ===== verification/Timer.thy ===== *)
theory Timer
  imports Nvic
begin

unbundle bit_operations_syntax

text \<open>
  The microsecond timer of \<^verbatim>\<open>src/timer.c\<close>: a 64-bit counter, four alarms that compare
  with its low word, the latch for atomic 64-bit reads and writes, and the interrupt registers.
  Operations that raise interrupt lines take and return the interrupt system \<open>nvic_ctx\<close> too.
\<close>

section \<open>State and operations\<close>

record timer_state =
  tm_time_us :: u64
  tm_alarm :: "nat \<Rightarrow> u32"
  tm_armed :: u32
  tm_intr :: u32
  tm_inte :: u32
  tm_intf :: u32
  tm_paused :: u32
  tm_timehw_latch :: u32
  timer_latched_high :: u32

definition timer_reset :: "timer_state \<Rightarrow> timer_state" where
  "timer_reset t = \<lparr>tm_time_us = 0, tm_alarm = (\<lambda>_. 0), tm_armed = 0, tm_intr = 0, tm_inte = 0,
     tm_intf = 0, tm_paused = 0, tm_timehw_latch = 0,
     timer_latched_high = timer_latched_high t\<rparr>"

definition timer_init :: "timer_state \<Rightarrow> timer_state" where
  "timer_init t = timer_reset t"

definition timer_low :: "timer_state \<Rightarrow> u32" where
  "timer_low t = ucast (tm_time_us t AND 0xFFFFFFFF)"

definition timer_high :: "timer_state \<Rightarrow> u32" where
  "timer_high t = ucast (shr (tm_time_us t) 32 AND 0xFFFFFFFF)"

definition timer_fire_alarm :: "nat \<Rightarrow> timer_state \<times> nvic_ctx \<Rightarrow> timer_state \<times> nvic_ctx" where
  "timer_fire_alarm i s =
     (let (t, nv) = s;
          t1 = t\<lparr>tm_intr := tm_intr t OR shl 1 i\<rparr>;
          nv1 = nvic_signal_rp2350_irq (of_nat i) nv
      in (t1\<lparr>tm_armed := tm_armed t1 AND NOT (shl 1 i)\<rparr>, nv1))"

text \<open>The loop of \<^verbatim>\<open>timer_next_wakeup_us\<close> with its early return: \<open>Inl\<close> is the
  value returned from inside the loop, \<open>Inr (best, found)\<close> the loop variables.\<close>

definition timer_wakeup_scan :: "timer_state \<Rightarrow> u32 \<Rightarrow> nat \<Rightarrow> u32 + u32 \<times> bool \<Rightarrow> u32 + u32 \<times> bool" where
  "timer_wakeup_scan t now i r =
     (case r of
        Inl v \<Rightarrow> Inl v
      | Inr (best, found) \<Rightarrow>
          if tm_armed t AND shl 1 i = 0 then Inr (best, found)
          else if time_reached now (tm_alarm t i) then Inl 1
          else let dt = tm_alarm t i - now in Inr (if dt < best then dt else best, True))"

definition timer_next_wakeup_us :: "timer_state \<Rightarrow> u32" where
  "timer_next_wakeup_us t =
     (case fold (timer_wakeup_scan t (timer_low t)) [0..<4] (Inr (0xFFFFFFFF, False)) of
        Inl v \<Rightarrow> v
      | Inr (best, found) \<Rightarrow> if \<not> found then 1000 else best)"

definition timer_check_alarm :: "u32 \<Rightarrow> nat \<Rightarrow> timer_state \<times> nvic_ctx \<Rightarrow> timer_state \<times> nvic_ctx" where
  "timer_check_alarm cur_low i s =
     (if tm_armed (fst s) AND shl 1 i = 0 then s
      else if time_reached cur_low (tm_alarm (fst s) i) then timer_fire_alarm i s
      else s)"

definition timer_tick :: "u32 \<Rightarrow> timer_state \<times> nvic_ctx \<Rightarrow> timer_state \<times> nvic_ctx" where
  "timer_tick cycles s =
     (let (t, nv) = s in
      if tm_paused t \<noteq> 0 then s
      else let t1 = t\<lparr>tm_time_us := tm_time_us t + ucast cycles\<rparr>
           in fold (timer_check_alarm (timer_low t1)) [0..<4] (t1, nv))"

abbreviation (input) TIMER_TIMEHW :: u32 where "TIMER_TIMEHW \<equiv> 0x40054000"
abbreviation (input) TIMER_TIMELW :: u32 where "TIMER_TIMELW \<equiv> 0x40054004"
abbreviation (input) TIMER_TIMEHR :: u32 where "TIMER_TIMEHR \<equiv> 0x40054008"
abbreviation (input) TIMER_TIMELR :: u32 where "TIMER_TIMELR \<equiv> 0x4005400C"
abbreviation (input) TIMER_ALARM0 :: u32 where "TIMER_ALARM0 \<equiv> 0x40054010"
abbreviation (input) TIMER_ALARM1 :: u32 where "TIMER_ALARM1 \<equiv> 0x40054014"
abbreviation (input) TIMER_ALARM2 :: u32 where "TIMER_ALARM2 \<equiv> 0x40054018"
abbreviation (input) TIMER_ALARM3 :: u32 where "TIMER_ALARM3 \<equiv> 0x4005401C"
abbreviation (input) TIMER_ARMED :: u32 where "TIMER_ARMED \<equiv> 0x40054020"
abbreviation (input) TIMER_TIMERAWH :: u32 where "TIMER_TIMERAWH \<equiv> 0x40054024"
abbreviation (input) TIMER_TIMERAWL :: u32 where "TIMER_TIMERAWL \<equiv> 0x40054028"
abbreviation (input) TIMER_DBGPAUSE :: u32 where "TIMER_DBGPAUSE \<equiv> 0x4005402C"
abbreviation (input) TIMER_PAUSE :: u32 where "TIMER_PAUSE \<equiv> 0x40054030"
abbreviation (input) TIMER_INTR :: u32 where "TIMER_INTR \<equiv> 0x40054034"
abbreviation (input) TIMER_INTE :: u32 where "TIMER_INTE \<equiv> 0x40054038"
abbreviation (input) TIMER_INTF :: u32 where "TIMER_INTF \<equiv> 0x4005403C"
abbreviation (input) TIMER_INTS :: u32 where "TIMER_INTS \<equiv> 0x40054040"

definition timer_read32 :: "u32 \<Rightarrow> timer_state \<Rightarrow> u32 \<times> timer_state" where
  "timer_read32 addr t =
    (if addr = TIMER_TIMELR then (timer_low t, t\<lparr>timer_latched_high := timer_high t\<rparr>)
     else if addr = TIMER_TIMEHR then (timer_latched_high t, t)
     else if addr = TIMER_TIMERAWH then (timer_high t, t)
     else if addr = TIMER_TIMERAWL then (timer_low t, t)
     else if addr = TIMER_ALARM0 then (tm_alarm t 0, t)
     else if addr = TIMER_ALARM1 then (tm_alarm t 1, t)
     else if addr = TIMER_ALARM2 then (tm_alarm t 2, t)
     else if addr = TIMER_ALARM3 then (tm_alarm t 3, t)
     else if addr = TIMER_ARMED then (tm_armed t, t)
     else if addr = TIMER_INTR then (tm_intr t, t)
     else if addr = TIMER_INTE then (tm_inte t, t)
     else if addr = TIMER_INTF then (tm_intf t, t)
     else if addr = TIMER_INTS then ((tm_intr t OR tm_intf t) AND tm_inte t, t)
     else if addr = TIMER_PAUSE then (tm_paused t, t)
     else (0, t))"

text \<open>The loop that raises the line of every interrupt that is active in INTS.\<close>

definition timer_signal_ints :: "timer_state \<Rightarrow> nvic_ctx \<Rightarrow> nvic_ctx" where
  "timer_signal_ints t nv =
     (let ints = (tm_intr t OR tm_intf t) AND tm_inte t
      in fold (\<lambda>i nv. if ints AND shl 1 i \<noteq> 0 then nvic_signal_rp2350_irq (of_nat i) nv else nv)
           [0..<4] nv)"

definition timer_write32 :: "u32 \<Rightarrow> u32 \<Rightarrow> timer_state \<times> nvic_ctx \<Rightarrow> timer_state \<times> nvic_ctx" where
  "timer_write32 addr val s =
    (let (t, nv) = s in
     if addr = TIMER_TIMEHW then (t\<lparr>tm_timehw_latch := val\<rparr>, nv)
     else if addr = TIMER_TIMELW then
       (t\<lparr>tm_time_us := shl (ucast (tm_timehw_latch t)) 32 OR ucast val\<rparr>, nv)
     else if addr = TIMER_ALARM0 then
       (t\<lparr>tm_alarm := (tm_alarm t)(0 := val), tm_armed := tm_armed t OR 1\<rparr>, nv)
     else if addr = TIMER_ALARM1 then
       (t\<lparr>tm_alarm := (tm_alarm t)(1 := val), tm_armed := tm_armed t OR 2\<rparr>, nv)
     else if addr = TIMER_ALARM2 then
       (t\<lparr>tm_alarm := (tm_alarm t)(2 := val), tm_armed := tm_armed t OR 4\<rparr>, nv)
     else if addr = TIMER_ALARM3 then
       (t\<lparr>tm_alarm := (tm_alarm t)(3 := val), tm_armed := tm_armed t OR 8\<rparr>, nv)
     else if addr = TIMER_ARMED then (t\<lparr>tm_armed := tm_armed t AND NOT val\<rparr>, nv)
     else if addr = TIMER_INTR then (t\<lparr>tm_intr := tm_intr t AND NOT val\<rparr>, nv)
     else if addr = TIMER_INTE then
       (let t1 = t\<lparr>tm_inte := val AND 0xF\<rparr> in (t1, timer_signal_ints t1 nv))
     else if addr = TIMER_INTF then
       (let t1 = t\<lparr>tm_intf := val AND 0xF\<rparr> in (t1, timer_signal_ints t1 nv))
     else if addr = TIMER_PAUSE then (t\<lparr>tm_paused := val AND 1\<rparr>, nv)
     else (t, nv))"

section \<open>Ticking\<close>

text \<open>An alarm is due when it is armed and the low word of the time has reached it.\<close>

definition alarm_due :: "timer_state \<Rightarrow> u32 \<Rightarrow> nat \<Rightarrow> bool" where
  "alarm_due t now i \<longleftrightarrow> i < 4 \<and> bit (tm_armed t) i \<and> time_reached now (tm_alarm t i)"

lemma timer_check_alarm_fields [simp]:
  "tm_time_us (fst (timer_check_alarm now i s)) = tm_time_us (fst s)"
  "tm_alarm (fst (timer_check_alarm now i s)) = tm_alarm (fst s)"
  "tm_inte (fst (timer_check_alarm now i s)) = tm_inte (fst s)"
  "tm_paused (fst (timer_check_alarm now i s)) = tm_paused (fst s)"
  by (simp_all add: timer_check_alarm_def timer_fire_alarm_def split_beta)

lemma timer_check_alarm_bits:
  assumes "i < 32"
  shows "bit (tm_armed (fst (timer_check_alarm now i s))) j \<longleftrightarrow>
      bit (tm_armed (fst s)) j \<and> \<not> (j = i \<and> time_reached now (tm_alarm (fst s) i))"
    and "bit (tm_intr (fst (timer_check_alarm now i s))) j \<longleftrightarrow>
      bit (tm_intr (fst s)) j \<or> (j = i \<and> bit (tm_armed (fst s)) i \<and> time_reached now (tm_alarm (fst s) i))"
  using assms bit_imp_le_length [of "tm_armed (fst s)" j]
  by (auto simp: timer_check_alarm_def timer_fire_alarm_def split_beta bit_simps)

lemma timer_check_alarm_nvic:
  "snd (timer_check_alarm now i s) =
     (if bit (tm_armed (fst s)) i \<and> time_reached now (tm_alarm (fst s) i)
      then nvic_signal_rp2350_irq (of_nat i) (snd s) else snd s)"
  by (simp add: timer_check_alarm_def timer_fire_alarm_def split_beta)

lemma timer_tick_bits:
  assumes "tm_paused t = 0" and now: "now = timer_low (t\<lparr>tm_time_us := tm_time_us t + ucast cycles\<rparr>)"
  shows "bit (tm_armed (fst (timer_tick cycles (t, nv)))) i \<longleftrightarrow>
      bit (tm_armed t) i \<and> \<not> alarm_due t now i"
    and "bit (tm_intr (fst (timer_tick cycles (t, nv)))) i \<longleftrightarrow> bit (tm_intr t) i \<or> alarm_due t now i"
    and "tm_time_us (fst (timer_tick cycles (t, nv))) = tm_time_us t + ucast cycles"
    and "tm_alarm (fst (timer_tick cycles (t, nv))) = tm_alarm t"
  using assms
  by (cases "i = 0"; auto simp: timer_tick_def Let_def upt_0_4 timer_check_alarm_bits alarm_due_def
      less_4_cases)+

lemma nvic_rp2350_irq_timer: "i < 4 \<Longrightarrow> nvic_rp2350_irq c (of_nat i) = of_nat i"
  unfolding less_4_cases by (elim disjE) (auto simp: nvic_rp2350_irq_def rp2040_to_rp2350_def)

lemma irq_pending_timer_line:
  assumes "i < 4" "core < 2"
  shows "irq_pending (nvic_signal_rp2350_irq (of_nat i) c) core line \<longleftrightarrow> line = i \<or> irq_pending c core line"
proof -
  have i: "unat (of_nat i :: u32) = i" "(of_nat i :: u32) < 64"
    using assms(1) by (auto simp: unat_of_nat_lt word_less_nat_alt)
  then show ?thesis
    using nvl.signals_pend [of "[of_nat i]" core c line] assms
    by (auto simp: nvic_signal_rp2350_irq_def nvic_rp2350_irq_timer)
qed

lemma irq_pending_check_alarm:
  assumes "i < 4" "core < 2"
  shows "irq_pending (snd (timer_check_alarm now i s)) core line \<longleftrightarrow>
    (line = i \<and> alarm_due (fst s) now i) \<or> irq_pending (snd s) core line"
  using assms irq_pending_timer_line [OF assms]
  by (auto simp: timer_check_alarm_nvic alarm_due_def)

lemma alarm_due_check_alarm:
  "i < 4 \<Longrightarrow> j \<noteq> i \<Longrightarrow> alarm_due (fst (timer_check_alarm now i s)) now j = alarm_due (fst s) now j"
  by (simp add: alarm_due_def timer_check_alarm_bits)

text \<open>C11. A tick of a running timer advances the 64-bit time by the given number of microseconds
  and fires exactly the armed alarms that the new low word has reached, in the wrap-tolerant
  sense: each such alarm is disarmed and raised in INTR, and no other alarm is. The line of an alarm that
  INTE enables becomes pending on both cores exactly when the alarm fires, and no line of another
  interrupt changes; of the line of an alarm that INTE masks nothing is said.\<close>

theorem timer_tick_fires_due_alarms:
  assumes "tm_paused t = 0" "core < 2"
    and now: "now = timer_low (t\<lparr>tm_time_us := tm_time_us t + ucast cycles\<rparr>)"
    and r: "(t', nv') = timer_tick cycles (t, nv)"
  shows "tm_time_us t' = tm_time_us t + ucast cycles \<and>
    (bit (tm_armed t') i \<longleftrightarrow> bit (tm_armed t) i \<and> \<not> alarm_due t now i) \<and>
    (bit (tm_intr t') i \<longleftrightarrow> bit (tm_intr t) i \<or> alarm_due t now i) \<and>
    ((i < 4 \<longrightarrow> bit (tm_inte t) i) \<longrightarrow> (irq_pending nv' core i \<longleftrightarrow> irq_pending nv core i \<or> alarm_due t now i))"
proof -
  define t1 where "t1 = t\<lparr>tm_time_us := tm_time_us t + ucast cycles\<rparr>"
  have due: "alarm_due t1 now j = alarm_due t now j" for j
    by (simp add: alarm_due_def t1_def)
  have nv': "nv' = snd (fold (timer_check_alarm now) [0..<4] (t1, nv))"
    using r assms(1) now by (auto simp: timer_tick_def t1_def Let_def dest: arg_cong [of _ _ snd])
  have "irq_pending nv' core i \<longleftrightarrow> irq_pending nv core i \<or> (i < 4 \<and> alarm_due t1 now i)"
    using assms(2) unfolding nv' upt_0_4 less_4_cases
    by (auto simp: irq_pending_check_alarm alarm_due_check_alarm)
  then show ?thesis
    using timer_tick_bits [OF assms(1) now] r
    by (metis due alarm_due_def fst_conv)
qed

lemma timer_low_ucast: "timer_low t = ucast (tm_time_us t)"
  by (rule bit_word_eqI) (auto simp: timer_low_def bit_simps numeral_masks)

lemma timer_low_add: "timer_low (t\<lparr>tm_time_us := tm_time_us t + ucast d\<rparr>) = timer_low t + d"
  by (simp add: timer_low_ucast ucast_add_down ucast_down_up)

section \<open>How long to sleep\<close>

lemma time_reached_later:
  assumes "\<not> time_reached now a"
  shows "d < a - now \<Longrightarrow> \<not> time_reached (now + d) a" "now + (a - now) = a" "a - now \<noteq> 0"
proof -
  define x where "x = now - a"
  have x: "2 ^ 31 \<le> unat x" using assms by (simp add: time_reached_def x_def bit31_iff)
  show "a - now \<noteq> 0" using assms by auto
  show "\<not> time_reached (now + d) a" if "d < a - now"
  proof -
    have nx: "a - now = - x" by (simp add: x_def)
    have "x \<noteq> 0" using assms by (auto simp: x_def)
    then have s: "unat x + unat d < 2 ^ LENGTH(32)"
      using \<open>d < a - now\<close> by (simp add: nx word_less_nat_alt unat_uminus_word)
    then have "unat (x + d) = unat x + unat d"
      by (simp add: unat_add_lem [THEN iffD1])
    then have "bit (x + d) 31" using x by (simp add: bit31_iff)
    moreover have "now + d - a = x + d" by (simp add: x_def)
    ultimately show ?thesis by (simp only: time_reached_def not_not)
  qed
qed simp

lemma timer_wakeup_scan_min:
  assumes "\<forall>i\<in>set is. bit (tm_armed t) i \<longrightarrow> \<not> time_reached now (tm_alarm t i)"
  shows "\<exists>b. fold (timer_wakeup_scan t now) is (Inr (best, found)) =
      Inr (b, found \<or> (\<exists>i\<in>set is. bit (tm_armed t) i)) \<and> b \<le> best \<and>
    (\<forall>i\<in>set is. bit (tm_armed t) i \<longrightarrow> b \<le> tm_alarm t i - now) \<and>
    (b = best \<or> (\<exists>i\<in>set is. bit (tm_armed t) i \<and> b = tm_alarm t i - now))"
  using assms
proof (induction "is" arbitrary: best found)
  case (Cons i "is")
  let ?best = "if bit (tm_armed t) i \<and> tm_alarm t i - now < best then tm_alarm t i - now else best"
  have step: "timer_wakeup_scan t now i (Inr (best, found)) = Inr (?best, found \<or> bit (tm_armed t) i)"
    using Cons.prems by (auto simp: timer_wakeup_scan_def Let_def)
  obtain b where "fold (timer_wakeup_scan t now) is (Inr (?best, found \<or> bit (tm_armed t) i)) =
      Inr (b, (found \<or> bit (tm_armed t) i) \<or> (\<exists>i\<in>set is. bit (tm_armed t) i))" "b \<le> ?best"
    "\<forall>i\<in>set is. bit (tm_armed t) i \<longrightarrow> b \<le> tm_alarm t i - now"
    "b = ?best \<or> (\<exists>i\<in>set is. bit (tm_armed t) i \<and> b = tm_alarm t i - now)"
    using Cons.IH [of ?best "found \<or> bit (tm_armed t) i"] Cons.prems by auto
  then show ?case
    by (intro exI [of _ b]) (auto simp: step not_less split: if_splits)
qed simp

text \<open>The fast-forward of a sleeping machine neither oversleeps nor wakes for nothing: with
  an alarm armed and none due yet, no alarm becomes due before \<^verbatim>\<open>timer_next_wakeup_us\<close>
  microseconds have passed, one is due exactly then, and the step is never zero.\<close>

theorem timer_next_wakeup_exact:
  assumes armed: "\<exists>i<4. bit (tm_armed t) i" and none: "\<forall>i. \<not> alarm_due t (timer_low t) i"
    and t: "\<And>d. at d = timer_low (t\<lparr>tm_time_us := tm_time_us t + ucast d\<rparr>)"
  shows "0 < timer_next_wakeup_us t \<and>
    (\<forall>d < timer_next_wakeup_us t. \<forall>i. \<not> alarm_due t (at d) i) \<and>
    (\<exists>i. alarm_due t (at (timer_next_wakeup_us t)) i)"
proof -
  define now where "now = timer_low t"
  have nr: "\<not> time_reached now (tm_alarm t i)" if "i < 4" "bit (tm_armed t) i" for i
    using none that by (auto simp: alarm_due_def now_def)
  have s4: "set [0..<4] = {..<4 :: nat}" by auto
  obtain b where fold: "fold (timer_wakeup_scan t now) [0..<4] (Inr (0xFFFFFFFF, False)) = Inr (b, True)"
    and b: "\<forall>i<4. bit (tm_armed t) i \<longrightarrow> b \<le> tm_alarm t i - now"
      "b = 0xFFFFFFFF \<or> (\<exists>i<4. bit (tm_armed t) i \<and> b = tm_alarm t i - now)"
    using timer_wakeup_scan_min [of "[0..<4]" t now "0xFFFFFFFF" False] armed nr
    unfolding s4 Ball_def Bex_def lessThan_iff by auto
  have wake: "timer_next_wakeup_us t = b"
    unfolding timer_next_wakeup_us_def now_def [symmetric] fold by simp
  obtain j where j: "j < 4" "bit (tm_armed t) j" "b = tm_alarm t j - now"
  proof (cases "b = 0xFFFFFFFF")
    case True
    then show thesis using armed b(1) that by (metis order_antisym u32_le_max)
  qed (use b(2) that in auto)
  have at: "at d = now + d" for d by (simp add: t timer_low_add now_def)
  have "\<not> alarm_due t (at d) i" if "d < b" for d i
    using time_reached_later(1) [OF nr, of i d] b(1) that
    by (auto simp: alarm_due_def at intro: less_le_trans)
  moreover have "alarm_due t (at b) j"
    using j time_reached_later(2) [OF nr [OF j(1,2)]] by (simp add: alarm_due_def at)
  moreover have "b \<noteq> 0" using j time_reached_later(3) [OF nr [OF j(1,2)]] by simp
  ultimately show ?thesis by (auto simp: wake word_gt_0)
qed

definition timer_demo :: timer_state where
  "timer_demo = \<lparr>tm_time_us = 0xFFFFFF00, tm_alarm = (\<lambda>_. 0)(1 := 0x40, 2 := 0x30), tm_armed = 6,
     tm_intr = 0, tm_inte = 0xF, tm_intf = 0, tm_paused = 0, tm_timehw_latch = 0,
     timer_latched_high = 0\<rparr>"

lemma timer_demo_low: "timer_low timer_demo = 0xFFFFFF00"
  by (simp add: timer_low_def timer_demo_def)

lemma timer_demo_armed: "bit (tm_armed timer_demo) i \<longleftrightarrow> i = 1 \<or> i = 2"
proof -
  have "bit (6 :: u32) i \<longleftrightarrow> i = 1 \<or> i = 2" if "i < 32"
    using that unfolding bit_cases_32 by (elim disjE) simp_all
  then show ?thesis
    using bit_imp_le_length [of "6 :: u32" i] by (auto simp: timer_demo_def)
qed

theorem timer_next_wakeup_witness:
  "(\<forall>i. \<not> alarm_due timer_demo (timer_low timer_demo) i) \<and> 0 < timer_next_wakeup_us timer_demo"
proof -
  have armed: "\<exists>i<4. bit (tm_armed timer_demo) i" by (intro exI [of _ 2]) (simp add: timer_demo_armed)
  have none: "\<forall>i. \<not> alarm_due timer_demo (timer_low timer_demo) i"
    by (auto simp: alarm_due_def timer_demo_armed timer_demo_low time_reached_def) (simp_all add: timer_demo_def)
  show ?thesis
    using timer_next_wakeup_exact [OF armed none refl] none by simp
qed

theorem timer_tick_fires_witness:
  "irq_pending (snd (timer_tick 0x130 (timer_demo, nvic_boot))) 1 2"
proof -
  obtain t' nv' where r: "(t', nv') = timer_tick 0x130 (timer_demo, nvic_boot)"
    by (metis surj_pair)
  have "alarm_due timer_demo (timer_low (timer_demo\<lparr>tm_time_us := tm_time_us timer_demo + ucast (0x130 :: u32)\<rparr>)) 2"
    by (simp add: alarm_due_def timer_demo_armed time_reached_def timer_low_def)
      (simp add: timer_demo_def)
  then show ?thesis
    using timer_tick_fires_due_alarms [OF _ _ refl r, of 1 2] r [symmetric] by (simp add: timer_demo_def)
qed

section \<open>Atomic access to the 64-bit time\<close>

lemma timer_tick_latch: "timer_latched_high (fst (timer_tick n s)) = timer_latched_high (fst s)"
  by (simp add: timer_tick_def Let_def upt_0_4 timer_check_alarm_def timer_fire_alarm_def split_beta)

lemma timer_words: "shl (ucast (timer_high t)) 32 OR ucast (timer_low t) = tm_time_us t"
proof (rule bit_word_eqI)
  fix n
  assume "n < LENGTH(64)"
  then show "bit (shl (ucast (timer_high t)) 32 OR ucast (timer_low t) :: u64) n = bit (tm_time_us t) n"
    by (cases "n < 32") (auto simp: timer_high_def timer_low_def bit_simps numeral_masks)
qed

text \<open>Reading TIMELR and later TIMEHR yields the two halves of one 64-bit time, the time at
  the first read, however often and however far the timer ticks in between.\<close>

theorem timer_atomic_read:
  "shl (ucast (fst (timer_read32 TIMER_TIMEHR
     (fst (fold timer_tick ticks (snd (timer_read32 TIMER_TIMELR t), nv)))))) 32 OR
   ucast (fst (timer_read32 TIMER_TIMELR t)) = tm_time_us t"
proof -
  have "timer_latched_high (fst (fold timer_tick ticks s)) = timer_latched_high (fst s)" for s
    by (induction ticks arbitrary: s) (simp_all add: timer_tick_latch)
  then show ?thesis
    using timer_words [of t] by (simp add: timer_read32_def)
qed

text \<open>Writing TIMEHW and then TIMELW sets the 64-bit time to the two written words at once;
  reading it back returns them.\<close>

theorem timer_time_write_read:
  "tm_time_us (fst (timer_write32 TIMER_TIMELW lo (timer_write32 TIMER_TIMEHW hi s))) =
     shl (ucast hi) 32 OR ucast lo \<and>
   fst (timer_read32 TIMER_TIMELR (fst (timer_write32 TIMER_TIMELW lo (timer_write32 TIMER_TIMEHW hi s)))) = lo \<and>
   timer_latched_high (snd (timer_read32 TIMER_TIMELR
     (fst (timer_write32 TIMER_TIMELW lo (timer_write32 TIMER_TIMEHW hi s))))) = hi"
proof -
  let ?v = "shl (ucast hi) 32 OR ucast lo :: u64"
  have "ucast (?v AND 0xFFFFFFFF) = lo"
    by (rule bit_word_eqI) (auto simp: bit_simps numeral_masks)
  moreover have "ucast (shr ?v 32 AND 0xFFFFFFFF) = hi"
    by (rule bit_word_eqI) (auto simp: bit_simps numeral_masks dest: bit_imp_le_length)
  ultimately show ?thesis
    by (cases s) (simp add: timer_write32_def timer_read32_def timer_low_def timer_high_def)
qed

section \<open>Deviations\<close>

text \<open>An alarm raises its interrupt line although its bit in INTE is clear, while INTS, the
  masked status, stays zero.\<close>

lemma timer_alarm_ignores_inte:
  fixes t :: timer_state
  defines "t \<equiv> timer_demo\<lparr>tm_inte := 0\<rparr>"
  shows "irq_pending (snd (timer_fire_alarm 2 (t, nvic_boot))) 0 2 \<and>
    fst (timer_read32 TIMER_INTS (fst (timer_fire_alarm 2 (t, nvic_boot)))) = 0"
  using irq_pending_timer_line [of 2 0 nvic_boot 2]
  by (simp add: timer_fire_alarm_def timer_read32_def t_def)

text \<open>The comment on \<^verbatim>\<open>timer_next_wakeup_us\<close> says it returns 0 when an alarm is already
  due; it returns 1.\<close>

lemma timer_next_wakeup_due_is_1:
  fixes t :: timer_state
  defines "t \<equiv> timer_demo\<lparr>tm_alarm := \<lambda>_. 0xFFFFFF00\<rparr>"
  shows "timer_next_wakeup_us t = 1"
  by (simp add: timer_next_wakeup_us_def timer_wakeup_scan_def t_def upt_0_4 timer_low_def time_reached_def
      timer_demo_def)

end
