(* ===== verification/Rtc.thy ===== *)
theory Rtc
  imports Emu_Prelude
begin

unbundle bit_operations_syntax

text \<open>
  The real-time clock of \<^verbatim>\<open>src/rtc.c\<close>. The running date and time are C \<^verbatim>\<open>int\<close>s
  that only ever hold small non-negative values (they are loaded from masked bit fields and
  incremented with a wrap), so they are \<open>nat\<close> here. The specification is a count of seconds
  in the proleptic Gregorian calendar.
\<close>

section \<open>State and operations\<close>

record rtc_state =
  rtc_clkdiv_m1 :: u32
  rtc_setup_0 :: u32
  rtc_setup_1 :: u32
  rtc_ctrl :: u32
  rtc_irq_setup_0 :: u32
  rtc_irq_setup_1 :: u32
  rtc_inte :: u32
  rtc_intf :: u32
  rtc_year :: nat
  rtc_month :: nat
  rtc_day :: nat
  rtc_dotw :: nat
  rtc_hour :: nat
  rtc_min :: nat
  rtc_sec :: nat
  rtc_tick_acc :: u64

definition rtc_init :: rtc_state where
  "rtc_init = \<lparr>rtc_clkdiv_m1 = 0, rtc_setup_0 = 0, rtc_setup_1 = 0, rtc_ctrl = 0,
     rtc_irq_setup_0 = 0, rtc_irq_setup_1 = 0, rtc_inte = 0, rtc_intf = 0, rtc_year = 0,
     rtc_month = 0, rtc_day = 0, rtc_dotw = 0, rtc_hour = 0, rtc_min = 0, rtc_sec = 0,
     rtc_tick_acc = 0\<rparr>"

definition days_in_month :: "nat \<Rightarrow> nat \<Rightarrow> nat" where
  "days_in_month month year =
     (if month < 1 \<or> month > 12 then 30
      else if month = 2 \<and> (year mod 4 = 0 \<and> year mod 100 \<noteq> 0 \<or> year mod 400 = 0) then 29
      else [0, 31, 28, 31, 30, 31, 30, 31, 31, 30, 31, 30, 31] ! month)"

definition rtc_advance_second :: "rtc_state \<Rightarrow> rtc_state" where
  "rtc_advance_second s0 =
    (let s1 = s0\<lparr>rtc_sec := rtc_sec s0 + 1\<rparr> in
     if rtc_sec s1 < 60 then s1
     else let s2 = s1\<lparr>rtc_sec := 0, rtc_min := rtc_min s1 + 1\<rparr> in
     if rtc_min s2 < 60 then s2
     else let s3 = s2\<lparr>rtc_min := 0, rtc_hour := rtc_hour s2 + 1\<rparr> in
     if rtc_hour s3 < 24 then s3
     else let s4 = s3\<lparr>rtc_hour := 0, rtc_dotw := (rtc_dotw s3 + 1) mod 7, rtc_day := rtc_day s3 + 1\<rparr> in
     if rtc_day s4 \<le> days_in_month (rtc_month s4) (rtc_year s4) then s4
     else let s5 = s4\<lparr>rtc_day := 1, rtc_month := rtc_month s4 + 1\<rparr> in
     if rtc_month s5 \<le> 12 then s5
     else let s6 = s5\<lparr>rtc_month := 1, rtc_year := rtc_year s5 + 1\<rparr> in
     if rtc_year s6 > 4095 then s6\<lparr>rtc_year := 0\<rparr> else s6)"

definition rtc_load_setup :: "rtc_state \<Rightarrow> rtc_state" where
  "rtc_load_setup s = s\<lparr>
     rtc_year := unat (shr (rtc_setup_0 s) 12 AND 0xFFF),
     rtc_month := unat (shr (rtc_setup_0 s) 8 AND 0xF),
     rtc_day := unat (rtc_setup_0 s AND 0x1F),
     rtc_dotw := unat (shr (rtc_setup_1 s) 24 AND 0x7),
     rtc_hour := unat (shr (rtc_setup_1 s) 16 AND 0x1F),
     rtc_min := unat (shr (rtc_setup_1 s) 8 AND 0x3F),
     rtc_sec := unat (rtc_setup_1 s AND 0x3F),
     rtc_tick_acc := 0\<rparr>"

definition rtc_pack_rtc1 :: "rtc_state \<Rightarrow> u32" where
  "rtc_pack_rtc1 s = shl (of_nat (rtc_year s) AND 0xFFF) 12 OR shl (of_nat (rtc_month s) AND 0xF) 8 OR
     (of_nat (rtc_day s) AND 0x1F)"

definition rtc_pack_rtc0 :: "rtc_state \<Rightarrow> u32" where
  "rtc_pack_rtc0 s = shl (of_nat (rtc_dotw s) AND 0x7) 24 OR shl (of_nat (rtc_hour s) AND 0x1F) 16 OR
     shl (of_nat (rtc_min s) AND 0x3F) 8 OR (of_nat (rtc_sec s) AND 0x3F)"

definition rtc_match :: "u32 \<Rightarrow> bool" where
  "rtc_match addr \<longleftrightarrow> (let base = addr AND NOT 0x3000 in base \<ge> 0x4005C000 \<and> base < 0x4005C000 + 0x30)"

definition rtc_read32 :: "u32 \<Rightarrow> rtc_state \<Rightarrow> u32" where
  "rtc_read32 off s =
    (if off = 0x00 then rtc_clkdiv_m1 s
     else if off = 0x04 then rtc_setup_0 s
     else if off = 0x08 then rtc_setup_1 s
     else if off = 0x0C then
       (if rtc_ctrl s AND 1 \<noteq> 0 then rtc_ctrl s OR 2 else rtc_ctrl s AND NOT 2)
     else if off = 0x10 then rtc_irq_setup_0 s
     else if off = 0x14 then rtc_irq_setup_1 s
     else if off = 0x18 then rtc_pack_rtc1 s
     else if off = 0x1C then rtc_pack_rtc0 s
     else if off = 0x20 then 0
     else if off = 0x24 then rtc_inte s
     else if off = 0x28 then rtc_intf s
     else if off = 0x2C then rtc_intf s AND rtc_inte s
     else 0)"

definition rtc_write32 :: "u32 \<Rightarrow> u32 \<Rightarrow> rtc_state \<Rightarrow> rtc_state" where
  "rtc_write32 off val s =
    (if off = 0x00 then s\<lparr>rtc_clkdiv_m1 := val\<rparr>
     else if off = 0x04 then s\<lparr>rtc_setup_0 := val\<rparr>
     else if off = 0x08 then s\<lparr>rtc_setup_1 := val\<rparr>
     else if off = 0x0C then
       (let s1 = (if val AND 0x10 \<noteq> 0 then rtc_load_setup s else s)
        in s1\<lparr>rtc_ctrl := val AND NOT 0x10\<rparr>)
     else if off = 0x10 then s\<lparr>rtc_irq_setup_0 := val\<rparr>
     else if off = 0x14 then s\<lparr>rtc_irq_setup_1 := val\<rparr>
     else if off = 0x24 then s\<lparr>rtc_inte := val AND 1\<rparr>
     else if off = 0x28 then s\<lparr>rtc_intf := val AND 1\<rparr>
     else s)"

function rtc_tick_loop :: "rtc_state \<Rightarrow> rtc_state" where
  "rtc_tick_loop s =
     (if rtc_tick_acc s \<ge> 1000000
      then rtc_tick_loop (rtc_advance_second (s\<lparr>rtc_tick_acc := rtc_tick_acc s - 1000000\<rparr>))
      else s)"
  by pat_completeness auto

lemma rtc_advance_acc [simp]:
  "rtc_tick_acc (rtc_advance_second s) = rtc_tick_acc s"
  "rtc_ctrl (rtc_advance_second s) = rtc_ctrl s"
  by (simp_all add: rtc_advance_second_def Let_def)

lemma acc_sub: "1000000 \<le> a \<Longrightarrow> unat (a - 1000000) = unat a - 1000000" for a :: u64
  by (simp add: unat_sub)

termination rtc_tick_loop
  by (relation "measure (\<lambda>s. unat (rtc_tick_acc s))")
    (auto simp: acc_sub word_le_nat_alt)

declare rtc_tick_loop.simps [simp del]

definition rtc_tick :: "u32 \<Rightarrow> rtc_state \<Rightarrow> rtc_state" where
  "rtc_tick elapsed_us s =
     (if rtc_ctrl s AND 1 = 0 then s
      else rtc_tick_loop (s\<lparr>rtc_tick_acc := rtc_tick_acc s + ucast elapsed_us\<rparr>))"

section \<open>Seconds are counted exactly\<close>

lemma rtc_advance_upd_acc:
  "rtc_advance_second (s\<lparr>rtc_tick_acc := x\<rparr>) = (rtc_advance_second s)\<lparr>rtc_tick_acc := x\<rparr>"
  by (simp add: rtc_advance_second_def Let_def)

lemma rtc_advances_upd_acc:
  "(rtc_advance_second ^^ k) (s\<lparr>rtc_tick_acc := x\<rparr>) = ((rtc_advance_second ^^ k) s)\<lparr>rtc_tick_acc := x\<rparr>"
  by (induction k) (simp_all add: rtc_advance_upd_acc)

lemma rtc_tick_loop_funpow:
  "rtc_tick_loop s =
     ((rtc_advance_second ^^ (unat (rtc_tick_acc s) div 1000000)) s)
       \<lparr>rtc_tick_acc := of_nat (unat (rtc_tick_acc s) mod 1000000)\<rparr>"
proof (induction s rule: rtc_tick_loop.induct)
  case (1 s)
  let ?a = "unat (rtc_tick_acc s)"
  show ?case
  proof (cases "rtc_tick_acc s \<ge> 1000000")
    case True
    let ?s = "rtc_advance_second (s\<lparr>rtc_tick_acc := rtc_tick_acc s - 1000000\<rparr>)"
    have le: "1000000 \<le> ?a" using True by (simp add: word_le_nat_alt)
    have "rtc_tick_loop s = rtc_tick_loop ?s"
      using True by (subst rtc_tick_loop.simps) simp
    also have "\<dots> = ((rtc_advance_second ^^ ((?a - 1000000) div 1000000)) ?s)
        \<lparr>rtc_tick_acc := of_nat ((?a - 1000000) mod 1000000)\<rparr>"
      using "1.IH" [OF True] by (simp add: acc_sub [OF True])
    also have "\<dots> = ((rtc_advance_second ^^ Suc ((?a - 1000000) div 1000000)) s)
        \<lparr>rtc_tick_acc := of_nat ((?a - 1000000) mod 1000000)\<rparr>"
      by (simp add: rtc_advance_upd_acc rtc_advances_upd_acc funpow_swap1)
    also have "Suc ((?a - 1000000) div 1000000) = ?a div 1000000"
      using le by (simp add: le_div_geq)
    also have "(?a - 1000000) mod 1000000 = ?a mod 1000000"
      using le by (simp add: le_mod_geq)
    finally show ?thesis .
  next
    case False
    then have "?a < 1000000" by (simp add: word_le_nat_alt)
    then show ?thesis using False by (subst rtc_tick_loop.simps) simp
  qed
qed

text \<open>Ticking the clock by any number of microseconds advances it by the number of whole
  seconds that have accumulated and keeps the remainder; a disabled clock does not move.\<close>

theorem rtc_tick_counts_seconds:
  "rtc_tick us s =
     (if rtc_ctrl s AND 1 = 0 then s
      else let acc = unat (rtc_tick_acc s + ucast us)
           in ((rtc_advance_second ^^ (acc div 1000000)) s)\<lparr>rtc_tick_acc := of_nat (acc mod 1000000)\<rparr>)"
  by (simp add: rtc_tick_def rtc_tick_loop_funpow rtc_advances_upd_acc Let_def)

section \<open>The calendar\<close>

text \<open>The Gregorian calendar, independent of the tables of the program: every fourth year is a leap year,
  except that of the full centuries only every fourth is; thirty days have April, June, September and
  November.\<close>

definition is_leap :: "nat \<Rightarrow> bool" where
  "is_leap y \<longleftrightarrow> 4 dvd y \<and> (100 dvd y \<longrightarrow> 400 dvd y)"

definition month_length :: "nat \<Rightarrow> nat \<Rightarrow> nat" where
  "month_length y m = (if m = 2 then (if is_leap y then 29 else 28) else if m \<in> {4, 6, 9, 11} then 30 else 31)"

definition rtc_valid :: "rtc_state \<Rightarrow> bool" where
  "rtc_valid s \<longleftrightarrow> rtc_sec s < 60 \<and> rtc_min s < 60 \<and> rtc_hour s < 24 \<and> rtc_dotw s < 7 \<and>
     1 \<le> rtc_month s \<and> rtc_month s \<le> 12 \<and> rtc_year s \<le> 4095 \<and>
     1 \<le> rtc_day s \<and> rtc_day s \<le> month_length (rtc_year s) (rtc_month s)"

text \<open>Days before a date since the beginning of year 0, and seconds before an instant.\<close>

definition days_before_month :: "nat \<Rightarrow> nat \<Rightarrow> nat" where
  "days_before_month y m = (\<Sum>k\<in>{1..<m}. month_length y k)"

definition days_before_year :: "nat \<Rightarrow> nat" where
  "days_before_year y = (\<Sum>k\<in>{0..<y}. if is_leap k then 366 else 365)"

definition rtc_day_number :: "rtc_state \<Rightarrow> nat" where
  "rtc_day_number s = days_before_year (rtc_year s) + days_before_month (rtc_year s) (rtc_month s) +
     (rtc_day s - 1)"

definition rtc_second_number :: "rtc_state \<Rightarrow> nat" where
  "rtc_second_number s =
     ((rtc_day_number s * 24 + rtc_hour s) * 60 + rtc_min s) * 60 + rtc_sec s"

text \<open>The table of the program has the lengths of the calendar.\<close>

lemma days_in_month_length: "1 \<le> m \<Longrightarrow> m \<le> 12 \<Longrightarrow> days_in_month m y = month_length y m"
proof -
  assume "1 \<le> m" "m \<le> 12"
  then have "m = 1 \<or> m = 2 \<or> m = 3 \<or> m = 4 \<or> m = 5 \<or> m = 6 \<or> m = 7 \<or> m = 8 \<or> m = 9 \<or> m = 10 \<or> m = 11 \<or> m = 12"
    by arith
  moreover have "(y mod 4 = 0 \<and> y mod 100 \<noteq> 0 \<or> y mod 400 = 0) = is_leap y"
    unfolding is_leap_def by presburger
  ultimately show ?thesis by (auto simp: days_in_month_def month_length_def)
qed

lemma month_length_pos: "1 \<le> month_length y m"
  by (simp add: month_length_def)

lemma days_before_month_Suc: "1 \<le> m \<Longrightarrow> days_before_month y (Suc m) = days_before_month y m + month_length y m"
  by (simp add: days_before_month_def)

lemma days_before_month_1 [simp]: "days_before_month y (Suc 0) = 0"
  by (simp add: days_before_month_def)

lemma days_before_month_13: "days_before_month y 13 = (if is_leap y then 366 else 365)"
proof -
  have "{1..<13} = {1, 2, 3, 4, 5, 6, 7, 8, 9, 10, 11, 12 :: nat}" by (auto, presburger)
  then show ?thesis by (simp add: days_before_month_def month_length_def)
qed

lemma days_before_year_Suc: "days_before_year (Suc y) = days_before_year y + days_before_month y 13"
  by (simp add: days_before_year_def days_before_month_13)

lemma days_before_year_0 [simp]: "days_before_year 0 = 0"
  by (simp add: days_before_year_def)

lemma rtc_advance_valid: "rtc_valid s \<Longrightarrow> rtc_valid (rtc_advance_second s)"
  using month_length_pos
  by (auto simp: rtc_valid_def rtc_advance_second_def Let_def days_in_month_length split: if_splits)

lemma days_before_month_mono: "m \<le> n \<Longrightarrow> days_before_month y m \<le> days_before_month y n"
  unfolding days_before_month_def by (rule sum_mono2) auto

lemma days_before_year_mono: "y \<le> z \<Longrightarrow> days_before_year y \<le> days_before_year z"
  unfolding days_before_year_def by (rule sum_mono2) auto

lemma rtc_day_number_less:
  assumes "rtc_valid s"
  shows "rtc_day_number s < days_before_year 4096"
proof -
  let ?y = "rtc_year s" and ?m = "rtc_month s"
  have "days_before_month ?y ?m + (rtc_day s - 1) < days_before_month ?y (Suc ?m)"
    using assms by (auto simp: rtc_valid_def days_before_month_Suc)
  also have "\<dots> \<le> days_before_month ?y 13"
    using assms by (intro days_before_month_mono) (simp add: rtc_valid_def)
  finally have "rtc_day_number s < days_before_year (Suc ?y)"
    by (simp add: rtc_day_number_def days_before_year_Suc)
  also have "\<dots> \<le> days_before_year 4096"
    using assms by (intro days_before_year_mono) (simp add: rtc_valid_def)
  finally show ?thesis .
qed

definition rtc_time_of_day :: "rtc_state \<Rightarrow> nat" where
  "rtc_time_of_day s = (rtc_hour s * 60 + rtc_min s) * 60 + rtc_sec s"

lemma rtc_second_number_split: "rtc_second_number s = rtc_day_number s * 86400 + rtc_time_of_day s"
  by (simp add: rtc_second_number_def rtc_time_of_day_def)

lemma rtc_time_of_day_less: "rtc_valid s \<Longrightarrow> rtc_time_of_day s < 86400"
  by (simp add: rtc_valid_def rtc_time_of_day_def)

lemma last_second:
  assumes "(h * 60 + m) * 60 + s + 1 = (86400 :: nat)" "h < 24" "m < 60" "s < 60"
  shows "s = 59 \<and> m = 59 \<and> h = 23"
proof -
  have e: "h * 3600 + m * 60 + s = 86399" "h \<le> 23" "m \<le> 59" "s \<le> 59" using assms by simp_all
  then have "59 \<le> s" by linarith
  moreover have "59 \<le> m" using e by linarith
  moreover have "23 \<le> h" using e by linarith
  ultimately show ?thesis using e(2,3,4) by auto
qed

lemma rtc_advance_same_day:
  assumes "rtc_valid s" "rtc_time_of_day s + 1 < 86400"
  shows "rtc_time_of_day (rtc_advance_second s) = rtc_time_of_day s + 1"
    "rtc_day_number (rtc_advance_second s) = rtc_day_number s"
  using assms
  by (auto simp: rtc_valid_def rtc_time_of_day_def rtc_day_number_def rtc_advance_second_def Let_def)

lemma rtc_advance_next_day:
  assumes "rtc_valid s" "rtc_time_of_day s + 1 = 86400"
  shows "rtc_time_of_day (rtc_advance_second s) = 0"
    "rtc_day_number (rtc_advance_second s) =
       (if rtc_day_number s + 1 = days_before_year 4096 then 0 else rtc_day_number s + 1)"
proof -
  let ?s = "rtc_advance_second s" and ?y = "rtc_year s" and ?m = "rtc_month s" and ?d = "rtc_day s"
  have last: "rtc_sec s = 59" "rtc_min s = 59" "rtc_hour s = 23"
    using last_second [of "rtc_hour s" "rtc_min s" "rtc_sec s"] assms
    unfolding rtc_valid_def rtc_time_of_day_def by blast+
  have v: "1 \<le> ?m" "?m \<le> 12" "?y \<le> 4095" "1 \<le> ?d" "?d \<le> month_length ?y ?m"
    using assms(1) by (auto simp: rtc_valid_def)
  note dim = days_in_month_length [OF v(1,2), of ?y]
  show "rtc_time_of_day ?s = 0"
    by (simp add: rtc_time_of_day_def rtc_advance_second_def Let_def last dim)
  have less: "rtc_day_number ?s < days_before_year 4096"
    using rtc_advance_valid [OF assms(1)] by (rule rtc_day_number_less)
  consider "?d < month_length ?y ?m" | "?d = month_length ?y ?m" "?m < 12"
    | "?d = month_length ?y ?m" "?m = 12" "?y < 4095" | "?d = month_length ?y ?m" "?m = 12" "?y = 4095"
    using v by fastforce
  then show "rtc_day_number ?s =
      (if rtc_day_number s + 1 = days_before_year 4096 then 0 else rtc_day_number s + 1)"
  proof cases
    case 1
    then have "rtc_day_number ?s = rtc_day_number s + 1"
      using v by (simp add: rtc_day_number_def rtc_advance_second_def Let_def last dim)
    then show ?thesis using less by simp
  next
    case 2
    then have "rtc_day_number ?s = rtc_day_number s + 1"
      using v by (simp add: rtc_day_number_def rtc_advance_second_def Let_def last dim days_before_month_Suc)
    then show ?thesis using less by simp
  next
    case 3
    then have "days_before_month ?y 13 = days_before_month ?y 12 + ?d"
      using days_before_month_Suc [of 12 ?y] by simp
    then have "rtc_day_number ?s = rtc_day_number s + 1"
      using v 3 by (simp add: rtc_day_number_def rtc_advance_second_def Let_def last dim days_before_year_Suc)
    then show ?thesis using less by simp
  next
    case 4
    then have "days_before_month ?y 13 = days_before_month ?y 12 + ?d"
      using days_before_month_Suc [of 12 ?y] by simp
    then have "rtc_day_number s + 1 = days_before_year 4096"
      using v 4 days_before_year_Suc [of 4095] by (simp add: rtc_day_number_def)
    moreover have "rtc_day_number ?s = 0"
      using 4 by (simp add: rtc_day_number_def rtc_advance_second_def Let_def last days_in_month_length
        days_before_year_def)
    ultimately show ?thesis by simp
  qed
qed

lemma rtc_advance_dotw:
  assumes "rtc_valid s"
  shows "rtc_dotw (rtc_advance_second s) = (if rtc_time_of_day s + 1 = 86400 then (rtc_dotw s + 1) mod 7 else rtc_dotw s)"
  using assms last_second [of "rtc_hour s" "rtc_min s" "rtc_sec s"]
  by (auto simp: rtc_valid_def rtc_time_of_day_def rtc_advance_second_def Let_def)

text \<open>C40. One second of the clock is one second of the Gregorian calendar: on every valid date
  and time the running registers move to the date and time whose second number is one higher,
  with month lengths and leap years as the calendar has them, and at the end of year 4095 they wrap to the
  beginning of year 0. The result is again a valid date and time, and the day of the week moves on
  exactly at midnight.\<close>

theorem rtc_advance_second_calendar:
  assumes "rtc_valid s"
  shows "rtc_valid (rtc_advance_second s) \<and>
    rtc_second_number (rtc_advance_second s) =
      (if rtc_second_number s + 1 = days_before_year 4096 * 86400 then 0 else rtc_second_number s + 1) \<and>
    rtc_dotw (rtc_advance_second s) =
      (if (rtc_second_number s + 1) mod 86400 = 0 then (rtc_dotw s + 1) mod 7 else rtc_dotw s)"
proof -
  have less: "rtc_time_of_day s < 86400" by (rule rtc_time_of_day_less [OF assms])
  have m: "(rtc_second_number s + 1) mod 86400 = 0 \<longleftrightarrow> rtc_time_of_day s + 1 = 86400"
    using less by (auto simp: rtc_second_number_split mod_Suc)
  have "(rtc_day_number s + 1) * 86400 \<le> days_before_year 4096 * 86400"
    using rtc_day_number_less [OF assms] by (intro mult_right_mono) auto
  then show ?thesis
    using less rtc_advance_same_day [OF assms] rtc_advance_next_day [OF assms] rtc_advance_valid [OF assms]
      rtc_advance_dotw [OF assms] unfolding m
    by (cases "rtc_time_of_day s + 1 = 86400") (auto simp: rtc_second_number_split)
qed

definition rtc_demo :: rtc_state where
  "rtc_demo = rtc_init\<lparr>rtc_year := 2024, rtc_month := 2, rtc_day := 29, rtc_dotw := 4,
     rtc_hour := 23, rtc_min := 59, rtc_sec := 59\<rparr>"

theorem rtc_advance_second_witness:
  "rtc_valid rtc_demo \<and> rtc_valid (rtc_advance_second rtc_demo) \<and>
   rtc_month (rtc_advance_second rtc_demo) = 3 \<and> rtc_day (rtc_advance_second rtc_demo) = 1"
proof -
  have v: "rtc_valid rtc_demo"
    by (simp add: rtc_valid_def rtc_demo_def month_length_def is_leap_def)
  show ?thesis
    using rtc_advance_second_calendar [OF v] v
    by (simp add: rtc_advance_second_def rtc_demo_def days_in_month_def)
qed

section \<open>Loading and reading back\<close>

text \<open>Writing the two SETUP registers and the LOAD strobe makes the running-time registers
  RTC_1 and RTC_0 read back the written fields, whatever the fields hold.\<close>

theorem rtc_load_read_roundtrip:
  "rtc_read32 0x18 (rtc_write32 0x0C 0x11 (rtc_write32 0x08 s1 (rtc_write32 0x04 s0 s))) = s0 AND 0x00FFFF1F \<and>
   rtc_read32 0x1C (rtc_write32 0x0C 0x11 (rtc_write32 0x08 s1 (rtc_write32 0x04 s0 s))) = s1 AND 0x071F3F3F"
proof -
  have "shl ((shr s0 12 AND 0xFFF) AND 0xFFF) 12 OR shl ((shr s0 8 AND 0xF) AND 0xF) 8 OR ((s0 AND 0x1F) AND 0x1F) =
      s0 AND 0x00FFFF1F" (is "?l = ?r")
  proof (rule bit_word_eqI)
    fix n assume "n < LENGTH(32)"
    then have "n < 32" by simp
    then show "bit ?l n = bit ?r n"
      unfolding bit_cases_32 by (elim disjE) (simp_all add: bit_simps)
  qed
  moreover have "shl ((shr s1 24 AND 0x7) AND 0x7) 24 OR shl ((shr s1 16 AND 0x1F) AND 0x1F) 16 OR
      shl ((shr s1 8 AND 0x3F) AND 0x3F) 8 OR ((s1 AND 0x3F) AND 0x3F) = s1 AND 0x071F3F3F" (is "?l = ?r")
  proof (rule bit_word_eqI)
    fix n assume "n < LENGTH(32)"
    then have "n < 32" by simp
    then show "bit ?l n = bit ?r n"
      unfolding bit_cases_32 by (elim disjE) (simp_all add: bit_simps)
  qed
  ultimately show ?thesis
    by (simp add: rtc_read32_def rtc_write32_def rtc_load_setup_def rtc_pack_rtc1_def rtc_pack_rtc0_def)
qed

end
