(* ===== verification/Sio.thy ===== *)
theory Sio
  imports Nvic "HOL-Library.Signed_Division"
begin

unbundle bit_operations_syntax

text \<open>
  The single-cycle IO block: the inter-core mailboxes, hardware spinlocks and the launch state of
  core 1 (\<^verbatim>\<open>src/cpu.c\<close>), and the integer dividers and interpolators of each core
  (\<^verbatim>\<open>src/membus.c\<close>). Ring indices and counters, which the code keeps below 32, are \<open>nat\<close>.
  What of the block reaches the rest of the machine (launching core 1, the GPIO registers) is in
  the theories \<open>Core1_Boot\<close> and \<open>Membus\<close>.
\<close>

section \<open>State\<close>

record multicore_fifo =
  ff_messages :: "nat \<Rightarrow> u32"
  ff_write_ptr :: nat
  ff_read_ptr :: nat
  ff_count :: nat

record sio_divider_state =
  dv_udividend :: u32
  dv_udivisor :: u32
  dv_sdividend :: u32
  dv_sdivisor :: u32
  dv_quotient :: u32
  dv_remainder :: u32
  dv_csr :: u32

record interp_state =
  ip_accum0 :: u32
  ip_accum1 :: u32
  ip_base0 :: u32
  ip_base1 :: u32
  ip_base2 :: u32
  ip_ctrl0 :: u32
  ip_ctrl1 :: u32

record core1_bootrom_state =
  bt_waiting_for_launch :: bool
  bt_launch_words :: "nat \<Rightarrow> u32"
  bt_launch_count :: nat

record sio_state =
  sio_fifo :: "nat \<Rightarrow> multicore_fifo"
  sio_spinlocks :: "nat \<Rightarrow> u32"
  sio_fifo_sticky :: "nat \<Rightarrow> u32"
  sio_dividers :: "nat \<Rightarrow> sio_divider_state"
  sio_interp :: "nat \<Rightarrow> nat \<Rightarrow> interp_state"
  core1_bootrom :: core1_bootrom_state
  bootrom_last_push_us :: u64

definition fifo_zero :: multicore_fifo where
  "fifo_zero = \<lparr>ff_messages = (\<lambda>_. 0), ff_write_ptr = 0, ff_read_ptr = 0, ff_count = 0\<rparr>"

definition divider_boot :: sio_divider_state where
  "divider_boot = \<lparr>dv_udividend = 0, dv_udivisor = 0, dv_sdividend = 0, dv_sdivisor = 0,
     dv_quotient = 0, dv_remainder = 0, dv_csr = 1\<rparr>"

definition interp_zero :: interp_state where
  "interp_zero = \<lparr>ip_accum0 = 0, ip_accum1 = 0, ip_base0 = 0, ip_base1 = 0, ip_base2 = 0,
     ip_ctrl0 = 0, ip_ctrl1 = 0\<rparr>"

definition bootrom_zero :: core1_bootrom_state where
  "bootrom_zero = \<lparr>bt_waiting_for_launch = False, bt_launch_words = (\<lambda>_. 0), bt_launch_count = 0\<rparr>"

definition sio_boot :: sio_state where
  "sio_boot = \<lparr>sio_fifo = (\<lambda>_. fifo_zero), sio_spinlocks = (\<lambda>_. 0), sio_fifo_sticky = (\<lambda>_. 0),
     sio_dividers = (\<lambda>_. divider_boot), sio_interp = (\<lambda>_ _. interp_zero),
     core1_bootrom = bootrom_zero, bootrom_last_push_us = 0\<rparr>"

section \<open>Mailboxes\<close>

abbreviation (input) IRQ_SIO_IRQ_PROC0 :: u32 where "IRQ_SIO_IRQ_PROC0 \<equiv> 15"
abbreviation (input) IRQ_SIO_IRQ_PROC1 :: u32 where "IRQ_SIO_IRQ_PROC1 \<equiv> 16"

text \<open>The two halves that the checked and the unchecked operations share.\<close>

definition fifo_put :: "u32 \<Rightarrow> multicore_fifo \<Rightarrow> multicore_fifo" where
  "fifo_put val f = f\<lparr>ff_messages := (ff_messages f)(ff_write_ptr f := val),
     ff_write_ptr := (ff_write_ptr f + 1) mod 32, ff_count := ff_count f + 1\<rparr>"

definition fifo_get :: "multicore_fifo \<Rightarrow> u32 \<times> multicore_fifo" where
  "fifo_get f = (ff_messages f (ff_read_ptr f),
     f\<lparr>ff_read_ptr := (ff_read_ptr f + 1) mod 32, ff_count := ff_count f - 1\<rparr>)"

definition fifo_is_empty :: "nat \<Rightarrow> sio_state \<Rightarrow> bool" where
  "fifo_is_empty core_id s = (if core_id \<ge> 2 then True else ff_count (sio_fifo s core_id) = 0)"

definition fifo_is_full :: "nat \<Rightarrow> sio_state \<Rightarrow> bool" where
  "fifo_is_full core_id s = (if core_id \<ge> 2 then True else ff_count (sio_fifo s core_id) \<ge> 32)"

definition fifo_pop :: "nat \<Rightarrow> sio_state \<Rightarrow> u32 \<times> sio_state" where
  "fifo_pop core_id s =
     (if core_id \<ge> 2 then (0, s)
      else if ff_count (sio_fifo s core_id) = 0 then (0, s)
      else let (val, f) = fifo_get (sio_fifo s core_id)
           in (val, s\<lparr>sio_fifo := (sio_fifo s)(core_id := f)\<rparr>))"

definition fifo_push :: "nat \<Rightarrow> u32 \<Rightarrow> sio_state \<Rightarrow> sio_state" where
  "fifo_push core_id val s =
     (if core_id \<ge> 2 then s
      else if ff_count (sio_fifo s core_id) \<ge> 32 then s
      else s\<lparr>sio_fifo := (sio_fifo s)(core_id := fifo_put val (sio_fifo s core_id))\<rparr>)"

definition fifo_try_pop :: "nat \<Rightarrow> sio_state \<Rightarrow> u32 option \<times> sio_state" where
  "fifo_try_pop core_id s =
     (if core_id \<ge> 2 then (None, s)
      else if ff_count (sio_fifo s core_id) = 0 then (None, s)
      else let (val, f) = fifo_get (sio_fifo s core_id)
           in (Some val, s\<lparr>sio_fifo := (sio_fifo s)(core_id := f)\<rparr>))"

text \<open>Pushing raises the mailbox interrupt of the receiving core.\<close>

definition fifo_try_push :: "nat \<Rightarrow> u32 \<Rightarrow> sio_state \<Rightarrow> nvic_ctx \<Rightarrow> bool \<times> sio_state \<times> nvic_ctx" where
  "fifo_try_push core_id val s nv =
     (if core_id \<ge> 2 then (False, s, nv)
      else if ff_count (sio_fifo s core_id) \<ge> 32 then (False, s, nv)
      else (True, s\<lparr>sio_fifo := (sio_fifo s)(core_id := fifo_put val (sio_fifo s core_id))\<rparr>,
            nvic_signal_rp2350_irq (if core_id = 0 then IRQ_SIO_IRQ_PROC0 else IRQ_SIO_IRQ_PROC1) nv))"

definition sio_fifo_status :: "nat \<Rightarrow> sio_state \<Rightarrow> u32" where
  "sio_fifo_status core_id s =
     sio_fifo_sticky s core_id OR cond_mask (\<not> fifo_is_empty core_id s) 1
       OR cond_mask (\<not> fifo_is_full core_id s) 2"

section \<open>Spinlocks\<close>

definition spinlock_acquire :: "u32 \<Rightarrow> sio_state \<Rightarrow> u32 \<times> sio_state" where
  "spinlock_acquire lock_num s =
     (if lock_num \<ge> 32 then (0, s)
      else if sio_spinlocks s (unat lock_num) AND 1 \<noteq> 0 then (0, s)
      else (shl 1 (unat lock_num),
            s\<lparr>sio_spinlocks := (sio_spinlocks s)(unat lock_num := 0x80000000 OR 0x00000001)\<rparr>))"

definition spinlock_release :: "u32 \<Rightarrow> sio_state \<Rightarrow> sio_state" where
  "spinlock_release lock_num s =
     (if lock_num \<ge> 32 then s
      else s\<lparr>sio_spinlocks := (sio_spinlocks s)(unat lock_num := 0)\<rparr>)"

definition sio_spinlock_state_bitmap :: "sio_state \<Rightarrow> u32" where
  "sio_spinlock_state_bitmap s =
     fold (\<lambda>i bits. if sio_spinlocks s i AND 1 \<noteq> 0 then bits OR shl 1 i else bits) [0..<32] 0"

section \<open>Integer dividers\<close>

definition sio_divider_finish :: "u32 \<Rightarrow> u32 \<Rightarrow> sio_divider_state \<Rightarrow> sio_divider_state" where
  "sio_divider_finish q r d =
     d\<lparr>dv_quotient := q, dv_remainder := r, dv_csr := 1 OR 2\<rparr>"

definition sio_divider_run_unsigned :: "sio_divider_state \<Rightarrow> sio_divider_state" where
  "sio_divider_run_unsigned d =
     (if dv_udivisor d = 0 then sio_divider_finish 0xFFFFFFFF (dv_udividend d) d
      else sio_divider_finish (dv_udividend d div dv_udivisor d) (dv_udividend d mod dv_udivisor d) d)"

definition sio_divider_run_signed :: "sio_divider_state \<Rightarrow> sio_divider_state" where
  "sio_divider_run_signed d =
     (let dividend = sint (dv_sdividend d); divisor = sint (dv_sdivisor d) in
      if divisor = 0 then sio_divider_finish 0xFFFFFFFF (word_of_int dividend) d
      else if dividend = - (2 ^ 31) \<and> divisor = -1 then sio_divider_finish 0x80000000 0 d
      else sio_divider_finish (word_of_int (dividend sdiv divisor)) (word_of_int (dividend smod divisor)) d)"

definition sio_write_divider :: "u32 \<Rightarrow> u32 \<Rightarrow> sio_divider_state \<Rightarrow> sio_divider_state" where
  "sio_write_divider offset val d =
     (if offset = 0x60 then sio_divider_run_unsigned (d\<lparr>dv_udividend := val\<rparr>)
      else if offset = 0x64 then sio_divider_run_unsigned (d\<lparr>dv_udivisor := val\<rparr>)
      else if offset = 0x68 then sio_divider_run_signed (d\<lparr>dv_sdividend := val\<rparr>)
      else if offset = 0x6C then sio_divider_run_signed (d\<lparr>dv_sdivisor := val\<rparr>)
      else if offset = 0x70 then d\<lparr>dv_quotient := val, dv_csr := 1 OR 2\<rparr>
      else if offset = 0x74 then d\<lparr>dv_remainder := val, dv_csr := 1 OR 2\<rparr>
      else d)"

definition sio_read_divider :: "u32 \<Rightarrow> sio_divider_state \<Rightarrow> u32 \<times> sio_divider_state" where
  "sio_read_divider offset d =
     (if offset = 0x60 then (dv_udividend d, d)
      else if offset = 0x64 then (dv_udivisor d, d)
      else if offset = 0x68 then (dv_sdividend d, d)
      else if offset = 0x6C then (dv_sdivisor d, d)
      else if offset = 0x70 then (dv_quotient d, d\<lparr>dv_csr := dv_csr d AND NOT 2\<rparr>)
      else if offset = 0x74 then (dv_remainder d, d)
      else if offset = 0x78 then (dv_csr d, d)
      else (0, d))"

section \<open>Interpolators\<close>

definition interp_lane_result :: "interp_state \<Rightarrow> bool \<Rightarrow> u32" where
  "interp_lane_result interp lane =
     (let ctrl = (if lane then ip_ctrl1 interp else ip_ctrl0 interp);
          accum = (if lane then ip_accum1 interp else ip_accum0 interp);
          shift = ctrl AND 0x1F;
          mask_lsb = shr ctrl 5 AND 0x1F;
          mask_msb = shr ctrl 10 AND 0x1F;
          sign_ext = (shr ctrl 15 AND 1 \<noteq> 0);
          val = shr accum (unat shift) in
      if mask_msb \<ge> mask_lsb then
        (let width = mask_msb - mask_lsb + 1;
             m = (if width \<ge> 32 then 0xFFFFFFFF else shl (shl 1 (unat width) - 1) (unat mask_lsb));
             val1 = val AND m in
         if sign_ext \<and> val1 AND (if mask_msb \<ge> 32 then 0 else shl 1 (unat mask_msb)) \<noteq> 0 then
           (if mask_msb \<ge> 31 then val1 else val1 OR NOT (shl 1 (unat (mask_msb + 1)) - 1))
         else val1)
      else 0)"

definition interp_full_result :: "interp_state \<Rightarrow> u32" where
  "interp_full_result interp =
     ip_base2 interp + interp_lane_result interp False + interp_lane_result interp True"

definition sio_interp_read :: "u32 \<Rightarrow> interp_state \<Rightarrow> u32 \<times> interp_state" where
  "sio_interp_read reg_offset ip =
     (if reg_offset = 0x00 then (ip_accum0 ip, ip)
      else if reg_offset = 0x04 then (ip_accum1 ip, ip)
      else if reg_offset = 0x08 then (ip_base0 ip, ip)
      else if reg_offset = 0x0C then (ip_base1 ip, ip)
      else if reg_offset = 0x10 then (ip_base2 ip, ip)
      else if reg_offset = 0x14 then
        (interp_lane_result ip False, ip\<lparr>ip_accum0 := ip_accum0 ip + ip_base0 ip\<rparr>)
      else if reg_offset = 0x18 then
        (interp_lane_result ip True, ip\<lparr>ip_accum1 := ip_accum1 ip + ip_base1 ip\<rparr>)
      else if reg_offset = 0x1C then
        (interp_full_result ip, ip\<lparr>ip_accum0 := ip_accum0 ip + ip_base0 ip,
                                  ip_accum1 := ip_accum1 ip + ip_base1 ip\<rparr>)
      else if reg_offset = 0x20 then (interp_lane_result ip False, ip)
      else if reg_offset = 0x24 then (interp_lane_result ip True, ip)
      else if reg_offset = 0x28 then (interp_full_result ip, ip)
      else if reg_offset = 0x2C then (ip_ctrl0 ip, ip)
      else if reg_offset = 0x30 then (ip_ctrl1 ip, ip)
      else if reg_offset = 0x34 then (ip_accum0 ip, ip)
      else if reg_offset = 0x38 then (ip_accum1 ip, ip)
      else if reg_offset = 0x3C then (shl (ip_base1 ip AND 0xFFFF) 16 OR (ip_base0 ip AND 0xFFFF), ip)
      else (0, ip))"

definition sio_interp_write :: "u32 \<Rightarrow> u32 \<Rightarrow> interp_state \<Rightarrow> interp_state" where
  "sio_interp_write reg_offset val ip =
     (if reg_offset = 0x00 then ip\<lparr>ip_accum0 := val\<rparr>
      else if reg_offset = 0x04 then ip\<lparr>ip_accum1 := val\<rparr>
      else if reg_offset = 0x08 then ip\<lparr>ip_base0 := val\<rparr>
      else if reg_offset = 0x0C then ip\<lparr>ip_base1 := val\<rparr>
      else if reg_offset = 0x10 then ip\<lparr>ip_base2 := val\<rparr>
      else if reg_offset = 0x2C then ip\<lparr>ip_ctrl0 := val\<rparr>
      else if reg_offset = 0x30 then ip\<lparr>ip_ctrl1 := val\<rparr>
      else if reg_offset = 0x34 then ip\<lparr>ip_accum0 := ip_accum0 ip + val\<rparr>
      else if reg_offset = 0x38 then ip\<lparr>ip_accum1 := ip_accum1 ip + val\<rparr>
      else if reg_offset = 0x3C then ip\<lparr>ip_base0 := val AND 0xFFFF, ip_base1 := shr val 16\<rparr>
      else ip)"

section \<open>The mailbox is a queue\<close>

definition mailbox_wf :: "multicore_fifo \<Rightarrow> bool" where
  "mailbox_wf f \<longleftrightarrow> ring_ok 32 (ff_read_ptr f) (ff_write_ptr f) (ff_count f)"

definition mailbox_list :: "multicore_fifo \<Rightarrow> u32 list" where
  "mailbox_list f = ring_list (ff_messages f) 32 (ff_read_ptr f) (ff_count f)"

definition mailbox :: "nat \<Rightarrow> sio_state \<Rightarrow> u32 list" where
  "mailbox k s = mailbox_list (sio_fifo s k)"

definition sio_wf :: "sio_state \<Rightarrow> bool" where
  "sio_wf s \<longleftrightarrow> mailbox_wf (sio_fifo s 0) \<and> mailbox_wf (sio_fifo s 1)"

lemma sio_wf_boot [simp]: "sio_wf sio_boot"
  by (simp add: sio_wf_def sio_boot_def fifo_zero_def mailbox_wf_def)

lemma mailbox_put:
  assumes "mailbox_wf f" "ff_count f < 32"
  shows "mailbox_wf (fifo_put val f)" "mailbox_list (fifo_put val f) = mailbox_list f @ [val]"
  using assms ring_ok_push ring_list_push
  by (simp_all add: mailbox_wf_def mailbox_list_def fifo_put_def)

lemma mailbox_get:
  assumes "mailbox_wf f" "0 < ff_count f"
  shows "mailbox_wf (snd (fifo_get f))" "mailbox_list f = fst (fifo_get f) # mailbox_list (snd (fifo_get f))"
  using assms ring_ok_pop ring_list_pop [OF ring_ok_rd assms(2)]
  by (simp_all add: mailbox_wf_def mailbox_list_def fifo_get_def)

lemma mailbox_count [simp]: "length (mailbox_list f) = ff_count f"
  by (simp add: mailbox_list_def)

lemma mailbox_list_Nil_iff: "mailbox_list f = [] \<longleftrightarrow> ff_count f = 0"
  by (metis length_0_conv mailbox_count)

lemma mailbox_bound: "mailbox_wf f \<Longrightarrow> ff_count f \<le> 32"
  by (simp add: mailbox_wf_def ring_ok_count)

lemma sio_wf_core: "sio_wf s \<Longrightarrow> k < 2 \<Longrightarrow> mailbox_wf (sio_fifo s k)"
  by (auto simp: sio_wf_def less_2_cases_iff)

lemma sio_wf_upd: "sio_wf s \<Longrightarrow> mailbox_wf f \<Longrightarrow> sio_wf (s\<lparr>sio_fifo := (sio_fifo s)(k := f)\<rparr>)"
  by (simp add: sio_wf_def)

lemma mailbox_queue:
  assumes k: "k < 2"
  shows "fifo_queue 32 sio_wf (mailbox k) (fifo_push k) (fifo_pop k)"
proof unfold_locales
  fix s x
  assume s: "sio_wf s"
  note f = sio_wf_core [OF s k]
  note b = mailbox_bound [OF f]
  show "sio_wf (fifo_push k x s)"
    using k s f by (simp add: fifo_push_def sio_wf_upd mailbox_put)
  show "sio_wf (snd (fifo_pop k s))"
    using k s f by (simp add: fifo_pop_def split_beta sio_wf_upd mailbox_get)
  show "length (mailbox k s) \<le> 32"
    using b by (simp add: mailbox_def)
  show "mailbox k (fifo_push k x s) = take 32 (mailbox k s @ [x])"
    using k f b by (simp add: fifo_push_def mailbox_def mailbox_put)
  show "mailbox k (snd (fifo_pop k s)) = tl (mailbox k s)"
    using k f mailbox_get(2) [OF f]
    by (auto simp: fifo_pop_def split_beta mailbox_def mailbox_list_Nil_iff [THEN iffD2])
  show "mailbox k s \<noteq> [] \<Longrightarrow> fst (fifo_pop k s) = hd (mailbox k s)"
    using k f mailbox_get(2) [OF f]
    by (auto simp: fifo_pop_def split_beta mailbox_def mailbox_list_Nil_iff)
qed

interpretation mbx0: fifo_queue 32 sio_wf "mailbox 0" "fifo_push 0" "fifo_pop 0"
  by (rule mailbox_queue) simp

interpretation mbx1: fifo_queue 32 sio_wf "mailbox 1" "fifo_push 1" "fifo_pop 1"
  by (rule mailbox_queue) simp

text \<open>The checked operations differ only in reporting failure and raising the interrupt.\<close>

lemma fifo_try_push_alt:
  "fifo_try_push k val s nv =
     (if fifo_is_full k s then (False, s, nv)
      else (True, fifo_push k val s,
            nvic_signal_rp2350_irq (if k = 0 then IRQ_SIO_IRQ_PROC0 else IRQ_SIO_IRQ_PROC1) nv))"
  by (simp add: fifo_try_push_def fifo_push_def fifo_is_full_def)

lemma fifo_try_pop_alt:
  "fifo_try_pop k s =
     (if fifo_is_empty k s then (None, s) else (Some (fst (fifo_pop k s)), snd (fifo_pop k s)))"
  by (simp add: fifo_try_pop_def fifo_pop_def fifo_is_empty_def split_beta)

section \<open>Delivery\<close>

text \<open>Writing a list of words to the mailbox of core \<open>k\<close>, with the success reported for each, and
  reading it \<open>n\<close> times.\<close>

fun send_words :: "nat \<Rightarrow> u32 list \<Rightarrow> sio_state \<Rightarrow> nvic_ctx \<Rightarrow> bool list \<times> sio_state \<times> nvic_ctx" where
  "send_words k [] s nv = ([], s, nv)"
| "send_words k (x # xs) s nv =
     (let (ok, s1, nv1) = fifo_try_push k x s nv;
          (oks, s2, nv2) = send_words k xs s1 nv1
      in (ok # oks, s2, nv2))"

fun receive_words :: "nat \<Rightarrow> nat \<Rightarrow> sio_state \<Rightarrow> u32 option list \<times> sio_state" where
  "receive_words k 0 s = ([], s)"
| "receive_words k (Suc n) s =
     (let (v, s1) = fifo_try_pop k s; (vs, s2) = receive_words k n s1 in (v # vs, s2))"

lemma fifo_push_full: "fifo_is_full k s \<Longrightarrow> fifo_push k x s = s"
  by (simp add: fifo_push_def fifo_is_full_def split: if_splits)

lemma fifo_full_iff: "k < 2 \<Longrightarrow> fifo_is_full k s \<longleftrightarrow> length (mailbox k s) \<ge> 32"
  by (simp add: fifo_is_full_def mailbox_def)

lemma fifo_empty_iff: "k < 2 \<Longrightarrow> fifo_is_empty k s \<longleftrightarrow> mailbox k s = []"
  by (simp add: fifo_is_empty_def mailbox_def mailbox_list_Nil_iff)

lemma send_words_state: "fst (snd (send_words k xs s nv)) = fold (fifo_push k) xs s"
  by (induction xs arbitrary: s nv) (simp_all add: fifo_try_push_alt fifo_push_full split_beta)

lemma send_words_ok:
  assumes "k < 2" "sio_wf s"
  shows "fst (send_words k xs s nv) = map (\<lambda>i. length (mailbox k s) + i < 32) [0..<length xs]"
  using assms(2)
proof (induction xs arbitrary: s nv)
  case (Cons x xs)
  note q = fifo_queue.wf_push [OF mailbox_queue [OF assms(1)] Cons.prems]
    fifo_queue.contents_push [OF mailbox_queue [OF assms(1)] Cons.prems]
  have shift: "map f [0..<length (x # xs)] = f 0 # map (\<lambda>i. f (Suc i)) [0..<length xs]"
    for f :: "nat \<Rightarrow> bool"
    by (simp add: upt_conv_Cons map_Suc_upt [symmetric] comp_def del: upt_Suc)
  show ?case
  proof (cases "length (mailbox k s) < 32")
    case True
    then show ?thesis
      unfolding shift using Cons.IH [OF q(1)] q(2) [of x] assms(1)
      by (simp add: fifo_try_push_alt split_beta fifo_full_iff)
  next
    case False
    then show ?thesis
      unfolding shift using Cons.IH [OF Cons.prems] assms(1)
      by (simp add: fifo_try_push_alt split_beta fifo_full_iff)
  qed
qed simp

lemma receive_words_all:
  assumes "k < 2" "sio_wf s" "mailbox k s = xs"
  shows "fst (receive_words k (Suc (length xs)) s) = map Some xs @ [None] \<and>
    mailbox k (snd (receive_words k (Suc (length xs)) s)) = []"
  using assms(2,3)
proof (induction xs arbitrary: s)
  case Nil
  then show ?case
    using fifo_empty_iff [OF assms(1), of s] by (simp add: fifo_try_pop_alt)
next
  case (Cons x xs)
  note q = fifo_queue.wf_pop [OF mailbox_queue [OF assms(1)] Cons.prems(1)]
    fifo_queue.contents_pop [OF mailbox_queue [OF assms(1)] Cons.prems(1)]
    fifo_queue.pop_front [OF mailbox_queue [OF assms(1)] Cons.prems(1)]
  have "receive_words k (Suc (length (x # xs))) s =
      (let (v, s1) = fifo_try_pop k s; (vs, s2) = receive_words k (Suc (length xs)) s1 in (v # vs, s2))"
    by simp
  then show ?case
    using Cons.IH [of "snd (fifo_pop k s)"] Cons.prems q fifo_empty_iff [OF assms(1), of s]
    by (simp add: fifo_try_pop_alt split_beta)
qed

text \<open>C12. The mailbox of a core delivers what the other core writes, in order and without loss
  or duplication: of a burst of words exactly those are accepted that fit into the 32 entries,
  each refused one reports failure, and reading returns the earlier contents followed by the
  accepted words and then reports an empty mailbox.\<close>

theorem mailbox_delivers_in_order:
  assumes "k < 2" "sio_wf s"
  shows "let (oks, s1, nv1) = send_words k xs s nv;
             accepted = take 32 (mailbox k s @ xs);
             (vals, s2) = receive_words k (Suc (length accepted)) s1
         in oks = map (\<lambda>i. length (mailbox k s) + i < 32) [0..<length xs] \<and>
            vals = map Some accepted @ [None] \<and> mailbox k s2 = []"
proof -
  let ?s1 = "fst (snd (send_words k xs s nv))"
  have "sio_wf ?s1" "mailbox k ?s1 = take 32 (mailbox k s @ xs)"
    unfolding send_words_state
    using fifo_queue.wf_push_all [OF mailbox_queue [OF assms(1)] assms(2)]
      fifo_queue.contents_push_all [OF mailbox_queue [OF assms(1)] assms(2)] by auto
  note r = receive_words_all [OF assms(1) this]
  show ?thesis
    unfolding Let_def split_beta
    using r send_words_ok [OF assms, of xs nv] by (simp del: receive_words.simps)
qed

theorem mailbox_delivers_witness:
  "fst (receive_words 1 3 (fst (snd (send_words 1 [7, 9] sio_boot nvic_boot)))) =
     [Some 7, Some 9, None]"
proof -
  have "mailbox 1 sio_boot = []"
    by (simp add: mailbox_def mailbox_list_def sio_boot_def fifo_zero_def)
  then show ?thesis
    using mailbox_delivers_in_order [of 1 sio_boot "[7, 9]" nvic_boot]
    by (simp del: receive_words.simps send_words.simps add: Let_def split_beta numeral_3_eq_3)
qed

section \<open>Spinlocks exclude\<close>

definition spinlock_held :: "nat \<Rightarrow> sio_state \<Rightarrow> bool" where
  "spinlock_held k s \<longleftrightarrow> bit (sio_spinlocks s k) 0"

lemma and_1_ne_0: "((w :: u32) AND 1 \<noteq> 0) \<longleftrightarrow> bit w 0"
  by (simp add: and_one_eq bit_0 odd_iff_mod_2_eq_one)

lemma acquire_spec:
  "k < 32 \<Longrightarrow> spinlock_acquire k s =
     (if spinlock_held (unat k) s then (0, s)
      else (shl 1 (unat k), s\<lparr>sio_spinlocks := (sio_spinlocks s)(unat k := 0x80000001)\<rparr>))"
  by (simp add: spinlock_acquire_def spinlock_held_def and_1_ne_0 not_le [symmetric])

interpretation spin: lock_bank "\<lambda>k. k < 32" "\<lambda>k. spinlock_held (unat k)" spinlock_acquire spinlock_release
proof unfold_locales
  fix k j :: u32 and s
  assume k: "k < 32"
  show "fst (spinlock_acquire k s) = 0 \<longleftrightarrow> spinlock_held (unat k) s"
    using k by (auto simp: acquire_spec word_less_nat_alt push_bit_eq_0_iff)
  show "spinlock_held (unat k) (snd (spinlock_acquire k s))"
    using k by (simp add: acquire_spec spinlock_held_def)
  show "spinlock_held (unat k) (snd (spinlock_acquire j s))" if "spinlock_held (unat k) s"
    using that by (auto simp: spinlock_acquire_def spinlock_held_def)
  show "spinlock_held (unat k) (spinlock_release j s)" if "j \<noteq> k" "spinlock_held (unat k) s"
    using that by (simp add: spinlock_release_def spinlock_held_def word_unat_eq_iff)
  show "\<not> spinlock_held (unat k) (spinlock_release k s)"
    using k by (simp add: spinlock_release_def spinlock_held_def not_le [symmetric])
qed

lemma fold_or_bits:
  "bit (fold (\<lambda>i bits. if P i then bits OR push_bit i 1 else bits) is (w :: u32)) n \<longleftrightarrow>
     bit w n \<or> n < 32 \<and> n \<in> set is \<and> P n"
  by (induction "is" arbitrary: w) (auto simp: bit_simps)

text \<open>C34. A spinlock is held by at most one owner: after a successful acquire, and whatever
  operations follow except a release of the same lock, every further acquire fails; a release
  makes the next one succeed. A successful acquire returns the mask of the lock, and the state
  register shows exactly the locks that are held.\<close>

theorem spinlock_excludes:
  assumes "k < 32" "fst (spinlock_acquire k s) \<noteq> 0" "Release k \<notin> set ops"
  shows "fst (spinlock_acquire k s) = shl 1 (unat k) \<and>
    fst (spinlock_acquire k (fold (lock_step spinlock_acquire spinlock_release) ops (snd (spinlock_acquire k s)))) = 0 \<and>
    fst (spinlock_acquire k (spinlock_release k s')) \<noteq> 0 \<and>
    (bit (sio_spinlock_state_bitmap s') (unat k) \<longleftrightarrow> fst (spinlock_acquire k s') = 0)"
proof -
  have k: "unat k < 32" using assms(1) by (simp add: word_less_nat_alt)
  have "fst (spinlock_acquire k s) = push_bit (unat k) 1"
    using assms(1,2) by (simp add: acquire_spec split: if_splits)
  moreover have "bit (sio_spinlock_state_bitmap s') (unat k) \<longleftrightarrow> spinlock_held (unat k) s'"
    using k by (simp add: sio_spinlock_state_bitmap_def fold_or_bits and_1_ne_0 spinlock_held_def del: and_one_eq)
  ultimately show ?thesis
    using spin.exclusion [OF assms(1,3)] spin.acquire_fails [OF assms(1)] by simp
qed

theorem spinlock_excludes_witness:
  "fst (spinlock_acquire 5 (fold (lock_step spinlock_acquire spinlock_release) [Acquire 5, Release 6]
     (snd (spinlock_acquire 5 sio_boot)))) = 0"
proof -
  have "fst (spinlock_acquire 5 sio_boot) \<noteq> 0"
    by (simp add: spinlock_acquire_def sio_boot_def)
  then show ?thesis
    using spinlock_excludes [of 5 sio_boot "[Acquire 5, Release 6]" sio_boot] by simp
qed

section \<open>The divider divides\<close>

lemma sint_u32_range: "- (2 ^ 31) \<le> sint (x :: u32)" "sint (x :: u32) < 2 ^ 31"
  using sint_ge [of x] sint_lt [of x] by simp_all

lemma sint_of_int_range:
  "- (2 ^ 31) \<le> k \<Longrightarrow> k < 2 ^ 31 \<Longrightarrow> sint (word_of_int k :: u32) = k"
  by (simp add: signed_of_int signed_take_bit_int_eq_self)

lemma abs_sdiv: "\<bar>a sdiv b\<bar> = \<bar>a\<bar> div \<bar>b\<bar>" for a b :: int
  by (cases "a = 0 \<or> b = 0") (auto simp: signed_divide_int_def abs_mult abs_sgn_eq pos_imp_zdiv_nonneg_iff)

lemma abs_smod:
  fixes a b :: int
  assumes "b \<noteq> 0"
  shows "\<bar>a smod b\<bar> < \<bar>b\<bar>" "a smod b = 0 \<or> sgn (a smod b) = sgn a"
proof -
  have "a smod b = sgn a * (\<bar>a\<bar> mod \<bar>b\<bar>)"
    by (simp add: signed_modulo_int_def)
  moreover have "0 \<le> \<bar>a\<bar> mod \<bar>b\<bar>" "\<bar>a\<bar> mod \<bar>b\<bar> < \<bar>b\<bar>"
    using assms by simp_all
  ultimately show "\<bar>a smod b\<bar> < \<bar>b\<bar>" "a smod b = 0 \<or> sgn (a smod b) = sgn a"
    by (auto simp: abs_mult abs_sgn_eq sgn_mult sgn_if)
qed

lemma sdiv_in_range:
  fixes a b :: int
  assumes a: "- (2 ^ 31) \<le> a" "a < 2 ^ 31" and b: "b \<noteq> 0" "\<not> (a = - (2 ^ 31) \<and> b = -1)"
  shows "- (2 ^ 31) \<le> a sdiv b \<and> a sdiv b < 2 ^ 31"
proof -
  have le: "\<bar>a\<bar> div \<bar>b\<bar> \<le> \<bar>a\<bar>" using zdiv_mono2 [of "\<bar>a\<bar>" 1 "\<bar>b\<bar>"] b(1) by simp
  have "a sdiv b \<noteq> 2 ^ 31"
  proof
    assume eq: "a sdiv b = 2 ^ 31"
    then have "\<bar>a\<bar> div \<bar>b\<bar> = 2 ^ 31" by (metis abs_sdiv abs_of_nonneg zero_le_numeral zero_le_power)
    then have "a = - (2 ^ 31)" using a le by linarith
    moreover have "\<bar>b\<bar> = 1"
    proof (rule ccontr)
      assume "\<bar>b\<bar> \<noteq> 1"
      then have "2 \<le> \<bar>b\<bar>" using b(1) by linarith
      then have "\<bar>a\<bar> div \<bar>b\<bar> \<le> \<bar>a\<bar> div 2" by (intro zdiv_mono2) auto
      then show False using \<open>\<bar>a\<bar> div \<bar>b\<bar> = 2 ^ 31\<close> a by simp
    qed
    ultimately show False using b(2) eq by (auto simp: abs_if signed_divide_int_def split: if_splits)
  qed
  moreover have "\<bar>a sdiv b\<bar> \<le> 2 ^ 31" using le a by (simp add: abs_sdiv)
  ultimately show ?thesis by linarith
qed

definition udiv_of :: "u32 \<Rightarrow> u32 \<Rightarrow> sio_divider_state \<Rightarrow> sio_divider_state" where
  "udiv_of a b d = sio_write_divider 0x64 b (sio_write_divider 0x60 a d)"

definition sdiv_of :: "u32 \<Rightarrow> u32 \<Rightarrow> sio_divider_state \<Rightarrow> sio_divider_state" where
  "sdiv_of a b d = sio_write_divider 0x6C b (sio_write_divider 0x68 a d)"

lemma divider_run_defs:
  "udiv_of a b d = sio_divider_run_unsigned ((sio_divider_run_unsigned (d\<lparr>dv_udividend := a\<rparr>))\<lparr>dv_udivisor := b\<rparr>)"
  "sdiv_of a b d = sio_divider_run_signed ((sio_divider_run_signed (d\<lparr>dv_sdividend := a\<rparr>))\<lparr>dv_sdivisor := b\<rparr>)"
  by (simp_all add: udiv_of_def sdiv_of_def sio_write_divider_def)

lemma divider_operands [simp]:
  "dv_udividend (sio_divider_run_unsigned d) = dv_udividend d"
  "dv_sdividend (sio_divider_run_signed d) = dv_sdividend d"
  by (simp_all add: sio_divider_run_unsigned_def sio_divider_run_signed_def sio_divider_finish_def Let_def)

lemma divider_results:
  "dv_quotient (sio_divider_run_unsigned d) =
     (if dv_udivisor d = 0 then 0xFFFFFFFF else dv_udividend d div dv_udivisor d)"
  "dv_remainder (sio_divider_run_unsigned d) =
     (if dv_udivisor d = 0 then dv_udividend d else dv_udividend d mod dv_udivisor d)"
  "dv_quotient (sio_divider_run_signed d) =
     (if sint (dv_sdivisor d) = 0 then 0xFFFFFFFF
      else if sint (dv_sdividend d) = - (2 ^ 31) \<and> sint (dv_sdivisor d) = -1 then 0x80000000
      else word_of_int (sint (dv_sdividend d) sdiv sint (dv_sdivisor d)))"
  "dv_remainder (sio_divider_run_signed d) =
     (if sint (dv_sdivisor d) = 0 then word_of_int (sint (dv_sdividend d))
      else if sint (dv_sdividend d) = - (2 ^ 31) \<and> sint (dv_sdivisor d) = -1 then 0
      else word_of_int (sint (dv_sdividend d) smod sint (dv_sdivisor d)))"
  unfolding sio_divider_run_unsigned_def sio_divider_run_signed_def sio_divider_finish_def Let_def
  by simp_all

lemma word_of_int_sint: "word_of_int (sint b) = (b :: u32)"
  by transfer (simp add: take_bit_signed_take_bit)

lemma sint_zero_iff: "sint (b :: u32) = 0 \<longleftrightarrow> b = 0"
  by (metis word_of_int_sint of_int_0 sint_0)

lemma udiv_of_results:
  "dv_quotient (udiv_of a b d) = (if b = 0 then 0xFFFFFFFF else a div b)"
  "dv_remainder (udiv_of a b d) = (if b = 0 then a else a mod b)"
  unfolding divider_run_defs divider_results by simp_all

lemma sdiv_of_results:
  "dv_quotient (sdiv_of a b d) =
     (if b = 0 then 0xFFFFFFFF else if sint a = - (2 ^ 31) \<and> sint b = -1 then 0x80000000
      else word_of_int (sint a sdiv sint b))"
  "dv_remainder (sdiv_of a b d) =
     (if b = 0 then a else if sint a = - (2 ^ 31) \<and> sint b = -1 then 0
      else word_of_int (sint a smod sint b))"
  unfolding divider_run_defs divider_results by (simp_all add: sint_zero_iff word_of_int_sint)

lemma signed_division_law:
  fixes a b :: u32
  assumes b: "b \<noteq> 0" and nov: "\<not> (sint a = - (2 ^ 31) \<and> sint b = -1)"
    and q: "q = word_of_int (sint a sdiv sint b)" and r: "r = word_of_int (sint a smod sint b)"
  shows "sint a = sint (q :: u32) * sint b + sint (r :: u32)" "\<bar>sint r\<bar> < \<bar>sint b\<bar>"
    "r = 0 \<or> sgn (sint r) = sgn (sint a)"
proof -
  have bi: "sint b \<noteq> 0" using b by (simp add: sint_zero_iff)
  note r0 = abs_smod [OF bi, of "sint a"]
  have sq: "sint q = sint a sdiv sint b"
    using sdiv_in_range [OF sint_u32_range [of a] bi nov] by (simp add: q sint_of_int_range)
  have sr: "sint r = sint a smod sint b"
    unfolding r using r0(1) sint_u32_range [of b] by (intro sint_of_int_range) linarith+
  show "sint a = sint q * sint b + sint r" "\<bar>sint r\<bar> < \<bar>sint b\<bar>"
    using r0(1) by (simp_all add: sq sr sdiv_mult_smod_eq)
  show "r = 0 \<or> sgn (sint r) = sgn (sint a)"
    using r0(2) unfolding sr [symmetric] by (simp add: sint_zero_iff)
qed

text \<open>Writing a dividend and a divisor to the hardware divider leaves the quotient and the
  remainder of the division: for unsigned operands the Euclidean ones, for signed operands the
  truncated ones, whose remainder has the sign of the dividend. Division by zero gives an
  all-ones quotient and the dividend as remainder, and the one signed overflow wraps.\<close>

theorem sio_divider_correct:
  fixes a b :: u32
  shows "let u = sio_write_divider 0x64 b (sio_write_divider 0x60 a d);
             z = sio_write_divider 0x6C b (sio_write_divider 0x68 a d)
    in if b = 0
       then dv_quotient u = 0xFFFFFFFF \<and> dv_remainder u = a \<and>
            dv_quotient z = 0xFFFFFFFF \<and> dv_remainder z = a
       else unat a = unat (dv_quotient u) * unat b + unat (dv_remainder u) \<and>
            unat (dv_remainder u) < unat b \<and>
            (if sint a = - (2 ^ 31) \<and> sint b = -1 then dv_quotient z = a \<and> dv_remainder z = 0
             else sint a = sint (dv_quotient z) * sint b + sint (dv_remainder z) \<and>
                  \<bar>sint (dv_remainder z)\<bar> < \<bar>sint b\<bar> \<and>
                  (if dv_remainder z = 0 then True
                   else sgn (sint (dv_remainder z)) = sgn (sint a)))"
proof (cases "b = 0")
  case True
  then show ?thesis
    by (simp add: Let_def udiv_of_def [symmetric] sdiv_of_def [symmetric] udiv_of_results sdiv_of_results)
next
  case False
  have u: "unat a = unat (a div b) * unat b + unat (a mod b)" "unat (a mod b) < unat b"
    using False by (simp_all add: unat_div unat_mod unat_gt_0)
  have ov: "a = 0x80000000" if "sint a = - (2 ^ 31)"
  proof -
    have "a = word_of_int (- (2 ^ 31))" using that using word_of_int_sint [of a] by simp
    then show ?thesis by simp
  qed
  show ?thesis
  proof (cases "sint a = - (2 ^ 31) \<and> sint b = -1")
    case True
    then show ?thesis
      using False u ov
      unfolding Let_def udiv_of_def [symmetric] sdiv_of_def [symmetric] udiv_of_results sdiv_of_results
      by simp
  next
    case nov: False
    show ?thesis
      using False u nov signed_division_law [OF False nov refl refl]
      unfolding Let_def udiv_of_def [symmetric] sdiv_of_def [symmetric] udiv_of_results sdiv_of_results
      by (simp only: if_False if_True simp_thms split: if_split) blast
  qed
qed

section \<open>Interpolator lanes\<close>

text \<open>A five-bit field of a control word, as a number.\<close>

lemma unat_and_31: "unat (w AND 0x1F :: u32) < 32"
proof -
  have "(w AND 0x1F) \<le> 0x1F" by (rule word_and_le1)
  then show ?thesis by (simp add: word_le_nat_alt)
qed

lemma window_mask_bit:
  assumes "l \<le> h" "h < 32" "n < 32"
  shows "bit (if h - l + 1 \<ge> 32 then 0xFFFFFFFF
              else push_bit l (push_bit (h - l + 1) 1 - 1) :: u32) n \<longleftrightarrow> l \<le> n \<and> n \<le> h"
proof (cases "h - l + 1 \<ge> 32")
  case True
  then have "l = 0" "h = 31" using assms by auto
  then show ?thesis using assms(3) by (simp add: numeral_masks bit_mask_iff)
next
  case False
  have "push_bit (h - l + 1) 1 - 1 = (mask (h - l + 1) :: u32)"
    by (simp add: mask_eq_exp_minus_1 push_bit_eq_mult)
  then have "bit (push_bit l (push_bit (h - l + 1) 1 - 1) :: u32) n \<longleftrightarrow> l \<le> n \<and> n - l < h - l + 1"
    using assms(3) by (auto simp: bit_simps)
  then show ?thesis using False assms by auto
qed

definition lane_field :: "interp_state \<Rightarrow> bool \<Rightarrow> nat \<Rightarrow> nat" where
  "lane_field ip lane n = unat (shr (if lane then ip_ctrl1 ip else ip_ctrl0 ip) n AND 0x1F)"

definition lane_accum :: "interp_state \<Rightarrow> bool \<Rightarrow> u32" where
  "lane_accum ip lane = (if lane then ip_accum1 ip else ip_accum0 ip)"

definition lane_signed :: "interp_state \<Rightarrow> bool \<Rightarrow> bool" where
  "lane_signed ip lane = bit (if lane then ip_ctrl1 ip else ip_ctrl0 ip) 15"

lemma lane_field_lt: "lane_field ip lane n < 32"
  unfolding lane_field_def by (rule unat_and_31)

lemma sign_fill_bit:
  "h < 31 \<Longrightarrow> n < 32 \<Longrightarrow> bit (NOT (push_bit (Suc h) 1 - 1) :: u32) n \<longleftrightarrow> h < n"
proof -
  assume a: "h < 31" "n < 32"
  have "push_bit (Suc h) 1 - 1 = (mask (Suc h) :: u32)"
    by (simp add: mask_eq_exp_minus_1 push_bit_eq_mult)
  then show ?thesis using a by (auto simp: bit_simps)
qed

lemma interp_lane_alt:
  "interp_lane_result ip lane =
     (let l = lane_field ip lane 5; h = lane_field ip lane 10;
          val1 = shr (lane_accum ip lane) (lane_field ip lane 0) AND
            (if h - l + 1 \<ge> 32 then 0xFFFFFFFF else push_bit l (push_bit (h - l + 1) 1 - 1)) in
      if l \<le> h then
        (if lane_signed ip lane \<and> bit val1 h
         then (if h \<ge> 31 then val1 else val1 OR NOT (push_bit (Suc h) 1 - 1)) else val1)
      else 0)"
proof -
  define ctrl where "ctrl = (if lane then ip_ctrl1 ip else ip_ctrl0 ip)"
  define lsb where "lsb = shr ctrl 5 AND 0x1F"
  define msb where "msb = shr ctrl 10 AND 0x1F"
  have f: "lane_field ip lane 5 = unat lsb" "lane_field ip lane 10 = unat msb"
    "lane_field ip lane 0 = unat (ctrl AND 0x1F)" "lane_signed ip lane = (shr ctrl 15 AND 1 \<noteq> 0)"
    by (simp_all add: lane_field_def lane_signed_def ctrl_def lsb_def msb_def and_1_ne_0 bit_simps
        del: and_one_eq)
  have lt: "unat lsb < 32" "unat msb < 32" by (simp_all add: lsb_def msb_def unat_and_31)
  have w: "unat (msb - lsb + 1) = unat msb - unat lsb + 1" if "lsb \<le> msb"
  proof -
    have "unat (msb - lsb) = unat msb - unat lsb"
      using that by (simp add: unat_sub word_le_nat_alt)
    then show ?thesis using lt by (simp add: unat_word_ariths)
  qed
  have m1: "unat (msb + 1) = Suc (unat msb)" using lt by (simp add: unat_word_ariths)
  have c: "lsb \<le> msb \<longleftrightarrow> unat lsb \<le> unat msb" "\<not> msb \<ge> 32" "msb \<ge> 31 \<longleftrightarrow> unat msb \<ge> 31"
    "lsb \<le> msb \<Longrightarrow> msb - lsb + 1 \<ge> 32 \<longleftrightarrow> unat msb - unat lsb + 1 \<ge> 32"
    using lt w by (simp_all add: word_le_nat_alt)
  show ?thesis
    unfolding interp_lane_result_def Let_def f lane_accum_def
      ctrl_def [symmetric] lsb_def [symmetric] msb_def [symmetric]
    using c w m1 by (cases "lsb \<le> msb") auto
qed

text \<open>A lane of an interpolator shows its accumulator shifted right and cut to the bit window
  from the configured lowest to the configured highest bit; above the window it repeats the
  highest bit of the window when the lane is signed and is zero otherwise, below it is zero, and
  an empty window gives zero.\<close>

theorem interp_lane_window:
  "(let s = lane_field ip lane 0; l = lane_field ip lane 5; h = lane_field ip lane 10
    in bit (interp_lane_result ip lane) n \<longleftrightarrow>
         n < 32 \<and> l \<le> h \<and> l \<le> n \<and>
         (if n \<le> h then bit (lane_accum ip lane) (s + n)
          else lane_signed ip lane \<and> bit (lane_accum ip lane) (s + h)))"
proof (cases "n < 32")
  case False
  then show ?thesis using bit_imp_le_length [of "interp_lane_result ip lane" n] by (auto simp: Let_def)
next
  case True
  note lt = lane_field_lt [of ip lane 10]
  note win = window_mask_bit [OF _ lt, of "lane_field ip lane 5"]
  show ?thesis
    unfolding interp_lane_alt Let_def
    using True lt win [of n] win [of "lane_field ip lane 10"] sign_fill_bit [of "lane_field ip lane 10" n]
    by (auto simp: bit_simps not_le simp del: push_bit_Suc)
qed

section \<open>The ready flag\<close>

text \<open>RDY of the status register tells software that it may write. It is computed from the core's own
  mailbox, so it can be set while the mailbox that a write goes to is full.\<close>

lemma fifo_rdy_ignores_target:
  assumes "fifo_is_full 1 s" "\<not> fifo_is_full 0 s"
  shows "bit (sio_fifo_status 0 s) 1 \<and> \<not> fst (fifo_try_push 1 val s nv)"
  using assms by (simp add: sio_fifo_status_def fifo_try_push_alt bit_simps)

end
