(* ===== verification/Machine.thy ===== *)
theory Machine
  imports Nvic Timer Rtc Sio
begin

unbundle bit_operations_syntax

text \<open>
  The state of the emulated machine (\<^verbatim>\<open>include/emulator.h\<close>, \<^verbatim>\<open>src/cpu.c\<close>) as the CPU
  engine sees it. \<open>cpu_state\<close> is the register state of the running core with the two globals
  \<^verbatim>\<open>pc_updated\<close> and \<^verbatim>\<open>m33_basepri\<close> that the instruction handlers share; \<open>core_state\<close> is
  what is kept per core; \<open>mach\<close> collects them with the interrupt system, the timers, the
  single-cycle IO block, the exclusive monitors, the code caches, the two static variables of the
  round-robin scheduler and the state \<open>'b\<close> of the memory bus. The vector, floating-point and
  coprocessor registers, which only the 32-bit Thumb-2 decoder uses, are not part of it.

  The record \<open>platform\<close> holds the operations of other components that the CPU engine calls.
  They act on the whole machine, because a bus access can change any part of it.
\<close>

section \<open>State\<close>

text \<open>The registers of the floating-point unit, of the vector predicate and of the double-precision
  coprocessor.\<close>

record fp_state =
  vfp_s :: "nat \<Rightarrow> u32"
  vfp_fpscr :: u32
  mve_vpr :: u32
  dcp_x :: u64
  dcp_y :: u64
  dcp_ef :: u64
  dcp_from_int :: bool
  dcp_rmode :: bool

record cpu_state =
  cpu_r :: "nat \<Rightarrow> u32"
  cpu_xpsr :: u32
  cpu_vtor :: u32
  cpu_step_count :: u32
  cpu_current_irq :: u32
  cpu_primask :: u32
  cpu_faultmask :: u32
  cpu_control :: u32
  cpu_it_base :: u8
  cpu_it_mask :: u8
  cpu_it_pos :: u8
  cpu_it_len :: u8
  cpu_it_suppress :: bool
  pc_updated :: bool
  m33_basepri :: u32
  cpu_debug_enabled :: bool
  cpu_fp :: fp_state

record core_state =
  cd_r :: "nat \<Rightarrow> u32"
  cd_xpsr :: u32
  cd_vtor :: u32
  cd_step_count :: u32
  cd_current_irq :: u32
  cd_primask :: u32
  cd_faultmask :: u32
  cd_control :: u32
  cd_it_base :: u8
  cd_it_mask :: u8
  cd_it_pos :: u8
  cd_it_len :: u8
  cd_it_stack :: "nat \<Rightarrow> u32"
  cd_exception_stack :: "nat \<Rightarrow> u32"
  cd_exception_depth :: nat
  cd_is_halted :: bool
  cd_is_wfi :: bool
  cd_in_handler_mode :: bool
  cd_debug_enabled :: bool

text \<open>
  The two caches of decoded code. A cached handler pointer is the slot of the dispatch table it was
  copied from.
\<close>

record icache_entry =
  ic_pc :: u32
  ic_instr :: u16
  ic_handler :: nat

record jit_block =
  jb_start_pc :: u32
  jb_instrs :: "nat \<Rightarrow> u16"
  jb_length :: nat

record 'b mach =
  m_cpu :: cpu_state
  m_cores :: "nat \<Rightarrow> core_state"
  m_nv :: nvic_ctx
  m_timer :: timer_state
  m_rtc :: rtc_state
  m_sio :: sio_state
  m_cycles_per_us :: u32
  m_cycle_accumulator :: u32
  m_num_active_cores :: nat
  m_excl_addr :: "nat \<Rightarrow> u32"
  m_excl_valid :: "nat \<Rightarrow> bool"
  m_icache :: "nat \<Rightarrow> icache_entry"
  m_icache_enabled :: bool
  m_jit_cache :: "nat \<Rightarrow> jit_block"
  m_jit_enabled :: bool
  m_boot2_detected :: bool
  m_current :: nat
  m_wfe_wake_acc_us :: u32
  mve_vpr_p0 :: u32
  mve_in_vpt :: bool
  m_bus :: 'b

text \<open>The static initial values of the globals.\<close>

definition fp_zero :: fp_state where
  "fp_zero = \<lparr>vfp_s = (\<lambda>_. 0), vfp_fpscr = 0, mve_vpr = 0, dcp_x = 0, dcp_y = 0, dcp_ef = 0, dcp_from_int = False, dcp_rmode = False\<rparr>"

definition cpu_zero :: cpu_state where
  "cpu_zero = \<lparr>cpu_r = (\<lambda>_. 0), cpu_xpsr = 0, cpu_vtor = 0, cpu_step_count = 0, cpu_current_irq = 0,
     cpu_primask = 0, cpu_faultmask = 0, cpu_control = 0, cpu_it_base = 0, cpu_it_mask = 0,
     cpu_it_pos = 0, cpu_it_len = 0, cpu_it_suppress = False, pc_updated = False, m33_basepri = 0,
     cpu_debug_enabled = False, cpu_fp = fp_zero\<rparr>"

definition core_zero :: core_state where
  "core_zero = \<lparr>cd_r = (\<lambda>_. 0), cd_xpsr = 0, cd_vtor = 0, cd_step_count = 0, cd_current_irq = 0,
     cd_primask = 0, cd_faultmask = 0, cd_control = 0, cd_it_base = 0, cd_it_mask = 0, cd_it_pos = 0,
     cd_it_len = 0, cd_it_stack = (\<lambda>_. 0), cd_exception_stack = (\<lambda>_. 0), cd_exception_depth = 0,
     cd_is_halted = False, cd_is_wfi = False, cd_in_handler_mode = False, cd_debug_enabled = False\<rparr>"

definition timer_zero :: timer_state where
  "timer_zero = \<lparr>tm_time_us = 0, tm_alarm = (\<lambda>_. 0), tm_armed = 0, tm_intr = 0, tm_inte = 0,
     tm_intf = 0, tm_paused = 0, tm_timehw_latch = 0, timer_latched_high = 0\<rparr>"

definition mach_boot :: "'b \<Rightarrow> 'b mach" where
  "mach_boot b = \<lparr>m_cpu = cpu_zero, m_cores = (\<lambda>_. core_zero), m_nv = nvic_boot, m_timer = timer_zero,
     m_rtc = rtc_init, m_sio = sio_boot, m_cycles_per_us = 1, m_cycle_accumulator = 0, m_num_active_cores = 1,
     m_excl_addr = (\<lambda>_. 0), m_excl_valid = (\<lambda>_. False),
     m_icache = (\<lambda>_. \<lparr>ic_pc = 0, ic_instr = 0, ic_handler = 0\<rparr>), m_icache_enabled = False,
     m_jit_cache = (\<lambda>_. \<lparr>jb_start_pc = 0, jb_instrs = (\<lambda>_. 0), jb_length = 0\<rparr>), m_jit_enabled = False,
     m_boot2_detected = False, m_current = 0, m_wfe_wake_acc_us = 0, mve_vpr_p0 = 0xF, mve_in_vpt = False, m_bus = b\<rparr>"

record 'b platform =
  pl_read32 :: "u32 \<Rightarrow> 'b mach \<Rightarrow> u32 \<times> 'b mach"
  pl_read16 :: "u32 \<Rightarrow> 'b mach \<Rightarrow> u16 \<times> 'b mach"
  pl_read8 :: "u32 \<Rightarrow> 'b mach \<Rightarrow> u8 \<times> 'b mach"
  pl_write32 :: "u32 \<Rightarrow> u32 \<Rightarrow> 'b mach \<Rightarrow> 'b mach"
  pl_write16 :: "u32 \<Rightarrow> u16 \<Rightarrow> 'b mach \<Rightarrow> 'b mach"
  pl_write8 :: "u32 \<Rightarrow> u8 \<Rightarrow> 'b mach \<Rightarrow> 'b mach"
  pl_fetch16 :: "u32 \<Rightarrow> 'b mach \<Rightarrow> u16 \<times> 'b mach"
  pl_ram_top :: "'b mach \<Rightarrow> u32"
  pl_rom_intercept :: "u32 \<Rightarrow> 'b mach \<Rightarrow> bool \<times> 'b mach"
  pl_thumb32_step :: "u32 \<Rightarrow> u16 \<Rightarrow> u16 \<Rightarrow> 'b mach \<Rightarrow> bool \<times> 'b mach"
  pl_semihosting_handle :: "'b mach \<Rightarrow> bool \<times> 'b mach"
  pl_timer1_tick :: "u32 \<Rightarrow> 'b mach \<Rightarrow> 'b mach"
  pl_init_ram :: "'b mach \<Rightarrow> 'b mach"
  pl_select_ram :: "'b mach \<Rightarrow> 'b mach"
  pl_nd_wait :: "'b mach \<Rightarrow> bool \<times> 'b mach"
  pl_ff_poll :: "'b mach \<Rightarrow> 'b mach"

text \<open>Assignments through \<^verbatim>\<open>cpu\<close>, \<^verbatim>\<open>cores[c]\<close> and the interrupt system.\<close>

definition upd_cpu :: "(cpu_state \<Rightarrow> cpu_state) \<Rightarrow> 'b mach \<Rightarrow> 'b mach" where
  "upd_cpu f m = m\<lparr>m_cpu := f (m_cpu m)\<rparr>"

definition upd_core :: "nat \<Rightarrow> (core_state \<Rightarrow> core_state) \<Rightarrow> 'b mach \<Rightarrow> 'b mach" where
  "upd_core k f m = m\<lparr>m_cores := (m_cores m)(k := f (m_cores m k))\<rparr>"

definition upd_nv :: "(nvic_ctx \<Rightarrow> nvic_ctx) \<Rightarrow> 'b mach \<Rightarrow> 'b mach" where
  "upd_nv f m = m\<lparr>m_nv := f (m_nv m)\<rparr>"

definition set_r :: "nat \<Rightarrow> u32 \<Rightarrow> cpu_state \<Rightarrow> cpu_state" where
  "set_r i v c = c\<lparr>cpu_r := (cpu_r c)(i := v)\<rparr>"

abbreviation reg :: "'b mach \<Rightarrow> nat \<Rightarrow> u32" where
  "reg m i \<equiv> cpu_r (m_cpu m) i"

abbreviation get_active_core :: "'b mach \<Rightarrow> nat" where
  "get_active_core m \<equiv> active_core (m_nv m)"

definition set_active_core :: "nat \<Rightarrow> 'b mach \<Rightarrow> 'b mach" where
  "set_active_core k m = (if k < 2 then upd_nv (\<lambda>c. c\<lparr>active_core := k\<rparr>) m else m)"

section \<open>Exclusive monitors\<close>

text \<open>\<open>core\<close> is an \<^verbatim>\<open>int\<close> in the source; the guards make every negative value a no-op.\<close>

definition arm_excl_set :: "int \<Rightarrow> u32 \<Rightarrow> 'b mach \<Rightarrow> 'b mach" where
  "arm_excl_set core addr m =
     (if core < 0 \<or> core \<ge> 2 then m
      else m\<lparr>m_excl_addr := (m_excl_addr m)(nat core := addr),
             m_excl_valid := (m_excl_valid m)(nat core := True)\<rparr>)"

definition arm_excl_store :: "int \<Rightarrow> u32 \<Rightarrow> 'b mach \<Rightarrow> bool \<times> 'b mach" where
  "arm_excl_store core addr m =
     (if core < 0 \<or> core \<ge> 2 then (False, m)
      else if m_excl_valid m (nat core) \<and> m_excl_addr m (nat core) = addr
      then (True, m\<lparr>m_excl_valid := (m_excl_valid m)(nat core := False)\<rparr>)
      else (False, m))"

definition arm_excl_clear :: "int \<Rightarrow> 'b mach \<Rightarrow> 'b mach" where
  "arm_excl_clear core m =
     (if core \<ge> 0 \<and> core < 2 then m\<lparr>m_excl_valid := (m_excl_valid m)(nat core := False)\<rparr> else m)"

definition arm_excl_observe_store :: "int \<Rightarrow> u32 \<Rightarrow> 'b mach \<Rightarrow> 'b mach" where
  "arm_excl_observe_store core addr m =
     fold (\<lambda>c m. if int c \<noteq> core \<and> m_excl_valid m c \<and> m_excl_addr m c = addr
                 then m\<lparr>m_excl_valid := (m_excl_valid m)(c := False)\<rparr> else m) [0, 1] m"

section \<open>Field access\<close>

lemma mach_upd_simps [simp]:
  "m_cpu (upd_cpu f m) = f (m_cpu m)" "m_cores (upd_cpu f m) = m_cores m"
  "m_nv (upd_cpu f m) = m_nv m" "m_bus (upd_cpu f m) = m_bus m"
  "m_cpu (upd_core k g m) = m_cpu m" "m_nv (upd_core k g m) = m_nv m"
  "m_cores (upd_core k g m) = (m_cores m)(k := g (m_cores m k))" "m_bus (upd_core k g m) = m_bus m"
  "m_cpu (upd_nv h m) = m_cpu m" "m_cores (upd_nv h m) = m_cores m"
  "m_nv (upd_nv h m) = h (m_nv m)" "m_bus (upd_nv h m) = m_bus m"
  by (simp_all add: upd_cpu_def upd_core_def upd_nv_def)

lemma set_r_simps [simp]:
  "cpu_r (set_r i v c) = (cpu_r c)(i := v)" "cpu_xpsr (set_r i v c) = cpu_xpsr c"
  "cpu_vtor (set_r i v c) = cpu_vtor c" "cpu_current_irq (set_r i v c) = cpu_current_irq c"
  "cpu_primask (set_r i v c) = cpu_primask c" "cpu_faultmask (set_r i v c) = cpu_faultmask c"
  "cpu_control (set_r i v c) = cpu_control c" "pc_updated (set_r i v c) = pc_updated c"
  "cpu_it_suppress (set_r i v c) = cpu_it_suppress c" "cpu_it_len (set_r i v c) = cpu_it_len c"
  "cpu_it_base (set_r i v c) = cpu_it_base c" "cpu_it_mask (set_r i v c) = cpu_it_mask c"
  "cpu_it_pos (set_r i v c) = cpu_it_pos c" "cpu_step_count (set_r i v c) = cpu_step_count c"
  "m33_basepri (set_r i v c) = m33_basepri c"
  by (simp_all add: set_r_def)

lemma upd_cpu_upd_cpu [simp]: "upd_cpu f (upd_cpu g m) = upd_cpu (\<lambda>c. f (g c)) m"
  by (simp add: upd_cpu_def)

section \<open>Exclusive access excludes\<close>


lemma excl_observe_addr [simp]: "m_excl_addr (arm_excl_observe_store b x m) = m_excl_addr m"
  by (simp add: arm_excl_observe_store_def)

lemma excl_observe_valid:
  "m_excl_valid (arm_excl_observe_store b x m) k \<longleftrightarrow>
     m_excl_valid m k \<and> (k \<in> {0, 1} \<longrightarrow> b = int k \<or> x \<noteq> m_excl_addr m k)"
  by (simp add: arm_excl_observe_store_def) auto

lemma excl_observe_stores:
  assumes "k \<in> {0, 1}"
  shows "m_excl_addr (fold (\<lambda>(b, x). arm_excl_observe_store b x) stores m) = m_excl_addr m"
    and "m_excl_valid (fold (\<lambda>(b, x). arm_excl_observe_store b x) stores m) k \<longleftrightarrow>
      m_excl_valid m k \<and> (\<forall>(b, x) \<in> set stores. b = int k \<or> x \<noteq> m_excl_addr m k)"
  using assms by (induction stores arbitrary: m) (auto simp: excl_observe_valid)

text \<open>C35. An exclusive store succeeds exactly if it is to the address that the same core has reserved and the
  other core has not stored to that address in between, whatever else the two cores have stored. It uses the
  reservation up: a second exclusive store without a new reservation fails.\<close>

theorem exclusive_store_excludes:
  fixes m :: "'b mach"
  assumes "a \<in> {0, 1}" "m' = fold (\<lambda>(b, x). arm_excl_observe_store b x) stores (arm_excl_set a addr m)"
  shows "(fst (arm_excl_store a addr2 m') \<longleftrightarrow> addr2 = addr \<and> (\<forall>(b, x) \<in> set stores. b = a \<or> x \<noteq> addr)) \<and>
    \<not> fst (arm_excl_store a addr3 (snd (arm_excl_store a addr m')))"
proof -
  have "m_excl_addr (arm_excl_set a addr m) (nat a) = addr" "m_excl_valid (arm_excl_set a addr m) (nat a)"
    using assms(1) by (auto simp: arm_excl_set_def)
  then have "m_excl_addr m' (nat a) = addr"
    "m_excl_valid m' (nat a) \<longleftrightarrow> (\<forall>(b, x) \<in> set stores. b = a \<or> x \<noteq> addr)"
    using excl_observe_stores [of "nat a" stores "arm_excl_set a addr m"] assms by auto
  then show ?thesis using assms(1) by (auto simp: arm_excl_store_def)
qed

theorem exclusive_store_excludes_witness:
  "\<not> fst (arm_excl_store 0 0x20000000 (fold (\<lambda>(b, x). arm_excl_observe_store b x) [(0, 0x20000000), (1, 0x20000004), (1, 0x20000000)]
     (arm_excl_set 0 0x20000000 (mach_boot ())))) \<and>
   \<not> fst (arm_excl_store 0 0x20000004 (fold (\<lambda>(b, x). arm_excl_observe_store b x) [(0, 0x20000000)]
     (arm_excl_set 0 0x20000000 (mach_boot ())))) \<and>
   fst (arm_excl_store 0 0x20000000 (fold (\<lambda>(b, x). arm_excl_observe_store b x) [(0, 0x20000000)]
     (arm_excl_set 0 0x20000000 (mach_boot ()))))"
  using exclusive_store_excludes [of 0 _ "[(0, 0x20000000), (1, 0x20000004), (1, 0x20000000)]" "0x20000000" "mach_boot ()", OF _ refl, of "0x20000000" 0]
    exclusive_store_excludes [of 0 _ "[(0, 0x20000000)]" "0x20000000" "mach_boot ()", OF _ refl, of "0x20000000" 0]
    exclusive_store_excludes [of 0 _ "[(0, 0x20000000)]" "0x20000000" "mach_boot ()", OF _ refl, of "0x20000004" 0]
  by simp

end
