(* ===== verification/Thumb_Alu.thy ===== *)
theory Thumb_Alu
  imports Machine
begin

unbundle bit_operations_syntax

text \<open>
  The 16-bit Thumb instructions of \<^verbatim>\<open>src/instructions.c\<close> that touch only the register state:
  flag computation, arithmetic, logic, shifts, comparison, extension, byte reversal, moves and
  the special registers. Each handler is a function from \<open>cpu_state\<close> to \<open>cpu_state\<close>; the
  instruction word is a 16-bit word and its fields are read as the C code reads them. The lemmas
  give the flags their arithmetic meaning.
\<close>

section \<open>Flags\<close>

abbreviation (input) FLAG_N :: u32 where "FLAG_N \<equiv> 0x80000000"
abbreviation (input) FLAG_Z :: u32 where "FLAG_Z \<equiv> 0x40000000"
abbreviation (input) FLAG_C :: u32 where "FLAG_C \<equiv> 0x20000000"
abbreviation (input) FLAG_V :: u32 where "FLAG_V \<equiv> 0x10000000"

definition update_nz_flags :: "u32 \<Rightarrow> cpu_state \<Rightarrow> cpu_state" where
  "update_nz_flags result c =
     (let flags = (if result = 0 then FLAG_Z else if shr result 31 \<noteq> 0 then FLAG_N else 0)
      in c\<lparr>cpu_xpsr := (cpu_xpsr c AND NOT (FLAG_N OR FLAG_Z)) OR flags\<rparr>)"

definition update_add_flags :: "u32 \<Rightarrow> u32 \<Rightarrow> u32 \<Rightarrow> cpu_state \<Rightarrow> cpu_state" where
  "update_add_flags op1 op2 result c =
     (let flags = cond_mask (result = 0) FLAG_Z OR cond_mask (shr result 31 \<noteq> 0) FLAG_N OR
            cond_mask ((ucast op1 :: u64) + ucast op2 > 0xFFFFFFFF) FLAG_C OR
            cond_mask (shr ((op1 XOR result) AND (op2 XOR result)) 31 \<noteq> 0) FLAG_V
      in c\<lparr>cpu_xpsr := (cpu_xpsr c AND NOT (FLAG_N OR FLAG_Z OR FLAG_C OR FLAG_V)) OR flags\<rparr>)"

definition update_sub_flags :: "u32 \<Rightarrow> u32 \<Rightarrow> u32 \<Rightarrow> cpu_state \<Rightarrow> cpu_state" where
  "update_sub_flags op1 op2 result c =
     (let flags = cond_mask (result = 0) FLAG_Z OR cond_mask (shr result 31 \<noteq> 0) FLAG_N OR
            cond_mask (op1 \<ge> op2) FLAG_C OR
            cond_mask (shr ((op1 XOR op2) AND (op1 XOR result)) 31 \<noteq> 0) FLAG_V
      in c\<lparr>cpu_xpsr := (cpu_xpsr c AND NOT (FLAG_N OR FLAG_Z OR FLAG_C OR FLAG_V)) OR flags\<rparr>)"

text \<open>\<^verbatim>\<open>if (b) cpu.xpsr |= FLAG_C; else cpu.xpsr &= ~FLAG_C;\<close>\<close>

definition set_carry :: "bool \<Rightarrow> cpu_state \<Rightarrow> cpu_state" where
  "set_carry b c = c\<lparr>cpu_xpsr := (if b then cpu_xpsr c OR FLAG_C else cpu_xpsr c AND NOT FLAG_C)\<rparr>"

definition sign_extend_8 :: "u8 \<Rightarrow> u32" where
  "sign_extend_8 value = (if value AND 0x80 \<noteq> 0 then ucast value OR 0xFFFFFF00 else ucast value)"

definition sign_extend_16 :: "u16 \<Rightarrow> u32" where
  "sign_extend_16 value = (if value AND 0x8000 \<noteq> 0 then ucast value OR 0xFFFF0000 else ucast value)"

section \<open>Arithmetic and comparison\<close>

definition instr_adds_imm3 :: "u16 \<Rightarrow> cpu_state \<Rightarrow> cpu_state" where
  "instr_adds_imm3 instr c =
     (let imm = ucast (shr instr 6 AND 7); reg_src = idx instr 3 7; reg_dst = idx instr 0 7;
          op1 = cpu_r c reg_src; result = op1 + imm
      in update_add_flags op1 imm result (set_r reg_dst result c))"

definition instr_adds_imm8 :: "u16 \<Rightarrow> cpu_state \<Rightarrow> cpu_state" where
  "instr_adds_imm8 instr c =
     (let rg = idx instr 8 7; imm = ucast (instr AND 0xFF); op1 = cpu_r c rg; result = op1 + imm
      in update_add_flags op1 imm result (set_r rg result c))"

definition instr_subs_imm3 :: "u16 \<Rightarrow> cpu_state \<Rightarrow> cpu_state" where
  "instr_subs_imm3 instr c =
     (let imm = ucast (shr instr 6 AND 7); reg_src = idx instr 3 7; reg_dst = idx instr 0 7;
          op1 = cpu_r c reg_src; result = op1 - imm
      in update_sub_flags op1 imm result (set_r reg_dst result c))"

definition instr_subs_imm8 :: "u16 \<Rightarrow> cpu_state \<Rightarrow> cpu_state" where
  "instr_subs_imm8 instr c =
     (let rg = idx instr 8 7; imm = ucast (instr AND 0xFF); op1 = cpu_r c rg; result = op1 - imm
      in update_sub_flags op1 imm result (set_r rg result c))"

definition instr_movs_imm8 :: "u16 \<Rightarrow> cpu_state \<Rightarrow> cpu_state" where
  "instr_movs_imm8 instr c =
     (let rg = idx instr 8 7; imm = ucast (instr AND 0xFF) in update_nz_flags imm (set_r rg imm c))"

definition instr_adds_reg_reg :: "u16 \<Rightarrow> cpu_state \<Rightarrow> cpu_state" where
  "instr_adds_reg_reg instr c =
     (let rm = idx instr 6 7; rn = idx instr 3 7; rd = idx instr 0 7;
          op1 = cpu_r c rn; op2 = cpu_r c rm; result = op1 + op2
      in update_add_flags op1 op2 result (set_r rd result c))"

text \<open>The four-bit register fields of the high-register instructions.\<close>

definition reg_dst4 :: "u16 \<Rightarrow> nat" where
  "reg_dst4 instr = unat ((shr instr 4 AND 8) OR (instr AND 7))"

definition instr_add_reg_high :: "u16 \<Rightarrow> cpu_state \<Rightarrow> cpu_state" where
  "instr_add_reg_high instr c =
     (let reg_src = idx instr 3 0xF; reg_dst = reg_dst4 instr;
          result = cpu_r c reg_dst + cpu_r c reg_src
      in if reg_dst = 15 then (set_r 15 (result AND NOT 1) c)\<lparr>pc_updated := True\<rparr>
         else set_r reg_dst result c)"

definition instr_sub_reg_reg :: "u16 \<Rightarrow> cpu_state \<Rightarrow> cpu_state" where
  "instr_sub_reg_reg instr c =
     (let rm = idx instr 6 7; rn = idx instr 3 7; rd = idx instr 0 7;
          op1 = cpu_r c rn; op2 = cpu_r c rm; result = op1 - op2
      in update_sub_flags op1 op2 result (set_r rd result c))"

definition instr_cmp_imm8 :: "u16 \<Rightarrow> cpu_state \<Rightarrow> cpu_state" where
  "instr_cmp_imm8 instr c0 =
     (let c = c0\<lparr>cpu_it_suppress := False\<rparr>; rg = idx instr 8 7; imm = ucast (instr AND 0xFF);
          op1 = cpu_r c rg; result = op1 - imm
      in update_sub_flags op1 imm result c)"

definition instr_cmp_reg_reg :: "u16 \<Rightarrow> cpu_state \<Rightarrow> cpu_state" where
  "instr_cmp_reg_reg instr c0 =
     (let c = c0\<lparr>cpu_it_suppress := False\<rparr>; reg_src = idx instr 3 0xF; reg_dst = reg_dst4 instr;
          op1 = cpu_r c reg_dst; op2 = cpu_r c reg_src; result = op1 - op2
      in update_sub_flags op1 op2 result c)"

definition instr_cmp_alu :: "u16 \<Rightarrow> cpu_state \<Rightarrow> cpu_state" where
  "instr_cmp_alu instr c0 =
     (let c = c0\<lparr>cpu_it_suppress := False\<rparr>; rn = idx instr 0 7; rm = idx instr 3 7;
          op1 = cpu_r c rn; op2 = cpu_r c rm; result = op1 - op2
      in update_sub_flags op1 op2 result c)"

definition instr_cmn_reg :: "u16 \<Rightarrow> cpu_state \<Rightarrow> cpu_state" where
  "instr_cmn_reg instr c0 =
     (let c = c0\<lparr>cpu_it_suppress := False\<rparr>; rn = idx instr 0 7; rm = idx instr 3 7;
          op1 = cpu_r c rn; op2 = cpu_r c rm; result = op1 + op2
      in update_add_flags op1 op2 result c)"

definition instr_muls :: "u16 \<Rightarrow> cpu_state \<Rightarrow> cpu_state" where
  "instr_muls instr c =
     (let rd = idx instr 0 7; rm = idx instr 3 7; result = cpu_r c rd * cpu_r c rm
      in update_nz_flags result (set_r rd result c))"

definition instr_adcs :: "u16 \<Rightarrow> cpu_state \<Rightarrow> cpu_state" where
  "instr_adcs instr c =
     (let rd = idx instr 0 7; rm = idx instr 3 7;
          carry = (if cpu_xpsr c AND FLAG_C \<noteq> 0 then 1 else 0 :: u32);
          op1 = cpu_r c rd; op2 = cpu_r c rm;
          result64 = (ucast op1 :: u64) + ucast op2 + ucast carry;
          result = ucast result64 :: u32;
          c1 = set_r rd result c;
          xpsr = cpu_xpsr c1 AND NOT (FLAG_N OR FLAG_Z OR FLAG_C OR FLAG_V)
      in c1\<lparr>cpu_xpsr := xpsr OR cond_mask (result = 0) FLAG_Z OR
           cond_mask (result AND 0x80000000 \<noteq> 0) FLAG_N OR
           cond_mask (result64 > 0xFFFFFFFF) FLAG_C OR
           cond_mask (((op1 XOR result) AND (op2 XOR result)) AND 0x80000000 \<noteq> 0) FLAG_V\<rparr>)"

definition instr_sbcs :: "u16 \<Rightarrow> cpu_state \<Rightarrow> cpu_state" where
  "instr_sbcs instr c =
     (let rd = idx instr 0 7; rm = idx instr 3 7;
          carry = (if cpu_xpsr c AND FLAG_C \<noteq> 0 then 1 else 0 :: u32);
          op1 = cpu_r c rd; op2 = cpu_r c rm;
          result = op1 - op2 - (1 - carry);
          c1 = set_r rd result c;
          uresult = (ucast op1 :: u64) - ucast op2 - ucast (1 - carry);
          xpsr = cpu_xpsr c1 AND NOT (FLAG_N OR FLAG_Z OR FLAG_C OR FLAG_V)
      in c1\<lparr>cpu_xpsr := xpsr OR cond_mask (result = 0) FLAG_Z OR
           cond_mask (result AND 0x80000000 \<noteq> 0) FLAG_N OR
           cond_mask (shr uresult 32 = 0) FLAG_C OR
           cond_mask (((op1 XOR op2) AND (op1 XOR result)) AND 0x80000000 \<noteq> 0) FLAG_V\<rparr>)"

definition instr_rsbs :: "u16 \<Rightarrow> cpu_state \<Rightarrow> cpu_state" where
  "instr_rsbs instr c =
     (let rd = idx instr 0 7; rm = idx instr 3 7; op2 = cpu_r c rm; result = 0 - op2
      in update_sub_flags 0 op2 result (set_r rd result c))"

section \<open>Logic\<close>

definition instr_tst_reg_reg :: "u16 \<Rightarrow> cpu_state \<Rightarrow> cpu_state" where
  "instr_tst_reg_reg instr c0 =
     (let c = c0\<lparr>cpu_it_suppress := False\<rparr>; reg_src = idx instr 3 7; reg_dst = idx instr 0 7
      in update_nz_flags (cpu_r c reg_dst AND cpu_r c reg_src) c)"

definition instr_teq_reg :: "u16 \<Rightarrow> cpu_state \<Rightarrow> cpu_state" where
  "instr_teq_reg instr c =
     (let rn = idx instr 0 7; rm = idx instr 3 7
      in update_nz_flags (cpu_r c rn XOR cpu_r c rm) c)"

definition instr_bitwise_and :: "u16 \<Rightarrow> cpu_state \<Rightarrow> cpu_state" where
  "instr_bitwise_and instr c =
     (let reg_src = idx instr 3 7; reg_dst = idx instr 0 7;
          v = cpu_r c reg_dst AND cpu_r c reg_src
      in update_nz_flags v (set_r reg_dst v c))"

definition instr_bitwise_eor :: "u16 \<Rightarrow> cpu_state \<Rightarrow> cpu_state" where
  "instr_bitwise_eor instr c =
     (let reg_src = idx instr 3 7; reg_dst = idx instr 0 7;
          v = cpu_r c reg_dst XOR cpu_r c reg_src
      in update_nz_flags v (set_r reg_dst v c))"

definition instr_bitwise_orr :: "u16 \<Rightarrow> cpu_state \<Rightarrow> cpu_state" where
  "instr_bitwise_orr instr c =
     (let reg_src = idx instr 3 7; reg_dst = idx instr 0 7;
          v = cpu_r c reg_dst OR cpu_r c reg_src
      in update_nz_flags v (set_r reg_dst v c))"

definition instr_bitwise_bic :: "u16 \<Rightarrow> cpu_state \<Rightarrow> cpu_state" where
  "instr_bitwise_bic instr c =
     (let reg_src = idx instr 3 7; reg_dst = idx instr 0 7;
          v = cpu_r c reg_dst AND NOT (cpu_r c reg_src)
      in update_nz_flags v (set_r reg_dst v c))"

definition instr_bitwise_mvn :: "u16 \<Rightarrow> cpu_state \<Rightarrow> cpu_state" where
  "instr_bitwise_mvn instr c =
     (let reg_src = idx instr 3 7; reg_dst = idx instr 0 7; v = NOT (cpu_r c reg_src)
      in update_nz_flags v (set_r reg_dst v c))"

section \<open>Shifts\<close>

definition instr_shift_logical_left :: "u16 \<Rightarrow> cpu_state \<Rightarrow> cpu_state" where
  "instr_shift_logical_left instr c =
     (let imm = idx instr 6 0x1F; reg_src = idx instr 3 7; reg_dst = idx instr 0 7;
          c1 = (if imm = 0 then set_r reg_dst (cpu_r c reg_src) c
                else let c0 = set_carry (cpu_r c reg_src AND shl 1 (32 - imm) \<noteq> 0) c
                     in set_r reg_dst (shl (cpu_r c0 reg_src) imm) c0)
      in update_nz_flags (cpu_r c1 reg_dst) c1)"

text \<open>With \<open>imm = 0\<close> the destination is cleared before the carry is taken from the source.\<close>

definition instr_shift_logical_right :: "u16 \<Rightarrow> cpu_state \<Rightarrow> cpu_state" where
  "instr_shift_logical_right instr c =
     (let imm = idx instr 6 0x1F; reg_src = idx instr 3 7; reg_dst = idx instr 0 7;
          c1 = (if imm = 0 then
                  (let c0 = set_r reg_dst 0 c
                   in set_carry (cpu_r c0 reg_src AND 0x80000000 \<noteq> 0) c0)
                else let c0 = set_carry (cpu_r c reg_src AND shl 1 (imm - 1) \<noteq> 0) c
                     in set_r reg_dst (shr (cpu_r c0 reg_src) imm) c0)
      in update_nz_flags (cpu_r c1 reg_dst) c1)"

definition instr_shift_arithmetic_right :: "u16 \<Rightarrow> cpu_state \<Rightarrow> cpu_state" where
  "instr_shift_arithmetic_right instr c =
     (let imm = idx instr 6 0x1F; reg_src = idx instr 3 7; reg_dst = idx instr 0 7;
          c1 = (if imm = 0 then
                  (if cpu_r c reg_src AND 0x80000000 \<noteq> 0
                   then set_r reg_dst 0xFFFFFFFF (set_carry True c)
                   else set_r reg_dst 0 (set_carry False c))
                else let c0 = set_carry (cpu_r c reg_src AND shl 1 (imm - 1) \<noteq> 0) c
                     in set_r reg_dst (signed_drop_bit imm (cpu_r c0 reg_src)) c0)
      in update_nz_flags (cpu_r c1 reg_dst) c1)"

definition instr_lsls_reg :: "u16 \<Rightarrow> cpu_state \<Rightarrow> cpu_state" where
  "instr_lsls_reg instr c =
     (let rd = idx instr 0 7; rs = idx instr 3 7; shift = unat (cpu_r c rs AND 0xFF)
      in if shift = 0 then c
         else if shift < 32 then
           (let c1 = set_carry (cpu_r c rd AND shl 1 (32 - shift) \<noteq> 0) c;
                c2 = set_r rd (shl (cpu_r c1 rd) shift) c1
            in update_nz_flags (cpu_r c2 rd) c2)
         else if shift = 32 then
           update_nz_flags 0 (set_r rd 0 (set_carry (cpu_r c rd AND 1 \<noteq> 0) c))
         else update_nz_flags 0 (set_r rd 0 (set_carry False c)))"

definition instr_lsrs_reg :: "u16 \<Rightarrow> cpu_state \<Rightarrow> cpu_state" where
  "instr_lsrs_reg instr c =
     (let rd = idx instr 0 7; rs = idx instr 3 7; shift = unat (cpu_r c rs AND 0xFF)
      in if shift = 0 then c
         else if shift < 32 then
           (let c1 = set_carry (cpu_r c rd AND shl 1 (shift - 1) \<noteq> 0) c;
                c2 = set_r rd (shr (cpu_r c1 rd) shift) c1
            in update_nz_flags (cpu_r c2 rd) c2)
         else if shift = 32 then
           update_nz_flags 0 (set_r rd 0 (set_carry (cpu_r c rd AND 0x80000000 \<noteq> 0) c))
         else update_nz_flags 0 (set_r rd 0 (set_carry False c)))"

definition instr_asrs_reg :: "u16 \<Rightarrow> cpu_state \<Rightarrow> cpu_state" where
  "instr_asrs_reg instr c =
     (let rd = idx instr 0 7; rs = idx instr 3 7; shift = unat (cpu_r c rs AND 0xFF)
      in if shift = 0 then c
         else if shift < 32 then
           (let c1 = set_carry (cpu_r c rd AND shl 1 (shift - 1) \<noteq> 0) c;
                c2 = set_r rd (signed_drop_bit shift (cpu_r c1 rd)) c1
            in update_nz_flags (cpu_r c2 rd) c2)
         else (let c1 = (if cpu_r c rd AND 0x80000000 \<noteq> 0
                         then set_r rd 0xFFFFFFFF (set_carry True c)
                         else set_r rd 0 (set_carry False c))
               in update_nz_flags (cpu_r c1 rd) c1))"

definition instr_rors_reg :: "u16 \<Rightarrow> cpu_state \<Rightarrow> cpu_state" where
  "instr_rors_reg instr c =
     (let rd = idx instr 0 7; rs = idx instr 3 7; shift_full = cpu_r c rs AND 0xFF
      in if shift_full = 0 then c
         else let shift = unat (shift_full AND 0x1F);
                  result = (if shift = 0 then cpu_r c rd
                            else shr (cpu_r c rd) shift OR shl (cpu_r c rd) (32 - shift))
              in update_nz_flags result (set_r rd result (set_carry (result AND 0x80000000 \<noteq> 0) c)))"

section \<open>Moves, extension, byte reversal\<close>

definition instr_add_high_reg :: "u16 \<Rightarrow> cpu_state \<Rightarrow> cpu_state" where
  "instr_add_high_reg instr c =
     (let reg_src = idx instr 3 0xF; reg_dst = reg_dst4 instr;
          result = cpu_r c reg_dst + cpu_r c reg_src
      in if reg_dst = 15 then (set_r 15 (result AND NOT 1) c)\<lparr>pc_updated := True\<rparr>
         else set_r reg_dst result c)"

definition instr_cmp_high_reg :: "u16 \<Rightarrow> cpu_state \<Rightarrow> cpu_state" where
  "instr_cmp_high_reg instr c = instr_cmp_reg_reg instr (c\<lparr>cpu_it_suppress := False\<rparr>)"

definition instr_mov_high_reg :: "u16 \<Rightarrow> cpu_state \<Rightarrow> cpu_state" where
  "instr_mov_high_reg instr c =
     (let reg_src = idx instr 3 0xF; reg_dst = reg_dst4 instr;
          value = (if reg_src = 15 then (cpu_r c 15 + 4) AND NOT 1 else cpu_r c reg_src)
      in if reg_dst = 15 then (set_r 15 (value AND NOT 1) c)\<lparr>pc_updated := True\<rparr>
         else set_r reg_dst value c)"

definition instr_sxtb :: "u16 \<Rightarrow> cpu_state \<Rightarrow> cpu_state" where
  "instr_sxtb instr c =
     set_r (idx instr 0 7) (sign_extend_8 (ucast (cpu_r c (idx instr 3 7) AND 0xFF))) c"

definition instr_sxth :: "u16 \<Rightarrow> cpu_state \<Rightarrow> cpu_state" where
  "instr_sxth instr c =
     set_r (idx instr 0 7) (sign_extend_16 (ucast (cpu_r c (idx instr 3 7) AND 0xFFFF))) c"

definition instr_uxtb :: "u16 \<Rightarrow> cpu_state \<Rightarrow> cpu_state" where
  "instr_uxtb instr c = set_r (idx instr 0 7) (cpu_r c (idx instr 3 7) AND 0xFF) c"

definition instr_uxth :: "u16 \<Rightarrow> cpu_state \<Rightarrow> cpu_state" where
  "instr_uxth instr c = set_r (idx instr 0 7) (cpu_r c (idx instr 3 7) AND 0xFFFF) c"

definition instr_rev :: "u16 \<Rightarrow> cpu_state \<Rightarrow> cpu_state" where
  "instr_rev instr c =
     (let value = cpu_r c (idx instr 3 7)
      in set_r (idx instr 0 7)
           (shl (value AND 0xFF) 24 OR shl (value AND 0xFF00) 8 OR
            shr (value AND 0xFF0000) 8 OR (shr value 24 AND 0xFF)) c)"

definition instr_rev16 :: "u16 \<Rightarrow> cpu_state \<Rightarrow> cpu_state" where
  "instr_rev16 instr c =
     (let value = cpu_r c (idx instr 3 7)
      in set_r (idx instr 0 7)
           (shl (value AND 0x00FF00FF) 8 OR shr (value AND 0xFF00FF00) 8) c)"

definition instr_revsh :: "u16 \<Rightarrow> cpu_state \<Rightarrow> cpu_state" where
  "instr_revsh instr c =
     (let value = ucast (cpu_r c (idx instr 3 7) AND 0xFFFF) :: u16;
          reversed = shl (value AND 0xFF) 8 OR shr (value AND 0xFF00) 8
      in set_r (idx instr 0 7) (sign_extend_16 reversed) c)"

definition instr_add_sp_imm7 :: "u16 \<Rightarrow> cpu_state \<Rightarrow> cpu_state" where
  "instr_add_sp_imm7 instr c = set_r 13 (cpu_r c 13 + shl (ucast (instr AND 0x7F)) 2) c"

definition instr_sub_sp_imm7 :: "u16 \<Rightarrow> cpu_state \<Rightarrow> cpu_state" where
  "instr_sub_sp_imm7 instr c = set_r 13 (cpu_r c 13 - shl (ucast (instr AND 0x7F)) 2) c"

definition instr_adr :: "u16 \<Rightarrow> cpu_state \<Rightarrow> cpu_state" where
  "instr_adr instr c =
     (let pc_aligned = (cpu_r c 15 + 4) AND NOT 3
      in set_r (idx instr 8 7) (pc_aligned + shl (ucast (instr AND 0xFF)) 2) c)"

definition instr_add_pc_imm8 :: "u16 \<Rightarrow> cpu_state \<Rightarrow> cpu_state" where
  "instr_add_pc_imm8 instr c = instr_adr instr c"

definition dispatch_add_sp_rd :: "u16 \<Rightarrow> cpu_state \<Rightarrow> cpu_state" where
  "dispatch_add_sp_rd instr c =
     set_r (idx instr 8 7) (cpu_r c 13 + shl (ucast (instr AND 0xFF)) 2) c"

section \<open>Special registers and hints\<close>

definition instr_msr_32 :: "nat \<Rightarrow> u8 \<Rightarrow> cpu_state \<Rightarrow> cpu_state" where
  "instr_msr_32 rn sysm c =
     (let val = cpu_r c rn in
      if sysm = 0x00 \<or> sysm = 0x01 \<or> sysm = 0x02 \<or> sysm = 0x03 then
        c\<lparr>cpu_xpsr := (cpu_xpsr c AND 0x0FFFFFFF) OR (val AND 0xF0000000)\<rparr>
      else if sysm = 0x08 then set_r 13 val c
      else if sysm = 0x09 then c
      else if sysm = 0x10 then c\<lparr>cpu_primask := val AND 1\<rparr>
      else if sysm = 0x11 \<or> sysm = 0x12 then
        (if sysm = 0x12 then
           (if val AND 0xFF > m33_basepri c \<or> m33_basepri c = 0
            then c\<lparr>m33_basepri := val AND 0xFF\<rparr> else c)
         else c\<lparr>m33_basepri := val AND 0xFF\<rparr>)
      else if sysm = 0x13 then c\<lparr>cpu_faultmask := val AND 1\<rparr>
      else if sysm = 0x14 then c\<lparr>cpu_control := val AND 3\<rparr>
      else c)"

definition instr_mrs_32 :: "nat \<Rightarrow> u8 \<Rightarrow> cpu_state \<Rightarrow> cpu_state" where
  "instr_mrs_32 rd sysm c =
     (let val =
        (if sysm = 0x00 then cpu_xpsr c AND 0xF0000000
         else if sysm = 0x01 \<or> sysm = 0x02 \<or> sysm = 0x03 then cpu_xpsr c
         else if sysm = 0x05 then cpu_xpsr c AND 0x1FF
         else if sysm = 0x06 then cpu_xpsr c AND 0x01000000
         else if sysm = 0x08 then cpu_r c 13
         else if sysm = 0x09 then 0
         else if sysm = 0x10 then cpu_primask c
         else if sysm = 0x11 \<or> sysm = 0x12 then m33_basepri c
         else if sysm = 0x13 then cpu_faultmask c
         else if sysm = 0x14 then cpu_control c
         else 0)
      in set_r rd val c)"

definition instr_msr :: "u32 \<Rightarrow> cpu_state \<Rightarrow> cpu_state" where
  "instr_msr instr c = c"

definition instr_mrs :: "u32 \<Rightarrow> cpu_state \<Rightarrow> cpu_state" where
  "instr_mrs instr c = set_r (idx instr 8 0xF) (cpu_xpsr c) c"

definition instr_cpsid :: "u16 \<Rightarrow> cpu_state \<Rightarrow> cpu_state" where
  "instr_cpsid instr c = c\<lparr>cpu_primask := 1\<rparr>"

definition instr_cpsie :: "u16 \<Rightarrow> cpu_state \<Rightarrow> cpu_state" where
  "instr_cpsie instr c = c\<lparr>cpu_primask := 0\<rparr>"

definition instr_nop :: "u16 \<Rightarrow> cpu_state \<Rightarrow> cpu_state" where
  "instr_nop instr c = c"

definition instr_yield :: "u16 \<Rightarrow> cpu_state \<Rightarrow> cpu_state" where
  "instr_yield instr c = c"

definition instr_dsb :: "u32 \<Rightarrow> cpu_state \<Rightarrow> cpu_state" where
  "instr_dsb instr c = c"

definition instr_dmb :: "u32 \<Rightarrow> cpu_state \<Rightarrow> cpu_state" where
  "instr_dmb instr c = c"

definition instr_isb :: "u32 \<Rightarrow> cpu_state \<Rightarrow> cpu_state" where
  "instr_isb instr c = c"

section \<open>Branches\<close>

definition instr_b_uncond :: "u16 \<Rightarrow> cpu_state \<Rightarrow> cpu_state" where
  "instr_b_uncond instr c =
     (let off0 = instr AND 0x07FF;
          off = (if off0 AND 0x0400 \<noteq> 0 then off0 OR 0xF800 else off0);
          signed_offset = shl (scast off :: u32) 1
      in (set_r 15 (cpu_r c 15 + (4 + signed_offset)) c)\<lparr>pc_updated := True\<rparr>)"

text \<open>The condition switch of \<^verbatim>\<open>instr_bcond\<close>.\<close>

definition bcond_taken :: "u32 \<Rightarrow> nat \<Rightarrow> bool" where
  "bcond_taken xpsr cond =
     (let n = xpsr AND FLAG_N \<noteq> 0; z = xpsr AND FLAG_Z \<noteq> 0;
          cf = xpsr AND FLAG_C \<noteq> 0; v = xpsr AND FLAG_V \<noteq> 0 in
      if cond = 0 then z
      else if cond = 1 then \<not> z
      else if cond = 2 then cf
      else if cond = 3 then \<not> cf
      else if cond = 4 then n
      else if cond = 5 then \<not> n
      else if cond = 6 then v
      else if cond = 7 then \<not> v
      else if cond = 8 then cf \<and> \<not> z
      else if cond = 9 then \<not> cf \<or> z
      else if cond = 10 then n = v
      else if cond = 11 then n \<noteq> v
      else if cond = 12 then \<not> z \<and> n = v
      else if cond = 13 then z \<or> n \<noteq> v
      else False)"

text \<open>The condition check of \<^verbatim>\<open>thumb32.c\<close>, which IT blocks use: conditions 14 and 15 hold
  always.\<close>

definition t32_check_cond :: "u32 \<Rightarrow> u8 \<Rightarrow> bool" where
  "t32_check_cond xpsr cond =
     (let k = unat (cond AND 0xF) in if k < 14 then bcond_taken xpsr k else True)"

definition instr_bcond :: "u16 \<Rightarrow> cpu_state \<Rightarrow> cpu_state" where
  "instr_bcond instr c =
     (let cond = idx instr 8 0xF;
          off = ucast (instr AND 0xFF) :: u8;
          signed_offset = (scast off :: u32) * 2
      in (set_r 15 (if bcond_taken (cpu_xpsr c) cond then cpu_r c 15 + (4 + signed_offset)
                    else cpu_r c 15 + 2) c)\<lparr>pc_updated := True\<rparr>)"

definition bl_offset :: "u16 \<Rightarrow> u16 \<Rightarrow> u32" where
  "bl_offset upper lower =
     (let s = ucast (shr upper 10) AND 1;
          imm10 = ucast upper AND 0x03FF;
          j1 = ucast (shr lower 13) AND 1;
          j2 = ucast (shr lower 11) AND 1;
          imm11 = ucast lower AND 0x07FF;
          i1 = NOT (j1 XOR s) AND 1;
          i2 = NOT (j2 XOR s) AND 1;
          off = shl s 24 OR shl i1 23 OR shl i2 22 OR shl imm10 12 OR shl imm11 1
      in if off AND shl 1 24 \<noteq> 0 then off OR 0xFE000000 else off)"

definition instr_bl_32 :: "u16 \<Rightarrow> u16 \<Rightarrow> cpu_state \<Rightarrow> cpu_state" where
  "instr_bl_32 upper lower c =
     (let pc = cpu_r c 15;
          c1 = set_r 14 ((pc + 4) OR 1) c
      in (set_r 15 ((pc + 4 + bl_offset upper lower) AND NOT 1) c1)\<lparr>pc_updated := True\<rparr>)"

definition instr_blx :: "u16 \<Rightarrow> cpu_state \<Rightarrow> cpu_state" where
  "instr_blx instr c =
     (let target = cpu_r c (idx instr 3 0xF);
          c1 = set_r 14 ((cpu_r c 15 + 2) OR 1) c
      in (set_r 15 (target AND NOT 1) c1)\<lparr>pc_updated := True\<rparr>)"

definition dispatch_cbz :: "u16 \<Rightarrow> cpu_state \<Rightarrow> cpu_state" where
  "dispatch_cbz instr c =
     (let i1 = ucast (shr instr 9) AND 1 :: u32; imm5 = ucast (shr instr 3) AND 0x1F;
          off = shl i1 6 OR shl imm5 1
      in if cpu_r c (idx instr 0 7) = 0
         then (set_r 15 (cpu_r c 15 + (4 + off)) c)\<lparr>pc_updated := True\<rparr> else c)"

definition dispatch_cbnz :: "u16 \<Rightarrow> cpu_state \<Rightarrow> cpu_state" where
  "dispatch_cbnz instr c =
     (let i1 = ucast (shr instr 9) AND 1 :: u32; imm5 = ucast (shr instr 3) AND 0x1F;
          off = shl i1 6 OR shl imm5 1
      in if cpu_r c (idx instr 0 7) \<noteq> 0
         then (set_r 15 (cpu_r c 15 + (4 + off)) c)\<lparr>pc_updated := True\<rparr> else c)"

section \<open>IT blocks\<close>

definition it_clear :: "cpu_state \<Rightarrow> cpu_state" where
  "it_clear c = c\<lparr>cpu_it_base := 0, cpu_it_mask := 0, cpu_it_pos := 0, cpu_it_len := 0,
                 cpu_it_suppress := False\<rparr>"

text \<open>The loop of \<^verbatim>\<open>it_mask_len\<close>.\<close>

function it_mask_ctz :: "u32 \<Rightarrow> nat \<Rightarrow> nat" where
  "it_mask_ctz msk n = (if n < 4 \<and> msk AND 1 = 0 then it_mask_ctz (shr msk 1) (n + 1) else n)"
  by pat_completeness auto
termination by (relation "measure (\<lambda>(_, n). 4 - n)") auto

declare it_mask_ctz.simps [simp del]

definition it_mask_len :: "u32 \<Rightarrow> u32" where
  "it_mask_len msk = 4 - of_nat (it_mask_ctz msk 0)"

definition it_set_state :: "u16 \<Rightarrow> cpu_state \<Rightarrow> cpu_state" where
  "it_set_state instr c =
     c\<lparr>cpu_it_base := ucast (shr instr 4 AND 0xF), cpu_it_mask := ucast (instr AND 0xF),
       cpu_it_pos := 0, cpu_it_len := ucast (it_mask_len (ucast (instr AND 0xF)))\<rparr>"

definition instr_it :: "u16 \<Rightarrow> cpu_state \<Rightarrow> cpu_state" where
  "instr_it instr c = it_set_state instr c"

section \<open>What the flags mean\<close>

abbreviation flag_n :: "cpu_state \<Rightarrow> bool" where "flag_n c \<equiv> bit (cpu_xpsr c) 31"
abbreviation flag_z :: "cpu_state \<Rightarrow> bool" where "flag_z c \<equiv> bit (cpu_xpsr c) 30"
abbreviation flag_c :: "cpu_state \<Rightarrow> bool" where "flag_c c \<equiv> bit (cpu_xpsr c) 29"
abbreviation flag_v :: "cpu_state \<Rightarrow> bool" where "flag_v c \<equiv> bit (cpu_xpsr c) 28"

lemma and_flag_masks [simp]:
  fixes w :: u32
  shows "(w AND 0x80000000 = 0) = (\<not> bit w 31)" "(w AND 0x40000000 = 0) = (\<not> bit w 30)"
    "(w AND 0x20000000 = 0) = (\<not> bit w 29)" "(w AND 0x10000000 = 0) = (\<not> bit w 28)"
proof -
  have e: "(0x80000000 :: u32) = 2 ^ 31" "(0x40000000 :: u32) = 2 ^ 30"
    "(0x20000000 :: u32) = 2 ^ 29" "(0x10000000 :: u32) = 2 ^ 28" by simp_all
  show "(w AND 0x80000000 = 0) = (\<not> bit w 31)" unfolding e by (rule and_exp_eq_0)
  show "(w AND 0x40000000 = 0) = (\<not> bit w 30)" unfolding e by (rule and_exp_eq_0)
  show "(w AND 0x20000000 = 0) = (\<not> bit w 29)" unfolding e by (rule and_exp_eq_0)
  show "(w AND 0x10000000 = 0) = (\<not> bit w 28)" unfolding e by (rule and_exp_eq_0)
qed

text \<open>The flag word assembled from four conditions, over the untouched rest of xPSR.\<close>

definition flag_word :: "bool \<Rightarrow> bool \<Rightarrow> bool \<Rightarrow> bool \<Rightarrow> u32 \<Rightarrow> u32" where
  "flag_word n z c v w = (w AND NOT (FLAG_N OR FLAG_Z OR FLAG_C OR FLAG_V)) OR
     (cond_mask z FLAG_Z OR cond_mask n FLAG_N OR cond_mask c FLAG_C OR cond_mask v FLAG_V)"

lemma flag_word_flags [simp]:
  "bit (flag_word n z c v w) 31 = n" "bit (flag_word n z c v w) 30 = z"
  "bit (flag_word n z c v w) 29 = c" "bit (flag_word n z c v w) 28 = v"
  by (simp_all add: flag_word_def cond_mask_def bit_simps)

lemma flag_word_rest: "k < 28 \<Longrightarrow> bit (flag_word n z c v w) k = bit w k"
proof -
  assume "k < 28"
  then have "k < 32" by simp
  then show ?thesis
    using \<open>k < 28\<close> unfolding bit_cases_32 flag_word_def cond_mask_def
    by (elim disjE) (simp_all add: bit_simps)
qed

lemma unat_u32_less: "unat x < 2 ^ 32" for x :: u32
proof -
  have "unat x < 2 ^ LENGTH(32)" by (rule unsigned_less)
  then show ?thesis by simp
qed

lemma unat_add_cases:
  fixes a b :: u32
  shows "unat (a + b) = (if unat a + unat b < 2 ^ 32 then unat a + unat b else unat a + unat b - 2 ^ 32)"
  using unat_u32_less [of a] unat_u32_less [of b] by (simp add: unat_word_ariths mod_if)

lemma unat_sub_cases:
  fixes a b :: u32
  shows "unat (a - b) = (if unat b \<le> unat a then unat a - unat b else 2 ^ 32 + unat a - unat b)"
proof (cases "unat b \<le> unat a")
  case True
  then show ?thesis by (simp add: unat_sub word_le_nat_alt)
next
  case False
  then have "b - a \<noteq> 0" by auto
  then have "unat (- (b - a)) = 2 ^ 32 - unat (b - a)"
    using unat_uminus_word [of "b - a"] by simp
  moreover have "unat (b - a) = unat b - unat a"
    using False by (simp add: unat_sub word_le_nat_alt)
  ultimately show ?thesis using False unat_u32_less [of b] by simp
qed

lemma sint_unat32: "sint x = int (unat x) - (if bit x 31 then 2 ^ 32 else 0)" for x :: u32
proof -
  have "take_bit 32 (uint x) = uint x" by transfer simp
  then show ?thesis
    by (simp add: sint_uint signed_take_bit_eq_take_bit_minus bit_uint_iff)
qed

lemma overflow_bit_split:
  fixes a b r :: u32
  shows "bit ((a XOR r) AND (b XOR r)) 31 \<longleftrightarrow> (bit a 31 \<noteq> bit r 31) \<and> (bit b 31 \<noteq> bit r 31)"
    and "bit ((a XOR b) AND (a XOR r)) 31 \<longleftrightarrow> (bit a 31 \<noteq> bit b 31) \<and> (bit a 31 \<noteq> bit r 31)"
  by (simp_all only: bit_and_iff bit_xor_iff)

lemma add_overflow_bit:
  fixes a b :: u32
  shows "bit ((a XOR (a + b)) AND (b XOR (a + b))) 31 \<longleftrightarrow>
    sint a + sint b < - (2 ^ 31) \<or> 2 ^ 31 \<le> sint a + sint b"
proof -
  define x where "x = unat a"
  define y where "y = unat b"
  have "x < 2 ^ 32" "y < 2 ^ 32" using unat_u32_less by (simp_all add: x_def y_def)
  then show ?thesis
    unfolding overflow_bit_split
    unfolding sint_unat32 bit31_iff unat_add_cases
    unfolding x_def [symmetric] y_def [symmetric] by auto
qed

lemma sub_overflow_bit:
  fixes a b :: u32
  shows "bit ((a XOR b) AND (a XOR (a - b))) 31 \<longleftrightarrow>
    sint a - sint b < - (2 ^ 31) \<or> 2 ^ 31 \<le> sint a - sint b"
proof -
  define x where "x = unat a"
  define y where "y = unat b"
  have "x < 2 ^ 32" "y < 2 ^ 32" using unat_u32_less by (simp_all add: x_def y_def)
  then show ?thesis
    unfolding overflow_bit_split
    unfolding sint_unat32 bit31_iff unat_sub_cases
    unfolding x_def [symmetric] y_def [symmetric] by auto
qed

lemma unat_ucast_u64 [simp]: "unat (ucast x :: u64) = unat x" for x :: u32
  using unat_u32_less [of x] by (simp add: unsigned_ucast_eq take_bit_nat_eq_self_iff)

lemma add_carry_u64:
  fixes a b :: u32
  shows "(ucast a + ucast b > (0xFFFFFFFF :: u64)) \<longleftrightarrow> 2 ^ 32 \<le> unat a + unat b"
proof -
  have "unat (ucast a + ucast b :: u64) = unat a + unat b"
    using unat_u32_less [of a] unat_u32_less [of b] by (simp add: unat_word_ariths)
  then show ?thesis by (auto simp: word_less_nat_alt)
qed

lemmas flag_update_rules = drop_bit_31_eq_0 not_not Let_def flag_word_def bit_last_iff [symmetric]

lemma update_add_flags_word:
  "update_add_flags a b (a + b) c =
     c\<lparr>cpu_xpsr := flag_word (bit (a + b) 31) (a + b = 0) (2 ^ 32 \<le> unat a + unat b)
        (sint a + sint b < - (2 ^ 31) \<or> 2 ^ 31 \<le> sint a + sint b) (cpu_xpsr c)\<rparr>"
  by (simp only: update_add_flags_def flag_update_rules add_carry_u64 add_overflow_bit)

lemma update_sub_flags_word:
  "update_sub_flags a b (a - b) c =
     c\<lparr>cpu_xpsr := flag_word (bit (a - b) 31) (a - b = 0) (b \<le> a)
        (sint a - sint b < - (2 ^ 31) \<or> 2 ^ 31 \<le> sint a - sint b) (cpu_xpsr c)\<rparr>"
  by (simp only: update_sub_flags_def flag_update_rules sub_overflow_bit)

lemma signed_less_flags:
  fixes a b :: u32
  shows "bit (a - b) 31 \<noteq> (sint a - sint b < - (2 ^ 31) \<or> 2 ^ 31 \<le> sint a - sint b) \<longleftrightarrow> sint a < sint b"
proof -
  define x where "x = unat a"
  define y where "y = unat b"
  have "x < 2 ^ 32" "y < 2 ^ 32" using unat_u32_less by (simp_all add: x_def y_def)
  then show ?thesis
    unfolding sint_unat32 bit31_iff unat_sub_cases
    unfolding x_def [symmetric] y_def [symmetric] by auto
qed

lemma cmp_conditions:
  fixes a b :: u32
  assumes x_def: "x = cpu_xpsr (update_sub_flags a b (a - b) c)"
  shows "bcond_taken x 0 = (a = b)" "bcond_taken x 1 = (a \<noteq> b)"
    "bcond_taken x 2 = (b \<le> a)" "bcond_taken x 3 = (a < b)"
    "bcond_taken x 8 = (b < a)" "bcond_taken x 9 = (a \<le> b)"
    "bcond_taken x 10 = (sint b \<le> sint a)" "bcond_taken x 11 = (sint a < sint b)"
    "bcond_taken x 12 = (sint b < sint a)" "bcond_taken x 13 = (sint a \<le> sint b)"
    "bcond_taken x 4 = (sint (a - b) < 0)" "bcond_taken x 5 = (0 \<le> sint (a - b))"
    "bcond_taken x 6 = (sint a - sint b < - (2 ^ 31) \<or> 2 ^ 31 \<le> sint a - sint b)"
    "bcond_taken x 7 = (- (2 ^ 31) \<le> sint a - sint b \<and> sint a - sint b < 2 ^ 31)"
proof -
  have eq: "sint a = sint b \<longleftrightarrow> a = b" by (rule word_eq_iff_signed [symmetric])
  have xw: "x = flag_word (bit (a - b) 31) (a - b = 0) (b \<le> a)
      (sint a - sint b < - (2 ^ 31) \<or> 2 ^ 31 \<le> sint a - sint b) (cpu_xpsr c)"
    unfolding x_def update_sub_flags_word by simp
  have lt: "bit x 31 \<noteq> bit x 28 \<longleftrightarrow> sint a < sint b"
    unfolding xw flag_word_flags by (rule signed_less_flags)
  have z: "bit x 30 \<longleftrightarrow> a = b" and cf: "bit x 29 \<longleftrightarrow> b \<le> a"
    by (simp_all add: x_def update_sub_flags_word)
  show "bcond_taken x 0 = (a = b)" "bcond_taken x 1 = (a \<noteq> b)"
    "bcond_taken x 2 = (b \<le> a)" "bcond_taken x 3 = (a < b)"
    "bcond_taken x 8 = (b < a)" "bcond_taken x 9 = (a \<le> b)"
    by (auto simp: bcond_taken_def z cf)
  show "bcond_taken x 10 = (sint b \<le> sint a)" "bcond_taken x 11 = (sint a < sint b)"
    "bcond_taken x 12 = (sint b < sint a)" "bcond_taken x 13 = (sint a \<le> sint b)"
    using lt eq by (auto simp: bcond_taken_def z)
  have n: "bit x 31 \<longleftrightarrow> sint (a - b) < 0"
    and v: "bit x 28 \<longleftrightarrow> sint a - sint b < - (2 ^ 31) \<or> 2 ^ 31 \<le> sint a - sint b"
    unfolding xw flag_word_flags using bit_last_iff [of "a - b"] by simp_all
  show "bcond_taken x 4 = (sint (a - b) < 0)" "bcond_taken x 5 = (0 \<le> sint (a - b))"
    by (auto simp: bcond_taken_def n)
  show "bcond_taken x 6 = (sint a - sint b < - (2 ^ 31) \<or> 2 ^ 31 \<le> sint a - sint b)"
    "bcond_taken x 7 = (- (2 ^ 31) \<le> sint a - sint b \<and> sint a - sint b < 2 ^ 31)"
    by (simp add: bcond_taken_def v, auto simp: bcond_taken_def v)
qed

text \<open>C31. After CMP of two registers the conditional branches decide what their names say: EQ, NE
  equality; HS, LO, HI, LS the unsigned order; GE, LT, GT, LE the signed order of the two
  operands; MI, PL the sign of the 32-bit difference; VS, VC whether the difference of the signed operands
  leaves the 32-bit range. This holds over the whole 32-bit range, and CMP changes no register.\<close>

theorem cmp_branch_conditions:
  assumes "c' = instr_cmp_alu instr c" "a = cpu_r c (idx instr 0 7)" "b = cpu_r c (idx instr 3 7)"
  shows "cpu_r c' = cpu_r c \<and>
    bcond_taken (cpu_xpsr c') 0 = (a = b) \<and> bcond_taken (cpu_xpsr c') 1 = (a \<noteq> b) \<and>
    bcond_taken (cpu_xpsr c') 2 = (b \<le> a) \<and> bcond_taken (cpu_xpsr c') 3 = (a < b) \<and>
    bcond_taken (cpu_xpsr c') 8 = (b < a) \<and> bcond_taken (cpu_xpsr c') 9 = (a \<le> b) \<and>
    bcond_taken (cpu_xpsr c') 10 = (sint b \<le> sint a) \<and> bcond_taken (cpu_xpsr c') 11 = (sint a < sint b) \<and>
    bcond_taken (cpu_xpsr c') 12 = (sint b < sint a) \<and> bcond_taken (cpu_xpsr c') 13 = (sint a \<le> sint b) \<and>
    bcond_taken (cpu_xpsr c') 4 = (sint (a - b) < 0) \<and> bcond_taken (cpu_xpsr c') 5 = (0 \<le> sint (a - b)) \<and>
    bcond_taken (cpu_xpsr c') 6 = (sint a - sint b < - (2 ^ 31) \<or> 2 ^ 31 \<le> sint a - sint b) \<and>
    bcond_taken (cpu_xpsr c') 7 = (- (2 ^ 31) \<le> sint a - sint b \<and> sint a - sint b < 2 ^ 31)"
proof -
  define c0 where "c0 = c\<lparr>cpu_it_suppress := False\<rparr>"
  have c': "c' = update_sub_flags a b (a - b) c0"
    by (simp add: assms instr_cmp_alu_def Let_def c0_def)
  have "cpu_r c' = cpu_r c"
    by (simp add: c' update_sub_flags_def Let_def c0_def)
  then show ?thesis
    using cmp_conditions [OF arg_cong [OF c', of cpu_xpsr]] by simp
qed

theorem cmp_branch_conditions_witness:
  "bcond_taken (cpu_xpsr (instr_cmp_alu 0x4288 (set_r 1 0xFFFFFFFF cpu_zero))) 12 \<and>
   \<not> bcond_taken (cpu_xpsr (instr_cmp_alu 0x4288 (set_r 1 0xFFFFFFFF cpu_zero))) 8"
  using cmp_branch_conditions [OF refl refl refl, of "0x4288" "set_r 1 0xFFFFFFFF cpu_zero"]
  by (simp add: cpu_zero_def)

section \<open>Double-word arithmetic\<close>

definition dword :: "u32 \<Rightarrow> u32 \<Rightarrow> u64" where
  "dword hi lo = ucast hi * 2 ^ 32 + ucast lo"

lemma ucast_u64_of_nat: "(ucast x :: u64) = of_nat (unat x)" for x :: u32
  by (metis unat_ucast_u64 of_nat_unat ucast_id)

lemma ucast_u64_add:
  fixes a b :: u32
  shows "(ucast (a + b) :: u64) + (if 2 ^ 32 \<le> unat a + unat b then 2 ^ 32 else 0) = ucast a + ucast b"
proof -
  have "unat (a + b) + (if 2 ^ 32 \<le> unat a + unat b then 2 ^ 32 else 0) = unat a + unat b"
    by (simp add: unat_add_cases)
  then have "(of_nat (unat (a + b) + (if 2 ^ 32 \<le> unat a + unat b then 2 ^ 32 else 0)) :: u64) =
      of_nat (unat a + unat b)"
    by (simp only:)
  then show ?thesis by (simp split: if_splits)
qed

lemma ucast_u64_sub:
  fixes a b :: u32
  shows "(ucast (a - b) :: u64) + ucast b = ucast a + (if b \<le> a then 0 else 2 ^ 32)"
proof -
  have "unat (a - b) + unat b = unat a + (if b \<le> a then 0 else 2 ^ 32)"
    using unat_u32_less [of b] by (simp add: unat_sub_cases word_le_nat_alt)
  then have "(of_nat (unat (a - b) + unat b) :: u64) = of_nat (unat a + (if b \<le> a then 0 else 2 ^ 32))"
    by (simp only:)
  then show ?thesis by (simp split: if_splits)
qed

lemma two_32_squared: "(2 ^ 32 * 2 ^ 32 :: u64) = 0"
  by (subst power_add [symmetric]) (simp only: exp_eq_zero_iff, simp)

lemma dword_hi_add: "dword (a + b) lo = dword a lo + ucast b * 2 ^ 32"
proof -
  have "(ucast (a + b) + (if 2 ^ 32 \<le> unat a + unat b then 2 ^ 32 else 0)) * 2 ^ 32 =
      (ucast a + ucast b :: u64) * 2 ^ 32"
    by (simp only: ucast_u64_add)
  then have "(ucast (a + b) * 2 ^ 32 :: u64) = ucast a * 2 ^ 32 + ucast b * 2 ^ 32"
    using two_32_squared by (simp only: distrib_right if_distrib [of "\<lambda>x. x * 2 ^ 32"] mult_zero_left if_cancel add_0_right)
  then show ?thesis by (simp only: dword_def add.assoc add.left_commute add.commute)
qed

lemma dword_hi_sub: "dword (a - b) lo = dword a lo - ucast b * 2 ^ 32"
  using dword_hi_add [of "a - b" b lo] by simp

lemma dword_add:
  "dword (h1 + h2 + (if 2 ^ 32 \<le> unat l1 + unat l2 then 1 else 0)) (l1 + l2) = dword h1 l1 + dword h2 l2"
proof -
  let ?k = "if 2 ^ 32 \<le> unat l1 + unat l2 then 1 else 0 :: u32"
  have k: "(ucast ?k * 2 ^ 32 :: u64) = (if 2 ^ 32 \<le> unat l1 + unat l2 then 2 ^ 32 else 0)"
    by simp
  have "dword (h1 + h2 + ?k) (l1 + l2) =
      ucast h1 * 2 ^ 32 + ucast h2 * 2 ^ 32 + (ucast (l1 + l2) + ucast ?k * 2 ^ 32)"
    unfolding dword_hi_add by (simp only: dword_def ac_simps)
  also have "ucast (l1 + l2) + ucast ?k * 2 ^ 32 = (ucast l1 + ucast l2 :: u64)"
    unfolding k by (rule ucast_u64_add)
  finally show ?thesis by (simp only: dword_def ac_simps)
qed

lemma dword_sub:
  "dword (h1 - h2 - (1 - (if l2 \<le> l1 then 1 else 0))) (l1 - l2) = dword h1 l1 - dword h2 l2"
proof -
  let ?k = "1 - (if l2 \<le> l1 then 1 else 0) :: u32"
  have k: "(ucast ?k * 2 ^ 32 :: u64) = (if l2 \<le> l1 then 0 else 2 ^ 32)" by simp
  have lo: "(ucast (l1 - l2) :: u64) = ucast l1 + (if l2 \<le> l1 then 0 else 2 ^ 32) - ucast l2"
    using ucast_u64_sub [of l1 l2] by (simp only: eq_diff_eq)
  have "dword (h1 - h2 - ?k) (l1 - l2) = ucast h1 * 2 ^ 32 + ucast (l1 - l2) - ucast h2 * 2 ^ 32 - ucast ?k * 2 ^ 32"
    unfolding dword_hi_sub by (simp only: dword_def)
  then show ?thesis
    unfolding k lo by (simp add: dword_def algebra_simps)
qed

lemma update_flags_r [simp]:
  "cpu_r (update_add_flags a b r c) = cpu_r c" "cpu_r (update_sub_flags a b r c) = cpu_r c"
  "cpu_r (update_nz_flags r c) = cpu_r c"
  by (simp_all add: update_add_flags_def update_sub_flags_def update_nz_flags_def Let_def)

lemma instr_adcs_r:
  "cpu_r (instr_adcs instr c) = (cpu_r c)(idx instr 0 7 :=
     cpu_r c (idx instr 0 7) + cpu_r c (idx instr 3 7) + (if flag_c c then 1 else 0))"
  by (simp add: instr_adcs_def Let_def ucast_add_down ucast_down_up)

lemma instr_sbcs_r:
  "cpu_r (instr_sbcs instr c) = (cpu_r c)(idx instr 0 7 :=
     cpu_r c (idx instr 0 7) - cpu_r c (idx instr 3 7) - (1 - (if flag_c c then 1 else 0)))"
  by (simp add: instr_sbcs_def Let_def)

lemma instr_adds_sub_r:
  "cpu_r (instr_adds_reg_reg instr c) =
     (cpu_r c)(idx instr 0 7 := cpu_r c (idx instr 3 7) + cpu_r c (idx instr 6 7))"
  "cpu_r (instr_sub_reg_reg instr c) =
     (cpu_r c)(idx instr 0 7 := cpu_r c (idx instr 3 7) - cpu_r c (idx instr 6 7))"
  by (simp_all add: instr_adds_reg_reg_def instr_sub_reg_reg_def Let_def)

lemma instr_adds_sub_c:
  "flag_c (instr_adds_reg_reg instr c) \<longleftrightarrow>
     2 ^ 32 \<le> unat (cpu_r c (idx instr 3 7)) + unat (cpu_r c (idx instr 6 7))"
  "flag_c (instr_sub_reg_reg instr c) \<longleftrightarrow> cpu_r c (idx instr 6 7) \<le> cpu_r c (idx instr 3 7)"
  by (simp_all add: instr_adds_reg_reg_def instr_sub_reg_reg_def Let_def update_add_flags_word
      update_sub_flags_word)

text \<open>The carry chains of wide arithmetic are exact: ADDS on the low words followed by ADCS
  on the high words is 64-bit addition, and SUBS followed by SBCS is 64-bit subtraction, modulo
  \<open>2\<close> to the power 64, for all operands, as long as the low result does not overwrite a high
  operand.\<close>

theorem wide_add_sub:
  assumes "idx i1 0 7 \<noteq> idx i2 0 7" "idx i1 0 7 \<noteq> idx i2 3 7"
  shows "dword (cpu_r (instr_adcs i2 (instr_adds_reg_reg i1 c)) (idx i2 0 7))
           (cpu_r (instr_adcs i2 (instr_adds_reg_reg i1 c)) (idx i1 0 7)) =
         dword (cpu_r c (idx i2 0 7)) (cpu_r c (idx i1 3 7)) +
         dword (cpu_r c (idx i2 3 7)) (cpu_r c (idx i1 6 7)) \<and>
         dword (cpu_r (instr_sbcs i2 (instr_sub_reg_reg i1 c)) (idx i2 0 7))
           (cpu_r (instr_sbcs i2 (instr_sub_reg_reg i1 c)) (idx i1 0 7)) =
         dword (cpu_r c (idx i2 0 7)) (cpu_r c (idx i1 3 7)) -
         dword (cpu_r c (idx i2 3 7)) (cpu_r c (idx i1 6 7))"
  using assms
  by (simp only: instr_adcs_r instr_sbcs_r instr_adds_sub_r instr_adds_sub_c fun_upd_apply if_False
      if_True not_sym [OF assms(1)] not_sym [OF assms(2)] dword_add dword_sub simp_thms)

theorem wide_add_sub_witness:
  "dword (cpu_r (instr_adcs 0x4159 (instr_adds_reg_reg 0x1880 (set_r 0 0xFFFFFFFF (set_r 2 1 cpu_zero)))) 1)
     (cpu_r (instr_adcs 0x4159 (instr_adds_reg_reg 0x1880 (set_r 0 0xFFFFFFFF (set_r 2 1 cpu_zero)))) 0)
   = 0x100000000"
  using wide_add_sub [of "0x1880" "0x4159" "set_r 0 0xFFFFFFFF (set_r 2 1 cpu_zero)"]
  by (simp add: dword_def cpu_zero_def)

section \<open>Shifts\<close>

lemma set_carry_simps [simp]:
  "cpu_r (set_carry b c) = cpu_r c" "flag_c (set_carry b c) = b"
  by (simp_all add: set_carry_def bit_simps)

lemma update_nz_flag_c [simp]: "flag_c (update_nz_flags r c) = flag_c c"
  by (simp add: update_nz_flags_def Let_def bit_simps)

lemma update_nz_flags_nz:
  "flag_n (update_nz_flags r c) = (sint r < 0)" "flag_z (update_nz_flags r c) = (r = 0)"
  using bit_last_iff [of r] by (auto simp: update_nz_flags_def Let_def bit_simps)

lemma shift_out_bits:
  fixes v :: u32
  assumes "0 < s" "s < 32"
  shows "(v AND shl 1 (32 - s) \<noteq> 0) = bit v (32 - s)" "(v AND shl 1 (s - 1) \<noteq> 0) = bit v (s - 1)"
  by (simp_all only: and_push_bit_1_eq_0 not_not)

lemma and_1_bit_0: "(w AND 1 = 0) = (\<not> bit w 0)" for w :: u32
  using and_exp_eq_0 [of w 0] by simp

lemma instr_lsls_reg_sem:
  assumes "s = unat (cpu_r c (idx instr 3 7) AND 0xFF)" "v = cpu_r c (idx instr 0 7)"
  shows "cpu_r (instr_lsls_reg instr c) = (cpu_r c)(idx instr 0 7 := push_bit s v)"
    "flag_c (instr_lsls_reg instr c) = (if s = 0 then flag_c c else s \<le> 32 \<and> bit v (32 - s))"
  unfolding instr_lsls_reg_def Let_def assms(1) [symmetric] assms(2) [symmetric]
  by (auto simp: assms(2) and_1_bit_0)

lemma instr_lsrs_reg_sem:
  assumes "s = unat (cpu_r c (idx instr 3 7) AND 0xFF)" "v = cpu_r c (idx instr 0 7)"
  shows "cpu_r (instr_lsrs_reg instr c) = (cpu_r c)(idx instr 0 7 := drop_bit s v)"
    "flag_c (instr_lsrs_reg instr c) = (if s = 0 then flag_c c else bit v (s - 1))"
  unfolding instr_lsrs_reg_def Let_def assms(1) [symmetric] assms(2) [symmetric]
  by (auto simp: assms(2) dest: bit_imp_le_length)

lemma min_shift_31: "min (s - 1) 31 = (if s < 32 then s - 1 else 31 :: nat)"
  by auto

lemma instr_asrs_reg_sem:
  assumes "s = unat (cpu_r c (idx instr 3 7) AND 0xFF)" "v = cpu_r c (idx instr 0 7)"
  shows "cpu_r (instr_asrs_reg instr c) = (cpu_r c)(idx instr 0 7 := signed_drop_bit s v)"
    "flag_c (instr_asrs_reg instr c) = (if s = 0 then flag_c c else bit v (min (s - 1) 31))"
  unfolding instr_asrs_reg_def Let_def assms(1) [symmetric] assms(2) [symmetric]
  using signed_drop_bit_beyond [of s v] min_shift_31 [of s]
  by (auto simp: assms(2) not_less)

lemma rotr_parts:
  fixes v :: u32
  assumes "0 < k" "k < 32"
  shows "shr v k OR shl v (32 - k) = word_rotr k v"
proof (rule bit_word_eqI)
  fix n assume "n < LENGTH(32)"
  then have n: "n < 32" by simp
  then have r: "bit (word_rotr k v) n = bit v ((n + k) mod 32)"
    by (simp add: bit_word_rotr_iff)
  show "bit (shr v k OR shl v (32 - k)) n = bit (word_rotr k v) n"
  proof (cases "n + k < 32")
    case True
    then show ?thesis using assms n unfolding r by (auto simp: bit_simps add.commute)
  next
    case False
    then have "(n + k) mod 32 = n + k - 32" using assms n by (simp add: mod_if)
    then show ?thesis
      using False assms n bit_imp_le_length [of v "k + n"] unfolding r
      by (auto simp: bit_simps add.commute)
  qed
qed

lemma word_rotr_0': "word_rotr 0 v = v" for v :: u32
  by (rule bit_word_eqI) (simp add: bit_word_rotr_iff)

lemma word_rotr_mod: "word_rotr (k mod 32) v = word_rotr k v" for v :: u32
  by (rule bit_word_eqI) (simp add: bit_word_rotr_iff mod_simps)

lemma instr_rors_reg_sem:
  assumes "s = unat (cpu_r c (idx instr 3 7) AND 0xFF)" "v = cpu_r c (idx instr 0 7)"
  shows "cpu_r (instr_rors_reg instr c) = (cpu_r c)(idx instr 0 7 := word_rotr s v)"
    "flag_c (instr_rors_reg instr c) = (if s = 0 then flag_c c else bit (word_rotr s v) 31)"
proof -
  define w where "w = cpu_r c (idx instr 3 7) AND 0xFF"
  have s: "s = unat w" using assms(1) by (simp add: w_def)
  have m: "unat (w AND 0x1F) = s mod 32" using irq_word_bit(2) [of w] by (simp add: s)
  have rot: "(if s mod 32 = 0 then v else shr v (s mod 32) OR shl v (32 - s mod 32)) = word_rotr s v"
    using rotr_parts [of "s mod 32" v] word_rotr_mod [of s v] word_rotr_0' [of v]
    by (cases "s mod 32 = 0") auto
  have z: "w = 0 \<longleftrightarrow> s = 0" by (simp add: s unat_eq_0)
  show "cpu_r (instr_rors_reg instr c) = (cpu_r c)(idx instr 0 7 := word_rotr s v)"
    "flag_c (instr_rors_reg instr c) = (if s = 0 then flag_c c else bit (word_rotr s v) 31)"
    unfolding instr_rors_reg_def Let_def w_def [symmetric] m assms(2) [symmetric] rot z
    by (auto simp: assms(2) word_rotr_0')
qed

text \<open>The register-controlled shifts compute the mathematical shift by the low byte of the
  amount register, saturating beyond the word, with the last bit shifted out as carry and the
  flags left alone for a zero amount: LSLS multiplies, LSRS divides unsigned, ASRS divides
  signed, RORS rotates.\<close>

theorem register_shift_semantics:
  assumes "s = unat (cpu_r c (idx instr 3 7) AND 0xFF)" "v = cpu_r c (idx instr 0 7)"
  shows "cpu_r (instr_lsls_reg instr c) = (cpu_r c)(idx instr 0 7 := push_bit s v) \<and>
    flag_c (instr_lsls_reg instr c) = (if s = 0 then flag_c c else s \<le> 32 \<and> bit v (32 - s)) \<and>
    cpu_r (instr_lsrs_reg instr c) = (cpu_r c)(idx instr 0 7 := drop_bit s v) \<and>
    flag_c (instr_lsrs_reg instr c) = (if s = 0 then flag_c c else bit v (s - 1)) \<and>
    cpu_r (instr_asrs_reg instr c) = (cpu_r c)(idx instr 0 7 := signed_drop_bit s v) \<and>
    flag_c (instr_asrs_reg instr c) = (if s = 0 then flag_c c else bit v (min (s - 1) 31)) \<and>
    cpu_r (instr_rors_reg instr c) = (cpu_r c)(idx instr 0 7 := word_rotr s v) \<and>
    flag_c (instr_rors_reg instr c) = (if s = 0 then flag_c c else bit (word_rotr s v) 31)"
  by (intro conjI instr_lsls_reg_sem instr_lsrs_reg_sem instr_asrs_reg_sem instr_rors_reg_sem assms)

theorem register_shift_witness:
  "cpu_r (instr_asrs_reg 0x4108 (set_r 0 0x80000000 (set_r 1 0x28 cpu_zero))) 0 = 0xFFFFFFFF"
  using register_shift_semantics [OF refl refl, of "0x4108" "set_r 0 0x80000000 (set_r 1 0x28 cpu_zero)"]
  by (simp add: cpu_zero_def signed_drop_bit_beyond)

section \<open>Extension and byte order\<close>

lemma bit_beyond:
  "8 \<le> n \<Longrightarrow> bit (x :: u8) n = False" "16 \<le> n \<Longrightarrow> bit (y :: u16) n = False"
  using bit_imp_le_length [of x n] bit_imp_le_length [of y n] by auto

text \<open>The sign-extension helpers are two's-complement sign extension, and reversing the
  byte order of a register twice, in words or in halfwords, gives the register back.\<close>

theorem extend_and_reverse:
  "sign_extend_8 x = scast x \<and> sign_extend_16 y = scast y \<and>
   cpu_r (instr_rev 0x0000 (instr_rev 0x0000 c)) = cpu_r c \<and>
   cpu_r (instr_rev16 0x0000 (instr_rev16 0x0000 c)) = cpu_r c"
proof -
  have 8: "(x AND 0x80 = 0) = (\<not> bit x 7)" using and_exp_eq_0 [of x 7] by simp
  have 16: "(y AND 0x8000 = 0) = (\<not> bit y 15)" using and_exp_eq_0 [of y 15] by simp
  have x: "sign_extend_8 x = scast x"
  proof (rule bit_word_eqI)
    fix n assume "n < LENGTH(32)"
    then have "n < 32" by simp
    then show "bit (sign_extend_8 x) n = bit (scast x :: u32) n"
      unfolding bit_cases_32
      by (elim disjE) (simp_all add: sign_extend_8_def 8 bit_simps bit_word_scast_iff bit_beyond)
  qed
  have y: "sign_extend_16 y = scast y"
  proof (rule bit_word_eqI)
    fix n assume "n < LENGTH(32)"
    then have "n < 32" by simp
    then show "bit (sign_extend_16 y) n = bit (scast y :: u32) n"
      unfolding bit_cases_32
      by (elim disjE) (simp_all add: sign_extend_16_def 16 bit_simps bit_word_scast_iff bit_beyond)
  qed
  define rv where "rv = (\<lambda>value :: u32. shl (value AND 0xFF) 24 OR shl (value AND 0xFF00) 8 OR
            shr (value AND 0xFF0000) 8 OR (shr value 24 AND 0xFF))"
  define rv16 where "rv16 = (\<lambda>value :: u32. shl (value AND 0x00FF00FF) 8 OR shr (value AND 0xFF00FF00) 8)"
  have rv: "rv (rv v) = v" for v
  proof (rule bit_word_eqI)
    fix n assume "n < LENGTH(32)"
    then have "n < 32" by simp
    then show "bit (rv (rv v)) n = bit v n"
      unfolding bit_cases_32 rv_def by (elim disjE) (simp_all add: bit_simps)
  qed
  have rv16: "rv16 (rv16 v) = v" for v
  proof (rule bit_word_eqI)
    fix n assume "n < LENGTH(32)"
    then have "n < 32" by simp
    then show "bit (rv16 (rv16 v)) n = bit v n"
      unfolding bit_cases_32 rv16_def by (elim disjE) (simp_all add: bit_simps)
  qed
  have "cpu_r (instr_rev 0x0000 (instr_rev 0x0000 c)) = (cpu_r c)(0 := rv (rv (cpu_r c 0)))"
    "cpu_r (instr_rev16 0x0000 (instr_rev16 0x0000 c)) = (cpu_r c)(0 := rv16 (rv16 (cpu_r c 0)))"
    unfolding rv_def rv16_def instr_rev_def instr_rev16_def Let_def by simp_all
  then show ?thesis using x y by (simp add: rv rv16)
qed

section \<open>Branch displacements\<close>

text \<open>The two halfwords an assembler emits for BL with an even displacement \<open>d\<close>.\<close>

definition bl_encode :: "u32 \<Rightarrow> u16 \<times> u16" where
  "bl_encode d =
     (let s = bit d 24; j1 = (bit d 23 = s); j2 = (bit d 22 = s) in
      (0xF000 OR cond_mask s 0x0400 OR ucast (shr d 12 AND 0x3FF),
       0xD000 OR cond_mask j1 0x2000 OR cond_mask j2 0x0800 OR ucast (shr d 1 AND 0x7FF)))"

definition bl_raw :: "u16 \<Rightarrow> u16 \<Rightarrow> u32" where
  "bl_raw upper lower =
     (let s = ucast (shr upper 10) AND 1; j1 = ucast (shr lower 13) AND 1; j2 = ucast (shr lower 11) AND 1
      in shl s 24 OR shl (NOT (j1 XOR s) AND 1) 23 OR shl (NOT (j2 XOR s) AND 1) 22 OR
         shl (ucast upper AND 0x03FF) 12 OR shl (ucast lower AND 0x07FF) 1)"

lemma bl_offset_raw:
  "bl_offset upper lower =
     (if bit (bl_raw upper lower) 24 then bl_raw upper lower OR 0xFE000000 else bl_raw upper lower)"
  unfolding bl_offset_def bl_raw_def [symmetric] Let_def
  by (simp only: bl_raw_def Let_def and_push_bit_1_eq_0 not_not)

lemma bl_raw_bits:
  assumes "n < 32"
  shows "bit (bl_raw u l) n \<longleftrightarrow>
    (if n > 24 then False else if n = 24 then bit u 10 else if n = 23 then bit l 13 = bit u 10
     else if n = 22 then bit l 11 = bit u 10 else if 12 \<le> n then bit u (n - 12)
     else 1 \<le> n \<and> bit l (n - 1))"
  using assms unfolding bit_cases_32 bl_raw_def Let_def
  by (elim disjE) (simp_all add: bit_simps bit_times_2)

lemma bl_offset_bits:
  assumes "n < 32"
  shows "bit (bl_offset u l) n \<longleftrightarrow>
    (if n \<ge> 24 then bit u 10 else if n = 23 then bit l 13 = bit u 10
     else if n = 22 then bit l 11 = bit u 10 else if 12 \<le> n then bit u (n - 12)
     else 1 \<le> n \<and> bit l (n - 1))"
  using assms unfolding bit_cases_32 bl_offset_raw
  by (elim disjE) (simp_all add: bit_simps bl_raw_bits)

text \<open>The displacement decoder of BL inverts the encoding: for every even displacement in
  the 25-bit signed range the two halfwords decode to exactly that displacement.\<close>

theorem bl_decode_encode:
  assumes "\<not> bit d 0" "\<forall>k. 24 \<le> k \<and> k < 32 \<longrightarrow> bit d k = bit d 24"
  shows "bl_offset (fst (bl_encode d)) (snd (bl_encode d)) = d"
proof (rule bit_word_eqI)
  fix n assume "n < LENGTH(32)"
  then have n: "n < 32" by simp
  then show "bit (bl_offset (fst (bl_encode d)) (snd (bl_encode d))) n = bit d n"
    using assms(1) assms(2) [rule_format, of n]
    unfolding bl_offset_bits [OF n] bit_cases_32 bl_encode_def Let_def cond_mask_def
    by (elim disjE) (simp_all add: bit_simps numeral_2_eq_2 [symmetric] numeral_3_eq_3 [symmetric])
qed

theorem bl_decode_encode_witness:
  "bl_offset (fst (bl_encode 0xFFFFFFFC)) (snd (bl_encode 0xFFFFFFFC)) = 0xFFFFFFFC"
proof (rule bl_decode_encode)
  have "bit (0xFFFFFFFC :: u32) k" if "24 \<le> k" "k < 32" for k
    using that unfolding bit_cases_32 by (elim disjE) simp_all
  then show "\<forall>k. 24 \<le> k \<and> k < 32 \<longrightarrow> bit (0xFFFFFFFC :: u32) k = bit (0xFFFFFFFC :: u32) 24" by simp
qed simp

section \<open>IT mask\<close>

lemma it_mask_ctz_first:
  "bit msk d \<Longrightarrow> \<forall>j<d. \<not> bit msk j \<Longrightarrow> n + d < 4 \<Longrightarrow> it_mask_ctz msk n = n + d"
proof (induction d arbitrary: msk n)
  case 0
  then show ?case by (subst it_mask_ctz.simps) (simp add: and_1_bit_0)
next
  case (Suc d)
  have "it_mask_ctz (shr msk 1) (n + 1) = n + 1 + d"
    using Suc.prems by (intro Suc.IH) (auto simp: bit_simps)
  then show ?case
    using Suc.prems by (subst it_mask_ctz.simps) (simp add: and_1_bit_0)
qed

text \<open>The block length of an IT mask: four minus the position of its lowest set bit.\<close>

lemma it_mask_len_ctz:
  assumes "msk < 16" "msk \<noteq> 0"
  shows "it_mask_len msk = 4 - of_nat (ctz32 msk)"
proof -
  note p = ctz32_props [OF assms(2)]
  have "ctz32 msk < 4"
  proof (rule ccontr)
    assume "\<not> ctz32 msk < 4"
    moreover have "shr msk 4 = 0"
      using assms(1) by (simp add: drop_bit_eq_div word_unat_eq_iff unat_div word_less_nat_alt)
    then have "\<not> bit msk j" if "4 \<le> j" for j
      using that bit_drop_bit_eq [of 4 msk] by (metis bit_0_eq bot_apply bot_bool_def comp_apply le_add_diff_inverse)
    ultimately show False using p(1) by simp
  qed
  then have "it_mask_ctz msk 0 = 0 + ctz32 msk"
    using p by (intro it_mask_ctz_first) auto
  then show ?thesis by (simp add: it_mask_len_def)
qed

section \<open>Deviations\<close>

text \<open>LSRS with an immediate of zero means a shift by 32, whose carry is the top bit of the
  source. When source and destination are the same register the destination is cleared first,
  so the carry is always clear.\<close>

lemma lsrs_imm32_same_register_loses_carry:
  "bit (cpu_r c 0) 31 \<Longrightarrow> \<not> flag_c (instr_shift_logical_right 0x0800 c)"
  by (simp add: instr_shift_logical_right_def Let_def)

lemma lsrs_imm32_other_register_keeps_carry:
  "bit (cpu_r c 1) 31 \<Longrightarrow> flag_c (instr_shift_logical_right 0x0808 c)"
  by (simp add: instr_shift_logical_right_def Let_def)

text \<open>ADD Rd, PC uses the address of the instruction, MOV Rd, PC the address plus four.\<close>

lemma add_pc_ignores_pipeline_offset:
  "cpu_r (instr_add_reg_high 0x4478 c) 0 = cpu_r c 0 + cpu_r c 15"
  "cpu_r (instr_mov_high_reg 0x4678 c) 0 = (cpu_r c 15 + 4) AND NOT 1"
  by (simp_all add: instr_add_reg_high_def instr_mov_high_reg_def Let_def reg_dst4_def)

text \<open>MSR BASEPRI_MAX accepts a numerically larger value, which lowers the masking level.\<close>

lemma basepri_max_lowers_masking:
  "m33_basepri (instr_msr_32 0 0x12 (set_r 0 0x80 (cpu_zero\<lparr>m33_basepri := 0x40\<rparr>))) = 0x80"
  "m33_basepri (instr_msr_32 0 0x12 (set_r 0 0x40 (cpu_zero\<lparr>m33_basepri := 0x80\<rparr>))) = 0x80"
  by (simp_all add: instr_msr_32_def cpu_zero_def)

end
