(* ===== verification/Exceptions.thy ===== *)
theory Exceptions
  imports Thumb_Alu
begin

unbundle bit_operations_syntax

text \<open>
  Exception entry and return of \<^verbatim>\<open>src/cpu.c\<close>: stacking, the nesting stack that also saves the
  IT state, late arrival, tail-chaining, unstacking and lockup. The diagnostic dump that a lockup
  writes to a host file is not modelled, nor are the latency statistics. Shifting the active-bit
  word by 32 or more, which the C code does for vectors of 64 and above, is undefined in C and
  sets no bit here.
\<close>

section \<open>Marking vectors\<close>

definition is_external :: "u32 \<Rightarrow> bool" where
  "is_external vec \<longleftrightarrow> vec \<ge> 16 \<and> vec - 16 < 64"

definition nv_set_iabr :: "u32 \<Rightarrow> nvic_ctx \<Rightarrow> nvic_ctx" where
  "nv_set_iabr vec c =
     (if is_external vec
      then upd_ns (\<lambda>ns. ns\<lparr>nv_iabr := nvic_bit_set (nv_iabr ns) (vec - 16)\<rparr>) c else c)"

definition nv_clear_iabr :: "u32 \<Rightarrow> nvic_ctx \<Rightarrow> nvic_ctx" where
  "nv_clear_iabr vec c =
     (if is_external vec
      then upd_ns (\<lambda>ns. ns\<lparr>nv_iabr := nvic_bit_clear (nv_iabr ns) (vec - 16)\<rparr>) c else c)"

text \<open>Making the exception \<open>vec\<close> pending again, or no longer pending.\<close>

definition nv_repend :: "u32 \<Rightarrow> nvic_ctx \<Rightarrow> nvic_ctx" where
  "nv_repend vec c =
     (if vec \<ge> 16 \<and> vec \<noteq> EXC_SYSTICK \<and> vec \<noteq> EXC_PENDSV then nvic_set_pending (vec - 16) c
      else if vec = EXC_SYSTICK then upd_st (\<lambda>st. st\<lparr>st_pending := True\<rparr>) c
      else if vec = EXC_PENDSV then upd_ns (\<lambda>ns. ns\<lparr>nv_pendsv_pending := True\<rparr>) c
      else c)"

definition nv_unpend :: "u32 \<Rightarrow> nvic_ctx \<Rightarrow> nvic_ctx" where
  "nv_unpend vec c =
     (if vec \<ge> 16 \<and> vec \<noteq> EXC_SYSTICK \<and> vec \<noteq> EXC_PENDSV then nvic_clear_pending (vec - 16) c
      else if vec = EXC_SYSTICK then upd_st (\<lambda>st. st\<lparr>st_pending := False\<rparr>) c
      else if vec = EXC_PENDSV then upd_ns (\<lambda>ns. ns\<lparr>nv_pendsv_pending := False\<rparr>) c
      else c)"

text \<open>A pending external interrupt or system exception with a priority value below \<open>pri\<close>, in
  the order the code looks; \<open>with_pendsv\<close> says whether PendSV is considered.\<close>

definition preempting_vector :: "bool \<Rightarrow> nvic_ctx \<Rightarrow> u8 \<Rightarrow> u32 option" where
  "preempting_vector with_pendsv c pri =
     (let pending_irq = nvic_get_pending_irq c in
      if pending_irq \<noteq> 0xFFFFFFFF \<and> (nv_priority (nvic_cur c) (unat pending_irq) AND 0xC0) < pri
      then Some (pending_irq + 16)
      else if st_pending (systick_cur c) \<and> nvic_get_exception_priority c EXC_SYSTICK < pri
      then Some EXC_SYSTICK
      else if with_pendsv \<and> nv_pendsv_pending (nvic_cur c) \<and>
              nvic_get_exception_priority c EXC_PENDSV < pri
      then Some EXC_PENDSV
      else None)"

section \<open>Entry\<close>

definition stack_push :: "'b platform \<Rightarrow> (cpu_state \<Rightarrow> u32) \<Rightarrow> u32 \<times> 'b mach \<Rightarrow> u32 \<times> 'b mach" where
  "stack_push p f s = (let (sp, m) = s in (sp - 4, pl_write32 p (sp - 4) (f (m_cpu m)) m))"

definition set_ipsr :: "u32 \<Rightarrow> cpu_state \<Rightarrow> cpu_state" where
  "set_ipsr vec c = c\<lparr>cpu_xpsr := (cpu_xpsr c AND NOT 0x1FF) OR (vec AND 0x1FF)\<rparr>"

definition push_frame :: "'b platform \<Rightarrow> u32 \<Rightarrow> 'b mach \<Rightarrow> 'b mach" where
  "push_frame p vector_num m =
     (let (sp1, m1) = stack_push p cpu_xpsr (reg m 13, m);
          m2 = upd_cpu (set_ipsr vector_num) m1;
          (sp3, m3) = fold (\<lambda>i. stack_push p (\<lambda>c. cpu_r c i)) [15, 14, 12, 3, 2, 1, 0] (sp1, m2)
      in upd_cpu (set_r 13 sp3) m3)"

definition pack_it :: "cpu_state \<Rightarrow> u32" where
  "pack_it c = ucast (cpu_it_base c) OR shl (ucast (cpu_it_mask c)) 4 OR
     shl (ucast (cpu_it_pos c)) 8 OR shl (ucast (cpu_it_len c)) 12"

definition unpack_it :: "u32 \<Rightarrow> cpu_state \<Rightarrow> cpu_state" where
  "unpack_it it c = c\<lparr>cpu_it_base := ucast (it AND 0xF), cpu_it_mask := ucast (shr it 4 AND 0xF),
     cpu_it_pos := ucast (shr it 8 AND 0xF), cpu_it_len := ucast (shr it 12 AND 0xF)\<rparr>"

definition push_nesting :: "'b mach \<Rightarrow> 'b mach" where
  "push_nesting m =
     (let ac = get_active_core m; d = cd_exception_depth (m_cores m ac) in
      if d < 8
      then upd_core ac (\<lambda>k. k\<lparr>
             cd_exception_stack := (cd_exception_stack k)(d := cpu_current_irq (m_cpu m)),
             cd_it_stack := (cd_it_stack k)(d := pack_it (m_cpu m)),
             cd_exception_depth := d + 1\<rparr>) m
      else m)"

definition late_arrival :: "'b platform \<Rightarrow> u32 \<Rightarrow> u32 \<Rightarrow> 'b mach \<Rightarrow> u32 \<times> 'b mach" where
  "late_arrival p vector_num handler_addr m =
     (if cpu_primask (m_cpu m) = 0 \<and> cpu_faultmask (m_cpu m) = 0 then
        (case preempting_vector False (m_nv m) (nvic_get_exception_priority (m_nv m) vector_num) of
           None \<Rightarrow> (handler_addr, m)
         | Some late_vector \<Rightarrow>
             (let m1 = upd_nv (upd_ns (nvic_exc_clear vector_num)) m;
                  m2 = upd_nv (nv_clear_iabr vector_num) m1;
                  m3 = upd_nv (nv_repend vector_num) m2;
                  m4 = upd_nv (nv_unpend late_vector) m3;
                  m5 = upd_cpu (\<lambda>c. c\<lparr>cpu_current_irq := late_vector\<rparr>) m4;
                  m6 = upd_nv (upd_ns (nvic_exc_set late_vector)) m5;
                  m7 = upd_nv (nv_set_iabr late_vector) m6;
                  (h, m8) = pl_read32 p (cpu_vtor (m_cpu m7) + late_vector * 4) m7
              in (h, upd_cpu (set_ipsr late_vector) m8)))
      else (handler_addr, m))"

definition cpu_exception_entry :: "'b platform \<Rightarrow> u32 \<Rightarrow> 'b mach \<Rightarrow> 'b mach" where
  "cpu_exception_entry p vector_num m =
     (let ac = get_active_core m;
          (handler_addr, m0) = pl_read32 p (cpu_vtor (m_cpu m) + vector_num * 4) m in
      if vector_num = EXC_HARDFAULT \<and> cpu_current_irq (m_cpu m0) = EXC_HARDFAULT then
        upd_cpu (set_r 15 0xFFFFFFFF) (upd_core ac (\<lambda>k. k\<lparr>cd_is_halted := True\<rparr>) m0)
      else
        let m1 = upd_nv (upd_ns (nvic_exc_set vector_num)) m0;
            m2 = push_nesting m1;
            m3 = upd_cpu it_clear m2;
            m4 = arm_excl_clear (int (get_active_core m3)) m3;
            m5 = upd_cpu (\<lambda>c. c\<lparr>cpu_current_irq := vector_num\<rparr>) m4;
            m6 = upd_nv (nv_set_iabr vector_num) m5;
            m7 = push_frame p vector_num m6;
            (handler, m8) = late_arrival p vector_num handler_addr m7
        in upd_cpu (\<lambda>c. set_r 14 0xFFFFFFF9 (set_r 15 (handler AND NOT 1) c)) m8)"

section \<open>Return\<close>

text \<open>Tail-chaining: the next exception is entered without unstacking.\<close>

definition tail_chain :: "'b platform \<Rightarrow> u32 \<Rightarrow> 'b mach \<Rightarrow> 'b mach" where
  "tail_chain p tail_vector m =
     (let cur_vec = cpu_current_irq (m_cpu m);
          m1 = upd_nv (nv_clear_iabr cur_vec) m;
          m2 = upd_nv (upd_ns (nvic_exc_clear cur_vec)) m1;
          m3 = upd_nv (nv_unpend tail_vector) m2;
          m4 = upd_cpu (\<lambda>c. c\<lparr>cpu_current_irq := tail_vector\<rparr>) m3;
          m5 = upd_nv (upd_ns (nvic_exc_set tail_vector)) m4;
          m6 = upd_nv (nv_set_iabr tail_vector) m5;
          (handler, m7) = pl_read32 p (cpu_vtor (m_cpu m6) + tail_vector * 4) m6
      in upd_cpu (\<lambda>c. set_ipsr tail_vector (set_r 14 0xFFFFFFF9 (set_r 15 (handler AND NOT 1) c))) m7)"

definition return_priority :: "'b mach \<Rightarrow> u8" where
  "return_priority m =
     (let k = m_cores m (get_active_core m); d = cd_exception_depth k in
      if d > 0 then
        (let prev_irq = cd_exception_stack k (d - 1) in
         if prev_irq \<noteq> 0xFFFFFFFF then nvic_get_exception_priority (m_nv m) prev_irq else 0xFF)
      else 0xFF)"

definition pop_frame :: "'b platform \<Rightarrow> 'b mach \<Rightarrow> 'b mach" where
  "pop_frame p m =
     (let sp = reg m 13;
          (r0, m) = pl_read32 p sp m;
          (r1, m) = pl_read32 p (sp + 4) m;
          (r2, m) = pl_read32 p (sp + 8) m;
          (r3, m) = pl_read32 p (sp + 12) m;
          (r12, m) = pl_read32 p (sp + 16) m;
          (lr, m) = pl_read32 p (sp + 20) m;
          (pc, m) = pl_read32 p (sp + 24) m;
          (xpsr, m) = pl_read32 p (sp + 28) m
      in upd_cpu (\<lambda>c. (set_r 15 (pc AND NOT 1) (set_r 14 lr (set_r 13 (sp + 32) (set_r 12 r12
           (set_r 3 r3 (set_r 2 r2 (set_r 1 r1 (set_r 0 r0 c))))))))\<lparr>cpu_xpsr := xpsr\<rparr>) m)"

definition pop_nesting :: "'b mach \<Rightarrow> 'b mach" where
  "pop_nesting m =
     (let ac = get_active_core m; vector_num = cpu_current_irq (m_cpu m) in
      if vector_num \<noteq> 0xFFFFFFFF then
        let m1 = upd_nv (nv_clear_iabr vector_num) m;
            m2 = upd_nv (upd_ns (nvic_exc_clear vector_num)) m1;
            d = cd_exception_depth (m_cores m2 ac)
        in if d > 0 then
             let m3 = upd_core ac (\<lambda>k. k\<lparr>cd_exception_depth := d - 1\<rparr>) m2;
                 k = m_cores m3 ac
             in upd_cpu (\<lambda>c. unpack_it (cd_it_stack k (d - 1))
                   (c\<lparr>cpu_current_irq := cd_exception_stack k (d - 1)\<rparr>)) m3
           else upd_cpu (\<lambda>c. c\<lparr>cpu_current_irq := 0xFFFFFFFF\<rparr>) m2
      else m)"

definition cpu_exception_return :: "'b platform \<Rightarrow> u32 \<Rightarrow> 'b mach \<Rightarrow> 'b mach" where
  "cpu_exception_return p lr_value m =
     (let return_mode = lr_value AND 0x0F in
      if return_mode = 0x9 \<or> return_mode = 0x1 \<or> return_mode = 0xD then
        case (if cpu_primask (m_cpu m) = 0 \<and> cpu_faultmask (m_cpu m) = 0
              then preempting_vector True (m_nv m) (return_priority m) else None) of
          Some tail_vector \<Rightarrow> tail_chain p tail_vector m
        | None \<Rightarrow> upd_cpu (\<lambda>c. c\<lparr>cpu_faultmask := 0\<rparr>) (pop_nesting (pop_frame p m))
      else m)"

section \<open>The contract of the memory bus\<close>

text \<open>
  What stacking relies on: inside the RAM window the bus operations of a platform are a read and
  a write of words of the bus state. Outside the bus a store may only drop reservations and cached
  code.
\<close>

definition apart :: "u32 \<Rightarrow> u32 \<Rightarrow> bool" where
  "apart a c \<longleftrightarrow> unat a + 4 \<le> unat c \<or> unat c + 4 \<le> unat a"

text \<open>Equal in everything but the bus state, the exclusive monitors and the code caches.\<close>

definition same_but_bus :: "'b mach \<Rightarrow> 'b mach \<Rightarrow> bool" where
  "same_but_bus m m' \<longleftrightarrow> m' = m\<lparr>m_bus := m_bus m', m_excl_valid := m_excl_valid m',
     m_icache := m_icache m', m_jit_cache := m_jit_cache m'\<rparr>"

lemma same_but_bus_refl [simp]: "same_but_bus m m"
  by (simp add: same_but_bus_def)

lemma same_but_bus_trans: "same_but_bus a b \<Longrightarrow> same_but_bus b c \<Longrightarrow> same_but_bus a c"
  unfolding same_but_bus_def by (cases a; cases b; cases c) simp

lemma same_but_bus_fields:
  "same_but_bus m m' \<Longrightarrow> m_cpu m' = m_cpu m \<and> m_cores m' = m_cores m \<and> m_nv m' = m_nv m"
  unfolding same_but_bus_def by (cases m; cases m') simp

lemma unat_sub_numeral:
  fixes sp :: u32
  assumes "k \<le> unat sp"
  shows "unat (sp - of_nat k) = unat sp - k"
  using assms by (rule unat_minus_of_nat)

locale ram_bus =
  fixes p :: "'b platform"
    and rd :: "u32 \<Rightarrow> 'b \<Rightarrow> u32"
    and wr :: "u32 \<Rightarrow> u32 \<Rightarrow> 'b \<Rightarrow> 'b"
    and in_ram :: "u32 \<Rightarrow> 'b \<Rightarrow> bool"
  assumes read_ram: "in_ram a (m_bus m) \<Longrightarrow> pl_read32 p a m = (rd a (m_bus m), m)"
    and write_ram: "in_ram a (m_bus m) \<Longrightarrow> m_bus (pl_write32 p a v m) = wr a v (m_bus m)"
    and write_same: "in_ram a (m_bus m) \<Longrightarrow> same_but_bus m (pl_write32 p a v m)"
    and in_ram_wr: "in_ram a b \<Longrightarrow> in_ram c (wr a v b) = in_ram c b"
    and rd_wr: "in_ram a b \<Longrightarrow> rd a (wr a v b) = v"
    and rd_wr_apart: "in_ram a b \<Longrightarrow> in_ram c b \<Longrightarrow> apart a c \<Longrightarrow> rd c (wr a v b) = rd c b"
begin

text \<open>Pushing a list of words: the first one ends up highest, nothing at or above the old top
  changes.\<close>

lemma stack_push_list:
  assumes "4 * length fs \<le> unat sp"
    and "\<forall>i < length fs. in_ram (sp - of_nat (4 * Suc i)) (m_bus m)"
  shows "\<exists>m'. fold (stack_push p) fs (sp, m) = (sp - of_nat (4 * length fs), m') \<and>
     same_but_bus m m' \<and> (\<forall>a. in_ram a (m_bus m') = in_ram a (m_bus m)) \<and>
     (\<forall>i < length fs. rd (sp - of_nat (4 * Suc i)) (m_bus m') = (fs ! i) (m_cpu m)) \<and>
     (\<forall>a. in_ram a (m_bus m) \<longrightarrow> unat sp \<le> unat a \<longrightarrow> rd a (m_bus m') = rd a (m_bus m))"
  using assms
proof (induction fs arbitrary: sp m)
  case Nil
  then show ?case by simp
next
  case (Cons f fs)
  define sp1 where "sp1 = sp - 4"
  define m1 where "m1 = pl_write32 p sp1 (f (m_cpu m)) m"
  have ram1: "in_ram sp1 (m_bus m)" using Cons.prems(2) by (auto simp: sp1_def)
  have step: "stack_push p f (sp, m) = (sp1, m1)"
    by (simp add: stack_push_def sp1_def m1_def)
  have sub: "sp1 - of_nat (4 * Suc i) = sp - of_nat (4 * Suc (Suc i))" for i
    by (simp add: sp1_def algebra_simps)
  have usp1: "unat sp1 = unat sp - 4"
    using Cons.prems(1) unat_sub_numeral [of 4 sp] by (simp add: sp1_def)
  have m1: "m_bus m1 = wr sp1 (f (m_cpu m)) (m_bus m)" "m_cpu m1 = m_cpu m"
    "same_but_bus m m1" "in_ram a (m_bus m1) = in_ram a (m_bus m)" for a
    using ram1 same_but_bus_fields [OF write_same [OF ram1]]
    by (simp_all add: m1_def in_ram_wr write_ram write_same)
  have room: "4 * length fs \<le> unat sp1" using Cons.prems(1) by (simp add: usp1)
  have ram: "\<forall>i < length fs. in_ram (sp1 - of_nat (4 * Suc i)) (m_bus m1)"
    using Cons.prems(2) unfolding sub m1(4) by auto
  obtain m' where m': "fold (stack_push p) fs (sp1, m1) = (sp1 - of_nat (4 * length fs), m')"
      "same_but_bus m1 m'" "\<forall>a. in_ram a (m_bus m') = in_ram a (m_bus m1)"
      "\<forall>i < length fs. rd (sp1 - of_nat (4 * Suc i)) (m_bus m') = (fs ! i) (m_cpu m1)"
      "\<forall>a. in_ram a (m_bus m1) \<longrightarrow> unat sp1 \<le> unat a \<longrightarrow> rd a (m_bus m') = rd a (m_bus m1)"
    using Cons.IH [OF room ram] by blast
  have top: "rd sp1 (m_bus m') = f (m_cpu m)"
    using m'(5) [rule_format, of sp1] ram1 m1(4) [of sp1] rd_wr [OF ram1] by (simp add: m1(1))
  have above: "rd a (m_bus m') = rd a (m_bus m)"
    if "in_ram a (m_bus m)" "unat sp \<le> unat a" for a
  proof -
    have "apart sp1 a" using that(2) Cons.prems(1) by (simp add: apart_def usp1)
    then show ?thesis
      using m'(5) [rule_format, of a] that m1(4) [of a] usp1 rd_wr_apart [OF ram1 that(1)]
      by (simp add: m1(1))
  qed
  have words: "rd (sp - of_nat (4 * Suc i)) (m_bus m') = ((f # fs) ! i) (m_cpu m)"
    if "i < length (f # fs)" for i
  proof (cases i)
    case 0
    then show ?thesis using top by (simp add: sp1_def)
  next
    case (Suc j)
    then show ?thesis
      using m'(4) [rule_format, of j] that unfolding sub m1(2) by simp
  qed
  have "sp1 - of_nat (4 * length fs) = sp - of_nat (4 * length (f # fs))"
    by (simp add: sp1_def algebra_simps)
  then show ?case
    using m'(1) m'(3) same_but_bus_trans [OF m1(3) m'(2)] above words
    by (intro exI [of _ m']) (simp add: step m1(4))
qed

end
text \<open>The eight words of an exception frame: what is stacked, and what lies at an address.\<close>

definition frame_of :: "cpu_state \<Rightarrow> u32 list" where
  "frame_of c = map (cpu_r c) [0, 1, 2, 3, 12, 14, 15] @ [cpu_xpsr c]"

definition frame_at :: "(u32 \<Rightarrow> 'b \<Rightarrow> u32) \<Rightarrow> u32 \<Rightarrow> 'b \<Rightarrow> u32 list" where
  "frame_at rd sp b = map (\<lambda>i. rd (sp + of_nat (4 * i)) b) [0..<8]"

definition frame_room :: "(u32 \<Rightarrow> 'b \<Rightarrow> bool) \<Rightarrow> u32 \<Rightarrow> 'b \<Rightarrow> bool" where
  "frame_room in_ram sp b \<longleftrightarrow> list_all (\<lambda>i. in_ram (sp + of_nat (4 * i)) b) [0..<8]"

text \<open>Loading the registers of a frame, as \<open>pop_frame\<close> does.\<close>

definition load_frame :: "u32 list \<Rightarrow> cpu_state \<Rightarrow> cpu_state" where
  "load_frame ws c = (set_r 15 (ws ! 6 AND NOT 1) (set_r 14 (ws ! 5) (set_r 13 (cpu_r c 13 + 32)
     (set_r 12 (ws ! 4) (set_r 3 (ws ! 3) (set_r 2 (ws ! 2) (set_r 1 (ws ! 1)
       (set_r 0 (ws ! 0) c))))))))\<lparr>cpu_xpsr := ws ! 7\<rparr>"

lemma upt_0_8: "[0..<8] = [0, 1, 2, 3, 4, 5, 6, 7 :: nat]"
  by (simp add: upt_rec)

lemma less_8_cases: "(n :: nat) < 8 \<longleftrightarrow> n \<in> {0, 1, 2, 3, 4, 5, 6, 7}"
  unfolding insert_iff empty_iff by arith

lemma frame_offsets:
  fixes sp :: u32
  shows "sp - 32 + of_nat 4 * of_nat 0 = sp - 32" "sp - 32 + of_nat 4 * of_nat 1 = sp - 28"
    "sp - 32 + of_nat 4 * of_nat 2 = sp - 24" "sp - 32 + of_nat 4 * of_nat 3 = sp - 20"
    "sp - 32 + of_nat 4 * of_nat 4 = sp - 16" "sp - 32 + of_nat 4 * of_nat 5 = sp - 12"
    "sp - 32 + of_nat 4 * of_nat 6 = sp - 8" "sp - 32 + of_nat 4 * of_nat 7 = sp - 4"
  by simp_all

context ram_bus
begin

lemma push_frame_ram:
  assumes sp: "reg m 13 = sp" and low: "32 \<le> unat sp"
    and room: "frame_room in_ram (sp - 32) (m_bus m)"
  shows "\<exists>m'. push_frame p vec m = m' \<and> m_cpu m' = set_r 13 (sp - 32) (set_ipsr vec (m_cpu m)) \<and>
     m_cores m' = m_cores m \<and> m_nv m' = m_nv m \<and>
     (\<forall>a. in_ram a (m_bus m') = in_ram a (m_bus m)) \<and>
     frame_at rd (sp - 32) (m_bus m') = frame_of (m_cpu m)"
proof -
  let ?fs = "map (\<lambda>i (c :: cpu_state). cpu_r c i) [15, 14, 12, 3, 2, 1, 0]"
  define sp1 where "sp1 = sp - 4"
  have ram: "in_ram (sp - of_nat (4 * Suc i)) (m_bus m)" if "i < 8" for i
    using room that by (auto simp: frame_room_def upt_0_8 less_8_cases algebra_simps)
  have usp1: "unat sp1 = unat sp - 4"
    using low unat_sub_numeral [of 4 sp] by (simp add: sp1_def)
  obtain m1 where m1: "fold (stack_push p) [cpu_xpsr] (sp, m) = (sp1, m1)" "same_but_bus m m1"
      "\<forall>a. in_ram a (m_bus m1) = in_ram a (m_bus m)" "rd sp1 (m_bus m1) = cpu_xpsr (m_cpu m)"
    using stack_push_list [of "[cpu_xpsr]" sp m] low ram [of 0] by (auto simp: sp1_def)
  define m2 where "m2 = upd_cpu (set_ipsr vec) m1"
  have ram2: "\<forall>i < length ?fs. in_ram (sp1 - of_nat (4 * Suc i)) (m_bus m2)"
    using ram [of "Suc _"] m1(3) by (auto simp: sp1_def m2_def algebra_simps)
  have room2: "4 * length ?fs \<le> unat sp1" using low by (simp add: usp1)
  obtain m3 where m3: "fold (stack_push p) ?fs (sp1, m2) = (sp1 - of_nat (4 * length ?fs), m3)"
      "same_but_bus m2 m3" "\<forall>a. in_ram a (m_bus m3) = in_ram a (m_bus m2)"
      "\<forall>i < length ?fs. rd (sp1 - of_nat (4 * Suc i)) (m_bus m3) = (?fs ! i) (m_cpu m2)"
      "\<forall>a. in_ram a (m_bus m2) \<longrightarrow> unat sp1 \<le> unat a \<longrightarrow> rd a (m_bus m3) = rd a (m_bus m2)"
    using stack_push_list [OF room2 ram2] by (elim exE conjE) (rule that)
  have top: "rd sp1 (m_bus m3) = cpu_xpsr (m_cpu m)"
    using m3(5) [rule_format, of sp1] m1(3,4) ram [of 0] by (simp add: m2_def sp1_def)
  have regs: "cpu_r (m_cpu m2) = cpu_r (m_cpu m)"
    using same_but_bus_fields [OF m1(2)] by (simp add: m2_def set_ipsr_def)
  have w: "rd (sp - 4 * of_nat (Suc (Suc i))) (m_bus m3) = (?fs ! i) (m_cpu m2)" if "i < 7" for i
    using m3(4) [rule_format, of i] that by (simp add: sp1_def algebra_simps)
  have "frame_at rd (sp - 32) (m_bus m3) = frame_of (m_cpu m)"
    unfolding frame_at_def frame_of_def upt_0_8 list.map append.simps of_nat_mult frame_offsets
    using top w [of 0] w [of 1] w [of 2] w [of 3] w [of 4] w [of 5] w [of 6]
    by (simp add: sp1_def regs)
  moreover have "push_frame p vec m = upd_cpu (set_r 13 (sp - 32)) m3"
    using m1(1) m3(1) by (simp add: push_frame_def sp m2_def fold_map comp_def sp1_def)
  ultimately show ?thesis
    using m3(3) m1(3) same_but_bus_fields [OF m1(2)] same_but_bus_fields [OF m3(2)]
    by (simp add: m2_def)
qed

lemma pop_frame_ram:
  assumes "reg m 13 = sp" "frame_room in_ram sp (m_bus m)"
  shows "pop_frame p m = upd_cpu (load_frame (frame_at rd sp (m_bus m))) m"
  using assms
  by (simp add: pop_frame_def load_frame_def frame_at_def frame_room_def upt_0_8 read_ram upd_cpu_def)

end
section \<open>Entry and return are inverse\<close>

text \<open>Nothing pending may preempt at priority \<open>pri\<close>.\<close>

definition undisturbed :: "bool \<Rightarrow> u8 \<Rightarrow> 'b mach \<Rightarrow> bool" where
  "undisturbed with_pendsv pri m \<longleftrightarrow>
     \<not> (cpu_primask (m_cpu m) = 0 \<and> cpu_faultmask (m_cpu m) = 0) \<or>
     preempting_vector with_pendsv (m_nv m) pri = None"

text \<open>The top of the nesting stack of the active core: its depth, the saved vector and the saved
  IT state.\<close>

definition nesting_top :: "'b mach \<Rightarrow> nat \<times> u32 \<times> u32" where
  "nesting_top m =
     (let k = m_cores m (get_active_core m); d = cd_exception_depth k
      in (d, cd_exception_stack k (d - 1), cd_it_stack k (d - 1)))"

text \<open>A handler that starts in \<open>m1\<close> and ends in \<open>m2\<close> and leaves the stack as it found it.\<close>

definition handler_balanced :: "(u32 \<Rightarrow> 'b \<Rightarrow> u32) \<Rightarrow> 'b mach \<Rightarrow> 'b mach \<Rightarrow> bool" where
  "handler_balanced rd m1 m2 \<longleftrightarrow>
     nesting_top m2 = nesting_top m1 \<and> reg m2 13 = reg m1 13 \<and>
     cpu_current_irq (m_cpu m2) = cpu_current_irq (m_cpu m1) \<and>
     frame_at rd (reg m1 13) (m_bus m2) = frame_at rd (reg m1 13) (m_bus m1)"

definition it_fields_ok :: "cpu_state \<Rightarrow> bool" where
  "it_fields_ok c \<longleftrightarrow> cpu_it_base c < 16 \<and> cpu_it_mask c < 16 \<and> cpu_it_pos c < 16 \<and> cpu_it_len c < 16"

lemma nibble_bit: "(x :: u8) < 16 \<Longrightarrow> bit x n \<Longrightarrow> n < 4"
proof -
  assume "x < 16" and b: "bit x n"
  then have "unat x < 2 ^ 4" by (simp add: word_less_nat_alt)
  then have "take_bit 4 (unat x) = unat x" by (simp add: take_bit_nat_eq_self)
  then have "bit (unat x) n \<longleftrightarrow> n < 4 \<and> bit (unat x) n" by (metis bit_take_bit_iff)
  then show ?thesis using b by (simp add: bit_unsigned_iff)
qed

lemma unpack_pack_it:
  assumes "it_fields_ok c"
  shows "unpack_it (pack_it c) c' = c'\<lparr>cpu_it_base := cpu_it_base c, cpu_it_mask := cpu_it_mask c,
     cpu_it_pos := cpu_it_pos c, cpu_it_len := cpu_it_len c\<rparr>"
proof -
  have b: "bit (cpu_it_base c) n \<Longrightarrow> n < 4" "bit (cpu_it_mask c) n \<Longrightarrow> n < 4"
    "bit (cpu_it_pos c) n \<Longrightarrow> n < 4" "bit (cpu_it_len c) n \<Longrightarrow> n < 4" for n
    using assms by (auto simp: it_fields_ok_def dest: nibble_bit)
  then have nb: "\<not> bit (cpu_it_base c) (8 + n)" "\<not> bit (cpu_it_base c) (12 + n)"
    "\<not> bit (cpu_it_mask c) (4 + n)" "\<not> bit (cpu_it_mask c) (8 + n)" "\<not> bit (cpu_it_pos c) (4 + n)" for n
    by fastforce+
  have "ucast (pack_it c AND 0xF) = cpu_it_base c" "ucast (shr (pack_it c) 4 AND 0xF) = cpu_it_mask c"
    "ucast (shr (pack_it c) 8 AND 0xF) = cpu_it_pos c"
    "ucast (shr (pack_it c) 12 AND 0xF) = cpu_it_len c"
    unfolding pack_it_def numeral_masks
    by (auto intro!: bit_word_eqI simp: bit_simps nb dest: b)
  then show ?thesis by (simp add: unpack_it_def)
qed

lemma arm_excl_clear_fields [simp]:
  "m_cpu (arm_excl_clear k m) = m_cpu m" "m_cores (arm_excl_clear k m) = m_cores m"
  "m_nv (arm_excl_clear k m) = m_nv m" "m_bus (arm_excl_clear k m) = m_bus m"
  by (simp_all add: arm_excl_clear_def)

lemma push_nesting_fields [simp]:
  "m_cpu (push_nesting m) = m_cpu m" "m_nv (push_nesting m) = m_nv m"
  "m_bus (push_nesting m) = m_bus m"
  by (simp_all add: push_nesting_def Let_def)

lemma active_core_marks [simp]:
  "active_core (upd_ns f c) = active_core c" "active_core (upd_st g c) = active_core c"
  "active_core (nv_set_iabr vec c) = active_core c" "active_core (nv_clear_iabr vec c) = active_core c"
  by (simp_all add: upd_ns_def upd_st_def nv_set_iabr_def nv_clear_iabr_def)

lemma it_clear_fields [simp]:
  "cpu_r (it_clear c) = cpu_r c" "cpu_xpsr (it_clear c) = cpu_xpsr c"
  "cpu_primask (it_clear c) = cpu_primask c" "cpu_faultmask (it_clear c) = cpu_faultmask c"
  "cpu_current_irq (it_clear c) = cpu_current_irq c" "cpu_vtor (it_clear c) = cpu_vtor c"
  by (simp_all add: it_clear_def)

lemma set_ipsr_fields [simp]:
  "cpu_r (set_ipsr v c) = cpu_r c" "cpu_primask (set_ipsr v c) = cpu_primask c"
  "cpu_faultmask (set_ipsr v c) = cpu_faultmask c" "cpu_current_irq (set_ipsr v c) = cpu_current_irq c"
  by (simp_all add: set_ipsr_def)

text \<open>The interrupt controller with \<open>vec\<close> marked active.\<close>

definition mark_active :: "u32 \<Rightarrow> nvic_ctx \<Rightarrow> nvic_ctx" where
  "mark_active vec c = nv_set_iabr vec (upd_ns (nvic_exc_set vec) c)"

definition entered_cpu :: "u32 \<Rightarrow> u32 \<Rightarrow> cpu_state \<Rightarrow> cpu_state" where
  "entered_cpu vec h c = set_r 14 0xFFFFFFF9 (set_r 15 (h AND NOT 1) (set_r 13 (cpu_r c 13 - 32)
     (set_ipsr vec ((it_clear c)\<lparr>cpu_current_irq := vec\<rparr>))))"

context ram_bus
begin

text \<open>Entry without late arrival.\<close>

lemma entry_ram:
  assumes fetch: "pl_read32 p (cpu_vtor (m_cpu m) + vec * 4) m = (h, m)"
    and lock: "\<not> (vec = EXC_HARDFAULT \<and> cpu_current_irq (m_cpu m) = EXC_HARDFAULT)"
    and low: "32 \<le> unat (reg m 13)" and room: "frame_room in_ram (reg m 13 - 32) (m_bus m)"
    and und: "undisturbed False (nvic_get_exception_priority (mark_active vec (m_nv m)) vec)
                (upd_nv (mark_active vec) m)"
  shows "\<exists>m'. cpu_exception_entry p vec m = m' \<and> m_cpu m' = entered_cpu vec h (m_cpu m) \<and>
     m_cores m' = m_cores (push_nesting m) \<and> m_nv m' = mark_active vec (m_nv m) \<and>
     frame_room in_ram (reg m 13 - 32) (m_bus m') \<and>
     frame_at rd (reg m 13 - 32) (m_bus m') = frame_of (m_cpu m)"
proof -
  define m6 where "m6 = upd_nv (nv_set_iabr vec) (upd_cpu (\<lambda>c. c\<lparr>cpu_current_irq := vec\<rparr>)
    (arm_excl_clear (int (get_active_core m)) (upd_cpu it_clear
      (push_nesting (upd_nv (upd_ns (nvic_exc_set vec)) m)))))"
  have m6: "m_cpu m6 = (it_clear (m_cpu m))\<lparr>cpu_current_irq := vec\<rparr>" "m_bus m6 = m_bus m"
    "m_nv m6 = mark_active vec (m_nv m)" "m_cores m6 = m_cores (push_nesting m)"
    by (simp_all add: m6_def mark_active_def push_nesting_def Let_def)
  obtain m7 where m7: "push_frame p vec m6 = m7"
      "m_cpu m7 = set_r 13 (reg m6 13 - 32) (set_ipsr vec (m_cpu m6))" "m_cores m7 = m_cores m6"
      "m_nv m7 = m_nv m6" "\<forall>a. in_ram a (m_bus m7) = in_ram a (m_bus m6)"
      "frame_at rd (reg m6 13 - 32) (m_bus m7) = frame_of (m_cpu m6)"
    using push_frame_ram [of m6 "reg m6 13" vec] low room by (auto simp: m6)
  have "late_arrival p vec h m7 = (h, m7)"
    using und by (auto simp: late_arrival_def undisturbed_def m7 m6)
  moreover have "cpu_exception_entry p vec m =
      (case late_arrival p vec h (push_frame p vec m6) of
         (handler, m8) \<Rightarrow> upd_cpu (\<lambda>c. set_r 14 0xFFFFFFF9 (set_r 15 (handler AND NOT 1) c)) m8)"
    using lock by (auto simp: cpu_exception_entry_def fetch Let_def m6_def split_beta)
  ultimately show ?thesis
    using m7 room by (simp add: m6 entered_cpu_def frame_room_def frame_of_def)
qed

text \<open>Return without tail-chaining.\<close>

lemma return_ram:
  assumes mode: "lr AND 0xF \<in> {0x1, 0x9, 0xD}" and und: "undisturbed True (return_priority m) m"
    and room: "frame_room in_ram (reg m 13) (m_bus m)"
  shows "cpu_exception_return p lr m = upd_cpu (\<lambda>c. c\<lparr>cpu_faultmask := 0\<rparr>)
     (pop_nesting (upd_cpu (load_frame (frame_at rd (reg m 13) (m_bus m))) m))"
  using assms
  by (auto simp: cpu_exception_return_def undisturbed_def pop_frame_ram)

text \<open>A handler entered in \<open>m\<close> that leaves its frame alone returns to the interrupted code: the
  stacked registers, the flags, the stack pointer, the predication state and the interrupted
  vector are those of \<open>m\<close>; the other registers are those the handler left.\<close>

lemma entry_return:
  assumes fetch: "pl_read32 p (cpu_vtor (m_cpu m) + vec * 4) m = (h, m)"
    and lock: "\<not> (vec = EXC_HARDFAULT \<and> cpu_current_irq (m_cpu m) = EXC_HARDFAULT)"
    and vec: "vec \<noteq> 0xFFFFFFFF"
    and low: "32 \<le> unat (reg m 13)" and room: "frame_room in_ram (reg m 13 - 32) (m_bus m)"
    and und: "undisturbed False (nvic_get_exception_priority (mark_active vec (m_nv m)) vec)
                (upd_nv (mark_active vec) m)"
    and depth: "cd_exception_depth (m_cores m (get_active_core m)) < 8"
    and it: "it_fields_ok (m_cpu m)"
    and bal: "handler_balanced rd (cpu_exception_entry p vec m) m2"
    and room2: "frame_room in_ram (reg m2 13) (m_bus m2)"
    and mode: "lr AND 0xF \<in> {0x1, 0x9, 0xD}" and und2: "undisturbed True (return_priority m2) m2"
    and m3: "m3 = cpu_exception_return p lr m2"
  shows "m_cpu m3 = (m_cpu m2)\<lparr>cpu_xpsr := cpu_xpsr (m_cpu m), cpu_faultmask := 0,
      cpu_r := (\<lambda>i. if i \<in> {0, 1, 2, 3, 12, 13, 14} then reg m i
                   else if i = 15 then reg m 15 AND NOT 1 else reg m2 i),
      cpu_current_irq := cpu_current_irq (m_cpu m),
      cpu_it_base := cpu_it_base (m_cpu m), cpu_it_mask := cpu_it_mask (m_cpu m),
      cpu_it_pos := cpu_it_pos (m_cpu m), cpu_it_len := cpu_it_len (m_cpu m)\<rparr> \<and>
    cd_exception_depth (m_cores m3 (get_active_core m2)) =
      cd_exception_depth (m_cores m (get_active_core m))"
proof -
  define m1 where "m1 = cpu_exception_entry p vec m"
  have m1: "m_cpu m1 = entered_cpu vec h (m_cpu m)" "m_cores m1 = m_cores (push_nesting m)"
    "m_nv m1 = mark_active vec (m_nv m)"
    "frame_at rd (reg m 13 - 32) (m_bus m1) = frame_of (m_cpu m)"
    using entry_ram [OF fetch lock low room und] by (simp_all add: m1_def)
  have sp1: "reg m1 13 = reg m 13 - 32" by (simp add: m1 entered_cpu_def)
  have top1: "nesting_top m1 = (Suc (cd_exception_depth (m_cores m (get_active_core m))),
      cpu_current_irq (m_cpu m), pack_it (m_cpu m))"
    using depth by (simp add: nesting_top_def m1 push_nesting_def mark_active_def Let_def)
  have b: "nesting_top m2 = nesting_top m1" "reg m2 13 = reg m 13 - 32"
    "cpu_current_irq (m_cpu m2) = vec" "frame_at rd (reg m2 13) (m_bus m2) = frame_of (m_cpu m)"
    using bal by (simp_all add: handler_balanced_def m1_def [symmetric] sp1 m1(4))
      (simp_all add: m1 entered_cpu_def)
  have r: "m3 = upd_cpu (\<lambda>c. c\<lparr>cpu_faultmask := 0\<rparr>)
      (pop_nesting (upd_cpu (load_frame (frame_of (m_cpu m))) m2))"
    unfolding m3 return_ram [OF mode und2 room2] b(4) ..
  have irq: "cpu_current_irq (load_frame ws (m_cpu m2)) = vec" for ws
    by (simp add: load_frame_def b(3))
  let ?k = "m_cores m2 (get_active_core m2)" and ?d = "cd_exception_depth (m_cores m (get_active_core m))"
  have d2: "cd_exception_depth ?k = Suc ?d" "cd_exception_stack ?k ?d = cpu_current_irq (m_cpu m)"
    "cd_it_stack ?k ?d = pack_it (m_cpu m)"
    using b(1) [unfolded top1] unfolding nesting_top_def Let_def by auto
  have regs: "cpu_r (load_frame (frame_of (m_cpu m)) (m_cpu m2)) =
      (\<lambda>i. if i \<in> {0, 1, 2, 3, 12, 13, 14} then reg m i
           else if i = 15 then reg m 15 AND NOT 1 else reg m2 i)"
    by (auto simp: load_frame_def frame_of_def b(2))
  have "load_frame (frame_of (m_cpu m)) (m_cpu m2) = (m_cpu m2)\<lparr>cpu_xpsr := cpu_xpsr (m_cpu m),
      cpu_r := cpu_r (load_frame (frame_of (m_cpu m)) (m_cpu m2))\<rparr>"
    by (simp add: load_frame_def set_r_def frame_of_def)
  then show ?thesis
    using vec unfolding r
    by (simp add: pop_nesting_def Let_def irq b(3) d2 unpack_pack_it [OF it] regs)
qed

end

section \<open>Limits of the nesting stack and of late arrival\<close>

text \<open>The nesting stack has eight entries. An entry at depth 8 records nothing, but its return
  still pops, so the vector reported afterwards is the one saved a level further out.\<close>

lemma nesting_overflow_loses_vector:
  assumes "cd_exception_depth (m_cores m (get_active_core m)) = 8" "vec \<noteq> 0xFFFFFFFF"
  shows "cpu_current_irq (m_cpu (pop_nesting
      (upd_cpu (\<lambda>c. c\<lparr>cpu_current_irq := vec\<rparr>) (push_nesting m)))) =
    cd_exception_stack (m_cores m (get_active_core m)) 7"
  using assms by (simp add: push_nesting_def pop_nesting_def Let_def unpack_it_def)

text \<open>Below that limit the two operations are inverse on the vector and the depth.\<close>

lemma nesting_push_pop:
  assumes "cd_exception_depth (m_cores m (get_active_core m)) < 8" "vec \<noteq> 0xFFFFFFFF"
  shows "cpu_current_irq (m_cpu (pop_nesting
      (upd_cpu (\<lambda>c. c\<lparr>cpu_current_irq := vec\<rparr>) (push_nesting m)))) = cpu_current_irq (m_cpu m)"
  using assms by (simp add: push_nesting_def pop_nesting_def Let_def unpack_it_def)

text \<open>Late arrival makes an external interrupt, SysTick or PendSV pending again, but not an
  SVCall: the call is lost.\<close>

lemma late_arrival_drops_svcall: "nv_repend EXC_SVCALL c = c"
  by (simp add: nv_repend_def)

end
