(* ===== verification/Thumb.thy ===== *)
theory Thumb
  imports Exceptions
begin

unbundle bit_operations_syntax

text \<open>
  The 16-bit Thumb instructions that reach beyond the registers (\<^verbatim>\<open>src/instructions.c\<close>): loads,
  stores, block transfers, push and pop, branches that may return from an exception, supervisor
  calls, sleep hints and faults; and the decoder of \<^verbatim>\<open>src/cpu.c\<close>, a table indexed by the high byte
  of the instruction with secondary dispatchers. Debug printing is left out.
\<close>

section \<open>Loads and stores\<close>

definition load32 :: "'b platform \<Rightarrow> nat \<Rightarrow> u32 \<Rightarrow> 'b mach \<Rightarrow> 'b mach" where
  "load32 p rd addr m = (let (v, m1) = pl_read32 p addr m in upd_cpu (set_r rd v) m1)"

definition instr_ldr_imm5 :: "'b platform \<Rightarrow> u16 \<Rightarrow> 'b mach \<Rightarrow> 'b mach" where
  "instr_ldr_imm5 p instr m =
     load32 p (idx instr 0 7) (reg m (idx instr 3 7) + shl (ucast (shr instr 6 AND 0x1F)) 2) m"

definition instr_str_imm5 :: "'b platform \<Rightarrow> u16 \<Rightarrow> 'b mach \<Rightarrow> 'b mach" where
  "instr_str_imm5 p instr m =
     pl_write32 p (reg m (idx instr 3 7) + shl (ucast (shr instr 6 AND 0x1F)) 2)
       (reg m (idx instr 0 7)) m"

definition instr_ldr_pc_imm8 :: "'b platform \<Rightarrow> u16 \<Rightarrow> 'b mach \<Rightarrow> 'b mach" where
  "instr_ldr_pc_imm8 p instr m =
     load32 p (idx instr 8 7) ((reg m 15 AND NOT 3) + ucast (instr AND 0xFF) * 4 + 4) m"

definition instr_ldr_sp_imm8 :: "'b platform \<Rightarrow> u16 \<Rightarrow> 'b mach \<Rightarrow> 'b mach" where
  "instr_ldr_sp_imm8 p instr m =
     load32 p (idx instr 8 7) (reg m 13 + shl (ucast (instr AND 0xFF)) 2) m"

definition instr_str_sp_imm8 :: "'b platform \<Rightarrow> u16 \<Rightarrow> 'b mach \<Rightarrow> 'b mach" where
  "instr_str_sp_imm8 p instr m =
     pl_write32 p (reg m 13 + shl (ucast (instr AND 0xFF)) 2) (reg m (idx instr 8 7)) m"

text \<open>The address of the register-offset forms.\<close>

definition reg_offset :: "u16 \<Rightarrow> 'b mach \<Rightarrow> u32" where
  "reg_offset instr m = reg m (idx instr 3 7) + reg m (idx instr 6 7)"

definition instr_str_reg_offset :: "'b platform \<Rightarrow> u16 \<Rightarrow> 'b mach \<Rightarrow> 'b mach" where
  "instr_str_reg_offset p instr m = pl_write32 p (reg_offset instr m) (reg m (idx instr 0 7)) m"

definition instr_ldr_reg_offset :: "'b platform \<Rightarrow> u16 \<Rightarrow> 'b mach \<Rightarrow> 'b mach" where
  "instr_ldr_reg_offset p instr m = load32 p (idx instr 0 7) (reg_offset instr m) m"

definition instr_ldrb_imm5 :: "'b platform \<Rightarrow> u16 \<Rightarrow> 'b mach \<Rightarrow> 'b mach" where
  "instr_ldrb_imm5 p instr m =
     (let (v, m1) = pl_read8 p (reg m (idx instr 3 7) + ucast (shr instr 6 AND 0x1F)) m
      in upd_cpu (set_r (idx instr 0 7) (ucast v)) m1)"

definition instr_ldrb_reg_offset :: "'b platform \<Rightarrow> u16 \<Rightarrow> 'b mach \<Rightarrow> 'b mach" where
  "instr_ldrb_reg_offset p instr m =
     (let (v, m1) = pl_read8 p (reg_offset instr m) m
      in upd_cpu (set_r (idx instr 0 7) (ucast v)) m1)"

definition instr_ldrsb_reg_offset :: "'b platform \<Rightarrow> u16 \<Rightarrow> 'b mach \<Rightarrow> 'b mach" where
  "instr_ldrsb_reg_offset p instr m =
     (let (v, m1) = pl_read8 p (reg_offset instr m) m
      in upd_cpu (set_r (idx instr 0 7) (sign_extend_8 v)) m1)"

definition instr_strb_imm5 :: "'b platform \<Rightarrow> u16 \<Rightarrow> 'b mach \<Rightarrow> 'b mach" where
  "instr_strb_imm5 p instr m =
     pl_write8 p (reg m (idx instr 3 7) + ucast (shr instr 6 AND 0x1F))
       (ucast (reg m (idx instr 0 7) AND 0xFF)) m"

definition instr_strb_reg_offset :: "'b platform \<Rightarrow> u16 \<Rightarrow> 'b mach \<Rightarrow> 'b mach" where
  "instr_strb_reg_offset p instr m =
     pl_write8 p (reg_offset instr m) (ucast (reg m (idx instr 0 7) AND 0xFF)) m"

definition instr_ldrh_imm5 :: "'b platform \<Rightarrow> u16 \<Rightarrow> 'b mach \<Rightarrow> 'b mach" where
  "instr_ldrh_imm5 p instr m =
     (let (v, m1) = pl_read16 p (reg m (idx instr 3 7) + shl (ucast (shr instr 6 AND 0x1F)) 1) m
      in upd_cpu (set_r (idx instr 0 7) (ucast v)) m1)"

definition instr_ldrh_reg_offset :: "'b platform \<Rightarrow> u16 \<Rightarrow> 'b mach \<Rightarrow> 'b mach" where
  "instr_ldrh_reg_offset p instr m =
     (let (v, m1) = pl_read16 p (reg_offset instr m) m
      in upd_cpu (set_r (idx instr 0 7) (ucast v)) m1)"

definition instr_ldrsh_reg_offset :: "'b platform \<Rightarrow> u16 \<Rightarrow> 'b mach \<Rightarrow> 'b mach" where
  "instr_ldrsh_reg_offset p instr m =
     (let (v, m1) = pl_read16 p (reg_offset instr m) m
      in upd_cpu (set_r (idx instr 0 7) (sign_extend_16 v)) m1)"

definition instr_strh_imm5 :: "'b platform \<Rightarrow> u16 \<Rightarrow> 'b mach \<Rightarrow> 'b mach" where
  "instr_strh_imm5 p instr m =
     pl_write16 p (reg m (idx instr 3 7) + shl (ucast (shr instr 6 AND 0x1F)) 1)
       (ucast (reg m (idx instr 0 7) AND 0xFFFF)) m"

definition instr_strh_reg_offset :: "'b platform \<Rightarrow> u16 \<Rightarrow> 'b mach \<Rightarrow> 'b mach" where
  "instr_strh_reg_offset p instr m =
     pl_write16 p (reg_offset instr m) (ucast (reg m (idx instr 0 7) AND 0xFFFF)) m"

section \<open>Block transfers\<close>

text \<open>STMIA advances the base register in the register file after each store, so a base that is
  itself in the list is stored with the value it has reached.\<close>

definition stmia_one :: "'b platform \<Rightarrow> nat \<Rightarrow> nat \<Rightarrow> 'b mach \<Rightarrow> 'b mach" where
  "stmia_one p rb i m =
     (let m1 = pl_write32 p (reg m rb) (reg m i) m
      in upd_cpu (\<lambda>c. set_r rb (cpu_r c rb + 4) c) m1)"

definition instr_stmia :: "'b platform \<Rightarrow> u16 \<Rightarrow> 'b mach \<Rightarrow> 'b mach" where
  "instr_stmia p instr m =
     fold (\<lambda>i m. if bit instr i then stmia_one p (idx instr 8 7) i m else m) [0..<8] m"

definition load_next :: "'b platform \<Rightarrow> nat \<Rightarrow> u32 \<times> 'b mach \<Rightarrow> u32 \<times> 'b mach" where
  "load_next p i s = (let (addr, m) = s in (addr + 4, load32 p i addr m))"

definition instr_ldmia :: "'b platform \<Rightarrow> u16 \<Rightarrow> 'b mach \<Rightarrow> 'b mach" where
  "instr_ldmia p instr m =
     (let rb = idx instr 8 7;
          (addr, m1) = fold (\<lambda>i s. if bit instr i then load_next p i s else s) [0..<8] (reg m rb, m)
      in if bit instr rb then m1 else upd_cpu (set_r rb addr) m1)"

definition instr_push :: "'b platform \<Rightarrow> u16 \<Rightarrow> 'b mach \<Rightarrow> 'b mach" where
  "instr_push p instr m =
     (let s0 = (reg m 13, m);
          s1 = (if bit instr 8 then stack_push p (\<lambda>c. cpu_r c 14) s0 else s0);
          (sp, m2) = fold (\<lambda>i s. if bit instr i then stack_push p (\<lambda>c. cpu_r c i) s else s)
                       (rev [0..<8]) s1
      in upd_cpu (set_r 13 sp) m2)"

definition instr_pop :: "'b platform \<Rightarrow> u16 \<Rightarrow> 'b mach \<Rightarrow> 'b mach" where
  "instr_pop p instr m =
     (let (sp, m1) = fold (\<lambda>i s. if bit instr i then load_next p i s else s) [0..<8] (reg m 13, m) in
      if bit instr 8 then
        (let (pc_val, m2) = pl_read32 p sp m1 in
         if pc_val AND 0xFFFFFFF0 = 0xFFFFFFF0 then
           upd_cpu (\<lambda>c. c\<lparr>pc_updated := True\<rparr>)
             (cpu_exception_return p pc_val (upd_cpu (set_r 13 (sp + 4)) m2))
         else upd_cpu (\<lambda>c. (set_r 13 (sp + 4) (set_r 15 (pc_val AND NOT 1) c))\<lparr>pc_updated := True\<rparr>) m2)
      else upd_cpu (set_r 13 sp) m1)"

section \<open>Branches, calls and faults\<close>

definition instr_bl :: "'b platform \<Rightarrow> u16 \<Rightarrow> 'b mach \<Rightarrow> 'b mach" where
  "instr_bl p instr m =
     (let (instr2, m1) = pl_read16 p (reg m 15 + 2) m;
          s = ucast (shr instr 10) AND 1 :: u32;
          j1 = ucast (shr instr2 13) AND 1;
          j2 = ucast (shr instr2 11) AND 1;
          i1 = (if j1 XOR s = 0 then 1 else 0);
          i2 = (if j2 XOR s = 0 then 1 else 0);
          imm10 = ucast (instr AND 0x3FF);
          imm11 = ucast (instr2 AND 0x7FF);
          off = shl s 24 OR shl i1 23 OR shl i2 22 OR shl imm10 12 OR shl imm11 1;
          off1 = (if off AND 0x01000000 \<noteq> 0 then off OR 0xFE000000 else off);
          pc = reg m1 15
      in upd_cpu (\<lambda>c. (set_r 15 ((pc + 4 + off1) AND NOT 1) (set_r 14 ((pc + 4) OR 1) c))
                      \<lparr>pc_updated := True\<rparr>) m1)"

definition instr_bx :: "'b platform \<Rightarrow> u16 \<Rightarrow> 'b mach \<Rightarrow> 'b mach" where
  "instr_bx p instr m =
     (let target = reg m (idx instr 3 0xF) in
      upd_cpu (\<lambda>c. c\<lparr>pc_updated := True\<rparr>)
        (if target AND 0xFFFFFFF0 = 0xFFFFFFF0 then cpu_exception_return p target m
         else upd_cpu (set_r 15 (target AND NOT 1)) m))"

text \<open>Entering an exception from an instruction.\<close>

definition take_exception :: "'b platform \<Rightarrow> u32 \<Rightarrow> 'b mach \<Rightarrow> 'b mach" where
  "take_exception p vec m = upd_cpu (\<lambda>c. c\<lparr>pc_updated := True\<rparr>) (cpu_exception_entry p vec m)"

definition instr_svc :: "'b platform \<Rightarrow> u16 \<Rightarrow> 'b mach \<Rightarrow> 'b mach" where
  "instr_svc p instr m = take_exception p EXC_SVCALL (upd_cpu (\<lambda>c. set_r 15 (cpu_r c 15 + 2) c) m)"

definition instr_wfi :: "'b platform \<Rightarrow> u16 \<Rightarrow> 'b mach \<Rightarrow> 'b mach" where
  "instr_wfi p instr m =
     (let c = get_active_core m in
      if c < 2 then upd_core c (\<lambda>k. k\<lparr>cd_is_wfi := True\<rparr>) m else m)"

definition instr_wfe :: "'b platform \<Rightarrow> u16 \<Rightarrow> 'b mach \<Rightarrow> 'b mach" where
  "instr_wfe p instr m =
     (let c = get_active_core m in
      if c < 2 then upd_core c (\<lambda>k. k\<lparr>cd_is_wfi := True\<rparr>) m else m)"

definition instr_sev :: "'b platform \<Rightarrow> u16 \<Rightarrow> 'b mach \<Rightarrow> 'b mach" where
  "instr_sev p instr m = fold (\<lambda>i. upd_core i (\<lambda>k. k\<lparr>cd_is_wfi := False\<rparr>)) [0, 1] m"

definition instr_bkpt :: "'b platform \<Rightarrow> u16 \<Rightarrow> 'b mach \<Rightarrow> 'b mach" where
  "instr_bkpt p instr m =
     (if instr AND 0xFF = 0xAB then
        (let (handled, m1) = pl_semihosting_handle p m in
         if handled then upd_cpu (\<lambda>c. c\<lparr>pc_updated := True\<rparr>) m1
         else take_exception p EXC_HARDFAULT m1)
      else take_exception p EXC_HARDFAULT m)"

definition instr_udf :: "'b platform \<Rightarrow> u16 \<Rightarrow> 'b mach \<Rightarrow> 'b mach" where
  "instr_udf p instr m = take_exception p EXC_HARDFAULT m"

definition instr_unimplemented :: "'b platform \<Rightarrow> u16 \<Rightarrow> 'b mach \<Rightarrow> 'b mach" where
  "instr_unimplemented p instr m = take_exception p EXC_HARDFAULT m"

section \<open>Decoder\<close>

definition on_cpu :: "(u16 \<Rightarrow> cpu_state \<Rightarrow> cpu_state) \<Rightarrow> u16 \<Rightarrow> 'b mach \<Rightarrow> 'b mach" where
  "on_cpu f instr m = upd_cpu (f instr) m"

definition dispatch_alu_40 :: "u16 \<Rightarrow> cpu_state \<Rightarrow> cpu_state" where
  "dispatch_alu_40 instr =
     ([instr_bitwise_and, instr_bitwise_eor, instr_lsls_reg, instr_lsrs_reg] ! idx instr 6 3) instr"

definition dispatch_alu_41 :: "u16 \<Rightarrow> cpu_state \<Rightarrow> cpu_state" where
  "dispatch_alu_41 instr =
     ([instr_asrs_reg, instr_adcs, instr_sbcs, instr_rors_reg] ! idx instr 6 3) instr"

definition dispatch_alu_42 :: "u16 \<Rightarrow> cpu_state \<Rightarrow> cpu_state" where
  "dispatch_alu_42 instr =
     ([instr_tst_reg_reg, instr_rsbs, instr_cmp_alu, instr_cmn_reg] ! idx instr 6 3) instr"

definition dispatch_alu_43 :: "u16 \<Rightarrow> cpu_state \<Rightarrow> cpu_state" where
  "dispatch_alu_43 instr =
     ([instr_bitwise_orr, instr_muls, instr_bitwise_bic, instr_bitwise_mvn] ! idx instr 6 3) instr"

definition dispatch_special_47 :: "'b platform \<Rightarrow> u16 \<Rightarrow> 'b mach \<Rightarrow> 'b mach" where
  "dispatch_special_47 p instr m =
     (if instr AND 0x80 \<noteq> 0 then on_cpu instr_blx instr m else instr_bx p instr m)"

definition dispatch_sp_b0 :: "u16 \<Rightarrow> cpu_state \<Rightarrow> cpu_state" where
  "dispatch_sp_b0 instr =
     (if instr AND 0x80 \<noteq> 0 then instr_sub_sp_imm7 instr else instr_add_sp_imm7 instr)"

definition dispatch_extend_b2 :: "u16 \<Rightarrow> cpu_state \<Rightarrow> cpu_state" where
  "dispatch_extend_b2 instr =
     ([instr_sxth, instr_sxtb, instr_uxth, instr_uxtb] ! idx instr 6 3) instr"

definition dispatch_cps_b6 :: "u16 \<Rightarrow> cpu_state \<Rightarrow> cpu_state" where
  "dispatch_cps_b6 instr = (if instr AND 0x10 \<noteq> 0 then instr_cpsid instr else instr_cpsie instr)"

definition dispatch_rev_ba :: "'b platform \<Rightarrow> u16 \<Rightarrow> 'b mach \<Rightarrow> 'b mach" where
  "dispatch_rev_ba p instr m =
     (let op = idx instr 6 3 in
      if op = 0 then on_cpu instr_rev instr m
      else if op = 1 then on_cpu instr_rev16 instr m
      else if op = 3 then on_cpu instr_revsh instr m
      else instr_unimplemented p instr m)"

definition dispatch_hints_bf :: "'b platform \<Rightarrow> u16 \<Rightarrow> 'b mach \<Rightarrow> 'b mach" where
  "dispatch_hints_bf p instr m =
     (if instr AND 0x000F \<noteq> 0 then on_cpu instr_it instr m
      else let op = idx instr 4 0xF in
        if op = 0 then on_cpu instr_nop instr m
        else if op = 1 then on_cpu instr_yield instr m
        else if op = 2 then instr_wfe p instr m
        else if op = 3 then instr_wfi p instr m
        else if op = 4 then instr_sev p instr m
        else on_cpu instr_nop instr m)"

text \<open>The dispatch table, by the high byte of the instruction. The chain of upper bounds stands for
  the loops that fill ranges of it.\<close>

definition dispatch_table :: "'b platform \<Rightarrow> nat \<Rightarrow> u16 \<Rightarrow> 'b mach \<Rightarrow> 'b mach" where
  "dispatch_table p i =
     (if i \<le> 0x07 then on_cpu instr_shift_logical_left
      else if i \<le> 0x0F then on_cpu instr_shift_logical_right
      else if i \<le> 0x17 then on_cpu instr_shift_arithmetic_right
      else if i \<le> 0x19 then on_cpu instr_adds_reg_reg
      else if i \<le> 0x1B then on_cpu instr_sub_reg_reg
      else if i \<le> 0x1D then on_cpu instr_adds_imm3
      else if i \<le> 0x1F then on_cpu instr_subs_imm3
      else if i \<le> 0x27 then on_cpu instr_movs_imm8
      else if i \<le> 0x2F then on_cpu instr_cmp_imm8
      else if i \<le> 0x37 then on_cpu instr_adds_imm8
      else if i \<le> 0x3F then on_cpu instr_subs_imm8
      else if i = 0x40 then on_cpu dispatch_alu_40
      else if i = 0x41 then on_cpu dispatch_alu_41
      else if i = 0x42 then on_cpu dispatch_alu_42
      else if i = 0x43 then on_cpu dispatch_alu_43
      else if i = 0x44 then on_cpu instr_add_reg_high
      else if i = 0x45 then on_cpu instr_cmp_reg_reg
      else if i = 0x46 then on_cpu instr_mov_high_reg
      else if i = 0x47 then dispatch_special_47 p
      else if i \<le> 0x4F then instr_ldr_pc_imm8 p
      else if i \<le> 0x51 then instr_str_reg_offset p
      else if i \<le> 0x53 then instr_strh_reg_offset p
      else if i \<le> 0x55 then instr_strb_reg_offset p
      else if i \<le> 0x57 then instr_ldrsb_reg_offset p
      else if i \<le> 0x59 then instr_ldr_reg_offset p
      else if i \<le> 0x5B then instr_ldrh_reg_offset p
      else if i \<le> 0x5D then instr_ldrb_reg_offset p
      else if i \<le> 0x5F then instr_ldrsh_reg_offset p
      else if i \<le> 0x67 then instr_str_imm5 p
      else if i \<le> 0x6F then instr_ldr_imm5 p
      else if i \<le> 0x77 then instr_strb_imm5 p
      else if i \<le> 0x7F then instr_ldrb_imm5 p
      else if i \<le> 0x87 then instr_strh_imm5 p
      else if i \<le> 0x8F then instr_ldrh_imm5 p
      else if i \<le> 0x97 then instr_str_sp_imm8 p
      else if i \<le> 0x9F then instr_ldr_sp_imm8 p
      else if i \<le> 0xA7 then on_cpu instr_adr
      else if i \<le> 0xAF then on_cpu dispatch_add_sp_rd
      else if i = 0xB0 then on_cpu dispatch_sp_b0
      else if i = 0xB1 \<or> i = 0xB3 then on_cpu dispatch_cbz
      else if i = 0xB2 then on_cpu dispatch_extend_b2
      else if i = 0xB4 \<or> i = 0xB5 then instr_push p
      else if i = 0xB6 then on_cpu dispatch_cps_b6
      else if i = 0xB9 \<or> i = 0xBB then on_cpu dispatch_cbnz
      else if i = 0xBA then dispatch_rev_ba p
      else if i = 0xBC \<or> i = 0xBD then instr_pop p
      else if i = 0xBE then instr_bkpt p
      else if i = 0xBF then dispatch_hints_bf p
      else if 0xC0 \<le> i \<and> i \<le> 0xC7 then instr_stmia p
      else if 0xC8 \<le> i \<and> i \<le> 0xCF then instr_ldmia p
      else if 0xD0 \<le> i \<and> i \<le> 0xDD then on_cpu instr_bcond
      else if i = 0xDE then instr_udf p
      else if i = 0xDF then instr_svc p
      else if 0xE0 \<le> i \<and> i \<le> 0xE7 then on_cpu instr_b_uncond
      else instr_unimplemented p)"

section \<open>Block transfers in RAM\<close>

definition words_at :: "(u32 \<Rightarrow> 'b \<Rightarrow> u32) \<Rightarrow> u32 \<Rightarrow> nat \<Rightarrow> 'b \<Rightarrow> u32 list" where
  "words_at rd a n b = map (\<lambda>k. rd (a + of_nat (4 * k)) b) [0..<n]"

definition words_room :: "(u32 \<Rightarrow> 'b \<Rightarrow> bool) \<Rightarrow> u32 \<Rightarrow> nat \<Rightarrow> 'b \<Rightarrow> bool" where
  "words_room in_ram a n b \<longleftrightarrow> list_all (\<lambda>k. in_ram (a + of_nat (4 * k)) b) [0..<n]"

definition low_regs :: "u16 \<Rightarrow> nat list" where
  "low_regs instr = filter (bit instr) [0..<8]"

text \<open>The registers a PUSH saves, in the order of their addresses.\<close>

definition push_regs :: "u16 \<Rightarrow> nat list" where
  "push_regs instr = low_regs instr @ (if bit instr 8 then [14] else [])"

text \<open>Loading consecutive registers from a list of words.\<close>

definition load_regs :: "nat list \<Rightarrow> u32 list \<Rightarrow> cpu_state \<Rightarrow> cpu_state" where
  "load_regs is ws c = fold (\<lambda>(i, v). set_r i v) (zip is ws) c"

lemma fold_if_filter: "fold (\<lambda>i s. if P i then f i s else s) is s = fold f (filter P is) s"
  by (induction "is" arbitrary: s) auto

lemma words_at_Suc:
  "words_at rd a (Suc n) b = rd a b # words_at rd (a + 4) n b"
proof -
  have "map f [0..<Suc n] = f 0 # map (\<lambda>k. f (Suc k)) [0..<n]" for f :: "nat \<Rightarrow> u32"
    by (simp add: upt_conv_Cons map_Suc_upt [symmetric] comp_def del: upt_Suc)
  from this [of "\<lambda>k. rd (a + of_nat (4 * k)) b"] show ?thesis
    unfolding words_at_def by (simp add: algebra_simps del: upt_Suc)
qed

lemma words_room_Suc: "words_room in_ram a (Suc n) b \<longleftrightarrow> in_ram a b \<and> words_room in_ram (a + 4) n b"
proof -
  have "list_all P [0..<Suc n] \<longleftrightarrow> P 0 \<and> list_all (\<lambda>k. P (Suc k)) [0..<n]" for P :: "nat \<Rightarrow> bool"
    by (simp add: upt_conv_Cons map_Suc_upt [symmetric] list.pred_map comp_def del: upt_Suc)
  from this [of "\<lambda>k. in_ram (a + of_nat (4 * k)) b"] show ?thesis
    unfolding words_room_def by (simp add: algebra_simps del: upt_Suc)
qed

lemma words_roomD: "words_room in_ram a n b \<Longrightarrow> k < n \<Longrightarrow> in_ram (a + of_nat (4 * k)) b"
  unfolding words_room_def list_all_iff set_upt by simp

lemma words_at_0 [simp]: "words_at rd a 0 b = []" "words_room in_ram a 0 b"
  by (simp_all add: words_at_def words_room_def)

lemma length_words_at [simp]: "length (words_at rd a n b) = n"
  by (simp add: words_at_def)

lemma load_regs_Cons: "load_regs (i # is) (w # ws) c = load_regs is ws (set_r i w c)"
  by (simp add: load_regs_def)

lemma load_regs_map:
  "distinct is \<Longrightarrow> cpu_r (load_regs is (map f is) c) i = (if i \<in> set is then f i else cpu_r c i)"
  by (induction "is" arbitrary: c) (auto simp: load_regs_Cons load_regs_def [of "[]"])

lemma load_regs_upd:
  "load_regs is ws c = c\<lparr>cpu_r := cpu_r (load_regs is ws c)\<rparr>"
proof (induction "is" ws arbitrary: c rule: list_induct2')
  case (4 x xs y ys)
  show ?case unfolding load_regs_Cons by (subst 4) (simp add: set_r_def)
qed (simp_all add: load_regs_def)

context ram_bus
begin

lemma stack_push_words:
  assumes low: "4 * length fs \<le> unat sp"
    and room: "words_room in_ram (sp - of_nat (4 * length fs)) (length fs) (m_bus m)"
  shows "\<exists>m'. fold (stack_push p) fs (sp, m) = (sp - of_nat (4 * length fs), m') \<and>
     same_but_bus m m' \<and> (\<forall>a. in_ram a (m_bus m') = in_ram a (m_bus m)) \<and>
     words_at rd (sp - of_nat (4 * length fs)) (length fs) (m_bus m') = map (\<lambda>f. f (m_cpu m)) (rev fs)"
proof -
  let ?n = "length fs"
  have off: "sp - of_nat (4 * ?n) + of_nat (4 * k) = sp - of_nat (4 * Suc (?n - Suc k))" if "k < ?n" for k
  proof -
    have "4 * ?n = 4 * k + 4 * Suc (?n - Suc k)" using that by simp
    then have "(of_nat (4 * ?n) :: u32) = of_nat (4 * k) + of_nat (4 * Suc (?n - Suc k))"
      by (metis of_nat_add)
    then show ?thesis by (simp only:) simp
  qed
  have ram: "\<forall>i < ?n. in_ram (sp - of_nat (4 * Suc i)) (m_bus m)"
  proof (intro allI impI)
    fix i assume i: "i < ?n"
    then have "in_ram (sp - of_nat (4 * ?n) + of_nat (4 * (?n - Suc i))) (m_bus m)"
      by (intro words_roomD [OF room]) simp
    moreover have "?n - Suc (?n - Suc i) = i" "?n - Suc i < ?n" using i by auto
    ultimately show "in_ram (sp - of_nat (4 * Suc i)) (m_bus m)" using off by metis
  qed
  obtain m' where m': "fold (stack_push p) fs (sp, m) = (sp - of_nat (4 * ?n), m')" "same_but_bus m m'"
      "\<forall>a. in_ram a (m_bus m') = in_ram a (m_bus m)"
      "\<forall>i < ?n. rd (sp - of_nat (4 * Suc i)) (m_bus m') = (fs ! i) (m_cpu m)"
    using stack_push_list [OF low ram] by blast
  have "words_at rd (sp - of_nat (4 * ?n)) ?n (m_bus m') = map (\<lambda>f. f (m_cpu m)) (rev fs)"
  proof (rule nth_equalityI)
    fix k assume "k < length (words_at rd (sp - of_nat (4 * ?n)) ?n (m_bus m'))"
    then have k: "k < ?n" by simp
    have "words_at rd (sp - of_nat (4 * ?n)) ?n (m_bus m') ! k =
        rd (sp - of_nat (4 * ?n) + of_nat (4 * k)) (m_bus m')"
      using k by (simp add: words_at_def)
    also have "\<dots> = (fs ! (?n - Suc k)) (m_cpu m)"
      unfolding off [OF k] using k by (intro m'(4) [rule_format]) simp
    finally show "words_at rd (sp - of_nat (4 * ?n)) ?n (m_bus m') ! k = map (\<lambda>f. f (m_cpu m)) (rev fs) ! k"
      using k by (simp add: rev_nth)
  qed simp
  then show ?thesis using m' by blast
qed

lemma load_next_words:
  assumes "words_room in_ram a (length is) (m_bus m)"
  shows "fold (load_next p) is (a, m) =
     (a + of_nat (4 * length is), upd_cpu (load_regs is (words_at rd a (length is) (m_bus m))) m)"
  using assms
proof (induction "is" arbitrary: a m)
  case Nil
  then show ?case by (simp add: load_regs_def upd_cpu_def)
next
  case (Cons i "is")
  have ram: "in_ram a (m_bus m)" "words_room in_ram (a + 4) (length is) (m_bus m)"
    using Cons.prems by (simp_all add: words_room_Suc)
  have "load_next p i (a, m) = (a + 4, upd_cpu (set_r i (rd a (m_bus m))) m)"
    using ram(1) by (simp add: load_next_def load32_def read_ram)
  then show ?case
    using Cons.IH [of "a + 4" "upd_cpu (set_r i (rd a (m_bus m))) m"] ram(2)
    by (simp add: words_at_Suc load_regs_Cons algebra_simps)
qed

end

definition saved_words :: "u16 \<Rightarrow> nat" where
  "saved_words instr = length (push_regs instr)"

lemma low_regs_cong: "(\<And>i. i < 9 \<Longrightarrow> bit i1 i = bit i2 i) \<Longrightarrow> low_regs i1 = low_regs i2"
  unfolding low_regs_def by (rule filter_cong) auto

lemma distinct_low_regs [simp]: "distinct (low_regs instr)"
  by (simp add: low_regs_def)

lemma low_regs_less: "i \<in> set (low_regs instr) \<Longrightarrow> i < 8"
  by (simp add: low_regs_def)

lemma words_at_append:
  "words_at rd a (n + k) b = words_at rd a n b @ words_at rd (a + of_nat (4 * n)) k b"
proof (induction n arbitrary: a)
  case (Suc n)
  show ?case by (simp add: words_at_Suc Suc) (simp add: algebra_simps)
qed simp

lemma words_room_append:
  "words_room in_ram a (n + k) b \<longleftrightarrow> words_room in_ram a n b \<and> words_room in_ram (a + of_nat (4 * n)) k b"
proof (induction n arbitrary: a)
  case (Suc n)
  show ?case by (simp add: words_room_Suc Suc) (simp add: algebra_simps)
qed simp

context ram_bus
begin

lemma push_ram:
  assumes low: "4 * saved_words instr \<le> unat (reg m 13)"
    and room: "words_room in_ram (reg m 13 - of_nat (4 * saved_words instr)) (saved_words instr) (m_bus m)"
  shows "\<exists>m'. instr_push p instr m = m' \<and>
     m_cpu m' = set_r 13 (reg m 13 - of_nat (4 * saved_words instr)) (m_cpu m) \<and>
     m_cores m' = m_cores m \<and> m_nv m' = m_nv m \<and>
     (\<forall>a. in_ram a (m_bus m') = in_ram a (m_bus m)) \<and>
     words_at rd (reg m 13 - of_nat (4 * saved_words instr)) (saved_words instr) (m_bus m') =
       map (reg m) (push_regs instr)"
proof -
  let ?g = "\<lambda>i c. cpu_r (c :: cpu_state) i"
  define fs where "fs = map ?g (rev (push_regs instr))"
  have n: "length fs = saved_words instr" by (simp add: fs_def saved_words_def)
  obtain m' where m': "fold (stack_push p) fs (reg m 13, m) = (reg m 13 - of_nat (4 * length fs), m')"
      "same_but_bus m m'" "\<forall>a. in_ram a (m_bus m') = in_ram a (m_bus m)"
      "words_at rd (reg m 13 - of_nat (4 * length fs)) (length fs) (m_bus m') = map (\<lambda>f. f (m_cpu m)) (rev fs)"
    using stack_push_words [OF low [folded n] room [folded n]] by (elim exE conjE) (rule that)
  have vals: "map (\<lambda>f. f (m_cpu m)) (rev fs) = map (reg m) (push_regs instr)"
    by (simp add: fs_def rev_map [symmetric])
  have "instr_push p instr m = upd_cpu (set_r 13 (reg m 13 - of_nat (4 * length fs))) m'"
    using m'(1) by (cases "bit instr 8") (simp_all add: instr_push_def fs_def push_regs_def low_regs_def
        fold_if_filter rev_filter [symmetric] fold_map comp_def)
  then show ?thesis
    using m'(3,4) same_but_bus_fields [OF m'(2)] by (simp add: n vals)
qed

lemma pop_ram:
  assumes room: "words_room in_ram (reg m 13) (saved_words instr) (m_bus m)"
    and ws: "words_at rd (reg m 13) (length (low_regs instr)) (m_bus m) = ws"
    and pc: "rd (reg m 13 + of_nat (4 * length (low_regs instr))) (m_bus m) = pc"
    and ret: "bit instr 8 \<longrightarrow> pc AND 0xFFFFFFF0 \<noteq> 0xFFFFFFF0"
  shows "instr_pop p instr m = upd_cpu (\<lambda>c.
     let c1 = set_r 13 (reg m 13 + of_nat (4 * saved_words instr)) (load_regs (low_regs instr) ws c)
     in if bit instr 8 then (set_r 15 (pc AND NOT 1) c1)\<lparr>pc_updated := True\<rparr> else c1) m"
proof -
  let ?l = "low_regs instr" and ?sp = "reg m 13"
  have room1: "words_room in_ram ?sp (length ?l) (m_bus m)"
    and room2: "bit instr 8 \<Longrightarrow> in_ram (?sp + of_nat (4 * length ?l)) (m_bus m)"
    using room words_room_append [of in_ram ?sp "length ?l" 1 "m_bus m"]
    by (auto simp: saved_words_def push_regs_def words_room_Suc split: if_splits)
  have loop: "fold (\<lambda>i s. if bit instr i then load_next p i s else s) [0..<8] (?sp, m) =
      (?sp + of_nat (4 * length ?l), upd_cpu (load_regs ?l ws) m)"
    using load_next_words [OF room1] unfolding ws
    by (simp only: fold_if_filter low_regs_def)
  show ?thesis
  proof (cases "bit instr 8")
    case True
    have "pl_read32 p (?sp + of_nat (4 * length ?l)) (upd_cpu (load_regs ?l ws) m) =
        (pc, upd_cpu (load_regs ?l ws) m)"
      using read_ram [of "?sp + of_nat (4 * length ?l)" "upd_cpu (load_regs ?l ws) m"] room2 [OF True] pc by simp
    then show ?thesis
      using True ret unfolding instr_pop_def loop
      by (simp add: saved_words_def push_regs_def algebra_simps set_r_def fun_upd_twist upd_cpu_def)
  next
    case False
    then show ?thesis
      unfolding instr_pop_def loop
      by (simp add: saved_words_def push_regs_def upd_cpu_def)
  qed
qed

text \<open>A POP takes back what a PUSH of the same list stored, LR into PC, when the code in between
  keeps the stack pointer and the saved words.\<close>

lemma push_pop:
  assumes low: "4 * saved_words i1 \<le> unat (reg m 13)"
    and room: "words_room in_ram (reg m 13 - of_nat (4 * saved_words i1)) (saved_words i1) (m_bus m)"
    and same: "i1 AND 0x1FF = i2 AND 0x1FF"
    and sp: "reg m2 13 = reg (instr_push p i1 m) 13"
    and keep: "words_at rd (reg m2 13) (saved_words i1) (m_bus m2) =
                 words_at rd (reg m2 13) (saved_words i1) (m_bus (instr_push p i1 m))"
    and room2: "words_room in_ram (reg m2 13) (saved_words i1) (m_bus m2)"
    and lr: "bit i1 8 \<longrightarrow> reg m 14 AND 0xFFFFFFF0 \<noteq> 0xFFFFFFF0"
  shows "instr_pop p i2 m2 = upd_cpu (\<lambda>c. c\<lparr>
     cpu_r := (\<lambda>i. if i \<in> set (low_regs i1) then reg m i
                  else if i = 13 then reg m 13
                  else if i = 15 \<and> bit i1 8 then reg m 14 AND NOT 1
                  else cpu_r c i),
     pc_updated := (bit i1 8 \<or> pc_updated c)\<rparr>) m2"
proof -
  let ?l = "low_regs i1" and ?n = "saved_words i1"
  have bits: "bit i1 i = bit i2 i" if "i < 9" for i
  proof -
    have "bit (i1 AND mask 9) i = bit (i2 AND mask 9) i" using same by (simp add: mask_eq_exp_minus_1)
    then show ?thesis using that by (simp add: bit_simps)
  qed
  have l2: "low_regs i2 = ?l" "saved_words i2 = ?n" "bit i2 8 = bit i1 8"
    using low_regs_cong [OF bits] bits [of 8] by (simp_all add: saved_words_def push_regs_def)
  obtain m1 where m1: "instr_push p i1 m = m1"
      "m_cpu m1 = set_r 13 (reg m 13 - of_nat (4 * ?n)) (m_cpu m)"
      "words_at rd (reg m 13 - of_nat (4 * ?n)) ?n (m_bus m1) = map (reg m) (push_regs i1)"
    using push_ram [OF low room] by (elim exE conjE) (rule that)
  have sp2: "reg m2 13 = reg m 13 - of_nat (4 * ?n)" using sp by (simp add: m1)
  have all: "words_at rd (reg m2 13) ?n (m_bus m2) = map (reg m) (push_regs i1)"
    using keep unfolding m1(1) sp2 m1(3) .
  have ws: "words_at rd (reg m2 13) (length ?l) (m_bus m2) = map (reg m) ?l"
    and pc: "bit i1 8 \<Longrightarrow> rd (reg m2 13 + of_nat (4 * length ?l)) (m_bus m2) = reg m 14"
    using all words_at_append [of rd "reg m2 13" "length ?l" 1 "m_bus m2"]
    by (auto simp: saved_words_def push_regs_def words_at_Suc split: if_splits)
  have ret: "bit i1 8 \<longrightarrow> rd (reg m2 13 + of_nat (4 * length ?l)) (m_bus m2) AND 0xFFFFFFF0 \<noteq> 0xFFFFFFF0"
    using pc lr by simp
  have up: "load_regs ?l (map (reg m) ?l) c = c\<lparr>cpu_r := \<lambda>i. if i \<in> set ?l then reg m i else cpu_r c i\<rparr>" for c
    by (subst load_regs_upd) (simp add: load_regs_map fun_eq_iff)
  have "instr_pop p i2 m2 = upd_cpu (\<lambda>c.
     let c1 = set_r 13 (reg m2 13 + of_nat (4 * ?n)) (load_regs ?l (map (reg m) ?l) c)
     in if bit i1 8 then (set_r 15 (rd (reg m2 13 + of_nat (4 * length ?l)) (m_bus m2) AND NOT 1) c1)
            \<lparr>pc_updated := True\<rparr> else c1) m2"
    using pop_ram [of m2 i2, unfolded l2, OF room2 ws refl ret] .
  also have "\<dots> = upd_cpu (\<lambda>c. c\<lparr>
     cpu_r := (\<lambda>i. if i \<in> set ?l then reg m i else if i = 13 then reg m 13
                  else if i = 15 \<and> bit i1 8 then reg m 14 AND NOT 1 else cpu_r c i),
     pc_updated := (bit i1 8 \<or> pc_updated c)\<rparr>) m2"
  proof -
    have not_low: "13 \<notin> set ?l" "15 \<notin> set ?l" by (auto dest: low_regs_less)
    have sp3: "reg m2 13 + of_nat (4 * ?n) = reg m 13" by (simp add: sp2)
    have r13: "(\<lambda>i. if i \<in> set ?l then reg m i else f i)(13 := v) =
        (\<lambda>i. if i \<in> set ?l then reg m i else if i = 13 then v else f i)" for f v
      using not_low by auto
    have r15: "(\<lambda>i. if i \<in> set ?l then reg m i else if i = 13 then v else f i)(15 := w) =
        (\<lambda>i. if i \<in> set ?l then reg m i else if i = 13 then v else if i = 15 then w else f i)" for f v w
      using not_low by auto
    show ?thesis
      by (cases "bit i1 8") (simp_all only: Let_def up sp3 pc if_True if_False set_r_def cpu_state.simps
          simp_thms upd_cpu_def, simp_all add: r13 r15 cong: if_cong)
  qed
  finally show ?thesis .
qed

end

end
