(* ===== verification/Code_Cache.thy ===== *)
theory Code_Cache
  imports Machine
begin

unbundle bit_operations_syntax

text \<open>
  The two code caches of \<^verbatim>\<open>src/cpu.c\<close>: the direct-mapped cache of decoded 16-bit instructions and
  the cache of basic blocks that the source calls the JIT. Lookup and filling are here; running a
  block is part of the CPU engine. The counters that are only printed are left out.
\<close>

section \<open>Decoded instruction cache\<close>

abbreviation (input) ICACHE_TAG_EMPTY :: u32 where "ICACHE_TAG_EMPTY \<equiv> 0xFFFFFFFF"

definition icache_index :: "u32 \<Rightarrow> nat" where
  "icache_index pc = unat (shr pc 1 AND 0xFFFF)"

text \<open>\<^verbatim>\<open>icache[i].pc = ICACHE_TAG_EMPTY\<close>\<close>

definition icache_drop :: "nat \<Rightarrow> 'b mach \<Rightarrow> 'b mach" where
  "icache_drop i m = m\<lparr>m_icache := (m_icache m)(i := (m_icache m i)\<lparr>ic_pc := ICACHE_TAG_EMPTY\<rparr>)\<rparr>"

definition icache_invalidate_all :: "'b mach \<Rightarrow> 'b mach" where
  "icache_invalidate_all m =
     m\<lparr>m_icache := (\<lambda>i. if i < 65536 then (m_icache m i)\<lparr>ic_pc := ICACHE_TAG_EMPTY\<rparr> else m_icache m i)\<rparr>"

definition icache_init :: "'b mach \<Rightarrow> 'b mach" where
  "icache_init m = (icache_invalidate_all m)\<lparr>m_icache_enabled := True\<rparr>"

definition icache_enable :: "bool \<Rightarrow> 'b mach \<Rightarrow> 'b mach" where
  "icache_enable enable m = m\<lparr>m_icache_enabled := enable\<rparr>"

definition icache_invalidate_addr :: "u32 \<Rightarrow> 'b mach \<Rightarrow> 'b mach" where
  "icache_invalidate_addr addr m =
     (if \<not> m_icache_enabled m then m
      else let i = icache_index addr in icache_drop ((i + 1) mod 65536) (icache_drop i m))"

text \<open>The loop \<^verbatim>\<open>for (a = addr; a < addr + size; a += 2)\<close> does not end when the bound is the largest
  32-bit number and \<open>a\<close> is even, hence the option type.\<close>

partial_function (option) icache_range_loop :: "u32 \<Rightarrow> u32 \<Rightarrow> 'b mach \<Rightarrow> 'b mach option" where
  "icache_range_loop a bound m =
     (if a < bound then icache_range_loop (a + 2) bound (icache_drop (icache_index a) m) else Some m)"

definition icache_invalidate_range :: "u32 \<Rightarrow> u32 \<Rightarrow> 'b mach \<Rightarrow> 'b mach option" where
  "icache_invalidate_range addr sz m =
     (if \<not> m_icache_enabled m then Some m else icache_range_loop addr (addr + sz) m)"

text \<open>The two places of \<^verbatim>\<open>cpu_step\<close> that use the cache: the lookup, which gives the instruction and
  the cached handler, and the filling after a miss.\<close>

definition icache_lookup :: "u32 \<Rightarrow> 'b mach \<Rightarrow> (u16 \<times> nat) option" where
  "icache_lookup pc m =
     (let e = m_icache m (icache_index pc) in
      if m_icache_enabled m \<and> ic_pc e = pc then Some (ic_instr e, ic_handler e) else None)"

definition icache_fill :: "u32 \<Rightarrow> u16 \<Rightarrow> nat \<Rightarrow> 'b mach \<Rightarrow> 'b mach" where
  "icache_fill pc instr handler m =
     (if m_icache_enabled m
      then m\<lparr>m_icache := (m_icache m)(icache_index pc := \<lparr>ic_pc = pc, ic_instr = instr, ic_handler = handler\<rparr>)\<rparr>
      else m)"

section \<open>Block cache\<close>

definition in_flash :: "u32 \<Rightarrow> bool" where
  "in_flash pc \<longleftrightarrow> in_block pc 0x10000000 0x200000"

definition in_rom :: "u32 \<Rightarrow> bool" where
  "in_rom pc \<longleftrightarrow> pc < 0x4000"

definition jit_index :: "u32 \<Rightarrow> nat" where
  "jit_index pc = unat (shr pc 1 AND 0x3FFF)"

definition jit_drop :: "(jit_block \<Rightarrow> bool) \<Rightarrow> 'b mach \<Rightarrow> 'b mach" where
  "jit_drop P m = m\<lparr>m_jit_cache := (\<lambda>i. if i < 16384 \<and> P (m_jit_cache m i)
       then (m_jit_cache m i)\<lparr>jb_start_pc := ICACHE_TAG_EMPTY\<rparr> else m_jit_cache m i)\<rparr>"

definition jit_init :: "'b mach \<Rightarrow> 'b mach" where
  "jit_init m = m\<lparr>m_jit_cache := (\<lambda>i. if i < 16384
       then (m_jit_cache m i)\<lparr>jb_start_pc := ICACHE_TAG_EMPTY, jb_length := 0\<rparr> else m_jit_cache m i),
       m_jit_enabled := True\<rparr>"

definition jit_enable :: "bool \<Rightarrow> 'b mach \<Rightarrow> 'b mach" where
  "jit_enable enable m = m\<lparr>m_jit_enabled := enable\<rparr>"

text \<open>The bitmap of high bytes that end a block.\<close>

definition jit_terminal_bitmap :: "nat \<Rightarrow> bool" where
  "jit_terminal_bitmap top8 \<longleftrightarrow>
     0xD0 \<le> top8 \<and> top8 \<le> 0xDE \<or> 0xE0 \<le> top8 \<and> top8 \<le> 0xE7 \<or>
     top8 \<in> {0x47, 0xDF, 0xBD, 0xBE, 0xB6, 0xB1, 0xB3, 0xB9, 0xBB}"

definition jit_is_terminal :: "u16 \<Rightarrow> bool" where
  "jit_is_terminal instr \<longleftrightarrow>
     jit_terminal_bitmap (unat (shr instr 8)) \<or> shr instr 8 = 0xBF \<and> instr AND 0x00F0 \<noteq> 0"

text \<open>The loop of \<^verbatim>\<open>jit_compile\<close>; the first number counts the instructions that may still follow.\<close>

fun jit_scan :: "'b platform \<Rightarrow> nat \<Rightarrow> nat \<Rightarrow> u32 \<Rightarrow> jit_block \<Rightarrow> 'b mach \<Rightarrow> jit_block \<times> 'b mach" where
  "jit_scan p 0 i cur_pc blk m = (blk, m)"
| "jit_scan p (Suc n) i cur_pc blk m =
     (if \<not> (in_rom cur_pc \<or> in_flash cur_pc) then (blk, m)
      else let (instr, m1) = pl_fetch16 p cur_pc m in
        if instr = 0 \<and> i = 0 then (blk, m1)
        else if shr instr 11 \<ge> 0x1D then (blk, m1)
        else let blk1 = blk\<lparr>jb_instrs := (jb_instrs blk)(i := instr), jb_length := jb_length blk + 1\<rparr> in
          if jit_is_terminal instr then (blk1, m1) else jit_scan p n (i + 1) (cur_pc + 2) blk1 m1)"

definition jit_compile :: "'b platform \<Rightarrow> u32 \<Rightarrow> 'b mach \<Rightarrow> jit_block option \<times> 'b mach" where
  "jit_compile p pc m =
     (if \<not> in_flash pc \<and> \<not> in_rom pc then (None, m)
      else
        let i = jit_index pc;
            (blk, m1) = jit_scan p 64 0 pc ((m_jit_cache m i)\<lparr>jb_start_pc := pc, jb_length := 0\<rparr>) m;
            blk1 = (if jb_length blk \<le> 1 then blk\<lparr>jb_start_pc := ICACHE_TAG_EMPTY\<rparr> else blk)
        in (if jb_length blk \<le> 1 then None else Some blk,
            m1\<lparr>m_jit_cache := (m_jit_cache m1)(i := blk1)\<rparr>))"

definition jb_end :: "jit_block \<Rightarrow> u32" where
  "jb_end b = jb_start_pc b + of_nat (jb_length b) * 2"

definition jit_invalidate_addr :: "u32 \<Rightarrow> 'b mach \<Rightarrow> 'b mach" where
  "jit_invalidate_addr addr m =
     (if \<not> m_jit_enabled m then m
      else if in_block addr 0x20000000 0x42000 then m
      else jit_drop (\<lambda>b. jb_start_pc b \<noteq> ICACHE_TAG_EMPTY \<and> addr \<ge> jb_start_pc b \<and> addr < jb_end b) m)"

definition jit_invalidate_range :: "u32 \<Rightarrow> u32 \<Rightarrow> 'b mach \<Rightarrow> 'b mach" where
  "jit_invalidate_range addr sz m =
     (if \<not> m_jit_enabled m then m
      else if in_block addr 0x20000000 0x42000 then m
      else jit_drop (\<lambda>b. jb_start_pc b \<noteq> ICACHE_TAG_EMPTY \<and> jb_start_pc b < addr + sz \<and> jb_end b > addr) m)"

definition jit_invalidate_all :: "'b mach \<Rightarrow> 'b mach" where
  "jit_invalidate_all m = jit_drop (\<lambda>b. True) m"

section \<open>Coherence\<close>

text \<open>Every valid entry holds the halfword that \<open>fetch\<close> gives at its address, the handler slot of
  that halfword, and sits in the slot of its address, which is even.\<close>

definition icache_coherent :: "(u32 \<Rightarrow> u16) \<Rightarrow> 'b mach \<Rightarrow> bool" where
  "icache_coherent fetch m \<longleftrightarrow> (\<forall>i < 65536. let e = m_icache m i in
     ic_pc e \<noteq> ICACHE_TAG_EMPTY \<longrightarrow>
     even (unat (ic_pc e)) \<and> icache_index (ic_pc e) = i \<and> ic_instr e = fetch (ic_pc e) \<and>
     ic_handler e = unat (shr (ic_instr e) 8))"

lemma icache_index_less: "icache_index pc < 65536"
proof -
  have "shr pc 1 AND 0xFFFF = take_bit 16 (shr pc 1)"
    by (simp add: take_bit_eq_mask mask_eq_exp_minus_1)
  then show ?thesis
    using take_bit_nat_less_exp [of 16 "unat (shr pc 1)"] by (simp add: icache_index_def unsigned_take_bit_eq)
qed

lemma icache_index_nat: "icache_index pc = (unat pc div 2) mod 65536"
proof -
  have lt: "unat pc < 2 ^ 32" using unsigned_less [of pc] by simp
  have "icache_index pc = unat (take_bit 16 (shr pc 1))"
    unfolding icache_index_def by (simp add: take_bit_eq_mask mask_eq_exp_minus_1)
  also have "\<dots> = take_bit 16 (drop_bit 1 (unat pc))"
    unfolding unsigned_take_bit_eq unsigned_drop_bit_eq 
    using lt by (simp add: take_bit_nat_eq_self)
  finally show ?thesis by (simp add: take_bit_eq_mod drop_bit_eq_div)
qed

lemma icache_index_next:
  assumes "even (unat addr)"
  shows "icache_index (addr + 2) = (icache_index addr + 1) mod 65536"
proof -
  obtain k where k: "unat addr = 2 * k" using assms by blast
  have "unat (addr + 2) = (2 * k + 2) mod 4294967296" by (simp add: unat_word_ariths k)
  then have "unat (addr + 2) div 2 = (k + 1) mod 2147483648"
    using mult_mod_right [of 2 "k + 1" 2147483648] by simp
  then show ?thesis
    by (simp add: icache_index_nat k mod_mod_cancel mod_Suc_eq)
qed

lemma icache_drop_apply:
  "m_icache (icache_drop i m) j = (if j = i then (m_icache m j)\<lparr>ic_pc := ICACHE_TAG_EMPTY\<rparr> else m_icache m j)"
  by (simp add: icache_drop_def)

lemma icache_invalidate_all_coherent: "icache_coherent fetch (icache_invalidate_all m)"
  by (simp add: icache_coherent_def icache_invalidate_all_def)

lemma icache_lookup_coherent:
  assumes "icache_coherent fetch m" "icache_lookup pc m = Some (instr, h)" "pc \<noteq> ICACHE_TAG_EMPTY"
  shows "instr = fetch pc \<and> h = unat (shr instr 8)"
  using assms icache_index_less [of pc] by (auto simp: icache_lookup_def icache_coherent_def Let_def split: if_splits)

lemma icache_fill_coherent:
  assumes "icache_coherent fetch m" "even (unat pc)" "instr = fetch pc" "h = unat (shr instr 8)"
  shows "icache_coherent fetch (icache_fill pc instr h m)"
  using assms by (auto simp: icache_fill_def icache_coherent_def Let_def)

text \<open>Dropping the two entries of an even address keeps the cache coherent with a memory that has
  changed only in the four bytes there. For an odd address it does not: the third halfword is
  missed.\<close>

lemma icache_invalidate_addr_coherent:
  assumes coh: "icache_coherent fetch m" and en: "m_icache_enabled m"
    and even: "even (unat addr)"
    and same: "\<And>pc. even (unat pc) \<Longrightarrow> pc \<noteq> addr \<Longrightarrow> pc \<noteq> addr + 2 \<Longrightarrow> fetch' pc = fetch pc"
  shows "icache_coherent fetch' (icache_invalidate_addr addr m)"
  unfolding icache_coherent_def Let_def
proof (intro allI impI)
  fix i :: nat
  let ?e = "m_icache (icache_invalidate_addr addr m) i"
  assume i: "i < 65536" and ne: "ic_pc ?e \<noteq> ICACHE_TAG_EMPTY"
  have keep: "?e = m_icache m i" "i \<noteq> icache_index addr" "i \<noteq> icache_index (addr + 2)"
    using ne en by (auto simp: icache_invalidate_addr_def Let_def icache_drop_apply icache_index_next [OF even]
        split: if_splits)
  have e: "even (unat (ic_pc ?e))" "icache_index (ic_pc ?e) = i" "ic_instr ?e = fetch (ic_pc ?e)"
    "ic_handler ?e = unat (shr (ic_instr ?e) 8)"
    using coh i ne unfolding keep(1) icache_coherent_def Let_def by auto
  have "fetch' (ic_pc ?e) = fetch (ic_pc ?e)"
    using keep(2,3) e(1,2) by (intro same) auto
  then show "even (unat (ic_pc ?e)) \<and> icache_index (ic_pc ?e) = i \<and> ic_instr ?e = fetch' (ic_pc ?e) \<and>
      ic_handler ?e = unat (shr (ic_instr ?e) 8)"
    using e by simp
qed

lemma icache_coherent_cong: "m_icache m' = m_icache m \<Longrightarrow> icache_coherent fetch m' = icache_coherent fetch m"
  by (simp add: icache_coherent_def)

section \<open>Compiled blocks\<close>

text \<open>A block holds the halfwords of the memory from its start, none of them the prefix of a 32-bit
  instruction, and only the last one may end a block.\<close>

definition block_ok :: "(u32 \<Rightarrow> u16) \<Rightarrow> jit_block \<Rightarrow> bool" where
  "block_ok fetch b \<longleftrightarrow> jb_length b \<le> 64 \<and>
     (\<forall>k < jb_length b. jb_instrs b k = fetch (jb_start_pc b + of_nat (2 * k)) \<and>
        shr (jb_instrs b k) 11 < 0x1D \<and> (Suc k < jb_length b \<longrightarrow> \<not> jit_is_terminal (jb_instrs b k)))"

lemma jit_scan_ok:
  assumes "\<And>a m. in_rom a \<or> in_flash a \<Longrightarrow> pl_fetch16 p a m = (fetch a, m)"
    and "jb_length blk = i" "cur_pc = jb_start_pc blk + of_nat (2 * i)" "i + n \<le> 64"
    and "\<forall>k < i. jb_instrs blk k = fetch (jb_start_pc blk + of_nat (2 * k)) \<and>
           shr (jb_instrs blk k) 11 < 0x1D \<and> \<not> jit_is_terminal (jb_instrs blk k)"
    and "jit_scan p n i cur_pc blk m = (blk', m')"
  shows "m' = m \<and> jb_start_pc blk' = jb_start_pc blk \<and> block_ok fetch blk'"
  using assms
proof (induction n arbitrary: i cur_pc blk)
  case 0
  then show ?case by (auto simp: block_ok_def)
next
  case (Suc n)
  have stop: ?case if "blk' = blk" "m' = m" using that Suc.prems by (auto simp: block_ok_def)
  show ?case
  proof (cases "in_rom cur_pc \<or> in_flash cur_pc")
    case False
    then show ?thesis using Suc.prems(6) by (intro stop) simp_all
  next
    case True
    define instr where "instr = fetch cur_pc"
    define blk1 where
      "blk1 = blk\<lparr>jb_instrs := (jb_instrs blk)(i := instr), jb_length := jb_length blk + 1\<rparr>"
    have step: "(blk', m') = (if instr = 0 \<and> i = 0 then (blk, m) else if shr instr 11 \<ge> 0x1D then (blk, m)
        else if jit_is_terminal instr then (blk1, m) else jit_scan p n (i + 1) (cur_pc + 2) blk1 m)"
      using Suc.prems(6) True unfolding instr_def blk1_def
      by (simp add: Suc.prems(1) Let_def cong: if_cong)
    have blk1: "jb_length blk1 = i + 1" "jb_start_pc blk1 = jb_start_pc blk"
        "cur_pc + 2 = jb_start_pc blk1 + of_nat (2 * (i + 1))"
      using Suc.prems(2,3) by (simp_all add: blk1_def algebra_simps)
    have words: "jb_instrs blk1 k = fetch (jb_start_pc blk1 + of_nat (2 * k)) \<and> shr (jb_instrs blk1 k) 11 < 0x1D"
      if "k < i + 1" "shr instr 11 < 0x1D" for k
    proof (cases "k = i")
      case True
      then show ?thesis using that(2) Suc.prems(3) by (simp add: blk1_def instr_def)
    next
      case False
      then show ?thesis using that(1) Suc.prems(5) [rule_format, of k] by (auto simp: blk1_def)
    qed
    consider "blk' = blk" "m' = m" | "shr instr 11 < 0x1D" "jit_is_terminal instr" "blk' = blk1" "m' = m"
      | "shr instr 11 < 0x1D" "\<not> jit_is_terminal instr" "jit_scan p n (i + 1) (cur_pc + 2) blk1 m = (blk', m')"
      using step by (auto split: if_splits simp: not_le)
    then show ?thesis
    proof cases
      case 1
      then show ?thesis by (rule stop)
    next
      case 2
      have "\<not> jit_is_terminal (jb_instrs blk1 k)" if "Suc k < i + 1" for k
        using that Suc.prems(5) [rule_format, of k] by (auto simp: blk1_def)
      then have "block_ok fetch blk1"
        unfolding block_ok_def blk1(1) using words [OF _ 2(1)] Suc.prems(4) by (intro conjI allI impI) (blast | simp)+
      then show ?thesis using 2 blk1(2) by simp
    next
      case 3
      have "\<forall>k < i + 1. jb_instrs blk1 k = fetch (jb_start_pc blk1 + of_nat (2 * k)) \<and>
           shr (jb_instrs blk1 k) 11 < 0x1D \<and> \<not> jit_is_terminal (jb_instrs blk1 k)"
      proof (intro allI impI)
        fix k assume k: "k < i + 1"
        have "\<not> jit_is_terminal (jb_instrs blk1 k)"
        proof (cases "k = i")
          case True
          then show ?thesis using 3(2) by (simp add: blk1_def)
        next
          case False
          then show ?thesis using k Suc.prems(5) [rule_format, of k] by (auto simp: blk1_def)
        qed
        then show "jb_instrs blk1 k = fetch (jb_start_pc blk1 + of_nat (2 * k)) \<and>
            shr (jb_instrs blk1 k) 11 < 0x1D \<and> \<not> jit_is_terminal (jb_instrs blk1 k)"
          using words [OF k 3(1)] by blast
      qed
      from Suc.IH [OF Suc.prems(1) blk1(1,3) _ this 3(3)] show ?thesis
        using Suc.prems(4) blk1(2) by simp
    qed
  qed
qed

text \<open>What \<^verbatim>\<open>jit_compile\<close> returns is such a block of at least two instructions.\<close>

lemma jit_compile_ok:
  assumes "\<And>a m. in_rom a \<or> in_flash a \<Longrightarrow> pl_fetch16 p a m = (fetch a, m)"
    and "jit_compile p pc m = (Some b, m')"
  shows "block_ok fetch b \<and> jb_start_pc b = pc \<and> 1 < jb_length b \<and>
    m' = m\<lparr>m_jit_cache := (m_jit_cache m)(jit_index pc := b)\<rparr>"
proof -
  let ?b0 = "(m_jit_cache m (jit_index pc))\<lparr>jb_start_pc := pc, jb_length := 0\<rparr>"
  obtain blk m1 where s: "jit_scan p 64 0 pc ?b0 m = (blk, m1)" by (cases "jit_scan p 64 0 pc ?b0 m")
  have "m1 = m \<and> jb_start_pc blk = jb_start_pc ?b0 \<and> block_ok fetch blk"
    using assms(1) s by (intro jit_scan_ok [where p = p and n = 64 and i = 0 and cur_pc = pc and blk = ?b0]) auto
  then show ?thesis
    using assms(2) s by (auto simp: jit_compile_def Let_def split: if_splits)
qed

end
