(* ===== verification/Cpu.thy ===== *)
theory Cpu
  imports Thumb Code_Cache
begin

unbundle bit_operations_syntax

text \<open>
  The execution engine of \<^verbatim>\<open>src/cpu.c\<close>: the cycle costs of instructions, the advance of time, IT
  predication, and one step of a core with its interrupt check, block cache, instruction cache and
  dispatch. The hooks of the developer tools and debug printing are left out.
\<close>

section \<open>Cycle costs and time\<close>

definition timing_set_clock_mhz :: "u32 \<Rightarrow> 'b mach \<Rightarrow> 'b mach" where
  "timing_set_clock_mhz mhz m =
     m\<lparr>m_cycles_per_us := (if mhz = 0 then 1 else mhz), m_cycle_accumulator := 0\<rparr>"

text \<open>The lookup table, by the high byte of the instruction; 0 asks for a dynamic computation.\<close>

definition timing_lut :: "nat \<Rightarrow> nat" where
  "timing_lut i =
     (if i = 0x47 then 3
      else if 0x48 \<le> i \<and> i \<le> 0x9F then 2
      else if i \<in> {0xB4, 0xB5, 0xBC, 0xBD} then 0
      else if 0xC0 \<le> i \<and> i \<le> 0xCF then 0
      else if 0xD0 \<le> i \<and> i \<le> 0xDD then 0
      else if 0xE0 \<le> i \<and> i \<le> 0xE7 then 2
      else 1)"

definition popcount :: "u16 \<Rightarrow> nat" where
  "popcount w = length (filter (bit w) [0..<16])"

definition timing_instruction_cycles :: "u16 \<Rightarrow> bool \<Rightarrow> u32" where
  "timing_instruction_cycles instr branch_taken =
     (let top8 = unat (shr instr 8); cost = timing_lut top8; n = popcount (instr AND 0xFF) in
      if cost \<noteq> 0 then of_nat cost
      else if top8 = 0xB4 \<or> top8 = 0xB5 then 1 + of_nat n + (ucast (shr instr 8) AND 1)
      else if top8 = 0xBC \<or> top8 = 0xBD then
        1 + (of_nat n + (ucast (shr instr 8) AND 1) + (if instr AND 0x100 \<noteq> 0 then 1 else 0))
      else if 0xC0 \<le> top8 \<and> top8 \<le> 0xCF then 1 + of_nat n
      else if 0xD0 \<le> top8 \<and> top8 \<le> 0xDD then (if branch_taken then 2 else 1)
      else 1)"

definition timing_instruction_cycles_32 :: "u16 \<Rightarrow> u16 \<Rightarrow> u32" where
  "timing_instruction_cycles_32 upper lower =
     (if upper AND 0xF800 = 0xF000 \<and> lower AND 0xD000 = 0xD000 then 4
      else if upper AND 0xFFF0 = 0xF380 \<and> lower AND 0xFF00 = 0x8800 then 4
      else if upper AND 0xFFFF = 0xF3EF \<and> lower AND 0xF000 = 0x8000 then 4
      else if upper AND 0xFFFF = 0xF3BF \<and> lower AND 0xFF00 = 0x8F00 then 3
      else 2)"

text \<open>Timer and calendar clock advance together.\<close>

definition tick_us :: "'b platform \<Rightarrow> u32 \<Rightarrow> 'b mach \<Rightarrow> 'b mach" where
  "tick_us p us m =
     (let (t, nv) = timer_tick us (m_timer m, m_nv m);
          m1 = m\<lparr>m_timer := t, m_nv := nv, m_rtc := rtc_tick us (m_rtc m)\<rparr>
      in if membus_rp2350_mode (m_nv m1) then pl_timer1_tick p us m1 else m1)"

definition advance_shared_time :: "'b mach \<Rightarrow> bool" where
  "advance_shared_time m \<longleftrightarrow> get_active_core m = 0 \<or>
     m_num_active_cores m = 1 \<or> cd_is_wfi (m_cores m 0) \<or> cd_is_halted (m_cores m 0)"

definition timing_tick :: "'b platform \<Rightarrow> u32 \<Rightarrow> 'b mach \<Rightarrow> 'b mach" where
  "timing_tick p cycles m =
     upd_nv (systick_tick cycles)
       (if advance_shared_time m then
          let acc = m_cycle_accumulator m + cycles; cpus = m_cycles_per_us m in
          if acc \<ge> cpus then
            let us = acc div cpus in tick_us p us (m\<lparr>m_cycle_accumulator := acc - us * cpus\<rparr>)
          else m\<lparr>m_cycle_accumulator := acc\<rparr>
        else m)"

section \<open>Predication\<close>

text \<open>The condition of the current slot of an IT block.\<close>

definition it_condition :: "cpu_state \<Rightarrow> u8" where
  "it_condition c =
     (if cpu_it_pos c > 0 then
        (let te_bit = shr (cpu_it_mask c) (4 - unat (cpu_it_pos c)) AND 1 in
         if te_bit \<noteq> cpu_it_base c AND 1 then cpu_it_base c XOR 1 else cpu_it_base c)
      else cpu_it_base c)"

definition it_advance :: "cpu_state \<Rightarrow> cpu_state" where
  "it_advance c =
     (let pos = cpu_it_pos c + 1 in
      if pos \<ge> cpu_it_len c then c\<lparr>cpu_it_len := 0, cpu_it_pos := 0\<rparr> else c\<lparr>cpu_it_pos := pos\<rparr>)"

definition it_check_skip :: "'b platform \<Rightarrow> u32 \<Rightarrow> 'b mach \<Rightarrow> bool \<times> 'b mach" where
  "it_check_skip p pc m =
     (if cpu_it_len (m_cpu m) = 0 then (False, m)
      else let (iw, m1) = pl_fetch16 p pc m in
        if shr iw 8 = 0xBF \<and> iw AND 0x000F \<noteq> 0 then (False, m1)
        else (\<not> t32_check_cond (cpu_xpsr (m_cpu m1)) (it_condition (m_cpu m1)), upd_cpu it_advance m1))"

section \<open>Running a block\<close>

definition begin_instr :: "u32 \<Rightarrow> cpu_state \<Rightarrow> cpu_state" where
  "begin_instr pc c = (set_r 15 pc c)\<lparr>pc_updated := False\<rparr>"

text \<open>The instructions of a block but the last: \<open>n\<close> of them, from index \<open>i\<close>. The result says
  whether one of them left the straight line.\<close>

fun jit_run :: "'b platform \<Rightarrow> jit_block \<Rightarrow> nat \<Rightarrow> nat \<Rightarrow> u32 \<Rightarrow> u32 \<Rightarrow> 'b mach \<Rightarrow>
    bool \<times> nat \<times> u32 \<times> u32 \<times> 'b mach" where
  "jit_run p blk 0 i pc total_cycles m = (False, i, pc, total_cycles, m)"
| "jit_run p blk (Suc n) i pc total_cycles m =
     (let instr = jb_instrs blk i;
          m1 = dispatch_table p (unat (shr instr 8)) instr (upd_cpu (begin_instr pc) m)
      in if pc_updated (m_cpu m1) \<or> reg m1 15 \<noteq> pc then
           (True, i + 1, pc, total_cycles + timing_instruction_cycles instr (reg m1 15 \<noteq> pc + 2), m1)
         else
           (let cyc = timing_lut (unat (shr instr 8))
            in jit_run p blk n (i + 1) (pc + 2)
                 (total_cycles + (if cyc \<noteq> 0 then of_nat cyc else timing_instruction_cycles instr False)) m1))"

definition jit_last :: "'b platform \<Rightarrow> u16 \<Rightarrow> u32 \<Rightarrow> u32 \<Rightarrow> 'b mach \<Rightarrow> u32 \<times> 'b mach" where
  "jit_last p instr pc total_cycles m =
     (let m1 = dispatch_table p (unat (shr instr 8)) instr (upd_cpu (begin_instr pc) m);
          branch_taken = (pc_updated (m_cpu m1) \<and> reg m1 15 \<noteq> pc + 2);
          base_cycles = timing_lut (unat (shr instr 8))
      in (total_cycles + (if base_cycles \<noteq> 0 then of_nat base_cycles
                          else timing_instruction_cycles instr branch_taken),
          if \<not> pc_updated (m_cpu m1) \<and> reg m1 15 = pc then upd_cpu (set_r 15 (pc + 2)) m1 else m1))"

definition jit_execute :: "'b platform \<Rightarrow> jit_block \<Rightarrow> 'b mach \<Rightarrow> 'b mach" where
  "jit_execute p blk m =
     (let (left, i, pc, cycles, m1) = jit_run p blk (jb_length blk - 1) 0 (jb_start_pc blk) 0 m;
          (i2, cycles2, m2) =
            (if left then (i, cycles, m1)
             else let (cy, m') = jit_last p (jb_instrs blk i) pc cycles m1 in (i + 1, cy, m'))
      in timing_tick p cycles2 (upd_cpu (\<lambda>c. c\<lparr>cpu_step_count := cpu_step_count c + of_nat i2\<rparr>) m2))"

section \<open>One step\<close>

text \<open>Where the program counter points: \<open>Inl\<close> the step is over, \<open>Inr\<close> it goes on.\<close>

definition check_pc :: "'b platform \<Rightarrow> u32 \<Rightarrow> 'b mach \<Rightarrow> 'b mach + 'b mach" where
  "check_pc p pc m =
     (if in_flash pc then Inr m
      else if in_rom pc then
        (let (hit, m1) = pl_rom_intercept p pc m in if hit then Inl (timing_tick p 4 m1) else Inr m1)
      else if membus_rp2350_mode (m_nv m) \<and> in_block pc 0x08000000 0x4000 then
        (let (hit, m1) = pl_rom_intercept p (pc - 0x08000000) m
         in if hit then Inl (timing_tick p 4 m1) else Inr m1)
      else if pc \<ge> 0x20000000 \<and> pc < pl_ram_top p m then Inr m
      else if pc = 0xFFFFFFFF then Inl m
      else
        (let (handler, m1) = pl_read32 p (cpu_vtor (m_cpu m) + EXC_HARDFAULT * 4) m in
         if handler \<noteq> 0 \<and> handler \<noteq> 0xFFFFFFFF then Inl (cpu_exception_entry p EXC_HARDFAULT m1)
         else Inl (upd_cpu (set_r 15 0xFFFFFFFF) m1)))"

definition any_pending :: "nvic_ctx \<Rightarrow> bool" where
  "any_pending c \<longleftrightarrow>
     nv_pending (nvic_cur c) 0 AND nv_enable (nvic_cur c) 0 \<noteq> 0 \<or>
     nv_pending (nvic_cur c) 1 AND nv_enable (nvic_cur c) 1 \<noteq> 0 \<or>
     st_pending (systick_cur c) \<or> nv_pendsv_pending (nvic_cur c)"

definition active_priority :: "'b mach \<Rightarrow> u8" where
  "active_priority m =
     (if cpu_current_irq (m_cpu m) \<noteq> 0xFFFFFFFF
      then nvic_get_exception_priority (m_nv m) (cpu_current_irq (m_cpu m)) else 0xFF)"

text \<open>The vector to take before the next instruction.\<close>

definition interrupt_due :: "'b mach \<Rightarrow> u32 option" where
  "interrupt_due m =
     (if cpu_primask (m_cpu m) = 0 \<and> cpu_faultmask (m_cpu m) = 0 \<and> any_pending (m_nv m)
      then preempting_vector True (m_nv m) (active_priority m) else None)"

definition exec_16 :: "'b platform \<Rightarrow> u32 \<Rightarrow> bool \<Rightarrow> u16 \<Rightarrow> nat option \<Rightarrow> 'b mach \<Rightarrow> 'b mach" where
  "exec_16 p pc in_it_block instr cached m =
     (let saved_nzcv = (if in_it_block then cpu_xpsr (m_cpu m) AND 0xF0000000 else 0);
          m1 = upd_cpu (\<lambda>c. c\<lparr>pc_updated := False,
                 cpu_it_suppress := (if in_it_block then True else cpu_it_suppress c)\<rparr>) m;
          (handler, m2) = (case cached of Some h \<Rightarrow> (h, m1)
             | None \<Rightarrow> (unat (shr instr 8), icache_fill pc instr (unat (shr instr 8)) m1));
          m3 = dispatch_table p handler instr m2;
          m4 = (if in_it_block \<and> cpu_it_suppress (m_cpu m3)
                then upd_cpu (\<lambda>c. c\<lparr>cpu_xpsr := (cpu_xpsr c AND NOT 0xF0000000) OR saved_nzcv\<rparr>) m3 else m3);
          m5 = upd_cpu (\<lambda>c. c\<lparr>cpu_it_suppress := False\<rparr>) m4;
          m6 = (if \<not> pc_updated (m_cpu m5) then upd_cpu (set_r 15 (pc + 2)) m5 else m5)
      in timing_tick p (timing_instruction_cycles instr (reg m6 15 \<noteq> pc + 2)) m6)"

definition exec_one :: "'b platform \<Rightarrow> u32 \<Rightarrow> bool \<Rightarrow> 'b mach \<Rightarrow> 'b mach" where
  "exec_one p pc in_it_block m =
     (let (instr, cached, m1) =
            (case icache_lookup pc m of Some (i, h) \<Rightarrow> (i, Some h, m)
             | None \<Rightarrow> (let (i, m') = pl_fetch16 p pc m in (i, None, m')));
          m2 = upd_cpu (\<lambda>c. c\<lparr>cpu_step_count := cpu_step_count c + 1\<rparr>) m1
      in if instr = 0 then timing_tick p 1 (upd_cpu (set_r 15 (pc + 2)) m2)
         else if shr instr 11 \<ge> 0x1D then
           (let (instr2, m3) = pl_fetch16 p (pc + 2) m2;
                (handled, m4) = pl_thumb32_step p pc instr instr2 (upd_cpu (\<lambda>c. c\<lparr>pc_updated := False\<rparr>) m3);
                m5 = (if handled then m4 else cpu_exception_entry p EXC_HARDFAULT m4)
            in timing_tick p (timing_instruction_cycles_32 instr instr2) m5)
         else exec_16 p pc in_it_block instr cached m2)"

definition exec_block :: "'b platform \<Rightarrow> u32 \<Rightarrow> 'b mach \<Rightarrow> 'b mach + 'b mach" where
  "exec_block p pc m =
     (if m_jit_enabled m \<and> \<not> cpu_debug_enabled (m_cpu m) then
        (let block = m_jit_cache m (jit_index pc) in
         if jb_start_pc block = pc \<and> jb_length block > 1 then Inl (jit_execute p block m)
         else if in_flash pc \<or> in_rom pc then
           (case jit_compile p pc m of (Some b, m1) \<Rightarrow> Inl (jit_execute p b m1) | (None, m1) \<Rightarrow> Inr m1)
         else Inr m)
      else Inr m)"

definition cpu_step :: "'b platform \<Rightarrow> 'b mach \<Rightarrow> 'b mach" where
  "cpu_step p m =
     (let pc = reg m 15;
          in_it_block = (cpu_it_len (m_cpu m) \<noteq> 0);
          (skip, m0) = (if in_it_block then it_check_skip p pc m else (False, m))
      in if skip then
           (let (iw, m1) = pl_fetch16 p pc m0
            in timing_tick p 1 (upd_cpu (set_r 15 (pc + (if shr iw 11 \<ge> 0x1D then 4 else 2))) m1))
         else case check_pc p pc m0 of Inl m1 \<Rightarrow> m1
         | Inr m1 \<Rightarrow>
           (case interrupt_due m1 of
              Some vec \<Rightarrow> timing_tick p 1 (cpu_exception_entry p vec (upd_nv (nv_unpend vec) m1))
            | None \<Rightarrow>
              (case exec_block p pc m1 of Inl m2 \<Rightarrow> m2 | Inr m2 \<Rightarrow> exec_one p pc in_it_block m2)))"

section \<open>Reset and halting\<close>

definition cpu_init :: "'b platform \<Rightarrow> 'b mach \<Rightarrow> 'b mach" where
  "cpu_init p m =
     icache_init (pl_init_ram p (upd_cpu (\<lambda>c. c\<lparr>cpu_r := (\<lambda>i. if i < 16 then 0 else cpu_r c i),
       cpu_xpsr := 0x01000000, cpu_step_count := 0, cpu_debug_enabled := False,
       cpu_current_irq := 0xFFFFFFFF, cpu_primask := 0, cpu_control := 0, cpu_it_base := 0,
       cpu_it_mask := 0, cpu_it_pos := 0, cpu_it_len := 0, cpu_it_suppress := False,
       cpu_fp := fp_zero, cpu_vtor := 0x10000100\<rparr>) m))"

definition cpu_reset_from_flash :: "'b platform \<Rightarrow> 'b mach \<Rightarrow> 'b mach" where
  "cpu_reset_from_flash p m =
     (let m0 = upd_cpu (\<lambda>c. c\<lparr>cpu_vtor := 0x10000100\<rparr>) m;
          (initial_sp, m1) = pl_read32 p (cpu_vtor (m_cpu m0)) m0;
          (reset_vector, m2) = pl_read32 p (cpu_vtor (m_cpu m1) + 4) m1
      in if initial_sp < 0x20000000 \<or> initial_sp > pl_ram_top p m2 then upd_cpu (set_r 15 0xFFFFFFFF) m2
         else if reset_vector AND 1 = 0 then upd_cpu (set_r 15 0xFFFFFFFF) m2
         else upd_cpu (\<lambda>c. (set_r 14 0xFFFFFFFF (set_r 15 (reset_vector AND NOT 1) (set_r 13 initial_sp c)))
                \<lparr>cpu_xpsr := 0x01000000\<rparr>) m2)"

definition cpu_is_halted :: "'b platform \<Rightarrow> 'b mach \<Rightarrow> bool" where
  "cpu_is_halted p m \<longleftrightarrow>
     (let pc = reg m 15 in
      if pc = 0xFFFFFFFF then True
      else if in_rom pc then False
      else if in_flash pc then False
      else if pc \<ge> 0x20000000 \<and> pc < pl_ram_top p m then False
      else True)"

section \<open>Bounds on cycle costs\<close>

lemma popcount_low_byte: "popcount (w AND 0xFF) \<le> 8"
proof -
  have b: "bit (w AND 0xFF) i \<longleftrightarrow> i < 8 \<and> bit w i" for i
    using bit_take_bit_iff [of 8 w i] by (simp add: take_bit_eq_mask mask_eq_exp_minus_1)
  have "set (filter (bit (w AND 0xFF)) [0..<16]) \<subseteq> {..<8}" by (auto simp: b)
  then have "card (set (filter (bit (w AND 0xFF)) [0..<16])) \<le> 8"
    using card_mono [of "{..<8::nat}"] by simp
  then show ?thesis unfolding popcount_def by (subst (asm) distinct_card) auto
qed

lemma small_sum_bounds:
  fixes x :: u32
  assumes "n \<le> 8" "x = 0 \<or> x = 1"
  shows "1 + of_nat n + x \<in> {1..11}" "1 + (of_nat n + x + 1) \<in> {1..11}" "1 + (of_nat n + x) \<in> {1..11}"
    "1 + of_nat n \<in> {1..(11 :: u32)}"
proof -
  have "n \<in> {0, 1, 2, 3, 4, 5, 6, 7, 8}" using assms(1) unfolding insert_iff empty_iff by arith
  then show "1 + of_nat n + x \<in> {1..11}" "1 + (of_nat n + x + 1) \<in> {1..11}" "1 + (of_nat n + x) \<in> {1..11}"
    "1 + of_nat n \<in> {1..(11 :: u32)}"
    using assms(2) by (auto simp: word_le_nat_alt)
qed

text \<open>Every 16-bit instruction costs between 1 and 11 cycles, the largest cost being that of a
  POP of eight registers and PC; every 32-bit instruction costs between 2 and 4.\<close>

theorem instruction_cycles_bounds:
  "timing_instruction_cycles instr taken \<in> {1..11} \<and>
   timing_instruction_cycles_32 upper lower \<in> {2..4}"
proof -
  let ?n = "popcount (instr AND 0xFF)" and ?x = "ucast (shr instr 8) AND 1 :: u32"
  have x: "?x = 0 \<or> ?x = 1" unfolding and_one_eq by (rule parity_cases [of "ucast (shr instr 8) :: u32"]) simp_all
  note b = small_sum_bounds [OF popcount_low_byte [of instr] x]
  have "timing_instruction_cycles instr taken \<in> {1..11}"
    using b unfolding timing_instruction_cycles_def Let_def timing_lut_def
    by (simp split: if_splits)
  moreover have "timing_instruction_cycles_32 upper lower \<in> {2..4}"
    by (simp add: timing_instruction_cycles_32_def)
  ultimately show ?thesis ..
qed

section \<open>The instruction cache is transparent\<close>

text \<open>The reference: every instruction is fetched from memory and decoded.\<close>

definition exec_fetched :: "'b platform \<Rightarrow> u32 \<Rightarrow> bool \<Rightarrow> 'b mach \<Rightarrow> 'b mach" where
  "exec_fetched p pc in_it_block m =
     (let (instr, m1) = pl_fetch16 p pc m;
          m2 = upd_cpu (\<lambda>c. c\<lparr>cpu_step_count := cpu_step_count c + 1\<rparr>) m1
      in if instr = 0 then timing_tick p 1 (upd_cpu (set_r 15 (pc + 2)) m2)
         else if shr instr 11 \<ge> 0x1D then
           (let (instr2, m3) = pl_fetch16 p (pc + 2) m2;
                (handled, m4) = pl_thumb32_step p pc instr instr2 (upd_cpu (\<lambda>c. c\<lparr>pc_updated := False\<rparr>) m3);
                m5 = (if handled then m4 else cpu_exception_entry p EXC_HARDFAULT m4)
            in timing_tick p (timing_instruction_cycles_32 instr instr2) m5)
         else exec_16 p pc in_it_block instr None m2)"

lemma icache_fill_upd_cpu: "icache_fill pc i h (upd_cpu f m) = upd_cpu f (icache_fill pc i h m)"
  by (simp add: icache_fill_def upd_cpu_def)

lemma icache_lookup_fill: "icache_lookup pc m = Some (i, h) \<Longrightarrow> icache_fill pc i h m = m"
  by (cases "m_icache m (icache_index pc)")
    (auto simp: icache_lookup_def icache_fill_def Let_def fun_upd_idem split: if_splits)

text \<open>With a coherent instruction cache a step through the cache is the same as a step that
  fetches and decodes its instruction from memory, on a hit and on a miss.\<close>

lemma exec_one_coherent:
  assumes "icache_coherent fetch m" "pl_fetch16 p pc m = (fetch pc, m)" "pc \<noteq> 0xFFFFFFFF"
  shows "exec_one p pc in_it_block m = exec_fetched p pc in_it_block m"
proof (cases "icache_lookup pc m")
  case None
  then show ?thesis by (simp add: exec_one_def exec_fetched_def split_beta Let_def)
next
  case (Some e)
  then obtain i h where e: "icache_lookup pc m = Some (i, h)" by (cases e) auto
  have ih: "i = fetch pc" "h = unat (shr i 8)"
    using icache_lookup_coherent [OF assms(1) e assms(3)] by auto
  have "exec_16 p pc b i (Some h) (upd_cpu f m) = exec_16 p pc b i None (upd_cpu f m)" for b f
    using icache_lookup_fill [OF e] by (simp add: exec_16_def icache_fill_upd_cpu ih(2))
  then show ?thesis by (simp add: exec_one_def exec_fetched_def e assms(2) ih(1) [symmetric] Let_def)
qed

text \<open>An IT instruction on the condition EQ does not end a block, because only a non-zero condition
  field is taken for a hint; the instructions after it then run in the same block, where no
  predication is checked.\<close>

lemma it_eq_does_not_end_block: "\<not> jit_is_terminal 0xBF08" "jit_is_terminal 0xBF18"
  by (simp_all add: jit_is_terminal_def jit_terminal_bitmap_def)
section \<open>Predication follows the architecture\<close>

text \<open>The architecture keeps the state of an IT block in one byte: the condition of the next
  instruction on top, the rest of the mask below. Advancing shifts the low five bits; the block is
  over when the low three bits are zero.\<close>

definition itstate_next :: "u8 \<Rightarrow> u8" where
  "itstate_next s = (if s AND 7 = 0 then 0 else (s AND 0xE0) OR (shl s 1 AND 0x1F))"

fun itstate_conditions :: "nat \<Rightarrow> u8 \<Rightarrow> u8 list" where
  "itstate_conditions 0 s = []"
| "itstate_conditions (Suc n) s = (if s AND 0xF = 0 then [] else shr s 4 # itstate_conditions n (itstate_next s))"

fun it_conditions :: "nat \<Rightarrow> cpu_state \<Rightarrow> u8 list" where
  "it_conditions 0 c = []"
| "it_conditions (Suc n) c = (if cpu_it_len c = 0 then [] else it_condition c # it_conditions n (it_advance c))"

text \<open>The state byte as a pair of nibbles.\<close>

definition itstate :: "u8 \<Rightarrow> u8 \<Rightarrow> u8" where
  "itstate b k = shl b 4 OR k"

lemma u8_eqI:
  fixes a b :: u8
  assumes "bit a 0 = bit b 0" "bit a 1 = bit b 1" "bit a 2 = bit b 2" "bit a 3 = bit b 3"
    "bit a 4 = bit b 4" "bit a 5 = bit b 5" "bit a 6 = bit b 6" "bit a 7 = bit b 7"
  shows "a = b"
proof (rule bit_word_eqI)
  fix i assume "i < LENGTH(8)"
  then have "i \<in> {0, 1, 2, 3, 4, 5, 6, 7}" unfolding insert_iff empty_iff by (simp; arith)
  then show "bit a i = bit b i" using assms by auto
qed

lemma nibble_bits: "(x :: u8) < 16 \<Longrightarrow> \<not> bit x 4 \<and> \<not> bit x 5 \<and> \<not> bit x 6 \<and> \<not> bit x 7 \<and>
    \<not> bit x 8 \<and> \<not> bit x 9 \<and> \<not> bit x 10 \<and> \<not> bit x 11"
  using nibble_bit [of x] by fastforce

lemma itstate_parts:
  assumes "b < 16" "k < 16"
  shows "shr (itstate b k) 4 = b" "itstate b k AND 0xF = k" "itstate b k AND 7 = k AND 7"
    "(itstate b k AND 0xE0) OR (shl (itstate b k) 1 AND 0x1F) =
       itstate ((b AND NOT 1) OR shr k 3) (shl k 1 AND 0xF)"
  using nibble_bits [OF assms(1)] nibble_bits [OF assms(2)]
  unfolding itstate_def
  by (auto intro!: u8_eqI simp: bit_simps bit_double_iff mult.commute [of k 2])

text \<open>The condition with its low bit replaced, as the architecture does it and as the code does it.\<close>

definition with_low :: "u8 \<Rightarrow> u8 \<Rightarrow> u8" where
  "with_low b e = (b AND NOT 1) OR e"

lemma with_low_less: "b < 16 \<Longrightarrow> e < 2 \<Longrightarrow> with_low b e < 16"
proof -
  assume "b < 16" "e < 2"
  then have e: "e = 0 \<or> e = 1" unfolding word_less_nat_alt word_unat_eq_iff by auto
  have "with_low b e = take_bit 4 (with_low b e)"
    using nibble_bits [OF \<open>b < 16\<close>] e unfolding with_low_def by (auto intro!: u8_eqI simp: bit_simps)
  then have "unat (with_low b e) = take_bit 4 (unat (with_low b e))" by (metis unsigned_take_bit_eq)
  then show ?thesis
    using take_bit_nat_less_exp [of 4 "unat (with_low b e)"] by (simp add: word_less_nat_alt)
qed

lemma with_low_with_low: "e \<in> {0, 1} \<Longrightarrow> with_low (with_low b e) e' = with_low b e'"
  unfolding with_low_def by (auto intro!: bit_word_eqI simp: bit_simps)

lemma it_condition_with_low:
  "it_condition c = (if cpu_it_pos c > 0
     then with_low (cpu_it_base c) (shr (cpu_it_mask c) (4 - unat (cpu_it_pos c)) AND 1) else cpu_it_base c)"
proof -
  have "(if e AND 1 \<noteq> b AND 1 then b XOR 1 else b) = with_low b (e AND 1)" for b e :: u8
    unfolding with_low_def and_one_eq
    by (auto intro!: bit_word_eqI simp: bit_simps odd_iff_mod_2_eq_one bit_0)
  then show ?thesis by (simp add: it_condition_def Let_def)
qed

lemma u8_le_values: "\<not> (2 :: u8) \<le> 1" "\<not> (3 :: u8) \<le> 1" "\<not> (4 :: u8) \<le> 1"
  by (simp_all add: word_le_nat_alt)

lemma itstate_next_with:
  assumes "b < 16" "k < 16"
  shows "itstate_next (itstate b k) = (if k AND 7 = 0 then 0 else itstate (with_low b (shr k 3)) (shl k 1 AND 0xF))"
  unfolding itstate_next_def itstate_parts [OF assms] with_low_def ..

lemma it_mask_len_values:
  "it_mask_len 1 = 4" "it_mask_len 2 = 3" "it_mask_len 3 = 4" "it_mask_len 4 = 2" "it_mask_len 5 = 4"
  "it_mask_len 6 = 3" "it_mask_len 7 = 4" "it_mask_len 8 = 1" "it_mask_len 9 = 4" "it_mask_len 10 = 3"
  "it_mask_len 11 = 4" "it_mask_len 12 = 2" "it_mask_len 13 = 4" "it_mask_len 14 = 3" "it_mask_len 15 = 4"
  by (simp_all add: it_mask_len_def it_mask_ctz.simps)

definition it_armed :: "u8 \<Rightarrow> u8 \<Rightarrow> cpu_state \<Rightarrow> cpu_state" where
  "it_armed b k c = c\<lparr>cpu_it_base := b, cpu_it_mask := k, cpu_it_pos := 0, cpu_it_len := ucast (it_mask_len (ucast k))\<rparr>"

lemma it_conditions_armed:
  assumes b: "b < 16" and k: "k \<in> {1, 2, 3, 4, 5, 6, 7, 8, 9, 10, 11, 12, 13, 14, 15}"
  shows "it_conditions 5 (it_armed b k c) = itstate_conditions 5 (itstate b k) \<and>
    length (itstate_conditions 5 (itstate b k)) \<le> 4"
proof -
  have w: "with_low b 0 < 16" "with_low b 1 < 16" using b by (simp_all add: with_low_less)
  have five: "(5 :: nat) = Suc (Suc (Suc (Suc (Suc 0))))" by simp
  note s = it_condition_with_low it_advance_def it_armed_def u8_le_values
    itstate_parts itstate_next_with with_low_with_low it_mask_len_values b w
  show ?thesis using k unfolding five
    by (elim insertE emptyE; simp only:; simp add: s)
qed
lemma nibble_values: "(x :: u8) < 16 \<Longrightarrow> x \<noteq> 0 \<Longrightarrow> x \<in> {1, 2, 3, 4, 5, 6, 7, 8, 9, 10, 11, 12, 13, 14, 15}"
  unfolding insert_iff empty_iff word_less_nat_alt word_unat_eq_iff by (simp; arith)

lemma nibble_of_less: "ucast (w AND 0xF :: u16) < (16 :: u8)"
proof -
  have "unat (w AND 0xF) = take_bit 4 (unat w)"
    by (simp add: unsigned_and_eq take_bit_eq_mask mask_eq_exp_minus_1)
  then have "unat (w AND 0xF) < 16" using take_bit_nat_less_exp [of 4 "unat w"] by simp
  then show ?thesis by (simp add: word_less_nat_alt unsigned_ucast_eq take_bit_nat_eq_self)
qed

text \<open>Predication follows the architecture: after an IT instruction the conditions under which
  the emulator runs the following instructions are exactly the ones the architectural IT state
  byte gives, one after the other, and both blocks end after the same instruction.\<close>

theorem it_block_conditions:
  assumes "instr AND 0xF \<noteq> 0"
  shows "it_conditions 5 (instr_it instr c) = itstate_conditions 5 (ucast instr) \<and>
    length (itstate_conditions 5 (ucast instr)) \<le> 4"
proof -
  let ?b = "ucast (shr instr 4 AND 0xF) :: u8" and ?k = "ucast (instr AND 0xF) :: u8"
  have k: "?k \<noteq> 0"
  proof
    assume "?k = 0"
    have "bit ?k i" if "bit instr i" "i < 4" for i
      using that by (simp add: bit_simps numeral_masks)
    with \<open>?k = 0\<close> have "\<not> bit instr i" if "i < 4" for i
      using that by (metis bit_0_eq bot_apply bot_bool_def)
    then have "instr AND 0xF = 0" unfolding numeral_masks by (intro bit_word_eqI) (auto simp: bit_simps)
    then show False using assms by simp
  qed
  have s: "ucast instr = itstate ?b ?k"
    unfolding itstate_def by (intro u8_eqI) (simp_all add: bit_simps)
  have "instr_it instr c = it_armed ?b ?k c"
  proof -
    have "ucast ?k = (ucast (instr AND 0xF) :: u32)"
      by (rule bit_word_eqI) (auto simp: bit_simps numeral_masks)
    then show ?thesis by (simp add: instr_it_def it_set_state_def it_armed_def)
  qed
  then show ?thesis
    unfolding s by (simp only:) (intro it_conditions_armed nibble_of_less nibble_values k)
qed

theorem it_block_conditions_witness:
  "(0xBF8C :: u16) AND 0xF \<noteq> 0 \<and>
   it_conditions 5 (instr_it 0xBF8C cpu_zero) = itstate_conditions 5 0x8C \<and>
   itstate_conditions 5 0x8C = [8, 9]"
proof -
  have arm: "(0xBF8C :: u16) AND 0xF \<noteq> 0" and low: "(ucast (0xBF8C :: u16) :: u8) = 0x8C" by simp_all
  have "itstate_conditions 5 0x8C = [8, 9]" by code_simp
  then show ?thesis using it_block_conditions [OF arm, of cpu_zero] arm unfolding low by blast
qed

section \<open>No cycle is lost\<close>

lemma signal_frame [simp]:
  "active_core (nvic_signal_rp2350_irq irq c) = active_core c"
  "membus_rp2350_mode (nvic_signal_rp2350_irq irq c) = membus_rp2350_mode c"
  by (simp_all add: nvic_signal_rp2350_irq_def nvic_signal_irq_def)

lemma timer_tick_frame [simp]:
  "active_core (snd (timer_tick n s)) = active_core (snd s)"
  "membus_rp2350_mode (snd (timer_tick n s)) = membus_rp2350_mode (snd s)"
  "tm_paused (fst (timer_tick n s)) = tm_paused (fst s)"
  by (simp_all add: timer_tick_def split_beta Let_def upt_0_4 timer_check_alarm_nvic)

lemma systick_tick_frame [simp]:
  "active_core (systick_tick n c) = active_core c"
  "membus_rp2350_mode (systick_tick n c) = membus_rp2350_mode c"
  by (simp_all add: systick_tick_def upd_st_def)

text \<open>The cycles of an instruction, with the core that executes it, and those among them that drive the shared time: the
  cycles of core 0, and those of core 1 too while core 0 is not there to do so.\<close>

definition run_cycles :: "'b platform \<Rightarrow> nat \<times> u32 \<Rightarrow> 'b mach \<Rightarrow> 'b mach" where
  "run_cycles p e m = timing_tick p (snd e) (set_active_core (fst e) m)"

definition shared_cycles :: "'b mach \<Rightarrow> nat \<times> u32 \<Rightarrow> nat" where
  "shared_cycles m e =
     (if fst e = 0 \<or> m_num_active_cores m = 1 \<or> cd_is_wfi (m_cores m 0) \<or> cd_is_halted (m_cores m 0) then unat (snd e) else 0)"

text \<open>What the clock relies on: the second timer of the RP2350 is apart from the shared time.\<close>

locale shared_clock =
  fixes p :: "'b platform"
  assumes timer1: "m_cores (pl_timer1_tick p us m) = m_cores m"
    "m_num_active_cores (pl_timer1_tick p us m) = m_num_active_cores m"
    "m_timer (pl_timer1_tick p us m) = m_timer m"
    "m_cycle_accumulator (pl_timer1_tick p us m) = m_cycle_accumulator m"
    "m_cycles_per_us (pl_timer1_tick p us m) = m_cycles_per_us m"
begin

lemma tick_us_shared:
  "m_cores (tick_us p us m) = m_cores m" "m_num_active_cores (tick_us p us m) = m_num_active_cores m"
  "m_cycle_accumulator (tick_us p us m) = m_cycle_accumulator m" "m_cycles_per_us (tick_us p us m) = m_cycles_per_us m"
  "tm_paused (m_timer (tick_us p us m)) = tm_paused (m_timer m)"
  "tm_time_us (m_timer (tick_us p us m)) = tm_time_us (m_timer m) + (if tm_paused (m_timer m) = 0 then ucast us else 0)"
proof -
  obtain t nv where t: "timer_tick us (m_timer m, m_nv m) = (t, nv)" by (cases "timer_tick us (m_timer m, m_nv m)")
  have "tm_paused t = tm_paused (m_timer m)" using timer_tick_frame [of us "(m_timer m, m_nv m)"] by (simp add: t)
  moreover have "tm_time_us t = tm_time_us (m_timer m) + (if tm_paused (m_timer m) = 0 then ucast us else 0)"
    using timer_tick_bits(3) [of "m_timer m" _ us "m_nv m"] t by (cases "tm_paused (m_timer m) = 0") (auto simp: timer_tick_def)
  ultimately show
    "m_cores (tick_us p us m) = m_cores m" "m_num_active_cores (tick_us p us m) = m_num_active_cores m"
    "m_cycle_accumulator (tick_us p us m) = m_cycle_accumulator m" "m_cycles_per_us (tick_us p us m) = m_cycles_per_us m"
    "tm_paused (m_timer (tick_us p us m)) = tm_paused (m_timer m)"
    "tm_time_us (m_timer (tick_us p us m)) = tm_time_us (m_timer m) + (if tm_paused (m_timer m) = 0 then ucast us else 0)"
    by (simp_all add: tick_us_def t Let_def timer1)
qed

lemma run_cycles_step:
  fixes m :: "'b mach" and e :: "nat \<times> u32"
  defines "acc \<equiv> unat (m_cycle_accumulator m)" and "n \<equiv> unat (m_cycles_per_us m)" and "c \<equiv> shared_cycles m e"
  assumes lt: "acc < n" and small: "n + unat (snd e) \<le> 2 ^ 32" and core: "fst e < 2"
  shows "m_cores (run_cycles p e m) = m_cores m" "m_num_active_cores (run_cycles p e m) = m_num_active_cores m"
    "m_cycles_per_us (run_cycles p e m) = m_cycles_per_us m" "tm_paused (m_timer (run_cycles p e m)) = tm_paused (m_timer m)"
    "unat (m_cycle_accumulator (run_cycles p e m)) = (acc + c) mod n"
    "tm_time_us (m_timer (run_cycles p e m)) =
       tm_time_us (m_timer m) + (if tm_paused (m_timer m) = 0 then of_nat ((acc + c) div n) else 0)"
proof -
  let ?m = "set_active_core (fst e) m" and ?w = "m_cycle_accumulator m + snd e"
  have f: "m_cores ?m = m_cores m" "m_num_active_cores ?m = m_num_active_cores m" "m_cycles_per_us ?m = m_cycles_per_us m"
    "m_timer ?m = m_timer m" "m_cycle_accumulator ?m = m_cycle_accumulator m" "get_active_core ?m = fst e"
    using core by (simp_all add: set_active_core_def upd_nv_def)
  have adv: "c = (if advance_shared_time ?m then unat (snd e) else 0)"
    by (simp add: c_def shared_cycles_def advance_shared_time_def f)
  have sum: "unat ?w = acc + unat (snd e)"
    using small lt unfolding acc_def n_def by (subst unat_word_ariths) simp
  have us: "(ucast (?w div m_cycles_per_us m) :: u64) = of_nat ((acc + unat (snd e)) div n)"
    unfolding sum [symmetric] n_def by (simp add: unat_div [symmetric] of_nat_unat)
  have rest: "?w - ?w div m_cycles_per_us m * m_cycles_per_us m = ?w mod m_cycles_per_us m" by (simp add: minus_div_mult_eq_mod)
  have r: "unat (?w mod m_cycles_per_us m) = (acc + unat (snd e)) mod n" by (simp add: unat_mod sum n_def)
  have le: "m_cycles_per_us m \<le> ?w \<longleftrightarrow> n \<le> acc + unat (snd e)" by (simp add: word_le_nat_alt sum n_def)
  show "m_cores (run_cycles p e m) = m_cores m" "m_num_active_cores (run_cycles p e m) = m_num_active_cores m"
    "m_cycles_per_us (run_cycles p e m) = m_cycles_per_us m" "tm_paused (m_timer (run_cycles p e m)) = tm_paused (m_timer m)"
    "unat (m_cycle_accumulator (run_cycles p e m)) = (acc + c) mod n"
    "tm_time_us (m_timer (run_cycles p e m)) =
       tm_time_us (m_timer m) + (if tm_paused (m_timer m) = 0 then of_nat ((acc + c) div n) else 0)"
    using lt sum unfolding run_cycles_def timing_tick_def Let_def
    by (simp_all add: f adv upd_nv_def tick_us_shared us rest r le acc_def [symmetric] not_le)
qed

lemma cycles_conserved:
  assumes "m_cycle_accumulator m < m_cycles_per_us m" "\<forall>(k, c) \<in> set es. k < 2 \<and> unat (m_cycles_per_us m) + unat c \<le> 2 ^ 32"
  shows "unat (m_cycle_accumulator (fold (run_cycles p) es m)) =
      (unat (m_cycle_accumulator m) + sum_list (map (shared_cycles m) es)) mod unat (m_cycles_per_us m) \<and>
    tm_time_us (m_timer (fold (run_cycles p) es m)) = tm_time_us (m_timer m) + (if tm_paused (m_timer m) = 0
      then of_nat ((unat (m_cycle_accumulator m) + sum_list (map (shared_cycles m) es)) div unat (m_cycles_per_us m)) else 0)"
  using assms
proof (induction es arbitrary: m)
  case (Cons e es)
  let ?n = "unat (m_cycles_per_us m)" and ?a = "unat (m_cycle_accumulator m) + shared_cycles m e" and ?m = "run_cycles p e m"
    and ?s = "sum_list (map (shared_cycles m) es)"
  have lt: "unat (m_cycle_accumulator m) < ?n" "?n + unat (snd e) \<le> 2 ^ 32" "fst e < 2"
    using Cons.prems by (auto simp: word_less_nat_alt)
  note step = run_cycles_step [OF lt]
  have s: "shared_cycles ?m = shared_cycles m" by (simp add: fun_eq_iff shared_cycles_def step(1,2))
  have n: "0 < ?n" using lt(1) by simp
  have "(?a + ?s) div ?n = ?a div ?n + (?a mod ?n + ?s) div ?n"
    using n div_mult_self2 [of ?n "?a mod ?n + ?s" "?a div ?n"]
    by (simp add: add.assoc [symmetric] add.commute [of _ "?a mod ?n"])
  moreover have "(?a mod ?n + ?s) mod ?n = (?a + ?s) mod ?n" by (simp add: mod_add_left_eq)
  moreover have "m_cycle_accumulator ?m < m_cycles_per_us ?m" using n by (simp add: word_less_nat_alt step(3,5))
  moreover have "\<forall>(k, c) \<in> set es. k < 2 \<and> unat (m_cycles_per_us ?m) + unat c \<le> 2 ^ 32" using Cons.prems(2) by (simp add: step(3))
  ultimately show ?case using Cons.IH [of ?m] unfolding step(3-6) s by (simp add: add.assoc)
qed (simp_all add: word_less_nat_alt)

end

end
