(* ===== verification/Thumb32.thy ===== *)
theory Thumb32
  imports Cpu
begin

unbundle bit_operations_syntax

text \<open>
  The 32-bit Thumb instructions of the Cortex-M33 that work on the core registers and on memory
  (\<^verbatim>\<open>src/thumb32.c\<close>): data processing with shifted registers and with immediates, wide branches, loads and
  stores, multiplication, division, saturation and bit fields. Each handler takes the two halves of the
  instruction; an instruction that a group does not know is \<open>None\<close>, the return value 0 of the source. Debug
  output and the recording of calls are left out. The lemmas give the flags of a 64-bit comparison their
  meaning, and show that a wide pop restores what a wide push saved, that saturation stays within its limits,
  and that bit fields are extracted as they were inserted.
\<close>

section \<open>Fields and operands\<close>

text \<open>A 16-bit field of the two halves of an instruction as a 32-bit number.\<close>

abbreviation fld :: "u16 \<Rightarrow> nat \<Rightarrow> u16 \<Rightarrow> u32" where
  "fld h n msk \<equiv> ucast (shr h n AND msk)"

text \<open>What C leaves undefined is an argument: a shift of a word by 32 or more, and the quotient of the
  least number by minus one.\<close>

record c_undefined =
  uc_shl :: "u32 \<Rightarrow> nat \<Rightarrow> u32"
  uc_shr :: "u32 \<Rightarrow> nat \<Rightarrow> u32"
  uc_sdiv :: u32

definition c_shl :: "c_undefined \<Rightarrow> u32 \<Rightarrow> nat \<Rightarrow> u32" where
  "c_shl uc v n = (if n < 32 then shl v n else uc_shl uc v n)"

definition thumb32_expand_imm :: "u32 \<Rightarrow> u32" where
  "thumb32_expand_imm imm12 =
     (let b = imm12 AND 0xFF; k = shr imm12 8 in
      if k = 0 then b
      else if k = 1 then shl b 16 OR b
      else if k = 2 then shl b 24 OR shl b 8
      else if k = 3 then shl b 24 OR shl b 16 OR shl b 8 OR b
      else let val = 0x80 OR (imm12 AND 0x7F); rot = idx imm12 7 0x1F
           in if rot = 0 then val else shr val rot OR shl val (32 - rot))"

definition t32_shift_c :: "u32 \<Rightarrow> nat \<Rightarrow> nat \<Rightarrow> cpu_state \<Rightarrow> u32 \<times> bool" where
  "t32_shift_c val ty n c =
     (if n = 0 then (val, cpu_xpsr c AND FLAG_C \<noteq> 0)
      else if ty = 0 then
        (if n \<ge> 32 then (0, n = 32 \<and> bit val 0) else (shl val n, bit (shr val (32 - n)) 0))
      else if ty = 1 then
        (if n > 32 then (0, False) else if n = 32 then (0, bit val 31) else (shr val n, bit (shr val (n - 1)) 0))
      else if ty = 2 then
        (if n \<ge> 32 then (if val AND 0x80000000 \<noteq> 0 then 0xFFFFFFFF else 0, bit val 31)
         else (signed_drop_bit n val, bit (shr val (n - 1)) 0))
      else if ty = 3 then
        (let k = n mod 32 in
         if k = 0 then (val, bit val 31) else (shr val k OR shl val (32 - k), bit (shr val (k - 1)) 0))
      else (val, False))"

section \<open>Data processing\<close>

definition t32_carry :: "cpu_state \<Rightarrow> u32" where
  "t32_carry c = (if cpu_xpsr c AND FLAG_C \<noteq> 0 then 1 else 0)"

definition t32_logic_flags :: "bool \<Rightarrow> u32 \<Rightarrow> bool \<Rightarrow> cpu_state \<Rightarrow> cpu_state" where
  "t32_logic_flags s res shift_c c = (if s then set_carry shift_c (update_nz_flags res c) else c)"

definition t32_adc_flags :: "u32 \<Rightarrow> u32 \<Rightarrow> u32 \<Rightarrow> cpu_state \<Rightarrow> cpu_state" where
  "t32_adc_flags rn imm32 cin c =
     (let r64 = (ucast rn :: u64) + ucast imm32 + ucast cin
      in set_carry (r64 > 0xFFFFFFFF) (update_add_flags rn (imm32 + cin) (ucast r64) c))"

definition t32_sbc_flags :: "u32 \<Rightarrow> u32 \<Rightarrow> u32 \<Rightarrow> cpu_state \<Rightarrow> cpu_state" where
  "t32_sbc_flags rn imm32 b c =
     (let res = rn - imm32 - b; ures = (ucast rn :: u64) - ucast imm32 - ucast b;
          flags = cond_mask (res = 0) FLAG_Z OR cond_mask (res AND 0x80000000 \<noteq> 0) FLAG_N OR
            cond_mask (shr ures 32 = 0) FLAG_C OR
            cond_mask (((rn XOR imm32) AND (rn XOR res)) AND 0x80000000 \<noteq> 0) FLAG_V
      in c\<lparr>cpu_xpsr := (cpu_xpsr c AND NOT (FLAG_N OR FLAG_Z OR FLAG_C OR FLAG_V)) OR flags\<rparr>)"

text \<open>The result of an operation, whether it is written, and the state with its flags.\<close>

definition t32_dp_result :: "nat \<Rightarrow> bool \<Rightarrow> nat \<Rightarrow> nat \<Rightarrow> u32 \<Rightarrow> bool \<Rightarrow> cpu_state \<Rightarrow> bool \<times> u32 \<times> cpu_state" where
  "t32_dp_result op s rn_nr rd imm32 shift_c c =
     (let rn = cpu_r c rn_nr; cin = t32_carry c; wr = \<not> (rd = 15 \<and> s);
          logic = (\<lambda>w res. (w, res, t32_logic_flags s res shift_c c)) in
      if op = 0 then logic wr (rn AND imm32)
      else if op = 1 then logic True (rn AND NOT imm32)
      else if op = 2 then logic True (if rn_nr = 15 then imm32 else rn OR imm32)
      else if op = 3 then logic True (if rn_nr = 15 then NOT imm32 else rn OR NOT imm32)
      else if op = 4 then logic wr (rn XOR imm32)
      else if op = 8 then (wr, rn + imm32, if s then update_add_flags rn imm32 (rn + imm32) c else c)
      else if op = 10 then (True, rn + imm32 + cin, if s then t32_adc_flags rn imm32 cin c else c)
      else if op = 11 then (True, rn - imm32 - (1 - cin), if s then t32_sbc_flags rn imm32 (1 - cin) c else c)
      else if op = 13 then (wr, rn - imm32, if s then update_sub_flags rn imm32 (rn - imm32) c else c)
      else if op = 14 then (True, imm32 - rn, if s then update_sub_flags imm32 rn (imm32 - rn) c else c)
      else (False, 0, c))"

definition t32_dp_exec :: "nat \<Rightarrow> bool \<Rightarrow> nat \<Rightarrow> nat \<Rightarrow> u32 \<Rightarrow> bool \<Rightarrow> cpu_state \<Rightarrow> cpu_state" where
  "t32_dp_exec op s rn rd imm32 shift_c c =
     (let (wr, res, c1) = t32_dp_result op s rn rd imm32 shift_c c in
      if wr \<and> rd < 16 then
        (if rd = 15 then (set_r 15 (res AND NOT 1) c1)\<lparr>pc_updated := True\<rparr> else set_r rd res c1)
      else c1)"

definition t32_dp_shifted_reg :: "u16 \<Rightarrow> u16 \<Rightarrow> cpu_state \<Rightarrow> cpu_state" where
  "t32_dp_shifted_reg upper lower c =
     (let op = idx upper 5 0xF; s = bit upper 4; rn = idx upper 0 0xF; imm3 = idx lower 12 7; rd = idx lower 8 0xF;
          imm2 = idx lower 6 3; ty = idx lower 4 3; rm = idx lower 0 0xF; n = 4 * imm3 + imm2; rmv = cpu_r c rm;
          (shifted, carry) =
            (if ty = 3 \<and> n = 0 then
               ((if cpu_xpsr c AND FLAG_C \<noteq> 0 then 0x80000000 else 0) OR shr rmv 1, bit rmv 0)
             else t32_shift_c rmv ty (if ty \<noteq> 0 \<and> n = 0 then 32 else n) c)
      in t32_dp_exec op s rn rd shifted carry c)"

definition t32_imm12 :: "u16 \<Rightarrow> u16 \<Rightarrow> u32" where
  "t32_imm12 upper lower = shl (fld upper 10 1) 11 OR shl (fld lower 12 7) 8 OR fld lower 0 0xFF"

definition t32_dp_mod_imm :: "u16 \<Rightarrow> u16 \<Rightarrow> cpu_state \<Rightarrow> cpu_state" where
  "t32_dp_mod_imm upper lower c =
     (let imm32 = thumb32_expand_imm (t32_imm12 upper lower)
      in t32_dp_exec (idx upper 5 0xF) (bit upper 4) (idx upper 0 0xF) (idx lower 8 0xF) imm32 (bit imm32 31) c)"

definition t32_dp_plain_imm :: "'b platform \<Rightarrow> u32 \<Rightarrow> u16 \<Rightarrow> u16 \<Rightarrow> 'b mach \<Rightarrow> 'b mach" where
  "t32_dp_plain_imm p pc upper lower m =
     (let op5 = idx upper 4 0x1F; rn = idx upper 0 0xF; rd = idx lower 8 0xF; imm12 = t32_imm12 upper lower;
          imm16 = shl (fld upper 0 0xF) 12 OR imm12; base = (if rn = 15 then (pc + 4) AND NOT 3 else reg m rn) in
      if op5 = 0x04 then upd_cpu (set_r rd imm16) m
      else if op5 = 0x0C then upd_cpu (\<lambda>c. set_r rd ((cpu_r c rd AND 0xFFFF) OR shl imm16 16) c) m
      else if op5 = 0x00 then upd_cpu (set_r rd (base + imm12)) m
      else if op5 = 0x0A then upd_cpu (set_r rd (base - imm12)) m
      else cpu_exception_entry p EXC_HARDFAULT m)"

section \<open>Branches\<close>

definition t32_wide_offset :: "u16 \<Rightarrow> u16 \<Rightarrow> u32" where
  "t32_wide_offset upper lower =
     (let s = fld upper 10 1; i1 = (if fld lower 13 1 XOR s = 0 then 1 else 0); i2 = (if fld lower 11 1 XOR s = 0 then 1 else 0);
          offset = shl s 24 OR shl i1 23 OR shl i2 22 OR shl (fld upper 0 0x3FF) 12 OR shl (fld lower 0 0x7FF) 1
      in if s \<noteq> 0 then offset OR 0xFF000000 else offset)"

definition t32_bl :: "u32 \<Rightarrow> u16 \<Rightarrow> u16 \<Rightarrow> cpu_state \<Rightarrow> cpu_state" where
  "t32_bl pc upper lower c =
     (set_r 15 (pc + 4 + t32_wide_offset upper lower) (set_r 14 ((pc + 4) OR 1) c))\<lparr>pc_updated := True\<rparr>"

definition t32_cond_offset :: "u16 \<Rightarrow> u16 \<Rightarrow> u32" where
  "t32_cond_offset upper lower =
     (let s = fld upper 10 1;
          offset = shl s 20 OR shl (fld lower 11 1) 19 OR shl (fld lower 13 1) 18 OR shl (fld upper 0 0x3F) 12 OR
            shl (fld lower 0 0x7FF) 1
      in if s \<noteq> 0 then offset OR 0xFFE00000 else offset)"

definition t32_branch :: "u32 \<Rightarrow> u16 \<Rightarrow> u16 \<Rightarrow> cpu_state \<Rightarrow> cpu_state" where
  "t32_branch pc upper lower c =
     (if bit lower 12 then (set_r 15 (pc + 4 + t32_wide_offset upper lower) c)\<lparr>pc_updated := True\<rparr>
      else if t32_check_cond (cpu_xpsr c) (ucast (shr upper 6 AND 0xF))
      then (set_r 15 (pc + 4 + t32_cond_offset upper lower) c)\<lparr>pc_updated := True\<rparr>
      else c)"

definition t32_tbb_tbh :: "'b platform \<Rightarrow> u32 \<Rightarrow> u16 \<Rightarrow> u16 \<Rightarrow> 'b mach \<Rightarrow> 'b mach" where
  "t32_tbb_tbh p pc upper lower m =
     (let rn = idx upper 0 0xF; base = (if rn = 15 then pc + 4 else reg m rn); index = reg m (idx lower 0 0xF);
          (offset, m1) =
            (if bit lower 4 then let (v, m1) = pl_read16 p (base + index * 2) m in (ucast v * 2, m1)
             else let (v, m1) = pl_read8 p (base + index) m in (ucast v * 2, m1))
      in upd_cpu (\<lambda>c. (set_r 15 (pc + 4 + offset) c)\<lparr>pc_updated := True\<rparr>) m1)"

section \<open>Loads and stores\<close>

definition t32_writeback :: "nat \<Rightarrow> bool \<Rightarrow> u32 \<Rightarrow> u32 \<Rightarrow> cpu_state \<Rightarrow> cpu_state" where
  "t32_writeback rn is_db bytes base_end c = set_r rn (if is_db then cpu_r c rn - bytes else base_end) c"

definition t32_load_list :: "'b platform \<Rightarrow> u16 \<Rightarrow> nat list \<Rightarrow> u32 \<times> 'b mach \<Rightarrow> u32 \<times> 'b mach" where
  "t32_load_list p reglist is s = fold (\<lambda>i s. if bit reglist i then load_next p i s else s) is s"

definition t32_store_list :: "'b platform \<Rightarrow> u32 \<Rightarrow> u16 \<Rightarrow> u32 \<times> 'b mach \<Rightarrow> u32 \<times> 'b mach" where
  "t32_store_list p pc reglist s =
     fold (\<lambda>i (addr, m). if bit reglist i then (addr + 4, pl_write32 p addr (if i = 15 then pc + 4 else reg m i) m)
            else (addr, m)) [0..<16] s"

text \<open>The program counter is the last register of a list: its load ends the instruction when it is a
  return from an exception.\<close>

definition t32_ldst_multiple :: "'b platform \<Rightarrow> u32 \<Rightarrow> u16 \<Rightarrow> u16 \<Rightarrow> 'b mach \<Rightarrow> 'b mach" where
  "t32_ldst_multiple p pc upper lower m =
     (let is_db = bit upper 8; l = bit upper 4; w = bit upper 5; rn = idx upper 0 0xF;
          reglist = (lower AND 0x3FFF) OR (if lower AND 0x4000 \<noteq> 0 then shl 1 14 else 0) OR
            (if lower AND 0x8000 \<noteq> 0 then shl 1 15 else 0);
          bytes = of_nat (popcount reglist * 4) :: u32;
          addr = (if is_db then reg m rn - bytes else reg m rn); base_end = addr + bytes;
          back = upd_cpu (t32_writeback rn is_db bytes base_end) in
      if l then
        (let (a1, m1) = t32_load_list p reglist [0..<15] (addr, m);
             finish = (\<lambda>m. if w \<and> \<not> bit reglist rn then back m else m) in
         if bit reglist 15 then
           (let (val, m2) = pl_read32 p a1 m1 in
            if val AND 0xFFFFFFF0 = 0xFFFFFFF0
            then upd_cpu (\<lambda>c. c\<lparr>pc_updated := True\<rparr>) (cpu_exception_return p val (finish m2))
            else finish (upd_cpu (\<lambda>c. (set_r 15 (val AND NOT 1) c)\<lparr>pc_updated := True\<rparr>) m2))
         else finish m1)
      else let (a1, m1) = t32_store_list p pc reglist (addr, m) in if w then back m1 else m1)"

definition t32_ldrd_strd :: "'b platform \<Rightarrow> u16 \<Rightarrow> u16 \<Rightarrow> 'b mach \<Rightarrow> 'b mach" where
  "t32_ldrd_strd p upper lower m =
     (let rn = idx upper 0 0xF; rt = idx lower 12 0xF; rt2 = idx lower 8 0xF; imm8 = shl (fld lower 0 0xFF) 2;
          base = reg m rn; offset_addr = (if bit upper 7 then base + imm8 else base - imm8);
          addr = (if bit upper 8 then offset_addr else base);
          m1 = (if bit upper 4 then load32 p rt2 (addr + 4) (load32 p rt addr m)
                else let m1 = pl_write32 p addr (reg m rt) m in pl_write32 p (addr + 4) (reg m1 rt2) m1)
      in if bit upper 5 then upd_cpu (set_r rn offset_addr) m1 else m1)"

definition load8 :: "'b platform \<Rightarrow> bool \<Rightarrow> nat \<Rightarrow> u32 \<Rightarrow> 'b mach \<Rightarrow> 'b mach" where
  "load8 p is_signed rt addr m =
     (let (v, m1) = pl_read8 p addr m in upd_cpu (set_r rt (if is_signed then scast v else ucast v)) m1)"

definition load16 :: "'b platform \<Rightarrow> bool \<Rightarrow> nat \<Rightarrow> u32 \<Rightarrow> 'b mach \<Rightarrow> 'b mach" where
  "load16 p is_signed rt addr m =
     (let (v, m1) = pl_read16 p addr m in upd_cpu (set_r rt (if is_signed then scast v else ucast v)) m1)"

text \<open>A load of a word interworks when it is to the program counter.\<close>

definition load32_pc :: "'b platform \<Rightarrow> nat \<Rightarrow> u32 \<Rightarrow> 'b mach \<Rightarrow> 'b mach" where
  "load32_pc p rt addr m =
     (let (v, m1) = pl_read32 p addr m in
      if rt = 15 then upd_cpu (\<lambda>c. (set_r 15 (v AND NOT 1) c)\<lparr>pc_updated := True\<rparr>) m1 else upd_cpu (set_r rt v) m1)"

abbreviation store8 :: "'b platform \<Rightarrow> nat \<Rightarrow> u32 \<Rightarrow> 'b mach \<Rightarrow> 'b mach" where
  "store8 p rt addr m \<equiv> pl_write8 p addr (ucast (reg m rt AND 0xFF)) m"

abbreviation store16 :: "'b platform \<Rightarrow> nat \<Rightarrow> u32 \<Rightarrow> 'b mach \<Rightarrow> 'b mach" where
  "store16 p rt addr m \<equiv> pl_write16 p addr (ucast (reg m rt AND 0xFFFF)) m"

abbreviation store32 :: "'b platform \<Rightarrow> nat \<Rightarrow> u32 \<Rightarrow> 'b mach \<Rightarrow> 'b mach" where
  "store32 p rt addr m \<equiv> pl_write32 p addr (reg m rt) m"

text \<open>The forms with a 12-bit offset; a kind of access that does not exist leaves the machine alone.\<close>

definition t32_ldst_imm12 :: "'b platform \<Rightarrow> nat \<Rightarrow> bool \<Rightarrow> nat \<Rightarrow> u32 \<Rightarrow> 'b mach \<Rightarrow> 'b mach" where
  "t32_ldst_imm12 p bits74 is_signed rt addr m =
     (if bits74 = 0x8 then store8 p rt addr m
      else if bits74 = 0x9 then load8 p is_signed rt addr m
      else if bits74 = 0xA then store16 p rt addr m
      else if bits74 = 0xB then load16 p is_signed rt addr m
      else if bits74 = 0xC then store32 p rt addr m
      else if bits74 = 0xD then load32_pc p rt addr m
      else m)"

text \<open>The access of the indexed and the register forms.\<close>

definition t32_ldst_form :: "'b platform \<Rightarrow> nat \<Rightarrow> bool \<Rightarrow> bool \<Rightarrow> nat \<Rightarrow> u32 \<Rightarrow> 'b mach \<Rightarrow> 'b mach option" where
  "t32_ldst_form p bits74 is_signed l rt addr m =
     (if bits74 = 0x8 \<or> bits74 = 0x0 then Some (if l then load8 p False rt addr m else store8 p rt addr m)
      else if bits74 = 0x9 \<or> bits74 = 0x1 then Some (load8 p is_signed rt addr m)
      else if bits74 = 0xA \<or> bits74 = 0x2 then Some (if l then load16 p False rt addr m else store16 p rt addr m)
      else if bits74 = 0xB \<or> bits74 = 0x3 then Some (load16 p is_signed rt addr m)
      else if bits74 = 0xC \<or> bits74 = 0x4 then Some (if l then load32 p rt addr m else store32 p rt addr m)
      else if bits74 = 0xD \<or> bits74 = 0x5 then Some (if l then load32_pc p rt addr m else store32 p rt addr m)
      else None)"

definition t32_ldst_indexed :: "'b platform \<Rightarrow> u32 \<Rightarrow> u16 \<Rightarrow> u16 \<Rightarrow> 'b mach \<Rightarrow> 'b mach" where
  "t32_ldst_indexed p base upper lower m =
     (let imm8 = fld lower 0 0xFF; offset_addr = (if bit lower 9 then base + imm8 else base - imm8);
          addr = (if bit lower 10 then offset_addr else base) in
      case t32_ldst_form p (idx upper 4 0xF) (idx upper 8 0xF = 9) (bit upper 4) (idx lower 12 0xF) addr m of
        Some m1 \<Rightarrow> if bit lower 8 then upd_cpu (set_r (idx upper 0 0xF) offset_addr) m1 else m1
      | None \<Rightarrow> m)"

definition t32_ldst_register :: "'b platform \<Rightarrow> u32 \<Rightarrow> u16 \<Rightarrow> u16 \<Rightarrow> 'b mach \<Rightarrow> 'b mach" where
  "t32_ldst_register p base upper lower m =
     (let addr = base + shl (reg m (idx lower 0 0xF)) (idx lower 4 3); bits74 = idx upper 4 0xF; rt = idx lower 12 0xF in
      case t32_ldst_form p bits74 (idx upper 8 0xF = 9) (bit upper 4) rt addr m of
        Some m1 \<Rightarrow> m1
      | None \<Rightarrow> if bits74 = 0x7 then load16 p True rt addr m else m)"

definition t32_ldst_single :: "'b platform \<Rightarrow> u32 \<Rightarrow> u16 \<Rightarrow> u16 \<Rightarrow> 'b mach \<Rightarrow> 'b mach" where
  "t32_ldst_single p pc upper lower m =
     (let rn = idx upper 0 0xF; base = (if rn = 15 then (pc + 4) AND NOT 3 else reg m rn) in
      if bit upper 7
      then t32_ldst_imm12 p (idx upper 4 0xF) (idx upper 8 0xF = 9) (idx lower 12 0xF) (base + fld lower 0 0xFFF) m
      else if lower AND 0x0800 \<noteq> 0 \<or> rn = 15 \<and> lower AND 0x0FFF = 0
      then t32_ldst_indexed p base upper lower m
      else t32_ldst_register p base upper lower m)"

text \<open>Accesses by the code of a size, of which 3 is none.\<close>

definition t32_read :: "'b platform \<Rightarrow> nat \<Rightarrow> u32 \<Rightarrow> 'b mach \<Rightarrow> u32 \<times> 'b mach" where
  "t32_read p sz addr m =
     (if sz = 0 then let (v, m1) = pl_read8 p addr m in (ucast v, m1)
      else if sz = 1 then let (v, m1) = pl_read16 p addr m in (ucast v, m1)
      else if sz = 2 then pl_read32 p addr m else (0, m))"

definition t32_write :: "'b platform \<Rightarrow> nat \<Rightarrow> nat \<Rightarrow> u32 \<Rightarrow> 'b mach \<Rightarrow> 'b mach" where
  "t32_write p sz rt addr m =
     (if sz = 0 then store8 p rt addr m else if sz = 1 then store16 p rt addr m else if sz = 2 then store32 p rt addr m else m)"

section \<open>Multiplication, saturation and bit fields\<close>

text \<open>A register that is written unless it is the program counter.\<close>

definition set_rd :: "nat \<Rightarrow> u32 \<Rightarrow> cpu_state \<Rightarrow> cpu_state" where
  "set_rd rd v c = (if rd \<noteq> 15 then set_r rd v c else c)"

text \<open>The sticky saturation flag.\<close>

definition set_q :: "bool \<Rightarrow> cpu_state \<Rightarrow> cpu_state" where
  "set_q q c = (if q then c\<lparr>cpu_xpsr := cpu_xpsr c OR shl 1 27\<rparr> else c)"

text \<open>A value forced into an interval, and whether it lay outside.\<close>

definition saturate :: "int \<Rightarrow> int \<Rightarrow> int \<Rightarrow> int \<times> bool" where
  "saturate lo hi s = (if s < lo then (lo, True) else if s > hi then (hi, True) else (s, False))"

abbreviation half :: "u32 \<Rightarrow> nat \<Rightarrow> int" where
  "half v l \<equiv> sint (ucast (shr v (l * 16)) :: u16)"

text \<open>The lane \<open>l\<close> of a word for lanes of 16 or 8 bits.\<close>

definition dsp_lane :: "nat \<Rightarrow> u32 \<Rightarrow> nat \<Rightarrow> int" where
  "dsp_lane bits v l = (if bits = 16 then half v l else sint (ucast (shr v (l * 8)) :: u8))"

definition dsp_one :: "bool \<Rightarrow> bool \<Rightarrow> nat \<Rightarrow> u32 \<Rightarrow> u32 \<Rightarrow> nat \<Rightarrow> u32 \<times> bool" where
  "dsp_one is_sub is_h bits a b l =
     (let av = dsp_lane bits a l; bv = dsp_lane bits b l; s = (if is_sub then av - bv else av + bv);
          (r, q) = (if is_h then (s div 2, False)
                    else if bits = 16 then saturate (- 32768) 32767 s else saturate (- 128) 127 s)
      in (shl (word_of_int r AND (if bits = 16 then 0xFFFF else 0xFF)) (l * bits), q))"

definition dsp_unsigned :: "bool \<Rightarrow> u32 \<Rightarrow> u32 \<Rightarrow> nat \<Rightarrow> u32 \<times> bool" where
  "dsp_unsigned is_sub a b l =
     (let av = shr a (l * 16) AND 0xFFFF; bv = shr b (l * 16) AND 0xFFFF; s = (if is_sub then av - bv else av + bv);
          over = (\<not> is_sub \<and> s > 0xFFFF); under = (is_sub \<and> av < bv)
      in (shl ((if under then 0 else if over then 0xFFFF else s) AND 0xFFFF) (l * 16), over \<or> under))"

definition dsp_lanes :: "(nat \<Rightarrow> u32 \<times> bool) \<Rightarrow> nat \<Rightarrow> u32 \<times> bool" where
  "dsp_lanes f lanes = fold (\<lambda>l (res, q). (res OR fst (f l), q \<or> snd (f l))) [0..<lanes] (0, False)"

definition dsp_exchange :: "bool \<Rightarrow> u32 \<Rightarrow> u32 \<Rightarrow> u32 \<times> bool" where
  "dsp_exchange asx a b =
     (let (s0, q0) = saturate (- 32768) 32767 (if asx then half a 0 - half b 1 else half a 0 + half b 1);
          (s1, q1) = saturate (- 32768) 32767 (if asx then half a 1 + half b 0 else half a 1 - half b 0)
      in ((word_of_int s0 AND 0xFFFF) OR shl (word_of_int s1 AND 0xFFFF) 16, q0 \<or> q1))"

text \<open>Parallel addition and subtraction.\<close>

definition t32_parallel :: "u16 \<Rightarrow> u16 \<Rightarrow> cpu_state \<Rightarrow> cpu_state option" where
  "t32_parallel upper lower c =
     (if upper AND 0xFF80 = 0xFA80 \<and> lower AND 0xF0F0 = 0xF010 then
        (let opA = idx upper 4 0xF; opB = idx upper 8 0xF; low3 = idx lower 5 7;
             a = cpu_r c (idx upper 0 0xF); b = cpu_r c (idx lower 0 0xF);
             is_u = (opA = 0x9 \<and> opB = 0x9); is_h = (low3 = 1);
             is_sub = (opA = 0xC \<or> opA = 0xD \<or> opA = 0xE); is_ex = (opA = 0xA \<or> opA = 0xE);
             wide = (is_ex \<or> low3 = 0 \<or> low3 = 2 \<or> opB = 0x9 \<or> opB = 0xD);
             (res, q) =
               (if is_ex then dsp_exchange (opA = 0xA) a b
                else dsp_lanes (if is_u then dsp_unsigned is_sub a b
                                else dsp_one is_sub is_h (if wide then 16 else 8) a b) (if wide then 2 else 4))
         in Some (set_q (q \<and> \<not> is_h) (set_rd (idx lower 8 0xF) res c)))
      else None)"

text \<open>Products of halves, added or subtracted, with and without accumulator.\<close>

definition dual_product :: "bool \<Rightarrow> u32 \<Rightarrow> u32 \<Rightarrow> int" where
  "dual_product add a b =
     (if add then half a 0 * half b 0 + half a 1 * half b 1 else half a 0 * half b 0 - half a 1 * half b 1)"

definition t32_dual :: "u16 \<Rightarrow> u16 \<Rightarrow> cpu_state \<Rightarrow> cpu_state option" where
  "t32_dual upper lower c =
     (let a = cpu_r c (idx upper 0 0xF); b = cpu_r c (idx lower 0 0xF); ra = idx lower 12 0xF; rd = idx lower 8 0xF in
      if (upper AND 0xFFF0 = 0xFB20 \<or> upper AND 0xFFF0 = 0xFB40) \<and> lower AND 0x00F0 = 0 then
        Some (set_rd rd ((if ra = 15 then 0 else cpu_r c ra) + word_of_int (dual_product (bit upper 5) a b)) c)
      else if (upper AND 0xFFF0 = 0xFBC0 \<or> upper AND 0xFFF0 = 0xFBD0) \<and> lower AND 0x00F0 = 0x00C0 then
        (let p = word_of_int (dual_product True a b) :: u64;
             acc = shl (ucast (cpu_r c rd) :: u64) 32 OR ucast (cpu_r c ra);
             r = (if bit upper 4 then acc - p else acc + p)
         in Some (set_r rd (ucast (shr r 32)) (set_r ra (ucast r) c)))
      else None)"

definition t32_select :: "u16 \<Rightarrow> u16 \<Rightarrow> cpu_state \<Rightarrow> cpu_state option" where
  "t32_select upper lower c =
     (if upper AND 0xFFF0 = 0xFAA0 \<and> lower AND 0xF0F0 = 0xF080 then
        (let rn = cpu_r c (idx upper 0 0xF); rm = cpu_r c (idx lower 0 0xF); ge = shr (cpu_xpsr c) 16 AND 0xF;
             res = fold (\<lambda>l res. res OR shl ((if bit ge l then shr rn (l * 8) else shr rm (l * 8)) AND 0xFF) (l * 8)) [0..<4] 0
         in Some (set_rd (idx lower 8 0xF) res c))
      else None)"

definition t32_pack :: "u16 \<Rightarrow> u16 \<Rightarrow> cpu_state \<Rightarrow> cpu_state option" where
  "t32_pack upper lower c =
     (if upper AND 0xFFF0 = 0xEAC0 \<and> lower AND 0xF000 = 0 then
        (let rn = cpu_r c (idx upper 0 0xF); v = cpu_r c (idx lower 0 0xF); amount = 4 * idx lower 12 7 + idx lower 6 3;
             sign = (if v AND 0x80000000 \<noteq> 0 then - 1 else 0);
             res = (if \<not> bit lower 5 then (rn AND 0xFFFF) OR (if amount \<ge> 32 then 0 else shl v amount AND 0xFFFF0000)
                    else ((if amount = 0 \<or> amount \<ge> 32 then sign else signed_drop_bit amount v) AND 0xFFFF) OR (rn AND 0xFFFF0000))
         in Some (set_rd (idx lower 8 0xF) res c))
      else None)"

text \<open>The limits of a saturation to \<open>w\<close> bits.\<close>

definition sat_limits :: "bool \<Rightarrow> nat \<Rightarrow> int \<times> int" where
  "sat_limits is_u w = (if is_u then (0, 2 ^ w - 1) else (- (2 ^ (w - 1)), 2 ^ (w - 1) - 1))"

definition t32_sat16 :: "u16 \<Rightarrow> u16 \<Rightarrow> cpu_state \<Rightarrow> cpu_state option" where
  "t32_sat16 upper lower c =
     (if (upper AND 0xFFF0 = 0xF320 \<or> upper AND 0xFFF0 = 0xF3A0) \<and> lower AND 0xF0C0 = 0 then
        (let a = cpu_r c (idx upper 0 0xF); (lo, hi) = sat_limits (bit upper 4) (idx lower 0 0xF + 1);
             (res, q) = dsp_lanes (\<lambda>l. let (r, q) = saturate lo hi (half a l) in (shl (word_of_int r AND 0xFFFF) (l * 16), q)) 2
         in Some (set_q q (set_rd (idx lower 8 0xF) res c)))
      else None)"

definition t32_sat_operand :: "u16 \<Rightarrow> u16 \<Rightarrow> cpu_state \<Rightarrow> u32" where
  "t32_sat_operand upper lower c =
     (let v = cpu_r c (idx upper 0 0xF); amount = 4 * idx lower 12 7 + idx lower 6 3
      in if bit upper 5 then (if amount = 0 then (if v AND 0x80000000 \<noteq> 0 then - 1 else 0) else signed_drop_bit amount v)
         else if amount \<noteq> 0 then shl v amount else v)"

definition t32_sat :: "u16 \<Rightarrow> u16 \<Rightarrow> cpu_state \<Rightarrow> cpu_state option" where
  "t32_sat upper lower c =
     (if (upper AND 0xFFC0 = 0xF300 \<or> upper AND 0xFFC0 = 0xF380) \<and> lower AND 0x8000 = 0 then
        (let is_usat = bit upper 7; sat = idx lower 0 0x1F;
             (lo, hi) = sat_limits is_usat (if is_usat then sat else sat + 1);
             (res, q) = saturate lo hi (sint (t32_sat_operand upper lower c))
         in Some (set_q q (set_rd (idx lower 8 0xF) (word_of_int res) c)))
      else None)"

definition t32_system :: "u16 \<Rightarrow> u16 \<Rightarrow> cpu_state \<Rightarrow> cpu_state option" where
  "t32_system upper lower c =
     (if upper AND 0xFFF0 = 0xF380 \<and> lower AND 0xFF00 = 0x8800 then Some (instr_msr_32 (idx upper 0 0xF) (ucast (lower AND 0xFF)) c)
      else if upper = 0xF3EF \<and> lower AND 0xF000 = 0x8000 then Some (instr_mrs_32 (idx lower 8 0xF) (ucast (lower AND 0xFF)) c)
      else if upper = 0xF3BF \<and> lower AND 0xFF00 = 0x8F00 then Some c
      else None)"

definition t32_divide :: "c_undefined \<Rightarrow> u16 \<Rightarrow> u16 \<Rightarrow> cpu_state \<Rightarrow> cpu_state option" where
  "t32_divide uc upper lower c =
     (let rd = idx lower 8 0xF; rn = cpu_r c (idx upper 0 0xF); rm = cpu_r c (idx lower 0 0xF) in
      if upper AND 0xFFF0 = 0xFB90 \<and> lower AND 0xF0F0 = 0xF0F0 then
        Some (set_r rd (if rm = 0 then 0 else if rn = 0x80000000 \<and> rm = 0xFFFFFFFF then uc_sdiv uc
                        else word_of_int (sint rn sdiv sint rm)) c)
      else if upper AND 0xFFF0 = 0xFBB0 \<and> lower AND 0xF0F0 = 0xF0F0 then
        Some (set_r rd (if rm = 0 then 0 else rn div rm) c)
      else None)"

text \<open>The 64-bit registers of the long multiplications.\<close>

definition set_long :: "nat \<Rightarrow> nat \<Rightarrow> u64 \<Rightarrow> cpu_state \<Rightarrow> cpu_state" where
  "set_long rd_lo rd_hi r c = set_r rd_hi (ucast (shr r 32)) (set_r rd_lo (ucast r) c)"

definition get_long :: "nat \<Rightarrow> nat \<Rightarrow> cpu_state \<Rightarrow> u64" where
  "get_long rd_lo rd_hi c = shl (ucast (cpu_r c rd_hi)) 32 OR ucast (cpu_r c rd_lo)"

definition t32_multiply :: "u16 \<Rightarrow> u16 \<Rightarrow> cpu_state \<Rightarrow> cpu_state option" where
  "t32_multiply upper lower c =
     (let u = upper AND 0xFFF0; rd = idx lower 8 0xF; ra = idx lower 12 0xF; n = cpu_r c (idx upper 0 0xF); k = cpu_r c (idx lower 0 0xF);
          sp = (scast n :: u64) * scast k; up = (ucast n :: u64) * ucast k in
      if u = 0xFB00 \<and> lower AND 0xF0F0 = 0xF000 then Some (set_r rd (n * k) c)
      else if u = 0xFB00 \<and> lower AND 0x00F0 = 0 \<and> ra \<noteq> 15 then Some (set_r rd (n * k + cpu_r c ra) c)
      else if u = 0xFB00 \<and> lower AND 0x00F0 = 0x0010 then Some (set_r rd (cpu_r c ra - n * k) c)
      else if u = 0xFB80 \<and> lower AND 0x00F0 = 0 then Some (set_long ra rd sp c)
      else if u = 0xFBA0 \<and> lower AND 0x00F0 = 0 then Some (set_long ra rd up c)
      else if u = 0xFBE0 \<and> lower AND 0x00F0 = 0 then Some (set_long ra rd (get_long ra rd c + up) c)
      else if u = 0xFBC0 \<and> lower AND 0x00F0 = 0 then Some (set_long ra rd (get_long ra rd c + sp) c)
      else if u = 0xFB50 \<and> (lower AND 0x00F0 = 0x0010 \<or> lower AND 0x00F0 = 0) then
        (let hi = (if bit lower 4 then ucast (shr (sp + 0x80000000) 32) else ucast (shr sp 32))
         in Some (set_rd rd (if ra = 15 then hi else hi + cpu_r c ra) c))
      else if u = 0xFB60 \<and> lower AND 0xF0E0 = 0xF000 then
        Some (set_rd rd (word_of_int (dual_product (\<not> bit lower 4) n k)) c)
      else if u = 0xFB60 \<and> lower AND 0x00F0 = 0x0010 \<and> ra \<noteq> 15 then Some (set_rd rd (ucast (shr sp 32) - cpu_r c ra) c)
      else None)"

definition builtin_clz :: "u32 \<Rightarrow> nat" where
  "builtin_clz w = length (takeWhile (\<lambda>i. \<not> bit w i) (rev [0..<32]))"

definition t32_rbit :: "u32 \<Rightarrow> u32" where
  "t32_rbit v = fst (fold (\<lambda>_ (r, v). (shl r 1 OR (v AND 1), shr v 1)) [0..<32] (0, v))"

text \<open>Counting, reversing, extracting and inserting bits.\<close>

definition t32_bits :: "u16 \<Rightarrow> u16 \<Rightarrow> cpu_state \<Rightarrow> cpu_state option" where
  "t32_bits upper lower c =
     (let rd = idx lower 8 0xF; rm = cpu_r c (idx lower 0 0xF) in
      if upper AND 0xFFF0 = 0xFAB0 \<and> lower AND 0xF0F0 = 0xF080 then
        Some (set_r rd (if rm \<noteq> 0 then of_nat (builtin_clz rm) else 32) c)
      else if upper AND 0xFFF0 = 0xFA90 \<and> lower AND 0xF0F0 = 0xF0A0 then Some (set_r rd (t32_rbit rm) c)
      else None)"

definition t32_field :: "c_undefined \<Rightarrow> u16 \<Rightarrow> u16 \<Rightarrow> cpu_state \<Rightarrow> cpu_state option" where
  "t32_field uc upper lower c =
     (let rd = idx lower 8 0xF; rn = idx upper 0 0xF; lsbit = 4 * idx lower 12 7 + idx lower 6 3; widthm1 = idx lower 0 0x1F;
          msk = (if widthm1 = 31 then 0xFFFFFFFF else shl 1 (widthm1 + 1) - 1); extracted = shr (cpu_r c rn) lsbit AND msk in
      if upper AND 0xFFF0 = 0xF3C0 \<and> lower AND 0x8000 = 0 then Some (set_r rd extracted c)
      else if upper AND 0xFFF0 = 0xF340 \<and> lower AND 0x8000 = 0 then
        Some (set_r rd (if shr extracted widthm1 \<noteq> 0 then extracted OR NOT (c_shl uc 1 (widthm1 + 1) - 1) else extracted) c)
      else None)"

definition t32_insert :: "c_undefined \<Rightarrow> u16 \<Rightarrow> u16 \<Rightarrow> cpu_state \<Rightarrow> cpu_state option" where
  "t32_insert uc upper lower c =
     (if upper AND 0xFFF0 = 0xF360 \<and> lower AND 0x8020 = 0 then
        (let rd = idx lower 8 0xF; rn = idx upper 0 0xF; lsbit = 4 * idx lower 12 7 + idx lower 6 3; msbit = idx lower 0 0x1F;
             msk = shl (c_shl uc 1 (msbit - lsbit + 1) - 1) lsbit; src = (if rn = 15 then 0 else cpu_r c rn)
         in Some (if msbit \<ge> lsbit then set_r rd ((cpu_r c rd AND NOT msk) OR (shl src lsbit AND msk)) c else c))
      else None)"

definition t32_rotated :: "u16 \<Rightarrow> cpu_state \<Rightarrow> u32" where
  "t32_rotated lower c =
     (let rot = idx lower 4 3 * 8; val = cpu_r c (idx lower 0 0xF)
      in if rot \<noteq> 0 then shr val rot OR shl val (32 - rot) else val)"

definition t32_extend :: "u16 \<Rightarrow> u16 \<Rightarrow> cpu_state \<Rightarrow> cpu_state option" where
  "t32_extend upper lower c =
     (let rd = idx lower 8 0xF; rn = idx upper 0 0xF; u = upper AND 0xFFF0; val = t32_rotated lower c;
          ext = (if u = 0xFA40 then scast (ucast val :: u8) else if u = 0xFA00 then scast (ucast val :: u16)
                 else if u = 0xFA50 then val AND 0xFF else val AND 0xFFFF) in
      if (u = 0xFA40 \<or> u = 0xFA00 \<or> u = 0xFA50 \<or> u = 0xFA10) \<and> lower AND 0xF0C0 = 0xF080 then
        Some (if rn = 15 then set_r rd ext c
              else if rd = 15 then (set_r 15 (cpu_r c rn + ext) c)\<lparr>pc_updated := True\<rparr>
              else set_r rd (cpu_r c rn + ext) c)
      else None)"

definition t32_rev :: "u16 \<Rightarrow> u16 \<Rightarrow> cpu_state \<Rightarrow> cpu_state option" where
  "t32_rev upper lower c =
     (if upper AND 0xFFF0 = 0xFA90 \<and> lower AND 0xF0F0 = 0xF080 then
        (let v = cpu_r c (idx lower 0 0xF)
         in Some (set_r (idx lower 8 0xF)
              (shl (v AND 0xFF) 24 OR shl (v AND 0xFF00) 8 OR shr (v AND 0xFF0000) 8 OR (shr v 24 AND 0xFF)) c))
      else None)"

definition t32_shift_reg :: "u16 \<Rightarrow> u16 \<Rightarrow> cpu_state \<Rightarrow> cpu_state option" where
  "t32_shift_reg upper lower c =
     (if upper AND 0xFF80 = 0xFA00 \<and> lower AND 0xF0F0 = 0xF000 then
        (let rd = idx lower 8 0xF;
             (res, carry) = t32_shift_c (cpu_r c (idx upper 0 0xF)) (idx upper 5 3) (unat (cpu_r c (idx lower 0 0xF) AND 0xFF)) c
         in Some (if rd \<noteq> 15 then t32_logic_flags (bit upper 4) res carry (set_r rd res c) else c))
      else None)"

definition t32_hint :: "u16 \<Rightarrow> u16 \<Rightarrow> cpu_state \<Rightarrow> cpu_state option" where
  "t32_hint upper lower c = (if upper = 0xF3AF \<and> lower AND 0xFF00 = 0x8000 then Some c else None)"

text \<open>The first of the groups that knows an instruction executes it.\<close>

fun first_of :: "('s \<Rightarrow> 's option) list \<Rightarrow> 's \<Rightarrow> 's option" where
  "first_of [] s = None"
| "first_of (f # fs) s = (case f s of Some s1 \<Rightarrow> Some s1 | None \<Rightarrow> first_of fs s)"

definition t32_misc :: "c_undefined \<Rightarrow> u16 \<Rightarrow> u16 \<Rightarrow> cpu_state \<Rightarrow> cpu_state option" where
  "t32_misc uc upper lower =
     first_of [t32_parallel upper lower, t32_dual upper lower, t32_select upper lower, t32_pack upper lower,
       t32_sat16 upper lower, t32_system upper lower, t32_divide uc upper lower, t32_multiply upper lower,
       t32_bits upper lower, t32_field uc upper lower, t32_sat upper lower, t32_insert uc upper lower,
       t32_extend upper lower, t32_rev upper lower, t32_shift_reg upper lower, t32_hint upper lower]"

section \<open>Fields as numbers\<close>

lemma t32_fields:
  fixes w :: u16
  shows "unat (shr w n AND 1) = unat w div 2 ^ n mod 2" "unat (shr w n AND 3) = unat w div 2 ^ n mod 4"
    "unat (shr w n AND 7) = unat w div 2 ^ n mod 8" "unat (shr w n AND 0xF) = unat w div 2 ^ n mod 16"
    "unat (shr w n AND 0x1F) = unat w div 2 ^ n mod 32" "unat (shr w n AND 0xFF) = unat w div 2 ^ n mod 256"
    "bit w n = odd (unat w div 2 ^ n)"
proof -
  have *: "unat (shr w n AND mask k) = unat w div 2 ^ n mod 2 ^ k" for k
  proof -
    have "unat (shr w n AND mask k) = take_bit k (drop_bit n (unat w))"
      using unsigned_less [of w, where 'a = nat]
      by (simp add: take_bit_eq_mask [symmetric] unsigned_take_bit_eq unsigned_drop_bit_eq take_bit_nat_eq_self)
    then show ?thesis by (simp add: take_bit_eq_mod drop_bit_eq_div)
  qed
  show "unat (shr w n AND 1) = unat w div 2 ^ n mod 2" "unat (shr w n AND 3) = unat w div 2 ^ n mod 4"
    "unat (shr w n AND 7) = unat w div 2 ^ n mod 8" "unat (shr w n AND 0xF) = unat w div 2 ^ n mod 16"
    "unat (shr w n AND 0x1F) = unat w div 2 ^ n mod 32" "unat (shr w n AND 0xFF) = unat w div 2 ^ n mod 256"
    using * [of 1] * [of 2] * [of 3] * [of 4] * [of 5] * [of 8] by (simp_all add: mask_eq_exp_minus_1)
  show "bit w n = odd (unat w div 2 ^ n)" by (simp add: bit_unsigned_iff bit_iff_odd [symmetric])
qed

section \<open>Wide comparison\<close>

lemma sub_overflow_nat:
  fixes x y k :: nat
  assumes "x < 2 ^ 32" "y < 2 ^ 32" "k \<le> 1"
    and "z = (if y + k \<le> x then x - (y + k) else 2 ^ 32 + x - (y + k))"
    and "sx = int x - (if 2 ^ 31 \<le> x then 2 ^ 32 else 0)" "sy = int y - (if 2 ^ 31 \<le> y then 2 ^ 32 else 0)"
  shows "((2 ^ 31 \<le> x) \<noteq> (2 ^ 31 \<le> y) \<and> (2 ^ 31 \<le> x) \<noteq> (2 ^ 31 \<le> z)) \<longleftrightarrow>
    sx - sy - int k < - (2 ^ 31) \<or> 2 ^ 31 \<le> sx - sy - int k"
proof (cases "2 ^ 31 \<le> x")
  case True
  show ?thesis
  proof (cases "2 ^ 31 \<le> y")
    case y: True
    then show ?thesis using True assms by simp
  next
    case False
    then have "y + k \<le> x" using True assms(3) by simp
    then show ?thesis using False True assms by auto
  qed
next
  case x: False
  show ?thesis
  proof (cases "2 ^ 31 \<le> y")
    case True
    then have "\<not> y + k \<le> x" using x by simp
    then show ?thesis using x True assms by auto
  next
    case False
    then show ?thesis using x assms by simp
  qed
qed

lemma t32_sbc_flags_word:
  fixes a b bw :: u32
  assumes "bw = 0 \<or> bw = 1"
  shows "t32_sbc_flags a b bw c = c\<lparr>cpu_xpsr := flag_word (bit (a - b - bw) 31) (a - b - bw = 0) (unat b + unat bw \<le> unat a)
     (sint a - sint b - int (unat bw) < - (2 ^ 31) \<or> 2 ^ 31 \<le> sint a - sint b - int (unat bw)) (cpu_xpsr c)\<rparr>"
proof -
  define x where "x = unat a"
  define y where "y = unat b"
  have xy: "x < 2 ^ 32" "y < 2 ^ 32" using unat_u32_less by (simp_all add: x_def y_def)
  define k where "k = unat bw"
  have k: "k \<le> 1" using assms by (auto simp: k_def)
  have z: "unat (a - b - bw) = (if y + k \<le> x then x - (y + k) else 2 ^ 32 + x - (y + k))"
    using xy k unfolding unat_sub_cases x_def [symmetric] y_def [symmetric] k_def [symmetric] by auto
  have v: "bit ((a XOR b) AND (a XOR (a - b - bw))) 31 \<longleftrightarrow>
      sint a - sint b - int (unat bw) < - (2 ^ 31) \<or> 2 ^ 31 \<le> sint a - sint b - int (unat bw)"
    using sub_overflow_nat [OF xy k z refl refl]
    unfolding overflow_bit_split unfolding sint_unat32 bit31_iff x_def [symmetric] y_def [symmetric] k_def [symmetric] z .
  have cf: "shr (ucast a - ucast b - ucast bw :: u64) 32 = 0 \<longleftrightarrow> unat b + unat bw \<le> unat a"
  proof -
    define u where "u = (ucast a - ucast b - ucast bw :: u64)"
    have "u + (ucast b + ucast bw) = (ucast a :: u64)" by (simp add: u_def)
    then have eq: "u + of_nat (y + k) = of_nat x" unfolding ucast_u64_of_nat x_def y_def k_def of_nat_add .
    have "shr u 32 = 0 \<longleftrightarrow> unat u < 2 ^ 32"
      using unat_drop_bit_eq [of 32 u] unat_eq_zero [of "shr u 32"] by (simp only: drop_bit_eq_div div_eq_0_iff) auto
    also have "\<dots> \<longleftrightarrow> y + k \<le> x"
    proof (cases "y + k \<le> x")
      case True
      then have "(of_nat x :: u64) = of_nat (x - (y + k)) + of_nat (y + k)" by (simp flip: of_nat_add)
      then have "u = of_nat (x - (y + k))" using eq by simp
      moreover have "x - (y + k) < 2 ^ 32" "x - (y + k) < 2 ^ LENGTH(64)" using xy by simp_all
      ultimately have "unat u < 2 ^ 32" by (simp only: unat_of_nat_lt)
      then show ?thesis using True by simp
    next
      case False
      define d where "d = y + k - x"
      have "(of_nat (y + k) :: u64) = of_nat d + of_nat x" using False by (simp add: d_def flip: of_nat_add)
      then have u: "u = - of_nat d" using eq by (simp add: add.commute eq_neg_iff_add_eq_0 add.left_commute)
      have d: "0 < d" "d \<le> 2 ^ 32" using False xy k by (auto simp: d_def)
      then have "unat (of_nat d :: u64) = d" by (intro unat_of_nat_lt) simp
      moreover have "(of_nat d :: u64) \<noteq> 0" using calculation d by (metis less_irrefl unat_0)
      ultimately have "unat u = 2 ^ 64 - d" unfolding u using unat_uminus_word [of "of_nat d :: u64"] by simp
      then show ?thesis using False d by simp
    qed
    finally show ?thesis by (simp add: u_def x_def y_def k_def)
  qed
  show ?thesis
    unfolding t32_sbc_flags_def Let_def flag_word_def cf and_flag_masks not_not v ..
qed

lemma nibble_div:
  fixes h r :: nat
  assumes "r < 16"
  shows "(16 * h + r) div 2 ^ 0 mod 16 = r" "(16 * h + r) div 2 ^ 4 = h" "(16 * h + r) div 2 ^ 5 = h div 2"
    "(16 * h + r) div 2 ^ 6 = h div 4" "(16 * h + r) div 2 ^ 8 = h div 16" "(16 * h + r) div 2 ^ 12 = h div 256"
proof -
  have d: "(16 * h + r) div (16 * d) = h div d" for d using assms by (simp add: div_mult2_eq)
  show "(16 * h + r) div 2 ^ 0 mod 16 = r" "(16 * h + r) div 2 ^ 4 = h" "(16 * h + r) div 2 ^ 5 = h div 2"
    "(16 * h + r) div 2 ^ 6 = h div 4" "(16 * h + r) div 2 ^ 8 = h div 16" "(16 * h + r) div 2 ^ 12 = h div 256"
    using assms d [of 1] d [of 2] d [of 4] d [of 16] d [of 256] by simp_all
qed

text \<open>The two instructions CMP.W and SBCS.W on registers, as the assembler encodes them.\<close>

definition enc_cmp_w :: "nat \<Rightarrow> nat \<Rightarrow> u16 \<times> u16" where
  "enc_cmp_w rn rm = (of_nat (16 * 0xEBB + rn), of_nat (16 * 0xF0 + rm))"

definition enc_sbcs_w :: "nat \<Rightarrow> nat \<Rightarrow> nat \<Rightarrow> u16 \<times> u16" where
  "enc_sbcs_w rd rn rm = (of_nat (16 * 0xEB7 + rn), of_nat (16 * (16 * rd) + rm))"

lemma exec_cmp_w:
  assumes "rn < 15" "rm < 15" "enc_cmp_w rn rm = (u, l)"
  shows "t32_dp_shifted_reg u l c = update_sub_flags (cpu_r c rn) (cpu_r c rm) (cpu_r c rn - cpu_r c rm) c"
proof -
  have r: "rn < 16" "rm < 16" using assms by simp_all
  have u: "unat u = 16 * 0xEBB + rn" "unat l = 16 * 0xF0 + rm"
    using assms unat_of_nat_lt [of "16 * 0xEBB + rn", where 'a = 16] unat_of_nat_lt [of "16 * 0xF0 + rm", where 'a = 16]
    by (auto simp: enc_cmp_w_def simp del: of_nat_add of_nat_mult)
  show ?thesis
    unfolding t32_dp_shifted_reg_def t32_fields u nibble_div [OF r(1)] nibble_div [OF r(2)]
    by (simp add: t32_shift_c_def t32_dp_exec_def t32_dp_result_def) (simp add: Let_def)
qed

lemma exec_sbcs_w:
  assumes "rd < 15" "rn < 15" "rm < 15" "enc_sbcs_w rd rn rm = (u, l)"
    and "bw = (if flag_c c then 0 else 1)"
  shows "t32_dp_shifted_reg u l c =
    set_r rd (cpu_r c rn - cpu_r c rm - bw) (t32_sbc_flags (cpu_r c rn) (cpu_r c rm) bw c)"
proof -
  have r: "rn < 16" "rm < 16" using assms by simp_all
  have u: "unat u = 16 * 0xEB7 + rn" "unat l = 16 * (16 * rd) + rm"
    using assms unat_of_nat_lt [of "16 * 0xEB7 + rn", where 'a = 16] unat_of_nat_lt [of "16 * (16 * rd) + rm", where 'a = 16]
    by (auto simp: enc_sbcs_w_def simp del: of_nat_add of_nat_mult)
  have e: "16 * rd div 256 mod 8 = 0" "16 * rd div 16 mod 16 = rd" "16 * rd div 4 mod 4 = 0" "16 * rd mod 4 = 0"
    using assms(1) by auto
  have b: "1 - t32_carry c = bw" using assms(5) by (simp add: t32_carry_def)
  show ?thesis
    unfolding t32_dp_shifted_reg_def t32_fields u nibble_div [OF r(1)] nibble_div [OF r(2)] e
    using assms(1) by (simp add: t32_shift_c_def t32_dp_exec_def t32_dp_result_def b) (simp add: Let_def)
qed

lemma sub_sign_nat:
  fixes x y k :: nat
  assumes "x < 2 ^ 32" "y < 2 ^ 32" "k \<le> 1"
    and "z = (if y + k \<le> x then x - (y + k) else 2 ^ 32 + x - (y + k))"
    and "sx = int x - (if 2 ^ 31 \<le> x then 2 ^ 32 else 0)" "sy = int y - (if 2 ^ 31 \<le> y then 2 ^ 32 else 0)"
  shows "(2 ^ 31 \<le> z) \<noteq> (sx - sy - int k < - (2 ^ 31) \<or> 2 ^ 31 \<le> sx - sy - int k) \<longleftrightarrow> sx - sy - int k < 0"
proof (cases "y + k \<le> x")
  case True
  then have z: "int z = int x - int y - int k" using assms(4) by auto
  have e: "(2 ^ 31 \<le> z) = (2 ^ 31 \<le> int z)" by auto
  show ?thesis using assms(1-3) True unfolding e z assms(5,6) by (cases "2 ^ 31 \<le> x"; cases "2 ^ 31 \<le> y") auto
next
  case False
  then have z: "int z = 2 ^ 32 + int x - int y - int k" using assms(1-4) by auto
  have e: "(2 ^ 31 \<le> z) = (2 ^ 31 \<le> int z)" by auto
  show ?thesis using assms(1-3) False unfolding e z assms(5,6) by (cases "2 ^ 31 \<le> x"; cases "2 ^ 31 \<le> y") auto
qed

text \<open>The flags after the pair of instructions are those of the comparison of 64-bit numbers.\<close>

lemma compare_64:
  assumes "c1 = update_sub_flags a b (a - b) c" "bw = (if flag_c c1 then 0 else 1)" "c2 = t32_sbc_flags a' b' bw c1"
  shows "flag_c c2 \<longleftrightarrow> unat b' * 2 ^ 32 + unat b \<le> unat a' * 2 ^ 32 + unat a"
    and "flag_n c2 \<noteq> flag_v c2 \<longleftrightarrow> sint a' * 2 ^ 32 + uint a < sint b' * 2 ^ 32 + uint b"
proof -
  have bw: "bw = 0 \<or> bw = 1" "unat bw = (if b \<le> a then 0 else 1)" using assms(1,2) by (auto simp: update_sub_flags_word)
  have lt: "unat a < 2 ^ 32" "unat b < 2 ^ 32" "unat a' < 2 ^ 32" "unat b' < 2 ^ 32" by (rule unat_u32_less)+
  show "flag_c c2 \<longleftrightarrow> unat b' * 2 ^ 32 + unat b \<le> unat a' * 2 ^ 32 + unat a"
    using lt bw(2) unfolding assms(3) t32_sbc_flags_word [OF bw(1)] by (auto simp: word_le_nat_alt)
  define z where "z = unat (a' - b' - bw)"
  define x y k where "x = unat a'" and "y = unat b'" and "k = unat bw"
  have k: "k \<le> 1" using bw by (auto simp: k_def)
  have z: "z = (if y + k \<le> x then x - (y + k) else 2 ^ 32 + x - (y + k))"
    using lt k unfolding z_def unat_sub_cases x_def y_def k_def by auto
  have xy: "x < 2 ^ 32" "y < 2 ^ 32" using lt by (simp_all add: x_def y_def)
  have "bit (a' - b' - bw) 31 \<noteq> (sint a' - sint b' - int k < - (2 ^ 31) \<or> 2 ^ 31 \<le> sint a' - sint b' - int k) \<longleftrightarrow>
      sint a' - sint b' - int k < 0"
    unfolding sint_unat32 bit31_iff z_def [symmetric] x_def [symmetric] y_def [symmetric]
    by (rule sub_sign_nat [OF xy k z refl refl])
  moreover have "sint a' - sint b' - int k < 0 \<longleftrightarrow> sint a' * 2 ^ 32 + uint a < sint b' * 2 ^ 32 + uint b"
  proof -
    have "uint a < 2 ^ LENGTH(32)" "uint b < 2 ^ LENGTH(32)" by (rule uint_lt2p)+
    then have r: "0 \<le> uint a" "uint a < 4294967296" "0 \<le> uint b" "uint b < 4294967296" by simp_all
    have "int k = (if uint b \<le> uint a then 0 else 1)" using bw(2) by (simp add: k_def word_le_def)
    then show ?thesis using r by (intro iffI; cases "uint b \<le> uint a"; simp; linarith)
  qed
  ultimately show "flag_n c2 \<noteq> flag_v c2 \<longleftrightarrow> sint a' * 2 ^ 32 + uint a < sint b' * 2 ^ 32 + uint b"
    unfolding assms(3) t32_sbc_flags_word [OF bw(1)] by (simp add: k_def)
qed

section \<open>Wide push and pop\<close>

definition list_regs :: "u16 \<Rightarrow> nat list" where
  "list_regs l = filter (bit l) [0..<16]"

definition store_next :: "'b platform \<Rightarrow> nat \<Rightarrow> u32 \<times> 'b mach \<Rightarrow> u32 \<times> 'b mach" where
  "store_next p i s = (let (addr, m) = s in (addr + 4, pl_write32 p addr (reg m i) m))"

lemma reglist_eq:
  "(l AND 0x3FFF) OR (if l AND 0x4000 \<noteq> 0 then shl 1 14 else 0) OR (if l AND 0x8000 \<noteq> 0 then shl 1 15 else 0) = l" for l :: u16
proof -
  have e: "(0x3FFF :: u16) = mask 14" "(0x4000 :: u16) = 2 ^ 14" "(0x8000 :: u16) = 2 ^ 15" by (simp_all add: mask_eq_exp_minus_1)
  show ?thesis
    unfolding e and_exp_eq_0 not_not
    by (rule bit_word_eqI) (auto simp: bit_simps less_Suc_eq numeral_eq_Suc)
qed

lemma store_list_filter:
  assumes "\<not> bit l 15"
  shows "t32_store_list p pc l s = fold (store_next p) (list_regs l) s"
proof -
  have "fold (\<lambda>i (addr, m). if bit l i then (addr + 4, pl_write32 p addr (if i = 15 then pc + 4 else reg m i) m) else (addr, m)) is s =
      fold (store_next p) (filter (bit l) is) s" for "is"
    using assms by (induction "is" arbitrary: s) (auto simp: store_next_def)
  then show ?thesis by (simp add: t32_store_list_def list_regs_def)
qed

context ram_bus
begin

lemma store_next_words:
  assumes "words_room in_ram a (length is) (m_bus m)" "unat a + 4 * length is < 2 ^ 32"
  shows "\<exists>m'. fold (store_next p) is (a, m) = (a + of_nat (4 * length is), m') \<and> same_but_bus m m' \<and>
     (\<forall>c. in_ram c (m_bus m') = in_ram c (m_bus m)) \<and> words_at rd a (length is) (m_bus m') = map (reg m) is \<and>
     (\<forall>c. in_ram c (m_bus m) \<longrightarrow> unat c + 4 \<le> unat a \<longrightarrow> rd c (m_bus m') = rd c (m_bus m))"
  using assms
proof (induction "is" arbitrary: a m)
  case Nil
  then show ?case by simp
next
  case (Cons i "is")
  define m1 where "m1 = pl_write32 p a (reg m i) m"
  have ram: "in_ram a (m_bus m)" "words_room in_ram (a + 4) (length is) (m_bus m)" using Cons.prems by (simp_all add: words_room_Suc)
  have m1: "m_bus m1 = wr a (reg m i) (m_bus m)" "same_but_bus m m1" "m_cpu m1 = m_cpu m" "in_ram c (m_bus m1) = in_ram c (m_bus m)" for c
    using ram(1) same_but_bus_fields [OF write_same [OF ram(1)]] by (simp_all add: m1_def write_ram write_same in_ram_wr)
  have ua: "unat (a + 4) = unat a + 4" using Cons.prems(2) by (simp add: unat_word_ariths)
  have "words_room in_ram (a + 4) (length is) (m_bus m1)" using ram(2) unfolding words_room_def m1(4) .
  from Cons.IH [OF this] Cons.prems(2) obtain m' where m': "fold (store_next p) is (a + 4, m1) = (a + 4 + of_nat (4 * length is), m')"
      "same_but_bus m1 m'" "\<forall>c. in_ram c (m_bus m') = in_ram c (m_bus m1)" "words_at rd (a + 4) (length is) (m_bus m') = map (reg m1) is"
      "\<forall>c. in_ram c (m_bus m1) \<longrightarrow> unat c + 4 \<le> unat (a + 4) \<longrightarrow> rd c (m_bus m') = rd c (m_bus m1)"
    unfolding ua by auto
  have "rd a (m_bus m') = reg m i" using m'(5) [rule_format, of a] ram(1) ua by (simp add: m1(1) rd_wr in_ram_wr [OF ram(1)])
  moreover have "rd c (m_bus m') = rd c (m_bus m)" if "in_ram c (m_bus m)" "unat c + 4 \<le> unat a" for c
    using m'(5) [rule_format, of c] that ua ram(1) by (simp add: m1(1) rd_wr_apart apart_def in_ram_wr [OF ram(1)])
  moreover have "store_next p i (a, m) = (a + 4, m1)" by (simp add: store_next_def m1_def)
  ultimately show ?case
    using m'(1-4) same_but_bus_trans [OF m1(2) m'(2)] in_ram_wr [OF ram(1)]
    by (intro exI [of _ m']) (simp add: words_at_Suc m1(1,3) algebra_simps)
qed

lemma wide_push:
  assumes "\<not> bit l 13" "\<not> bit l 15" "n = length (list_regs l)" "4 * n \<le> unat (reg m 13)"
    and "words_room in_ram (reg m 13 - of_nat (4 * n)) n (m_bus m)"
  shows "\<exists>m'. t32_ldst_multiple p pc 0xE92D l m = m' \<and> m_cpu m' = set_r 13 (reg m 13 - of_nat (4 * n)) (m_cpu m) \<and>
     (\<forall>a. in_ram a (m_bus m') = in_ram a (m_bus m)) \<and>
     words_at rd (reg m 13 - of_nat (4 * n)) n (m_bus m') = map (reg m) (list_regs l)"
proof -
  let ?a = "reg m 13 - of_nat (4 * n)"
  have "unat ?a = unat (reg m 13) - 4 * n" using assms(4) by (rule unat_minus_of_nat)
  then have "unat ?a + 4 * n < 2 ^ 32" using assms(4) unat_u32_less [of "reg m 13"] by simp
  from store_next_words [OF assms(5) [unfolded assms(3)] this [unfolded assms(3)]] obtain m' where m':
      "fold (store_next p) (list_regs l) (?a, m) = (?a + of_nat (4 * n), m')" "same_but_bus m m'"
      "\<forall>c. in_ram c (m_bus m') = in_ram c (m_bus m)" "words_at rd ?a n (m_bus m') = map (reg m) (list_regs l)"
    unfolding assms(3) [symmetric] by auto
  have "t32_ldst_multiple p pc 0xE92D l m = upd_cpu (set_r 13 ?a) m'"
    using m'(1) same_but_bus_fields [OF m'(2)] assms(3)
    by (simp add: t32_ldst_multiple_def reglist_eq store_list_filter [OF assms(2)] t32_writeback_def popcount_def list_regs_def mult.commute upd_cpu_def)
  then show ?thesis using m'(3,4) same_but_bus_fields [OF m'(2)] by simp
qed

end

text \<open>The list of an epilogue: that of the prologue, with the link register or the program counter in its
  place.\<close>

definition epilogue_list :: "u16 \<Rightarrow> u16 \<Rightarrow> bool" where
  "epilogue_list l l2 \<longleftrightarrow> (\<forall>i < 13. bit l2 i = bit l i) \<and> \<not> bit l2 13 \<and> (bit l2 14 \<or> bit l2 15) = bit l 14 \<and> \<not> (bit l2 14 \<and> bit l2 15)"

lemma epilogue_regs:
  assumes "\<not> bit l 13" "\<not> bit l 15" "epilogue_list l l2"
  shows "filter (bit l2) [0..<15] = filter (bit l) [0..<13] @ (if bit l2 14 then [14] else [])"
    and "list_regs l = filter (bit l) [0..<13] @ (if bit l 14 then [14] else [])"
    and "length (list_regs l2) = length (list_regs l)"
proof -
  have s: "[0..<15] = [0..<13] @ [13, 14]" "[0..<16] = [0..<13] @ [13, 14, 15]" by (simp_all add: upt_conv_Cons)
  have f: "filter (bit l2) [0..<13] = filter (bit l) [0..<13]" using assms(3) by (intro filter_cong) (auto simp: epilogue_list_def)
  show "filter (bit l2) [0..<15] = filter (bit l) [0..<13] @ (if bit l2 14 then [14] else [])"
    "list_regs l = filter (bit l) [0..<13] @ (if bit l 14 then [14] else [])"
    "length (list_regs l2) = length (list_regs l)"
    using assms unfolding list_regs_def s filter_append f by (auto simp: epilogue_list_def)
qed

context ram_bus
begin

lemma wide_push_pop:
  assumes regs: "\<not> bit l 13" "\<not> bit l 15" "epilogue_list l l2" "n = length (list_regs l)"
    and low: "4 * n \<le> unat (reg m 13)"
    and room: "words_room in_ram (reg m 13 - of_nat (4 * n)) n (m_bus m)"
    and sp: "reg m2 13 = reg (t32_ldst_multiple p pc 0xE92D l m) 13"
    and keep: "words_at rd (reg m2 13) n (m_bus m2) = words_at rd (reg m2 13) n (m_bus (t32_ldst_multiple p pc 0xE92D l m))"
    and room2: "words_room in_ram (reg m2 13) n (m_bus m2)"
    and lr: "bit l2 15 \<longrightarrow> reg m 14 AND 0xFFFFFFF0 \<noteq> 0xFFFFFFF0"
  shows "t32_ldst_multiple p pc2 0xE8BD l2 m2 = upd_cpu (\<lambda>c. c\<lparr>
     cpu_r := (\<lambda>i. if i = 13 then reg m 13 else if i < 13 \<and> bit l i \<or> i = 14 \<and> bit l2 14 then reg m i
                  else if i = 15 \<and> bit l2 15 then reg m 14 AND NOT 1 else cpu_r c i),
     pc_updated := (bit l2 15 \<or> pc_updated c)\<rparr>) m2"
proof -
  let ?ls = "filter (bit l) [0..<13]" and ?js = "filter (bit l2) [0..<15]" and ?sp = "reg m2 13"
  note e = epilogue_regs [OF regs(1-3)]
  obtain m1 where m1: "t32_ldst_multiple p pc 0xE92D l m = m1" "m_cpu m1 = set_r 13 (reg m 13 - of_nat (4 * n)) (m_cpu m)"
      "words_at rd (reg m 13 - of_nat (4 * n)) n (m_bus m1) = map (reg m) (list_regs l)"
    using wide_push [OF regs(1,2,4) low room] by blast
  have sp2: "?sp = reg m 13 - of_nat (4 * n)" using sp by (simp add: m1)
  have all: "words_at rd ?sp n (m_bus m2) = map (reg m) (list_regs l)" using keep unfolding m1(1) sp2 m1(3) .
  have cnt: "popcount l2 = n" using e(3) regs(4) by (simp add: popcount_def list_regs_def)
  have n: "n = length ?js + (if bit l2 15 then 1 else 0)"
    using regs(3,4) by (auto simp: e(1,2) epilogue_list_def)
  have room1: "words_room in_ram ?sp (length ?js) (m_bus m2)"
    and ram15: "bit l2 15 \<Longrightarrow> in_ram (?sp + of_nat (4 * length ?js)) (m_bus m2)"
    using room2 words_room_append [of in_ram ?sp "length ?js" 1 "m_bus m2"] by (auto simp: n words_room_Suc split: if_splits)
  have ws: "words_at rd ?sp (length ?js) (m_bus m2) = map (reg m) ?js"
    and pc: "bit l2 15 \<Longrightarrow> rd (?sp + of_nat (4 * length ?js)) (m_bus m2) = reg m 14"
    using all words_at_append [of rd ?sp "length ?js" 1 "m_bus m2"] regs(3)
    by (auto simp: n e(1,2) words_at_Suc epilogue_list_def split: if_splits)
  have loop: "t32_load_list p l2 [0..<15] (?sp, m2) = (?sp + of_nat (4 * length ?js), upd_cpu (load_regs ?js (map (reg m) ?js)) m2)"
    using load_next_words [OF room1] unfolding ws t32_load_list_def by (simp only: fold_if_filter)
  have up: "load_regs ?js (map (reg m) ?js) c = c\<lparr>cpu_r := \<lambda>i. if i \<in> set ?js then reg m i else cpu_r c i\<rparr>" for c
    by (subst load_regs_upd) (simp add: load_regs_map fun_eq_iff)
  have mem: "i \<in> set ?js \<longleftrightarrow> i < 13 \<and> bit l i \<or> i = 14 \<and> bit l2 14" for i by (auto simp: e(1))
  have n13: "\<not> bit l2 13" using regs(3) by (simp add: epilogue_list_def)
  have sp3: "?sp + of_nat (n * 4) = reg m 13" by (simp add: sp2 mult.commute)
  have f: "(0xE8BD :: u16) AND 0xF = 0xD" "\<not> bit (0xE8BD :: u16) 8" "bit (0xE8BD :: u16) 4" "bit (0xE8BD :: u16) 5" by simp_all
  let ?wb = "upd_cpu (t32_writeback 13 False (of_nat (n * 4)) (reg m 13))"
  have "t32_ldst_multiple p pc2 0xE8BD l2 m2 =
      (if bit l2 15 then ?wb (upd_cpu (\<lambda>c. (set_r 15 (reg m 14 AND NOT 1) (load_regs ?js (map (reg m) ?js) c))\<lparr>pc_updated := True\<rparr>) m2)
       else ?wb (upd_cpu (load_regs ?js (map (reg m) ?js)) m2))"
    unfolding t32_ldst_multiple_def reglist_eq cnt
    using n13 lr pc ram15 read_ram [of "?sp + of_nat (4 * length ?js)" "upd_cpu (load_regs ?js (map (reg m) ?js)) m2"]
    by (simp add: loop) (simp add: Let_def cnt sp3 [simplified])
  then show ?thesis
    unfolding up mem
    by (cases "bit l2 15") (simp_all add: t32_writeback_def set_r_def upd_cpu_def fun_eq_iff)
qed

end

section \<open>Saturation and bit fields\<close>

lemma sat_operand_shifts:
  assumes "v = cpu_r c (idx upper 0 0xF)" "n = 4 * idx lower 12 7 + idx lower 6 3" "bit upper 5 \<longrightarrow> n \<noteq> 0"
  shows "sint (t32_sat_operand upper lower c) = (if bit upper 5 then sint v div 2 ^ n else sint (shl v n))"
proof -
  have "sint (signed_drop_bit n v) = sint v div 2 ^ n" by (simp add: sint_signed_drop_bit_eq drop_bit_eq_div)
  then show ?thesis
    using assms(3) unfolding t32_sat_operand_def Let_def assms(1,2) [symmetric] by auto
qed

lemma sat_result:
  assumes "upper AND 0xFFC0 = 0xF300 \<or> upper AND 0xFFC0 = 0xF380" "lower AND 0x8000 = 0" "rd = idx lower 8 0xF" "rd \<noteq> 15"
    and "s = sint (t32_sat_operand upper lower c)" "k = idx lower 0 0x1F" "lo = (if bit upper 7 then 0 else - (2 ^ k))"
    and "r = (if s < lo then lo else if 2 ^ k \<le> s then 2 ^ k - 1 else s)"
  shows "t32_sat upper lower c = Some (set_q (r \<noteq> s) (set_r rd (word_of_int r) c))"
    and "(if bit upper 7 then uint (word_of_int r :: u32) else sint (word_of_int r :: u32)) = r"
proof -
  have l: "sat_limits (bit upper 7) (if bit upper 7 then k else k + 1) = (lo, 2 ^ k - 1)"
    by (simp add: sat_limits_def assms(7))
  have "saturate lo (2 ^ k - 1) s = (r, r \<noteq> s)" by (auto simp: saturate_def assms(8))
  then show "t32_sat upper lower c = Some (set_q (r \<noteq> s) (set_r rd (word_of_int r) c))"
    using assms(1-4) unfolding t32_sat_def Let_def assms(5,6) [symmetric] l prod.case by (simp add: set_rd_def)
  have "k < 32" unfolding assms(6) t32_fields by simp
  then have p: "(2 :: int) ^ k \<le> 2 ^ 31" by (intro power_increasing) simp_all
  have "(0 :: int) < 2 ^ k" by simp
  then have lo: "lo \<le> r" "r \<le> 2 ^ k - 1" unfolding assms(7,8) by (auto simp del: zero_less_power)
  show "(if bit upper 7 then uint (word_of_int r :: u32) else sint (word_of_int r :: u32)) = r"
  proof (cases "bit upper 7")
    case True
    then have "0 \<le> r" "r < 2 ^ 32" using lo p by (simp_all add: assms(7))
    then show ?thesis using True by (simp add: uint_word_of_int_eq take_bit_int_eq_self)
  next
    case False
    then have "- (2 ^ 31) \<le> r" "r < 2 ^ 31" using lo p by (simp_all add: assms(7))
    then show ?thesis using False by (simp add: signed_of_int signed_take_bit_int_eq_self)
  qed
qed

text \<open>C32. Saturating to a width keeps every number that fits and clips the others to the nearer limit: SSAT to
  k + 1 bits returns the operand clipped to the numbers from -2^k to 2^k - 1, USAT to k bits the operand clipped
  to those from 0 to 2^k - 1, where the operand is the source register, read as a signed number, after a shift to
  the left or an arithmetic shift to the right. The sticky flag is set exactly when the operand was clipped, and no
  other register changes. (A shift to the right by 0 is the encoding of SSAT16 and USAT16.)\<close>

theorem t32_saturates:
  assumes "upper AND 0xFFC0 = 0xF300 \<or> upper AND 0xFFC0 = 0xF380" "lower AND 0x8000 = 0" "rd = idx lower 8 0xF" "rd \<noteq> 15"
    and "v = cpu_r c (idx upper 0 0xF)" "n = 4 * idx lower 12 7 + idx lower 6 3" "bit upper 5 \<longrightarrow> n \<noteq> 0"
    and "s = (if bit upper 5 then sint v div 2 ^ n else sint (shl v n))" "k = idx lower 0 0x1F"
    and "r = (if s < (if bit upper 7 then 0 else - (2 ^ k)) then (if bit upper 7 then 0 else - (2 ^ k))
      else if 2 ^ k \<le> s then 2 ^ k - 1 else s)"
  shows "\<exists>c'. t32_sat upper lower c = Some c' \<and> (if bit upper 7 then uint (cpu_r c' rd) else sint (cpu_r c' rd)) = r \<and>
    cpu_xpsr c' = (if r = s then cpu_xpsr c else cpu_xpsr c OR 0x08000000) \<and> (\<forall>i. i \<noteq> rd \<longrightarrow> cpu_r c' i = cpu_r c i)"
proof -
  note e = sat_operand_shifts [OF assms(5-7)] assms(8)
  have o: "s = sint (t32_sat_operand upper lower c)" by (simp only: e)
  note res = sat_result [OF assms(1-4) o assms(9) refl assms(10)]
  have "cpu_r (set_q (r \<noteq> s) (set_r rd (word_of_int r) c)) = (cpu_r c)(rd := word_of_int r)"
    "cpu_xpsr (set_q (r \<noteq> s) (set_r rd (word_of_int r) c)) = (if r = s then cpu_xpsr c else cpu_xpsr c OR 0x08000000)"
    by (simp_all add: set_q_def)
  then show ?thesis using res by auto
qed

theorem t32_saturates_witness:
  "(\<exists>c'. t32_sat 0xF300 0x0107 (set_r 0 200 cpu_zero) = Some c' \<and> sint (cpu_r c' 1) = 127 \<and> cpu_xpsr c' = 0x08000000) \<and>
   (\<exists>c'. t32_sat 0xF3A0 0x0147 (set_r 0 0xFFFFFFFB cpu_zero) = Some c' \<and> uint (cpu_r c' 1) = 0 \<and> cpu_xpsr c' = 0x08000000)"
proof -
  have x: "cpu_xpsr cpu_zero = 0" by (simp add: cpu_zero_def)
  have "\<exists>c'. t32_sat 0xF300 0x0107 (set_r 0 200 cpu_zero) = Some c' \<and>
      (if bit (0xF300 :: u16) 7 then uint (cpu_r c' 1) else sint (cpu_r c' 1)) = 127 \<and>
      cpu_xpsr c' = (if (127 :: int) = 200 then cpu_xpsr (set_r 0 200 cpu_zero) else cpu_xpsr (set_r 0 200 cpu_zero) OR 0x08000000) \<and>
      (\<forall>i. i \<noteq> 1 \<longrightarrow> cpu_r c' i = cpu_r (set_r 0 200 cpu_zero) i)"
    by (rule t32_saturates [where v = 200 and n = 0 and k = 7]; simp)
  moreover have "\<exists>c'. t32_sat 0xF3A0 0x0147 (set_r 0 0xFFFFFFFB cpu_zero) = Some c' \<and>
      (if bit (0xF3A0 :: u16) 7 then uint (cpu_r c' 1) else sint (cpu_r c' 1)) = 0 \<and>
      cpu_xpsr c' = (if (0 :: int) = - 3 then cpu_xpsr (set_r 0 0xFFFFFFFB cpu_zero) else cpu_xpsr (set_r 0 0xFFFFFFFB cpu_zero) OR 0x08000000) \<and>
      (\<forall>i. i \<noteq> 1 \<longrightarrow> cpu_r c' i = cpu_r (set_r 0 0xFFFFFFFB cpu_zero) i)"
    by (rule t32_saturates [where v = "0xFFFFFFFB" and n = 1 and k = 7]; simp)
  ultimately show ?thesis by (auto simp: x)
qed

text \<open>C33. What is inserted into a bit field can be extracted again: after BFI of the low w bits of a register at
  position lsb, UBFX of the same field returns these bits, and BFI changes no bit outside the field. This is for
  the fields narrower than the register (w < 32); the code leaves the field of all 32 bits to the compiler, see the
  deviations below.\<close>

theorem t32_bitfield_round_trip:
  assumes "u1 AND 0xFFF0 = 0xF360" "l1 AND 0x8020 = 0" "u2 AND 0xFFF0 = 0xF3C0" "l2 AND 0x8000 = 0"
    and "rd = idx l1 8 0xF" "rn = idx u1 0 0xF" "rn \<noteq> 15" "idx u2 0 0xF = rd"
    and "lsb = 4 * idx l1 12 7 + idx l1 6 3" "4 * idx l2 12 7 + idx l2 6 3 = lsb"
    and "0 < w" "w < 32" "lsb + w \<le> 32" "idx l1 0 0x1F = lsb + w - 1" "idx l2 0 0x1F = w - 1"
  shows "\<exists>c1 c2. t32_insert uc u1 l1 c = Some c1 \<and> t32_field uc u2 l2 c1 = Some c2 \<and>
    cpu_r c2 (idx l2 8 0xF) = take_bit w (cpu_r c rn) \<and>
    (\<forall>i < 32. i < lsb \<or> lsb + w \<le> i \<longrightarrow> bit (cpu_r c1 rd) i = bit (cpu_r c rd) i)"
proof -
  have mw: "shl 1 w - 1 = (mask w :: u32)" by (simp add: mask_eq_exp_minus_1 push_bit_eq_mult)
  define msk :: u32 where "msk = shl (shl 1 w - 1) lsb"
  have bm: "bit msk i \<longleftrightarrow> lsb \<le> i \<and> i < lsb + w" if "i < 32" for i
    using that assms(13) unfolding msk_def mw by (auto simp: bit_simps)
  define v where "v = (cpu_r c rd AND NOT msk) OR (shl (cpu_r c rn) lsb AND msk)"
  have "lsb + w - 1 - lsb + 1 = w" "lsb \<le> lsb + w - 1" using assms(11) by simp_all
  then have i: "t32_insert uc u1 l1 c = Some (set_r rd v c)"
    unfolding t32_insert_def Let_def assms(14) using assms(1,2,5-7,9,12)
    by (simp add: c_shl_def msk_def v_def)
  have f: "t32_field uc u2 l2 (set_r rd v c) = Some (set_r (idx l2 8 0xF) (shr v lsb AND (shl 1 w - 1)) (set_r rd v c))"
    unfolding t32_field_def Let_def assms(15,8,10) using assms(3,4,11,12) by simp
  have "shr v lsb AND (shl 1 w - 1) = take_bit w (cpu_r c rn)"
  proof (rule bit_word_eqI)
    fix n assume "n < LENGTH(32)"
    then show "bit (shr v lsb AND (shl 1 w - 1)) n = bit (take_bit w (cpu_r c rn)) n"
      using bm [of "lsb + n"] assms(13) unfolding mw v_def by (auto simp: bit_simps)
  qed
  moreover have "bit v i = bit (cpu_r c rd) i" if "i < 32" "i < lsb \<or> lsb + w \<le> i" for i
    using bm [OF that(1)] that by (auto simp: v_def bit_simps)
  ultimately show ?thesis using i f by (intro exI conjI) (assumption, assumption, simp_all)
qed

theorem t32_bitfield_witness:
  "\<exists>c1 c2. t32_insert \<lparr>uc_shl = (\<lambda>_ _. 0), uc_shr = (\<lambda>_ _. 0), uc_sdiv = 0\<rparr> 0xF360 0x110B (set_r 0 0xAB cpu_zero) = Some c1 \<and>
     t32_field \<lparr>uc_shl = (\<lambda>_ _. 0), uc_shr = (\<lambda>_ _. 0), uc_sdiv = 0\<rparr> 0xF3C1 0x1207 c1 = Some c2 \<and> cpu_r c2 2 = 0xAB"
proof -
  let ?uc = "\<lparr>uc_shl = (\<lambda>_ _. 0), uc_shr = (\<lambda>_ _. 0), uc_sdiv = 0\<rparr>"
  obtain c1 c2 where c: "t32_insert ?uc 0xF360 0x110B (set_r 0 0xAB cpu_zero) = Some c1" "t32_field ?uc 0xF3C1 0x1207 c1 = Some c2"
      "cpu_r c2 (idx (0x1207 :: u16) 8 0xF) = take_bit 8 (cpu_r (set_r 0 0xAB cpu_zero) 0)"
    using t32_bitfield_round_trip [of "0xF360" "0x110B" "0xF3C1" "0x1207" 1 0 4 8 ?uc "set_r 0 0xAB cpu_zero"] by auto
  then show ?thesis by simp
qed

section \<open>Where the code deviates\<close>

text \<open>A small immediate clears the carry, which the architecture keeps; the unsigned saturation of halves is the
  signed one; the addition of bytes adds halves; an overflow caused by the incoming carry alone is lost. The mask of
  a BFI of all 32 bits is a shift by the width of the type: where the machine takes the shift amount modulo 32,
  nothing is inserted.\<close>

lemma bfi_full_width_lost:
  "uc_shl uc 1 32 = 1 \<Longrightarrow> t32_insert uc 0xF360 0x011F c = Some (set_r 1 (cpu_r c 1) c)"
  by (simp add: t32_insert_def c_shl_def)

lemma tst_imm_clears_carry: "\<not> flag_c (t32_dp_mod_imm 0xF010 0x0F01 c)"
  by (simp add: t32_dp_mod_imm_def t32_imm12_def thumb32_expand_imm_def t32_dp_exec_def t32_dp_result_def t32_logic_flags_def Let_def
      set_carry_def bit_simps)

lemma usat16_is_ssat16: "t32_sat16 0xF3A1 0x0207 c = t32_sat16 0xF321 0x0207 c"
  by (simp add: t32_sat16_def)

lemma qadd8_adds_halves: "t32_parallel 0xFA81 0xF012 c = t32_parallel 0xFA91 0xF012 c"
  by (simp add: t32_parallel_def)

lemma shadd16_unknown: "t32_parallel 0xFA91 0xF022 c = None"
  by (simp add: t32_parallel_def)

lemma adc_overflow_lost: "\<not> flag_v (t32_adc_flags 0 0x7FFFFFFF 1 c)"
  by (simp add: t32_adc_flags_def update_add_flags_def Let_def set_carry_def cond_mask_def bit_simps)

lemma sdiv_least_undefined:
  "cpu_r c 0 = 0x80000000 \<Longrightarrow> cpu_r c 1 = 0xFFFFFFFF \<Longrightarrow> t32_divide uc 0xFB90 0xF2F1 c = Some (set_r 2 (uc_sdiv uc) c)"
  by (simp add: t32_divide_def)

end
