(* ===== verification/Dual_Core.thy ===== *)
theory Dual_Core
  imports Cpu
begin

unbundle bit_operations_syntax

text \<open>
  The two cores of \<^verbatim>\<open>src/cpu.c\<close> on one engine: loading and storing a core's registers, the
  round-robin scheduler with its sleep fast-forward, initialisation and reset, and the separate
  exception routines that work on a stored core. Flash is reached through the bus, whose words at the start of flash
  are what \<^verbatim>\<open>memcpy\<close> from \<^verbatim>\<open>cpu.flash\<close> gives.
\<close>

section \<open>Binding a core to the engine\<close>

text \<open>The register fields that are copied between \<^verbatim>\<open>cores[c]\<close>, \<^verbatim>\<open>cpu\<close> and a saved context.\<close>

definition load_core :: "core_state \<Rightarrow> cpu_state \<Rightarrow> cpu_state" where
  "load_core k c = c\<lparr>cpu_r := (\<lambda>i. if i < 16 then cd_r k i else cpu_r c i), cpu_xpsr := cd_xpsr k,
     cpu_vtor := cd_vtor k, cpu_step_count := cd_step_count k, cpu_debug_enabled := cd_debug_enabled k,
     cpu_current_irq := cd_current_irq k, cpu_primask := cd_primask k, cpu_faultmask := cd_faultmask k,
     cpu_control := cd_control k, cpu_it_base := cd_it_base k, cpu_it_mask := cd_it_mask k,
     cpu_it_pos := cd_it_pos k, cpu_it_len := cd_it_len k\<rparr>"

definition store_core :: "cpu_state \<Rightarrow> core_state \<Rightarrow> core_state" where
  "store_core c k = k\<lparr>cd_r := (\<lambda>i. if i < 16 then cpu_r c i else cd_r k i), cd_xpsr := cpu_xpsr c,
     cd_vtor := cpu_vtor c, cd_step_count := cpu_step_count c,
     cd_current_irq := cpu_current_irq c, cd_primask := cpu_primask c, cd_faultmask := cpu_faultmask c,
     cd_control := cpu_control c, cd_it_base := cpu_it_base c, cd_it_mask := cpu_it_mask c,
     cd_it_pos := cpu_it_pos c, cd_it_len := cpu_it_len c\<rparr>"

definition restore_context :: "cpu_state \<Rightarrow> cpu_state \<Rightarrow> cpu_state" where
  "restore_context ctx c = c\<lparr>cpu_r := (\<lambda>i. if i < 16 then cpu_r ctx i else cpu_r c i), cpu_xpsr := cpu_xpsr ctx,
     cpu_vtor := cpu_vtor ctx, cpu_step_count := cpu_step_count ctx, cpu_debug_enabled := cpu_debug_enabled ctx,
     cpu_current_irq := cpu_current_irq ctx, cpu_primask := cpu_primask ctx, cpu_faultmask := cpu_faultmask ctx,
     cpu_control := cpu_control ctx, cpu_it_base := cpu_it_base ctx, cpu_it_mask := cpu_it_mask ctx,
     cpu_it_pos := cpu_it_pos ctx, cpu_it_len := cpu_it_len ctx, cpu_fp := cpu_fp ctx\<rparr>"

text \<open>The saved context is a copy of the engine's state, of which only the fields of
  \<open>restore_context\<close> are read back.\<close>

definition cpu_bind_core_context :: "'b platform \<Rightarrow> nat \<Rightarrow> 'b mach \<Rightarrow> (cpu_state \<times> 'b mach) option" where
  "cpu_bind_core_context p core_id m =
     (if core_id \<ge> 2 \<or> cd_is_halted (m_cores m core_id) then None
      else Some (m_cpu m, set_active_core core_id (pl_select_ram p
             (upd_cpu (load_core (m_cores m core_id)) m))))"

definition cpu_unbind_core_context :: "'b platform \<Rightarrow> nat \<Rightarrow> cpu_state \<Rightarrow> 'b mach \<Rightarrow> 'b mach" where
  "cpu_unbind_core_context p core_id ctx m =
     (if core_id \<ge> 2 then m
      else let c = m_cpu m;
               m1 = upd_core core_id (\<lambda>k. (store_core c k)\<lparr>cd_debug_enabled := cpu_debug_enabled c,
                      cd_is_halted := (cpu_r c 15 = 0xFFFFFFFF)\<rparr>) m;
               m2 = upd_cpu (restore_context ctx) m1
           in set_active_core core_id (pl_select_ram p m2))"

text \<open>\<^verbatim>\<open>cpu_step_core\<close> saves and restores on its own; the IT fields of the saved engine state go
  through one packed word, and the core's halt flag is only ever set.\<close>

definition cpu_step_core :: "'b platform \<Rightarrow> nat \<Rightarrow> 'b mach \<Rightarrow> 'b mach" where
  "cpu_step_core p core_id m =
     (if core_id \<ge> 2 \<or> cd_is_halted (m_cores m core_id) then m
      else let saved = m_cpu m; saved_it = pack_it saved;
               m1 = upd_cpu (load_core (m_cores m core_id)) m;
               m2 = cpu_step p (set_active_core core_id (pl_select_ram p m1));
               c = m_cpu m2;
               m3 = upd_core core_id (store_core c) m2;
               m4 = (if cpu_r c 15 = 0xFFFFFFFF then upd_core core_id (\<lambda>k. k\<lparr>cd_is_halted := True\<rparr>) m3 else m3);
               m5 = upd_cpu (\<lambda>c. unpack_it saved_it (restore_context saved c)) m4
           in pl_select_ram p m5)"

section \<open>Scheduler\<close>

text \<open>The fast-forward of a sleeping core 0: time jumps to the next alarm, at most 10 ms.\<close>

definition sleep_forward :: "'b platform \<Rightarrow> 'b mach \<Rightarrow> u32 \<times> 'b mach" where
  "sleep_forward p m =
     (let chunk0 = timer_next_wakeup_us (m_timer m);
          chunk1 = (if chunk0 > 10000 then 10000 else chunk0);
          (nd_wait, m1) = pl_nd_wait p m;
          chunk_us = (if nd_wait then 0 else chunk1);
          m2 = upd_nv (systick_tick_for_core 0 (chunk_us * m_cycles_per_us m1)) m1;
          m3 = (if m_num_active_cores m2 > 1
                then upd_nv (systick_tick_for_core 1 (chunk_us * m_cycles_per_us m2)) m2 else m2);
          m4 = tick_us p chunk_us m3
      in (chunk_us, pl_ff_poll p m4))"

definition all_asleep :: "'b mach \<Rightarrow> bool" where
  "all_asleep m \<longleftrightarrow> m_num_active_cores m = 1 \<or> cd_is_wfi (m_cores m 1) \<or> cd_is_halted (m_cores m 1)"

definition wake_pending :: "nat \<Rightarrow> 'b mach \<Rightarrow> bool" where
  "wake_pending c m \<longleftrightarrow>
     nvic_get_pending_irq ((m_nv m)\<lparr>active_core := c\<rparr>) \<noteq> 0xFFFFFFFF \<or>
     st_pending (systick_states (m_nv m) c) \<or> nv_pendsv_pending (nvic_states (m_nv m) c)"

text \<open>The turn of a sleeping core: does it wake?\<close>

definition sleep_turn :: "'b platform \<Rightarrow> nat \<Rightarrow> 'b mach \<Rightarrow> bool \<times> 'b mach" where
  "sleep_turn p c m =
     (let (ff_us, m1) = (if c = 0 \<and> all_asleep m then sleep_forward p m
                         else (0, upd_nv (systick_tick_for_core (int c) 1) m));
          wake = wake_pending c m1;
          (wake2, m2) =
            (if \<not> wake \<and> c = 0 \<and> ff_us > 0 then
               (let acc = m_wfe_wake_acc_us m1 + ff_us in
                if acc \<ge> 5000 then (True, m1\<lparr>m_wfe_wake_acc_us := 0\<rparr>)
                else (False, m1\<lparr>m_wfe_wake_acc_us := acc\<rparr>))
             else (wake, m1))
      in (wake2, if wake2 then upd_core c (\<lambda>k. k\<lparr>cd_is_wfi := False\<rparr>) m2 else m2))"

definition core_turn :: "'b platform \<Rightarrow> 'b mach \<Rightarrow> 'b mach" where
  "core_turn p m =
     (let n = m_num_active_cores m;
          c = m_current m mod n;
          m0 = m\<lparr>m_current := (m_current m + 1) mod n\<rparr>;
          (run, m1) = (if cd_is_wfi (m_cores m0 c) then sleep_turn p c m0 else (True, m0))
      in if \<not> run then m1
         else case cpu_bind_core_context p c m1 of
             None \<Rightarrow> m1
           | Some (ctx, m2) \<Rightarrow> cpu_unbind_core_context p c ctx (cpu_step p m2))"

text \<open>The loop reads the number of active cores again in each round, so a core that is started in
  the first round runs in the second. There are at most two cores.\<close>

definition dual_core_step :: "'b platform \<Rightarrow> 'b mach \<Rightarrow> 'b mach" where
  "dual_core_step p m = fold (\<lambda>i m. if i < m_num_active_cores m then core_turn p m else m) [0, 1] m"

definition cpu_is_halted_core :: "nat \<Rightarrow> 'b mach \<Rightarrow> bool" where
  "cpu_is_halted_core core_id m \<longleftrightarrow> (if core_id \<ge> 2 then True else cd_is_halted (m_cores m core_id))"

definition any_core_running :: "'b mach \<Rightarrow> bool" where
  "any_core_running m \<longleftrightarrow> list_ex (\<lambda>i. \<not> cd_is_halted (m_cores m i)) [0..<m_num_active_cores m]"

section \<open>Initialisation and reset\<close>

definition core_boot :: "nat \<Rightarrow> core_state" where
  "core_boot i = core_zero\<lparr>cd_is_halted := (i = 1), cd_xpsr := 0x01000000, cd_vtor := 0x10000100,
     cd_current_irq := 0xFFFFFFFF, cd_primask := 0\<rparr>"

definition dual_core_init :: "'b platform \<Rightarrow> 'b mach \<Rightarrow> 'b mach" where
  "dual_core_init p m =
     (let m0 = upd_nv (\<lambda>c. c\<lparr>active_core := 0\<rparr>) m;
          m1 = upd_core 1 (\<lambda>_. core_boot 1) (upd_core 0 (\<lambda>_. core_boot 0) m0);
          m2 = icache_invalidate_all m1;
          (initial_sp, m3) = pl_read32 p 0x10000100 m2;
          (reset_vector, m4) = pl_read32 p 0x10000104 m3;
          m5 = upd_core 0 (\<lambda>k. k\<lparr>cd_r := (cd_r k)(13 := initial_sp, 15 := reset_vector AND NOT 1)\<rparr>) m4;
          s = m_sio m5;
          clear = (\<lambda>f. f\<lparr>ff_count := 0, ff_read_ptr := 0, ff_write_ptr := 0\<rparr>)
      in m5\<lparr>m_sio := s\<lparr>sio_fifo := (sio_fifo s)(0 := clear (sio_fifo s 0), 1 := clear (sio_fifo s 1)),
              sio_spinlocks := (\<lambda>i. if i < 32 then 0 else sio_spinlocks s i),
              core1_bootrom := (core1_bootrom s)\<lparr>bt_waiting_for_launch := False, bt_launch_count := 0\<rparr>\<rparr>\<rparr>)"

text \<open>Detection of the second-stage boot loader from the first flash word and the word at 0x100.\<close>

definition in_sram_space :: "u32 \<Rightarrow> bool" where
  "in_sram_space w \<longleftrightarrow> w \<ge> 0x20000000 \<and> w < 0x21000000"

definition cpu_has_boot2 :: "u32 \<Rightarrow> u32 \<Rightarrow> bool" where
  "cpu_has_boot2 first_word sp_word \<longleftrightarrow>
     (if first_word = 0 \<or> first_word = 0xFFFFFFFF then False
      else if in_sram_space first_word then False
      else if sp_word < 0x20000000 \<or> sp_word \<ge> 0x21000000 then False
      else True)"

definition cpu_set_boot2 :: "bool \<Rightarrow> 'b mach \<Rightarrow> 'b mach" where
  "cpu_set_boot2 enable m = m\<lparr>m_boot2_detected := enable\<rparr>"

text \<open>The first argument gives the words of flash.\<close>

definition cpu_reset_core :: "('b mach \<Rightarrow> nat \<Rightarrow> u32) \<Rightarrow> 'b platform \<Rightarrow> nat \<Rightarrow> 'b mach \<Rightarrow> 'b mach" where
  "cpu_reset_core flash_word p core_id m =
     (if core_id \<ge> 2 then m
      else let m0 = set_active_core core_id m;
               m1 = upd_core core_id (\<lambda>k. k\<lparr>cd_r := (\<lambda>i. if i < 16 then 0 else cd_r k i),
                      cd_xpsr := 0x01000000, cd_step_count := 0, cd_is_halted := (core_id = 1),
                      cd_vtor := 0x10000100, cd_primask := 0, cd_it_base := 0, cd_it_mask := 0,
                      cd_it_pos := 0, cd_it_len := 0, cd_exception_depth := 0,
                      cd_exception_stack := (\<lambda>i. if i < 8 then 0 else cd_exception_stack k i),
                      cd_it_stack := (\<lambda>i. if i < 8 then 0 else cd_it_stack k i)\<rparr>) m0
           in if core_id \<noteq> 0 then m1
              else if m_boot2_detected m1 then
                upd_core 0 (\<lambda>k. k\<lparr>cd_r := (cd_r k)(13 := 0x20042000, 15 := 0x10000000)\<rparr>) m1
              else
                let (vector_table, m2) =
                      (if in_sram_space (flash_word m1 0)
                       then (0x10000000, upd_core 0 (\<lambda>k. k\<lparr>cd_vtor := 0x10000000\<rparr>) m1)
                       else (0x10000100, m1));
                    (initial_sp, m3) = pl_read32 p vector_table m2;
                    (reset_vector, m4) = pl_read32 p (vector_table + 4) m3
                in upd_core 0 (\<lambda>k. k\<lparr>cd_r := (cd_r k)(13 := initial_sp, 15 := reset_vector AND NOT 1)\<rparr>) m4)"

section \<open>Exceptions of a stored core\<close>

text \<open>The bus of these routines are the \<^verbatim>\<open>_dual\<close> accessors.\<close>

definition dual_push :: "(u32 \<Rightarrow> u32 \<Rightarrow> 'b mach \<Rightarrow> 'b mach) \<Rightarrow> nat \<Rightarrow> (core_state \<Rightarrow> u32) \<Rightarrow>
    u32 \<times> 'b mach \<Rightarrow> u32 \<times> 'b mach" where
  "dual_push wr core_id f s = (let (sp, m) = s in (sp - 4, wr (sp - 4) (f (m_cores m core_id)) m))"

definition cpu_exception_entry_dual :: "(u32 \<Rightarrow> 'b mach \<Rightarrow> u32 \<times> 'b mach) \<Rightarrow>
    (u32 \<Rightarrow> u32 \<Rightarrow> 'b mach \<Rightarrow> 'b mach) \<Rightarrow> nat \<Rightarrow> u32 \<Rightarrow> 'b mach \<Rightarrow> 'b mach" where
  "cpu_exception_entry_dual rd wr core_id vector_num m =
     (if core_id \<ge> 2 then m
      else let m0 = set_active_core core_id m;
               (handler_addr, m1) = rd (cd_vtor (m_cores m0 core_id) + vector_num * 4) m0;
               (sp, m2) = fold (dual_push wr core_id)
                 (cd_xpsr # map (\<lambda>i k. cd_r k i) [15, 14, 12, 3, 2, 1, 0])
                 (cd_r (m_cores m1 core_id) 13, m1)
           in upd_core core_id (\<lambda>k. k\<lparr>
                cd_r := (cd_r k)(13 := sp, 15 := handler_addr AND NOT 1, 14 := 0xFFFFFFF9),
                cd_in_handler_mode := True, cd_it_base := 0, cd_it_mask := 0, cd_it_pos := 0,
                cd_it_len := 0\<rparr>) m2)"

definition cpu_exception_return_dual :: "(u32 \<Rightarrow> 'b mach \<Rightarrow> u32 \<times> 'b mach) \<Rightarrow> nat \<Rightarrow> 'b mach \<Rightarrow> 'b mach" where
  "cpu_exception_return_dual rd core_id m =
     (if core_id \<ge> 2 then m
      else let m = set_active_core core_id m;
               sp = cd_r (m_cores m core_id) 13;
               (r0, m) = rd sp m;
               (r1, m) = rd (sp + 4) m;
               (r2, m) = rd (sp + 8) m;
               (r3, m) = rd (sp + 12) m;
               (r12, m) = rd (sp + 16) m;
               (lr, m) = rd (sp + 20) m;
               (pc, m) = rd (sp + 24) m;
               (xpsr, m) = rd (sp + 28) m
           in upd_core core_id (\<lambda>k. k\<lparr>cd_r := (cd_r k)(0 := r0, 1 := r1, 2 := r2, 3 := r3, 12 := r12,
                13 := sp + 32, 14 := lr, 15 := pc AND NOT 1), cd_xpsr := xpsr,
                cd_in_handler_mode := False\<rparr>) m)"

definition cpu_set_debug_core :: "nat \<Rightarrow> bool \<Rightarrow> 'b mach \<Rightarrow> 'b mach" where
  "cpu_set_debug_core core_id enabled m =
     (if core_id \<ge> 2 then m else upd_core core_id (\<lambda>k. k\<lparr>cd_debug_enabled := enabled\<rparr>) m)"

section \<open>Contexts are kept apart\<close>

text \<open>The registers of the engine and of a stored core that a context switch moves.\<close>

definition engine_regs ::
    "cpu_state \<Rightarrow> u32 list \<times> u32 list \<times> u8 list \<times> bool" where
  "engine_regs c = (map (cpu_r c) [0..<16],
     [cpu_xpsr c, cpu_vtor c, cpu_step_count c, cpu_current_irq c, cpu_primask c, cpu_faultmask c, cpu_control c],
     [cpu_it_base c, cpu_it_mask c, cpu_it_pos c, cpu_it_len c], cpu_debug_enabled c)"

definition core_regs ::
    "core_state \<Rightarrow> u32 list \<times> u32 list \<times> u8 list \<times> bool" where
  "core_regs k = (map (cd_r k) [0..<16],
     [cd_xpsr k, cd_vtor k, cd_step_count k, cd_current_irq k, cd_primask k, cd_faultmask k, cd_control k],
     [cd_it_base k, cd_it_mask k, cd_it_pos k, cd_it_len k], cd_debug_enabled k)"

text \<open>What a context switch relies on: choosing the RAM of a core touches only the bus.\<close>

locale core_memory =
  fixes p :: "'b platform"
  assumes select_ram: "pl_select_ram p m = m\<lparr>m_bus := m_bus (pl_select_ram p m)\<rparr>"
begin

lemma select_ram_fields [simp]:
  "m_cpu (pl_select_ram p m) = m_cpu m" "m_cores (pl_select_ram p m) = m_cores m"
  "m_nv (pl_select_ram p m) = m_nv m"
  by (subst select_ram, simp)+

text \<open>Binding loads exactly the registers of the core. Unbinding after anything has run stores
  exactly the registers reached, gives the engine back the registers it had, and touches no other
  core.\<close>

lemma bind_run_unbind:
  assumes bind: "cpu_bind_core_context p c m = Some (ctx, m1)"
    and m3: "m3 = cpu_unbind_core_context p c ctx m2"
  shows "engine_regs (m_cpu m1) = core_regs (m_cores m c) \<and> m_cores m1 = m_cores m \<and>
    get_active_core m1 = c \<and>
    core_regs (m_cores m3 c) = engine_regs (m_cpu m2) \<and>
    engine_regs (m_cpu m3) = engine_regs (m_cpu m) \<and>
    (\<forall>k. k \<noteq> c \<longrightarrow> m_cores m3 k = m_cores m2 k) \<and>
    (cd_is_halted (m_cores m3 c) \<longleftrightarrow> reg m2 15 = 0xFFFFFFFF)"
proof -
  have c: "c < 2" and ctx: "ctx = m_cpu m"
    and m1: "m1 = set_active_core c (pl_select_ram p (upd_cpu (load_core (m_cores m c)) m))"
    using bind by (auto simp: cpu_bind_core_context_def split: if_splits)
  have "engine_regs (m_cpu m1) = core_regs (m_cores m c)" "m_cores m1 = m_cores m" "get_active_core m1 = c"
    using c by (simp_all add: m1 set_active_core_def load_core_def engine_regs_def core_regs_def)
  then show ?thesis
    using c by (simp add: m3 ctx cpu_unbind_core_context_def Let_def set_active_core_def store_core_def
        restore_context_def engine_regs_def core_regs_def)
qed

end

section \<open>A sleeping core wakes up\<close>

text \<open>A machine all of whose cores sleep or are halted, and a turn in which a core leaves its sleep
  and executes an instruction.\<close>

definition sleeping :: "'b mach \<Rightarrow> bool" where
  "sleeping m \<longleftrightarrow> m_num_active_cores m \<in> {1, 2} \<and> m_current m < m_num_active_cores m \<and> cd_is_wfi (m_cores m 0) \<and>
     \<not> cd_is_halted (m_cores m 0) \<and>
     (m_num_active_cores m = 2 \<longrightarrow> cd_is_wfi (m_cores m 1) \<or> cd_is_halted (m_cores m 1))"

definition wakes_and_runs :: "'b platform \<Rightarrow> nat \<Rightarrow> 'b mach \<Rightarrow> 'b mach \<Rightarrow> bool" where
  "wakes_and_runs p c m m' \<longleftrightarrow> cd_is_wfi (m_cores m c) \<and>
     (\<exists>m1 ctx m2. m_cores m1 c = (m_cores m c)\<lparr>cd_is_wfi := False\<rparr> \<and>
        cpu_bind_core_context p c m1 = Some (ctx, m2) \<and> m' = cpu_unbind_core_context p c ctx (cpu_step p m2))"

text \<open>A host that neither freezes the fast-forward nor interferes from its poll hook.\<close>

locale quiet_host =
  fixes p :: "'b platform"
  assumes nd_wait: "pl_nd_wait p m = (False, m)"
    and ff_poll: "pl_ff_poll p m = m"
    and timer1: "m_cores (pl_timer1_tick p us m) = m_cores m"
      "m_num_active_cores (pl_timer1_tick p us m) = m_num_active_cores m"
      "m_wfe_wake_acc_us (pl_timer1_tick p us m) = m_wfe_wake_acc_us m"
      "m_current (pl_timer1_tick p us m) = m_current m"
begin

lemma tick_us_fields [simp]:
  "m_cores (tick_us p us m) = m_cores m" "m_num_active_cores (tick_us p us m) = m_num_active_cores m"
  "m_wfe_wake_acc_us (tick_us p us m) = m_wfe_wake_acc_us m" "m_current (tick_us p us m) = m_current m"
  by (simp_all add: tick_us_def split_beta Let_def timer1)

lemma sleep_forward_fields:
  "m_cores (snd (sleep_forward p m)) = m_cores m"
  "m_num_active_cores (snd (sleep_forward p m)) = m_num_active_cores m"
  "m_wfe_wake_acc_us (snd (sleep_forward p m)) = m_wfe_wake_acc_us m"
  "m_current (snd (sleep_forward p m)) = m_current m"
  by (simp_all add: sleep_forward_def nd_wait ff_poll Let_def upd_nv_def)

end

lemma timer_next_wakeup_pos: "0 < timer_next_wakeup_us t"
proof -
  let ?ok = "\<lambda>r. case r of Inl v \<Rightarrow> 0 < v | Inr (best, found) \<Rightarrow> 0 < (best :: u32)"
  have step: "?ok (timer_wakeup_scan t now i r)" if "?ok r" for i r now
  proof (cases r)
    case (Inr b)
    have "tm_alarm t i - now \<noteq> 0" if "\<not> time_reached now (tm_alarm t i)"
      using that by (auto simp: time_reached_def)
    then have "0 < tm_alarm t i - now" if "\<not> time_reached now (tm_alarm t i)"
      using that word_neq_0_conv by blast
    then show ?thesis using that Inr by (auto simp: timer_wakeup_scan_def Let_def split: prod.splits)
  qed (use that in \<open>simp add: timer_wakeup_scan_def\<close>)
  have "?ok (fold (timer_wakeup_scan t now) is (Inr (0xFFFFFFFF, False)))" for "is" now
    by (rule fold_invariant [where Q = "\<lambda>_. True" and P = ?ok]) (use step in auto)
  from this [of "timer_low t" "[0..<4]"] show ?thesis
    by (auto simp: timer_next_wakeup_us_def split: sum.splits prod.splits)
qed

context quiet_host
begin

lemma sleep_forward_us: "0 < fst (sleep_forward p m) \<and> fst (sleep_forward p m) \<le> 10000"
  using timer_next_wakeup_pos [of "m_timer m"] by (auto simp: sleep_forward_def nd_wait Let_def not_less)

text \<open>The turn of a core either leaves it asleep or wakes it. Where it leaves core 0 asleep with the other core
  asleep too, it adds at least a microsecond to the bound.\<close>

lemma sleep_turn_0:
  assumes "all_asleep m" "m_wfe_wake_acc_us m < 5000"
  shows "if fst (sleep_turn p 0 m) then m_cores (snd (sleep_turn p 0 m)) 0 = (m_cores m 0)\<lparr>cd_is_wfi := False\<rparr>
    else m_cores (snd (sleep_turn p 0 m)) = m_cores m \<and> m_current (snd (sleep_turn p 0 m)) = m_current m \<and>
      m_num_active_cores (snd (sleep_turn p 0 m)) = m_num_active_cores m \<and> m_wfe_wake_acc_us (snd (sleep_turn p 0 m)) < 5000 \<and>
      unat (m_wfe_wake_acc_us m) < unat (m_wfe_wake_acc_us (snd (sleep_turn p 0 m)))"
proof -
  obtain us m1 where f: "sleep_forward p m = (us, m1)" by (cases "sleep_forward p m")
  have us: "0 < us" "us \<le> 10000" using sleep_forward_us [of m] by (simp_all add: f)
  have m1: "m_cores m1 = m_cores m" "m_num_active_cores m1 = m_num_active_cores m"
    "m_wfe_wake_acc_us m1 = m_wfe_wake_acc_us m" "m_current m1 = m_current m"
    using sleep_forward_fields [of m] by (simp_all add: f)
  have sum: "unat (m_wfe_wake_acc_us m + us) = unat (m_wfe_wake_acc_us m) + unat us"
    using us assms(2) by (subst unat_word_ariths) (simp add: word_less_nat_alt word_le_nat_alt)
  have pos: "0 < unat us" using us(1) by (simp add: word_less_nat_alt)
  show ?thesis
    using assms(1) us(1) pos
    by (auto simp: sleep_turn_def f Let_def m1 sum not_le)
qed

lemma sleep_turn_1:
  "if fst (sleep_turn p 1 m) then m_cores (snd (sleep_turn p 1 m)) = (m_cores m)(1 := (m_cores m 1)\<lparr>cd_is_wfi := False\<rparr>)
   else m_cores (snd (sleep_turn p 1 m)) = m_cores m"
  "m_current (snd (sleep_turn p 1 m)) = m_current m" "m_num_active_cores (snd (sleep_turn p 1 m)) = m_num_active_cores m"
  "m_wfe_wake_acc_us (snd (sleep_turn p 1 m)) = m_wfe_wake_acc_us m"
  by (simp_all add: sleep_turn_def Let_def upd_nv_def upd_core_def)

lemma core_turn_0:
  assumes "sleeping m" "m_wfe_wake_acc_us m < 5000" "m1 = core_turn p m" "m_current m = 0"
  shows "wakes_and_runs p 0 m m1 \<or> m_cores m1 = m_cores m \<and> m_current m1 = 1 mod m_num_active_cores m \<and>
    m_num_active_cores m1 = m_num_active_cores m \<and> m_wfe_wake_acc_us m1 < 5000 \<and>
    unat (m_wfe_wake_acc_us m) < unat (m_wfe_wake_acc_us m1)"
proof -
  define m0 where "m0 = m\<lparr>m_current := 1 mod m_num_active_cores m\<rparr>"
  obtain run s where s: "sleep_turn p 0 m0 = (run, s)" by fastforce
  have m0: "all_asleep m0" "m_wfe_wake_acc_us m0 < 5000" using assms(1,2) by (auto simp: sleeping_def all_asleep_def m0_def)
  have t: "m1 = (if \<not> run then s else case cpu_bind_core_context p 0 s of None \<Rightarrow> s
      | Some (ctx, m2) \<Rightarrow> cpu_unbind_core_context p 0 ctx (cpu_step p m2))"
    using assms(1) s unfolding assms(3) core_turn_def m0_def by (simp add: sleeping_def assms(4))
  show ?thesis
  proof (cases run)
    case True
    then have c: "m_cores s 0 = (m_cores m 0)\<lparr>cd_is_wfi := False\<rparr>" using sleep_turn_0 [OF m0] by (simp add: s) (simp add: m0_def)
    then obtain ctx m2 where "cpu_bind_core_context p 0 s = Some (ctx, m2)"
      using assms(1) by (simp add: cpu_bind_core_context_def sleeping_def)
    then have "wakes_and_runs p 0 m m1"
      using assms(1) c True by (auto simp: wakes_and_runs_def t sleeping_def)
    then show ?thesis ..
  next
    case False
    then have "m1 = s" by (simp add: t)
    then show ?thesis using sleep_turn_0 [OF m0] False by (simp add: s) (simp add: m0_def)
  qed
qed

lemma core_turn_1:
  assumes "sleeping m" "m_current m = 1" "m2 = core_turn p m"
  shows "wakes_and_runs p 1 m m2 \<or> sleeping m2 \<and> m_cores m2 0 = m_cores m 0 \<and>
    core_regs (m_cores m2 1) = core_regs (m_cores m 1) \<and> m_current m2 = 0 \<and>
    m_num_active_cores m2 = 2 \<and> m_wfe_wake_acc_us m2 = m_wfe_wake_acc_us m"
proof -
  have n: "m_num_active_cores m = 2" using assms(1,2) by (auto simp: sleeping_def)
  define m0 where "m0 = m\<lparr>m_current := 0\<rparr>"
  have m0: "m_cores m0 = m_cores m" "m_current m0 = 0" "m_num_active_cores m0 = 2" "m_wfe_wake_acc_us m0 = m_wfe_wake_acc_us m"
    using n by (simp_all add: m0_def)
  obtain run s where s: "(if cd_is_wfi (m_cores m 1) then sleep_turn p 1 m0 else (True, m0)) = (run, s)" by fastforce
  have t: "m2 = (if \<not> run then s else case cpu_bind_core_context p 1 s of None \<Rightarrow> s
      | Some (ctx, m2) \<Rightarrow> cpu_unbind_core_context p 1 ctx (cpu_step p m2))"
    using s n assms(2) unfolding assms(3) core_turn_def m0_def by (auto simp: Let_def split: if_splits)
  have f: "m_current s = 0" "m_num_active_cores s = 2" "m_wfe_wake_acc_us s = m_wfe_wake_acc_us m"
    "m_cores s 0 = m_cores m 0" "m_cores s 1 = (m_cores m 1)\<lparr>cd_is_wfi := \<not> run \<and> cd_is_wfi (m_cores m 1)\<rparr>"
    using s sleep_turn_1 [of m0] m0 by (auto split: if_splits)
  show ?thesis
  proof (cases "run \<and> \<not> cd_is_halted (m_cores m 1)")
    case True
    then have w: "cd_is_wfi (m_cores m 1)" using assms(1) n by (simp add: sleeping_def)
    obtain ctx m3 where "cpu_bind_core_context p 1 s = Some (ctx, m3)"
      using True f(5) by (simp add: cpu_bind_core_context_def)
    then have "wakes_and_runs p 1 m m2"
      using f(5) True w by (auto simp: wakes_and_runs_def t)
    then show ?thesis ..
  next
    case False
    then have "m2 = s" using f(5) by (auto simp: t cpu_bind_core_context_def)
    then show ?thesis using assms(1) n f False by (auto simp: sleeping_def core_regs_def)
  qed
qed

end

text \<open>A round of the scheduler in which the core of one of its turns wakes and runs.\<close>

definition round_wakes :: "'b platform \<Rightarrow> 'b mach \<Rightarrow> bool" where
  "round_wakes p m \<longleftrightarrow> (let m1 = core_turn p m in wakes_and_runs p (m_current m) m m1 \<or>
     m_num_active_cores m = 2 \<and> dual_core_step p m = core_turn p m1 \<and> m_current m1 = 1 - m_current m \<and>
     wakes_and_runs p (m_current m1) m1 (core_turn p m1))"

text \<open>What rounds without a wake-up keep.\<close>

definition slept :: "'b mach \<Rightarrow> 'b mach \<Rightarrow> bool" where
  "slept m m' \<longleftrightarrow> sleeping m' \<and> m_cores m' 0 = m_cores m 0 \<and> core_regs (m_cores m' 1) = core_regs (m_cores m 1) \<and>
     m_num_active_cores m' = m_num_active_cores m \<and> m_wfe_wake_acc_us m' < 5000"

context quiet_host
begin

lemma turn_progress:
  assumes "sleeping m" "m_wfe_wake_acc_us m < 5000"
  shows "wakes_and_runs p (m_current m) m (core_turn p m) \<or> slept m (core_turn p m) \<and>
    m_current (core_turn p m) = (m_current m + 1) mod m_num_active_cores m \<and>
    (if m_current m = 0 then unat (m_wfe_wake_acc_us m) < unat (m_wfe_wake_acc_us (core_turn p m))
     else m_wfe_wake_acc_us (core_turn p m) = m_wfe_wake_acc_us m)"
proof -
  consider "m_current m = 0" | "m_current m = 1" "m_num_active_cores m = 2"
    using assms(1) by (auto simp: sleeping_def less_2_cases_iff)
  then show ?thesis
  proof cases
    case 1
    then show ?thesis
      using core_turn_0 [OF assms refl 1] assms(1) by (auto simp: slept_def sleeping_def)
  next
    case 2
    then show ?thesis using core_turn_1 [OF assms(1) 2(1) refl] assms(2) by (auto simp: slept_def)
  qed
qed

lemma round_progress:
  assumes "sleeping m" "m_wfe_wake_acc_us m < 5000" "m2 = dual_core_step p m" "\<not> round_wakes p m"
  shows "slept m m2 \<and> unat (m_wfe_wake_acc_us m) < unat (m_wfe_wake_acc_us m2)"
proof -
  define m1 where "m1 = core_turn p m"
  have t: "slept m m1" "m_current m1 = (m_current m + 1) mod m_num_active_cores m"
    "if m_current m = 0 then unat (m_wfe_wake_acc_us m) < unat (m_wfe_wake_acc_us m1) else m_wfe_wake_acc_us m1 = m_wfe_wake_acc_us m"
    using turn_progress [OF assms(1,2)] assms(4) by (auto simp: round_wakes_def m1_def Let_def)
  consider "m_num_active_cores m = 1" "m_current m = 0" | "m_num_active_cores m = 2" "m_current m < 2" using assms(1) by (auto simp: sleeping_def)
  then show ?thesis
  proof cases
    case 1
    then have "m2 = m1" using t(1) by (simp add: assms(3) dual_core_step_def slept_def m1_def)
    then show ?thesis using t 1 by simp
  next
    case 2
    then have m2: "m2 = core_turn p m1" using t(1) by (simp add: assms(3) dual_core_step_def slept_def m1_def)
    have c: "m_current m1 = 1 - m_current m" using t(2) 2 by (auto simp: less_2_cases_iff)
    then have "\<not> wakes_and_runs p (m_current m1) m1 m2"
      using assms(3,4) 2 m2 by (simp add: round_wakes_def Let_def m1_def)
    then show ?thesis
      using turn_progress [of m1] t c 2(2) unfolding m2 by (auto simp: slept_def less_2_cases_iff split: if_splits)
  qed
qed

lemma sleeper_wakes:
  assumes "sleeping m" "m_wfe_wake_acc_us m < 5000"
  shows "\<exists>k < 5000. slept m ((dual_core_step p ^^ k) m) \<and> round_wakes p ((dual_core_step p ^^ k) m)"
proof (rule ccontr)
  assume none: "\<not> ?thesis"
  let ?m = "\<lambda>n. (dual_core_step p ^^ n) m"
  have "slept m (?m n) \<and> n \<le> unat (m_wfe_wake_acc_us (?m n))" if "n \<le> 5000" for n
    using that
  proof (induction n)
    case (Suc n)
    then have "\<not> round_wakes p (?m n)" using none by auto
    then show ?case using round_progress [of "?m n", OF _ _ refl] Suc by (auto simp: slept_def)
  qed (use assms in \<open>simp add: slept_def\<close>)
  from this [OF order_refl] have "unat (m_wfe_wake_acc_us (?m 5000)) < 5000" "5000 \<le> unat (m_wfe_wake_acc_us (?m 5000))"
    unfolding word_less_nat_alt slept_def by simp_all
  then show False by linarith
qed

end

end
