(* ===== verification/Core1_Boot.thy ===== *)
theory Core1_Boot
  imports Machine
begin

unbundle bit_operations_syntax

text \<open>
  Starting core 1 (\<^verbatim>\<open>src/cpu.c\<close>): the reset line from the power state machine, the boot ROM that waits
  for the six launch words in the mailbox and echoes each, and its periodic announcement that it is
  ready. The host threads of the threaded mode, which the last step wakes, are left out.
\<close>

section \<open>Operations\<close>

definition push_mailbox :: "nat \<Rightarrow> u32 \<Rightarrow> 'b mach \<Rightarrow> bool \<times> 'b mach" where
  "push_mailbox k val m =
     (let (ok, s, nv) = fifo_try_push k val (m_sio m) (m_nv m) in (ok, m\<lparr>m_sio := s, m_nv := nv\<rparr>))"

definition upd_bootrom :: "(core1_bootrom_state \<Rightarrow> core1_bootrom_state) \<Rightarrow> 'b mach \<Rightarrow> 'b mach" where
  "upd_bootrom f m = m\<lparr>m_sio := (m_sio m)\<lparr>core1_bootrom := f (core1_bootrom (m_sio m))\<rparr>\<rparr>"

abbreviation bootrom :: "'b mach \<Rightarrow> core1_bootrom_state" where
  "bootrom m \<equiv> core1_bootrom (m_sio m)"

definition sio_set_core1_reset :: "bool \<Rightarrow> 'b mach \<Rightarrow> 'b mach" where
  "sio_set_core1_reset assert_reset m =
     (let m1 = upd_core 1 (\<lambda>c. c\<lparr>cd_is_halted := True\<rparr>) m;
          m2 = upd_bootrom (\<lambda>b. b\<lparr>bt_waiting_for_launch := \<not> assert_reset, bt_launch_count := 0\<rparr>) m1;
          m3 = m2\<lparr>m_sio := (m_sio m2)\<lparr>sio_fifo := (sio_fifo (m_sio m2))(1 := fifo_zero)\<rparr>\<rparr>
      in if assert_reset then m3
         else let m4 = snd (push_mailbox 0 0 m3)
              in m4\<lparr>m_sio := (m_sio m4)\<lparr>bootrom_last_push_us := tm_time_us (m_timer m4)\<rparr>\<rparr>)"

definition sio_set_core1_stall :: "bool \<Rightarrow> 'b mach \<Rightarrow> 'b mach" where
  "sio_set_core1_stall stall m = m"

text \<open>The registers of core 1 when the sixth word has come.\<close>

definition launch_core :: "core1_bootrom_state \<Rightarrow> core_state \<Rightarrow> core_state" where
  "launch_core b c = c\<lparr>
     cd_r := (\<lambda>i. if i = 13 then bt_launch_words b 4 else if i = 15 then bt_launch_words b 5 AND NOT 1
                  else if i < 16 then 0 else cd_r c i),
     cd_vtor := bt_launch_words b 3, cd_xpsr := 0x01000000, cd_current_irq := 0xFFFFFFFF,
     cd_primask := 0, cd_control := 0, cd_is_halted := False\<rparr>"

definition sio_core1_bootrom_handle_fifo_write :: "u32 \<Rightarrow> 'b mach \<Rightarrow> bool \<times> 'b mach" where
  "sio_core1_bootrom_handle_fifo_write val m =
     (if \<not> bt_waiting_for_launch (bootrom m) then (False, m)
      else let m1 = snd (push_mailbox 0 val m);
               m2 = (if bt_launch_count (bootrom m1) < 6
                     then upd_bootrom (\<lambda>b. b\<lparr>bt_launch_words := (bt_launch_words b)(bt_launch_count b := val),
                            bt_launch_count := bt_launch_count b + 1\<rparr>) m1
                     else m1)
           in (True,
               if bt_launch_count (bootrom m2) = 6
               then let m3 = upd_core 1 (launch_core (bootrom m2)) m2;
                        m4 = upd_bootrom (\<lambda>b. b\<lparr>bt_waiting_for_launch := False, bt_launch_count := 0\<rparr>) m3
                    in if m_num_active_cores m4 < 2 then m4\<lparr>m_num_active_cores := 2\<rparr> else m4
               else m2))"

definition sio_bootrom_poll :: "'b mach \<Rightarrow> 'b mach" where
  "sio_bootrom_poll m =
     (if \<not> bt_waiting_for_launch (bootrom m) then m
      else if ff_count (sio_fifo (m_sio m) 0) \<noteq> 0 then m
      else let now = tm_time_us (m_timer m) in
        if now - bootrom_last_push_us (m_sio m) < 1000 then m
        else let (ok, m1) = push_mailbox 0 0 m
             in if ok then m1\<lparr>m_sio := (m_sio m1)\<lparr>bootrom_last_push_us := now\<rparr>\<rparr> else m1)"

section \<open>The launch protocol\<close>

text \<open>Sending words to the boot ROM.\<close>

definition launch :: "u32 list \<Rightarrow> 'b mach \<Rightarrow> 'b mach" where
  "launch ws m = fold (\<lambda>w m. snd (sio_core1_bootrom_handle_fifo_write w m)) ws m"

lemma push_mailbox_simps [simp]:
  "m_cores (snd (push_mailbox k v m)) = m_cores m" "bootrom (snd (push_mailbox k v m)) = bootrom m"
  "m_num_active_cores (snd (push_mailbox k v m)) = m_num_active_cores m"
  "m_timer (snd (push_mailbox k v m)) = m_timer m" "m_cpu (snd (push_mailbox k v m)) = m_cpu m"
  "sio_fifo (m_sio (upd_bootrom f m)) = sio_fifo (m_sio m)" "bootrom (upd_bootrom f m) = f (bootrom m)"
  "m_cores (upd_bootrom f m) = m_cores m" "m_num_active_cores (upd_bootrom f m) = m_num_active_cores m"
  "m_sio (upd_core j g m) = m_sio m" "m_num_active_cores (upd_core j g m) = m_num_active_cores m"
  by (simp_all add: push_mailbox_def fifo_try_push_def upd_bootrom_def upd_core_def Let_def)

lemma push_mailbox_contents:
  assumes "sio_wf (m_sio m)"
  shows "sio_wf (m_sio (snd (push_mailbox 0 v m)))"
    "mailbox 0 (m_sio (snd (push_mailbox 0 v m))) = take 32 (mailbox 0 (m_sio m) @ [v])"
proof -
  have "m_sio (snd (push_mailbox 0 v m)) = fifo_push 0 v (m_sio m)"
    by (simp add: push_mailbox_def fifo_try_push_alt fifo_push_full split_beta Let_def)
  then show "sio_wf (m_sio (snd (push_mailbox 0 v m)))"
    "mailbox 0 (m_sio (snd (push_mailbox 0 v m))) = take 32 (mailbox 0 (m_sio m) @ [v])"
    using mbx0.wf_push [OF assms] mbx0.contents_push [OF assms] by simp_all
qed

lemma sio_wf_fifo: "sio_fifo s = sio_fifo s' \<Longrightarrow> sio_wf s = sio_wf s' \<and> mailbox k s = mailbox k s'"
  by (simp add: sio_wf_def mailbox_def)

text \<open>Until the sixth word the boot ROM records and echoes.\<close>

lemma launch_prefix:
  assumes "bt_waiting_for_launch (bootrom m)" "bt_launch_count (bootrom m) = 0" "sio_wf (m_sio m)" "length ws < 6"
  shows "bt_waiting_for_launch (bootrom (launch ws m)) \<and> bt_launch_count (bootrom (launch ws m)) = length ws \<and>
    (\<forall>i < length ws. bt_launch_words (bootrom (launch ws m)) i = ws ! i) \<and>
    m_cores (launch ws m) = m_cores m \<and> m_num_active_cores (launch ws m) = m_num_active_cores m \<and>
    sio_wf (m_sio (launch ws m)) \<and> mailbox 0 (m_sio (launch ws m)) = take 32 (mailbox 0 (m_sio m) @ ws)"
  using assms(4)
proof (induction ws rule: rev_induct)
  case Nil
  then show ?case using assms(1-3) mbx0.bounded [OF assms(3)] by (simp add: launch_def)
next
  case (snoc w ws)
  let ?m = "launch ws m"
  have IH: "bt_waiting_for_launch (bootrom ?m)" "bt_launch_count (bootrom ?m) = length ws"
    "\<forall>i < length ws. bt_launch_words (bootrom ?m) i = ws ! i" "m_cores ?m = m_cores m"
    "m_num_active_cores ?m = m_num_active_cores m" "sio_wf (m_sio ?m)"
    "mailbox 0 (m_sio ?m) = take 32 (mailbox 0 (m_sio m) @ ws)"
    using snoc by simp_all
  define m2 where "m2 = upd_bootrom (\<lambda>b. b\<lparr>bt_launch_words := (bt_launch_words b)(bt_launch_count b := w),
      bt_launch_count := bt_launch_count b + 1\<rparr>) (snd (push_mailbox 0 w ?m))"
  have l: "launch (ws @ [w]) m = m2"
    using IH(1,2) snoc.prems by (simp add: launch_def sio_core1_bootrom_handle_fifo_write_def m2_def Let_def)
  have f: "sio_wf (m_sio m2) = sio_wf (m_sio (snd (push_mailbox 0 w ?m)))"
    "mailbox 0 (m_sio m2) = mailbox 0 (m_sio (snd (push_mailbox 0 w ?m)))"
    using sio_wf_fifo [of "m_sio m2" "m_sio (snd (push_mailbox 0 w ?m))"] by (simp_all add: m2_def)
  show ?case
    unfolding l f using push_mailbox_contents [OF IH(6), of w] IH
    by (auto simp: m2_def nth_append less_Suc_eq min_def)
qed

lemma launch_snoc: "launch (ws @ [w]) m = snd (sio_core1_bootrom_handle_fifo_write w (launch ws m))"
  by (simp add: launch_def)

text \<open>With the sixth word core 1 runs.\<close>

lemma launch_six:
  fixes m0 :: "'b mach"
  assumes "bt_waiting_for_launch (bootrom m0)" "bt_launch_count (bootrom m0) = 0" "sio_wf (m_sio m0)"
    and ws: "ws = [w0, w1, w2, vtor, sp, entry]"
  shows "\<exists>b. m_cores (launch ws m0) = (m_cores m0)(1 := launch_core b (m_cores m0 1)) \<and>
      bt_launch_words b 3 = vtor \<and> bt_launch_words b 4 = sp \<and> bt_launch_words b 5 = entry"
    "\<not> bt_waiting_for_launch (bootrom (launch ws m0))" "m_num_active_cores (launch ws m0) \<ge> 2"
    "mailbox 0 (m_sio (launch ws m0)) = take 32 (mailbox 0 (m_sio m0) @ ws)"
proof -
  define m5 where "m5 = launch [w0, w1, w2, vtor, sp] m0"
  define m6 where "m6 = upd_bootrom (\<lambda>b. b\<lparr>bt_launch_words := (bt_launch_words b)(5 := entry), bt_launch_count := 6\<rparr>)
      (snd (push_mailbox 0 entry m5))"
  have p5: "bt_waiting_for_launch (bootrom m5)" "bt_launch_count (bootrom m5) = 5"
    "bt_launch_words (bootrom m5) 3 = vtor" "bt_launch_words (bootrom m5) 4 = sp" "m_cores m5 = m_cores m0"
    "sio_wf (m_sio m5)" "mailbox 0 (m_sio m5) = take 32 (mailbox 0 (m_sio m0) @ [w0, w1, w2, vtor, sp])"
    using launch_prefix [OF assms(1-3), of "[w0, w1, w2, vtor, sp]"] by (simp_all add: m5_def nth_Cons')
  define m8 where "m8 = upd_bootrom (\<lambda>b. b\<lparr>bt_waiting_for_launch := False, bt_launch_count := 0\<rparr>)
      (upd_core 1 (launch_core (bootrom m6)) m6)"
  have "launch ws m0 = snd (sio_core1_bootrom_handle_fifo_write entry m5)"
    using launch_snoc [of "[w0, w1, w2, vtor, sp]" entry m0] by (simp add: ws m5_def)
  also have "\<dots> = (if m_num_active_cores m8 < 2 then m8\<lparr>m_num_active_cores := 2\<rparr> else m8)"
    using p5(1,2) by (simp add: sio_core1_bootrom_handle_fifo_write_def m6_def m8_def upd_bootrom_def Let_def)
  finally have l: "launch ws m0 = (if m_num_active_cores m8 < 2 then m8\<lparr>m_num_active_cores := 2\<rparr> else m8)" .
  have "mailbox 0 (m_sio (launch ws m0)) = mailbox 0 (m_sio (snd (push_mailbox 0 entry m5)))"
    by (rule sio_wf_fifo [THEN conjunct2]) (simp add: l m8_def m6_def)
  then show "mailbox 0 (m_sio (launch ws m0)) = take 32 (mailbox 0 (m_sio m0) @ ws)"
    using push_mailbox_contents(2) [OF p5(6), of entry] by (simp only: p5(7) ws take_take_append append.simps append.assoc)
  show "\<not> bt_waiting_for_launch (bootrom (launch ws m0))" "m_num_active_cores (launch ws m0) \<ge> 2"
    by (simp_all add: l m8_def)
  have "m_cores (launch ws m0) = (m_cores m0)(1 := launch_core (bootrom m6) (m_cores m0 1))"
    by (simp add: l m8_def m6_def p5(5))
  moreover have "bt_launch_words (bootrom m6) 3 = vtor" "bt_launch_words (bootrom m6) 4 = sp"
    "bt_launch_words (bootrom m6) 5 = entry" using p5(3,4) by (simp_all add: m6_def)
  ultimately show "\<exists>b. m_cores (launch ws m0) = (m_cores m0)(1 := launch_core b (m_cores m0 1)) \<and>
      bt_launch_words b 3 = vtor \<and> bt_launch_words b 4 = sp \<and> bt_launch_words b 5 = entry" by blast
qed

lemma core1_reset_released:
  assumes "sio_wf (m_sio m)"
  defines "m0 \<equiv> sio_set_core1_reset False m"
  shows "bt_waiting_for_launch (bootrom m0)" "bt_launch_count (bootrom m0) = 0" "sio_wf (m_sio m0)"
    "mailbox 0 (m_sio m0) = take 32 (mailbox 0 (m_sio m) @ [0])"
    "m_cores m0 = (m_cores m)(1 := (m_cores m 1)\<lparr>cd_is_halted := True\<rparr>)"
proof -
  define m3 where "m3 = (let m2 = upd_bootrom (\<lambda>b. b\<lparr>bt_waiting_for_launch := True, bt_launch_count := 0\<rparr>)
      (upd_core 1 (\<lambda>c. c\<lparr>cd_is_halted := True\<rparr>) m)
    in m2\<lparr>m_sio := (m_sio m2)\<lparr>sio_fifo := (sio_fifo (m_sio m2))(1 := fifo_zero)\<rparr>\<rparr>)"
  have m0_alt: "m0 = (snd (push_mailbox 0 0 m3))\<lparr>m_sio := (m_sio (snd (push_mailbox 0 0 m3)))
      \<lparr>bootrom_last_push_us := tm_time_us (m_timer (snd (push_mailbox 0 0 m3)))\<rparr>\<rparr>"
    by (simp add: m0_def sio_set_core1_reset_def m3_def Let_def)
  have m3: "sio_wf (m_sio m3)" "mailbox 0 (m_sio m3) = mailbox 0 (m_sio m)"
    using assms(1) by (simp_all add: m3_def Let_def sio_wf_def mailbox_def mailbox_wf_def fifo_zero_def)
  show "sio_wf (m_sio m0)" "mailbox 0 (m_sio m0) = take 32 (mailbox 0 (m_sio m) @ [0])"
    using push_mailbox_contents [OF m3(1), of 0] sio_wf_fifo [of "m_sio m0" "m_sio (snd (push_mailbox 0 0 m3))" 0]
    unfolding m3(2) by (simp_all add: m0_alt)
  show "bt_waiting_for_launch (bootrom m0)" "bt_launch_count (bootrom m0) = 0"
    "m_cores m0 = (m_cores m)(1 := (m_cores m 1)\<lparr>cd_is_halted := True\<rparr>)"
    by (simp_all add: m0_alt) (simp_all add: m3_def Let_def)
qed

text \<open>C15. Launching core 1. After the reset of core 1 is released, its boot ROM announces itself and
  waits; the six words that the starting core then sends (the last three being vector table, stack
  pointer and entry point) are all accepted and echoed in order, core 1 stays halted until the sixth,
  and then runs at the entry point with that stack pointer and vector table, interrupts unmasked and
  all other registers cleared. A further word is no longer for the boot ROM.\<close>

theorem core1_launch:
  fixes m :: "'b mach"
  assumes "sio_wf (m_sio m)" "ws = [w0, w1, w2, vtor, sp, entry]"
  shows "let m0 = sio_set_core1_reset False m; m' = launch ws m0; c = m_cores m' 1 in
    mailbox 0 (m_sio m') = take 32 (mailbox 0 (m_sio m) @ 0 # ws) \<and>
    (\<forall>k < 6. cd_is_halted (m_cores (launch (take k ws) m0) 1)) \<and>
    \<not> cd_is_halted c \<and> cd_vtor c = vtor \<and> cd_xpsr c = 0x01000000 \<and> cd_primask c = 0 \<and> cd_control c = 0 \<and>
    (\<forall>i < 16. cd_r c i = (if i = 13 then sp else if i = 15 then entry AND NOT 1 else 0)) \<and>
    m_num_active_cores m' \<ge> 2 \<and> m_cores m' 0 = m_cores m 0 \<and>
    sio_core1_bootrom_handle_fifo_write x m' = (False, m')"
proof -
  define m0 where "m0 = sio_set_core1_reset False m"
  define m' where "m' = launch ws m0"
  note r = core1_reset_released [OF assms(1), folded m0_def]
  note six = launch_six [OF r(1-3) assms(2), folded m'_def]
  obtain b where b: "m_cores m' = (m_cores m0)(1 := launch_core b (m_cores m0 1))"
    "bt_launch_words b 3 = vtor" "bt_launch_words b 4 = sp" "bt_launch_words b 5 = entry" using six(1) by blast
  have "cd_is_halted (m_cores (launch (take k ws) m0) 1)" if "k < 6" for k
    using launch_prefix [OF r(1-3), of "take k ws"] that by (simp add: assms(2) r(5))
  moreover have "mailbox 0 (m_sio m') = take 32 (mailbox 0 (m_sio m) @ 0 # ws)"
    by (simp only: six(4) r(4) take_take_append append.simps append.assoc)
  moreover have "sio_core1_bootrom_handle_fifo_write x m' = (False, m')"
    using six(2) by (simp add: sio_core1_bootrom_handle_fifo_write_def)
  ultimately show ?thesis
    unfolding Let_def m0_def [symmetric] m'_def [symmetric] using b six(3) r(5) by (simp add: launch_core_def)
qed

theorem core1_launch_witness:
  "let m' = launch [0, 0, 1, 0x10000100, 0x20042000, 0x10000201] (sio_set_core1_reset False (mach_boot ())) in
   \<not> cd_is_halted (m_cores m' 1) \<and> cd_r (m_cores m' 1) 15 = 0x10000200"
proof -
  have "sio_wf (m_sio (mach_boot ()))" by (simp add: mach_boot_def)
  from core1_launch [OF this refl, of 0 0 1 "0x10000100" "0x20042000" "0x10000201" 0]
  show ?thesis by (simp add: Let_def)
qed

text \<open>The boot ROM does not check the words. The protocol starts over with a zero when an answer is
  not the echo; after an abandoned attempt of two words the words of the next attempt are taken for
  the wrong registers, and core 1 starts at the vector table.\<close>

lemma relaunch_misaligned:
  "cd_r (m_cores (launch ([0, 0] @ [0, 0, 1, 0x10000100]) (sio_set_core1_reset False (mach_boot ()))) 1) 15 = 0x10000100"
proof -
  have "sio_wf (m_sio (mach_boot ()))" by (simp add: mach_boot_def)
  note r = core1_reset_released [OF this]
  show ?thesis
    using launch_six(1) [OF r(1-3) refl, of 0 0 0 0 1 "0x10000100"] by (auto simp: launch_core_def)
qed

end
