(* ===== verification/Uart.thy ===== *)
theory Uart
  imports Nvic
begin

unbundle bit_operations_syntax

text \<open>
  The two PL011 serial ports of \<^verbatim>\<open>src/uart.c\<close>. An operation takes the instance it works on and the
  interrupt system. A transmitted byte leaves the emulator at once, to the network bridge, a wire
  or standard output; \<open>u_tx_out\<close> records these bytes, latest first. Logging is not modelled.
\<close>

section \<open>State and operations\<close>

record uart_state =
  u_dr :: u32
  u_rsr :: u32
  u_ibrd :: u32
  u_fbrd :: u32
  u_lcr_h :: u32
  u_cr :: u32
  u_ifls :: u32
  u_imsc :: u32
  u_ris :: u32
  u_dmacr :: u32
  u_enabled :: bool
  u_tx_activity :: u32
  u_rx_fifo :: "nat \<Rightarrow> u8"
  u_rx_head :: nat
  u_rx_tail :: nat
  u_rx_count :: nat
  u_rx_rt_ctr :: u32
  u_tx_out :: "u8 list"

definition uart_boot :: uart_state where
  "uart_boot = \<lparr>u_dr = 0, u_rsr = 0, u_ibrd = 0, u_fbrd = 0, u_lcr_h = 0, u_cr = 0,
     u_ifls = 0x12, u_imsc = 0, u_ris = 0, u_dmacr = 0, u_enabled = False, u_tx_activity = 0,
     u_rx_fifo = (\<lambda>_. 0), u_rx_head = 0, u_rx_tail = 0, u_rx_count = 0, u_rx_rt_ctr = 0,
     u_tx_out = []\<rparr>"

definition uart_reset_instance :: "uart_state \<Rightarrow> uart_state" where
  "uart_reset_instance u = uart_boot\<lparr>u_tx_out := u_tx_out u\<rparr>"

definition uart_init :: "(nat \<Rightarrow> uart_state) \<Rightarrow> nat \<Rightarrow> uart_state" where
  "uart_init us = us(0 := uart_reset_instance (us 0), 1 := uart_reset_instance (us 1))"

definition uart_match :: "bool \<Rightarrow> u32 \<Rightarrow> nat option" where
  "uart_match rp2350 addr =
     (let b = addr AND NOT 0x3000 in
      if rp2350 \<and> in_block b 0x40070000 0x1000 then Some 0
      else if rp2350 \<and> in_block b 0x40078000 0x1000 then Some 1
      else if in_block b 0x40034000 0x1000 then Some 0
      else if in_block b 0x40038000 0x1000 then Some 1
      else None)"

definition rx_trigger_level :: "uart_state \<Rightarrow> nat" where
  "rx_trigger_level u =
     (let l = shr (u_ifls u) 3 AND 7 in
      if l = 0 then 2 else if l = 1 then 4 else if l = 2 then 8 else if l = 3 then 12
      else if l = 4 then 14 else 8)"

definition uart_irq :: "nat \<Rightarrow> u32" where
  "uart_irq uart_num = (if uart_num = 0 then 20 else 21)"

definition uart_check_irq :: "nat \<Rightarrow> uart_state \<Rightarrow> nvic_ctx \<Rightarrow> nvic_ctx" where
  "uart_check_irq uart_num u nv =
     (if u_ris u AND u_imsc u \<noteq> 0 then nvic_signal_rp2350_irq (uart_irq uart_num) nv else nv)"

text \<open>One pass of \<^verbatim>\<open>uart_tick\<close> for one instance, and the loop over both.\<close>

definition uart_tick1 :: "nat \<Rightarrow> uart_state \<Rightarrow> nvic_ctx \<Rightarrow> uart_state \<times> nvic_ctx" where
  "uart_tick1 i u nv =
     (if u_rx_rt_ctr u > 0 then
        (let u1 = u\<lparr>u_rx_rt_ctr := u_rx_rt_ctr u - 1\<rparr> in
         if u_rx_rt_ctr u1 = 0 \<and> u_rx_count u1 > 0 \<and> u_ris u1 AND shl 1 6 = 0 then
           (let u2 = u1\<lparr>u_ris := u_ris u1 OR shl 1 6\<rparr> in (u2, uart_check_irq i u2 nv))
         else (u1, nv))
      else (u, nv))"

definition uart_tick :: "(nat \<Rightarrow> uart_state) \<Rightarrow> nvic_ctx \<Rightarrow> (nat \<Rightarrow> uart_state) \<times> nvic_ctx" where
  "uart_tick us nv =
     fold (\<lambda>i (us, nv). let (u, nv) = uart_tick1 i (us i) nv in (us(i := u), nv)) [0, 1] (us, nv)"

definition uart_rx_update_irq :: "uart_state \<Rightarrow> uart_state" where
  "uart_rx_update_irq u =
     (if u_rx_count u \<ge> rx_trigger_level u then u\<lparr>u_ris := u_ris u OR shl 1 4\<rparr> else u)"

text \<open>The effect of a received byte on the port.\<close>

definition uart_rx_enqueue :: "u8 \<Rightarrow> uart_state \<Rightarrow> uart_state" where
  "uart_rx_enqueue data u =
     (if u_rx_count u \<ge> 16 then u
      else uart_rx_update_irq (u\<lparr>u_rx_fifo := (u_rx_fifo u)(u_rx_head u := data),
             u_rx_head := (u_rx_head u + 1) mod 16, u_rx_count := u_rx_count u + 1,
             u_rx_rt_ctr := 32768\<rparr>))"

definition uart_rx_push :: "nat \<Rightarrow> u8 \<Rightarrow> uart_state \<Rightarrow> nvic_ctx \<Rightarrow> bool \<times> uart_state \<times> nvic_ctx" where
  "uart_rx_push uart_num data u nv =
     (if uart_num > 1 then (False, u, nv)
      else if u_rx_count u \<ge> 16 then (False, u, nv)
      else let u1 = uart_rx_enqueue data u in (True, u1, uart_check_irq uart_num u1 nv))"

definition uart_stdio_active :: "nat \<Rightarrow> uart_state \<Rightarrow> bool" where
  "uart_stdio_active uart_num u = (if uart_num > 1 then False else u_tx_activity u > 0)"

definition uart_rx_pop :: "uart_state \<Rightarrow> u8 \<times> uart_state" where
  "uart_rx_pop u =
     (if u_rx_count u = 0 then (0, u)
      else let u1 = u\<lparr>u_rx_tail := (u_rx_tail u + 1) mod 16, u_rx_count := u_rx_count u - 1\<rparr>
           in (u_rx_fifo u (u_rx_tail u),
               if u_rx_count u1 < rx_trigger_level u1
               then u1\<lparr>u_ris := u_ris u1 AND NOT (shl 1 4)\<rparr> else u1))"

definition uart_read32 :: "u32 \<Rightarrow> uart_state \<Rightarrow> u32 \<times> uart_state" where
  "uart_read32 offset u =
     (if offset = 0x000 then
        (if u_rx_count u > 0 then let (d, u1) = uart_rx_pop u in (ucast d, u1) else (0, u))
      else if offset = 0x004 then (u_rsr u, u)
      else if offset = 0x018 then
        (shl 1 7 OR cond_mask (u_rx_count u = 0) (shl 1 4) OR cond_mask (u_rx_count u \<ge> 16) (shl 1 6), u)
      else if offset = 0x024 then (u_ibrd u, u)
      else if offset = 0x028 then (u_fbrd u, u)
      else if offset = 0x02C then (u_lcr_h u, u)
      else if offset = 0x030 then (u_cr u, u)
      else if offset = 0x034 then (u_ifls u, u)
      else if offset = 0x038 then (u_imsc u, u)
      else if offset = 0x03C then (u_ris u, u)
      else if offset = 0x040 then (u_ris u AND u_imsc u, u)
      else if offset = 0x048 then (u_dmacr u, u)
      else if offset = 0xFE0 then (0x11, u)
      else if offset = 0xFE4 then (0x10, u)
      else if offset = 0xFE8 then (0x34, u)
      else if offset = 0xFEC then (0x00, u)
      else if offset = 0xFF0 then (0x0D, u)
      else if offset = 0xFF4 then (0xF0, u)
      else if offset = 0xFF8 then (0x05, u)
      else if offset = 0xFFC then (0xB1, u)
      else (0, u))"

definition uart_write32 :: "nat \<Rightarrow> u32 \<Rightarrow> u32 \<Rightarrow> uart_state \<Rightarrow> nvic_ctx \<Rightarrow> uart_state \<times> nvic_ctx" where
  "uart_write32 uart_num offset val u nv =
     (let (u1, nv1) =
        (if offset = 0x000 then
           (let u = u\<lparr>u_dr := val\<rparr> in
            if u_cr u AND shl 1 8 \<noteq> 0 then
              (let u = u\<lparr>u_tx_activity := u_tx_activity u + 1, u_ris := u_ris u OR shl 1 5,
                         u_tx_out := ucast (val AND 0xFF) # u_tx_out u\<rparr>
               in (u, uart_check_irq uart_num u nv))
            else (u, nv))
         else if offset = 0x004 then (u\<lparr>u_rsr := 0\<rparr>, nv)
         else if offset = 0x024 then (u\<lparr>u_ibrd := val AND 0xFFFF\<rparr>, nv)
         else if offset = 0x028 then (u\<lparr>u_fbrd := val AND 0x3F\<rparr>, nv)
         else if offset = 0x02C then (u\<lparr>u_lcr_h := val AND 0xFF\<rparr>, nv)
         else if offset = 0x030 then
           (let u = u\<lparr>u_cr := val AND 0xFFFF, u_enabled := (val AND 1 \<noteq> 0)\<rparr> in
            if u_enabled u then
              (let u = u\<lparr>u_ris := u_ris u OR shl 1 5\<rparr> in (u, uart_check_irq uart_num u nv))
            else (u, nv))
         else if offset = 0x034 then (u\<lparr>u_ifls := val AND 0x3F\<rparr>, nv)
         else if offset = 0x038 then
           (let u = u\<lparr>u_imsc := val AND 0x7FF\<rparr> in (u, uart_check_irq uart_num u nv))
         else if offset = 0x044 then
           (let u = u\<lparr>u_ris := u_ris u AND NOT (val AND 0x7FF)\<rparr> in (u, uart_check_irq uart_num u nv))
         else if offset = 0x048 then (u\<lparr>u_dmacr := val AND 7\<rparr>, nv)
         else (u, nv))
      in (u1, uart_check_irq uart_num u1 nv1))"

section \<open>The receive queue\<close>

definition uart_wf :: "uart_state \<Rightarrow> bool" where
  "uart_wf u \<longleftrightarrow> ring_ok 16 (u_rx_tail u) (u_rx_head u) (u_rx_count u)"

definition uart_received :: "uart_state \<Rightarrow> u8 list" where
  "uart_received u = ring_list (u_rx_fifo u) 16 (u_rx_tail u) (u_rx_count u)"

lemma uart_enqueue_ring:
  assumes "uart_wf u" "u_rx_count u < 16"
  shows "uart_wf (uart_rx_enqueue d u) \<and> uart_received (uart_rx_enqueue d u) = uart_received u @ [d] \<and>
    u_rx_count (uart_rx_enqueue d u) = u_rx_count u + 1"
  using assms ring_ok_push [of 16] ring_list_push [of 16]
  by (simp add: uart_rx_enqueue_def uart_rx_update_irq_def uart_wf_def uart_received_def)

lemma uart_pop_ring:
  assumes "uart_wf u" "0 < u_rx_count u"
  shows "uart_wf (snd (uart_rx_pop u)) \<and>
    uart_received u = fst (uart_rx_pop u) # uart_received (snd (uart_rx_pop u))"
  using assms ring_ok_pop [of 16] ring_list_pop [OF ring_ok_rd assms(2), of 16 "u_rx_tail u" "u_rx_head u"]
  by (simp add: uart_rx_pop_def uart_wf_def uart_received_def Let_def)

lemma uart_received_Nil: "uart_received u = [] \<longleftrightarrow> u_rx_count u = 0"
  by (metis length_0_conv length_ring_list uart_received_def)

lemma uart_received_length [simp]: "length (uart_received u) = u_rx_count u"
  by (simp add: uart_received_def)

interpretation urx: fifo_queue 16 uart_wf uart_received uart_rx_enqueue uart_rx_pop
proof unfold_locales
  fix u d
  assume u: "uart_wf u"
  then have le: "u_rx_count u \<le> 16" by (simp add: uart_wf_def ring_ok_count)
  have full: "\<not> u_rx_count u < 16 \<Longrightarrow> uart_rx_enqueue d u = u" by (simp add: uart_rx_enqueue_def)
  have none: "u_rx_count u = 0 \<Longrightarrow> uart_rx_pop u = (0, u)" by (simp add: uart_rx_pop_def)
  show "uart_wf (uart_rx_enqueue d u)" using u uart_enqueue_ring full by metis
  show "uart_wf (snd (uart_rx_pop u))" using u uart_pop_ring none by fastforce
  show "length (uart_received u) \<le> 16" using le by simp
  show "uart_received (uart_rx_enqueue d u) = take 16 (uart_received u @ [d])"
    using uart_enqueue_ring [OF u] full le by (cases "u_rx_count u < 16") auto
  show "uart_received (snd (uart_rx_pop u)) = tl (uart_received u)"
    using uart_pop_ring [OF u] none uart_received_Nil [of u] by (cases "u_rx_count u = 0") auto
  show "uart_received u \<noteq> [] \<Longrightarrow> fst (uart_rx_pop u) = hd (uart_received u)"
    using uart_pop_ring [OF u] uart_received_Nil [of u] by (cases "u_rx_count u = 0") auto
qed

section \<open>Receiving and interrupts\<close>

text \<open>The host feeds bytes to a port; the guest reads the data register a number of times.\<close>

definition uart_feed :: "nat \<Rightarrow> u8 list \<Rightarrow> uart_state \<Rightarrow> nvic_ctx \<Rightarrow> uart_state \<times> nvic_ctx" where
  "uart_feed n bs u nv = fold (\<lambda>b (u, nv). snd (uart_rx_push n b u nv)) bs (u, nv)"

fun uart_drain :: "nat \<Rightarrow> uart_state \<Rightarrow> u32 list \<times> uart_state" where
  "uart_drain 0 u = ([], u)"
| "uart_drain (Suc k) u =
     (let (v, u1) = uart_read32 0 u; (vs, u2) = uart_drain k u1 in (v # vs, u2))"

lemma uart_feed_enqueue: "n < 2 \<Longrightarrow> fst (uart_feed n bs u nv) = fold uart_rx_enqueue bs u"
proof (induction bs arbitrary: u nv)
  case (Cons b bs)
  then have "uart_feed n (b # bs) u nv =
      uart_feed n bs (uart_rx_enqueue b u) (snd (snd (uart_rx_push n b u nv)))"
    by (simp add: uart_feed_def uart_rx_push_def uart_rx_enqueue_def Let_def)
  with Cons show ?case by simp
qed (simp add: uart_feed_def)

lemma uart_drain_pop_n:
  "uart_wf u \<Longrightarrow> k \<le> length (uart_received u) \<Longrightarrow>
     uart_drain k u = (map ucast (fst (urx.pop_n k u)), snd (urx.pop_n k u))"
proof (induction k arbitrary: u)
  case (Suc k)
  have c: "0 < u_rx_count u" using Suc.prems(2) by simp
  have "uart_wf (snd (uart_rx_pop u))" "k \<le> length (uart_received (snd (uart_rx_pop u)))"
    using Suc.prems urx.wf_pop urx.contents_pop by auto
  from Suc.IH [OF this] show ?case
    using c by (simp add: uart_read32_def split_beta Let_def)
qed simp

text \<open>Bytes that the host delivers to a port reach the guest in order: reading the data
  register returns the bytes that were waiting followed by the new ones, up to the sixteen that
  fit; the flag register reports full exactly when sixteen wait, and empty after the last was
  read.\<close>

theorem uart_receives_in_order:
  assumes "n < 2" "uart_wf u"
  shows "let u1 = fst (uart_feed n bs u nv);
             waiting = take 16 (uart_received u @ bs);
             (vals, u2) = uart_drain (length waiting) u1
         in vals = map ucast waiting \<and>
            (bit (fst (uart_read32 0x18 u1)) 6 \<longleftrightarrow> length waiting = 16) \<and>
            bit (fst (uart_read32 0x18 u2)) 4"
proof -
  define u1 where "u1 = fst (uart_feed n bs u nv)"
  define w where "w = take 16 (uart_received u @ bs)"
  have u1: "uart_wf u1" "uart_received u1 = w"
    using urx.wf_push_all [OF assms(2)] urx.contents_push_all [OF assms(2)]
    by (simp_all add: u1_def w_def uart_feed_enqueue [OF assms(1)])
  have d: "uart_drain (length w) u1 = (map ucast w, snd (urx.pop_n (length w) u1))"
    "uart_received (snd (urx.pop_n (length w) u1)) = []"
    using uart_drain_pop_n [OF u1(1), of "length w"] urx.pop_n_contents [OF u1(1), of "length w"]
    by (simp_all add: u1(2))
  have "u_rx_count u1 = length w" using u1(2) by (metis uart_received_length)
  moreover have "length w \<le> 16" by (simp add: w_def)
  moreover have "u_rx_count (snd (urx.pop_n (length w) u1)) = 0"
    using d(2) uart_received_Nil by blast
  ultimately show ?thesis
    unfolding u1_def [symmetric] w_def [symmetric] Let_def d(1)
    by (simp add: uart_read32_def bit_simps cond_mask_def)
qed

theorem uart_receives_witness:
  "fst (uart_drain 2 (fst (uart_feed 0 [0x48, 0x69] uart_boot nvic_boot))) = [0x48, 0x69]"
proof -
  have two: "uart_drain 2 = uart_drain (Suc (Suc 0))" by (simp only: numeral_2_eq_2)
  have "uart_wf uart_boot" "uart_received uart_boot = []"
    by (simp_all add: uart_wf_def uart_boot_def uart_received_def)
  then show ?thesis
    using uart_receives_in_order [of 0 "uart_boot" "[0x48, 0x69]" nvic_boot]
    by (simp add: Let_def split_beta two del: uart_drain.simps)
qed

lemma uart_irq_lt: "uart_irq n < 32"
  by (simp add: uart_irq_def)

lemma signal_keeps_numbering [simp]:
  "nvic_rp2350_irq (nvic_signal_rp2350_irq irq c) i = nvic_rp2350_irq c i"
  by (simp add: nvic_rp2350_irq_def nvic_signal_rp2350_irq_def nvic_signal_irq_def)

lemma uart_check_numbering [simp]: "nvic_rp2350_irq (uart_check_irq n u c) i = nvic_rp2350_irq c i"
  by (simp add: uart_check_irq_def)

lemma uart_check_raises:
  "core < 2 \<Longrightarrow> u_ris u AND u_imsc u \<noteq> 0 \<Longrightarrow>
     irq_pending (uart_check_irq n u nv) core (unat (nvic_rp2350_irq nv (uart_irq n)))"
  by (simp add: uart_check_irq_def signal_rp2350_pends uart_irq_lt)

text \<open>Whatever register is written, if an enabled interrupt condition holds afterwards, the
  interrupt line of the port is pending on both cores.\<close>

theorem uart_write_raises_line:
  assumes "core < 2" "uart_write32 n offset val u nv = (u', nv')" "u_ris u' AND u_imsc u' \<noteq> 0"
  shows "irq_pending nv' core (unat (nvic_rp2350_irq nv (uart_irq n)))"
proof -
  obtain nv1 where nv1: "nv' = uart_check_irq n u' nv1"
    "nvic_rp2350_irq nv1 (uart_irq n) = nvic_rp2350_irq nv (uart_irq n)"
    using assms(2) by (auto simp: uart_write32_def Let_def split: if_splits)
  show ?thesis
    using uart_check_raises [OF assms(1,3), of n nv1] by (simp only: nv1)
qed

theorem uart_write_raises_witness:
  "irq_pending (snd (uart_write32 1 0 0x41 (uart_boot\<lparr>u_cr := 0x101, u_imsc := 0x20\<rparr>) nvic_boot)) 0 21"
  using uart_write_raises_line [of 0 1 0 "0x41" "uart_boot\<lparr>u_cr := 0x101, u_imsc := 0x20\<rparr>" nvic_boot]
  by (simp add: uart_write32_def Let_def uart_boot_def nvic_rp2350_irq_def uart_irq_def nvic_boot_def)

end
