(* ===== verification/Spi.thy ===== *)
theory Spi
  imports Nvic
begin

unbundle bit_operations_syntax

text \<open>
  The two PL022 SPI controllers of \<^verbatim>\<open>src/spi.c\<close>. The attached device is part of the state, as in
  the code: its byte exchange and chip-select callbacks, each possibly absent, and its context of
  type \<open>'d\<close>, which only these callbacks change.
\<close>

section \<open>State and operations\<close>

record 'd spi_state =
  sp_cr0 :: u32
  sp_cr1 :: u32
  sp_cpsr :: u32
  sp_imsc :: u32
  sp_ris :: u32
  sp_dmacr :: u32
  sp_tx_fifo :: "nat \<Rightarrow> u16"
  sp_tx_head :: nat
  sp_tx_tail :: nat
  sp_tx_count :: nat
  sp_rx_fifo :: "nat \<Rightarrow> u16"
  sp_rx_head :: nat
  sp_rx_tail :: nat
  sp_rx_count :: nat
  sp_xfer :: "('d \<Rightarrow> u8 \<Rightarrow> u8 \<times> 'd) option"
  sp_cs :: "('d \<Rightarrow> bool \<Rightarrow> 'd) option"
  sp_ctx :: 'd

text \<open>\<^verbatim>\<open>memset\<close> also detaches the device; its context then no longer matters.\<close>

definition spi_reset_instance :: "'d spi_state \<Rightarrow> 'd spi_state" where
  "spi_reset_instance s = \<lparr>sp_cr0 = 0, sp_cr1 = 0, sp_cpsr = 0, sp_imsc = 0, sp_ris = 0, sp_dmacr = 0,
     sp_tx_fifo = (\<lambda>_. 0), sp_tx_head = 0, sp_tx_tail = 0, sp_tx_count = 0,
     sp_rx_fifo = (\<lambda>_. 0), sp_rx_head = 0, sp_rx_tail = 0, sp_rx_count = 0,
     sp_xfer = None, sp_cs = None, sp_ctx = sp_ctx s\<rparr>"

definition spi_init :: "(nat \<Rightarrow> 'd spi_state) \<Rightarrow> nat \<Rightarrow> 'd spi_state" where
  "spi_init ss = ss(0 := spi_reset_instance (ss 0), 1 := spi_reset_instance (ss 1))"

definition spi_match :: "bool \<Rightarrow> u32 \<Rightarrow> nat option" where
  "spi_match rp2350 addr =
     (let b = addr AND NOT 0x3000 in
      if rp2350 \<and> in_block b 0x40080000 0x1000 then Some 0
      else if rp2350 \<and> in_block b 0x40088000 0x1000 then Some 1
      else if in_block b 0x4003C000 0x1000 then Some 0
      else if in_block b 0x40040000 0x1000 then Some 1
      else None)"

definition tx_push :: "u16 \<Rightarrow> 'd spi_state \<Rightarrow> 'd spi_state" where
  "tx_push val s =
     (if sp_tx_count s \<ge> 8 then s
      else s\<lparr>sp_tx_fifo := (sp_tx_fifo s)(sp_tx_head s := val),
             sp_tx_head := (sp_tx_head s + 1) mod 8, sp_tx_count := sp_tx_count s + 1\<rparr>)"

definition tx_pop :: "'d spi_state \<Rightarrow> u16 \<times> 'd spi_state" where
  "tx_pop s =
     (if sp_tx_count s = 0 then (0, s)
      else (sp_tx_fifo s (sp_tx_tail s),
            s\<lparr>sp_tx_tail := (sp_tx_tail s + 1) mod 8, sp_tx_count := sp_tx_count s - 1\<rparr>))"

definition rx_push :: "u16 \<Rightarrow> 'd spi_state \<Rightarrow> 'd spi_state" where
  "rx_push val s =
     (if sp_rx_count s \<ge> 8 then s\<lparr>sp_ris := sp_ris s OR 1\<rparr>
      else s\<lparr>sp_rx_fifo := (sp_rx_fifo s)(sp_rx_head s := val),
             sp_rx_head := (sp_rx_head s + 1) mod 8, sp_rx_count := sp_rx_count s + 1\<rparr>)"

definition rx_pop :: "'d spi_state \<Rightarrow> u16 \<times> 'd spi_state" where
  "rx_pop s =
     (if sp_rx_count s = 0 then (0, s)
      else (sp_rx_fifo s (sp_rx_tail s),
            s\<lparr>sp_rx_tail := (sp_rx_tail s + 1) mod 8, sp_rx_count := sp_rx_count s - 1\<rparr>))"

definition spi_wide :: "'d spi_state \<Rightarrow> bool" where
  "spi_wide s \<longleftrightarrow> sp_cr0 s AND 0xF \<ge> 8"

text \<open>The exchange of one frame with the device.\<close>

definition spi_exchange :: "bool \<Rightarrow> u16 \<Rightarrow> 'd spi_state \<Rightarrow> 'd spi_state" where
  "spi_exchange wide mosi s =
     (case sp_xfer s of
        Some xfer \<Rightarrow>
          if wide then
            (let (m1, ctx1) = xfer (sp_ctx s) (ucast (shr mosi 8));
                 (m0, ctx2) = xfer ctx1 (ucast (mosi AND 0xFF))
             in rx_push (shl (ucast m1) 8 OR (ucast m0 AND 0xFF)) (s\<lparr>sp_ctx := ctx2\<rparr>))
          else
            (let (miso, ctx1) = xfer (sp_ctx s) (ucast mosi)
             in rx_push (ucast miso) (s\<lparr>sp_ctx := ctx1\<rparr>))
      | None \<Rightarrow> rx_push 0 s)"

function spi_transfer_loop :: "bool \<Rightarrow> 'd spi_state \<Rightarrow> 'd spi_state" where
  "spi_transfer_loop wide s =
     (if sp_tx_count s > 0 then
        (let (mosi, s1) = tx_pop s in spi_transfer_loop wide (spi_exchange wide mosi s1))
      else s)"
  by pat_completeness auto

lemma rx_push_tx_count [simp]: "sp_tx_count (rx_push v s) = sp_tx_count s"
  by (simp add: rx_push_def)

lemma spi_exchange_tx_count [simp]: "sp_tx_count (spi_exchange w v s) = sp_tx_count s"
  by (simp add: spi_exchange_def split_beta Let_def split: option.split)

termination spi_transfer_loop
  by (relation "measure (\<lambda>(_, s). sp_tx_count s)") (auto simp: tx_pop_def)

declare spi_transfer_loop.simps [simp del]

definition spi_execute_transfers :: "'d spi_state \<Rightarrow> 'd spi_state" where
  "spi_execute_transfers s = spi_transfer_loop (spi_wide s) s"

definition spi_device_cs :: "nat \<Rightarrow> bool \<Rightarrow> 'd spi_state \<Rightarrow> 'd spi_state" where
  "spi_device_cs spi_num cs_active s =
     (if spi_num > 1 then s
      else case sp_cs s of Some cs \<Rightarrow> s\<lparr>sp_ctx := cs (sp_ctx s) cs_active\<rparr> | None \<Rightarrow> s)"

definition spi_irq :: "nat \<Rightarrow> u32" where
  "spi_irq spi_num = (if spi_num = 0 then 18 else 19)"

definition spi_update_irq :: "nat \<Rightarrow> 'd spi_state \<Rightarrow> nvic_ctx \<Rightarrow> 'd spi_state \<times> nvic_ctx" where
  "spi_update_irq spi_num s nv =
     (let s1 = (if sp_tx_count s \<le> 4 then s\<lparr>sp_ris := sp_ris s OR 8\<rparr>
                else s\<lparr>sp_ris := sp_ris s AND NOT 8\<rparr>);
          s2 = (if sp_rx_count s1 \<ge> 4 then s1\<lparr>sp_ris := sp_ris s1 OR 4\<rparr>
                else s1\<lparr>sp_ris := sp_ris s1 AND NOT 4\<rparr>)
      in (s2, if sp_ris s2 AND sp_imsc s2 \<noteq> 0 then nvic_signal_rp2350_irq (spi_irq spi_num) nv else nv))"

definition spi_read32 :: "nat \<Rightarrow> u32 \<Rightarrow> 'd spi_state \<Rightarrow> nvic_ctx \<Rightarrow> u32 \<times> 'd spi_state \<times> nvic_ctx" where
  "spi_read32 spi_num offset s nv =
     (if offset = 0x000 then (sp_cr0 s, s, nv)
      else if offset = 0x004 then (sp_cr1 s, s, nv)
      else if offset = 0x008 then
        (let (val, s1) = rx_pop s; (s2, nv2) = spi_update_irq spi_num s1 nv in (ucast val, s2, nv2))
      else if offset = 0x00C then
        (cond_mask (sp_tx_count s = 0) 1 OR cond_mask (sp_tx_count s < 8) 2 OR
         cond_mask (sp_rx_count s > 0) 4 OR cond_mask (sp_rx_count s \<ge> 8) 8 OR
         cond_mask (sp_tx_count s > 0) 16, s, nv)
      else if offset = 0x010 then (sp_cpsr s, s, nv)
      else if offset = 0x014 then (sp_imsc s, s, nv)
      else if offset = 0x018 then (sp_ris s, s, nv)
      else if offset = 0x01C then (sp_ris s AND sp_imsc s, s, nv)
      else if offset = 0x024 then (sp_dmacr s, s, nv)
      else if offset = 0xFE0 then (0x22, s, nv)
      else if offset = 0xFE4 then (0x10, s, nv)
      else if offset = 0xFE8 then (0x04, s, nv)
      else (0, s, nv))"

definition spi_write32 :: "nat \<Rightarrow> u32 \<Rightarrow> u32 \<Rightarrow> 'd spi_state \<Rightarrow> nvic_ctx \<Rightarrow> 'd spi_state \<times> nvic_ctx" where
  "spi_write32 spi_num offset val s nv =
     spi_update_irq spi_num
       (if offset = 0x000 then s\<lparr>sp_cr0 := val AND 0xFFFF\<rparr>
        else if offset = 0x004 then s\<lparr>sp_cr1 := val AND 0x0F\<rparr>
        else if offset = 0x008 then
          (if sp_cr1 s AND 2 \<noteq> 0
           then spi_execute_transfers
                  (tx_push (if spi_wide s then ucast (val AND 0xFFFF) else ucast (val AND 0xFF)) s)
           else s)
        else if offset = 0x010 then s\<lparr>sp_cpsr := val AND 0xFF\<rparr>
        else if offset = 0x014 then s\<lparr>sp_imsc := val AND 0x0F\<rparr>
        else if offset = 0x020 then s\<lparr>sp_ris := sp_ris s AND NOT (val AND 3)\<rparr>
        else if offset = 0x024 then s\<lparr>sp_dmacr := val AND 3\<rparr>
        else s) nv"

definition spi_attach_device :: "nat \<Rightarrow> ('d \<Rightarrow> u8 \<Rightarrow> u8 \<times> 'd) option \<Rightarrow> ('d \<Rightarrow> bool \<Rightarrow> 'd) option \<Rightarrow> 'd \<Rightarrow>
    'd spi_state \<Rightarrow> 'd spi_state" where
  "spi_attach_device spi_num xfer cs ctx s =
     (if spi_num > 1 then s else s\<lparr>sp_xfer := xfer, sp_cs := cs, sp_ctx := ctx\<rparr>)"

section \<open>The queues\<close>

definition spi_tx_wf :: "'d spi_state \<Rightarrow> bool" where
  "spi_tx_wf s \<longleftrightarrow> ring_ok 8 (sp_tx_tail s) (sp_tx_head s) (sp_tx_count s)"

definition spi_tx_list :: "'d spi_state \<Rightarrow> u16 list" where
  "spi_tx_list s = ring_list (sp_tx_fifo s) 8 (sp_tx_tail s) (sp_tx_count s)"

definition spi_rx_wf :: "'d spi_state \<Rightarrow> bool" where
  "spi_rx_wf s \<longleftrightarrow> ring_ok 8 (sp_rx_tail s) (sp_rx_head s) (sp_rx_count s)"

definition spi_rx_list :: "'d spi_state \<Rightarrow> u16 list" where
  "spi_rx_list s = ring_list (sp_rx_fifo s) 8 (sp_rx_tail s) (sp_rx_count s)"

text \<open>Both queues are instances of the same bounded queue.\<close>

interpretation stx: fifo_queue 8 spi_tx_wf spi_tx_list tx_push tx_pop
proof unfold_locales
  fix s :: "'d spi_state" and v
  assume s: "spi_tx_wf s"
  note r = s [unfolded spi_tx_wf_def]
  show "spi_tx_wf (tx_push v s)" "spi_tx_list (tx_push v s) = take 8 (spi_tx_list s @ [v])"
    using ring_ok_push [OF r] ring_list_push [OF r] ring_ok_count [OF r] r
    by (auto simp: tx_push_def spi_tx_wf_def spi_tx_list_def)
  show "spi_tx_wf (snd (tx_pop s))" "spi_tx_list (snd (tx_pop s)) = tl (spi_tx_list s)"
    "spi_tx_list s \<noteq> [] \<Longrightarrow> fst (tx_pop s) = hd (spi_tx_list s)"
    using ring_ok_pop [OF r] ring_list_pop [OF ring_ok_rd [OF r], of "sp_tx_count s" "sp_tx_fifo s"] r
    by (auto simp: tx_pop_def spi_tx_wf_def spi_tx_list_def)
  show "length (spi_tx_list s) \<le> 8"
    using ring_ok_count [OF r] by (simp add: spi_tx_list_def)
qed

interpretation srx: fifo_queue 8 spi_rx_wf spi_rx_list rx_push rx_pop
proof unfold_locales
  fix s :: "'d spi_state" and v
  assume s: "spi_rx_wf s"
  note r = s [unfolded spi_rx_wf_def]
  show "spi_rx_wf (rx_push v s)" "spi_rx_list (rx_push v s) = take 8 (spi_rx_list s @ [v])"
    using ring_ok_push [OF r] ring_list_push [OF r] ring_ok_count [OF r] r
    by (auto simp: rx_push_def spi_rx_wf_def spi_rx_list_def)
  show "spi_rx_wf (snd (rx_pop s))" "spi_rx_list (snd (rx_pop s)) = tl (spi_rx_list s)"
    "spi_rx_list s \<noteq> [] \<Longrightarrow> fst (rx_pop s) = hd (spi_rx_list s)"
    using ring_ok_pop [OF r] ring_list_pop [OF ring_ok_rd [OF r], of "sp_rx_count s" "sp_rx_fifo s"] r
    by (auto simp: rx_pop_def spi_rx_wf_def spi_rx_list_def)
  show "length (spi_rx_list s) \<le> 8"
    using ring_ok_count [OF r] by (simp add: spi_rx_list_def)
qed

section \<open>Transfers\<close>

text \<open>What the device sees and answers: the bytes of a frame, most significant first, exchanged one
  after the other.\<close>

fun dev_run :: "('d \<Rightarrow> u8 \<Rightarrow> u8 \<times> 'd) \<Rightarrow> 'd \<Rightarrow> u8 list \<Rightarrow> u8 list \<times> 'd" where
  "dev_run f ctx [] = ([], ctx)"
| "dev_run f ctx (b # bs) = (let (r, ctx1) = f ctx b; (rs, ctx2) = dev_run f ctx1 bs in (r # rs, ctx2))"

definition frame_bytes :: "bool \<Rightarrow> u32 \<Rightarrow> u8 list" where
  "frame_bytes wide v = (if wide then [ucast (shr v 8), ucast v] else [ucast v])"

definition frame_reply :: "u8 list \<Rightarrow> u16" where
  "frame_reply rs = fold (\<lambda>r acc. shl acc 8 OR ucast r) rs 0"

text \<open>Sending frames: the device context and the replies.\<close>

fun frames_run :: "bool \<Rightarrow> ('d \<Rightarrow> u8 \<Rightarrow> u8 \<times> 'd) \<Rightarrow> 'd \<Rightarrow> u32 list \<Rightarrow> u16 list \<times> 'd" where
  "frames_run wide f ctx [] = ([], ctx)"
| "frames_run wide f ctx (v # vs) =
     (let (rs, ctx1) = dev_run f ctx (frame_bytes wide v); (fs, ctx2) = frames_run wide f ctx1 vs
      in (frame_reply rs # fs, ctx2))"

definition spi_send :: "nat \<Rightarrow> u32 list \<Rightarrow> 'd spi_state \<Rightarrow> nvic_ctx \<Rightarrow> 'd spi_state \<times> nvic_ctx" where
  "spi_send n vs s nv = fold (\<lambda>v (s, nv). spi_write32 n 8 v s nv) vs (s, nv)"

text \<open>A controller that is enabled, idle and has a device.\<close>

definition spi_ready :: "('d \<Rightarrow> u8 \<Rightarrow> u8 \<times> 'd) \<Rightarrow> 'd spi_state \<Rightarrow> bool" where
  "spi_ready f s \<longleftrightarrow> sp_cr1 s AND 2 \<noteq> 0 \<and> spi_tx_wf s \<and> sp_tx_count s = 0 \<and> spi_rx_wf s \<and> sp_xfer s = Some f"

lemma frame_byte_casts:
  fixes v :: u32
  shows "ucast (drop_bit 8 (ucast (v AND 0xFFFF) :: u16)) = (ucast (drop_bit 8 v) :: u8)"
    "ucast ((ucast (v AND 0xFFFF) :: u16) AND 0xFF) = (ucast v :: u8)"
    "ucast (ucast (v AND 0xFF) :: u16) = (ucast v :: u8)"
  unfolding numeral_masks by (auto intro!: bit_word_eqI simp: bit_simps)

lemma reply_casts:
  fixes a b :: u8
  shows "push_bit 8 (ucast a) OR (ucast b AND 0xFF) = (push_bit 8 (ucast a) OR ucast b :: u16)"
proof -
  have "bit b n \<Longrightarrow> n < 8" for n using bit_imp_le_length [of b n] by simp
  then show ?thesis unfolding numeral_masks by (auto intro!: bit_word_eqI simp: bit_simps)
qed

lemma rx_push_fields:
  "sp_cr0 (rx_push v s) = sp_cr0 s" "sp_cr1 (rx_push v s) = sp_cr1 s" "sp_xfer (rx_push v s) = sp_xfer s"
  "sp_ctx (rx_push v s) = sp_ctx s" "spi_tx_wf (rx_push v s) = spi_tx_wf s"
  by (simp_all add: rx_push_def spi_tx_wf_def)

lemma spi_write_dr:
  assumes r: "spi_ready f s"
  shows "\<exists>s1 q. fst (spi_write32 n 8 v s nv) = s1\<lparr>sp_ris := q\<rparr> \<and> spi_ready f s1 \<and> sp_cr0 s1 = sp_cr0 s \<and>
    sp_ctx s1 = snd (dev_run f (sp_ctx s) (frame_bytes (spi_wide s) v)) \<and>
    spi_rx_list s1 = take 8 (spi_rx_list s @ [frame_reply (fst (dev_run f (sp_ctx s) (frame_bytes (spi_wide s) v)))])"
proof -
  let ?mosi = "if spi_wide s then ucast (v AND 0xFFFF) else ucast (v AND 0xFF)"
  define s1 where "s1 = s\<lparr>sp_tx_fifo := (sp_tx_fifo s)(sp_tx_head s := ?mosi),
      sp_tx_head := (sp_tx_head s + 1) mod 8, sp_tx_tail := (sp_tx_tail s + 1) mod 8, sp_tx_count := 0\<rparr>"
  have ht: "sp_tx_head s = sp_tx_tail s" "sp_tx_tail s < 8"
    using r by (auto simp: spi_ready_def spi_tx_wf_def ring_ok_def)
  have pop: "tx_pop (tx_push ?mosi s) = (?mosi, s1)"
    using r ht by (simp add: s1_def tx_push_def tx_pop_def spi_ready_def)
  have run: "spi_execute_transfers (tx_push ?mosi s) = spi_exchange (spi_wide s) ?mosi s1"
  proof -
    have "sp_tx_count (spi_exchange (spi_wide s) ?mosi s1) = 0" by (simp add: s1_def)
    then have fin: "spi_transfer_loop w (spi_exchange (spi_wide s) ?mosi s1) =
        spi_exchange (spi_wide s) ?mosi s1" for w
      by (subst spi_transfer_loop.simps) simp
    have "0 < sp_tx_count (tx_push ?mosi s)" "spi_wide (tx_push ?mosi s) = spi_wide s"
      using r by (auto simp: tx_push_def spi_ready_def spi_wide_def)
    then show ?thesis
      unfolding spi_execute_transfers_def by (subst spi_transfer_loop.simps) (simp only: pop fin if_True Let_def split)
  qed
  obtain ctx w where ex: "spi_exchange (spi_wide s) ?mosi s1 = rx_push w (s1\<lparr>sp_ctx := ctx\<rparr>)"
    and ctx: "ctx = snd (dev_run f (sp_ctx s) (frame_bytes (spi_wide s) v))"
    and w: "w = frame_reply (fst (dev_run f (sp_ctx s) (frame_bytes (spi_wide s) v)))"
    using r by (cases "spi_wide s")
      (auto simp: spi_exchange_def spi_ready_def s1_def split_beta Let_def frame_bytes_def frame_reply_def
        frame_byte_casts reply_casts)
  define s2 where "s2 = s1\<lparr>sp_ctx := ctx\<rparr>"
  have s2: "spi_rx_wf s2" "spi_rx_list s2 = spi_rx_list s" "spi_ready f s2" "sp_ctx s2 = ctx" "sp_cr0 s2 = sp_cr0 s"
    using r ht by (auto simp: s2_def s1_def spi_rx_wf_def spi_rx_list_def spi_ready_def spi_tx_wf_def ring_ok_def)
  have push: "spi_ready f (rx_push w s2)" "sp_ctx (rx_push w s2) = ctx" "sp_cr0 (rx_push w s2) = sp_cr0 s"
    "spi_rx_list (rx_push w s2) = take 8 (spi_rx_list s @ [w])"
    using s2 srx.wf_push [OF s2(1), of w] srx.contents_push [OF s2(1), of w]
    by (simp_all add: spi_ready_def rx_push_fields)
  have "spi_write32 n 8 v s nv = spi_update_irq n (rx_push w s2) nv"
    using r run ex by (simp add: spi_write32_def spi_ready_def s2_def)
  moreover have "\<exists>q. fst (spi_update_irq n x nv) = x\<lparr>sp_ris := q\<rparr>" for x :: "'a spi_state"
    by (simp add: spi_update_irq_def Let_def) blast
  ultimately show ?thesis
    using push ctx w by metis
qed

lemma take_snoc_append: "take n (take n (xs @ [y]) @ ys) = take n (xs @ y # ys)"
  by (cases "length xs < n") (auto simp: take_Cons')

lemma spi_ris_irrelevant [simp]:
  "spi_ready f (s\<lparr>sp_ris := q\<rparr>) = spi_ready f s" "spi_rx_list (s\<lparr>sp_ris := q\<rparr>) = spi_rx_list s"
  "spi_wide (s\<lparr>sp_ris := q\<rparr>) = spi_wide s"
  by (simp_all add: spi_ready_def spi_tx_wf_def spi_rx_wf_def spi_rx_list_def spi_wide_def)

text \<open>Every frame that is written to the data register of an enabled controller with a device is
  exchanged with it at once and in order: the device sees the bytes of the frames one after the
  other, a frame of more than eight bits as two bytes with the high byte first, and its replies
  appear in the receive queue in the same order, of which the eight that fit are kept.\<close>

theorem spi_exchanges_in_order:
  assumes "spi_ready f s"
  shows "let s1 = fst (spi_send n vs s nv); (replies, ctx) = frames_run (spi_wide s) f (sp_ctx s) vs
    in sp_ctx s1 = ctx \<and> spi_rx_list s1 = take 8 (spi_rx_list s @ replies) \<and> sp_tx_count s1 = 0"
  using assms
proof (induction vs arbitrary: s nv)
  case Nil
  then show ?case
    using srx.bounded [of s] by (simp add: spi_send_def spi_ready_def)
next
  case (Cons v vs)
  obtain s1 q where w: "fst (spi_write32 n 8 v s nv) = s1\<lparr>sp_ris := q\<rparr>" "spi_ready f s1"
      "sp_cr0 s1 = sp_cr0 s" "sp_ctx s1 = snd (dev_run f (sp_ctx s) (frame_bytes (spi_wide s) v))"
      "spi_rx_list s1 = take 8 (spi_rx_list s @ [frame_reply (fst (dev_run f (sp_ctx s) (frame_bytes (spi_wide s) v)))])"
    using spi_write_dr [OF Cons.prems] by blast
  have send: "spi_send n (v # vs) s nv = spi_send n vs (s1\<lparr>sp_ris := q\<rparr>) (snd (spi_write32 n 8 v s nv))"
    using w(1) by (cases "spi_write32 n 8 v s nv") (simp add: spi_send_def)
  have wide: "spi_wide s1 = spi_wide s" by (simp add: spi_wide_def w(3))
  show ?case
    using Cons.IH [of "s1\<lparr>sp_ris := q\<rparr>" "snd (spi_write32 n 8 v s nv)"] w(2)
    by (simp only: send wide w(4,5) Let_def split_beta frames_run.simps spi_ris_irrelevant
        spi_state.simps take_snoc_append fst_conv snd_conv) (simp add: w(4))
qed

text \<open>A device that answers every byte with its complement and remembers the last one.\<close>

definition echo_device :: "u8 \<Rightarrow> u8 \<Rightarrow> u8 \<times> u8" where
  "echo_device ctx mosi = (NOT mosi, mosi)"

definition spi_demo :: "u8 spi_state" where
  "spi_demo = \<lparr>sp_cr0 = 7, sp_cr1 = 2, sp_cpsr = 0, sp_imsc = 0, sp_ris = 0, sp_dmacr = 0,
     sp_tx_fifo = (\<lambda>_. 0), sp_tx_head = 0, sp_tx_tail = 0, sp_tx_count = 0,
     sp_rx_fifo = (\<lambda>_. 0), sp_rx_head = 0, sp_rx_tail = 0, sp_rx_count = 0,
     sp_xfer = Some echo_device, sp_cs = None, sp_ctx = 0\<rparr>"

theorem spi_exchanges_witness:
  "spi_rx_list (fst (spi_send 0 [0x01, 0xF0] spi_demo nvic_boot)) = [0xFE, 0x0F]"
proof -
  have "spi_ready echo_device spi_demo" "\<not> spi_wide spi_demo" "spi_rx_list spi_demo = []"
    by (simp_all add: spi_ready_def spi_demo_def spi_tx_wf_def spi_rx_wf_def spi_wide_def spi_rx_list_def)
  then show ?thesis
    using spi_exchanges_in_order [of echo_device spi_demo 0 "[0x01, 0xF0]" nvic_boot]
    by (simp add: Let_def split_beta frame_bytes_def echo_device_def frame_reply_def)
qed

end
