(* ===== verification/Gpio.thy ===== *)
theory Gpio
  imports Nvic
begin

unbundle bit_operations_syntax

text \<open>
  The GPIO block of \<^verbatim>\<open>src/gpio.c\<close>: pin levels, edge and level events, the interrupt registers of
  IO_BANK0 and the pads, with their atomic aliases. An operation takes the GPIO state and the
  interrupt system. The board hooks that watch chip-select pins are called by the memory bus; the
  waveform trace is left out. A shift of a pin word by 32 or more, which \<^verbatim>\<open>gpio_detect_events\<close> does
  for pins 32 to 47 and which is undefined in C, gives 0 here.
\<close>

section \<open>State\<close>

record gpio_state =
  gpio_in :: u32
  gpio_out :: u32
  gpio_oe :: u32
  gpio_in_hi :: u32
  gpio_out_hi :: u32
  gpio_oe_hi :: u32
  gp_status :: "nat \<Rightarrow> u32"
  gp_ctrl :: "nat \<Rightarrow> u32"
  gp_intr :: "nat \<Rightarrow> u32"
  gp_inte :: "nat \<Rightarrow> nat \<Rightarrow> u32"
  gp_intf :: "nat \<Rightarrow> nat \<Rightarrow> u32"
  gp_ints :: "nat \<Rightarrow> nat \<Rightarrow> u32"
  gp_pads :: "nat \<Rightarrow> u32"
  gp_voltage_select :: u32
  gpio_driven_mask :: u32

text \<open>\<open>gp_inte p\<close>, \<open>gp_intf p\<close> and \<open>gp_ints p\<close> are the arrays \<^verbatim>\<open>proc0_...\<close> and \<^verbatim>\<open>proc1_...\<close>.\<close>

definition gpio_reset :: "gpio_state" where
  "gpio_reset = \<lparr>gpio_in = 0xFFFFFFFF, gpio_out = 0, gpio_oe = 0, gpio_in_hi = 0, gpio_out_hi = 0,
     gpio_oe_hi = 0, gp_status = (\<lambda>_. 0), gp_ctrl = (\<lambda>i. if i < 48 then 5 else 0), gp_intr = (\<lambda>_. 0),
     gp_inte = (\<lambda>_ _. 0), gp_intf = (\<lambda>_ _. 0), gp_ints = (\<lambda>_ _. 0),
     gp_pads = (\<lambda>i. if i < 48 then 0x56 else 0), gp_voltage_select = 1, gpio_driven_mask = 0\<rparr>"

definition gpio_mark_driven :: "u8 \<Rightarrow> gpio_state \<Rightarrow> gpio_state" where
  "gpio_mark_driven pin g =
     (if pin < 48 then g\<lparr>gpio_driven_mask := gpio_driven_mask g OR shl 1 (unat pin)\<rparr> else g)"

definition gpio_unmark_driven :: "u8 \<Rightarrow> gpio_state \<Rightarrow> gpio_state" where
  "gpio_unmark_driven pin g =
     (if pin < 48 then g\<lparr>gpio_driven_mask := gpio_driven_mask g AND NOT (shl 1 (unat pin))\<rparr> else g)"

definition gpio_sync_in_to_out :: "u32 \<Rightarrow> gpio_state \<Rightarrow> gpio_state" where
  "gpio_sync_in_to_out msk g =
     (let m = msk AND NOT (gpio_driven_mask g) in
      if gpio_out g AND m \<noteq> 0 then g\<lparr>gpio_in := gpio_in g OR m\<rparr>
      else g\<lparr>gpio_in := gpio_in g AND NOT m\<rparr>)"

definition gpio_effective_pins :: "gpio_state \<Rightarrow> u32" where
  "gpio_effective_pins g =
     (gpio_out g AND gpio_oe g AND NOT (gpio_driven_mask g)) OR
     (gpio_in g AND NOT (gpio_oe g AND NOT (gpio_driven_mask g)))"

definition effective_hi :: "gpio_state \<Rightarrow> u32" where
  "effective_hi g = (gpio_out_hi g AND gpio_oe_hi g) OR (gpio_in_hi g AND NOT (gpio_oe_hi g))"

section \<open>Interrupts\<close>

definition gpio_update_ints :: "gpio_state \<Rightarrow> gpio_state" where
  "gpio_update_ints g =
     g\<lparr>gp_ints := (\<lambda>p i. if p < 2 \<and> i < 6 then (gp_intr g i OR gp_intf g p i) AND gp_inte g p i
                         else gp_ints g p i)\<rparr>"

definition gpio_check_irq :: "gpio_state \<times> nvic_ctx \<Rightarrow> gpio_state \<times> nvic_ctx" where
  "gpio_check_irq s =
     (let (g, nv) = s; g1 = gpio_update_ints g;
          any_active = fold (\<lambda>i a. a OR (gp_ints g1 0 i OR gp_ints g1 1 i)) [0..<6] 0
      in (g1, if any_active \<noteq> 0 then nvic_signal_rp2350_irq 13 nv else nv))"

text \<open>The level bits of one register: eight pins, four bits each.\<close>

definition level_bits :: "nat \<Rightarrow> u32 \<Rightarrow> u32" where
  "level_bits rg new_pins =
     fold (\<lambda>b w. w OR shl (if bit new_pins (rg * 8 + b) then 2 else 1) (4 * b)) [0..<8] 0"

definition edge_mask :: u32 where
  "edge_mask = fold (\<lambda>b w. w OR shl 0xC (4 * b)) [0..<8] 0"

definition gpio_latch_edge :: "u32 \<Rightarrow> nat \<Rightarrow> gpio_state \<Rightarrow> gpio_state" where
  "gpio_latch_edge new_pins pin g =
     (let rg = pin div 8; sh = (pin mod 8) * 4 in
      g\<lparr>gp_intr := (gp_intr g)(rg := gp_intr g rg OR shl (if bit new_pins pin then 8 else 4) sh)\<rparr>)"

definition gpio_events :: "u32 \<Rightarrow> u32 \<Rightarrow> gpio_state \<Rightarrow> gpio_state" where
  "gpio_events old_pins new_pins g =
     (let g1 = g\<lparr>gp_intr := (\<lambda>rg. if rg < 6 then (gp_intr g rg AND edge_mask) OR level_bits rg new_pins
                                  else gp_intr g rg)\<rparr>
      in fold (gpio_latch_edge new_pins) (filter (bit (old_pins XOR new_pins)) [0..<32]) g1)"

definition gpio_detect_events :: "u32 \<Rightarrow> u32 \<Rightarrow> gpio_state \<times> nvic_ctx \<Rightarrow> gpio_state \<times> nvic_ctx" where
  "gpio_detect_events old_pins new_pins s =
     (let (g, nv) = s in gpio_check_irq (gpio_events old_pins new_pins g, nv))"

text \<open>Edges of the pins 32 and above; a bus write also sets the level bits of the pin that
  changed.\<close>

definition hi_edge :: "bool \<Rightarrow> u32 \<Rightarrow> nat \<Rightarrow> gpio_state \<Rightarrow> gpio_state" where
  "hi_edge levels new_hi b g =
     (let pin = 32 + b; rg = pin div 8; sh = (pin mod 8) * 4;
          w1 = gp_intr g rg OR shl (if bit new_hi b then 8 else 4) sh;
          w2 = (if levels then (w1 AND NOT (shl 3 sh)) OR shl (if bit new_hi b then 2 else 1) sh else w1)
      in g\<lparr>gp_intr := (gp_intr g)(rg := w2)\<rparr>)"

definition hi_edges :: "bool \<Rightarrow> u32 \<Rightarrow> u32 \<Rightarrow> gpio_state \<Rightarrow> gpio_state" where
  "hi_edges levels old_hi new_hi g =
     fold (hi_edge levels new_hi) (filter (bit (old_hi XOR new_hi)) [0..<32]) g"

section \<open>Registers\<close>

definition gpio_iobase :: "bool \<Rightarrow> u32" where
  "gpio_iobase rp2350 = (if rp2350 then 0x40028000 else 0x40014000)"

definition gpio_pads_base :: "bool \<Rightarrow> u32" where
  "gpio_pads_base rp2350 = (if rp2350 then 0x40038000 else 0x4001C000)"

definition gpio_pads_size :: "bool \<Rightarrow> u32" where
  "gpio_pads_size rp2350 = (if rp2350 then 0xC0 else 0x80)"

text \<open>Stripping the alias of an interrupt register address: the alias and the plain address.\<close>

definition irq_alias :: "bool \<Rightarrow> u32 \<Rightarrow> u32 \<times> u32" where
  "irq_alias rp2350 addr =
     (let io = gpio_iobase rp2350 in
      if in_block addr (io + 0x3000) 0x400 then (0x3000, addr - 0x3000)
      else if in_block addr (io + 0x2000) 0x400 then (0x2000, addr - 0x2000)
      else if in_block addr (io + 0x1000) 0x400 then (0x1000, addr - 0x1000)
      else (0, addr))"

text \<open>The kind of an interrupt register and its index; the banks are four registers long on the
  RP2040 and six on the RP2350.\<close>

definition irq_reg :: "bool \<Rightarrow> u32 \<Rightarrow> (nat \<times> nat) option" where
  "irq_reg rp2350 off =
     (let b = (if rp2350 then 0x230 else 0xF0); len = (if rp2350 then 0x18 else 0x10) in
      if off \<ge> b \<and> off < b + 7 * len
      then Some (unat ((off - b) div len), unat ((off - b) mod len div 4))
      else None)"

text \<open>Stripping the alias of a pad register address.\<close>

definition pads_alias :: "bool \<Rightarrow> u32 \<Rightarrow> (u32 \<times> u32) option" where
  "pads_alias rp2350 addr =
     (let b = gpio_pads_base rp2350; sz = gpio_pads_size rp2350 in
      if in_block addr b sz \<or> in_block addr (b + 0x1000) sz \<or> in_block addr (b + 0x2000) sz \<or>
         in_block addr (b + 0x3000) sz
      then let (al, a) = (if addr \<ge> b + 0x3000 then (0x3000, addr - 0x3000)
                          else if addr \<ge> b + 0x2000 then (0x2000, addr - 0x2000)
                          else if addr \<ge> b + 0x1000 then (0x1000, addr - 0x1000)
                          else (0, addr))
           in Some (al, (a - b) div 4)
      else None)"

definition alias_op :: "u32 \<Rightarrow> u32 \<Rightarrow> u32 \<Rightarrow> u32" where
  "alias_op al old val =
     (if al = 0x2000 then old OR val else if al = 0x3000 then old AND NOT val
      else if al = 0x1000 then old XOR val else val)"

definition gpio_read_sio :: "u32 \<Rightarrow> gpio_state \<Rightarrow> u32" where
  "gpio_read_sio addr g =
     (if addr = 0xD0000004 then gpio_in g
      else if addr = 0xD0000008 then 0x3E
      else if addr = 0xD0000010 then gpio_out g
      else if addr = 0xD0000020 then gpio_oe g
      else if addr = 0xD0000030 then gpio_out_hi g AND 0xFFFF
      else if addr = 0xD0000034 then gpio_oe_hi g AND 0xFFFF
      else if addr = 0xD0000038 then effective_hi g AND 0xFFFF
      else 0)"

definition gpio_read_irq :: "nat \<Rightarrow> nat \<Rightarrow> gpio_state \<Rightarrow> u32" where
  "gpio_read_irq kind i g =
     (if kind = 0 then gp_intr g i
      else if kind = 1 then gp_inte g 0 i
      else if kind = 2 then gp_intf g 0 i
      else if kind = 3 then gp_ints g 0 i
      else if kind = 4 then gp_inte g 1 i
      else if kind = 5 then gp_intf g 1 i
      else gp_ints g 1 i)"

definition gpio_read32 :: "bool \<Rightarrow> u32 \<Rightarrow> gpio_state \<Rightarrow> u32" where
  "gpio_read32 rp2350 addr g =
     (if in_block addr 0xD0000000 0x100 then gpio_read_sio addr g
      else let io = gpio_iobase rp2350 in
        case irq_reg rp2350 (snd (irq_alias rp2350 addr) - io) of
          Some (kind, i) \<Rightarrow> gpio_read_irq kind i g
        | None \<Rightarrow>
          let offset = addr - io; pin = unat (offset div 8); rg = offset mod 8 in
          if in_block addr io (if rp2350 then 0x180 else 0xF0) \<and> pin < 48 \<and> rg = 0 then gp_status g pin
          else if in_block addr io (if rp2350 then 0x180 else 0xF0) \<and> pin < 48 \<and> rg = 4 then gp_ctrl g pin
          else (case pads_alias rp2350 addr of
              Some (_, off) \<Rightarrow>
                if off > 0 \<and> off \<le> 48 then gp_pads g (unat (off - 1))
                else if off = 0 then gp_voltage_select g else 0x56
            | None \<Rightarrow> 0))"

text \<open>IN follows OUT on the pins that are driven by the guest.\<close>

definition mirror_out :: "gpio_state \<Rightarrow> gpio_state" where
  "mirror_out g = g\<lparr>gpio_in := (gpio_in g AND NOT (gpio_oe g AND NOT (gpio_driven_mask g))) OR
     (gpio_out g AND gpio_oe g AND NOT (gpio_driven_mask g))\<rparr>"

definition gpio_sio_regs :: "u32 \<Rightarrow> u32 \<Rightarrow> gpio_state \<Rightarrow> gpio_state" where
  "gpio_sio_regs addr val g =
     (if addr = 0xD0000010 then mirror_out (g\<lparr>gpio_out := val\<rparr>)
      else if addr = 0xD0000014 then
        g\<lparr>gpio_out := gpio_out g OR val,
          gpio_in := gpio_in g OR (val AND gpio_oe g AND NOT (gpio_driven_mask g))\<rparr>
      else if addr = 0xD0000018 then
        g\<lparr>gpio_out := gpio_out g AND NOT val,
          gpio_in := gpio_in g AND NOT (val AND gpio_oe g AND NOT (gpio_driven_mask g))\<rparr>
      else if addr = 0xD000001C then mirror_out (g\<lparr>gpio_out := gpio_out g XOR val\<rparr>)
      else if addr = 0xD0000020 then mirror_out (g\<lparr>gpio_oe := val\<rparr>)
      else if addr = 0xD0000024 then gpio_sync_in_to_out val (g\<lparr>gpio_oe := gpio_oe g OR val\<rparr>)
      else if addr = 0xD0000028 then g\<lparr>gpio_oe := gpio_oe g AND NOT val\<rparr>
      else if addr = 0xD000002C then g\<lparr>gpio_oe := gpio_oe g XOR val\<rparr>
      else g)"

definition gpio_hi_regs :: "u32 \<Rightarrow> u32 \<Rightarrow> gpio_state \<Rightarrow> gpio_state" where
  "gpio_hi_regs off m g =
     (if off = 0x00 then g\<lparr>gpio_out_hi := (gpio_out_hi g AND NOT 0xFFFF) OR m\<rparr>
      else if off = 0x04 then g\<lparr>gpio_out_hi := gpio_out_hi g OR m\<rparr>
      else if off = 0x08 then g\<lparr>gpio_out_hi := gpio_out_hi g AND NOT m\<rparr>
      else if off = 0x0C then g\<lparr>gpio_out_hi := gpio_out_hi g XOR m\<rparr>
      else if off = 0x10 then g\<lparr>gpio_oe_hi := (gpio_oe_hi g AND NOT 0xFFFF) OR m\<rparr>
      else if off = 0x14 then g\<lparr>gpio_oe_hi := gpio_oe_hi g OR m\<rparr>
      else if off = 0x18 then g\<lparr>gpio_oe_hi := gpio_oe_hi g AND NOT m\<rparr>
      else if off = 0x1C then g\<lparr>gpio_oe_hi := gpio_oe_hi g XOR m\<rparr>
      else g)"

definition gpio_write_sio :: "u32 \<Rightarrow> u32 \<Rightarrow> gpio_state \<times> nvic_ctx \<Rightarrow> gpio_state \<times> nvic_ctx" where
  "gpio_write_sio addr val s =
     (let (g, nv) = s;
          old_pins = gpio_effective_pins g; old_hi = effective_hi g;
          s1 = (if in_block addr 0xD0000030 0x20 then
                  (let g1 = gpio_hi_regs (addr - 0xD0000030) (val AND 0xFFFF) g;
                       new_hi = effective_hi g1;
                       g2 = hi_edges True old_hi new_hi g1
                   in if old_hi \<noteq> new_hi then gpio_check_irq (g2, nv) else (g2, nv))
                else (gpio_sio_regs addr val g, nv))
      in gpio_detect_events old_pins (gpio_effective_pins (fst s1)) s1)"

definition gpio_write_irq :: "nat \<Rightarrow> nat \<Rightarrow> u32 \<Rightarrow> u32 \<Rightarrow> gpio_state \<Rightarrow> gpio_state" where
  "gpio_write_irq kind i al val g =
     (if kind = 0 then g\<lparr>gp_intr := (gp_intr g)(i := gp_intr g i AND NOT val)\<rparr>
      else if kind = 1 \<or> kind = 4 then
        (let p = (if kind = 1 then 0 else 1)
         in g\<lparr>gp_inte := (gp_inte g)(p := (gp_inte g p)(i := alias_op al (gp_inte g p i) val))\<rparr>)
      else if kind = 2 \<or> kind = 5 then
        (let p = (if kind = 2 then 0 else 1)
         in g\<lparr>gp_intf := (gp_intf g)(p := (gp_intf g p)(i := alias_op al (gp_intf g p i) val))\<rparr>)
      else g)"

definition gpio_write32 :: "bool \<Rightarrow> u32 \<Rightarrow> u32 \<Rightarrow> gpio_state \<times> nvic_ctx \<Rightarrow> gpio_state \<times> nvic_ctx" where
  "gpio_write32 rp2350 addr val s =
     (if in_block addr 0xD0000000 0x100 then gpio_write_sio addr val s
      else let (g, nv) = s; io = gpio_iobase rp2350; (al, plain) = irq_alias rp2350 addr in
        case irq_reg rp2350 (plain - io) of
          Some (kind, i) \<Rightarrow> gpio_check_irq (gpio_write_irq kind i al val g, nv)
        | None \<Rightarrow>
          if in_block addr io (if rp2350 then 0x180 else 0xF0) then
            (let offset = addr - io; pin = unat (offset div 8) in
             if pin < 48 \<and> offset mod 8 = 4 then (g\<lparr>gp_ctrl := (gp_ctrl g)(pin := val)\<rparr>, nv) else (g, nv))
          else (case pads_alias rp2350 addr of
              Some (pal, off) \<Rightarrow>
                if off > 0 \<and> off \<le> 48 then
                  (let pin = unat (off - 1)
                   in (g\<lparr>gp_pads := (gp_pads g)(pin := alias_op pal (gp_pads g pin) val)\<rparr>, nv))
                else if off = 0 then
                  (g\<lparr>gp_voltage_select := alias_op pal (gp_voltage_select g) (val AND 1)\<rparr>, nv)
                else (g, nv)
            | None \<Rightarrow> (g, nv)))"

section \<open>Pins driven from inside the emulator\<close>

definition set_mask :: "bool \<Rightarrow> u32 \<Rightarrow> u32 \<Rightarrow> u32" where
  "set_mask v msk w = (if v then w OR msk else w AND NOT msk)"

definition gpio_set_pin :: "u8 \<Rightarrow> bool \<Rightarrow> gpio_state \<times> nvic_ctx \<Rightarrow> gpio_state \<times> nvic_ctx" where
  "gpio_set_pin pin v s =
     (let (g, nv) = s in
      if pin \<ge> 48 then s
      else if pin < 32 then
        (let g1 = g\<lparr>gpio_out := set_mask v (shl 1 (unat pin)) (gpio_out g)\<rparr>
         in gpio_detect_events (gpio_effective_pins g) (gpio_effective_pins g1) (g1, nv))
      else
        (let g1 = g\<lparr>gpio_out_hi := set_mask v (shl 1 (unat pin - 32)) (gpio_out_hi g)\<rparr>
         in gpio_check_irq (hi_edges False (effective_hi g) (effective_hi g1) g1, nv)))"

definition gpio_get_pin :: "u8 \<Rightarrow> gpio_state \<Rightarrow> bool" where
  "gpio_get_pin pin g =
     (if pin \<ge> 48 then False
      else if pin < 32 then
        (if bit (gpio_driven_mask g) (unat pin) then bit (gpio_in g) (unat pin)
         else if bit (gpio_oe g) (unat pin) then bit (gpio_out g) (unat pin)
         else bit (gpio_in g) (unat pin))
      else if bit (gpio_oe_hi g) (unat pin - 32) then bit (gpio_out_hi g) (unat pin - 32)
      else bit (gpio_in_hi g) (unat pin - 32))"

definition gpio_set_input_pin :: "u8 \<Rightarrow> bool \<Rightarrow> gpio_state \<times> nvic_ctx \<Rightarrow> gpio_state \<times> nvic_ctx" where
  "gpio_set_input_pin pin v s =
     (let (g, nv) = s in
      if pin \<ge> 48 then s
      else if pin < 32 then
        (let g1 = g\<lparr>gpio_in := set_mask v (shl 1 (unat pin)) (gpio_in g)\<rparr>
         in gpio_check_irq (gpio_detect_events (gpio_effective_pins g) (gpio_effective_pins g1) (g1, nv)))
      else
        (let g1 = g\<lparr>gpio_in_hi := set_mask v (shl 1 (unat pin - 32)) (gpio_in_hi g)\<rparr>
         in gpio_check_irq (hi_edges False (effective_hi g) (effective_hi g1) g1, nv)))"

definition gpio_set_direction :: "u8 \<Rightarrow> bool \<Rightarrow> gpio_state \<Rightarrow> gpio_state" where
  "gpio_set_direction pin output g =
     (if pin \<ge> 48 then g
      else if pin < 32 then
        (let msk = shl 1 (unat pin) in
         if output then gpio_sync_in_to_out msk (g\<lparr>gpio_oe := gpio_oe g OR msk\<rparr>)
         else g\<lparr>gpio_oe := gpio_oe g AND NOT msk\<rparr>)
      else g\<lparr>gpio_oe_hi := set_mask output (shl 1 (unat pin - 32)) (gpio_oe_hi g)\<rparr>)"

definition gpio_set_function :: "u8 \<Rightarrow> u8 \<Rightarrow> gpio_state \<Rightarrow> gpio_state" where
  "gpio_set_function pin func g =
     (if pin \<ge> 48 then g
      else g\<lparr>gp_ctrl := (gp_ctrl g)(unat pin :=
             (gp_ctrl g (unat pin) AND NOT 0x1F) OR (ucast func AND 0x1F))\<rparr>)"

section \<open>Events\<close>

text \<open>The four event bits of a pin: level low, level high, falling edge, rising edge.\<close>

definition pin_event :: "gpio_state \<Rightarrow> nat \<Rightarrow> nat \<Rightarrow> bool" where
  "pin_event g pin k = bit (gp_intr g (pin div 8)) (4 * (pin mod 8) + k)"

lemma octet_list: "[0..<8] = [0, 1, 2, 3, 4, 5, 6, 7 :: nat]"
  by (simp add: upt_rec)

lemma octet_cases: "(n :: nat) < 8 \<longleftrightarrow> n = 0 \<or> n = 1 \<or> n = 2 \<or> n = 3 \<or> n = 4 \<or> n = 5 \<or> n = 6 \<or> n = 7"
  by arith

lemma bit_edge_mask: "b < 8 \<Longrightarrow> k < 4 \<Longrightarrow> bit edge_mask (4 * b + k) \<longleftrightarrow> 2 \<le> k"
proof -
  have e: "edge_mask = 0xCCCCCCCC" by (simp add: edge_mask_def octet_list)
  show "b < 8 \<Longrightarrow> k < 4 \<Longrightarrow> bit edge_mask (4 * b + k) \<longleftrightarrow> 2 \<le> k"
    unfolding octet_cases less_4_cases e by (elim disjE; simp)
qed

lemma bit_level_bits:
  "b < 8 \<Longrightarrow> k < 4 \<Longrightarrow>
   bit (level_bits rg w) (4 * b + k) \<longleftrightarrow> k = (if bit w (rg * 8 + b) then 1 else 0)"
  unfolding octet_cases less_4_cases level_bits_def octet_list fold_simps
  by (elim disjE; simp add: bit_simps)

lemma bit_edge_nibble:
  "b < 8 \<Longrightarrow> c < 8 \<Longrightarrow> k < 4 \<Longrightarrow>
   bit (shl (if v then 8 else 4 :: u32) (c * 4)) (4 * b + k) \<longleftrightarrow> c = b \<and> k = (if v then 3 else 2)"
  unfolding octet_cases less_4_cases by (elim disjE; simp)

lemma latch_edge_event:
  assumes "pin < 48" "q < 48" "k < 4"
  shows "pin_event (gpio_latch_edge w q g) pin k \<longleftrightarrow>
    pin_event g pin k \<or> pin = q \<and> k = (if bit w q then 3 else 2)"
proof -
  have "pin = q \<longleftrightarrow> pin div 8 = q div 8 \<and> pin mod 8 = q mod 8" by (metis div_mult_mod_eq)
  then show ?thesis
    using bit_edge_nibble [of "pin mod 8" "q mod 8" k "bit w q"] assms(3)
    by (auto simp: pin_event_def gpio_latch_edge_def Let_def bit_or_iff)
qed

lemma latch_edges_event:
  assumes "pin < 32" "k < 4" "\<forall>q \<in> set qs. q < 32"
  shows "pin_event (fold (gpio_latch_edge w) qs g) pin k \<longleftrightarrow>
    pin_event g pin k \<or> pin \<in> set qs \<and> k = (if bit w pin then 3 else 2)"
  using assms by (induction qs arbitrary: g) (auto simp: latch_edge_event)

text \<open>The events of a change of the pins, whatever the state before.\<close>

lemma gpio_events_spec:
  assumes "pin < 32" "k < 4"
  shows "pin_event (gpio_events old new g) pin k \<longleftrightarrow>
    (if k = 0 then \<not> bit new pin
     else if k = 1 then bit new pin
     else if k = 2 then pin_event g pin 2 \<or> bit old pin \<and> \<not> bit new pin
     else pin_event g pin 3 \<or> \<not> bit old pin \<and> bit new pin)"
proof -
  let ?qs = "filter (bit (old XOR new)) [0..<32]"
  let ?g1 = "g\<lparr>gp_intr := \<lambda>rg. if rg < 6 then (gp_intr g rg AND edge_mask) OR level_bits rg new else gp_intr g rg\<rparr>"
  have r: "pin div 8 < 6" "pin div 8 * 8 + pin mod 8 = pin" using assms(1) by simp_all
  have g1: "pin_event ?g1 pin k \<longleftrightarrow> pin_event g pin k \<and> 2 \<le> k \<or> k = (if bit new pin then 1 else 0)"
    using r(1) bit_edge_mask [of "pin mod 8" k] bit_level_bits [of "pin mod 8" k "pin div 8" new] assms(2)
    unfolding r(2) by (auto simp: pin_event_def bit_or_iff bit_and_iff)
  have q: "pin \<in> set ?qs \<longleftrightarrow> bit old pin \<noteq> bit new pin" using assms(1) by (auto simp: bit_xor_iff)
  have "pin_event (gpio_events old new g) pin k \<longleftrightarrow>
      pin_event ?g1 pin k \<or> pin \<in> set ?qs \<and> k = (if bit new pin then 3 else 2)"
    unfolding gpio_events_def Let_def by (rule latch_edges_event) (use assms in auto)
  then show ?thesis unfolding g1 q using assms(2) by (auto simp: less_4_cases)
qed

lemma gpio_update_ints_intr [simp]: "gp_intr (gpio_update_ints g) = gp_intr g"
  by (simp add: gpio_update_ints_def)

lemma gpio_check_irq_intr [simp]: "gp_intr (fst (gpio_check_irq s)) = gp_intr (fst s)"
  by (simp add: gpio_check_irq_def split_beta Let_def)

lemma fold_or_eq_0: "fold (\<lambda>i a. a OR f i) is (a :: u32) = 0 \<longleftrightarrow> a = 0 \<and> (\<forall>i \<in> set is. f i = 0)"
  by (induction "is" arbitrary: a) (auto simp: or_eq_0_iff)

text \<open>A change of the pins raises exactly the events of the data sheet: for every pin the level
  bits are those of the new level, an edge bit is set if it was latched before or the pin went
  that way, and the bank interrupt is signalled exactly if some event is then enabled, or forced
  and enabled, for one of the two cores.\<close>

theorem gpio_event_semantics:
  assumes "pin < 32"
  shows "let g' = fst (gpio_detect_events old new (g, nv)) in
    (pin_event g' pin 0 \<longleftrightarrow> \<not> bit new pin) \<and> (pin_event g' pin 1 \<longleftrightarrow> bit new pin) \<and>
    (pin_event g' pin 2 \<longleftrightarrow> pin_event g pin 2 \<or> bit old pin \<and> \<not> bit new pin) \<and>
    (pin_event g' pin 3 \<longleftrightarrow> pin_event g pin 3 \<or> \<not> bit old pin \<and> bit new pin) \<and>
    snd (gpio_detect_events old new (g, nv)) =
      (if \<exists>p < 2. \<exists>i < 6. (gp_intr g' i OR gp_intf g' p i) AND gp_inte g' p i \<noteq> 0
       then nvic_signal_rp2350_irq 13 nv else nv)"
proof -
  define ge where "ge = gpio_events old new g"
  define g' where "g' = fst (gpio_detect_events old new (g, nv))"
  have g': "g' = gpio_update_ints ge" by (simp add: g'_def gpio_detect_events_def gpio_check_irq_def ge_def Let_def)
  have ev: "pin_event g' pin k = pin_event ge pin k" for k by (simp add: g' pin_event_def)
  have same: "gp_intf g' = gp_intf ge" "gp_inte g' = gp_inte ge" by (simp_all add: g' gpio_update_ints_def)
  have two: "(\<exists>p < 2. Q p) \<longleftrightarrow> Q 0 \<or> Q (1 :: nat)" for Q by (auto simp: less_2_cases_iff)
  have "snd (gpio_detect_events old new (g, nv)) =
      (if \<exists>p < 2. \<exists>i < 6. (gp_intr g' i OR gp_intf g' p i) AND gp_inte g' p i \<noteq> 0
       then nvic_signal_rp2350_irq 13 nv else nv)"
    unfolding same two by (auto simp: gpio_detect_events_def gpio_check_irq_def Let_def fold_or_eq_0 or_eq_0_iff
        g' gpio_update_ints_def ge_def)
  then show ?thesis
    using gpio_events_spec [OF assms, of 0 old new g] gpio_events_spec [OF assms, of 1 old new g]
      gpio_events_spec [OF assms, of 2 old new g] gpio_events_spec [OF assms, of 3 old new g]
    by (simp add: Let_def g'_def [symmetric] ev ge_def)
qed

theorem gpio_event_semantics_witness:
  "pin_event (fst (gpio_detect_events 0 0x200000 (gpio_reset, nvic_boot))) 21 3"
  using gpio_event_semantics [of 21 0 "0x200000" gpio_reset nvic_boot] by (simp add: Let_def)

section \<open>Driven pins\<close>

text \<open>What the rest of the emulator sees of a pin that it drives itself.\<close>

lemma sio_regs_driven:
  assumes "bit (gpio_driven_mask g) pin"
  shows "bit (gpio_in (gpio_sio_regs addr val g)) pin \<longleftrightarrow> bit (gpio_in g) pin"
    "gpio_driven_mask (gpio_sio_regs addr val g) = gpio_driven_mask g"
  using assms bit_imp_le_length [OF assms]
  by (auto simp: gpio_sio_regs_def mirror_out_def gpio_sync_in_to_out_def Let_def bit_simps)

lemma events_frame [simp]:
  "gpio_in (gpio_events old new g) = gpio_in g" "gpio_driven_mask (gpio_events old new g) = gpio_driven_mask g"
proof -
  have "gpio_in (fold (gpio_latch_edge new) qs h) = gpio_in h \<and>
      gpio_driven_mask (fold (gpio_latch_edge new) qs h) = gpio_driven_mask h" for qs h
    by (induction qs arbitrary: h) (simp_all add: gpio_latch_edge_def Let_def)
  then show "gpio_in (gpio_events old new g) = gpio_in g" "gpio_driven_mask (gpio_events old new g) = gpio_driven_mask g"
    by (simp_all add: gpio_events_def Let_def)
qed

lemma check_irq_frame [simp]:
  "gpio_in (fst (gpio_check_irq s)) = gpio_in (fst s)"
  "gpio_driven_mask (fst (gpio_check_irq s)) = gpio_driven_mask (fst s)"
  by (simp_all add: gpio_check_irq_def gpio_update_ints_def split_beta Let_def)

lemma detect_events_frame [simp]:
  "gpio_in (fst (gpio_detect_events old new s)) = gpio_in (fst s)"
  "gpio_driven_mask (fst (gpio_detect_events old new s)) = gpio_driven_mask (fst s)"
  by (simp_all add: gpio_detect_events_def split_beta)

lemma hi_frame [simp]:
  "gpio_in (gpio_hi_regs off m g) = gpio_in g" "gpio_driven_mask (gpio_hi_regs off m g) = gpio_driven_mask g"
  "gpio_in (hi_edges l old n g) = gpio_in g" "gpio_driven_mask (hi_edges l old n g) = gpio_driven_mask g"
proof -
  have "gpio_in (fold (hi_edge l n) qs h) = gpio_in h \<and>
      gpio_driven_mask (fold (hi_edge l n) qs h) = gpio_driven_mask h" for qs h
    by (induction qs arbitrary: h) (simp_all add: hi_edge_def Let_def)
  then show "gpio_in (hi_edges l old n g) = gpio_in g" "gpio_driven_mask (hi_edges l old n g) = gpio_driven_mask g"
    by (simp_all add: hi_edges_def)
qed (simp_all add: gpio_hi_regs_def)

lemma gpio_write_driven:
  assumes "bit (gpio_driven_mask (fst s)) pin"
  shows "bit (gpio_in (fst (gpio_write32 rp addr val s))) pin \<longleftrightarrow> bit (gpio_in (fst s)) pin"
    "gpio_driven_mask (fst (gpio_write32 rp addr val s)) = gpio_driven_mask (fst s)"
proof -
  have "(bit (gpio_in (fst (gpio_write_sio addr val s))) pin \<longleftrightarrow> bit (gpio_in (fst s)) pin) \<and>
    gpio_driven_mask (fst (gpio_write_sio addr val s)) = gpio_driven_mask (fst s)"
    using sio_regs_driven [OF assms, of addr val]
    by (simp add: gpio_write_sio_def split_beta Let_def)
  moreover have "gpio_in (gpio_write_irq k i al v g) = gpio_in g"
    "gpio_driven_mask (gpio_write_irq k i al v g) = gpio_driven_mask g" for k i al v g
    by (simp_all add: gpio_write_irq_def Let_def)
  ultimately show "bit (gpio_in (fst (gpio_write32 rp addr val s))) pin \<longleftrightarrow> bit (gpio_in (fst s)) pin"
    "gpio_driven_mask (fst (gpio_write32 rp addr val s)) = gpio_driven_mask (fst s)"
    by (auto simp: gpio_write32_def split_beta Let_def split: option.splits)
qed

text \<open>The level of a pin that the emulator drives as an input cannot be changed by the guest:
  after any sequence of register writes, to any addresses, the pin reads as before, through the
  input register, as an effective level and from inside the emulator.\<close>

theorem driven_pin_protected:
  assumes "bit (gpio_driven_mask g) (unat pin)" "pin < 32"
  shows "let g' = fst (fold (\<lambda>(addr, val). gpio_write32 rp addr val) ws (g, nv)) in
    (bit (gpio_in g') (unat pin) \<longleftrightarrow> bit (gpio_in g) (unat pin)) \<and>
    (bit (gpio_effective_pins g') (unat pin) \<longleftrightarrow> bit (gpio_in g) (unat pin)) \<and>
    (gpio_get_pin pin g' \<longleftrightarrow> bit (gpio_in g) (unat pin))"
proof -
  have "(bit (gpio_in (fst (fold (\<lambda>(addr, val). gpio_write32 rp addr val) ws s))) (unat pin) \<longleftrightarrow>
        bit (gpio_in (fst s)) (unat pin)) \<and>
      gpio_driven_mask (fst (fold (\<lambda>(addr, val). gpio_write32 rp addr val) ws s)) = gpio_driven_mask (fst s)"
    if "bit (gpio_driven_mask (fst s)) (unat pin)" for s
    using that
  proof (induction ws arbitrary: s)
    case (Cons w ws)
    obtain a v where w: "w = (a, v)" by (cases w)
    show ?case
      using Cons.IH [of "gpio_write32 rp a v s"] gpio_write_driven [OF Cons.prems, of rp a v] Cons.prems
      by (simp add: w)
  qed simp
  from this [of "(g, nv)"] show ?thesis
    using assms bit_imp_le_length [OF assms(1)]
    by (auto simp: Let_def gpio_effective_pins_def gpio_get_pin_def bit_simps word_less_nat_alt word_le_nat_alt)
qed

theorem driven_pin_protected_witness:
  "gpio_get_pin 21 (fst (fold (\<lambda>(addr, val). gpio_write32 False addr val)
     [(0xD0000024, 0x200000), (0xD0000018, 0x200000)] (gpio_mark_driven 21 gpio_reset, nvic_boot)))"
  using driven_pin_protected [of "gpio_mark_driven 21 gpio_reset" 21 False
      "[(0xD0000024, 0x200000), (0xD0000018, 0x200000)]" nvic_boot]
  by (simp add: Let_def gpio_mark_driven_def gpio_reset_def)

text \<open>Enabling two outputs at once copies the level of one onto the other: with OUT high on pin 0
  and low on pin 1, the input register reads high on both.\<close>

lemma oe_set_mixes_pins:
  "gpio_in (gpio_sync_in_to_out 3 (gpio_reset\<lparr>gpio_in := 0, gpio_out := 1\<rparr>)) = 3"
  by (simp add: gpio_sync_in_to_out_def gpio_reset_def Let_def)

text \<open>The output-enable register of the pins above 31 is written at offset 0x40 but read at 0x34.\<close>

lemma hi_oe_not_read_back:
  "gpio_read_sio 0xD0000040 (fst (gpio_write_sio 0xD0000040 0x55 (gpio_reset, nvic_boot))) = 0"
  by (simp add: gpio_read_sio_def)

end
