(* ===== verification/Xip.thy ===== *)
theory Xip
  imports Emu_Prelude
begin

unbundle bit_operations_syntax

text \<open>
  The small register blocks that live in \<^verbatim>\<open>src/membus.c\<close> itself: chip identification, bus control,
  the QSPI pins and pads, the flash cache control and the serial flash interface with its receive
  FIFO and its flash command protocol.
\<close>

section \<open>Identification, bus control, QSPI pins\<close>

definition sysinfo_read :: "bool \<Rightarrow> u32 \<Rightarrow> u32" where
  "sysinfo_read rp2350 offset =
     (if offset = 0x00 then
        (if rp2350 then shl 1 28 OR shl 2 12 OR shl 0x927 1 OR 1
         else shl 2 28 OR shl 2 12 OR shl 0x927 1 OR 1)
      else if offset = 0x04 then 2
      else if offset = 0x40 then 1
      else 0)"

record busctrl_state =
  bc_priority :: u32
  bc_perfsel :: "nat \<Rightarrow> u32"
  bc_perfctr :: "nat \<Rightarrow> u32"

definition busctrl_boot :: busctrl_state where
  "busctrl_boot = \<lparr>bc_priority = 0, bc_perfsel = (\<lambda>_. 0x1F), bc_perfctr = (\<lambda>_. 0)\<rparr>"

definition busctrl_match :: "u32 \<Rightarrow> bool" where
  "busctrl_match addr = in_block (addr AND NOT 0x3000) 0x40030000 0x1000"

definition busctrl_read :: "u32 \<Rightarrow> busctrl_state \<Rightarrow> u32" where
  "busctrl_read offset b =
     (if offset = 0x00 then bc_priority b
      else if offset = 0x08 then bc_perfctr b 0
      else if offset = 0x0C then bc_perfsel b 0
      else if offset = 0x10 then bc_perfctr b 1
      else if offset = 0x14 then bc_perfsel b 1
      else if offset = 0x18 then bc_perfctr b 2
      else if offset = 0x1C then bc_perfsel b 2
      else if offset = 0x20 then bc_perfctr b 3
      else if offset = 0x24 then bc_perfsel b 3
      else 0)"

definition busctrl_write :: "u32 \<Rightarrow> u32 \<Rightarrow> busctrl_state \<Rightarrow> busctrl_state" where
  "busctrl_write offset val b =
     (if offset = 0x00 then b\<lparr>bc_priority := val AND 0x1111\<rparr>
      else if offset = 0x08 then b\<lparr>bc_perfctr := (bc_perfctr b)(0 := 0)\<rparr>
      else if offset = 0x0C then b\<lparr>bc_perfsel := (bc_perfsel b)(0 := val AND 0x1F)\<rparr>
      else if offset = 0x10 then b\<lparr>bc_perfctr := (bc_perfctr b)(1 := 0)\<rparr>
      else if offset = 0x14 then b\<lparr>bc_perfsel := (bc_perfsel b)(1 := val AND 0x1F)\<rparr>
      else if offset = 0x18 then b\<lparr>bc_perfctr := (bc_perfctr b)(2 := 0)\<rparr>
      else if offset = 0x1C then b\<lparr>bc_perfsel := (bc_perfsel b)(2 := val AND 0x1F)\<rparr>
      else if offset = 0x20 then b\<lparr>bc_perfctr := (bc_perfctr b)(3 := 0)\<rparr>
      else if offset = 0x24 then b\<lparr>bc_perfsel := (bc_perfsel b)(3 := val AND 0x1F)\<rparr>
      else b)"

record qspi_state =
  io_qspi_ctrl :: "nat \<Rightarrow> u32"
  io_qspi_inte :: u32
  io_qspi_intf :: u32
  pads_qspi_regs :: "nat \<Rightarrow> u32"

definition qspi_boot :: qspi_state where
  "qspi_boot = \<lparr>io_qspi_ctrl = (\<lambda>_. 0), io_qspi_inte = 0, io_qspi_intf = 0, pads_qspi_regs = (\<lambda>_. 0)\<rparr>"

definition io_qspi_match :: "u32 \<Rightarrow> bool" where
  "io_qspi_match addr = in_block (addr AND NOT 0x3000) 0x40018000 0x60"

definition io_qspi_read :: "u32 \<Rightarrow> qspi_state \<Rightarrow> u32" where
  "io_qspi_read offset q =
     (if offset < 0x30 then
        (let pin = unat (offset div 8); rg = offset mod 8 in
         if pin < 6 \<and> rg = 4 then io_qspi_ctrl q pin else 0)
      else if offset = 0x34 then io_qspi_inte q
      else if offset = 0x38 then io_qspi_intf q
      else 0)"

definition io_qspi_write :: "u32 \<Rightarrow> u32 \<Rightarrow> qspi_state \<Rightarrow> qspi_state" where
  "io_qspi_write offset val q =
     (if offset < 0x30 then
        (let pin = unat (offset div 8); rg = offset mod 8 in
         if pin < 6 \<and> rg = 4 then q\<lparr>io_qspi_ctrl := (io_qspi_ctrl q)(pin := val)\<rparr> else q)
      else if offset = 0x34 then q\<lparr>io_qspi_inte := val\<rparr>
      else if offset = 0x38 then q\<lparr>io_qspi_intf := val\<rparr>
      else q)"

definition pads_qspi_active_base :: "bool \<Rightarrow> u32" where
  "pads_qspi_active_base rp2350 = (if rp2350 then 0x40040000 else 0x40020000)"

definition pads_qspi_match :: "bool \<Rightarrow> u32 \<Rightarrow> bool" where
  "pads_qspi_match rp2350 addr = in_block (addr AND NOT 0x3000) (pads_qspi_active_base rp2350) 0x20"

definition pads_qspi_read :: "u32 \<Rightarrow> qspi_state \<Rightarrow> u32" where
  "pads_qspi_read offset q = (if offset < 32 then pads_qspi_regs q (unat (offset div 4)) else 0)"

definition pads_qspi_write :: "u32 \<Rightarrow> u32 \<Rightarrow> qspi_state \<Rightarrow> qspi_state" where
  "pads_qspi_write offset val q =
     (if offset < 32 then q\<lparr>pads_qspi_regs := (pads_qspi_regs q)(unat (offset div 4) := val)\<rparr> else q)"

section \<open>Flash cache control\<close>

record xip_ctrl_state =
  xip_ctrl_reg :: u32
  xip_ctr_hit :: u32
  xip_ctr_acc :: u32
  xip_stream_addr :: u32
  xip_stream_ctr :: u32

definition xip_ctrl_boot :: xip_ctrl_state where
  "xip_ctrl_boot = \<lparr>xip_ctrl_reg = 3, xip_ctr_hit = 0, xip_ctr_acc = 0, xip_stream_addr = 0,
     xip_stream_ctr = 0\<rparr>"

definition xip_ctrl_read :: "u32 \<Rightarrow> xip_ctrl_state \<Rightarrow> u32" where
  "xip_ctrl_read offset x =
     (if offset = 0x00 then xip_ctrl_reg x
      else if offset = 0x08 then shl 1 2 OR shl 1 1
      else if offset = 0x0C then xip_ctr_hit x
      else if offset = 0x10 then xip_ctr_acc x
      else if offset = 0x14 then xip_stream_addr x
      else if offset = 0x18 then xip_stream_ctr x
      else 0)"

definition xip_ctrl_write :: "u32 \<Rightarrow> u32 \<Rightarrow> xip_ctrl_state \<Rightarrow> xip_ctrl_state" where
  "xip_ctrl_write offset val x =
     (if offset = 0x00 then x\<lparr>xip_ctrl_reg := val AND 0x0B\<rparr>
      else if offset = 0x0C then x\<lparr>xip_ctr_hit := val\<rparr>
      else if offset = 0x10 then x\<lparr>xip_ctr_acc := val\<rparr>
      else if offset = 0x14 then x\<lparr>xip_stream_addr := val\<rparr>
      else if offset = 0x18 then x\<lparr>xip_stream_ctr := val\<rparr>
      else x)"

section \<open>Serial flash interface\<close>

record xip_ssi_state =
  ssi_ctrlr0 :: u32
  ssi_ctrlr1 :: u32
  ssi_ssienr :: u32
  ssi_ser :: u32
  ssi_baudr :: u32
  ssi_rx_sample_dly :: u32
  ssi_spi_ctrlr0 :: u32
  ssi_rx_fifo :: "nat \<Rightarrow> u32"
  ssi_rx_head :: nat
  ssi_rx_tail :: nat
  ssi_rx_count :: nat
  ssi_command :: u8
  ssi_phase :: u8
  ssi_status_reg1 :: u8
  ssi_status_reg2 :: u8
  ssi_write_enable_latched :: bool
  ssi_transaction_active :: bool

definition xip_ssi_boot :: xip_ssi_state where
  "xip_ssi_boot = \<lparr>ssi_ctrlr0 = 0, ssi_ctrlr1 = 0, ssi_ssienr = 1, ssi_ser = 1, ssi_baudr = 2,
     ssi_rx_sample_dly = 0, ssi_spi_ctrlr0 = 0, ssi_rx_fifo = (\<lambda>_. 0), ssi_rx_head = 0, ssi_rx_tail = 0,
     ssi_rx_count = 0, ssi_command = 0, ssi_phase = 0, ssi_status_reg1 = 0, ssi_status_reg2 = 2,
     ssi_write_enable_latched = False, ssi_transaction_active = False\<rparr>"

definition xip_ssi_unique_id :: "u8 list" where
  "xip_ssi_unique_id = [0x50, 0x45, 0x4D, 0x55, 0x30, 0x31, 0x00, 0x01]"

definition xip_ssi_reset_transaction :: "xip_ssi_state \<Rightarrow> xip_ssi_state" where
  "xip_ssi_reset_transaction x = x\<lparr>ssi_transaction_active := False, ssi_command := 0, ssi_phase := 0\<rparr>"

definition xip_ssi_clear_rx_fifo :: "xip_ssi_state \<Rightarrow> xip_ssi_state" where
  "xip_ssi_clear_rx_fifo x = x\<lparr>ssi_rx_head := 0, ssi_rx_tail := 0, ssi_rx_count := 0\<rparr>"

definition xip_ssi_enqueue_rx :: "u32 \<Rightarrow> xip_ssi_state \<Rightarrow> xip_ssi_state" where
  "xip_ssi_enqueue_rx val x =
     (if ssi_rx_count x \<ge> 16 then x
      else x\<lparr>ssi_rx_fifo := (ssi_rx_fifo x)(ssi_rx_tail x := val),
             ssi_rx_tail := (ssi_rx_tail x + 1) mod 16, ssi_rx_count := ssi_rx_count x + 1\<rparr>)"

definition xip_ssi_dequeue_rx :: "xip_ssi_state \<Rightarrow> u32 \<times> xip_ssi_state" where
  "xip_ssi_dequeue_rx x =
     (if ssi_rx_count x = 0 then (0, x)
      else (ssi_rx_fifo x (ssi_rx_head x),
            x\<lparr>ssi_rx_head := (ssi_rx_head x + 1) mod 16, ssi_rx_count := ssi_rx_count x - 1\<rparr>))"

abbreviation (input) FLASH_CMD_READ_STATUS1 :: u8 where "FLASH_CMD_READ_STATUS1 \<equiv> 0x05"
abbreviation (input) FLASH_CMD_WRITE_ENABLE :: u8 where "FLASH_CMD_WRITE_ENABLE \<equiv> 0x06"
abbreviation (input) FLASH_CMD_WRITE_STATUS :: u8 where "FLASH_CMD_WRITE_STATUS \<equiv> 0x01"
abbreviation (input) FLASH_CMD_READ_STATUS2 :: u8 where "FLASH_CMD_READ_STATUS2 \<equiv> 0x35"
abbreviation (input) FLASH_CMD_READ_UNIQUE_ID :: u8 where "FLASH_CMD_READ_UNIQUE_ID \<equiv> 0x4B"
abbreviation (input) FLASH_CMD_FAST_READ_QUAD_IO :: u8 where "FLASH_CMD_FAST_READ_QUAD_IO \<equiv> 0xEB"

definition xip_ssi_expected_writes :: "u8 \<Rightarrow> u8" where
  "xip_ssi_expected_writes command =
     (if command = FLASH_CMD_READ_STATUS1 \<or> command = FLASH_CMD_READ_STATUS2 then 2
      else if command = FLASH_CMD_WRITE_ENABLE then 1
      else if command = FLASH_CMD_WRITE_STATUS then 3
      else if command = FLASH_CMD_READ_UNIQUE_ID then 13
      else if command = FLASH_CMD_FAST_READ_QUAD_IO then 2
      else 1)"

definition xip_ssi_exchange_byte :: "u8 \<Rightarrow> xip_ssi_state \<Rightarrow> u32 \<times> xip_ssi_state" where
  "xip_ssi_exchange_byte tx x =
     (let x0 = (if \<not> ssi_transaction_active x
                then x\<lparr>ssi_transaction_active := True, ssi_command := tx, ssi_phase := 0\<rparr> else x);
          command = ssi_command x0; phase = ssi_phase x0;
          (rx, x1) =
            (if command = FLASH_CMD_READ_STATUS1 then
               (if phase = 1 then ucast (ssi_status_reg1 x0) else 0, x0)
             else if command = FLASH_CMD_READ_STATUS2 then
               (if phase = 1 then ucast (ssi_status_reg2 x0) else 0, x0)
             else if command = FLASH_CMD_WRITE_ENABLE then (0, x0\<lparr>ssi_write_enable_latched := True\<rparr>)
             else if command = FLASH_CMD_WRITE_STATUS then
               (0, if phase = 1 \<and> ssi_write_enable_latched x0 then x0\<lparr>ssi_status_reg1 := tx\<rparr>
                   else if phase = 2 \<and> ssi_write_enable_latched x0
                   then x0\<lparr>ssi_status_reg2 := tx, ssi_write_enable_latched := False\<rparr> else x0)
             else if command = FLASH_CMD_READ_UNIQUE_ID then
               (if phase \<ge> 5 \<and> phase < 13 then ucast (xip_ssi_unique_id ! unat (phase - 5)) else 0, x0)
             else (0, x0));
          x2 = x1\<lparr>ssi_phase := ssi_phase x1 + 1\<rparr>
      in (rx, if ssi_phase x2 \<ge> xip_ssi_expected_writes command then xip_ssi_reset_transaction x2 else x2))"

definition xip_ssi_read :: "u32 \<Rightarrow> xip_ssi_state \<Rightarrow> u32 \<times> xip_ssi_state" where
  "xip_ssi_read offset x =
     (if offset = 0x00 then (ssi_ctrlr0 x, x)
      else if offset = 0x04 then (ssi_ctrlr1 x, x)
      else if offset = 0x08 then (ssi_ssienr x, x)
      else if offset = 0x10 then (ssi_ser x, x)
      else if offset = 0x14 then (ssi_baudr x, x)
      else if offset = 0x20 then (0, x)
      else if offset = 0x24 then (of_nat (ssi_rx_count x), x)
      else if offset = 0x28 then
        (shl 1 2 OR shl 1 1 OR cond_mask (ssi_rx_count x \<noteq> 0) (shl 1 3) OR
           cond_mask (ssi_rx_count x \<ge> 16) (shl 1 4), x)
      else if offset = 0x60 then xip_ssi_dequeue_rx x
      else if offset = 0xF0 then (ssi_rx_sample_dly x, x)
      else if offset = 0xF4 then (ssi_spi_ctrlr0 x, x)
      else (0, x))"

definition xip_ssi_write :: "u32 \<Rightarrow> u32 \<Rightarrow> xip_ssi_state \<Rightarrow> xip_ssi_state" where
  "xip_ssi_write offset val x =
     (if offset = 0x00 then xip_ssi_reset_transaction (x\<lparr>ssi_ctrlr0 := val\<rparr>)
      else if offset = 0x04 then x\<lparr>ssi_ctrlr1 := val\<rparr>
      else if offset = 0x08 then
        (let x1 = x\<lparr>ssi_ssienr := val AND 1\<rparr> in
         if ssi_ssienr x1 = 0 then xip_ssi_reset_transaction (xip_ssi_clear_rx_fifo x1) else x1)
      else if offset = 0x10 then x\<lparr>ssi_ser := val AND 1\<rparr>
      else if offset = 0x14 then x\<lparr>ssi_baudr := val AND 0xFFFF\<rparr>
      else if offset = 0x60 then
        (if ssi_ssienr x \<noteq> 0
         then let (rx, x1) = xip_ssi_exchange_byte (ucast val) x in xip_ssi_enqueue_rx rx x1 else x)
      else if offset = 0xF0 then x\<lparr>ssi_rx_sample_dly := val\<rparr>
      else if offset = 0xF4 then x\<lparr>ssi_spi_ctrlr0 := val\<rparr>
      else x)"

section \<open>The receive FIFO\<close>

definition ssi_wf :: "xip_ssi_state \<Rightarrow> bool" where
  "ssi_wf x \<longleftrightarrow> ring_ok 16 (ssi_rx_head x) (ssi_rx_tail x) (ssi_rx_count x)"

definition ssi_received :: "xip_ssi_state \<Rightarrow> u32 list" where
  "ssi_received x = ring_list (ssi_rx_fifo x) 16 (ssi_rx_head x) (ssi_rx_count x)"

interpretation ssi: fifo_queue 16 ssi_wf ssi_received xip_ssi_enqueue_rx xip_ssi_dequeue_rx
proof unfold_locales
  fix x v
  assume x: "ssi_wf x"
  note r = x [unfolded ssi_wf_def]
  show "ssi_wf (xip_ssi_enqueue_rx v x)"
    "ssi_received (xip_ssi_enqueue_rx v x) = take 16 (ssi_received x @ [v])"
    using ring_ok_push [OF r] ring_list_push [OF r] ring_ok_count [OF r] r
    by (auto simp: xip_ssi_enqueue_rx_def ssi_wf_def ssi_received_def)
  show "ssi_wf (snd (xip_ssi_dequeue_rx x))" "ssi_received (snd (xip_ssi_dequeue_rx x)) = tl (ssi_received x)"
    "ssi_received x \<noteq> [] \<Longrightarrow> fst (xip_ssi_dequeue_rx x) = hd (ssi_received x)"
    using ring_ok_pop [OF r] ring_list_pop [OF ring_ok_rd [OF r], of "ssi_rx_count x" "ssi_rx_fifo x"] r
    by (auto simp: xip_ssi_dequeue_rx_def ssi_wf_def ssi_received_def)
  show "length (ssi_received x) \<le> 16"
    using ring_ok_count [OF r] by (simp add: ssi_received_def)
qed

section \<open>Flash commands\<close>

text \<open>The answers of the flash to a list of bytes, one per byte, and the state after them.\<close>

fun ssi_exchange :: "u8 list \<Rightarrow> xip_ssi_state \<Rightarrow> u32 list \<times> xip_ssi_state" where
  "ssi_exchange [] x = ([], x)"
| "ssi_exchange (b # bs) x =
     (let (r, x1) = xip_ssi_exchange_byte b x; (rs, x2) = ssi_exchange bs x1 in (r # rs, x2))"

text \<open>Sending the bytes through the data register, and reading the answers from it.\<close>

definition ssi_send :: "u8 list \<Rightarrow> xip_ssi_state \<Rightarrow> xip_ssi_state" where
  "ssi_send bs x = fold (\<lambda>b. xip_ssi_write 0x60 (ucast b)) bs x"

fun ssi_fetch :: "nat \<Rightarrow> xip_ssi_state \<Rightarrow> u32 list \<times> xip_ssi_state" where
  "ssi_fetch 0 x = ([], x)"
| "ssi_fetch (Suc n) x = (let (v, x1) = xip_ssi_read 0x60 x; (vs, x2) = ssi_fetch n x1 in (v # vs, x2))"

text \<open>The fields of the flash chip, as opposed to those of the FIFO and the interface.\<close>

definition ssi_flash :: "xip_ssi_state \<Rightarrow> bool \<times> u8 \<times> u8 \<times> u8 \<times> u8 \<times> bool" where
  "ssi_flash x = (ssi_transaction_active x, ssi_command x, ssi_phase x, ssi_status_reg1 x,
     ssi_status_reg2 x, ssi_write_enable_latched x)"

lemma exchange_byte_frame:
  "ssi_rx_fifo (snd (xip_ssi_exchange_byte b x)) = ssi_rx_fifo x"
  "ssi_rx_head (snd (xip_ssi_exchange_byte b x)) = ssi_rx_head x"
  "ssi_rx_tail (snd (xip_ssi_exchange_byte b x)) = ssi_rx_tail x"
  "ssi_rx_count (snd (xip_ssi_exchange_byte b x)) = ssi_rx_count x"
  "ssi_ssienr (snd (xip_ssi_exchange_byte b x)) = ssi_ssienr x"
  by (simp_all add: xip_ssi_exchange_byte_def Let_def split_beta xip_ssi_reset_transaction_def)

text \<open>The answer and the flash fields depend on the flash fields alone.\<close>

definition flash_part :: "xip_ssi_state \<Rightarrow> xip_ssi_state \<Rightarrow> xip_ssi_state" where
  "flash_part x y = y\<lparr>ssi_transaction_active := ssi_transaction_active x, ssi_command := ssi_command x,
     ssi_phase := ssi_phase x, ssi_status_reg1 := ssi_status_reg1 x, ssi_status_reg2 := ssi_status_reg2 x,
     ssi_write_enable_latched := ssi_write_enable_latched x\<rparr>"

lemma exchange_flash_part:
  "xip_ssi_exchange_byte b (flash_part x y) =
     (fst (xip_ssi_exchange_byte b x), flash_part (snd (xip_ssi_exchange_byte b x)) y)"
proof -
  let ?c = "if ssi_transaction_active x then ssi_command x else b"
  consider "?c = 0x05" | "?c = 0x35" | "?c = 0x06" | "?c = 0x01" | "?c = 0x4B"
    | "?c \<notin> {0x05, 0x35, 0x06, 0x01, 0x4B}" by blast
  then show ?thesis
    by cases (cases "ssi_transaction_active x";
        simp add: xip_ssi_exchange_byte_def flash_part_def Let_def xip_ssi_reset_transaction_def
          xip_ssi_expected_writes_def)+
qed

lemma flash_part_eq: "ssi_flash x = ssi_flash y \<Longrightarrow> flash_part x y = y"
  by (simp add: ssi_flash_def flash_part_def)

lemma ssi_flash_part [simp]: "ssi_flash (flash_part x y) = ssi_flash x"
  by (simp add: ssi_flash_def flash_part_def)

lemma exchange_byte_flash:
  assumes "ssi_flash x = ssi_flash y"
  shows "fst (xip_ssi_exchange_byte b x) = fst (xip_ssi_exchange_byte b y) \<and>
    ssi_flash (snd (xip_ssi_exchange_byte b x)) = ssi_flash (snd (xip_ssi_exchange_byte b y))"
  using exchange_flash_part [of b x y] unfolding flash_part_eq [OF assms] by simp

lemma enqueue_flash [simp]:
  "ssi_flash (xip_ssi_enqueue_rx v x) = ssi_flash x" "ssi_ssienr (xip_ssi_enqueue_rx v x) = ssi_ssienr x"
  by (simp_all add: ssi_flash_def xip_ssi_enqueue_rx_def)

lemma ssi_send_exchange:
  assumes "ssi_wf x" "ssi_ssienr x \<noteq> 0" "ssi_flash x = ssi_flash y"
  shows "ssi_wf (ssi_send bs x) \<and>
    ssi_received (ssi_send bs x) = take 16 (ssi_received x @ fst (ssi_exchange bs y)) \<and>
    ssi_flash (ssi_send bs x) = ssi_flash (snd (ssi_exchange bs y))"
  using assms
proof (induction bs arbitrary: x y)
  case Nil
  then show ?case using ssi.bounded [of x] by (simp add: ssi_send_def)
next
  case (Cons b bs)
  obtain r x1 where e: "xip_ssi_exchange_byte b x = (r, x1)" by (cases "xip_ssi_exchange_byte b x")
  obtain r' y1 where e': "xip_ssi_exchange_byte b y = (r', y1)" by (cases "xip_ssi_exchange_byte b y")
  have f: "r' = r" "ssi_flash x1 = ssi_flash y1" using exchange_byte_flash [OF Cons.prems(3), of b] by (simp_all add: e e')
  have x1: "ssi_wf x1" "ssi_received x1 = ssi_received x" "ssi_ssienr x1 \<noteq> 0"
    using exchange_byte_frame [of b x] Cons.prems(1,2) by (simp_all add: e ssi_wf_def ssi_received_def)
  have step: "ssi_send (b # bs) x = ssi_send bs (xip_ssi_enqueue_rx r x1)"
    using Cons.prems(2) by (simp add: ssi_send_def xip_ssi_write_def e ucast_down_up)
  have "ssi_wf (xip_ssi_enqueue_rx r x1)" "ssi_ssienr (xip_ssi_enqueue_rx r x1) \<noteq> 0"
    "ssi_flash (xip_ssi_enqueue_rx r x1) = ssi_flash y1"
    using ssi.wf_push [OF x1(1)] x1(3) f(2) by simp_all
  note IH = Cons.IH [OF this]
  have "ssi_received (ssi_send (b # bs) x) = take 16 (take 16 (ssi_received x @ [r]) @ fst (ssi_exchange bs y1))"
    using IH ssi.contents_push [OF x1(1), of r] by (simp add: step x1(2))
  also have "\<dots> = take 16 ((ssi_received x @ [r]) @ fst (ssi_exchange bs y1))"
    by (rule take_take_append)
  finally show ?case using IH by (simp add: step e' f split_beta)
qed

lemma ssi_fetch_received:
  assumes "ssi_wf x" "n \<le> length (ssi_received x)"
  shows "fst (ssi_fetch n x) = take n (ssi_received x)"
  using assms
proof (induction n arbitrary: x)
  case (Suc n)
  then obtain v vs where c: "ssi_received x = v # vs" by (cases "ssi_received x") auto
  have "fst (xip_ssi_dequeue_rx x) = v" "ssi_received (snd (xip_ssi_dequeue_rx x)) = vs"
    using ssi.pop_front [OF Suc.prems(1)] ssi.contents_pop [OF Suc.prems(1)] c by simp_all
  then show ?case
    using Suc.IH [of "snd (xip_ssi_dequeue_rx x)"] ssi.wf_pop [OF Suc.prems(1)] Suc.prems(2) c
    by (simp add: xip_ssi_read_def split_beta)
qed simp

lemma length_ssi_exchange: "length (fst (ssi_exchange bs x)) = length bs"
  by (induction bs arbitrary: x) (simp_all add: split_beta Let_def)

definition ssi_idle :: "xip_ssi_state \<Rightarrow> bool" where
  "ssi_idle x \<longleftrightarrow> ssi_wf x \<and> ssi_ssienr x \<noteq> 0 \<and> \<not> ssi_transaction_active x \<and> ssi_rx_count x = 0"

lemma ssi_command_replies:
  assumes "ssi_idle x" "length bs \<le> 16"
  shows "fst (ssi_fetch (length bs) (ssi_send bs x)) = fst (ssi_exchange bs x) \<and>
    ssi_flash (ssi_send bs x) = ssi_flash (snd (ssi_exchange bs x))"
proof -
  have x: "ssi_wf x" "ssi_ssienr x \<noteq> 0" "ssi_received x = []"
    using assms(1) by (auto simp: ssi_idle_def ssi_received_def)
  have s: "ssi_wf (ssi_send bs x)" "ssi_received (ssi_send bs x) = fst (ssi_exchange bs x)"
    "ssi_flash (ssi_send bs x) = ssi_flash (snd (ssi_exchange bs x))"
    using ssi_send_exchange [OF x(1,2) refl, of bs] x(3) assms(2) by (simp_all add: length_ssi_exchange)
  then show ?thesis using ssi_fetch_received [OF s(1), of "length bs"] by (simp add: length_ssi_exchange)
qed

lemma unique_id_step:
  assumes "ssi_transaction_active x" "ssi_command x = FLASH_CMD_READ_UNIQUE_ID" "ssi_phase x = of_nat n" "n < 13"
  shows "xip_ssi_exchange_byte b x = (if 5 \<le> n then ucast (xip_ssi_unique_id ! (n - 5)) else 0,
    if n = 12 then xip_ssi_reset_transaction x else x\<lparr>ssi_phase := of_nat (Suc n)\<rparr>)"
proof -
  have n: "unat (of_nat n :: u8) = n" using assms(4) by (intro unat_of_nat_lt) simp
  have "n \<in> {0, 1, 2, 3, 4, 5, 6, 7, 8, 9, 10, 11, 12}" using assms(4) unfolding insert_iff empty_iff by arith
  then show ?thesis
    using assms(1,2,3)
    by (elim insertE emptyE; simp add: xip_ssi_exchange_byte_def Let_def xip_ssi_expected_writes_def
        word_le_nat_alt word_less_nat_alt xip_ssi_reset_transaction_def)
qed

lemma unique_id_tail:
  assumes "ssi_transaction_active x" "ssi_command x = FLASH_CMD_READ_UNIQUE_ID" "ssi_phase x = of_nat n"
    "n + length ds = 13" "ds \<noteq> []"
  shows "fst (ssi_exchange ds x) = map (\<lambda>i. if 5 \<le> i then ucast (xip_ssi_unique_id ! (i - 5)) else 0) [n..<13] \<and>
    \<not> ssi_transaction_active (snd (ssi_exchange ds x))"
  using assms
proof (induction ds arbitrary: n x)
  case (Cons d ds)
  have n: "n < 13" using Cons.prems(4) by simp
  have u: "[n..<13] = n # [Suc n..<13]" using n by (simp add: upt_conv_Cons)
  note st = unique_id_step [OF Cons.prems(1,2,3) n, of d]
  show ?case
  proof (cases "ds = []")
    case True
    then have "n = 12" using Cons.prems(4) by simp
    then show ?thesis using True st by (simp add: u xip_ssi_reset_transaction_def split_beta)
  next
    case False
    then have "n \<noteq> 12" using Cons.prems(4) by auto
    then show ?thesis
      using Cons.IH [of "x\<lparr>ssi_phase := of_nat (Suc n)\<rparr>" "Suc n"] Cons.prems False st
      by (simp add: u split_beta Let_def)
  qed
qed simp

text \<open>Reading the unique id of the flash: the command byte and twelve further bytes, whatever
  they are, are answered by five zero bytes and the eight bytes of the id, in order, and the flash
  is ready for the next command.\<close>

theorem flash_unique_id:
  assumes "ssi_idle x" "length dummies = 12"
  shows "fst (ssi_fetch 13 (ssi_send (FLASH_CMD_READ_UNIQUE_ID # dummies) x)) =
      replicate 5 0 @ map ucast xip_ssi_unique_id \<and>
    \<not> ssi_transaction_active (ssi_send (FLASH_CMD_READ_UNIQUE_ID # dummies) x)"
proof -
  let ?x1 = "x\<lparr>ssi_transaction_active := True, ssi_command := FLASH_CMD_READ_UNIQUE_ID, ssi_phase := 1\<rparr>"
  have first: "xip_ssi_exchange_byte FLASH_CMD_READ_UNIQUE_ID x = (0, ?x1)"
    using assms(1) by (simp add: ssi_idle_def xip_ssi_exchange_byte_def Let_def xip_ssi_expected_writes_def
        word_le_nat_alt word_less_nat_alt)
  have "fst (ssi_exchange dummies ?x1) = map (\<lambda>i. if 5 \<le> i then ucast (xip_ssi_unique_id ! (i - 5)) else 0) [1..<13] \<and>
      \<not> ssi_transaction_active (snd (ssi_exchange dummies ?x1))"
    using assms(2) by (intro unique_id_tail) auto
  moreover have "(0 :: u32) # map (\<lambda>i. if 5 \<le> i then ucast (xip_ssi_unique_id ! (i - 5)) else 0) [1..<13] =
      replicate 5 0 @ map ucast xip_ssi_unique_id"
    by (simp add: upt_rec xip_ssi_unique_id_def numeral_eq_Suc)
  ultimately have e: "fst (ssi_exchange (FLASH_CMD_READ_UNIQUE_ID # dummies) x) =
        replicate 5 0 @ map ucast xip_ssi_unique_id"
    "\<not> ssi_transaction_active (snd (ssi_exchange (FLASH_CMD_READ_UNIQUE_ID # dummies) x))"
    by (simp_all add: first split_beta)
  show ?thesis
    using ssi_command_replies [OF assms(1), of "FLASH_CMD_READ_UNIQUE_ID # dummies"] assms(2) e
    by (simp add: ssi_flash_def)
qed

lemma ssi_boot_idle: "ssi_idle xip_ssi_boot"
  by (simp add: ssi_idle_def ssi_wf_def xip_ssi_boot_def)

theorem flash_unique_id_witness:
  "fst (ssi_fetch 13 (ssi_send (FLASH_CMD_READ_UNIQUE_ID # replicate 12 0) xip_ssi_boot)) =
     replicate 5 0 @ map ucast xip_ssi_unique_id"
proof -
  have "length (replicate 12 (0 :: u8)) = 12" by simp
  from flash_unique_id [OF ssi_boot_idle this] show ?thesis by blast
qed

text \<open>The status registers of the flash are write protected: a write-status command changes them
  only after a write-enable command, and uses the permission up; without it nothing changes.\<close>

theorem flash_status_write_guarded:
  assumes "ssi_idle x"
  shows "ssi_flash (ssi_send [FLASH_CMD_WRITE_STATUS, s1, s2] x) =
      (False, 0, 0,
       if ssi_write_enable_latched x then s1 else ssi_status_reg1 x,
       if ssi_write_enable_latched x then s2 else ssi_status_reg2 x, False) \<and>
    ssi_flash (ssi_send [FLASH_CMD_WRITE_ENABLE, FLASH_CMD_WRITE_STATUS, s1, s2] x) = (False, 0, 0, s1, s2, False) \<and>
    fst (ssi_fetch 6 (ssi_send [FLASH_CMD_WRITE_ENABLE, FLASH_CMD_WRITE_STATUS, s1, s2, FLASH_CMD_READ_STATUS2, d] x)) =
      [0, 0, 0, 0, 0, ucast s2]"
proof -
  have idle: "\<not> ssi_transaction_active x" using assms by (simp add: ssi_idle_def)
  note s = xip_ssi_exchange_byte_def Let_def xip_ssi_expected_writes_def word_le_nat_alt word_less_nat_alt
    xip_ssi_reset_transaction_def
  have "ssi_flash (snd (ssi_exchange [FLASH_CMD_WRITE_STATUS, s1, s2] x)) =
      (False, 0, 0,
       if ssi_write_enable_latched x then s1 else ssi_status_reg1 x,
       if ssi_write_enable_latched x then s2 else ssi_status_reg2 x, False)"
    using idle by (simp add: s ssi_flash_def)
  moreover have "ssi_flash (snd (ssi_exchange [FLASH_CMD_WRITE_ENABLE, FLASH_CMD_WRITE_STATUS, s1, s2] x)) =
      (False, 0, 0, s1, s2, False)"
    using idle by (simp add: s ssi_flash_def)
  moreover have "fst (ssi_exchange [FLASH_CMD_WRITE_ENABLE, FLASH_CMD_WRITE_STATUS, s1, s2, FLASH_CMD_READ_STATUS2, d] x) =
      [0, 0, 0, 0, 0, ucast s2]"
    using idle by (simp add: s)
  ultimately show ?thesis
    using ssi_command_replies [OF assms, of "[FLASH_CMD_WRITE_STATUS, s1, s2]"]
      ssi_command_replies [OF assms, of "[FLASH_CMD_WRITE_ENABLE, FLASH_CMD_WRITE_STATUS, s1, s2]"]
      ssi_command_replies [OF assms, of "[FLASH_CMD_WRITE_ENABLE, FLASH_CMD_WRITE_STATUS, s1, s2, FLASH_CMD_READ_STATUS2, d]"]
    by (simp add: numeral_eq_Suc)
qed

theorem flash_status_write_guarded_witness:
  "ssi_flash (ssi_send [FLASH_CMD_WRITE_STATUS, 0x12, 0x34] xip_ssi_boot) = (False, 0, 0, 0, 2, False)"
  using flash_status_write_guarded [OF ssi_boot_idle, of "0x12" "0x34" 0] by (simp add: xip_ssi_boot_def)

end
