(* ===== verification/Adc.thy ===== *)
theory Adc
  imports Nvic
begin

unbundle bit_operations_syntax

text \<open>
  The analog-to-digital converter of \<^verbatim>\<open>src/adc.c\<close>: the input multiplexer with its round robin, the
  conversions and the sample FIFO, whose depth is 4 on the RP2040 and 8 on the RP2350. The FIFO is
  an instance of the bounded queue of the prelude.
\<close>

section \<open>State and operations\<close>

record adc_state =
  adc_cs :: u32
  adc_fcs :: u32
  adc_div :: u32
  adc_intr :: u32
  adc_inte :: u32
  adc_channel_values :: "nat \<Rightarrow> u16"
  adc_fifo_depth :: nat
  adc_fifo :: "nat \<Rightarrow> u16"
  adc_fifo_rd :: nat
  adc_fifo_wr :: nat
  adc_fifo_count :: nat
  adc_fifo_under :: bool
  adc_fifo_over :: bool

definition adc_reset :: "bool \<Rightarrow> adc_state" where
  "adc_reset rp2350 = \<lparr>adc_cs = 0, adc_fcs = 0, adc_div = 0, adc_intr = 0, adc_inte = 0,
     adc_channel_values = (\<lambda>i. if i = 4 \<or> i = 8 then 0x036C else 0),
     adc_fifo_depth = (if rp2350 then 8 else 4), adc_fifo = (\<lambda>_. 0), adc_fifo_rd = 0, adc_fifo_wr = 0,
     adc_fifo_count = 0, adc_fifo_under = False, adc_fifo_over = False\<rparr>"

definition adc_set_channel_value :: "u8 \<Rightarrow> u16 \<Rightarrow> adc_state \<Rightarrow> adc_state" where
  "adc_set_channel_value channel val a =
     (if channel < 9
      then a\<lparr>adc_channel_values := (adc_channel_values a)(unat channel := val AND 0x0FFF)\<rparr> else a)"

definition adc_depth :: "adc_state \<Rightarrow> nat" where
  "adc_depth a = (if adc_fifo_depth a \<noteq> 0 then adc_fifo_depth a else 4)"

definition adc_fifo_push :: "u16 \<Rightarrow> adc_state \<Rightarrow> bool \<times> adc_state" where
  "adc_fifo_push val a =
     (if adc_fifo_count a \<ge> adc_depth a then (False, a\<lparr>adc_fifo_over := True\<rparr>)
      else (True, a\<lparr>adc_fifo := (adc_fifo a)(adc_fifo_wr a := val),
              adc_fifo_wr := (adc_fifo_wr a + 1) mod 8, adc_fifo_count := adc_fifo_count a + 1\<rparr>))"

definition adc_fifo_pop :: "adc_state \<Rightarrow> u16 \<times> adc_state" where
  "adc_fifo_pop a =
     (if adc_fifo_count a = 0 then (0, a\<lparr>adc_fifo_under := True\<rparr>)
      else (adc_fifo a (adc_fifo_rd a),
            a\<lparr>adc_fifo_rd := (adc_fifo_rd a + 1) mod 8, adc_fifo_count := adc_fifo_count a - 1\<rparr>))"

definition adc_ainsel :: "adc_state \<Rightarrow> nat" where
  "adc_ainsel a = unat (shr (adc_cs a AND 0xF000) 12)"

definition adc_rrobin :: "adc_state \<Rightarrow> u32" where
  "adc_rrobin a = shr (adc_cs a AND 0x1FF0000) 16"

definition adc_rrobin_advance :: "adc_state \<Rightarrow> adc_state" where
  "adc_rrobin_advance a =
     (if adc_rrobin a = 0 then a
      else case find (\<lambda>i. bit (adc_rrobin a) ((adc_ainsel a + i) mod 9)) [1..<10] of
        Some i \<Rightarrow> a\<lparr>adc_cs := (adc_cs a AND NOT 0xF000) OR shl (of_nat ((adc_ainsel a + i) mod 9)) 12\<rparr>
      | None \<Rightarrow> a)"

definition adc_value :: "adc_state \<Rightarrow> u16" where
  "adc_value a = (if adc_ainsel a < 9 then adc_channel_values a (adc_ainsel a) AND 0x0FFF else 0)"

definition adc_thresh :: "adc_state \<Rightarrow> nat" where
  "adc_thresh a =
     (let t = shr (adc_fcs a AND 0xF000000) 24
      in unat (if t = 0 then shr (adc_fcs a AND 0x78000000) 27 else t))"

definition adc_do_conversion :: "adc_state \<times> nvic_ctx \<Rightarrow> adc_state \<times> nvic_ctx" where
  "adc_do_conversion s =
     (let (a, nv) = s;
          result = adc_value a;
          a1 = (if adc_fcs a AND 1 \<noteq> 0
                then snd (adc_fifo_push (if adc_fcs a AND 2 \<noteq> 0 then shr result 4 AND 0xFF else result) a)
                else a);
          (a2, nv2) = (if adc_fifo_count a1 \<ge> adc_thresh a1 \<and> adc_thresh a1 > 0
                       then (a1\<lparr>adc_intr := adc_intr a1 OR 1\<rparr>,
                             if adc_inte a1 AND 1 \<noteq> 0 then nvic_signal_rp2350_irq 22 nv else nv)
                       else (a1, nv))
      in (adc_rrobin_advance a2, nv2))"

definition adc_fcs_read :: "adc_state \<Rightarrow> u32" where
  "adc_fcs_read a =
     (adc_fcs a AND 0x7F00000F) OR cond_mask (adc_fifo_count a = 0) 0x100 OR
     cond_mask (adc_fifo_count a \<ge> adc_depth a) 0x200 OR cond_mask (adc_fifo_under a) 0x400 OR
     cond_mask (adc_fifo_over a) 0x800 OR (shl (of_nat (adc_fifo_count a)) 16 AND 0xF0000)"

definition adc_read32 :: "u32 \<Rightarrow> adc_state \<Rightarrow> u32 \<times> adc_state" where
  "adc_read32 addr a =
     (let offset = addr AND 0xFFF in
      if offset = 0x00 then ((adc_cs a AND NOT 0x100) OR 0x100, a)
      else if offset = 0x04 then
        (if adc_ainsel a < 9 then ucast (adc_channel_values a (adc_ainsel a)) else 0, a)
      else if offset = 0x08 then (adc_fcs_read a, a)
      else if offset = 0x0C then
        (if adc_fifo_count a > 0 then let (v, a1) = adc_fifo_pop a in (ucast v, a1)
         else (0, a\<lparr>adc_fifo_under := True\<rparr>))
      else if offset = 0x10 then (adc_div a, a)
      else if offset = 0x14 then (adc_intr a, a)
      else if offset = 0x18 then (adc_inte a, a)
      else if offset = 0x20 then (adc_intr a AND adc_inte a, a)
      else (0, a))"

text \<open>The converter decodes the atomic aliases itself.\<close>

definition adc_alias :: "u32 \<Rightarrow> u32 \<Rightarrow> u32 \<Rightarrow> u32" where
  "adc_alias addr old val =
     (let al = shr (addr - (addr AND NOT 0x3FFF)) 12 AND 3 in
      if al = 0 then val else if al = 1 then old XOR val else if al = 2 then old OR val else old AND NOT val)"

definition adc_write_cs :: "u32 \<Rightarrow> adc_state \<times> nvic_ctx \<Rightarrow> adc_state \<times> nvic_ctx" where
  "adc_write_cs new_cs s =
     (let (a, nv) = s; a1 = a\<lparr>adc_cs := new_cs AND 0x1FFF00F\<rparr> in
      if adc_cs a1 AND 4 \<noteq> 0
      then let (a2, nv2) = adc_do_conversion (a1, nv) in (a2\<lparr>adc_cs := adc_cs a2 AND NOT 4\<rparr>, nv2)
      else (a1, nv))"

definition adc_write32 :: "u32 \<Rightarrow> u32 \<Rightarrow> adc_state \<times> nvic_ctx \<Rightarrow> adc_state \<times> nvic_ctx" where
  "adc_write32 addr val s =
     (let (a, nv) = s; offset = addr AND 0xFFF in
      if offset = 0x00 then adc_write_cs (adc_alias addr (adc_cs a) val) (a, nv)
      else if offset = 0x08 then
        (a\<lparr>adc_fcs := adc_alias addr (adc_fcs a) val AND 0x7F00000F,
           adc_fifo_under := (if val AND 0x400 \<noteq> 0 then False else adc_fifo_under a),
           adc_fifo_over := (if val AND 0x800 \<noteq> 0 then False else adc_fifo_over a)\<rparr>, nv)
      else if offset = 0x10 then (a\<lparr>adc_div := adc_alias addr (adc_div a) val\<rparr>, nv)
      else if offset = 0x18 then (a\<lparr>adc_inte := adc_alias addr (adc_inte a) val\<rparr>, nv)
      else (a, nv))"

section \<open>The sample FIFO\<close>

definition adc_wf :: "nat \<Rightarrow> adc_state \<Rightarrow> bool" where
  "adc_wf d a \<longleftrightarrow> adc_depth a = d \<and> d \<le> 8 \<and> adc_fifo_count a \<le> d \<and>
     ring_ok 8 (adc_fifo_rd a) (adc_fifo_wr a) (adc_fifo_count a)"

definition adc_samples :: "adc_state \<Rightarrow> u16 list" where
  "adc_samples a = ring_list (adc_fifo a) 8 (adc_fifo_rd a) (adc_fifo_count a)"

lemma adc_wf_reset: "adc_wf (if rp2350 then 8 else 4) (adc_reset rp2350)"
  by (simp add: adc_wf_def adc_reset_def adc_depth_def)

interpretation adcq: fifo_queue d "adc_wf d" adc_samples "\<lambda>v a. snd (adc_fifo_push v a)" adc_fifo_pop for d
proof unfold_locales
  fix a v
  assume a: "adc_wf d a"
  then have r: "ring_ok 8 (adc_fifo_rd a) (adc_fifo_wr a) (adc_fifo_count a)" by (simp add: adc_wf_def)
  show "adc_wf d (snd (adc_fifo_push v a))" "adc_samples (snd (adc_fifo_push v a)) = take d (adc_samples a @ [v])"
    using ring_ok_push [OF r] ring_list_push [OF r] a
    by (auto simp: adc_fifo_push_def adc_wf_def adc_samples_def adc_depth_def)
  show "length (adc_samples a) \<le> d" using a by (simp add: adc_samples_def adc_wf_def)
  show "adc_wf d (snd (adc_fifo_pop a))" "adc_samples (snd (adc_fifo_pop a)) = tl (adc_samples a)"
    using ring_ok_pop [OF r] ring_list_pop [OF ring_ok_rd [OF r], of "adc_fifo_count a" "adc_fifo a"] a
    by (auto simp: adc_fifo_pop_def adc_wf_def adc_samples_def adc_depth_def)
  show "fst (adc_fifo_pop a) = hd (adc_samples a)" if "adc_samples a \<noteq> []"
    using that ring_list_pop [OF ring_ok_rd [OF r], of "adc_fifo_count a" "adc_fifo a"]
    by (auto simp: adc_fifo_pop_def adc_samples_def)
qed

section \<open>Conversions\<close>


lemma replace_field:
  "(x AND NOT m OR k) AND m = k AND m" "m AND n = 0 \<Longrightarrow> (x AND NOT m OR k) AND n = (x OR k) AND n"
  for x m k n :: u32
proof -
  show "(x AND NOT m OR k) AND m = k AND m" by (rule bit_word_eqI) (auto simp: bit_simps)
  show "(x AND NOT m OR k) AND n = (x OR k) AND n" if "m AND n = 0"
  proof (rule bit_word_eqI)
    fix i assume "i < LENGTH(32)"
    moreover have "\<not> (bit m i \<and> bit n i)" using that bit_and_iff [of m n i] by simp
    ultimately show "bit ((x AND NOT m OR k) AND n) i = bit ((x OR k) AND n) i"
      by (auto simp: bit_simps)
  qed
qed

lemma ainsel_set:
  assumes "n < 9"
  shows "adc_ainsel (a\<lparr>adc_cs := (c AND NOT 0xF000) OR shl (of_nat n) 12\<rparr>) = n"
    "adc_rrobin (a\<lparr>adc_cs := (c AND NOT 0xF000) OR shl (of_nat n) 12\<rparr>) = shr (c AND 0x1FF0000) 16"
proof -
  have cs_upd: "adc_cs (a\<lparr>adc_cs := x\<rparr>) = x" for x by simp
  have n: "n \<in> {0, 1, 2, 3, 4, 5, 6, 7, 8}" using assms unfolding insert_iff empty_iff by arith
  have "adc_ainsel (a\<lparr>adc_cs := (c AND NOT 0xF000) OR shl (of_nat n) 12\<rparr>) = unat (shr (shl (of_nat n :: u32) 12 AND 0xF000) 12)"
    using replace_field(1) [of c "0xF000" "shl (of_nat n) 12"] by (simp only: adc_ainsel_def cs_upd)
  then show "adc_ainsel (a\<lparr>adc_cs := (c AND NOT 0xF000) OR shl (of_nat n) 12\<rparr>) = n" using n by auto
  have "shl (of_nat n :: u32) 12 AND 0x1FF0000 = 0" using n by auto
  then have "(c AND NOT 0xF000 OR shl (of_nat n) 12) AND 0x1FF0000 = c AND 0x1FF0000"
    using replace_field(2) [of "0xF000" "0x1FF0000" c "shl (of_nat n) 12"]
    by (simp only: bit.conj_disj_distrib2) simp
  then show "adc_rrobin (a\<lparr>adc_cs := (c AND NOT 0xF000) OR shl (of_nat n) 12\<rparr>) = shr (c AND 0x1FF0000) 16"
    by (simp only: adc_rrobin_def cs_upd)
qed

text \<open>The input that a conversion selects next: the first enabled one after the current input.\<close>

definition next_enabled :: "u32 \<Rightarrow> nat \<Rightarrow> nat \<Rightarrow> bool" where
  "next_enabled rr c c' \<longleftrightarrow>
     (if rr = 0 then c' = c
      else bit rr c' \<and> c' < 9 \<and> (\<exists>i \<in> {1..9}. c' = (c + i) mod 9 \<and> (\<forall>j \<in> {1..<i}. \<not> bit rr ((c + j) mod 9))))"

lemma rrobin_take_bit: "adc_rrobin a = take_bit 9 (shr (adc_cs a) 16)"
proof -
  have e: "(0x1FF0000 :: u32) = push_bit 16 (mask 9)" by (simp add: mask_eq_exp_minus_1)
  show ?thesis unfolding adc_rrobin_def e by (rule bit_word_eqI) (auto simp: bit_simps)
qed

lemma rrobin_some_bit:
  assumes "adc_rrobin a \<noteq> 0"
  obtains k where "k < 9" "bit (adc_rrobin a) k"
  using assms bit_eq_iff [of "adc_rrobin a" 0] by (auto simp: rrobin_take_bit bit_take_bit_iff)

lemma rrobin_advance_next:
  "next_enabled (adc_rrobin a) (adc_ainsel a) (adc_ainsel (adc_rrobin_advance a))"
  "adc_rrobin (adc_rrobin_advance a) = adc_rrobin a"
proof -
  let ?P = "\<lambda>i. bit (adc_rrobin a) ((adc_ainsel a + i) mod 9)"
  have "next_enabled (adc_rrobin a) (adc_ainsel a) (adc_ainsel (adc_rrobin_advance a)) \<and>
      adc_rrobin (adc_rrobin_advance a) = adc_rrobin a"
  proof (cases "adc_rrobin a = 0")
    case True
    then show ?thesis by (simp add: next_enabled_def adc_rrobin_advance_def)
  next
    case False
    then obtain k where k: "k < 9" "bit (adc_rrobin a) k" by (rule rrobin_some_bit)
    let ?i = "(k + 8 * (adc_ainsel a + 1)) mod 9 + 1"
    have "(adc_ainsel a + ?i) mod 9 = (adc_ainsel a + 1 + (k + 8 * (adc_ainsel a + 1)) mod 9) mod 9"
      by (simp add: ac_simps)
    also have "\<dots> = (adc_ainsel a + 1 + (k + 8 * (adc_ainsel a + 1))) mod 9" by (rule mod_add_right_eq)
    also have "\<dots> = (k + 9 * (adc_ainsel a + 1)) mod 9" by (simp add: algebra_simps)
    also have "\<dots> = k" using k(1) by (simp only: mod_mult_self2 mod_less)
    finally have "?P ?i" using k(2) by (simp only:)
    moreover have "?i \<in> {1..9}" by (simp add: Suc_le_eq less_Suc_eq_le [symmetric])
    ultimately have "\<exists>i \<in> {1..9}. ?P i" by blast
    moreover have "set [1..<10] = {1..9 :: nat}" by auto
    ultimately have "find ?P [1..<10] \<noteq> None" unfolding find_None_iff by blast
    then obtain i where i: "find ?P [1..<10] = Some i" by auto
    then obtain m where m: "m < 9" "?P i" "i = m + 1" "\<And>j. j < m \<Longrightarrow> \<not> ?P (j + 1)"
      unfolding find_Some_iff by (auto simp: nth_append)
    have "\<forall>j \<in> {1..<i}. \<not> ?P j"
    proof
      fix j assume "j \<in> {1..<i}"
      then obtain j' where "j = j' + 1" "j' < m" using m(3) by (cases j) auto
      then show "\<not> ?P j" using m(4) by simp
    qed
    moreover have "adc_rrobin_advance a =
        a\<lparr>adc_cs := (adc_cs a AND NOT 0xF000) OR shl (of_nat ((adc_ainsel a + i) mod 9)) 12\<rparr>"
      using False i by (simp add: adc_rrobin_advance_def)
    moreover have "(adc_ainsel a + i) mod 9 < 9" by simp
    moreover have "i \<in> {1..9}" using m(1,3) by simp
    ultimately show ?thesis
      unfolding next_enabled_def using False m(2) by (simp only: ainsel_set if_False adc_rrobin_def [symmetric]) blast
  qed
  then show "next_enabled (adc_rrobin a) (adc_ainsel a) (adc_ainsel (adc_rrobin_advance a))"
    "adc_rrobin (adc_rrobin_advance a) = adc_rrobin a" by auto
qed

lemma conversion_fifo:
  assumes "adc_wf d a" "adc_fcs a AND 1 \<noteq> 0" "adc_fcs a AND 2 = 0"
  shows "let a' = fst (adc_do_conversion (a, nv)) in
    adc_wf d a' \<and> adc_samples a' = take d (adc_samples a @ [adc_value a]) \<and> adc_fcs a' = adc_fcs a \<and>
    adc_channel_values a' = adc_channel_values a \<and> adc_rrobin a' = adc_rrobin a \<and>
    next_enabled (adc_rrobin a) (adc_ainsel a) (adc_ainsel a')"
proof -
  let ?a1 = "snd (adc_fifo_push (adc_value a) a)"
  define a2 where "a2 = (if adc_fifo_count ?a1 \<ge> adc_thresh ?a1 \<and> adc_thresh ?a1 > 0
    then ?a1\<lparr>adc_intr := adc_intr ?a1 OR 1\<rparr> else ?a1)"
  have a': "fst (adc_do_conversion (a, nv)) = adc_rrobin_advance a2"
    using assms(2,3) by (simp add: adc_do_conversion_def a2_def Let_def split_beta)
  have frame: "adc_wf d (adc_rrobin_advance x) \<longleftrightarrow> adc_wf d x" "adc_samples (adc_rrobin_advance x) = adc_samples x"
    "adc_fcs (adc_rrobin_advance x) = adc_fcs x" "adc_channel_values (adc_rrobin_advance x) = adc_channel_values x"
    for x by (auto simp: adc_rrobin_advance_def adc_wf_def adc_samples_def adc_depth_def split: option.splits)
  have a2: "adc_wf d a2 \<longleftrightarrow> adc_wf d ?a1" "adc_samples a2 = adc_samples ?a1" "adc_fcs a2 = adc_fcs a"
    "adc_channel_values a2 = adc_channel_values a" "adc_rrobin a2 = adc_rrobin a" "adc_ainsel a2 = adc_ainsel a"
    by (auto simp: a2_def adc_fifo_push_def adc_wf_def adc_samples_def adc_depth_def adc_rrobin_def adc_ainsel_def)
  show ?thesis
    unfolding a' Let_def frame a2 using rrobin_advance_next [of a2, unfolded a2]
      adcq.wf_push [OF assms(1), of "adc_value a"] adcq.contents_push [OF assms(1), of "adc_value a"]
    by simp
qed

text \<open>The state after a number of conversions.\<close>

definition adc_after :: "adc_state \<times> nvic_ctx \<Rightarrow> nat \<Rightarrow> adc_state" where
  "adc_after s n = fst ((adc_do_conversion ^^ n) s)"

text \<open>A run of conversions samples the inputs in round-robin order into the FIFO: the FIFO then
  holds the samples that fit, in order, each the value of the input selected at its turn, and every
  turn selects the first enabled input after the last one, or stays where it is when no round
  robin is programmed.\<close>

theorem adc_samples_round_robin:
  assumes "adc_wf d a" "adc_fcs a AND 1 \<noteq> 0" "adc_fcs a AND 2 = 0"
  shows "let st = adc_after (a, nv) in
    adc_samples (st n) = take d (adc_samples a @ map (\<lambda>i. adc_value (st i)) [0..<n]) \<and>
    (\<forall>i < n. next_enabled (adc_rrobin a) (adc_ainsel (st i)) (adc_ainsel (st (Suc i))))"
proof -
  define st where "st = adc_after (a, nv)"
  have "adc_wf d (st n) \<and> adc_fcs (st n) = adc_fcs a \<and> adc_rrobin (st n) = adc_rrobin a \<and>
    adc_samples (st n) = take d (adc_samples a @ map (\<lambda>i. adc_value (st i)) [0..<n]) \<and>
    (\<forall>i < n. next_enabled (adc_rrobin a) (adc_ainsel (st i)) (adc_ainsel (st (Suc i))))"
  proof (induction n)
    case 0
    then show ?case using assms(1) adcq.bounded [OF assms(1)] by (simp add: st_def adc_after_def)
  next
    case (Suc n)
    obtain nv' where s: "(adc_do_conversion ^^ n) (a, nv) = (st n, nv')"
      unfolding st_def adc_after_def by (cases "(adc_do_conversion ^^ n) (a, nv)") simp
    have "st (Suc n) = fst (adc_do_conversion ((adc_do_conversion ^^ n) (a, nv)))"
      by (simp add: st_def adc_after_def)
    then have st': "st (Suc n) = fst (adc_do_conversion (st n, nv'))" by (simp only: s)
    have w: "adc_wf d (st n)" "adc_fcs (st n) AND 1 \<noteq> 0" "adc_fcs (st n) AND 2 = 0"
      using Suc.IH assms(2,3) by simp_all
    note c = conversion_fifo [OF w, of nv', unfolded Let_def, folded st']
    have "take d (take d xs @ [v]) = take d (xs @ [v])" for xs and v :: u16 by (simp add: min_def)
    moreover have "map (\<lambda>i. adc_value (st i)) [0..<Suc n] = map (\<lambda>i. adc_value (st i)) [0..<n] @ [adc_value (st n)]"
      by simp
    ultimately have "adc_samples (st (Suc n)) = take d (adc_samples a @ map (\<lambda>i. adc_value (st i)) [0..<Suc n])"
      using c Suc.IH by (simp only: append.assoc [symmetric])
    moreover have "next_enabled (adc_rrobin a) (adc_ainsel (st i)) (adc_ainsel (st (Suc i)))" if "i < Suc n" for i
      using c Suc.IH that by (cases "i = n") simp_all
    moreover have "adc_wf d (st (Suc n))" "adc_fcs (st (Suc n)) = adc_fcs a" "adc_rrobin (st (Suc n)) = adc_rrobin a"
      using c Suc.IH by simp_all
    ultimately show ?case by blast
  qed
  then show ?thesis unfolding Let_def st_def by blast
qed

definition adc_demo :: adc_state where
  "adc_demo = (adc_reset False)\<lparr>adc_cs := 0x110000, adc_fcs := 1\<rparr>"

theorem adc_samples_witness:
  "adc_samples (adc_after (adc_demo, nvic_boot) 5) =
     take 4 (map (\<lambda>i. adc_value (adc_after (adc_demo, nvic_boot) i)) [0..<5])"
proof -
  have "adc_wf 4 adc_demo" by (simp add: adc_demo_def adc_wf_def adc_reset_def adc_depth_def)
  moreover have "adc_fcs adc_demo AND 1 \<noteq> 0" "adc_fcs adc_demo AND 2 = 0" by (simp_all add: adc_demo_def)
  moreover have "adc_samples adc_demo = []" by (simp add: adc_demo_def adc_samples_def adc_reset_def)
  ultimately show ?thesis
    using adc_samples_round_robin [of 4 adc_demo nvic_boot 5] by (simp add: Let_def)
qed

end
