(* ===== verification/Pwm.thy ===== *)
theory Pwm
  imports Nvic
begin

unbundle bit_operations_syntax

text \<open>
  The pulse-width modulator of \<^verbatim>\<open>src/pwm.c\<close>: the registers of its slices (8 on the RP2040, 12 on the
  RP2350) and its interrupt lines. The two chips put the global registers at different offsets, so
  the layout depends on the mode.
\<close>

section \<open>State and operations\<close>

record pwm_slice =
  sl_csr :: u32
  sl_div :: u32
  sl_ctr :: u32
  sl_cc :: u32
  sl_top :: u32

record pwm_state =
  pw_slice :: "nat \<Rightarrow> pwm_slice"
  pw_en :: u32
  pw_intr :: u32
  pw_inte :: u32
  pw_intf :: u32
  pw_inte1 :: u32
  pw_intf1 :: u32

definition pwm_nslices :: "bool \<Rightarrow> nat" where
  "pwm_nslices rp2350 = (if rp2350 then 12 else 8)"

definition pwm_init :: pwm_state where
  "pwm_init = \<lparr>pw_slice = (\<lambda>_. \<lparr>sl_csr = 0, sl_div = 0x10, sl_ctr = 0, sl_cc = 0, sl_top = 0xFFFF\<rparr>),
     pw_en = 0, pw_intr = 0, pw_inte = 0, pw_intf = 0, pw_inte1 = 0, pw_intf1 = 0\<rparr>"

definition pwm_match :: "bool \<Rightarrow> u32 \<Rightarrow> bool" where
  "pwm_match rp2350 addr \<longleftrightarrow>
     (let b = addr AND NOT 0x3000 in
      in_block b 0x40050000 0x1000 \<or> rp2350 \<and> in_block b 0x400A8000 0x1000)"

definition pwm_in_slice :: "bool \<Rightarrow> u32 \<Rightarrow> bool" where
  "pwm_in_slice rp2350 offset \<longleftrightarrow> offset < of_nat (pwm_nslices rp2350 * 0x14)"

definition slice_read :: "u32 \<Rightarrow> pwm_slice \<Rightarrow> u32" where
  "slice_read rg s =
     (if rg = 0x00 then sl_csr s else if rg = 0x04 then sl_div s else if rg = 0x08 then sl_ctr s
      else if rg = 0x0C then sl_cc s else if rg = 0x10 then sl_top s else 0)"

definition slice_write :: "u32 \<Rightarrow> u32 \<Rightarrow> pwm_slice \<Rightarrow> pwm_slice" where
  "slice_write rg val s =
     (if rg = 0x00 then s\<lparr>sl_csr := val AND 0xFF\<rparr>
      else if rg = 0x04 then s\<lparr>sl_div := val AND 0x0FFF\<rparr>
      else if rg = 0x08 then s\<lparr>sl_ctr := val AND 0xFFFF\<rparr>
      else if rg = 0x0C then s\<lparr>sl_cc := val\<rparr>
      else if rg = 0x10 then s\<lparr>sl_top := val AND 0xFFFF\<rparr>
      else s)"

text \<open>What is active on the two interrupt lines.\<close>

definition pwm_ints :: "pwm_state \<Rightarrow> u32" where
  "pwm_ints p = (pw_intr p OR pw_intf p) AND pw_inte p"

definition pwm_ints1 :: "pwm_state \<Rightarrow> u32" where
  "pwm_ints1 p = (pw_intr p OR pw_intf1 p) AND pw_inte1 p"

definition pwm_read32 :: "bool \<Rightarrow> u32 \<Rightarrow> pwm_state \<Rightarrow> u32" where
  "pwm_read32 rp2350 offset p =
     (if pwm_in_slice rp2350 offset then slice_read (offset mod 0x14) (pw_slice p (unat (offset div 0x14)))
      else if offset = 0xF0 then pw_en p
      else if offset = 0xF4 then pw_intr p
      else if offset = 0xF8 then pw_inte p
      else if offset = 0xFC then pw_intf p
      else if offset = 0x100 then pwm_ints p
      else if offset = 0x104 then pw_inte1 p
      else if offset = 0x108 then pw_intf1 p
      else if offset = 0x10C then pwm_ints1 p
      else if \<not> rp2350 \<and> offset = 0xA0 then pw_en p
      else if \<not> rp2350 \<and> offset = 0xA4 then pw_intr p
      else if \<not> rp2350 \<and> offset = 0xA8 then pw_inte p
      else if \<not> rp2350 \<and> offset = 0xAC then pw_intf p
      else if \<not> rp2350 \<and> offset = 0xB0 then pwm_ints p
      else 0)"

definition pwm_globals :: "bool \<Rightarrow> u32 \<Rightarrow> u32 \<Rightarrow> pwm_state \<Rightarrow> pwm_state" where
  "pwm_globals rp2350 offset val p =
     (if offset = 0xF0 then p\<lparr>pw_en := val AND 0xFFF\<rparr>
      else if offset = 0xF4 then p\<lparr>pw_intr := pw_intr p AND NOT (val AND 0xFFF)\<rparr>
      else if offset = 0xF8 then p\<lparr>pw_inte := val AND 0xFFF\<rparr>
      else if offset = 0xFC then p\<lparr>pw_intf := val AND 0xFFF\<rparr>
      else if offset = 0x104 then p\<lparr>pw_inte1 := val AND 0xFFF\<rparr>
      else if offset = 0x108 then p\<lparr>pw_intf1 := val AND 0xFFF\<rparr>
      else if \<not> rp2350 \<and> offset = 0xA0 then p\<lparr>pw_en := val AND 0xFF\<rparr>
      else if \<not> rp2350 \<and> offset = 0xA4 then p\<lparr>pw_intr := pw_intr p AND NOT (val AND 0xFF)\<rparr>
      else if \<not> rp2350 \<and> offset = 0xA8 then p\<lparr>pw_inte := val AND 0xFF\<rparr>
      else if \<not> rp2350 \<and> offset = 0xAC then p\<lparr>pw_intf := val AND 0xFF\<rparr>
      else p)"

definition pwm_write32 :: "bool \<Rightarrow> u32 \<Rightarrow> u32 \<Rightarrow> pwm_state \<times> nvic_ctx \<Rightarrow> pwm_state \<times> nvic_ctx" where
  "pwm_write32 rp2350 offset val s =
     (let (p, nv) = s in
      if pwm_in_slice rp2350 offset then
        (let i = unat (offset div 0x14)
         in (p\<lparr>pw_slice := (pw_slice p)(i := slice_write (offset mod 0x14) val (pw_slice p i))\<rparr>, nv))
      else let p1 = pwm_globals rp2350 offset val p
           in (p1, if pwm_ints p1 \<noteq> 0 \<or> pwm_ints1 p1 \<noteq> 0 then nvic_signal_rp2350_irq 4 nv else nv))"

section \<open>Registers\<close>

text \<open>The width of the registers of a slice.\<close>

definition slice_mask :: "u32 \<Rightarrow> u32" where
  "slice_mask rg =
     (if rg = 0x00 then 0xFF else if rg = 0x04 then 0xFFF else if rg = 0x08 then 0xFFFF
      else if rg = 0x0C then - 1 else if rg = 0x10 then 0xFFFF else 0)"

lemma slice_read_write: "slice_read rg (slice_write rg' val s) = (if rg = rg' then val AND slice_mask rg else slice_read rg s)"
  by (simp add: slice_read_def slice_write_def slice_mask_def)

lemma pwm_slice_read_write:
  assumes "pwm_in_slice rp2350 o1" "pwm_in_slice rp2350 o2"
  shows "pwm_read32 rp2350 o2 (fst (pwm_write32 rp2350 o1 val (p, nv))) =
    (if o2 = o1 then val AND slice_mask (o1 mod 0x14) else pwm_read32 rp2350 o2 p)"
proof (cases "o1 div 0x14 = o2 div 0x14")
  case True
  then have "o1 mod 0x14 = o2 mod 0x14 \<longleftrightarrow> o1 = o2" by (metis div_mult_mod_eq)
  then show ?thesis using assms True by (auto simp: pwm_read32_def pwm_write32_def Let_def slice_read_write)
next
  case False
  then have "unat (o1 div 0x14) \<noteq> unat (o2 div 0x14)" by (simp add: word_unat_eq_iff [symmetric])
  then show ?thesis using assms False by (auto simp: pwm_read32_def pwm_write32_def Let_def)
qed

text \<open>Slice registers are independent, masked to their width and raise no interrupt: a write to a
  slice register is read back there, masked, and changes no other slice register, no global register
  and nothing in the interrupt controller.\<close>

theorem pwm_slice_registers:
  assumes "pwm_in_slice rp2350 o1"
  shows "pwm_read32 rp2350 o2 (fst (pwm_write32 rp2350 o1 val (p, nv))) =
      (if o2 = o1 then val AND slice_mask (o1 mod 0x14) else pwm_read32 rp2350 o2 p) \<and>
    snd (pwm_write32 rp2350 o1 val (p, nv)) = nv"
proof (cases "pwm_in_slice rp2350 o2")
  case True
  with assms show ?thesis by (simp add: pwm_slice_read_write) (simp add: pwm_write32_def Let_def)
next
  case False
  obtain f where w: "pwm_write32 rp2350 o1 val (p, nv) = (p\<lparr>pw_slice := f\<rparr>, nv)"
    using assms by (simp add: pwm_write32_def Let_def)
  have "o2 \<noteq> o1" using assms False by auto
  then show ?thesis by (simp add: w pwm_read32_def False pwm_ints_def pwm_ints1_def)
qed

theorem pwm_slice_registers_witness:
  "pwm_read32 False 0x28 (fst (pwm_write32 False 0x2C 0x12345 (pwm_init, nvic_boot))) = 0 \<and>
   pwm_read32 False 0x2C (fst (pwm_write32 False 0x2C 0x12345 (pwm_init, nvic_boot))) = 0x345"
proof -
  have "pwm_in_slice False 0x2C" by (simp add: pwm_in_slice_def pwm_nslices_def)
  moreover have "pwm_read32 False 0x28 pwm_init = 0"
    by (simp add: pwm_read32_def pwm_in_slice_def pwm_nslices_def slice_read_def pwm_init_def)
  ultimately show ?thesis
    using pwm_slice_registers [of False "0x2C" "0x28" "0x12345" pwm_init nvic_boot]
      pwm_slice_registers [of False "0x2C" "0x2C" "0x12345" pwm_init nvic_boot]
    by (simp add: slice_mask_def)
qed

end
