(* ===== verification/I2c.thy ===== *)
theory I2c
  imports Nvic
begin

unbundle bit_operations_syntax

text \<open>
  The two I2C controllers of \<^verbatim>\<open>src/i2c.c\<close>. A command written to the data register is executed at
  once on the attached device that has the target address; the bytes read wait in the receive FIFO.
  A device consists of its callbacks, each possibly absent, and its context of type \<open>'d\<close>, which
  only these callbacks change.
\<close>

section \<open>State and operations\<close>

record 'd i2c_device =
  id_addr :: u8
  id_write :: "('d \<Rightarrow> u8 \<Rightarrow> 'd) option"
  id_read :: "('d \<Rightarrow> u8 \<times> 'd) option"
  id_start :: "('d \<Rightarrow> 'd) option"
  id_stop :: "('d \<Rightarrow> 'd) option"
  id_ctx :: 'd

record 'd i2c_state =
  ic_con :: u32
  ic_tar :: u32
  ic_sar :: u32
  ic_ss_scl_hcnt :: u32
  ic_ss_scl_lcnt :: u32
  ic_fs_scl_hcnt :: u32
  ic_fs_scl_lcnt :: u32
  ic_intr_mask :: u32
  ic_raw_intr_stat :: u32
  ic_rx_tl :: u32
  ic_tx_tl :: u32
  ic_enable :: u32
  ic_sda_hold :: u32
  ic_dma_cr :: u32
  ic_dma_tdlr :: u32
  ic_dma_rdlr :: u32
  ic_fs_spklen :: u32
  ic_rx_fifo :: "nat \<Rightarrow> u8"
  ic_rx_head :: nat
  ic_rx_tail :: nat
  ic_rx_count :: nat
  ic_devices :: "'d i2c_device list"

definition i2c_fresh :: "'d i2c_device list \<Rightarrow> 'd i2c_state" where
  "i2c_fresh devices = \<lparr>ic_con = 0x7F, ic_tar = 0x55, ic_sar = 0x55, ic_ss_scl_hcnt = 0x28,
     ic_ss_scl_lcnt = 0x2F, ic_fs_scl_hcnt = 0x06, ic_fs_scl_lcnt = 0x0D, ic_intr_mask = 0,
     ic_raw_intr_stat = 0, ic_rx_tl = 0, ic_tx_tl = 0, ic_enable = 0, ic_sda_hold = 1, ic_dma_cr = 0,
     ic_dma_tdlr = 0, ic_dma_rdlr = 0, ic_fs_spklen = 0x07, ic_rx_fifo = (\<lambda>_. 0), ic_rx_head = 0,
     ic_rx_tail = 0, ic_rx_count = 0, ic_devices = devices\<rparr>"

text \<open>The attached devices survive a reset of the controller.\<close>

definition i2c_reset_instance :: "'d i2c_state \<Rightarrow> 'd i2c_state" where
  "i2c_reset_instance c = i2c_fresh (ic_devices c)"

definition i2c_init :: "(nat \<Rightarrow> 'd i2c_state) \<Rightarrow> nat \<Rightarrow> 'd i2c_state" where
  "i2c_init cs = cs(0 := i2c_reset_instance ((cs 0)\<lparr>ic_devices := []\<rparr>),
     1 := i2c_reset_instance ((cs 1)\<lparr>ic_devices := []\<rparr>))"

definition i2c_match :: "u32 \<Rightarrow> nat option" where
  "i2c_match addr =
     (let b = addr AND NOT 0x3000 in
      if in_block b 0x40044000 0x1000 then Some 0
      else if in_block b 0x40048000 0x1000 then Some 1
      else None)"

definition i2c_rx_push :: "u8 \<Rightarrow> 'd i2c_state \<Rightarrow> 'd i2c_state" where
  "i2c_rx_push val c =
     (if ic_rx_count c \<ge> 16 then c\<lparr>ic_raw_intr_stat := ic_raw_intr_stat c OR 2\<rparr>
      else c\<lparr>ic_rx_fifo := (ic_rx_fifo c)(ic_rx_head c := val),
             ic_rx_head := (ic_rx_head c + 1) mod 16, ic_rx_count := ic_rx_count c + 1\<rparr>)"

definition i2c_rx_pop :: "'d i2c_state \<Rightarrow> u8 \<times> 'd i2c_state" where
  "i2c_rx_pop c =
     (if ic_rx_count c = 0 then (0, c\<lparr>ic_raw_intr_stat := ic_raw_intr_stat c OR 1\<rparr>)
      else (ic_rx_fifo c (ic_rx_tail c),
            c\<lparr>ic_rx_tail := (ic_rx_tail c + 1) mod 16, ic_rx_count := ic_rx_count c - 1\<rparr>))"

text \<open>The index of the first device with the address.\<close>

definition find_device :: "'d i2c_state \<Rightarrow> u8 \<Rightarrow> nat option" where
  "find_device c addr = find (\<lambda>i. id_addr (ic_devices c ! i) = addr) [0..<length (ic_devices c)]"

definition i2c_irq_state :: "'d i2c_state \<Rightarrow> 'd i2c_state" where
  "i2c_irq_state c =
     (let s = ic_raw_intr_stat c OR shl 1 4
      in c\<lparr>ic_raw_intr_stat := (if int (ic_rx_count c) > sint (ic_rx_tl c) then s OR shl 1 2 else s AND NOT (shl 1 2))\<rparr>)"

definition i2c_update_irq :: "nat \<Rightarrow> 'd i2c_state \<times> nvic_ctx \<Rightarrow> 'd i2c_state \<times> nvic_ctx" where
  "i2c_update_irq i2c_num s =
     (let (c, nv) = s; c1 = i2c_irq_state c
      in (c1, if ic_raw_intr_stat c1 AND ic_intr_mask c1 \<noteq> 0
              then nvic_signal_rp2350_irq (if i2c_num = 0 then 23 else 24) nv else nv))"

definition i2c_status :: "'d i2c_state \<Rightarrow> u32" where
  "i2c_status c = shl 1 2 OR shl 1 1 OR cond_mask (ic_rx_count c > 0) (shl 1 3) OR
     cond_mask (ic_rx_count c \<ge> 16) (shl 1 4)"

definition i2c_reg :: "u32 \<Rightarrow> 'd i2c_state \<Rightarrow> u32" where
  "i2c_reg offset c =
     (if offset = 0x000 then ic_con c else if offset = 0x004 then ic_tar c
      else if offset = 0x008 then ic_sar c else if offset = 0x014 then ic_ss_scl_hcnt c
      else if offset = 0x018 then ic_ss_scl_lcnt c else if offset = 0x01C then ic_fs_scl_hcnt c
      else if offset = 0x020 then ic_fs_scl_lcnt c
      else if offset = 0x02C then ic_raw_intr_stat c AND ic_intr_mask c
      else if offset = 0x030 then ic_intr_mask c else if offset = 0x034 then ic_raw_intr_stat c
      else if offset = 0x038 then ic_rx_tl c else if offset = 0x03C then ic_tx_tl c
      else if offset = 0x06C then ic_enable c else if offset = 0x070 then i2c_status c
      else if offset = 0x078 then of_nat (ic_rx_count c) else if offset = 0x07C then ic_sda_hold c
      else if offset = 0x088 then ic_dma_cr c else if offset = 0x08C then ic_dma_tdlr c
      else if offset = 0x090 then ic_dma_rdlr c else if offset = 0x0A0 then ic_fs_spklen c
      else if offset = 0x0F4 then 0x00FFFF6E else if offset = 0x0F8 then 0x3230312A
      else if offset = 0x0FC then 0x44570140 else 0)"

definition i2c_read32 :: "nat \<Rightarrow> u32 \<Rightarrow> 'd i2c_state \<times> nvic_ctx \<Rightarrow> u32 \<times> 'd i2c_state \<times> nvic_ctx" where
  "i2c_read32 i2c_num offset s =
     (let (c, nv) = s; clear = (\<lambda>b. c\<lparr>ic_raw_intr_stat := ic_raw_intr_stat c AND NOT b\<rparr>) in
      if offset = 0x010 then let (v, c1) = i2c_rx_pop c in (ucast v, i2c_update_irq i2c_num (c1, nv))
      else if offset = 0x040 then (ic_raw_intr_stat c, c\<lparr>ic_raw_intr_stat := 0\<rparr>, nv)
      else if offset = 0x044 then (0, clear (shl 1 0), nv)
      else if offset = 0x048 then (0, clear (shl 1 1), nv)
      else if offset = 0x04C then (0, clear (shl 1 3), nv)
      else if offset = 0x054 then (0, clear (shl 1 6), nv)
      else if offset = 0x060 then (0, clear (shl 1 9), nv)
      else if offset = 0x064 then (0, clear (shl 1 10), nv)
      else (i2c_reg offset c, c, nv))"

text \<open>A callback of the device at an index, if both exist.\<close>

definition on_device :: "nat option \<Rightarrow> ('d i2c_device \<Rightarrow> ('d \<Rightarrow> 'd) option) \<Rightarrow> 'd i2c_state \<Rightarrow> 'd i2c_state" where
  "on_device dev cb c =
     (case dev of None \<Rightarrow> c
      | Some i \<Rightarrow> (case cb (ic_devices c ! i) of None \<Rightarrow> c
          | Some f \<Rightarrow> c\<lparr>ic_devices := (ic_devices c)
              [i := (ic_devices c ! i)\<lparr>id_ctx := f (id_ctx (ic_devices c ! i))\<rparr>]\<rparr>))"

definition device_read :: "nat option \<Rightarrow> 'd i2c_state \<Rightarrow> u8 \<times> 'd i2c_state" where
  "device_read dev c =
     (case dev of None \<Rightarrow> (0xFF, c)
      | Some i \<Rightarrow> (case id_read (ic_devices c ! i) of None \<Rightarrow> (0xFF, c)
          | Some f \<Rightarrow> (let (v, ctx) = f (id_ctx (ic_devices c ! i))
                       in (v, c\<lparr>ic_devices := (ic_devices c)[i := (ic_devices c ! i)\<lparr>id_ctx := ctx\<rparr>]\<rparr>))))"

definition i2c_data_cmd :: "u32 \<Rightarrow> 'd i2c_state \<Rightarrow> 'd i2c_state" where
  "i2c_data_cmd val c =
     (let dev = find_device c (ucast (ic_tar c AND 0x7F));
          c1 = (if val AND 0x400 \<noteq> 0 then on_device dev id_start c else c);
          c2 = (if val AND 0x100 \<noteq> 0 then let (d, c') = device_read dev c1 in i2c_rx_push d c'
                else on_device dev (\<lambda>e. map_option (\<lambda>f ctx. f ctx (ucast (val AND 0xFF))) (id_write e)) c1)
      in if val AND 0x200 \<noteq> 0
         then on_device dev id_stop (c2\<lparr>ic_raw_intr_stat := ic_raw_intr_stat c2 OR shl 1 9\<rparr>) else c2)"

definition i2c_set_reg :: "u32 \<Rightarrow> u32 \<Rightarrow> 'd i2c_state \<Rightarrow> 'd i2c_state" where
  "i2c_set_reg offset val c =
     (if offset = 0x000 then c\<lparr>ic_con := val AND 0x7F\<rparr>
      else if offset = 0x004 then c\<lparr>ic_tar := val AND 0x3FF\<rparr>
      else if offset = 0x008 then c\<lparr>ic_sar := val AND 0x3FF\<rparr>
      else if offset = 0x010 then i2c_data_cmd val c
      else if offset = 0x014 then c\<lparr>ic_ss_scl_hcnt := val AND 0xFFFF\<rparr>
      else if offset = 0x018 then c\<lparr>ic_ss_scl_lcnt := val AND 0xFFFF\<rparr>
      else if offset = 0x01C then c\<lparr>ic_fs_scl_hcnt := val AND 0xFFFF\<rparr>
      else if offset = 0x020 then c\<lparr>ic_fs_scl_lcnt := val AND 0xFFFF\<rparr>
      else if offset = 0x030 then c\<lparr>ic_intr_mask := val AND 0xFFF\<rparr>
      else if offset = 0x038 then c\<lparr>ic_rx_tl := val AND 0xFF\<rparr>
      else if offset = 0x03C then c\<lparr>ic_tx_tl := val AND 0xFF\<rparr>
      else if offset = 0x040 then c\<lparr>ic_raw_intr_stat := 0\<rparr>
      else if offset = 0x054 then c\<lparr>ic_raw_intr_stat := ic_raw_intr_stat c AND NOT (shl 1 6)\<rparr>
      else if offset = 0x06C then c\<lparr>ic_enable := val AND 0x03\<rparr>
      else if offset = 0x07C then c\<lparr>ic_sda_hold := val AND 0xFFFF\<rparr>
      else if offset = 0x088 then c\<lparr>ic_dma_cr := val AND 0x03\<rparr>
      else if offset = 0x08C then c\<lparr>ic_dma_tdlr := val AND 0x1F\<rparr>
      else if offset = 0x090 then c\<lparr>ic_dma_rdlr := val AND 0x1F\<rparr>
      else if offset = 0x0A0 then c\<lparr>ic_fs_spklen := val AND 0xFF\<rparr>
      else c)"

definition i2c_write32 :: "nat \<Rightarrow> u32 \<Rightarrow> u32 \<Rightarrow> 'd i2c_state \<times> nvic_ctx \<Rightarrow> 'd i2c_state \<times> nvic_ctx" where
  "i2c_write32 i2c_num offset val s =
     (let (c, nv) = s in i2c_update_irq i2c_num (i2c_set_reg offset val c, nv))"

definition i2c_attach_device :: "nat \<Rightarrow> 'd i2c_device \<Rightarrow> 'd i2c_state \<Rightarrow> 'd i2c_state option" where
  "i2c_attach_device i2c_num dev c =
     (if i2c_num > 1 then None
      else if length (ic_devices c) \<ge> 8 then None
      else Some (c\<lparr>ic_devices := ic_devices c @ [dev]\<rparr>))"

section \<open>The receive FIFO\<close>

definition i2c_wf :: "'d i2c_state \<Rightarrow> bool" where
  "i2c_wf c \<longleftrightarrow> ring_ok 16 (ic_rx_tail c) (ic_rx_head c) (ic_rx_count c)"

definition i2c_received :: "'d i2c_state \<Rightarrow> u8 list" where
  "i2c_received c = ring_list (ic_rx_fifo c) 16 (ic_rx_tail c) (ic_rx_count c)"

interpretation i2cq: fifo_queue 16 i2c_wf i2c_received i2c_rx_push i2c_rx_pop
proof unfold_locales
  fix c :: "'d i2c_state" and v
  assume c: "i2c_wf c"
  note r = c [unfolded i2c_wf_def]
  show "i2c_wf (i2c_rx_push v c)" "i2c_received (i2c_rx_push v c) = take 16 (i2c_received c @ [v])"
    using ring_ok_push [OF r] ring_list_push [OF r] ring_ok_count [OF r] c
    by (auto simp: i2c_rx_push_def i2c_wf_def i2c_received_def)
  show "length (i2c_received c) \<le> 16" using ring_ok_count [OF r] by (simp add: i2c_received_def)
  show "i2c_wf (snd (i2c_rx_pop c))" "i2c_received (snd (i2c_rx_pop c)) = tl (i2c_received c)"
    using ring_ok_pop [OF r] ring_list_pop [OF ring_ok_rd [OF r], of "ic_rx_count c" "ic_rx_fifo c"] c
    by (auto simp: i2c_rx_pop_def i2c_wf_def i2c_received_def)
  show "fst (i2c_rx_pop c) = hd (i2c_received c)" if "i2c_received c \<noteq> []"
    using that ring_list_pop [OF ring_ok_rd [OF r], of "ic_rx_count c" "ic_rx_fifo c"]
    by (auto simp: i2c_rx_pop_def i2c_received_def)
qed

section \<open>Reading from a device\<close>

lemma i2c_irq_frame [simp]:
  "i2c_wf (fst (i2c_update_irq k (c, nv))) = i2c_wf c" "i2c_received (fst (i2c_update_irq k (c, nv))) = i2c_received c"
  "ic_devices (fst (i2c_update_irq k (c, nv))) = ic_devices c" "ic_tar (fst (i2c_update_irq k (c, nv))) = ic_tar c"
  by (simp_all add: i2c_update_irq_def i2c_irq_state_def i2c_wf_def i2c_received_def Let_def)

lemma rx_push_frame [simp]: "ic_devices (i2c_rx_push v c) = ic_devices c" "ic_tar (i2c_rx_push v c) = ic_tar c"
  by (simp_all add: i2c_rx_push_def)

lemma devices_frame [simp]:
  "i2c_wf (c\<lparr>ic_devices := ds\<rparr>) = i2c_wf c" "i2c_received (c\<lparr>ic_devices := ds\<rparr>) = i2c_received c"
  by (simp_all add: i2c_wf_def i2c_received_def)

text \<open>The bytes a device gives to successive reads, and its context after them.\<close>

fun dev_reads :: "('d \<Rightarrow> u8 \<times> 'd) \<Rightarrow> nat \<Rightarrow> 'd \<Rightarrow> u8 list \<times> 'd" where
  "dev_reads f 0 ctx = ([], ctx)"
| "dev_reads f (Suc n) ctx = (let (v, ctx1) = f ctx; (vs, ctx2) = dev_reads f n ctx1 in (v # vs, ctx2))"

text \<open>Issuing read commands, and reading the data register.\<close>

fun i2c_reads :: "nat \<Rightarrow> nat \<Rightarrow> 'd i2c_state \<times> nvic_ctx \<Rightarrow> 'd i2c_state \<times> nvic_ctx" where
  "i2c_reads k 0 s = s"
| "i2c_reads k (Suc n) s = i2c_reads k n (i2c_write32 k 0x010 0x100 s)"

fun i2c_fetch :: "nat \<Rightarrow> nat \<Rightarrow> 'd i2c_state \<times> nvic_ctx \<Rightarrow> u32 list \<times> 'd i2c_state \<times> nvic_ctx" where
  "i2c_fetch k 0 s = ([], s)"
| "i2c_fetch k (Suc n) s = (let (v, s1) = i2c_read32 k 0x010 s; (vs, s2) = i2c_fetch k n s1 in (v # vs, s2))"

definition i2c_target :: "'d i2c_state \<Rightarrow> nat option" where
  "i2c_target c = find_device c (ucast (ic_tar c AND 0x7F))"

lemma i2c_target_less: "i2c_target c = Some i \<Longrightarrow> i < length (ic_devices c)"
  by (auto simp: i2c_target_def find_device_def find_Some_iff)

lemma i2c_target_cong:
  assumes "map id_addr (ic_devices c) = map id_addr (ic_devices c')" "ic_tar c = ic_tar c'"
  shows "i2c_target c = i2c_target c'"
proof -
  have l: "length (ic_devices c) = length (ic_devices c')" using map_eq_imp_length_eq [OF assms(1)] .
  have "id_addr (ic_devices c ! i) = id_addr (ic_devices c' ! i)" if "i < length (ic_devices c')" for i
    using assms(1) that l by (metis nth_map)
  then have "find (\<lambda>i. id_addr (ic_devices c ! i) = a) [0..<length (ic_devices c')] =
      find (\<lambda>i. id_addr (ic_devices c' ! i) = a) [0..<length (ic_devices c')]" for a
    by (intro find_cong) auto
  then show ?thesis by (simp add: i2c_target_def find_device_def l assms(2))
qed

lemma read_command:
  assumes "i2c_target c = Some i" "id_read (ic_devices c ! i) = Some f"
  shows "let c' = fst (i2c_write32 k 0x010 0x100 (c, nv)); (v, ctx) = f (id_ctx (ic_devices c ! i)) in
    ic_devices c' = (ic_devices c)[i := (ic_devices c ! i)\<lparr>id_ctx := ctx\<rparr>] \<and> i2c_target c' = Some i \<and>
    (i2c_wf c \<longrightarrow> i2c_wf c' \<and> i2c_received c' = take 16 (i2c_received c @ [v]))"
proof -
  obtain v ctx where f: "f (id_ctx (ic_devices c ! i)) = (v, ctx)" by fastforce
  define ds where "ds = (ic_devices c)[i := (ic_devices c ! i)\<lparr>id_ctx := ctx\<rparr>]"
  have w: "fst (i2c_write32 k 0x010 0x100 (c, nv)) =
      fst (i2c_update_irq k (i2c_rx_push v (c\<lparr>ic_devices := ds\<rparr>), nv))"
    using assms f by (simp add: i2c_write32_def i2c_set_reg_def i2c_data_cmd_def i2c_target_def device_read_def
        ds_def Let_def)
  have "map id_addr ds = map id_addr (ic_devices c)"
    using i2c_target_less [OF assms(1)] by (simp add: ds_def map_update list_update_same_conv)
  then have "i2c_target (fst (i2c_write32 k 0x010 0x100 (c, nv))) = Some i"
    unfolding assms(1) [symmetric] by (intro i2c_target_cong) (simp_all add: w)
  then show ?thesis
    unfolding w Let_def f split using i2cq.wf_push [of "c\<lparr>ic_devices := ds\<rparr>" v]
      i2cq.contents_push [of "c\<lparr>ic_devices := ds\<rparr>" v] by (simp add: ds_def)
qed

lemma i2c_reads_received:
  assumes "i2c_target c = Some i" "id_read (ic_devices c ! i) = Some f" "i2c_wf c"
  shows "let (c', nv') = i2c_reads k n (c, nv); (vs, ctx) = dev_reads f n (id_ctx (ic_devices c ! i)) in
    i2c_wf c' \<and> i2c_received c' = take 16 (i2c_received c @ vs) \<and>
    ic_devices c' = (ic_devices c)[i := (ic_devices c ! i)\<lparr>id_ctx := ctx\<rparr>]"
  using assms
proof (induction n arbitrary: c nv)
  case 0
  then show ?case using i2cq.bounded [of c] by simp
next
  case (Suc n)
  obtain c1 nv1 where w: "i2c_write32 k 0x010 0x100 (c, nv) = (c1, nv1)" by fastforce
  obtain v ctx where f: "f (id_ctx (ic_devices c ! i)) = (v, ctx)" by fastforce
  have c1: "ic_devices c1 = (ic_devices c)[i := (ic_devices c ! i)\<lparr>id_ctx := ctx\<rparr>]" "i2c_target c1 = Some i"
    "i2c_wf c1" "i2c_received c1 = take 16 (i2c_received c @ [v])"
    using read_command [OF Suc.prems(1,2), of k nv] Suc.prems(3) by (simp_all add: w f)
  have d: "ic_devices c1 ! i = (ic_devices c ! i)\<lparr>id_ctx := ctx\<rparr>"
    using c1(1) i2c_target_less [OF Suc.prems(1)] by simp
  have r: "id_read (ic_devices c1 ! i) = Some f" using d Suc.prems(2) by simp
  have t: "take 16 (take 16 xs @ v # vs) = take 16 (xs @ v # vs)" if "length xs \<le> 16" for xs vs
    using that by simp
  show ?case
    using Suc.IH [OF c1(2) r c1(3), of nv1] i2cq.bounded [OF Suc.prems(3)]
    i2c_target_less [OF Suc.prems(1)]
    by (auto simp: w f c1(1,4) split_beta Let_def t take_Cons')
qed

lemma i2c_fetch_received:
  assumes "i2c_wf c" "n \<le> length (i2c_received c)"
  shows "fst (i2c_fetch k n (c, nv)) = map ucast (take n (i2c_received c))"
  using assms
proof (induction n arbitrary: c nv)
  case 0
  then show ?case by simp
next
  case (Suc n)
  obtain v c1 where p: "i2c_rx_pop c = (v, c1)" by fastforce
  obtain c2 nv2 where u: "i2c_update_irq k (c1, nv) = (c2, nv2)" by fastforce
  have ne: "i2c_received c \<noteq> []" using Suc.prems(2) by auto
  have c1: "i2c_wf c1" "i2c_received c1 = tl (i2c_received c)" "v = hd (i2c_received c)"
    using i2cq.wf_pop [OF Suc.prems(1)] i2cq.contents_pop [OF Suc.prems(1)] i2cq.pop_front [OF Suc.prems(1) ne]
    by (simp_all add: p)
  have c2: "i2c_wf c2" "i2c_received c2 = i2c_received c1"
    using i2c_irq_frame(1,2) [of k c1 nv] c1(1) by (simp_all add: u)
  have "fst (i2c_fetch k n (c2, nv2)) = map ucast (take n (i2c_received c2))"
    by (rule Suc.IH) (use c1 c2 Suc.prems(2) in simp_all)
  then show ?case
    using Suc.prems(2) c1 c2
    by (cases "i2c_received c") (simp_all add: i2c_read32_def p u split_beta Let_def)
qed

text \<open>Reading from a device: issuing up to 16 read commands to the device at the target address
  and then reading the data register as often gives the bytes of the device in order; the device has
  then served exactly these reads, and no other device was touched.\<close>

theorem i2c_reads_device_in_order:
  assumes "i2c_wf c" "ic_rx_count c = 0" "i2c_target c = Some i" "id_read (ic_devices c ! i) = Some f" "n \<le> 16"
  shows "let s = i2c_reads k n (c, nv); (vs, ctx) = dev_reads f n (id_ctx (ic_devices c ! i)) in
    fst (i2c_fetch k n s) = map ucast vs \<and>
    ic_devices (fst s) = (ic_devices c)[i := (ic_devices c ! i)\<lparr>id_ctx := ctx\<rparr>]"
proof -
  have l: "length (fst (dev_reads f n ctx)) = n" for ctx
    by (induction n arbitrary: ctx) (simp_all add: split_beta)
  have e: "i2c_received c = []" using assms(2) by (simp add: i2c_received_def)
  obtain c' nv' where s: "i2c_reads k n (c, nv) = (c', nv')" by fastforce
  note r = i2c_reads_received [OF assms(3,4,1), of k n nv, unfolded s split_beta Let_def e fst_conv, simplified l assms(5)]
  show ?thesis
    using r i2c_fetch_received [of c' n k nv'] assms(5) l by (simp add: s split_beta Let_def)
qed

text \<open>A device that counts the reads.\<close>

definition counter_device :: "u8 i2c_device" where
  "counter_device = \<lparr>id_addr = 0x55, id_write = None, id_read = Some (\<lambda>n. (n, n + 1)), id_start = None,
     id_stop = None, id_ctx = 7\<rparr>"

definition i2c_demo :: "u8 i2c_state" where
  "i2c_demo = i2c_fresh [counter_device]"

theorem i2c_reads_witness: "fst (i2c_fetch 0 3 (i2c_reads 0 3 (i2c_demo, nvic_boot))) = [7, 8, 9]"
proof -
  have "i2c_target i2c_demo = Some 0"
    by (simp add: i2c_target_def find_device_def i2c_demo_def i2c_fresh_def counter_device_def)
  moreover have "id_read (ic_devices i2c_demo ! 0) = Some (\<lambda>n. (n, n + 1))" "i2c_wf i2c_demo"
    "ic_rx_count i2c_demo = 0" "id_ctx (ic_devices i2c_demo ! 0) = 7"
    by (simp_all add: i2c_demo_def i2c_fresh_def counter_device_def i2c_wf_def)
  ultimately show ?thesis
    using i2c_reads_device_in_order [of i2c_demo 0 "\<lambda>n. (n, n + 1)" 3 0 nvic_boot]
    by (simp add: Let_def numeral_3_eq_3)
qed

end
