(* ===== verification/Clocks.thy ===== *)
theory Clocks
  imports Emu_Prelude
begin

unbundle bit_operations_syntax

text \<open>
  The clock domain of \<^verbatim>\<open>src/clocks.c\<close>: resets, clock generators, oscillators, PLLs, watchdog and power
  state machine. Two of its writes act outside the block, the watchdog trigger and the power switch
  of core 1; they are returned as an action, which the memory bus carries out.
\<close>

section \<open>State\<close>

record pll_state =
  pll_cs :: u32
  pll_pwr :: u32
  pll_fbdiv :: u32
  pll_prim :: u32

record clocks_state =
  ck_reset :: u32
  ck_wdsel :: u32
  ck_clk_ctrl :: "nat \<Rightarrow> u32"
  ck_clk_div :: "nat \<Rightarrow> u32"
  ck_xosc_ctrl :: u32
  ck_xosc_startup :: u32
  ck_xosc_count :: u32
  ck_pll_sys :: pll_state
  ck_pll_usb :: pll_state
  ck_wdog_ctrl :: u32
  ck_wdog_load :: u32
  ck_wdog_scratch :: "nat \<Rightarrow> u32"
  ck_wdog_tick :: u32
  ck_psm_frce_on :: u32
  ck_psm_frce_off :: u32
  ck_psm_wdsel :: u32
  ck_rosc_ctrl :: u32
  ck_rosc_freqa :: u32
  ck_rosc_freqb :: u32
  ck_rosc_div :: u32
  ck_rosc_phase :: u32
  ck_rosc_count :: u32
  ck_rosc_random_state :: u32

datatype clk_action = No_Action | Reboot_Pending | Core1_Reset bool

definition resets_all_mask :: "bool \<Rightarrow> u32" where
  "resets_all_mask rp2350 = (if rp2350 then 0x1FFFFFFF else 0x01FFFFFF)"

definition psm_all_mask :: "bool \<Rightarrow> u32" where
  "psm_all_mask rp2350 = (if rp2350 then 0x01FFFFFF else 0x0001FFFF)"

definition psm_proc1_mask :: "bool \<Rightarrow> u32" where
  "psm_proc1_mask rp2350 = (if rp2350 then shl 1 24 else shl 1 16)"

definition clocks_reset :: "bool \<Rightarrow> clocks_state" where
  "clocks_reset rp2350 = \<lparr>ck_reset = resets_all_mask rp2350, ck_wdsel = 0, ck_clk_ctrl = (\<lambda>_. 0),
     ck_clk_div = (\<lambda>i. if i < 10 then shl 1 8 else 0), ck_xosc_ctrl = 0, ck_xosc_startup = 0xC4,
     ck_xosc_count = 0, ck_pll_sys = \<lparr>pll_cs = 0, pll_pwr = 0x2D, pll_fbdiv = 0, pll_prim = 0\<rparr>,
     ck_pll_usb = \<lparr>pll_cs = 0, pll_pwr = 0x2D, pll_fbdiv = 0, pll_prim = 0\<rparr>, ck_wdog_ctrl = 0,
     ck_wdog_load = 0, ck_wdog_scratch = (\<lambda>_. 0), ck_wdog_tick = 0, ck_psm_frce_on = 0,
     ck_psm_frce_off = 0, ck_psm_wdsel = 0, ck_rosc_ctrl = 0, ck_rosc_freqa = 0, ck_rosc_freqb = 0,
     ck_rosc_div = 0, ck_rosc_phase = 0, ck_rosc_count = 0, ck_rosc_random_state = 0\<rparr>"

definition apply_alias_write :: "u32 \<Rightarrow> u32 \<Rightarrow> u32 \<Rightarrow> u32" where
  "apply_alias_write current val al =
     (if al = 0 then val else if al = 1 then current XOR val else if al = 2 then current OR val
      else if al = 3 then current AND NOT val else val)"

section \<open>The blocks\<close>

definition resets_read :: "bool \<Rightarrow> u32 \<Rightarrow> clocks_state \<Rightarrow> u32" where
  "resets_read rp2350 addr k =
     (let offset = addr AND 0xFFF in
      if offset = 0x00 then ck_reset k
      else if offset = 0x04 then ck_wdsel k
      else if offset = 0x08 then NOT (ck_reset k) AND resets_all_mask rp2350
      else 0)"

definition resets_write :: "bool \<Rightarrow> u32 \<Rightarrow> u32 \<Rightarrow> u32 \<Rightarrow> clocks_state \<Rightarrow> clocks_state" where
  "resets_write rp2350 addr val al k =
     (let offset = addr AND 0xFFF in
      if offset = 0x00 then k\<lparr>ck_reset := apply_alias_write (ck_reset k) val al AND resets_all_mask rp2350\<rparr>
      else if offset = 0x04 then k\<lparr>ck_wdsel := apply_alias_write (ck_wdsel k) val al AND resets_all_mask rp2350\<rparr>
      else k)"

text \<open>The frequency counter: the system PLL from the 12 MHz crystal.\<close>

definition or_one :: "u32 \<Rightarrow> u32" where
  "or_one w = (if w = 0 then 1 else w)"

definition fc0_khz :: "pll_state \<Rightarrow> u32" where
  "fc0_khz pll =
     (if pll_fbdiv pll > 0
      then (12000 * pll_fbdiv pll) div
        (or_one (pll_cs pll AND 0x3F) * or_one (shr (pll_prim pll) 16 AND 7) * or_one (shr (pll_prim pll) 12 AND 7))
      else 125000)"

definition clocks_domain_read :: "u32 \<Rightarrow> clocks_state \<Rightarrow> u32" where
  "clocks_domain_read addr k =
     (let offset = addr AND 0xFFF in
      if offset < 10 * 0x0C then
        (let gen = unat (offset div 0x0C); rg = offset mod 0x0C in
         if rg = 0x00 then ck_clk_ctrl k gen
         else if rg = 0x04 then ck_clk_div k gen
         else if rg = 0x08 then
           shl 1 (unat (if gen = 4 then ck_clk_ctrl k gen AND 3
                        else if gen = 5 then ck_clk_ctrl k gen AND 1
                        else shr (ck_clk_ctrl k gen) 5 AND 0xF))
         else 0)
      else if offset = 0x98 then shl 1 4
      else if offset = 0x9C then shl (fc0_khz (ck_pll_sys k)) 5
      else 0)"

definition clocks_domain_write :: "u32 \<Rightarrow> u32 \<Rightarrow> u32 \<Rightarrow> clocks_state \<Rightarrow> clocks_state" where
  "clocks_domain_write addr val al k =
     (let offset = addr AND 0xFFF; gen = unat (offset div 0x0C); rg = offset mod 0x0C in
      if offset < 10 * 0x0C \<and> rg = 0x00 then
        k\<lparr>ck_clk_ctrl := (ck_clk_ctrl k)(gen := apply_alias_write (ck_clk_ctrl k gen) val al)\<rparr>
      else if offset < 10 * 0x0C \<and> rg = 0x04 then
        k\<lparr>ck_clk_div := (ck_clk_div k)(gen := apply_alias_write (ck_clk_div k gen) val al)\<rparr>
      else k)"

definition xosc_read :: "u32 \<Rightarrow> clocks_state \<Rightarrow> u32" where
  "xosc_read addr k =
     (let offset = addr AND 0xFFF in
      if offset = 0x00 then ck_xosc_ctrl k
      else if offset = 0x04 then shl 1 31 OR shl 1 12
      else if offset = 0x0C then ck_xosc_startup k
      else if offset = 0x1C then ck_xosc_count k
      else 0)"

definition xosc_write :: "u32 \<Rightarrow> u32 \<Rightarrow> u32 \<Rightarrow> clocks_state \<Rightarrow> clocks_state" where
  "xosc_write addr val al k =
     (let offset = addr AND 0xFFF in
      if offset = 0x00 then k\<lparr>ck_xosc_ctrl := apply_alias_write (ck_xosc_ctrl k) val al\<rparr>
      else if offset = 0x0C then k\<lparr>ck_xosc_startup := apply_alias_write (ck_xosc_startup k) val al\<rparr>
      else if offset = 0x1C then k\<lparr>ck_xosc_count := apply_alias_write (ck_xosc_count k) val al\<rparr>
      else k)"

definition pll_read :: "pll_state \<Rightarrow> u32 \<Rightarrow> u32" where
  "pll_read pll offset =
     (if offset = 0x00 then pll_cs pll OR shl 1 31
      else if offset = 0x04 then pll_pwr pll
      else if offset = 0x08 then pll_fbdiv pll
      else if offset = 0x0C then pll_prim pll
      else 0)"

definition pll_write :: "u32 \<Rightarrow> u32 \<Rightarrow> u32 \<Rightarrow> pll_state \<Rightarrow> pll_state" where
  "pll_write offset val al pll =
     (if offset = 0x00 then pll\<lparr>pll_cs := apply_alias_write (pll_cs pll) val al\<rparr>
      else if offset = 0x04 then pll\<lparr>pll_pwr := apply_alias_write (pll_pwr pll) val al\<rparr>
      else if offset = 0x08 then pll\<lparr>pll_fbdiv := apply_alias_write (pll_fbdiv pll) val al\<rparr>
      else if offset = 0x0C then pll\<lparr>pll_prim := apply_alias_write (pll_prim pll) val al\<rparr>
      else pll)"

definition wdog_is_scratch :: "u32 \<Rightarrow> bool" where
  "wdog_is_scratch offset \<longleftrightarrow>
     offset \<ge> 0x0C \<and> offset \<le> 0x28 \<and> offset AND 3 = 0 \<and> (offset - 0x0C) div 4 < 8"

definition watchdog_read :: "u32 \<Rightarrow> clocks_state \<Rightarrow> u32" where
  "watchdog_read addr k =
     (let offset = addr AND 0xFFF in
      if offset = 0x00 then ck_wdog_ctrl k
      else if offset = 0x2C then
        (if ck_wdog_tick k AND shl 1 9 \<noteq> 0 then ck_wdog_tick k OR shl 1 10 else ck_wdog_tick k)
      else if wdog_is_scratch offset then ck_wdog_scratch k (unat ((offset - 0x0C) div 4))
      else 0)"

definition watchdog_write :: "u32 \<Rightarrow> u32 \<Rightarrow> u32 \<Rightarrow> clocks_state \<Rightarrow> clocks_state \<times> clk_action" where
  "watchdog_write addr val al k =
     (let offset = addr AND 0xFFF in
      if offset = 0x00 then
        (let new_ctrl = apply_alias_write (ck_wdog_ctrl k) val al
         in (k\<lparr>ck_wdog_ctrl := new_ctrl\<rparr>, if new_ctrl AND shl 1 31 \<noteq> 0 then Reboot_Pending else No_Action))
      else if offset = 0x04 then (k\<lparr>ck_wdog_load := val\<rparr>, No_Action)
      else if offset = 0x2C then (k\<lparr>ck_wdog_tick := apply_alias_write (ck_wdog_tick k) val al\<rparr>, No_Action)
      else if wdog_is_scratch offset then
        (let i = unat ((offset - 0x0C) div 4)
         in (k\<lparr>ck_wdog_scratch := (ck_wdog_scratch k)(i := apply_alias_write (ck_wdog_scratch k i) val al)\<rparr>, No_Action))
      else (k, No_Action))"

definition psm_read :: "bool \<Rightarrow> u32 \<Rightarrow> clocks_state \<Rightarrow> u32" where
  "psm_read rp2350 addr k =
     (let offset = addr AND 0xFFF in
      if offset = 0x00 then ck_psm_frce_on k
      else if offset = 0x04 then ck_psm_frce_off k
      else if offset = 0x08 then ck_psm_wdsel k
      else if offset = 0x0C then NOT (ck_psm_frce_off k) AND psm_all_mask rp2350
      else 0)"

definition psm_write :: "bool \<Rightarrow> u32 \<Rightarrow> u32 \<Rightarrow> u32 \<Rightarrow> clocks_state \<Rightarrow> clocks_state \<times> clk_action" where
  "psm_write rp2350 addr val al k =
     (let offset = addr AND 0xFFF; msk = psm_all_mask rp2350; proc1 = psm_proc1_mask rp2350 in
      if offset = 0x00 then
        (k\<lparr>ck_psm_frce_on := apply_alias_write (ck_psm_frce_on k) val al AND msk\<rparr>, No_Action)
      else if offset = 0x04 then
        (let off' = apply_alias_write (ck_psm_frce_off k) val al AND msk
         in (k\<lparr>ck_psm_frce_off := off'\<rparr>,
             if off' AND proc1 \<noteq> ck_psm_frce_off k AND proc1 then Core1_Reset (off' AND proc1 \<noteq> 0) else No_Action))
      else if offset = 0x08 then
        (k\<lparr>ck_psm_wdsel := apply_alias_write (ck_psm_wdsel k) val al AND msk\<rparr>, No_Action)
      else (k, No_Action))"

text \<open>The random bit comes from a xorshift generator.\<close>

definition xorshift32 :: "u32 \<Rightarrow> u32" where
  "xorshift32 s = (let s = s XOR shl s 13; s = s XOR shr s 17 in s XOR shl s 5)"

definition rosc_read :: "u32 \<Rightarrow> clocks_state \<Rightarrow> u32 \<times> clocks_state" where
  "rosc_read addr k =
     (let offset = addr AND 0xFFF in
      if offset = 0x00 then (ck_rosc_ctrl k, k)
      else if offset = 0x04 then (ck_rosc_freqa k, k)
      else if offset = 0x08 then (ck_rosc_freqb k, k)
      else if offset = 0x10 then (ck_rosc_div k, k)
      else if offset = 0x14 then (ck_rosc_phase k, k)
      else if offset = 0x18 then
        (shl 1 31 OR shl (if shr (ck_rosc_ctrl k) 12 AND 0xFFF = 0xFAB then 1 else 0) 24 OR shl 1 12, k)
      else if offset = 0x1C then
        (let s0 = ck_rosc_random_state k; s = xorshift32 (if s0 = 0 then 0xDEADBEEF else s0)
         in (s AND 1, k\<lparr>ck_rosc_random_state := s\<rparr>))
      else if offset = 0x20 then (ck_rosc_count k, k)
      else (0, k))"

definition rosc_write :: "u32 \<Rightarrow> u32 \<Rightarrow> u32 \<Rightarrow> clocks_state \<Rightarrow> clocks_state" where
  "rosc_write addr val al k =
     (let offset = addr AND 0xFFF in
      if offset = 0x00 then k\<lparr>ck_rosc_ctrl := apply_alias_write (ck_rosc_ctrl k) val al\<rparr>
      else if offset = 0x04 then k\<lparr>ck_rosc_freqa := apply_alias_write (ck_rosc_freqa k) val al\<rparr>
      else if offset = 0x08 then k\<lparr>ck_rosc_freqb := apply_alias_write (ck_rosc_freqb k) val al\<rparr>
      else if offset = 0x10 then k\<lparr>ck_rosc_div := apply_alias_write (ck_rosc_div k) val al\<rparr>
      else if offset = 0x14 then k\<lparr>ck_rosc_phase := apply_alias_write (ck_rosc_phase k) val al\<rparr>
      else if offset = 0x20 then k\<lparr>ck_rosc_count := apply_alias_write (ck_rosc_count k) val al\<rparr>
      else k)"

section \<open>Dispatch\<close>

text \<open>Which block an address belongs to. The bases of the RP2350 are tried first in its mode: two
  of them are bases of other blocks on the RP2040.\<close>

datatype clk_block = Resets | Clock_Generators | Xosc | Pll_Sys | Pll_Usb | Watchdog | Psm | Rosc

definition clocks_block_2350 :: "u32 \<Rightarrow> clk_block option" where
  "clocks_block_2350 b =
     (if b = 0x40020000 then Some Resets
      else if b = 0x40010000 then Some Clock_Generators
      else if b = 0x40048000 then Some Xosc
      else if b = 0x40050000 then Some Pll_Sys
      else if b = 0x40058000 then Some Pll_Usb
      else if b = 0x400D8000 then Some Watchdog
      else if b = 0x40018000 then Some Psm
      else if b = 0x400E8000 then Some Rosc
      else None)"

definition clocks_block_2040 :: "u32 \<Rightarrow> clk_block option" where
  "clocks_block_2040 b =
     (if b = 0x4000C000 then Some Resets
      else if b = 0x40008000 then Some Clock_Generators
      else if b = 0x40024000 then Some Xosc
      else if b = 0x40028000 then Some Pll_Sys
      else if b = 0x4002C000 then Some Pll_Usb
      else if b = 0x40058000 then Some Watchdog
      else if b = 0x40010000 then Some Psm
      else if b = 0x40060000 then Some Rosc
      else None)"

definition clocks_block :: "bool \<Rightarrow> u32 \<Rightarrow> clk_block option" where
  "clocks_block rp2350 addr =
     (let b = addr AND NOT 0x3FFF in
      case (if rp2350 then clocks_block_2350 b else None) of
        Some blk \<Rightarrow> Some blk | None \<Rightarrow> clocks_block_2040 b)"

definition clocks_canonical :: "u32 \<Rightarrow> u32" where
  "clocks_canonical addr = (addr AND NOT 0x3FFF) OR (addr AND 0xFFF)"

definition clocks_read32 :: "bool \<Rightarrow> u32 \<Rightarrow> clocks_state \<Rightarrow> u32 \<times> clocks_state" where
  "clocks_read32 rp2350 addr k =
     (let canonical = clocks_canonical addr in
      case clocks_block rp2350 addr of
        None \<Rightarrow> (0, k)
      | Some Resets \<Rightarrow> (resets_read rp2350 canonical k, k)
      | Some Clock_Generators \<Rightarrow> (clocks_domain_read canonical k, k)
      | Some Xosc \<Rightarrow> (xosc_read canonical k, k)
      | Some Pll_Sys \<Rightarrow> (pll_read (ck_pll_sys k) (canonical AND 0xFFF), k)
      | Some Pll_Usb \<Rightarrow> (pll_read (ck_pll_usb k) (canonical AND 0xFFF), k)
      | Some Watchdog \<Rightarrow> (watchdog_read canonical k, k)
      | Some Psm \<Rightarrow> (psm_read rp2350 canonical k, k)
      | Some Rosc \<Rightarrow> rosc_read canonical k)"

definition clocks_write32 :: "bool \<Rightarrow> u32 \<Rightarrow> u32 \<Rightarrow> clocks_state \<Rightarrow> clocks_state \<times> clk_action" where
  "clocks_write32 rp2350 addr val k =
     (let al = shr addr 12 AND 3; canonical = clocks_canonical addr in
      case clocks_block rp2350 addr of
        None \<Rightarrow> (k, No_Action)
      | Some Resets \<Rightarrow> (resets_write rp2350 canonical val al k, No_Action)
      | Some Clock_Generators \<Rightarrow> (clocks_domain_write canonical val al k, No_Action)
      | Some Xosc \<Rightarrow> (xosc_write canonical val al k, No_Action)
      | Some Pll_Sys \<Rightarrow> (k\<lparr>ck_pll_sys := pll_write (canonical AND 0xFFF) val al (ck_pll_sys k)\<rparr>, No_Action)
      | Some Pll_Usb \<Rightarrow> (k\<lparr>ck_pll_usb := pll_write (canonical AND 0xFFF) val al (ck_pll_usb k)\<rparr>, No_Action)
      | Some Watchdog \<Rightarrow> watchdog_write canonical val al k
      | Some Psm \<Rightarrow> psm_write rp2350 canonical val al k
      | Some Rosc \<Rightarrow> (rosc_write canonical val al k, No_Action))"

section \<open>Properties\<close>

text \<open>The reset handshake of the boot code: after a write to the reset register through any of its
  four aliases the register holds the old value combined as the alias says, and the done register
  is its complement, so a block is reported ready exactly when it is no longer held in reset.\<close>

theorem resets_handshake:
  assumes "al < 4"
  shows "let base = (if rp2350 then 0x40020000 else 0x4000C000);
      (k', act) = clocks_write32 rp2350 (base + al * 0x1000) val k;
      r = fst (clocks_read32 rp2350 base k'); done = fst (clocks_read32 rp2350 (base + 8) k') in
    act = No_Action \<and>
    r = (if al = 0 then val else if al = 1 then ck_reset k XOR val
         else if al = 2 then ck_reset k OR val else ck_reset k AND NOT val) AND resets_all_mask rp2350 \<and>
    (\<forall>i. bit done i \<longleftrightarrow> bit (resets_all_mask rp2350) i \<and> \<not> bit r i)"
proof -
  have al: "al = 0 \<or> al = 1 \<or> al = 2 \<or> al = 3"
  proof -
    have "unat al < 4" using assms by (simp add: word_less_nat_alt)
    then have "unat al = 0 \<or> unat al = 1 \<or> unat al = 2 \<or> unat al = 3" by arith
    then show ?thesis by (auto simp: word_unat_eq_iff)
  qed
  define base :: u32 where "base = (if rp2350 then 0x40020000 else 0x4000C000)"
  define r where "r = (if al = 0 then val else if al = 1 then ck_reset k XOR val
         else if al = 2 then ck_reset k OR val else ck_reset k AND NOT val) AND resets_all_mask rp2350"
  note defs = clocks_write32_def clocks_read32_def clocks_block_def clocks_block_2350_def
      clocks_block_2040_def clocks_canonical_def resets_write_def resets_read_def apply_alias_write_def
  have w: "clocks_write32 rp2350 (base + al * 0x1000) val k = (k\<lparr>ck_reset := r\<rparr>, No_Action)"
    using al by (elim disjE; cases rp2350; simp add: defs base_def r_def)
  have rd: "fst (clocks_read32 rp2350 base (k\<lparr>ck_reset := r\<rparr>)) = r"
    "fst (clocks_read32 rp2350 (base + 8) (k\<lparr>ck_reset := r\<rparr>)) = NOT r AND resets_all_mask rp2350"
    by (cases rp2350; simp add: defs base_def)+
  have "bit (resets_all_mask rp2350) i \<Longrightarrow> i < 32" for i using bit_imp_le_length by fastforce
  then have "bit (NOT r AND resets_all_mask rp2350) i \<longleftrightarrow> bit (resets_all_mask rp2350) i \<and> \<not> bit r i" for i
    by (auto simp: bit_simps)
  then show ?thesis unfolding base_def [symmetric] Let_def w split rd by (simp add: r_def)
qed

theorem resets_handshake_witness:
  "bit (fst (clocks_read32 False 0x4000C008 (fst (clocks_write32 False 0x4000F000 0x20 (clocks_reset False))))) 5"
proof -
  have "(3 :: u32) < 4" by simp
  from resets_handshake [OF this, of False "0x20" "clocks_reset False"]
  have "bit (fst (clocks_read32 False 0x4000C008 (fst (clocks_write32 False 0x4000F000 0x20 (clocks_reset False))))) 5 \<longleftrightarrow>
      bit (resets_all_mask False) 5 \<and> \<not> bit ((ck_reset (clocks_reset False) AND NOT 0x20) AND resets_all_mask False) 5"
    by (simp add: Let_def split_beta)
  then show ?thesis by (simp add: resets_all_mask_def bit_simps)
qed

text \<open>Powering core 1 off and on: a write to the force-off register of the power state machine asks
  for a reset of core 1 exactly when its power bit changes, and says which way; no other write to
  the power state machine does.\<close>

theorem psm_core1_power:
  "snd (psm_write rp2350 addr val al k) =
     (let k' = fst (psm_write rp2350 addr val al k);
          was = ck_psm_frce_off k AND psm_proc1_mask rp2350;
          is = ck_psm_frce_off k' AND psm_proc1_mask rp2350 in
      if is \<noteq> was then Core1_Reset (is \<noteq> 0) else No_Action)"
  by (simp add: psm_write_def Let_def)

text \<open>The random generator is invertible, so its state never becomes zero.\<close>

lemma xor_shl_inj: "0 < n \<Longrightarrow> x XOR shl x n = y XOR shl y n \<Longrightarrow> x = y" for x y :: u32
proof -
  assume n: "0 < n" and e: "x XOR shl x n = y XOR shl y n"
  have "bit x i = bit y i" for i
  proof (induction i rule: less_induct)
    case (less i)
    have "bit (x XOR shl x n) i = bit (y XOR shl y n) i" using e by simp
    then show ?case using less.IH [of "i - n"] n by (cases "i < 32") (auto simp: bit_simps bit_imp_le_length)
  qed
  then show ?thesis by (intro bit_eqI) simp
qed

lemma xor_shr_inj: "0 < n \<Longrightarrow> x XOR shr x n = y XOR shr y n \<Longrightarrow> x = y" for x y :: u32
proof -
  assume n: "0 < n" and e: "x XOR shr x n = y XOR shr y n"
  have "bit x i = bit y i" for i
  proof (induction "32 - i" arbitrary: i rule: less_induct)
    case less
    have "bit (x XOR shr x n) i = bit (y XOR shr y n) i" using e by simp
    moreover have "bit x (i + n) = bit y (i + n)" if "i < 32" using less [of "i + n"] n that by simp
    moreover have "bit z i \<Longrightarrow> i < 32" for z :: u32 using bit_imp_le_length [of z i] by simp
    ultimately show ?case by (cases "i < 32") (auto simp: bit_simps ac_simps)
  qed
  then show ?thesis by (intro bit_eqI) simp
qed

lemma xorshift32_nonzero: "s \<noteq> 0 \<Longrightarrow> xorshift32 s \<noteq> 0"
proof -
  have step: "x XOR shl x n \<noteq> 0" "x XOR shr x n \<noteq> 0" if "x \<noteq> 0" "0 < n" for x :: u32 and n
    using xor_shl_inj [of n x 0] xor_shr_inj [of n x 0] that by auto
  show "s \<noteq> 0 \<Longrightarrow> xorshift32 s \<noteq> 0" unfolding xorshift32_def Let_def by (intro step) simp_all
qed

lemma rosc_random_state_nonzero: "ck_rosc_random_state (snd (rosc_read 0x1C k)) \<noteq> 0"
  by (simp add: rosc_read_def Let_def xorshift32_nonzero)

end
