(* ===== verification/Blocks.thy ===== *)
theory Blocks
  imports Nvic
begin

unbundle bit_operations_syntax

text \<open>
  The register blocks of \<^verbatim>\<open>src/devtools.c\<close>: system configuration, test-bench manager, voltage
  regulator, tick generators, one-time memory, the random generator and the SHA-256 engine.
\<close>

section \<open>Plain registers\<close>

definition syscfg_match :: "u32 \<Rightarrow> bool" where
  "syscfg_match addr = in_block (addr AND NOT 0x3000) 0x40004000 0x20"

definition syscfg_read :: "u32 \<Rightarrow> (nat \<Rightarrow> u32) \<Rightarrow> u32" where
  "syscfg_read offset r =
     (let offset = offset AND 0xFFF in
      if offset \<ge> 0x20 then 0 else if offset = 0x08 then 0 else r (unat (offset div 4)))"

definition syscfg_write :: "u32 \<Rightarrow> u32 \<Rightarrow> (nat \<Rightarrow> u32) \<Rightarrow> nat \<Rightarrow> u32" where
  "syscfg_write offset val r =
     (let offset = offset AND 0xFFF in
      if offset \<ge> 0x20 then r else if offset = 0x08 then r else r(unat (offset div 4) := val))"

definition tbman_match :: "u32 \<Rightarrow> bool" where
  "tbman_match addr = in_block (addr AND NOT 0x3000) 0x4006C000 0x08"

definition tbman_read :: "u32 \<Rightarrow> u32" where
  "tbman_read offset = (if offset AND 0xFFF = 0 then 1 else 0)"

text \<open>The defaults of the regulator are filled in at the first access; they are the initial state
  here.\<close>

definition vreg_defaults :: "nat \<Rightarrow> u32" where
  "vreg_defaults = (\<lambda>_. 0)(0 := shl 1 12 OR shl 0xB 4 OR 1, 1 := shl 9 4 OR 1, 2 := shl 1 8)"

definition vreg_match :: "u32 \<Rightarrow> bool" where
  "vreg_match addr = in_block (addr AND NOT 0x3000) 0x40064000 0x0C"

definition vreg_read :: "u32 \<Rightarrow> (nat \<Rightarrow> u32) \<Rightarrow> u32" where
  "vreg_read offset r =
     (let offset = offset AND 0xFFF in if offset \<ge> 0x0C then 0 else r (unat (offset div 4)))"

definition vreg_write :: "u32 \<Rightarrow> u32 \<Rightarrow> (nat \<Rightarrow> u32) \<Rightarrow> nat \<Rightarrow> u32" where
  "vreg_write offset val r =
     (let offset = offset AND 0xFFF in
      if offset \<ge> 0x0C then r
      else if offset = 0x08 then r(2 := r 2 AND NOT val)
      else let r1 = r(unat (offset div 4) := val)
           in if offset = 0x00 \<and> val AND 1 \<noteq> 0 then r1(0 := r1 0 OR shl 1 12) else r1)"

definition ticks_match :: "u32 \<Rightarrow> bool" where
  "ticks_match addr = in_block (addr AND NOT 0x3000) 0x40108000 0x20"

definition ticks_read :: "u32 \<Rightarrow> (nat \<Rightarrow> u32) \<Rightarrow> u32" where
  "ticks_read offset r =
     (let offset = offset AND 0xFFF in if offset \<ge> 0x20 then 0 else r (unat (offset div 4)))"

definition ticks_write :: "u32 \<Rightarrow> u32 \<Rightarrow> (nat \<Rightarrow> u32) \<Rightarrow> nat \<Rightarrow> u32" where
  "ticks_write offset val r =
     (let offset = offset AND 0xFFF in if offset < 0x20 then r(unat (offset div 4) := val) else r)"

definition otp_match :: "u32 \<Rightarrow> bool" where
  "otp_match addr = in_block (addr AND NOT 0x3000) 0x40120000 0x200"

definition otp_read :: "u32 \<Rightarrow> u32" where
  "otp_read offset = 0xFFFFFFFF"

section \<open>Random generator\<close>

record trng_state =
  tr_s0 :: u64
  tr_s1 :: u64
  tr_imr :: u32
  tr_isr :: u32
  tr_config :: u32
  tr_src_en :: u32
  tr_ehr :: "nat \<Rightarrow> u32"
  tr_ehr_valid :: bool

definition trng_init :: trng_state where
  "trng_init = \<lparr>tr_s0 = 0x9E3779B97F4A7C15, tr_s1 = 0xDEADBEEFCAFEBABE, tr_imr = 0xF, tr_isr = 0,
     tr_config = 0, tr_src_en = 0, tr_ehr = (\<lambda>_. 0), tr_ehr_valid = False\<rparr>"

definition trng_next :: "trng_state \<Rightarrow> u32 \<times> trng_state" where
  "trng_next t =
     (let x = tr_s0 t; y = tr_s1 t; x1 = x XOR shl x 23; s1 = x1 XOR y XOR shr x1 17 XOR shr y 26
      in (ucast (s1 + y), t\<lparr>tr_s0 := y, tr_s1 := s1\<rparr>))"

definition trng_collect :: "trng_state \<times> nvic_ctx \<Rightarrow> trng_state \<times> nvic_ctx" where
  "trng_collect s =
     (let (t, nv) = s;
          t1 = fold (\<lambda>i t. let (v, t') = trng_next t in t'\<lparr>tr_ehr := (tr_ehr t')(i := v)\<rparr>) [0..<6] t;
          t2 = t1\<lparr>tr_ehr_valid := True, tr_isr := tr_isr t1 OR shl 1 3\<rparr>
      in (t2, if tr_imr t2 AND shl 1 3 = 0 then nvic_signal_irq 39 nv else nv))"

definition trng_match :: "u32 \<Rightarrow> bool" where
  "trng_match addr = in_block (addr AND NOT 0x3000) 0x400F0000 0x200"

definition trng_read :: "u32 \<Rightarrow> trng_state \<times> nvic_ctx \<Rightarrow> u32 \<times> trng_state \<times> nvic_ctx" where
  "trng_read offset s =
     (let (t, nv) = s; offset = offset AND 0xFFF in
      if offset = 0x100 then (tr_imr t, t, nv)
      else if offset = 0x104 then (tr_isr t, t, nv)
      else if offset = 0x10C then (tr_config t, t, nv)
      else if offset = 0x110 then (if tr_ehr_valid t then 1 else 0, t, nv)
      else if offset = 0x12C then (tr_src_en t, t, nv)
      else if offset = 0x1B8 then (if \<not> tr_ehr_valid t \<and> tr_src_en t \<noteq> 0 then 1 else 0, t, nv)
      else if offset \<ge> 0x114 \<and> offset < 0x114 + 24 \<and> (offset - 0x114) mod 4 = 0 then
        (let i = unat ((offset - 0x114) div 4); v = tr_ehr t i in
         if tr_ehr_valid t \<and> i = 5 then
           (let t1 = t\<lparr>tr_ehr_valid := False, tr_isr := tr_isr t AND NOT (shl 1 3)\<rparr>
            in (v, if tr_src_en t1 \<noteq> 0 then trng_collect (t1, nv) else (t1, nv)))
         else (v, t, nv))
      else (0, t, nv))"

definition trng_write :: "u32 \<Rightarrow> u32 \<Rightarrow> trng_state \<times> nvic_ctx \<Rightarrow> trng_state \<times> nvic_ctx" where
  "trng_write offset val s =
     (let (t, nv) = s; offset = offset AND 0xFFF in
      if offset = 0x100 then (t\<lparr>tr_imr := val AND 0xF\<rparr>, nv)
      else if offset = 0x108 then (t\<lparr>tr_isr := tr_isr t AND NOT val\<rparr>, nv)
      else if offset = 0x10C then (t\<lparr>tr_config := val\<rparr>, nv)
      else if offset = 0x12C then
        (let t1 = t\<lparr>tr_src_en := val AND 1\<rparr>
         in if tr_src_en t1 \<noteq> 0 \<and> \<not> tr_ehr_valid t1 then trng_collect (t1, nv) else (t1, nv))
      else if offset = 0x140 then (trng_init\<lparr>tr_imr := tr_imr t\<rparr>, nv)
      else (t, nv))"

section \<open>SHA-256 engine\<close>

record sha256_state =
  sh_h :: "nat \<Rightarrow> u32"
  sh_w :: "nat \<Rightarrow> u32"
  sh_nw :: nat
  sh_csr :: u32
  sh_bswap :: bool

definition sha256_boot :: sha256_state where
  "sha256_boot = \<lparr>sh_h = (\<lambda>_. 0), sh_w = (\<lambda>_. 0), sh_nw = 0, sh_csr = 1, sh_bswap = True\<rparr>"

definition sha256_init :: "sha256_state \<Rightarrow> sha256_state" where
  "sha256_init s = s\<lparr>sh_h := (sh_h s)(0 := 0x6a09e667, 1 := 0xbb67ae85, 2 := 0x3c6ef372, 3 := 0xa54ff53a,
       4 := 0x510e527f, 5 := 0x9b05688c, 6 := 0x1f83d9ab, 7 := 0x5be0cd19),
     sh_nw := 0, sh_csr := 1 OR shl 1 1, sh_bswap := True\<rparr>"

definition sha256_rotr :: "u32 \<Rightarrow> nat \<Rightarrow> u32" where
  "sha256_rotr x n = shr x n OR shl x (32 - n)"

text \<open>The round constants, in decimal.\<close>

definition sha256_K :: "u32 list" where
  "sha256_K = [
     1116352408, 1899447441, 3049323471, 3921009573, 961987163, 1508970993, 2453635748, 2870763221,
     3624381080, 310598401, 607225278, 1426881987, 1925078388, 2162078206, 2614888103, 3248222580,
     3835390401, 4022224774, 264347078, 604807628, 770255983, 1249150122, 1555081692, 1996064986,
     2554220882, 2821834349, 2952996808, 3210313671, 3336571891, 3584528711, 113926993, 338241895,
     666307205, 773529912, 1294757372, 1396182291, 1695183700, 1986661051, 2177026350, 2456956037,
     2730485921, 2820302411, 3259730800, 3345764771, 3516065817, 3600352804, 4094571909, 275423344,
     430227734, 506948616, 659060556, 883997877, 958139571, 1322822218, 1537002063, 1747873779,
     1955562222, 2024104815, 2227730452, 2361852424, 2428436474, 2756734187, 3204031479, 3329325298]"

definition sha256_schedule_step :: "nat \<Rightarrow> (nat \<Rightarrow> u32) \<Rightarrow> nat \<Rightarrow> u32" where
  "sha256_schedule_step i w =
     (let s0 = sha256_rotr (w (i - 15)) 7 XOR sha256_rotr (w (i - 15)) 18 XOR shr (w (i - 15)) 3;
          s1 = sha256_rotr (w (i - 2)) 17 XOR sha256_rotr (w (i - 2)) 19 XOR shr (w (i - 2)) 10
      in w(i := w (i - 16) + s0 + w (i - 7) + s1))"

definition sha256_schedule :: "(nat \<Rightarrow> u32) \<Rightarrow> nat \<Rightarrow> u32" where
  "sha256_schedule w = fold sha256_schedule_step [16..<64] w"

type_synonym sha_vars = "u32 \<times> u32 \<times> u32 \<times> u32 \<times> u32 \<times> u32 \<times> u32 \<times> u32"

definition sha256_round :: "(nat \<Rightarrow> u32) \<Rightarrow> nat \<Rightarrow> sha_vars \<Rightarrow> sha_vars" where
  "sha256_round w i v =
     (let (a, b, c, d, e, f, g, h) = v;
          S1 = sha256_rotr e 6 XOR sha256_rotr e 11 XOR sha256_rotr e 25;
          ch = (e AND f) XOR (NOT e AND g);
          t1 = h + S1 + ch + sha256_K ! i + w i;
          S0 = sha256_rotr a 2 XOR sha256_rotr a 13 XOR sha256_rotr a 22;
          mj = (a AND b) XOR (a AND c) XOR (b AND c);
          t2 = S0 + mj
      in (t1 + t2, a, b, c, d + t1, e, f, g))"

definition sha256_compress_block :: "sha256_state \<Rightarrow> sha256_state" where
  "sha256_compress_block s =
     (let w = sha256_schedule (sh_w s); H = sh_h s;
          (a, b, c, d, e, f, g, h) =
            fold (sha256_round w) [0..<64] (H 0, H 1, H 2, H 3, H 4, H 5, H 6, H 7)
      in s\<lparr>sh_h := H(0 := H 0 + a, 1 := H 1 + b, 2 := H 2 + c, 3 := H 3 + d, 4 := H 4 + e, 5 := H 5 + f,
             6 := H 6 + g, 7 := H 7 + h)\<rparr>)"

definition sha256_match :: "u32 \<Rightarrow> bool" where
  "sha256_match addr = in_block (addr AND NOT 0x3000) 0x400F8000 0x28"

definition sha256_read :: "u32 \<Rightarrow> sha256_state \<Rightarrow> u32" where
  "sha256_read offset s =
     (let offset = offset AND 0xFFF in
      if offset = 0x00 then sh_csr s
      else if offset \<ge> 0x08 \<and> offset < 0x08 + 32 \<and> (offset - 0x08) mod 4 = 0
      then sh_h s (unat ((offset - 0x08) div 4))
      else 0)"

definition sha256_swap :: "u32 \<Rightarrow> u32" where
  "sha256_swap w = (shr w 24 AND 0xFF) OR (shr w 8 AND 0xFF00) OR (shl w 8 AND 0xFF0000) OR (shl w 24 AND 0xFF000000)"

definition sha256_write :: "u32 \<Rightarrow> u32 \<Rightarrow> sha256_state \<Rightarrow> sha256_state" where
  "sha256_write offset val s =
     (let offset = offset AND 0xFFF in
      if offset = 0x00 then
        (let s1 = (if val AND shl 1 31 \<noteq> 0 then sha256_init s else s)
         in if val AND shl 1 4 \<noteq> 0 then s1\<lparr>sh_csr := sh_csr s1 AND NOT (shl 1 4)\<rparr> else s1)
      else if offset = 0x04 then
        (if sh_nw s \<ge> 16 then s\<lparr>sh_csr := sh_csr s OR shl 1 4\<rparr>
         else let w = (if sh_bswap s then sha256_swap val else val);
                  s1 = (if sh_nw s = 0 then s\<lparr>sh_csr := sh_csr s AND NOT (shl 1 1)\<rparr> else s);
                  s2 = s1\<lparr>sh_w := (sh_w s1)(sh_nw s1 := w), sh_nw := sh_nw s1 + 1\<rparr>
              in if sh_nw s2 = 16
                 then let s3 = sha256_compress_block s2 in s3\<lparr>sh_nw := 0, sh_csr := sh_csr s3 OR shl 1 1\<rparr>
                 else s2)
      else s)"

subsection \<open>Reference: FIPS 180-4\<close>

text \<open>The hash function as the standard writes it: the message schedule by recursion on its index,
  with rotations, and the compression function over a block of sixteen words.\<close>

text \<open>The constants are the first 32 bits of the fractional parts of roots of primes: cube roots of the first
  64 for the rounds, square roots of the first eight for the initial value. A root is found bit by bit.\<close>

fun root_bits :: "nat \<Rightarrow> nat \<Rightarrow> nat \<Rightarrow> nat \<Rightarrow> nat" where
  "root_bits n x 0 acc = acc"
| "root_bits n x (Suc k) acc = root_bits n x k (if (acc + 2 ^ k) ^ n \<le> x then acc + 2 ^ k else acc)"

definition fips_primes :: "nat list" where
  "fips_primes = [2, 3, 5, 7, 11, 13, 17, 19, 23, 29, 31, 37, 41, 43, 47, 53, 59, 61, 67, 71, 73, 79, 83, 89, 97, 101, 103, 107,
     109, 113, 127, 131, 137, 139, 149, 151, 157, 163, 167, 173, 179, 181, 191, 193, 197, 199, 211, 223, 227, 229, 233, 239, 241,
     251, 257, 263, 269, 271, 277, 281, 283, 293, 307, 311]"

definition frac_root :: "nat \<Rightarrow> nat \<Rightarrow> u32" where
  "frac_root n q = of_nat (root_bits n (q * 2 ^ (32 * n)) 40 0)"

definition fips_K :: "nat \<Rightarrow> u32" where
  "fips_K t = frac_root 3 (fips_primes ! t)"

definition fips_s0 :: "u32 \<Rightarrow> u32" where
  "fips_s0 x = word_rotr 7 x XOR word_rotr 18 x XOR shr x 3"

definition fips_s1 :: "u32 \<Rightarrow> u32" where
  "fips_s1 x = word_rotr 17 x XOR word_rotr 19 x XOR shr x 10"

fun fips_W :: "(nat \<Rightarrow> u32) \<Rightarrow> nat \<Rightarrow> u32" where
  "fips_W M t =
     (if t < 16 then M t
      else fips_s1 (fips_W M (t - 2)) + fips_W M (t - 7) + fips_s0 (fips_W M (t - 15)) + fips_W M (t - 16))"

declare fips_W.simps [simp del]

definition fips_S0 :: "u32 \<Rightarrow> u32" where
  "fips_S0 x = word_rotr 2 x XOR word_rotr 13 x XOR word_rotr 22 x"

definition fips_S1 :: "u32 \<Rightarrow> u32" where
  "fips_S1 x = word_rotr 6 x XOR word_rotr 11 x XOR word_rotr 25 x"

definition fips_T1 :: "u32 \<Rightarrow> sha_vars \<Rightarrow> u32" where
  "fips_T1 kw v = (let (a, b, c, d, e, f, g, h) = v in h + fips_S1 e + ((e AND f) XOR (NOT e AND g)) + kw)"

definition fips_T2 :: "sha_vars \<Rightarrow> u32" where
  "fips_T2 v = (let (a, b, c, d, e, f, g, h) = v in fips_S0 a + ((a AND b) XOR (a AND c) XOR (b AND c)))"

primrec fips_rounds :: "(nat \<Rightarrow> u32) \<Rightarrow> nat \<Rightarrow> sha_vars \<Rightarrow> sha_vars" where
  "fips_rounds W 0 v = v"
| "fips_rounds W (Suc t) v =
     (let u = fips_rounds W t v; (a, b, c, d, e, f, g, h) = u; T1 = fips_T1 (fips_K t + W t) u
      in (T1 + fips_T2 u, a, b, c, d + T1, e, f, g))"

definition sha_list :: "sha_vars \<Rightarrow> u32 list" where
  "sha_list v = (let (a, b, c, d, e, f, g, h) = v in [a, b, c, d, e, f, g, h])"

definition fips_compress :: "(nat \<Rightarrow> u32) \<Rightarrow> u32 list \<Rightarrow> u32 list" where
  "fips_compress M H =
     map2 (+) H (sha_list (fips_rounds (fips_W M) 64 (H ! 0, H ! 1, H ! 2, H ! 3, H ! 4, H ! 5, H ! 6, H ! 7)))"

definition fips_H0 :: "u32 list" where
  "fips_H0 = map (frac_root 2) (take 8 fips_primes)"

text \<open>The words of a block of 64 bytes are big-endian.\<close>

definition fips_block :: "u8 list \<Rightarrow> nat \<Rightarrow> u32" where
  "fips_block bs t = shl (ucast (bs ! (4 * t))) 24 OR shl (ucast (bs ! (4 * t + 1))) 16 OR
     shl (ucast (bs ! (4 * t + 2))) 8 OR ucast (bs ! (4 * t + 3))"

definition fips_hash :: "u8 list list \<Rightarrow> u32 list" where
  "fips_hash blocks = fold (\<lambda>b H. fips_compress (fips_block b) H) blocks fips_H0"

subsection \<open>The engine computes it\<close>

lemma rotr_eq:
  assumes "n < 32"
  shows "sha256_rotr x n = word_rotr n x"
proof (rule bit_word_eqI)
  fix i assume "i < LENGTH(32)"
  moreover have c: "n + i = i + n" by simp
  moreover have "bit x (i + n) \<Longrightarrow> i + n < 32" using bit_imp_le_length [of x "i + n"] by simp
  ultimately show "bit (sha256_rotr x n) i = bit (word_rotr n x) i"
    using assms by (cases "i + n < 32") (auto simp: sha256_rotr_def bit_simps c mod_if)
qed

lemma schedule_step:
  "sha256_schedule_step i w i = fips_s1 (w (i - 2)) + w (i - 7) + fips_s0 (w (i - 15)) + w (i - 16)"
  "j \<noteq> i \<Longrightarrow> sha256_schedule_step i w j = w j"
  by (simp_all add: sha256_schedule_step_def Let_def rotr_eq fips_s0_def fips_s1_def ac_simps)

lemma schedule_eq:
  "n \<le> 48 \<Longrightarrow> i < 16 + n \<Longrightarrow> fold sha256_schedule_step [16..<16 + n] w i = fips_W w i"
proof (induction n arbitrary: i)
  case 0
  then show ?case by (simp add: fips_W.simps)
next
  case (Suc n)
  let ?w = "fold sha256_schedule_step [16..<16 + n] w"
  have f: "fold sha256_schedule_step [16..<16 + Suc n] w = sha256_schedule_step (16 + n) ?w"
    by (simp only: add_Suc_right upt_Suc le_add1 if_True fold_append fold_simps comp_apply)
  show ?case
  proof (cases "i = 16 + n")
    case True
    have IH: "?w (16 + n - k) = fips_W w (16 + n - k)" if "0 < k" for k using Suc that by simp
    have "fips_W w (16 + n) = fips_s1 (fips_W w (16 + n - 2)) + fips_W w (16 + n - 7) +
        fips_s0 (fips_W w (16 + n - 15)) + fips_W w (16 + n - 16)"
      by (subst fips_W.simps) simp
    then show ?thesis unfolding f True schedule_step by (simp only: IH zero_less_numeral)
  next
    case False
    then show ?thesis using Suc unfolding f by (simp add: schedule_step)
  qed
qed

lemma round_eq:
  "sha256_round w t u = (let (a, b, c, d, e, f, g, h) = u; T1 = fips_T1 (sha256_K ! t + w t) u
     in (T1 + fips_T2 u, a, b, c, d + T1, e, f, g))"
proof -
  obtain a b c d e f g h where "u = (a, b, c, d, e, f, g, h)" by (metis prod.exhaust)
  then show ?thesis
    by (simp add: sha256_round_def rotr_eq fips_T1_def fips_T2_def fips_S0_def fips_S1_def Let_def add.assoc)
qed

text \<open>A root lies between its candidates, so the tables of the program can be checked by two inequalities for
  each constant.\<close>

lemma root_bits_eq:
  assumes "(acc + r) ^ n \<le> x" "x < (acc + r + 1) ^ n" "r < 2 ^ k" "0 < n"
  shows "root_bits n x k acc = acc + r"
  using assms
proof (induction k arbitrary: acc r)
  case (Suc k)
  have c: "(acc + 2 ^ k) ^ n \<le> x \<longleftrightarrow> 2 ^ k \<le> r"
  proof
    assume "2 ^ k \<le> r"
    then have "(acc + 2 ^ k) ^ n \<le> (acc + r) ^ n" by (intro power_mono) simp_all
    then show "(acc + 2 ^ k) ^ n \<le> x" using Suc.prems(1) by linarith
  next
    assume a: "(acc + 2 ^ k) ^ n \<le> x"
    show "2 ^ k \<le> r"
    proof (rule ccontr)
      assume "\<not> 2 ^ k \<le> r"
      then have "(acc + r + 1) ^ n \<le> (acc + 2 ^ k) ^ n" by (intro power_mono) simp_all
      then show False using a Suc.prems(2) by linarith
    qed
  qed
  show ?case
  proof (cases "2 ^ k \<le> r")
    case True
    then have "root_bits n x k (acc + 2 ^ k) = acc + 2 ^ k + (r - 2 ^ k)"
      using Suc.prems by (intro Suc.IH) simp_all
    then show ?thesis using True c by simp
  next
    case False
    then show ?thesis using Suc.prems c Suc.IH [of acc r] by simp
  qed
qed simp

lemma frac_root_eq:
  assumes "r ^ n \<le> q * 2 ^ (32 * n)" "q * 2 ^ (32 * n) < (r + 1) ^ n" "r < 2 ^ 40" "0 < n"
  shows "frac_root n q = of_nat r"
  using root_bits_eq [of 0 r n "q * 2 ^ (32 * n)" 40] assms by (simp add: frac_root_def)

lemma map_frac_root:
  "list_all2 (\<lambda>q r. r ^ n \<le> q * 2 ^ (32 * n) \<and> q * 2 ^ (32 * n) < (r + 1) ^ n \<and> r < 2 ^ 40) qs rs \<Longrightarrow> 0 < n \<Longrightarrow>
   map (frac_root n) qs = map of_nat rs"
  by (induction rule: list_all2_induct) (simp_all add: frac_root_eq)

definition cube_roots :: "nat list" where
  "cube_roots = [
     5411319704, 6194414737, 7344290767, 8215976869, 9551921755, 10098905585, 11043570340, 11460697813,
     12214315672, 13195500289, 13492127166, 14311783875, 14809980276, 15046980094, 15499789991, 16133124468,
     16720292289, 16907126662, 17444216262, 17784676812, 17950125167, 18429019306, 18734950876, 19175934170,
     19734090066, 20001703533, 20132865992, 20390182855, 20516441075, 20764397895, 21588763473, 21813078375,
     22141143685, 22248366392, 22769593852, 22871018771, 23170020180, 23461497531, 23651862830, 23931792517,
     24205322401, 24295138891, 24734567280, 24820601251, 24990902297, 25075189284, 25569408389, 26045227120,
     26200031510, 26276752392, 26428864332, 26653801653, 26727943347, 27092625994, 27306805839, 27517677555,
     27725365998, 27793908591, 27997534228, 28131656200, 28198240250, 28526537963, 28973835255, 29099129074]"

lemma sha256_K_roots: "map (frac_root 3) fips_primes = sha256_K"
proof -
  have "map (frac_root 3) fips_primes = map of_nat cube_roots"
    by (rule map_frac_root) (simp_all add: fips_primes_def cube_roots_def)
  then show ?thesis by (simp add: cube_roots_def sha256_K_def)
qed

lemma fips_H0_roots:
  "fips_H0 = [0x6a09e667, 0xbb67ae85, 0x3c6ef372, 0xa54ff53a, 0x510e527f, 0x9b05688c, 0x1f83d9ab, 0x5be0cd19]"
proof -
  have "map (frac_root 2) (take 8 fips_primes) = map of_nat [
     6074000999, 7439101573, 9603838834, 11363415354, 14244795007, 15485724812, 17708603819, 18721328409]"
    by (rule map_frac_root) (simp_all add: fips_primes_def)
  then show ?thesis by (simp add: fips_H0_def)
qed

lemma sha256_K_fips: "t < 64 \<Longrightarrow> sha256_K ! t = fips_K t"
proof -
  have "length fips_primes = 64" by (simp add: fips_primes_def)
  then show "t < 64 \<Longrightarrow> sha256_K ! t = fips_K t" unfolding sha256_K_roots [symmetric] fips_K_def by (simp only: nth_map)
qed

lemma rounds_eq:
  assumes "\<And>i. i < n \<Longrightarrow> w i = W i" "n \<le> 64"
  shows "fold (sha256_round w) [0..<n] v = fips_rounds W n v"
  using assms
proof (induction n)
  case (Suc n)
  then have w: "w n = W n" "sha256_K ! n = fips_K n" using sha256_K_fips by simp_all
  have "fold (sha256_round w) [0..<Suc n] v = sha256_round w n (fips_rounds W n v)" using Suc by simp
  also have "sha256_round w n (fips_rounds W n v) = fips_rounds W (Suc n) v"
    by (simp only: round_eq fips_rounds.simps Let_def w)
  finally show ?case .
qed simp

definition sha_digest :: "sha256_state \<Rightarrow> u32 list" where
  "sha_digest s = map (sh_h s) [0..<8]"

lemma fips_W_cong: "(\<And>i. i < 16 \<Longrightarrow> M i = M' i) \<Longrightarrow> fips_W M t = fips_W M' t"
proof (induction t rule: less_induct)
  case (less t)
  then show ?case by (subst (1 2) fips_W.simps) simp
qed

lemma compress_eq: "sha_digest (sha256_compress_block s) = fips_compress (sh_w s) (sha_digest s)"
proof -
  have e: "sha256_schedule (sh_w s) i = fips_W (sh_w s) i" if "i < 64" for i
    using schedule_eq [of 48 i "sh_w s"] that by (simp add: sha256_schedule_def)
  have r: "fold (sha256_round (sha256_schedule (sh_w s))) [0..<64] v = fips_rounds (fips_W (sh_w s)) 64 v" for v
    by (rule rounds_eq) (simp_all add: e)
  have l: "[0..<8] = [0, 1, 2, 3, 4, 5, 6, 7 :: nat]" by (simp add: upt_rec)
  show ?thesis
    unfolding fips_compress_def sha_digest_def sha256_compress_block_def Let_def r
    by (simp add: l sha_list_def split_beta Let_def)
qed

lemma swap_rd32: "sha256_swap (rd32 f p) =
  shl (ucast (f p)) 24 OR shl (ucast (f (p + 1))) 16 OR shl (ucast (f (p + 2))) 8 OR ucast (f (p + 3))"
proof (rule bit_word_eqI)
  have m: "(0xFF00 :: u32) = push_bit 8 (mask 8)" "(0xFF0000 :: u32) = push_bit 16 (mask 8)"
    "(0xFF000000 :: u32) = push_bit 24 (mask 8)" by (simp_all add: mask_eq_exp_minus_1)
  have b: "\<not> bit (f q) j" if "8 \<le> j" for q j using that bit_imp_le_length [of "f q" j] by auto
  fix i assume "i < LENGTH(32)"
  then consider "i < 8" | "8 \<le> i" "i < 16" | "16 \<le> i" "i < 24" | "24 \<le> i" "i < 32"
    by (fastforce simp: not_less)
  then show "bit (sha256_swap (rd32 f p)) i = bit (shl (ucast (f p)) 24 OR shl (ucast (f (p + 1))) 16 OR
      shl (ucast (f (p + 2))) 8 OR ucast (f (p + 3)) :: u32) i"
    unfolding sha256_swap_def rd32_def m numeral_masks(2) by cases (auto simp: bit_simps b)
qed

section \<open>Hashing through the registers\<close>

text \<open>The 16 words of a block as the processor reads them from memory, and feeding words to the
  engine.\<close>

definition block_words :: "u8 list \<Rightarrow> u32 list" where
  "block_words bs = map (\<lambda>t. rd32 (\<lambda>i. bs ! i) (4 * t)) [0..<16]"

definition sha_feed :: "u32 list \<Rightarrow> sha256_state \<Rightarrow> sha256_state" where
  "sha_feed ws s = fold (sha256_write 0x04) ws s"

lemma feed_prefix:
  assumes "sh_nw s = 0" "sh_bswap s" "n \<le> 15" "n \<le> length ws"
  shows "let s' = sha_feed (take n ws) s in
    sh_nw s' = n \<and> sh_bswap s' \<and> sh_h s' = sh_h s \<and> (\<forall>i < n. sh_w s' i = sha256_swap (ws ! i))"
  using assms(3,4)
proof (induction n)
  case 0
  then show ?case using assms(1,2) by (simp add: sha_feed_def)
next
  case (Suc n)
  define s1 where "s1 = sha_feed (take n ws) s"
  have IH: "sh_nw s1 = n" "sh_bswap s1" "sh_h s1 = sh_h s" "\<forall>i < n. sh_w s1 i = sha256_swap (ws ! i)"
    using Suc by (simp_all add: s1_def Let_def)
  have "sha_feed (take (Suc n) ws) s = sha256_write 0x04 (ws ! n) s1"
    using Suc.prems by (simp add: sha_feed_def s1_def take_Suc_conv_app_nth)
  then show ?case using IH Suc.prems by (auto simp: sha256_write_def Let_def less_Suc_eq)
qed

lemma feed_block:
  assumes "sh_nw s = 0" "sh_bswap s" "length bs = 64"
  shows "let s' = sha_feed (block_words bs) s in
    sh_nw s' = 0 \<and> sh_bswap s' \<and> bit (sh_csr s') 1 \<and> sha_digest s' = fips_compress (fips_block bs) (sha_digest s)"
proof -
  let ?ws = "block_words bs"
  have len: "length ?ws = 16" by (simp add: block_words_def)
  define s15 where "s15 = sha_feed (take 15 ?ws) s"
  have p: "sh_nw s15 = 15" "sh_bswap s15" "sh_h s15 = sh_h s" "\<forall>i < 15. sh_w s15 i = sha256_swap (?ws ! i)"
    using feed_prefix [OF assms(1,2), of 15 ?ws] len by (simp_all add: s15_def Let_def)
  define s16 where "s16 = s15\<lparr>sh_w := (sh_w s15)(15 := sha256_swap (?ws ! 15)), sh_nw := 16\<rparr>"
  have "?ws = take 15 ?ws @ [?ws ! 15]" using len take_Suc_conv_app_nth [of 15 ?ws] by simp
  then have "sha_feed ?ws s = sha256_write 0x04 (?ws ! 15) s15"
    unfolding s15_def sha_feed_def by (metis fold_append fold_simps comp_apply)
  then have w: "sha_feed ?ws s = (sha256_compress_block s16)\<lparr>sh_nw := 0, sh_csr := sh_csr (sha256_compress_block s16) OR shl 1 1\<rparr>"
    using p by (simp add: sha256_write_def Let_def s16_def)
  have blk: "sh_w s16 i = fips_block bs i" if "i < 16" for i
  proof -
    have "sh_w s16 i = sha256_swap (?ws ! i)" using p(4) that by (cases "i = 15") (simp_all add: s16_def)
    then show ?thesis using that by (simp add: block_words_def swap_rd32 fips_block_def)
  qed
  have "fips_W (sh_w s16) = fips_W (fips_block bs)" by (rule ext) (rule fips_W_cong, rule blk)
  then have "sha_digest (sha256_compress_block s16) = fips_compress (fips_block bs) (sha_digest s)"
    unfolding compress_eq fips_compress_def by (simp add: sha_digest_def s16_def p(3))
  moreover have "sh_bswap (sha256_compress_block s16) = sh_bswap s16"
    by (simp add: sha256_compress_block_def Let_def split_beta)
  ultimately show ?thesis
    unfolding Let_def w using p(2) by (simp add: sha_digest_def s16_def bit_simps)
qed

text \<open>C29. The SHA-256 engine is the hash function of the standard: after a start, feeding any number of
  64-byte blocks word by word as they lie in memory leaves the standard's hash of these blocks in the
  sum registers, from which it is read, and reports it valid.\<close>

theorem sha256_engine_correct:
  assumes "\<forall>b \<in> set blocks. length b = 64"
  shows "let s = sha_feed (concat (map block_words blocks)) (sha256_write 0x00 0x80000000 s0) in
    map (\<lambda>i. sha256_read (0x08 + 4 * of_nat i) s) [0..<8] = fips_hash blocks \<and> bit (sha256_read 0x00 s) 1"
proof -
  define s1 where "s1 = sha256_write 0x00 0x80000000 s0"
  have s1: "sh_nw s1 = 0" "sh_bswap s1" "sha_digest s1 = fips_H0" "bit (sh_csr s1) 1"
    by (simp_all add: s1_def sha256_write_def sha256_init_def sha_digest_def fips_H0_roots upt_rec bit_simps)
  have "sh_nw s = 0 \<Longrightarrow> sh_bswap s \<Longrightarrow> bit (sh_csr s) 1 \<Longrightarrow>
      let s' = sha_feed (concat (map block_words blocks)) s in
      sha_digest s' = fold (\<lambda>b H. fips_compress (fips_block b) H) blocks (sha_digest s) \<and> bit (sh_csr s') 1" for s
    using assms
  proof (induction blocks arbitrary: s)
    case Nil
    then show ?case by (simp add: sha_feed_def)
  next
    case (Cons b blocks)
    have l: "length b = 64" using Cons.prems(4) by simp
    show ?case
      using feed_block [OF Cons.prems(1,2) l] Cons.IH [of "sha_feed (block_words b) s"] Cons.prems(4)
      by (simp add: Let_def sha_feed_def)
  qed
  from this [OF s1(1,2,4)] have
    f: "sha_digest (sha_feed (concat (map block_words blocks)) s1) = fips_hash blocks"
      "bit (sh_csr (sha_feed (concat (map block_words blocks)) s1)) 1"
    by (simp_all add: Let_def s1(3) fips_hash_def)
  have l: "[0..<8] = [0, 1, 2, 3, 4, 5, 6, 7 :: nat]" by (simp add: upt_rec)
  have "map (\<lambda>i. sha256_read (0x08 + 4 * of_nat i) s) [0..<8] = sha_digest s" for s
    unfolding l sha_digest_def by (simp add: sha256_read_def)
  then show ?thesis unfolding s1_def [symmetric] Let_def using f by (simp add: sha256_read_def)
qed

theorem sha256_engine_witness:
  "let s = sha_feed (block_words (0x80 # replicate 63 0)) (sha256_write 0x00 0x80000000 sha256_boot) in
   map (\<lambda>i. sha256_read (0x08 + 4 * of_nat i) s) [0..<8] = fips_hash [0x80 # replicate 63 0]"
proof -
  have "\<forall>b \<in> set [0x80 # replicate 63 (0 :: u8)]. length b = 64" by simp
  from sha256_engine_correct [OF this, of sha256_boot] show ?thesis by (simp add: Let_def)
qed

end
