(* ===== verification/Hstx.thy ===== *)
theory Hstx
  imports Emu_Prelude
begin

unbundle bit_operations_syntax

text \<open>
  The high-speed transmitter of \<^verbatim>\<open>src/devtools.c\<close>: control registers, command FIFO, shifter, TMDS
  encoder and the log of serialised bytes. The FIFO array is the list of the words it holds. The
  running disparity outlives a reset of the block, as in the source.
\<close>

section \<open>State and operations\<close>

record hstx_state =
  hx_csr :: u32
  hx_bit :: "nat \<Rightarrow> u32"
  hx_expand_shift :: u32
  hx_expand_tmds :: u32
  hx_fifo :: "u32 list"
  hx_fifo_wof :: bool
  hx_tx :: "nat \<Rightarrow> u8"
  hx_tx_wr :: nat
  hx_tx_rd :: nat
  hx_tx_n :: nat
  hx_tmds_disp :: int

definition hstx_boot :: hstx_state where
  "hstx_boot = \<lparr>hx_csr = 0x10050600, hx_bit = (\<lambda>_. 0), hx_expand_shift = 0, hx_expand_tmds = 0, hx_fifo = [],
     hx_fifo_wof = False, hx_tx = (\<lambda>_. 0), hx_tx_wr = 0, hx_tx_rd = 0, hx_tx_n = 0, hx_tmds_disp = 0\<rparr>"

definition hstx_init :: "hstx_state \<Rightarrow> hstx_state" where
  "hstx_init s = s\<lparr>hx_csr := 0x10050600, hx_bit := (\<lambda>_. 0), hx_expand_shift := 0, hx_expand_tmds := 0,
     hx_fifo := [], hx_fifo_wof := False, hx_tx_wr := 0, hx_tx_rd := 0, hx_tx_n := 0\<rparr>"

text \<open>The two transition-minimising chains, one bit per pass; \<open>prev\<close> is 0 or 1.\<close>

definition xnor_step :: "u8 \<Rightarrow> nat \<Rightarrow> u8 \<times> u8 \<Rightarrow> u8 \<times> u8" where
  "xnor_step d i p =
     (let (prev, q_m) = p;
          prev1 = (if prev XOR (shr d i AND 1) = 0 then 1 else 0)
      in (prev1, q_m OR shl prev1 i))"

definition xor_step :: "u8 \<Rightarrow> nat \<Rightarrow> u8 \<times> u8 \<Rightarrow> u8 \<times> u8" where
  "xor_step d i p =
     (let (prev, q_m) = p;
          prev1 = prev XOR (shr d i AND 1)
      in (prev1, q_m OR shl prev1 i))"

definition popcount8 :: "u8 \<Rightarrow> nat" where
  "popcount8 d = length (filter (bit d) [0..<8])"

text \<open>\<^verbatim>\<open>q_m\<close> is a \<^verbatim>\<open>uint8_t\<close>: the assignment that marks the XOR coding with bit 8 truncates.\<close>

definition tmds_q_m :: "u8 \<Rightarrow> u8" where
  "tmds_q_m d =
     (let n1 = popcount8 d in
      if n1 > 4 \<or> (n1 = 4 \<and> d AND 1 = 0) then snd (fold (xnor_step d) [1..<8] (d AND 1, d AND 1))
      else (let q_m = snd (fold (xor_step d) [1..<8] (d AND 1, d AND 1))
            in ucast ((ucast q_m OR 0x100) :: u32)))"

definition hstx_tmds_encode :: "u8 \<Rightarrow> int \<Rightarrow> u16 \<times> int" where
  "hstx_tmds_encode d disp =
     (let q_m = (ucast (tmds_q_m d) :: u32);
          b8 = q_m AND 0x100 \<noteq> 0;
          n1q = popcount8 (tmds_q_m d);
          balance = 2 * int n1q - 8;
          (sym, disp1) =
            (if disp = 0 \<or> balance = 0 then
               (let (sym, disp1) =
                      (if b8 then (0x200 OR q_m, disp + balance)
                       else (0x100 OR (q_m XOR 0xFF), disp - balance))
                in (sym, if balance = 0 \<and> \<not> b8 then - disp1 else disp1))
             else if (disp > 0) = (balance > 0) then
               (0x200 OR (NOT q_m AND 0x1FF),
                disp + (if b8 then - balance else balance) + (if b8 then 2 else - 2))
             else
               (q_m AND 0x1FF,
                disp + (if b8 then balance else - balance) + (if \<not> b8 then 2 else - 2)))
      in (ucast sym AND 0x3FF, disp1))"

definition hstx_tx_push_byte :: "u8 \<Rightarrow> hstx_state \<Rightarrow> hstx_state" where
  "hstx_tx_push_byte b s =
     (if hx_tx_n s \<ge> 1024 then s
      else s\<lparr>hx_tx := (hx_tx s)(hx_tx_wr s := b), hx_tx_wr := Suc (hx_tx_wr s) mod 1024,
             hx_tx_n := Suc (hx_tx_n s)\<rparr>)"

definition hstx_tx_take :: "hstx_state \<Rightarrow> u8 \<times> hstx_state" where
  "hstx_tx_take s =
     (hx_tx s (hx_tx_rd s), s\<lparr>hx_tx_rd := Suc (hx_tx_rd s) mod 1024, hx_tx_n := hx_tx_n s - 1\<rparr>)"

definition hstx_pop_tx :: "hstx_state \<Rightarrow> u8 \<times> hstx_state" where
  "hstx_pop_tx s =
     (if hx_tx_n s = 0 then (0, s)
      else (let (v, s1) = hstx_tx_take s in (if v \<noteq> 0 then v else 1, s1)))"

definition hstx_tx_level :: "hstx_state \<Rightarrow> u32" where
  "hstx_tx_level s = of_nat (hx_tx_n s)"

text \<open>The loop state of the serialiser: the bits collected for the next byte, their number, and the
  block; then one serial bit, one pass of the loop with the shifter, and the whole word.\<close>

type_synonym ser_state = "u32 \<times> nat \<times> hstx_state"

definition emit_bit :: "u32 \<Rightarrow> ser_state \<Rightarrow> ser_state" where
  "emit_bit ob st =
     (let (acc, n, s) = st; acc1 = acc OR shl ob n; n1 = Suc n
      in if n1 = 8 then (0, 0, hstx_tx_push_byte (ucast acc1) s) else (acc1, n1, s))"

definition hstx_shift_pass :: "bool \<Rightarrow> nat \<Rightarrow> u32 \<times> ser_state \<Rightarrow> u32 \<times> ser_state" where
  "hstx_shift_pass expand shift p =
     (let (sr, acc, n, s) = p;
          st = (if expand then
                  (let (sym, disp) = hstx_tmds_encode (ucast (sr AND 0xFF)) (hx_tmds_disp s)
                   in fold (\<lambda>b. emit_bit (shr (ucast sym) b AND 1)) [0..<10] (acc, n, s\<lparr>hx_tmds_disp := disp\<rparr>))
                else emit_bit (shr sr 31 AND 1) (acc, n, s));
          r = (if expand then 8 else if shift \<noteq> 0 then shift else 32) mod 32
      in (if r \<noteq> 0 then shr sr r OR shl sr (32 - r) else sr, st))"

definition hstx_serialize_word :: "u32 \<Rightarrow> hstx_state \<Rightarrow> hstx_state" where
  "hstx_serialize_word word s =
     (let shift = unat (shr (hx_csr s) 8 AND 0x1F);
          k = unat (shr (hx_csr s) 16 AND 0x1F);
          n_shifts = (if k = 0 then 32 else k);
          expand = hx_csr s AND shl 1 1 \<noteq> 0;
          (sr, acc, acc_n, s1) = (hstx_shift_pass expand shift ^^ n_shifts) (word, 0, 0, s)
      in if acc_n \<noteq> 0 then hstx_tx_push_byte (ucast acc) s1 else s1)"

definition hstx_match :: "u32 \<Rightarrow> bool" where
  "hstx_match addr =
     (let base = addr AND NOT 0x3000 in in_block base 0x400C0000 0x30 \<or> in_block base 0x50600000 0x08)"

definition hstx_read :: "u32 \<Rightarrow> hstx_state \<Rightarrow> u32" where
  "hstx_read offset s =
     (let offset = offset AND 0xFFF in
      if offset = 0 then hx_csr s
      else if 0x04 \<le> offset \<and> offset \<le> 0x20 \<and> (offset - 0x04) mod 4 = 0 then hx_bit s (unat ((offset - 0x04) div 4))
      else if offset = 0x24 then hx_expand_shift s
      else if offset = 0x28 then hx_expand_tmds s
      else 0)"

definition hstx_fifo_read :: "u32 \<Rightarrow> hstx_state \<Rightarrow> u32" where
  "hstx_fifo_read offset s =
     (let offset = offset AND 0xFFF; c = length (hx_fifo s) in
      if offset = 0 then
        (of_nat c AND 0xFF) OR cond_mask (c = 0) (shl 1 9) OR cond_mask (c \<ge> 8) (shl 1 8)
          OR cond_mask (hx_fifo_wof s) (shl 1 10)
      else 0)"

definition hstx_write :: "u32 \<Rightarrow> u32 \<Rightarrow> hstx_state \<Rightarrow> hstx_state" where
  "hstx_write offset val s =
     (let offset = offset AND 0xFFF in
      if offset = 0 then s\<lparr>hx_csr := val\<rparr>
      else if 0x04 \<le> offset \<and> offset \<le> 0x20 \<and> (offset - 0x04) mod 4 = 0 then
        s\<lparr>hx_bit := (hx_bit s)(unat ((offset - 0x04) div 4) := val)\<rparr>
      else if offset = 0x24 then s\<lparr>hx_expand_shift := val\<rparr>
      else if offset = 0x28 then s\<lparr>hx_expand_tmds := val\<rparr>
      else s)"

definition hstx_fifo_write :: "u32 \<Rightarrow> u32 \<Rightarrow> hstx_state \<Rightarrow> hstx_state" where
  "hstx_fifo_write offset val s =
     (let offset = offset AND 0xFFF in
      if offset = 0 then (if val AND shl 1 10 \<noteq> 0 then s\<lparr>hx_fifo_wof := False\<rparr> else s)
      else if offset = 0x04 then
        (if length (hx_fifo s) \<ge> 8 then s\<lparr>hx_fifo_wof := True\<rparr>
         else (let s1 = s\<lparr>hx_fifo := hx_fifo s @ [val]\<rparr> in
               if hx_csr s1 AND shl 1 0 \<noteq> 0 then hstx_serialize_word val (s1\<lparr>hx_fifo := tl (hx_fifo s1)\<rparr>)
               else s1))
      else s)"

section \<open>The log of serialised bytes\<close>

definition hstx_wf :: "hstx_state \<Rightarrow> bool" where
  "hstx_wf s \<longleftrightarrow> ring_ok 1024 (hx_tx_rd s) (hx_tx_wr s) (hx_tx_n s)"

definition hstx_log :: "hstx_state \<Rightarrow> u8 list" where
  "hstx_log s = ring_list (hx_tx s) 1024 (hx_tx_rd s) (hx_tx_n s)"

definition hstx_dequeue :: "hstx_state \<Rightarrow> u8 \<times> hstx_state" where
  "hstx_dequeue s = (if hx_tx_n s = 0 then (0, s) else hstx_tx_take s)"

lemma hstx_log_length [simp]: "length (hstx_log s) = hx_tx_n s"
  by (simp add: hstx_log_def)

lemma hstx_push_ring:
  assumes "hstx_wf s" "hx_tx_n s < 1024"
  shows "hstx_wf (hstx_tx_push_byte b s) \<and> hstx_log (hstx_tx_push_byte b s) = hstx_log s @ [b]"
  using assms ring_ok_push [of 1024] ring_list_push [of 1024]
  by (simp add: hstx_tx_push_byte_def hstx_wf_def hstx_log_def)

lemma hstx_dequeue_ring:
  assumes "hstx_wf s" "0 < hx_tx_n s"
  shows "hstx_wf (snd (hstx_dequeue s)) \<and> hstx_log s = fst (hstx_dequeue s) # hstx_log (snd (hstx_dequeue s))"
  using assms ring_ok_pop [of 1024] ring_list_pop [OF ring_ok_rd assms(2), of 1024 "hx_tx_rd s" "hx_tx_wr s"]
  by (simp add: hstx_dequeue_def hstx_tx_take_def hstx_wf_def hstx_log_def)

interpretation hlog: fifo_queue 1024 hstx_wf hstx_log hstx_tx_push_byte hstx_dequeue
proof unfold_locales
  fix s b
  assume s: "hstx_wf s"
  then have le: "hx_tx_n s \<le> 1024" by (simp add: hstx_wf_def ring_ok_count)
  have full: "\<not> hx_tx_n s < 1024 \<Longrightarrow> hstx_tx_push_byte b s = s" by (simp add: hstx_tx_push_byte_def)
  have none: "hx_tx_n s = 0 \<Longrightarrow> hstx_dequeue s = (0, s) \<and> hstx_log s = []"
    by (simp add: hstx_dequeue_def hstx_log_def)
  show "hstx_wf (hstx_tx_push_byte b s)" using s hstx_push_ring full by metis
  show "hstx_wf (snd (hstx_dequeue s))" using s hstx_dequeue_ring none by fastforce
  show "length (hstx_log s) \<le> 1024" using le by simp
  show "hstx_log (hstx_tx_push_byte b s) = take 1024 (hstx_log s @ [b])"
    using hstx_push_ring [OF s] full le by (cases "hx_tx_n s < 1024") auto
  show "hstx_log (snd (hstx_dequeue s)) = tl (hstx_log s)"
    using hstx_dequeue_ring [OF s] none by (cases "hx_tx_n s = 0") auto
  show "hstx_log s \<noteq> [] \<Longrightarrow> fst (hstx_dequeue s) = hd (hstx_log s)"
    using hstx_dequeue_ring [OF s] none by (cases "hx_tx_n s = 0") auto
qed

section \<open>The serial stream\<close>

text \<open>Bits packed into bytes, first bit lowest; and what the loop state stands for: the log with the
  bits that wait for their byte.\<close>

fun pack_bits :: "bool list \<Rightarrow> u8 list" where
  "pack_bits [] = []"
| "pack_bits (b # bs) = horner_sum of_bool 2 (take 8 (b # bs)) # pack_bits (drop 7 bs)"

definition ser_ok :: "hstx_state \<Rightarrow> bool list \<Rightarrow> ser_state \<Rightarrow> bool" where
  "ser_ok s0 bs st \<longleftrightarrow>
     (\<exists>full rest s. st = (horner_sum of_bool 2 rest, length rest, s) \<and> length rest < 8 \<and>
        bs = full @ rest \<and> 8 dvd length full \<and>
        s\<lparr>hx_tmds_disp := 0\<rparr> = (fold hstx_tx_push_byte (pack_bits full) s0)\<lparr>hx_tmds_disp := 0\<rparr>)"

lemma pack_append: "8 dvd length xs \<Longrightarrow> pack_bits (xs @ ys) = pack_bits xs @ pack_bits ys"
proof (induction xs rule: pack_bits.induct)
  case (2 b bs)
  obtain k where "Suc (length bs) = 8 * k" using 2(2) by (auto elim!: dvdE)
  then have "7 \<le> length bs" by presburger
  moreover have "8 dvd length (drop 7 bs)"
    using 2(2) \<open>7 \<le> length bs\<close> by (simp add: dvd_diff_nat [of 8 "Suc (length bs)" 8, simplified])
  ultimately show ?case using 2(1) by simp
qed simp

lemma pack_short: "xs \<noteq> [] \<Longrightarrow> length xs \<le> 8 \<Longrightarrow> pack_bits xs = [horner_sum of_bool 2 xs]"
  by (cases xs) auto

lemma horner_snoc:
  "length xs < 32 \<Longrightarrow> horner_sum of_bool 2 xs OR shl (of_bool b) (length xs) = (horner_sum of_bool 2 (xs @ [b]) :: u32)"
  by (rule bit_word_eqI) (auto simp: bit_simps bit_horner_sum_bit_word_iff nth_append)

lemma horner_ucast:
  "length xs \<le> 8 \<Longrightarrow> ucast (horner_sum of_bool 2 xs :: u32) = (horner_sum of_bool 2 xs :: u8)"
  by (rule bit_word_eqI) (auto simp: bit_simps bit_horner_sum_bit_word_iff)

lemma push_disp: "hstx_tx_push_byte b (s\<lparr>hx_tmds_disp := d\<rparr>) = (hstx_tx_push_byte b s)\<lparr>hx_tmds_disp := d\<rparr>"
  by (simp add: hstx_tx_push_byte_def)

lemma emit_ok:
  assumes "ser_ok s0 bs st"
  shows "ser_ok s0 (bs @ [b]) (emit_bit (of_bool b) st)"
proof -
  obtain full rest s where st: "st = (horner_sum of_bool 2 rest, length rest, s)" "length rest < 8"
      "bs = full @ rest" "8 dvd length full"
      and s: "s\<lparr>hx_tmds_disp := 0\<rparr> = (fold hstx_tx_push_byte (pack_bits full) s0)\<lparr>hx_tmds_disp := 0\<rparr>"
    using assms unfolding ser_ok_def by blast
  have h: "horner_sum of_bool 2 rest OR shl (of_bool b) (length rest) = (horner_sum of_bool 2 (rest @ [b]) :: u32)"
    using st(2) by (simp add: horner_snoc)
  show ?thesis
  proof (cases "length rest = 7")
    case False
    then show ?thesis unfolding ser_ok_def
      using st s by (intro exI [of _ full] exI [of _ "rest @ [b]"] exI [of _ s])
        (simp add: emit_bit_def h del: horner_sum_append)
  next
    case True
    let ?v = "horner_sum of_bool 2 (rest @ [b]) :: u8"
    have e: "emit_bit (of_bool b) st = (0, 0, hstx_tx_push_byte ?v s)"
      unfolding emit_bit_def st(1) Let_def prod.case h using True horner_ucast [of "rest @ [b]"]
      by (simp del: horner_sum_append)
    have p: "pack_bits (full @ rest @ [b]) = pack_bits full @ [?v]"
      using True pack_append [OF st(4), of "rest @ [b]"] pack_short [of "rest @ [b]"] by simp
    have "(hstx_tx_push_byte ?v s)\<lparr>hx_tmds_disp := 0\<rparr>
        = (fold hstx_tx_push_byte (pack_bits (full @ rest @ [b])) s0)\<lparr>hx_tmds_disp := 0\<rparr>"
      unfolding p using s by (simp add: push_disp [symmetric])
    then show ?thesis unfolding ser_ok_def e
      by (intro exI [of _ "full @ rest @ [b]"] exI [of _ "[]"] exI [of _ "hstx_tx_push_byte ?v s"])
        (use st True in \<open>auto\<close>)
  qed
qed

lemma emit_disp [simp]: "hx_tmds_disp (snd (snd (emit_bit b st))) = hx_tmds_disp (snd (snd st))"
  by (cases st) (simp add: emit_bit_def hstx_tx_push_byte_def Let_def)

lemma emits_ok:
  "ser_ok s0 bs st \<Longrightarrow> ser_ok s0 (bs @ map f xs) (fold (\<lambda>i. emit_bit (of_bool (f i))) xs st)"
proof (induction xs arbitrary: bs st)
  case (Cons x xs)
  from Cons.IH [OF emit_ok [OF Cons.prems, of "f x"]] show ?case by simp
qed simp

lemma emits_disp: "hx_tmds_disp (snd (snd (fold (\<lambda>i. emit_bit (g i)) xs st))) = hx_tmds_disp (snd (snd st))"
  by (induction xs arbitrary: st) auto

lemma ser_ok_disp: "ser_ok s0 bs (acc, n, s) \<Longrightarrow> ser_ok s0 bs (acc, n, s\<lparr>hx_tmds_disp := d\<rparr>)"
  by (auto simp: ser_ok_def)

lemma rotate_bit:
  assumes "r < 32" "i < 32"
  shows "bit (if r \<noteq> 0 then shr sr r OR shl sr (32 - r) else sr) i = bit (sr :: u32) ((i + r) mod 32)"
proof (cases "i + r < 32")
  case True
  then show ?thesis using assms by (auto simp: bit_simps add.commute)
next
  case False
  then have "(i + r) mod 32 = i + r - 32" using assms by (simp add: mod_if)
  moreover have "\<not> bit sr (r + i)" using False bit_imp_le_length [of sr "r + i"] by auto
  ultimately show ?thesis using assms False by (auto simp: bit_simps add.commute)
qed

text \<open>What the block is meant to send for a word: without the expander the top bit of the shifter at
  every turn of the wheel, with it the ten bits of the symbol of each byte in turn, the running
  disparity carried from symbol to symbol.\<close>

definition raw_stream :: "nat \<Rightarrow> nat \<Rightarrow> u32 \<Rightarrow> bool list" where
  "raw_stream shift k w = map (\<lambda>i. bit w ((31 + i * shift) mod 32)) [0..<k]"

definition tmds_symbols :: "u8 list \<Rightarrow> int \<Rightarrow> u16 list \<times> int" where
  "tmds_symbols ds disp =
     fold (\<lambda>d (syms, disp). let (sym, disp1) = hstx_tmds_encode d disp in (syms @ [sym], disp1)) ds ([], disp)"

definition word_bytes :: "nat \<Rightarrow> u32 \<Rightarrow> u8 list" where
  "word_bytes k w = map (\<lambda>i. ucast (shr w (8 * (i mod 4)))) [0..<k]"

definition symbol_bits :: "u16 \<Rightarrow> bool list" where
  "symbol_bits v = map (bit v) [0..<10]"

definition hstx_stream :: "u32 \<Rightarrow> int \<Rightarrow> u32 \<Rightarrow> bool list" where
  "hstx_stream csr disp w =
     (let k = (if shr csr 16 AND 0x1F = 0 then 32 else unat (shr csr 16 AND 0x1F)) in
      if bit csr 1 then concat (map symbol_bits (fst (tmds_symbols (word_bytes k w) disp)))
      else raw_stream (unat (shr csr 8 AND 0x1F)) k w)"

lemma raw_passes:
  assumes "shift < 32"
  shows "let (sr, st) = (hstx_shift_pass False shift ^^ k) (w, 0, 0, s) in
    (\<forall>i < 32. bit sr i = bit w ((i + k * shift) mod 32)) \<and> ser_ok s (raw_stream shift k w) st"
proof (induction k)
  case 0
  show ?case by (auto simp: ser_ok_def raw_stream_def intro!: exI [of _ "[]"])
next
  case (Suc k)
  obtain sr st where st: "(hstx_shift_pass False shift ^^ k) (w, 0, 0, s) = (sr, st)"
    by (cases "(hstx_shift_pass False shift ^^ k) (w, 0, 0, s)")
  have sr: "\<forall>i < 32. bit sr i = bit w ((i + k * shift) mod 32)" and ok: "ser_ok s (raw_stream shift k w) st"
    using Suc st by simp_all
  have "shr sr 31 AND 1 = of_bool (bit w ((31 + k * shift) mod 32))"
    using sr by (simp add: and_one_eq mod2_eq_if bit_iff_odd_drop_bit [symmetric] even_drop_bit_iff_not_bit)
  then have p: "hstx_shift_pass False shift (sr, st) =
      (if shift \<noteq> 0 then shr sr shift OR shl sr (32 - shift) else sr, emit_bit (of_bool (bit w ((31 + k * shift) mod 32))) st)"
    using assms by (cases st) (simp add: hstx_shift_pass_def Let_def)
  have "bit (if shift \<noteq> 0 then shr sr shift OR shl sr (32 - shift) else sr) i = bit w ((i + Suc k * shift) mod 32)"
    if "i < 32" for i
    using rotate_bit [OF assms that, of sr] sr by (simp add: mod_simps ac_simps)
  moreover have "raw_stream shift (Suc k) w = raw_stream shift k w @ [bit w ((31 + k * shift) mod 32)]"
    by (simp add: raw_stream_def)
  ultimately show ?case using emit_ok [OF ok] by (simp add: st p del: One_nat_def)
qed

lemma byte_of_rotated:
  assumes "\<forall>i < 32. bit (sr :: u32) i = bit w ((i + k * 8) mod 32)"
  shows "ucast (sr AND 0xFF) = (ucast (shr (w :: u32) (8 * (k mod 4))) :: u8)"
proof (rule bit_word_eqI)
  fix n
  assume "n < LENGTH(8)"
  moreover have "(n + k * 8) mod 32 = 8 * (k mod 4) + n" if "n < 8"
  proof -
    have "(n + k * 8) mod 32 = (n + 8 * (k mod 4) + 32 * (k div 4)) mod 32"
      using div_mult_mod_eq [of k 4] by (intro arg_cong [of _ _ "\<lambda>x. x mod 32"]) linarith
    also have "\<dots> = n + 8 * (k mod 4)" using that mod_less_divisor [of 4 k] by (subst mod_mult_self2, subst mod_less) linarith+
    finally show ?thesis by simp
  qed
  ultimately show "bit (ucast (sr AND 0xFF) :: u8) n = bit (ucast (shr w (8 * (k mod 4))) :: u8) n"
    using assms by (simp add: numeral_masks bit_simps bit_mask_iff)
qed

lemma expanded_passes:
  "let (sr, st) = (hstx_shift_pass True shift ^^ k) (w, 0, 0, s);
       (syms, disp) = tmds_symbols (word_bytes k w) (hx_tmds_disp s) in
    (\<forall>i < 32. bit sr i = bit w ((i + k * 8) mod 32)) \<and> hx_tmds_disp (snd (snd st)) = disp \<and>
    ser_ok s (concat (map symbol_bits syms)) st"
proof (induction k)
  case 0
  show ?case by (auto simp: ser_ok_def word_bytes_def tmds_symbols_def intro!: exI [of _ "[]"])
next
  case (Suc k)
  obtain sr acc n s1 where st: "(hstx_shift_pass True shift ^^ k) (w, 0, 0, s) = (sr, acc, n, s1)"
    by (cases "(hstx_shift_pass True shift ^^ k) (w, 0, 0, s)")
  obtain syms disp where sy: "tmds_symbols (word_bytes k w) (hx_tmds_disp s) = (syms, disp)"
    by (cases "tmds_symbols (word_bytes k w) (hx_tmds_disp s)")
  have sr: "\<forall>i < 32. bit sr i = bit w ((i + k * 8) mod 32)" and d: "hx_tmds_disp s1 = disp"
    and ok: "ser_ok s (concat (map symbol_bits syms)) (acc, n, s1)"
    using Suc st sy by simp_all
  obtain v disp1 where v: "hstx_tmds_encode (ucast (shr w (8 * (k mod 4)))) disp = (v, disp1)" by fastforce
  have sy1: "tmds_symbols (word_bytes (Suc k) w) (hx_tmds_disp s) = (syms @ [v], disp1)"
    using sy v by (simp add: tmds_symbols_def word_bytes_def)
  define st1 where "st1 = fold (\<lambda>i. emit_bit (of_bool (bit v i))) [0..<10] (acc, n, s1\<lparr>hx_tmds_disp := disp1\<rparr>)"
  have b: "shr (ucast v :: u32) i AND 1 = of_bool (bit v i)" if "i < 10" for i
    using that by (simp add: and_one_eq mod2_eq_if even_drop_bit_iff_not_bit bit_simps)
  have "fold (\<lambda>b. emit_bit (shr (ucast v) b AND 1)) [0..<10] (acc, n, s1\<lparr>hx_tmds_disp := disp1\<rparr>) = st1"
    unfolding st1_def by (rule fold_cong) (auto simp: b)
  then have p: "hstx_shift_pass True shift (sr, acc, n, s1) = (shr sr 8 OR shl sr 24, st1)"
    using v d by (simp add: hstx_shift_pass_def Let_def byte_of_rotated [OF sr])
  have "bit (shr sr 8 OR shl sr 24) i = bit w ((i + Suc k * 8) mod 32)" if "i < 32" for i
    using rotate_bit [OF _ that, of 8 sr] sr by (simp add: mod_simps ac_simps)
  moreover have "ser_ok s (concat (map symbol_bits (syms @ [v]))) st1"
    using emits_ok [OF ser_ok_disp [OF ok], of "bit v" "[0..<10]" disp1] by (simp add: st1_def symbol_bits_def)
  moreover have "hx_tmds_disp (snd (snd st1)) = disp1" by (simp add: st1_def emits_disp)
  ultimately show ?case by (simp add: st p sy1 del: map_append)
qed

lemma ser_ok_flush:
  assumes "hstx_wf s" "ser_ok s bs (acc, n, s1)"
  shows "let s2 = (if n \<noteq> 0 then hstx_tx_push_byte (ucast acc) s1 else s1) in
    hstx_wf s2 \<and> hstx_log s2 = take 1024 (hstx_log s @ pack_bits bs) \<and> hx_fifo s2 = hx_fifo s"
proof -
  have fifo: "hx_fifo (fold hstx_tx_push_byte xs s) = hx_fifo s" for xs
    by (induction xs arbitrary: s) (auto simp: hstx_tx_push_byte_def)
  obtain full rest where f: "acc = horner_sum of_bool 2 rest" "n = length rest" "length rest < 8"
      "bs = full @ rest" "8 dvd length full"
      "s1\<lparr>hx_tmds_disp := 0\<rparr> = (fold hstx_tx_push_byte (pack_bits full) s)\<lparr>hx_tmds_disp := 0\<rparr>"
    using assms(2) unfolding ser_ok_def by auto
  define s2 where "s2 = (if n \<noteq> 0 then hstx_tx_push_byte (ucast acc) s1 else s1)"
  have "s2\<lparr>hx_tmds_disp := 0\<rparr> = (fold hstx_tx_push_byte (pack_bits bs) s)\<lparr>hx_tmds_disp := 0\<rparr>"
  proof (cases "rest = []")
    case False
    then have "pack_bits bs = pack_bits full @ [ucast acc]"
      using f pack_append [OF f(5), of rest] pack_short [of rest] horner_ucast [of rest] by simp
    then show ?thesis using False f by (simp add: s2_def push_disp [symmetric])
  qed (use f in \<open>simp add: s2_def\<close>)
  then have e: "s2 = (fold hstx_tx_push_byte (pack_bits bs) s)\<lparr>hx_tmds_disp := hx_tmds_disp s2\<rparr>"
    by (metis hstx_state.surjective hstx_state.update_convs(11))
  have "hstx_wf s2 \<and> hstx_log s2 = take 1024 (hstx_log s @ pack_bits bs) \<and> hx_fifo s2 = hx_fifo s"
    using hlog.wf_push_all [OF assms(1)] hlog.contents_push_all [OF assms(1)]
    by (subst (1 2 3) e) (simp add: hstx_wf_def hstx_log_def fifo)
  then show ?thesis by (simp add: s2_def)
qed

text \<open>A word written to the FIFO of the enabled transmitter while the FIFO is empty leaves it at once:
  the log grows by exactly the serial stream of the word, raw or TMDS-coded, packed into bytes, up to
  the capacity of the log.\<close>

theorem hstx_sends_word:
  assumes "hstx_wf s" "bit (hx_csr s) 0" "hx_fifo s = []"
  shows "let s' = hstx_fifo_write 0x04 w s in
    hstx_wf s' \<and> hx_fifo s' = [] \<and>
    hstx_log s' = take 1024 (hstx_log s @ pack_bits (hstx_stream (hx_csr s) (hx_tmds_disp s) w))"
proof -
  let ?shift = "unat (shr (hx_csr s) 8 AND 0x1F)"
  define k where "k = (if shr (hx_csr s) 16 AND 0x1F = 0 then 32 else unat (shr (hx_csr s) 16 AND 0x1F))"
  have "shr (hx_csr s) 8 AND 0x1F \<le> 0x1F" by (rule word_and_le1)
  then have sh: "?shift < 32" by (simp add: word_le_nat_alt)
  have k: "k = (if unat (shr (hx_csr s) 16 AND 0x1F) = 0 then 32 else unat (shr (hx_csr s) 16 AND 0x1F))"
    by (simp add: k_def unat_eq_0)
  define p where "p = (hstx_shift_pass (bit (hx_csr s) 1) ?shift ^^ k) (w, 0, 0, s)"
  obtain sr acc n s1 where p1: "p = (sr, acc, n, s1)" by (cases p)
  have "ser_ok s (hstx_stream (hx_csr s) (hx_tmds_disp s) w) (acc, n, s1)"
    using raw_passes [OF sh, of k w s] expanded_passes [of k ?shift w s] p1
    by (cases "bit (hx_csr s) 1") (auto simp: p_def hstx_stream_def k_def [symmetric] Let_def split_beta)
  note flushed = ser_ok_flush [OF assms(1) this]
  have bits: "hx_csr s AND shl 1 1 \<noteq> 0 \<longleftrightarrow> bit (hx_csr s) 1" "hx_csr s AND shl 1 0 \<noteq> 0"
    using assms(2) by (simp_all only: and_push_bit_1_eq_0 not_not)
  have e: "s\<lparr>hx_fifo := []\<rparr> = s" using assms(3) by simp
  have "hstx_fifo_write 0x04 w s = hstx_serialize_word w (s\<lparr>hx_fifo := []\<rparr>)"
    using assms(3) bits(2) by (simp add: hstx_fifo_write_def Let_def)
  also have "\<dots> = hstx_serialize_word w s" by (simp only: e)
  also have "\<dots> = (if n \<noteq> 0 then hstx_tx_push_byte (ucast acc) s1 else s1)"
    unfolding hstx_serialize_word_def Let_def bits(1) k [symmetric] using p1 by (simp add: p_def)
  finally show ?thesis using flushed assms(3) by (simp add: Let_def)
qed

theorem hstx_sends_witness:
  "let s = hstx_write 0x00 0x10080101 hstx_boot; s' = hstx_fifo_write 0x04 0x80000001 s in
    hx_fifo s' = [] \<and> hstx_log s' = [0x03]"
proof -
  let ?s = "hstx_write 0x00 0x10080101 hstx_boot"
  have st: "hstx_wf ?s" "bit (hx_csr ?s) 0" "hx_fifo ?s = []" "hstx_log ?s = []"
    by (simp_all add: hstx_wf_def hstx_log_def hstx_write_def hstx_boot_def)
  have "pack_bits (hstx_stream (hx_csr ?s) (hx_tmds_disp ?s) 0x80000001) = [0x03]"
    by code_simp
  with hstx_sends_word [OF st(1-3), where w = "0x80000001"] show ?thesis by (simp add: st(4) Let_def)
qed

text \<open>The running code marks the XOR coding in a bit that its variable does not have. For a black
  pixel at zero disparity the standard's symbol is \<^verbatim>\<open>0x100\<close>.\<close>

lemma tmds_bit8_lost: "fst (hstx_tmds_encode 0x00 0) = 0x1FF"
  by code_simp

text \<open>A word that was queued while the transmitter was off is dropped by the first write after it is
  enabled, and the written word is sent in its place.\<close>

lemma queued_word_dropped:
  "let s = hstx_write 0x00 0x10080101 (hstx_fifo_write 0x04 0x80000001 (hstx_write 0x00 0x10080100 hstx_boot));
       s' = hstx_fifo_write 0x04 0x00000000 s in
   hx_fifo s = [0x80000001] \<and> hx_fifo s' = [0] \<and> hstx_log s' = [0]"
  by code_simp

end
