(* ===== verification/Dma.thy ===== *)
theory Dma
  imports Nvic
begin

unbundle bit_operations_syntax

text \<open>
  The registers of the DMA controller of \<^verbatim>\<open>src/dma.c\<close>: sixteen channels, each with four orders of the
  same four registers, the interrupt registers, and the fields of the control register, which moved
  from the RP2040 to the RP2350. The transfers themselves go through the memory bus and are modelled
  above it, in \<open>Dma_Engine\<close>. The flag \<open>dm_stuck\<close> is not in the source: it records that a model of
  bounded nesting depth met its bound.
\<close>

section \<open>State\<close>

record dma_channel =
  dc_read_addr :: u32
  dc_write_addr :: u32
  dc_trans_count :: u32
  dc_ctrl :: u32

record dma_state =
  dm_ch :: "nat \<Rightarrow> dma_channel"
  dm_intr :: u32
  dm_inte0 :: u32
  dm_intf0 :: u32
  dm_inte1 :: u32
  dm_intf1 :: u32
  dm_timer :: "nat \<Rightarrow> u32"
  dm_sniff_ctrl :: u32
  dm_sniff_data :: u32
  dm_stuck :: bool

definition dma_init :: "bool \<Rightarrow> dma_state" where
  "dma_init rp =
     \<lparr>dm_ch = (\<lambda>i. \<lparr>dc_read_addr = 0, dc_write_addr = 0, dc_trans_count = 0,
                    dc_ctrl = shl (of_nat i) (if rp then 13 else 11)\<rparr>),
      dm_intr = 0, dm_inte0 = 0, dm_intf0 = 0, dm_inte1 = 0, dm_intf1 = 0, dm_timer = (\<lambda>_. 0),
      dm_sniff_ctrl = 0, dm_sniff_data = 0, dm_stuck = False\<rparr>"

definition upd_ch :: "nat \<Rightarrow> (dma_channel \<Rightarrow> dma_channel) \<Rightarrow> dma_state \<Rightarrow> dma_state" where
  "upd_ch ch f s = s\<lparr>dm_ch := (dm_ch s)(ch := f (dm_ch s ch))\<rparr>"

section \<open>The control register\<close>

definition dma_count :: "bool \<Rightarrow> dma_channel \<Rightarrow> u32" where
  "dma_count rp c = (if rp then dc_trans_count c AND 0x0FFFFFFF else dc_trans_count c)"

definition dma_size :: "u32 \<Rightarrow> u32" where
  "dma_size ctrl = shr (ctrl AND 0xC) 2"

definition dma_step :: "u32 \<Rightarrow> u32" where
  "dma_step sz = (if sz = 0 then 1 else if sz = 1 then 2 else 4)"

definition dma_incr_read :: "u32 \<Rightarrow> bool" where
  "dma_incr_read ctrl \<longleftrightarrow> ctrl AND 0x10 \<noteq> 0"

definition dma_incr_write :: "bool \<Rightarrow> u32 \<Rightarrow> bool" where
  "dma_incr_write rp ctrl \<longleftrightarrow> ctrl AND (if rp then 0x40 else 0x20) \<noteq> 0"

definition dma_bswap :: "bool \<Rightarrow> u32 \<Rightarrow> bool" where
  "dma_bswap rp ctrl \<longleftrightarrow> ctrl AND (if rp then 0x1000000 else 0x400000) \<noteq> 0"

definition dma_quiet :: "bool \<Rightarrow> u32 \<Rightarrow> bool" where
  "dma_quiet rp ctrl \<longleftrightarrow> ctrl AND (if rp then 0x800000 else 0x200000) \<noteq> 0"

definition dma_chain_to :: "bool \<Rightarrow> u32 \<Rightarrow> nat" where
  "dma_chain_to rp ctrl = unat (if rp then shr (ctrl AND 0x1E000) 13 else shr (ctrl AND 0x7800) 11)"

definition dma_ctrl_write :: "bool \<Rightarrow> u32 \<Rightarrow> u32 \<Rightarrow> u32" where
  "dma_ctrl_write rp val ctrl =
     (let w1c = val AND 0x60000000; ctrl1 = ctrl AND NOT w1c;
          writable = NOT ((if rp then 0x4000000 else 0x1000000) OR 0xE0000000)
      in (ctrl1 AND NOT writable) OR (val AND writable))"

section \<open>Registers\<close>

datatype dma_field = F_CTRL | F_READ | F_WRITE | F_COUNT

definition alias_layout :: "dma_field list list" where
  "alias_layout =
     [[F_READ, F_WRITE, F_COUNT, F_CTRL], [F_CTRL, F_READ, F_WRITE, F_COUNT],
      [F_CTRL, F_COUNT, F_READ, F_WRITE], [F_CTRL, F_WRITE, F_COUNT, F_READ]]"

definition ch_field_set :: "bool \<Rightarrow> nat \<Rightarrow> dma_field \<Rightarrow> u32 \<Rightarrow> dma_state \<Rightarrow> dma_state" where
  "ch_field_set rp ch f val s =
     (case f of
        F_CTRL \<Rightarrow> upd_ch ch (\<lambda>c. c\<lparr>dc_ctrl := dma_ctrl_write rp val (dc_ctrl c)\<rparr>) s
      | F_READ \<Rightarrow> upd_ch ch (\<lambda>c. c\<lparr>dc_read_addr := val\<rparr>) s
      | F_WRITE \<Rightarrow> upd_ch ch (\<lambda>c. c\<lparr>dc_write_addr := val\<rparr>) s
      | F_COUNT \<Rightarrow> upd_ch ch (\<lambda>c. c\<lparr>dc_trans_count := val\<rparr>) s)"

definition ch_field_read :: "nat \<Rightarrow> dma_field \<Rightarrow> dma_state \<Rightarrow> u32" where
  "ch_field_read ch f s =
     (case f of
        F_CTRL \<Rightarrow> dc_ctrl (dm_ch s ch) | F_READ \<Rightarrow> dc_read_addr (dm_ch s ch)
      | F_WRITE \<Rightarrow> dc_write_addr (dm_ch s ch) | F_COUNT \<Rightarrow> dc_trans_count (dm_ch s ch))"

text \<open>The channel, the register it names and whether it is the triggering one of its alias.\<close>

definition dma_channel_of :: "u32 \<Rightarrow> nat \<times> dma_field \<times> bool" where
  "dma_channel_of offset =
     (let ch = unat offset div 0x40; rg = unat offset mod 0x40; al = rg div 0x10; field_idx = rg mod 0x10 div 4
      in (ch, alias_layout ! al ! field_idx, field_idx = 3))"

definition dma_read32 :: "u32 \<Rightarrow> dma_state \<Rightarrow> u32" where
  "dma_read32 offset s =
     (if offset < 0x400 then (case dma_channel_of offset of (ch, f, _) \<Rightarrow> ch_field_read ch f s)
      else if offset = 0x400 then dm_intr s
      else if offset = 0x404 then dm_inte0 s
      else if offset = 0x408 then dm_intf0 s
      else if offset = 0x40C then (dm_intr s OR dm_intf0 s) AND dm_inte0 s
      else if offset = 0x414 then dm_inte1 s
      else if offset = 0x418 then dm_intf1 s
      else if offset = 0x41C then (dm_intr s OR dm_intf1 s) AND dm_inte1 s
      else if offset \<in> {0x420, 0x424, 0x428, 0x42C} then dm_timer s (unat ((offset - 0x420) div 4))
      else if offset = 0x434 then dm_sniff_ctrl s
      else if offset = 0x438 then dm_sniff_data s
      else if offset = 0x448 then 16
      else 0)"

definition dma_abort :: "u32 \<Rightarrow> dma_state \<Rightarrow> dma_state" where
  "dma_abort val s = fold (\<lambda>i s. if val AND shl 1 i \<noteq> 0 then upd_ch i (\<lambda>c. c\<lparr>dc_trans_count := 0\<rparr>) s else s) [0..<16] s"

definition dma_global_write :: "u32 \<Rightarrow> u32 \<Rightarrow> dma_state \<Rightarrow> dma_state" where
  "dma_global_write offset val s =
     (if offset = 0x400 then s\<lparr>dm_intr := dm_intr s AND NOT val\<rparr>
      else if offset = 0x404 then s\<lparr>dm_inte0 := val AND 0xFFFF\<rparr>
      else if offset = 0x408 then s\<lparr>dm_intf0 := val AND 0xFFFF\<rparr>
      else if offset = 0x414 then s\<lparr>dm_inte1 := val AND 0xFFFF\<rparr>
      else if offset = 0x418 then s\<lparr>dm_intf1 := val AND 0xFFFF\<rparr>
      else if offset \<in> {0x420, 0x424, 0x428, 0x42C} then s\<lparr>dm_timer := (dm_timer s)(unat ((offset - 0x420) div 4) := val)\<rparr>
      else if offset = 0x434 then s\<lparr>dm_sniff_ctrl := val\<rparr>
      else if offset = 0x438 then s\<lparr>dm_sniff_data := val\<rparr>
      else if offset = 0x444 then dma_abort val s
      else s)"

section \<open>Completion\<close>

text \<open>The end of a transfer: the final addresses, a count of 0, and the interrupt, on whichever of the
  two lines it is enabled.\<close>

definition dma_raise :: "nat \<Rightarrow> dma_state \<times> nvic_ctx \<Rightarrow> dma_state \<times> nvic_ctx" where
  "dma_raise ch sn =
     (let (s, nv) = sn; s1 = s\<lparr>dm_intr := dm_intr s OR shl 1 ch\<rparr>;
          nv1 = (if dm_inte0 s1 AND shl 1 ch \<noteq> 0 then nvic_signal_rp2350_irq 11 nv else nv);
          nv2 = (if dm_inte1 s1 AND shl 1 ch \<noteq> 0 then nvic_signal_rp2350_irq 12 nv1 else nv1)
      in (s1, nv2))"

definition dma_complete :: "bool \<Rightarrow> nat \<Rightarrow> u32 \<Rightarrow> u32 \<Rightarrow> dma_state \<times> nvic_ctx \<Rightarrow> dma_state \<times> nvic_ctx" where
  "dma_complete rp ch src dst sn =
     (let (s, nv) = sn;
          s1 = upd_ch ch (\<lambda>c. c\<lparr>dc_read_addr := src, dc_write_addr := dst, dc_trans_count := 0\<rparr>) s
      in if dma_quiet rp (dc_ctrl (dm_ch s1 ch)) then (s1, nv) else dma_raise ch (s1, nv))"

lemma dma_complete_channels:
  "dm_ch (fst (dma_complete rp ch src dst (s, nv))) =
     (dm_ch s)(ch := (dm_ch s ch)\<lparr>dc_read_addr := src, dc_write_addr := dst, dc_trans_count := 0\<rparr>)"
  "dm_stuck (fst (dma_complete rp ch src dst (s, nv))) = dm_stuck s"
  by (simp_all add: dma_complete_def dma_raise_def upd_ch_def Let_def)

end
