(* ===== verification/Rp2350_Periph.thy ===== *)
theory Rp2350_Periph
  imports Timer
begin

unbundle bit_operations_syntax

text \<open>
  The peripherals that only the RP2350 has, \<^verbatim>\<open>src/rp2350_rv/rp2350_periph.c\<close>: tick generators, power
  manager, flash interface, one-time programmable memory, boot RAM with its boot locks, the second
  timer and three banks of plain registers, behind one address decoder. The first timer is the
  shared one of \<open>Timer\<close>, reached through a translation of its registers, so the accesses take it and the
  interrupt system as well. The ARM bus and the RISC-V bus both use this file.

  Bytes past the end of the boot RAM, which an unaligned word access at its last three bytes
  touches, are bytes of the same function here.
\<close>

section \<open>State\<close>

record rp2350_ticks =
  tk_ctrl :: "nat \<Rightarrow> u32"
  tk_cycles :: "nat \<Rightarrow> u32"

record rp2350_powman =
  pm_vreg_ctrl :: u32
  pm_bod_ctrl :: u32
  pm_state :: u32
  pm_timer :: u32
  pm_timer_hi :: u32
  pm_inte :: u32
  pm_intf :: u32
  pm_ints :: u32
  pm_regs :: "nat \<Rightarrow> u32"

record rp2350_qmi =
  qm_direct_csr :: u32
  qm_direct_tx :: u32
  qm_direct_rx :: u32
  qm_m0_timing :: u32
  qm_m0_rfmt :: u32
  qm_m0_rcmd :: u32
  qm_m0_wfmt :: u32
  qm_m0_wcmd :: u32
  qm_m1_timing :: u32
  qm_m1_rfmt :: u32
  qm_m1_rcmd :: u32
  qm_m1_wfmt :: u32
  qm_m1_wcmd :: u32
  qm_atrans :: "nat \<Rightarrow> u32"

record rp2350_otp =
  ot_data :: "nat \<Rightarrow> u16"
  ot_ctrl_regs :: "nat \<Rightarrow> u32"

record rp2350_timer1 =
  t1_time_us :: u64
  t1_alarm :: "nat \<Rightarrow> u32"
  t1_armed :: u32
  t1_intr :: u32
  t1_inte :: u32
  t1_intf :: u32
  t1_paused :: u32
  t1_latched_high :: u32

record rp2350_periph =
  rp_ticks :: rp2350_ticks
  rp_powman :: rp2350_powman
  rp_qmi :: rp2350_qmi
  rp_otp :: rp2350_otp
  rp_timer1 :: rp2350_timer1
  rp_bootram :: "nat \<Rightarrow> u8"
  rp_write_once :: "nat \<Rightarrow> u32"
  rp_bootlock_stat :: u32
  rp_glitch :: "nat \<Rightarrow> u32"
  rp_coresight :: "nat \<Rightarrow> u32"
  rp_accessctrl :: "nat \<Rightarrow> u32"

definition rp2350_periph_init :: "bool \<Rightarrow> rp2350_periph" where
  "rp2350_periph_init for_arm =
     \<lparr>rp_ticks = \<lparr>tk_ctrl = (\<lambda>i. if i < 5 then 1 else 0), tk_cycles = (\<lambda>_. 0)\<rparr>,
      rp_powman = \<lparr>pm_vreg_ctrl = 0xB1, pm_bod_ctrl = 0x91, pm_state = 0xF, pm_timer = 0, pm_timer_hi = 0,
        pm_inte = 0, pm_intf = 0, pm_ints = 0, pm_regs = (\<lambda>_. 0)\<rparr>,
      rp_qmi = \<lparr>qm_direct_csr = 1, qm_direct_tx = 0, qm_direct_rx = 0, qm_m0_timing = 0, qm_m0_rfmt = 0,
        qm_m0_rcmd = 0x03000000, qm_m0_wfmt = 0, qm_m0_wcmd = 0, qm_m1_timing = 0, qm_m1_rfmt = 0,
        qm_m1_rcmd = 0, qm_m1_wfmt = 0, qm_m1_wcmd = 0, qm_atrans = (\<lambda>_. 0)\<rparr>,
      rp_otp = \<lparr>ot_data = (\<lambda>_. 0xFFFF), ot_ctrl_regs = (\<lambda>_. 0)\<rparr>,
      rp_timer1 = \<lparr>t1_time_us = 0, t1_alarm = (\<lambda>_. 0), t1_armed = 0, t1_intr = 0, t1_inte = 0, t1_intf = 0,
        t1_paused = 0, t1_latched_high = 0\<rparr>,
      rp_bootram = wr32 (\<lambda>_. 0) 0 (if for_arm then 0x00004770 else 0x00008067),
      rp_write_once = (\<lambda>_. 0), rp_bootlock_stat = 0xFF,
      rp_glitch = (\<lambda>_. 0), rp_coresight = (\<lambda>_. 0), rp_accessctrl = (\<lambda>_. 0xFFFFFFFF)\<rparr>"

section \<open>Address decoder\<close>

definition rp2350_periph_match :: "u32 \<Rightarrow> bool" where
  "rp2350_periph_match addr =
     (let base = addr AND NOT 0x3000 in
      in_block base 0x40108000 0x100 \<or> in_block base 0x40100000 0x100 \<or> in_block base 0x400D0000 0x100 \<or>
      in_block base 0x40120000 0x100 \<or> in_block addr 0x40130000 0x8000 \<or> in_block addr 0x400E0000 0x82C \<or>
      in_block base 0x400B8000 0x100 \<or> in_block base 0x40158000 0x20 \<or> in_block base 0x40140000 0x40 \<or>
      in_block base 0x40060000 0x100 \<or> in_block base 0x400B0000 0x100)"

section \<open>Registers\<close>

definition rp_ticks_read :: "u32 \<Rightarrow> rp2350_ticks \<Rightarrow> u32" where
  "rp_ticks_read offset t =
     (let gen = offset div 8; reg = offset mod 8 in
      if gen \<ge> 9 then 0 else if reg = 0 then tk_ctrl t (unat gen) else tk_cycles t (unat gen))"

definition rp_ticks_write :: "u32 \<Rightarrow> u32 \<Rightarrow> rp2350_ticks \<Rightarrow> rp2350_ticks" where
  "rp_ticks_write offset val t =
     (let gen = offset div 8; reg = offset mod 8 in
      if gen \<ge> 9 then t else if reg = 0 then t\<lparr>tk_ctrl := (tk_ctrl t)(unat gen := val)\<rparr> else t)"

definition powman_read :: "u32 \<Rightarrow> rp2350_powman \<Rightarrow> u32" where
  "powman_read offset p =
     (if offset = 0x00 then pm_vreg_ctrl p
      else if offset = 0x04 then pm_vreg_ctrl p OR 0x1000
      else if offset = 0x08 then pm_bod_ctrl p
      else if offset = 0x0C then pm_bod_ctrl p OR 0x1000
      else if offset = 0x10 then pm_state p
      else if offset = 0x50 then pm_timer p
      else if offset = 0x54 then pm_timer_hi p
      else if offset = 0x60 then pm_inte p
      else if offset = 0x64 then pm_intf p
      else if offset = 0x68 then pm_ints p
      else if offset div 4 < 32 then pm_regs p (unat (offset div 4))
      else 0)"

definition powman_write :: "u32 \<Rightarrow> u32 \<Rightarrow> rp2350_powman \<Rightarrow> rp2350_powman" where
  "powman_write offset val p =
     (if offset = 0x00 then p\<lparr>pm_vreg_ctrl := val\<rparr>
      else if offset = 0x08 then p\<lparr>pm_bod_ctrl := val\<rparr>
      else if offset = 0x60 then p\<lparr>pm_inte := val\<rparr>
      else if offset = 0x64 then p\<lparr>pm_intf := val\<rparr>
      else if offset div 4 < 32 then p\<lparr>pm_regs := (pm_regs p)(unat (offset div 4) := val)\<rparr>
      else p)"

definition qmi_read :: "u32 \<Rightarrow> rp2350_qmi \<Rightarrow> u32" where
  "qmi_read offset q =
     (if offset = 0x00 then qm_direct_csr q OR 0x00040000
      else if offset = 0x04 then qm_direct_tx q
      else if offset = 0x08 then qm_direct_rx q
      else if offset = 0x0C then qm_m0_timing q
      else if offset = 0x10 then qm_m0_rfmt q
      else if offset = 0x14 then qm_m0_rcmd q
      else if offset = 0x18 then qm_m0_wfmt q
      else if offset = 0x1C then qm_m0_wcmd q
      else if offset = 0x20 then qm_m1_timing q
      else if offset = 0x24 then qm_m1_rfmt q
      else if offset = 0x28 then qm_m1_rcmd q
      else if offset = 0x2C then qm_m1_wfmt q
      else if offset = 0x30 then qm_m1_wcmd q
      else if offset \<ge> 0x34 \<and> offset < 0x54 then qm_atrans q (unat ((offset - 0x34) div 4))
      else 0)"

definition qmi_write :: "u32 \<Rightarrow> u32 \<Rightarrow> rp2350_qmi \<Rightarrow> rp2350_qmi" where
  "qmi_write offset val q =
     (if offset = 0x00 then q\<lparr>qm_direct_csr := val\<rparr>
      else if offset = 0x04 then q\<lparr>qm_direct_tx := val\<rparr>
      else if offset = 0x0C then q\<lparr>qm_m0_timing := val\<rparr>
      else if offset = 0x10 then q\<lparr>qm_m0_rfmt := val\<rparr>
      else if offset = 0x14 then q\<lparr>qm_m0_rcmd := val\<rparr>
      else if offset = 0x18 then q\<lparr>qm_m0_wfmt := val\<rparr>
      else if offset = 0x1C then q\<lparr>qm_m0_wcmd := val\<rparr>
      else if offset = 0x20 then q\<lparr>qm_m1_timing := val\<rparr>
      else if offset = 0x24 then q\<lparr>qm_m1_rfmt := val\<rparr>
      else if offset = 0x28 then q\<lparr>qm_m1_rcmd := val\<rparr>
      else if offset = 0x2C then q\<lparr>qm_m1_wfmt := val\<rparr>
      else if offset = 0x30 then q\<lparr>qm_m1_wcmd := val\<rparr>
      else if offset \<ge> 0x34 \<and> offset < 0x54 then q\<lparr>qm_atrans := (qm_atrans q)(unat ((offset - 0x34) div 4) := val)\<rparr>
      else q)"

definition rp_otp_read :: "u32 \<Rightarrow> rp2350_otp \<Rightarrow> u32" where
  "rp_otp_read addr o1 =
     (if addr \<ge> 0x40130000 then
        (let row = (addr - 0x40130000) div 4 in if row < 8192 then ucast (ot_data o1 (unat row)) else 0)
      else let offset = (addr - 0x40120000) AND 0xFFF in
        if offset div 4 < 32 then ot_ctrl_regs o1 (unat (offset div 4)) else 0)"

definition rp_otp_write :: "u32 \<Rightarrow> u32 \<Rightarrow> rp2350_otp \<Rightarrow> rp2350_otp" where
  "rp_otp_write addr val o1 =
     (if addr \<ge> 0x40130000 then o1
      else let offset = (addr - 0x40120000) AND 0xFFF in
        if offset div 4 < 32 then o1\<lparr>ot_ctrl_regs := (ot_ctrl_regs o1)(unat (offset div 4) := val)\<rparr> else o1)"

section \<open>Boot RAM and boot locks\<close>

definition bootlock_claim :: "u32 \<Rightarrow> rp2350_periph \<Rightarrow> u32 \<times> rp2350_periph" where
  "bootlock_claim lock_num s =
     (let b = shl 1 (unat lock_num) in
      if rp_bootlock_stat s AND b \<noteq> 0 then (b, s\<lparr>rp_bootlock_stat := rp_bootlock_stat s AND NOT b\<rparr>) else (0, s))"

definition bootlock_release :: "u32 \<Rightarrow> rp2350_periph \<Rightarrow> rp2350_periph" where
  "bootlock_release lock_num s = s\<lparr>rp_bootlock_stat := rp_bootlock_stat s OR shl 1 (unat lock_num)\<rparr>"

text \<open>The write-once words follow the boot RAM in the structure: an unaligned word access at its end reaches
  into the first of them.\<close>

definition boot_bytes :: "rp2350_periph \<Rightarrow> nat \<Rightarrow> u8" where
  "boot_bytes s i = (if i < 0x400 then rp_bootram s i else ucast (shr (rp_write_once s 0) (8 * (i - 0x400))))"

definition bootram_read :: "u32 \<Rightarrow> rp2350_periph \<Rightarrow> u32 \<times> rp2350_periph" where
  "bootram_read addr s =
     (let offset = addr - 0x400E0000 in
      if offset < 0x400 then (rd32 (boot_bytes s) (unat offset), s)
      else if offset = 0x800 then (rp_write_once s 0, s)
      else if offset = 0x804 then (rp_write_once s 1, s)
      else if offset = 0x808 then (rp_bootlock_stat s, s)
      else if offset \<ge> 0x80C \<and> offset < 0x82C then bootlock_claim ((offset - 0x80C) div 4) s
      else (0, s))"

definition bootram_write :: "u32 \<Rightarrow> u32 \<Rightarrow> rp2350_periph \<Rightarrow> rp2350_periph" where
  "bootram_write addr val s =
     (let offset = addr - 0x400E0000 in
      if offset < 0x400 then
        (let m = wr32 (boot_bytes s) (unat offset) val
         in s\<lparr>rp_bootram := (\<lambda>i. if i < 0x400 then m i else rp_bootram s i),
              rp_write_once := (rp_write_once s)(0 := rd32 m 0x400)\<rparr>)
      else if offset = 0x800 then s\<lparr>rp_write_once := (rp_write_once s)(0 := rp_write_once s 0 OR val)\<rparr>
      else if offset = 0x804 then s\<lparr>rp_write_once := (rp_write_once s)(1 := rp_write_once s 1 OR val)\<rparr>
      else if offset = 0x808 then s\<lparr>rp_bootlock_stat := val AND 0xFF\<rparr>
      else if offset \<ge> 0x80C \<and> offset < 0x82C then bootlock_release ((offset - 0x80C) div 4) s
      else s)"

section \<open>The second timer\<close>

definition timer1_ints :: "rp2350_timer1 \<Rightarrow> u32" where
  "timer1_ints t = (t1_intr t OR t1_intf t) AND t1_inte t"

definition timer1_read :: "u32 \<Rightarrow> rp2350_timer1 \<Rightarrow> u32 \<times> rp2350_timer1" where
  "timer1_read offset t =
     (if offset = 0x08 then (ucast (shr (t1_time_us t) 32), t)
      else if offset = 0x0C then (ucast (t1_time_us t), t\<lparr>t1_latched_high := ucast (shr (t1_time_us t) 32)\<rparr>)
      else if offset = 0x10 then (t1_alarm t 0, t)
      else if offset = 0x14 then (t1_alarm t 1, t)
      else if offset = 0x18 then (t1_alarm t 2, t)
      else if offset = 0x1C then (t1_alarm t 3, t)
      else if offset = 0x20 then (t1_armed t, t)
      else if offset = 0x24 then (ucast (shr (t1_time_us t) 32), t)
      else if offset = 0x28 then (ucast (t1_time_us t), t)
      else if offset = 0x30 then (t1_paused t, t)
      else if offset = 0x34 then (0, t)
      else if offset = 0x38 then (0, t)
      else if offset = 0x3C then (t1_intr t, t)
      else if offset = 0x40 then (t1_inte t, t)
      else if offset = 0x44 then (t1_intf t, t)
      else if offset = 0x48 then (timer1_ints t, t)
      else (0, t))"

definition timer1_signal :: "u32 \<Rightarrow> nvic_ctx \<Rightarrow> nvic_ctx" where
  "timer1_signal ints nv =
     fold (\<lambda>i nv. if ints AND shl 1 i \<noteq> 0 then nvic_signal_irq (4 + of_nat i) nv else nv) [0..<4] nv"

definition t1_set_alarm :: "nat \<Rightarrow> u32 \<Rightarrow> rp2350_timer1 \<Rightarrow> rp2350_timer1" where
  "t1_set_alarm i val t = t\<lparr>t1_alarm := (t1_alarm t)(i := val), t1_armed := t1_armed t OR shl 1 i\<rparr>"

definition timer1_write :: "u32 \<Rightarrow> u32 \<Rightarrow> rp2350_timer1 \<times> nvic_ctx \<Rightarrow> rp2350_timer1 \<times> nvic_ctx" where
  "timer1_write offset val s =
     (let (t, nv) = s in
      if offset = 0x00 then (t\<lparr>t1_time_us := (t1_time_us t AND 0xFFFFFFFF) OR shl (ucast val) 32\<rparr>, nv)
      else if offset = 0x04 then (t\<lparr>t1_time_us := (t1_time_us t AND 0xFFFFFFFF00000000) OR ucast val\<rparr>, nv)
      else if offset = 0x10 then (t1_set_alarm 0 val t, nv)
      else if offset = 0x14 then (t1_set_alarm 1 val t, nv)
      else if offset = 0x18 then (t1_set_alarm 2 val t, nv)
      else if offset = 0x1C then (t1_set_alarm 3 val t, nv)
      else if offset = 0x20 then (t\<lparr>t1_armed := t1_armed t AND NOT val\<rparr>, nv)
      else if offset = 0x30 then (t\<lparr>t1_paused := val AND 1\<rparr>, nv)
      else if offset = 0x34 then (t, nv)
      else if offset = 0x38 then (t, nv)
      else if offset = 0x3C then (t\<lparr>t1_intr := t1_intr t AND NOT val\<rparr>, nv)
      else if offset = 0x40 then
        (let t1 = t\<lparr>t1_inte := val AND 0xF\<rparr> in (t1, timer1_signal (timer1_ints t1) nv))
      else if offset = 0x44 then
        (let t1 = t\<lparr>t1_intf := val AND 0xF\<rparr> in (t1, timer1_signal (timer1_ints t1) nv))
      else (t, nv))"

definition timer1_check_alarm :: "u32 \<Rightarrow> nat \<Rightarrow> rp2350_timer1 \<times> nvic_ctx \<Rightarrow> rp2350_timer1 \<times> nvic_ctx" where
  "timer1_check_alarm time_lo i s =
     (let (t, nv) = s in
      if t1_armed t AND shl 1 i \<noteq> 0 \<and> time_reached time_lo (t1_alarm t i) then
        (let t1 = t\<lparr>t1_intr := t1_intr t OR shl 1 i, t1_armed := t1_armed t AND NOT (shl 1 i)\<rparr>
         in (t1, if timer1_ints t1 AND shl 1 i \<noteq> 0 then nvic_signal_irq (4 + of_nat i) nv else nv))
      else (t, nv))"

definition rp2350_timer1_tick :: "u32 \<Rightarrow> rp2350_timer1 \<times> nvic_ctx \<Rightarrow> rp2350_timer1 \<times> nvic_ctx" where
  "rp2350_timer1_tick us s =
     (let (t, nv) = s in
      if t1_paused t \<noteq> 0 \<or> us = 0 then s
      else let t1 = t\<lparr>t1_time_us := t1_time_us t + ucast us\<rparr>
           in fold (timer1_check_alarm (ucast (t1_time_us t1))) [0..<4] (t1, nv))"

section \<open>Word and byte accesses\<close>

type_synonym periph_read = "rp2350_periph \<times> timer_state"
type_synonym periph_write = "rp2350_periph \<times> timer_state \<times> nvic_ctx"

text \<open>The registers of the first timer that the RP2350 moved.\<close>

definition timer0_offset :: "u32 \<Rightarrow> u32" where
  "timer0_offset off = (if off \<ge> 0x2C then off - 8 else off)"

definition timer0_read :: "u32 \<Rightarrow> timer_state \<Rightarrow> u32 \<times> timer_state" where
  "timer0_read off t =
     (if off = 0x34 then timer_read32 (0x40054000 + 0x100) t
      else if off = 0x38 then timer_read32 (0x40054000 + 0x104) t
      else timer_read32 (0x40054000 + timer0_offset off) t)"

definition timer0_write :: "u32 \<Rightarrow> u32 \<Rightarrow> timer_state \<times> nvic_ctx \<Rightarrow> timer_state \<times> nvic_ctx" where
  "timer0_write off val s =
     (if off = 0x34 \<or> off = 0x38 then s else timer_write32 (0x40054000 + timer0_offset off) val s)"

definition rp2350_periph_read32 :: "u32 \<Rightarrow> periph_read \<Rightarrow> u32 \<times> periph_read" where
  "rp2350_periph_read32 addr st =
     (let (s, t0) = st; base = addr AND NOT 0x3000 in
      if in_block base 0x40108000 0x100 then (rp_ticks_read (base - 0x40108000) (rp_ticks s), st)
      else if in_block base 0x40100000 0x100 then (powman_read (base - 0x40100000) (rp_powman s), st)
      else if in_block base 0x400D0000 0x100 then (qmi_read (base - 0x400D0000) (rp_qmi s), st)
      else if in_block base 0x40120000 0x100 then (rp_otp_read base (rp_otp s), st)
      else if in_block addr 0x40130000 0x8000 then (rp_otp_read addr (rp_otp s), st)
      else if in_block addr 0x400E0000 0x82C then (let (v, s1) = bootram_read addr s in (v, s1, t0))
      else if in_block base 0x400B8000 0x100 then
        (let (v, t1) = timer1_read (base - 0x400B8000) (rp_timer1 s) in (v, s\<lparr>rp_timer1 := t1\<rparr>, t0))
      else if in_block base 0x400B0000 0x100 then (let (v, t) = timer0_read (base - 0x400B0000) t0 in (v, s, t))
      else if in_block base 0x40158000 0x20 then (rp_glitch s (unat ((base - 0x40158000) div 4)), st)
      else if in_block base 0x40140000 0x40 then (rp_coresight s (unat ((base - 0x40140000) div 4)), st)
      else if in_block base 0x40160000 0x100 then (rp_accessctrl s (unat ((base - 0x40160000) div 4)), st)
      else (0, st))"

definition is_timer_intr :: "u32 \<Rightarrow> bool" where
  "is_timer_intr base \<longleftrightarrow> (in_block base 0x400B0000 0x100 \<or> in_block base 0x400B8000 0x100) \<and> base AND 0xFF = 0x3C"

text \<open>The value that a write through an alias stores, after reading the register.\<close>

definition periph_alias :: "u32 \<Rightarrow> u32 \<Rightarrow> periph_read \<Rightarrow> u32 \<times> periph_read" where
  "periph_alias addr val st =
     (let al = addr AND 0x3000; base = addr AND NOT 0x3000 in
      if al = 0x2000 then
        (let (cur, st1) = rp2350_periph_read32 base st in (if is_timer_intr base then val else cur OR val, st1))
      else if al = 0x3000 then
        (let (cur, st1) = rp2350_periph_read32 base st in (if is_timer_intr base then val else cur AND NOT val, st1))
      else if al = 0x1000 then
        (let (cur, st1) = rp2350_periph_read32 base st in (cur XOR val, st1))
      else (val, st))"

definition rp2350_periph_write32 :: "u32 \<Rightarrow> u32 \<Rightarrow> periph_write \<Rightarrow> periph_write" where
  "rp2350_periph_write32 addr val0 st =
     (let (s0, t00, nv) = st; base = addr AND NOT 0x3000; (val, s, t0) = periph_alias addr val0 (s0, t00) in
      if in_block base 0x40108000 0x100 then
        (s\<lparr>rp_ticks := rp_ticks_write (base - 0x40108000) val (rp_ticks s)\<rparr>, t0, nv)
      else if in_block base 0x40100000 0x100 then
        (s\<lparr>rp_powman := powman_write (base - 0x40100000) val (rp_powman s)\<rparr>, t0, nv)
      else if in_block base 0x400D0000 0x100 then
        (s\<lparr>rp_qmi := qmi_write (base - 0x400D0000) val (rp_qmi s)\<rparr>, t0, nv)
      else if in_block base 0x40120000 0x100 then (s\<lparr>rp_otp := rp_otp_write base val (rp_otp s)\<rparr>, t0, nv)
      else if in_block base 0x400E0000 0x82C then (bootram_write base val s, t0, nv)
      else if in_block base 0x400B8000 0x100 then
        (let (t1, nv1) = timer1_write (base - 0x400B8000) val (rp_timer1 s, nv) in (s\<lparr>rp_timer1 := t1\<rparr>, t0, nv1))
      else if in_block base 0x400B0000 0x100 then
        (let (t, nv1) = timer0_write (base - 0x400B0000) val (t0, nv) in (s, t, nv1))
      else if in_block base 0x40158000 0x20 then
        (s\<lparr>rp_glitch := (rp_glitch s)(unat ((base - 0x40158000) div 4) := val)\<rparr>, t0, nv)
      else if in_block base 0x40140000 0x40 then
        (s\<lparr>rp_coresight := (rp_coresight s)(unat ((base - 0x40140000) div 4) := val)\<rparr>, t0, nv)
      else if in_block base 0x40160000 0x100 then
        (s\<lparr>rp_accessctrl := (rp_accessctrl s)(unat ((base - 0x40160000) div 4) := val)\<rparr>, t0, nv)
      else (s, t0, nv))"

definition rp2350_periph_read8 :: "u32 \<Rightarrow> periph_read \<Rightarrow> u8 \<times> periph_read" where
  "rp2350_periph_read8 addr st =
     (if in_block addr 0x400E0000 0x400 then (rp_bootram (fst st) (unat (addr - 0x400E0000)), st)
      else let (v, st1) = rp2350_periph_read32 (addr AND NOT 3) st
           in (ucast (shr v (unat ((addr AND 3) * 8))), st1))"

definition rp2350_periph_write8 :: "u32 \<Rightarrow> u8 \<Rightarrow> periph_write \<Rightarrow> periph_write" where
  "rp2350_periph_write8 addr val st =
     (let (s, t0, nv) = st in
      if in_block addr 0x400E0000 0x400 then
        (s\<lparr>rp_bootram := (rp_bootram s)(unat (addr - 0x400E0000) := val)\<rparr>, t0, nv)
      else let (word, s1, t1) = rp2350_periph_read32 (addr AND NOT 3) (s, t0); sh = unat ((addr AND 3) * 8)
           in rp2350_periph_write32 (addr AND NOT 3) ((word AND NOT (shl 0xFF sh)) OR shl (ucast val) sh) (s1, t1, nv))"

section \<open>Boot locks exclude\<close>

definition bootlock_held :: "u32 \<Rightarrow> rp2350_periph \<Rightarrow> bool" where
  "bootlock_held k s \<longleftrightarrow> \<not> bit (rp_bootlock_stat s) (unat k)"

interpretation boot: lock_bank "\<lambda>k. k < 8" bootlock_held bootlock_claim bootlock_release
proof unfold_locales
  fix k j :: u32 and s
  assume "k < 8"
  then have k: "unat k < 8" by (simp add: word_less_nat_alt)
  show "fst (bootlock_claim k s) = 0 \<longleftrightarrow> bootlock_held k s"
    using k by (simp add: bootlock_claim_def bootlock_held_def Let_def push_bit_eq_0_iff)
  show "bootlock_held k (snd (bootlock_claim k s))"
    by (simp add: bootlock_claim_def bootlock_held_def Let_def bit_simps)
  show "bootlock_held k (snd (bootlock_claim j s))" if "bootlock_held k s"
    using that by (simp add: bootlock_claim_def bootlock_held_def Let_def bit_simps)
  show "bootlock_held k (bootlock_release j s)" if "j \<noteq> k" "bootlock_held k s"
    using that k by (auto simp: bootlock_release_def bootlock_held_def bit_simps word_unat_eq_iff)
  show "\<not> bootlock_held k (bootlock_release k s)"
    using k by (simp add: bootlock_release_def bootlock_held_def bit_simps)
qed

lemma bootlock_address:
  assumes "k < 8"
  defines "a \<equiv> 0x400E080C + 4 * k"
  shows "a AND NOT 0x3000 = a" "a AND 0x3000 = 0" "a - 0x400E0000 = 0x80C + 4 * k"
    "in_block a 0x400E0000 0x82C" "(0x80C + 4 * k - 0x80C) div 4 = k" "0x80C + 4 * k \<ge> 0x80C" "0x80C + 4 * k < 0x82C"
proof -
  have "k \<in> {0, 1, 2, 3, 4, 5, 6, 7}"
  proof -
    have "unat k < 8" using assms by (simp add: word_less_nat_alt)
    then have "unat k \<in> {0, 1, 2, 3, 4, 5, 6, 7}" by auto
    then have "(of_nat (unat k) :: u32) \<in> of_nat ` {0, 1, 2, 3, 4, 5, 6, 7}" by (rule imageI)
    then show ?thesis by simp
  qed
  then show "a AND NOT 0x3000 = a" "a AND 0x3000 = 0" "a - 0x400E0000 = 0x80C + 4 * k"
    "in_block a 0x400E0000 0x82C" "(0x80C + 4 * k - 0x80C) div 4 = k" "0x80C + 4 * k \<ge> 0x80C" "0x80C + 4 * k < 0x82C"
    unfolding a_def by (auto simp: in_block_def)
qed

text \<open>A boot lock has at most one owner: after a successful read of its register, and whatever claims
  and releases of other locks follow, every further read returns 0, until a write to the register
  releases it. The registers at 0x400E080C are these operations.\<close>

theorem bootlocks_exclude:
  assumes "k < 8" "Release k \<notin> set ops"
  shows "fst (bootlock_claim k (fold (lock_step bootlock_claim bootlock_release) ops (snd (bootlock_claim k s)))) = 0 \<and>
    fst (bootlock_claim k (bootlock_release k s)) = shl 1 (unat k) \<and>
    rp2350_periph_read32 (0x400E080C + 4 * k) (s, t0) = (let (v, s1) = bootlock_claim k s in (v, s1, t0)) \<and>
    rp2350_periph_write32 (0x400E080C + 4 * k) val (s, t0, nv) = (bootlock_release k s, t0, nv)"
proof -
  define a d where "a = 0x400E080C + 4 * k" and "d = 0x80C + 4 * k"
  note a = bootlock_address [OF assms(1), folded a_def d_def]
  have low: "d \<noteq> c" if "unat c < 0x80C" for c
    using a(6) that by (auto simp: word_le_nat_alt)
  have o: "d \<noteq> 0x800" "d \<noteq> 0x804" "d \<noteq> 0x808" "\<not> d < 0x400"
    by (rule low, simp)+ (use a(6) in \<open>simp add: word_le_nat_alt word_less_nat_alt\<close>)
  have n: "\<not> in_block a s sz" if "unat s + unat sz \<le> 0x400E0000 \<or> 0x400E082C \<le> unat s" "unat s + unat sz < 2 ^ 32" for s sz
    using a(4) that by (auto simp: in_block_def word_le_nat_alt word_less_nat_alt unat_word_ariths)
  have "rp2350_periph_read32 a (s, t0) = (let (v, s1) = bootlock_claim k s in (v, s1, t0))"
    unfolding rp2350_periph_read32_def bootram_read_def Let_def a(1,3) using o by (simp add: a n)
  moreover have "rp2350_periph_write32 a val (s, t0, nv) = (bootlock_release k s, t0, nv)"
    unfolding rp2350_periph_write32_def periph_alias_def bootram_write_def Let_def a(1,2,3) using o by (simp add: a n)
  moreover have "fst (bootlock_claim k (bootlock_release k s)) = shl 1 (unat k)"
    using boot.exclusion(2) [OF assms, of s] by (simp add: bootlock_claim_def Let_def split: if_splits)
  ultimately show ?thesis
    using boot.exclusion(1) [OF assms] by (simp add: a_def)
qed

theorem bootlocks_exclude_witness:
  "fst (bootlock_claim 3 (fold (lock_step bootlock_claim bootlock_release) [Acquire 2, Release 2]
     (snd (bootlock_claim 3 (rp2350_periph_init True))))) = 0"
  using bootlocks_exclude [of 3 "[Acquire 2, Release 2]" "rp2350_periph_init True"] by simp

section \<open>What cannot be undone\<close>

datatype periph_access = Rd32 u32 | Wr32 u32 u32 | Rd8 u32 | Wr8 u32 u8

fun periph_step :: "periph_access \<Rightarrow> periph_write \<Rightarrow> periph_write" where
  "periph_step (Rd32 a) (s, t0, nv) = (let (_, s1, t1) = rp2350_periph_read32 a (s, t0) in (s1, t1, nv))"
| "periph_step (Wr32 a v) st = rp2350_periph_write32 a v st"
| "periph_step (Rd8 a) (s, t0, nv) = (let (_, s1, t1) = rp2350_periph_read8 a (s, t0) in (s1, t1, nv))"
| "periph_step (Wr8 a v) st = rp2350_periph_write8 a v st"

definition burnt :: "rp2350_periph \<Rightarrow> rp2350_periph \<Rightarrow> bool" where
  "burnt s s' \<longleftrightarrow> ot_data (rp_otp s') = ot_data (rp_otp s) \<and>
     (\<forall>i n. bit (rp_write_once s i) n \<longrightarrow> bit (rp_write_once s' i) n)"

lemma burnt_trans: "burnt s s' \<Longrightarrow> burnt s' s'' \<Longrightarrow> burnt s s''"
  by (simp add: burnt_def)

lemma burnt_same: "rp_otp s' = rp_otp s \<Longrightarrow> rp_write_once s' = rp_write_once s \<Longrightarrow> burnt s s'"
  by (simp add: burnt_def)

lemma burnt_if: "(P \<Longrightarrow> burnt s (fst x)) \<Longrightarrow> (\<not> P \<Longrightarrow> burnt s (fst y)) \<Longrightarrow> burnt s (fst (if P then x else y))"
  by simp

lemma boot_bytes_word: "rd32 (boot_bytes s) 0x400 = rp_write_once s 0"
  by (rule bit_word_eqI) (simp add: bit_cases_32, elim disjE; simp add: rd32_def boot_bytes_def bit_simps)

definition boot_overrun :: "u32 \<Rightarrow> bool" where
  "boot_overrun a \<longleftrightarrow> a \<in> {0x400E03FD, 0x400E03FE, 0x400E03FF}"

lemma bootram_burnt: "burnt s (snd (bootram_read a s))" "\<not> boot_overrun a \<Longrightarrow> burnt s (bootram_write a v s)"
proof -
  show "burnt s (snd (bootram_read a s))"
    by (auto simp: bootram_read_def bootlock_claim_def burnt_def Let_def)
  assume a: "\<not> boot_overrun a"
  have low: "unat (a - 0x400E0000) + 4 \<le> 0x400" if "a - 0x400E0000 < 0x400"
  proof -
    have "a - 0x400E0000 \<noteq> 0x3FD" "a - 0x400E0000 \<noteq> 0x3FE" "a - 0x400E0000 \<noteq> 0x3FF"
      using a by (auto simp: boot_overrun_def diff_eq_eq)
    then have "unat (a - 0x400E0000) \<noteq> 0x3FD" "unat (a - 0x400E0000) \<noteq> 0x3FE" "unat (a - 0x400E0000) \<noteq> 0x3FF"
      by (auto simp: word_unat_eq_iff)
    then show ?thesis using that by (simp add: word_less_nat_alt)
  qed
  have "rd32 (wr32 (boot_bytes s) (unat (a - 0x400E0000)) v) 0x400 = rp_write_once s 0" if "a - 0x400E0000 < 0x400"
    using rd32_wr32_other [of "0x400" "unat (a - 0x400E0000)"] low [OF that] by (simp add: boot_bytes_word)
  then show "burnt s (bootram_write a v s)"
    by (auto simp: bootram_write_def bootlock_release_def burnt_def Let_def bit_simps)
qed

lemma periph_read32_burnt: "burnt s (fst (snd (rp2350_periph_read32 a (s, t0))))"
  using bootram_burnt(1) [of s a]
  by (auto simp: rp2350_periph_read32_def Let_def intro: burnt_same split: prod.split)

lemma periph_alias_burnt: "burnt s (fst (snd (periph_alias a v (s, t0))))"
  using periph_read32_burnt by (auto simp: periph_alias_def Let_def intro: burnt_same split: prod.split) (metis fst_conv snd_conv)+

lemma periph_write32_burnt:
  assumes "\<not> boot_overrun (a AND NOT 0x3000)"
  shows "burnt s (fst (rp2350_periph_write32 a v (s, t0, nv)))"
proof -
  obtain val s1 t1 where p: "periph_alias a v (s, t0) = (val, s1, t1)" by (metis surj_pair)
  have o: "burnt s1 (s1\<lparr>rp_otp := rp_otp_write b val (rp_otp s1)\<rparr>)" for b
    by (simp add: burnt_def rp_otp_write_def Let_def)
  have t: "burnt s1 (fst (case x of (t, n) \<Rightarrow> (s1\<lparr>rp_timer1 := t\<rparr>, t1, n)))"
      "burnt s1 (fst (case y of (t, n) \<Rightarrow> (s1, t, n)))" for x y
    by (auto intro: burnt_same split: prod.split)
  have "burnt s1 (fst (rp2350_periph_write32 a v (s, t0, nv)))"
    unfolding rp2350_periph_write32_def Let_def p prod.case
    by (intro burnt_if t; simp only: fst_conv; (rule o bootram_burnt(2) [OF assms] burnt_same; simp)?)
  then show ?thesis
    using periph_alias_burnt [of s a v t0] p burnt_trans by fastforce
qed

fun no_overrun :: "periph_access \<Rightarrow> bool" where
  "no_overrun (Wr32 a v) = (\<not> boot_overrun (a AND NOT 0x3000))"
| "no_overrun acc = True"

lemma aligned_no_overrun: "\<not> boot_overrun ((a AND NOT 3) AND NOT 0x3000)"
proof
  assume "boot_overrun ((a AND NOT 3) AND NOT 0x3000)"
  then have "bit ((a AND NOT 3) AND NOT 0x3000) 0 \<or> bit ((a AND NOT 3) AND NOT 0x3000) 1"
    by (auto simp: boot_overrun_def)
  then show False by (simp add: bit_simps)
qed

lemma periph_step_burnt:
  assumes acc: "no_overrun acc"
  shows "burnt (fst st) (fst (periph_step acc st))"
proof (cases st)
  case (fields s t0 nv)
  have r: "burnt s (fst (snd (rp2350_periph_read32 a (s, t0))))" for a by (rule periph_read32_burnt)
  show ?thesis
  proof (cases acc)
    case (Wr8 a v)
    obtain w s1 t1 where p: "rp2350_periph_read32 (a AND NOT 3) (s, t0) = (w, s1, t1)" by (metis surj_pair)
    have "burnt s s1" using r [of "a AND NOT 3"] by (simp only: p fst_conv snd_conv)
    then show ?thesis
      unfolding fields Wr8 periph_step.simps rp2350_periph_write8_def Let_def p prod.case fst_conv
      by (intro burnt_if burnt_trans [OF _ periph_write32_burnt [OF aligned_no_overrun]]) (simp_all add: burnt_same)
  qed (use acc r periph_write32_burnt in \<open>auto simp: fields rp2350_periph_read8_def Let_def split_beta intro: burnt_same\<close>)
qed

text \<open>C37. What is burnt stays burnt: no sequence of word and byte accesses, to any addresses of this file but
  the three unaligned ones from which a word store runs over the end of the boot RAM, changes a row of the
  one-time programmable memory or clears a bit of the write-once registers.\<close>

theorem one_time_memory_fixed:
  assumes "\<forall>a v. Wr32 a v \<in> set accs \<longrightarrow> a AND NOT 0x3000 \<notin> {0x400E03FD, 0x400E03FE, 0x400E03FF}"
  shows "let s' = fst (fold periph_step accs (s, t0, nv)) in
   ot_data (rp_otp s') = ot_data (rp_otp s) \<and> (\<forall>i n. bit (rp_write_once s i) n \<longrightarrow> bit (rp_write_once s' i) n)"
proof -
  have "no_overrun acc" if "acc \<in> set accs" for acc
    using assms that by (cases acc) (simp_all only: no_overrun.simps boot_overrun_def, blast)
  then have "burnt (fst st) (fst (fold periph_step accs st))" for st
  proof (induction accs arbitrary: st)
    case (Cons acc accs)
    have "no_overrun acc" "\<And>x. x \<in> set accs \<Longrightarrow> no_overrun x" using Cons.prems by auto
    then show ?case unfolding fold_simps by (blast intro: burnt_trans [OF periph_step_burnt Cons.IH])
  qed (simp add: burnt_def)
  from this [of "(s, t0, nv)"] show ?thesis by (simp add: burnt_def Let_def)
qed

theorem one_time_memory_fixed_witness:
  "bit (rp_write_once (fst (fold periph_step [Wr32 0x400E0800 0, Wr32 0x400E03FC 0, Wr8 0x400E03FF 0, Wr32 0x400E0804 4]
     ((rp2350_periph_init True)\<lparr>rp_write_once := \<lambda>_. 4\<rparr>, timer_demo, nvic_boot))) 0) 2"
proof -
  define s where "s = (rp2350_periph_init True)\<lparr>rp_write_once := \<lambda>_. 4\<rparr>"
  have "bit (rp_write_once s 0) 2" by (simp add: s_def)
  then show ?thesis
    using one_time_memory_fixed [of "[Wr32 0x400E0800 0, Wr32 0x400E03FC 0, Wr8 0x400E03FF 0, Wr32 0x400E0804 4]" s timer_demo nvic_boot]
    unfolding Let_def s_def [symmetric] by auto
qed

text \<open>A deviation: from an unaligned address at its end, a word store runs over the boot RAM and clears what was
  written once.\<close>

lemma bootram_overruns:
  "rp_write_once (fst (rp2350_periph_write32 0x400E03FF 0 (s, t0, nv))) 0 = rp_write_once s 0 AND 0xFF000000"
proof -
  have "rd32 (wr32 (boot_bytes s) 0x3FF 0) 0x400 = rp_write_once s 0 AND 0xFF000000"
    by (rule bit_word_eqI) (simp add: bit_cases_32, elim disjE; simp add: rd32_def wr32_def boot_bytes_def bit_simps)
  then show ?thesis
    by (simp add: rp2350_periph_write32_def periph_alias_def bootram_write_def in_block_def Let_def)
qed

section \<open>The second timer is the first one again\<close>

definition timer1_abs :: "rp2350_timer1 \<Rightarrow> timer_state" where
  "timer1_abs t = \<lparr>tm_time_us = t1_time_us t, tm_alarm = t1_alarm t, tm_armed = t1_armed t, tm_intr = t1_intr t,
     tm_inte = t1_inte t, tm_intf = t1_intf t, tm_paused = t1_paused t, tm_timehw_latch = 0,
     timer_latched_high = t1_latched_high t\<rparr>"

lemma timer1_check_sim:
  "timer1_abs (fst (timer1_check_alarm now i s)) = fst (timer_check_alarm now i (timer1_abs (fst s), nv))"
  by (simp add: timer1_check_alarm_def timer_check_alarm_def timer_fire_alarm_def timer1_abs_def Let_def split: prod.split)

lemma timer1_checks_sim:
  "timer1_abs (fst (fold (timer1_check_alarm now) is s)) = fst (fold (timer_check_alarm now) is (timer1_abs (fst s), nv))"
proof (induction "is" arbitrary: s nv)
  case (Cons i "is")
  obtain t nv1 where "timer_check_alarm now i (timer1_abs (fst s), nv) = (t, nv1)" by (metis surj_pair)
  moreover have "t = timer1_abs (fst (timer1_check_alarm now i s))"
    using timer1_check_sim [of now i s nv] calculation by simp
  ultimately show ?case using Cons.IH [of "timer1_check_alarm now i s" nv1] by simp
qed simp

lemma timer1_line:
  assumes "i < 4" "core < 2"
  shows "irq_pending (nvic_signal_irq (4 + of_nat i) c) core line \<longleftrightarrow> line = 4 + i \<or> irq_pending c core line"
proof -
  have u: "unat (4 + of_nat i :: u32) = 4 + i"
    using assms(1) unfolding less_4_cases by (elim disjE) simp_all
  have "(4 + of_nat i :: u32) < 64" using assms(1) u by (simp add: word_less_nat_alt)
  then show ?thesis
    using nvl.signals_pend [of "[4 + of_nat i]" core c line] assms(2) u by auto
qed

lemma timer1_check_line:
  assumes "i < 4" "core < 2"
  shows "irq_pending (snd (timer1_check_alarm now i s)) core line \<longleftrightarrow>
      irq_pending (snd s) core line \<or> line = 4 + i \<and> bit (t1_inte (fst s)) i \<and> alarm_due (timer1_abs (fst s)) now i"
  using assms by (auto simp: timer1_check_alarm_def timer1_line timer1_ints_def timer1_abs_def alarm_due_def bit_simps Let_def
      split: prod.split)

lemma timer1_check_frame:
  "t1_inte (fst (timer1_check_alarm now i s)) = t1_inte (fst s)"
  "i < 4 \<Longrightarrow> j \<noteq> i \<Longrightarrow>
     alarm_due (timer1_abs (fst (timer1_check_alarm now i s))) now j = alarm_due (timer1_abs (fst s)) now j"
  by (auto simp: timer1_check_alarm_def timer1_abs_def alarm_due_def bit_simps Let_def split: prod.split)

text \<open>C38. The second timer of the RP2350 behaves as the shared timer: a tick takes both through the same
  times, alarms and interrupt flags. It raises its own four lines, and unlike the shared timer only
  those that are enabled.\<close>

theorem timer1_simulates_timer:
  assumes "us \<noteq> 0" "core < 2" "i < 4" and r: "(t', nv') = rp2350_timer1_tick us (t, nv)"
  shows "timer1_abs t' = fst (timer_tick us (timer1_abs t, nv0)) \<and>
    (irq_pending nv' core (4 + i) \<longleftrightarrow> irq_pending nv core (4 + i) \<or>
       t1_paused t = 0 \<and> bit (t1_inte t) i \<and> alarm_due (timer1_abs t) (ucast (t1_time_us t + ucast us)) i)"
proof (cases "t1_paused t = 0")
  case True
  define now :: u32 where "now = ucast (t1_time_us t + ucast us)"
  define t1 where "t1 = t\<lparr>t1_time_us := t1_time_us t + ucast us\<rparr>"
  have f: "(t', nv') = fold (timer1_check_alarm now) [0..<4] (t1, nv)"
    using r True assms(1) by (simp add: rp2350_timer1_tick_def t1_def now_def Let_def)
  have a: "timer1_abs t1 = (timer1_abs t)\<lparr>tm_time_us := tm_time_us (timer1_abs t) + ucast us\<rparr>"
    by (simp add: timer1_abs_def t1_def)
  have p: "tm_paused (timer1_abs t) = 0" using True by (simp add: timer1_abs_def)
  have n: "now = timer_low (timer1_abs t1)" by (simp add: now_def timer_low_ucast timer1_abs_def t1_def)
  have "timer1_abs t' = fst (timer_tick us (timer1_abs t, nv0))"
    using timer1_checks_sim [of now "[0..<4]" "(t1, nv)" nv0] f [symmetric] p
    by (simp add: timer_tick_def n a Let_def)
  moreover have "alarm_due (timer1_abs t1) now i = alarm_due (timer1_abs t) now i" "t1_inte t1 = t1_inte t"
    by (simp_all add: alarm_due_def t1_def timer1_abs_def)
  moreover have "irq_pending nv' core (4 + i) \<longleftrightarrow> irq_pending nv core (4 + i) \<or>
      bit (t1_inte t1) i \<and> alarm_due (timer1_abs t1) now i"
  proof -
    have "nv' = snd (fold (timer1_check_alarm now) [0, 1, 2, 3] (t1, nv))"
      using f [symmetric] by (simp add: upt_0_4)
    then show ?thesis
      using assms(2,3) unfolding less_4_cases
      by (auto simp: timer1_check_line timer1_check_frame)
  qed
  ultimately show ?thesis using True by (simp add: now_def)
qed (use r in \<open>simp add: rp2350_timer1_tick_def timer_tick_def timer1_abs_def\<close>)

theorem timer1_simulates_timer_witness:
  "irq_pending (snd (rp2350_timer1_tick 5 ((rp_timer1 (rp2350_periph_init True))\<lparr>t1_armed := 2, t1_inte := 2\<rparr>, nvic_boot))) 0 5"
proof -
  define t where "t = (rp_timer1 (rp2350_periph_init True))\<lparr>t1_armed := 2, t1_inte := 2\<rparr>"
  obtain t' nv' where r: "(t', nv') = rp2350_timer1_tick 5 (t, nvic_boot)" by (metis surj_pair)
  have "alarm_due (timer1_abs t) (ucast (t1_time_us t + ucast (5 :: u32))) 1"
    by (simp add: alarm_due_def timer1_abs_def t_def rp2350_periph_init_def time_reached_def bit_numeral_rec)
  moreover have "t1_paused t = 0" "bit (t1_inte t) 1"
    by (simp_all add: t_def rp2350_periph_init_def bit_numeral_rec)
  ultimately show ?thesis
    using timer1_simulates_timer [OF _ _ _ r, of 0 1] r [symmetric] by (simp add: t_def [symmetric])
qed

section \<open>Deviations\<close>

text \<open>The access-control registers answer nowhere: the decoder claims them at \<^verbatim>\<open>0x40060000\<close>, the accesses look
  for them at \<^verbatim>\<open>0x40160000\<close>.\<close>

lemma accessctrl_lost:
  assumes "in_block a 0x40060000 0x100"
  shows "rp2350_periph_match a" "rp2350_periph_read32 a (s, t0) = (0, s, t0)"
    "rp2350_periph_write32 a v (s, t0, nv) = (s, t0, nv)"
proof -
  have u: "unat a \<ge> 0x40060000" "unat a < 0x40060100"
    using assms by (simp_all add: in_block_def word_le_nat_alt word_less_nat_alt)
  have b: "a AND NOT 0x3000 = a" "a AND 0x3000 = 0"
  proof -
    obtain o1 where o1: "a = 0x40060000 + of_nat o1" "o1 < 0x100"
      using u by (intro that [of "unat a - 0x40060000"]) (simp_all add: of_nat_diff)
    have "a div 2 ^ 12 = 0x40060"
      using u by (simp add: word_unat_eq_iff unat_div)
    then have d: "drop_bit 12 a = 0x40060" by (simp add: drop_bit_eq_div)
    have "bit a (12 + n) \<longleftrightarrow> bit (0x40060 :: u32) n" for n
      using arg_cong [OF d, of "\<lambda>w. bit w n"] by (simp add: bit_simps)
    from this [of 0] this [of 1] have "\<not> bit a 12" "\<not> bit a 13" by (simp_all add: bit_numeral_rec)
    then show "a AND 0x3000 = 0"
      by (intro bit_word_eqI) (simp add: bit_cases_32, elim disjE; simp add: bit_simps bit_numeral_rec)
    then show "a AND NOT 0x3000 = a"
    proof (intro bit_word_eqI)
      fix n assume "a AND 0x3000 = 0"
      then have "\<not> bit (a AND 0x3000) n" by simp
      then show "bit (a AND NOT 0x3000) n = bit a n" by (auto simp only: bit_and_iff bit_not_iff possible_bit_word dest: bit_imp_le_length)
    qed
  qed
  have n: "\<not> in_block a s sz" if "unat s + unat sz \<le> 0x40060000 \<or> 0x40060100 \<le> unat s" "unat s + unat sz < 2 ^ 32" for s sz
    using u that by (auto simp: in_block_def word_le_nat_alt word_less_nat_alt unat_word_ariths)
  show "rp2350_periph_match a" unfolding rp2350_periph_match_def Let_def b using assms by simp
  show "rp2350_periph_read32 a (s, t0) = (0, s, t0)"
    unfolding rp2350_periph_read32_def Let_def b by (simp add: n)
  show "rp2350_periph_write32 a v (s, t0, nv) = (s, t0, nv)"
    unfolding rp2350_periph_write32_def periph_alias_def Let_def b by (simp add: n)
qed

text \<open>The pause register of the first timer keeps its place on the RP2350, but the translation moves it too:
  a write to it is lost.\<close>

lemma timer0_pause_lost: "rp2350_periph_write32 0x400B0030 v (s, t0, nv) = (s, t0, nv)"
  by (simp add: rp2350_periph_write32_def periph_alias_def timer0_write_def timer0_offset_def timer_write32_def
      in_block_def Let_def)

end
