(* ===== verification/Bus_Devices.thy ===== *)
theory Bus_Devices
  imports Dual_Core Core1_Boot Uart Spi Gpio Xip Adc Pwm I2c Clocks Blocks Hstx Dma Rp2350_Periph
begin

unbundle bit_operations_syntax

text \<open>
  What hangs on the memory bus of \<^verbatim>\<open>src/membus.c\<close>: the memories, with the active RAM window, and
  the peripherals, each lifted from its own state to the whole machine. The state of the parts that
  are not modelled (PIO, USB and the network boards) is the type
  \<open>'x\<close>; their operations are the fields of \<open>devices\<close>, which may change anything in the machine, as
  the C functions can. A write to the DMA controller is also such a field, because a transfer calls
  the bus again; \<open>Dma_Engine\<close> closes the circle.

  An array is a function from its index. A \<^verbatim>\<open>memcpy\<close> that starts inside an array and runs past its
  end, which the bus allows for the last bytes of a memory, writes to indices beyond the array here.
\<close>

section \<open>State\<close>

text \<open>The memory behind the pointer \<^verbatim>\<open>active_ram\<close>; a null pointer is replaced by \<^verbatim>\<open>cpu.ram\<close> wherever
  it is used, so it is not told apart from it.\<close>

datatype ram_ptr = Cpu_Ram | Rp2350_Sram

record ('d, 'e, 'x) bus =
  b_ram :: "nat \<Rightarrow> u8"
  b_rp2350_sram :: "nat \<Rightarrow> u8"
  b_has_rp2350_sram :: bool
  b_flash :: "nat \<Rightarrow> u8"
  b_rom :: "nat \<Rightarrow> u8"
  b_active_ram :: ram_ptr
  b_active_ram_base :: u32
  b_active_ram_size :: u32
  b_xip_sram :: "nat \<Rightarrow> u8"
  b_xip_ctrl :: xip_ctrl_state
  b_xip_ssi :: xip_ssi_state
  b_busctrl :: busctrl_state
  b_qspi :: qspi_state
  b_gpio :: gpio_state
  b_uart :: "nat \<Rightarrow> uart_state"
  b_spi :: "nat \<Rightarrow> 'd spi_state"
  b_i2c :: "nat \<Rightarrow> 'e i2c_state"
  b_adc :: adc_state
  b_pwm :: pwm_state
  b_clocks :: clocks_state
  b_vreg :: "nat \<Rightarrow> u32"
  b_syscfg :: "nat \<Rightarrow> u32"
  b_ticks :: "nat \<Rightarrow> u32"
  b_trng :: trng_state
  b_sha256 :: sha256_state
  b_hstx :: hstx_state
  b_dma :: dma_state
  b_has_rp2350_periph :: bool
  b_periph :: rp2350_periph
  b_rest :: 'x

type_synonym ('d, 'e, 'x) emu = "('d, 'e, 'x) bus mach"

record 'm devices =
  dv_dma_write32 :: "u32 \<Rightarrow> u32 \<Rightarrow> 'm \<Rightarrow> 'm"
  pio_read32 :: "nat \<Rightarrow> u32 \<Rightarrow> 'm \<Rightarrow> u32 \<times> 'm"
  pio_write32 :: "nat \<Rightarrow> u32 \<Rightarrow> u32 \<Rightarrow> 'm \<Rightarrow> 'm"
  usb_read32 :: "u32 \<Rightarrow> 'm \<Rightarrow> u32 \<times> 'm"
  usb_write32 :: "u32 \<Rightarrow> u32 \<Rightarrow> 'm \<Rightarrow> 'm"
  board_gpio_write :: "u32 \<Rightarrow> 'm \<Rightarrow> 'm"
  rom_intercept :: "u32 \<Rightarrow> 'm \<Rightarrow> bool \<times> 'm"
  thumb32_step :: "u32 \<Rightarrow> u16 \<Rightarrow> u16 \<Rightarrow> 'm \<Rightarrow> bool \<times> 'm"
  semihosting_handle :: "'m \<Rightarrow> bool \<times> 'm"
  nd_wait :: "'m \<Rightarrow> bool \<times> 'm"
  ff_poll_hook :: "'m \<Rightarrow> 'm"

abbreviation rp2350 :: "('d, 'e, 'x) emu \<Rightarrow> bool" where
  "rp2350 m \<equiv> membus_rp2350_mode (m_nv m)"

definition upd_bus :: "(('d, 'e, 'x) bus \<Rightarrow> ('d, 'e, 'x) bus) \<Rightarrow> ('d, 'e, 'x) emu \<Rightarrow> ('d, 'e, 'x) emu" where
  "upd_bus f m = m\<lparr>m_bus := f (m_bus m)\<rparr>"

section \<open>Memories\<close>

definition sram_alias_translate :: "u32 \<Rightarrow> u32" where
  "sram_alias_translate addr =
     (if in_block addr 0x21000000 0x42000 then addr - 0x21000000 + 0x20000000 else addr)"

definition mem_set_ram_ptr :: "ram_ptr \<Rightarrow> u32 \<Rightarrow> u32 \<Rightarrow> ('d, 'e, 'x) emu \<Rightarrow> ('d, 'e, 'x) emu" where
  "mem_set_ram_ptr ram base sz m =
     upd_bus (\<lambda>b. b\<lparr>b_active_ram := ram, b_active_ram_base := base, b_active_ram_size := sz\<rparr>) m"

definition select_ram :: "('d, 'e, 'x) emu \<Rightarrow> ('d, 'e, 'x) emu" where
  "select_ram m =
     (if rp2350 m \<and> b_has_rp2350_sram (m_bus m) then mem_set_ram_ptr Rp2350_Sram 0x20000000 0x82000 m
      else mem_set_ram_ptr Cpu_Ram 0x20000000 0x42000 m)"

definition get_ram :: "('d, 'e, 'x) bus \<Rightarrow> nat \<Rightarrow> u8" where
  "get_ram b = (case b_active_ram b of Cpu_Ram \<Rightarrow> b_ram b | Rp2350_Sram \<Rightarrow> b_rp2350_sram b)"

definition set_ram :: "(nat \<Rightarrow> u8) \<Rightarrow> ('d, 'e, 'x) bus \<Rightarrow> ('d, 'e, 'x) bus" where
  "set_ram mem b =
     (case b_active_ram b of Cpu_Ram \<Rightarrow> b\<lparr>b_ram := mem\<rparr> | Rp2350_Sram \<Rightarrow> b\<lparr>b_rp2350_sram := mem\<rparr>)"

definition in_active_ram :: "u32 \<Rightarrow> ('d, 'e, 'x) bus \<Rightarrow> bool" where
  "in_active_ram addr b = in_block addr (b_active_ram_base b) (b_active_ram_size b)"

definition ram_offset :: "u32 \<Rightarrow> ('d, 'e, 'x) bus \<Rightarrow> nat" where
  "ram_offset addr b = unat (addr - b_active_ram_base b)"

definition mem_fetch16_ram :: "u32 \<Rightarrow> ('d, 'e, 'x) bus \<Rightarrow> u16 option" where
  "mem_fetch16_ram pc b =
     (if pc \<ge> b_active_ram_base b \<and> pc + 1 < b_active_ram_base b + b_active_ram_size b
      then Some (rd16 (get_ram b) (ram_offset pc b)) else None)"

definition mem_ram_top :: "('d, 'e, 'x) emu \<Rightarrow> u32" where
  "mem_ram_top m = b_active_ram_base (m_bus m) + b_active_ram_size (m_bus m)"

definition rom_read32 :: "u32 \<Rightarrow> (nat \<Rightarrow> u8) \<Rightarrow> u32" where
  "rom_read32 addr rom =
     (let off = addr AND 0x3FFF in if off + 3 \<ge> 0x4000 then 0 else rd32 rom (unat off))"

definition rom_read16 :: "u32 \<Rightarrow> (nat \<Rightarrow> u8) \<Rightarrow> u16" where
  "rom_read16 addr rom =
     (let off = addr AND 0x3FFF in if off + 1 < 0x4000 then rd16 rom (unat off) else 0)"

definition rom_read8 :: "u32 \<Rightarrow> (nat \<Rightarrow> u8) \<Rightarrow> u8" where
  "rom_read8 addr rom = rom (unat (addr AND 0x3FFF))"

definition in_rom_alias :: "u32 \<Rightarrow> ('d, 'e, 'x) emu \<Rightarrow> bool" where
  "in_rom_alias addr m \<longleftrightarrow> rp2350 m \<and> in_block addr 0x08000000 0x4000"

definition in_flash_alias :: "u32 \<Rightarrow> bool" where
  "in_flash_alias addr \<longleftrightarrow> in_block addr 0x11000000 0x200000 \<or> in_block addr 0x12000000 0x200000 \<or>
     in_block addr 0x13000000 0x200000"

section \<open>Address decoding\<close>

definition pads_bank0_active_base :: "bool \<Rightarrow> u32" where
  "pads_bank0_active_base rp = (if rp then 0x40038000 else 0x4001C000)"

definition pads_bank0_active_size :: "bool \<Rightarrow> u32" where
  "pads_bank0_active_size rp = (if rp then 0xC0 else 0x80)"

definition io_bank0_active_base :: "bool \<Rightarrow> u32" where
  "io_bank0_active_base rp = (if rp then 0x40028000 else 0x40014000)"

definition io_bank0_active_size :: "bool \<Rightarrow> u32" where
  "io_bank0_active_size rp = (if rp then 0x400 else 0x200)"

definition gpio_bus_match :: "bool \<Rightarrow> u32 \<Rightarrow> bool" where
  "gpio_bus_match rp addr =
     (let iobase = io_bank0_active_base rp; iosize = io_bank0_active_size rp in
      in_block addr iobase iosize \<or> in_block addr (iobase + 0x1000) iosize \<or>
      in_block addr (iobase + 0x2000) iosize \<or> in_block addr (iobase + 0x3000) iosize \<or>
      in_block (addr AND NOT 0x3000) (pads_bank0_active_base rp) (pads_bank0_active_size rp) \<or>
      in_block addr 0xD0000000 0x100)"

definition is_clocks_addr :: "bool \<Rightarrow> u32 \<Rightarrow> bool" where
  "is_clocks_addr rp addr =
     (let base = addr AND NOT 0x3FFF in
      clocks_block_2040 base \<noteq> None \<or> (rp \<and> clocks_block_2350 base \<noteq> None))"

definition is_adc_addr :: "bool \<Rightarrow> u32 \<Rightarrow> bool" where
  "is_adc_addr rp addr \<longleftrightarrow>
     addr AND NOT 0x3FFF = 0x4004C000 \<or> (rp \<and> addr AND NOT 0x3FFF = 0x400A0000)"

definition dma_match :: "u32 \<Rightarrow> bool" where
  "dma_match addr = in_block (addr AND NOT 0x3000) 0x50000000 0x4C0"

definition pio_match :: "u32 \<Rightarrow> nat option" where
  "pio_match addr =
     (let base = addr AND NOT 0x3000 in
      if in_block base 0x50200000 0x1000 then Some 0
      else if in_block base 0x50300000 0x1000 then Some 1
      else if in_block base 0x50400000 0x1000 then Some 2
      else None)"

definition usb_match :: "u32 \<Rightarrow> bool" where
  "usb_match addr =
     (let base = addr AND NOT 0x3000 in in_block base 0x50100000 0x1000 \<or> in_block base 0x50110000 0x1000)"

definition rp2350_timer_addr :: "u32 \<Rightarrow> ('d, 'e, 'x) emu \<Rightarrow> bool" where
  "rp2350_timer_addr addr m \<longleftrightarrow> rp2350 m \<and> b_has_rp2350_periph (m_bus m) \<and>
     addr AND NOT 0x3FFF \<in> {0x400B0000, 0x400B8000} \<and> addr AND 0xFFF < 0x100"

section \<open>The devices on the bus\<close>

text \<open>The atomic aliases: a write at \<^verbatim>\<open>+0x2000\<close> sets, at \<^verbatim>\<open>+0x3000\<close> clears and at \<^verbatim>\<open>+0x1000\<close> toggles the
  bits of the value, on what a read of the register returns.\<close>

definition alias_value :: "u32 \<Rightarrow> u32 \<Rightarrow> u32 \<Rightarrow> u32" where
  "alias_value al cur val =
     (if al = 0x2000 then cur OR val else if al = 0x3000 then cur AND NOT val else cur XOR val)"

definition alias_write :: "u32 \<Rightarrow> ('m \<Rightarrow> u32 \<times> 'm) \<Rightarrow> (u32 \<Rightarrow> 'm \<Rightarrow> 'm) \<Rightarrow> u32 \<Rightarrow> 'm \<Rightarrow> 'm" where
  "alias_write al rd wr val m =
     (if al = 0 then wr val m else (let (cur, m1) = rd m in wr (alias_value al cur val) m1))"

definition bus_uart_read :: "nat \<Rightarrow> u32 \<Rightarrow> ('d, 'e, 'x) emu \<Rightarrow> u32 \<times> ('d, 'e, 'x) emu" where
  "bus_uart_read n off m =
     (let (v, u) = uart_read32 off (b_uart (m_bus m) n)
      in (v, upd_bus (\<lambda>b. b\<lparr>b_uart := (b_uart b)(n := u)\<rparr>) m))"

definition bus_uart_write :: "nat \<Rightarrow> u32 \<Rightarrow> u32 \<Rightarrow> ('d, 'e, 'x) emu \<Rightarrow> ('d, 'e, 'x) emu" where
  "bus_uart_write n off val m =
     (let (u, nv) = uart_write32 n off val (b_uart (m_bus m) n) (m_nv m)
      in upd_bus (\<lambda>b. b\<lparr>b_uart := (b_uart b)(n := u)\<rparr>) (m\<lparr>m_nv := nv\<rparr>))"

definition bus_spi_read :: "nat \<Rightarrow> u32 \<Rightarrow> ('d, 'e, 'x) emu \<Rightarrow> u32 \<times> ('d, 'e, 'x) emu" where
  "bus_spi_read n off m =
     (let (v, s, nv) = spi_read32 n off (b_spi (m_bus m) n) (m_nv m)
      in (v, upd_bus (\<lambda>b. b\<lparr>b_spi := (b_spi b)(n := s)\<rparr>) (m\<lparr>m_nv := nv\<rparr>)))"

definition bus_spi_write :: "nat \<Rightarrow> u32 \<Rightarrow> u32 \<Rightarrow> ('d, 'e, 'x) emu \<Rightarrow> ('d, 'e, 'x) emu" where
  "bus_spi_write n off val m =
     (let (s, nv) = spi_write32 n off val (b_spi (m_bus m) n) (m_nv m)
      in upd_bus (\<lambda>b. b\<lparr>b_spi := (b_spi b)(n := s)\<rparr>) (m\<lparr>m_nv := nv\<rparr>))"

definition bus_i2c_read :: "nat \<Rightarrow> u32 \<Rightarrow> ('d, 'e, 'x) emu \<Rightarrow> u32 \<times> ('d, 'e, 'x) emu" where
  "bus_i2c_read n off m =
     (let (v, c, nv) = i2c_read32 n off (b_i2c (m_bus m) n, m_nv m)
      in (v, upd_bus (\<lambda>b. b\<lparr>b_i2c := (b_i2c b)(n := c)\<rparr>) (m\<lparr>m_nv := nv\<rparr>)))"

definition bus_i2c_write :: "nat \<Rightarrow> u32 \<Rightarrow> u32 \<Rightarrow> ('d, 'e, 'x) emu \<Rightarrow> ('d, 'e, 'x) emu" where
  "bus_i2c_write n off val m =
     (let (c, nv) = i2c_write32 n off val (b_i2c (m_bus m) n, m_nv m)
      in upd_bus (\<lambda>b. b\<lparr>b_i2c := (b_i2c b)(n := c)\<rparr>) (m\<lparr>m_nv := nv\<rparr>))"

definition bus_pwm_read :: "u32 \<Rightarrow> ('d, 'e, 'x) emu \<Rightarrow> u32 \<times> ('d, 'e, 'x) emu" where
  "bus_pwm_read off m = (pwm_read32 (rp2350 m) off (b_pwm (m_bus m)), m)"

definition bus_pwm_write :: "u32 \<Rightarrow> u32 \<Rightarrow> ('d, 'e, 'x) emu \<Rightarrow> ('d, 'e, 'x) emu" where
  "bus_pwm_write off val m =
     (let (s, nv) = pwm_write32 (rp2350 m) off val (b_pwm (m_bus m), m_nv m)
      in upd_bus (\<lambda>b. b\<lparr>b_pwm := s\<rparr>) (m\<lparr>m_nv := nv\<rparr>))"

definition bus_adc_read :: "u32 \<Rightarrow> ('d, 'e, 'x) emu \<Rightarrow> u32 \<times> ('d, 'e, 'x) emu" where
  "bus_adc_read addr m =
     (let (v, a) = adc_read32 addr (b_adc (m_bus m)) in (v, upd_bus (\<lambda>b. b\<lparr>b_adc := a\<rparr>) m))"

definition bus_adc_write :: "u32 \<Rightarrow> u32 \<Rightarrow> ('d, 'e, 'x) emu \<Rightarrow> ('d, 'e, 'x) emu" where
  "bus_adc_write addr val m =
     (let (a, nv) = adc_write32 addr val (b_adc (m_bus m), m_nv m)
      in upd_bus (\<lambda>b. b\<lparr>b_adc := a\<rparr>) (m\<lparr>m_nv := nv\<rparr>))"

text \<open>After a write to its SIO registers the GPIO block shows the effective pins to the network
  boards, which watch their chip-select and reset pins.\<close>

definition bus_gpio_read :: "u32 \<Rightarrow> ('d, 'e, 'x) emu \<Rightarrow> u32 \<times> ('d, 'e, 'x) emu" where
  "bus_gpio_read addr m = (gpio_read32 (rp2350 m) addr (b_gpio (m_bus m)), m)"

definition bus_gpio_write :: "('d, 'e, 'x) emu devices \<Rightarrow> u32 \<Rightarrow> u32 \<Rightarrow> ('d, 'e, 'x) emu \<Rightarrow> ('d, 'e, 'x) emu" where
  "bus_gpio_write dv addr val m =
     (let (g, nv) = gpio_write32 (rp2350 m) addr val (b_gpio (m_bus m), m_nv m);
          m1 = upd_bus (\<lambda>b. b\<lparr>b_gpio := g\<rparr>) (m\<lparr>m_nv := nv\<rparr>)
      in if in_block addr 0xD0000000 0x100 then board_gpio_write dv (gpio_effective_pins g) m1 else m1)"

definition bus_clocks_read :: "u32 \<Rightarrow> ('d, 'e, 'x) emu \<Rightarrow> u32 \<times> ('d, 'e, 'x) emu" where
  "bus_clocks_read addr m =
     (let (v, k) = clocks_read32 (rp2350 m) addr (b_clocks (m_bus m)) in (v, upd_bus (\<lambda>b. b\<lparr>b_clocks := k\<rparr>) m))"

text \<open>What a write to the clock blocks asks of the rest of the machine is done with it.\<close>

definition clk_apply :: "clocks_state \<times> clk_action \<Rightarrow> ('d, 'e, 'x) emu \<Rightarrow> ('d, 'e, 'x) emu" where
  "clk_apply ka m =
     (let (k, act) = ka; m1 = upd_bus (\<lambda>b. b\<lparr>b_clocks := k\<rparr>) m
      in case act of
           No_Action \<Rightarrow> m1
         | Reboot_Pending \<Rightarrow> upd_nv (\<lambda>c. c\<lparr>watchdog_reboot_pending := True\<rparr>) m1
         | Core1_Reset r \<Rightarrow> sio_set_core1_reset r m1)"

definition bus_clocks_write :: "u32 \<Rightarrow> u32 \<Rightarrow> ('d, 'e, 'x) emu \<Rightarrow> ('d, 'e, 'x) emu" where
  "bus_clocks_write addr val m = clk_apply (clocks_write32 (rp2350 m) addr val (b_clocks (m_bus m))) m"

definition bus_timer_read :: "u32 \<Rightarrow> ('d, 'e, 'x) emu \<Rightarrow> u32 \<times> ('d, 'e, 'x) emu" where
  "bus_timer_read addr m = (let (v, t) = timer_read32 addr (m_timer m) in (v, m\<lparr>m_timer := t\<rparr>))"

definition bus_timer_write :: "u32 \<Rightarrow> u32 \<Rightarrow> ('d, 'e, 'x) emu \<Rightarrow> ('d, 'e, 'x) emu" where
  "bus_timer_write addr val m =
     (let (t, nv) = timer_write32 addr val (m_timer m, m_nv m) in m\<lparr>m_timer := t, m_nv := nv\<rparr>)"

definition bus_periph_read :: "u32 \<Rightarrow> ('d, 'e, 'x) emu \<Rightarrow> u32 \<times> ('d, 'e, 'x) emu" where
  "bus_periph_read addr m =
     (let (v, p, t) = rp2350_periph_read32 addr (b_periph (m_bus m), m_timer m)
      in (v, upd_bus (\<lambda>b. b\<lparr>b_periph := p\<rparr>) (m\<lparr>m_timer := t\<rparr>)))"

definition bus_periph_write :: "u32 \<Rightarrow> u32 \<Rightarrow> ('d, 'e, 'x) emu \<Rightarrow> ('d, 'e, 'x) emu" where
  "bus_periph_write addr val m =
     (let (p, t, nv) = rp2350_periph_write32 addr val (b_periph (m_bus m), m_timer m, m_nv m)
      in upd_bus (\<lambda>b. b\<lparr>b_periph := p\<rparr>) (m\<lparr>m_timer := t, m_nv := nv\<rparr>))"

definition bus_timer1_tick :: "u32 \<Rightarrow> ('d, 'e, 'x) emu \<Rightarrow> ('d, 'e, 'x) emu" where
  "bus_timer1_tick us m =
     (let (t, nv) = rp2350_timer1_tick us (rp_timer1 (b_periph (m_bus m)), m_nv m)
      in upd_bus (\<lambda>b. b\<lparr>b_periph := (b_periph b)\<lparr>rp_timer1 := t\<rparr>\<rparr>) (m\<lparr>m_nv := nv\<rparr>))"

definition bus_nvic_read :: "u32 \<Rightarrow> ('d, 'e, 'x) emu \<Rightarrow> u32 \<times> ('d, 'e, 'x) emu" where
  "bus_nvic_read addr m =
     (let (v, nv) = nvic_read_register (cpu_vtor (m_cpu m)) addr (m_nv m) in (v, m\<lparr>m_nv := nv\<rparr>))"

definition bus_nvic_write :: "u32 \<Rightarrow> u32 \<Rightarrow> ('d, 'e, 'x) emu \<Rightarrow> ('d, 'e, 'x) emu" where
  "bus_nvic_write addr val m =
     (let (vtor, nv) = nvic_write_register (cpu_vtor (m_cpu m)) addr val (m_nv m)
      in upd_cpu (\<lambda>c. c\<lparr>cpu_vtor := vtor\<rparr>) (m\<lparr>m_nv := nv\<rparr>))"

definition bus_rtc_write :: "u32 \<Rightarrow> u32 \<Rightarrow> ('d, 'e, 'x) emu \<Rightarrow> ('d, 'e, 'x) emu" where
  "bus_rtc_write off val m = m\<lparr>m_rtc := rtc_write32 off val (m_rtc m)\<rparr>"

definition bus_ssi_read :: "u32 \<Rightarrow> ('d, 'e, 'x) emu \<Rightarrow> u32 \<times> ('d, 'e, 'x) emu" where
  "bus_ssi_read off m =
     (let (v, s) = xip_ssi_read off (b_xip_ssi (m_bus m)) in (v, upd_bus (\<lambda>b. b\<lparr>b_xip_ssi := s\<rparr>) m))"

definition bus_ssi_write :: "u32 \<Rightarrow> u32 \<Rightarrow> ('d, 'e, 'x) emu \<Rightarrow> ('d, 'e, 'x) emu" where
  "bus_ssi_write off val m = upd_bus (\<lambda>b. b\<lparr>b_xip_ssi := xip_ssi_write off val (b_xip_ssi b)\<rparr>) m"

definition bus_dma_read :: "u32 \<Rightarrow> ('d, 'e, 'x) emu \<Rightarrow> u32 \<times> ('d, 'e, 'x) emu" where
  "bus_dma_read off m = (dma_read32 off (b_dma (m_bus m)), m)"

definition bus_trng_read :: "u32 \<Rightarrow> ('d, 'e, 'x) emu \<Rightarrow> u32 \<times> ('d, 'e, 'x) emu" where
  "bus_trng_read off m =
     (let (v, t, nv) = trng_read off (b_trng (m_bus m), m_nv m)
      in (v, upd_bus (\<lambda>b. b\<lparr>b_trng := t\<rparr>) (m\<lparr>m_nv := nv\<rparr>)))"

definition bus_trng_write :: "u32 \<Rightarrow> u32 \<Rightarrow> ('d, 'e, 'x) emu \<Rightarrow> ('d, 'e, 'x) emu" where
  "bus_trng_write off val m =
     (let (t, nv) = trng_write off val (b_trng (m_bus m), m_nv m)
      in upd_bus (\<lambda>b. b\<lparr>b_trng := t\<rparr>) (m\<lparr>m_nv := nv\<rparr>))"

definition bus_hstx_write :: "u32 \<Rightarrow> u32 \<Rightarrow> ('d, 'e, 'x) emu \<Rightarrow> ('d, 'e, 'x) emu" where
  "bus_hstx_write addr val m =
     (if in_block (addr AND NOT 0x3000) 0x50600000 0x08
      then upd_bus (\<lambda>b. b\<lparr>b_hstx := hstx_fifo_write (addr AND 0xFFF) val (b_hstx b)\<rparr>) m
      else upd_bus (\<lambda>b. b\<lparr>b_hstx := hstx_write (addr AND 0xFFF) val (b_hstx b)\<rparr>) m)"

definition bus_hstx_read :: "u32 \<Rightarrow> ('d, 'e, 'x) emu \<Rightarrow> u32" where
  "bus_hstx_read addr m =
     (if in_block (addr AND NOT 0x3000) 0x50600000 0x08 then hstx_fifo_read (addr AND 0xFFF) (b_hstx (m_bus m))
      else hstx_read (addr AND 0xFFF) (b_hstx (m_bus m)))"

end
