(* ===== verification/Membus.thy ===== *)
theory Membus
  imports Bus_Devices
begin

unbundle bit_operations_syntax

text \<open>
  The memory bus of \<^verbatim>\<open>src/membus.c\<close>: word, halfword and byte accesses of the cores, routed to the
  memories and the peripherals in the order the source tries them. A long dispatch is split into
  definitions that call the next one where nothing matched. The hooks of the debugger, the
  watchpoints, the access statistics and the log of unmapped accesses are left out.
\<close>

section \<open>The single-cycle IO block\<close>

definition sio_current_core :: "('d, 'e, 'x) emu \<Rightarrow> nat" where
  "sio_current_core m = (if get_active_core m \<ge> 2 then 0 else get_active_core m)"

definition upd_sio :: "(sio_state \<Rightarrow> sio_state) \<Rightarrow> ('d, 'e, 'x) emu \<Rightarrow> ('d, 'e, 'x) emu" where
  "upd_sio f m = m\<lparr>m_sio := f (m_sio m)\<rparr>"

definition sio_sticky :: "nat \<Rightarrow> (u32 \<Rightarrow> u32) \<Rightarrow> sio_state \<Rightarrow> sio_state" where
  "sio_sticky c f s = s\<lparr>sio_fifo_sticky := (sio_fifo_sticky s)(c := f (sio_fifo_sticky s c))\<rparr>"

definition interp_slot :: "u32 \<Rightarrow> nat \<times> u32" where
  "interp_slot offset = (if offset \<ge> 0xC0 then (1, offset - 0xC0) else (0, offset - 0x80))"

definition bus_fifo_write :: "u32 \<Rightarrow> ('d, 'e, 'x) emu \<Rightarrow> ('d, 'e, 'x) emu" where
  "bus_fifo_write val m =
     (let core_id = sio_current_core m; other_core = (if core_id = 0 then 1 else 0 :: nat);
          (handled, m1) = (if other_core = 1 then sio_core1_bootrom_handle_fifo_write val m else (False, m))
      in if handled then m1
         else let (ok, m2) = push_mailbox other_core val m1
              in if ok then m2 else upd_sio (sio_sticky core_id (\<lambda>s. s OR 4)) m2)"

definition sio_write32 :: "('d, 'e, 'x) emu devices \<Rightarrow> u32 \<Rightarrow> u32 \<Rightarrow> ('d, 'e, 'x) emu \<Rightarrow> ('d, 'e, 'x) emu" where
  "sio_write32 dv offset val m =
     (let core_id = sio_current_core m in
      if (offset \<ge> 0x10 \<and> offset \<le> 0x2C) \<or> (offset \<ge> 0x30 \<and> offset \<le> 0x4C)
      then bus_gpio_write dv (0xD0000000 + offset) val m
      else if offset \<ge> 0x80 \<and> offset \<le> 0xFC then
        (let (i, rg) = interp_slot offset in
         upd_sio (\<lambda>s. s\<lparr>sio_interp := (sio_interp s)(core_id :=
           (sio_interp s core_id)(i := sio_interp_write rg val (sio_interp s core_id i)))\<rparr>) m)
      else if offset = 0x50 then upd_sio (sio_sticky core_id (\<lambda>s. s AND NOT (val AND 0xC))) m
      else if offset = 0x54 then bus_fifo_write val m
      else if offset \<in> {0x60, 0x64, 0x68, 0x6C, 0x70, 0x74} then
        upd_sio (\<lambda>s. s\<lparr>sio_dividers := (sio_dividers s)(core_id := sio_write_divider offset val (sio_dividers s core_id))\<rparr>) m
      else m)"

definition sio_read32 :: "u32 \<Rightarrow> ('d, 'e, 'x) emu \<Rightarrow> u32 \<times> ('d, 'e, 'x) emu" where
  "sio_read32 offset m =
     (let core_id = sio_current_core m in
      if offset \<ge> 0x80 \<and> offset \<le> 0xFC then
        (let (i, rg) = interp_slot offset; (v, ip) = sio_interp_read rg (sio_interp (m_sio m) core_id i) in
         (v, upd_sio (\<lambda>s. s\<lparr>sio_interp := (sio_interp s)(core_id := (sio_interp s core_id)(i := ip))\<rparr>) m))
      else if (offset \<ge> 0x04 \<and> offset \<le> 0x2C) \<or> (offset \<ge> 0x30 \<and> offset \<le> 0x4C) then
        (if offset = 0x08 then (0x3E, m) else bus_gpio_read (0xD0000000 + offset) m)
      else if offset = 0x00 then (of_nat core_id, m)
      else if offset = 0x50 then (let m1 = sio_bootrom_poll m in (sio_fifo_status core_id (m_sio m1), m1))
      else if offset = 0x58 then
        (case fifo_try_pop core_id (m_sio m) of
           (None, s) \<Rightarrow> (0, upd_sio (\<lambda>_. sio_sticky core_id (\<lambda>x. x OR 8) s) m)
         | (Some v, s) \<Rightarrow> (v, upd_sio (\<lambda>_. s) m))
      else if offset = 0x5C then (sio_spinlock_state_bitmap (m_sio m), m)
      else if offset \<in> {0x60, 0x64, 0x68, 0x6C, 0x70, 0x74, 0x78} then
        (let (v, d) = sio_read_divider offset (sio_dividers (m_sio m) core_id) in
         (v, upd_sio (\<lambda>s. s\<lparr>sio_dividers := (sio_dividers s)(core_id := d)\<rparr>) m))
      else (0, m))"

section \<open>Word accesses\<close>

definition ram_changed :: "u32 \<Rightarrow> (nat \<Rightarrow> u8) \<Rightarrow> ('d, 'e, 'x) emu \<Rightarrow> ('d, 'e, 'x) emu" where
  "ram_changed addr mem m = jit_invalidate_addr addr (icache_invalidate_addr addr (upd_bus (set_ram mem) m))"

definition ram_write32 :: "u32 \<Rightarrow> u32 \<Rightarrow> ('d, 'e, 'x) emu \<Rightarrow> ('d, 'e, 'x) emu" where
  "ram_write32 addr val m =
     ram_changed addr (wr32 (get_ram (m_bus m)) (ram_offset addr (m_bus m)) val) m"

definition write32_system :: "('d, 'e, 'x) emu devices \<Rightarrow> u32 \<Rightarrow> u32 \<Rightarrow> ('d, 'e, 'x) emu \<Rightarrow> ('d, 'e, 'x) emu" where
  "write32_system dv addr val m =
     (let al = addr AND 0x3000; off = addr AND 0xFFF in
      if rtc_match addr then
        alias_write al (\<lambda>m. (rtc_read32 off (m_rtc m), m)) (bus_rtc_write off) val m
      else if in_block addr 0x40000000 0x4000 then m
      else if io_qspi_match addr then
        alias_write al (\<lambda>m. (io_qspi_read off (b_qspi (m_bus m)), m))
          (\<lambda>v. upd_bus (\<lambda>b. b\<lparr>b_qspi := io_qspi_write off v (b_qspi b)\<rparr>)) val m
      else if pads_qspi_match (rp2350 m) addr then
        alias_write al (\<lambda>m. (pads_qspi_read off (b_qspi (m_bus m)), m))
          (\<lambda>v. upd_bus (\<lambda>b. b\<lparr>b_qspi := pads_qspi_write off v (b_qspi b)\<rparr>)) val m
      else if busctrl_match addr then
        alias_write al (\<lambda>m. (busctrl_read off (b_busctrl (m_bus m)), m))
          (\<lambda>v. upd_bus (\<lambda>b. b\<lparr>b_busctrl := busctrl_write off v (b_busctrl b)\<rparr>)) val m
      else if vreg_match addr then
        alias_write al (\<lambda>m. (vreg_read off (b_vreg (m_bus m)), m))
          (\<lambda>v. upd_bus (\<lambda>b. b\<lparr>b_vreg := vreg_write off v (b_vreg b)\<rparr>)) val m
      else if syscfg_match addr then
        alias_write al (\<lambda>m. (syscfg_read off (b_syscfg (m_bus m)), m))
          (\<lambda>v. upd_bus (\<lambda>b. b\<lparr>b_syscfg := syscfg_write off v (b_syscfg b)\<rparr>)) val m
      else if tbman_match addr then m
      else if sha256_match addr then upd_bus (\<lambda>b. b\<lparr>b_sha256 := sha256_write off val (b_sha256 b)\<rparr>) m
      else if hstx_match addr then bus_hstx_write addr val m
      else if trng_match addr then bus_trng_write off val m
      else if ticks_match addr then upd_bus (\<lambda>b. b\<lparr>b_ticks := ticks_write off val (b_ticks b)\<rparr>) m
      else if rp2350 m \<and> b_has_rp2350_periph (m_bus m) \<and> rp2350_periph_match addr
      then bus_periph_write addr val m
      else m)"

definition write32_ports :: "('d, 'e, 'x) emu devices \<Rightarrow> u32 \<Rightarrow> u32 \<Rightarrow> ('d, 'e, 'x) emu \<Rightarrow> ('d, 'e, 'x) emu" where
  "write32_ports dv addr val m =
     (let al = addr AND 0x3000; off = addr AND 0xFFF in
      case spi_match (rp2350 m) addr of
        Some n \<Rightarrow> alias_write al (bus_spi_read n off) (bus_spi_write n off) val m
      | None \<Rightarrow>
        (case i2c_match addr of
           Some n \<Rightarrow> alias_write al (bus_i2c_read n off) (bus_i2c_write n off) val m
         | None \<Rightarrow>
           if pwm_match (rp2350 m) addr then alias_write al (bus_pwm_read off) (bus_pwm_write off) val m
           else if dma_match addr then alias_write al (bus_dma_read off) (dv_dma_write32 dv off) val m
           else (case pio_match addr of
                   Some n \<Rightarrow> alias_write al (pio_read32 dv n off) (pio_write32 dv n off) val m
                 | None \<Rightarrow> if usb_match addr then usb_write32 dv addr val m
                           else write32_system dv addr val m)))"

definition write32_core :: "('d, 'e, 'x) emu devices \<Rightarrow> u32 \<Rightarrow> u32 \<Rightarrow> ('d, 'e, 'x) emu \<Rightarrow> ('d, 'e, 'x) emu" where
  "write32_core dv addr val m =
     (case uart_match (rp2350 m) addr of
        Some n \<Rightarrow> alias_write (addr AND 0x3000) (bus_uart_read n (addr AND 0xFFF)) (bus_uart_write n (addr AND 0xFFF)) val m
      | None \<Rightarrow>
        if in_block addr 0xE000E000 0x1000 then bus_nvic_write addr val m
        else if rp2350_timer_addr addr m then bus_periph_write addr val m
        else if in_block addr 0x40054000 0x4000 then
          (let al = (addr - 0x40054000) AND 0x3000; reg_addr = 0x40054000 + ((addr - 0x40054000) AND 0xFFF) in
           if reg_addr = 0x40054034 then bus_timer_write reg_addr val m
           else alias_write al (bus_timer_read reg_addr) (bus_timer_write reg_addr) val m)
        else if in_block addr 0xD0000000 0x100 then sio_write32 dv (addr - 0xD0000000) val m
        else if gpio_bus_match (rp2350 m) addr then bus_gpio_write dv addr val m
        else if in_block addr 0xD0000100 0x80 then upd_sio (spinlock_release ((addr - 0xD0000100) div 4)) m
        else if is_clocks_addr (rp2350 m) addr then bus_clocks_write addr val m
        else if is_adc_addr (rp2350 m) addr then bus_adc_write addr val m
        else write32_ports dv addr val m)"

definition write32_routed :: "('d, 'e, 'x) emu devices \<Rightarrow> u32 \<Rightarrow> u32 \<Rightarrow> ('d, 'e, 'x) emu \<Rightarrow> ('d, 'e, 'x) emu" where
  "write32_routed dv addr val m =
     (if in_active_ram addr (m_bus m) then ram_write32 addr val m
      else if in_block addr 0x10000000 0x200000 then m
      else if in_flash_alias addr then m
      else if in_block addr 0x14000000 0x20 then
        upd_bus (\<lambda>b. b\<lparr>b_xip_ctrl := xip_ctrl_write (addr - 0x14000000) val (b_xip_ctrl b)\<rparr>) m
      else if in_block addr 0x15000000 0x4000 then
        upd_bus (\<lambda>b. b\<lparr>b_xip_sram := wr32 (b_xip_sram b) (unat (addr - 0x15000000)) val\<rparr>) m
      else if in_block addr 0x18000000 0x4000 then
        (let al = (addr - 0x18000000) AND 0x3000; off = (addr - 0x18000000) AND 0xFFF in
         if off = 0x60 then bus_ssi_write off val m
         else alias_write al (bus_ssi_read off) (bus_ssi_write off) val m)
      else write32_core dv addr val m)"

definition mem_write32 :: "('d, 'e, 'x) emu devices \<Rightarrow> u32 \<Rightarrow> u32 \<Rightarrow> ('d, 'e, 'x) emu \<Rightarrow> ('d, 'e, 'x) emu" where
  "mem_write32 dv addr val m =
     write32_routed dv (sram_alias_translate addr) val
       (arm_excl_observe_store (int (get_active_core m)) addr m)"

definition read32_system :: "('d, 'e, 'x) emu devices \<Rightarrow> u32 \<Rightarrow> ('d, 'e, 'x) emu \<Rightarrow> u32 \<times> ('d, 'e, 'x) emu" where
  "read32_system dv addr m =
     (let off = addr AND 0xFFF; b = m_bus m in
      if rtc_match addr then (rtc_read32 off (m_rtc m), m)
      else if in_block addr 0x40000000 0x4000 then (sysinfo_read (rp2350 m) off, m)
      else if io_qspi_match addr then (io_qspi_read off (b_qspi b), m)
      else if pads_qspi_match (rp2350 m) addr then (pads_qspi_read off (b_qspi b), m)
      else if busctrl_match addr then (busctrl_read off (b_busctrl b), m)
      else if vreg_match addr then (vreg_read off (b_vreg b), m)
      else if syscfg_match addr then (syscfg_read off (b_syscfg b), m)
      else if tbman_match addr then (tbman_read off, m)
      else if rp2350 m \<and> b_has_rp2350_periph b \<and> rp2350_periph_match addr then bus_periph_read addr m
      else if trng_match addr then bus_trng_read off m
      else if sha256_match addr then (sha256_read off (b_sha256 b), m)
      else if otp_match addr then (otp_read off, m)
      else if hstx_match addr then (bus_hstx_read addr m, m)
      else if ticks_match addr then (ticks_read off (b_ticks b), m)
      else (0, m))"

definition read32_ports :: "('d, 'e, 'x) emu devices \<Rightarrow> u32 \<Rightarrow> ('d, 'e, 'x) emu \<Rightarrow> u32 \<times> ('d, 'e, 'x) emu" where
  "read32_ports dv addr m =
     (let off = addr AND 0xFFF in
      case spi_match (rp2350 m) addr of
        Some n \<Rightarrow> bus_spi_read n off m
      | None \<Rightarrow>
        (case i2c_match addr of
           Some n \<Rightarrow> bus_i2c_read n off m
         | None \<Rightarrow>
           if pwm_match (rp2350 m) addr then bus_pwm_read off m
           else if dma_match addr then bus_dma_read off m
           else (case pio_match addr of
                   Some n \<Rightarrow> pio_read32 dv n off m
                 | None \<Rightarrow> if usb_match addr then usb_read32 dv addr m else read32_system dv addr m)))"

definition read32_core :: "('d, 'e, 'x) emu devices \<Rightarrow> u32 \<Rightarrow> ('d, 'e, 'x) emu \<Rightarrow> u32 \<times> ('d, 'e, 'x) emu" where
  "read32_core dv addr m =
     (case uart_match (rp2350 m) addr of
        Some n \<Rightarrow> bus_uart_read n (addr AND 0xFFF) m
      | None \<Rightarrow>
        if in_block addr 0xE000E000 0x1000 then bus_nvic_read addr m
        else if rp2350_timer_addr addr m then bus_periph_read addr m
        else if in_block addr 0x40054000 0x4000 then
          bus_timer_read (0x40054000 + ((addr - 0x40054000) AND 0xFFF)) m
        else if in_block addr 0xD0000000 0x100 then sio_read32 (addr - 0xD0000000) m
        else if gpio_bus_match (rp2350 m) addr then bus_gpio_read addr m
        else if in_block addr 0xD0000100 0x80 then
          (let (v, s) = spinlock_acquire ((addr - 0xD0000100) div 4) (m_sio m) in (v, upd_sio (\<lambda>_. s) m))
        else if is_clocks_addr (rp2350 m) addr then bus_clocks_read addr m
        else if is_adc_addr (rp2350 m) addr then bus_adc_read addr m
        else read32_ports dv addr m)"

definition flash_read32 :: "u32 \<Rightarrow> ('d, 'e, 'x) emu \<Rightarrow> u32" where
  "flash_read32 offset m = rd32 (b_flash (m_bus m)) (unat offset)"

definition mem_read32 :: "('d, 'e, 'x) emu devices \<Rightarrow> u32 \<Rightarrow> ('d, 'e, 'x) emu \<Rightarrow> u32 \<times> ('d, 'e, 'x) emu" where
  "mem_read32 dv addr0 m =
     (let addr = sram_alias_translate addr0; b = m_bus m in
      if in_active_ram addr b then (rd32 (get_ram b) (ram_offset addr b), m)
      else if addr < 0x4000 then (rom_read32 addr (b_rom b), m)
      else if in_rom_alias addr m then (rom_read32 (addr - 0x08000000) (b_rom b), m)
      else if in_block addr 0x10000000 0x200000 then (flash_read32 (addr - 0x10000000) m, m)
      else if in_block addr 0x11000000 0x200000 then (flash_read32 (addr - 0x11000000) m, m)
      else if in_block addr 0x12000000 0x200000 then (flash_read32 (addr - 0x12000000) m, m)
      else if in_block addr 0x13000000 0x200000 then (flash_read32 (addr - 0x13000000) m, m)
      else if in_block addr 0x14000000 0x20 then (xip_ctrl_read (addr - 0x14000000) (b_xip_ctrl b), m)
      else if in_block addr 0x15000000 0x4000 then (rd32 (b_xip_sram b) (unat (addr - 0x15000000)), m)
      else if in_block addr 0x18000000 0x4000 then bus_ssi_read ((addr - 0x18000000) AND 0xFFF) m
      else read32_core dv addr m)"

section \<open>Halfword and byte accesses\<close>

text \<open>Replacing some bits of a word, and a register modified through such a replacement.\<close>

definition put_bits :: "u32 \<Rightarrow> nat \<Rightarrow> u32 \<Rightarrow> u32 \<Rightarrow> u32" where
  "put_bits w sh val cur = (cur AND NOT (shl w sh)) OR shl val sh"

definition modify_reg :: "('m \<Rightarrow> u32 \<times> 'm) \<Rightarrow> (u32 \<Rightarrow> 'm \<Rightarrow> 'm) \<Rightarrow> (u32 \<Rightarrow> u32) \<Rightarrow> 'm \<Rightarrow> 'm" where
  "modify_reg rd wr f m = (let (cur, m1) = rd m in wr (f cur) m1)"

abbreviation lane :: "u32 \<Rightarrow> u32 \<Rightarrow> nat" where
  "lane k addr \<equiv> unat (addr AND k) * 8"

definition write16_ports :: "('d, 'e, 'x) emu devices \<Rightarrow> u32 \<Rightarrow> u16 \<Rightarrow> ('d, 'e, 'x) emu \<Rightarrow> ('d, 'e, 'x) emu" where
  "write16_ports dv addr val m =
     (let off = addr AND 0xFFF; put2 = put_bits 0xFFFF (lane 2 addr) (ucast val);
          a32 = (addr AND NOT 3) AND 0xFFF; put8 = put_bits 0xFF (lane 3 addr) (ucast val) in
      case uart_match (rp2350 m) addr of
        Some n \<Rightarrow> if off < 4 then bus_uart_write n 0 (ucast val AND 0xFF) m
                  else modify_reg (bus_uart_read n off) (bus_uart_write n off) put2 m
      | None \<Rightarrow>
        (case spi_match (rp2350 m) addr of
           Some n \<Rightarrow> if off = 0x008 then
                       bus_spi_write n off (if addr AND 2 \<noteq> 0 then shr (ucast val AND 0xFFFF0000) 16
                                            else ucast val AND 0xFFFF) m
                     else modify_reg (bus_spi_read n off) (bus_spi_write n off) put2 m
         | None \<Rightarrow>
           if dma_match addr then modify_reg (bus_dma_read a32) (dv_dma_write32 dv a32) put8 m
           else (case pio_match addr of
                   Some n \<Rightarrow> modify_reg (pio_read32 dv n a32) (pio_write32 dv n a32) put8 m
                 | None \<Rightarrow> m)))"

definition write16_routed :: "('d, 'e, 'x) emu devices \<Rightarrow> u32 \<Rightarrow> u16 \<Rightarrow> ('d, 'e, 'x) emu \<Rightarrow> ('d, 'e, 'x) emu" where
  "write16_routed dv addr val m =
     (let a32 = addr AND NOT 3; b = m_bus m in
      if in_block addr 0x10000000 0x200000 then m
      else if in_block addr 0x15000000 0x4000 then
        upd_bus (\<lambda>b. b\<lparr>b_xip_sram := wr16 (b_xip_sram b) (unat (addr - 0x15000000)) val\<rparr>) m
      else if in_active_ram addr b then ram_changed addr (wr16 (get_ram b) (ram_offset addr b) val) m
      else if in_block addr 0xE000E000 0x1000 then
        modify_reg (bus_nvic_read a32) (bus_nvic_write a32) (put_bits 0xFFFF (lane 3 addr) (ucast val)) m
      else if usb_match addr then
        modify_reg (usb_read32 dv a32) (usb_write32 dv a32) (put_bits 0xFFFF (lane 2 addr) (ucast val)) m
      else if gpio_bus_match (rp2350 m) addr then
        modify_reg (bus_gpio_read a32) (bus_gpio_write dv a32) (put_bits 0xFFFF (lane 2 addr) (ucast val)) m
      else write16_ports dv addr val m)"

definition mem_write16 :: "('d, 'e, 'x) emu devices \<Rightarrow> u32 \<Rightarrow> u16 \<Rightarrow> ('d, 'e, 'x) emu \<Rightarrow> ('d, 'e, 'x) emu" where
  "mem_write16 dv addr val m =
     write16_routed dv (sram_alias_translate addr) val
       (arm_excl_observe_store (int (get_active_core m)) addr m)"

definition write8_ports :: "('d, 'e, 'x) emu devices \<Rightarrow> u32 \<Rightarrow> u8 \<Rightarrow> ('d, 'e, 'x) emu \<Rightarrow> ('d, 'e, 'x) emu" where
  "write8_ports dv addr val m =
     (let off = addr AND 0xFFF; a32 = off AND NOT 3; put8 = put_bits 0xFF (lane 3 addr) (ucast val) in
      case uart_match (rp2350 m) addr of
        Some n \<Rightarrow> if off < 4 then bus_uart_write n 0 (ucast val AND 0xFF) m
                  else modify_reg (bus_uart_read n a32) (bus_uart_write n a32) put8 m
      | None \<Rightarrow>
        (case pio_match addr of
           Some n \<Rightarrow> modify_reg (pio_read32 dv n a32) (pio_write32 dv n a32) put8 m
         | None \<Rightarrow>
           (case spi_match (rp2350 m) addr of
              Some n \<Rightarrow> if off = 0x008 then bus_spi_write n off (ucast val AND 0xFF) m
                        else modify_reg (bus_spi_read n a32) (bus_spi_write n a32) put8 m
            | None \<Rightarrow> m)))"

definition write8_routed :: "('d, 'e, 'x) emu devices \<Rightarrow> u32 \<Rightarrow> u8 \<Rightarrow> ('d, 'e, 'x) emu \<Rightarrow> ('d, 'e, 'x) emu" where
  "write8_routed dv addr val m =
     (let a32 = addr AND NOT 3; b = m_bus m; put8 = put_bits 0xFF (lane 3 addr) (ucast val) in
      if in_block addr 0x10000000 0x200000 then m
      else if in_block addr 0x15000000 0x4000 then
        upd_bus (\<lambda>b. b\<lparr>b_xip_sram := (b_xip_sram b)(unat (addr - 0x15000000) := val)\<rparr>) m
      else if in_active_ram addr b then ram_changed addr ((get_ram b)(ram_offset addr b := val)) m
      else if usb_match addr then modify_reg (usb_read32 dv a32) (usb_write32 dv a32) put8 m
      else if in_block addr 0xE000E000 0x1000 then modify_reg (bus_nvic_read a32) (bus_nvic_write a32) put8 m
      else if gpio_bus_match (rp2350 m) addr then modify_reg (bus_gpio_read a32) (bus_gpio_write dv a32) put8 m
      else write8_ports dv addr val m)"

definition mem_write8 :: "('d, 'e, 'x) emu devices \<Rightarrow> u32 \<Rightarrow> u8 \<Rightarrow> ('d, 'e, 'x) emu \<Rightarrow> ('d, 'e, 'x) emu" where
  "mem_write8 dv addr val m =
     write8_routed dv (sram_alias_translate addr) val
       (arm_excl_observe_store (int (get_active_core m)) addr m)"

text \<open>The registers that answer narrow reads, as the word the narrow value is cut from; \<open>None\<close> where
  nothing answers.\<close>

definition read_lanes :: "('d, 'e, 'x) emu devices \<Rightarrow> u32 \<Rightarrow> ('d, 'e, 'x) emu \<Rightarrow> (u32 \<times> ('d, 'e, 'x) emu) option" where
  "read_lanes dv addr m =
     (let a32 = addr AND NOT 3 in
      if in_block addr 0xE000E000 0x1000 then Some (bus_nvic_read a32 m)
      else if gpio_bus_match (rp2350 m) addr then Some (bus_gpio_read a32 m)
      else if usb_match addr then Some (usb_read32 dv a32 m)
      else (case uart_match (rp2350 m) addr of
              Some n \<Rightarrow> Some (bus_uart_read n (addr AND 0xFFF) m)
            | None \<Rightarrow> if dma_match addr then Some (bus_dma_read (a32 AND 0xFFF) m)
                      else (case pio_match addr of
                              Some n \<Rightarrow> Some (pio_read32 dv n (a32 AND 0xFFF) m)
                            | None \<Rightarrow> None)))"

definition mem_read16 :: "('d, 'e, 'x) emu devices \<Rightarrow> u32 \<Rightarrow> ('d, 'e, 'x) emu \<Rightarrow> u16 \<times> ('d, 'e, 'x) emu" where
  "mem_read16 dv addr0 m =
     (let addr = sram_alias_translate addr0; b = m_bus m in
      if addr < 0x4000 then (rom_read16 addr (b_rom b), m)
      else if in_rom_alias addr m then (rom_read16 (addr - 0x08000000) (b_rom b), m)
      else if in_block addr 0x10000000 0x200000 then (rd16 (b_flash b) (unat (addr - 0x10000000)), m)
      else if in_block addr 0x15000000 0x4000 then (rd16 (b_xip_sram b) (unat (addr - 0x15000000)), m)
      else if in_active_ram addr b then (rd16 (get_ram b) (ram_offset addr b), m)
      else case read_lanes dv addr m of
             Some (v, m1) \<Rightarrow> (ucast (shr v (lane 3 addr) AND 0xFFFF), m1)
           | None \<Rightarrow> (0, m))"

definition mem_read8 :: "('d, 'e, 'x) emu devices \<Rightarrow> u32 \<Rightarrow> ('d, 'e, 'x) emu \<Rightarrow> u8 \<times> ('d, 'e, 'x) emu" where
  "mem_read8 dv addr0 m =
     (let addr = sram_alias_translate addr0; b = m_bus m in
      if addr < 0x4000 then (rom_read8 addr (b_rom b), m)
      else if in_rom_alias addr m then (rom_read8 (addr - 0x08000000) (b_rom b), m)
      else if in_block addr 0x10000000 0x200000 then (b_flash b (unat (addr - 0x10000000)), m)
      else if in_block addr 0x15000000 0x4000 then (b_xip_sram b (unat (addr - 0x15000000)), m)
      else if in_active_ram addr b then (get_ram b (ram_offset addr b), m)
      else case read_lanes dv addr m of
             Some (v, m1) \<Rightarrow> (ucast (shr v (lane 3 addr) AND 0xFF), m1)
           | None \<Rightarrow> (0xFF, m))"

section \<open>Accesses on behalf of a core\<close>

definition mem_write32_dual :: "('d, 'e, 'x) emu devices \<Rightarrow> int \<Rightarrow> u32 \<Rightarrow> u32 \<Rightarrow> ('d, 'e, 'x) emu \<Rightarrow> ('d, 'e, 'x) emu" where
  "mem_write32_dual dv core_id addr0 val m =
     (let addr = sram_alias_translate addr0 in
      if in_block addr 0x10000000 0x200000 then m
      else if in_active_ram addr (m_bus m) then ram_write32 addr val m
      else mem_write32 dv addr val m)"

definition mem_read32_dual :: "('d, 'e, 'x) emu devices \<Rightarrow> int \<Rightarrow> u32 \<Rightarrow> ('d, 'e, 'x) emu \<Rightarrow> u32 \<times> ('d, 'e, 'x) emu" where
  "mem_read32_dual dv core_id addr0 m =
     (let addr = sram_alias_translate addr0; b = m_bus m in
      if addr < 0x4000 then (rom_read32 addr (b_rom b), m)
      else if in_block addr 0x10000000 0x200000 then (flash_read32 (addr - 0x10000000) m, m)
      else if in_active_ram addr b then (rd32 (get_ram b) (ram_offset addr b), m)
      else mem_read32 dv addr m)"

definition mem_read8_dual :: "('d, 'e, 'x) emu devices \<Rightarrow> int \<Rightarrow> u32 \<Rightarrow> ('d, 'e, 'x) emu \<Rightarrow> u8 \<times> ('d, 'e, 'x) emu" where
  "mem_read8_dual dv core_id addr m =
     (let (word, m1) = mem_read32_dual dv core_id (addr AND NOT 3) m
      in (ucast (shr word (lane 3 addr) AND 0xFF), m1))"

definition mem_write8_dual :: "('d, 'e, 'x) emu devices \<Rightarrow> int \<Rightarrow> u32 \<Rightarrow> u8 \<Rightarrow> ('d, 'e, 'x) emu \<Rightarrow> ('d, 'e, 'x) emu" where
  "mem_write8_dual dv core_id addr val m =
     (let (word, m1) = mem_read32_dual dv core_id (addr AND NOT 3) m
      in mem_write32_dual dv core_id (addr AND NOT 3) (put_bits 0xFF (lane 3 addr) (ucast val) word) m1)"

definition mem_read16_dual :: "('d, 'e, 'x) emu devices \<Rightarrow> int \<Rightarrow> u32 \<Rightarrow> ('d, 'e, 'x) emu \<Rightarrow> u16 \<times> ('d, 'e, 'x) emu" where
  "mem_read16_dual dv core_id addr m =
     (if addr AND 1 \<noteq> 0 then
        (let (lo, m1) = mem_read8_dual dv core_id addr m; (hi, m2) = mem_read8_dual dv core_id (addr + 1) m1
         in (ucast lo OR shl (ucast hi) 8, m2))
      else
        (let (word, m1) = mem_read32_dual dv core_id (addr AND NOT 3) m
         in (if addr AND 2 \<noteq> 0 then ucast (shr word 16 AND 0xFFFF) else ucast (word AND 0xFFFF), m1)))"

definition mem_write16_dual :: "('d, 'e, 'x) emu devices \<Rightarrow> int \<Rightarrow> u32 \<Rightarrow> u16 \<Rightarrow> ('d, 'e, 'x) emu \<Rightarrow> ('d, 'e, 'x) emu" where
  "mem_write16_dual dv core_id addr val m =
     (if addr AND 1 \<noteq> 0 then
        mem_write8_dual dv core_id (addr + 1) (ucast (shr val 8 AND 0xFF))
          (mem_write8_dual dv core_id addr (ucast (val AND 0xFF)) m)
      else
        (let (word, m1) = mem_read32_dual dv core_id (addr AND NOT 3) m;
             w = (if addr AND 2 \<noteq> 0 then (word AND 0xFFFF) OR shl (ucast val) 16
                  else (word AND 0xFFFF0000) OR ucast val)
         in mem_write32_dual dv core_id (addr AND NOT 3) w m1))"

section \<open>The bus as the platform of the CPU\<close>

definition cpu_fetch16_fast :: "('d, 'e, 'x) emu devices \<Rightarrow> u32 \<Rightarrow> ('d, 'e, 'x) emu \<Rightarrow> u16 \<times> ('d, 'e, 'x) emu" where
  "cpu_fetch16_fast dv pc m =
     (if pc < 0x3FFF then (rd16 (b_rom (m_bus m)) (unat pc), m)
      else if pc \<ge> 0x10000000 \<and> pc + 1 < 0x10200000 then (rd16 (b_flash (m_bus m)) (unat (pc - 0x10000000)), m)
      else case mem_fetch16_ram pc (m_bus m) of
             Some v \<Rightarrow> (v, m)
           | None \<Rightarrow> mem_read16 dv pc m)"

definition system_platform :: "('d, 'e, 'x) emu devices \<Rightarrow> ('d, 'e, 'x) bus platform" where
  "system_platform dv =
     \<lparr>pl_read32 = mem_read32 dv, pl_read16 = mem_read16 dv, pl_read8 = mem_read8 dv,
      pl_write32 = mem_write32 dv, pl_write16 = mem_write16 dv, pl_write8 = mem_write8 dv,
      pl_fetch16 = cpu_fetch16_fast dv, pl_ram_top = mem_ram_top,
      pl_rom_intercept = rom_intercept dv, pl_thumb32_step = thumb32_step dv,
      pl_semihosting_handle = semihosting_handle dv,
      pl_timer1_tick = (\<lambda>us m. if b_has_rp2350_periph (m_bus m) then bus_timer1_tick us m else m),
      pl_init_ram = mem_set_ram_ptr Cpu_Ram 0x20000000 0x42000, pl_select_ram = select_ram,
      pl_nd_wait = nd_wait dv, pl_ff_poll = ff_poll_hook dv\<rparr>"

end
