(* ===== verification/System.thy ===== *)
theory System
  imports Thumb32 Membus
begin

unbundle bit_operations_syntax

text \<open>
  The whole emulator: the CPU engine and the scheduler run on the memory bus. The contracts that the
  engine's proofs ask of memory are discharged here for the bus, and what they give is stated over
  the composed system.
\<close>

section \<open>The RAM window\<close>

text \<open>The window as the emulator sets it up: at the base of SRAM, 264 KB or 520 KB long.\<close>

definition ram_ready :: "('d, 'e, 'x) bus \<Rightarrow> bool" where
  "ram_ready b \<longleftrightarrow> b_active_ram_base b = 0x20000000 \<and> b_active_ram_size b \<in> {0x42000, 0x82000}"

definition ram_word :: "u32 \<Rightarrow> ('d, 'e, 'x) bus \<Rightarrow> bool" where
  "ram_word a b \<longleftrightarrow> ram_ready b \<and> in_active_ram a b"

definition ram_rd :: "u32 \<Rightarrow> ('d, 'e, 'x) bus \<Rightarrow> u32" where
  "ram_rd a b = rd32 (get_ram b) (ram_offset a b)"

definition ram_wr :: "u32 \<Rightarrow> u32 \<Rightarrow> ('d, 'e, 'x) bus \<Rightarrow> ('d, 'e, 'x) bus" where
  "ram_wr a v b = set_ram (wr32 (get_ram b) (ram_offset a b) v) b"

lemma set_ram_simps [simp]:
  "get_ram (set_ram mem b) = mem" "b_active_ram (set_ram mem b) = b_active_ram b"
  "b_active_ram_base (set_ram mem b) = b_active_ram_base b"
  "b_active_ram_size (set_ram mem b) = b_active_ram_size b"
  "b_flash (set_ram mem b) = b_flash b" "b_rom (set_ram mem b) = b_rom b"
  "in_active_ram a (set_ram mem b) = in_active_ram a b" "ram_offset a (set_ram mem b) = ram_offset a b"
  "ram_ready (set_ram mem b) = ram_ready b"
  by (simp_all add: get_ram_def set_ram_def in_active_ram_def ram_offset_def ram_ready_def split: ram_ptr.split)

lemma ram_word_range: "ram_word a b \<Longrightarrow> 0x20000000 \<le> unat a \<and> unat a < 0x20082000"
  by (auto simp: ram_word_def ram_ready_def in_active_ram_def in_block_def word_le_nat_alt word_less_nat_alt)

lemma ram_word_canonical: "ram_word a b \<Longrightarrow> sram_alias_translate a = a"
  using ram_word_range [of a b] by (auto simp: sram_alias_translate_def in_block_def word_le_nat_alt)

lemma ram_offset_unat: "ram_word a b \<Longrightarrow> ram_offset a b = unat a - 0x20000000"
  by (auto simp: ram_offset_def ram_word_def ram_ready_def in_active_ram_def in_block_def unat_sub)

lemma frame_code_caches [simp]:
  "m_bus (icache_invalidate_addr a m) = m_bus m" "m_bus (jit_invalidate_addr a m) = m_bus m"
  "m_icache_enabled (icache_invalidate_addr a m) = m_icache_enabled m"
  "m_icache (jit_invalidate_addr a m) = m_icache m"
  by (simp_all add: icache_invalidate_addr_def icache_drop_def jit_invalidate_addr_def jit_drop_def Let_def)

lemma observe_store_frame: "same_but_bus m (arm_excl_observe_store k a m) \<and> m_bus (arm_excl_observe_store k a m) = m_bus m"
  by (simp add: same_but_bus_def arm_excl_observe_store_def)

lemma ram_changed_frame:
  "same_but_bus m (ram_changed a mem m)" "m_bus (ram_changed a mem m) = set_ram mem (m_bus m)"
  by (simp_all add: same_but_bus_def ram_changed_def upd_bus_def icache_invalidate_addr_def icache_drop_def
      jit_invalidate_addr_def jit_drop_def Let_def)

lemma write_ram_word:
  assumes "ram_word a (m_bus m)"
  shows "mem_write32 dv a v m = ram_write32 a v (arm_excl_observe_store (int (get_active_core m)) a m)"
  using assms observe_store_frame [of m]
  by (simp add: mem_write32_def write32_routed_def ram_word_canonical) (simp add: ram_word_def)

lemma read_ram_word: "ram_word a (m_bus m) \<Longrightarrow> mem_read32 dv a m = (ram_rd a (m_bus m), m)"
  by (simp add: mem_read32_def ram_word_canonical Let_def) (simp add: ram_word_def ram_rd_def)

interpretation emu_ram: ram_bus "system_platform dv" ram_rd ram_wr ram_word for dv
proof unfold_locales
  fix a c v and m :: "('a, 'b, 'c) emu" and b :: "('a, 'b, 'c) bus"
  show "pl_read32 (system_platform dv) a m = (ram_rd a (m_bus m), m)" if "ram_word a (m_bus m)"
    using that by (simp add: system_platform_def read_ram_word)
  show "m_bus (pl_write32 (system_platform dv) a v m) = ram_wr a v (m_bus m)" if "ram_word a (m_bus m)"
    using that observe_store_frame [of m]
    by (simp add: system_platform_def write_ram_word ram_write32_def ram_changed_frame ram_wr_def)
  show "same_but_bus m (pl_write32 (system_platform dv) a v m)" if "ram_word a (m_bus m)"
    using that observe_store_frame [of m] ram_changed_frame(1) same_but_bus_trans
    by (simp add: system_platform_def write_ram_word ram_write32_def) blast
  show "ram_word c (ram_wr a v b) = ram_word c b" by (simp add: ram_wr_def ram_word_def)
  show "ram_rd a (ram_wr a v b) = v" by (simp add: ram_rd_def ram_wr_def)
  show "ram_rd c (ram_wr a v b) = ram_rd c b" if "ram_word a b" "ram_word c b" "apart a c"
    using that ram_word_range [of a b] ram_word_range [of c b]
    by (simp add: ram_rd_def ram_wr_def ram_offset_unat apart_def) (rule rd32_wr32_other, linarith)
qed

section \<open>A machine at power-on\<close>

text \<open>Nothing attached: every operation that is not modelled answers 0 and changes nothing.\<close>

definition no_devices :: "'m devices" where
  "no_devices = \<lparr>dv_dma_write32 = (\<lambda>_ _ m. m), pio_read32 = (\<lambda>_ _ m. (0, m)),
     pio_write32 = (\<lambda>_ _ _ m. m), usb_read32 = (\<lambda>_ m. (0, m)), usb_write32 = (\<lambda>_ _ m. m),
     board_gpio_write = (\<lambda>_ m. m), rom_intercept = (\<lambda>_ m. (False, m)),
     thumb32_step = (\<lambda>_ _ _ m. (False, m)), semihosting_handle = (\<lambda>m. (False, m)),
     nd_wait = (\<lambda>m. (False, m)), ff_poll_hook = (\<lambda>m. m)\<rparr>"

definition spi_none :: "unit spi_state" where
  "spi_none = \<lparr>sp_cr0 = 0, sp_cr1 = 0, sp_cpsr = 0, sp_imsc = 0, sp_ris = 0, sp_dmacr = 0,
     sp_tx_fifo = (\<lambda>_. 0), sp_tx_head = 0, sp_tx_tail = 0, sp_tx_count = 0,
     sp_rx_fifo = (\<lambda>_. 0), sp_rx_head = 0, sp_rx_tail = 0, sp_rx_count = 0,
     sp_xfer = None, sp_cs = None, sp_ctx = ()\<rparr>"

definition bus_boot :: "bool \<Rightarrow> (unit, unit, unit) bus" where
  "bus_boot rp =
     \<lparr>b_ram = (\<lambda>_. 0), b_rp2350_sram = (\<lambda>_. 0), b_has_rp2350_sram = rp, b_flash = (\<lambda>_. 0xFF), b_rom = (\<lambda>_. 0),
      b_active_ram = Cpu_Ram, b_active_ram_base = 0x20000000, b_active_ram_size = 0x42000,
      b_xip_sram = (\<lambda>_. 0), b_xip_ctrl = xip_ctrl_boot, b_xip_ssi = xip_ssi_boot, b_busctrl = busctrl_boot,
      b_qspi = qspi_boot, b_gpio = gpio_reset, b_uart = (\<lambda>_. uart_boot), b_spi = (\<lambda>_. spi_none),
      b_i2c = (\<lambda>_. i2c_fresh []), b_adc = adc_reset rp, b_pwm = pwm_init, b_clocks = clocks_reset rp,
      b_vreg = vreg_defaults, b_syscfg = (\<lambda>_. 0), b_ticks = (\<lambda>_. 0), b_trng = trng_init,
      b_sha256 = sha256_boot, b_hstx = hstx_boot, b_dma = dma_init rp, b_has_rp2350_periph = rp,
      b_periph = rp2350_periph_init True, b_rest = ()\<rparr>"

definition emu_boot :: "bool \<Rightarrow> (unit, unit, unit) emu" where
  "emu_boot rp = (mach_boot (bus_boot rp))\<lparr>m_nv := nvic_boot\<lparr>membus_rp2350_mode := rp\<rparr>\<rparr>"

section \<open>RAM through both of its windows\<close>

lemma write_ram_alias:
  assumes "ram_word (sram_alias_translate a) (m_bus m)"
  shows "mem_write32 dv a v m =
    ram_write32 (sram_alias_translate a) v (arm_excl_observe_store (int (get_active_core m)) a m)"
  using assms observe_store_frame [of m] by (simp add: mem_write32_def write32_routed_def) (simp add: ram_word_def)

lemma read_ram_alias:
  "ram_word (sram_alias_translate a) (m_bus m) \<Longrightarrow> mem_read32 dv a m = (ram_rd (sram_alias_translate a) (m_bus m), m)"
  by (simp add: mem_read32_def Let_def) (simp add: ram_word_def ram_rd_def)

lemma write_ram_alias_bus:
  "ram_word (sram_alias_translate a) (m_bus m) \<Longrightarrow>
   m_bus (mem_write32 dv a v m) = ram_wr (sram_alias_translate a) v (m_bus m)"
  using observe_store_frame [of m] by (simp add: write_ram_alias ram_write32_def ram_changed_frame ram_wr_def)

lemma ram_not_code_elsewhere:
  assumes "ram_word a b"
  shows "\<not> a < 0x4000" "\<not> in_block a 0x08000000 0x4000" "\<not> in_block a 0x10000000 0x200000"
    "\<not> in_block a 0x15000000 0x4000"
  using ram_word_range [OF assms] by (simp_all add: in_block_def word_less_nat_alt word_le_nat_alt)

lemma read8_ram_alias:
  assumes "ram_word (sram_alias_translate a) (m_bus m)"
  shows "mem_read8 dv a m = (get_ram (m_bus m) (ram_offset (sram_alias_translate a) (m_bus m)), m)"
  using assms ram_not_code_elsewhere [OF assms]
  by (simp add: mem_read8_def Let_def in_rom_alias_def) (simp add: ram_word_def)

lemma wr32_bytes: "k < 4 \<Longrightarrow> wr32 mem i v (i + k) = ucast (shr v (8 * k))"
  by (auto simp: wr32_def less_4_cases)

text \<open>C10. RAM is memory: a word written through either of its two windows is what a later read through
  either window returns, byte for byte in little-endian order for byte reads, and a read of any
  word that does not overlap it is unaffected.\<close>

theorem ram_read_after_write:
  assumes a: "ram_word (sram_alias_translate a) (m_bus m)"
    and c: "ram_word (sram_alias_translate c) (m_bus m)"
  shows "let m' = mem_write32 dv a v m in
    (sram_alias_translate c = sram_alias_translate a \<longrightarrow> mem_read32 dv c m' = (v, m')) \<and>
    (apart (sram_alias_translate a) (sram_alias_translate c) \<longrightarrow>
       fst (mem_read32 dv c m') = fst (mem_read32 dv c m)) \<and>
    (\<forall>k < 4. sram_alias_translate c = sram_alias_translate a + of_nat k \<longrightarrow>
       mem_read8 dv c m' = (ucast (shr v (8 * k)), m'))"
proof -
  let ?a = "sram_alias_translate a" and ?c = "sram_alias_translate c"
  define m' where "m' = mem_write32 dv a v m"
  have b: "m_bus m' = ram_wr ?a v (m_bus m)" unfolding m'_def by (rule write_ram_alias_bus [OF a])
  have c': "ram_word ?c (m_bus m')" using c by (simp add: b emu_ram.in_ram_wr [OF a])
  have off: "ram_offset ?c (m_bus m) = ram_offset ?a (m_bus m) + k" if "k < 4" "?c = ?a + of_nat k" for k
  proof -
    have "unat ?c = unat ?a + k"
      using that ram_word_range [OF a] by (simp add: unat_word_ariths unat_of_nat_lt)
    then show ?thesis using ram_word_range [OF a] by (simp add: ram_offset_unat [OF a] ram_offset_unat [OF c])
  qed
  have "get_ram (m_bus m') (ram_offset ?c (m_bus m')) = ucast (shr v (8 * k))" if "k < 4" "?c = ?a + of_nat k" for k
    using off [OF that] wr32_bytes [OF that(1)] by (simp add: b ram_wr_def)
  then show ?thesis
    unfolding Let_def m'_def [symmetric] read_ram_alias [OF c'] read8_ram_alias [OF c']
    using emu_ram.rd_wr [OF a] emu_ram.rd_wr_apart [OF a c] read_ram_alias [OF c] by (simp add: b)
qed

theorem ram_read_after_write_witness:
  "let m' = mem_write32 no_devices 0x21000010 0xAABBCCDD (emu_boot False) in
     mem_read32 no_devices 0x20000010 m' = (0xAABBCCDD, m') \<and> mem_read8 no_devices 0x20000011 m' = (0xCC, m')"
proof -
  have r: "ram_word (sram_alias_translate x) (m_bus (emu_boot False))"
    if "x \<in> {0x21000010, 0x20000010, 0x20000011}" for x
    using that by (auto simp: ram_word_def ram_ready_def in_active_ram_def in_block_def sram_alias_translate_def
        emu_boot_def mach_boot_def bus_boot_def)
  have t: "sram_alias_translate 0x21000010 = 0x20000010" "sram_alias_translate 0x20000010 = 0x20000010"
    "sram_alias_translate 0x20000011 = 0x20000011"
    by (simp_all add: sram_alias_translate_def in_block_def)
  show ?thesis
    using ram_read_after_write [OF r r, of "0x21000010" "0x20000010" no_devices "0xAABBCCDD"]
      ram_read_after_write [OF r r, of "0x21000010" "0x20000011" no_devices "0xAABBCCDD"]
    by (auto simp: Let_def t dest!: spec [of _ 1])
qed

section \<open>The contracts of the scheduler\<close>

interpretation emu_core: core_memory "system_platform dv" for dv
proof unfold_locales
  show "pl_select_ram (system_platform dv) m = m\<lparr>m_bus := m_bus (pl_select_ram (system_platform dv) m)\<rparr>" for m
    by (simp add: system_platform_def select_ram_def mem_set_ram_ptr_def upd_bus_def)
qed

text \<open>The emulator without its network boards: no hook is installed.\<close>

definition quiet :: "('d, 'e, 'x) emu devices \<Rightarrow> ('d, 'e, 'x) emu devices" where
  "quiet dv = dv\<lparr>nd_wait := (\<lambda>m. (False, m)), ff_poll_hook := (\<lambda>m. m)\<rparr>"

interpretation emu_quiet: quiet_host "system_platform (quiet dv)" for dv
  by unfold_locales (simp_all add: system_platform_def quiet_def bus_timer1_tick_def upd_bus_def split: prod.split)

text \<open>C2. A core that is taken off the engine gets back exactly the registers its instructions left, the
  engine gets back the registers it had before, and the other core is not touched, whatever ran in
  between.\<close>

theorem context_switch_isolates:
  assumes "cpu_bind_core_context (system_platform dv) c m = Some (ctx, m1)"
    and "m3 = cpu_unbind_core_context (system_platform dv) c ctx m2"
  shows "engine_regs (m_cpu m1) = core_regs (m_cores m c) \<and> m_cores m1 = m_cores m \<and>
    get_active_core m1 = c \<and>
    core_regs (m_cores m3 c) = engine_regs (m_cpu m2) \<and>
    engine_regs (m_cpu m3) = engine_regs (m_cpu m) \<and>
    (\<forall>k. k \<noteq> c \<longrightarrow> m_cores m3 k = m_cores m2 k) \<and>
    (cd_is_halted (m_cores m3 c) \<longleftrightarrow> reg m2 15 = 0xFFFFFFFF)"
  using emu_core.bind_run_unbind [OF assms] .

theorem context_switch_witness:
  "let (ctx, m1) = the (cpu_bind_core_context (system_platform no_devices) 1 (emu_boot False));
       m2 = upd_cpu (set_r 0 42) m1; m3 = cpu_unbind_core_context (system_platform no_devices) 1 ctx m2 in
   core_regs (m_cores m3 1) = engine_regs (m_cpu m2) \<and> m_cores m3 0 = m_cores m2 0"
proof -
  obtain ctx m1 where b: "cpu_bind_core_context (system_platform no_devices) 1 (emu_boot False) = Some (ctx, m1)"
    by (simp add: cpu_bind_core_context_def emu_boot_def mach_boot_def core_zero_def)
  show ?thesis
    using context_switch_isolates [OF b refl, of "upd_cpu (set_r 0 42) m1"] unfolding b by (simp add: Let_def)
qed

text \<open>C21. When all cores sleep, they do not sleep for ever: on a host whose network wait does not hold the clock
  and whose poll hook does nothing, after fewer than 5000 rounds of the scheduler, in which both cores keep
  their registers and stay asleep, comes a round in which core 0 or core 1 leaves its sleep and executes an
  instruction, whatever the timers and interrupts do. One or two cores may be active, and core 1 may be halted,
  in which case it is core 0 that wakes.\<close>

theorem sleeping_core_wakes:
  assumes "p = system_platform (quiet dv)" "sleeping m" "m_wfe_wake_acc_us m < 5000"
  shows "\<exists>k < 5000. let m' = (dual_core_step p ^^ k) m in
    sleeping m' \<and> m_cores m' 0 = m_cores m 0 \<and> core_regs (m_cores m' 1) = core_regs (m_cores m 1) \<and> round_wakes p m'"
  using emu_quiet.sleeper_wakes [OF assms(2,3), of dv] unfolding assms(1) slept_def Let_def by blast

text \<open>Core 0 waits for an interrupt, core 1 for an event.\<close>

definition sleep_demo :: "(unit, unit, unit) emu" where
  "sleep_demo = upd_core 0 (\<lambda>k. k\<lparr>cd_is_wfi := True\<rparr>) (upd_core 1 (\<lambda>k. k\<lparr>cd_is_wfi := True\<rparr>)
     ((emu_boot False)\<lparr>m_num_active_cores := 2, m_current := 1\<rparr>))"

theorem sleeping_core_wakes_witness:
  "sleeping sleep_demo \<and>
   (\<exists>k < 5000. let m' = (dual_core_step (system_platform (quiet no_devices)) ^^ k) sleep_demo in
      sleeping m' \<and> m_cores m' 0 = m_cores sleep_demo 0 \<and> core_regs (m_cores m' 1) = core_regs (m_cores sleep_demo 1) \<and>
      round_wakes (system_platform (quiet no_devices)) m')"
proof -
  have "sleeping sleep_demo" "m_wfe_wake_acc_us sleep_demo < 5000"
    by (simp_all add: sleeping_def sleep_demo_def emu_boot_def mach_boot_def core_zero_def upd_core_def)
  then show ?thesis using sleeping_core_wakes [OF refl] by blast
qed

section \<open>The shared time\<close>

interpretation emu_clock: shared_clock "system_platform dv" for dv
  by unfold_locales (simp_all add: system_platform_def bus_timer1_tick_def upd_bus_def split: prod.split)

text \<open>C39. No cycle is lost: over any interleaving of instructions of the two cores, on either chip, the microsecond
  timer advances by the cycles that drive it, with what was left over before, divided by the clock rate, and exactly
  the remainder is left over afterwards. The cycles of core 0 drive the timer, and while core 0 sleeps, is halted or
  is the only active core, those of the executing core. A paused timer keeps its time.\<close>

theorem clock_conserves_cycles:
  assumes "m_cycle_accumulator m < m_cycles_per_us m"
    and "\<forall>(k, c) \<in> set es. k < 2 \<and> unat (m_cycles_per_us m) + unat c \<le> 2 ^ 32"
    and "m' = fold (run_cycles (system_platform dv)) es m"
    and "driving = unat (m_cycle_accumulator m) + sum_list (map (\<lambda>(k, c). if k = 0 \<or> m_num_active_cores m = 1 \<or>
      cd_is_wfi (m_cores m 0) \<or> cd_is_halted (m_cores m 0) then unat c else 0) es)"
  shows "unat (m_cycle_accumulator m') = driving mod unat (m_cycles_per_us m) \<and>
    tm_time_us (m_timer m') = tm_time_us (m_timer m) +
      (if tm_paused (m_timer m) = 0 then of_nat (driving div unat (m_cycles_per_us m)) else 0)"
proof -
  have "shared_cycles m = (\<lambda>(k, c). if k = 0 \<or> m_num_active_cores m = 1 \<or>
      cd_is_wfi (m_cores m 0) \<or> cd_is_halted (m_cores m 0) then unat c else 0)"
    by (auto simp: shared_cycles_def)
  then show ?thesis using emu_clock.cycles_conserved [OF assms(1,2)] unfolding assms(3,4) by simp
qed

definition clock_demo :: "(unit, unit, unit) emu" where
  "clock_demo = (timing_set_clock_mhz 125 (emu_boot False))\<lparr>m_num_active_cores := 2\<rparr>"

theorem clock_conserves_cycles_witness:
  "tm_time_us (m_timer (fold (run_cycles (system_platform no_devices)) [(0, 100), (1, 90), (0, 100), (0, 100)] clock_demo)) = 2"
proof -
  have f: "m_cycles_per_us clock_demo = 125" "m_cycle_accumulator clock_demo = 0" "m_num_active_cores clock_demo = 2"
    "\<not> cd_is_wfi (m_cores clock_demo 0)" "\<not> cd_is_halted (m_cores clock_demo 0)" "tm_time_us (m_timer clock_demo) = 0"
    "tm_paused (m_timer clock_demo) = 0"
    by (simp_all add: clock_demo_def timing_set_clock_mhz_def emu_boot_def mach_boot_def timer_zero_def core_zero_def)
  show ?thesis
    using clock_conserves_cycles [of clock_demo "[(0, 100), (1, 90), (0, 100), (0, 100)]", OF _ _ refl refl, of no_devices]
    by (simp add: f del: fold_simps)
qed

section \<open>Interrupts and stacked registers\<close>

text \<open>C1. An exception handler returns to the code it interrupted: if its stack frame is in RAM, the
  handler leaves the frame and the nesting stack as it found them and nothing else preempts, then
  after the return the stacked registers, flags, stack pointer, predication state and interrupted
  vector are those at the entry, and the remaining registers are those the handler left.\<close>

theorem exception_round_trip:
  assumes fetch: "mem_read32 dv (cpu_vtor (m_cpu m) + vec * 4) m = (h, m)"
    and lock: "\<not> (vec = EXC_HARDFAULT \<and> cpu_current_irq (m_cpu m) = EXC_HARDFAULT)"
    and vec: "vec \<noteq> 0xFFFFFFFF"
    and low: "32 \<le> unat (reg m 13)" and room: "frame_room ram_word (reg m 13 - 32) (m_bus m)"
    and und: "undisturbed False (nvic_get_exception_priority (mark_active vec (m_nv m)) vec)
                (upd_nv (mark_active vec) m)"
    and depth: "cd_exception_depth (m_cores m (get_active_core m)) < 8"
    and it: "it_fields_ok (m_cpu m)"
    and bal: "handler_balanced ram_rd (cpu_exception_entry (system_platform dv) vec m) m2"
    and room2: "frame_room ram_word (reg m2 13) (m_bus m2)"
    and mode: "lr AND 0xF \<in> {0x1, 0x9, 0xD}" and und2: "undisturbed True (return_priority m2) m2"
    and m3: "m3 = cpu_exception_return (system_platform dv) lr m2"
  shows "m_cpu m3 = (m_cpu m2)\<lparr>cpu_xpsr := cpu_xpsr (m_cpu m), cpu_faultmask := 0,
      cpu_r := (\<lambda>i. if i \<in> {0, 1, 2, 3, 12, 13, 14} then reg m i
                   else if i = 15 then reg m 15 AND NOT 1 else reg m2 i),
      cpu_current_irq := cpu_current_irq (m_cpu m),
      cpu_it_base := cpu_it_base (m_cpu m), cpu_it_mask := cpu_it_mask (m_cpu m),
      cpu_it_pos := cpu_it_pos (m_cpu m), cpu_it_len := cpu_it_len (m_cpu m)\<rparr> \<and>
    cd_exception_depth (m_cores m3 (get_active_core m2)) =
      cd_exception_depth (m_cores m (get_active_core m))"
proof -
  have f: "pl_read32 (system_platform dv) (cpu_vtor (m_cpu m) + vec * 4) m = (h, m)"
    using fetch by (simp add: system_platform_def)
  show ?thesis by (rule emu_ram.entry_return [OF f lock vec low room und depth it bal room2 mode und2 m3])
qed

text \<open>A machine in thread mode with its stack in RAM and its vector table in erased flash.\<close>

definition exc_demo :: "(unit, unit, unit) emu" where
  "exc_demo = upd_cpu (\<lambda>c. c\<lparr>cpu_r := (\<lambda>i. if i = 13 then 0x20001000 else if i = 15 then 0x10000400 else of_nat i),
     cpu_xpsr := 0x61000000, cpu_vtor := 0x10000100, cpu_current_irq := 0xFFFFFFFF, cpu_primask := 1\<rparr>) (emu_boot False)"

lemma exc_demo_fields:
  "reg exc_demo 13 = 0x20001000" "cpu_vtor (m_cpu exc_demo) = 0x10000100" "cpu_primask (m_cpu exc_demo) = 1"
  "cpu_current_irq (m_cpu exc_demo) = 0xFFFFFFFF" "cpu_xpsr (m_cpu exc_demo) = 0x61000000"
  "cd_exception_depth (m_cores exc_demo k) = 0" "get_active_core exc_demo = 0" "it_fields_ok (m_cpu exc_demo)"
  "m_bus exc_demo = bus_boot False"
  by (simp_all add: exc_demo_def emu_boot_def mach_boot_def cpu_zero_def core_zero_def nvic_boot_def it_fields_ok_def)

lemma exc_demo_room: "frame_room ram_word 0x20000FE0 (bus_boot False)"
  by (simp add: frame_room_def upt_0_8 ram_word_def ram_ready_def in_active_ram_def in_block_def bus_boot_def)

theorem exception_round_trip_witness:
  "let p = system_platform no_devices; m2 = cpu_exception_entry p 15 exc_demo;
       m3 = cpu_exception_return p 0xFFFFFFF9 m2 in
   reg m3 13 = 0x20001000 \<and> cpu_xpsr (m_cpu m3) = 0x61000000 \<and> cpu_current_irq (m_cpu m3) = 0xFFFFFFFF"
proof -
  let ?p = "system_platform no_devices :: (unit, unit, unit) bus platform" and ?m = "exc_demo"
  have fetch: "mem_read32 no_devices (cpu_vtor (m_cpu ?m) + 15 * 4) ?m = (0xFFFFFFFF, ?m)"
    by (simp add: exc_demo_fields mem_read32_def sram_alias_translate_def in_block_def in_active_ram_def
        in_rom_alias_def flash_read32_def Let_def) (simp add: exc_demo_fields bus_boot_def rd32_def)
  have fetch': "pl_read32 ?p (cpu_vtor (m_cpu ?m) + 15 * 4) ?m = (0xFFFFFFFF, ?m)"
    using fetch by (simp add: system_platform_def)
  have lock: "\<not> ((15 :: u32) = EXC_HARDFAULT \<and> cpu_current_irq (m_cpu ?m) = EXC_HARDFAULT)" by simp
  have und: "undisturbed False (nvic_get_exception_priority (mark_active 15 (m_nv ?m)) 15) (upd_nv (mark_active 15) ?m)"
    by (simp add: undisturbed_def exc_demo_fields)
  have low: "32 \<le> unat (reg ?m 13)" and room: "frame_room ram_word (reg ?m 13 - 32) (m_bus ?m)"
    using exc_demo_room by (simp_all add: exc_demo_fields)
  obtain m1 where m1: "cpu_exception_entry ?p 15 ?m = m1" "m_cpu m1 = entered_cpu 15 0xFFFFFFFF (m_cpu ?m)"
      "frame_room ram_word (reg ?m 13 - 32) (m_bus m1)"
    using emu_ram.entry_ram [OF fetch' lock low room und] by blast
  have c1: "reg m1 13 = reg ?m 13 - 32" "cpu_primask (m_cpu m1) = 1"
    by (simp_all add: m1(2) entered_cpu_def it_clear_def set_ipsr_def exc_demo_fields)
  have "handler_balanced ram_rd (cpu_exception_entry ?p 15 ?m) m1"
    by (simp add: handler_balanced_def m1(1))
  moreover have "frame_room ram_word (reg m1 13) (m_bus m1)" using m1(3) by (simp add: c1)
  moreover have "undisturbed True (return_priority m1) m1" by (simp add: undisturbed_def c1)
  ultimately show ?thesis
    using exception_round_trip [OF fetch lock _ low room und _ exc_demo_fields(8) _ _ _ _ refl, of m1 "0xFFFFFFF9"] m1(1)
    by (simp add: Let_def exc_demo_fields)
qed

text \<open>POP takes back what a PUSH of the same register list stored, with the saved link register going
  to the program counter, when the code in between keeps the stack pointer and the saved words.\<close>

theorem push_pop_round_trip:
  assumes low: "4 * saved_words i1 \<le> unat (reg m 13)"
    and room: "words_room ram_word (reg m 13 - of_nat (4 * saved_words i1)) (saved_words i1) (m_bus m)"
    and same: "i1 AND 0x1FF = i2 AND 0x1FF"
    and sp: "reg m2 13 = reg (instr_push (system_platform dv) i1 m) 13"
    and keep: "words_at ram_rd (reg m2 13) (saved_words i1) (m_bus m2) =
                 words_at ram_rd (reg m2 13) (saved_words i1) (m_bus (instr_push (system_platform dv) i1 m))"
    and room2: "words_room ram_word (reg m2 13) (saved_words i1) (m_bus m2)"
    and lr: "bit i1 8 \<longrightarrow> reg m 14 AND 0xFFFFFFF0 \<noteq> 0xFFFFFFF0"
  shows "instr_pop (system_platform dv) i2 m2 = upd_cpu (\<lambda>c. c\<lparr>
     cpu_r := (\<lambda>i. if i \<in> set (low_regs i1) then reg m i
                  else if i = 13 then reg m 13
                  else if i = 15 \<and> bit i1 8 then reg m 14 AND NOT 1
                  else cpu_r c i),
     pc_updated := (bit i1 8 \<or> pc_updated c)\<rparr>) m2"
  by (rule emu_ram.push_pop [OF assms])

theorem push_pop_witness:
  "let p = system_platform no_devices; m2 = instr_push p 0xB503 exc_demo in
   reg (instr_pop p 0xBD03 m2) 13 = 0x20001000 \<and> reg (instr_pop p 0xBD03 m2) 15 = 14 \<and>
   reg (instr_pop p 0xBD03 m2) 1 = 1"
proof -
  let ?p = "system_platform no_devices :: (unit, unit, unit) bus platform"
  have n: "low_regs 0xB503 = [0, 1]" "saved_words 0xB503 = 3"
    by (simp_all add: low_regs_def saved_words_def push_regs_def upt_0_8)
  have room: "words_room ram_word (reg exc_demo 13 - of_nat (4 * saved_words 0xB503)) (saved_words 0xB503) (m_bus exc_demo)"
    by (simp add: n words_room_def exc_demo_fields upt_rec ram_word_def ram_ready_def in_active_ram_def in_block_def
        bus_boot_def)
  have low: "4 * saved_words 0xB503 \<le> unat (reg exc_demo 13)" by (simp add: n exc_demo_fields)
  obtain m1 where m1: "instr_push ?p 0xB503 exc_demo = m1"
      "reg m1 13 = reg exc_demo 13 - of_nat (4 * saved_words 0xB503)"
      "\<forall>a. ram_word a (m_bus m1) = ram_word a (m_bus exc_demo)"
    using emu_ram.push_ram [OF low room] by fastforce
  have room2: "words_room ram_word (reg m1 13) (saved_words 0xB503) (m_bus m1)"
    using room m1(3) by (simp add: m1(2) words_room_def)
  have lr: "bit (0xB503 :: u16) 8 \<longrightarrow> reg exc_demo 14 AND 0xFFFFFFF0 \<noteq> 0xFFFFFFF0"
    by (simp add: exc_demo_def)
  have "instr_pop ?p 0xBD03 m1 = upd_cpu (\<lambda>c. c\<lparr>
     cpu_r := (\<lambda>i. if i \<in> set (low_regs 0xB503) then reg exc_demo i else if i = 13 then reg exc_demo 13
                  else if i = 15 \<and> bit (0xB503 :: u16) 8 then reg exc_demo 14 AND NOT 1 else cpu_r c i),
     pc_updated := (bit (0xB503 :: u16) 8 \<or> pc_updated c)\<rparr>) m1"
    by (rule push_pop_round_trip [OF low room _ _ _ room2 lr]) (simp_all add: m1(1))
  then show ?thesis by (simp add: Let_def m1(1) n exc_demo_fields) (simp add: exc_demo_def)
qed

section \<open>Self-modifying code\<close>

text \<open>The halfword the engine fetches at an address of ROM, flash or RAM.\<close>

definition code_at :: "('d, 'e, 'x) bus \<Rightarrow> u32 \<Rightarrow> u16" where
  "code_at b pc =
     (if pc < 0x3FFF then rd16 (b_rom b) (unat pc)
      else if pc \<ge> 0x10000000 \<and> pc + 1 < 0x10200000 then rd16 (b_flash b) (unat (pc - 0x10000000))
      else case mem_fetch16_ram pc b of Some v \<Rightarrow> v | None \<Rightarrow> 0)"

definition code_address :: "('d, 'e, 'x) bus \<Rightarrow> u32 \<Rightarrow> bool" where
  "code_address b pc \<longleftrightarrow> pc \<noteq> 0xFFFFFFFF \<and>
     (pc < 0x3FFF \<or> (pc \<ge> 0x10000000 \<and> pc + 1 < 0x10200000) \<or> mem_fetch16_ram pc b \<noteq> None)"

lemma fetch_code: "code_address (m_bus m) pc \<Longrightarrow> cpu_fetch16_fast dv pc m = (code_at (m_bus m) pc, m)"
  by (auto simp: cpu_fetch16_fast_def code_at_def code_address_def split: option.split)

lemma rd16_wr32_other: "j + 2 \<le> i \<or> i + 4 \<le> j \<Longrightarrow> rd16 (wr32 mem i v) j = rd16 mem j"
  by (auto simp: rd16_def wr32_def)

lemma fetch_ram_word:
  assumes "mem_fetch16_ram pc b = Some v" "ram_ready b" "pc \<noteq> 0xFFFFFFFF"
  shows "ram_word pc b \<and> v = rd16 (get_ram b) (unat pc - 0x20000000)"
proof -
  have pc: "b_active_ram_base b \<le> pc" "pc + 1 < b_active_ram_base b + b_active_ram_size b"
    "v = rd16 (get_ram b) (ram_offset pc b)"
    using assms(1) by (auto simp: mem_fetch16_ram_def split: if_splits)
  have "unat pc < 0xFFFFFFFF" using assms(3) unat_u32_less [of pc] by (simp add: word_unat_eq_iff)
  then have "pc < pc + 1" by (simp add: word_less_nat_alt unat_word_ariths)
  with pc(2) have "pc < b_active_ram_base b + b_active_ram_size b" by order
  then have "ram_word pc b" using assms(2) pc(1) by (simp add: ram_word_def in_active_ram_def in_block_def)
  with pc(3) show ?thesis by (simp add: ram_offset_unat)
qed

text \<open>A word store to an even address changes the code only at that halfword and the next.\<close>

lemma code_at_store:
  assumes a: "ram_word a b" "even (unat a)" and pc: "even (unat pc)" "pc \<noteq> a" "pc \<noteq> a + 2"
  shows "code_at (ram_wr a v b) pc = code_at b pc"
proof -
  have f: "mem_fetch16_ram pc (ram_wr a v b) = map_option (\<lambda>_. rd16 (wr32 (get_ram b) (ram_offset a b) v) (ram_offset pc b))
      (mem_fetch16_ram pc b)"
    by (simp add: mem_fetch16_ram_def ram_wr_def)
  have "rd16 (wr32 (get_ram b) (ram_offset a b) v) (ram_offset pc b) = rd16 (get_ram b) (ram_offset pc b)"
    if "mem_fetch16_ram pc b = Some x" for x
  proof -
    have "pc \<noteq> 0xFFFFFFFF" using pc(1) by auto
    then have w: "ram_word pc b" using fetch_ram_word [OF that] a(1) by (simp add: ram_word_def)
    have "unat (a + 2) = unat a + 2" using ram_word_range [OF a(1)] by (simp add: unat_word_ariths)
    then have "unat pc \<noteq> unat a" "unat pc \<noteq> unat a + 2" using pc(2,3) by (auto simp: word_unat_eq_iff)
    then have "unat pc + 2 \<le> unat a \<or> unat a + 4 \<le> unat pc" using a(2) pc(1) by presburger
    then show ?thesis
      using ram_word_range [OF a(1)] ram_word_range [OF w]
      by (simp add: ram_offset_unat [OF a(1)] ram_offset_unat [OF w]) (rule rd16_wr32_other, linarith)
  qed
  then have "mem_fetch16_ram pc (ram_wr a v b) = mem_fetch16_ram pc b"
    unfolding f by (auto simp: mem_fetch16_ram_def)
  then show ?thesis by (simp add: code_at_def ram_wr_def)
qed

definition code_coherent :: "('d, 'e, 'x) emu \<Rightarrow> bool" where
  "code_coherent m \<longleftrightarrow> m_icache_enabled m \<and> icache_coherent (code_at (m_bus m)) m"

lemma observe_store_caches [simp]:
  "m_icache (arm_excl_observe_store k a m) = m_icache m"
  "m_icache_enabled (arm_excl_observe_store k a m) = m_icache_enabled m"
  by (simp_all add: arm_excl_observe_store_def)

lemma code_coherent_store:
  assumes "code_coherent m" "ram_word (sram_alias_translate a) (m_bus m)" "even (unat a)"
  shows "code_coherent (mem_write32 dv a v m)"
proof -
  let ?t = "sram_alias_translate a" and ?m1 = "arm_excl_observe_store (int (get_active_core m)) a m"
  have "unat (a - 0x1000000) = unat a - 0x1000000" if "0x21000000 \<le> a"
    using that by (subst unat_sub) (simp_all add: word_le_nat_alt)
  then have ev: "even (unat ?t)"
    using assms(3) by (auto simp: sram_alias_translate_def in_block_def)
  let ?m2 = "upd_bus (set_ram (wr32 (get_ram (m_bus ?m1)) (ram_offset ?t (m_bus ?m1)) v)) ?m1"
  have m2: "m_icache ?m2 = m_icache m" "m_icache_enabled ?m2" "m_bus ?m2 = ram_wr ?t v (m_bus m)"
    using assms(1) observe_store_frame [of m] by (simp_all add: upd_bus_def ram_wr_def code_coherent_def)
  have "icache_coherent (code_at (m_bus m)) ?m2"
    using assms(1) by (simp add: code_coherent_def icache_coherent_cong [OF m2(1)])
  then have "icache_coherent (code_at (ram_wr ?t v (m_bus m))) (icache_invalidate_addr ?t ?m2)"
    using m2(2) ev code_at_store [OF assms(2) ev] by (rule icache_invalidate_addr_coherent)
  then show ?thesis
    using m2(2) unfolding write_ram_alias [OF assms(2)] ram_write32_def ram_changed_def
    by (simp add: code_coherent_def m2(3) icache_coherent_cong [OF frame_code_caches(4)])
      (simp add: jit_invalidate_addr_def jit_drop_def)
qed

text \<open>C3. Code written to RAM is what runs: after any sequence of word stores to even RAM addresses the
  instruction cache agrees with memory, and a step through the cache at any code address is the step
  that fetches and decodes from memory.\<close>

theorem self_modifying_code:
  assumes "code_coherent m"
    and "\<forall>(a, v) \<in> set stores. ram_word (sram_alias_translate a) (m_bus m) \<and> even (unat a)"
    and m': "m' = fold (\<lambda>(a, v). mem_write32 dv a v) stores m"
  shows "code_coherent m' \<and>
    (code_address (m_bus m') pc \<longrightarrow>
       exec_one (system_platform dv) pc in_it m' = exec_fetched (system_platform dv) pc in_it m')"
proof -
  have coh: "code_coherent m'"
    using assms(1,2) unfolding m'
  proof (induction stores arbitrary: m)
    case (Cons av stores)
    obtain a v where av: "av = (a, v)" by (cases av)
    have a: "ram_word (sram_alias_translate a) (m_bus m)" "even (unat a)" using Cons.prems(2) by (simp_all add: av)
    have "\<forall>(a', v') \<in> set stores. ram_word (sram_alias_translate a') (m_bus (mem_write32 dv a v m)) \<and> even (unat a')"
      using Cons.prems(2) by (auto simp: av write_ram_alias_bus [OF a(1)] emu_ram.in_ram_wr [OF a(1)])
    from Cons.IH [OF code_coherent_store [OF Cons.prems(1) a, where dv = dv and v = v] this] show ?case by (simp add: av)
  qed simp
  have "exec_one (system_platform dv) pc in_it m' = exec_fetched (system_platform dv) pc in_it m'"
    if "code_address (m_bus m') pc"
  proof (rule exec_one_coherent)
    show "icache_coherent (code_at (m_bus m')) m'" using coh by (simp add: code_coherent_def)
    show "pl_fetch16 (system_platform dv) pc m' = (code_at (m_bus m') pc, m')"
      using that by (simp add: system_platform_def fetch_code)
    show "pc \<noteq> 0xFFFFFFFF" using that by (simp add: code_address_def)
  qed
  with coh show ?thesis by simp
qed

theorem self_modifying_code_witness:
  "let m' = mem_write32 no_devices 0x20000100 0x2001E7FE (icache_init (emu_boot False)) in
   exec_one (system_platform no_devices) 0x20000100 False m' =
     exec_fetched (system_platform no_devices) 0x20000100 False m'"
proof -
  let ?m = "icache_init (emu_boot False)"
  have b: "m_bus ?m = bus_boot False" by (simp add: icache_init_def icache_invalidate_all_def emu_boot_def mach_boot_def)
  have c: "code_coherent ?m"
    using icache_invalidate_all_coherent [of "code_at (bus_boot False)" "emu_boot False"]
    by (simp add: code_coherent_def b) (simp add: icache_init_def icache_coherent_def)
  have w: "ram_word (sram_alias_translate 0x20000100) (m_bus ?m)"
    by (simp add: b ram_word_def ram_ready_def in_active_ram_def in_block_def sram_alias_translate_def bus_boot_def)
  have "\<forall>(a, v) \<in> set [(0x20000100, 0x2001E7FE :: u32)]. ram_word (sram_alias_translate a) (m_bus ?m) \<and> even (unat a)"
    using w by simp
  note r = self_modifying_code [OF c this refl, of no_devices "0x20000100" False]
  have "code_address (m_bus (mem_write32 no_devices 0x20000100 0x2001E7FE ?m)) 0x20000100"
    by (simp add: write_ram_alias_bus [OF w] code_address_def mem_fetch16_ram_def ram_wr_def b bus_boot_def)
  with r show ?thesis by (simp add: Let_def)
qed

section \<open>Read-only memory\<close>

lemma in_block_above: "unat a < unat s \<Longrightarrow> \<not> in_block a s sz"
  by (simp add: in_block_def word_le_nat_alt)

lemma and_unat_le: "unat (a AND k) \<le> unat (a :: u32)"
  using word_and_le2 [of a k] by (simp add: word_le_nat_alt)

text \<open>Below \<^verbatim>\<open>0x14000000\<close> no peripheral answers.\<close>

lemma no_peripheral_below:
  assumes "unat a < 0x14000000"
  shows "uart_match rp a = None" "spi_match rp a = None" "i2c_match a = None" "pio_match a = None"
    "\<not> pwm_match rp a" "\<not> dma_match a" "\<not> usb_match a" "\<not> rtc_match a" "\<not> io_qspi_match a" "\<not> pads_qspi_match rp a"
    "\<not> busctrl_match a" "\<not> vreg_match a" "\<not> syscfg_match a" "\<not> tbman_match a" "\<not> sha256_match a"
    "\<not> hstx_match a" "\<not> trng_match a" "\<not> ticks_match a" "\<not> rp2350_periph_match a" "\<not> gpio_bus_match rp a"
    "\<not> is_clocks_addr rp a" "\<not> is_adc_addr rp a" "\<not> rp2350_timer_addr a m"
proof -
  have le: "unat (a AND k) < unat s" if "0x14000000 \<le> unat s" for k s
    using assms and_unat_le [of a k] that by linarith
  have b: "\<not> in_block a s sz" "\<not> in_block (a AND k) s sz" "\<not> s \<le> a AND k" "a AND k \<noteq> s"
    if "0x14000000 \<le> unat s" for s sz k
    using assms that le [OF that, of k] in_block_above by (auto simp: word_le_nat_alt)
  show "uart_match rp a = None" "spi_match rp a = None" "i2c_match a = None" "pio_match a = None"
    "\<not> pwm_match rp a" "\<not> dma_match a" "\<not> usb_match a" "\<not> rtc_match a" "\<not> io_qspi_match a" "\<not> pads_qspi_match rp a"
    "\<not> busctrl_match a" "\<not> vreg_match a" "\<not> syscfg_match a" "\<not> tbman_match a" "\<not> sha256_match a"
    "\<not> hstx_match a" "\<not> trng_match a" "\<not> ticks_match a" "\<not> rp2350_periph_match a" "\<not> gpio_bus_match rp a"
    "\<not> is_clocks_addr rp a" "\<not> is_adc_addr rp a" "\<not> rp2350_timer_addr a m"
    by (simp_all add: b Let_def pads_qspi_active_base_def uart_match_def spi_match_def i2c_match_def pio_match_def pwm_match_def dma_match_def
        usb_match_def rtc_match_def io_qspi_match_def pads_qspi_match_def busctrl_match_def vreg_match_def
        syscfg_match_def tbman_match_def sha256_match_def hstx_match_def trng_match_def ticks_match_def
        rp2350_periph_match_def gpio_bus_match_def io_bank0_active_base_def io_bank0_active_size_def
        pads_bank0_active_base_def pads_bank0_active_size_def is_clocks_addr_def clocks_block_2040_def
        clocks_block_2350_def is_adc_addr_def rp2350_timer_addr_def)
qed

text \<open>C36. ROM and flash cannot be written by the guest: a store of any width below 0x14000000, where the ROM, its
  alias of the RP2350 at 0x08000000, the whole of the flash and its uncached windows lie, leaves the machine as
  it is, apart from the other core's reservation.\<close>

theorem rom_flash_protected:
  assumes "ram_ready (m_bus m)"
    and "a < 0x14000000"
  shows "let m' = arm_excl_observe_store (int (get_active_core m)) a m in
    mem_write32 dv a v32 m = m' \<and> mem_write16 dv a v16 m = m' \<and> mem_write8 dv a v8 m = m'"
proof -
  define m' where "m' = arm_excl_observe_store (int (get_active_core m)) a m"
  have low: "unat a < 0x14000000"
    using assms(2) by (simp add: word_less_nat_alt)
  have t: "sram_alias_translate a = a"
    using low by (simp add: sram_alias_translate_def in_block_def word_le_nat_alt)
  have ram: "\<not> in_active_ram a (m_bus m')"
    using assms(1) low observe_store_frame [of m "int (get_active_core m)" a]
    by (simp add: m'_def in_active_ram_def ram_ready_def in_block_above)
  have b: "\<not> in_block a s sz" if "0x14000000 \<le> unat s" for s sz
    using low that by (intro in_block_above) linarith
  note none = no_peripheral_below [OF low] ram b
  have "write32_system dv a v32 m' = m'"
    unfolding write32_system_def Let_def by (simp add: none)
  then have "write32_ports dv a v32 m' = m'"
    unfolding write32_ports_def Let_def by (simp add: none)
  then have "write32_core dv a v32 m' = m'"
    unfolding write32_core_def Let_def by (simp add: none)
  then have "write32_routed dv a v32 m' = m'"
    unfolding write32_routed_def Let_def by (simp add: none)
  moreover have "write16_routed dv a v16 m' = m'"
    by (simp add: write16_routed_def write16_ports_def none Let_def)
  moreover have "write8_routed dv a v8 m' = m'"
    by (simp add: write8_routed_def write8_ports_def none Let_def)
  ultimately show ?thesis
    unfolding Let_def mem_write32_def mem_write16_def mem_write8_def t m'_def [symmetric] by simp
qed

theorem rom_flash_protected_witness:
  "mem_write32 no_devices 0x10000100 0 (emu_boot False) = emu_boot False"
proof -
  have "arm_excl_observe_store (int (get_active_core (emu_boot False))) 0x10000100 (emu_boot False) = emu_boot False"
    by (simp add: arm_excl_observe_store_def emu_boot_def mach_boot_def)
  moreover have "ram_ready (m_bus (emu_boot False))"
    by (simp add: emu_boot_def mach_boot_def bus_boot_def ram_ready_def)
  ultimately show ?thesis
    using rom_flash_protected [of "emu_boot False" "0x10000100" no_devices 0 0 0] by (simp add: in_block_def Let_def)
qed

end
