(* ===== verification/Dma_Engine.thy ===== *)
theory Dma_Engine
  imports System
begin

unbundle bit_operations_syntax

text \<open>
  The transfers of the DMA controller of \<^verbatim>\<open>src/dma.c\<close>, on the memory bus: a trigger copies unit by
  unit through the accesses of the bus and then starts the chained channel. A transfer may write to
  the controller itself, so the routine is recursive through the bus; the recursion depth is a
  parameter of the model. For transfers between RAM and RAM a depth of 17 is shown to be enough and the effect
  is shown to be a copy of memory.
\<close>

section \<open>Transfers\<close>

definition dma_unit :: "('d, 'e, 'x) emu devices \<Rightarrow> u32 \<Rightarrow> bool \<Rightarrow> u32 \<Rightarrow> u32 \<Rightarrow> ('d, 'e, 'x) emu \<Rightarrow> ('d, 'e, 'x) emu" where
  "dma_unit dv sz swap src dst m =
     (if sz = 0 then (let (v, m1) = mem_read8 dv src m in mem_write8 dv dst v m1)
      else if sz = 1 then (let (v, m1) = mem_read16 dv src m in mem_write16 dv dst (if swap then bswap16 v else v) m1)
      else (let (v, m1) = mem_read32 dv src m in mem_write32 dv dst (if swap then bswap32 v else v) m1))"

primrec dma_loop :: "('d, 'e, 'x) emu devices \<Rightarrow> u32 \<Rightarrow> bool \<Rightarrow> bool \<Rightarrow> bool \<Rightarrow> nat \<Rightarrow> u32 \<Rightarrow> u32 \<Rightarrow>
    ('d, 'e, 'x) emu \<Rightarrow> u32 \<times> u32 \<times> ('d, 'e, 'x) emu" where
  "dma_loop dv sz swap incr_read incr_write 0 src dst m = (src, dst, m)"
| "dma_loop dv sz swap incr_read incr_write (Suc n) src dst m =
     dma_loop dv sz swap incr_read incr_write n (if incr_read then src + dma_step sz else src)
       (if incr_write then dst + dma_step sz else dst) (dma_unit dv sz swap src dst m)"

definition upd_dma :: "(dma_state \<Rightarrow> dma_state) \<Rightarrow> ('d, 'e, 'x) emu \<Rightarrow> ('d, 'e, 'x) emu" where
  "upd_dma f = upd_bus (\<lambda>b. b\<lparr>b_dma := f (b_dma b)\<rparr>)"

text \<open>One activation of the transfer routine, with the routine for the chained channel as \<open>tr\<close>. The
  routine keeps the counts and addresses it started with, but looks at the control register again
  after the copy, which may have changed it.\<close>

definition dma_run :: "('d, 'e, 'x) emu devices \<Rightarrow> (nat \<Rightarrow> ('d, 'e, 'x) emu \<Rightarrow> ('d, 'e, 'x) emu) \<Rightarrow> nat \<Rightarrow>
    ('d, 'e, 'x) emu \<Rightarrow> ('d, 'e, 'x) emu" where
  "dma_run dv tr ch m =
     (let c = dm_ch (b_dma (m_bus m)) ch; ctrl = dc_ctrl c; rp = rp2350 m; count = dma_count rp c in
      if ctrl AND 1 = 0 then m
      else if count = 0 then m
      else let (src, dst, m1) = dma_loop dv (dma_size ctrl) (dma_bswap rp ctrl) (dma_incr_read ctrl)
                                  (dma_incr_write rp ctrl) (unat count) (dc_read_addr c) (dc_write_addr c) m;
               (s, nv) = dma_complete rp ch src dst (b_dma (m_bus m1), m_nv m1);
               m2 = upd_dma (\<lambda>_. s) (m1\<lparr>m_nv := nv\<rparr>);
               chain_to = dma_chain_to rp (dc_ctrl (dm_ch s ch))
           in if chain_to \<noteq> ch \<and> chain_to < 16 then tr chain_to m2 else m2)"

text \<open>A register write, with the transfer routine it may trigger as \<open>tr\<close>.\<close>

definition dma_write32 :: "(nat \<Rightarrow> ('d, 'e, 'x) emu \<Rightarrow> ('d, 'e, 'x) emu) \<Rightarrow> u32 \<Rightarrow> u32 \<Rightarrow>
    ('d, 'e, 'x) emu \<Rightarrow> ('d, 'e, 'x) emu" where
  "dma_write32 tr offset val m =
     (if offset < 0x400 then
        (let (ch, f, is_trigger) = dma_channel_of offset; m1 = upd_dma (ch_field_set (rp2350 m) ch f val) m
         in if is_trigger then tr ch m1 else m1)
      else if offset = 0x430 then fold (\<lambda>i m. if val AND shl 1 i \<noteq> 0 then tr i m else m) [0..<16] m
      else upd_dma (dma_global_write offset val) m)"

text \<open>The transfer routine calls itself for the chained channel, and through the bus when a transfer
  writes to a trigger register of the controller. The depth of these calls is bounded by \<open>fuel\<close>; at
  depth 0 the model only records that it stopped.\<close>

fun dma_do_transfer :: "nat \<Rightarrow> ('d, 'e, 'x) emu devices \<Rightarrow> nat \<Rightarrow> ('d, 'e, 'x) emu \<Rightarrow> ('d, 'e, 'x) emu" where
  "dma_do_transfer 0 dv ch m = upd_dma (\<lambda>s. s\<lparr>dm_stuck := True\<rparr>) m"
| "dma_do_transfer (Suc fuel) dv ch m =
     dma_run (dv\<lparr>dv_dma_write32 := dma_write32 (dma_do_transfer fuel dv)\<rparr>) (dma_do_transfer fuel dv) ch m"

text \<open>The devices with the modelled DMA controller among them.\<close>

definition with_dma :: "nat \<Rightarrow> ('d, 'e, 'x) emu devices \<Rightarrow> ('d, 'e, 'x) emu devices" where
  "with_dma fuel dv = dv\<lparr>dv_dma_write32 := dma_write32 (dma_do_transfer fuel dv)\<rparr>"

section \<open>Transfers between RAM and RAM\<close>

text \<open>What one unit does to the bytes of memory.\<close>

definition unit_mem :: "u32 \<Rightarrow> bool \<Rightarrow> nat \<Rightarrow> nat \<Rightarrow> (nat \<Rightarrow> u8) \<Rightarrow> nat \<Rightarrow> u8" where
  "unit_mem sz swap so d mem =
     (if sz = 0 then mem(d := mem so)
      else if sz = 1 then wr16 mem d (if swap then bswap16 (rd16 mem so) else rd16 mem so)
      else wr32 mem d (if swap then bswap32 (rd32 mem so) else rd32 mem so))"

lemma read_ram_narrow:
  assumes "ram_word a (m_bus m)"
  shows "mem_read8 dv a m = (get_ram (m_bus m) (ram_offset a (m_bus m)), m)"
    "mem_read16 dv a m = (rd16 (get_ram (m_bus m)) (ram_offset a (m_bus m)), m)"
  using assms ram_not_code_elsewhere [OF assms] ram_word_canonical [OF assms]
  by (simp_all add: mem_read8_def mem_read16_def Let_def in_rom_alias_def ram_word_def)

lemma write_ram_narrow:
  assumes "ram_word a (m_bus m)"
  shows "mem_write8 dv a v8 m = ram_changed a ((get_ram (m_bus m))(ram_offset a (m_bus m) := v8))
      (arm_excl_observe_store (int (get_active_core m)) a m)"
    "mem_write16 dv a v16 m = ram_changed a (wr16 (get_ram (m_bus m)) (ram_offset a (m_bus m)) v16)
      (arm_excl_observe_store (int (get_active_core m)) a m)"
  using assms ram_not_code_elsewhere [OF assms] ram_word_canonical [OF assms] observe_store_frame [of m]
  by (simp_all add: mem_write8_def mem_write16_def write8_routed_def write16_routed_def Let_def)
    (simp_all add: ram_word_def)

lemma dma_unit_ram:
  assumes "ram_word src (m_bus m)" "ram_word dst (m_bus m)"
  shows "dma_unit dv sz swap src dst m =
    ram_changed dst (unit_mem sz swap (ram_offset src (m_bus m)) (ram_offset dst (m_bus m)) (get_ram (m_bus m)))
      (arm_excl_observe_store (int (get_active_core m)) dst m)"
  using observe_store_frame [of m]
  by (simp add: dma_unit_def unit_mem_def read_ram_narrow [OF assms(1)] read_ram_word [OF assms(1)]
      write_ram_narrow [OF assms(2)] write_ram_word [OF assms(2)] ram_write32_def ram_rd_def)

text \<open>Steps that change nothing but the contents of RAM, the reservations and the code caches.\<close>

definition ram_only :: "('d, 'e, 'x) emu \<Rightarrow> ('d, 'e, 'x) emu \<Rightarrow> bool" where
  "ram_only m m' \<longleftrightarrow> same_but_bus m m' \<and> m_bus m' = set_ram (get_ram (m_bus m')) (m_bus m)"

lemma set_ram_set_ram [simp]: "set_ram x (set_ram y b) = set_ram x b"
  by (simp add: set_ram_def split: ram_ptr.split)

lemma set_ram_same [simp]: "set_ram (get_ram b) b = b"
  by (simp add: set_ram_def get_ram_def split: ram_ptr.split)

lemma ram_only_refl [simp]: "ram_only m m"
  by (simp add: ram_only_def)

lemma ram_only_trans: "ram_only a b \<Longrightarrow> ram_only b c \<Longrightarrow> ram_only a c"
  unfolding ram_only_def using same_but_bus_trans by (metis set_ram_set_ram)

lemma b_dma_set_ram [simp]: "b_dma (set_ram mem b) = b_dma b"
  by (simp add: set_ram_def split: ram_ptr.split)

lemma ram_only_bus:
  assumes "ram_only m m'"
  shows "ram_word a (m_bus m') = ram_word a (m_bus m)" "ram_offset a (m_bus m') = ram_offset a (m_bus m)"
    "b_dma (m_bus m') = b_dma (m_bus m)" "m_nv m' = m_nv m" "m_cpu m' = m_cpu m" "m_cores m' = m_cores m"
proof -
  have "m_bus m' = set_ram (get_ram (m_bus m')) (m_bus m)" using assms by (simp add: ram_only_def)
  then obtain mem where b: "m_bus m' = set_ram mem (m_bus m)" by blast
  show "ram_word a (m_bus m') = ram_word a (m_bus m)" "ram_offset a (m_bus m') = ram_offset a (m_bus m)"
    "b_dma (m_bus m') = b_dma (m_bus m)"
    by (simp_all add: b ram_word_def)
  show "m_nv m' = m_nv m" "m_cpu m' = m_cpu m" "m_cores m' = m_cores m"
    using assms same_but_bus_fields [of m m'] by (simp_all add: ram_only_def)
qed

lemma dma_unit_ram_only:
  assumes "ram_word src (m_bus m)" "ram_word dst (m_bus m)"
  shows "ram_only m (dma_unit dv sz swap src dst m)"
    "get_ram (m_bus (dma_unit dv sz swap src dst m)) =
       unit_mem sz swap (ram_offset src (m_bus m)) (ram_offset dst (m_bus m)) (get_ram (m_bus m))"
  using observe_store_frame [of m]
    same_but_bus_trans [OF conjunct1 [OF observe_store_frame [of m]] ram_changed_frame(1)]
  by (simp_all add: dma_unit_ram [OF assms] ram_only_def ram_changed_frame(2))

text \<open>The \<open>i\<close>-th address of a transfer, and transfers all of whose addresses are in RAM.\<close>

definition dma_addr :: "bool \<Rightarrow> u32 \<Rightarrow> u32 \<Rightarrow> nat \<Rightarrow> u32" where
  "dma_addr incr st a i = (if incr then a + of_nat i * st else a)"

lemma dma_addr_Suc: "dma_addr incr st (if incr then a + st else a) i = dma_addr incr st a (Suc i)"
  by (simp add: dma_addr_def algebra_simps)

lemma dma_addr_0 [simp]: "dma_addr incr st a 0 = a"
  by (simp add: dma_addr_def)

lemma dma_loop_ram:
  assumes "\<forall>i < n. ram_word (dma_addr ir (dma_step sz) src i) (m_bus m) \<and> ram_word (dma_addr iw (dma_step sz) dst i) (m_bus m)"
  shows "\<exists>m'. (\<forall>dv. dma_loop dv sz swap ir iw n src dst m =
      (dma_addr ir (dma_step sz) src n, dma_addr iw (dma_step sz) dst n, m')) \<and> ram_only m m' \<and>
    get_ram (m_bus m') = fold (\<lambda>i. unit_mem sz swap (ram_offset (dma_addr ir (dma_step sz) src i) (m_bus m))
      (ram_offset (dma_addr iw (dma_step sz) dst i) (m_bus m))) [0..<n] (get_ram (m_bus m))"
  using assms
proof (induction n arbitrary: src dst m)
  case (Suc n)
  let ?st = "dma_step sz"
  let ?src = "if ir then src + ?st else src" and ?dst = "if iw then dst + ?st else dst"
  have r: "ram_word src (m_bus m)" "ram_word dst (m_bus m)"
    using Suc.prems [rule_format, of 0] by simp_all
  define m1 where "m1 = dma_unit undefined sz swap src dst m"
  have m1: "dma_unit dv sz swap src dst m = m1" for dv by (simp add: m1_def dma_unit_ram [OF r])
  have o: "ram_only m m1" unfolding m1_def by (rule dma_unit_ram_only [OF r])
  have "\<forall>i < n. ram_word (dma_addr ir ?st ?src i) (m_bus m1) \<and> ram_word (dma_addr iw ?st ?dst i) (m_bus m1)"
    using Suc.prems unfolding dma_addr_Suc ram_only_bus(1) [OF o] by simp
  from Suc.IH [OF this] obtain m' where m': "\<forall>dv. dma_loop dv sz swap ir iw n ?src ?dst m1 =
      (dma_addr ir ?st src (Suc n), dma_addr iw ?st dst (Suc n), m')" "ram_only m1 m'"
    "get_ram (m_bus m') = fold (\<lambda>i. unit_mem sz swap (ram_offset (dma_addr ir ?st src (Suc i)) (m_bus m))
      (ram_offset (dma_addr iw ?st dst (Suc i)) (m_bus m))) [0..<n] (get_ram (m_bus m1))"
    unfolding dma_addr_Suc ram_only_bus(2) [OF o] by blast
  have f: "[0..<Suc n] = 0 # map Suc [0..<n]" by (simp add: upt_conv_Cons map_Suc_upt del: upt_Suc)
  have g: "get_ram (m_bus m1) = unit_mem sz swap (ram_offset src (m_bus m)) (ram_offset dst (m_bus m)) (get_ram (m_bus m))"
    unfolding m1_def by (rule dma_unit_ram_only [OF r])
  show ?case
    using m' ram_only_trans [OF o m'(2)] by (intro exI [of _ m']) (simp add: m1 f g fold_map comp_def del: upt_Suc)
qed simp

section \<open>Chains end\<close>

definition ram_job :: "bool \<Rightarrow> dma_channel \<Rightarrow> ('d, 'e, 'x) bus \<Rightarrow> bool" where
  "ram_job rp c b \<longleftrightarrow> (let ctrl = dc_ctrl c; st = dma_step (dma_size ctrl) in
     \<forall>i < unat (dma_count rp c). ram_word (dma_addr (dma_incr_read ctrl) st (dc_read_addr c) i) b \<and>
       ram_word (dma_addr (dma_incr_write rp ctrl) st (dc_write_addr c) i) b)"

definition dma_pending :: "bool \<Rightarrow> dma_state \<Rightarrow> nat set" where
  "dma_pending rp s = {c. c < 16 \<and> dma_count rp (dm_ch s c) \<noteq> 0}"

definition dma_active :: "bool \<Rightarrow> dma_channel \<Rightarrow> bool" where
  "dma_active rp c \<longleftrightarrow> dc_ctrl c AND 1 \<noteq> 0 \<and> dma_count rp c \<noteq> 0"

lemma upd_dma_simps [simp]:
  "b_dma (m_bus (upd_dma f m)) = f (b_dma (m_bus m))" "m_nv (upd_dma f m) = m_nv m"
  "get_ram (m_bus (upd_dma f m)) = get_ram (m_bus m)" "ram_word a (m_bus (upd_dma f m)) = ram_word a (m_bus m)"
  "m_cpu (upd_dma f m) = m_cpu m" "m_cores (upd_dma f m) = m_cores m"
  by (simp_all add: upd_dma_def upd_bus_def get_ram_def ram_word_def ram_ready_def in_active_ram_def split: ram_ptr.split)

text \<open>One activation on a RAM transfer: the memory is copied unit by unit, the registers of the channel
  show the end of the transfer, and the chained channel follows.\<close>

lemma dma_run_ram:
  assumes act: "dma_active (rp2350 m) (dm_ch (b_dma (m_bus m)) ch)"
    and job: "ram_job (rp2350 m) (dm_ch (b_dma (m_bus m)) ch) (m_bus m)"
  defines "c \<equiv> dm_ch (b_dma (m_bus m)) ch"
  defines "n \<equiv> unat (dma_count (rp2350 m) c)" and "st \<equiv> dma_step (dma_size (dc_ctrl c))"
  defines "src \<equiv> dma_addr (dma_incr_read (dc_ctrl c)) st (dc_read_addr c)"
    and "dst \<equiv> dma_addr (dma_incr_write (rp2350 m) (dc_ctrl c)) st (dc_write_addr c)"
  shows "\<exists>m2. (\<forall>dv tr. dma_run dv tr ch m =
      (let chain_to = dma_chain_to (rp2350 m) (dc_ctrl c) in
       if chain_to \<noteq> ch \<and> chain_to < 16 then tr chain_to m2 else m2)) \<and>
    (b_dma (m_bus m2), m_nv m2) = dma_complete (rp2350 m) ch (src n) (dst n) (b_dma (m_bus m), m_nv m) \<and>
    get_ram (m_bus m2) = fold (\<lambda>i. unit_mem (dma_size (dc_ctrl c)) (dma_bswap (rp2350 m) (dc_ctrl c))
      (ram_offset (src i) (m_bus m)) (ram_offset (dst i) (m_bus m))) [0..<n] (get_ram (m_bus m)) \<and>
    (\<forall>a. ram_word a (m_bus m2) = ram_word a (m_bus m)) \<and> m_cpu m2 = m_cpu m \<and> m_cores m2 = m_cores m"
proof -
  let ?rp = "rp2350 m" and ?sz = "dma_size (dc_ctrl c)"
  have "\<forall>i < n. ram_word (src i) (m_bus m) \<and> ram_word (dst i) (m_bus m)"
    using job by (simp add: ram_job_def Let_def src_def dst_def st_def n_def c_def)
  from dma_loop_ram [where swap = "dma_bswap ?rp (dc_ctrl c)", OF this [unfolded src_def dst_def st_def]]
  obtain m1 where m1: "\<And>dv. dma_loop dv ?sz (dma_bswap ?rp (dc_ctrl c)) (dma_incr_read (dc_ctrl c))
        (dma_incr_write ?rp (dc_ctrl c)) n (dc_read_addr c) (dc_write_addr c) m = (src n, dst n, m1)"
      "ram_only m m1"
      "get_ram (m_bus m1) = fold (\<lambda>i. unit_mem ?sz (dma_bswap ?rp (dc_ctrl c))
        (ram_offset (src i) (m_bus m)) (ram_offset (dst i) (m_bus m))) [0..<n] (get_ram (m_bus m))"
    unfolding src_def dst_def st_def by blast
  obtain s nv where sn: "dma_complete ?rp ch (src n) (dst n) (b_dma (m_bus m), m_nv m) = (s, nv)" by fastforce
  have "dm_ch s ch = c\<lparr>dc_read_addr := src n, dc_write_addr := dst n, dc_trans_count := 0\<rparr>"
    using dma_complete_channels(1) [of ?rp ch "src n" "dst n" "b_dma (m_bus m)" "m_nv m"] by (simp add: sn c_def)
  then have ctrl: "dc_ctrl (dm_ch s ch) = dc_ctrl c" by simp
  define m2 where "m2 = upd_dma (\<lambda>_. s) (m1\<lparr>m_nv := nv\<rparr>)"
  have "dma_run dv tr ch m = (let chain_to = dma_chain_to ?rp (dc_ctrl c) in
       if chain_to \<noteq> ch \<and> chain_to < 16 then tr chain_to m2 else m2)" for dv tr
    using act unfolding dma_run_def dma_active_def
    by (simp add: Let_def m1(1) ctrl m2_def sn ram_only_bus [OF m1(2)] flip: c_def n_def)
  moreover have "(b_dma (m_bus m2), m_nv m2) = (s, nv)" by (simp add: m2_def)
  moreover have "ram_word a (m_bus m2) = ram_word a (m_bus m)" for a
    using ram_only_bus [OF m1(2)] by (simp add: m2_def)
  ultimately show ?thesis
    using m1(3) ram_only_bus [OF m1(2)] unfolding sn by (intro exI [of _ m2]) (simp add: m2_def)
qed

lemma dma_complete_rp: "membus_rp2350_mode (snd (dma_complete rp ch src dst (s, nv))) = membus_rp2350_mode nv"
  by (simp add: dma_complete_def dma_raise_def Let_def)

lemma dma_run_idle: "\<not> dma_active (rp2350 m) (dm_ch (b_dma (m_bus m)) ch) \<Longrightarrow> dma_run dv tr ch m = m"
  by (auto simp: dma_run_def dma_active_def Let_def)

lemma dma_chain_bounded:
  assumes "\<forall>c < 16. ram_job (rp2350 m) (dm_ch (b_dma (m_bus m)) c) (m_bus m)" "ch < 16"
    and "card (dma_pending (rp2350 m) (b_dma (m_bus m))) \<le> k"
  shows "\<exists>m'. (\<forall>j > k. \<forall>dv. dma_do_transfer j dv ch m = m') \<and> dm_stuck (b_dma (m_bus m')) = dm_stuck (b_dma (m_bus m)) \<and>
    dma_pending (rp2350 m) (b_dma (m_bus m')) \<subseteq> dma_pending (rp2350 m) (b_dma (m_bus m))"
  using assms
proof (induction k arbitrary: ch m)
  case (0 ch m)
  have "finite (dma_pending (rp2350 m) (b_dma (m_bus m)))" by (simp add: dma_pending_def)
  then have "dma_count (rp2350 m) (dm_ch (b_dma (m_bus m)) ch) = 0"
    using 0 by (auto simp: dma_pending_def)
  then have "dma_run dv tr ch m = m" for dv tr by (intro dma_run_idle) (simp add: dma_active_def)
  then have "dma_do_transfer j dv ch m = m" if "j > 0" for j dv
    using that by (cases j) simp_all
  then show ?case by (intro exI [of _ m]) simp
next
  case (Suc k ch m)
  let ?rp = "rp2350 m" and ?s = "b_dma (m_bus m)"
  show ?case
  proof (cases "dma_active ?rp (dm_ch ?s ch)")
    case False
    then have "dma_do_transfer j dv ch m = m" if "j > Suc k" for j dv
      using that by (cases j) (simp_all add: dma_run_idle)
    then show ?thesis by (intro exI [of _ m]) simp
  next
    case True
    obtain m2 src dst where m2: "\<And>dv tr. dma_run dv tr ch m =
        (let chain_to = dma_chain_to ?rp (dc_ctrl (dm_ch ?s ch)) in
         if chain_to \<noteq> ch \<and> chain_to < 16 then tr chain_to m2 else m2)"
        "(b_dma (m_bus m2), m_nv m2) = dma_complete ?rp ch src dst (?s, m_nv m)"
        "\<And>a. ram_word a (m_bus m2) = ram_word a (m_bus m)"
      using dma_run_ram [OF True] Suc.prems(1,2) by blast
    let ?c' = "(dm_ch ?s ch)\<lparr>dc_read_addr := src, dc_write_addr := dst, dc_trans_count := 0\<rparr>"
    have s2: "dm_ch (b_dma (m_bus m2)) = (dm_ch ?s)(ch := ?c')" "dm_stuck (b_dma (m_bus m2)) = dm_stuck ?s"
      using dma_complete_channels [of ?rp ch src dst ?s "m_nv m"] by (simp_all flip: m2(2))
    have rp: "rp2350 m2 = ?rp" using dma_complete_rp [of ?rp ch src dst ?s "m_nv m"] by (simp flip: m2(2))
    have z: "dma_count ?rp ?c' = 0" by (simp add: dma_count_def)
    have p: "dma_pending ?rp (b_dma (m_bus m2)) = dma_pending ?rp ?s - {ch}"
      using z by (auto simp: dma_pending_def s2)
    have "ch \<in> dma_pending ?rp ?s" using True Suc.prems(2) by (simp add: dma_pending_def dma_active_def)
    moreover have "finite (dma_pending ?rp ?s)" by (simp add: dma_pending_def)
    ultimately have card: "card (dma_pending ?rp (b_dma (m_bus m2))) \<le> k" using Suc.prems(3) by (simp add: p)
    have jobs: "\<forall>c < 16. ram_job ?rp (dm_ch (b_dma (m_bus m2)) c) (m_bus m2)"
      using Suc.prems(1) z by (auto simp: s2 ram_job_def m2(3) Let_def)
    define cn where "cn = dma_chain_to ?rp (dc_ctrl (dm_ch ?s ch))"
    show ?thesis
    proof (cases "cn \<noteq> ch \<and> cn < 16")
      case True
      obtain m' where m': "\<forall>j > k. \<forall>dv. dma_do_transfer j dv cn m2 = m'"
          "dm_stuck (b_dma (m_bus m')) = dm_stuck (b_dma (m_bus m2))"
          "dma_pending ?rp (b_dma (m_bus m')) \<subseteq> dma_pending ?rp (b_dma (m_bus m2))"
        using Suc.IH [of m2 cn] jobs card True unfolding rp by blast
      have "dma_do_transfer j dv ch m = m'" if "j > Suc k" for j dv
        using that True m'(1) by (cases j) (simp_all add: m2(1) flip: cn_def)
      then show ?thesis using m'(2,3) p s2 by (intro exI [of _ m']) auto
    next
      case False
      have "dma_do_transfer j dv ch m = m2" if "j > Suc k" for j dv
        using that False by (cases j) (auto simp: m2(1) simp flip: cn_def)
      then show ?thesis using p s2 by (intro exI [of _ m2]) auto
    qed
  qed
qed

text \<open>C17. A chain of transfers between RAM and RAM ends, however the channels are chained to each other:
  a finished channel has a count of 0 and does nothing when the chain comes back to it. Seventeen
  nested calls are enough for sixteen channels, and a deeper bound gives the same machine.\<close>

theorem dma_chain_terminates:
  assumes "\<forall>c < 16. ram_job (rp2350 m) (dm_ch (b_dma (m_bus m)) c) (m_bus m)" "ch < 16"
    and "\<not> dm_stuck (b_dma (m_bus m))"
  shows "\<not> dm_stuck (b_dma (m_bus (dma_do_transfer 17 dv ch m))) \<and>
    (\<forall>k \<ge> 17. dma_do_transfer k dv ch m = dma_do_transfer 17 dv ch m)"
proof -
  have "dma_pending (rp2350 m) (b_dma (m_bus m)) \<subseteq> {..<16}" by (auto simp: dma_pending_def)
  then have "card (dma_pending (rp2350 m) (b_dma (m_bus m))) \<le> 16"
    using card_mono [of "{..<16 :: nat}"] by fastforce
  from dma_chain_bounded [OF assms(1,2) this] obtain m' where
    "\<And>j dv. j > 16 \<Longrightarrow> dma_do_transfer j dv ch m = m'" "dm_stuck (b_dma (m_bus m')) = dm_stuck (b_dma (m_bus m))"
    by blast
  then show ?thesis using assms(3) by simp
qed

section \<open>Copying memory\<close>

text \<open>What a transfer with both increments does to the bytes of memory: the destination shows the
  source, each unit reversed if bytes are swapped.\<close>

definition dma_image :: "bool \<Rightarrow> nat \<Rightarrow> nat \<Rightarrow> nat \<Rightarrow> nat \<Rightarrow> (nat \<Rightarrow> u8) \<Rightarrow> nat \<Rightarrow> u8" where
  "dma_image swap st n so d mem j =
     (if d \<le> j \<and> j < d + n * st then
        mem (so + (if swap then (j - d) div st * st + (st - 1 - (j - d) mod st) else j - d))
      else mem j)"

lemma bytes_rd16: "ucast (rd16 mem i) = mem i" "ucast (shr (rd16 mem i) 8) = mem (i + 1)"
  by (rule bit_word_eqI, auto simp: rd16_def bit_simps dest: bit_imp_le_length)+

lemma bytes_rd32:
  "ucast (rd32 mem i) = mem i" "ucast (shr (rd32 mem i) 8) = mem (i + 1)"
  "ucast (shr (rd32 mem i) 16) = mem (i + 2)" "ucast (shr (rd32 mem i) 24) = mem (i + 3)"
  by (rule bit_word_eqI, auto simp: rd32_def bit_simps dest: bit_imp_le_length)+

lemma bytes_bswap16: "(ucast (bswap16 v) :: u8) = ucast (shr v 8)" "(ucast (shr (bswap16 v) 8) :: u8) = ucast v"
  by (rule bit_word_eqI, auto simp: bswap16_def bit_simps dest: bit_imp_le_length)+

lemma bytes_bswap32:
  "(ucast (bswap32 v) :: u8) = ucast (shr v 24)" "(ucast (shr (bswap32 v) 8) :: u8) = ucast (shr v 16)"
  "(ucast (shr (bswap32 v) 16) :: u8) = ucast (shr v 8)" "(ucast (shr (bswap32 v) 24) :: u8) = ucast v"
proof -
  have m: "(0xFF :: u32) = mask 8" "(0xFF00 :: u32) = push_bit 8 (mask 8)"
    "(0xFF0000 :: u32) = push_bit 16 (mask 8)" "(0xFF000000 :: u32) = push_bit 24 (mask 8)"
    by (simp_all add: mask_eq_exp_minus_1)
  show "(ucast (bswap32 v) :: u8) = ucast (shr v 24)" "(ucast (shr (bswap32 v) 8) :: u8) = ucast (shr v 16)"
    "(ucast (shr (bswap32 v) 16) :: u8) = ucast (shr v 8)" "(ucast (shr (bswap32 v) 24) :: u8) = ucast v"
    unfolding bswap32_def m
    by (rule bit_word_eqI, auto simp: bit_simps simp del: push_bit_mask_eq dest: bit_imp_le_length)+
qed

lemma less_2_4: "(j :: nat) < d + 2 \<Longrightarrow> d \<le> j \<Longrightarrow> j = d \<or> j = d + 1"
  "(j :: nat) < d + 4 \<Longrightarrow> d \<le> j \<Longrightarrow> j = d \<or> j = d + 1 \<or> j = d + 2 \<or> j = d + 3"
  by linarith+

lemma unit_mem_bytes:
  "unit_mem sz swap so d mem j =
     (let st = unat (dma_step sz) in
      if d \<le> j \<and> j < d + st then mem (so + (if swap then st - 1 - (j - d) else j - d)) else mem j)"
  by (auto simp: unit_mem_def dma_step_def wr16_def wr32_def bytes_rd16 bytes_rd32 bytes_bswap16 bytes_bswap32 Let_def
      dest!: less_2_4)

lemma unit_mem_images:
  assumes "st = unat (dma_step sz)" "so + n * st \<le> d \<or> d + n * st \<le> so"
  shows "fold (\<lambda>i. unit_mem sz swap (so + i * st) (d + i * st)) [0..<n] mem = dma_image swap st n so d mem"
  using assms(2)
proof (induction n)
  case (Suc n)
  have st: "0 < st" by (simp add: assms(1) dma_step_def)
  define mem1 where "mem1 = dma_image swap st n so d mem"
  have r: "mem1 (so + k) = mem (so + k)" if "k < Suc n * st" for k
    using that Suc.prems by (auto simp: mem1_def dma_image_def)
  have "unit_mem sz swap (so + n * st) (d + n * st) mem1 j = dma_image swap st (Suc n) so d mem j" for j
  proof (cases "d + n * st \<le> j \<and> j < d + Suc n * st")
    case True
    define k where "k = j - (d + n * st)"
    have k: "j = d + n * st + k" "k < st" using True by (auto simp: k_def)
    have "(n * st + k) div st = n" "(n * st + k) mod st = k" using k st by simp_all
    then show ?thesis
      using k r [of "n * st + k"] r [of "n * st + (st - 1 - k)"] st
      by (simp add: unit_mem_bytes dma_image_def Let_def add.assoc flip: assms(1))
  next
    case False
    then show ?thesis by (auto simp: unit_mem_bytes dma_image_def mem1_def Let_def simp flip: assms(1))
  qed
  moreover have "fold (\<lambda>i. unit_mem sz swap (so + i * st) (d + i * st)) [0..<n] mem = mem1"
    unfolding mem1_def using Suc.prems by (intro Suc.IH) auto
  ultimately show ?case by (simp add: ext)
qed (auto simp: dma_image_def fun_eq_iff)

definition ram_span :: "u32 \<Rightarrow> nat \<Rightarrow> ('d, 'e, 'x) bus \<Rightarrow> bool" where
  "ram_span a len b \<longleftrightarrow> ram_ready b \<and> 0x20000000 \<le> unat a \<and>
     unat a + len \<le> 0x20000000 + unat (b_active_ram_size b)"

lemma ram_span_addr:
  assumes "ram_span a (n * unat st) b" "i < n" "0 < unat st"
  shows "ram_word (a + of_nat i * st) b" "ram_offset (a + of_nat i * st) b = ram_offset a b + i * unat st"
proof -
  have sz: "unat (b_active_ram_size b) \<le> 0x82000" "b_active_ram_base b = 0x20000000"
    using assms(1) by (auto simp: ram_span_def ram_ready_def)
  have le: "Suc i * unat st \<le> n * unat st" using assms(2) by (intro mult_right_mono) auto
  have i: "unat a + i * unat st < 0x20000000 + unat (b_active_ram_size b)"
    using assms(1,3) le by (simp add: ram_span_def)
  have "unat (a + of_nat (i * unat st)) = unat a + i * unat st"
    using i sz by (simp add: unat_word_ariths unat_of_nat_lt del: of_nat_mult)
  then have u: "unat (a + of_nat i * st) = unat a + i * unat st" by simp
  show w: "ram_word (a + of_nat i * st) b"
    using assms(1) i sz u
    by (simp add: ram_word_def ram_span_def in_active_ram_def in_block_def word_le_nat_alt word_less_nat_alt
        unat_word_ariths)
  have "ram_offset a b = unat a - 0x20000000"
    using assms(1) sz by (simp add: ram_span_def ram_offset_def unat_sub word_le_nat_alt)
  then show "ram_offset (a + of_nat i * st) b = ram_offset a b + i * unat st"
    using ram_offset_unat [OF w] u assms(1) by (simp add: ram_span_def)
qed

lemma dma_raise_pends:
  assumes "core < 2" "dma_raise ch (s, nv) = (s', nv')"
  shows "s' = s\<lparr>dm_intr := dm_intr s OR shl 1 ch\<rparr> \<and>
    (dm_inte0 s AND shl 1 ch \<noteq> 0 \<longrightarrow> irq_pending nv' core (unat (nvic_rp2350_irq nv 11))) \<and>
    (dm_inte1 s AND shl 1 ch \<noteq> 0 \<longrightarrow> irq_pending nv' core (unat (nvic_rp2350_irq nv 12)))"
proof -
  have p: "irq_pending (nvic_signal_rp2350_irq i c) core (unat (nvic_rp2350_irq nv i))"
    if "i < 32" "nvic_rp2350_irq c i = nvic_rp2350_irq nv i" for i c
    using nvl.signal_pends [OF rp2350_irq_lt [OF that(1), of c] assms(1), of c] that(2)
    by (simp add: nvic_signal_rp2350_irq_def)
  have k: "irq_pending c core l \<Longrightarrow> irq_pending (nvic_signal_rp2350_irq i c) core l" for i c l
    by (simp add: nvic_signal_rp2350_irq_def nvl.signal_mono)
  have t: "nvic_rp2350_irq (nvic_signal_rp2350_irq j c) i = nvic_rp2350_irq c i" for i j c
    by (simp add: nvic_rp2350_irq_def)
  show ?thesis
    using assms(2) p [of 11 nv] p [of 12 nv] p [of 12 "nvic_signal_rp2350_irq 11 nv"] k
    by (auto simp: dma_raise_def Let_def t split: if_splits)
qed

text \<open>C16. A DMA transfer between two regions of RAM that do not overlap is a memory copy, for every
  data size, with the bytes of each unit reversed on request: the destination holds what the source
  held, no other byte of RAM changes, the processor does not notice, the channel's registers point
  past the regions with a count of 0, and unless the channel is quiet its interrupt is raised on the
  lines it is enabled on. The chained channel, if any, is started on the result.\<close>

theorem dma_copies_memory:
  fixes m :: "('d, 'e, 'x) emu" and ch :: nat
  defines "rp \<equiv> rp2350 m" and "s \<equiv> b_dma (m_bus m)"
  defines "c \<equiv> dm_ch s ch"
  defines "ctrl \<equiv> dc_ctrl c" and "n \<equiv> unat (dma_count rp c)"
  defines "st \<equiv> unat (dma_step (dma_size ctrl))"
  assumes act: "dma_active rp c" and incr: "dma_incr_read ctrl" "dma_incr_write rp ctrl"
    and span: "ram_span (dc_read_addr c) (n * st) (m_bus m)" "ram_span (dc_write_addr c) (n * st) (m_bus m)"
    and apart: "unat (dc_read_addr c) + n * st \<le> unat (dc_write_addr c) \<or>
                unat (dc_write_addr c) + n * st \<le> unat (dc_read_addr c)"
  shows "\<exists>m2. dma_do_transfer (Suc k) dv ch m =
      (let chain_to = dma_chain_to rp ctrl in
       if chain_to \<noteq> ch \<and> chain_to < 16 then dma_do_transfer k dv chain_to m2 else m2) \<and>
    get_ram (m_bus m2) = dma_image (dma_bswap rp ctrl) st n (ram_offset (dc_read_addr c) (m_bus m))
      (ram_offset (dc_write_addr c) (m_bus m)) (get_ram (m_bus m)) \<and>
    dm_ch (b_dma (m_bus m2)) = (dm_ch s)(ch := c\<lparr>dc_read_addr := dc_read_addr c + of_nat (n * st),
      dc_write_addr := dc_write_addr c + of_nat (n * st), dc_trans_count := 0\<rparr>) \<and>
    m_cpu m2 = m_cpu m \<and> m_cores m2 = m_cores m \<and>
    (dma_quiet rp ctrl \<longrightarrow> dm_intr (b_dma (m_bus m2)) = dm_intr s \<and> m_nv m2 = m_nv m) \<and>
    (\<not> dma_quiet rp ctrl \<longrightarrow> dm_intr (b_dma (m_bus m2)) = dm_intr s OR shl 1 ch \<and>
      (\<forall>core < 2. (dm_inte0 s AND shl 1 ch \<noteq> 0 \<longrightarrow> irq_pending (m_nv m2) core (unat (nvic_rp2350_irq (m_nv m) 11))) \<and>
         (dm_inte1 s AND shl 1 ch \<noteq> 0 \<longrightarrow> irq_pending (m_nv m2) core (unat (nvic_rp2350_irq (m_nv m) 12)))))"
proof -
  let ?st = "dma_step (dma_size ctrl)" and ?so = "ram_offset (dc_read_addr c) (m_bus m)"
    and ?d = "ram_offset (dc_write_addr c) (m_bus m)"
  have st: "0 < unat ?st" by (simp add: dma_step_def)
  note rd = ram_span_addr [OF span(1) [unfolded st_def] _ st] and wr = ram_span_addr [OF span(2) [unfolded st_def] _ st]
  have job: "ram_job rp c (m_bus m)"
    using incr rd(1) wr(1) by (simp add: ram_job_def Let_def dma_addr_def n_def flip: ctrl_def)
  have off: "?so = unat (dc_read_addr c) - 0x20000000" "?d = unat (dc_write_addr c) - 0x20000000"
    using span by (simp_all add: ram_offset_def ram_span_def ram_ready_def unat_sub word_le_nat_alt)
  have sep: "?so + n * st \<le> ?d \<or> ?d + n * st \<le> ?so" using apart span unfolding off ram_span_def by linarith
  have o: "of_nat n * ?st = of_nat (n * st)" by (simp add: st_def)
  obtain m2 where m2: "\<And>dv tr. dma_run dv tr ch m = (let chain_to = dma_chain_to rp ctrl in
         if chain_to \<noteq> ch \<and> chain_to < 16 then tr chain_to m2 else m2)"
      "(b_dma (m_bus m2), m_nv m2) = dma_complete rp ch (dc_read_addr c + of_nat n * ?st)
         (dc_write_addr c + of_nat n * ?st) (s, m_nv m)"
      "get_ram (m_bus m2) = fold (\<lambda>i. unit_mem (dma_size ctrl) (dma_bswap rp ctrl)
         (ram_offset (dc_read_addr c + of_nat i * ?st) (m_bus m)) (ram_offset (dc_write_addr c + of_nat i * ?st) (m_bus m)))
         [0..<n] (get_ram (m_bus m))" "m_cpu m2 = m_cpu m" "m_cores m2 = m_cores m"
    using dma_run_ram [OF act [unfolded c_def s_def rp_def] job [unfolded c_def s_def rp_def]] incr
    unfolding dma_addr_def by (auto simp flip: c_def s_def rp_def ctrl_def n_def simp: Let_def)
  have "get_ram (m_bus m2) =
      fold (\<lambda>i. unit_mem (dma_size ctrl) (dma_bswap rp ctrl) (?so + i * st) (?d + i * st)) [0..<n] (get_ram (m_bus m))"
    unfolding m2(3) by (intro fold_cong) (simp_all add: rd(2) wr(2) st_def)
  then have mem: "get_ram (m_bus m2) = dma_image (dma_bswap rp ctrl) st n ?so ?d (get_ram (m_bus m))"
    by (simp add: unit_mem_images [OF st_def [THEN meta_eq_to_obj_eq] sep])
  let ?c' = "c\<lparr>dc_read_addr := dc_read_addr c + of_nat (n * st), dc_write_addr := dc_write_addr c + of_nat (n * st),
    dc_trans_count := 0\<rparr>"
  have fin: "(b_dma (m_bus m2), m_nv m2) =
      (if dma_quiet rp ctrl then (upd_ch ch (\<lambda>_. ?c') s, m_nv m) else dma_raise ch (upd_ch ch (\<lambda>_. ?c') s, m_nv m))"
    unfolding m2(2) o by (simp add: dma_complete_def upd_ch_def c_def ctrl_def Let_def)
  have raise: "(dm_inte0 s AND shl 1 ch \<noteq> 0 \<longrightarrow> irq_pending (m_nv m2) core (unat (nvic_rp2350_irq (m_nv m) 11))) \<and>
      (dm_inte1 s AND shl 1 ch \<noteq> 0 \<longrightarrow> irq_pending (m_nv m2) core (unat (nvic_rp2350_irq (m_nv m) 12)))"
    if "\<not> dma_quiet rp ctrl" "core < 2" for core
  proof -
    have "dma_raise ch (upd_ch ch (\<lambda>_. ?c') s, m_nv m) = (b_dma (m_bus m2), m_nv m2)" using fin that(1) by simp
    from dma_raise_pends [OF that(2) this] show ?thesis by (simp add: upd_ch_def)
  qed
  show ?thesis
  proof (intro exI [of _ m2] conjI impI allI)
    show "dma_do_transfer (Suc k) dv ch m = (let chain_to = dma_chain_to rp ctrl in
       if chain_to \<noteq> ch \<and> chain_to < 16 then dma_do_transfer k dv chain_to m2 else m2)"
      by (simp add: m2(1))
    show "dm_ch (b_dma (m_bus m2)) = (dm_ch s)(ch := ?c')"
      using fin by (auto simp: upd_ch_def dma_raise_def Let_def split: if_splits)
    show "dm_intr (b_dma (m_bus m2)) = dm_intr s OR shl 1 ch" if "\<not> dma_quiet rp ctrl"
      using fin that by (auto simp: upd_ch_def dma_raise_def Let_def)
    show "irq_pending (m_nv m2) core (unat (nvic_rp2350_irq (m_nv m) 11))"
      if "\<not> dma_quiet rp ctrl" "core < 2" "dm_inte0 s AND shl 1 ch \<noteq> 0" for core
      using raise [OF that(1,2)] that(3) by simp
    show "irq_pending (m_nv m2) core (unat (nvic_rp2350_irq (m_nv m) 12))"
      if "\<not> dma_quiet rp ctrl" "core < 2" "dm_inte1 s AND shl 1 ch \<noteq> 0" for core
      using raise [OF that(1,2)] that(3) by simp
    show "dm_intr (b_dma (m_bus m2)) = dm_intr s" "m_nv m2 = m_nv m" if "dma_quiet rp ctrl"
      using fin that by (simp_all add: upd_ch_def)
  qed (use mem m2(4,5) in simp_all)
qed

text \<open>Two words from \<^verbatim>\<open>0x20000000\<close> to \<^verbatim>\<open>0x20000100\<close> on channel 0 of an RP2040, chained to channel 1.\<close>

definition dma_demo :: "(unit, unit, unit) emu" where
  "dma_demo = upd_dma (upd_ch 0 (\<lambda>_. \<lparr>dc_read_addr = 0x20000000, dc_write_addr = 0x20000100, dc_trans_count = 2,
     dc_ctrl = 0x839\<rparr>)) (emu_boot False)"

lemma dma_demo_fields:
  "dm_ch (b_dma (m_bus dma_demo)) = (\<lambda>i. if i = 0 then \<lparr>dc_read_addr = 0x20000000, dc_write_addr = 0x20000100,
     dc_trans_count = 2, dc_ctrl = 0x839\<rparr> else dm_ch (dma_init False) i)"
  "\<not> rp2350 dma_demo" "ram_span 0x20000000 8 (m_bus dma_demo)" "ram_span 0x20000100 8 (m_bus dma_demo)"
  "dm_inte0 (b_dma (m_bus dma_demo)) = 0" "\<not> dm_stuck (b_dma (m_bus dma_demo))"
  by (auto simp: dma_demo_def emu_boot_def mach_boot_def bus_boot_def upd_ch_def dma_init_def ram_span_def ram_ready_def
      upd_dma_def upd_bus_def fun_eq_iff)

lemma dma_demo_ctrl:
  "dma_size 0x839 = 2" "dma_step 2 = 4" "dma_incr_read 0x839" "dma_incr_write False 0x839" "\<not> dma_bswap False 0x839"
  "\<not> dma_quiet False 0x839" "dma_chain_to False 0x839 = 1"
  by (simp_all add: dma_size_def dma_step_def dma_incr_read_def dma_incr_write_def dma_bswap_def dma_quiet_def
      dma_chain_to_def)

theorem dma_copies_witness:
  "\<exists>m2. dma_do_transfer 17 no_devices 0 dma_demo = dma_do_transfer 16 no_devices 1 m2 \<and>
     dc_read_addr (dm_ch (b_dma (m_bus m2)) 0) = 0x20000008 \<and> dm_intr (b_dma (m_bus m2)) = 1"
proof -
  have i: "dm_intr (b_dma (m_bus dma_demo)) = 0"
    by (simp add: dma_demo_def emu_boot_def mach_boot_def bus_boot_def upd_ch_def dma_init_def)
  show ?thesis
    using dma_copies_memory [of dma_demo 0 16 no_devices] i
    by (auto simp: dma_demo_fields dma_active_def dma_count_def dma_demo_ctrl)
qed

theorem dma_chain_witness:
  "\<not> dm_stuck (b_dma (m_bus (dma_do_transfer 17 no_devices 0 dma_demo)))"
proof -
  have w: "ram_word (0x20000000 + of_nat i * 4) (m_bus dma_demo)" "ram_word (0x20000100 + of_nat i * 4) (m_bus dma_demo)"
    if "i < 2" for i
    using that ram_span_addr(1) [where n = 2 and st = 4, OF _ that] dma_demo_fields(3,4) by simp_all
  have "ram_job False \<lparr>dc_read_addr = 0x20000000, dc_write_addr = 0x20000100, dc_trans_count = 2, dc_ctrl = 0x839\<rparr>
      (m_bus dma_demo)"
    using w by (simp add: ram_job_def dma_count_def dma_demo_ctrl dma_addr_def)
  moreover have "ram_job False (dm_ch (dma_init False) c) (m_bus dma_demo)" for c
    by (simp add: ram_job_def dma_count_def dma_init_def)
  ultimately have "\<forall>c < 16. ram_job (rp2350 dma_demo) (dm_ch (b_dma (m_bus dma_demo)) c) (m_bus dma_demo)"
    by (simp only: dma_demo_fields if_split simp_thms HOL.if_cancel) (simp add: dma_demo_fields)
  from dma_chain_terminates [OF this zero_less_numeral dma_demo_fields(6), of no_devices] show ?thesis by blast
qed

section \<open>Started by a store\<close>

text \<open>An address in the first kilobytes of a 16 KB register page.\<close>

lemma page_address:
  fixes base off :: u32
  assumes "base AND 0x3FFF = 0" "off < 0x1000"
  shows "(base + off) AND NOT 0x3000 = base + off" "(base + off) AND NOT 0x3FFF = base"
    "(base + off) AND 0xFFF = off" "(base + off) AND 0x3000 = 0"
proof -
  have off: "off = take_bit 12 off"
    using assms(2) by (simp add: take_bit_eq_mod mod_word_less)
  have m: "(0x3FFF :: u32) = mask 14" "(0xFFF :: u32) = mask 12" "(0x3000 :: u32) = mask 14 XOR mask 12"
    by (simp_all add: mask_eq_exp_minus_1)
  have b1: "bit off n \<Longrightarrow> n < 12" for n by (subst (asm) off) (simp add: bit_simps)
  have b2: "bit base n \<Longrightarrow> 14 \<le> n" for n
    using assms(1) unfolding m by (metis bit_and_iff bit_imp_le_length bit_mask_iff bot_nat_0.extremum bit_0_eq bot_apply bot_bool_def not_le possible_bit_word)
  have s: "base + off = base OR off"
    using b1 b2 by (intro disjunctive_add) fastforce
  show "(base + off) AND NOT 0x3000 = base + off" "(base + off) AND NOT 0x3FFF = base"
    "(base + off) AND 0xFFF = off" "(base + off) AND 0x3000 = 0"
    unfolding s m by (rule bit_word_eqI; use b1 b2 in \<open>fastforce simp: bit_simps\<close>)+
qed

lemma dma_store_routed:
  assumes "ram_ready (m_bus m)" "off < 0x4C0"
  shows "mem_write32 dv (0x50000000 + off) v m =
    dv_dma_write32 dv off v (arm_excl_observe_store (int (get_active_core m)) (0x50000000 + off) m)"
proof -
  let ?a = "0x50000000 + off"
  have o: "off < 0x1000" using assms(2) by (simp add: word_less_nat_alt)
  note pg = page_address [of "0x50000000" off, simplified, OF o]
  have u: "unat ?a = 0x50000000 + unat off" using assms(2) by (simp add: unat_word_ariths word_less_nat_alt)
  have lo: "unat off < 0x4C0" using assms(2) by (simp add: word_less_nat_alt)
  have b: "\<not> in_block ?a s sz" if "unat s + unat sz \<le> 0x50000000 \<or> 0x500004C0 \<le> unat s" "unat s + unat sz < 2 ^ 32" for s sz
    using that u lo by (auto simp: in_block_def word_le_nat_alt word_less_nat_alt unat_word_ariths)
  have in1: "in_block ?a 0x50000000 0x4C0" using u lo by (simp add: in_block_def word_le_nat_alt word_less_nat_alt)
  have r: "\<not> in_active_ram ?a (m_bus m)"
    using assms(1) b [of "0x20000000" "0x42000"] b [of "0x20000000" "0x82000"] by (auto simp: in_active_ram_def ram_ready_def)
  have none: "uart_match rp ?a = None" "spi_match rp ?a = None" "i2c_match ?a = None" "\<not> pwm_match rp ?a"
      "\<not> gpio_bus_match rp ?a" "\<not> is_clocks_addr rp ?a" "\<not> is_adc_addr rp ?a" "\<not> rp2350_timer_addr ?a m'" for rp and m' :: "('a, 'b, 'c) emu"
    by (simp_all add: uart_match_def spi_match_def i2c_match_def pwm_match_def gpio_bus_match_def is_clocks_addr_def
      is_adc_addr_def rp2350_timer_addr_def pg b io_bank0_active_base_def io_bank0_active_size_def
      pads_bank0_active_base_def pads_bank0_active_size_def clocks_block_2040_def clocks_block_2350_def Let_def)
  have t: "sram_alias_translate ?a = ?a" by (simp add: sram_alias_translate_def b)
  show ?thesis
    using r observe_store_frame [of m]
    by (simp add: mem_write32_def t write32_routed_def write32_core_def write32_ports_def none b pg alias_write_def
        in_flash_alias_def dma_match_def in1 Let_def)
qed

text \<open>Writing the control register of a channel through the bus sets it and runs the channel.\<close>

lemma dma_store_triggers:
  assumes "ram_ready (m_bus m)" "ch < 12"
  defines "off \<equiv> of_nat (0x40 * ch) + 0xC"
  shows "mem_write32 (with_dma fuel dv) (0x50000000 + off) ctrl m =
    dma_do_transfer fuel dv ch (upd_dma (upd_ch ch (\<lambda>c. c\<lparr>dc_ctrl := dma_ctrl_write (rp2350 m) ctrl (dc_ctrl c)\<rparr>))
      (arm_excl_observe_store (int (get_active_core m)) (0x50000000 + off) m))"
proof -
  have u: "unat off = 0x40 * ch + 0xC"
    using assms(2) by (simp add: off_def unat_word_ariths unat_of_nat_lt del: of_nat_mult)
  then have lt: "off < 0x400" "off < 0x4C0"
    using assms(2) by (simp_all add: word_less_nat_alt)
  have c: "dma_channel_of off = (ch, F_CTRL, True)"
    unfolding dma_channel_of_def u by (simp add: alias_layout_def Let_def)
  have rp: "rp2350 (arm_excl_observe_store k a m) = rp2350 m" for k a
    using observe_store_frame [of m k a] same_but_bus_fields by force
  have set: "ch_field_set r ch F_CTRL ctrl = upd_ch ch (\<lambda>c. c\<lparr>dc_ctrl := dma_ctrl_write r ctrl (dc_ctrl c)\<rparr>)" for r
    by (simp add: fun_eq_iff ch_field_set_def)
  show ?thesis
    unfolding dma_store_routed [OF assms(1) lt(2)]
    using lt(1) by (simp add: with_dma_def dma_write32_def c set rp)
qed

end
