(* ===== verification/Rv_Core.thy ===== *)
theory Rv_Core
  imports Emu_Prelude "HOL-Library.Signed_Division"
begin

unbundle bit_operations_syntax

text \<open>
  The RISC-V processor of the RP2350, \<^verbatim>\<open>src/rp2350_rv/rv_cpu.c\<close>: its registers and control registers, traps,
  the base integer instructions with multiplication, atomics, bit manipulation and the compressed
  set, and the instruction cache of \<^verbatim>\<open>include/rp2350_rv/rv_icache.h\<close>. The processor runs on a memory bus
  of type \<open>'s\<close>, whose operations are the fields of \<open>rv_bus\<close>; the results of the host's
  floating-point arithmetic and the semihosting handler are fields of the same record.

  An instruction is a function from the state before to the state after it, \<open>None\<close> where the source
  jumps to its \<^verbatim>\<open>illegal\<close> label. Debug output is left out.
\<close>

section \<open>State\<close>

record rv_icache =
  ic_tag :: "nat \<Rightarrow> u32"
  ic_instr :: "nat \<Rightarrow> u32"
  ic_size :: "nat \<Rightarrow> u8"
  ic_hits :: u64
  ic_misses :: u64

record rv_cpu =
  rx :: "nat \<Rightarrow> u32"
  rpc :: u32
  rcsr :: "nat \<Rightarrow> u32"
  rcycle_count :: u64
  rinstret_count :: u64
  rlr_reservation :: u32
  rlr_valid :: bool
  rstack_base :: u32
  rstack_limit :: u32
  rstack_guard_enabled :: bool
  rin_trap :: bool
  rhart_id :: nat
  ris_halted :: bool
  ris_wfi :: bool
  rstep_count :: u32
  ricache :: "rv_icache option"

type_synonym 's rv = "rv_cpu \<times> 's"

record 's rv_bus =
  rb_read32 :: "u32 \<Rightarrow> 's \<Rightarrow> u32 \<times> 's"
  rb_read16 :: "u32 \<Rightarrow> 's \<Rightarrow> u16 \<times> 's"
  rb_read8 :: "u32 \<Rightarrow> 's \<Rightarrow> u8 \<times> 's"
  rb_write32 :: "u32 \<Rightarrow> u32 \<Rightarrow> 's \<Rightarrow> 's"
  rb_write16 :: "u32 \<Rightarrow> u16 \<Rightarrow> 's \<Rightarrow> 's"
  rb_write8 :: "u32 \<Rightarrow> u8 \<Rightarrow> 's \<Rightarrow> 's"
  rb_ext_pending :: "'s \<Rightarrow> u64 option"
  rb_set_ext_enable :: "nat \<Rightarrow> (u64 \<Rightarrow> u64) \<Rightarrow> 's \<Rightarrow> 's"
  rb_semihosting :: "rv_cpu \<times> 's \<Rightarrow> bool \<times> rv_cpu \<times> 's"
  rb_float :: "u32 \<Rightarrow> u32 \<Rightarrow> u32 \<Rightarrow> u32 \<Rightarrow> u32 \<Rightarrow> u32 \<Rightarrow> u32 \<times> u32"

section \<open>Reset\<close>

definition rv_cpu_init :: "nat \<Rightarrow> rv_cpu" where
  "rv_cpu_init hart_id =
     \<lparr>rx = (\<lambda>_. 0), rpc = 0,
      rcsr = (\<lambda>_. 0)(0x301 := 0x40001125, 0xF14 := of_nat hart_id, 0x300 := 0x1800),
      rcycle_count = 0, rinstret_count = 0, rlr_reservation = 0, rlr_valid = False,
      rstack_base = 0, rstack_limit = 0, rstack_guard_enabled = False, rin_trap = False,
      rhart_id = hart_id, ris_halted = True, ris_wfi = False, rstep_count = 0, ricache = None\<rparr>"

definition rv_cpu_reset :: "u32 \<Rightarrow> rv_cpu \<Rightarrow> rv_cpu" where
  "rv_cpu_reset entry_pc c =
     c\<lparr>rpc := entry_pc, ris_halted := False, ris_wfi := False, rstep_count := 0, rcycle_count := 0,
       rinstret_count := 0, rx := (\<lambda>_. 0)\<rparr>"

definition csr_put :: "nat \<Rightarrow> u32 \<Rightarrow> rv_cpu \<Rightarrow> rv_cpu" where
  "csr_put a v c = c\<lparr>rcsr := (rcsr c)(a := v)\<rparr>"

section \<open>Control and status registers\<close>

definition lowest_irq :: "u64 \<Rightarrow> u32" where
  "lowest_irq enabled_pending =
     (if enabled_pending = 0 then 0xFFFFFFFF
      else case find (\<lambda>i. enabled_pending AND shl 1 i \<noteq> 0) [0..<52] of Some i \<Rightarrow> of_nat i | None \<Rightarrow> 0xFFFFFFFF)"

definition rv_csr_read :: "'s rv_bus \<Rightarrow> nat \<Rightarrow> 's rv \<Rightarrow> u32" where
  "rv_csr_read b addr st =
     (let (c, s) = st in
      if addr = 0xB00 then ucast (rcycle_count c)
      else if addr = 0xB80 then ucast (shr (rcycle_count c) 32)
      else if addr = 0xB02 then ucast (rinstret_count c)
      else if addr = 0xB82 then ucast (shr (rinstret_count c) 32)
      else if addr = 0xF14 then of_nat (rhart_id c)
      else if addr = 0xFE0 then
        (case rb_ext_pending b s of Some p \<Rightarrow> ucast (p AND ucast (rcsr c 0xBE0)) | None \<Rightarrow> 0)
      else if addr = 0xFE1 then
        (case rb_ext_pending b s of Some p \<Rightarrow> ucast (shr p 32 AND ucast (rcsr c 0xBE1)) | None \<Rightarrow> 0)
      else if addr = 0xFE2 then
        (case rb_ext_pending b s of
           Some p \<Rightarrow> lowest_irq (p AND (shl (ucast (rcsr c 0xBE1)) 32 OR ucast (rcsr c 0xBE0)))
         | None \<Rightarrow> 0xFFFFFFFF)
      else if addr = 0xBC0 then rstack_base c
      else if addr = 0xBC1 then rstack_limit c
      else if addr = 0x001 then rcsr c 0x003 AND 0x1F
      else if addr = 0x002 then shr (rcsr c 0x003) 5 AND 0x7
      else if addr = 0x003 then rcsr c 0x003 AND 0xFF
      else if addr < 4096 then rcsr c addr
      else 0)"

definition guard_stack :: "rv_cpu \<Rightarrow> rv_cpu" where
  "guard_stack c = c\<lparr>rstack_guard_enabled := (rstack_base c \<noteq> 0 \<or> rstack_limit c \<noteq> 0)\<rparr>"

definition enable_hart :: "rv_cpu \<Rightarrow> nat" where
  "enable_hart c = (if rhart_id c < 2 then rhart_id c else 0)"

definition low_half :: "u64 \<Rightarrow> u32 \<Rightarrow> u64" where
  "low_half old v = (old AND 0xFFFFFFFF00000000) OR ucast v"

definition high_half :: "u64 \<Rightarrow> u32 \<Rightarrow> u64" where
  "high_half old v = (old AND 0xFFFFFFFF) OR shl (ucast v) 32"

definition rv_csr_write :: "'s rv_bus \<Rightarrow> nat \<Rightarrow> u32 \<Rightarrow> 's rv \<Rightarrow> 's rv" where
  "rv_csr_write b addr val st =
     (let (c, s) = st in
      if addr = 0xB00 then (c\<lparr>rcycle_count := low_half (rcycle_count c) val\<rparr>, s)
      else if addr = 0xB80 then (c\<lparr>rcycle_count := high_half (rcycle_count c) val\<rparr>, s)
      else if addr = 0xB02 then (c\<lparr>rinstret_count := low_half (rinstret_count c) val\<rparr>, s)
      else if addr = 0xB82 then (c\<lparr>rinstret_count := high_half (rinstret_count c) val\<rparr>, s)
      else if addr \<in> {0xF14, 0x301, 0xF11, 0xF12, 0xF13} then (c, s)
      else if addr = 0xBE0 then
        (csr_put 0xBE0 val c,
         if rb_ext_pending b s = None then s else rb_set_ext_enable b (enable_hart c) (\<lambda>e. low_half e val) s)
      else if addr = 0xBE1 then
        (csr_put 0xBE1 (val AND 0x000FFFFF) c,
         if rb_ext_pending b s = None then s
         else rb_set_ext_enable b (enable_hart c) (\<lambda>e. high_half e (val AND 0x000FFFFF)) s)
      else if addr \<in> {0xFE0, 0xFE1, 0xFE2} then (c, s)
      else if addr = 0x001 then (csr_put 0x003 ((rcsr c 0x003 AND NOT 0x1F) OR (val AND 0x1F)) c, s)
      else if addr = 0x002 then (csr_put 0x003 ((rcsr c 0x003 AND NOT 0xE0) OR shl (val AND 0x7) 5) c, s)
      else if addr = 0x003 then (csr_put 0x003 (val AND 0xFF) c, s)
      else if addr = 0xBC0 then (guard_stack (c\<lparr>rstack_base := val\<rparr>), s)
      else if addr = 0xBC1 then (guard_stack (c\<lparr>rstack_limit := val\<rparr>), s)
      else if addr < 4096 then (csr_put addr val c, s)
      else (c, s))"

section \<open>Traps\<close>

definition trap_status :: "u32 \<Rightarrow> u32" where
  "trap_status mstatus =
     (let m1 = (if mstatus AND 8 \<noteq> 0 then mstatus OR 0x80 else mstatus AND NOT 0x80);
          m2 = m1 AND NOT 8
      in (m2 AND NOT 0x1800) OR 0x1800)"

definition rv_trap_enter :: "u32 \<Rightarrow> u32 \<Rightarrow> rv_cpu \<Rightarrow> rv_cpu" where
  "rv_trap_enter cause tval c =
     (let c1 = csr_put 0x300 (trap_status (rcsr c 0x300))
                 (csr_put 0x343 tval (csr_put 0x342 cause (csr_put 0x341 (rpc c) c)));
          mtvec = rcsr c1 0x305; base = mtvec AND NOT 3
      in c1\<lparr>rpc := (if mtvec AND 3 = 1 \<and> cause AND 0x80000000 \<noteq> 0
                    then base + (cause AND NOT 0x80000000) * 4 else base),
            rin_trap := True\<rparr>)"

definition rv_trap_return :: "rv_cpu \<Rightarrow> rv_cpu" where
  "rv_trap_return c =
     (let mstatus = rcsr c 0x300;
          m1 = (if mstatus AND 0x80 \<noteq> 0 then mstatus OR 8 else mstatus AND NOT 8)
      in csr_put 0x300 (m1 OR 0x80) (c\<lparr>rpc := rcsr c 0x341, rin_trap := False\<rparr>))"

section \<open>Instruction fields\<close>

definition rv_opcode :: "u32 \<Rightarrow> u32" where "rv_opcode instr = instr AND 0x7F"

definition rv_rd :: "u32 \<Rightarrow> nat" where "rv_rd instr = unat (shr instr 7 AND 0x1F)"

definition rv_funct3 :: "u32 \<Rightarrow> u32" where "rv_funct3 instr = shr instr 12 AND 0x7"

definition rv_rs1 :: "u32 \<Rightarrow> nat" where "rv_rs1 instr = unat (shr instr 15 AND 0x1F)"

definition rv_rs2 :: "u32 \<Rightarrow> nat" where "rv_rs2 instr = unat (shr instr 20 AND 0x1F)"

definition rv_funct7 :: "u32 \<Rightarrow> u32" where "rv_funct7 instr = shr instr 25 AND 0x7F"

definition rv_imm_i :: "u32 \<Rightarrow> u32" where "rv_imm_i instr = signed_drop_bit 20 instr"

definition rv_imm_s :: "u32 \<Rightarrow> u32" where
  "rv_imm_s instr = signed_drop_bit 20 (shl ((shr instr 20 AND 0xFE0) OR (shr instr 7 AND 0x1F)) 20)"

definition rv_imm_b :: "u32 \<Rightarrow> u32" where
  "rv_imm_b instr =
     signed_drop_bit 19 (shl ((shr instr 7 AND 0x1E) OR (shr instr 20 AND 0x7E0) OR (shl instr 4 AND 0x800) OR
       (shr instr 19 AND 0x1000)) 19)"

definition rv_imm_u :: "u32 \<Rightarrow> u32" where "rv_imm_u instr = instr AND 0xFFFFF000"

definition rv_imm_j :: "u32 \<Rightarrow> u32" where
  "rv_imm_j instr =
     signed_drop_bit 11 (shl ((shr instr 20 AND 0x7FE) OR (shr instr 9 AND 0x800) OR (instr AND 0xFF000) OR
       (shr instr 11 AND 0x100000)) 11)"

section \<open>Registers and retirement\<close>

definition set_x :: "nat \<Rightarrow> u32 \<Rightarrow> rv_cpu \<Rightarrow> rv_cpu" where
  "set_x i v c = c\<lparr>rx := (rx c)(i := v)\<rparr>"

definition rv_write_rd :: "nat \<Rightarrow> u32 \<Rightarrow> rv_cpu \<Rightarrow> rv_cpu" where
  "rv_write_rd rd val c = (if rd \<noteq> 0 then set_x rd val c else c)"

definition rv_retire :: "u32 \<Rightarrow> rv_cpu \<Rightarrow> rv_cpu" where
  "rv_retire next_pc c =
     (set_x 0 0 c)\<lparr>rpc := next_pc, rstep_count := rstep_count c + 1, rcycle_count := rcycle_count c + 1,
       rinstret_count := rinstret_count c + 1\<rparr>"

text \<open>The three ways an instruction ends: the next instruction, with or without a result, and a trap.\<close>

definition rv_fin :: "u32 \<Rightarrow> 's rv \<Rightarrow> 's rv option" where
  "rv_fin npc st = Some (rv_retire npc (fst st), snd st)"

definition rv_fin_rd :: "nat \<Rightarrow> u32 \<Rightarrow> u32 \<Rightarrow> 's rv \<Rightarrow> 's rv option" where
  "rv_fin_rd rd val npc st = rv_fin npc (rv_write_rd rd val (fst st), snd st)"

definition rv_trap :: "u32 \<Rightarrow> u32 \<Rightarrow> 's rv \<Rightarrow> 's rv option" where
  "rv_trap cause tval st = Some (rv_trap_enter cause tval (fst st), snd st)"

definition rv_ebreak :: "'s rv_bus \<Rightarrow> u32 \<Rightarrow> u32 \<Rightarrow> 's rv \<Rightarrow> 's rv option" where
  "rv_ebreak b pc npc st =
     (case rb_semihosting b st of (True, st1) \<Rightarrow> rv_fin npc st1 | (False, st1) \<Rightarrow> rv_trap 3 pc st1)"

section \<open>Arithmetic\<close>

definition asr :: "u32 \<Rightarrow> nat \<Rightarrow> u32" where
  "asr v n = signed_drop_bit n v"

definition ror32 :: "u32 \<Rightarrow> nat \<Rightarrow> u32" where
  "ror32 v sh = (if sh \<noteq> 0 then shr v sh OR shl v (32 - sh) else v)"

definition rol32 :: "u32 \<Rightarrow> nat \<Rightarrow> u32" where
  "rol32 v sh = (if sh \<noteq> 0 then shl v sh OR shr v (32 - sh) else v)"

definition clz32 :: "u32 \<Rightarrow> nat" where
  "clz32 w = length (takeWhile (\<lambda>i. \<not> bit w i) (rev [0..<32]))"

definition popcount32 :: "u32 \<Rightarrow> nat" where
  "popcount32 w = length (filter (bit w) [0..<32])"

definition sext8 :: "u32 \<Rightarrow> u32" where "sext8 v = scast (ucast v :: u8)"

definition sext16 :: "u32 \<Rightarrow> u32" where "sext16 v = scast (ucast v :: u16)"

definition orc_b :: "u32 \<Rightarrow> u32" where
  "orc_b src = cond_mask (src AND 0xFF \<noteq> 0) 0xFF OR cond_mask (src AND 0xFF00 \<noteq> 0) 0xFF00 OR
     cond_mask (src AND 0xFF0000 \<noteq> 0) 0xFF0000 OR cond_mask (src AND 0xFF000000 \<noteq> 0) 0xFF000000"

definition rv_zbb :: "nat \<Rightarrow> u32 \<Rightarrow> u32 option" where
  "rv_zbb rs2 src =
     (if rs2 = 0 then Some (if src = 0 then 32 else of_nat (clz32 src))
      else if rs2 = 1 then Some (if src = 0 then 32 else of_nat (ctz32 src))
      else if rs2 = 2 then Some (of_nat (popcount32 src))
      else if rs2 = 4 then Some (sext8 src)
      else if rs2 = 5 then Some (sext16 src)
      else None)"

definition rv_op_imm :: "u32 \<Rightarrow> u32 \<Rightarrow> nat \<Rightarrow> u32 \<Rightarrow> u32 \<Rightarrow> u32 option" where
  "rv_op_imm funct3 funct7 rs2 imm src =
     (let sh = rs2 mod 32 in
      if funct3 = 0 then Some (src + imm)
      else if funct3 = 2 then Some (if sint src < sint imm then 1 else 0)
      else if funct3 = 3 then Some (if src < imm then 1 else 0)
      else if funct3 = 4 then Some (src XOR imm)
      else if funct3 = 6 then Some (src OR imm)
      else if funct3 = 7 then Some (src AND imm)
      else if funct3 = 1 then
        (if funct7 = 0x00 then Some (shl src sh)
         else if funct7 = 0x14 then Some (src OR shl 1 sh)
         else if funct7 = 0x24 then Some (src AND NOT (shl 1 sh))
         else if funct7 = 0x34 then Some (src XOR shl 1 sh)
         else if funct7 = 0x30 then rv_zbb rs2 src
         else None)
      else
        (if funct7 = 0x00 then Some (shr src sh)
         else if funct7 = 0x20 then Some (asr src sh)
         else if funct7 = 0x24 then Some (shr src sh AND 1)
         else if funct7 = 0x14 \<and> rs2 = 0x07 then Some (orc_b src)
         else if funct7 = 0x30 then Some (ror32 src sh)
         else if funct7 = 0x34 \<and> rs2 = 0x18 then Some (bswap32 src)
         else None))"

definition rv_muldiv :: "u32 \<Rightarrow> u32 \<Rightarrow> u32 \<Rightarrow> u32" where
  "rv_muldiv funct3 a b =
     (if funct3 = 0 then a * b
      else if funct3 = 1 then ucast (signed_drop_bit 32 (scast a * scast b :: u64))
      else if funct3 = 2 then ucast (shr (scast a * ucast b :: u64) 32)
      else if funct3 = 3 then ucast (shr (ucast a * ucast b :: u64) 32)
      else if funct3 = 4 then
        (if b = 0 then 0xFFFFFFFF else if a = 0x80000000 \<and> b = 0xFFFFFFFF then a
         else word_of_int (sint a sdiv sint b))
      else if funct3 = 5 then (if b = 0 then 0xFFFFFFFF else a div b)
      else if funct3 = 6 then
        (if b = 0 then a else if a = 0x80000000 \<and> b = 0xFFFFFFFF then 0 else word_of_int (sint a smod sint b))
      else (if b = 0 then a else a mod b))"

definition rv_base_alu :: "u32 \<Rightarrow> u32 \<Rightarrow> u32 \<Rightarrow> u32" where
  "rv_base_alu funct3 a b =
     (let sh = unat (b AND 0x1F) in
      if funct3 = 0 then a + b
      else if funct3 = 1 then shl a sh
      else if funct3 = 2 then (if sint a < sint b then 1 else 0)
      else if funct3 = 3 then (if a < b then 1 else 0)
      else if funct3 = 4 then a XOR b
      else if funct3 = 5 then shr a sh
      else if funct3 = 6 then a OR b
      else a AND b)"

definition rv_alt_alu :: "u32 \<Rightarrow> u32 \<Rightarrow> u32 \<Rightarrow> u32 option" where
  "rv_alt_alu funct3 a b =
     (let sh = unat (b AND 0x1F) in
      if funct3 = 0 then Some (a - b)
      else if funct3 = 1 then Some (rol32 a sh)
      else if funct3 = 4 then Some (a XOR NOT b)
      else if funct3 = 5 then Some (asr a sh)
      else if funct3 = 6 then Some (a OR NOT b)
      else if funct3 = 7 then Some (a AND NOT b)
      else None)"

definition rv_op_reg :: "u32 \<Rightarrow> u32 \<Rightarrow> u32 \<Rightarrow> u32 \<Rightarrow> u32 option" where
  "rv_op_reg funct3 funct7 a b =
     (let sh = unat (b AND 0x1F) in
      if funct7 = 0x10 then
        (if funct3 = 2 then Some (b + shl a 1) else if funct3 = 4 then Some (b + shl a 2)
         else if funct3 = 6 then Some (b + shl a 3) else None)
      else if funct7 = 0x05 then
        (if funct3 = 4 then Some (if sint a < sint b then a else b)
         else if funct3 = 5 then Some (if a < b then a else b)
         else if funct3 = 6 then Some (if sint a > sint b then a else b)
         else if funct3 = 7 then Some (if a > b then a else b) else None)
      else if funct7 = 0x04 then
        (if funct3 = 4 then Some ((a AND 0xFFFF) OR shl (b AND 0xFFFF) 16)
         else if funct3 = 5 then Some ((a AND 0xFF) OR shl (b AND 0xFF) 8) else None)
      else if funct7 = 0x24 then
        (if funct3 = 1 then Some (a AND NOT (shl 1 sh)) else if funct3 = 5 then Some (shr a sh AND 1) else None)
      else if funct7 = 0x14 then (if funct3 = 1 then Some (a OR shl 1 sh) else None)
      else if funct7 = 0x34 then (if funct3 = 1 then Some (a XOR shl 1 sh) else None)
      else if funct7 = 0x01 then Some (rv_muldiv funct3 a b)
      else if funct7 = 0x00 then Some (rv_base_alu funct3 a b)
      else if funct7 = 0x20 then rv_alt_alu funct3 a b
      else if funct7 = 0x30 \<and> funct3 = 1 then Some (ror32 a sh)
      else None)"

definition rv_bextm :: "u32 \<Rightarrow> u32 \<Rightarrow> u32 \<Rightarrow> u32 \<Rightarrow> u32" where
  "rv_bextm instr funct7 a b =
     (let (nbits, shamt) =
        (if funct7 AND NOT 0x0E = 0 then (unat (shr funct7 1 AND 0x7) + 1, unat (b AND 0x1F))
         else (let imm = shr instr 20 in (unat (shr imm 6 AND 0x7) + 1, unat (imm AND 0x1F))))
      in shr a shamt AND (shl 1 nbits - 1))"

definition rv_branch_taken :: "u32 \<Rightarrow> u32 \<Rightarrow> u32 \<Rightarrow> bool option" where
  "rv_branch_taken funct3 a b =
     (if funct3 = 0 then Some (a = b) else if funct3 = 1 then Some (a \<noteq> b)
      else if funct3 = 4 then Some (sint a < sint b) else if funct3 = 5 then Some (sint a \<ge> sint b)
      else if funct3 = 6 then Some (a < b) else if funct3 = 7 then Some (a \<ge> b) else None)"

definition rv_amo :: "u32 \<Rightarrow> u32 \<Rightarrow> u32 \<Rightarrow> u32 option" where
  "rv_amo funct5 old v =
     (if funct5 = 0x01 then Some v
      else if funct5 = 0x00 then Some (old + v)
      else if funct5 = 0x0C then Some (old AND v)
      else if funct5 = 0x08 then Some (old OR v)
      else if funct5 = 0x04 then Some (old XOR v)
      else if funct5 = 0x10 then Some (if sint old < sint v then old else v)
      else if funct5 = 0x14 then Some (if sint old > sint v then old else v)
      else if funct5 = 0x18 then Some (if old < v then old else v)
      else if funct5 = 0x1C then Some (if old > v then old else v)
      else None)"

section \<open>Instructions of 32 bits\<close>

definition rv_load :: "'s rv_bus \<Rightarrow> u32 \<Rightarrow> u32 \<Rightarrow> nat \<Rightarrow> u32 \<Rightarrow> 's rv \<Rightarrow> 's rv option" where
  "rv_load b funct3 addr rd npc st =
     (let (c, s) = st in
      if funct3 = 0 then (let (v, s1) = rb_read8 b addr s in rv_fin_rd rd (scast v) npc (c, s1))
      else if funct3 = 1 then
        (if addr AND 1 \<noteq> 0 then rv_trap 4 addr st
         else let (v, s1) = rb_read16 b addr s in rv_fin_rd rd (scast v) npc (c, s1))
      else if funct3 = 2 then
        (if addr AND 3 \<noteq> 0 then rv_trap 4 addr st
         else let (v, s1) = rb_read32 b addr s in rv_fin_rd rd v npc (c, s1))
      else if funct3 = 4 then (let (v, s1) = rb_read8 b addr s in rv_fin_rd rd (ucast v) npc (c, s1))
      else if funct3 = 5 then
        (if addr AND 1 \<noteq> 0 then rv_trap 4 addr st
         else let (v, s1) = rb_read16 b addr s in rv_fin_rd rd (ucast v) npc (c, s1))
      else None)"

definition rv_store :: "'s rv_bus \<Rightarrow> u32 \<Rightarrow> u32 \<Rightarrow> u32 \<Rightarrow> u32 \<Rightarrow> 's rv \<Rightarrow> 's rv option" where
  "rv_store b funct3 addr val npc st =
     (let (c, s) = st in
      if funct3 = 0 then rv_fin npc (c, rb_write8 b addr (ucast val) s)
      else if funct3 = 1 then
        (if addr AND 1 \<noteq> 0 then rv_trap 6 addr st else rv_fin npc (c, rb_write16 b addr (ucast val) s))
      else if funct3 = 2 then
        (if addr AND 3 \<noteq> 0 then rv_trap 6 addr st else rv_fin npc (c, rb_write32 b addr val s))
      else None)"

definition rv_atomic :: "'s rv_bus \<Rightarrow> u32 \<Rightarrow> u32 \<Rightarrow> u32 \<Rightarrow> nat \<Rightarrow> u32 \<Rightarrow> 's rv \<Rightarrow> 's rv option" where
  "rv_atomic b funct5 addr val rd npc st =
     (let (c, s) = st in
      if addr AND 3 \<noteq> 0 then rv_trap 6 addr st
      else if funct5 = 0x02 then
        (let (v, s1) = rb_read32 b addr s;
             c1 = (rv_write_rd rd v c)\<lparr>rlr_reservation := addr, rlr_valid := True\<rparr>
         in rv_fin npc (c1, s1))
      else if funct5 = 0x03 then
        (if rlr_valid c \<and> rlr_reservation c = addr
         then rv_fin npc ((rv_write_rd rd 0 c)\<lparr>rlr_valid := False\<rparr>, rb_write32 b addr val s)
         else rv_fin npc ((rv_write_rd rd 1 c)\<lparr>rlr_valid := False\<rparr>, s))
      else if rv_amo funct5 0 0 = None then None
      else let (old, s1) = rb_read32 b addr s
           in rv_fin_rd rd old npc (c, rb_write32 b addr (the (rv_amo funct5 old val)) s1))"

definition rv_csr_op :: "'s rv_bus \<Rightarrow> u32 \<Rightarrow> nat \<Rightarrow> nat \<Rightarrow> nat \<Rightarrow> u32 \<Rightarrow> 's rv \<Rightarrow> 's rv option" where
  "rv_csr_op b funct3 csr_addr rs1 rd npc st =
     (let old_val = rv_csr_read b csr_addr st; x1 = rx (fst st) rs1; zimm = of_nat rs1;
          put = (\<lambda>v. rv_csr_write b csr_addr v st) in
      if funct3 = 1 then rv_fin_rd rd old_val npc (put x1)
      else if funct3 = 2 then rv_fin_rd rd old_val npc (if rs1 \<noteq> 0 then put (old_val OR x1) else st)
      else if funct3 = 3 then rv_fin_rd rd old_val npc (if rs1 \<noteq> 0 then put (old_val AND NOT x1) else st)
      else if funct3 = 5 then rv_fin_rd rd old_val npc (put zimm)
      else if funct3 = 6 then rv_fin_rd rd old_val npc (if rs1 \<noteq> 0 then put (old_val OR zimm) else st)
      else if funct3 = 7 then rv_fin_rd rd old_val npc (if rs1 \<noteq> 0 then put (old_val AND NOT zimm) else st)
      else None)"

definition rv_system :: "'s rv_bus \<Rightarrow> u32 \<Rightarrow> u32 \<Rightarrow> 's rv \<Rightarrow> 's rv option" where
  "rv_system b instr pc st =
     (let funct12 = shr instr 20 AND 0xFFF in
      if rv_funct3 instr \<noteq> 0 then
        rv_csr_op b (rv_funct3 instr) (unat funct12) (rv_rs1 instr) (rv_rd instr) (pc + 4) st
      else if funct12 = 0 then rv_trap 11 0 st
      else if funct12 = 1 then rv_ebreak b pc (pc + 4) st
      else if funct12 = 0x302 then Some (rv_trap_return (fst st), snd st)
      else if funct12 = 0x105 then rv_fin (pc + 4) ((fst st)\<lparr>ris_wfi := True\<rparr>, snd st)
      else None)"

section \<open>Single-precision floats in integer registers\<close>

definition f_isnan :: "u32 \<Rightarrow> bool" where
  "f_isnan v \<longleftrightarrow> shr v 23 AND 0xFF = 0xFF \<and> v AND 0x7FFFFF \<noteq> 0"

text \<open>The order of the floats that are not NaN: their sign and magnitude, with equal zeros.\<close>

definition f_ord :: "u32 \<Rightarrow> int" where
  "f_ord v = (if bit v 31 then - int (unat (v AND 0x7FFFFFFF)) else int (unat (v AND 0x7FFFFFFF)))"

definition fcsr_or :: "bool \<Rightarrow> u32 \<Rightarrow> rv_cpu \<Rightarrow> rv_cpu" where
  "fcsr_or p flags c = (if p then csr_put 0x003 (rcsr c 0x003 OR flags) c else c)"

definition f_sgnj :: "nat \<Rightarrow> u32 \<Rightarrow> u32 \<Rightarrow> u32 option" where
  "f_sgnj rs2 va vb =
     (if rs2 = 0 then Some ((va AND NOT 0x80000000) OR (vb AND 0x80000000))
      else if rs2 = 1 then Some ((va AND NOT 0x80000000) OR (NOT vb AND 0x80000000))
      else if rs2 = 2 then Some (va XOR (vb AND 0x80000000))
      else None)"

definition f_minmax :: "bool \<Rightarrow> u32 \<Rightarrow> u32 \<Rightarrow> u32 \<times> bool" where
  "f_minmax is_max va vb =
     (let an = f_isnan va; bn = f_isnan vb;
          nv = (if an \<and> bn then True else if an \<or> bn then (if an then va else vb) AND 0x00400000 = 0 else False);
          r = (if an \<and> bn then 0x7FC00000
               else if an then vb else if bn then va
               else if f_ord va = 0 \<and> f_ord vb = 0 then
                 shl (if is_max then shr va 31 OR shr vb 31 else shr va 31 AND shr vb 31) 31
               else if is_max then (if f_ord va < f_ord vb then vb else va)
               else (if f_ord vb < f_ord va then vb else va))
      in (r, nv))"

definition f_class :: "u32 \<Rightarrow> u32 \<times> bool" where
  "f_class va =
     (let neg = bit va 31; ex = shr va 23 AND 0xFF; man = va AND 0x7FFFFF in
      if ex = 0xFF then
        (if man = 0 then (shl 1 (if neg then 0 else 7), False)
         else if man AND 0x00400000 \<noteq> 0 then (shl 1 9, False) else (shl 1 8, True))
      else if ex = 0 then
        (if man = 0 then (shl 1 (if neg then 3 else 4), False) else (shl 1 (if neg then 2 else 5), False))
      else (shl 1 (if neg then 1 else 6), False))"

definition f_compare :: "u32 \<Rightarrow> u32 \<Rightarrow> u32 \<Rightarrow> u32 \<times> bool" where
  "f_compare funct3 va vb =
     (let an = f_isnan va; bn = f_isnan vb;
          snan = (an \<and> va AND 0x00400000 = 0) \<or> (bn \<and> vb AND 0x00400000 = 0) in
      if an \<or> bn then (0, if funct3 = 2 then snan else True)
      else if funct3 = 2 then (if f_ord va = f_ord vb then 1 else 0, False)
      else if funct3 = 1 then (if f_ord va < f_ord vb then 1 else 0, False)
      else (if f_ord va \<le> f_ord vb then 1 else 0, False))"

definition rv_float_arith :: "'s rv_bus \<Rightarrow> u32 \<Rightarrow> u32 \<Rightarrow> 's rv \<Rightarrow> 's rv option" where
  "rv_float_arith b instr npc st =
     (let c = fst st; funct3 = rv_funct3 instr; fcsr = rcsr c 0x003;
          rm = (if funct3 = 7 then shr fcsr 5 AND 7 else funct3);
          (r, fcsr1) = rb_float b instr rm (rx c (rv_rs1 instr)) (rx c (rv_rs2 instr))
                         (rx c (unat (shr instr 27 AND 0x1F))) fcsr
      in rv_fin_rd (rv_rd instr) r npc (csr_put 0x003 fcsr1 c, snd st))"

definition rv_fp :: "'s rv_bus \<Rightarrow> u32 \<Rightarrow> u32 \<Rightarrow> 's rv \<Rightarrow> 's rv option" where
  "rv_fp b instr npc st =
     (let (c, s) = st; rd = rv_rd instr; rs2 = rv_rs2 instr; funct3 = rv_funct3 instr; funct7 = rv_funct7 instr;
          va = rx c (rv_rs1 instr); vb = rx c rs2;
          ret = (\<lambda>(r, nv). rv_fin_rd rd r npc (fcsr_or nv 0x10 c, s)) in
      if funct7 \<in> {0x00, 0x04, 0x08, 0x0C, 0x2C} then rv_float_arith b instr npc st
      else if funct7 = 0x10 then (case f_sgnj rs2 va vb of Some r \<Rightarrow> ret (r, False) | None \<Rightarrow> None)
      else if funct7 = 0x14 then (if funct3 = 0 \<or> funct3 = 1 then ret (f_minmax (funct3 = 1) va vb) else None)
      else if funct7 \<in> {0x60, 0x68} then (if rs2 = 0 \<or> rs2 = 1 then rv_float_arith b instr npc st else None)
      else if funct7 = 0x70 then
        (if rs2 = 0 then ret (va, False) else if rs2 = 1 then ret (f_class va) else None)
      else if funct7 = 0x78 then (if rs2 = 0 then ret (va, False) else None)
      else if funct7 = 0x50 then (if funct3 \<le> 2 then ret (f_compare funct3 va vb) else None)
      else None)"

section \<open>Execution of an instruction of 32 bits\<close>

definition rv_jump :: "nat \<Rightarrow> u32 \<Rightarrow> u32 \<Rightarrow> 's rv \<Rightarrow> 's rv option" where
  "rv_jump rd link target st =
     (let st1 = (rv_write_rd rd link (fst st), snd st) in
      if target AND 1 \<noteq> 0 then rv_trap 0 target st1 else rv_fin target st1)"

definition rv_exec32 :: "'s rv_bus \<Rightarrow> u32 \<Rightarrow> u32 \<Rightarrow> 's rv \<Rightarrow> 's rv option" where
  "rv_exec32 b instr pc st =
     (let c = fst st; op = rv_opcode instr; rd = rv_rd instr; funct3 = rv_funct3 instr; rs2 = rv_rs2 instr;
          funct7 = rv_funct7 instr; x1 = rx c (rv_rs1 instr); x2 = rx c rs2; npc = pc + 4 in
      if op = 0x37 then rv_fin_rd rd (rv_imm_u instr) npc st
      else if op = 0x17 then rv_fin_rd rd (pc + rv_imm_u instr) npc st
      else if op = 0x6F then rv_jump rd (pc + 4) (pc + rv_imm_j instr) st
      else if op = 0x67 then
        (if funct3 \<noteq> 0 then None else rv_fin_rd rd (pc + 4) ((x1 + rv_imm_i instr) AND NOT 1) st)
      else if op = 0x63 then
        (case rv_branch_taken funct3 x1 x2 of
           None \<Rightarrow> None
         | Some False \<Rightarrow> rv_fin npc st
         | Some True \<Rightarrow> (let target = pc + rv_imm_b instr in
                         if target AND 1 \<noteq> 0 then rv_trap 0 target st else rv_fin target st))
      else if op = 0x03 then rv_load b funct3 (x1 + rv_imm_i instr) rd npc st
      else if op = 0x23 then rv_store b funct3 (x1 + rv_imm_s instr) x2 npc st
      else if op = 0x13 then
        (case rv_op_imm funct3 funct7 rs2 (rv_imm_i instr) x1 of Some r \<Rightarrow> rv_fin_rd rd r npc st | None \<Rightarrow> None)
      else if op = 0x33 then
        (case rv_op_reg funct3 funct7 x1 x2 of Some r \<Rightarrow> rv_fin_rd rd r npc st | None \<Rightarrow> None)
      else if op = 0x0B then (if funct3 \<noteq> 4 then None else rv_fin_rd rd (rv_bextm instr funct7 x1 x2) npc st)
      else if op = 0x0F then rv_fin npc st
      else if op = 0x2F then (if funct3 \<noteq> 2 then None else rv_atomic b (shr funct7 2) x1 x2 rd npc st)
      else if op = 0x73 then rv_system b instr pc st
      else if op = 0x07 then (if funct3 \<noteq> 2 then None else rv_load b 2 (x1 + rv_imm_i instr) rd npc st)
      else if op = 0x27 then (if funct3 \<noteq> 2 then None else rv_store b 2 (x1 + rv_imm_s instr) x2 npc st)
      else if op \<in> {0x43, 0x47, 0x4B, 0x4F} then rv_float_arith b instr npc st
      else if op = 0x53 then rv_fp b instr npc st
      else None)"

section \<open>Compressed instructions\<close>

text \<open>The source computes with the halfword promoted to an integer; here it is widened first.\<close>

definition c_rd_p :: "u32 \<Rightarrow> nat" where "c_rd_p ci = 8 + unat (shr ci 2 AND 7)"

definition c_rs1_p :: "u32 \<Rightarrow> nat" where "c_rs1_p ci = 8 + unat (shr ci 7 AND 7)"

definition c_rd :: "u32 \<Rightarrow> nat" where "c_rd ci = unat (shr ci 7 AND 0x1F)"

definition c_rs2 :: "u32 \<Rightarrow> nat" where "c_rs2 ci = unat (shr ci 2 AND 0x1F)"

definition c_shamt :: "u32 \<Rightarrow> u32" where
  "c_shamt ci = (shr ci 7 AND 0x20) OR (shr ci 2 AND 0x1F)"

definition c_imm6 :: "u32 \<Rightarrow> u32" where
  "c_imm6 ci = (let imm = c_shamt ci in if imm AND 0x20 \<noteq> 0 then imm OR 0xFFFFFFC0 else imm)"

definition c_imm_spn :: "u32 \<Rightarrow> u32" where
  "c_imm_spn ci = (shr ci 1 AND 0x3C0) OR (shr ci 7 AND 0x30) OR (shr ci 2 AND 0x8) OR (shr ci 4 AND 0x4)"

definition c_off_w :: "u32 \<Rightarrow> u32" where
  "c_off_w ci = (shr ci 7 AND 0x38) OR (shr ci 4 AND 0x4) OR (shl ci 1 AND 0x40)"

definition c_off_j :: "u32 \<Rightarrow> u32" where
  "c_off_j ci =
     (let off = (shr ci 1 AND 0x800) OR (shr ci 7 AND 0x10) OR (shr ci 1 AND 0x300) OR (shl ci 2 AND 0x400) OR
                (shr ci 1 AND 0x40) OR (shl ci 1 AND 0x80) OR (shr ci 2 AND 0xE) OR (shl ci 3 AND 0x20)
      in if off AND 0x800 \<noteq> 0 then off OR 0xFFFFF000 else off)"

definition c_off_b :: "u32 \<Rightarrow> u32" where
  "c_off_b ci =
     (let off = (shr ci 4 AND 0x100) OR (shr ci 7 AND 0x18) OR (shl ci 1 AND 0xC0) OR (shr ci 2 AND 0x6) OR
                (shl ci 3 AND 0x20)
      in if off AND 0x100 \<noteq> 0 then off OR 0xFFFFFE00 else off)"

definition c_imm_16sp :: "u32 \<Rightarrow> u32" where
  "c_imm_16sp ci =
     (let imm = (shr ci 3 AND 0x200) OR (shr ci 2 AND 0x10) OR (shl ci 1 AND 0x40) OR (shl ci 4 AND 0x180) OR
                (shl ci 3 AND 0x20)
      in if imm AND 0x200 \<noteq> 0 then imm OR 0xFFFFFC00 else imm)"

definition c_off_lwsp :: "u32 \<Rightarrow> u32" where
  "c_off_lwsp ci = (shr ci 7 AND 0x20) OR (shr ci 2 AND 0x1C) OR (shl ci 4 AND 0xC0)"

definition c_off_swsp :: "u32 \<Rightarrow> u32" where
  "c_off_swsp ci = (shr ci 7 AND 0x3C) OR (shr ci 1 AND 0xC0)"

text \<open>A result that is not suppressed for register 0, and a jump that leaves the alignment of its
  target unchecked.\<close>

definition c_set :: "nat \<Rightarrow> u32 \<Rightarrow> u32 \<Rightarrow> 's rv \<Rightarrow> 's rv option" where
  "c_set i v npc st = rv_fin npc (set_x i v (fst st), snd st)"

definition rv_c_quad0 :: "'s rv_bus \<Rightarrow> u32 \<Rightarrow> u32 \<Rightarrow> 's rv \<Rightarrow> 's rv option" where
  "rv_c_quad0 b ci npc st =
     (let (c, s) = st; funct3c = shr ci 13 AND 7; a1 = rx c (c_rs1_p ci); r2 = c_rd_p ci in
      if funct3c = 0 then
        (if c_imm_spn ci \<noteq> 0 then rv_fin_rd r2 (rx c 2 + c_imm_spn ci) npc st
         else let op = shr ci 5 AND 3 in
           if op = 0 then (let (v, s1) = rb_read8 b a1 s in c_set r2 (ucast v) npc (c, s1))
           else if op = 1 then (let (v, s1) = rb_read16 b a1 s in c_set r2 (ucast v) npc (c, s1))
           else if op = 2 then (let (v, s1) = rb_read16 b a1 s in c_set r2 (scast v) npc (c, s1))
           else None)
      else if funct3c = 2 then rv_load b 2 (a1 + c_off_w ci) r2 npc st
      else if funct3c = 6 then rv_store b 2 (a1 + c_off_w ci) (rx c r2) npc st
      else if funct3c = 1 then rv_fin npc (c, rb_write8 b a1 (ucast (rx c r2)) s)
      else if funct3c = 3 then rv_fin npc (c, rb_write16 b a1 (ucast (rx c r2)) s)
      else None)"

definition rv_c_misc :: "u32 \<Rightarrow> u32 \<Rightarrow> u32 \<Rightarrow> u32 option" where
  "rv_c_misc ci v v2 =
     (let funct2 = shr ci 10 AND 3; sh = unat (c_shamt ci AND 0x1F); op = shr ci 2 AND 7; funct2b = shr ci 5 AND 3 in
      if funct2 = 0 then Some (shr v sh)
      else if funct2 = 1 then Some (asr v sh)
      else if funct2 = 2 then Some (v AND c_imm6 ci)
      else if shr ci 12 AND 1 = 0 then
        Some (if funct2b = 0 then v - v2 else if funct2b = 1 then v XOR v2 else if funct2b = 2 then v OR v2 else v AND v2)
      else if op = 0 then Some (NOT v)
      else if op = 1 then Some (sext8 v)
      else if op = 2 then Some (sext16 v)
      else if op = 3 then Some (v AND 0xFF)
      else if op = 4 then Some (v AND 0xFFFF)
      else if op = 5 then Some (v * v2)
      else None)"

definition rv_c_quad1 :: "u32 \<Rightarrow> u32 \<Rightarrow> 's rv \<Rightarrow> 's rv option" where
  "rv_c_quad1 ci pc st =
     (let c = fst st; funct3c = shr ci 13 AND 7; rd = c_rd ci; npc = pc + 2; r1 = c_rs1_p ci in
      if funct3c = 0 then rv_fin_rd rd (rx c rd + c_imm6 ci) npc st
      else if funct3c = 1 then rv_fin (pc + c_off_j ci) (set_x 1 (pc + 2) c, snd st)
      else if funct3c = 2 then rv_fin_rd rd (c_imm6 ci) npc st
      else if funct3c = 3 then
        (if rd = 2 then (if c_imm_16sp ci = 0 then None else c_set 2 (rx c 2 + c_imm_16sp ci) npc st)
         else if rd \<noteq> 0 then (if c_imm6 ci = 0 then None else rv_fin_rd rd (shl (c_imm6 ci) 12) npc st)
         else rv_fin npc st)
      else if funct3c = 4 then
        (case rv_c_misc ci (rx c r1) (rx c (c_rd_p ci)) of Some r \<Rightarrow> c_set r1 r npc st | None \<Rightarrow> None)
      else if funct3c = 5 then rv_fin (pc + c_off_j ci) st
      else if funct3c = 6 then rv_fin (if rx c r1 = 0 then pc + c_off_b ci else npc) st
      else rv_fin (if rx c r1 \<noteq> 0 then pc + c_off_b ci else npc) st)"

text \<open>The register lists of the push and pop instructions; the loops count words and registers.\<close>

definition zcmp_regs :: "nat list" where
  "zcmp_regs = [1, 8, 9, 18, 19, 20, 21, 22, 23, 24, 25, 26, 27]"

definition rv_cm_push :: "'s rv_bus \<Rightarrow> u32 \<Rightarrow> 's rv \<Rightarrow> 's rv" where
  "rv_cm_push b ci st =
     (let rlist = unat (shr ci 4 AND 0xF); sp_adj = shr ci 2 AND 3;
          st1 = (if rlist \<ge> 4 then
                   fold (\<lambda>r (c, s). let c1 = set_x 2 (rx c 2 - 4) c in (c1, rb_write32 b (rx c1 2) (rx c1 r) s))
                     (take (rlist - 3) zcmp_regs) st
                 else st)
      in (set_x 2 (rx (fst st1) 2 - sp_adj * 16) (fst st1), snd st1))"

definition rv_cm_pop :: "'s rv_bus \<Rightarrow> u32 \<Rightarrow> 's rv \<Rightarrow> 's rv" where
  "rv_cm_pop b ci st =
     (let rlist = unat (shr ci 4 AND 0xF); sp_adj = shr ci 2 AND 3; sp = rx (fst st) 2 + sp_adj * 16 in
      if rlist \<ge> 4 then
        (let (cur, c1, s1) = fold (\<lambda>r (cur, c, s). let (v, s1) = rb_read32 b cur s in (cur + 4, set_x r v c, s1))
                               (take (rlist - 3) zcmp_regs) (sp, st)
         in (set_x 2 (sp + of_nat (rlist - 3) * 4) c1, s1))
      else (set_x 2 sp (fst st), snd st))"

definition rv_c_zcmp :: "'s rv_bus \<Rightarrow> u32 \<Rightarrow> u32 \<Rightarrow> 's rv \<Rightarrow> 's rv option" where
  "rv_c_zcmp b ci npc st =
     (let op = shr ci 8 AND 7; ret = ci AND 3 in
      if op = 6 then rv_fin npc (rv_cm_push b ci st)
      else if op = 7 then
        (let (c1, s1) = rv_cm_pop b ci st in
         if ret = 1 then rv_fin (rx c1 1) (c1, s1)
         else if ret = 2 then rv_fin (rx (set_x 10 0 c1) 1) (set_x 10 0 c1, s1)
         else rv_fin npc (c1, s1))
      else None)"

definition rv_c_quad2 :: "'s rv_bus \<Rightarrow> u32 \<Rightarrow> u32 \<Rightarrow> 's rv \<Rightarrow> 's rv option" where
  "rv_c_quad2 b ci pc st =
     (let c = fst st; funct3c = shr ci 13 AND 7; rd = c_rd ci; rs2 = c_rs2 ci; npc = pc + 2 in
      if funct3c = 0 then rv_fin_rd rd (shl (rx c rd) (unat (c_shamt ci AND 0x1F))) npc st
      else if funct3c = 2 then (if rd = 0 then None else rv_load b 2 (rx c 2 + c_off_lwsp ci) rd npc st)
      else if funct3c = 4 then
        (if shr ci 12 AND 1 = 0 then
           (if rs2 = 0 then (if rd = 0 then None else rv_fin (rx c rd AND NOT 1) st)
            else rv_fin_rd rd (rx c rs2) npc st)
         else if rs2 = 0 \<and> rd = 0 then rv_ebreak b pc npc st
         else if rs2 = 0 then rv_fin (rx c rd AND NOT 1) (set_x 1 (pc + 2) c, snd st)
         else if rd = 0 then rv_c_zcmp b ci npc st
         else c_set rd (rx c rd + rx c rs2) npc st)
      else if funct3c = 6 then rv_store b 2 (rx c 2 + c_off_swsp ci) (rx c rs2) npc st
      else None)"

definition rv_exec16 :: "'s rv_bus \<Rightarrow> u16 \<Rightarrow> u32 \<Rightarrow> 's rv \<Rightarrow> 's rv option" where
  "rv_exec16 b lo pc st =
     (let ci = ucast lo :: u32; quad = ci AND 3 in
      if quad = 0 then rv_c_quad0 b ci (pc + 2) st
      else if quad = 1 then rv_c_quad1 ci pc st
      else if quad = 2 then rv_c_quad2 b ci pc st
      else None)"

section \<open>Fetch and step\<close>

definition icache_slot :: "u32 \<Rightarrow> nat" where
  "icache_slot pc = unat (shr pc 1 AND 0xFFFF)"

definition rv_icache_init :: rv_icache where
  "rv_icache_init = \<lparr>ic_tag = (\<lambda>_. 0xFFFFFFFF), ic_instr = (\<lambda>_. 0), ic_size = (\<lambda>_. 0), ic_hits = 0, ic_misses = 0\<rparr>"

definition rv_icache_lookup :: "u32 \<Rightarrow> rv_icache \<Rightarrow> (u32 \<times> u8) option \<times> rv_icache" where
  "rv_icache_lookup pc k =
     (let i = icache_slot pc in
      if ic_tag k i = pc then (Some (ic_instr k i, ic_size k i), k\<lparr>ic_hits := ic_hits k + 1\<rparr>)
      else (None, k\<lparr>ic_misses := ic_misses k + 1\<rparr>))"

definition rv_icache_insert :: "u32 \<Rightarrow> u32 \<Rightarrow> u8 \<Rightarrow> rv_icache \<Rightarrow> rv_icache" where
  "rv_icache_insert pc instr sz k =
     (let i = icache_slot pc in
      k\<lparr>ic_tag := (ic_tag k)(i := pc), ic_instr := (ic_instr k)(i := instr), ic_size := (ic_size k)(i := sz)\<rparr>)"

definition cacheable :: "u32 \<Rightarrow> bool" where
  "cacheable pc \<longleftrightarrow> pc < 0x8000 \<or> in_block pc 0x10000000 0x1000000"

definition halves :: "u16 \<Rightarrow> u16 \<Rightarrow> u32" where
  "halves lo hi = ucast lo OR shl (ucast hi) 16"

text \<open>The first halfword at the program counter and whether it is a compressed instruction, from the
  instruction cache when it holds the address.\<close>

definition rv_fetch_miss :: "'s rv_bus \<Rightarrow> u32 \<Rightarrow> 's rv \<Rightarrow> u16 \<times> bool \<times> 's rv" where
  "rv_fetch_miss b pc st =
     (let (c, s) = st; (lo, s1) = rb_read16 b pc s; is_compressed = (lo AND 3 \<noteq> 3) in
      case ricache c of
        Some k \<Rightarrow>
          if cacheable pc then
            (if is_compressed then (lo, True, c\<lparr>ricache := Some (rv_icache_insert pc (ucast lo) 2 k)\<rparr>, s1)
             else let (hi, s2) = rb_read16 b (pc + 2) s1
                  in (lo, False, c\<lparr>ricache := Some (rv_icache_insert pc (halves lo hi) 4 k)\<rparr>, s2))
          else (lo, is_compressed, c, s1)
      | None \<Rightarrow> (lo, is_compressed, c, s1))"

definition rv_fetch :: "'s rv_bus \<Rightarrow> 's rv \<Rightarrow> u16 \<times> bool \<times> 's rv" where
  "rv_fetch b st =
     (let (c, s) = st; pc = rpc c in
      case ricache c of
        Some k \<Rightarrow>
          if cacheable pc then
            (case rv_icache_lookup pc k of
               (Some (instr, isize), k1) \<Rightarrow> (ucast instr, isize = 2, c\<lparr>ricache := Some k1\<rparr>, s)
             | (None, k1) \<Rightarrow> rv_fetch_miss b pc (c\<lparr>ricache := Some k1\<rparr>, s))
          else rv_fetch_miss b pc st
      | None \<Rightarrow> rv_fetch_miss b pc st)"

definition or_illegal :: "u32 \<Rightarrow> 's rv \<Rightarrow> 's rv option \<Rightarrow> 's rv" where
  "or_illegal tval st r = (case r of Some st1 \<Rightarrow> st1 | None \<Rightarrow> (rv_trap_enter 2 tval (fst st), snd st))"

definition rv_cpu_step :: "'s rv_bus \<Rightarrow> 's rv \<Rightarrow> int \<times> 's rv" where
  "rv_cpu_step b st =
     (if ris_halted (fst st) then (-1, st)
      else let pc = rpc (fst st); (lo, is_compressed, st1) = rv_fetch b st in
        if is_compressed then (0, or_illegal (ucast lo) st1 (rv_exec16 b lo pc st1))
        else let (hi, s2) = rb_read16 b (pc + 2) (snd st1); st2 = (fst st1, s2); instr = halves lo hi
             in (0, or_illegal instr st2 (rv_exec32 b instr pc st2)))"

end
