(* ===== verification/Rv_Laws.thy ===== *)
theory Rv_Laws
  imports Rv_Core
begin

unbundle bit_operations_syntax

text \<open>
  Properties of the RISC-V processor of \<open>Rv_Core\<close>. Exceptions are precise, a trap handler returns
  to where it was entered from, register 0 reads as zero after any number of steps (proved in the
  locale \<open>rv_semihost\<close> from the one law a semihosting handler has to keep), and every standard
  compressed instruction does what the instruction of 32 bits does that it abbreviates, with the
  formats and the immediates of the architecture manual as the reference.
\<close>

section \<open>Register 0 and precise exceptions\<close>

lemma rv_cpu_field_simps [simp]:
  "rx (set_x i v c) = (rx c)(i := v)" "rcsr (set_x i v c) = rcsr c" "rpc (set_x i v c) = rpc c"
  "rinstret_count (set_x i v c) = rinstret_count c"
  "rx (csr_put a v c) = rx c" "rcsr (csr_put a v c) = (rcsr c)(a := v)" "rpc (csr_put a v c) = rpc c"
  "rinstret_count (csr_put a v c) = rinstret_count c"
  "rx (fcsr_or p f c) = rx c" "rinstret_count (fcsr_or p f c) = rinstret_count c"
  "rx (rv_write_rd rd v c) = (if rd = 0 then rx c else (rx c)(rd := v))"
  "rinstret_count (rv_write_rd rd v c) = rinstret_count c"
  "rx (rv_trap_enter cause tval c) = rx c" "rinstret_count (rv_trap_enter cause tval c) = rinstret_count c"
  "rx (rv_trap_return c) = rx c"
  by (simp_all add: set_x_def csr_put_def fcsr_or_def rv_write_rd_def rv_trap_enter_def rv_trap_return_def Let_def)

lemma rv_retire_simps [simp]:
  "rx (rv_retire npc c) = (rx c)(0 := 0)" "rpc (rv_retire npc c) = npc"
  "rinstret_count (rv_retire npc c) = rinstret_count c + 1" "rcsr (rv_retire npc c) = rcsr c"
  by (simp_all add: rv_retire_def)

text \<open>How an instruction can end, as seen from outside: it retires, or it traps with the registers and
  the bus as they were.\<close>

definition retired :: "'s rv \<Rightarrow> 's rv \<Rightarrow> bool" where
  "retired st st' \<longleftrightarrow> rinstret_count (fst st') = rinstret_count (fst st) + 1 \<and> rx (fst st') 0 = 0"

definition trapped :: "'s rv \<Rightarrow> 's rv \<Rightarrow> bool" where
  "trapped st st' \<longleftrightarrow> snd st' = snd st \<and> rx (fst st') = rx (fst st) \<and>
     rinstret_count (fst st') = rinstret_count (fst st) \<and> rcsr (fst st') 0x342 \<in> {2, 4, 6} \<and>
     rcsr (fst st') 0x341 = rpc (fst st) \<and> rpc (fst st') = rcsr (fst st) 0x305 AND NOT 3 \<and>
     \<not> bit (rcsr (fst st') 0x300) 3"

lemma trap_status_mie: "\<not> bit (trap_status m) 3"
  by (simp add: trap_status_def Let_def bit_simps)

lemma trapped_trap: "cause \<in> {2, 4, 6} \<Longrightarrow> trapped st (rv_trap_enter cause tval (fst st), snd st)"
  by (auto simp: trapped_def rv_trap_enter_def csr_put_def Let_def trap_status_mie)

definition precise :: "'s rv \<Rightarrow> 's rv option \<Rightarrow> bool" where
  "precise st r \<longleftrightarrow> (case r of Some st' \<Rightarrow> retired st st' \<or> trapped st st' | None \<Rightarrow> True)"

lemma precise_None [simp]: "precise st None"
  by (simp add: precise_def)

lemma precise_if: "(P \<Longrightarrow> precise st x) \<Longrightarrow> (\<not> P \<Longrightarrow> precise st y) \<Longrightarrow> precise st (if P then x else y)"
  by simp

lemma precise_fin:
  "rinstret_count (fst st1) = rinstret_count (fst st) \<Longrightarrow> precise st (rv_fin npc st1)"
  by (simp add: precise_def rv_fin_def retired_def)

lemma precise_rd:
  "rinstret_count (fst st1) = rinstret_count (fst st) \<Longrightarrow> precise st (rv_fin_rd rd v npc st1)"
  by (simp add: rv_fin_rd_def precise_fin)

lemma precise_c_set:
  "rinstret_count (fst st1) = rinstret_count (fst st) \<Longrightarrow> precise st (c_set rd v npc st1)"
  by (simp add: c_set_def precise_fin)

lemma precise_trap: "cause \<in> {2, 4, 6} \<Longrightarrow> precise st (rv_trap cause tval st)"
  by (simp add: precise_def rv_trap_def trapped_trap)

lemmas precise_ends = precise_fin precise_rd precise_c_set precise_trap

lemma precise_load: "precise st (rv_load b funct3 addr rd npc st)"
  by (cases st) (auto simp: rv_load_def Let_def precise_ends split: prod.splits)

lemma precise_store: "precise st (rv_store b funct3 addr v npc st)"
  by (cases st) (auto simp: rv_store_def Let_def precise_ends split: prod.splits)

lemma precise_atomic: "precise st (rv_atomic b funct5 addr v rd npc st)"
  by (cases st) (auto simp: rv_atomic_def Let_def precise_ends split: prod.splits)

lemma precise_float_arith: "precise st (rv_float_arith b instr npc st)"
  by (cases st) (auto simp: rv_float_arith_def Let_def precise_ends split: prod.splits)

lemma precise_fp: "precise st (rv_fp b instr npc st)"
  by (cases st) (auto simp: rv_fp_def Let_def precise_ends precise_float_arith split: prod.splits option.splits)

lemma even_sum: "\<not> bit a 0 \<Longrightarrow> \<not> bit b 0 \<Longrightarrow> (a + b) AND 1 = 0" for a b :: u32
  by (simp add: bit_0 and_one_eq mod_2_eq_odd)

lemma rv_imm_even: "\<not> bit (rv_imm_j instr) 0" "\<not> bit (rv_imm_b instr) 0"
  by (simp_all add: rv_imm_j_def rv_imm_b_def bit_simps)

lemma precise_exec32:
  assumes "\<not> bit pc 0" "rv_opcode instr \<noteq> 0x73"
  shows "precise st (rv_exec32 b instr pc st)"
proof -
  have j: "(pc + rv_imm_j instr) AND 1 = 0" "(pc + rv_imm_b instr) AND 1 = 0"
    using assms(1) rv_imm_even [of instr] by (simp_all add: even_sum)
  have jump: "precise st (rv_jump rd link (pc + rv_imm_j instr) st)" for rd link
    by (simp add: rv_jump_def Let_def j precise_fin)
  have branch: "precise st (case t of None \<Rightarrow> None | Some False \<Rightarrow> rv_fin npc st
      | Some True \<Rightarrow> let target = pc + rv_imm_b instr in
          if target AND 1 \<noteq> 0 then rv_trap 0 target st else rv_fin target st)" for t npc
    by (simp add: Let_def j precise_fin split: option.split bool.split)
  have alu: "precise st (case r of Some v \<Rightarrow> rv_fin_rd rd v npc st | None \<Rightarrow> None)" for r rd npc
    by (simp add: precise_rd split: option.split)
  show ?thesis
    unfolding rv_exec32_def Let_def
    by (intro precise_if jump branch [unfolded Let_def] alu precise_rd precise_fin precise_load precise_store
        precise_atomic precise_float_arith precise_fp precise_None refl) (use assms(2) in simp)
qed

section \<open>Fields of compressed instructions\<close>

lemma unat_field: "unat (shr w k AND mask l) = unat w div 2 ^ k mod 2 ^ l" for w :: u32
proof -
  have "unat (shr w k AND mask l) = take_bit l (drop_bit k (unat w))"
    using unsigned_less [of w, where 'a = nat]
    by (simp add: take_bit_eq_mask [symmetric] unsigned_take_bit_eq unsigned_drop_bit_eq take_bit_nat_eq_self)
  then show ?thesis by (simp add: take_bit_eq_mod drop_bit_eq_div)
qed

lemma div_chain: "n div k = m * (n div (k * m)) + n div k mod m" for n k m :: nat
  by (simp add: div_mult2_eq)

lemma low_masks:
  "(1 :: u32) = mask 1" "(3 :: u32) = mask 2" "(7 :: u32) = mask 3" "(0x1F :: u32) = mask 5"
  by (simp_all add: mask_eq_exp_minus_1)

lemma field_eq: "shr w k AND mask l = v \<longleftrightarrow> unat w div 2 ^ k mod 2 ^ l = unat v" for w v :: u32
  using unat_field [of k w l] by (simp add: word_unat_eq_iff)

text \<open>The push and pop instructions are tried only when the destination field is 0, and then their
  operation field, which overlaps it, is 0 as well: they can never be executed.\<close>

lemma zcmp_unreachable:
  assumes "c_rd ci = 0"
  shows "rv_c_zcmp b ci npc st = None"
proof -
  have "unat ci div 128 mod 32 = 0" using assms by (simp add: c_rd_def low_masks(4) unat_field)
  then obtain q where "unat ci div 128 = 32 * q" by (auto simp: mod_eq_0_iff_dvd elim: dvdE)
  then have "unat ci div 256 = 16 * q" using div_mult2_eq [of "unat ci" 128 2] by simp
  then have "unat ci div 256 mod 8 = 0" by simp
  then have "shr ci 8 AND 7 = 0" by (simp add: low_masks(3) field_eq)
  then show ?thesis by (simp add: rv_c_zcmp_def)
qed

text \<open>The halfword of a breakpoint.\<close>

lemma c_ebreak_word:
  fixes ci :: u32
  assumes "unat ci < 65536" "ci AND 3 = 2" "shr ci 13 AND 7 = 4" "shr ci 12 AND 1 \<noteq> 0" "c_rd ci = 0" "c_rs2 ci = 0"
  shows "ci = 0x9002"
proof -
  have "unat ci mod 4 = 2" using assms(2) field_eq [of 0 ci 2 2] by (simp add: low_masks(2) [symmetric])
  moreover have "unat ci div 8192 mod 8 = 4" using assms(3) field_eq [of 13 ci 3 4] by (simp add: low_masks(3) [symmetric])
  moreover have "unat ci div 4096 mod 2 \<noteq> 0" using assms(4) field_eq [of 12 ci 1 0] by (simp add: low_masks(1) [symmetric])
  moreover have "unat ci div 128 mod 32 = 0" using assms(5) by (simp add: c_rd_def low_masks(4) unat_field)
  moreover have "unat ci div 4 mod 32 = 0" using assms(6) by (simp add: c_rs2_def low_masks(4) unat_field)
  ultimately have "unat ci = 36866"
    using assms(1) div_chain [of "unat ci" 4096 2] div_chain [of "unat ci" 128 32] div_chain [of "unat ci" 4 32]
      div_chain [of "unat ci" 1 4]
    by (simp add: mod_less)
  then show ?thesis by (simp add: word_unat_eq_iff)
qed

lemma precise_exec16:
  assumes "lo \<noteq> 0x9002"
  shows "precise st (rv_exec16 b lo pc st)"
proof -
  define ci where "ci = (ucast lo :: u32)"
  have u: "unat ci < 65536" using unsigned_less [of lo, where 'a = nat] by (simp add: ci_def unsigned_ucast_eq take_bit_nat_eq_self)
  have ne: "ci \<noteq> 0x9002"
  proof
    assume "ci = 0x9002"
    then have "(ucast ci :: u16) = 0x9002" by simp
    then show False using assms by (simp add: ci_def ucast_down_up)
  qed
  have q0: "precise st (rv_c_quad0 b ci npc st)" for npc
    by (cases st) (auto simp: rv_c_quad0_def Let_def precise_ends precise_load precise_store split: prod.splits)
  have q1: "precise st (rv_c_quad1 ci pc st)"
    by (auto simp: rv_c_quad1_def Let_def precise_ends split: option.splits)
  have zcmp: "precise st (rv_c_zcmp b ci npc st)" if "c_rd ci = 0" for npc
    by (simp add: zcmp_unreachable [OF that])
  have q2: "precise st (rv_c_quad2 b ci pc st)" if "ci AND 3 = 2"
    unfolding rv_c_quad2_def Let_def
    by (intro precise_if precise_rd precise_fin precise_c_set precise_load precise_store precise_None)
      (use that u ne c_ebreak_word [of ci] zcmp in simp_all)
  show ?thesis using q0 q1 q2 by (simp add: rv_exec16_def Let_def flip: ci_def)
qed

section \<open>Steps\<close>

lemma rv_fetch_frame:
  assumes "rv_fetch b st = (lo, is_c, st1)"
  shows "rx (fst st1) = rx (fst st)" "rpc (fst st1) = rpc (fst st)" "rcsr (fst st1) = rcsr (fst st)"
    "rinstret_count (fst st1) = rinstret_count (fst st)"
  using assms
  by (cases st; auto simp: rv_fetch_def rv_fetch_miss_def Let_def split: prod.splits option.splits if_splits)+

lemma mask_7: "(0x7F :: 'a::len word) = mask 7"
  by (simp add: mask_eq_exp_minus_1)

lemma precise_or_illegal: "precise st r \<Longrightarrow> retired st (or_illegal tval st r) \<or> trapped st (or_illegal tval st r)"
  by (auto simp: precise_def or_illegal_def trapped_trap split: option.splits)



section \<open>Register 0\<close>

definition zero_kept :: "'s rv option \<Rightarrow> bool" where
  "zero_kept r \<longleftrightarrow> (case r of Some st \<Rightarrow> rx (fst st) 0 = 0 | None \<Rightarrow> True)"

lemma zero_ends:
  "zero_kept None" "zero_kept (rv_fin npc st)" "zero_kept (rv_fin_rd rd v npc st)" "zero_kept (c_set i v npc st)"
  "rx (fst st) 0 = 0 \<Longrightarrow> zero_kept (rv_trap cause tval st)"
  by (simp_all add: zero_kept_def rv_fin_def rv_fin_rd_def c_set_def rv_trap_def)

lemma zero_if: "(P \<Longrightarrow> zero_kept x) \<Longrightarrow> (\<not> P \<Longrightarrow> zero_kept y) \<Longrightarrow> zero_kept (if P then x else y)"
  by simp

locale rv_semihost =
  fixes b :: "'s rv_bus"
  assumes declines: "rb_semihosting b st = (False, st1) \<Longrightarrow> st1 = st"
begin

lemma zero_ebreak: "rx (fst st) 0 = 0 \<Longrightarrow> zero_kept (rv_ebreak b pc npc st)"
  by (auto simp: rv_ebreak_def zero_ends dest: declines split: prod.split bool.split)

lemma zero_memory:
  assumes "rx (fst st) 0 = 0"
  shows "zero_kept (rv_load b f a rd npc st)" "zero_kept (rv_store b f a v npc st)"
    "zero_kept (rv_atomic b f a v rd npc st)" "zero_kept (rv_float_arith b instr npc st)" "zero_kept (rv_fp b instr npc st)"
  using assms
  by (cases st; auto simp: rv_load_def rv_store_def rv_atomic_def rv_float_arith_def rv_fp_def Let_def zero_ends
      split: prod.splits option.splits)+

lemma zero_system: "rx (fst st) 0 = 0 \<Longrightarrow> zero_kept (rv_system b instr pc st)"
  by (auto simp: rv_system_def rv_csr_op_def Let_def zero_ends zero_ebreak)
    (simp add: zero_kept_def)

lemma zero_exec32:
  assumes z: "rx (fst st) 0 = 0"
  shows "zero_kept (rv_exec32 b instr pc st)"
proof -
  have jump: "zero_kept (rv_jump rd link t st)" for rd link t
    using z by (simp add: rv_jump_def Let_def zero_ends)
  have branch: "zero_kept (case t of None \<Rightarrow> None | Some False \<Rightarrow> rv_fin npc st
      | Some True \<Rightarrow> if tg AND 1 \<noteq> 0 then rv_trap 0 tg st else rv_fin tg st)" for t npc tg
    using z by (simp add: zero_ends split: option.split bool.split)
  have alu: "zero_kept (case r of Some v \<Rightarrow> rv_fin_rd rd v npc st | None \<Rightarrow> None)" for r rd npc
    by (simp add: zero_ends split: option.split)
  show ?thesis
    unfolding rv_exec32_def Let_def
    by (intro zero_if jump branch alu zero_ends zero_memory zero_system z)
qed

lemma zero_exec16:
  assumes z: "rx (fst st) 0 = 0"
  shows "zero_kept (rv_exec16 b lo pc st)"
proof -
  have "zero_kept (rv_c_quad0 b ci npc st)" for ci npc
    using zero_memory [OF z] by (cases st) (auto simp: rv_c_quad0_def Let_def zero_ends split: prod.splits)
  moreover have "zero_kept (rv_c_quad1 ci pc st)" for ci
    by (auto simp: rv_c_quad1_def Let_def zero_ends split: option.splits)
  moreover have "zero_kept (rv_c_quad2 b ci pc st)" for ci
    using zero_memory [OF z] zero_ebreak [OF z] by (auto simp: rv_c_quad2_def Let_def zero_ends zcmp_unreachable)
  ultimately show ?thesis by (simp add: rv_exec16_def Let_def zero_ends)
qed

lemma zero_step:
  assumes z: "rx (fst st) 0 = 0"
  shows "rx (fst (snd (rv_cpu_step b st))) 0 = 0"
proof (cases "ris_halted (fst st)")
  case False
  obtain lo is_c c1 s1 where f: "rv_fetch b st = (lo, is_c, c1, s1)" by (cases "rv_fetch b st") auto
  have z1: "rx c1 0 = 0" using rv_fetch_frame(1) [OF f] z by simp
  have ill: "zero_kept r \<Longrightarrow> rx (fst (or_illegal t (c1, s) r)) 0 = 0" for r t s
    using z1 by (cases r) (simp_all add: zero_kept_def or_illegal_def)
  show ?thesis
    using False ill [OF zero_exec16] ill [OF zero_exec32] z1 by (simp add: rv_cpu_step_def Let_def f split: prod.split)
qed (simp add: rv_cpu_step_def z)

lemma zero_steps: "rx (fst st) 0 = 0 \<Longrightarrow> rx (fst (((\<lambda>st. snd (rv_cpu_step b st)) ^^ n) st)) 0 = 0"
  by (induction n arbitrary: st) (simp_all add: zero_step funpow_swap1)

end

section \<open>Traps and returns\<close>

text \<open>A trap handler returns to where it was entered from: if the handler leaves the saved program
  counter and status alone, the return restores the program counter and the interrupt enable that
  the trap had cleared, for every cause and in both vector modes.\<close>

theorem rv_trap_round_trip:
  assumes c1: "c1 = rv_trap_enter cause tval c"
    and "rcsr c2 0x341 = rcsr c1 0x341" "rcsr c2 0x300 = rcsr c1 0x300"
  shows "\<not> bit (rcsr c1 0x300) 3 \<and> rin_trap c1 \<and>
    rpc c1 = (rcsr c 0x305 AND NOT 3) + (if rcsr c 0x305 AND 3 = 1 \<and> bit cause 31 then (cause AND 0x7FFFFFFF) * 4 else 0) \<and>
    rpc (rv_trap_return c2) = rpc c \<and> \<not> rin_trap (rv_trap_return c2) \<and> rx (rv_trap_return c2) = rx c2 \<and>
    (bit (rcsr (rv_trap_return c2) 0x300) 3 \<longleftrightarrow> bit (rcsr c 0x300) 3)"
proof -
  have b7: "bit (trap_status m) 7 \<longleftrightarrow> bit m 3" for m
    using and_exp_eq_0 [of m 3] by (auto simp: trap_status_def Let_def bit_simps)
  have i: "cause AND 0x80000000 \<noteq> 0 \<longleftrightarrow> bit cause 31" using and_exp_eq_0 [of cause 31] by simp
  have n: "cause AND NOT 0x80000000 = cause AND 0x7FFFFFFF"
  proof -
    have "NOT 0x80000000 = (0x7FFFFFFF :: u32)" by simp
    then show ?thesis by (simp only:)
  qed
  have r: "bit (rcsr (rv_trap_return c2) 0x300) 3 \<longleftrightarrow> bit (rcsr c2 0x300) 7"
    using and_exp_eq_0 [of "rcsr c2 0x300" 7] by (auto simp: rv_trap_return_def Let_def bit_simps)
  have e: "rcsr c1 0x300 = trap_status (rcsr c 0x300)" "rcsr c1 0x341 = rpc c" "rin_trap c1"
    "rpc c1 = (if rcsr c 0x305 AND 3 = 1 \<and> bit cause 31
       then (rcsr c 0x305 AND NOT 3) + (cause AND 0x7FFFFFFF) * 4 else rcsr c 0x305 AND NOT 3)"
    unfolding c1 rv_trap_enter_def Let_def i n by simp_all
  have s: "rcsr c2 0x300 = trap_status (rcsr c 0x300)" "rcsr c2 0x341 = rpc c" using assms(2,3) e by simp_all
  have p: "rpc (rv_trap_return c2) = rcsr c2 0x341" "\<not> rin_trap (rv_trap_return c2)"
    by (simp_all add: rv_trap_return_def csr_put_def Let_def)
  show ?thesis unfolding e(1,4) r p s b7 using e(3) p(2) trap_status_mie by simp
qed

theorem rv_trap_round_trip_witness:
  "rpc (rv_trap_return (rv_trap_enter 0x80000007 0 ((rv_cpu_init 0)\<lparr>rpc := 0x20000010\<rparr>))) = 0x20000010"
  using rv_trap_round_trip [OF refl refl refl, of "0x80000007" 0 "(rv_cpu_init 0)\<lparr>rpc := 0x20000010\<rparr>"]
  by (elim conjE) simp

section \<open>Encoding and decoding\<close>

text \<open>The instruction formats of the architecture, as an assembler writes them.\<close>

definition enc_i :: "u32 \<Rightarrow> nat \<Rightarrow> u32 \<Rightarrow> nat \<Rightarrow> u32 \<Rightarrow> u32" where
  "enc_i imm rs1 f3 rd op = shl (take_bit 12 imm) 20 OR shl (take_bit 5 (of_nat rs1)) 15 OR shl (take_bit 3 f3) 12 OR
     shl (take_bit 5 (of_nat rd)) 7 OR take_bit 7 op"

definition enc_r :: "u32 \<Rightarrow> nat \<Rightarrow> nat \<Rightarrow> u32 \<Rightarrow> nat \<Rightarrow> u32 \<Rightarrow> u32" where
  "enc_r f7 rs2 rs1 f3 rd op = enc_i (shl (take_bit 7 f7) 5 OR take_bit 5 (of_nat rs2)) rs1 f3 rd op"

definition enc_s :: "u32 \<Rightarrow> nat \<Rightarrow> nat \<Rightarrow> u32 \<Rightarrow> u32 \<Rightarrow> u32" where
  "enc_s imm rs2 rs1 f3 op = shl (take_bit 7 (shr imm 5)) 25 OR shl (take_bit 5 (of_nat rs2)) 20 OR
     shl (take_bit 5 (of_nat rs1)) 15 OR shl (take_bit 3 f3) 12 OR shl (take_bit 5 imm) 7 OR take_bit 7 op"

definition enc_b :: "u32 \<Rightarrow> nat \<Rightarrow> nat \<Rightarrow> u32 \<Rightarrow> u32 \<Rightarrow> u32" where
  "enc_b imm rs2 rs1 f3 op = shl (take_bit 1 (shr imm 12)) 31 OR shl (take_bit 6 (shr imm 5)) 25 OR
     shl (take_bit 5 (of_nat rs2)) 20 OR shl (take_bit 5 (of_nat rs1)) 15 OR shl (take_bit 3 f3) 12 OR
     shl (take_bit 4 (shr imm 1)) 8 OR shl (take_bit 1 (shr imm 11)) 7 OR take_bit 7 op"

definition enc_u :: "u32 \<Rightarrow> nat \<Rightarrow> u32 \<Rightarrow> u32" where
  "enc_u imm rd op = shl (take_bit 20 (shr imm 12)) 12 OR shl (take_bit 5 (of_nat rd)) 7 OR take_bit 7 op"

definition enc_j :: "u32 \<Rightarrow> nat \<Rightarrow> u32 \<Rightarrow> u32" where
  "enc_j imm rd op = shl (take_bit 1 (shr imm 20)) 31 OR shl (take_bit 10 (shr imm 1)) 21 OR
     shl (take_bit 1 (shr imm 11)) 20 OR shl (take_bit 8 (shr imm 12)) 12 OR
     shl (take_bit 5 (of_nat rd)) 7 OR take_bit 7 op"

lemmas enc_defs = enc_i_def enc_s_def enc_b_def enc_u_def enc_j_def

lemma imm_i: "rv_imm_i (enc_i imm rs1 f3 rd op) = signed_take_bit 11 imm"
  by (rule bit_word_eqI) (simp add: bit_cases_32, elim disjE; simp add: rv_imm_i_def enc_i_def bit_simps)

lemma imm_s: "rv_imm_s (enc_s imm rs2 rs1 f3 op) = signed_take_bit 11 imm"
  by (rule bit_word_eqI) (simp add: bit_cases_32, elim disjE; simp add: rv_imm_s_def enc_s_def bit_simps)

lemma imm_b: "rv_imm_b (enc_b imm rs2 rs1 f3 op) = signed_take_bit 12 imm AND NOT 1"
  by (rule bit_word_eqI) (simp add: bit_cases_32, elim disjE; simp add: rv_imm_b_def enc_b_def bit_simps bit_iff_odd_drop_bit [symmetric]
      numeral_2_eq_2 [symmetric] numeral_3_eq_3 [symmetric])

lemma imm_u: "rv_imm_u (enc_u imm rd op) = imm AND 0xFFFFF000"
  by (rule bit_word_eqI) (simp add: bit_cases_32, elim disjE; simp add: rv_imm_u_def enc_u_def bit_simps)

lemma imm_j: "rv_imm_j (enc_j imm rd op) = signed_take_bit 20 imm AND NOT 1"
  by (rule bit_word_eqI) (simp add: bit_cases_32, elim disjE; simp add: rv_imm_j_def enc_j_def bit_simps bit_iff_odd_drop_bit [symmetric]
      numeral_2_eq_2 [symmetric] numeral_3_eq_3 [symmetric])

lemma unat_reg: "unat (take_bit 5 (of_nat k :: u32)) = k mod 32"
  by (simp only: unsigned_take_bit_eq unsigned_of_nat) (simp add: take_bit_eq_mod mod_mod_cancel)

lemma fields_enc_i:
  "rv_opcode (enc_i imm rs1 f3 rd op) = take_bit 7 op" "rv_funct3 (enc_i imm rs1 f3 rd op) = take_bit 3 f3"
  "rv_rd (enc_i imm rs1 f3 rd op) = rd mod 32" "rv_rs1 (enc_i imm rs1 f3 rd op) = rs1 mod 32"
  "rv_funct7 (enc_i imm rs1 f3 rd op) = take_bit 7 (shr imm 5)"
  "rv_rs2 (enc_i imm rs1 f3 rd op) = unat (take_bit 5 imm)"
proof -
  have f: "shr (enc_i imm rs1 f3 rd op) 7 AND 0x1F = take_bit 5 (of_nat rd)"
      "shr (enc_i imm rs1 f3 rd op) 15 AND 0x1F = take_bit 5 (of_nat rs1)"
      "shr (enc_i imm rs1 f3 rd op) 20 AND 0x1F = take_bit 5 imm"
      "shr (enc_i imm rs1 f3 rd op) 25 AND 0x7F = take_bit 7 (shr imm 5)"
      "shr (enc_i imm rs1 f3 rd op) 12 AND 0x7 = take_bit 3 f3"
      "enc_i imm rs1 f3 rd op AND 0x7F = take_bit 7 op"
    unfolding low_masks(3,4) mask_7 enc_i_def
    by (rule bit_word_eqI, auto simp: bit_simps)+
  show "rv_opcode (enc_i imm rs1 f3 rd op) = take_bit 7 op" "rv_funct3 (enc_i imm rs1 f3 rd op) = take_bit 3 f3"
    "rv_rd (enc_i imm rs1 f3 rd op) = rd mod 32" "rv_rs1 (enc_i imm rs1 f3 rd op) = rs1 mod 32"
    "rv_funct7 (enc_i imm rs1 f3 rd op) = take_bit 7 (shr imm 5)"
    "rv_rs2 (enc_i imm rs1 f3 rd op) = unat (take_bit 5 imm)"
    unfolding rv_opcode_def rv_funct3_def rv_rd_def rv_rs1_def rv_funct7_def rv_rs2_def f by (simp_all only: unat_reg)
qed

lemma fields_enc_s:
  assumes "e = enc_s imm rs2 rs1 f3 op \<or> e = enc_b imm rs2 rs1 f3 op"
  shows "rv_opcode e = take_bit 7 op" "rv_funct3 e = take_bit 3 f3" "rv_rs1 e = rs1 mod 32" "rv_rs2 e = rs2 mod 32"
proof -
  have f: "shr e 15 AND 0x1F = take_bit 5 (of_nat rs1)" "shr e 20 AND 0x1F = take_bit 5 (of_nat rs2)"
      "shr e 12 AND 0x7 = take_bit 3 f3" "e AND 0x7F = take_bit 7 op"
    using assms unfolding low_masks(3,4) mask_7 enc_s_def enc_b_def
    by (auto intro!: bit_word_eqI simp: bit_simps)
  show "rv_opcode e = take_bit 7 op" "rv_funct3 e = take_bit 3 f3" "rv_rs1 e = rs1 mod 32" "rv_rs2 e = rs2 mod 32"
    unfolding rv_opcode_def rv_funct3_def rv_rs1_def rv_rs2_def f by (simp_all only: unat_reg)
qed

lemma fields_enc_u:
  assumes "e = enc_u imm rd op \<or> e = enc_j imm rd op"
  shows "rv_opcode e = take_bit 7 op" "rv_rd e = rd mod 32"
proof -
  have f: "shr e 7 AND 0x1F = take_bit 5 (of_nat rd)" "e AND 0x7F = take_bit 7 op"
    using assms unfolding low_masks(3,4) mask_7 enc_u_def enc_j_def
    by (auto intro!: bit_word_eqI simp: bit_simps)
  show "rv_opcode e = take_bit 7 op" "rv_rd e = rd mod 32"
    unfolding rv_opcode_def rv_rd_def f by (simp_all only: unat_reg)
qed

section \<open>Compressed instructions as abbreviations\<close>

text \<open>The immediates of the compressed formats, as the architecture tabulates them: pairs of a bit of
  the instruction and the bit of the immediate it is.\<close>

definition gather :: "(nat \<times> nat) list \<Rightarrow> u32 \<Rightarrow> u32" where
  "gather ps ci = foldr (\<lambda>(from, to) w. shl (take_bit 1 (shr ci from)) to OR w) ps 0"

definition spec_ci :: "u32 \<Rightarrow> u32" where
  "spec_ci = gather [(12, 5), (6, 4), (5, 3), (4, 2), (3, 1), (2, 0)]"

definition spec_ciw :: "u32 \<Rightarrow> u32" where
  "spec_ciw = gather [(12, 5), (11, 4), (10, 9), (9, 8), (8, 7), (7, 6), (6, 2), (5, 3)]"

definition spec_clw :: "u32 \<Rightarrow> u32" where
  "spec_clw = gather [(12, 5), (11, 4), (10, 3), (6, 2), (5, 6)]"

definition spec_cj :: "u32 \<Rightarrow> u32" where
  "spec_cj = gather [(12, 11), (11, 4), (10, 9), (9, 8), (8, 10), (7, 6), (6, 7), (5, 3), (4, 2), (3, 1), (2, 5)]"

definition spec_cb :: "u32 \<Rightarrow> u32" where
  "spec_cb = gather [(12, 8), (11, 4), (10, 3), (6, 7), (5, 6), (4, 2), (3, 1), (2, 5)]"

definition spec_16sp :: "u32 \<Rightarrow> u32" where
  "spec_16sp = gather [(12, 9), (6, 4), (5, 6), (4, 8), (3, 7), (2, 5)]"

definition spec_lwsp :: "u32 \<Rightarrow> u32" where
  "spec_lwsp = gather [(12, 5), (6, 4), (5, 3), (4, 2), (3, 7), (2, 6)]"

definition spec_swsp :: "u32 \<Rightarrow> u32" where
  "spec_swsp = gather [(12, 5), (11, 4), (10, 3), (9, 2), (8, 7), (7, 6)]"

lemmas spec_imm_defs = spec_ci_def spec_ciw_def spec_clw_def spec_cj_def spec_cb_def spec_16sp_def spec_lwsp_def
  spec_swsp_def gather_def

lemma and_numeral_bit:
  "(v AND 0x20 = 0) = (\<not> bit v 5)" "(v AND 0x800 = 0) = (\<not> bit v 11)" "(v AND 0x100 = 0) = (\<not> bit v 8)"
  "(v AND 0x200 = 0) = (\<not> bit v 9)" for v :: u32
  using and_exp_eq_0 [of v 5] and_exp_eq_0 [of v 11] and_exp_eq_0 [of v 8] and_exp_eq_0 [of v 9] by simp_all

lemma bit_mod_2: "bit (w mod 2) n \<longleftrightarrow> n = 0 \<and> odd w" for w :: u32
  using bit_take_bit_iff [of 1 w n] by (auto simp: take_bit_eq_mod bit_0)

lemma c_imm_spec:
  "c_imm_spn ci = spec_ciw ci" "c_off_w ci = spec_clw ci" "c_off_lwsp ci = spec_lwsp ci" "c_off_swsp ci = spec_swsp ci"
  "c_shamt ci = spec_ci ci"
  by (rule bit_word_eqI, simp add: bit_cases_32, elim disjE;
      simp add: c_imm_spn_def c_off_w_def c_off_lwsp_def c_off_swsp_def c_shamt_def spec_imm_defs bit_simps bit_times_2 bit_mod_2
        bit_iff_odd_drop_bit [symmetric] numeral_2_eq_2 [symmetric] numeral_3_eq_3 [symmetric])+

lemma c_imm_spec_signed:
  "c_imm6 ci = signed_take_bit 5 (spec_ci ci)" "c_off_j ci = signed_take_bit 11 (spec_cj ci)"
  "c_off_b ci = signed_take_bit 8 (spec_cb ci)" "c_imm_16sp ci = signed_take_bit 9 (spec_16sp ci)"
  unfolding c_imm6_def c_off_j_def c_off_b_def c_imm_16sp_def c_shamt_def Let_def and_numeral_bit
  by (rule bit_word_eqI, simp add: bit_cases_32, elim disjE;
      simp add: spec_imm_defs bit_simps bit_times_2 bit_mod_2
        bit_iff_odd_drop_bit [symmetric] numeral_2_eq_2 [symmetric] numeral_3_eq_3 [symmetric])+

text \<open>The expansion of the compressed instructions of the C extension for 32 bits without floating point.\<close>

definition expand_quad0 :: "u32 \<Rightarrow> u32 option" where
  "expand_quad0 ci =
     (let f = shr ci 13 AND 7; r1 = c_rs1_p ci; r2 = c_rd_p ci in
      if f = 0 \<and> spec_ciw ci \<noteq> 0 then Some (enc_i (spec_ciw ci) 2 0 r2 0x13)
      else if f = 2 then Some (enc_i (spec_clw ci) r1 2 r2 0x03)
      else if f = 6 then Some (enc_s (spec_clw ci) r2 r1 2 0x23)
      else None)"

definition expand_misc :: "u32 \<Rightarrow> u32 option" where
  "expand_misc ci =
     (let f2 = shr ci 10 AND 3; g = shr ci 5 AND 3; r1 = c_rs1_p ci; r2 = c_rd_p ci;
          sh = unat (spec_ci ci) in
      if f2 = 0 \<and> sh < 32 then Some (enc_r 0 sh r1 5 r1 0x13)
      else if f2 = 1 \<and> sh < 32 then Some (enc_r 0x20 sh r1 5 r1 0x13)
      else if f2 = 2 then Some (enc_i (signed_take_bit 5 (spec_ci ci)) r1 7 r1 0x13)
      else if f2 = 3 \<and> shr ci 12 AND 1 = 0 then
        Some (if g = 0 then enc_r 0x20 r2 r1 0 r1 0x33 else if g = 1 then enc_r 0 r2 r1 4 r1 0x33
              else if g = 2 then enc_r 0 r2 r1 6 r1 0x33 else enc_r 0 r2 r1 7 r1 0x33)
      else None)"

definition expand_quad1 :: "u32 \<Rightarrow> u32 option" where
  "expand_quad1 ci =
     (let f = shr ci 13 AND 7; rd = c_rd ci; imm = signed_take_bit 5 (spec_ci ci); r1 = c_rs1_p ci;
          imm16 = signed_take_bit 9 (spec_16sp ci) in
      if f = 0 then Some (enc_i imm rd 0 rd 0x13)
      else if f = 1 then Some (enc_j (signed_take_bit 11 (spec_cj ci)) 1 0x6F)
      else if f = 2 then Some (enc_i imm 0 0 rd 0x13)
      else if f = 3 then
        (if rd = 2 then (if imm16 \<noteq> 0 then Some (enc_i imm16 2 0 2 0x13) else None)
         else if rd \<noteq> 0 \<and> imm \<noteq> 0 then Some (enc_u (shl imm 12) rd 0x37) else None)
      else if f = 4 then expand_misc ci
      else if f = 5 then Some (enc_j (signed_take_bit 11 (spec_cj ci)) 0 0x6F)
      else Some (enc_b (signed_take_bit 8 (spec_cb ci)) 0 r1 (if f = 6 then 0 else 1) 0x63))"

definition expand_quad2 :: "u32 \<Rightarrow> u32 option" where
  "expand_quad2 ci =
     (let f = shr ci 13 AND 7; rd = c_rd ci; rs2 = c_rs2 ci; sh = unat (spec_ci ci) in
      if f = 0 \<and> sh < 32 then Some (enc_r 0 sh rd 1 rd 0x13)
      else if f = 2 \<and> rd \<noteq> 0 then Some (enc_i (spec_lwsp ci) 2 2 rd 0x03)
      else if f = 4 then
        (if shr ci 12 AND 1 = 0 then
           (if rs2 \<noteq> 0 then Some (enc_r 0 rs2 0 0 rd 0x33) else if rd \<noteq> 0 then Some (enc_i 0 rd 0 0 0x67) else None)
         else if rd \<noteq> 0 then Some (if rs2 = 0 then enc_i 0 rd 0 1 0x67 else enc_r 0 rs2 rd 0 rd 0x33)
         else if rs2 = 0 then Some (enc_i 1 0 0 0 0x73)
         else None)
      else if f = 6 then Some (enc_s (spec_swsp ci) rs2 2 2 0x23)
      else None)"

definition rv_expand :: "u16 \<Rightarrow> u32 option" where
  "rv_expand lo =
     (let ci = ucast lo :: u32; quad = ci AND 3 in
      if quad = 0 then expand_quad0 ci else if quad = 1 then expand_quad1 ci
      else if quad = 2 then expand_quad2 ci else None)"

text \<open>What the instructions mean that compressed ones abbreviate, for an instruction that is \<open>n\<close> bytes
  long: the same as for the instructions of 32 bits, with the following address in place of the
  address four bytes further on. Of the system instructions only EBREAK has an abbreviation.\<close>

definition exec_len :: "u32 \<Rightarrow> 's rv_bus \<Rightarrow> u32 \<Rightarrow> u32 \<Rightarrow> 's rv \<Rightarrow> 's rv option" where
  "exec_len n b instr pc st =
     (let c = fst st; op = rv_opcode instr; rd = rv_rd instr; funct3 = rv_funct3 instr; rs2 = rv_rs2 instr;
          funct7 = rv_funct7 instr; x1 = rx c (rv_rs1 instr); x2 = rx c rs2; npc = pc + n in
      if op = 0x37 then rv_fin_rd rd (rv_imm_u instr) npc st
      else if op = 0x6F then rv_jump rd npc (pc + rv_imm_j instr) st
      else if op = 0x67 then
        (if funct3 \<noteq> 0 then None else rv_fin_rd rd npc ((x1 + rv_imm_i instr) AND NOT 1) st)
      else if op = 0x63 then
        (case rv_branch_taken funct3 x1 x2 of
           None \<Rightarrow> None
         | Some False \<Rightarrow> rv_fin npc st
         | Some True \<Rightarrow> (let target = pc + rv_imm_b instr in
                         if target AND 1 \<noteq> 0 then rv_trap 0 target st else rv_fin target st))
      else if op = 0x03 then rv_load b funct3 (x1 + rv_imm_i instr) rd npc st
      else if op = 0x23 then rv_store b funct3 (x1 + rv_imm_s instr) x2 npc st
      else if op = 0x13 then
        (case rv_op_imm funct3 funct7 rs2 (rv_imm_i instr) x1 of Some r \<Rightarrow> rv_fin_rd rd r npc st | None \<Rightarrow> None)
      else if op = 0x73 then rv_ebreak b pc npc st
      else
        (case rv_op_reg funct3 funct7 x1 x2 of Some r \<Rightarrow> rv_fin_rd rd r npc st | None \<Rightarrow> None))"

lemma exec_len_4:
  "rv_opcode instr \<in> {0x37, 0x6F, 0x67, 0x63, 0x03, 0x23, 0x13, 0x33} \<Longrightarrow> exec_len 4 b instr pc st = rv_exec32 b instr pc st"
  unfolding exec_len_def rv_exec32_def Let_def by (elim insertE) simp_all

lemma enc_ebreak:
  "rv_opcode (enc_i 1 0 0 0 0x73) = 0x73" "rv_funct3 (enc_i 1 0 0 0 0x73) = 0" "shr (enc_i 1 0 0 0 0x73) 20 AND 0xFFF = (1 :: u32)"
  by (simp_all add: enc_i_def rv_opcode_def rv_funct3_def)

lemma exec_len_ebreak:
  "exec_len n b (enc_i 1 0 0 0 0x73) pc st = rv_ebreak b pc (pc + n) st"
  "rv_exec32 b (enc_i 1 0 0 0 0x73) pc st = rv_ebreak b pc (pc + 4) st"
  by (simp_all add: exec_len_def rv_exec32_def rv_system_def enc_ebreak Let_def)

lemma fields_enc_r:
  "rv_opcode (enc_r f7 rs2 rs1 f3 rd op) = take_bit 7 op" "rv_funct3 (enc_r f7 rs2 rs1 f3 rd op) = take_bit 3 f3"
  "rv_rd (enc_r f7 rs2 rs1 f3 rd op) = rd mod 32" "rv_rs1 (enc_r f7 rs2 rs1 f3 rd op) = rs1 mod 32"
  "rv_funct7 (enc_r f7 rs2 rs1 f3 rd op) = take_bit 7 f7" "rv_rs2 (enc_r f7 rs2 rs1 f3 rd op) = rs2 mod 32"
proof -
  have "shr (shl (take_bit 7 f7) 5 OR take_bit 5 (of_nat rs2 :: u32)) 5 = take_bit 7 f7"
    "take_bit 5 (shl (take_bit 7 f7) 5 OR take_bit 5 (of_nat rs2 :: u32)) = take_bit 5 (of_nat rs2)"
    by (rule bit_word_eqI, auto simp: bit_simps)+
  then show "rv_opcode (enc_r f7 rs2 rs1 f3 rd op) = take_bit 7 op" "rv_funct3 (enc_r f7 rs2 rs1 f3 rd op) = take_bit 3 f3"
    "rv_rd (enc_r f7 rs2 rs1 f3 rd op) = rd mod 32" "rv_rs1 (enc_r f7 rs2 rs1 f3 rd op) = rs1 mod 32"
    "rv_funct7 (enc_r f7 rs2 rs1 f3 rd op) = take_bit 7 f7" "rv_rs2 (enc_r f7 rs2 rs1 f3 rd op) = rs2 mod 32"
    unfolding enc_r_def fields_enc_i by (simp_all only: unat_reg take_bit_take_bit min.idem)
qed

lemma spec_imm_narrow:
  "signed_take_bit 11 (spec_ciw ci) = spec_ciw ci" "signed_take_bit 11 (spec_clw ci) = spec_clw ci"
  "signed_take_bit 11 (spec_lwsp ci) = spec_lwsp ci" "signed_take_bit 11 (spec_swsp ci) = spec_swsp ci"
  "signed_take_bit 12 (signed_take_bit 8 (spec_cb ci)) AND NOT 1 = signed_take_bit 8 (spec_cb ci)"
  "signed_take_bit 20 (signed_take_bit 11 (spec_cj ci)) AND NOT 1 = signed_take_bit 11 (spec_cj ci)"
  by (rule bit_word_eqI, simp add: bit_cases_32, elim disjE;
      simp add: spec_imm_defs bit_simps bit_times_2 bit_mod_2)+

lemma spec_imm_even: "\<not> bit (signed_take_bit 8 (spec_cb ci)) 0" "\<not> bit (signed_take_bit 11 (spec_cj ci)) 0"
  using rv_imm_even(2) [of "enc_b (signed_take_bit 8 (spec_cb ci)) 0 0 0 0"]
    rv_imm_even(1) [of "enc_j (signed_take_bit 11 (spec_cj ci)) 0 0"]
  unfolding imm_b imm_j spec_imm_narrow by simp_all

lemma c_reg_less: "c_rd ci < 32" "c_rs2 ci < 32" "c_rd_p ci < 32" "c_rs1_p ci < 32" "c_rd_p ci \<noteq> 0" "c_rs1_p ci \<noteq> 0"
  unfolding c_rd_def c_rs2_def c_rd_p_def c_rs1_p_def low_masks(3,4) unat_field
  using mod_less_divisor [of 8 "unat ci div 4"] mod_less_divisor [of 8 "unat ci div 128"]
  by (simp_all add: less_imp_le)

lemma c_reg_mod [simp]:
  "c_rd ci mod 32 = c_rd ci" "c_rs2 ci mod 32 = c_rs2 ci" "c_rd_p ci mod 32 = c_rd_p ci" "c_rs1_p ci mod 32 = c_rs1_p ci"
  by (simp_all add: c_reg_less)

text \<open>The meaning of the instructions that occur in expansions.\<close>

lemma exec_alu_imm:
  "exec_len n b (enc_i imm r1 0 rd 0x13) pc st = rv_fin_rd (rd mod 32) (rx (fst st) (r1 mod 32) + signed_take_bit 11 imm) (pc + n) st"
  "exec_len n b (enc_i imm r1 7 rd 0x13) pc st = rv_fin_rd (rd mod 32) (rx (fst st) (r1 mod 32) AND signed_take_bit 11 imm) (pc + n) st"
  "exec_len n b (enc_u imm rd 0x37) pc st = rv_fin_rd (rd mod 32) (imm AND 0xFFFFF000) (pc + n) st"
  unfolding exec_len_def Let_def fields_enc_i fields_enc_u [OF disjI1 [OF refl]] imm_i imm_u
  by (simp_all add: rv_op_imm_def)

lemma exec_shift_imm:
  assumes "sh < 32"
  shows "exec_len n b (enc_r 0 sh r1 1 rd 0x13) pc st = rv_fin_rd (rd mod 32) (shl (rx (fst st) (r1 mod 32)) sh) (pc + n) st"
    "exec_len n b (enc_r 0 sh r1 5 rd 0x13) pc st = rv_fin_rd (rd mod 32) (shr (rx (fst st) (r1 mod 32)) sh) (pc + n) st"
    "exec_len n b (enc_r 0x20 sh r1 5 rd 0x13) pc st = rv_fin_rd (rd mod 32) (asr (rx (fst st) (r1 mod 32)) sh) (pc + n) st"
  unfolding exec_len_def Let_def fields_enc_r using assms by (simp_all add: rv_op_imm_def)

lemma exec_alu_reg:
  "exec_len n b (enc_r 0 r2 r1 0 rd 0x33) pc st = rv_fin_rd (rd mod 32) (rx (fst st) (r1 mod 32) + rx (fst st) (r2 mod 32)) (pc + n) st"
  "exec_len n b (enc_r 0x20 r2 r1 0 rd 0x33) pc st = rv_fin_rd (rd mod 32) (rx (fst st) (r1 mod 32) - rx (fst st) (r2 mod 32)) (pc + n) st"
  "exec_len n b (enc_r 0 r2 r1 4 rd 0x33) pc st = rv_fin_rd (rd mod 32) (rx (fst st) (r1 mod 32) XOR rx (fst st) (r2 mod 32)) (pc + n) st"
  "exec_len n b (enc_r 0 r2 r1 6 rd 0x33) pc st = rv_fin_rd (rd mod 32) (rx (fst st) (r1 mod 32) OR rx (fst st) (r2 mod 32)) (pc + n) st"
  "exec_len n b (enc_r 0 r2 r1 7 rd 0x33) pc st = rv_fin_rd (rd mod 32) (rx (fst st) (r1 mod 32) AND rx (fst st) (r2 mod 32)) (pc + n) st"
  unfolding exec_len_def Let_def fields_enc_r by (simp_all add: rv_op_reg_def rv_base_alu_def rv_alt_alu_def)

lemma exec_memory:
  "exec_len n b (enc_i imm r1 2 rd 0x03) pc st = rv_load b 2 (rx (fst st) (r1 mod 32) + signed_take_bit 11 imm) (rd mod 32) (pc + n) st"
  "exec_len n b (enc_s imm r2 r1 2 0x23) pc st =
     rv_store b 2 (rx (fst st) (r1 mod 32) + signed_take_bit 11 imm) (rx (fst st) (r2 mod 32)) (pc + n) st"
  unfolding exec_len_def Let_def fields_enc_i fields_enc_s [OF disjI1 [OF refl]] imm_i imm_s by simp_all

lemma exec_control:
  "exec_len n b (enc_i 0 r1 0 rd 0x67) pc st = rv_fin_rd (rd mod 32) (pc + n) (rx (fst st) (r1 mod 32) AND NOT 1) st"
  "exec_len n b (enc_j imm rd 0x6F) pc st = rv_jump (rd mod 32) (pc + n) (pc + (signed_take_bit 20 imm AND NOT 1)) st"
  unfolding exec_len_def Let_def fields_enc_i fields_enc_u [OF disjI2 [OF refl]] imm_i imm_j by simp_all

lemma exec_branch:
  assumes "\<not> bit pc 0" "\<not> bit (signed_take_bit 12 imm AND NOT 1) 0"
  shows "exec_len n b (enc_b imm r2 r1 0 0x63) pc st =
      rv_fin (if rx (fst st) (r1 mod 32) = rx (fst st) (r2 mod 32) then pc + (signed_take_bit 12 imm AND NOT 1) else pc + n) st"
    "exec_len n b (enc_b imm r2 r1 1 0x63) pc st =
      rv_fin (if rx (fst st) (r1 mod 32) \<noteq> rx (fst st) (r2 mod 32) then pc + (signed_take_bit 12 imm AND NOT 1) else pc + n) st"
  unfolding exec_len_def Let_def fields_enc_s [OF disjI2 [OF refl]] imm_b
  using even_sum [OF assms] by (simp_all add: rv_branch_taken_def)

lemmas exec_expanded = exec_alu_imm exec_alu_reg exec_memory exec_control

lemma c_set_rd: "i \<noteq> 0 \<Longrightarrow> c_set i v npc st = rv_fin_rd i v npc st"
  by (simp add: c_set_def rv_fin_rd_def rv_write_rd_def)

lemma expand_quad0_exec:
  assumes "expand_quad0 ci = Some instr"
  shows "rv_c_quad0 b ci (pc + 2) st = exec_len 2 b instr pc st"
proof -
  consider (spn) "shr ci 13 AND 7 = 0" "spec_ciw ci \<noteq> 0" "instr = enc_i (spec_ciw ci) 2 0 (c_rd_p ci) 0x13"
    | (lw) "shr ci 13 AND 7 = 2" "instr = enc_i (spec_clw ci) (c_rs1_p ci) 2 (c_rd_p ci) 0x03"
    | (sw) "shr ci 13 AND 7 = 6" "instr = enc_s (spec_clw ci) (c_rd_p ci) (c_rs1_p ci) 2 0x23"
    using assms by (auto simp: expand_quad0_def Let_def split: if_splits)
  then show ?thesis
  proof cases
    case spn
    then show ?thesis by (simp add: rv_c_quad0_def Let_def exec_expanded c_imm_spec spec_imm_narrow split: prod.split)
  next
    case lw
    then show ?thesis by (simp add: rv_c_quad0_def Let_def exec_expanded c_imm_spec spec_imm_narrow split: prod.split)
  next
    case sw
    then show ?thesis by (simp add: rv_c_quad0_def Let_def exec_expanded c_imm_spec spec_imm_narrow split: prod.split)
  qed
qed

lemma shamt_small: "unat sh < 32 \<Longrightarrow> unat (sh AND 0x1F) = unat sh" for sh :: u32
  using unat_field [of 0 sh 5] by (simp add: low_masks(4))

lemma expand_misc_exec:
  assumes "expand_misc ci = Some instr"
  shows "(case rv_c_misc ci (rx (fst st) (c_rs1_p ci)) (rx (fst st) (c_rd_p ci)) of
      Some r \<Rightarrow> c_set (c_rs1_p ci) r (pc + 2) st | None \<Rightarrow> None) = exec_len 2 b instr pc st"
proof -
  let ?r1 = "c_rs1_p ci" and ?r2 = "c_rd_p ci" and ?f = "shr ci 10 AND 3" and ?g = "shr ci 5 AND 3"
  have s: "signed_take_bit 11 (signed_take_bit 5 (spec_ci ci)) = signed_take_bit 5 (spec_ci ci)" by simp
  consider (srl) "?f = 0" "unat (spec_ci ci) < 32" "instr = enc_r 0 (unat (spec_ci ci)) ?r1 5 ?r1 0x13"
    | (sra) "?f = 1" "unat (spec_ci ci) < 32" "instr = enc_r 0x20 (unat (spec_ci ci)) ?r1 5 ?r1 0x13"
    | (andi) "?f = 2" "instr = enc_i (signed_take_bit 5 (spec_ci ci)) ?r1 7 ?r1 0x13"
    | (sub) "?f = 3" "shr ci 12 AND 1 = 0" "?g = 0" "instr = enc_r 0x20 ?r2 ?r1 0 ?r1 0x33"
    | (xor) "?f = 3" "shr ci 12 AND 1 = 0" "?g = 1" "instr = enc_r 0 ?r2 ?r1 4 ?r1 0x33"
    | (or) "?f = 3" "shr ci 12 AND 1 = 0" "?g = 2" "instr = enc_r 0 ?r2 ?r1 6 ?r1 0x33"
    | (andr) "?f = 3" "shr ci 12 AND 1 = 0" "?g \<notin> {0, 1, 2}" "instr = enc_r 0 ?r2 ?r1 7 ?r1 0x33"
    using assms by (auto simp: expand_misc_def Let_def split: if_splits)
  then show ?thesis
    by cases (simp_all add: rv_c_misc_def Let_def exec_expanded exec_shift_imm shamt_small c_imm_spec c_imm_spec_signed s
        c_set_rd c_reg_less)
qed

lemma expand_quad1_exec:
  assumes "expand_quad1 ci = Some instr" and z: "rx (fst st) 0 = 0" and pc: "\<not> bit pc 0"
  shows "rv_c_quad1 ci pc st = exec_len 2 b instr pc st"
proof -
  let ?f = "shr ci 13 AND 7" and ?rd = "c_rd ci" and ?imm = "signed_take_bit 5 (spec_ci ci)" and ?r1 = "c_rs1_p ci"
  have s: "signed_take_bit 11 ?imm = ?imm" "signed_take_bit 11 (signed_take_bit 9 (spec_16sp ci)) = signed_take_bit 9 (spec_16sp ci)"
    by simp_all
  have l: "shl ?imm 12 AND 0xFFFFF000 = shl ?imm 12"
    by (rule bit_word_eqI) (simp add: bit_cases_32, elim disjE; simp add: bit_simps)
  have lt: "unat ?f < 8" using unat_field [of 13 ci 3] by (simp add: low_masks(3))
  have e: "\<not> bit (signed_take_bit 12 (signed_take_bit 8 (spec_cb ci)) AND NOT 1) 0" by (simp add: bit_and_iff bit_not_iff)
  have m: "signed_take_bit 11 (spec_cj ci) AND - 2 = signed_take_bit 11 (spec_cj ci)"
    using spec_imm_narrow(6) [of ci] by simp
  note j = even_sum [OF pc spec_imm_even(2) [of ci]]
  consider (addi) "?f = 0" "instr = enc_i ?imm ?rd 0 ?rd 0x13"
    | (jal) "?f = 1" "instr = enc_j (signed_take_bit 11 (spec_cj ci)) 1 0x6F"
    | (li) "?f = 2" "instr = enc_i ?imm 0 0 ?rd 0x13"
    | (sp) "?f = 3" "?rd = 2" "signed_take_bit 9 (spec_16sp ci) \<noteq> 0" "instr = enc_i (signed_take_bit 9 (spec_16sp ci)) 2 0 2 0x13"
    | (lui) "?f = 3" "?rd \<noteq> 2" "?rd \<noteq> 0" "?imm \<noteq> 0" "instr = enc_u (shl ?imm 12) ?rd 0x37"
    | (misc) "?f = 4" "expand_misc ci = Some instr"
    | (jmp) "?f = 5" "instr = enc_j (signed_take_bit 11 (spec_cj ci)) 0 0x6F"
    | (beqz) "?f = 6" "instr = enc_b (signed_take_bit 8 (spec_cb ci)) 0 ?r1 0 0x63"
    | (bnez) "?f \<notin> {0, 1, 2, 3, 4, 5, 6}" "instr = enc_b (signed_take_bit 8 (spec_cb ci)) 0 ?r1 1 0x63"
    using assms(1) by (auto simp: expand_quad1_def Let_def split: if_splits)
  then show ?thesis
  proof cases
    case sp
    then show ?thesis by (simp add: rv_c_quad1_def Let_def exec_expanded c_imm_spec_signed s c_set_rd)
  next
    case misc
    then show ?thesis using expand_misc_exec [OF misc(2), where st = st and pc = pc and b = b] by (simp add: rv_c_quad1_def Let_def)
  next
    case beqz
    then show ?thesis
      using exec_branch [OF pc e, of 2 b 0 ?r1 st, unfolded spec_imm_narrow] z
      by (simp add: rv_c_quad1_def Let_def c_imm_spec_signed spec_imm_narrow c_reg_less)
  next
    case bnez
    then show ?thesis
      using exec_branch [OF pc e, of 2 b 0 ?r1 st, unfolded spec_imm_narrow] z
      by (simp add: rv_c_quad1_def Let_def c_imm_spec_signed spec_imm_narrow c_reg_less)
  qed (simp_all add: rv_c_quad1_def Let_def exec_expanded c_imm_spec_signed spec_imm_narrow s l z rv_jump_def j m
      rv_write_rd_def)
qed

lemma expand_quad2_exec:
  assumes "expand_quad2 ci = Some instr" and z: "rx (fst st) 0 = 0"
  shows "rv_c_quad2 b ci pc st = exec_len 2 b instr pc st"
proof -
  let ?f = "shr ci 13 AND 7" and ?rd = "c_rd ci" and ?rs2 = "c_rs2 ci" and ?b = "shr ci 12 AND 1"
  consider (slli) "?f = 0" "unat (spec_ci ci) < 32" "instr = enc_r 0 (unat (spec_ci ci)) ?rd 1 ?rd 0x13"
    | (lwsp) "?f = 2" "?rd \<noteq> 0" "instr = enc_i (spec_lwsp ci) 2 2 ?rd 0x03"
    | (mv) "?f = 4" "?b = 0" "?rs2 \<noteq> 0" "instr = enc_r 0 ?rs2 0 0 ?rd 0x33"
    | (jr) "?f = 4" "?b = 0" "?rs2 = 0" "?rd \<noteq> 0" "instr = enc_i 0 ?rd 0 0 0x67"
    | (jalr) "?f = 4" "?b \<noteq> 0" "?rs2 = 0" "?rd \<noteq> 0" "instr = enc_i 0 ?rd 0 1 0x67"
    | (ebreak) "?f = 4" "?b \<noteq> 0" "?rs2 = 0" "?rd = 0" "instr = enc_i 1 0 0 0 0x73"
    | (add) "?f = 4" "?b \<noteq> 0" "?rs2 \<noteq> 0" "?rd \<noteq> 0" "instr = enc_r 0 ?rs2 ?rd 0 ?rd 0x33"
    | (swsp) "?f = 6" "instr = enc_s (spec_swsp ci) ?rs2 2 2 0x23"
    using assms(1) by (auto simp: expand_quad2_def Let_def split: if_splits)
  then show ?thesis
    by cases (simp_all add: rv_c_quad2_def Let_def exec_expanded exec_shift_imm shamt_small c_imm_spec spec_imm_narrow z
        c_set_rd rv_fin_rd_def rv_write_rd_def exec_len_ebreak)
qed

lemma expand_opcode:
  assumes "rv_expand lo = Some instr"
  shows "rv_opcode instr \<in> {0x37, 0x6F, 0x67, 0x63, 0x03, 0x23, 0x13, 0x33} \<or> instr = enc_i 1 0 0 0 0x73"
  using assms
  by (auto simp: rv_expand_def expand_quad0_def expand_quad1_def expand_quad2_def expand_misc_def Let_def
      fields_enc_i fields_enc_r fields_enc_s [OF disjI1 [OF refl]] fields_enc_s [OF disjI2 [OF refl]]
      fields_enc_u [OF disjI1 [OF refl]] fields_enc_u [OF disjI2 [OF refl]] split: if_splits)



section \<open>Compressed instructions that deviate\<close>

text \<open>Of the extensions Zcb and Zcmp the code decodes other encodings than the architecture has: c.zext.b of register 8
  inverts it, and c.lbu of register 8 and cm.push of the return address are illegal.\<close>

lemma zext_b_inverts:
  "rv_exec16 b 0x9C61 pc (c, s) = Some (rv_retire (pc + 2) (set_x 8 (NOT (rx c 8)) c), s)"
  by (simp add: rv_exec16_def rv_c_quad1_def rv_c_misc_def c_rs1_p_def c_set_def rv_fin_def Let_def)

lemma c_lbu_illegal: "rv_exec16 b 0x8000 pc st = None"
  by (simp add: rv_exec16_def rv_c_quad0_def Let_def)

lemma cm_push_illegal: "rv_exec16 b 0xB842 pc st = None"
  by (simp add: rv_exec16_def rv_c_quad2_def Let_def)

end
