(* ===== verification/Rv_Clint.thy ===== *)
theory Rv_Clint
  imports Rv_Laws
begin

unbundle bit_operations_syntax

text \<open>
  The core-local interruptor of the RISC-V harts, \<^verbatim>\<open>src/rp2350_rv/rv_clint.c\<close>: a 64-bit machine timer
  driven by cycles, one compare register and one software interrupt per hart, the pending and enable
  masks of the external lines, and the delivery of the most urgent interrupt to a hart.
\<close>

section \<open>State and operations\<close>

record rv_clint =
  cl_mtime :: u64
  cl_mtimecmp :: "nat \<Rightarrow> u64"
  cl_msip :: "nat \<Rightarrow> u32"
  cl_ext_pending :: u64
  cl_ext_enable :: "nat \<Rightarrow> u64"
  cl_ext_priority :: "nat \<Rightarrow> u64"
  cl_tick_us :: u32
  cl_cycles_per_us :: u32
  cl_cycle_accum :: u32

definition rv_clint_init :: "u32 \<Rightarrow> rv_clint" where
  "rv_clint_init cycles_per_us =
     \<lparr>cl_mtime = 0, cl_mtimecmp = (\<lambda>_. 0xFFFFFFFFFFFFFFFF), cl_msip = (\<lambda>_. 0), cl_ext_pending = 0,
      cl_ext_enable = (\<lambda>_. 0), cl_ext_priority = (\<lambda>_. 0), cl_tick_us = 1,
      cl_cycles_per_us = (if cycles_per_us > 0 then cycles_per_us else 1), cl_cycle_accum = 0\<rparr>"

definition rv_clint_tick :: "u32 \<Rightarrow> rv_clint \<Rightarrow> rv_clint" where
  "rv_clint_tick cycles k =
     (let acc = cl_cycle_accum k + cycles in
      if acc \<ge> cl_cycles_per_us k then
        k\<lparr>cl_mtime := cl_mtime k + ucast (acc div cl_cycles_per_us k), cl_cycle_accum := acc mod cl_cycles_per_us k\<rparr>
      else k\<lparr>cl_cycle_accum := acc\<rparr>)"

definition rv_clint_match :: "u32 \<Rightarrow> bool" where
  "rv_clint_match addr = in_block addr 0xD0000100 0x30"

definition rv_clint_read :: "u32 \<Rightarrow> rv_clint \<Rightarrow> u32" where
  "rv_clint_read offset k =
     (if offset = 0x00 then ucast (cl_mtime k)
      else if offset = 0x04 then ucast (shr (cl_mtime k) 32)
      else if offset = 0x08 then ucast (cl_mtimecmp k 0)
      else if offset = 0x0C then ucast (shr (cl_mtimecmp k 0) 32)
      else if offset = 0x10 then ucast (cl_mtimecmp k 1)
      else if offset = 0x14 then ucast (shr (cl_mtimecmp k 1) 32)
      else if offset = 0x20 then cl_msip k 0 AND 1
      else if offset = 0x24 then cl_msip k 1 AND 1
      else 0)"

definition rv_clint_write :: "u32 \<Rightarrow> u32 \<Rightarrow> rv_clint \<Rightarrow> rv_clint" where
  "rv_clint_write offset val k =
     (if offset = 0x00 then k\<lparr>cl_mtime := low_half (cl_mtime k) val\<rparr>
      else if offset = 0x04 then k\<lparr>cl_mtime := high_half (cl_mtime k) val\<rparr>
      else if offset = 0x08 then k\<lparr>cl_mtimecmp := (cl_mtimecmp k)(0 := low_half (cl_mtimecmp k 0) val)\<rparr>
      else if offset = 0x0C then k\<lparr>cl_mtimecmp := (cl_mtimecmp k)(0 := high_half (cl_mtimecmp k 0) val)\<rparr>
      else if offset = 0x10 then k\<lparr>cl_mtimecmp := (cl_mtimecmp k)(1 := low_half (cl_mtimecmp k 1) val)\<rparr>
      else if offset = 0x14 then k\<lparr>cl_mtimecmp := (cl_mtimecmp k)(1 := high_half (cl_mtimecmp k 1) val)\<rparr>
      else if offset = 0x20 then k\<lparr>cl_msip := (cl_msip k)(0 := val AND 1)\<rparr>
      else if offset = 0x24 then k\<lparr>cl_msip := (cl_msip k)(1 := val AND 1)\<rparr>
      else k)"

definition rv_clint_set_ext_pending :: "u32 \<Rightarrow> rv_clint \<Rightarrow> rv_clint" where
  "rv_clint_set_ext_pending irq_num k =
     (if irq_num < 52 then k\<lparr>cl_ext_pending := cl_ext_pending k OR shl 1 (unat irq_num)\<rparr> else k)"

definition rv_clint_clear_ext_pending :: "u32 \<Rightarrow> rv_clint \<Rightarrow> rv_clint" where
  "rv_clint_clear_ext_pending irq_num k =
     (if irq_num < 52 then k\<lparr>cl_ext_pending := cl_ext_pending k AND NOT (shl 1 (unat irq_num))\<rparr> else k)"

definition rv_mip :: "rv_clint \<Rightarrow> nat \<Rightarrow> u32" where
  "rv_mip k hart_id =
     cond_mask (hart_id < 2 \<and> cl_mtime k \<ge> cl_mtimecmp k hart_id) 0x80 OR
     cond_mask (hart_id < 2 \<and> cl_msip k hart_id \<noteq> 0) 0x8 OR
     cond_mask (hart_id < 2 \<and> cl_ext_pending k AND cl_ext_enable k hart_id \<noteq> 0) 0x800"

definition rv_clint_check_interrupts :: "rv_clint \<Rightarrow> rv_cpu \<Rightarrow> bool \<times> rv_cpu" where
  "rv_clint_check_interrupts k hart =
     (let mstatus = rcsr hart 0x300; mie_csr = rcsr hart 0x304; mip = rv_mip k (rhart_id hart);
          h1 = csr_put 0x344 mip hart in
      if mstatus AND 8 = 0 then (False, h1)
      else let h2 = (if ris_wfi h1 \<and> mip AND mie_csr \<noteq> 0 then h1\<lparr>ris_wfi := False\<rparr> else h1);
               deliverable = mip AND mie_csr in
        if deliverable = 0 then (False, h2)
        else if deliverable AND 0x800 \<noteq> 0 then (True, rv_trap_enter 0x8000000B 0 h2)
        else if deliverable AND 8 \<noteq> 0 then (True, rv_trap_enter 0x80000003 0 h2)
        else if deliverable AND 0x80 \<noteq> 0 then (True, rv_trap_enter 0x80000007 0 h2)
        else (False, h2))"

section \<open>Time\<close>

lemma clint_tick_frame [simp]:
  "cl_cycles_per_us (rv_clint_tick n k) = cl_cycles_per_us k" "cl_mtimecmp (rv_clint_tick n k) = cl_mtimecmp k"
  "cl_msip (rv_clint_tick n k) = cl_msip k" "cl_ext_pending (rv_clint_tick n k) = cl_ext_pending k"
  "cl_ext_enable (rv_clint_tick n k) = cl_ext_enable k"
  by (simp_all add: rv_clint_tick_def Let_def)

text \<open>One cycle at a time, the accumulator counts up to the length of a microsecond and starts again.\<close>

lemma clint_tick_1:
  assumes c: "cl_cycles_per_us k = of_nat c" "0 < c" "c < 2 ^ 32" and a: "cl_cycle_accum k = of_nat (n mod c)"
    and t: "cl_mtime k = t0 + of_nat (n div c)"
  shows "cl_cycle_accum (rv_clint_tick 1 k) = of_nat (Suc n mod c) \<and> cl_mtime (rv_clint_tick 1 k) = t0 + of_nat (Suc n div c)"
proof -
  have m: "n mod c < c" using c(2) by simp
  have u: "unat (of_nat (n mod c) + 1 :: u32) = Suc (n mod c)" "unat (of_nat c :: u32) = c"
    using m c(3) by (simp_all add: unat_word_ariths unat_of_nat_lt)
  have acc: "cl_cycle_accum k + 1 \<ge> cl_cycles_per_us k \<longleftrightarrow> Suc (n mod c) = c"
    using u m by (auto simp: a c(1) word_le_nat_alt)
  show ?thesis
  proof (cases "Suc (n mod c) = c")
    case True
    then have w: "cl_cycle_accum k + 1 = of_nat c" using u(1) a by (metis of_nat_Suc add.commute)
    have s: "Suc n mod c = 0" "Suc n div c = Suc (n div c)"
      using True by (simp_all add: mod_Suc div_Suc)
    have "of_nat c div of_nat c = (1 :: u32)" "of_nat c mod of_nat c = (0 :: u32)"
      using u(2) c(2) by (simp_all add: word_unat_eq_iff unat_div unat_mod)
    then show ?thesis
      using c(1) by (simp add: rv_clint_tick_def Let_def w s t)
  next
    case False
    then have "Suc n mod c = Suc (n mod c)" "Suc n div c = n div c" by (simp_all add: mod_Suc div_Suc)
    then show ?thesis
      using False acc by (simp add: rv_clint_tick_def Let_def a t)
  qed
qed

lemma clint_ticks:
  assumes c: "cl_cycles_per_us k = of_nat c" "0 < c" "c < 2 ^ 32" and a: "cl_cycle_accum k = of_nat d" "d < c"
  shows "cl_cycle_accum ((rv_clint_tick 1 ^^ n) k) = of_nat ((d + n) mod c) \<and>
    cl_mtime ((rv_clint_tick 1 ^^ n) k) = cl_mtime k + of_nat ((d + n) div c) \<and>
    cl_cycles_per_us ((rv_clint_tick 1 ^^ n) k) = of_nat c"
proof (induction n)
  case (Suc n)
  then show ?case
    using clint_tick_1 [of "(rv_clint_tick 1 ^^ n) k" c "d + n" "cl_mtime k"] c by simp
qed (use assms in simp)

text \<open>The machine timer keeps time: driven one cycle at a time from reset, it has counted exactly the
  whole microseconds that have passed, modulo its width, and the accumulator is back at 0, which is
  when the emulator ticks its other timers, exactly at the end of each microsecond.\<close>

theorem rv_clint_keeps_time:
  fixes cycles_per_us :: u32
  defines "c \<equiv> if cycles_per_us > 0 then unat cycles_per_us else 1"
  shows "let k = (rv_clint_tick 1 ^^ n) (rv_clint_init cycles_per_us) in
    cl_mtime k = of_nat (n div c) \<and> unat (cl_cycle_accum k) = n mod c \<and> (cl_cycle_accum k = 0 \<longleftrightarrow> c dvd n)"
proof -
  have c: "cl_cycles_per_us (rv_clint_init cycles_per_us) = of_nat c" "0 < c" "c < 2 ^ 32"
    using unsigned_less [of cycles_per_us] by (auto simp: c_def rv_clint_init_def unat_gt_0 word_gt_0)
  have "n mod c < 2 ^ 32" using c(2,3) by (meson less_trans mod_less_divisor)
  then have u: "unat (of_nat (n mod c) :: u32) = n mod c" by (simp add: unat_of_nat_lt)
  have z: "(of_nat (n mod c) :: u32) = 0 \<longleftrightarrow> c dvd n"
    unfolding word_unat_eq_iff u dvd_eq_mod_eq_0 by simp
  have i: "cl_cycle_accum (rv_clint_init cycles_per_us) = of_nat 0" "cl_mtime (rv_clint_init cycles_per_us) = 0"
    by (simp_all add: rv_clint_init_def)
  show ?thesis
    using clint_ticks [OF c i(1) c(2), of n] u z by (simp add: Let_def i(2))
qed

section \<open>Delivery\<close>

lemma rv_mip_bits:
  "bit (rv_mip k h) 7 \<longleftrightarrow> h < 2 \<and> cl_mtime k \<ge> cl_mtimecmp k h"
  "bit (rv_mip k h) 3 \<longleftrightarrow> h < 2 \<and> cl_msip k h \<noteq> 0"
  "bit (rv_mip k h) 11 \<longleftrightarrow> h < 2 \<and> cl_ext_pending k AND cl_ext_enable k h \<noteq> 0"
  by (auto simp: rv_mip_def cond_mask_def bit_simps)

lemma rv_mip_other: "n \<notin> {3, 7, 11} \<Longrightarrow> \<not> bit (rv_mip k h) n"
proof
  assume n: "n \<notin> {3, 7, 11}" and b: "bit (rv_mip k h) n"
  have "n < 32" using b bit_imp_le_length by fastforce
  then show False using n b unfolding bit_cases_32
    by (elim disjE) (simp_all add: rv_mip_def cond_mask_def bit_simps split: if_splits)
qed

text \<open>The sources, most urgent first.\<close>

definition irq_order :: "nat list" where "irq_order = [11, 3, 7]"

definition irq_due :: "rv_clint \<Rightarrow> rv_cpu \<Rightarrow> nat \<Rightarrow> bool" where
  "irq_due k h n \<longleftrightarrow> bit (rv_mip k (rhart_id h)) n \<and> bit (rcsr h 0x304) n"

lemma irq_due_and: "irq_due k h n \<longleftrightarrow> bit (rv_mip k (rhart_id h) AND rcsr h 0x304) n"
  by (simp add: irq_due_def bit_simps)

lemma irq_none: "rv_mip k (rhart_id h) AND rcsr h 0x304 = 0 \<longleftrightarrow> find (irq_due k h) irq_order = None"
proof -
  have "rv_mip k (rhart_id h) AND rcsr h 0x304 = 0 \<longleftrightarrow> (\<forall>n. \<not> irq_due k h n)"
    unfolding irq_due_and by (metis bit_0_eq bit_eq_iff bot_apply bot_bool_def)
  also have "\<dots> \<longleftrightarrow> \<not> irq_due k h 11 \<and> \<not> irq_due k h 3 \<and> \<not> irq_due k h 7"
  proof
    assume none: "\<not> irq_due k h 11 \<and> \<not> irq_due k h 3 \<and> \<not> irq_due k h 7"
    show "\<forall>n. \<not> irq_due k h n"
    proof
      fix n
      show "\<not> irq_due k h n"
        using none rv_mip_other [of n k "rhart_id h"] by (cases "n \<in> {3, 7, 11}") (auto simp: irq_due_def)
    qed
  qed simp
  finally show ?thesis by (simp add: irq_order_def)
qed

lemma check_interrupts_eq:
  "rv_clint_check_interrupts k h =
    (let h1 = csr_put 0x344 (rv_mip k (rhart_id h)) h in
     if \<not> bit (rcsr h 0x300) 3 then (False, h1)
     else case find (irq_due k h) irq_order of
            None \<Rightarrow> (False, h1)
          | Some n \<Rightarrow> (True, rv_trap_enter (0x80000000 + of_nat n) 0 (h1\<lparr>ris_wfi := False\<rparr>)))"
proof -
  let ?d = "rv_mip k (rhart_id h) AND rcsr h 0x304"
  have w: "h1\<lparr>ris_wfi := False\<rparr> = (if ris_wfi h1 then h1\<lparr>ris_wfi := False\<rparr> else h1)" for h1 :: rv_cpu
    by (cases h1) simp
  have b: "?d AND 0x800 \<noteq> 0 \<longleftrightarrow> irq_due k h 11" "?d AND 8 \<noteq> 0 \<longleftrightarrow> irq_due k h 3" "?d AND 0x80 \<noteq> 0 \<longleftrightarrow> irq_due k h 7"
    "rcsr h 0x300 AND 8 = 0 \<longleftrightarrow> \<not> bit (rcsr h 0x300) 3"
    using and_exp_eq_0 [of ?d 11] and_exp_eq_0 [of ?d 3] and_exp_eq_0 [of ?d 7] and_exp_eq_0 [of "rcsr h 0x300" 3]
    unfolding irq_due_and by simp_all
  show ?thesis
  proof (cases "?d = 0")
    case True
    then show ?thesis using irq_none [of k h] b(4) by (simp add: rv_clint_check_interrupts_def Let_def)
  next
    case False
    then have "irq_due k h 11 \<or> irq_due k h 3 \<or> irq_due k h 7"
      using irq_none [of k h] by (auto simp: irq_order_def split: if_splits)
    then show ?thesis
      using False unfolding rv_clint_check_interrupts_def Let_def b
      by (subst w) (auto simp: irq_order_def)
  qed
qed

text \<open>C20. A hart is interrupted exactly when interrupts are enabled and an enabled source is pending; the
  source is the most urgent of the external, software and timer interrupts, in that order. The trap
  saves the program counter, wakes the hart and disables interrupts, and the registers are kept.
  Otherwise only the pending register changes.\<close>

theorem rv_interrupt_delivery:
  fixes k :: rv_clint and h :: rv_cpu
  defines "r \<equiv> rv_clint_check_interrupts k h"
  shows "(fst r \<longleftrightarrow> bit (rcsr h 0x300) 3 \<and> find (irq_due k h) irq_order \<noteq> None) \<and>
    rcsr (snd r) 0x344 = rv_mip k (rhart_id h) \<and> rx (snd r) = rx h \<and>
    (if fst r then rcsr (snd r) 0x342 = 0x80000000 + of_nat (the (find (irq_due k h) irq_order)) \<and>
       rcsr (snd r) 0x341 = rpc h \<and> \<not> bit (rcsr (snd r) 0x300) 3 \<and> \<not> ris_wfi (snd r)
     else snd r = csr_put 0x344 (rv_mip k (rhart_id h)) h)"
  unfolding r_def check_interrupts_eq Let_def
  using trap_status_mie
  by (auto simp: rv_trap_enter_def csr_put_def Let_def split: option.split)

section \<open>Sleep\<close>

text \<open>What a turn of the main loop does for a hart that sleeps: no instruction is executed, the timer advances by a
  cycle and the interrupts of the hart are checked. The devices and the other hart, which may write the CLINT too, are
  left out.\<close>

definition rv_idle_turn :: "rv_clint \<times> rv_cpu \<Rightarrow> rv_clint \<times> rv_cpu" where
  "rv_idle_turn s = (let (k, hart) = s; k1 = rv_clint_tick 1 k in (k1, snd (rv_clint_check_interrupts k1 hart)))"

lemma idle_turn_check:
  assumes "k1 = rv_clint_tick 1 k" "h = h0\<lparr>rcsr := (rcsr h0)(0x344 := v)\<rparr>" "rhart_id h0 < 2"
    and mie: "bit (rcsr h0 0x300) 3" "bit (rcsr h0 0x304) 7" and other: "\<not> irq_due k h0 11" "\<not> irq_due k h0 3"
  shows "rv_idle_turn (k, h) = (k1, let h1 = h0\<lparr>rcsr := (rcsr h0)(0x344 := rv_mip k1 (rhart_id h0))\<rparr> in
    if cl_mtimecmp k1 (rhart_id h0) \<le> cl_mtime k1 then rv_trap_enter 0x80000007 0 (h1\<lparr>ris_wfi := False\<rparr>) else h1)"
proof -
  have f: "rhart_id h = rhart_id h0" "rcsr h = (rcsr h0)(0x344 := v)" by (simp_all add: assms(2))
  have "irq_due k1 h 11 = False" "irq_due k1 h 3 = False"
    using other assms(1) by (simp_all add: irq_due_def rv_mip_bits f)
  moreover have "irq_due k1 h 7 \<longleftrightarrow> cl_mtimecmp k1 (rhart_id h0) \<le> cl_mtime k1"
    using mie(2) assms(3) by (simp add: irq_due_def rv_mip_bits f)
  ultimately show ?thesis
    using mie(1) by (simp add: rv_idle_turn_def check_interrupts_eq Let_def irq_order_def f csr_put_def assms(1,2))
qed

lemma idle_turns:
  assumes "rhart_id h < 2" "bit (rcsr h 0x300) 3" "bit (rcsr h 0x304) 7" "\<not> irq_due k h 11" "\<not> irq_due k h 3"
    and "\<And>j. j \<le> i \<Longrightarrow> cl_mtime ((rv_clint_tick 1 ^^ j) k) < cl_mtimecmp k (rhart_id h)"
  shows "\<exists>v. (rv_idle_turn ^^ i) (k, h) = ((rv_clint_tick 1 ^^ i) k, h\<lparr>rcsr := (rcsr h)(0x344 := v)\<rparr>)"
  using assms(6)
proof (induction i)
  case 0
  then show ?case by (intro exI [of _ "rcsr h 0x344"]) simp
next
  case (Suc i)
  let ?k = "(rv_clint_tick 1 ^^ i) k"
  have f: "cl_mtimecmp ?k = cl_mtimecmp k" "cl_msip ?k = cl_msip k" "cl_ext_pending ?k = cl_ext_pending k" "cl_ext_enable ?k = cl_ext_enable k"
    by (induction i) simp_all
  have o: "\<not> irq_due ?k h 11" "\<not> irq_due ?k h 3" using assms(4,5) by (simp_all add: irq_due_def rv_mip_bits f)
  have "\<exists>v. (rv_idle_turn ^^ i) (k, h) = (?k, h\<lparr>rcsr := (rcsr h)(0x344 := v)\<rparr>)"
    by (rule Suc.IH) (simp add: Suc.prems)
  then obtain v where "(rv_idle_turn ^^ i) (k, h) = (?k, h\<lparr>rcsr := (rcsr h)(0x344 := v)\<rparr>)" by blast
  then show ?case
    using idle_turn_check [OF refl refl assms(1-3) o, of v] Suc.prems [of "Suc i"]
    by (intro exI [of _ "rv_mip (rv_clint_tick 1 ?k) (rhart_id h)"]) (simp add: f Let_def not_le fun_upd_def)
qed

text \<open>C30. A hart that waits for the timer sleeps until its deadline and is woken on it: let the compare register lie
  in the future, interrupts and the timer interrupt be enabled and no other enabled source be pending, and let neither
  the other hart nor a device write the CLINT meanwhile. Then through all
  turns of the main loop before the one whose cycle completes the last microsecond the hart stays asleep with its
  program counter and registers unchanged, and that turn wakes it into the handler of the timer interrupt, with the
  address of the interrupted code and the cause saved and interrupts disabled.\<close>

theorem rv_timer_wakes_hart:
  assumes c: "cl_cycles_per_us k = of_nat c" "0 < c" "c < 2 ^ 32" "cl_cycle_accum k = of_nat d" "d < c"
    and h: "rhart_id h < 2" "ris_wfi h" "bit (rcsr h 0x300) 3" "bit (rcsr h 0x304) 7" "\<not> irq_due k h 11" "\<not> irq_due k h 3"
    and future: "cl_mtime k < cl_mtimecmp k (rhart_id h)"
    and N: "N = (unat (cl_mtimecmp k (rhart_id h)) - unat (cl_mtime k)) * c - d"
  shows "(\<forall>i < N. let h' = snd ((rv_idle_turn ^^ i) (k, h)) in ris_wfi h' \<and> rpc h' = rpc h \<and> rx h' = rx h) \<and>
    (let h' = snd ((rv_idle_turn ^^ N) (k, h)); mtvec = rcsr h 0x305 in
     \<not> ris_wfi h' \<and> rpc h' = (if mtvec AND 3 = 1 then (mtvec AND NOT 3) + 28 else mtvec AND NOT 3) \<and> rx h' = rx h \<and>
     rcsr h' 0x341 = rpc h \<and> rcsr h' 0x342 = 0x80000007 \<and> \<not> bit (rcsr h' 0x300) 3)"
proof -
  let ?cmp = "cl_mtimecmp k (rhart_id h)" and ?t = "\<lambda>i. (d + i) div c" and ?k = "\<lambda>i. (rv_clint_tick 1 ^^ i) k"
  define w where "w = unat ?cmp - unat (cl_mtime k)"
  have w: "0 < w" "unat (cl_mtime k) + w = unat ?cmp" "unat ?cmp < 2 ^ 64"
    using future unsigned_less [of ?cmp] by (simp_all add: w_def word_less_nat_alt)
  have "c \<le> w * c" using w(1) by simp
  moreover have "N = w * c - d" using N by (simp add: w_def)
  ultimately have dN: "d + N = w * c" "0 < N" using c(5) by linarith+
  have time: "unat (cl_mtime (?k i)) = unat (cl_mtime k) + ?t i" if "?t i \<le> w" for i
    using clint_ticks [OF c, of i] that w(2,3) by (simp add: unat_word_ariths unat_of_nat_lt)
  have cmp: "cl_mtimecmp (?k i) = cl_mtimecmp k" "cl_msip (?k i) = cl_msip k" "cl_ext_pending (?k i) = cl_ext_pending k"
    "cl_ext_enable (?k i) = cl_ext_enable k" for i by (induction i) simp_all
  have early: "cl_mtime (?k i) < ?cmp" if "i < N" for i
  proof -
    have "?t i < w" using that dN c(2) by (simp add: div_less_iff_less_mult)
    then show ?thesis using time [of i] w(2) by (simp add: word_less_nat_alt)
  qed
  have due: "\<not> cl_mtime (?k N) < ?cmp" using time [of N] c(2) w(2) by (simp add: dN word_less_nat_alt)
  have sleep: "\<exists>v. (rv_idle_turn ^^ i) (k, h) = (?k i, h\<lparr>rcsr := (rcsr h)(0x344 := v)\<rparr>)" if "i < N" for i
    using early that by (intro idle_turns h) auto
  have o: "\<not> irq_due (?k i) h 11" "\<not> irq_due (?k i) h 3" for i using h(5,6) by (simp_all add: irq_due_def rv_mip_bits cmp)
  obtain v where v: "(rv_idle_turn ^^ (N - 1)) (k, h) = (?k (N - 1), h\<lparr>rcsr := (rcsr h)(0x344 := v)\<rparr>)" using sleep [of "N - 1"] dN(2) by auto
  have "(rv_idle_turn ^^ N) (k, h) = rv_idle_turn ((rv_idle_turn ^^ (N - 1)) (k, h))" using dN(2) by (cases N) simp_all
  moreover have s: "rv_clint_tick 1 (?k (N - 1)) = ?k N" using dN(2) by (cases N) simp_all
  ultimately have "(rv_idle_turn ^^ N) (k, h) = (?k N, rv_trap_enter 0x80000007 0
      (h\<lparr>rcsr := (rcsr h)(0x344 := rv_mip (?k N) (rhart_id h)), ris_wfi := False\<rparr>))"
    using idle_turn_check [OF s [symmetric] refl h(1,3,4) o, of v] due v by (simp add: cmp Let_def not_less)
  moreover have "snd ((rv_idle_turn ^^ i) (k, h)) = h\<lparr>rcsr := (rcsr h)(0x344 := rcsr (snd ((rv_idle_turn ^^ i) (k, h))) 0x344)\<rparr>" if "i < N" for i
    using sleep [OF that] by auto
  ultimately show ?thesis
    using h(2) trap_status_mie by (auto simp: Let_def rv_trap_enter_def csr_put_def dest!: sleep)
qed

text \<open>A hart that sleeps until the second microsecond of a machine at 150 MHz.\<close>

definition timer_hart :: rv_cpu where
  "timer_hart = (rv_cpu_init 0)\<lparr>ris_wfi := True, rpc := 0x20001000, rcsr := (\<lambda>_. 0)(0x300 := 8, 0x304 := 0x80, 0x305 := 0x20000101)\<rparr>"

theorem rv_timer_wakes_hart_witness:
  "let k = (rv_clint_init 150)\<lparr>cl_mtimecmp := \<lambda>_. 2\<rparr>; h = \<lambda>i. snd ((rv_idle_turn ^^ i) (k, timer_hart)) in
   ris_wfi (h 299) \<and> rpc (h 299) = 0x20001000 \<and> \<not> ris_wfi (h 300) \<and> rpc (h 300) = 0x2000011C \<and> rcsr (h 300) 0x341 = 0x20001000"
  using rv_timer_wakes_hart [of "(rv_clint_init 150)\<lparr>cl_mtimecmp := \<lambda>_. 2\<rparr>" 150 0 timer_hart 300]
  by (simp add: rv_clint_init_def timer_hart_def rv_cpu_init_def bit_numeral_rec irq_due_def rv_mip_def cond_mask_def Let_def del: funpow.simps)

section \<open>Deviations\<close>

text \<open>A hart that waits for an interrupt with interrupts disabled, which the architecture wakes when an
  enabled source becomes pending, stays asleep.\<close>

lemma wfi_needs_mie:
  "\<not> bit (rcsr h 0x300) 3 \<Longrightarrow> ris_wfi (snd (rv_clint_check_interrupts k h)) = ris_wfi h"
  by (simp add: check_interrupts_eq csr_put_def Let_def)

end
