(* ===== verification/Rv_Membus.thy ===== *)
theory Rv_Membus
  imports Rv_Clint System
begin

unbundle bit_operations_syntax

text \<open>
  The memory bus of the RISC-V harts, \<^verbatim>\<open>src/rp2350_rv/rv_membus.c\<close>. It answers the memories, the core-local
  interruptor, the RP2350 peripherals and the launch mailbox of hart 1 itself and passes the rest on
  to the shared bus of \<open>Membus\<close>, at the addresses the peripherals have on the RP2040. The SRAM and the
  flash are buffers the two buses share: here they are the ones of the shared machine. The semihosting
  handler of \<^verbatim>\<open>src/devtools.c\<close> is here too, since it reads the guest's memory. What it prints is the list
  of bytes \<open>sh_out\<close>, what it reads from the terminal comes from \<open>sh_in\<close>.
\<close>

section \<open>State\<close>

record rv_membus =
  rm_clint :: rv_clint
  rm_periph :: rp2350_periph
  rm_flash_size :: u32
  rm_rom :: "nat \<Rightarrow> u8"
  rm_rom_size :: u32
  rm_hart1_entry :: u32
  rm_hart1_sp :: u32
  rm_hart1_arg :: u32
  rm_hart1_launch_pending :: bool
  rm_gpio_hi_out :: u32
  rm_gpio_hi_oe :: u32
  rm_gpio_hi_in :: u32
  rm_is_riscv :: bool

record semihost =
  sh_enabled :: bool
  sh_exit_requested :: bool
  sh_exit_code :: u32
  sh_out :: "(u32 \<times> u8) list"
  sh_in :: "u8 list"

record ('d, 'e, 'x) rv_world =
  rw_bus :: rv_membus
  rw_sh :: semihost
  rw_emu :: "('d, 'e, 'x) emu"

text \<open>The network boards, which watch chip-select and reset pins, are parameters.\<close>

record 'm rv_boards =
  w5500_enabled :: "'m \<Rightarrow> bool"
  w5500_gpio_write :: "u32 \<Rightarrow> u32 \<Rightarrow> 'm \<Rightarrow> 'm"
  w6300_enabled :: "'m \<Rightarrow> bool"
  w6300_gpio_write :: "u32 \<Rightarrow> u32 \<Rightarrow> 'm \<Rightarrow> 'm"

definition upd_rm :: "(rv_membus \<Rightarrow> rv_membus) \<Rightarrow> ('d, 'e, 'x) rv_world \<Rightarrow> ('d, 'e, 'x) rv_world" where
  "upd_rm f w = w\<lparr>rw_bus := f (rw_bus w)\<rparr>"

definition upd_emu :: "(('d, 'e, 'x) emu \<Rightarrow> ('d, 'e, 'x) emu) \<Rightarrow> ('d, 'e, 'x) rv_world \<Rightarrow> ('d, 'e, 'x) rv_world" where
  "upd_emu f w = w\<lparr>rw_emu := f (rw_emu w)\<rparr>"

definition on_emu :: "(('d, 'e, 'x) emu \<Rightarrow> 'a \<times> ('d, 'e, 'x) emu) \<Rightarrow> ('d, 'e, 'x) rv_world \<Rightarrow> 'a \<times> ('d, 'e, 'x) rv_world" where
  "on_emu f w = (let (v, m) = f (rw_emu w) in (v, w\<lparr>rw_emu := m\<rparr>))"

definition rv_membus_init :: "u32 \<Rightarrow> u32 \<Rightarrow> ('d, 'e, 'x) rv_world \<Rightarrow> ('d, 'e, 'x) rv_world" where
  "rv_membus_init flash_size cycles_per_us w =
     upd_rm (\<lambda>r. r\<lparr>rm_rom := (\<lambda>_. 0), rm_flash_size := flash_size, rm_rom_size := 0x8000, rm_is_riscv := True,
         rm_hart1_launch_pending := False, rm_gpio_hi_in := 0x3E, rm_clint := rv_clint_init cycles_per_us,
         rm_periph := rp2350_periph_init False\<rparr>)
       (upd_emu (\<lambda>m. mem_set_ram_ptr Rp2350_Sram 0x20000000 0x82000 (upd_bus (\<lambda>b. b\<lparr>b_rp2350_sram := (\<lambda>_. 0)\<rparr>) m)) w)"

definition rv_membus_check_hart1_launch ::
    "('d, 'e, 'x) rv_world \<Rightarrow> (u32 \<times> u32 \<times> u32) option \<times> ('d, 'e, 'x) rv_world" where
  "rv_membus_check_hart1_launch w =
     (let r = rw_bus w in
      if \<not> rm_hart1_launch_pending r then (None, w)
      else (Some (rm_hart1_entry r, rm_hart1_sp r, rm_hart1_arg r), upd_rm (\<lambda>r. r\<lparr>rm_hart1_launch_pending := False\<rparr>) w))"

section \<open>Addresses\<close>

text \<open>Where the shared bus expects a block: RP2350 base, RP2040 base.\<close>

definition rv_shared_map :: "(u32 \<times> u32) list" where
  "rv_shared_map =
     [(0x40008000, 0x40004000), (0x40010000, 0x40008000), (0x40018000, 0x40010000), (0x40020000, 0x4000C000),
      (0x40028000, 0x40014000), (0x40030000, 0x40018000), (0x40038000, 0x4001C000), (0x40040000, 0x40020000),
      (0x40048000, 0x40024000), (0x40050000, 0x40028000), (0x40058000, 0x4002C000), (0x40068000, 0x40030000),
      (0x40070000, 0x40034000), (0x40078000, 0x40038000), (0x40080000, 0x4003C000), (0x40088000, 0x40040000),
      (0x40090000, 0x40044000), (0x40098000, 0x40048000), (0x400A0000, 0x4004C000), (0x400A8000, 0x40050000),
      (0x400B0000, 0x40054000), (0x400D8000, 0x40058000), (0x400E8000, 0x40060000), (0x40160000, 0x4006C000)]"

definition rv_translate_shared_addr :: "u32 \<Rightarrow> u32" where
  "rv_translate_shared_addr addr =
     (case map_of rv_shared_map (addr AND NOT 0x3FFF) of Some base \<Rightarrow> base OR (addr AND 0x3FFF) | None \<Rightarrow> addr)"

definition rv_sram_offset :: "u32 \<Rightarrow> nat option" where
  "rv_sram_offset addr =
     (if in_block addr 0x20000000 0x82000 then Some (unat (addr - 0x20000000))
      else if in_block addr 0x21000000 0x82000 then Some (unat (addr - 0x21000000))
      else None)"

definition in_xip :: "u32 \<Rightarrow> bool" where
  "in_xip addr \<longleftrightarrow> addr \<ge> 0x10000000 \<and> addr < 0x13FFC000"

definition rv_xip_offset :: "rv_membus \<Rightarrow> u32 \<Rightarrow> nat option" where
  "rv_xip_offset r addr =
     (if \<not> in_xip addr \<or> rm_flash_size r = 0 then None
      else let o1 = addr - 0x10000000 in
        Some (unat (if o1 \<ge> rm_flash_size r then o1 mod rm_flash_size r else o1)))"

text \<open>The memory that answers a read, with the offset in it.\<close>

definition rv_memory_at :: "u32 \<Rightarrow> ('d, 'e, 'x) rv_world \<Rightarrow> ((nat \<Rightarrow> u8) \<times> nat) option" where
  "rv_memory_at addr w =
     (case rv_sram_offset addr of
        Some o1 \<Rightarrow> Some (b_rp2350_sram (m_bus (rw_emu w)), o1)
      | None \<Rightarrow>
        if addr < rm_rom_size (rw_bus w) then Some (rm_rom (rw_bus w), unat addr)
        else (case rv_xip_offset (rw_bus w) addr of
                Some o1 \<Rightarrow> Some (b_flash (m_bus (rw_emu w)), o1)
              | None \<Rightarrow> None))"

definition rv_sram_put :: "(nat \<Rightarrow> u8) \<Rightarrow> ('d, 'e, 'x) rv_world \<Rightarrow> ('d, 'e, 'x) rv_world" where
  "rv_sram_put mem w = upd_emu (upd_bus (\<lambda>b. b\<lparr>b_rp2350_sram := mem\<rparr>)) w"

abbreviation rv_sram :: "('d, 'e, 'x) rv_world \<Rightarrow> nat \<Rightarrow> u8" where
  "rv_sram w \<equiv> b_rp2350_sram (m_bus (rw_emu w))"

section \<open>The single-cycle IO block of the RP2350\<close>

definition rv_sio_read :: "u32 \<Rightarrow> rv_membus \<Rightarrow> u32" where
  "rv_sio_read offset r =
     (if offset = 0x00 then 2
      else if offset \<in> {0x04, 0x08, 0x10, 0x20} then 0
      else if offset = 0x30 then rm_gpio_hi_out r
      else if offset = 0x40 then rm_gpio_hi_oe r
      else if offset = 0x38 then rm_gpio_hi_in r
      else if offset = 0x1C0 then rm_hart1_entry r
      else if offset = 0x1C4 then rm_hart1_sp r
      else if offset = 0x1C8 then rm_hart1_arg r
      else 0)"

definition rv_sio_owned :: "u32 \<Rightarrow> bool" where
  "rv_sio_owned offset \<longleftrightarrow> offset \<in> {0x00, 0x30, 0x38, 0x40} \<or> offset \<ge> 0x1C0 \<and> offset \<le> 0x1CC"

text \<open>\<open>None\<close> where the shared block has to answer.\<close>

definition rv_sio_write :: "u32 \<Rightarrow> u32 \<Rightarrow> rv_membus \<Rightarrow> rv_membus option" where
  "rv_sio_write offset val r =
     (if offset = 0x30 then Some (r\<lparr>rm_gpio_hi_out := val AND 0xFFFF\<rparr>)
      else if offset = 0x34 then Some (r\<lparr>rm_gpio_hi_out := rm_gpio_hi_out r OR (val AND 0xFFFF)\<rparr>)
      else if offset = 0x38 then Some (r\<lparr>rm_gpio_hi_out := rm_gpio_hi_out r AND NOT (val AND 0xFFFF)\<rparr>)
      else if offset = 0x3C then Some (r\<lparr>rm_gpio_hi_out := rm_gpio_hi_out r XOR (val AND 0xFFFF)\<rparr>)
      else if offset = 0x40 then Some (r\<lparr>rm_gpio_hi_oe := val AND 0xFFFF\<rparr>)
      else if offset = 0x44 then Some (r\<lparr>rm_gpio_hi_oe := rm_gpio_hi_oe r OR (val AND 0xFFFF)\<rparr>)
      else if offset = 0x48 then Some (r\<lparr>rm_gpio_hi_oe := rm_gpio_hi_oe r AND NOT (val AND 0xFFFF)\<rparr>)
      else if offset = 0x4C then Some (r\<lparr>rm_gpio_hi_oe := rm_gpio_hi_oe r XOR (val AND 0xFFFF)\<rparr>)
      else if offset = 0x1C0 then Some (r\<lparr>rm_hart1_entry := val\<rparr>)
      else if offset = 0x1C4 then Some (r\<lparr>rm_hart1_sp := val\<rparr>)
      else if offset = 0x1C8 then Some (r\<lparr>rm_hart1_arg := val\<rparr>)
      else if offset = 0x1CC then Some (if val AND 1 \<noteq> 0 then r\<lparr>rm_hart1_launch_pending := True\<rparr> else r)
      else None)"

text \<open>The pins that the boards watch, reported after a write to the output registers.\<close>

definition spi_cs :: "bool \<Rightarrow> ('d, 'e, 'x) emu \<Rightarrow> ('d, 'e, 'x) emu" where
  "spi_cs active = upd_bus (\<lambda>b. b\<lparr>b_spi := (b_spi b)(0 := spi_device_cs 0 active (b_spi b 0))\<rparr>)"

definition rv_board_watch :: "('d, 'e, 'x) emu rv_boards \<Rightarrow> u32 \<Rightarrow> ('d, 'e, 'x) emu \<Rightarrow> ('d, 'e, 'x) emu" where
  "rv_board_watch bd offset m =
     (let watch = offset \<in> {0x14, 0x18, 0x24};
          m1 = (if watch \<and> w5500_enabled bd m then
                  (let eff = gpio_effective_pins (b_gpio (m_bus m)); cs = shr eff 17 AND 1
                   in spi_cs (cs = 0) (w5500_gpio_write bd 20 (shr eff 20 AND 1) (w5500_gpio_write bd 17 cs m)))
                else m)
      in if watch \<and> w6300_enabled bd m1 then
           (let eff = gpio_effective_pins (b_gpio (m_bus m1)); cs = shr eff 16 AND 1
            in spi_cs (cs = 0) (w6300_gpio_write bd 22 (shr eff 22 AND 1) (w6300_gpio_write bd 16 cs m1)))
         else m1)"

section \<open>Word accesses\<close>

abbreviation page_of :: "u32 \<Rightarrow> u32" where "page_of addr \<equiv> addr AND NOT 0x3FFF"

definition rv_clock_page :: "u32 \<Rightarrow> bool" where
  "rv_clock_page p \<longleftrightarrow>
     p \<in> {0x40020000, 0x40010000, 0x40048000, 0x40050000, 0x40058000, 0x400D8000, 0x40018000, 0x400E8000}"

definition rv_periph_read32 :: "u32 \<Rightarrow> ('d, 'e, 'x) rv_world \<Rightarrow> u32 \<times> ('d, 'e, 'x) rv_world" where
  "rv_periph_read32 addr w =
     (let (v, p, t) = rp2350_periph_read32 addr (rm_periph (rw_bus w), m_timer (rw_emu w))
      in (v, upd_rm (\<lambda>r. r\<lparr>rm_periph := p\<rparr>) (upd_emu (\<lambda>m. m\<lparr>m_timer := t\<rparr>) w)))"

definition rv_periph_write32 :: "u32 \<Rightarrow> u32 \<Rightarrow> ('d, 'e, 'x) rv_world \<Rightarrow> ('d, 'e, 'x) rv_world" where
  "rv_periph_write32 addr val w =
     (let (p, t, nv) = rp2350_periph_write32 addr val (rm_periph (rw_bus w), m_timer (rw_emu w), m_nv (rw_emu w))
      in upd_rm (\<lambda>r. r\<lparr>rm_periph := p\<rparr>) (upd_emu (\<lambda>m. m\<lparr>m_timer := t, m_nv := nv\<rparr>) w))"

definition rv_read32_regs :: "('d, 'e, 'x) emu devices \<Rightarrow> u32 \<Rightarrow> ('d, 'e, 'x) rv_world \<Rightarrow> u32 \<times> ('d, 'e, 'x) rv_world" where
  "rv_read32_regs dv addr w =
     (let r = rw_bus w; m = rw_emu w; b = m_bus m; off = addr AND 0xFFF; p = page_of addr in
      if rv_clint_match addr then (rv_clint_read (addr - 0xD0000100) (rm_clint r), w)
      else if p = 0x40018000 then (psm_read (rp2350 m) addr (b_clocks b), w)
      else if p = 0x40030000 then (io_qspi_read off (b_qspi b), w)
      else if p = 0x40040000 then (pads_qspi_read off (b_qspi b), w)
      else if p = 0x40098000 then on_emu (bus_i2c_read 1 off) w
      else if p = 0x400A8000 then on_emu (bus_pwm_read off) w
      else if p = 0x400D8000 then (watchdog_read (0x40058000 OR off) (b_clocks b), w)
      else if rp2350_periph_match addr then rv_periph_read32 addr w
      else if rp2350 m \<and> rv_clock_page p then on_emu (bus_clocks_read addr) w
      else (case spi_match (rp2350 m) addr of
              Some n \<Rightarrow> on_emu (bus_spi_read n off) w
            | None \<Rightarrow>
              if in_block addr 0xD0000000 0x200 \<and> rv_sio_owned (addr - 0xD0000000)
              then (rv_sio_read (addr - 0xD0000000) r, w)
              else on_emu (mem_read32 dv (rv_translate_shared_addr addr)) w))"

definition rv_mem_read32 :: "('d, 'e, 'x) emu devices \<Rightarrow> u32 \<Rightarrow> ('d, 'e, 'x) rv_world \<Rightarrow> u32 \<times> ('d, 'e, 'x) rv_world" where
  "rv_mem_read32 dv addr w =
     (case rv_memory_at addr w of Some (mem, o1) \<Rightarrow> (rd32 mem o1, w) | None \<Rightarrow> rv_read32_regs dv addr w)"

definition rv_bypass_write :: "u32 \<Rightarrow> u32 \<Rightarrow> ('d, 'e, 'x) emu \<Rightarrow> ('d, 'e, 'x) emu option" where
  "rv_bypass_write addr val m =
     (let al = addr AND 0x3000; off = addr AND 0xFFF; p = page_of addr in
      if p = 0x40018000 then Some (clk_apply (psm_write (rp2350 m) addr val (shr addr 12 AND 3) (b_clocks (m_bus m))) m)
      else if p = 0x40030000 then
        Some (alias_write al (\<lambda>m. (io_qspi_read off (b_qspi (m_bus m)), m))
          (\<lambda>v. upd_bus (\<lambda>b. b\<lparr>b_qspi := io_qspi_write off v (b_qspi b)\<rparr>)) val m)
      else if p = 0x40040000 then
        Some (alias_write al (\<lambda>m. (pads_qspi_read off (b_qspi (m_bus m)), m))
          (\<lambda>v. upd_bus (\<lambda>b. b\<lparr>b_qspi := pads_qspi_write off v (b_qspi b)\<rparr>)) val m)
      else if p = 0x40098000 then Some (alias_write al (bus_i2c_read 1 off) (bus_i2c_write 1 off) val m)
      else if p = 0x400A8000 then Some (alias_write al (bus_pwm_read off) (bus_pwm_write off) val m)
      else if p = 0x400D8000 then
        Some (clk_apply (watchdog_write (0x40058000 OR off) val (shr addr 12 AND 3) (b_clocks (m_bus m))) m)
      else None)"

definition rv_clocks_write :: "('d, 'e, 'x) emu devices \<Rightarrow> u32 \<Rightarrow> u32 \<Rightarrow> ('d, 'e, 'x) emu \<Rightarrow> ('d, 'e, 'x) emu" where
  "rv_clocks_write dv addr val m =
     (let al = addr AND 0x3000; base = addr AND NOT 0x3000 in
      if al = 0 then bus_clocks_write addr val m
      else let (cur, m1) = mem_read32 dv base m in bus_clocks_write base (alias_value al cur val) m1)"

definition rv_write32_regs :: "('d, 'e, 'x) emu devices \<Rightarrow> ('d, 'e, 'x) emu rv_boards \<Rightarrow> u32 \<Rightarrow> u32 \<Rightarrow>
    ('d, 'e, 'x) rv_world \<Rightarrow> ('d, 'e, 'x) rv_world" where
  "rv_write32_regs dv bd addr val w =
     (let m = rw_emu w; sio_off = addr - 0xD0000000 in
      if rv_clint_match addr then
        upd_rm (\<lambda>r. r\<lparr>rm_clint := rv_clint_write (addr - 0xD0000100) val (rm_clint r)\<rparr>) w
      else (case rv_bypass_write addr val m of
              Some m1 \<Rightarrow> w\<lparr>rw_emu := m1\<rparr>
            | None \<Rightarrow>
              if rp2350_periph_match addr then rv_periph_write32 addr val w
              else if rp2350 m \<and> rv_clock_page (page_of addr) then upd_emu (rv_clocks_write dv addr val) w
              else (case spi_match (rp2350 m) addr of
                      Some n \<Rightarrow> upd_emu (bus_spi_write n (addr AND 0xFFF) val) w
                    | None \<Rightarrow>
                      if in_block addr 0xD0000000 0x200 then
                        (case rv_sio_write sio_off val (rw_bus w) of
                           Some r \<Rightarrow> upd_emu (rv_board_watch bd sio_off) (w\<lparr>rw_bus := r\<rparr>)
                         | None \<Rightarrow> upd_emu (\<lambda>m. rv_board_watch bd sio_off (mem_write32 dv addr val m)) w)
                      else upd_emu (mem_write32 dv (rv_translate_shared_addr addr) val) w)))"

text \<open>A store: to the SRAM, ignored in ROM and flash, else to the registers.\<close>

definition rv_store_at :: "u32 \<Rightarrow> (nat \<Rightarrow> (nat \<Rightarrow> u8) \<Rightarrow> (nat \<Rightarrow> u8)) \<Rightarrow> (('d, 'e, 'x) rv_world \<Rightarrow> ('d, 'e, 'x) rv_world) \<Rightarrow>
    ('d, 'e, 'x) rv_world \<Rightarrow> ('d, 'e, 'x) rv_world" where
  "rv_store_at addr put regs w =
     (case rv_sram_offset addr of
        Some o1 \<Rightarrow> rv_sram_put (put o1 (rv_sram w)) w
      | None \<Rightarrow> if addr < rm_rom_size (rw_bus w) \<or> in_xip addr then w else regs w)"

definition rv_mem_write32 :: "('d, 'e, 'x) emu devices \<Rightarrow> ('d, 'e, 'x) emu rv_boards \<Rightarrow> u32 \<Rightarrow> u32 \<Rightarrow>
    ('d, 'e, 'x) rv_world \<Rightarrow> ('d, 'e, 'x) rv_world" where
  "rv_mem_write32 dv bd addr val w =
     rv_store_at addr (\<lambda>o1 mem. wr32 mem o1 val) (rv_write32_regs dv bd addr val) w"

section \<open>Halfword and byte accesses\<close>

definition rv_lane_regs :: "u32 \<Rightarrow> bool" where
  "rv_lane_regs addr \<longleftrightarrow> rv_clint_match (addr AND NOT 3) \<or> in_block addr 0xD0000000 0x200"

definition rv_mem_read16 :: "('d, 'e, 'x) emu devices \<Rightarrow> u32 \<Rightarrow> ('d, 'e, 'x) rv_world \<Rightarrow> u16 \<times> ('d, 'e, 'x) rv_world" where
  "rv_mem_read16 dv addr w =
     (case rv_memory_at addr w of
        Some (mem, o1) \<Rightarrow> (rd16 mem o1, w)
      | None \<Rightarrow>
        if rv_lane_regs addr then
          (let (v, w1) = rv_mem_read32 dv (addr AND NOT 3) w in (ucast (shr v (lane 2 addr) AND 0xFFFF), w1))
        else on_emu (mem_read16 dv (rv_translate_shared_addr addr)) w)"

definition rv_mem_write16 :: "('d, 'e, 'x) emu devices \<Rightarrow> ('d, 'e, 'x) emu rv_boards \<Rightarrow> u32 \<Rightarrow> u16 \<Rightarrow>
    ('d, 'e, 'x) rv_world \<Rightarrow> ('d, 'e, 'x) rv_world" where
  "rv_mem_write16 dv bd addr val w =
     rv_store_at addr (\<lambda>o1 mem. wr16 mem o1 val)
       (\<lambda>w. if rv_lane_regs addr then
              (let (v, w1) = rv_mem_read32 dv (addr AND NOT 3) w
               in rv_mem_write32 dv bd (addr AND NOT 3) (put_bits 0xFFFF (lane 2 addr) (ucast val) v) w1)
            else upd_emu (mem_write16 dv (rv_translate_shared_addr addr) val) w) w"

definition rv_mem_read8 :: "('d, 'e, 'x) emu devices \<Rightarrow> u32 \<Rightarrow> ('d, 'e, 'x) rv_world \<Rightarrow> u8 \<times> ('d, 'e, 'x) rv_world" where
  "rv_mem_read8 dv addr w =
     (case rv_memory_at addr w of
        Some (mem, o1) \<Rightarrow> (mem o1, w)
      | None \<Rightarrow>
        if rp2350_periph_match addr then
          (let (v, p, t) = rp2350_periph_read8 addr (rm_periph (rw_bus w), m_timer (rw_emu w))
           in (v, upd_rm (\<lambda>r. r\<lparr>rm_periph := p\<rparr>) (upd_emu (\<lambda>m. m\<lparr>m_timer := t\<rparr>) w)))
        else if rv_lane_regs addr then
          (let (v, w1) = rv_mem_read32 dv (addr AND NOT 3) w in (ucast (shr v (lane 3 addr) AND 0xFF), w1))
        else on_emu (mem_read8 dv (rv_translate_shared_addr addr)) w)"

definition rv_mem_write8 :: "('d, 'e, 'x) emu devices \<Rightarrow> ('d, 'e, 'x) emu rv_boards \<Rightarrow> u32 \<Rightarrow> u8 \<Rightarrow>
    ('d, 'e, 'x) rv_world \<Rightarrow> ('d, 'e, 'x) rv_world" where
  "rv_mem_write8 dv bd addr val w =
     rv_store_at addr (\<lambda>o1 mem. mem(o1 := val))
       (\<lambda>w. if rp2350_periph_match addr then
              (let (p, t, nv) = rp2350_periph_write8 addr val (rm_periph (rw_bus w), m_timer (rw_emu w), m_nv (rw_emu w))
               in upd_rm (\<lambda>r. r\<lparr>rm_periph := p\<rparr>) (upd_emu (\<lambda>m. m\<lparr>m_timer := t, m_nv := nv\<rparr>) w))
            else if rv_lane_regs addr then
              (let (v, w1) = rv_mem_read32 dv (addr AND NOT 3) w
               in rv_mem_write32 dv bd (addr AND NOT 3) (put_bits 0xFF (lane 3 addr) (ucast val) v) w1)
            else upd_emu (mem_write8 dv (rv_translate_shared_addr addr) val) w) w"

section \<open>Semihosting\<close>

text \<open>The handler reads the guest's memory through the shared bus.\<close>

definition sh_emit :: "u32 \<Rightarrow> u8 \<Rightarrow> ('d, 'e, 'x) rv_world \<Rightarrow> ('d, 'e, 'x) rv_world" where
  "sh_emit fd ch w = w\<lparr>rw_sh := (rw_sh w)\<lparr>sh_out := sh_out (rw_sh w) @ [(fd, ch)]\<rparr>\<rparr>"

definition sh_read8 :: "('d, 'e, 'x) emu devices \<Rightarrow> u32 \<Rightarrow> ('d, 'e, 'x) rv_world \<Rightarrow> u8 \<times> ('d, 'e, 'x) rv_world" where
  "sh_read8 dv addr w = on_emu (mem_read8 dv addr) w"

definition sh_read32 :: "('d, 'e, 'x) emu devices \<Rightarrow> u32 \<Rightarrow> ('d, 'e, 'x) rv_world \<Rightarrow> u32 \<times> ('d, 'e, 'x) rv_world" where
  "sh_read32 dv addr w = on_emu (mem_read32 dv addr) w"

fun sh_puts :: "('d, 'e, 'x) emu devices \<Rightarrow> nat \<Rightarrow> u32 \<Rightarrow> ('d, 'e, 'x) rv_world \<Rightarrow> ('d, 'e, 'x) rv_world" where
  "sh_puts dv 0 addr w = w"
| "sh_puts dv (Suc n) addr w =
     (let (ch, w1) = sh_read8 dv addr w in if ch = 0 then w1 else sh_puts dv n (addr + 1) (sh_emit 1 ch w1))"

fun sh_write :: "('d, 'e, 'x) emu devices \<Rightarrow> u32 \<Rightarrow> nat \<Rightarrow> u32 \<Rightarrow> ('d, 'e, 'x) rv_world \<Rightarrow> ('d, 'e, 'x) rv_world" where
  "sh_write dv fd 0 addr w = w"
| "sh_write dv fd (Suc n) addr w =
     (let (ch, w1) = sh_read8 dv addr w in sh_write dv fd n (addr + 1) (sh_emit fd ch w1))"

definition sh_exit :: "u32 \<Rightarrow> ('d, 'e, 'x) rv_world \<Rightarrow> ('d, 'e, 'x) rv_world" where
  "sh_exit code w = w\<lparr>rw_sh := (rw_sh w)\<lparr>sh_exit_code := code, sh_exit_requested := True\<rparr>\<rparr>"

definition rv_semihosting_handle ::
    "('d, 'e, 'x) emu devices \<Rightarrow> rv_cpu \<times> ('d, 'e, 'x) rv_world \<Rightarrow> bool \<times> rv_cpu \<times> ('d, 'e, 'x) rv_world" where
  "rv_semihosting_handle dv st =
     (let (c, w) = st; op = rx c 10; param = rx c 11 in
      if \<not> sh_enabled (rw_sh w) then (False, st)
      else if op = 0x03 then (let (ch, w1) = sh_read8 dv param w in (True, set_x 0 0 c, sh_emit 1 ch w1))
      else if op = 0x04 then (True, set_x 0 0 c, sh_puts dv 4096 param w)
      else if op = 0x05 then
        (let (fd, w1) = sh_read32 dv param w; (data, w2) = sh_read32 dv (param + 4) w1;
             (len, w3) = sh_read32 dv (param + 8) w2
         in (True, set_x 0 0 c, sh_write dv (if fd = 2 then 2 else 1) (min (unat len) 65536) data w3))
      else if op = 0x07 then
        (case sh_in (rw_sh w) of
           [] \<Rightarrow> (True, set_x 0 0xFFFFFFFF c, w)
         | ch # rest \<Rightarrow> (True, set_x 0 (ucast ch) c, w\<lparr>rw_sh := (rw_sh w)\<lparr>sh_in := rest\<rparr>\<rparr>))
      else if op = 0x18 then (True, c, sh_exit (if param = 0x20026 then 0 else param) w)
      else if op = 0x20 then (let (code, w1) = sh_read32 dv (param + 4) w in (True, c, sh_exit code w1))
      else if op = 0x13 then (True, set_x 0 0 c, w)
      else if op = 0x30 then (True, set_x 0 0 c, w)
      else if op = 0x31 then (True, set_x 0 100 c, w)
      else if op \<in> {0x01, 0x02, 0x06, 0x0A, 0x0C} then (True, set_x 0 0xFFFFFFFF c, w)
      else (False, st))"

section \<open>The bus of the harts\<close>

definition rv_set_ext_enable :: "nat \<Rightarrow> (u64 \<Rightarrow> u64) \<Rightarrow> ('d, 'e, 'x) rv_world \<Rightarrow> ('d, 'e, 'x) rv_world" where
  "rv_set_ext_enable hart f =
     upd_rm (\<lambda>r. r\<lparr>rm_clint := (rm_clint r)\<lparr>cl_ext_enable := (cl_ext_enable (rm_clint r))(hart := f (cl_ext_enable (rm_clint r) hart))\<rparr>\<rparr>)"

definition rv_world_bus :: "('d, 'e, 'x) emu devices \<Rightarrow> ('d, 'e, 'x) emu rv_boards \<Rightarrow>
    (u32 \<Rightarrow> u32 \<Rightarrow> u32 \<Rightarrow> u32 \<Rightarrow> u32 \<Rightarrow> u32 \<Rightarrow> u32 \<times> u32) \<Rightarrow> ('d, 'e, 'x) rv_world rv_bus" where
  "rv_world_bus dv bd float =
     \<lparr>rb_read32 = rv_mem_read32 dv, rb_read16 = rv_mem_read16 dv, rb_read8 = rv_mem_read8 dv,
      rb_write32 = rv_mem_write32 dv bd, rb_write16 = rv_mem_write16 dv bd, rb_write8 = rv_mem_write8 dv bd,
      rb_ext_pending = (\<lambda>w. Some (cl_ext_pending (rm_clint (rw_bus w)))), rb_set_ext_enable = rv_set_ext_enable,
      rb_semihosting = rv_semihosting_handle dv, rb_float = float\<rparr>"

interpretation rv_host: rv_semihost "rv_world_bus dv bd float" for dv bd float
proof
  fix st st1 assume "rb_semihosting (rv_world_bus dv bd float) st = (False, st1)"
  then show "st1 = st"
    by (cases st) (auto simp: rv_world_bus_def rv_semihosting_handle_def Let_def split: if_splits prod.splits list.splits)
qed

text \<open>Register 0 reads as zero: started with 0 in it, a hart on the RISC-V bus still has 0 there after
  any number of steps, whatever instructions, traps, semihosting calls and register accesses those
  steps make.\<close>

theorem rv_zero_register:
  assumes "rx (fst st) 0 = 0"
  shows "rx (fst (((\<lambda>st. snd (rv_cpu_step (rv_world_bus dv bd float) st)) ^^ n) st)) 0 = 0"
  using rv_host.zero_steps [OF assms] .

section \<open>Memory\<close>

lemma rv_memory_sram:
  assumes "rv_sram_offset a = Some o1"
  shows "rv_mem_read32 dv a w = (rd32 (rv_sram w) o1, w)" "rv_mem_read16 dv a w = (rd16 (rv_sram w) o1, w)"
    "rv_mem_read8 dv a w = (rv_sram w o1, w)"
    "rv_mem_write32 dv bd a v32 w = rv_sram_put (wr32 (rv_sram w) o1 v32) w"
    "rv_mem_write16 dv bd a v16 w = rv_sram_put (wr16 (rv_sram w) o1 v16) w"
    "rv_mem_write8 dv bd a v8 w = rv_sram_put ((rv_sram w)(o1 := v8)) w"
  using assms by (simp_all add: rv_mem_read32_def rv_mem_read16_def rv_mem_read8_def rv_memory_at_def
      rv_mem_write32_def rv_mem_write16_def rv_mem_write8_def rv_store_at_def)

lemma rv_sram_put_read [simp]: "rv_sram (rv_sram_put mem w) = mem"
  by (simp add: rv_sram_put_def upd_emu_def upd_bus_def)

lemma in_block_unat: "unat s + unat sz < 2 ^ 32 \<Longrightarrow> in_block a s sz \<longleftrightarrow> unat s \<le> unat a \<and> unat a < unat s + unat sz"
  by (simp add: in_block_def word_le_nat_alt word_less_nat_alt unat_word_ariths)

lemma rv_sram_windows:
  assumes "in_block a 0x20000000 0x82000"
  shows "rv_sram_offset a = Some (unat a - 0x20000000)" "rv_sram_offset (a + 0x1000000) = Some (unat a - 0x20000000)"
proof -
  have u: "0x20000000 \<le> unat a" "unat a < 0x20082000" using assms by (simp_all add: in_block_unat)
  have s: "unat (a + 0x1000000) = unat a + 0x1000000" using u by (simp add: unat_word_ariths)
  have d: "unat (a - 0x20000000) = unat a - 0x20000000" using u by (simp add: unat_sub word_le_nat_alt)
  then show "rv_sram_offset a = Some (unat a - 0x20000000)"
    using assms by (simp add: rv_sram_offset_def)
  have "a + 0x1000000 \<ge> 0x21000000" using u s by (simp add: word_le_nat_alt)
  then show "rv_sram_offset (a + 0x1000000) = Some (unat a - 0x20000000)"
    using u s d by (simp add: rv_sram_offset_def in_block_unat)
qed

text \<open>The shared bus uses the SRAM of the harts as its RAM, as the initialisation arranges.\<close>

definition rv_ram_shared :: "('d, 'e, 'x) rv_world \<Rightarrow> bool" where
  "rv_ram_shared w \<longleftrightarrow> (let b = m_bus (rw_emu w) in
     b_active_ram b = Rp2350_Sram \<and> b_active_ram_base b = 0x20000000 \<and> b_active_ram_size b = 0x82000)"

lemma rv_init_ram_shared: "rv_ram_shared (rv_membus_init fs cy w)"
  by (simp add: rv_ram_shared_def rv_membus_init_def upd_rm_def upd_emu_def mem_set_ram_ptr_def upd_bus_def Let_def)

lemma shared_read_sram:
  assumes "rv_ram_shared w" "in_block a 0x20000000 0x82000"
  shows "mem_read32 dv a (rw_emu w) = (rd32 (rv_sram w) (unat a - 0x20000000), rw_emu w)"
proof -
  have u: "0x20000000 \<le> unat a" "unat a < 0x20082000" using assms(2) by (simp_all add: in_block_unat)
  have "sram_alias_translate a = a" using u by (simp add: sram_alias_translate_def in_block_unat)
  moreover have "unat (a - 0x20000000) = unat a - 0x20000000" using u by (simp add: unat_sub word_le_nat_alt)
  ultimately show ?thesis
    using assms by (simp add: mem_read32_def rv_ram_shared_def in_active_ram_def get_ram_def ram_offset_def Let_def)
qed

lemma shared_write_sram:
  assumes "rv_ram_shared w" "in_block a 0x20000000 0x82000"
  shows "b_rp2350_sram (m_bus (mem_write32 dv a v (rw_emu w))) = wr32 (rv_sram w) (unat a - 0x20000000) v"
proof -
  have u: "0x20000000 \<le> unat a" "unat a < 0x20082000" using assms(2) by (simp_all add: in_block_unat)
  have "sram_alias_translate a = a" using u by (simp add: sram_alias_translate_def in_block_unat)
  moreover have "unat (a - 0x20000000) = unat a - 0x20000000" using u by (simp add: unat_sub word_le_nat_alt)
  moreover have "m_bus (arm_excl_observe_store k a (rw_emu w)) = m_bus (rw_emu w)" for k
    using observe_store_frame [of "rw_emu w"] by simp
  ultimately show ?thesis
    using assms by (simp add: mem_write32_def write32_routed_def rv_ram_shared_def in_active_ram_def ram_write32_def
        ram_changed_frame set_ram_def get_ram_def ram_offset_def Let_def)
qed

text \<open>C19. The SRAM is one memory, whoever accesses it and through whichever window: what a hart stores is
  what it reads back in both windows and what the shared bus, and so the DMA engine, reads; what the
  shared bus stores is what the harts read. The bytes of a word are in little-endian order.\<close>

theorem rv_sram_coherent:
  assumes "rv_ram_shared w" "in_block a 0x20000000 0x82000"
  shows "let w' = rv_mem_write32 dv bd a v w; w'' = upd_emu (mem_write32 dv a v) w in
    (\<forall>x \<in> {w', w''}. rv_mem_read32 dv a x = (v, x) \<and> rv_mem_read32 dv (a + 0x1000000) x = (v, x) \<and>
      rv_mem_read16 dv a x = (ucast v, x) \<and> rv_mem_read8 dv a x = (ucast v, x)) \<and>
    mem_read32 dv a (rw_emu w') = (v, rw_emu w') \<and> rv_mem_write32 dv bd (a + 0x1000000) v w = w'"
proof -
  let ?o = "unat a - 0x20000000"
  let ?w' = "rv_mem_write32 dv bd a v w" and ?w'' = "upd_emu (mem_write32 dv a v) w"
  note o = rv_sram_windows [OF assms(2)]
  have s: "rv_sram ?w' = wr32 (rv_sram w) ?o v" "rv_sram ?w'' = wr32 (rv_sram w) ?o v"
    using o shared_write_sram [OF assms] by (simp_all add: rv_memory_sram upd_emu_def)
  have r: "rd16 (wr32 m k v) k = ucast v" "wr32 m k v k = ucast v" for m k
    by (simp_all add: rd16_def wr32_def) (rule bit_word_eqI, auto simp: bit_simps)
  have sh: "rv_ram_shared ?w'"
    using assms(1) o by (simp add: rv_memory_sram rv_ram_shared_def rv_sram_put_def upd_emu_def upd_bus_def Let_def)
  have "mem_read32 dv a (rw_emu ?w') = (v, rw_emu ?w')"
    unfolding shared_read_sram [OF sh assms(2)] s by simp
  moreover have "rv_mem_write32 dv bd (a + 0x1000000) v w = ?w'" using o by (simp add: rv_memory_sram)
  ultimately show ?thesis
    using s o r by (simp add: rv_memory_sram [OF o(1)] rv_memory_sram [OF o(2)] Let_def)
qed

text \<open>A hart cannot write the boot ROM or the flash: stores of every width there change nothing.\<close>

theorem rv_rom_flash_protected:
  assumes "a < rm_rom_size (rw_bus w) \<and> a < 0x20000000 \<or> in_xip a"
  shows "rv_mem_write32 dv bd a v32 w = w \<and> rv_mem_write16 dv bd a v16 w = w \<and> rv_mem_write8 dv bd a v8 w = w"
proof -
  have "unat a < 0x20000000" using assms by (auto simp: in_xip_def word_less_nat_alt)
  then have "rv_sram_offset a = None" by (simp add: rv_sram_offset_def in_block_unat)
  then show ?thesis
    using assms by (auto simp: rv_mem_write32_def rv_mem_write16_def rv_mem_write8_def rv_store_at_def)
qed

text \<open>Past its end the flash repeats: an address anywhere in the flash window reads the byte at its
  offset modulo the size of the flash.\<close>

theorem rv_flash_mirrors:
  assumes "in_xip a" "rm_flash_size (rw_bus w) \<noteq> 0" "rm_rom_size (rw_bus w) \<le> 0x10000000"
  shows "rv_mem_read8 dv a w = (b_flash (m_bus (rw_emu w)) ((unat a - 0x10000000) mod unat (rm_flash_size (rw_bus w))), w)"
proof -
  have u: "0x10000000 \<le> unat a" "unat a < 0x13FFC000" using assms(1) by (auto simp: in_xip_def word_le_nat_alt word_less_nat_alt)
  have "rv_sram_offset a = None" using u by (simp add: rv_sram_offset_def in_block_unat)
  moreover have "\<not> a < rm_rom_size (rw_bus w)" using assms(3) u by (simp add: word_le_nat_alt word_less_nat_alt)
  moreover have "rv_xip_offset (rw_bus w) a = Some ((unat a - 0x10000000) mod unat (rm_flash_size (rw_bus w)))"
  proof -
    have "unat (a - 0x10000000) = unat a - 0x10000000" using u by (simp add: unat_sub word_le_nat_alt)
    then show ?thesis using assms(1,2) by (auto simp: rv_xip_offset_def Let_def unat_mod word_le_nat_alt)
  qed
  ultimately show ?thesis by (simp add: rv_mem_read8_def rv_memory_at_def)
qed

section \<open>A world at power-on\<close>

definition no_boards :: "'m rv_boards" where
  "no_boards = \<lparr>w5500_enabled = (\<lambda>_. False), w5500_gpio_write = (\<lambda>_ _ m. m), w6300_enabled = (\<lambda>_. False),
     w6300_gpio_write = (\<lambda>_ _ m. m)\<rparr>"

definition rv_world_boot :: "(unit, unit, unit) rv_world" where
  "rv_world_boot = rv_membus_init 0x200000 150
     \<lparr>rw_bus = \<lparr>rm_clint = rv_clint_init 1, rm_periph = rp2350_periph_init False, rm_flash_size = 0, rm_rom = (\<lambda>_. 0),
        rm_rom_size = 0, rm_hart1_entry = 0, rm_hart1_sp = 0, rm_hart1_arg = 0, rm_hart1_launch_pending = False,
        rm_gpio_hi_out = 0, rm_gpio_hi_oe = 0, rm_gpio_hi_in = 0, rm_is_riscv = False\<rparr>,
      rw_sh = \<lparr>sh_enabled = False, sh_exit_requested = False, sh_exit_code = 0, sh_out = [], sh_in = []\<rparr>,
      rw_emu = emu_boot True\<rparr>"

lemma rv_world_boot_bus: "rm_rom_size (rw_bus rv_world_boot) = 0x8000" "rm_flash_size (rw_bus rv_world_boot) = 0x200000"
  by (simp_all add: rv_world_boot_def rv_membus_init_def upd_rm_def upd_emu_def)

theorem rv_zero_register_witness:
  "rx (fst (((\<lambda>st. snd (rv_cpu_step (rv_world_bus no_devices no_boards (\<lambda>_ _ _ _ _ _. (0, 0))) st)) ^^ 5)
     (rv_cpu_reset 0 (rv_cpu_init 0), rv_world_boot))) 0 = 0"
  by (rule rv_zero_register) (simp add: rv_cpu_reset_def)

theorem rv_sram_coherent_witness:
  "fst (rv_mem_read32 no_devices 0x21000010 (rv_mem_write32 no_devices no_boards 0x20000010 42 rv_world_boot)) = 42"
proof -
  have "rv_ram_shared rv_world_boot" unfolding rv_world_boot_def by (rule rv_init_ram_shared)
  then show ?thesis
    using rv_sram_coherent [of rv_world_boot "0x20000010" no_devices no_boards 42] by (simp add: in_block_def Let_def)
qed

theorem rv_rom_flash_protected_witness:
  "rv_mem_write32 no_devices no_boards 0x10000100 7 rv_world_boot = rv_world_boot"
  using rv_rom_flash_protected [of "0x10000100" rv_world_boot no_devices no_boards 7 0 0] by (simp add: in_xip_def)

theorem rv_flash_mirrors_witness:
  "fst (rv_mem_read8 no_devices 0x10200004 rv_world_boot) = b_flash (m_bus (rw_emu rv_world_boot)) 4"
  using rv_flash_mirrors [of "0x10200004" rv_world_boot no_devices] by (simp add: in_xip_def rv_world_boot_bus)

section \<open>Deviations\<close>

text \<open>The core-local interruptor hides the first twelve spinlocks: releasing spinlock 0 sets the low word of the
  machine time.\<close>

lemma spinlock_0_hidden:
  assumes "rm_rom_size (rw_bus w) \<le> 0x10000000"
  shows "rv_mem_write32 dv bd 0xD0000100 v w =
    upd_rm (\<lambda>r. r\<lparr>rm_clint := (rm_clint r)\<lparr>cl_mtime := low_half (cl_mtime (rm_clint r)) v\<rparr>\<rparr>) w"
proof -
  have "\<not> 0xD0000100 < rm_rom_size (rw_bus w)" using assms by (simp add: word_le_nat_alt word_less_nat_alt)
  then show ?thesis
    by (simp add: rv_mem_write32_def rv_store_at_def rv_sram_offset_def in_xip_def in_block_def rv_write32_regs_def
        rv_clint_match_def rv_clint_write_def Let_def)
qed

text \<open>A character read by a semihosting call is lost: it goes to register 0, which the instruction clears.\<close>

lemma semihosting_readc_lost:
  assumes "rb_semihosting b st = rv_semihosting_handle dv st" "sh_enabled (rw_sh (snd st))" "rx (fst st) 10 = 7" "sh_in (rw_sh (snd st)) = ch # rest"
    "rx (fst st) 0 = 0"
  shows "\<exists>st1. rv_ebreak b pc npc st = Some st1 \<and> rx (fst st1) = rx (fst st)"
  using assms by (cases st) (auto simp: rv_ebreak_def rv_semihosting_handle_def rv_fin_def rv_retire_def set_x_def Let_def fun_upd_idem)

end
