(* ===== verification/Rv_Bootrom.thy ===== *)
theory Rv_Bootrom
  imports Rv_Membus
begin

unbundle bit_operations_syntax

text \<open>
  The boot ROM of the RISC-V harts, \<^verbatim>\<open>src/rp2350_rv/rv_bootrom.c\<close>: the image it builds (boot code, tables of
  functions and data, stubs) and the functions it performs itself when the program counter is at one of
  the stubs.
\<close>

section \<open>Encoders\<close>

definition rv_jal :: "u32 \<Rightarrow> u32 \<Rightarrow> u32" where
  "rv_jal rd imm = shl rd 7 OR 0x6F OR shl (shr imm 12 AND 0xFF) 12 OR shl (shr imm 11 AND 1) 20 OR
     shl (shr imm 1 AND 0x3FF) 21 OR shl (shr imm 20 AND 1) 31"

definition rv_lui :: "u32 \<Rightarrow> u32 \<Rightarrow> u32" where
  "rv_lui rd imm_upper = (imm_upper AND 0xFFFFF000) OR shl rd 7 OR 0x37"

definition rv_addi :: "u32 \<Rightarrow> u32 \<Rightarrow> u32 \<Rightarrow> u32" where
  "rv_addi rd rs1 imm = shl imm 20 OR shl rs1 15 OR shl 0 12 OR shl rd 7 OR 0x13"

definition rv_jalr :: "u32 \<Rightarrow> u32 \<Rightarrow> u32 \<Rightarrow> u32" where
  "rv_jalr rd rs1 imm = shl imm 20 OR shl rs1 15 OR shl 0 12 OR shl rd 7 OR 0x67"

definition rv_csrrw :: "u32 \<Rightarrow> u32 \<Rightarrow> u32 \<Rightarrow> u32" where
  "rv_csrrw rd csr rs1 = shl csr 20 OR shl rs1 15 OR shl 1 12 OR shl rd 7 OR 0x73"

definition rv_ret :: u32 where "rv_ret = rv_jalr 0 1 0"

section \<open>Tables\<close>

function flash_size_loop :: "u32 \<Rightarrow> nat \<Rightarrow> u32 \<Rightarrow> nat" where
  "flash_size_loop sz code flash_size =
     (if sz < flash_size \<and> code < 0x0C then flash_size_loop (shl sz 1) (code + 1) flash_size else code)"
  by auto
termination by (relation "measure (\<lambda>(_, code, _). 12 - code)") auto

declare flash_size_loop.simps [simp del]

definition rv_rom_flash_size_code :: "u32 \<Rightarrow> nat" where
  "rv_rom_flash_size_code flash_size = flash_size_loop 0x2000 1 flash_size"

definition rv_rom_flash_devinfo_word :: "u32 \<Rightarrow> u16" where
  "rv_rom_flash_devinfo_word flash_size = 0x0080 OR shl (of_nat (rv_rom_flash_size_code flash_size)) 8"

definition rv_rom_is_stub_pc :: "u32 \<Rightarrow> bool" where
  "rv_rom_is_stub_pc pc \<longleftrightarrow> pc = 0x0300 \<or> pc = 0x0304 \<or> pc \<ge> 0x0400 \<and> pc < 0x0448"

text \<open>The codes are two characters: \<^verbatim>\<open>CX\<close>, \<^verbatim>\<open>EX\<close>, \<^verbatim>\<open>FC\<close>, \<^verbatim>\<open>IF\<close>, \<^verbatim>\<open>RE\<close>, \<^verbatim>\<open>RP\<close>, \<^verbatim>\<open>SR\<close>, \<^verbatim>\<open>GS\<close>, \<^verbatim>\<open>RB\<close>, \<^verbatim>\<open>SS\<close>; \<^verbatim>\<open>GR\<close>, \<^verbatim>\<open>FD\<close>.\<close>

definition rv_table_code :: "char \<Rightarrow> char \<Rightarrow> u32" where
  "rv_table_code c1 c2 = of_nat (of_char c1) OR shl (of_nat (of_char c2)) 8"

definition fn_table :: "(u32 \<times> u32) list" where
  "fn_table =
     [(rv_table_code (CHR ''C'') (CHR ''X''), 0x0420), (rv_table_code (CHR ''E'') (CHR ''X''), 0x0424),
      (rv_table_code (CHR ''F'') (CHR ''C''), 0x0430), (rv_table_code (CHR ''I'') (CHR ''F''), 0x0434),
      (rv_table_code (CHR ''R'') (CHR ''E''), 0x0428), (rv_table_code (CHR ''R'') (CHR ''P''), 0x042C),
      (rv_table_code (CHR ''S'') (CHR ''R''), 0x0438), (rv_table_code (CHR ''G'') (CHR ''S''), 0x043C),
      (rv_table_code (CHR ''R'') (CHR ''B''), 0x0440), (rv_table_code (CHR ''S'') (CHR ''S''), 0x0444)]"

definition data_table :: "(u32 \<times> u32) list" where
  "data_table = [(rv_table_code (CHR ''G'') (CHR ''R''), 0x0210), (rv_table_code (CHR ''F'') (CHR ''D''), 0x0200)]"

definition rv_rom_lookup_address :: "u32 \<Rightarrow> u32 \<Rightarrow> u32" where
  "rv_rom_lookup_address code msk =
     (if msk = 0x40 then
        (if code = rv_table_code (CHR ''G'') (CHR ''R'') then 0x0210
         else if code = rv_table_code (CHR ''F'') (CHR ''D'') then 0x0200
         else 0)
      else if msk \<noteq> 0x01 \<and> msk \<noteq> 0x03 then 0
      else if code = rv_table_code (CHR ''C'') (CHR ''X'') then 0x0420
      else if code = rv_table_code (CHR ''E'') (CHR ''X'') then 0x0424
      else if code = rv_table_code (CHR ''F'') (CHR ''C'') then 0x0430
      else if code = rv_table_code (CHR ''I'') (CHR ''F'') then 0x0434
      else if code = rv_table_code (CHR ''R'') (CHR ''E'') then 0x0428
      else if code = rv_table_code (CHR ''R'') (CHR ''P'') then 0x042C
      else if code = rv_table_code (CHR ''S'') (CHR ''R'') then 0x0438
      else if code = rv_table_code (CHR ''G'') (CHR ''S'') then 0x043C
      else if code = rv_table_code (CHR ''R'') (CHR ''B'') then 0x0440
      else if code = rv_table_code (CHR ''S'') (CHR ''S'') then 0x0444
      else 0)"

section \<open>System information\<close>

text \<open>The words the function collects, in an array of 16.\<close>

definition sys_info_words :: "u32 \<Rightarrow> u32 \<Rightarrow> u32 list" where
  "sys_info_words flash_size included =
     [included] @
     (if included AND 0x01 \<noteq> 0 then [0x00000000, 0xB2350001, 0x00000001] else []) @
     (if included AND 0x02 \<noteq> 0 then [0x00000008] else []) @
     (if included AND 0x04 \<noteq> 0 then [0x01 OR shl 0x02 8] else []) @
     (if included AND 0x08 \<noteq> 0 then [ucast (rv_rom_flash_devinfo_word flash_size)] else []) @
     (if included AND 0x10 \<noteq> 0 then [0x2350C0DE, 0x12345678, 0x89ABCDEF, 0x0BADF00D] else []) @
     (if included AND 0x20 \<noteq> 0 then [0x10203040, 0x50607080] else []) @
     (if included AND 0x40 \<noteq> 0 then [0xFF OR shl 0x00 8 OR shl 0xFF 16, 0, 0, 0] else [])"

fun write_words :: "('d, 'e, 'x) emu devices \<Rightarrow> ('d, 'e, 'x) emu rv_boards \<Rightarrow> u32 \<Rightarrow> u32 list \<Rightarrow>
    ('d, 'e, 'x) rv_world \<Rightarrow> ('d, 'e, 'x) rv_world" where
  "write_words dv bd addr [] w = w"
| "write_words dv bd addr (v # vs) w = write_words dv bd (addr + 4) vs (rv_mem_write32 dv bd addr v w)"

definition rv_rom_get_sys_info :: "('d, 'e, 'x) emu devices \<Rightarrow> ('d, 'e, 'x) emu rv_boards \<Rightarrow> u32 \<Rightarrow> u32 \<Rightarrow> u32 \<Rightarrow>
    ('d, 'e, 'x) rv_world \<Rightarrow> int \<times> ('d, 'e, 'x) rv_world" where
  "rv_rom_get_sys_info dv bd out_addr out_words flags w =
     (let included = flags AND 0x7F; ws = sys_info_words (rm_flash_size (rw_bus w)) included in
      if included = 0 then (-5, w)
      else if unat out_words < length ws then (-13, w)
      else (int (length ws), write_words dv bd out_addr ws w))"

section \<open>The image\<close>

definition boot_code :: "u32 \<Rightarrow> u32 \<Rightarrow> u32 list" where
  "boot_code flash_base sram_end =
     (let lower = sram_end AND 0xFFF; neg = lower AND 0x800 \<noteq> 0;
          sp_upper = (sram_end AND 0xFFFFF000) + (if neg then 0x1000 else 0);
          sp_lower = (if neg then lower - 0x1000 else lower)
      in [rv_lui 2 sp_upper] @ (if sp_lower \<noteq> 0 then [rv_addi 2 2 sp_lower] else []) @
         [rv_lui 3 0x20000000, rv_addi 5 0 4, rv_csrrw 0 0x305 5, rv_lui 5 flash_base, rv_jalr 0 5 0])"

definition rom_words :: "nat \<Rightarrow> u32 list \<Rightarrow> (nat \<Rightarrow> u8) \<Rightarrow> (nat \<Rightarrow> u8)" where
  "rom_words addr ws rom = fold (\<lambda>(i, v) rom. wr32 rom (addr + 4 * i) v) (enumerate 0 ws) rom"

definition rom_bytes :: "nat \<Rightarrow> u8 list \<Rightarrow> (nat \<Rightarrow> u8) \<Rightarrow> (nat \<Rightarrow> u8)" where
  "rom_bytes addr bs rom = fold (\<lambda>(i, v) rom. rom(addr + i := v)) (enumerate 0 bs) rom"

definition table_words :: "(u32 \<times> u32) list \<Rightarrow> u32 list" where
  "table_words t = concat (map (\<lambda>(code, addr). [code, addr]) t) @ [0]"

definition rv_bootrom_init :: "u32 \<Rightarrow> u32 \<Rightarrow> (nat \<Rightarrow> u8)" where
  "rv_bootrom_init flash_base sram_end =
     rom_words 0x400 (replicate 18 rv_ret)
     (wr32 (wr32
       (rom_words 0x280 (table_words data_table)
       (rom_bytes 0x210 [0x70, 0x69, 0x63, 0x6F, 0x65, 0x6D, 0x75, 0x2D, 0x72, 0x76, 0]
       (wr16 (wr32
         (rom_words 0x100 (table_words fn_table)
         (rom_words 0x20 (boot_code flash_base sram_end)
         (wr16 (wr16 (wr16 (wr32 (wr32 (wr32 (rom_bytes 0x10 [0x52, 0x50, 0x02, 0x00] (wr16 (wr32 (\<lambda>_. 0)
            0x0000 (rv_jal 0 0x20)) 0x0004 0xA001)) 0x14 0x0100) 0x18 0x0280) 0x1C 0x0300)
            0x7DF8 0x0300) 0x7DFA 0x0304) 0x7DFC 0x0000)))
         0x200 0x204) 0x204 (rv_rom_flash_devinfo_word 0x400000))))
       0x300 rv_ret) 0x304 rv_ret)"

section \<open>Functions\<close>

fun rv_memcpy :: "('d, 'e, 'x) emu devices \<Rightarrow> ('d, 'e, 'x) emu rv_boards \<Rightarrow> u32 \<Rightarrow> u32 \<Rightarrow> nat \<Rightarrow>
    ('d, 'e, 'x) rv_world \<Rightarrow> ('d, 'e, 'x) rv_world" where
  "rv_memcpy dv bd dst src 0 w = w"
| "rv_memcpy dv bd dst src (Suc n) w =
     (let (v, w1) = rv_mem_read8 dv src w in rv_memcpy dv bd (dst + 1) (src + 1) n (rv_mem_write8 dv bd dst v w1))"

fun rv_memset :: "('d, 'e, 'x) emu devices \<Rightarrow> ('d, 'e, 'x) emu rv_boards \<Rightarrow> u32 \<Rightarrow> u8 \<Rightarrow> nat \<Rightarrow>
    ('d, 'e, 'x) rv_world \<Rightarrow> ('d, 'e, 'x) rv_world" where
  "rv_memset dv bd dst v 0 w = w"
| "rv_memset dv bd dst v (Suc n) w = rv_memset dv bd (dst + 1) v n (rv_mem_write8 dv bd dst v w)"

definition rom_reverse32 :: "u32 \<Rightarrow> u32" where
  "rom_reverse32 a =
     (let v1 = (shr a 1 AND 0x55555555) OR shl (a AND 0x55555555) 1;
          v2 = (shr v1 2 AND 0x33333333) OR shl (v1 AND 0x33333333) 2;
          v3 = (shr v2 4 AND 0x0F0F0F0F) OR shl (v2 AND 0x0F0F0F0F) 4;
          v4 = (shr v3 8 AND 0x00FF00FF) OR shl (v3 AND 0x00FF00FF) 8
      in shr v4 16 OR shl v4 16)"

definition put_flash :: "nat \<Rightarrow> u8 \<Rightarrow> ('d, 'e, 'x) rv_world \<Rightarrow> ('d, 'e, 'x) rv_world" where
  "put_flash o1 v = upd_emu (upd_bus (\<lambda>b. b\<lparr>b_flash := (b_flash b)(o1 := v)\<rparr>))"

fun rv_flash_erase :: "nat \<Rightarrow> nat \<Rightarrow> ('d, 'e, 'x) rv_world \<Rightarrow> ('d, 'e, 'x) rv_world" where
  "rv_flash_erase o1 0 w = w"
| "rv_flash_erase o1 (Suc n) w = rv_flash_erase (o1 + 1) n (put_flash o1 0xFF w)"

fun rv_flash_program :: "('d, 'e, 'x) emu devices \<Rightarrow> u32 \<Rightarrow> u32 \<Rightarrow> nat \<Rightarrow> ('d, 'e, 'x) rv_world \<Rightarrow> ('d, 'e, 'x) rv_world" where
  "rv_flash_program dv o1 src 0 w = w"
| "rv_flash_program dv o1 src (Suc n) w =
     (let (v, w1) = rv_mem_read8 dv src w in rv_flash_program dv (o1 + 1) (src + 1) n (put_flash (unat o1) v w1))"

text \<open>The effect of a function on the registers and the memory; \<open>None\<close> where the address is no function.\<close>

definition rv_rom_function :: "('d, 'e, 'x) emu devices \<Rightarrow> ('d, 'e, 'x) emu rv_boards \<Rightarrow> u32 \<Rightarrow>
    rv_cpu \<times> ('d, 'e, 'x) rv_world \<Rightarrow> (rv_cpu \<times> ('d, 'e, 'x) rv_world) option" where
  "rv_rom_function dv bd pc st =
     (let (c, w) = st; a0 = rx c 10; a1 = rx c 11; a2 = rx c 12; fs = rm_flash_size (rw_bus w) in
      if pc \<in> {0x300, 0x304} then Some (set_x 10 (rv_rom_lookup_address a0 a1) c, w)
      else if pc \<in> {0x400, 0x408} then Some (c, rv_memcpy dv bd a0 a1 (unat a2) w)
      else if pc \<in> {0x404, 0x40C} then Some (c, rv_memset dv bd a0 (ucast (a1 AND 0xFF)) (unat a2) w)
      else if pc = 0x410 then Some (set_x 10 (of_nat (popcount32 a0)) c, w)
      else if pc = 0x414 then Some (set_x 10 (if a0 \<noteq> 0 then of_nat (clz32 a0) else 32) c, w)
      else if pc = 0x418 then Some (set_x 10 (if a0 \<noteq> 0 then of_nat (ctz32 a0) else 32) c, w)
      else if pc = 0x41C then Some (set_x 10 (rom_reverse32 a0) c, w)
      else if pc \<in> {0x420, 0x424, 0x430, 0x434, 0x438} then Some (c, w)
      else if pc = 0x428 then
        Some (c, if a0 + a1 \<le> fs then rv_flash_erase (unat a0) (unat a1) w else w)
      else if pc = 0x42C then
        Some (c, if a0 + a2 \<le> fs then rv_flash_program dv a0 a1 (unat a2) w else w)
      else if pc = 0x43C then
        (let (r, w1) = rv_rom_get_sys_info dv bd a0 a1 a2 w in Some (set_x 10 (word_of_int r) c, w1))
      else if pc = 0x440 then Some ((set_x 10 0 c)\<lparr>ris_halted := True\<rparr>, w)
      else if pc = 0x444 then Some (set_x 10 0 c, w)
      else None)"

definition rv_rom_intercept :: "('d, 'e, 'x) emu devices \<Rightarrow> ('d, 'e, 'x) emu rv_boards \<Rightarrow>
    rv_cpu \<times> ('d, 'e, 'x) rv_world \<Rightarrow> (rv_cpu \<times> ('d, 'e, 'x) rv_world) option" where
  "rv_rom_intercept dv bd st =
     (if \<not> rv_rom_is_stub_pc (rpc (fst st)) then None
      else case rv_rom_function dv bd (rpc (fst st)) st of
             None \<Rightarrow> None
           | Some (c, w) \<Rightarrow> Some (rv_retire (rx c 1) c, w))"

section \<open>The boot code\<close>

lemma encoders:
  "rv_jal 0 imm = enc_j imm 0 0x6F" "rv_lui 2 imm = enc_u imm 2 0x37" "rv_lui 3 imm = enc_u imm 3 0x37"
  "rv_lui 5 imm = enc_u imm 5 0x37" "rv_addi 2 2 imm = enc_i imm 2 0 2 0x13" "rv_addi 5 0 imm = enc_i imm 0 0 5 0x13"
  "rv_jalr 0 5 imm = enc_i imm 5 0 0 0x67" "rv_csrrw 0 imm 5 = enc_i imm 5 1 0 0x73"
  by (rule bit_word_eqI, simp add: bit_cases_32, elim disjE;
      simp add: rv_jal_def rv_lui_def rv_addi_def rv_jalr_def rv_csrrw_def enc_defs bit_simps bit_iff_odd_drop_bit [symmetric])+

lemma halves_rd32: "halves (rd16 m o1) (rd16 m (o1 + 2)) = rd32 m o1"
proof -
  have z: "\<not> bit (x :: u8) n" if "8 \<le> n" for x n using that bit_imp_le_length [of x n] by fastforce
  show ?thesis
    by (rule bit_word_eqI)
      (simp add: bit_cases_32, elim disjE; simp add: halves_def rd16_def rd32_def bit_simps z numeral_3_eq_3)
qed

lemma rom_words_Cons: "rom_words a (v # vs) rom = rom_words (a + 4) vs (wr32 rom a v)"
proof -
  have "enumerate 1 vs = map (\<lambda>(i, v). (Suc i, v)) (enumerate 0 vs)"
    by (rule nth_equalityI) (simp_all add: nth_enumerate_eq)
  then show ?thesis
    by (simp add: rom_words_def fold_map comp_def case_prod_unfold add.assoc)
qed

lemma rom_words_other:
  "o1 + 4 \<le> a \<or> a + 4 * length ws \<le> o1 \<Longrightarrow> rd32 (rom_words a ws rom) o1 = rd32 rom o1"
proof (induction ws arbitrary: a rom)
  case (Cons v ws)
  then show ?case by (auto simp: rom_words_Cons rd32_wr32_other)
qed (simp add: rom_words_def)

lemma rom_words_nth: "i < length ws \<Longrightarrow> rd32 (rom_words a ws rom) (a + 4 * i) = ws ! i"
proof (induction ws arbitrary: a rom i)
  case (Cons v ws)
  then show ?case
  proof (cases i)
    case (Suc j)
    then show ?thesis using Cons.IH [of j "a + 4"] Cons.prems by (simp add: rom_words_Cons add.assoc [symmetric])
  qed (simp add: rom_words_Cons rom_words_other)
qed simp

lemma rom_bytes_other: "o1 + 4 \<le> a \<or> a + length bs \<le> o1 \<Longrightarrow> rd32 (rom_bytes a bs rom) o1 = rd32 rom o1"
proof -
  assume o: "o1 + 4 \<le> a \<or> a + length bs \<le> o1"
  have f: "fold (\<lambda>(i, v) rom. rom(a + i := v)) (enumerate n bs) rom p = rom p"
    if "p < a + n \<or> a + n + length bs \<le> p" for n p rom
    using that by (induction bs arbitrary: n rom) auto
  have "rom_bytes a bs rom p = rom p" if "o1 \<le> p" "p < o1 + 4" for p
    unfolding rom_bytes_def by (rule f) (use o that in linarith)
  then show ?thesis unfolding rd32_def by simp
qed

lemma rd32_wr16_other: "o1 + 4 \<le> a \<or> a + 2 \<le> o1 \<Longrightarrow> rd32 (wr16 rom a v) o1 = rd32 rom o1"
  by (auto simp: rd32_def wr16_def)

lemma table_lengths: "length (table_words fn_table) = 21" "length (table_words data_table) = 5"
  "length (boot_code fb se) \<le> 8"
  by (simp_all add: table_words_def fn_table_def data_table_def boot_code_def Let_def)

lemma rom_boot_words:
  "rd32 (rv_bootrom_init fb se) 0 = rv_jal 0 0x20"
  "i < length (boot_code fb se) \<Longrightarrow> rd32 (rv_bootrom_init fb se) (0x20 + 4 * i) = boot_code fb se ! i"
proof -
  show "rd32 (rv_bootrom_init fb se) 0 = rv_jal 0 0x20"
    unfolding rv_bootrom_init_def
    by (simp add: rom_words_other rom_bytes_other rd32_wr16_other rd32_wr32_other table_lengths)
  assume i: "i < length (boot_code fb se)"
  then have "0x20 + 4 * i + 4 \<le> 0x40" using table_lengths(3) [of fb se] by linarith
  then show "rd32 (rv_bootrom_init fb se) (0x20 + 4 * i) = boot_code fb se ! i"
    unfolding rv_bootrom_init_def
    using i by (simp add: rom_words_other rom_bytes_other rd32_wr16_other rd32_wr32_other table_lengths rom_words_nth)
qed

lemma and_3_iff:
  fixes w :: "'a::len word"
  assumes "2 \<le> LENGTH('a)"
  shows "w AND 3 = 3 \<longleftrightarrow> bit w 0 \<and> bit w 1"
proof -
  have m: "(3 :: 'a word) = mask 2" by (simp add: mask_eq_exp_minus_1)
  have l: "n < 2 \<longleftrightarrow> n = 0 \<or> n = Suc 0" for n :: nat by arith
  show ?thesis
  proof
    assume "w AND 3 = 3"
    then have "bit (w AND mask 2) n = bit (mask 2 :: 'a word) n" for n unfolding m by simp
    from this [of 0] this [of 1] show "bit w 0 \<and> bit w 1" using assms by (simp add: bit_and_iff bit_mask_iff)
  next
    assume "bit w 0 \<and> bit w 1"
    then show "w AND 3 = 3" unfolding m by (intro bit_word_eqI) (auto simp: bit_and_iff bit_mask_iff l)
  qed
qed

text \<open>A hart about to execute an instruction of 32 bits from the ROM.\<close>

definition at_rom :: "rv_cpu \<Rightarrow> ('d, 'e, 'x) rv_world \<Rightarrow> u32 \<Rightarrow> bool" where
  "at_rom c w instr \<longleftrightarrow> rm_rom_size (rw_bus w) = 0x8000 \<and> unat (rpc c) + 4 \<le> 0x8000 \<and> \<not> ris_halted c \<and>
     rd32 (rm_rom (rw_bus w)) (unat (rpc c)) = instr \<and> instr AND 3 = 3"

lemma rom_read16:
  assumes "rm_rom_size (rw_bus w) = 0x8000" "unat a < 0x8000"
  shows "rv_mem_read16 dv a w = (rd16 (rm_rom (rw_bus w)) (unat a), w)"
proof -
  have "rv_sram_offset a = None" using assms(2) by (simp add: rv_sram_offset_def in_block_unat)
  then show ?thesis using assms by (simp add: rv_mem_read16_def rv_memory_at_def word_less_nat_alt)
qed

text \<open>The instruction cache may hold ROM addresses, with what the ROM holds there. Without a cache and with the empty
  one, which the emulator attaches before reset, this is so.\<close>

definition rom_cache_ok :: "('d, 'e, 'x) rv_world \<Rightarrow> rv_icache option \<Rightarrow> bool" where
  "rom_cache_ok w q \<longleftrightarrow> (\<forall>k i. q = Some k \<and> ic_tag k i < 0x8000 \<longrightarrow>
     (let lo = rd16 (rm_rom (rw_bus w)) (unat (ic_tag k i)) in ucast (rv_icache.ic_instr k i) = lo \<and> (ic_size k i = 2 \<longleftrightarrow> lo AND 3 \<noteq> 3)))"

lemma rom_cache_ok_fresh [simp]: "rom_cache_ok w None" "rom_cache_ok w (Some rv_icache_init)"
  by (simp_all add: rom_cache_ok_def rv_icache_init_def)

lemma rom_cache_ok_counters:
  "rom_cache_ok w (Some (k\<lparr>ic_hits := n\<rparr>)) = rom_cache_ok w (Some k)" "rom_cache_ok w (Some (k\<lparr>ic_misses := n\<rparr>)) = rom_cache_ok w (Some k)"
  by (simp_all add: rom_cache_ok_def)

lemma rom_cache_ok_insert:
  assumes "rom_cache_ok w (Some k)" "rd16 (rm_rom (rw_bus w)) (unat pc) = lo" "lo AND 3 = 3"
  shows "rom_cache_ok w (Some (rv_icache_insert pc (halves lo hi) 4 k))"
proof -
  have "(ucast (halves lo hi) :: u16) = lo" by (rule bit_word_eqI) (simp add: halves_def bit_simps)
  then show ?thesis using assms by (simp add: rom_cache_ok_def rv_icache_insert_def Let_def)
qed

lemma rom_step:
  assumes "at_rom c w instr" "rom_cache_ok w q"
  shows "\<exists>q'. rom_cache_ok w q' \<and> snd (rv_cpu_step (rv_world_bus dv bd fl) (c\<lparr>ricache := q\<rparr>, w)) =
    or_illegal instr (c\<lparr>ricache := q'\<rparr>, w) (rv_exec32 (rv_world_bus dv bd fl) instr (rpc c) (c\<lparr>ricache := q'\<rparr>, w))"
proof -
  let ?m = "rm_rom (rw_bus w)" and ?a = "unat (rpc c)" and ?b = "rv_world_bus dv bd fl"
  have a: "rm_rom_size (rw_bus w) = 0x8000" "?a + 4 \<le> 0x8000" "\<not> ris_halted c" "rd32 ?m ?a = instr" "instr AND 3 = 3"
    using assms by (simp_all add: at_rom_def)
  have u2: "unat (rpc c + 2) = ?a + 2" using a(2) by (simp add: unat_word_ariths)
  define lo hi where "lo = rd16 ?m ?a" and "hi = rd16 ?m (?a + 2)"
  have h: "halves lo hi = instr" using a(4) by (simp only: halves_rd32 lo_def hi_def)
  have "bit instr n = bit lo n" if "n < 16" for n
    unfolding h [symmetric] using that by (simp add: halves_def bit_simps)
  then have lo3: "lo AND 3 = 3" using a(5) by (simp add: and_3_iff)
  have rd: "rb_read16 ?b (rpc c) w = (lo, w)" "rb_read16 ?b (rpc c + 2) w = (hi, w)"
    using a(1,2) u2 by (simp_all add: rv_world_bus_def rom_read16 lo_def hi_def)
  have ca: "cacheable (rpc c)" "rpc c < 0x8000" using a(2) by (simp_all add: cacheable_def word_less_nat_alt)
  have "\<exists>q'. rom_cache_ok w q' \<and> rv_fetch ?b (c\<lparr>ricache := q\<rparr>, w) = (lo, False, c\<lparr>ricache := q'\<rparr>, w)"
  proof (cases q)
    case None
    then show ?thesis using rd lo3 by (intro exI [of _ None]) (simp add: rv_fetch_def rv_fetch_miss_def Let_def)
  next
    case (Some k)
    show ?thesis
    proof (cases "ic_tag k (icache_slot (rpc c)) = rpc c")
      case True
      then have "ucast (rv_icache.ic_instr k (icache_slot (rpc c))) = lo" "ic_size k (icache_slot (rpc c)) \<noteq> 2"
        using assms(2) ca(2) lo3 unfolding Some rom_cache_ok_def Let_def lo_def by force+
      then show ?thesis
        using True ca assms(2) unfolding Some
        by (intro exI [of _ "Some (k\<lparr>ic_hits := ic_hits k + 1\<rparr>)"]) (simp add: rom_cache_ok_counters rv_fetch_def rv_icache_lookup_def Let_def)
    next
      case False
      then show ?thesis
        using ca assms(2) rd lo3 rom_cache_ok_insert [of w "k\<lparr>ic_misses := ic_misses k + 1\<rparr>" "rpc c" lo hi] unfolding Some
        by (intro exI [of _ "Some (rv_icache_insert (rpc c) (halves lo hi) 4 (k\<lparr>ic_misses := ic_misses k + 1\<rparr>))"])
          (simp add: rom_cache_ok_counters rv_fetch_def rv_icache_lookup_def rv_fetch_miss_def Let_def lo_def)
    qed
  qed
  then obtain q' where q': "rom_cache_ok w q'" "rv_fetch ?b (c\<lparr>ricache := q\<rparr>, w) = (lo, False, c\<lparr>ricache := q'\<rparr>, w)" by blast
  have "snd (rv_cpu_step ?b (c\<lparr>ricache := q\<rparr>, w)) =
      or_illegal instr (c\<lparr>ricache := q'\<rparr>, w) (rv_exec32 ?b instr (rpc c) (c\<lparr>ricache := q'\<rparr>, w))"
    using a(3) by (simp add: rv_cpu_step_def q'(2) rd h Let_def)
  then show ?thesis using q'(1) by blast
qed

text \<open>A run of the ROM code, whatever the cache holds.\<close>

definition rom_runs :: "('d, 'e, 'x) rv_world rv_bus \<Rightarrow> ('d, 'e, 'x) rv_world \<Rightarrow> nat \<Rightarrow> rv_cpu \<Rightarrow> rv_cpu \<Rightarrow> bool" where
  "rom_runs b w n c c' \<longleftrightarrow> (\<forall>q. rom_cache_ok w q \<longrightarrow> (\<exists>q'. rom_cache_ok w q' \<and>
     ((\<lambda>st. snd (rv_cpu_step b st)) ^^ n) (c\<lparr>ricache := q\<rparr>, w) = (c'\<lparr>ricache := q'\<rparr>, w)))"

lemma rom_runs_Suc:
  assumes "rom_runs b w 1 c c1" "rom_runs b w n c1 c2"
  shows "rom_runs b w (Suc n) c c2"
  unfolding rom_runs_def
proof (intro allI impI)
  let ?f = "\<lambda>st. snd (rv_cpu_step b st)"
  fix q assume "rom_cache_ok w q"
  then obtain q1 where q1: "rom_cache_ok w q1" "?f (c\<lparr>ricache := q\<rparr>, w) = (c1\<lparr>ricache := q1\<rparr>, w)"
    using assms(1) by (auto simp: rom_runs_def)
  obtain q2 where "rom_cache_ok w q2" "(?f ^^ n) (c1\<lparr>ricache := q1\<rparr>, w) = (c2\<lparr>ricache := q2\<rparr>, w)"
    using assms(2) q1(1) by (auto simp: rom_runs_def)
  then show "\<exists>q'. rom_cache_ok w q' \<and> (?f ^^ Suc n) (c\<lparr>ricache := q\<rparr>, w) = (c2\<lparr>ricache := q'\<rparr>, w)"
    using q1(2) by (auto simp: funpow_Suc_right simp del: funpow.simps)
qed

lemma rom_runs_0: "rom_runs b w 0 c c"
  by (auto simp: rom_runs_def)

lemma rom_runs_exec:
  assumes "at_rom c w instr"
    and "\<And>q. or_illegal instr (c\<lparr>ricache := q\<rparr>, w) (rv_exec32 (rv_world_bus dv bd fl) instr (rpc c) (c\<lparr>ricache := q\<rparr>, w)) = (c1\<lparr>ricache := q\<rparr>, w)"
  shows "rom_runs (rv_world_bus dv bd fl) w 1 c c1"
  using rom_step [OF assms(1), of _ dv bd fl] assms(2) by (simp add: rom_runs_def)

lemma rv_cpu_run_simps [simp]:
  "ris_halted (rv_retire npc c) = ris_halted c" "ricache (rv_retire npc c) = ricache c"
  "ris_halted (set_x i v c) = ris_halted c" "ricache (set_x i v c) = ricache c"
  "ris_halted (csr_put a v c) = ris_halted c" "ricache (csr_put a v c) = ricache c"
  by (simp_all add: rv_retire_def set_x_def csr_put_def)

lemma rom_exec_lui:
  assumes "at_rom c w (enc_u v rd 0x37)" "0 < rd" "rd < 32"
  shows "rom_runs (rv_world_bus dv bd fl) w 1 c (rv_retire (rpc c + 4) (set_x rd (v AND 0xFFFFF000) c))"
  using assms fields_enc_u [OF disjI1 [OF refl], of v rd "0x37"]
  by (intro rom_runs_exec [OF assms(1)])
    (simp add: or_illegal_def rv_exec32_def imm_u rv_fin_rd_def rv_fin_def rv_write_rd_def rv_retire_def set_x_def Let_def)

lemma rom_exec_addi:
  assumes "at_rom c w (enc_i v rs1 0 rd 0x13)" "0 < rd" "rd < 32" "rs1 < 32"
  shows "rom_runs (rv_world_bus dv bd fl) w 1 c (rv_retire (rpc c + 4) (set_x rd (rx c rs1 + signed_take_bit 11 v) c))"
  using assms
  by (intro rom_runs_exec [OF assms(1)])
    (simp add: or_illegal_def rv_exec32_def imm_i fields_enc_i rv_op_imm_def rv_fin_rd_def rv_fin_def rv_write_rd_def
      rv_retire_def set_x_def Let_def)

lemma rom_exec_jalr:
  assumes "at_rom c w (enc_i v rs1 0 0 0x67)" "rs1 < 32"
  shows "rom_runs (rv_world_bus dv bd fl) w 1 c (rv_retire ((rx c rs1 + signed_take_bit 11 v) AND NOT 1) c)"
  using assms
  by (intro rom_runs_exec [OF assms(1)])
    (simp add: or_illegal_def rv_exec32_def imm_i fields_enc_i rv_fin_rd_def rv_fin_def rv_write_rd_def rv_retire_def set_x_def Let_def)

lemma rom_exec_jal:
  assumes "at_rom c w (enc_j v 0 0x6F)" "(rpc c + (signed_take_bit 20 v AND NOT 1)) AND 1 = 0"
  shows "rom_runs (rv_world_bus dv bd fl) w 1 c (rv_retire (rpc c + (signed_take_bit 20 v AND NOT 1)) c)"
  using assms fields_enc_u [OF disjI2 [OF refl], of v 0 "0x6F"]
  by (intro rom_runs_exec [OF assms(1)])
    (simp add: or_illegal_def rv_exec32_def imm_j rv_jump_def rv_fin_def rv_write_rd_def rv_retire_def set_x_def Let_def)

lemma rom_exec_set_mtvec:
  assumes "at_rom c w (enc_i 0x305 rs1 1 0 0x73)" "rs1 < 32"
  shows "rom_runs (rv_world_bus dv bd fl) w 1 c (rv_retire (rpc c + 4) (csr_put 0x305 (rx c rs1) c))"
proof -
  have "shr (enc_i 0x305 rs1 1 0 0x73) 20 AND 0xFFF = 0x305"
    by (rule bit_word_eqI) (simp add: bit_cases_32, elim disjE; simp add: enc_i_def bit_simps)
  then show ?thesis
    using assms
    by (intro rom_runs_exec [OF assms(1)])
      (simp add: or_illegal_def rv_exec32_def fields_enc_i rv_system_def rv_csr_op_def rv_csr_write_def
        rv_fin_rd_def rv_fin_def rv_write_rd_def rv_retire_def set_x_def csr_put_def Let_def)
qed

definition rom_ready :: "u32 \<Rightarrow> u32 \<Rightarrow> ('d, 'e, 'x) rv_world \<Rightarrow> bool" where
  "rom_ready fb se w \<longleftrightarrow> rm_rom_size (rw_bus w) = 0x8000 \<and> rm_rom (rw_bus w) = rv_bootrom_init fb se"

definition sp_lower :: "u32 \<Rightarrow> u32" where
  "sp_lower se = (if se AND 0x800 \<noteq> 0 then (se AND 0xFFF) - 0x1000 else se AND 0xFFF)"

definition sp_upper :: "u32 \<Rightarrow> u32" where
  "sp_upper se = (se AND 0xFFFFF000) + (if se AND 0x800 \<noteq> 0 then 0x1000 else 0)"

abbreviation boot_tail :: "u32 \<Rightarrow> u32 list" where
  "boot_tail fb \<equiv> [enc_u 0x20000000 3 0x37, enc_i 4 0 0 5 0x13, enc_i 0x305 5 1 0 0x73, enc_u fb 5 0x37, enc_i 0 5 0 0 0x67]"

lemma boot_code_eq:
  "boot_code fb se = enc_u (sp_upper se) 2 0x37 # (if sp_lower se \<noteq> 0 then [enc_i (sp_lower se) 2 0 2 0x13] else []) @ boot_tail fb"
proof -
  have "(se AND 0xFFF) AND 0x800 = se AND 0x800"
    by (simp add: and.assoc)
  then show ?thesis unfolding boot_code_def sp_lower_def sp_upper_def Let_def encoders by simp
qed

lemma enc_wide: "enc_u v rd 0x37 AND 3 = 3" "enc_i v rs1 f3 rd 0x13 AND 3 = 3" "enc_i v rs1 f3 rd 0x67 AND 3 = 3"
  "enc_i v rs1 f3 rd 0x73 AND 3 = 3" "enc_j v rd 0x6F AND 3 = 3"
  by (simp_all add: and_3_iff enc_defs bit_simps)

text \<open>The stack pointer is assembled from its two parts.\<close>

lemma page_masks: "(0xFFFFF000 :: u32) = NOT (mask 12)" "(0xFFF :: u32) = mask 12"
  by (simp_all add: mask_eq_exp_minus_1)

lemma page_part: "w AND 0xFFFFF000 = w" if "take_bit 12 w = 0" for w :: u32
proof -
  have "\<not> bit (take_bit 12 w) n" for n using that by simp
  then show ?thesis unfolding page_masks by (intro bit_word_eqI) (auto simp: bit_simps)
qed

lemma page_sum: "(w AND 0xFFFFF000) + (w AND 0xFFF) = w" "(w AND 0xFFF) - 0x1000 = (w AND 0xFFF) OR 0xFFFFF000" for w :: u32
proof -
  have "(w AND 0xFFFFF000) + (w AND 0xFFF) = (w AND 0xFFFFF000) OR (w AND 0xFFF)"
    unfolding page_masks by (rule disjunctive_add) (simp add: bit_simps)
  also have "\<dots> = w" unfolding page_masks by (rule bit_word_eqI) (auto simp: bit_simps)
  finally show "(w AND 0xFFFFF000) + (w AND 0xFFF) = w" .
  have "(w AND 0xFFF) + 0xFFFFF000 = (w AND 0xFFF) OR 0xFFFFF000"
    unfolding page_masks by (rule disjunctive_add) (simp add: bit_simps)
  moreover have "- 0x1000 = (0xFFFFF000 :: u32)" by simp
  ultimately show "(w AND 0xFFF) - 0x1000 = (w AND 0xFFF) OR 0xFFFFF000" unfolding diff_conv_add_uminus by (simp only:)
qed

lemma sp_parts:
  "(sp_upper se AND 0xFFFFF000) + signed_take_bit 11 (sp_lower se) = se" "sp_lower se = 0 \<Longrightarrow> sp_upper se AND 0xFFFFF000 = se"
proof -
  let ?hi = "se AND 0xFFFFF000" and ?lo = "se AND 0xFFF"
  have hi: "take_bit 12 ?hi = 0" unfolding page_masks by (rule bit_word_eqI) (auto simp: bit_simps)
  have "?hi + 0x1000 = push_bit 12 (drop_bit 12 se + 1)"
  proof -
    have "?hi = push_bit 12 (drop_bit 12 se)" unfolding page_masks by (rule bit_word_eqI) (auto simp: bit_simps)
    then show ?thesis by (simp add: push_bit_add)
  qed
  then have "take_bit 12 (?hi + 0x1000) = 0" by (simp only:) (rule bit_word_eqI, auto simp: bit_simps)
  then have up: "sp_upper se AND 0xFFFFF000 = sp_upper se" using hi by (auto simp: sp_upper_def intro: page_part)
  have b: "se AND 0x800 \<noteq> 0 \<longleftrightarrow> bit se 11" using and_exp_eq_0 [of se 11] by simp
  have lo: "signed_take_bit 11 (sp_lower se) = sp_lower se"
  proof (cases "bit se 11")
    case True
    then have l: "sp_lower se = ?lo OR 0xFFFFF000" using b page_sum(2) [of se] by (simp add: sp_lower_def)
    show ?thesis unfolding l using True
      by (intro bit_word_eqI) (simp add: bit_cases_32, elim disjE; simp add: bit_simps)
  next
    case False
    then have l: "sp_lower se = ?lo" using b by (simp add: sp_lower_def)
    show ?thesis unfolding l using False
      by (intro bit_word_eqI) (simp add: bit_cases_32, elim disjE; simp add: bit_simps)
  qed
  show s: "(sp_upper se AND 0xFFFFF000) + signed_take_bit 11 (sp_lower se) = se"
    unfolding up lo using page_sum(1) [of se] by (simp add: sp_upper_def sp_lower_def)
  show "sp_lower se = 0 \<Longrightarrow> sp_upper se AND 0xFFFFF000 = se" using s by simp
qed

lemma boot_fetch:
  assumes "rom_ready fb se w" "rpc c = of_nat (0x20 + 4 * i)" "i < length (boot_code fb se)" "\<not> ris_halted c"
  shows "at_rom c w (boot_code fb se ! i)"
proof -
  have i: "i < 8" using assms(3) table_lengths(3) [of fb se] by linarith
  have u: "unat (rpc c) = 0x20 + 4 * i" unfolding assms(2) using i by (intro unat_of_nat_lt) simp
  have "\<forall>x \<in> set (boot_code fb se). x AND 3 = 3" unfolding boot_code_eq by (simp add: enc_wide)
  then have "boot_code fb se ! i AND 3 = 3" using assms(3) by simp
  then show ?thesis using assms i u rom_boot_words(2) [OF assms(3)] by (simp add: at_rom_def rom_ready_def)
qed

lemma boot_tail_run:
  assumes r: "rom_ready fb se w" and k: "boot_code fb se = pre @ boot_tail fb"
    and c: "rpc c = of_nat (0x20 + 4 * length pre)" "\<not> ris_halted c" "rx c 0 = 0" and fb: "fb AND 0xFFF = 0"
  shows "\<exists>c'. rom_runs (rv_world_bus dv bd fl) w 5 c c' \<and> rpc c' = fb \<and>
    rx c' 2 = rx c 2 \<and> rx c' 3 = 0x20000000 \<and> rcsr c' 0x305 = 4 \<and> \<not> ris_halted c'"
proof -
  let ?r = "rom_runs (rv_world_bus dv bd fl) w" and ?n = "length pre"
  have nth: "boot_code fb se ! (?n + j) = boot_tail fb ! j" "j < 5 \<Longrightarrow> ?n + j < length (boot_code fb se)" for j
    by (simp_all add: k nth_append)
  have f: "at_rom c1 w (boot_tail fb ! j)"
    if "rpc c1 = of_nat (0x20 + 4 * (?n + j))" "j < 5" "\<not> ris_halted c1" for c1 j
    using boot_fetch [OF r that(1) nth(2) [OF that(2)] that(3)] unfolding nth(1) .
  have fb1: "fb AND 0xFFFFF000 = fb" "fb AND NOT 1 = fb"
  proof -
    have z: "\<not> bit fb n" if "n < 12" for n
    proof -
      have "\<not> bit (fb AND mask 12) n" using fb by (simp only: page_masks) simp
      then show ?thesis using that by (simp add: bit_simps)
    qed
    show "fb AND 0xFFFFF000 = fb" unfolding page_masks using z by (intro bit_word_eqI) (auto simp: bit_simps)
    show "fb AND NOT 1 = fb" using z [of 0] by (intro bit_word_eqI) (auto simp: bit_simps bit_1_iff intro!: gr0I)
  qed
  define c1 where "c1 = rv_retire (rpc c + 4) (set_x 3 0x20000000 c)"
  define c2 where "c2 = rv_retire (rpc c + 8) (set_x 5 4 c1)"
  define c3 where "c3 = rv_retire (rpc c + 12) (csr_put 0x305 4 c2)"
  define c4 where "c4 = rv_retire (rpc c + 16) (set_x 5 fb c3)"
  note cs = c1_def c2_def c3_def c4_def
  have a: "at_rom c w (enc_u 0x20000000 3 0x37)" "at_rom c1 w (enc_i 4 0 0 5 0x13)" "at_rom c2 w (enc_i 0x305 5 1 0 0x73)"
      "at_rom c3 w (enc_u fb 5 0x37)" "at_rom c4 w (enc_i 0 5 0 0 0x67)"
    using f [of c 0] f [of c1 1] f [of c2 2] f [of c3 3] f [of c4 4] c by (simp_all add: cs)
  have "?r 1 c c1" using rom_exec_lui [OF a(1), of dv bd fl] by (simp add: c1_def)
  moreover have "?r 1 c1 c2" using rom_exec_addi [OF a(2), of dv bd fl] c by (simp add: cs)
  moreover have "?r 1 c2 c3" using rom_exec_set_mtvec [OF a(3), of dv bd fl] by (simp add: cs add.commute)
  moreover have "?r 1 c3 c4" using rom_exec_lui [OF a(4), of dv bd fl] fb1 by (simp add: cs add.commute)
  moreover have "?r 1 c4 (rv_retire fb c4)" using rom_exec_jalr [OF a(5), of dv bd fl] fb1 by (simp add: cs)
  ultimately have "?r (Suc (Suc (Suc (Suc (Suc 0))))) c (rv_retire fb c4)" by (meson rom_runs_Suc rom_runs_0)
  then show ?thesis using c by (intro exI [of _ "rv_retire fb c4"]) (simp add: cs eval_nat_numeral)
qed

text \<open>C18. The boot ROM hands over to the program in flash: from reset, a hart runs the generated boot code
  in at most eight instructions to the start of the flash, with the stack pointer at the given end of
  the SRAM, whatever that address is, the global pointer at its start and the trap vector at the
  handler of the ROM; nothing in memory changes. The instruction cache may be off, or on and hold of the ROM only
  what the ROM holds, as the empty cache does that the emulator attaches before reset.\<close>

theorem rv_boot_hands_over:
  assumes "rom_ready flash_base sram_end w" "flash_base AND 0xFFF = 0" "rom_cache_ok w (ricache c)"
  shows "\<exists>n \<le> 8. \<exists>c'. ((\<lambda>st. snd (rv_cpu_step (rv_world_bus dv bd fl) st)) ^^ n) (rv_cpu_reset 0 c, w) = (c', w) \<and>
    rpc c' = flash_base \<and> rx c' 2 = sram_end \<and> rx c' 3 = 0x20000000 \<and> rcsr c' 0x305 = 4 \<and> \<not> ris_halted c' \<and>
    rom_cache_ok w (ricache c')"
proof -
  let ?r = "rom_runs (rv_world_bus dv bd fl) w" and ?c0 = "rv_cpu_reset 0 c"
  let ?code = "boot_code flash_base sram_end" and ?lo = "sp_lower sram_end" and ?hi = "sp_upper sram_end AND 0xFFFFF000"
  have c0: "rpc ?c0 = 0" "\<not> ris_halted ?c0" "rx ?c0 = (\<lambda>_. 0)" by (simp_all add: rv_cpu_reset_def)
  have "at_rom ?c0 w (enc_j 0x20 0 0x6F)"
    using assms(1) c0 rom_boot_words(1) [of flash_base sram_end] enc_wide(5) by (simp add: at_rom_def rom_ready_def encoders)
  then have s0: "?r 1 ?c0 (rv_retire 0x20 ?c0)"
    using rom_exec_jal [of ?c0 w "0x20" dv bd fl] by (simp add: c0)
  define c1 where "c1 = rv_retire 0x24 (set_x 2 ?hi (rv_retire 0x20 ?c0))"
  have "at_rom (rv_retire 0x20 ?c0) w (enc_u (sp_upper sram_end) 2 0x37)"
    using boot_fetch [OF assms(1), of "rv_retire 0x20 ?c0" 0] c0 by (simp add: boot_code_eq)
  then have s1: "?r 1 (rv_retire 0x20 ?c0) c1"
    using rom_exec_lui [of "rv_retire 0x20 ?c0" w "sp_upper sram_end" 2 dv bd fl] by (simp add: c1_def)
  have c1: "rpc c1 = of_nat 0x24" "\<not> ris_halted c1" "rx c1 0 = 0" "rx c1 2 = ?hi"
    using c0 by (simp_all add: c1_def)
  have "\<exists>n \<le> 8. \<exists>c'. ?r n ?c0 c' \<and> rpc c' = flash_base \<and> rx c' 2 = sram_end \<and> rx c' 3 = 0x20000000 \<and> rcsr c' 0x305 = 4 \<and> \<not> ris_halted c'"
  proof (cases "?lo = 0")
    case True
    then have code: "?code = [enc_u (sp_upper sram_end) 2 0x37] @ boot_tail flash_base" by (simp add: boot_code_eq)
    obtain c' where "?r 5 c1 c'" and c': "rpc c' = flash_base" "rx c' 2 = rx c1 2" "rx c' 3 = 0x20000000"
        "rcsr c' 0x305 = 4" "\<not> ris_halted c'"
      using boot_tail_run [OF assms(1) code _ c1(2,3) assms(2), of dv bd fl] c1(1) by auto
    then have "?r (Suc (Suc 5)) ?c0 c'" using s0 s1 rom_runs_Suc by blast
    moreover have "rx c' 2 = sram_end" using c'(2) c1(4) sp_parts(2) [OF True] by simp
    ultimately show ?thesis using c' by (intro exI [of _ "Suc (Suc 5)"]) auto
  next
    case False
    define c2 where "c2 = rv_retire 0x28 (set_x 2 sram_end c1)"
    have code: "?code = [enc_u (sp_upper sram_end) 2 0x37, enc_i ?lo 2 0 2 0x13] @ boot_tail flash_base"
      using False by (simp add: boot_code_eq)
    have "at_rom c1 w (enc_i ?lo 2 0 2 0x13)"
      using boot_fetch [OF assms(1), of c1 1] c1 by (simp add: code)
    then have s2: "?r 1 c1 c2"
      using rom_exec_addi [of c1 w ?lo 2 2 dv bd fl] sp_parts(1) [of sram_end] c1 by (simp add: c2_def)
    have c2: "rpc c2 = of_nat 0x28" "\<not> ris_halted c2" "rx c2 0 = 0" "rx c2 2 = sram_end"
      using c1 by (simp_all add: c2_def)
    obtain c' where "?r 5 c2 c'" and c': "rpc c' = flash_base" "rx c' 2 = rx c2 2" "rx c' 3 = 0x20000000"
        "rcsr c' 0x305 = 4" "\<not> ris_halted c'"
      using boot_tail_run [OF assms(1) code _ c2(2,3) assms(2), of dv bd fl] c2(1) by auto
    then have "?r (Suc (Suc (Suc 5))) ?c0 c'" using s0 s1 s2 rom_runs_Suc by blast
    then show ?thesis using c' c2(4) by (intro exI [of _ "Suc (Suc (Suc 5))"]) auto
  qed
  then obtain n c' where n: "n \<le> 8" "?r n ?c0 c'" and c': "rpc c' = flash_base" "rx c' 2 = sram_end" "rx c' 3 = 0x20000000"
      "rcsr c' 0x305 = 4" "\<not> ris_halted c'" by blast
  have "?c0\<lparr>ricache := ricache c\<rparr> = ?c0" by (simp add: rv_cpu_reset_def)
  then obtain q' where "rom_cache_ok w q'"
      "((\<lambda>st. snd (rv_cpu_step (rv_world_bus dv bd fl) st)) ^^ n) (?c0, w) = (c'\<lparr>ricache := q'\<rparr>, w)"
    using n(2) assms(3) unfolding rom_runs_def by metis
  then show ?thesis using n(1) c' by (intro exI [of _ n] conjI exI [of _ "c'\<lparr>ricache := q'\<rparr>"]) simp_all
qed

theorem rv_boot_hands_over_witness:
  "let w = upd_rm (\<lambda>r. r\<lparr>rm_rom := rv_bootrom_init 0x10000000 0x20082000\<rparr>) rv_world_boot;
       b = rv_world_bus no_devices no_boards (\<lambda>_ _ _ _ _ _. (0, 0)) in
   \<exists>n c'. ((\<lambda>st. snd (rv_cpu_step b st)) ^^ n) (rv_cpu_reset 0 ((rv_cpu_init 0)\<lparr>ricache := Some rv_icache_init\<rparr>), w) = (c', w) \<and>
     rpc c' = 0x10000000 \<and> rx c' 2 = 0x20082000"
proof -
  define w where "w = upd_rm (\<lambda>r. r\<lparr>rm_rom := rv_bootrom_init 0x10000000 0x20082000\<rparr>) rv_world_boot"
  have "rom_ready 0x10000000 0x20082000 w" by (simp add: w_def rom_ready_def upd_rm_def rv_world_boot_bus)
  then show ?thesis
    using rv_boot_hands_over [of "0x10000000" "0x20082000" w "(rv_cpu_init 0)\<lparr>ricache := Some rv_icache_init\<rparr>" no_devices no_boards
        "\<lambda>_ _ _ _ _ _. (0, 0)"]
    unfolding w_def [symmetric] Let_def by auto
qed

section \<open>Memory functions\<close>

definition sram_range :: "u32 \<Rightarrow> nat \<Rightarrow> bool" where
  "sram_range a n \<longleftrightarrow> 0x20000000 \<le> unat a \<and> unat a + n \<le> 0x20082000"

lemma sram_range_head:
  assumes "sram_range a (Suc n)"
  shows "rv_sram_offset a = Some (unat a - 0x20000000)" "sram_range (a + 1) n" "unat (a + 1) = unat a + 1"
proof -
  have u: "0x20000000 \<le> unat a" "unat a + Suc n \<le> 0x20082000" using assms by (simp_all add: sram_range_def)
  then show s: "unat (a + 1) = unat a + 1" by (simp add: unat_word_ariths)
  show "sram_range (a + 1) n" using u by (simp add: sram_range_def s)
  have "in_block a 0x20000000 0x82000" using u by (simp add: in_block_unat)
  then show "rv_sram_offset a = Some (unat a - 0x20000000)" by (rule rv_sram_windows)
qed

lemma rv_sram_put_put [simp]: "rv_sram_put m2 (rv_sram_put m1 w) = rv_sram_put m2 w"
  by (simp add: rv_sram_put_def upd_emu_def upd_bus_def)

lemma rv_sram_put_same [simp]: "rv_sram_put (rv_sram w) w = w"
  by (cases w; simp add: rv_sram_put_def upd_emu_def upd_bus_def)

lemma rv_sram_put_none: "rv_sram_put (\<lambda>i. if k \<le> i \<and> i < k then f i else rv_sram w i) w = w"
proof -
  have "(\<lambda>i. if k \<le> i \<and> i < k then f i else rv_sram w i) = rv_sram w" by (rule ext) auto
  then show ?thesis by (simp only: rv_sram_put_same)
qed

lemma copy_step:
  assumes "\<And>k. k < Suc n \<Longrightarrow> s + k \<noteq> d"
  shows "(\<lambda>i. if Suc d \<le> i \<and> i < Suc d + n then (m(d := m s)) (Suc s + (i - Suc d)) else (m(d := m s)) i) =
    (\<lambda>i. if d \<le> i \<and> i < d + Suc n then m (s + (i - d)) else m i)"
proof
  fix i
  consider "i = d" | "Suc d \<le> i" "i < Suc d + n" | "i < d \<or> Suc d + n \<le> i" by linarith
  then show "(if Suc d \<le> i \<and> i < Suc d + n then (m(d := m s)) (Suc s + (i - Suc d)) else (m(d := m s)) i) =
      (if d \<le> i \<and> i < d + Suc n then m (s + (i - d)) else m i)"
  proof cases
    case 2
    then have "Suc s + (i - Suc d) = s + (i - d)" "i - d < Suc n" by linarith+
    then show ?thesis using assms [of "i - d"] 2 by simp
  qed auto
qed

lemma rv_memset_sram:
  "sram_range a n \<Longrightarrow> rv_memset dv bd a v n w =
     rv_sram_put (\<lambda>i. if unat a - 0x20000000 \<le> i \<and> i < unat a - 0x20000000 + n then v else rv_sram w i) w"
proof (induction n arbitrary: a w)
  case (Suc n)
  let ?o = "unat a - 0x20000000"
  have o: "unat (a + 1) - 0x20000000 = Suc ?o"
    using Suc.prems sram_range_head(3) [OF Suc.prems] unfolding sram_range_def by linarith
  have "rv_memset dv bd a v (Suc n) w = rv_memset dv bd (a + 1) v n (rv_sram_put ((rv_sram w)(?o := v)) w)"
    by (simp add: rv_memory_sram [OF sram_range_head(1) [OF Suc.prems]])
  also have "\<dots> = rv_sram_put (\<lambda>i. if Suc ?o \<le> i \<and> i < Suc ?o + n then v else ((rv_sram w)(?o := v)) i) w"
    using Suc.IH [OF sram_range_head(2) [OF Suc.prems], of "rv_sram_put ((rv_sram w)(?o := v)) w"]
    unfolding o rv_sram_put_read rv_sram_put_put .
  also have "(\<lambda>i. if Suc ?o \<le> i \<and> i < Suc ?o + n then v else ((rv_sram w)(?o := v)) i) =
      (\<lambda>i. if ?o \<le> i \<and> i < ?o + Suc n then v else rv_sram w i)" by auto
  finally show ?case .
qed (simp add: rv_sram_put_none)

lemma rv_memcpy_sram:
  "sram_range d n \<Longrightarrow> sram_range s n \<Longrightarrow> unat d + n \<le> unat s \<or> unat s + n \<le> unat d \<Longrightarrow> rv_memcpy dv bd d s n w =
     rv_sram_put (\<lambda>i. if unat d - 0x20000000 \<le> i \<and> i < unat d - 0x20000000 + n
       then rv_sram w (unat s - 0x20000000 + (i - (unat d - 0x20000000))) else rv_sram w i) w"
proof (induction n arbitrary: d s w)
  case (Suc n)
  let ?d = "unat d - 0x20000000" and ?s = "unat s - 0x20000000"
  note hd = sram_range_head [OF Suc.prems(1)] and hs = sram_range_head [OF Suc.prems(2)]
  have o: "unat (d + 1) - 0x20000000 = Suc ?d" "unat (s + 1) - 0x20000000 = Suc ?s"
    using Suc.prems(1,2) hd(3) hs(3) unfolding sram_range_def by linarith+
  have apart: "unat (d + 1) + n \<le> unat (s + 1) \<or> unat (s + 1) + n \<le> unat (d + 1)"
    using Suc.prems(3) hd(3) hs(3) by auto
  have ne: "?s + k \<noteq> ?d" if "k < Suc n" for k using Suc.prems that by (auto simp: sram_range_def)
  let ?m = "(rv_sram w)(?d := rv_sram w ?s)"
  have "rv_memcpy dv bd d s (Suc n) w = rv_memcpy dv bd (d + 1) (s + 1) n (rv_sram_put ?m w)"
    by (simp add: rv_memory_sram [OF hd(1)] rv_memory_sram [OF hs(1)])
  also have "\<dots> = rv_sram_put (\<lambda>i. if Suc ?d \<le> i \<and> i < Suc ?d + n then ?m (Suc ?s + (i - Suc ?d)) else ?m i) w"
    using Suc.IH [OF hd(2) hs(2) apart, of "rv_sram_put ?m w"] unfolding o rv_sram_put_read rv_sram_put_put .
  also have "\<dots> = rv_sram_put (\<lambda>i. if ?d \<le> i \<and> i < ?d + Suc n then rv_sram w (?s + (i - ?d)) else rv_sram w i) w"
    using copy_step [of n ?s ?d "rv_sram w", OF ne] by (simp only:)
  finally show ?case .
qed (simp add: rv_sram_put_none)

text \<open>The copy and fill functions of the ROM: called with ranges inside the SRAM that do not overlap,
  the copy makes the destination equal to the source, the fill makes it constant, no other byte
  changes, and the hart continues after the call with its registers as they were.\<close>

theorem rv_rom_memory_functions:
  assumes "rpc c = f" "f \<in> {0x400, 0x404, 0x408, 0x40C}" "d = unat (rx c 10) - 0x20000000" "n = unat (rx c 12)"
    "sram_range (rx c 10) n"
    "f \<in> {0x400, 0x408} \<Longrightarrow> sram_range (rx c 11) n \<and> (unat (rx c 10) + n \<le> unat (rx c 11) \<or> unat (rx c 11) + n \<le> unat (rx c 10))"
  shows "rv_rom_intercept dv bd (c, w) = Some (rv_retire (rx c 1) c,
    rv_sram_put (\<lambda>i. if d \<le> i \<and> i < d + n
      then (if f \<in> {0x400, 0x408} then rv_sram w (unat (rx c 11) - 0x20000000 + (i - d)) else ucast (rx c 11)) else rv_sram w i) w)"
proof -
  have u: "(ucast (rx c 11 AND 0xFF) :: u8) = ucast (rx c 11)"
    by (rule bit_word_eqI) (simp add: bit_simps numeral_masks)
  have i: "rv_rom_function dv bd f (c, w) = Some (c, w1) \<Longrightarrow> rv_rom_intercept dv bd (c, w) = Some (rv_retire (rx c 1) c, w1)" for w1
    using assms(1,2) by (auto simp: rv_rom_intercept_def rv_rom_is_stub_pc_def)
  consider (copy) "f \<in> {0x400, 0x408}" | (fill) "f \<in> {0x404, 0x40C}" "f \<notin> {0x400, 0x408}" using assms(2) by auto
  then show ?thesis
  proof cases
    case copy
    have r: "sram_range (rx c 11) n" "unat (rx c 10) + n \<le> unat (rx c 11) \<or> unat (rx c 11) + n \<le> unat (rx c 10)"
      using assms(6) [OF copy] by simp_all
    have "rv_rom_function dv bd f (c, w) = Some (c, rv_memcpy dv bd (rx c 10) (rx c 11) n w)"
      using copy by (auto simp: rv_rom_function_def assms(4))
    from i [OF this] show ?thesis unfolding rv_memcpy_sram [OF assms(5) r] assms(3) by (simp only: copy if_True)
  next
    case fill
    have "rv_rom_function dv bd f (c, w) = Some (c, rv_memset dv bd (rx c 10) (ucast (rx c 11)) n w)"
      using fill by (auto simp: rv_rom_function_def assms(4) u)
    from i [OF this] show ?thesis unfolding rv_memset_sram [OF assms(5)] assms(3) by (simp only: fill(2) if_False)
  qed
qed

theorem rv_rom_memory_functions_witness:
  "let c = (rv_cpu_init 0)\<lparr>rpc := 0x404, rx := (\<lambda>_. 0)(1 := 0x10000100, 10 := 0x20000000, 11 := 7, 12 := 3)\<rparr> in
   rv_rom_intercept no_devices no_boards (c, rv_world_boot) =
     Some (rv_retire 0x10000100 c, rv_sram_put (\<lambda>i. if i < 3 then 7 else rv_sram rv_world_boot i) rv_world_boot)"
proof -
  define c where "c = (rv_cpu_init 0)\<lparr>rpc := 0x404, rx := (\<lambda>_. 0)(1 := 0x10000100, 10 := 0x20000000, 11 := 7, 12 := 3)\<rparr>"
  have x: "rpc c = 0x404" "rx c (Suc 0) = 0x10000100" "rx c 10 = 0x20000000" "rx c 11 = 7" "rx c 12 = 3" by (simp_all add: c_def)
  have "sram_range (rx c 10) 3" unfolding x by (simp add: sram_range_def)
  then have "rv_rom_intercept no_devices no_boards (c, rv_world_boot) = Some (rv_retire (rx c 1) c,
      rv_sram_put (\<lambda>i. if 0 \<le> i \<and> i < 0 + 3 then (if (0x404 :: u32) \<in> {0x400, 0x408}
        then rv_sram rv_world_boot (unat (rx c 11) - 0x20000000 + (i - 0)) else ucast (rx c 11)) else rv_sram rv_world_boot i) rv_world_boot)"
    by (intro rv_rom_memory_functions) (simp_all add: x)
  then show ?thesis unfolding c_def [symmetric] Let_def by (simp add: x cong: if_cong)
qed

section \<open>Flash functions\<close>

abbreviation rv_flash :: "('d, 'e, 'x) rv_world \<Rightarrow> nat \<Rightarrow> u8" where
  "rv_flash w \<equiv> b_flash (m_bus (rw_emu w))"

definition set_flash :: "(nat \<Rightarrow> u8) \<Rightarrow> ('d, 'e, 'x) rv_world \<Rightarrow> ('d, 'e, 'x) rv_world" where
  "set_flash f = upd_emu (upd_bus (\<lambda>b. b\<lparr>b_flash := f\<rparr>))"

lemma set_flash_simps [simp]:
  "rv_flash (set_flash f w) = f" "rv_sram (set_flash f w) = rv_sram w" "set_flash f (set_flash g w) = set_flash f w"
  "rw_bus (set_flash f w) = rw_bus w" "set_flash (rv_flash w) w = w"
  by (cases w; simp add: set_flash_def upd_emu_def upd_bus_def)+

lemma put_flash_eq: "put_flash o1 v w = set_flash ((rv_flash w)(o1 := v)) w"
  by (simp add: put_flash_def set_flash_def upd_emu_def upd_bus_def)

lemma set_flash_none: "set_flash (\<lambda>i. if k \<le> i \<and> i < k then f i else rv_flash w i) w = w"
proof -
  have "(\<lambda>i. if k \<le> i \<and> i < k then f i else rv_flash w i) = rv_flash w" by (rule ext) auto
  then show ?thesis by (simp only: set_flash_simps)
qed

lemma fill_step:
  "(\<lambda>i. if Suc o1 \<le> i \<and> i < Suc o1 + n then g (Suc s + (i - Suc o1)) else (m(o1 := g s)) i) =
    (\<lambda>i. if o1 \<le> i \<and> i < o1 + Suc n then g (s + (i - o1)) else (m :: nat \<Rightarrow> 'a) i)"
proof
  fix i
  consider "i = o1" | "Suc o1 \<le> i" "i < Suc o1 + n" | "i < o1 \<or> Suc o1 + n \<le> i" by linarith
  then show "(if Suc o1 \<le> i \<and> i < Suc o1 + n then g (Suc s + (i - Suc o1)) else (m(o1 := g s)) i) =
      (if o1 \<le> i \<and> i < o1 + Suc n then g (s + (i - o1)) else m i)"
  proof cases
    case 2
    then have "Suc s + (i - Suc o1) = s + (i - o1)" by linarith
    then show ?thesis using 2 by simp
  qed auto
qed

lemma rv_flash_erase_eq:
  "rv_flash_erase o1 n w = set_flash (\<lambda>i. if o1 \<le> i \<and> i < o1 + n then 0xFF else rv_flash w i) w"
proof (induction n arbitrary: o1 w)
  case (Suc n)
  show ?case
    using fill_step [of o1 n "\<lambda>_. 0xFF" 0 "rv_flash w"]
    unfolding rv_flash_erase.simps Suc.IH put_flash_eq set_flash_simps Suc_eq_plus1 [symmetric] by (simp only:)
qed (simp add: set_flash_none)

lemma rv_flash_program_eq:
  "sram_range src n \<Longrightarrow> unat o1 + n < 2 ^ 32 \<Longrightarrow> rv_flash_program dv o1 src n w =
     set_flash (\<lambda>i. if unat o1 \<le> i \<and> i < unat o1 + n then rv_sram w (unat src - 0x20000000 + (i - unat o1)) else rv_flash w i) w"
proof (induction n arbitrary: o1 src w)
  case (Suc n)
  note h = sram_range_head [OF Suc.prems(1)]
  have u: "unat (o1 + 1) = Suc (unat o1)" using Suc.prems(2) by (simp add: unat_word_ariths)
  have s: "unat (src + 1) - 0x20000000 = Suc (unat src - 0x20000000)"
    using Suc.prems(1) h(3) unfolding sram_range_def by linarith
  have r: "rv_mem_read8 dv src w = (rv_sram w (unat src - 0x20000000), w)" by (rule rv_memory_sram [OF h(1)])
  have "unat (o1 + 1) + n < 2 ^ 32" using Suc.prems(2) u by simp
  note ih = Suc.IH [OF h(2) this]
  show ?case
    using fill_step [of "unat o1" n "rv_sram w" "unat src - 0x20000000" "rv_flash w"]
    unfolding rv_flash_program.simps r Let_def prod.case put_flash_eq ih set_flash_simps u s
    by (simp only:)
qed (simp add: set_flash_none)

text \<open>Flash is updated as asked: an erase inside the flash sets exactly its range to ones, a program call
  copies exactly the given bytes from SRAM. A request that does not fit is ignored, and the function
  returns to its caller either way.\<close>

theorem rv_flash_update:
  assumes "rpc c = f" "f = 0x428 \<or> f = 0x42C" "o1 = unat (rx c 10)" "n = unat (if f = 0x428 then rx c 11 else rx c 12)"
    "o1 + n < 2 ^ 32" "f = 0x42C \<longrightarrow> sram_range (rx c 11) n"
  shows "\<exists>w'. rv_rom_intercept dv bd (c, w) = Some (rv_retire (rx c 1) c, w') \<and>
    (if o1 + n \<le> unat (rm_flash_size (rw_bus w)) then
       w' = set_flash (\<lambda>i. if o1 \<le> i \<and> i < o1 + n
         then (if f = 0x428 then 0xFF else rv_sram w (unat (rx c 11) - 0x20000000 + (i - o1))) else rv_flash w i) w
     else w' = w)"
proof -
  have i: "rv_rom_function dv bd f (c, w) = Some (c, w1) \<Longrightarrow> rv_rom_intercept dv bd (c, w) = Some (rv_retire (rx c 1) c, w1)" for w1
    using assms(1,2) by (auto simp: rv_rom_intercept_def rv_rom_is_stub_pc_def)
  from assms(2) show ?thesis
  proof
    assume f: "f = 0x428"
    then have le: "rx c 10 + rx c 11 \<le> rm_flash_size (rw_bus w) \<longleftrightarrow> o1 + n \<le> unat (rm_flash_size (rw_bus w))"
      using assms(3,4,5) by (simp add: word_le_nat_alt unat_word_ariths)
    have "rv_rom_function dv bd f (c, w) = Some (c, if o1 + n \<le> unat (rm_flash_size (rw_bus w)) then rv_flash_erase o1 n w else w)"
      using f by (simp add: rv_rom_function_def Let_def le assms(3,4))
    from i [OF this] show ?thesis using f by (intro exI conjI) (assumption, simp add: rv_flash_erase_eq cong: if_cong)
  next
    assume f: "f = 0x42C"
    then have le: "rx c 10 + rx c 12 \<le> rm_flash_size (rw_bus w) \<longleftrightarrow> o1 + n \<le> unat (rm_flash_size (rw_bus w))"
      and p: "rv_flash_program dv (rx c 10) (rx c 11) n w = set_flash (\<lambda>i. if o1 \<le> i \<and> i < o1 + n
         then rv_sram w (unat (rx c 11) - 0x20000000 + (i - o1)) else rv_flash w i) w"
      using assms(3-6) rv_flash_program_eq [of "rx c 11" n "rx c 10" dv w] by (simp_all add: word_le_nat_alt unat_word_ariths cong: if_cong)
    have "rv_rom_function dv bd f (c, w) =
        Some (c, if o1 + n \<le> unat (rm_flash_size (rw_bus w)) then rv_flash_program dv (rx c 10) (rx c 11) n w else w)"
      using f by (simp add: rv_rom_function_def Let_def le assms(3,4))
    from i [OF this] show ?thesis unfolding p using f assms(3) by (intro exI conjI) (assumption, simp cong: if_cong)
  qed
qed

theorem rv_flash_update_witness:
  "\<exists>w'. rv_rom_intercept no_devices no_boards ((rv_cpu_init 0)\<lparr>rpc := 0x428, rx := (\<lambda>_. 0)(10 := 0x1000, 11 := 0x1000)\<rparr>, rv_world_boot) =
     Some (rv_retire 0 ((rv_cpu_init 0)\<lparr>rpc := 0x428, rx := (\<lambda>_. 0)(10 := 0x1000, 11 := 0x1000)\<rparr>), w') \<and>
     rv_flash w' 0x1004 = 0xFF"
proof -
  define c where "c = (rv_cpu_init 0)\<lparr>rpc := 0x428, rx := (\<lambda>_. 0)(10 := 0x1000, 11 := 0x1000)\<rparr>"
  have x: "rpc c = 0x428" "rx c 1 = 0" "rx c 10 = 0x1000" "rx c 11 = 0x1000" by (simp_all add: c_def)
  have u: "0x1000 = unat (rx c 10)" "0x1000 = unat (if (0x428 :: u32) = 0x428 then rx c 11 else rx c 12)" by (simp_all add: x)
  obtain w' where i: "rv_rom_intercept no_devices no_boards (c, rv_world_boot) = Some (rv_retire (rx c 1) c, w')"
    and "if 0x1000 + 0x1000 \<le> unat (rm_flash_size (rw_bus rv_world_boot)) then
       w' = set_flash (\<lambda>i. if 0x1000 \<le> i \<and> i < 0x1000 + 0x1000 then (if (0x428 :: u32) = 0x428 then 0xFF
         else rv_sram rv_world_boot (unat (rx c 11) - 0x20000000 + (i - 0x1000))) else rv_flash rv_world_boot i) rv_world_boot
      else w' = rv_world_boot"
    using rv_flash_update [OF x(1) disjI1 [OF refl] u, of no_devices no_boards rv_world_boot] by auto
  then have "rv_flash w' 0x1004 = 0xFF" by (simp add: rv_world_boot_bus)
  then show ?thesis using i unfolding c_def [symmetric] x by blast
qed

section \<open>Bit functions and tables\<close>

lemma reverse32_bits: "i < 32 \<Longrightarrow> bit (rom_reverse32 a) i = bit a (31 - i)"
  unfolding bit_cases_32 by (elim disjE) (simp_all add: rom_reverse32_def Let_def bit_simps bit_times_2)

lemma lookup_Nil: "case_option 0 id (map_of [] code) = 0"
  by simp

lemma lookup_Cons:
  "case_option 0 id (map_of ((k, v) # t) code) = (if code = k then v else case_option 0 id (map_of t code))"
  by simp

text \<open>The lookup functions and the tables in the ROM agree: a code is found exactly when it is in the
  table for its kind, at the address the table gives, and every function found is one that a call to
  its address performs.\<close>

theorem rv_rom_lookup_complete:
  "(rv_rom_lookup_address code msk = (if msk = 0x40 then case_option 0 id (map_of data_table code)
     else if msk = 1 \<or> msk = 3 then case_option 0 id (map_of fn_table code) else 0)) \<and>
   (\<forall>addr \<in> snd ` set fn_table. \<forall>c w. rpc c = addr \<longrightarrow> rv_rom_intercept dv bd (c, w) \<noteq> None)"
proof
  show "rv_rom_lookup_address code msk = (if msk = 0x40 then case_option 0 id (map_of data_table code)
     else if msk = 1 \<or> msk = 3 then case_option 0 id (map_of fn_table code) else 0)"
  proof -
    have ne: "(1 :: u32) \<noteq> 0x40" "(3 :: u32) \<noteq> 0x40" by simp_all
    consider "msk = 0x40" | "msk = 1" | "msk = 3" | "msk \<noteq> 0x40" "msk \<noteq> 1" "msk \<noteq> 3" by blast
    then show ?thesis
      by cases (simp_all only: rv_rom_lookup_address_def fn_table_def data_table_def lookup_Cons lookup_Nil ne
          if_True if_False not_True_eq_False not_False_eq_True simp_thms)
  qed
  show "\<forall>addr \<in> snd ` set fn_table. \<forall>c w. rpc c = addr \<longrightarrow> rv_rom_intercept dv bd (c, w) \<noteq> None"
  proof (intro ballI allI impI)
    fix addr and c :: rv_cpu and w :: "('a, 'b, 'c) rv_world"
    assume a: "addr \<in> snd ` set fn_table" "rpc c = addr"
    then have a1: "addr \<in> {0x420, 0x424, 0x430, 0x434, 0x438} \<or> addr \<in> {0x428, 0x42C, 0x43C, 0x440, 0x444}"
      by (auto simp: fn_table_def)
    then have "rv_rom_is_stub_pc addr" by (auto simp: rv_rom_is_stub_pc_def)
    moreover have "rv_rom_function dv bd addr (c, w) \<noteq> None"
      using a1 by (elim disjE insertE emptyE) (simp_all add: rv_rom_function_def Let_def split: prod.split)
    ultimately show "rv_rom_intercept dv bd (c, w) \<noteq> None"
      by (auto simp: rv_rom_intercept_def a(2))
  qed
qed

theorem rv_rom_lookup_witness:
  "rv_rom_intercept no_devices no_boards ((rv_cpu_init 0)\<lparr>rpc := 0x428\<rparr>, rv_world_boot) \<noteq> None"
proof -
  have "0x428 \<in> snd ` set fn_table" by (simp add: fn_table_def)
  then show ?thesis
    using rv_rom_lookup_complete [of 0 0 no_devices no_boards, THEN conjunct2, rule_format, of "0x428" "(rv_cpu_init 0)\<lparr>rpc := 0x428\<rparr>"] by simp
qed

section \<open>System information\<close>

text \<open>The information call reports errors as the boot ROM defines them and then writes nothing: no
  supported flag is an invalid argument, a buffer that is too short is reported as such; otherwise
  the result is the number of words and they are in the buffer, the accepted flags first.\<close>

theorem rv_sys_info_errors:
  fixes w :: "('d, 'e, 'x) rv_world" and flags :: u32
  defines "ws \<equiv> sys_info_words (rm_flash_size (rw_bus w)) (flags AND 0x7F)"
  assumes "rv_rom_get_sys_info dv bd out_addr out_words flags w = (r, w')"
  shows "(flags AND 0x7F = 0 \<longrightarrow> r = -5 \<and> w' = w) \<and>
    (flags AND 0x7F \<noteq> 0 \<and> unat out_words < length ws \<longrightarrow> r = -13 \<and> w' = w) \<and>
    (flags AND 0x7F \<noteq> 0 \<and> length ws \<le> unat out_words \<and> sram_range out_addr (4 * length ws) \<longrightarrow>
      r = int (length ws) \<and> hd ws = flags AND 0x7F \<and>
      (\<forall>i < length ws. rd32 (rv_sram w') (unat out_addr - 0x20000000 + 4 * i) = ws ! i))"
proof -
  have ww: "rv_sram (write_words dv bd a vs x) = rom_words (unat a - 0x20000000) vs (rv_sram x)"
    if "sram_range a (4 * length vs)" for a vs and x :: "('d, 'e, 'x) rv_world"
    using that
  proof (induction vs arbitrary: a x)
    case (Cons v vs)
    have u: "0x20000000 \<le> unat a" "unat a + 4 + 4 * length vs \<le> 0x20082000" using Cons.prems by (simp_all add: sram_range_def)
    then have s: "unat (a + 4) = unat a + 4" by (simp add: unat_word_ariths)
    have "in_block a 0x20000000 0x82000" using u by (simp add: in_block_unat)
    then have o: "rv_sram_offset a = Some (unat a - 0x20000000)" by (rule rv_sram_windows)
    have "sram_range (a + 4) (4 * length vs)" using u s by (simp add: sram_range_def)
    then show ?case using Cons.IH u s by (simp add: rv_memory_sram [OF o] rom_words_Cons)
  qed (simp add: rom_words_def)
  have "hd ws = flags AND 0x7F" by (simp add: ws_def sys_info_words_def)
  then show ?thesis
    using assms(2) ww [of out_addr ws w] by (auto simp: rv_rom_get_sys_info_def Let_def ws_def [symmetric] rom_words_nth)
qed

theorem rv_sys_info_errors_witness:
  "fst (rv_rom_get_sys_info no_devices no_boards 0x20000000 1 3 rv_world_boot) = -13"
proof -
  obtain r w' where r: "rv_rom_get_sys_info no_devices no_boards 0x20000000 1 3 rv_world_boot = (r, w')" by (metis surj_pair)
  show ?thesis using rv_sys_info_errors [OF r] r by (simp add: sys_info_words_def)
qed

section \<open>Deviations\<close>

text \<open>With every flag set the call collects 17 words in an array of 16.\<close>

lemma sys_info_overflow: "length (sys_info_words fs 0x7F) = 17"
  by (simp add: sys_info_words_def)

text \<open>The check of an erase request wraps: an offset far outside the flash is accepted.\<close>

lemma flash_erase_wraps:
  "rx c 10 = 0xFFFFF000 \<Longrightarrow> rx c 11 = 0x1000 \<Longrightarrow>
     rv_rom_function dv bd 0x428 (c, w) = Some (c, rv_flash_erase 0xFFFFF000 0x1000 w)"
proof -
  have "(0xFFFFF000 + 0x1000 :: u32) = 0" by code_simp
  then show "rx c 10 = 0xFFFFF000 \<Longrightarrow> rx c 11 = 0x1000 \<Longrightarrow> ?thesis"
    by (simp only: rv_rom_function_def Let_def word_zero_le if_True prod.case) simp
qed

end
