(* ===== verification/Pio.thy ===== *)
theory Pio
  imports Gpio
begin

text \<open>
  The programmable IO blocks of \<^verbatim>\<open>src/pio.c\<close>: three blocks of four state machines with their
  FIFOs, shift registers, clock dividers and the nine instructions, the register file and the
  interrupt lines. An instruction may execute data as an instruction, so execution is a partial
  function: \<open>None\<close> is a chain of executed data that never ends. The wireless chip and the network
  board, which take over state machines, and the value of a shift by 32, which is undefined in C,
  are parameters.
\<close>

section \<open>State\<close>

record pio_fifo =
  pf_data :: "nat \<Rightarrow> u32"
  pf_rd :: nat
  pf_wr :: nat
  pf_count :: nat

record pio_sm =
  sm_clkdiv :: u32
  sm_execctrl :: u32
  sm_shiftctrl :: u32
  sm_addr :: u32
  sm_instr :: u32
  sm_pinctrl :: u32
  sm_x :: u32
  sm_y :: u32
  sm_isr :: u32
  sm_osr :: u32
  sm_isr_count :: u8
  sm_osr_count :: u8
  sm_pc :: u8
  sm_stalled :: bool
  sm_exec_pending :: bool
  sm_delay_count :: u8
  sm_tx_fifo :: pio_fifo
  sm_rx_fifo :: pio_fifo
  sm_clk_frac_acc :: u32

record pio_block =
  pb_ctrl :: u32
  pb_fdebug :: u32
  pb_irq :: u32
  pb_irq_force :: u32
  pb_input_sync_bypass :: u32
  pb_instr_mem :: "nat \<Rightarrow> u32"
  pb_sm :: "nat \<Rightarrow> pio_sm"
  pb_irq0_inte :: u32
  pb_irq0_intf :: u32
  pb_irq1_inte :: u32
  pb_irq1_intf :: u32

text \<open>Which state machine the wireless chip has taken over; a negative block is none.\<close>

record cyw_link =
  cyw_enabled :: bool
  cyw_pio_num :: int
  cyw_pio_sm :: int

record 'x pio_ctx =
  px_pio :: "nat \<Rightarrow> pio_block"
  px_gpio :: gpio_state
  px_nv :: nvic_ctx
  px_cyw :: cyw_link
  px_ext :: 'x

record 'x pio_env =
  shift32 :: "u32 \<Rightarrow> u32"
  cyw43_pio_phase_is_idle :: "'x \<Rightarrow> bool"
  cyw43_pio_rx_ready :: "'x \<Rightarrow> bool"
  cyw43_pio_rx_read :: "'x \<Rightarrow> u32 \<times> 'x"
  cyw43_pio_tx_write :: "u32 \<Rightarrow> 'x \<Rightarrow> 'x"
  cyw43_pio_sm_restart :: "'x \<Rightarrow> 'x"
  w6300_pio_is_armed :: "nat \<Rightarrow> nat \<Rightarrow> 'x \<Rightarrow> bool"
  w6300_pio_rx_ready :: "nat \<Rightarrow> nat \<Rightarrow> 'x \<Rightarrow> bool"
  w6300_pio_rx_level :: "nat \<Rightarrow> nat \<Rightarrow> 'x \<Rightarrow> int"
  w6300_pio_rx_read :: "nat \<Rightarrow> nat \<Rightarrow> 'x \<Rightarrow> u32 \<times> 'x"
  w6300_pio_tx_write :: "nat \<Rightarrow> nat \<Rightarrow> u32 \<Rightarrow> 'x \<Rightarrow> 'x"
  w6300_pio_sm_restart :: "nat \<Rightarrow> nat \<Rightarrow> 'x \<Rightarrow> 'x"
  w6300_pio_exec_out_drop :: "nat \<Rightarrow> nat \<Rightarrow> 'x \<Rightarrow> 'x"
  w6300_pio_pinctrl :: "nat \<Rightarrow> nat \<Rightarrow> u32 \<Rightarrow> 'x \<Rightarrow> 'x"

section \<open>FIFOs\<close>

definition pio_fifo_zero :: pio_fifo where
  "pio_fifo_zero = \<lparr>pf_data = (\<lambda>_. 0), pf_rd = 0, pf_wr = 0, pf_count = 0\<rparr>"

definition pio_fifo_push :: "u32 \<Rightarrow> pio_fifo \<Rightarrow> bool \<times> pio_fifo" where
  "pio_fifo_push v f =
     (if pf_count f \<ge> 4 then (False, f)
      else (True, f\<lparr>pf_data := (pf_data f)(pf_wr f := v), pf_wr := (pf_wr f + 1) mod 4, pf_count := pf_count f + 1\<rparr>))"

definition pio_fifo_pop :: "pio_fifo \<Rightarrow> u32 option \<times> pio_fifo" where
  "pio_fifo_pop f =
     (if pf_count f = 0 then (None, f)
      else (Some (pf_data f (pf_rd f)), f\<lparr>pf_rd := (pf_rd f + 1) mod 4, pf_count := pf_count f - 1\<rparr>))"

definition fifo_empty :: "pio_fifo \<Rightarrow> bool" where "fifo_empty f \<longleftrightarrow> pf_count f = 0"

definition fifo_full :: "pio_fifo \<Rightarrow> bool" where "fifo_full f \<longleftrightarrow> pf_count f \<ge> 4"

section \<open>Configuration fields\<close>

definition sm_wrap_bottom :: "pio_sm \<Rightarrow> u8" where "sm_wrap_bottom s = ucast (shr (sm_execctrl s) 7 AND 0x1F)"

definition sm_wrap_top :: "pio_sm \<Rightarrow> u8" where "sm_wrap_top s = ucast (shr (sm_execctrl s) 12 AND 0x1F)"

definition sm_out_shift_right :: "pio_sm \<Rightarrow> bool" where "sm_out_shift_right s = bit (sm_shiftctrl s) 19"

definition sm_in_shift_right :: "pio_sm \<Rightarrow> bool" where "sm_in_shift_right s = bit (sm_shiftctrl s) 18"

definition sm_autopull :: "pio_sm \<Rightarrow> bool" where "sm_autopull s = bit (sm_shiftctrl s) 17"

definition sm_autopush :: "pio_sm \<Rightarrow> bool" where "sm_autopush s = bit (sm_shiftctrl s) 16"

definition sm_pull_thresh :: "pio_sm \<Rightarrow> u8" where
  "sm_pull_thresh s = (let t = ucast (shr (sm_shiftctrl s) 25 AND 0x1F) in if t = 0 then 32 else t)"

definition sm_push_thresh :: "pio_sm \<Rightarrow> u8" where
  "sm_push_thresh s = (let t = ucast (shr (sm_shiftctrl s) 20 AND 0x1F) in if t = 0 then 32 else t)"

definition sm_set_count :: "pio_sm \<Rightarrow> nat" where "sm_set_count s = idx (sm_pinctrl s) 26 0x07"

definition sm_set_base :: "pio_sm \<Rightarrow> nat" where "sm_set_base s = idx (sm_pinctrl s) 5 0x1F"

definition sm_out_count :: "pio_sm \<Rightarrow> nat" where "sm_out_count s = idx (sm_pinctrl s) 20 0x3F"

definition sm_out_base :: "pio_sm \<Rightarrow> nat" where "sm_out_base s = idx (sm_pinctrl s) 0 0x1F"

definition sm_in_base :: "pio_sm \<Rightarrow> nat" where "sm_in_base s = idx (sm_pinctrl s) 15 0x1F"

definition sm_side_base :: "pio_sm \<Rightarrow> nat" where "sm_side_base s = idx (sm_pinctrl s) 10 0x1F"

section \<open>Pins\<close>

type_synonym pins = "gpio_state \<times> nvic_ctx"

definition npins :: "pins \<Rightarrow> nat" where
  "npins p = (if membus_rp2350_mode (snd p) then 48 else 30)"

definition pin_at :: "pins \<Rightarrow> nat \<Rightarrow> nat \<Rightarrow> u8" where
  "pin_at p base i = of_nat ((base + i) mod npins p)"

definition read_pins :: "nat \<Rightarrow> nat \<Rightarrow> pins \<Rightarrow> u32" where
  "read_pins base count p =
     fold (\<lambda>i v. if gpio_get_pin (pin_at p base i) (fst p) then v OR shl 1 i else v) [0..<min count 32] 0"

definition write_pins :: "nat \<Rightarrow> nat \<Rightarrow> u32 \<Rightarrow> pins \<Rightarrow> pins" where
  "write_pins base count v p = fold (\<lambda>i. gpio_set_pin (pin_at p base i) (bit v i)) [0..<min count 32] p"

definition write_pindirs :: "nat \<Rightarrow> nat \<Rightarrow> u32 \<Rightarrow> pins \<Rightarrow> pins" where
  "write_pindirs base count v p =
     fold (\<lambda>i (g, nv). (gpio_set_direction (pin_at p base i) (bit v i) g, nv)) [0..<min count 32] p"

section \<open>Instructions\<close>

text \<open>What an instruction of a state machine works on: the machine, the flags of its block, the pins.\<close>

type_synonym pio_run = "pio_sm \<times> u32 \<times> pins"

text \<open>How an instruction ends: with the next instruction, with the program counter left as it is (set or
  stalled), or by executing data.\<close>

datatype pio_next = Advance | Stay | Exec u16

definition sm_advance_pc :: "pio_sm \<Rightarrow> pio_sm" where
  "sm_advance_pc s = s\<lparr>sm_pc := if sm_pc s = sm_wrap_top s then sm_wrap_bottom s else (sm_pc s + 1) AND 0x1F\<rparr>"

definition stall :: "pio_run \<Rightarrow> pio_next \<times> pio_run" where
  "stall r = (Stay, (fst r)\<lparr>sm_stalled := True\<rparr>, snd r)"

definition side_write :: "pio_sm \<Rightarrow> nat \<Rightarrow> u32 \<Rightarrow> pins \<Rightarrow> pins" where
  "side_write s n data p =
     (if bit (sm_execctrl s) 29 then write_pindirs (sm_side_base s) n data p else write_pins (sm_side_base s) n data p)"

text \<open>The delay and side-set field: bits 8 to 12 of the instruction.\<close>

definition side_set :: "u16 \<Rightarrow> pio_run \<Rightarrow> pio_run" where
  "side_set instr r =
     (let (s, irq, p) = r; ss_count = min (idx (sm_pinctrl s) 29 0x07) 5; ds = ucast (shr instr 8 AND 0x1F) :: u32;
          (delay, p1) =
            (if ss_count = 0 then (ds, p)
             else if bit (sm_execctrl s) 30 then
               (if bit ds 4 then
                  (let n = min ss_count 4
                   in (ds AND (shl 1 (4 - n) - 1), side_write s n (shr ds (4 - n) AND (shl 1 n - 1)) p))
                else (ds AND 0x0F, p))
             else (ds AND (shl 1 (5 - ss_count) - 1), side_write s ss_count (shr ds (5 - ss_count) AND (shl 1 ss_count - 1)) p))
      in (s\<lparr>sm_delay_count := ucast delay, sm_stalled := False\<rparr>, irq, p1))"

definition jmp_cond :: "u8 \<Rightarrow> pio_sm \<Rightarrow> pins \<Rightarrow> bool \<times> pio_sm" where
  "jmp_cond cond s p =
     (if cond = 0 then (True, s)
      else if cond = 1 then (sm_x s = 0, s)
      else if cond = 2 then (sm_x s \<noteq> 0, s\<lparr>sm_x := sm_x s - 1\<rparr>)
      else if cond = 3 then (sm_y s = 0, s)
      else if cond = 4 then (sm_y s \<noteq> 0, s\<lparr>sm_y := sm_y s - 1\<rparr>)
      else if cond = 5 then (sm_x s \<noteq> sm_y s, s)
      else if cond = 6 then (gpio_get_pin (ucast (shr (sm_execctrl s) 24 AND 0x1F)) (fst p), s)
      else (sm_osr_count s < sm_pull_thresh s, s))"

definition exec_jmp :: "u8 \<Rightarrow> pio_run \<Rightarrow> pio_next \<times> pio_run" where
  "exec_jmp arg r =
     (let (s, irq, p) = r; (take, s1) = jmp_cond (shr arg 5 AND 7) s p
      in (Stay, if take then s1\<lparr>sm_pc := arg AND 0x1F\<rparr> else sm_advance_pc s1, irq, p))"

definition wait_cond :: "u8 \<Rightarrow> pio_run \<Rightarrow> bool \<times> u32" where
  "wait_cond arg r =
     (let (s, irq, p) = r; polarity = bit arg 7; source = shr arg 5 AND 3; index = unat (arg AND 0x1F); flag = index mod 8 in
      if source = 0 then
        (gpio_get_pin (of_nat (if membus_rp2350_mode (snd p) then index else index mod 30)) (fst p) = polarity, irq)
      else if source = 1 then (gpio_get_pin (of_nat ((sm_in_base s + index) mod 30)) (fst p) = polarity, irq)
      else if source = 2 then
        (bit irq flag = polarity, if bit irq flag \<and> polarity then irq AND NOT (shl 1 flag) else irq)
      else (True, irq))"

definition exec_wait :: "u8 \<Rightarrow> pio_run \<Rightarrow> pio_next \<times> pio_run" where
  "exec_wait arg r =
     (let (s, irq, p) = r; (met, irq1) = wait_cond arg r
      in if met then (Advance, s, irq1, p) else stall (s, irq1, p))"

definition bit_count :: "u8 \<Rightarrow> nat" where
  "bit_count arg = (let n = unat (arg AND 0x1F) in if n = 0 then 32 else n)"

definition low_bits :: "nat \<Rightarrow> u32 \<Rightarrow> u32" where
  "low_bits n v = (if n < 32 then v AND (shl 1 n - 1) else v)"

text \<open>The shifts by the bit count, of which a count of 32 is undefined in C.\<close>

definition shr_n :: "'x pio_env \<Rightarrow> nat \<Rightarrow> u32 \<Rightarrow> u32" where
  "shr_n e n v = (if n < 32 then shr v n else shift32 e v)"

definition shl_n :: "'x pio_env \<Rightarrow> nat \<Rightarrow> u32 \<Rightarrow> u32" where
  "shl_n e n v = (if n < 32 then shl v n else shift32 e v)"

definition in_source :: "u8 \<Rightarrow> nat \<Rightarrow> pio_run \<Rightarrow> u32" where
  "in_source source n r =
     (let (s, irq, p) = r in
      if source = 0 then read_pins (sm_in_base s) n p
      else if source = 1 then sm_x s
      else if source = 2 then sm_y s
      else if source = 6 then sm_isr s
      else if source = 7 then sm_osr s
      else 0)"

definition shift_in :: "'x pio_env \<Rightarrow> nat \<Rightarrow> u32 \<Rightarrow> pio_sm \<Rightarrow> pio_sm" where
  "shift_in e n data s =
     s\<lparr>sm_isr := (if sm_in_shift_right s then shr_n e n (sm_isr s) OR shl data (32 - n) else shl_n e n (sm_isr s) OR data),
       sm_isr_count := (let c = sm_isr_count s + of_nat n in if c > 32 then 32 else c)\<rparr>"

definition push_isr :: "pio_sm \<Rightarrow> bool \<times> pio_sm" where
  "push_isr s =
     (let (ok, f) = pio_fifo_push (sm_isr s) (sm_rx_fifo s)
      in (ok, if ok then s\<lparr>sm_rx_fifo := f, sm_isr := 0, sm_isr_count := 0\<rparr> else s))"

definition exec_in :: "'x pio_env \<Rightarrow> u8 \<Rightarrow> pio_run \<Rightarrow> pio_next \<times> pio_run" where
  "exec_in e arg r =
     (let (s, irq, p) = r; n = bit_count arg;
          s1 = shift_in e n (low_bits n (in_source (shr arg 5 AND 7) n r)) s
      in (Advance, if sm_autopush s1 \<and> sm_isr_count s1 \<ge> sm_push_thresh s1 then snd (push_isr s1) else s1, irq, p))"

definition pull_osr :: "pio_sm \<Rightarrow> bool \<times> pio_sm" where
  "pull_osr s =
     (case pio_fifo_pop (sm_tx_fifo s) of
        (Some v, f) \<Rightarrow> (True, s\<lparr>sm_tx_fifo := f, sm_osr := v, sm_osr_count := 0\<rparr>)
      | (None, f) \<Rightarrow> (False, s))"

definition shift_out :: "'x pio_env \<Rightarrow> nat \<Rightarrow> pio_sm \<Rightarrow> u32 \<times> pio_sm" where
  "shift_out e n s =
     (let (data, osr) = (if sm_out_shift_right s then (low_bits n (sm_osr s), shr_n e n (sm_osr s))
                         else (shr (sm_osr s) (32 - n), shl_n e n (sm_osr s)))
      in (data, s\<lparr>sm_osr := osr, sm_osr_count := sm_osr_count s + of_nat n\<rparr>))"

definition out_dest :: "u8 \<Rightarrow> nat \<Rightarrow> u32 \<Rightarrow> pio_run \<Rightarrow> pio_next \<times> pio_run" where
  "out_dest dest n data r =
     (let (s, irq, p) = r in
      if dest = 0 then (Advance, s, irq, write_pins (sm_out_base s) (sm_out_count s) data p)
      else if dest = 1 then (Advance, s\<lparr>sm_x := data\<rparr>, irq, p)
      else if dest = 2 then (Advance, s\<lparr>sm_y := data\<rparr>, irq, p)
      else if dest = 3 then (Advance, s, irq, p)
      else if dest = 4 then (Advance, s, irq, write_pindirs (sm_out_base s) (sm_out_count s) data p)
      else if dest = 5 then (Stay, s\<lparr>sm_pc := ucast data AND 0x1F\<rparr>, irq, p)
      else if dest = 6 then (Advance, s\<lparr>sm_isr := data, sm_isr_count := of_nat n\<rparr>, irq, p)
      else (Exec (ucast data), s, irq, p))"

definition exec_out :: "'x pio_env \<Rightarrow> u8 \<Rightarrow> pio_run \<Rightarrow> pio_next \<times> pio_run" where
  "exec_out e arg r =
     (let (s, irq, p) = r; n = bit_count arg;
          (ok, s1) = (if sm_autopull s \<and> sm_osr_count s \<ge> sm_pull_thresh s then pull_osr s else (True, s))
      in if \<not> ok then stall (s1, irq, p)
         else let (data, s2) = shift_out e n s1 in out_dest (shr arg 5 AND 7) n data (s2, irq, p))"

definition exec_push_pull :: "u8 \<Rightarrow> pio_run \<Rightarrow> pio_next \<times> pio_run" where
  "exec_push_pull arg r =
     (let (s, irq, p) = r; ife = bit arg 6; block = bit arg 5 in
      if bit arg 7 then
        (if ife \<and> sm_osr_count s < sm_pull_thresh s then (Advance, r)
         else let (ok, s1) = pull_osr s in
           if ok then (Advance, s1, irq, p)
           else if block then stall r
           else (Advance, s\<lparr>sm_osr := sm_x s, sm_osr_count := 0\<rparr>, irq, p))
      else
        (if ife \<and> sm_isr_count s < sm_push_thresh s then (Advance, r)
         else let (ok, s1) = push_isr s in
           if ok then (Advance, s1, irq, p) else if block then stall r else (Advance, r)))"

definition reverse_bits :: "u32 \<Rightarrow> u32" where
  "reverse_bits v = fold (\<lambda>i r. if bit v i then r OR shl 1 (31 - i) else r) [0..<32] 0"

definition exec_mov :: "u8 \<Rightarrow> pio_run \<Rightarrow> pio_next \<times> pio_run" where
  "exec_mov arg r =
     (let (s, irq, p) = r; dest = shr arg 5 AND 7; op = shr arg 3 AND 3;
          v0 = in_source (arg AND 7) 32 r;
          v = (if op = 1 then NOT v0 else if op = 2 then reverse_bits v0 else v0) in
      if dest = 0 then (Advance, s, irq, write_pins (sm_out_base s) (sm_out_count s) v p)
      else if dest = 1 then (Advance, s\<lparr>sm_x := v\<rparr>, irq, p)
      else if dest = 2 then (Advance, s\<lparr>sm_y := v\<rparr>, irq, p)
      else if dest = 4 then (Exec (ucast v), r)
      else if dest = 5 then (Stay, s\<lparr>sm_pc := ucast v AND 0x1F\<rparr>, irq, p)
      else if dest = 6 then (Advance, s\<lparr>sm_isr := v\<rparr>, irq, p)
      else if dest = 7 then (Advance, s\<lparr>sm_osr := v\<rparr>, irq, p)
      else (Advance, r))"

definition exec_irq :: "nat \<Rightarrow> u8 \<Rightarrow> pio_run \<Rightarrow> pio_next \<times> pio_run" where
  "exec_irq sm_num arg r =
     (let (s, irq, p) = r; index = unat (arg AND 0x1F);
          irq_num = (if bit arg 4 then (index mod 4 + sm_num) mod 4 else index mod 8) in
      if bit arg 6 then (Advance, s, irq AND NOT (shl 1 irq_num), p)
      else let irq1 = irq OR shl 1 irq_num in
        if bit arg 5 \<and> bit irq1 irq_num then stall (s, irq1, p) else (Advance, s, irq1, p))"

definition exec_set :: "u8 \<Rightarrow> pio_run \<Rightarrow> pio_next \<times> pio_run" where
  "exec_set arg r =
     (let (s, irq, p) = r; dest = shr arg 5 AND 7; data = ucast (arg AND 0x1F) :: u32 in
      if dest = 0 then (Advance, s, irq, write_pins (sm_set_base s) (sm_set_count s) data p)
      else if dest = 1 then (Advance, s, irq, write_pindirs (sm_set_base s) (sm_set_count s) data p)
      else if dest = 5 then (Advance, s\<lparr>sm_x := data\<rparr>, irq, p)
      else if dest = 6 then (Advance, s\<lparr>sm_y := data\<rparr>, irq, p)
      else (Advance, r))"

definition pio_dispatch :: "'x pio_env \<Rightarrow> nat \<Rightarrow> u16 \<Rightarrow> pio_run \<Rightarrow> pio_next \<times> pio_run" where
  "pio_dispatch e sm_num instr r =
     (let opcode = shr instr 13 AND 7; arg = ucast instr :: u8 in
      if opcode = 0 then exec_jmp arg r
      else if opcode = 1 then exec_wait arg r
      else if opcode = 2 then exec_in e arg r
      else if opcode = 3 then exec_out e arg r
      else if opcode = 4 then exec_push_pull arg r
      else if opcode = 5 then exec_mov arg r
      else if opcode = 6 then exec_irq sm_num arg r
      else exec_set arg r)"

partial_function (option) sm_exec :: "'x pio_env \<Rightarrow> nat \<Rightarrow> u16 \<Rightarrow> pio_run \<Rightarrow> pio_run option" where
  "sm_exec e sm_num instr r =
     (case pio_dispatch e sm_num instr (side_set instr r) of
        (Advance, s, q) \<Rightarrow> Some (sm_advance_pc s, q)
      | (Stay, r1) \<Rightarrow> Some r1
      | (Exec i, r1) \<Rightarrow> sm_exec e sm_num i r1)"

definition set_sm :: "nat \<Rightarrow> nat \<Rightarrow> pio_sm \<Rightarrow> 'x pio_ctx \<Rightarrow> 'x pio_ctx" where
  "set_sm b sm s c = c\<lparr>px_pio := (px_pio c)(b := (px_pio c b)\<lparr>pb_sm := (pb_sm (px_pio c b))(sm := s)\<rparr>)\<rparr>"

definition pio_sm_exec :: "'x pio_env \<Rightarrow> nat \<Rightarrow> nat \<Rightarrow> u16 \<Rightarrow> 'x pio_ctx \<Rightarrow> 'x pio_ctx option" where
  "pio_sm_exec e b sm instr c =
     (case sm_exec e sm instr (pb_sm (px_pio c b) sm, pb_irq (px_pio c b), px_gpio c, px_nv c) of
        None \<Rightarrow> None
      | Some (s, irq, g, nv) \<Rightarrow>
          Some (c\<lparr>px_pio := (px_pio c)(b := (px_pio c b)\<lparr>pb_sm := (pb_sm (px_pio c b))(sm := s), pb_irq := irq\<rparr>),
                  px_gpio := g, px_nv := nv\<rparr>))"

section \<open>Interrupts and stepping\<close>

definition pio_compute_intr :: "pio_block \<Rightarrow> u32" where
  "pio_compute_intr p =
     fold (\<lambda>sm intr. intr OR cond_mask (bit (pb_irq p) sm) (shl 1 (8 + sm)) OR
       cond_mask (\<not> fifo_full (sm_tx_fifo (pb_sm p sm))) (shl 1 (4 + sm)) OR
       cond_mask (\<not> fifo_empty (sm_rx_fifo (pb_sm p sm))) (shl 1 sm)) [0..<4] 0"

definition pio_check_irq :: "nat \<Rightarrow> 'x pio_ctx \<Rightarrow> 'x pio_ctx" where
  "pio_check_irq b c =
     (let p = px_pio c b; intr = pio_compute_intr p;
          sig = (\<lambda>on irq nv. if on then nvic_signal_rp2350_irq irq nv else nv)
      in c\<lparr>px_nv := sig ((intr OR pb_irq1_intf p) AND pb_irq1_inte p \<noteq> 0) (if b = 0 then 8 else 10)
             (sig ((intr OR pb_irq0_intf p) AND pb_irq0_inte p \<noteq> 0) (if b = 0 then 7 else 9) (px_nv c))\<rparr>)"

text \<open>The clock divider: whether the machine runs in this cycle.\<close>

definition clk_divisor :: "pio_sm \<Rightarrow> u32" where
  "clk_divisor s =
     (let clk_int = shr (sm_clkdiv s) 16 AND 0xFFFF; clk_frac = shr (sm_clkdiv s) 8 AND 0xFF
      in shl (if clk_int = 0 then 65536 else clk_int) 8 OR clk_frac)"

definition clk_every :: "pio_sm \<Rightarrow> bool" where
  "clk_every s \<longleftrightarrow> shr (sm_clkdiv s) 16 AND 0xFFFF = 1 \<and> shr (sm_clkdiv s) 8 AND 0xFF = 0"

definition sm_clock :: "pio_sm \<Rightarrow> bool \<times> pio_sm" where
  "sm_clock s =
     (if clk_every s then (True, s)
      else let acc = sm_clk_frac_acc s + 256 in
        if acc < clk_divisor s then (False, s\<lparr>sm_clk_frac_acc := acc\<rparr>)
        else (True, s\<lparr>sm_clk_frac_acc := acc - clk_divisor s\<rparr>))"

definition pio_sm_step :: "'x pio_env \<Rightarrow> nat \<Rightarrow> nat \<Rightarrow> 'x pio_ctx \<Rightarrow> 'x pio_ctx option" where
  "pio_sm_step e b sm c =
     (let p = px_pio c b; s = pb_sm p sm in
      if \<not> bit (pb_ctrl p) sm then Some c
      else if sm_exec_pending s then pio_sm_exec e b sm (ucast (sm_instr s)) (set_sm b sm (s\<lparr>sm_exec_pending := False\<rparr>) c)
      else let (run, s1) = sm_clock s; c1 = set_sm b sm s1 c; instr = ucast (pb_instr_mem p (unat (sm_pc s1))) in
        if \<not> run then Some c1
        else if sm_stalled s1 then pio_sm_exec e b sm instr c1
        else if sm_delay_count s1 > 0 then Some (set_sm b sm (s1\<lparr>sm_delay_count := sm_delay_count s1 - 1\<rparr>) c1)
        else pio_sm_exec e b sm instr (set_sm b sm (s1\<lparr>sm_addr := ucast (sm_pc s1)\<rparr>) c1))"

definition bind_all :: "('a \<Rightarrow> 'c \<Rightarrow> 'c option) \<Rightarrow> 'a list \<Rightarrow> 'c \<Rightarrow> 'c option" where
  "bind_all f xs c = foldl (\<lambda>o1 x. case o1 of None \<Rightarrow> None | Some c1 \<Rightarrow> f x c1) (Some c) xs"

definition pio_step :: "'x pio_env \<Rightarrow> 'x pio_ctx \<Rightarrow> 'x pio_ctx option" where
  "pio_step e = bind_all (\<lambda>b c. map_option (pio_check_irq b) (bind_all (pio_sm_step e b) [0..<4] c)) [0..<3]"

section \<open>Initialisation\<close>

definition pio_sm_init :: pio_sm where
  "pio_sm_init =
     \<lparr>sm_clkdiv = 0x10000, sm_execctrl = 0x1F000, sm_shiftctrl = 0xC0000, sm_addr = 0, sm_instr = 0, sm_pinctrl = 0,
      sm_x = 0, sm_y = 0, sm_isr = 0, sm_osr = 0, sm_isr_count = 0, sm_osr_count = 0, sm_pc = 0, sm_stalled = False,
      sm_exec_pending = False, sm_delay_count = 0, sm_tx_fifo = pio_fifo_zero, sm_rx_fifo = pio_fifo_zero,
      sm_clk_frac_acc = 0\<rparr>"

definition pio_init :: "nat \<Rightarrow> pio_block" where
  "pio_init b =
     \<lparr>pb_ctrl = 0, pb_fdebug = 0, pb_irq = 0, pb_irq_force = 0, pb_input_sync_bypass = 0, pb_instr_mem = (\<lambda>_. 0),
      pb_sm = (\<lambda>_. pio_sm_init), pb_irq0_inte = 0, pb_irq0_intf = 0, pb_irq1_inte = 0, pb_irq1_intf = 0\<rparr>"

section \<open>Registers\<close>

definition cyw_owns :: "nat \<Rightarrow> nat \<Rightarrow> 'x pio_ctx \<Rightarrow> bool" where
  "cyw_owns b sm c \<longleftrightarrow> cyw_enabled (px_cyw c) \<and> int b = cyw_pio_num (px_cyw c) \<and> int sm = cyw_pio_sm (px_cyw c)"

definition fstat_bits :: "bool \<Rightarrow> bool \<Rightarrow> bool \<Rightarrow> bool \<Rightarrow> nat \<Rightarrow> u32" where
  "fstat_bits txfull txempty rxfull rxempty sm =
     cond_mask txfull (shl 1 (16 + sm)) OR cond_mask txempty (shl 1 (24 + sm)) OR
     cond_mask rxfull (shl 1 sm) OR cond_mask rxempty (shl 1 (8 + sm))"

definition pio_fstat :: "'x pio_env \<Rightarrow> nat \<Rightarrow> 'x pio_ctx \<Rightarrow> u32" where
  "pio_fstat e b c =
     fold (\<lambda>sm fstat. fstat OR
       (let s = pb_sm (px_pio c b) sm in
        if cyw_owns b sm c then fstat_bits False True False (\<not> cyw43_pio_rx_ready e (px_ext c)) sm
        else if w6300_pio_is_armed e b sm (px_ext c) then
          fstat_bits False True False (\<not> w6300_pio_rx_ready e b sm (px_ext c)) sm
        else fstat_bits (fifo_full (sm_tx_fifo s)) (fifo_empty (sm_tx_fifo s)) (fifo_full (sm_rx_fifo s))
               (fifo_empty (sm_rx_fifo s)) sm)) [0..<4] 0"

definition pio_fdebug :: "'x pio_env \<Rightarrow> nat \<Rightarrow> 'x pio_ctx \<Rightarrow> u32" where
  "pio_fdebug e b c =
     (let k = px_cyw c;
          v = pb_fdebug (px_pio c b) OR
                cond_mask (cyw_enabled k \<and> int b = cyw_pio_num k \<and> cyw_pio_sm k \<ge> 0 \<and> cyw43_pio_phase_is_idle e (px_ext c))
                  (shl 1 (24 + nat (cyw_pio_sm k)))
      in fold (\<lambda>sm v. v OR cond_mask (w6300_pio_is_armed e b sm (px_ext c)) (shl 1 (24 + sm))) [0..<4] v)"

definition pio_flevel :: "'x pio_env \<Rightarrow> nat \<Rightarrow> 'x pio_ctx \<Rightarrow> u32" where
  "pio_flevel e b c =
     fold (\<lambda>sm v.
       let s = pb_sm (px_pio c b) sm; q = w6300_pio_rx_level e b sm (px_ext c);
           tx_lvl = of_nat (pf_count (sm_tx_fifo s)) AND 0x0F;
           rx_lvl = (if q \<ge> 0 then of_int q AND 0x0F else of_nat (pf_count (sm_rx_fifo s)) AND 0x0F)
       in v OR shl tx_lvl (sm * 8) OR shl rx_lvl (sm * 8 + 4)) [0..<4] 0"

definition rxf_read :: "'x pio_env \<Rightarrow> nat \<Rightarrow> nat \<Rightarrow> 'x pio_ctx \<Rightarrow> u32 \<times> 'x pio_ctx" where
  "rxf_read e b sm c =
     (if cyw_owns b sm c then (let (v, x) = cyw43_pio_rx_read e (px_ext c) in (v, c\<lparr>px_ext := x\<rparr>))
      else if w6300_pio_rx_ready e b sm (px_ext c) then
        (let (v, x) = w6300_pio_rx_read e b sm (px_ext c) in (v, c\<lparr>px_ext := x\<rparr>))
      else let s = pb_sm (px_pio c b) sm; (v, f) = pio_fifo_pop (sm_rx_fifo s)
           in (case_option 0 id v, set_sm b sm (s\<lparr>sm_rx_fifo := f\<rparr>) c))"

definition sm_reg_read :: "u32 \<Rightarrow> pio_sm \<Rightarrow> u32" where
  "sm_reg_read reg s =
     (if reg = 0x00 then sm_clkdiv s
      else if reg = 0x04 then sm_execctrl s
      else if reg = 0x08 then sm_shiftctrl s
      else if reg = 0x0C then ucast (sm_pc s)
      else if reg = 0x10 then sm_instr s
      else if reg = 0x14 then sm_pinctrl s
      else 0)"

definition pio_read32 :: "'x pio_env \<Rightarrow> nat \<Rightarrow> u32 \<Rightarrow> 'x pio_ctx \<Rightarrow> u32 \<times> 'x pio_ctx" where
  "pio_read32 e b offset c =
     (let p = px_pio c b in
      if offset = 0x000 then (pb_ctrl p, c)
      else if offset = 0x004 then (pio_fstat e b c, c)
      else if offset = 0x008 then (pio_fdebug e b c, c)
      else if offset = 0x00C then (pio_flevel e b c, c)
      else if offset \<in> {0x010, 0x014, 0x018, 0x01C} then (0, c)
      else if offset \<in> {0x020, 0x024, 0x028, 0x02C} then rxf_read e b (unat ((offset - 0x020) div 4)) c
      else if offset = 0x030 then (pb_irq p, c)
      else if offset = 0x034 then (pb_irq_force p, c)
      else if offset = 0x038 then (pb_input_sync_bypass p, c)
      else if offset = 0x03C then (0, c)
      else if offset = 0x040 then (0, c)
      else if offset = 0x044 then (0x42004, c)
      else if offset = 0x128 then (pio_compute_intr p, c)
      else if offset = 0x12C then (pb_irq0_inte p, c)
      else if offset = 0x130 then (pb_irq0_intf p, c)
      else if offset = 0x134 then ((pio_compute_intr p OR pb_irq0_intf p) AND pb_irq0_inte p, c)
      else if offset = 0x138 then (pb_irq1_inte p, c)
      else if offset = 0x13C then (pb_irq1_intf p, c)
      else if offset = 0x140 then ((pio_compute_intr p OR pb_irq1_intf p) AND pb_irq1_inte p, c)
      else if offset \<ge> 0x048 \<and> offset < 0x0C8 then (pb_instr_mem p (unat ((offset - 0x048) div 4)), c)
      else if offset \<ge> 0x0C8 \<and> offset < 0x128 then
        (sm_reg_read ((offset - 0x0C8) mod 0x18) (pb_sm p (unat ((offset - 0x0C8) div 0x18))), c)
      else (0, c))"

definition upd_block :: "nat \<Rightarrow> (pio_block \<Rightarrow> pio_block) \<Rightarrow> 'x pio_ctx \<Rightarrow> 'x pio_ctx" where
  "upd_block b f c = c\<lparr>px_pio := (px_pio c)(b := f (px_pio c b))\<rparr>"

definition sm_restarted :: "pio_sm \<Rightarrow> pio_sm" where
  "sm_restarted s =
     s\<lparr>sm_pc := 0, sm_stalled := False, sm_x := 0, sm_y := 0, sm_isr := 0, sm_osr := 0, sm_isr_count := 0,
       sm_osr_count := 0, sm_exec_pending := False, sm_clk_frac_acc := 0, sm_tx_fifo := pio_fifo_zero,
       sm_rx_fifo := pio_fifo_zero\<rparr>"

definition sm_restart :: "'x pio_env \<Rightarrow> nat \<Rightarrow> nat \<Rightarrow> 'x pio_ctx \<Rightarrow> 'x pio_ctx" where
  "sm_restart e b sm c =
     (let c1 = set_sm b sm (sm_restarted (pb_sm (px_pio c b) sm)) c;
          x = (if cyw_owns b sm c1 then cyw43_pio_sm_restart e (px_ext c1) else px_ext c1)
      in c1\<lparr>px_ext := w6300_pio_sm_restart e b sm x\<rparr>)"

definition ctrl_write :: "'x pio_env \<Rightarrow> nat \<Rightarrow> u32 \<Rightarrow> 'x pio_ctx \<Rightarrow> 'x pio_ctx" where
  "ctrl_write e b val c =
     (let c1 = upd_block b (\<lambda>p. p\<lparr>pb_ctrl := val AND 0x0F\<rparr>) c;
          c2 = fold (\<lambda>sm c. if bit val (4 + sm) then sm_restart e b sm c else c) [0..<4] c1
      in fold (\<lambda>sm c. if bit val (8 + sm) then set_sm b sm ((pb_sm (px_pio c b) sm)\<lparr>sm_clk_frac_acc := 0\<rparr>) c else c) [0..<4] c2)"

definition txf_write :: "'x pio_env \<Rightarrow> nat \<Rightarrow> nat \<Rightarrow> u32 \<Rightarrow> 'x pio_ctx \<Rightarrow> 'x pio_ctx" where
  "txf_write e b sm val c =
     (if cyw_owns b sm c then c\<lparr>px_ext := cyw43_pio_tx_write e val (px_ext c)\<rparr>
      else let c1 = c\<lparr>px_ext := w6300_pio_tx_write e b sm val (px_ext c)\<rparr>; s = pb_sm (px_pio c1 b) sm
           in set_sm b sm (s\<lparr>sm_tx_fifo := snd (pio_fifo_push val (sm_tx_fifo s))\<rparr>) c1)"

text \<open>A write to the instruction register schedules the instruction, but for OUT to a scratch register
  with 32 bits, which only drops a word of the FIFO.\<close>

definition instr_write :: "'x pio_env \<Rightarrow> nat \<Rightarrow> nat \<Rightarrow> u32 \<Rightarrow> 'x pio_ctx \<Rightarrow> 'x pio_ctx" where
  "instr_write e b sm val c =
     (let s = (pb_sm (px_pio c b) sm)\<lparr>sm_instr := val AND 0xFFFF\<rparr>; dest = shr val 5 AND 7 in
      if shr val 13 AND 7 = 3 \<and> (dest = 1 \<or> dest = 2) \<and> val AND 0x1F = 0 then
        (case pio_fifo_pop (sm_tx_fifo s) of
           (Some v, f) \<Rightarrow> set_sm b sm (s\<lparr>sm_tx_fifo := f\<rparr>) c
         | (None, f) \<Rightarrow> (set_sm b sm s c)\<lparr>px_ext := w6300_pio_exec_out_drop e b sm (px_ext c)\<rparr>)
      else set_sm b sm (s\<lparr>sm_exec_pending := True\<rparr>) c)"

definition pinctrl_write :: "'x pio_env \<Rightarrow> nat \<Rightarrow> nat \<Rightarrow> u32 \<Rightarrow> 'x pio_ctx \<Rightarrow> 'x pio_ctx" where
  "pinctrl_write e b sm val c =
     (let c1 = set_sm b sm ((pb_sm (px_pio c b) sm)\<lparr>sm_pinctrl := val\<rparr>) c; k = px_cyw c1;
          c2 = (if cyw_enabled k \<and> shr val 10 AND 0x1F = 29 \<and> cyw_pio_num k < 0
                then c1\<lparr>px_cyw := k\<lparr>cyw_pio_num := int b, cyw_pio_sm := int sm\<rparr>\<rparr> else c1)
      in c2\<lparr>px_ext := w6300_pio_pinctrl e b sm val (px_ext c2)\<rparr>)"

definition sm_reg_write :: "'x pio_env \<Rightarrow> nat \<Rightarrow> nat \<Rightarrow> u32 \<Rightarrow> u32 \<Rightarrow> 'x pio_ctx \<Rightarrow> 'x pio_ctx" where
  "sm_reg_write e b sm reg val c =
     (let s = pb_sm (px_pio c b) sm in
      if reg = 0x00 then set_sm b sm (s\<lparr>sm_clkdiv := val\<rparr>) c
      else if reg = 0x04 then set_sm b sm (s\<lparr>sm_execctrl := val\<rparr>) c
      else if reg = 0x08 then set_sm b sm (s\<lparr>sm_shiftctrl := val\<rparr>) c
      else if reg = 0x10 then instr_write e b sm val c
      else if reg = 0x14 then pinctrl_write e b sm val c
      else c)"

definition global_write :: "'x pio_env \<Rightarrow> nat \<Rightarrow> u32 \<Rightarrow> u32 \<Rightarrow> 'x pio_ctx \<Rightarrow> 'x pio_ctx" where
  "global_write e b offset val c =
     (if offset = 0x000 then ctrl_write e b val c
      else if offset = 0x008 then upd_block b (\<lambda>p. p\<lparr>pb_fdebug := pb_fdebug p AND NOT val\<rparr>) c
      else if offset \<in> {0x010, 0x014, 0x018, 0x01C} then txf_write e b (unat ((offset - 0x010) div 4)) val c
      else if offset = 0x030 then upd_block b (\<lambda>p. p\<lparr>pb_irq := pb_irq p AND NOT (val AND 0xFF)\<rparr>) c
      else if offset = 0x034 then
        upd_block b (\<lambda>p. p\<lparr>pb_irq_force := val AND 0xFF, pb_irq := pb_irq p OR (val AND 0xFF)\<rparr>) c
      else if offset = 0x038 then upd_block b (\<lambda>p. p\<lparr>pb_input_sync_bypass := val\<rparr>) c
      else if offset = 0x12C then upd_block b (\<lambda>p. p\<lparr>pb_irq0_inte := val AND 0xFFF\<rparr>) c
      else if offset = 0x130 then upd_block b (\<lambda>p. p\<lparr>pb_irq0_intf := val AND 0xFFF\<rparr>) c
      else if offset = 0x138 then upd_block b (\<lambda>p. p\<lparr>pb_irq1_inte := val AND 0xFFF\<rparr>) c
      else if offset = 0x13C then upd_block b (\<lambda>p. p\<lparr>pb_irq1_intf := val AND 0xFFF\<rparr>) c
      else c)"

definition pio_write32 :: "'x pio_env \<Rightarrow> nat \<Rightarrow> u32 \<Rightarrow> u32 \<Rightarrow> 'x pio_ctx \<Rightarrow> 'x pio_ctx" where
  "pio_write32 e b offset val c =
     (let c1 = global_write e b offset val c in
      if offset \<ge> 0x048 \<and> offset < 0x0C8 then
        upd_block b (\<lambda>p. p\<lparr>pb_instr_mem := (pb_instr_mem p)(unat ((offset - 0x048) div 4) := val AND 0xFFFF)\<rparr>) c1
      else pio_check_irq b
        (if offset \<ge> 0x0C8 \<and> offset < 0x128
         then sm_reg_write e b (unat ((offset - 0x0C8) div 0x18)) ((offset - 0x0C8) mod 0x18) val c1
         else c1))"

section \<open>The FIFOs are queues\<close>

definition pio_fifo_wf :: "pio_fifo \<Rightarrow> bool" where
  "pio_fifo_wf f \<longleftrightarrow> ring_ok 4 (pf_rd f) (pf_wr f) (pf_count f)"

definition pio_fifo_list :: "pio_fifo \<Rightarrow> u32 list" where
  "pio_fifo_list f = ring_list (pf_data f) 4 (pf_rd f) (pf_count f)"

lemma pio_fifo_zero_wf [simp]: "pio_fifo_wf pio_fifo_zero" "pio_fifo_list pio_fifo_zero = []"
  by (simp_all add: pio_fifo_wf_def pio_fifo_list_def pio_fifo_zero_def)

lemma pio_fifo_length [simp]: "length (pio_fifo_list f) = pf_count f"
  by (simp add: pio_fifo_list_def)

lemma pio_push_room:
  "pio_fifo_wf f \<Longrightarrow> pf_count f < 4 \<Longrightarrow> fst (pio_fifo_push v f) \<and> pio_fifo_wf (snd (pio_fifo_push v f)) \<and>
     pio_fifo_list (snd (pio_fifo_push v f)) = pio_fifo_list f @ [v]"
  using ring_ok_push [of 4] ring_list_push [of 4]
  by (simp add: pio_fifo_push_def pio_fifo_wf_def pio_fifo_list_def)

lemma pio_push_full: "\<not> pf_count f < 4 \<Longrightarrow> pio_fifo_push v f = (False, f)"
  by (simp add: pio_fifo_push_def)

lemma pio_pop_some:
  "pio_fifo_wf f \<Longrightarrow> 0 < pf_count f \<Longrightarrow> pio_fifo_wf (snd (pio_fifo_pop f)) \<and>
     fst (pio_fifo_pop f) = Some (hd (pio_fifo_list f)) \<and> pio_fifo_list (snd (pio_fifo_pop f)) = tl (pio_fifo_list f)"
  using ring_ok_pop [of 4 "pf_rd f" "pf_wr f" "pf_count f"] ring_list_pop [of "pf_rd f" 4 "pf_count f" "pf_data f"]
  by (simp add: pio_fifo_pop_def pio_fifo_wf_def pio_fifo_list_def ring_ok_rd)

lemma pio_pop_none: "pf_count f = 0 \<Longrightarrow> pio_fifo_pop f = (None, f)"
  by (simp add: pio_fifo_pop_def)

interpretation pioq: fifo_queue 4 pio_fifo_wf pio_fifo_list "\<lambda>v f. snd (pio_fifo_push v f)"
    "\<lambda>f. (case_option 0 id (fst (pio_fifo_pop f)), snd (pio_fifo_pop f))"
proof unfold_locales
  fix f v
  assume f: "pio_fifo_wf f"
  then have le: "pf_count f \<le> 4" by (simp add: pio_fifo_wf_def ring_ok_count)
  have nil: "pio_fifo_list f = [] \<longleftrightarrow> pf_count f = 0" by (metis length_0_conv pio_fifo_length)
  show "pio_fifo_wf (snd (pio_fifo_push v f))"
    using f pio_push_room pio_push_full by (cases "pf_count f < 4") auto
  show "length (pio_fifo_list f) \<le> 4" using le by simp
  show "pio_fifo_list (snd (pio_fifo_push v f)) = take 4 (pio_fifo_list f @ [v])"
    using f le pio_push_room [OF f] pio_push_full [of f] by (cases "pf_count f < 4") auto
  show "pio_fifo_wf (snd (case_option 0 id (fst (pio_fifo_pop f)), snd (pio_fifo_pop f)))"
    using f pio_pop_some pio_pop_none by (cases "pf_count f = 0") auto
  show "pio_fifo_list (snd (case_option 0 id (fst (pio_fifo_pop f)), snd (pio_fifo_pop f))) = tl (pio_fifo_list f)"
    using f pio_pop_some pio_pop_none nil by (cases "pf_count f = 0") auto
  show "pio_fifo_list f \<noteq> [] \<Longrightarrow>
      fst (case_option 0 id (fst (pio_fifo_pop f)), snd (pio_fifo_pop f)) = hd (pio_fifo_list f)"
    using pio_pop_some [OF f] nil by (cases "pf_count f = 0") auto
qed

section \<open>Well-formed blocks\<close>

text \<open>What the C types and the register masks promise: addresses of instructions, shift counts and delays
  in range, rings in order, registers within their fields.\<close>

definition sm_wf :: "pio_sm \<Rightarrow> bool" where
  "sm_wf s \<longleftrightarrow> sm_pc s < 32 \<and> sm_isr_count s \<le> 32 \<and> sm_delay_count s < 32 \<and>
     pio_fifo_wf (sm_tx_fifo s) \<and> pio_fifo_wf (sm_rx_fifo s)"

definition run_wf :: "pio_run \<Rightarrow> bool" where
  "run_wf r \<longleftrightarrow> sm_wf (fst r) \<and> fst (snd r) < 256"

definition block_wf :: "pio_block \<Rightarrow> bool" where
  "block_wf p \<longleftrightarrow> pb_ctrl p < 16 \<and> pb_irq p < 256 \<and> (\<forall>i. pb_instr_mem p i < 0x10000) \<and> (\<forall>sm. sm_wf (pb_sm p sm))"

definition pio_wf :: "'x pio_ctx \<Rightarrow> bool" where
  "pio_wf c \<longleftrightarrow> (\<forall>b. block_wf (px_pio c b))"

lemma word_and_less: "y < m \<Longrightarrow> x AND y < m" for x y m :: "'a::len word"
  by (metis order_le_less_trans word_and_le1)

lemma word_and_less1: "x < m \<Longrightarrow> x AND y < m" for x y m :: "'a::len word"
  by (metis order_le_less_trans word_and_le2)

lemma less_256_bits: "w < 256 \<longleftrightarrow> (\<forall>i \<ge> 8. \<not> bit w i)" for w :: u32
proof -
  have "w < 256 \<longleftrightarrow> unat (drop_bit 8 w) = 0"
    by (simp add: drop_bit_eq_div word_less_nat_alt unat_div div_eq_0_iff)
  also have "\<dots> \<longleftrightarrow> (\<forall>n. \<not> bit w (8 + n))"
  proof
    assume z: "unat (drop_bit 8 w) = 0"
    have "bit w (8 + n) = bit (drop_bit 8 w) n" for n by (simp add: bit_drop_bit_eq)
    then show "\<forall>n. \<not> bit w (8 + n)" using z by (simp add: unat_eq_zero)
  next
    assume "\<forall>n. \<not> bit w (8 + n)"
    then have "drop_bit 8 w = 0" by (intro bit_word_eqI) (simp add: bit_drop_bit_eq)
    then show "unat (drop_bit 8 w) = 0" by simp
  qed
  also have "\<dots> \<longleftrightarrow> (\<forall>i \<ge> 8. \<not> bit w i)" by (metis le_add1 le_add_diff_inverse)
  finally show ?thesis .
qed

lemma flag_set_less: "q < 256 \<Longrightarrow> n < 8 \<Longrightarrow> q OR shl 1 n < 256" for q :: u32
  unfolding less_256_bits by (auto simp: bit_simps)

lemma pc_field: "ucast (x AND 0x1F :: u32) < (32 :: u8)"
proof -
  have "ucast (x AND 0x1F) = ucast x AND (0x1F :: u8)" by (rule bit_word_eqI) (simp add: bit_simps)
  then show ?thesis by (simp add: word_and_less)
qed

lemma sm_advance_wf [simp]: "sm_wf s \<Longrightarrow> sm_wf (sm_advance_pc s)"
  by (auto simp: sm_wf_def sm_advance_pc_def sm_wrap_bottom_def pc_field intro: word_and_less)

lemma push_isr_wf: "sm_wf s \<Longrightarrow> sm_wf (snd (push_isr s))"
  using pioq.wf_push [of "sm_rx_fifo s" "sm_isr s"] by (auto simp: push_isr_def sm_wf_def split: prod.splits)

lemma pull_osr_wf: "sm_wf s \<Longrightarrow> sm_wf (snd (pull_osr s))"
  using pioq.wf_pop [of "sm_tx_fifo s"] by (auto simp: pull_osr_def sm_wf_def split: prod.splits option.splits)

lemma shift_in_wf: "sm_wf s \<Longrightarrow> sm_wf (shift_in e n data s)"
  by (auto simp: shift_in_def sm_wf_def Let_def not_less)

lemma shift_out_wf: "sm_wf s \<Longrightarrow> sm_wf (snd (shift_out e n s))"
  by (simp add: shift_out_def sm_wf_def Let_def split: prod.split)

lemma stall_wf: "run_wf r \<Longrightarrow> run_wf (snd (stall r))"
  by (simp add: stall_def run_wf_def sm_wf_def)

lemma side_set_wf: "run_wf r \<Longrightarrow> run_wf (side_set instr r)"
proof -
  assume r: "run_wf r"
  have ds: "ucast (ucast (shr instr 8 AND 0x1F) AND m :: u32) < (32 :: u8)" for m
  proof -
    have "ucast (ucast (shr instr 8 AND 0x1F) AND m :: u32) = (ucast (shr instr 8) AND ucast m) AND (0x1F :: u8)"
      by (rule bit_word_eqI) (auto simp: bit_simps)
    then show ?thesis by (simp add: word_and_less)
  qed
  show ?thesis
    using r ds ds [of "- 1"] by (auto simp: side_set_def run_wf_def sm_wf_def Let_def split: prod.splits if_splits)
qed

lemma bit_count_le: "bit_count arg \<le> 32" "0 < bit_count arg"
proof -
  have "arg AND 0x1F < 32" by (simp add: word_and_less)
  then show "bit_count arg \<le> 32" "0 < bit_count arg" by (auto simp: bit_count_def Let_def word_less_nat_alt)
qed

lemma jmp_cond_wf: "sm_wf s \<Longrightarrow> sm_wf (snd (jmp_cond k s p))"
  by (simp add: jmp_cond_def sm_wf_def)

lemma exec_jmp_wf: "run_wf r \<Longrightarrow> run_wf (snd (exec_jmp arg r))"
proof -
  assume r: "run_wf r"
  obtain s irq p where s: "r = (s, irq, p)" by (cases r)
  obtain t s1 where j: "jmp_cond (shr arg 5 AND 7) s p = (t, s1)" by (metis surj_pair)
  have "sm_wf s1" using r jmp_cond_wf [of s "shr arg 5 AND 7" p] by (simp add: s j run_wf_def)
  moreover from this have "sm_wf (s1\<lparr>sm_pc := arg AND 0x1F\<rparr>)" by (simp add: sm_wf_def word_and_less)
  ultimately show ?thesis using r by (simp add: exec_jmp_def s j run_wf_def)
qed

lemma wait_cond_flags: "snd (wait_cond arg r) = fst (snd r) \<or> (\<exists>q. snd (wait_cond arg r) = fst (snd r) AND q)"
  by (cases r) (auto simp: wait_cond_def Let_def)

lemma exec_wait_wf: "run_wf r \<Longrightarrow> run_wf (snd (exec_wait arg r))"
proof -
  assume r: "run_wf r"
  obtain s irq p where s: "r = (s, irq, p)" by (cases r)
  obtain m q where w: "wait_cond arg r = (m, q)" by (metis surj_pair)
  have "run_wf (s, q, p)"
    using r wait_cond_flags [of arg r] word_and_less1 [of irq 256] by (auto simp: s w [unfolded s] run_wf_def)
  then show ?thesis
    using stall_wf [of "(s, q, p)"] by (simp add: exec_wait_def s w [unfolded s])
qed

lemma exec_in_wf: "run_wf r \<Longrightarrow> run_wf (snd (exec_in e arg r))"
  by (auto simp: exec_in_def Let_def run_wf_def shift_in_wf push_isr_wf split: prod.splits)

lemma out_dest_wf: "run_wf r \<Longrightarrow> n \<le> 32 \<Longrightarrow> run_wf (snd (out_dest dest n data r))"
proof -
  assume r: "run_wf r" "n \<le> 32"
  have "of_nat n \<le> (32 :: u8)" using r(2) by (simp add: word_le_nat_alt unat_of_nat_lt)
  then show ?thesis
    using r by (auto simp: out_dest_def run_wf_def sm_wf_def Let_def intro: word_and_less split: prod.splits)
qed

lemma exec_out_wf: "run_wf r \<Longrightarrow> run_wf (snd (exec_out e arg r))"
proof -
  assume r: "run_wf r"
  obtain s irq p where s: "r = (s, irq, p)" by (cases r)
  obtain ok s1 where a: "(if sm_autopull s \<and> sm_osr_count s \<ge> sm_pull_thresh s then pull_osr s else (True, s)) = (ok, s1)"
    by (metis surj_pair)
  have s1: "sm_wf s1" using r a pull_osr_wf [of s] by (auto simp: s run_wf_def split: if_splits)
  obtain data s2 where o: "shift_out e (bit_count arg) s1 = (data, s2)" by (metis surj_pair)
  have "sm_wf s2" using shift_out_wf [OF s1, of e "bit_count arg"] o by simp
  moreover have "exec_out e arg r = (if \<not> ok then stall (s1, irq, p)
      else out_dest (shr arg 5 AND 7) (bit_count arg) data (s2, irq, p))"
    by (simp only: exec_out_def s Let_def prod.case a o)
  ultimately show ?thesis
    using r s1 out_dest_wf [OF _ bit_count_le(1), of "(s2, irq, p)"] stall_wf [of "(s1, irq, p)"]
    by (simp add: s run_wf_def)
qed

lemma exec_push_pull_wf: "run_wf r \<Longrightarrow> run_wf (snd (exec_push_pull arg r))"
  using push_isr_wf [of "fst r"] pull_osr_wf [of "fst r"] stall_wf [of r]
  by (auto simp: exec_push_pull_def Let_def run_wf_def sm_wf_def split: prod.splits)

lemma exec_mov_wf: "run_wf r \<Longrightarrow> run_wf (snd (exec_mov arg r))"
  by (auto simp: exec_mov_def Let_def run_wf_def sm_wf_def intro: word_and_less split: prod.splits)

lemma exec_irq_wf: "run_wf r \<Longrightarrow> run_wf (snd (exec_irq n arg r))"
proof -
  assume r: "run_wf r"
  obtain s irq p where s: "r = (s, irq, p)" by (cases r)
  have lt: "x mod 4 < 8" for x :: nat using mod_less_divisor [of 4 x] by linarith
  define k where "k = (if bit arg 4 then (unat (arg AND 0x1F) mod 4 + n) mod 4 else unat (arg AND 0x1F) mod 8)"
  have "k < 8" using lt [of "unat (arg AND 0x1F) mod 4 + n"] by (simp add: k_def)
  then have "run_wf (s, irq OR shl 1 k, p)" "run_wf (s, irq AND NOT (shl 1 k), p)"
    using r flag_set_less [of irq k] word_and_less1 [of irq 256 "NOT (shl 1 k)"] by (simp_all add: s run_wf_def)
  then show ?thesis
    using stall_wf [of "(s, irq OR shl 1 k, p)"] by (simp add: exec_irq_def s Let_def flip: k_def)
qed

lemma exec_set_wf: "run_wf r \<Longrightarrow> run_wf (snd (exec_set arg r))"
  by (auto simp: exec_set_def Let_def run_wf_def sm_wf_def split: prod.splits)

lemmas pio_op_wf = exec_jmp_wf exec_wait_wf exec_in_wf exec_out_wf exec_push_pull_wf exec_mov_wf exec_irq_wf exec_set_wf

lemma pio_dispatch_wf: "run_wf r \<Longrightarrow> run_wf (snd (pio_dispatch e n instr r))"
  unfolding pio_dispatch_def Let_def by (simp only: pio_op_wf split: if_split) simp

text \<open>A property of the state that every part of an instruction keeps is kept by execution.\<close>

lemma sm_exec_keeps:
  assumes "\<And>r i. P r \<Longrightarrow> P (side_set i r)" "\<And>r i. P r \<Longrightarrow> P (snd (pio_dispatch e n i r))"
    and "\<And>s q. P (s, q) \<Longrightarrow> P (sm_advance_pc s, q)"
    and "sm_exec e n instr r = Some r'" "P r"
  shows "P r'"
proof -
  have "e' = e \<longrightarrow> n' = n \<longrightarrow> P r1 \<longrightarrow> P r2" if "sm_exec e' n' i r1 = Some r2" for e' n' i r1 r2
  proof (rule sm_exec.raw_induct [OF _ that, where P = "\<lambda>e' n' i r1 r2. e' = e \<longrightarrow> n' = n \<longrightarrow> P r1 \<longrightarrow> P r2"], intro impI)
    fix f e' n' i r1 r2
    assume ih: "\<And>e' n' i r1 r2. f e' n' i r1 = Some r2 \<Longrightarrow> e' = e \<longrightarrow> n' = n \<longrightarrow> P r1 \<longrightarrow> P r2"
      and step: "(case pio_dispatch e' n' i (side_set i r1) of (Advance, s, q) \<Rightarrow> Some (sm_advance_pc s, q)
        | (Stay, r1) \<Rightarrow> Some r1 | (Exec i, r1) \<Rightarrow> f e' n' i r1) = Some r2"
      and eq: "e' = e" "n' = n" and r1: "P r1"
    obtain nx s q where d: "pio_dispatch e n i (side_set i r1) = (nx, s, q)" by (metis surj_pair)
    have "P (s, q)" using assms(2) [OF assms(1) [OF r1, of i], of i] by (simp add: d)
    then show "P r2" using step ih assms(3) [of s q] by (cases nx) (auto simp: eq d)
  qed
  then show ?thesis using assms(4,5) by blast
qed

lemma sm_exec_wf: "sm_exec e n instr r = Some r' \<Longrightarrow> run_wf r \<Longrightarrow> run_wf r'"
  by (rule sm_exec_keeps [where P = run_wf]) (simp_all only: side_set_wf pio_dispatch_wf, simp add: run_wf_def)

lemma set_sm_wf: "pio_wf c \<Longrightarrow> sm_wf s \<Longrightarrow> pio_wf (set_sm b sm s c)"
  by (simp add: set_sm_def pio_wf_def block_wf_def)

lemma pio_wf_sm: "pio_wf c \<Longrightarrow> sm_wf (pb_sm (px_pio c b) sm)"
  by (simp add: pio_wf_def block_wf_def)

lemma pio_sm_exec_wf: "pio_sm_exec e b sm instr c = Some c' \<Longrightarrow> pio_wf c \<Longrightarrow> pio_wf c'"
  using sm_exec_wf [of e sm instr "(pb_sm (px_pio c b) sm, pb_irq (px_pio c b), px_gpio c, px_nv c)"]
  by (auto simp: pio_sm_exec_def pio_wf_def block_wf_def run_wf_def split: option.splits)

lemma pio_check_irq_wf [simp]: "pio_wf (pio_check_irq b c) = pio_wf c"
  by (simp add: pio_check_irq_def pio_wf_def Let_def)

lemma sm_clock_wf: "sm_wf s \<Longrightarrow> sm_wf (snd (sm_clock s))"
  by (simp add: sm_clock_def sm_wf_def Let_def)

lemma pio_sm_step_wf:
  assumes "pio_sm_step e b sm c = Some c'" "pio_wf c"
  shows "pio_wf c'"
proof -
  define s where "s = pb_sm (px_pio c b) sm"
  obtain run s1 where k: "sm_clock s = (run, s1)" by (metis surj_pair)
  have w: "sm_wf s" "sm_wf s1" using pio_wf_sm [OF assms(2)] sm_clock_wf [of s] k by (simp_all add: s_def)
  have d: "sm_wf (s1\<lparr>sm_delay_count := sm_delay_count s1 - 1\<rparr>)" if "sm_delay_count s1 > 0"
  proof -
    have "unat (sm_delay_count s1 - 1) = unat (sm_delay_count s1) - 1" using that by (intro unat_minus_one) auto
    then show ?thesis using w(2) by (auto simp: sm_wf_def word_less_nat_alt)
  qed
  have "sm_wf (s\<lparr>sm_exec_pending := False\<rparr>)" "sm_wf (s1\<lparr>sm_addr := v\<rparr>)" for v using w by (simp_all add: sm_wf_def)
  then show ?thesis
    using assms w d by (auto simp: pio_sm_step_def Let_def s_def [symmetric] k split: if_splits
      intro: set_sm_wf elim!: pio_sm_exec_wf)
qed

lemma bind_all_simps [simp]:
  "bind_all f [] c = Some c"
  "bind_all f (x # xs) c = (case f x c of None \<Rightarrow> None | Some c1 \<Rightarrow> bind_all f xs c1)"
proof -
  have "foldl (\<lambda>o1 x. case o1 of None \<Rightarrow> None | Some c1 \<Rightarrow> f x c1) None xs = None" for xs by (induction xs) simp_all
  then show "bind_all f [] c = Some c"
    "bind_all f (x # xs) c = (case f x c of None \<Rightarrow> None | Some c1 \<Rightarrow> bind_all f xs c1)"
    by (simp_all add: bind_all_def split: option.split)
qed

lemma bind_all_keeps:
  "(\<And>x c c'. f x c = Some c' \<Longrightarrow> P c \<Longrightarrow> P c') \<Longrightarrow> bind_all f xs c = Some c' \<Longrightarrow> P c \<Longrightarrow> P c'"
  by (induction xs arbitrary: c) (auto split: option.splits)

lemma pio_step_wf: "pio_step e c = Some c' \<Longrightarrow> pio_wf c \<Longrightarrow> pio_wf c'"
  unfolding pio_step_def
  by (erule bind_all_keeps [rotated]) (auto elim!: bind_all_keeps [rotated, where P = pio_wf] intro: pio_sm_step_wf)

lemma fold_keeps: "(\<And>x c. P c \<Longrightarrow> P (f x c)) \<Longrightarrow> P c \<Longrightarrow> P (fold f xs c)"
  by (induction xs arbitrary: c) auto

lemma upd_block_wf: "pio_wf c \<Longrightarrow> block_wf (f (px_pio c b)) \<Longrightarrow> pio_wf (upd_block b f c)"
  by (simp add: upd_block_def pio_wf_def)

lemma ext_wf [simp]: "pio_wf (c\<lparr>px_ext := x\<rparr>) = pio_wf c" "pio_wf (c\<lparr>px_cyw := k\<rparr>) = pio_wf c"
  by (simp_all add: pio_wf_def)
lemma sm_fields_wf:
  "sm_wf s \<Longrightarrow> sm_wf (s\<lparr>sm_clkdiv := v\<rparr>)" "sm_wf s \<Longrightarrow> sm_wf (s\<lparr>sm_execctrl := v\<rparr>)" "sm_wf s \<Longrightarrow> sm_wf (s\<lparr>sm_shiftctrl := v\<rparr>)"
  "sm_wf s \<Longrightarrow> sm_wf (s\<lparr>sm_instr := v\<rparr>)" "sm_wf s \<Longrightarrow> sm_wf (s\<lparr>sm_pinctrl := v\<rparr>)" "sm_wf s \<Longrightarrow> sm_wf (s\<lparr>sm_exec_pending := p\<rparr>)"
  "sm_wf s \<Longrightarrow> sm_wf (s\<lparr>sm_clk_frac_acc := v\<rparr>)"
  by (simp_all add: sm_wf_def)

lemma sm_fifo_wf:
  "sm_wf s \<Longrightarrow> sm_wf (s\<lparr>sm_tx_fifo := snd (pio_fifo_push v (sm_tx_fifo s))\<rparr>)"
  "sm_wf s \<Longrightarrow> sm_wf (s\<lparr>sm_tx_fifo := snd (pio_fifo_pop (sm_tx_fifo s))\<rparr>)"
  "sm_wf s \<Longrightarrow> sm_wf (s\<lparr>sm_rx_fifo := snd (pio_fifo_pop (sm_rx_fifo s))\<rparr>)"
  using pioq.wf_push [of "sm_tx_fifo s"] pioq.wf_pop [of "sm_tx_fifo s"] pioq.wf_pop [of "sm_rx_fifo s"]
  by (simp_all add: sm_wf_def)

lemma rxf_read_wf: "pio_wf c \<Longrightarrow> pio_wf (snd (rxf_read e b sm c))"
  using sm_fifo_wf(3) [OF pio_wf_sm [of c b sm]]
  by (auto simp: rxf_read_def Let_def intro: set_sm_wf split: prod.split)

lemma pio_read32_wf: "pio_wf c \<Longrightarrow> pio_wf (snd (pio_read32 e b offset c))"
  by (simp add: pio_read32_def Let_def rxf_read_wf)

lemma sm_restart_wf: "pio_wf c \<Longrightarrow> pio_wf (sm_restart e b sm c)"
proof -
  assume c: "pio_wf c"
  have "sm_wf (sm_restarted (pb_sm (px_pio c b) sm))"
    using pio_wf_sm [OF c, of b sm] by (simp add: sm_restarted_def sm_wf_def)
  then show ?thesis using c by (simp add: sm_restart_def Let_def set_sm_wf)
qed

lemma ctrl_write_wf:
  assumes "pio_wf c"
  shows "pio_wf (ctrl_write e b val c)"
proof -
  have "pio_wf (upd_block b (\<lambda>p. p\<lparr>pb_ctrl := val AND 0x0F\<rparr>) c)"
    using assms by (intro upd_block_wf) (simp_all add: pio_wf_def block_wf_def word_and_less)
  then show ?thesis
    unfolding ctrl_write_def Let_def
    by (intro fold_keeps [where P = pio_wf]) (auto intro: sm_restart_wf set_sm_wf sm_fields_wf pio_wf_sm)
qed

lemma txf_write_wf: "pio_wf c \<Longrightarrow> pio_wf (txf_write e b sm val c)"
  using sm_fifo_wf(1) [OF pio_wf_sm [of c b sm]] by (simp add: txf_write_def Let_def set_sm_wf)

lemma instr_write_wf: "pio_wf c \<Longrightarrow> pio_wf (instr_write e b sm val c)"
proof -
  assume c: "pio_wf c"
  define s where "s = (pb_sm (px_pio c b) sm)\<lparr>sm_instr := val AND 0xFFFF\<rparr>"
  have s: "sm_wf s" using pio_wf_sm [OF c] by (simp add: s_def sm_fields_wf)
  from sm_fifo_wf(2) [OF s] show ?thesis
    using c s by (auto simp: instr_write_def Let_def s_def [symmetric] intro: set_sm_wf sm_fields_wf split: prod.split option.split)
qed

lemma pinctrl_write_wf: "pio_wf c \<Longrightarrow> pio_wf (pinctrl_write e b sm val c)"
  by (simp add: pinctrl_write_def Let_def set_sm_wf sm_fields_wf pio_wf_sm)

lemma sm_reg_write_wf: "pio_wf c \<Longrightarrow> pio_wf (sm_reg_write e b sm reg val c)"
  by (simp add: sm_reg_write_def Let_def set_sm_wf sm_fields_wf pio_wf_sm instr_write_wf pinctrl_write_wf)

lemma or_less_256: "q < 256 \<Longrightarrow> v < 256 \<Longrightarrow> q OR v < 256" for q :: u32
  unfolding less_256_bits by (auto simp: bit_simps)

lemma pio_wf_if: "pio_wf x \<Longrightarrow> pio_wf y \<Longrightarrow> pio_wf (if Q then x else y)"
  by simp

lemma global_write_wf: "pio_wf c \<Longrightarrow> pio_wf (global_write e b offset val c)"
proof -
  assume c: "pio_wf c"
  then have p: "block_wf (px_pio c b)" by (simp add: pio_wf_def)
  have irq: "pb_irq (px_pio c b) AND q < 256" "pb_irq (px_pio c b) OR (val AND 0xFF) < 256" for q
    using p or_less_256 [OF _ word_and_less, of _ "0xFF" val] word_and_less1 [of _ 256 q] by (simp_all add: block_wf_def)
  have u: "pio_wf (upd_block b f c)" if "block_wf (f (px_pio c b))" for f using that by (rule upd_block_wf [OF c])
  show ?thesis
    using p irq unfolding global_write_def
    by (intro pio_wf_if u ctrl_write_wf txf_write_wf c) (simp_all add: block_wf_def)
qed

lemma pio_write32_wf: "pio_wf c \<Longrightarrow> pio_wf (pio_write32 e b offset val c)"
proof -
  assume "pio_wf c"
  then have g: "pio_wf (global_write e b offset val c)" by (rule global_write_wf)
  then have "pio_wf (upd_block b (\<lambda>p. p\<lparr>pb_instr_mem := (pb_instr_mem p)(i := val AND 0xFFFF)\<rparr>) (global_write e b offset val c))" for i
    by (intro upd_block_wf) (simp_all add: pio_wf_def block_wf_def word_and_less)
  then show ?thesis using g by (simp add: pio_write32_def Let_def sm_reg_write_wf)
qed

text \<open>What happens to the blocks: a cycle, or an access by a processor.\<close>

datatype pio_event = Pio_Cycle | Pio_Read nat u32 | Pio_Write nat u32 u32

fun pio_react :: "'x pio_env \<Rightarrow> pio_event \<Rightarrow> 'x pio_ctx \<Rightarrow> 'x pio_ctx option" where
  "pio_react e Pio_Cycle c = pio_step e c"
| "pio_react e (Pio_Read b offset) c = Some (snd (pio_read32 e b offset c))"
| "pio_react e (Pio_Write b offset val) c = Some (pio_write32 e b offset val c)"

text \<open>C13. The state of the blocks stays well formed through any sequence of cycles and register accesses:
  program counters address the 32 instructions, the counts of bits shifted in are at most 32 (those of bits shifted
  out are not bounded, see the deviations), the delays stay below 32, the FIFO rings are in order, and the flags, the enable bits and the instruction memory keep to the
  width of their registers.\<close>

theorem pio_state_wellformed:
  assumes "pio_wf c" "bind_all (pio_react e) evs c = Some c'"
  shows "pio_wf c'"
proof (rule bind_all_keeps [where P = pio_wf, OF _ assms(2,1)])
  fix ev c c'
  assume "pio_react e ev c = Some c'" "pio_wf c"
  then show "pio_wf c'"
    by (cases ev) (auto intro: pio_step_wf pio_read32_wf pio_write32_wf)
qed

lemma pio_init_wf: "px_pio c = pio_init \<Longrightarrow> pio_wf c"
  by (simp add: pio_wf_def pio_init_def block_wf_def pio_sm_init_def sm_wf_def)

text \<open>The blocks after start, without boards, on a host where a shift by 32 does nothing.\<close>

definition pio_plain :: "unit pio_env" where
  "pio_plain =
     \<lparr>shift32 = id, cyw43_pio_phase_is_idle = (\<lambda>_. True), cyw43_pio_rx_ready = (\<lambda>_. False), cyw43_pio_rx_read = (\<lambda>x. (0, x)),
      cyw43_pio_tx_write = (\<lambda>_ x. x), cyw43_pio_sm_restart = id, w6300_pio_is_armed = (\<lambda>_ _ _. False),
      w6300_pio_rx_ready = (\<lambda>_ _ _. False), w6300_pio_rx_level = (\<lambda>_ _ _. - 1), w6300_pio_rx_read = (\<lambda>_ _ x. (0, x)),
      w6300_pio_tx_write = (\<lambda>_ _ _ x. x), w6300_pio_sm_restart = (\<lambda>_ _ x. x), w6300_pio_exec_out_drop = (\<lambda>_ _ x. x),
      w6300_pio_pinctrl = (\<lambda>_ _ _ x. x)\<rparr>"

definition pio_boot :: "unit pio_ctx" where
  "pio_boot = \<lparr>px_pio = pio_init, px_gpio = gpio_reset, px_nv = nvic_boot,
     px_cyw = \<lparr>cyw_enabled = False, cyw_pio_num = - 1, cyw_pio_sm = - 1\<rparr>, px_ext = ()\<rparr>"

section \<open>Programs run\<close>

text \<open>The instructions that execute data.\<close>

definition is_exec :: "u16 \<Rightarrow> bool" where
  "is_exec i \<longleftrightarrow> shr i 13 AND 7 = 3 \<and> shr (ucast i :: u8) 5 AND 7 = 7 \<or> shr i 13 AND 7 = 5 \<and> shr (ucast i :: u8) 5 AND 7 = 4"

lemma three_bits: "(d :: u8) AND 7 \<in> {0, 1, 2, 3, 4, 5, 6, 7}"
proof -
  have "d AND 7 < 8" by (simp add: word_and_less)
  then have u: "unat (d AND 7) \<in> {0, 1, 2, 3, 4, 5, 6, 7}" by (auto simp: word_less_nat_alt)
  have "d AND 7 = of_nat (unat (d AND 7))" by simp
  with u show ?thesis by (elim insertE emptyE) simp_all
qed

lemma dispatch_plain:
  assumes "\<not> is_exec i"
  shows "fst (pio_dispatch e k i r) \<noteq> Exec j"
proof -
  have "dest \<noteq> 7 \<Longrightarrow> dest \<in> {0, 1, 2, 3, 4, 5, 6, 7} \<Longrightarrow> fst (out_dest dest n data r) \<noteq> Exec j" for dest n data r
    by (cases r) (auto simp: out_dest_def)
  then have o: "shr arg 5 AND 7 \<noteq> 7 \<Longrightarrow> fst (exec_out e arg r) \<noteq> Exec j" for arg
    using three_bits [of "shr arg 5"]
    by (cases r) (simp only: exec_out_def Let_def prod.case split_beta, simp add: stall_def)
  have "shr arg 5 AND 7 \<noteq> 4 \<Longrightarrow> fst (exec_mov arg r) \<noteq> Exec j" for arg by (cases r) (simp add: exec_mov_def Let_def)
  moreover have "fst (exec_jmp arg r) \<noteq> Exec j" "fst (exec_wait arg r) \<noteq> Exec j" "fst (exec_in e arg r) \<noteq> Exec j"
    "fst (exec_push_pull arg r) \<noteq> Exec j" "fst (exec_irq k arg r) \<noteq> Exec j" "fst (exec_set arg r) \<noteq> Exec j" for arg
    by (cases r; simp add: exec_jmp_def exec_wait_def exec_in_def exec_push_pull_def exec_irq_def exec_set_def stall_def Let_def
        split: prod.split)+
  ultimately show ?thesis using assms o by (simp add: pio_dispatch_def is_exec_def Let_def)
qed

lemma sm_exec_returns: "\<not> is_exec i \<Longrightarrow> \<exists>r'. sm_exec e k i r = Some r'"
  using dispatch_plain [of i e k "side_set i r"]
  by (cases "pio_dispatch e k i (side_set i r)"; cases "fst (pio_dispatch e k i (side_set i r))")
    (auto simp: sm_exec.simps [of e k i r])

text \<open>Execution leaves the instruction register to the processor.\<close>

definition forced :: "pio_sm \<Rightarrow> bool \<times> u32" where
  "forced s = (sm_exec_pending s, sm_instr s)"

lemma forced_parts [simp]:
  "forced (sm_advance_pc s) = forced s" "forced (snd (push_isr s)) = forced s" "forced (snd (pull_osr s)) = forced s"
  "forced (shift_in e n d s) = forced s" "forced (snd (shift_out e n s)) = forced s" "forced (snd (jmp_cond a s p)) = forced s"
  "forced (fst (side_set i r)) = forced (fst r)" "forced (fst (snd (stall r))) = forced (fst r)" "forced (snd (sm_clock s)) = forced s"
  by (simp_all add: forced_def sm_advance_pc_def push_isr_def pull_osr_def shift_in_def shift_out_def jmp_cond_def side_set_def
      stall_def sm_clock_def Let_def split: prod.split option.split)

lemma forced_fields [simp]:
  "forced (s\<lparr>sm_x := v\<rparr>) = forced s" "forced (s\<lparr>sm_y := v\<rparr>) = forced s" "forced (s\<lparr>sm_isr := v\<rparr>) = forced s"
  "forced (s\<lparr>sm_isr_count := w\<rparr>) = forced s" "forced (s\<lparr>sm_osr := v\<rparr>) = forced s" "forced (s\<lparr>sm_osr_count := w\<rparr>) = forced s"
  "forced (s\<lparr>sm_pc := w\<rparr>) = forced s"
  by (simp_all add: forced_def)

lemma out_dest_forced [simp]: "forced (fst (snd (out_dest dest n data r))) = forced (fst r)"
  by (cases r) (simp add: out_dest_def)

lemma exec_forced:
  "forced (fst (snd (exec_jmp arg r))) = forced (fst r)" "forced (fst (snd (exec_wait arg r))) = forced (fst r)"
  "forced (fst (snd (exec_in e arg r))) = forced (fst r)" "forced (fst (snd (exec_out e arg r))) = forced (fst r)"
  "forced (fst (snd (exec_push_pull arg r))) = forced (fst r)" "forced (fst (snd (exec_mov arg r))) = forced (fst r)"
  "forced (fst (snd (exec_irq k arg r))) = forced (fst r)" "forced (fst (snd (exec_set arg r))) = forced (fst r)"
proof -
  obtain s irq p where r: "r = (s, irq, p)" by (cases r)
  show "forced (fst (snd (exec_jmp arg r))) = forced (fst r)" "forced (fst (snd (exec_wait arg r))) = forced (fst r)"
    "forced (fst (snd (exec_in e arg r))) = forced (fst r)" "forced (fst (snd (exec_out e arg r))) = forced (fst r)"
    "forced (fst (snd (exec_push_pull arg r))) = forced (fst r)" "forced (fst (snd (exec_mov arg r))) = forced (fst r)"
    "forced (fst (snd (exec_irq k arg r))) = forced (fst r)" "forced (fst (snd (exec_set arg r))) = forced (fst r)"
    by (simp_all only: r exec_jmp_def exec_wait_def exec_in_def exec_out_def exec_push_pull_def exec_mov_def exec_irq_def exec_set_def
        Let_def prod.case split_beta) simp_all
qed

lemma sm_exec_forced: "sm_exec e k i r = Some r' \<Longrightarrow> forced (fst r') = forced (fst r)"
proof -
  assume x: "sm_exec e k i r = Some r'"
  have "forced (fst (snd (pio_dispatch e k i r1))) = forced (fst r1)" for r1 i
    by (simp add: pio_dispatch_def Let_def exec_forced)
  then show ?thesis
    by (intro sm_exec_keeps [where P = "\<lambda>r1. forced (fst r1) = forced (fst r)", OF _ _ _ x]) simp_all
qed

text \<open>No instruction that could run executes data.\<close>

definition no_exec_block :: "pio_block \<Rightarrow> bool" where
  "no_exec_block p \<longleftrightarrow> (\<forall>i. \<not> is_exec (ucast (pb_instr_mem p i))) \<and>
     (\<forall>sm. sm_exec_pending (pb_sm p sm) \<longrightarrow> \<not> is_exec (ucast (sm_instr (pb_sm p sm))))"

definition no_exec :: "'x pio_ctx \<Rightarrow> bool" where
  "no_exec c \<longleftrightarrow> (\<forall>b. no_exec_block (px_pio c b))"

lemma no_exec_set: "no_exec c \<Longrightarrow> forced s = forced (pb_sm (px_pio c b) sm) \<or> \<not> sm_exec_pending s \<Longrightarrow> no_exec (set_sm b sm s c)"
  by (auto simp: no_exec_def no_exec_block_def set_sm_def forced_def)

lemma pio_sm_exec_ok:
  assumes "no_exec c" "\<not> is_exec i"
  shows "\<exists>c'. pio_sm_exec e b sm i c = Some c' \<and> no_exec c'"
proof -
  let ?r = "(pb_sm (px_pio c b) sm, pb_irq (px_pio c b), px_gpio c, px_nv c)"
  obtain s irq g nv where x: "sm_exec e sm i ?r = Some (s, irq, g, nv)" using sm_exec_returns [OF assms(2), of e sm ?r] by auto
  have "forced s = forced (pb_sm (px_pio c b) sm)" using sm_exec_forced [OF x] by simp
  then have "no_exec (c\<lparr>px_pio := (px_pio c)(b := (px_pio c b)\<lparr>pb_sm := (pb_sm (px_pio c b))(sm := s), pb_irq := irq\<rparr>), px_gpio := g, px_nv := nv\<rparr>)"
    using assms(1) by (simp add: no_exec_def no_exec_block_def forced_def)
  then show ?thesis by (simp add: pio_sm_exec_def x)
qed

lemma pio_sm_step_ok:
  assumes c: "no_exec c"
  shows "\<exists>c'. pio_sm_step e b sm c = Some c' \<and> no_exec c'"
proof -
  define p s where "p = px_pio c b" and "s = pb_sm p sm"
  obtain run s1 where k: "sm_clock s = (run, s1)" by (metis surj_pair)
  have f: "forced s1 = forced s" using forced_parts(9) [of s] by (simp add: k)
  have n: "\<not> is_exec (ucast (pb_instr_mem p i))" "sm_exec_pending s \<Longrightarrow> \<not> is_exec (ucast (sm_instr s))" for i
    using c by (simp_all add: no_exec_def no_exec_block_def p_def s_def)
  have t [simp]: "pb_sm (px_pio (set_sm b sm u c) b) sm = u" for u by (simp add: set_sm_def)
  have "no_exec (set_sm b sm (s\<lparr>sm_exec_pending := False\<rparr>) c)" by (rule no_exec_set [OF c]) simp
  moreover have s1: "no_exec (set_sm b sm s1 c)" by (rule no_exec_set [OF c]) (simp add: f s_def p_def)
  moreover have "no_exec (set_sm b sm (s1\<lparr>sm_delay_count := d\<rparr>) (set_sm b sm s1 c))"
    "no_exec (set_sm b sm (s1\<lparr>sm_addr := v\<rparr>) (set_sm b sm s1 c))" for d v
    by (rule no_exec_set [OF s1], simp add: forced_def)+
  ultimately have q: "no_exec (set_sm b sm (s\<lparr>sm_exec_pending := False\<rparr>) c)" "no_exec (set_sm b sm s1 c)"
    "no_exec (set_sm b sm (s1\<lparr>sm_delay_count := d\<rparr>) (set_sm b sm s1 c))"
    "no_exec (set_sm b sm (s1\<lparr>sm_addr := v\<rparr>) (set_sm b sm s1 c))" for d v by blast+
  show ?thesis
    unfolding pio_sm_step_def p_def [symmetric] s_def [symmetric] Let_def k prod.case
    by (simp add: c q pio_sm_exec_ok [OF q(1) n(2)] pio_sm_exec_ok [OF q(2) n(1)] pio_sm_exec_ok [OF q(4) n(1)])
qed

lemma bind_all_ok: "(\<And>x c. P c \<Longrightarrow> \<exists>c'. f x c = Some c' \<and> P c') \<Longrightarrow> P c \<Longrightarrow> \<exists>c'. bind_all f xs c = Some c' \<and> P c'"
  by (induction xs arbitrary: c) (simp, metis bind_all_simps(2) option.simps(5))

lemma pio_step_ok: "no_exec c \<Longrightarrow> \<exists>c'. pio_step e c = Some c' \<and> no_exec c'"
proof -
  have irq: "no_exec (pio_check_irq b c) = no_exec c" for b c by (simp add: no_exec_def pio_check_irq_def Let_def)
  have "\<exists>c'. map_option (pio_check_irq b) (bind_all (pio_sm_step e b) xs c) = Some c' \<and> no_exec c'" if "no_exec c" for b xs c
    using bind_all_ok [of no_exec "pio_sm_step e b" c xs, OF pio_sm_step_ok that] irq by auto
  then show "no_exec c \<Longrightarrow> \<exists>c'. pio_step e c = Some c' \<and> no_exec c'"
    unfolding pio_step_def by (rule bind_all_ok)
qed

text \<open>C28. The state machines always make progress: if no instruction in the memories and no pending
  instruction executes data, every cycle ends, for any number of cycles. The restriction is
  necessary, see the deviations.\<close>

theorem pio_cycles_end:
  assumes "no_exec c"
  shows "\<exists>c'. bind_all (pio_react e) (replicate n Pio_Cycle) c = Some c'"
proof -
  have "\<exists>c'. bind_all (pio_react e) (replicate n Pio_Cycle) c = Some c' \<and> no_exec c'"
    using assms by (induction n arbitrary: c) (simp, metis bind_all_simps(2) option.simps(5) pio_react.simps(1) pio_step_ok replicate_Suc)
  then show ?thesis by blast
qed

text \<open>A running machine: block 0 holds set x, 10 and its first state machine is enabled.\<close>

definition pio_running :: "unit pio_ctx" where
  "pio_running = pio_write32 pio_plain 0 0 1 (pio_write32 pio_plain 0 0x48 0xE02A pio_boot)"

lemma pio_running_no_exec: "no_exec pio_running"
  unfolding pio_running_def pio_write32_def
  by (simp add: upt_rec [of _ 4] bit_1_iff no_exec_def no_exec_block_def pio_boot_def pio_init_def pio_sm_init_def is_exec_def pio_write32_def global_write_def
      ctrl_write_def pio_check_irq_def upd_block_def Let_def)

lemma pio_running_enabled: "bit (pb_ctrl (px_pio pio_running 0)) 0"
  unfolding pio_running_def pio_write32_def
  by (simp add: upt_rec [of _ 4] bit_1_iff pio_boot_def pio_init_def global_write_def ctrl_write_def pio_check_irq_def upd_block_def Let_def)

theorem pio_state_wellformed_witness:
  "\<exists>c'. bind_all (pio_react pio_plain) [Pio_Write 0 0x48 0xE02A, Pio_Write 0 0 1, Pio_Cycle, Pio_Cycle, Pio_Read 1 0x20] pio_boot = Some c' \<and>
     pio_wf c'"
proof -
  obtain c1 c2 where "pio_step pio_plain pio_running = Some c1" "pio_step pio_plain c1 = Some c2"
    using pio_step_ok pio_running_no_exec by metis
  then obtain c' where c': "bind_all (pio_react pio_plain)
      [Pio_Write 0 0x48 0xE02A, Pio_Write 0 0 1, Pio_Cycle, Pio_Cycle, Pio_Read 1 0x20] pio_boot = Some c'"
    by (simp add: pio_running_def)
  moreover have "pio_wf pio_boot" by (rule pio_init_wf) (simp add: pio_boot_def)
  ultimately show ?thesis using pio_state_wellformed [OF _ c'] by blast
qed

theorem pio_cycles_end_witness:
  "bit (pb_ctrl (px_pio pio_running 0)) 0 \<and> (\<exists>c'. bind_all (pio_react pio_plain) (replicate 100 Pio_Cycle) pio_running = Some c')"
  using pio_running_enabled pio_cycles_end [OF pio_running_no_exec] by (rule conjI)

section \<open>The clock divider\<close>

fun clock_runs :: "nat \<Rightarrow> pio_sm \<Rightarrow> nat \<times> pio_sm" where
  "clock_runs 0 s = (0, s)"
| "clock_runs (Suc n) s = (let (run, s1) = sm_clock s; (k, s2) = clock_runs n s1 in (k + (if run then 1 else 0), s2))"

lemma clk_divisor_nat:
  "unat (clk_divisor s) = 256 * (let i = idx (sm_clkdiv s) 16 0xFFFF in if i = 0 then 65536 else i) + idx (sm_clkdiv s) 8 0xFF"
proof -
  define i f where "i = shr (sm_clkdiv s) 16 AND 0xFFFF" and "f = shr (sm_clkdiv s) 8 AND 0xFF"
  define j where "j = (if i = 0 then 65536 else i)"
  have lt: "unat i < 65536" "unat f < 256"
    using word_and_less [of "0xFFFF" "0x10000" "shr (sm_clkdiv s) 16"] word_and_less [of "0xFF" "0x100" "shr (sm_clkdiv s) 8"]
    by (simp_all add: i_def f_def word_less_nat_alt)
  then have j: "unat j \<le> 65536" "unat j = (if unat i = 0 then 65536 else unat i)" by (auto simp: j_def unat_eq_zero)
  have "shl j 8 AND f = 0" by (rule bit_word_eqI) (auto simp: f_def numeral_masks bit_simps)
  then have "clk_divisor s = shl j 8 + f"
    by (simp add: clk_divisor_def Let_def i_def f_def j_def disjunctive_add_eq_or)
  moreover have "unat (shl j 8) = 256 * unat j"
    using j(1) by (simp add: push_bit_eq_mult unat_word_ariths)
  ultimately have "unat (clk_divisor s) = 256 * unat j + unat f"
    using j(1) lt(2) by (simp add: unat_word_ariths)
  then show ?thesis using j(2) by (simp add: i_def f_def Let_def)
qed

lemma clk_divisor_bounds: "256 \<le> unat (clk_divisor s)" "unat (clk_divisor s) < 2 ^ 25"
proof -
  have "idx (sm_clkdiv s) 16 0xFFFF < 65536" "idx (sm_clkdiv s) 8 0xFF < 256"
    using word_and_less [of "0xFFFF" "0x10000" "shr (sm_clkdiv s) 16"] word_and_less [of "0xFF" "0x100" "shr (sm_clkdiv s) 8"]
    by (simp_all add: word_less_nat_alt)
  then show "256 \<le> unat (clk_divisor s)" "unat (clk_divisor s) < 2 ^ 25"
    by (auto simp: clk_divisor_nat Let_def)
qed

lemma sm_clock_nat:
  assumes "a = unat (sm_clk_frac_acc s)" "d = unat (clk_divisor s)" "a < d"
  shows "fst (sm_clock s) = (d \<le> a + 256) \<and> clk_divisor (snd (sm_clock s)) = clk_divisor s \<and>
    unat (sm_clk_frac_acc (snd (sm_clock s))) = (if d \<le> a + 256 then a + 256 - d else a + 256)"
proof (cases "clk_every s")
  case True
  then have "d = 256" by (simp add: assms(2) clk_divisor_nat clk_every_def)
  then show ?thesis using True assms by (simp add: sm_clock_def)
next
  case False
  have d: "clk_divisor (s\<lparr>sm_clk_frac_acc := v\<rparr>) = clk_divisor s" for v by (simp add: clk_divisor_def)
  have u: "unat (sm_clk_frac_acc s + 256) = a + 256"
    using assms clk_divisor_bounds(2) [of s] by (simp add: unat_word_ariths)
  then have "sm_clk_frac_acc s + 256 < clk_divisor s \<longleftrightarrow> \<not> d \<le> a + 256" by (auto simp: word_less_nat_alt assms(2))
  moreover have "unat (sm_clk_frac_acc s + 256 - clk_divisor s) = a + 256 - d" if "d \<le> a + 256"
    using u that assms(2) by (subst unat_sub) (simp_all add: word_le_nat_alt)
  ultimately show ?thesis using False u by (simp add: sm_clock_def Let_def d)
qed

text \<open>C27. The clock divider is exact: in any number of cycles a state machine runs as often as the
  fixed-point divisor of its register goes into the cycles, fractions carried over from cycle to
  cycle; an integer part of 0 counts as 65536.\<close>

theorem pio_clock_rate:
  assumes "sm_clk_frac_acc s < clk_divisor s"
  shows "fst (clock_runs n s) = (unat (sm_clk_frac_acc s) + 256 * n) div unat (clk_divisor s) \<and>
    unat (clk_divisor s) = 256 * (let i = idx (sm_clkdiv s) 16 0xFFFF in if i = 0 then 65536 else i) + idx (sm_clkdiv s) 8 0xFF"
proof
  show "fst (clock_runs n s) = (unat (sm_clk_frac_acc s) + 256 * n) div unat (clk_divisor s)"
    using assms
  proof (induction n arbitrary: s)
    case 0
    then show ?case by (simp add: word_less_nat_alt)
  next
    case (Suc n)
    let ?a = "unat (sm_clk_frac_acc s)" and ?d = "unat (clk_divisor s)"
    obtain run s1 where k: "sm_clock s = (run, s1)" by (metis surj_pair)
    have a: "?a < ?d" using Suc.prems by (simp add: word_less_nat_alt)
    note c = sm_clock_nat [OF refl refl a, unfolded k fst_conv snd_conv]
    have "unat (sm_clk_frac_acc s1) < ?d" using c a clk_divisor_bounds(1) [of s] by auto
    then have ih: "fst (clock_runs n s1) = (unat (sm_clk_frac_acc s1) + 256 * n) div ?d"
      using Suc.IH [of s1] c by (simp add: word_less_nat_alt)
    have "fst (clock_runs (Suc n) s) = (unat (sm_clk_frac_acc s1) + 256 * n) div ?d + (if ?d \<le> ?a + 256 then 1 else 0)"
      using ih c by (simp only: clock_runs.simps k Let_def split_beta fst_conv snd_conv)
    also have "\<dots> = (?a + 256 * Suc n) div ?d"
    proof (cases "?d \<le> ?a + 256")
      case True
      then have e: "?a + 256 * Suc n = ?d + (?a + 256 - ?d + 256 * n)" by simp
      have "(?a + 256 * Suc n) div ?d = (?a + 256 - ?d + 256 * n) div ?d + 1"
        unfolding e using a by (subst div_add_self1) auto
      then show ?thesis using True c by (simp only: if_True)
    next
      case False
      then show ?thesis using c by (simp add: add.commute add.left_commute)
    qed
    finally show ?case .
  qed
qed (rule clk_divisor_nat)

theorem pio_clock_rate_witness: "fst (clock_runs 10 (pio_sm_init\<lparr>sm_clkdiv := 0x28000\<rparr>)) = 4"
  using pio_clock_rate [of "pio_sm_init\<lparr>sm_clkdiv := 0x28000\<rparr>" 10]
  by (simp add: pio_sm_init_def clk_divisor_def Let_def word_less_nat_alt)
section \<open>Shift registers\<close>

text \<open>The instructions \<^verbatim>\<open>out x, n\<close> and \<^verbatim>\<open>in x, n\<close>.\<close>

definition out_x :: "nat \<Rightarrow> u16" where "out_x n = 0x6020 OR of_nat n"

definition in_x :: "nat \<Rightarrow> u16" where "in_x n = 0x4020 OR of_nat n"

lemma shift_decode:
  assumes "0 < n" "n < 32"
  shows "shr (out_x n) 13 AND 7 = 3" "shr (out_x n) 8 AND 0x1F = 0" "shr (ucast (out_x n) :: u8) 5 AND 7 = 1"
    "bit_count (ucast (out_x n)) = n" "shr (in_x n) 13 AND 7 = 2" "shr (in_x n) 8 AND 0x1F = 0"
    "shr (ucast (in_x n) :: u8) 5 AND 7 = 1" "bit_count (ucast (in_x n)) = n"
proof -
  have "shr (out_x n) 13 AND 7 = 3 \<and> shr (out_x n) 8 AND 0x1F = 0 \<and> shr (ucast (out_x n) :: u8) 5 AND 7 = 1 \<and>
    bit_count (ucast (out_x n)) = n \<and> shr (in_x n) 13 AND 7 = 2 \<and> shr (in_x n) 8 AND 0x1F = 0 \<and>
    shr (ucast (in_x n) :: u8) 5 AND 7 = 1 \<and> bit_count (ucast (in_x n)) = n"
    using assms(2,1) unfolding less_32_cases
    by (elim insertE emptyE) (simp_all add: out_x_def in_x_def bit_count_def Let_def)
  then show "shr (out_x n) 13 AND 7 = 3" "shr (out_x n) 8 AND 0x1F = 0" "shr (ucast (out_x n) :: u8) 5 AND 7 = 1"
    "bit_count (ucast (out_x n)) = n" "shr (in_x n) 13 AND 7 = 2" "shr (in_x n) 8 AND 0x1F = 0"
    "shr (ucast (in_x n) :: u8) 5 AND 7 = 1" "bit_count (ucast (in_x n)) = n"
    by blast+
qed

lemma side_set_plain:
  "shr (sm_pinctrl s) 29 = 0 \<Longrightarrow> shr i 8 AND 0x1F = 0 \<Longrightarrow>
     side_set i (s, irq, p) = (s\<lparr>sm_delay_count := 0, sm_stalled := False\<rparr>, irq, p)"
  by (simp add: side_set_def)

lemmas sm_config_defs = sm_advance_pc_def shift_out_def shift_in_def sm_out_shift_right_def sm_in_shift_right_def
  sm_autopull_def sm_autopush_def

definition sm_config :: "pio_sm \<Rightarrow> u32 \<times> u32 \<times> u32" where
  "sm_config s = (sm_execctrl s, sm_shiftctrl s, sm_pinctrl s)"

lemma exec_out_x:
  assumes n: "0 < n" "n < 32" and "\<not> sm_autopull s" "shr (sm_pinctrl s) 29 = 0"
  shows "\<exists>s'. sm_exec e k (out_x n) (s, irq, p) = Some (s', irq, p) \<and> sm_config s' = sm_config s \<and>
    sm_x s' = fst (shift_out e n s) \<and> sm_osr s' = sm_osr (snd (shift_out e n s)) \<and> sm_isr s' = sm_isr s"
  using assms(3,4)
  by (subst sm_exec.simps)
    (simp add: pio_dispatch_def shift_decode [OF n] side_set_plain exec_out_def out_dest_def sm_config_defs sm_config_def Let_def
      split: if_split)

lemma exec_in_x:
  assumes n: "0 < n" "n < 32" and "\<not> sm_autopush s" "shr (sm_pinctrl s) 29 = 0"
  shows "\<exists>s'. sm_exec e k (in_x n) (s, irq, p) = Some (s', irq, p) \<and> sm_config s' = sm_config s \<and>
    sm_isr s' = sm_isr (shift_in e n (low_bits n (sm_x s)) s) \<and> sm_osr s' = sm_osr s"
  using assms(3,4)
  by (subst sm_exec.simps)
    (simp add: pio_dispatch_def shift_decode [OF n] side_set_plain exec_in_def in_source_def sm_config_defs sm_config_def Let_def
      split: if_split)

text \<open>The two shift registers as one word of 64 bits.\<close>

definition join :: "u32 \<Rightarrow> u32 \<Rightarrow> u64" where
  "join hi lo = shl (ucast hi) 32 OR ucast lo"

lemma bit_join: "bit (join hi lo) i \<longleftrightarrow> (if i < 32 then bit lo i else i < 64 \<and> bit hi (i - 32))"
  by (auto simp: join_def bit_simps dest: bit_imp_le_length)

lemma join_inject: "join a b = join c d \<Longrightarrow> a = c \<and> b = d"
proof -
  assume e: "join a b = join c d"
  have "bit a i = bit c i" "bit b i = bit d i" if "i < 32" for i
    using arg_cong [OF e, of "\<lambda>w. bit w (i + 32)"] arg_cong [OF e, of "\<lambda>w. bit w i"] that by (simp_all add: bit_join)
  then show ?thesis by (auto intro: bit_word_eqI)
qed

lemma low_bits_bit: "bit (low_bits n v) i \<longleftrightarrow> i < n \<and> bit v i" if "n < 32"
proof -
  have "shl 1 n - 1 = (mask n :: u32)" by (simp add: mask_eq_exp_minus_1)
  then show ?thesis using that by (auto simp: low_bits_def bit_simps dest: bit_imp_le_length)
qed

lemma join_right: "0 < n \<Longrightarrow> n < 32 \<Longrightarrow> join (shr o1 n) (shr i1 n OR shl (low_bits n o1) (32 - n)) = shr (join o1 i1) n"
  by (rule bit_word_eqI) (auto simp: bit_join bit_simps low_bits_bit ac_simps dest: bit_imp_le_length)

lemma join_left: "0 < n \<Longrightarrow> n < 32 \<Longrightarrow> join (shl i1 n OR low_bits n (shr o1 (32 - n))) (shl o1 n) = shl (join i1 o1) n"
  by (rule bit_word_eqI) (auto simp: bit_join bit_simps low_bits_bit ac_simps dest: bit_imp_le_length)

lemma bind_all_append: "bind_all f (xs @ ys) c = (case bind_all f xs c of None \<Rightarrow> None | Some c1 \<Rightarrow> bind_all f ys c1)"
  by (induction xs arbitrary: c) (simp_all split: option.split)

lemma low_bits_idem: "n < 32 \<Longrightarrow> low_bits n (low_bits n v) = low_bits n v"
  by (rule bit_word_eqI) (simp add: low_bits_bit)

lemma out_in_step:
  assumes n: "0 < n" "n < 32" and c: "sm_out_shift_right s = sm_in_shift_right s" "\<not> sm_autopull s" "\<not> sm_autopush s"
    "shr (sm_pinctrl s) 29 = 0"
  shows "\<exists>s'. bind_all (sm_exec e k) [out_x n, in_x n] (s, irq, p) = Some (s', irq, p) \<and> sm_config s' = sm_config s \<and>
    (if sm_in_shift_right s then join (sm_osr s') (sm_isr s') = shr (join (sm_osr s) (sm_isr s)) n
     else join (sm_isr s') (sm_osr s') = shl (join (sm_isr s) (sm_osr s)) n)"
proof -
  obtain s1 where s1: "sm_exec e k (out_x n) (s, irq, p) = Some (s1, irq, p)" "sm_config s1 = sm_config s"
    "sm_x s1 = fst (shift_out e n s)" "sm_osr s1 = sm_osr (snd (shift_out e n s))" "sm_isr s1 = sm_isr s"
    using exec_out_x [OF n c(2,4)] by blast
  have c1: "\<not> sm_autopush s1" "shr (sm_pinctrl s1) 29 = 0" "sm_in_shift_right s1 = sm_in_shift_right s"
    using s1(2) c by (simp_all add: sm_config_def sm_autopush_def sm_in_shift_right_def)
  obtain s2 where s2: "sm_exec e k (in_x n) (s1, irq, p) = Some (s2, irq, p)" "sm_config s2 = sm_config s1"
    "sm_isr s2 = sm_isr (shift_in e n (low_bits n (sm_x s1)) s1)" "sm_osr s2 = sm_osr s1"
    using exec_in_x [OF n c1(1,2)] by blast
  have "if sm_in_shift_right s then join (sm_osr s2) (sm_isr s2) = shr (join (sm_osr s) (sm_isr s)) n
     else join (sm_isr s2) (sm_osr s2) = shl (join (sm_isr s) (sm_osr s)) n"
    using n by (simp add: s2 s1 c1 c(1) shift_out_def shift_in_def shr_n_def shl_n_def low_bits_idem join_right join_left)
  then show ?thesis using s1(1,2) s2(1,2) by simp
qed

text \<open>C14. Shifting a word out and in again restores it: the instructions out x and in x, in pieces of 1 to 31 bits that
  add up to 32, with both registers shifting in the same direction, no autopush or autopull and no side-set, move
  the output shift register to the input shift register. (One piece of 32 bits is a shift that C leaves undefined,
  see the deviations.)\<close>

theorem pio_shift_round_trip:
  assumes "list_all (\<lambda>n. 0 < n \<and> n < 32) ns" "sum_list ns = 32"
    and "sm_out_shift_right s = sm_in_shift_right s" "\<not> sm_autopull s" "\<not> sm_autopush s" "shr (sm_pinctrl s) 29 = 0"
  shows "\<exists>s'. bind_all (sm_exec e k) (concat (map (\<lambda>n. [out_x n, in_x n]) ns)) (s, irq, p) = Some (s', irq, p) \<and>
    sm_isr s' = sm_osr s"
proof -
  have "\<exists>s'. bind_all (sm_exec e k) (concat (map (\<lambda>n. [out_x n, in_x n]) ns)) (s, irq, p) = Some (s', irq, p) \<and>
    (if sm_in_shift_right s then join (sm_osr s') (sm_isr s') = shr (join (sm_osr s) (sm_isr s)) (sum_list ns)
     else join (sm_isr s') (sm_osr s') = shl (join (sm_isr s) (sm_osr s)) (sum_list ns))"
    using assms(1,3-6)
  proof (induction ns arbitrary: s)
    case (Cons n ns)
    then obtain s1 where s1: "bind_all (sm_exec e k) [out_x n, in_x n] (s, irq, p) = Some (s1, irq, p)" "sm_config s1 = sm_config s"
      "if sm_in_shift_right s then join (sm_osr s1) (sm_isr s1) = shr (join (sm_osr s) (sm_isr s)) n
       else join (sm_isr s1) (sm_osr s1) = shl (join (sm_isr s) (sm_osr s)) n"
      using out_in_step [of n s e k irq p] by auto
    have c: "sm_out_shift_right s1 = sm_in_shift_right s1" "\<not> sm_autopull s1" "\<not> sm_autopush s1" "shr (sm_pinctrl s1) 29 = 0"
      "sm_in_shift_right s1 = sm_in_shift_right s"
      using s1(2) Cons.prems by (simp_all add: sm_config_def sm_config_defs)
    obtain s2 where "bind_all (sm_exec e k) (concat (map (\<lambda>n. [out_x n, in_x n]) ns)) (s1, irq, p) = Some (s2, irq, p)"
      "if sm_in_shift_right s1 then join (sm_osr s2) (sm_isr s2) = shr (join (sm_osr s1) (sm_isr s1)) (sum_list ns)
       else join (sm_isr s2) (sm_osr s2) = shl (join (sm_isr s1) (sm_osr s1)) (sum_list ns)"
      using Cons.IH [of s1] Cons.prems(1) c by auto
    moreover from this have "bind_all (sm_exec e k) (concat (map (\<lambda>n. [out_x n, in_x n]) (n # ns))) (s, irq, p) = Some (s2, irq, p)"
      using s1(1) by (simp only: list.map concat.simps bind_all_append option.case)
    ultimately show ?case
      using s1(3) unfolding c(5) by (intro exI [of _ s2]) (auto simp: add.commute split: if_splits)
  qed simp
  then obtain s' where s': "bind_all (sm_exec e k) (concat (map (\<lambda>n. [out_x n, in_x n]) ns)) (s, irq, p) = Some (s', irq, p)"
    "if sm_in_shift_right s then join (sm_osr s') (sm_isr s') = shr (join (sm_osr s) (sm_isr s)) 32
     else join (sm_isr s') (sm_osr s') = shl (join (sm_isr s) (sm_osr s)) 32"
    unfolding assms(2) by blast
  have "shr (join a b) 32 = join 0 a" "shl (join a b) 32 = join b 0" for a b
    by (rule bit_word_eqI; auto simp: bit_join bit_simps ac_simps dest: bit_imp_le_length)+
  then have "sm_isr s' = sm_osr s" using s'(2) join_inject by (metis (full_types))
  then show ?thesis using s'(1) by blast
qed

theorem pio_shift_round_trip_witness:
  "\<exists>s'. bind_all (sm_exec pio_plain 0) [out_x 8, in_x 8, out_x 24, in_x 24] (pio_sm_init\<lparr>sm_osr := 0x12345678\<rparr>, 0, gpio_reset, nvic_boot) =
     Some (s', 0, gpio_reset, nvic_boot) \<and> sm_isr s' = 0x12345678"
  using pio_shift_round_trip [of "[8, 24]" "pio_sm_init\<lparr>sm_osr := 0x12345678\<rparr>" pio_plain 0 0 "(gpio_reset, nvic_boot)"]
  by (simp add: pio_sm_init_def sm_config_defs bit_numeral_rec del: bind_all_simps)

section \<open>Transmission\<close>

text \<open>Blocking pulls, one after the other, and the words they load.\<close>

fun pull_words :: "'x pio_env \<Rightarrow> nat \<Rightarrow> nat \<Rightarrow> pio_run \<Rightarrow> (u32 list \<times> pio_run) option" where
  "pull_words e k 0 r = Some ([], r)"
| "pull_words e k (Suc n) r =
     (case sm_exec e k 0x80A0 r of
        None \<Rightarrow> None
      | Some r1 \<Rightarrow> (case pull_words e k n r1 of None \<Rightarrow> None | Some (vs, r2) \<Rightarrow> Some (sm_osr (fst r1) # vs, r2)))"

lemma side_set_keeps [simp]:
  "sm_tx_fifo (fst (side_set i r)) = sm_tx_fifo (fst r)" "sm_x (fst (side_set i r)) = sm_x (fst r)"
  "sm_pc (fst (side_set i r)) = sm_pc (fst r)"
  by (simp_all add: side_set_def Let_def split: prod.split)

lemma exec_pull:
  "\<exists>s' q. sm_exec e k 0x80A0 r = Some (s', q) \<and>
    (case pio_fifo_pop (sm_tx_fifo (fst r)) of
       (Some v, f) \<Rightarrow> sm_osr s' = v \<and> sm_tx_fifo s' = f
     | (None, f) \<Rightarrow> sm_stalled s' \<and> sm_pc s' = sm_pc (fst r))"
proof -
  obtain s irq p where s: "side_set 0x80A0 r = (s, irq, p)" by (metis surj_pair)
  have f: "sm_tx_fifo s = sm_tx_fifo (fst r)" "sm_pc s = sm_pc (fst r)"
    using side_set_keeps(1,3) [of "0x80A0" r] by (simp_all add: s)
  have d: "pio_dispatch e k 0x80A0 (s, irq, p) =
      (let (ok, s1) = pull_osr s in if ok then (Advance, s1, irq, p) else stall (s, irq, p))"
    by (simp add: pio_dispatch_def exec_push_pull_def bit_numeral_rec)
  show ?thesis
    by (subst sm_exec.simps)
      (auto simp: s d f pull_osr_def stall_def sm_advance_pc_def split: prod.splits option.splits)
qed

lemma pull_words_fifo:
  "pio_fifo_wf (sm_tx_fifo (fst r)) \<Longrightarrow> n \<le> length (pio_fifo_list (sm_tx_fifo (fst r))) \<Longrightarrow>
     \<exists>r'. pull_words e k n r = Some (take n (pio_fifo_list (sm_tx_fifo (fst r))), r') \<and> pio_fifo_wf (sm_tx_fifo (fst r')) \<and>
       pio_fifo_list (sm_tx_fifo (fst r')) = drop n (pio_fifo_list (sm_tx_fifo (fst r)))"
proof (induction n arbitrary: r)
  case (Suc n)
  let ?f = "sm_tx_fifo (fst r)"
  obtain v vs where l: "pio_fifo_list ?f = v # vs" using Suc.prems(2) by (cases "pio_fifo_list ?f") auto
  then have "0 < pf_count ?f" by (metis length_greater_0_conv list.distinct(1) pio_fifo_length)
  note pop = pio_pop_some [OF Suc.prems(1) this]
  obtain s1 q where x: "sm_exec e k 0x80A0 r = Some (s1, q)" "sm_osr s1 = v" "sm_tx_fifo s1 = snd (pio_fifo_pop ?f)"
    using exec_pull [of e k r] pop by (cases "pio_fifo_pop ?f") (auto simp: l)
  have "pio_fifo_wf (sm_tx_fifo s1)" "pio_fifo_list (sm_tx_fifo s1) = vs" using pop x(3) by (simp_all add: l)
  then show ?case using Suc.IH [of "(s1, q)"] Suc.prems(2) x(1,2) by (auto simp: l)
qed simp

lemma txf_offset: "sm < 4 \<Longrightarrow> unat ((of_nat (0x10 + 4 * sm) - 0x10 :: u32) div 4) = sm \<and>
    of_nat (0x10 + 4 * sm) \<in> {0x010, 0x014, 0x018, 0x01C :: u32}"
  unfolding less_4_cases by (elim disjE) simp_all

lemma pio_check_irq_simps [simp]:
  "px_pio (pio_check_irq b c) = px_pio c" "px_cyw (pio_check_irq b c) = px_cyw c" "px_gpio (pio_check_irq b c) = px_gpio c"
  by (simp_all add: pio_check_irq_def Let_def)

lemma write_txf:
  assumes "sm < 4" "\<not> cyw_owns b sm c"
  shows "pb_sm (px_pio (pio_write32 e b (of_nat (0x10 + 4 * sm)) v c) b) sm =
      (pb_sm (px_pio c b) sm)\<lparr>sm_tx_fifo := snd (pio_fifo_push v (sm_tx_fifo (pb_sm (px_pio c b) sm)))\<rparr> \<and>
    \<not> cyw_owns b sm (pio_write32 e b (of_nat (0x10 + 4 * sm)) v c)"
proof -
  let ?o = "of_nat (0x10 + 4 * sm) :: u32"
  note o = txf_offset [OF assms(1)]
  have "global_write e b ?o v c = txf_write e b sm v c"
    using o by (auto simp: global_write_def)
  moreover have "\<not> (?o \<ge> 0x48 \<and> ?o < 0xC8)" "\<not> (?o \<ge> 0xC8 \<and> ?o < 0x128)" using o by auto
  ultimately have w: "pio_write32 e b ?o v c = pio_check_irq b (txf_write e b sm v c)"
    by (simp only: pio_write32_def Let_def if_False)
  show ?thesis unfolding w using assms(2) by (simp add: txf_write_def Let_def set_sm_def cyw_owns_def)
qed

text \<open>Words written to the transmit register of a state machine reach its program in order: blocking
  pulls load the words that were waiting and then the new ones, up to the four that fit, and the
  next pull stalls without moving on.\<close>

theorem pio_transmits_in_order:
  assumes "pio_wf c" "sm < 4" "\<not> cyw_owns b sm c"
  shows "let c1 = fold (pio_write32 e b (of_nat (0x10 + 4 * sm))) ws c;
      waiting = take 4 (pio_fifo_list (sm_tx_fifo (pb_sm (px_pio c b) sm)) @ ws);
      r = (pb_sm (px_pio c1 b) sm, pb_irq (px_pio c1 b), px_gpio c1, px_nv c1)
    in \<exists>r1 r2. pull_words e sm (length waiting) r = Some (waiting, r1) \<and>
         sm_exec e sm 0x80A0 r1 = Some r2 \<and> sm_stalled (fst r2) \<and> sm_pc (fst r2) = sm_pc (fst r1)"
proof -
  define c1 where "c1 = fold (pio_write32 e b (of_nat (0x10 + 4 * sm))) ws c"
  define waiting where "waiting = take 4 (pio_fifo_list (sm_tx_fifo (pb_sm (px_pio c b) sm)) @ ws)"
  define r where "r = (pb_sm (px_pio c1 b) sm, pb_irq (px_pio c1 b), px_gpio c1, px_nv c1)"
  have t: "sm_tx_fifo (pb_sm (px_pio c1 b) sm) =
      fold (\<lambda>v f. snd (pio_fifo_push v f)) ws (sm_tx_fifo (pb_sm (px_pio c b) sm))"
    using assms(3) unfolding c1_def
  proof (induction ws arbitrary: c)
    case (Cons w ws)
    then show ?case using write_txf [OF assms(2) Cons.prems, of e w] by simp
  qed simp
  have f: "pio_fifo_wf (sm_tx_fifo (pb_sm (px_pio c b) sm))" using pio_wf_sm [OF assms(1)] by (simp add: sm_wf_def)
  then have "pio_fifo_wf (sm_tx_fifo (fst r))" "pio_fifo_list (sm_tx_fifo (fst r)) = waiting"
    using pioq.wf_push_all [OF f] pioq.contents_push_all [OF f] by (simp_all add: r_def t waiting_def)
  then obtain r1 where r1: "pull_words e sm (length waiting) r = Some (waiting, r1)"
    "pio_fifo_list (sm_tx_fifo (fst r1)) = []"
    using pull_words_fifo [of r "length waiting" e sm] by auto
  then have "pf_count (sm_tx_fifo (fst r1)) = 0" by (metis list.size(3) pio_fifo_length)
  then have "\<exists>r2. sm_exec e sm 0x80A0 r1 = Some r2 \<and> sm_stalled (fst r2) \<and> sm_pc (fst r2) = sm_pc (fst r1)"
    using exec_pull [of e sm r1] by (auto simp: pio_pop_none)
  then show ?thesis
    unfolding c1_def [symmetric] waiting_def [symmetric] Let_def r_def [symmetric] using r1(1) by blast
qed

theorem pio_transmits_witness:
  "let c1 = pio_write32 pio_plain 0 0x10 6 (pio_write32 pio_plain 0 0x10 5 pio_boot) in
   \<exists>r1. pull_words pio_plain 0 2 (pb_sm (px_pio c1 0) 0, pb_irq (px_pio c1 0), px_gpio c1, px_nv c1) = Some ([5, 6], r1)"
proof -
  have w: "pio_wf pio_boot" by (rule pio_init_wf) (simp add: pio_boot_def)
  have o: "\<not> cyw_owns 0 0 pio_boot" by (simp add: pio_boot_def cyw_owns_def)
  have l: "pio_fifo_list (sm_tx_fifo (pb_sm (px_pio pio_boot 0) 0)) = []" by (simp add: pio_boot_def pio_init_def pio_sm_init_def)
  show ?thesis
    using pio_transmits_in_order [OF w _ o, of pio_plain "[5, 6]"] unfolding Let_def l
    by (auto simp: numeral_2_eq_2 simp del: pull_words.simps)
qed

section \<open>Deviations\<close>

text \<open>Data executed as an instruction may execute itself: with the encoding of \<^verbatim>\<open>mov exec, x\<close> in register X the
  source recurses for ever.\<close>

lemma exec_never_returns:
  "sm_x (fst r) = 0xA081 \<Longrightarrow> sm_exec e k 0xA081 r = None"
proof (rule ccontr)
  assume x: "sm_x (fst r) = 0xA081" and "sm_exec e k 0xA081 r \<noteq> None"
  then obtain r' where r': "sm_exec e k 0xA081 r = Some r'" by auto
  have "i = 0xA081 \<longrightarrow> sm_x (fst r1) = 0xA081 \<longrightarrow> False" if "sm_exec e' k' i r1 = Some r2" for e' :: "'a pio_env" and k' i r1 r2
  proof (rule sm_exec.raw_induct [OF _ that, where P = "\<lambda>e' k' i r1 r2. i = 0xA081 \<longrightarrow> sm_x (fst r1) = 0xA081 \<longrightarrow> False"], intro impI)
    fix f and e' :: "'a pio_env" and k' i r1 r2
    assume ih: "\<And>e' k' i r1 r2. f e' k' i r1 = Some r2 \<Longrightarrow> i = 0xA081 \<longrightarrow> sm_x (fst r1) = 0xA081 \<longrightarrow> False"
      and step: "(case pio_dispatch e' k' i (side_set i r1) of (Advance, s, q) \<Rightarrow> Some (sm_advance_pc s, q)
        | (Stay, r1) \<Rightarrow> Some r1 | (Exec i, r1) \<Rightarrow> f e' k' i r1) = Some r2"
      and i: "i = 0xA081" and x: "sm_x (fst r1) = 0xA081"
    obtain s irq p where s: "side_set i r1 = (s, irq, p)" by (metis surj_pair)
    have sx: "sm_x s = 0xA081" using side_set_keeps(2) [of i r1] x by (simp add: s)
    have "pio_dispatch e' k' i (s, irq, p) = (Exec 0xA081, s, irq, p)"
      by (simp add: i pio_dispatch_def exec_mov_def in_source_def sx)
    then show False using step ih [of e' k' i "(s, irq, p)" r2] sx i by (simp add: s [unfolded i])
  qed
  then show False using r' x by blast
qed

text \<open>An instruction that raises a flag and waits for it to be cleared raises it again each time it is
  retried, so it never ends.\<close>

lemma irq_wait_never_ends:
  assumes "n < 8"
  shows "\<exists>s' q. sm_exec e k (0xC020 OR of_nat n) r = Some (s', q) \<and> sm_stalled s' \<and> sm_pc s' = sm_pc (fst r)"
proof -
  let ?i = "0xC020 OR of_nat n :: u16"
  obtain s irq p where s: "side_set ?i r = (s, irq, p)" by (metis surj_pair)
  have pc: "sm_pc s = sm_pc (fst r)" using side_set_keeps(3) [of ?i r] by (simp add: s)
  have i: "shr ?i 13 AND 7 = 6 \<and> \<not> bit (ucast ?i :: u8) 6 \<and> bit (ucast ?i :: u8) 5 \<and> \<not> bit (ucast ?i :: u8) 4 \<and>
      unat ((ucast ?i :: u8) AND 0x1F) mod 8 = n"
  proof -
    have "n \<in> {0, 1, 2, 3, 4, 5, 6, 7}" using assms by auto
    then show ?thesis by (elim insertE emptyE) (simp_all add: bit_numeral_rec)
  qed
  have "pio_dispatch e k ?i (s, irq, p) = stall (s, irq OR shl 1 n, p)"
    using i assms by (simp add: pio_dispatch_def exec_irq_def Let_def bit_simps)
  then show ?thesis by (subst sm_exec.simps) (simp add: s stall_def pc)
qed

text \<open>The count of bits shifted out is a byte that is not capped: eight shifts of 32 bits bring it back, and
  the register looks full again.\<close>

lemma osr_count_wraps: "sm_osr_count (((\<lambda>s. snd (shift_out e 32 s)) ^^ 8) s) = sm_osr_count s"
proof -
  have "sm_osr_count (((\<lambda>s. snd (shift_out e 32 s)) ^^ n) s) = sm_osr_count s + of_nat (32 * n)" for n
    by (induction n) (simp_all add: shift_out_def Let_def split: prod.split)
  from this [of 8] show ?thesis by simp
qed

text \<open>On a host where a shift by 32 leaves the word as it is, reading 32 bits merges them with what the
  input shift register held.\<close>

lemma in_32_merges: "shift32 e = id \<Longrightarrow> sm_isr (shift_in e 32 data s) = sm_isr s OR data"
  by (simp add: shift_in_def shr_n_def shl_n_def)

text \<open>A forced OUT of 32 bits to a scratch register only drops a word of the FIFO, with or without the network
  board: the scratch registers and the shift register stay as they are and nothing is scheduled.\<close>

lemma forced_out_lost:
  "pb_sm (px_pio (instr_write e b sm 0x6020 c) b) sm =
     (pb_sm (px_pio c b) sm)\<lparr>sm_instr := 0x6020, sm_tx_fifo := snd (pio_fifo_pop (sm_tx_fifo (pb_sm (px_pio c b) sm)))\<rparr>"
  by (simp add: instr_write_def set_sm_def pio_fifo_pop_def)

end
