(* ===== verification/Loaders.thy ===== *)
theory Loaders
  imports Emu_Prelude
begin

unbundle bit_operations_syntax

text \<open>
  The firmware loaders: UF2 images (\<^verbatim>\<open>src/uf2.c\<close>), ELF images (\<^verbatim>\<open>src/elf.c\<close>), the boot block of the RP2350
  (\<^verbatim>\<open>src/rp2350_rv/picobin.c\<close>), and the choice of loader and the restoring of a saved flash in
  \<^verbatim>\<open>src/main.c\<close>. A file is the list of its bytes, \<open>None\<close> one that cannot be opened. The memories are
  functions on offsets; what follows the array of the RAM, of 264 KB, in the memory of the program is kept apart,
  since the ELF loader can write there. The largest offset a file position can have, \<^verbatim>\<open>LONG_MAX\<close> of the host, is a
  parameter; allocations of buffers of at most 64 KB succeed.
\<close>

section \<open>Memories and files\<close>

datatype fw_arch = FW_ARCH_UNKNOWN | FW_ARCH_ARM_M0P | FW_ARCH_ARM_M33 | FW_ARCH_RV32

record loader =
  ld_flash :: "nat \<Rightarrow> u8"
  ld_ram :: "nat \<Rightarrow> u8"
  ld_behind :: "nat \<Rightarrow> u8"
  detected_arch :: fw_arch

type_synonym bytes = "u8 list"

text \<open>\<^verbatim>\<open>memcpy\<close> and \<^verbatim>\<open>memset\<close> to an array.\<close>

definition put_bytes :: "nat \<Rightarrow> u8 list \<Rightarrow> (nat \<Rightarrow> u8) \<Rightarrow> nat \<Rightarrow> u8" where
  "put_bytes start bs m i = (if start \<le> i \<and> i < start + length bs then bs ! (i - start) else m i)"

definition fill_bytes :: "nat \<Rightarrow> nat \<Rightarrow> u8 \<Rightarrow> (nat \<Rightarrow> u8) \<Rightarrow> nat \<Rightarrow> u8" where
  "fill_bytes start n v m i = (if start \<le> i \<and> i < start + n then v else m i)"

text \<open>Up to \<open>n\<close> bytes from a position, and the little-endian fields of a structure that was read.\<close>

definition file_read :: "bytes \<Rightarrow> nat \<Rightarrow> nat \<Rightarrow> u8 list" where
  "file_read f pos n = take n (drop pos f)"

definition le16 :: "u8 list \<Rightarrow> nat \<Rightarrow> u16" where
  "le16 bs = rd16 (\<lambda>i. bs ! i)"

definition le32 :: "u8 list \<Rightarrow> nat \<Rightarrow> u32" where
  "le32 bs = rd32 (\<lambda>i. bs ! i)"

section \<open>UF2 images\<close>

record uf2_block =
  magic_start0 :: u32
  magic_start1 :: u32
  ub_flags :: u32
  target_addr :: u32
  payload_size :: u32
  block_no :: u32
  num_blocks :: u32
  file_size :: u32
  ub_data :: "u8 list"
  magic_end :: u32

definition uf2_parse :: "u8 list \<Rightarrow> uf2_block" where
  "uf2_parse bs =
     \<lparr>magic_start0 = le32 bs 0, magic_start1 = le32 bs 4, ub_flags = le32 bs 8, target_addr = le32 bs 12,
      payload_size = le32 bs 16, block_no = le32 bs 20, num_blocks = le32 bs 24, file_size = le32 bs 28,
      ub_data = take 476 (drop 32 bs), magic_end = le32 bs 508\<rparr>"

definition uf2_block_flash_offset :: "uf2_block \<Rightarrow> u32 option" where
  "uf2_block_flash_offset b =
     (if payload_size b > 476 then None
      else if payload_size b = 0 \<or> payload_size b mod 256 \<noteq> 0 then None
      else if target_addr b AND 0xFF \<noteq> 0 then None
      else if target_addr b < 0x10000000 then None
      else let offset = target_addr b - 0x10000000 in
        if offset > 0x1000000 then None
        else if payload_size b > 0x1000000 - offset then None
        else Some offset)"

text \<open>The architecture of a family; the absolute family leaves the detected one.\<close>

definition family_arch :: "u32 \<Rightarrow> fw_arch \<Rightarrow> fw_arch" where
  "family_arch fam a =
     (if fam = 0xE48BFF56 then FW_ARCH_ARM_M0P
      else if fam = 0xE48BFF59 then FW_ARCH_ARM_M33
      else if fam = 0xE48BFF5A then FW_ARCH_RV32
      else if fam = 0xE48BFF57 then a
      else FW_ARCH_UNKNOWN)"

record uf2_load =
  blocks_loaded :: nat
  family_id :: u32
  family_detected :: bool
  ul_loader :: loader

definition uf2_magic_ok :: "uf2_block \<Rightarrow> bool" where
  "uf2_magic_ok b \<longleftrightarrow> magic_start0 b = 0x0A324655 \<and> magic_start1 b = 0x9E5D5157 \<and> magic_end b = 0x0AB16F30"

definition uf2_family :: "uf2_block \<Rightarrow> uf2_load \<Rightarrow> uf2_load" where
  "uf2_family b s =
     (if bit (ub_flags b) 13 \<and> (\<not> family_detected s \<or> family_id s = 0xE48BFF57 \<and> file_size b \<noteq> 0xE48BFF57)
      then s\<lparr>family_id := file_size b, family_detected := True,
             ul_loader := (ul_loader s)\<lparr>detected_arch := family_arch (file_size b) (detected_arch (ul_loader s))\<rparr>\<rparr>
      else s)"

definition uf2_load_block :: "uf2_block \<Rightarrow> uf2_load \<Rightarrow> uf2_load" where
  "uf2_load_block b s =
     (if \<not> uf2_magic_ok b then s
      else let s1 = uf2_family b s in
        if bit (ub_flags b) 13 \<and> file_size b = 0xE48BFF57 then s1
        else case uf2_block_flash_offset b of
            None \<Rightarrow> s1
          | Some offset \<Rightarrow>
              s1\<lparr>blocks_loaded := blocks_loaded s1 + 1,
                 ul_loader := (ul_loader s1)\<lparr>ld_flash :=
                   put_bytes (unat offset) (take (unat (payload_size b)) (ub_data b)) (ld_flash (ul_loader s1))\<rparr>\<rparr>)"

fun uf2_load_blocks :: "bytes \<Rightarrow> uf2_load \<Rightarrow> uf2_load" where
  "uf2_load_blocks f s =
     (if length f < 512 then s else uf2_load_blocks (drop 512 f) (uf2_load_block (uf2_parse (take 512 f)) s))"

declare uf2_load_blocks.simps [simp del]

definition load_uf2 :: "bytes option \<Rightarrow> loader \<Rightarrow> bool \<times> loader" where
  "load_uf2 fo l =
     (case fo of
        None \<Rightarrow> (False, l)
      | Some f \<Rightarrow>
          let s = uf2_load_blocks f \<lparr>blocks_loaded = 0, family_id = 0, family_detected = False, ul_loader = l\<rparr>
          in (blocks_loaded s > 0, ul_loader s))"

section \<open>ELF images\<close>

record elf32_ehdr =
  e_ident :: "u8 list"
  e_machine :: u16
  e_entry :: u32
  e_phoff :: u32
  e_shoff :: u32
  e_phentsize :: u16
  e_phnum :: u16
  e_shentsize :: u16
  e_shnum :: u16
  e_shstrndx :: u16

record elf32_phdr =
  p_type :: u32
  p_offset :: u32
  p_vaddr :: u32
  p_paddr :: u32
  p_filesz :: u32
  p_memsz :: u32

record elf32_shdr =
  sh_name :: u32
  sh_offset :: u32
  sh_size :: u32

definition elf_ehdr :: "u8 list \<Rightarrow> elf32_ehdr" where
  "elf_ehdr bs =
     \<lparr>e_ident = take 16 bs, e_machine = le16 bs 18, e_entry = le32 bs 24, e_phoff = le32 bs 28, e_shoff = le32 bs 32,
      e_phentsize = le16 bs 42, e_phnum = le16 bs 44, e_shentsize = le16 bs 46, e_shnum = le16 bs 48,
      e_shstrndx = le16 bs 50\<rparr>"

definition elf_phdr :: "u8 list \<Rightarrow> elf32_phdr" where
  "elf_phdr bs =
     \<lparr>p_type = le32 bs 0, p_offset = le32 bs 4, p_vaddr = le32 bs 8, p_paddr = le32 bs 12, p_filesz = le32 bs 16,
      p_memsz = le32 bs 20\<rparr>"

definition elf_shdr :: "u8 list \<Rightarrow> elf32_shdr" where
  "elf_shdr bs = \<lparr>sh_name = le32 bs 0, sh_offset = le32 bs 16, sh_size = le32 bs 20\<rparr>"

definition checked_seek :: "nat \<Rightarrow> nat \<Rightarrow> bool" where
  "checked_seek long_max offset \<longleftrightarrow> offset \<le> long_max"

text \<open>A seek followed by a read that must be complete.\<close>

definition read_at :: "nat \<Rightarrow> bytes \<Rightarrow> nat \<Rightarrow> nat \<Rightarrow> u8 list option" where
  "read_at long_max f pos n =
     (if checked_seek long_max pos \<and> length (file_read f pos n) = n then Some (file_read f pos n) else None)"

fun strncmp_eq :: "nat \<Rightarrow> u8 list \<Rightarrow> u8 list \<Rightarrow> bool" where
  "strncmp_eq (Suc n) (x # xs) (y # ys) \<longleftrightarrow> x = y \<and> (x = 0 \<or> strncmp_eq n xs ys)"
| "strncmp_eq _ _ _ \<longleftrightarrow> True"

text \<open>The bytes of \<^verbatim>\<open>.ARM.attributes\<close> with the terminating zero.\<close>

definition arm_attributes :: "u8 list" where
  "arm_attributes = [0x2E, 0x41, 0x52, 0x4D, 0x2E, 0x61, 0x74, 0x74, 0x72, 0x69, 0x62, 0x75, 0x74, 0x65, 0x73, 0]"

text \<open>The scan for the names \<^verbatim>\<open>8-M\<close> and \<^verbatim>\<open>8.1-M\<close> after the first byte.\<close>

definition names_m33 :: "u8 list \<Rightarrow> bool" where
  "names_m33 sec \<longleftrightarrow>
     (\<exists>k \<in> set [1..<length sec]. take 3 (drop k sec) = [0x38, 0x2D, 0x4D] \<or> take 5 (drop k sec) = [0x38, 0x2E, 0x31, 0x2D, 0x4D])"

fun elf_scan_sections :: "nat \<Rightarrow> bytes \<Rightarrow> elf32_ehdr \<Rightarrow> u8 list \<Rightarrow> nat list \<Rightarrow> bool" where
  "elf_scan_sections lm f eh strtab [] = False"
| "elf_scan_sections lm f eh strtab (i # is) =
     (case read_at lm f (unat (e_shoff eh) + i * unat (e_shentsize eh)) 40 of
        None \<Rightarrow> False
      | Some bs \<Rightarrow>
          let sh = elf_shdr bs in
          if unat (sh_name sh) \<ge> length strtab then elf_scan_sections lm f eh strtab is
          else if \<not> strncmp_eq (length strtab - unat (sh_name sh)) (drop (unat (sh_name sh)) strtab) arm_attributes
          then elf_scan_sections lm f eh strtab is
          else if sh_size sh = 0 \<or> sh_size sh > 65536 then False
          else case read_at lm f (unat (sh_offset sh)) (unat (sh_size sh)) of
              None \<Rightarrow> False
            | Some sec \<Rightarrow> length sec > 1 \<and> sec ! 0 = 0x41 \<and> names_m33 sec)"

definition elf_arm_is_m33 :: "nat \<Rightarrow> bytes \<Rightarrow> elf32_ehdr \<Rightarrow> bool" where
  "elf_arm_is_m33 lm f eh =
     (if e_shoff eh = 0 \<or> e_shnum eh = 0 \<or> e_shstrndx eh \<ge> e_shnum eh \<or> e_shentsize eh < 40 then False
      else case read_at lm f (unat (e_shoff eh) + unat (e_shstrndx eh) * unat (e_shentsize eh)) 40 of
          None \<Rightarrow> False
        | Some bs \<Rightarrow>
            let strh = elf_shdr bs in
            if sh_size strh > 65536 then False
            else case read_at lm f (unat (sh_offset strh)) (unat (sh_size strh)) of
                None \<Rightarrow> False
              | Some strtab \<Rightarrow> elf_scan_sections lm f eh strtab [0..<unat (e_shnum eh)])"

definition region_contains :: "u32 \<Rightarrow> u32 \<Rightarrow> u32 \<Rightarrow> u32 \<Rightarrow> bool" where
  "region_contains start region_size addr sz \<longleftrightarrow>
     addr \<ge> start \<and> addr - start \<le> region_size \<and> sz \<le> region_size - (addr - start)"

text \<open>Clearing the memory of a segment and reading its bytes over it; the flag tells that the position of the
  bytes could be reached.\<close>

definition segment_bytes :: "nat \<Rightarrow> bytes \<Rightarrow> elf32_phdr \<Rightarrow> nat \<Rightarrow> (nat \<Rightarrow> u8) \<Rightarrow> bool \<times> (nat \<Rightarrow> u8)" where
  "segment_bytes lm f ph start m =
     (let m1 = fill_bytes start (unat (p_memsz ph)) 0 m in
      if p_filesz ph = 0 then (True, m1)
      else if \<not> checked_seek lm (unat (p_offset ph)) then (False, m1)
      else (True, put_bytes start (file_read f (unat (p_offset ph)) (unat (p_filesz ph))) m1))"

definition elf_flash_segment :: "nat \<Rightarrow> bytes \<Rightarrow> elf32_phdr \<Rightarrow> nat \<times> loader \<Rightarrow> nat \<times> loader" where
  "elf_flash_segment lm f ph st =
     (let (n, l) = st; (ok, m) = segment_bytes lm f ph (unat (p_vaddr ph - 0x10000000)) (ld_flash l)
      in (if ok then n + 1 else n, l\<lparr>ld_flash := m\<rparr>))"

text \<open>The bytes at \<^verbatim>\<open>cpu.ram\<close>: those of the array, and those behind its end.\<close>

definition ram_bytes :: "loader \<Rightarrow> nat \<Rightarrow> u8" where
  "ram_bytes l i = (if i < 0x42000 then ld_ram l i else ld_behind l i)"

definition set_ram_bytes :: "(nat \<Rightarrow> u8) \<Rightarrow> loader \<Rightarrow> loader" where
  "set_ram_bytes m l =
     l\<lparr>ld_ram := (\<lambda>i. if i < 0x42000 then m i else ld_ram l i), ld_behind := (\<lambda>i. if i < 0x42000 then ld_behind l i else m i)\<rparr>"

definition elf_ram_segment :: "nat \<Rightarrow> bytes \<Rightarrow> elf32_phdr \<Rightarrow> nat \<times> loader \<Rightarrow> nat \<times> loader" where
  "elf_ram_segment lm f ph st =
     (let (n, l) = st; (ok, m) = segment_bytes lm f ph (unat (p_vaddr ph - 0x20000000)) (ram_bytes l); l1 = set_ram_bytes m l in
      if \<not> ok then (n, l1)
      else if region_contains 0x10000000 0x1000000 (p_paddr ph) (p_filesz ph) \<and> p_paddr ph \<noteq> p_vaddr ph then
        (if \<not> checked_seek lm (unat (p_offset ph)) then (n, l1)
         else (n + 1, l1\<lparr>ld_flash := put_bytes (unat (p_paddr ph - 0x10000000))
                           (file_read f (unat (p_offset ph)) (unat (p_filesz ph))) (ld_flash l1)\<rparr>))
      else (n + 1, l1))"

definition elf_load_segment :: "nat \<Rightarrow> bytes \<Rightarrow> elf32_phdr \<Rightarrow> nat \<times> loader \<Rightarrow> nat \<times> loader" where
  "elf_load_segment lm f ph st =
     (if p_type ph \<noteq> 1 then st
      else if p_filesz ph > p_memsz ph then st
      else if unat (p_offset ph) > length f \<or> unat (p_filesz ph) > length f - unat (p_offset ph) then st
      else if region_contains 0x10000000 0x1000000 (p_vaddr ph) (p_memsz ph) then elf_flash_segment lm f ph st
      else if region_contains 0x20000000 0x82000 (p_vaddr ph) (p_memsz ph) then elf_ram_segment lm f ph st
      else st)"

definition elf_load_phdr :: "nat \<Rightarrow> bytes \<Rightarrow> elf32_ehdr \<Rightarrow> nat \<Rightarrow> nat \<times> loader \<Rightarrow> nat \<times> loader" where
  "elf_load_phdr lm f eh i st =
     (case read_at lm f (unat (e_phoff eh) + i * unat (e_phentsize eh)) 32 of
        None \<Rightarrow> st
      | Some bs \<Rightarrow> elf_load_segment lm f (elf_phdr bs) st)"

text \<open>The checks of the header before anything is changed.\<close>

definition elf_header_ok :: "elf32_ehdr \<Rightarrow> bool" where
  "elf_header_ok eh \<longleftrightarrow>
     e_ident eh ! 0 = 0x7F \<and> e_ident eh ! 1 = 0x45 \<and> e_ident eh ! 2 = 0x4C \<and> e_ident eh ! 3 = 0x46 \<and>
     e_ident eh ! 4 = 1 \<and> e_ident eh ! 5 = 1 \<and> (e_machine eh = 40 \<or> e_machine eh = 243)"

definition elf_table_ok :: "bytes \<Rightarrow> elf32_ehdr \<Rightarrow> bool" where
  "elf_table_ok f eh \<longleftrightarrow>
     e_phnum eh \<noteq> 0 \<and> e_phoff eh \<noteq> 0 \<and> e_phentsize eh \<ge> 32 \<and> unat (e_phoff eh) \<le> length f \<and>
     unat (e_phentsize eh) * unat (e_phnum eh) \<le> length f - unat (e_phoff eh)"

definition elf_arch :: "nat \<Rightarrow> bytes \<Rightarrow> elf32_ehdr \<Rightarrow> fw_arch" where
  "elf_arch lm f eh =
     (if e_machine eh = 243 then FW_ARCH_RV32 else if elf_arm_is_m33 lm f eh then FW_ARCH_ARM_M33 else FW_ARCH_ARM_M0P)"

definition load_elf :: "nat \<Rightarrow> bytes option \<Rightarrow> loader \<Rightarrow> bool \<times> loader" where
  "load_elf lm fo l =
     (case fo of
        None \<Rightarrow> (False, l)
      | Some f \<Rightarrow>
          let eh = elf_ehdr (take 52 f) in
          if length f > lm \<or> length f < 52 \<or> \<not> elf_header_ok eh then (False, l)
          else let l1 = l\<lparr>detected_arch := elf_arch lm f eh\<rparr> in
            if \<not> elf_table_ok f eh then (False, l1)
            else let (n, l2) = fold (elf_load_phdr lm f eh) [0..<unat (e_phnum eh)] (0, l1) in (n > 0, l2))"

section \<open>Boot blocks\<close>

record picobin_info =
  pb_found :: bool
  is_riscv :: bool
  is_arm :: bool
  is_rp2350 :: bool
  entry_pc :: u32
  entry_sp :: u32
  pb_vtor :: u32

definition picobin_zero :: picobin_info where
  "picobin_zero = \<lparr>pb_found = False, is_riscv = False, is_arm = False, is_rp2350 = False, entry_pc = 0, entry_sp = 0, pb_vtor = 0\<rparr>"

text \<open>What one item adds; the sizes of flash are far below 2^32, so that no position wraps.\<close>

definition picobin_item :: "(nat \<Rightarrow> u8) \<Rightarrow> nat \<Rightarrow> nat \<Rightarrow> picobin_info \<Rightarrow> picobin_info" where
  "picobin_item flash scan_size pos info =
     (let w = rd32 flash pos; type = w AND 0xFF; sz = shr w 8 AND 0xFF; flags = shr w 16 in
      if type = 0x42 then
        (if bit flags 0 then
           info\<lparr>is_riscv := (shr flags 8 AND 7 = 1), is_arm := (shr flags 8 AND 7 = 0), is_rp2350 := (shr flags 12 AND 7 = 1)\<rparr>
         else info)
      else if type = 0x44 then
        (if sz \<ge> 3 \<and> pos + 12 \<le> scan_size
         then info\<lparr>entry_pc := rd32 flash (pos + 4), entry_sp := rd32 flash (pos + 8)\<rparr> else info)
      else if type = 0x03 then
        (if sz \<ge> 2 \<and> pos + 8 \<le> scan_size then info\<lparr>pb_vtor := rd32 flash (pos + 4)\<rparr> else info)
      else info)"

function picobin_items :: "(nat \<Rightarrow> u8) \<Rightarrow> nat \<Rightarrow> nat \<Rightarrow> picobin_info \<Rightarrow> picobin_info" where
  "picobin_items flash scan_size pos info =
     (let w = rd32 flash pos; sz = unat (shr w 8 AND 0xFF) in
      if \<not> pos + 4 \<le> scan_size then info
      else if w AND 0xFF = 0xFF then info\<lparr>pb_found := True\<rparr>
      else if sz = 0 then info
      else picobin_items flash scan_size (pos + sz * 4) (picobin_item flash scan_size pos info))"
  by pat_completeness auto
termination
  by (relation "measure (\<lambda>(flash, scan_size, pos, info). scan_size - pos)") auto

declare picobin_items.simps [simp del]

function picobin_blocks :: "(nat \<Rightarrow> u8) \<Rightarrow> nat \<Rightarrow> nat \<Rightarrow> picobin_info \<Rightarrow> picobin_info" where
  "picobin_blocks flash scan_size pos info =
     (if \<not> pos + 8 \<le> scan_size then info
      else if rd32 flash pos \<noteq> 0xFFFFDED3 then picobin_blocks flash scan_size (pos + 4) info
      else let info1 = picobin_items flash scan_size (pos + 4) info in
        if pb_found info1 then info1 else picobin_blocks flash scan_size (pos + 4) info1)"
  by pat_completeness auto
termination
  by (relation "measure (\<lambda>(flash, scan_size, pos, info). scan_size - pos)") auto

declare picobin_blocks.simps [simp del]

definition picobin_scan :: "(nat \<Rightarrow> u8) \<Rightarrow> nat \<Rightarrow> picobin_info" where
  "picobin_scan flash scan_size = (if scan_size < 8 then picobin_zero else picobin_blocks flash scan_size 0 picobin_zero)"

section \<open>Starting up\<close>

text \<open>Flash is erased, then the file is loaded with the loader its name asks for.\<close>

definition is_elf_name :: "string \<Rightarrow> bool" where
  "is_elf_name path \<longleftrightarrow> length path > 4 \<and> drop (length path - 4) path = ''.elf''"

definition load_firmware :: "nat \<Rightarrow> string \<Rightarrow> bytes option \<Rightarrow> loader \<Rightarrow> bool \<times> loader" where
  "load_firmware lm path fo l =
     (let l1 = l\<lparr>ld_flash := fill_bytes 0 0x1000000 0xFF (ld_flash l)\<rparr>
      in if is_elf_name path then load_elf lm fo l1 else load_uf2 fo l1)"

text \<open>Sectors of 4 KB without firmware are restored from the saved flash, up to the first that the file does
  not hold completely.\<close>

definition fw_sector :: "(nat \<Rightarrow> u8) \<Rightarrow> nat \<Rightarrow> bool" where
  "fw_sector flash i \<longleftrightarrow> (\<exists>j \<in> set [0..<4096]. flash (i * 4096 + j) \<noteq> 0xFF)"

fun restore_sectors :: "(nat \<Rightarrow> bool) \<Rightarrow> bytes \<Rightarrow> nat list \<Rightarrow> (nat \<Rightarrow> u8) \<Rightarrow> nat \<Rightarrow> u8" where
  "restore_sectors fw f [] flash = flash"
| "restore_sectors fw f (i # is) flash =
     (let sector = file_read f (i * 4096) 4096 in
      if length sector < 4096 then flash
      else restore_sectors fw f is (if fw i then flash else put_bytes (i * 4096) sector flash))"

definition restore_flash :: "bytes option \<Rightarrow> loader \<Rightarrow> loader" where
  "restore_flash fo l =
     (case fo of
        None \<Rightarrow> l
      | Some f \<Rightarrow> l\<lparr>ld_flash := restore_sectors (fw_sector (ld_flash l)) f [0..<512] (ld_flash l)\<rparr>)"

section \<open>Laws of the memories\<close>

lemma put_bytes_nil [simp]: "put_bytes start [] m = m"
  by (auto simp: fun_eq_iff put_bytes_def)

lemma put_bytes_append:
  "put_bytes (start + length xs) ys (put_bytes start xs m) = put_bytes start (xs @ ys) m"
  by (auto simp: fun_eq_iff put_bytes_def nth_append)

lemma put_bytes_outside: "i < start \<or> start + length bs \<le> i \<Longrightarrow> put_bytes start bs m i = m i"
  by (auto simp: put_bytes_def)

lemma put_bytes_inside: "k < length bs \<Longrightarrow> put_bytes start bs m (start + k) = bs ! k"
  by (simp add: put_bytes_def)

lemma fill_bytes_outside: "i < start \<or> start + n \<le> i \<Longrightarrow> fill_bytes start n v m i = m i"
  by (auto simp: fill_bytes_def)

lemma fill_bytes_inside: "k < n \<Longrightarrow> fill_bytes start n v m (start + k) = v"
  by (simp add: fill_bytes_def)

lemma length_file_read: "length (file_read f pos n) \<le> n"
  by (simp add: file_read_def)

section \<open>UF2 images round trip\<close>

text \<open>An image as the tools write it: one block for each page of 256 bytes.\<close>

definition bytes32 :: "u32 \<Rightarrow> u8 list" where
  "bytes32 v = [ucast v, ucast (shr v 8), ucast (shr v 16), ucast (shr v 24)]"

definition uf2_encode :: "u32 \<Rightarrow> u32 \<Rightarrow> u32 \<Rightarrow> u32 \<Rightarrow> u8 list \<Rightarrow> bytes" where
  "uf2_encode fam target no tot page =
     bytes32 0x0A324655 @ bytes32 0x9E5D5157 @ bytes32 0x2000 @ bytes32 target @ bytes32 256 @ bytes32 no @ bytes32 tot @
     bytes32 fam @ (page @ replicate 220 0) @ bytes32 0x0AB16F30"

fun uf2_image :: "u32 \<Rightarrow> u32 \<Rightarrow> u32 \<Rightarrow> u32 \<Rightarrow> u8 list list \<Rightarrow> bytes" where
  "uf2_image fam target no tot [] = []"
| "uf2_image fam target no tot (page # pages) =
     uf2_encode fam target no tot page @ uf2_image fam (target + 256) (no + 1) tot pages"

lemma length_uf2_encode: "length page = 256 \<Longrightarrow> length (uf2_encode fam target no tot page) = 512"
  by (simp add: uf2_encode_def bytes32_def)

lemma uf2_parse_encode:
  assumes "length page = 256"
  shows "uf2_parse (uf2_encode fam target no tot page) =
    \<lparr>magic_start0 = 0x0A324655, magic_start1 = 0x9E5D5157, ub_flags = 0x2000, target_addr = target, payload_size = 256,
     block_no = no, num_blocks = tot, file_size = fam, ub_data = page @ replicate 220 0, magic_end = 0x0AB16F30\<rparr>"
proof -
  let ?e = "uf2_encode fam target no tot page"
  have "le32 ?e 508 = 0x0AB16F30"
    using assms by (simp add: le32_def rd32_def uf2_encode_def bytes32_def nth_append)
  then show ?thesis
    using assms unfolding uf2_parse_def
    by (simp add: le32_def rd32_def uf2_encode_def bytes32_def bytes_of_word32)
qed

lemma uf2_offset:
  assumes "start mod 256 = 0" "start + 256 \<le> 0x1000000" "payload_size b = 256" "target_addr b = of_nat (0x10000000 + start)"
  shows "uf2_block_flash_offset b = Some (of_nat start)"
proof -
  let ?o = "of_nat start :: u32"
  have o: "unat ?o = start" using assms(2) by (simp add: unat_of_nat_lt)
  have t: "unat (0x10000000 + ?o) = 0x10000000 + start"
    using assms(2) by (subst unat_word_ariths) (simp add: o)
  have "unat ((0x10000000 + ?o) AND 0xFF) = (0x10000000 + start) mod 256"
    using t by (simp add: numeral_masks flip: take_bit_eq_mask) (simp add: take_bit_eq_mod unat_mod)
  then have a: "(0x10000000 + ?o) AND 0xFF = 0" using assms(1) by (simp add: mod_add_eq [symmetric] unat_eq_zero)
  show ?thesis
    using assms(2) t o a
    by (simp add: uf2_block_flash_offset_def Let_def assms(3,4) word_less_nat_alt word_le_nat_alt unat_sub)
qed

lemma uf2_load_page:
  assumes "length page = 256" "start mod 256 = 0" "start + 256 \<le> 0x1000000" "fam \<noteq> 0xE48BFF57"
  shows "uf2_load_block (uf2_parse (uf2_encode fam (of_nat (0x10000000 + start)) no tot page)) s =
    (let s1 = (if family_detected s \<and> family_id s \<noteq> 0xE48BFF57 then s
               else s\<lparr>family_id := fam, family_detected := True,
                      ul_loader := (ul_loader s)\<lparr>detected_arch := family_arch fam (detected_arch (ul_loader s))\<rparr>\<rparr>)
     in s1\<lparr>blocks_loaded := blocks_loaded s1 + 1,
           ul_loader := (ul_loader s1)\<lparr>ld_flash := put_bytes start page (ld_flash (ul_loader s1))\<rparr>\<rparr>)"
proof -
  let ?b = "uf2_parse (uf2_encode fam (of_nat (0x10000000 + start)) no tot page)"
  note b = uf2_parse_encode [OF assms(1)]
  have "uf2_block_flash_offset ?b = Some (of_nat start)" using assms(2,3) by (rule uf2_offset) (simp_all add: b)
  moreover have "unat (of_nat start :: u32) = start" using assms(3) by (simp add: unat_of_nat_lt)
  ultimately show ?thesis
    using assms(1,4) by (simp add: uf2_load_block_def uf2_magic_ok_def uf2_family_def b Let_def)
qed

lemma uf2_load_pages:
  assumes "fam \<noteq> 0xE48BFF57" "\<forall>page \<in> set pages. length page = 256" "start mod 256 = 0"
    "start + 256 * length pages \<le> 0x1000000" "family_detected s" "family_id s = fam"
  shows "uf2_load_blocks (uf2_image fam (of_nat (0x10000000 + start)) no tot pages) s =
    s\<lparr>blocks_loaded := blocks_loaded s + length pages,
      ul_loader := (ul_loader s)\<lparr>ld_flash := put_bytes start (concat pages) (ld_flash (ul_loader s))\<rparr>\<rparr>"
  using assms(2-)
proof (induction pages arbitrary: start no s)
  case Nil
  then show ?case by (simp add: uf2_load_blocks.simps)
next
  case (Cons page pages)
  let ?e = "uf2_encode fam (of_nat (0x10000000 + start)) no tot page"
  let ?s = "s\<lparr>blocks_loaded := blocks_loaded s + 1,
      ul_loader := (ul_loader s)\<lparr>ld_flash := put_bytes start page (ld_flash (ul_loader s))\<rparr>\<rparr>"
  have p: "length page = 256" using Cons.prems by simp
  have e: "length ?e = 512" by (rule length_uf2_encode [OF p])
  have "uf2_load_block (uf2_parse ?e) s = ?s"
    using uf2_load_page [OF p _ _ assms(1), of start no tot s] Cons.prems assms(1) by simp
  then have "uf2_load_blocks (uf2_image fam (of_nat (0x10000000 + start)) no tot (page # pages)) s =
      uf2_load_blocks (uf2_image fam (of_nat (0x10000000 + (start + 256))) (no + 1) tot pages) ?s"
    using e by (subst uf2_load_blocks.simps) (simp add: add.assoc)
  also have "\<dots> = ?s\<lparr>blocks_loaded := blocks_loaded ?s + length pages,
      ul_loader := (ul_loader ?s)\<lparr>ld_flash := put_bytes (start + 256) (concat pages) (ld_flash (ul_loader ?s))\<rparr>\<rparr>"
    using Cons.prems by (intro Cons.IH) (auto simp: mod_add_left_eq [symmetric])
  finally show ?case using put_bytes_append [of start page "concat pages"] p by simp
qed

lemma uf2_load_image:
  assumes "fam \<noteq> 0xE48BFF57" "\<forall>page \<in> set pages. length page = 256" "start mod 256 = 0"
    "start + 256 * length pages \<le> 0x1000000" "pages \<noteq> []"
  shows "load_uf2 (Some (uf2_image fam (of_nat (0x10000000 + start)) 0 (of_nat (length pages)) pages)) l =
    (True, l\<lparr>ld_flash := put_bytes start (concat pages) (ld_flash l), detected_arch := family_arch fam (detected_arch l)\<rparr>)"
proof -
  obtain page rest where ps: "pages = page # rest" using assms(5) by (cases pages) auto
  let ?n = "of_nat (length pages) :: u32"
  let ?e = "uf2_encode fam (of_nat (0x10000000 + start)) 0 ?n page"
  let ?init = "\<lparr>blocks_loaded = 0, family_id = 0, family_detected = False, ul_loader = l\<rparr>"
  let ?s = "\<lparr>blocks_loaded = 1, family_id = fam, family_detected = True,
    ul_loader = l\<lparr>ld_flash := put_bytes start page (ld_flash l), detected_arch := family_arch fam (detected_arch l)\<rparr>\<rparr>"
  have p: "length page = 256" using assms(2) by (simp add: ps)
  have "uf2_load_block (uf2_parse ?e) ?init = ?s"
    using uf2_load_page [OF p _ _ assms(1), of start 0 ?n ?init] assms(3,4) by (simp add: ps)
  moreover have "uf2_load_blocks (uf2_image fam (of_nat (0x10000000 + (start + 256))) 1 ?n rest) ?s =
    ?s\<lparr>blocks_loaded := blocks_loaded ?s + length rest,
       ul_loader := (ul_loader ?s)\<lparr>ld_flash := put_bytes (start + 256) (concat rest) (ld_flash (ul_loader ?s))\<rparr>\<rparr>"
    using assms by (intro uf2_load_pages) (auto simp: ps mod_add_left_eq [symmetric])
  ultimately have "uf2_load_blocks (uf2_image fam (of_nat (0x10000000 + start)) 0 ?n pages) ?init =
    ?s\<lparr>blocks_loaded := 1 + length rest,
       ul_loader := l\<lparr>ld_flash := put_bytes start (concat pages) (ld_flash l), detected_arch := family_arch fam (detected_arch l)\<rparr>\<rparr>"
    using put_bytes_append [of start page "concat rest"] p length_uf2_encode [OF p]
    by (subst uf2_load_blocks.simps) (simp add: ps add.assoc)
  then show ?thesis by (simp add: load_uf2_def)
qed

lemma uf2_load_absolute:
  assumes "\<forall>page \<in> set pages. length page = 256"
  shows "ul_loader (uf2_load_blocks (uf2_image 0xE48BFF57 target no tot pages) s) = ul_loader s \<and>
    blocks_loaded (uf2_load_blocks (uf2_image 0xE48BFF57 target no tot pages) s) = blocks_loaded s"
  using assms
proof (induction pages arbitrary: target no s)
  case Nil
  then show ?case by (simp add: uf2_load_blocks.simps)
next
  case (Cons page pages)
  have p: "length page = 256" using Cons.prems by simp
  let ?s = "uf2_load_block (uf2_parse (uf2_encode 0xE48BFF57 target no tot page)) s"
  have "ul_loader ?s = ul_loader s" "blocks_loaded ?s = blocks_loaded s"
    by (simp_all add: uf2_load_block_def uf2_magic_ok_def uf2_family_def uf2_parse_encode [OF p] family_arch_def Let_def)
  then show ?case
    using Cons length_uf2_encode [OF p] by (subst (1 2) uf2_load_blocks.simps) simp
qed

text \<open>C24. Loading an image that was written as UF2 restores it: the pages of the file are in flash from the
  start address on and nothing else of the memories changes, and the family in the blocks gives the detected
  architecture: Cortex-M0+ for the RP2040, Cortex-M33 and RISC-V for the two families of the RP2350, and none for
  an unknown family. Of an image of the absolute family, which is only used for padding, nothing is loaded.\<close>

theorem uf2_round_trip:
  assumes "\<forall>page \<in> set pages. length page = 256" "start mod 256 = 0" "start + 256 * length pages \<le> 0x1000000" "pages \<noteq> []"
    and "img = uf2_image fam (of_nat (0x10000000 + start)) 0 (of_nat (length pages)) pages"
  shows "load_uf2 (Some img) l =
    (if fam = 0xE48BFF57 then (False, l)
     else (True, l\<lparr>ld_flash := put_bytes start (concat pages) (ld_flash l),
       detected_arch := (if fam = 0xE48BFF56 then FW_ARCH_ARM_M0P else if fam = 0xE48BFF59 then FW_ARCH_ARM_M33
         else if fam = 0xE48BFF5A then FW_ARCH_RV32 else FW_ARCH_UNKNOWN)\<rparr>))"
proof (cases "fam = 0xE48BFF57")
  case True
  then show ?thesis using assms(1) by (simp add: assms(5) load_uf2_def uf2_load_absolute)
next
  case False
  then show ?thesis using uf2_load_image [OF False assms(1-4), of l] by (simp add: assms(5) family_arch_def)
qed

definition blank_loader :: loader where
  "blank_loader = \<lparr>ld_flash = (\<lambda>_. 0xFF), ld_ram = (\<lambda>_. 0), ld_behind = (\<lambda>_. 0), detected_arch = FW_ARCH_UNKNOWN\<rparr>"

theorem uf2_round_trip_witness:
  "load_uf2 (Some (uf2_image 0xE48BFF59 0x10000100 0 2 [replicate 256 7, replicate 256 9])) blank_loader =
    (True, blank_loader\<lparr>ld_flash := put_bytes 256 (replicate 256 7 @ replicate 256 9) (\<lambda>_. 0xFF), detected_arch := FW_ARCH_ARM_M33\<rparr>)"
  using uf2_round_trip [of "[replicate 256 7, replicate 256 9]" 256 _ "0xE48BFF59" blank_loader, OF _ _ _ _ refl]
  by (simp add: blank_loader_def)

section \<open>Loaders stay in their memories\<close>

definition same_outside :: "loader \<Rightarrow> loader \<Rightarrow> bool" where
  "same_outside l l' \<longleftrightarrow> (\<forall>i \<ge> 0x1000000. ld_flash l' i = ld_flash l i) \<and> (\<forall>i \<ge> 0x42000. ld_ram l' i = ld_ram l i) \<and>
     (\<forall>i. i < 0x42000 \<or> 0x82000 \<le> i \<longrightarrow> ld_behind l' i = ld_behind l i)"

lemma same_outside_refl [simp]: "same_outside l l" "same_outside l (l\<lparr>detected_arch := a\<rparr>)"
  by (simp_all add: same_outside_def)

lemma same_outside_trans: "same_outside a b \<Longrightarrow> same_outside b c \<Longrightarrow> same_outside a c"
  by (simp add: same_outside_def)

lemma uf2_offset_bound:
  "uf2_block_flash_offset b = Some offset \<Longrightarrow> unat offset + unat (payload_size b) \<le> 0x1000000"
proof -
  assume "uf2_block_flash_offset b = Some offset"
  then have o: "offset \<le> 0x1000000" and p: "payload_size b \<le> 0x1000000 - offset"
    by (auto simp: uf2_block_flash_offset_def Let_def not_less split: if_splits)
  from o have "unat (0x1000000 - offset) = 0x1000000 - unat offset" by (simp add: unat_sub)
  with o p show ?thesis by (simp add: word_le_nat_alt)
qed

lemma uf2_block_stays: "same_outside (ul_loader s) (ul_loader (uf2_load_block b s))"
proof -
  have f: "same_outside (ul_loader s) (ul_loader (uf2_family b s))" by (simp add: uf2_family_def)
  have "same_outside l (l\<lparr>ld_flash := put_bytes (unat offset) (take (unat (payload_size b)) bs) (ld_flash l)\<rparr>)"
    if "uf2_block_flash_offset b = Some offset" for offset bs l
    using uf2_offset_bound [OF that] by (simp add: same_outside_def put_bytes_outside)
  then show ?thesis
    using f by (auto simp: uf2_load_block_def Let_def intro: same_outside_trans split: option.split)
qed

lemma uf2_blocks_stay: "same_outside (ul_loader s) (ul_loader (uf2_load_blocks f s))"
proof (induction f s rule: uf2_load_blocks.induct)
  case (1 f s)
  then show ?case
    using same_outside_trans [OF uf2_block_stays] by (subst uf2_load_blocks.simps) auto
qed

lemma uf2_blocks_behind: "ld_behind (ul_loader (uf2_load_blocks f s)) = ld_behind (ul_loader s)"
proof (induction f s rule: uf2_load_blocks.induct)
  case (1 f s)
  have "ld_behind (ul_loader (uf2_load_block b s)) = ld_behind (ul_loader s)" for b
    by (simp add: uf2_load_block_def uf2_family_def Let_def split: option.split)
  then show ?case using 1 by (subst uf2_load_blocks.simps) auto
qed

lemma region_bound:
  "region_contains start region addr sz \<Longrightarrow> unat (addr - start) + unat sz \<le> unat region"
proof -
  assume "region_contains start region addr sz"
  then have o: "addr - start \<le> region" and s: "sz \<le> region - (addr - start)" by (simp_all add: region_contains_def)
  from o have "unat (region - (addr - start)) = unat region - unat (addr - start)" by (rule unat_sub)
  with o s show ?thesis by (simp add: word_le_nat_alt)
qed

lemma segment_bytes_outside:
  assumes "p_filesz ph \<le> p_memsz ph" "i < start \<or> start + unat (p_memsz ph) \<le> i"
  shows "snd (segment_bytes lm f ph start m) i = m i"
  using assms length_file_read [of f "unat (p_offset ph)" "unat (p_filesz ph)"]
  by (auto simp: segment_bytes_def Let_def put_bytes_outside fill_bytes_outside word_le_nat_alt)

lemma elf_segment_stays: "same_outside (snd st) (snd (elf_load_segment lm f ph st))"
proof -
  obtain n l where st: "st = (n, l)" by (cases st)
  have fl: "same_outside l (snd (elf_flash_segment lm f ph (n, l)))"
    if "p_filesz ph \<le> p_memsz ph" "region_contains 0x10000000 0x1000000 (p_vaddr ph) (p_memsz ph)"
    using region_bound [OF that(2)] segment_bytes_outside [OF that(1)]
    by (simp add: elf_flash_segment_def same_outside_def split_beta)
  have rm: "same_outside l (snd (elf_ram_segment lm f ph (n, l)))"
    if "p_filesz ph \<le> p_memsz ph" "region_contains 0x20000000 0x82000 (p_vaddr ph) (p_memsz ph)"
  proof -
    have r: "\<forall>i \<ge> 0x82000. snd (segment_bytes lm f ph (unat (p_vaddr ph - 0x20000000)) (ram_bytes l)) i = ram_bytes l i"
      using region_bound [OF that(2)] segment_bytes_outside [OF that(1)] by simp
    have m: "\<forall>i \<ge> 0x1000000. put_bytes (unat (p_paddr ph - 0x10000000)) (file_read f pos (unat (p_filesz ph))) m i = m i"
      if "region_contains 0x10000000 0x1000000 (p_paddr ph) (p_filesz ph)" for pos m
      using region_bound [OF that] length_file_read [of f pos "unat (p_filesz ph)"] by (simp add: put_bytes_outside)
    show ?thesis
      using r m by (simp add: elf_ram_segment_def same_outside_def split_beta Let_def set_ram_bytes_def ram_bytes_def)
  qed
  show ?thesis using fl rm by (auto simp: elf_load_segment_def st)
qed

lemma elf_phdrs_stay: "same_outside (snd st) (snd (fold (elf_load_phdr lm f eh) is st))"
proof (induction "is" arbitrary: st)
  case (Cons i "is")
  have "same_outside (snd st) (snd (elf_load_phdr lm f eh i st))"
    by (simp add: elf_load_phdr_def elf_segment_stays split: option.split)
  from same_outside_trans [OF this Cons] show ?case by simp
qed simp

text \<open>The program header at an index of the table.\<close>

definition phdr_at :: "bytes \<Rightarrow> elf32_ehdr \<Rightarrow> nat \<Rightarrow> elf32_phdr" where
  "phdr_at f eh i = elf_phdr (file_read f (unat (e_phoff eh) + i * unat (e_phentsize eh)) 32)"

lemma phdr_read:
  assumes "elf_table_ok f eh" "length f \<le> lm" "i < unat (e_phnum eh)"
  shows "elf_load_phdr lm f eh i st = elf_load_segment lm f (phdr_at f eh i) st"
proof -
  let ?p = "unat (e_phoff eh) + i * unat (e_phentsize eh)"
  have s: "32 \<le> unat (e_phentsize eh)" "unat (e_phoff eh) \<le> length f"
    "unat (e_phentsize eh) * unat (e_phnum eh) \<le> length f - unat (e_phoff eh)"
    using assms(1) by (simp_all add: elf_table_ok_def word_le_nat_alt)
  have "Suc i * unat (e_phentsize eh) \<le> unat (e_phentsize eh) * unat (e_phnum eh)"
    using assms(3) by (metis Suc_leI mult.commute mult_le_mono2)
  with s have "?p + 32 \<le> length f" by simp
  then show ?thesis
    using assms(2) by (simp add: elf_load_phdr_def read_at_def checked_seek_def file_read_def phdr_at_def)
qed

text \<open>A segment for RAM that the loader accepts although it reaches behind the array.\<close>

definition seg_overruns :: "elf32_phdr \<Rightarrow> bool" where
  "seg_overruns ph \<longleftrightarrow> region_contains 0x20000000 0x82000 (p_vaddr ph) (p_memsz ph) \<and>
     0x42000 < unat (p_vaddr ph - 0x20000000) + unat (p_memsz ph)"

lemma elf_segment_behind:
  assumes "\<not> seg_overruns ph"
  shows "ld_behind (snd (elf_load_segment lm f ph st)) = ld_behind (snd st)"
proof -
  obtain n l where st: "st = (n, l)" by (cases st)
  have "ld_behind (snd (elf_ram_segment lm f ph (n, l))) = ld_behind l"
    if "p_filesz ph \<le> p_memsz ph" "region_contains 0x20000000 0x82000 (p_vaddr ph) (p_memsz ph)"
  proof -
    have "snd (segment_bytes lm f ph (unat (p_vaddr ph - 0x20000000)) (ram_bytes l)) i = ram_bytes l i" if "\<not> i < 0x42000" for i
      using assms \<open>region_contains 0x20000000 0x82000 _ _\<close> that \<open>p_filesz ph \<le> p_memsz ph\<close>
      by (intro segment_bytes_outside) (auto simp: seg_overruns_def)
    then show ?thesis
      by (auto simp: elf_ram_segment_def split_beta Let_def set_ram_bytes_def ram_bytes_def fun_eq_iff)
  qed
  then show ?thesis by (auto simp: elf_load_segment_def elf_flash_segment_def split_beta st)
qed

lemma elf_phdrs_behind:
  assumes "elf_table_ok f eh" "length f \<le> lm" "\<forall>j \<in> set js. j < unat (e_phnum eh) \<and> \<not> seg_overruns (phdr_at f eh j)"
  shows "ld_behind (snd (fold (elf_load_phdr lm f eh) js st)) = ld_behind (snd st)"
  using assms(3) by (induction js arbitrary: st) (simp_all add: phdr_read [OF assms(1,2)] elf_segment_behind)

text \<open>C26. No file makes a loader write outside the 16 MB of flash, and none makes it write outside the 264 KB of
  RAM unless it is an ELF file with a segment for RAM that ends behind them: whatever the bytes are, everything
  else in the memory of the program is kept; such a segment changes nothing from 520 KB on.\<close>

theorem loaders_stay_in_bounds:
  assumes "l' = snd (load_firmware lm path fo l)"
  shows "(\<forall>i \<ge> 0x1000000. ld_flash l' i = ld_flash l i) \<and> (\<forall>i \<ge> 0x42000. ld_ram l' i = ld_ram l i) \<and>
    (\<forall>i \<ge> 0x82000. ld_behind l' i = ld_behind l i) \<and>
    ((\<forall>f j. is_elf_name path \<and> fo = Some f \<and> j < unat (e_phnum (elf_ehdr (take 52 f))) \<longrightarrow>
        \<not> seg_overruns (phdr_at f (elf_ehdr (take 52 f)) j)) \<longrightarrow> ld_behind l' = ld_behind l)"
proof -
  let ?s = "\<lambda>l. \<lparr>blocks_loaded = 0, family_id = 0, family_detected = False, ul_loader = l\<rparr>"
  have u: "same_outside l (snd (load_uf2 fo l))" for l
    using uf2_blocks_stay [of "?s l"] by (auto simp: load_uf2_def Let_def split: option.split)
  have ub: "ld_behind (snd (load_uf2 fo l)) = ld_behind l" for l
    using uf2_blocks_behind [of _ "?s l"] by (auto simp: load_uf2_def Let_def split: option.split)
  have e: "same_outside l (snd (load_elf lm fo l))" for l
    using elf_phdrs_stay [of "(0, l\<lparr>detected_arch := a\<rparr>)" for a]
    by (auto simp: load_elf_def Let_def split_beta same_outside_def split: option.split)
  have eb: "ld_behind (snd (load_elf lm fo l)) = ld_behind l"
    if "\<forall>f j. fo = Some f \<and> j < unat (e_phnum (elf_ehdr (take 52 f))) \<longrightarrow> \<not> seg_overruns (phdr_at f (elf_ehdr (take 52 f)) j)" for l
    using that elf_phdrs_behind by (auto simp: load_elf_def Let_def split_beta not_less split: option.split)
  have "same_outside l l'"
    unfolding assms using u e same_outside_trans [of l "l\<lparr>ld_flash := fill_bytes 0 0x1000000 0xFF (ld_flash l)\<rparr>"]
    by (simp add: load_firmware_def Let_def) (simp add: same_outside_def fill_bytes_outside)
  then show ?thesis
    using ub eb by (auto simp: same_outside_def assms load_firmware_def Let_def)
qed

theorem loaders_stay_in_bounds_witness:
  "let l' = snd (load_firmware 0x7FFFFFFF ''app.uf2'' (Some (uf2_image 0xE48BFF59 0x10FFFF00 0 1 [replicate 256 7])) blank_loader) in
   ld_flash l' 0x1000000 = 0xFF \<and> ld_behind l' = (\<lambda>_. 0)"
proof -
  have n: "\<not> is_elf_name ''app.uf2''" by code_simp
  show ?thesis
    using loaders_stay_in_bounds [OF refl, of "0x7FFFFFFF" "''app.uf2''" "Some (uf2_image 0xE48BFF59 0x10FFFF00 0 1 [replicate 256 7])" blank_loader]
    by (simp add: n blank_loader_def Let_def)
qed

section \<open>ELF segments\<close>

text \<open>The byte at an address of flash or RAM.\<close>

definition ld_byte :: "loader \<Rightarrow> nat \<Rightarrow> u8 option" where
  "ld_byte l a =
     (if 0x10000000 \<le> a \<and> a < 0x11000000 then Some (ld_flash l (a - 0x10000000))
      else if 0x20000000 \<le> a \<and> a < 0x20042000 then Some (ld_ram l (a - 0x20000000))
      else None)"

text \<open>The addresses a segment may write: its memory, and the flash that RAM is initialised from.\<close>

definition seg_touches :: "elf32_phdr \<Rightarrow> nat \<Rightarrow> bool" where
  "seg_touches ph a \<longleftrightarrow> p_type ph = 1 \<and>
     (unat (p_vaddr ph) \<le> a \<and> a < unat (p_vaddr ph) + unat (p_memsz ph) \<or>
      unat (p_paddr ph) \<le> a \<and> a < unat (p_paddr ph) + unat (p_filesz ph))"

text \<open>A segment that the file holds and that fits one of the memories.\<close>

definition seg_fits :: "bytes \<Rightarrow> elf32_phdr \<Rightarrow> bool" where
  "seg_fits f ph \<longleftrightarrow> p_type ph = 1 \<and> p_filesz ph \<le> p_memsz ph \<and> unat (p_offset ph) + unat (p_filesz ph) \<le> length f \<and>
     (region_contains 0x10000000 0x1000000 (p_vaddr ph) (p_memsz ph) \<or> region_contains 0x20000000 0x42000 (p_vaddr ph) (p_memsz ph))"

lemma region_mono: "region_contains start region addr sz \<Longrightarrow> region \<le> region' \<Longrightarrow> region_contains start region' addr sz"
  by (auto simp: region_contains_def word_le_nat_alt unat_sub)

lemma region_addr:
  assumes "region_contains start region addr sz"
  shows "unat addr = unat start + unat (addr - start)"
  using assms by (simp add: region_contains_def unat_sub word_le_nat_alt)

lemma segment_bytes_inside:
  assumes "p_filesz ph \<le> p_memsz ph" "unat (p_offset ph) + unat (p_filesz ph) \<le> length f" "length f \<le> lm" "k < unat (p_memsz ph)"
  shows "snd (segment_bytes lm f ph start m) (start + k) = (if k < unat (p_filesz ph) then f ! (unat (p_offset ph) + k) else 0)"
proof -
  have n: "length (file_read f (unat (p_offset ph)) (unat (p_filesz ph))) = unat (p_filesz ph)"
    using assms(2) by (simp add: file_read_def)
  have "k < unat (p_filesz ph) \<Longrightarrow> file_read f (unat (p_offset ph)) (unat (p_filesz ph)) ! k = f ! (unat (p_offset ph) + k)"
    using assms(2) by (simp add: file_read_def)
  then show ?thesis
    using assms n
    by (auto simp: segment_bytes_def Let_def checked_seek_def put_bytes_inside put_bytes_outside fill_bytes_inside word_le_nat_alt
        unat_eq_zero)
qed

lemma segment_bytes_fst:
  "unat (p_offset ph) \<le> lm \<Longrightarrow> fst (segment_bytes lm f ph start m)"
  by (simp add: segment_bytes_def Let_def checked_seek_def)

lemma seg_loads:
  assumes "seg_fits f ph" "length f \<le> lm" "k < unat (p_memsz ph)"
  shows "ld_byte (snd (elf_load_segment lm f ph st)) (unat (p_vaddr ph) + k) =
    Some (if k < unat (p_filesz ph) then f ! (unat (p_offset ph) + k) else 0)"
proof -
  obtain n l where st: "st = (n, l)" by (cases st)
  note fits = assms(1) [unfolded seg_fits_def]
  have c: "unat (p_offset ph) \<le> lm" "\<not> unat (p_offset ph) > length f" "\<not> unat (p_filesz ph) > length f - unat (p_offset ph)"
    "\<not> p_filesz ph > p_memsz ph"
    using fits assms(2) by auto
  note bytes = segment_bytes_inside [OF _ _ assms(2,3), of "unat (p_vaddr ph - b)" for b]
  consider (flash) "region_contains 0x10000000 0x1000000 (p_vaddr ph) (p_memsz ph)"
    | (ram) "\<not> region_contains 0x10000000 0x1000000 (p_vaddr ph) (p_memsz ph)"
        "region_contains 0x20000000 0x42000 (p_vaddr ph) (p_memsz ph)"
    using fits by blast
  then show ?thesis
  proof cases
    case flash
    with c fits have "elf_load_segment lm f ph st = elf_flash_segment lm f ph st" by (simp add: elf_load_segment_def)
    then show ?thesis
      using region_addr [OF flash] region_bound [OF flash] assms(3) bytes fits
      by (simp add: elf_flash_segment_def st ld_byte_def split_beta)
  next
    case ram
    with c fits region_mono [OF ram(2), of "0x82000"] have "elf_load_segment lm f ph st = elf_ram_segment lm f ph st"
      by (simp add: elf_load_segment_def)
    then show ?thesis
      using region_addr [OF ram(2)] region_bound [OF ram(2)] assms(3) bytes fits segment_bytes_fst [OF c(1)]
      by (simp add: elf_ram_segment_def st ld_byte_def set_ram_bytes_def split_beta Let_def)
  qed
qed

lemma seg_keeps:
  assumes "\<not> seg_touches ph a"
  shows "ld_byte (snd (elf_load_segment lm f ph st)) a = ld_byte (snd st) a"
proof -
  obtain n l where st: "st = (n, l)" by (cases st)
  consider "elf_load_segment lm f ph st = st"
    | (flash) "p_type ph = 1" "p_filesz ph \<le> p_memsz ph" "region_contains 0x10000000 0x1000000 (p_vaddr ph) (p_memsz ph)"
        "elf_load_segment lm f ph st = elf_flash_segment lm f ph st"
    | (ram) "p_type ph = 1" "p_filesz ph \<le> p_memsz ph" "region_contains 0x20000000 0x82000 (p_vaddr ph) (p_memsz ph)"
        "elf_load_segment lm f ph st = elf_ram_segment lm f ph st"
    by (metis elf_load_segment_def not_less)
  then show ?thesis
  proof cases
    case flash
    have "0x10000000 \<le> a \<Longrightarrow> snd (segment_bytes lm f ph (unat (p_vaddr ph - 0x10000000)) m) (a - 0x10000000) = m (a - 0x10000000)" for m
      using region_addr [OF flash(3)] assms flash(1) by (intro segment_bytes_outside [OF flash(2)]) (auto simp: seg_touches_def)
    then show ?thesis unfolding flash(4) by (simp add: elf_flash_segment_def st ld_byte_def split_beta)
  next
    case ram
    have r: "0x20000000 \<le> a \<Longrightarrow> snd (segment_bytes lm f ph (unat (p_vaddr ph - 0x20000000)) m) (a - 0x20000000) = m (a - 0x20000000)" for m
      using region_addr [OF ram(3)] assms ram(1) by (intro segment_bytes_outside [OF ram(2)]) (auto simp: seg_touches_def)
    have p: "put_bytes (unat (p_paddr ph - 0x10000000)) (file_read f pos (unat (p_filesz ph))) m (a - 0x10000000) = m (a - 0x10000000)"
      if "region_contains 0x10000000 0x1000000 (p_paddr ph) (p_filesz ph)" "0x10000000 \<le> a" for pos m
      using region_addr [OF that(1)] assms ram(1) that(2) length_file_read [of f pos "unat (p_filesz ph)"]
      by (intro put_bytes_outside) (auto simp: seg_touches_def)
    show ?thesis using r p unfolding ram(4)
      by (simp add: elf_ram_segment_def st ld_byte_def set_ram_bytes_def ram_bytes_def split_beta Let_def)
  qed simp
qed

lemma phdrs_keep:
  assumes "elf_table_ok f eh" "length f \<le> lm" "\<forall>j \<in> set js. j < unat (e_phnum eh) \<and> \<not> seg_touches (phdr_at f eh j) a"
  shows "ld_byte (snd (fold (elf_load_phdr lm f eh) js st)) a = ld_byte (snd st) a"
  using assms(3) by (induction js arbitrary: st) (simp_all add: phdr_read [OF assms(1,2)] seg_keeps)

lemma load_elf_accepted:
  assumes "52 \<le> length f" "length f \<le> lm" "elf_header_ok (elf_ehdr (take 52 f))" "elf_table_ok f (elf_ehdr (take 52 f))"
  shows "\<exists>a. snd (load_elf lm (Some f) l) = snd (fold (elf_load_phdr lm f (elf_ehdr (take 52 f)))
    [0..<unat (e_phnum (elf_ehdr (take 52 f)))] (0, l\<lparr>detected_arch := a\<rparr>))"
  using assms by (auto simp: load_elf_def Let_def split_beta not_less)

text \<open>C25. A segment of a valid ELF file that fits a memory is there after loading: its bytes from the file,
  then zeros, at its address, unless a later segment covers the same addresses. The memories are the 16 MB of
  flash and the 264 KB of RAM, and no segment of the file may reach behind the RAM.\<close>

theorem elf_loads_segments:
  assumes "52 \<le> length f" "length f \<le> lm" "eh = elf_ehdr (take 52 f)" "elf_header_ok eh" "elf_table_ok f eh"
    and "i < unat (e_phnum eh)" "ph = phdr_at f eh i" "seg_fits f ph" "k < unat (p_memsz ph)"
    and "\<forall>j. i < j \<and> j < unat (e_phnum eh) \<longrightarrow> \<not> seg_touches (phdr_at f eh j) (unat (p_vaddr ph) + k)"
    and "\<forall>j < unat (e_phnum eh). \<not> seg_overruns (phdr_at f eh j)"
  shows "ld_byte (snd (load_elf lm (Some f) l)) (unat (p_vaddr ph) + k) =
    Some (if k < unat (p_filesz ph) then f ! (unat (p_offset ph) + k) else 0)"
proof -
  let ?n = "unat (e_phnum eh)" and ?a = "unat (p_vaddr ph) + k"
  obtain a where l: "snd (load_elf lm (Some f) l) = snd (fold (elf_load_phdr lm f eh) [0..<?n] (0, l\<lparr>detected_arch := a\<rparr>))"
    using load_elf_accepted [of f lm l] assms(1-5) by auto
  define st where "st = fold (elf_load_phdr lm f eh) [0..<i] (0, l\<lparr>detected_arch := a\<rparr>)"
  have "[0..<?n] = [0..<i] @ i # [Suc i..<?n]"
    using assms(6) by (metis le_add_same_cancel1 less_imp_add_positive upt_add_eq_append upt_conv_Cons zero_le)
  then have "ld_byte (snd (load_elf lm (Some f) l)) ?a = ld_byte (snd (fold (elf_load_phdr lm f eh) [Suc i..<?n] (elf_load_phdr lm f eh i st))) ?a"
    by (simp add: l st_def)
  also have "\<dots> = ld_byte (snd (elf_load_phdr lm f eh i st)) ?a"
    using assms(10) by (intro phdrs_keep [OF assms(5,2)]) auto
  also have "\<dots> = Some (if k < unat (p_filesz ph) then f ! (unat (p_offset ph) + k) else 0)"
    using phdr_read [OF assms(5,2,6)] seg_loads [OF assms(8,2,9)] by (simp add: assms(7))
  finally show ?thesis .
qed

text \<open>A smallest ELF file for the witness: one segment of four bytes of the file and four zeros, at the start
  of flash.\<close>

definition bytes16 :: "u16 \<Rightarrow> u8 list" where
  "bytes16 v = [ucast v, ucast (shr v 8)]"

definition tiny_elf :: bytes where
  "tiny_elf =
     [0x7F, 0x45, 0x4C, 0x46, 1, 1] @ replicate 10 0 @ bytes16 2 @ bytes16 243 @ bytes32 1 @ bytes32 0x10000000 @
     bytes32 52 @ bytes32 0 @ bytes32 0 @ bytes16 52 @ bytes16 32 @ bytes16 1 @ bytes16 0 @ bytes16 0 @ bytes16 0 @
     bytes32 1 @ bytes32 84 @ bytes32 0x10000000 @ bytes32 0x10000000 @ bytes32 4 @ bytes32 8 @ bytes32 5 @ bytes32 4 @
     [0xAA, 0xBB, 0xCC, 0xDD]"

lemma tiny_elf_header:
  "elf_header_ok (elf_ehdr (take 52 tiny_elf))" "elf_table_ok tiny_elf (elf_ehdr (take 52 tiny_elf))"
  "e_phnum (elf_ehdr (take 52 tiny_elf)) = 1"
  "phdr_at tiny_elf (elf_ehdr (take 52 tiny_elf)) 0 =
     \<lparr>p_type = 1, p_offset = 84, p_vaddr = 0x10000000, p_paddr = 0x10000000, p_filesz = 4, p_memsz = 8\<rparr>"
  by (code_simp)+

lemma tiny_byte: "tiny_elf ! 86 = 0xCC"
  by code_simp

theorem elf_loads_segments_witness:
  "ld_byte (snd (load_elf 0x7FFFFFFF (Some tiny_elf) blank_loader)) 0x10000002 = Some 0xCC \<and>
   ld_byte (snd (load_elf 0x7FFFFFFF (Some tiny_elf) blank_loader)) 0x10000006 = Some 0"
proof -
  let ?ph = "\<lparr>p_type = 1, p_offset = 84, p_vaddr = 0x10000000, p_paddr = 0x10000000, p_filesz = 4, p_memsz = 8\<rparr> :: elf32_phdr"
  have n: "length tiny_elf = 88" by (simp add: tiny_elf_def bytes32_def bytes16_def)
  have fits: "seg_fits tiny_elf ?ph" by (simp add: seg_fits_def n region_contains_def)
  have "ld_byte (snd (load_elf 0x7FFFFFFF (Some tiny_elf) blank_loader)) (unat (p_vaddr ?ph) + k) =
      Some (if k < unat (p_filesz ?ph) then tiny_elf ! (unat (p_offset ?ph) + k) else 0)" if "k < 8" for k
    by (rule elf_loads_segments [where f = tiny_elf and lm = "0x7FFFFFFF" and eh = "elf_ehdr (take 52 tiny_elf)" and i = 0])
      (simp_all add: n fits tiny_elf_header that seg_overruns_def region_contains_def)
  from this [of 2] this [of 6] show ?thesis by (simp add: tiny_byte)
qed

section \<open>Boot blocks round trip\<close>

text \<open>An item of a boot block: its type, its flags and the words that follow its header.\<close>

record pico_item =
  pi_type :: u8
  pi_flags :: u16
  pi_words :: "u32 list"

definition item_words :: "pico_item \<Rightarrow> u32 list" where
  "item_words it =
     (ucast (pi_type it) OR shl (of_nat (length (pi_words it) + 1)) 8 OR shl (ucast (pi_flags it)) 16) # pi_words it"

definition item_ok :: "pico_item \<Rightarrow> bool" where
  "item_ok it \<longleftrightarrow> pi_type it \<noteq> 0xFF \<and> length (pi_words it) < 255"

text \<open>What the items of a block say, without positions in flash.\<close>

definition item_effect :: "pico_item \<Rightarrow> picobin_info \<Rightarrow> picobin_info" where
  "item_effect it info =
     (if pi_type it = 0x42 \<and> bit (pi_flags it) 0 then
        info\<lparr>is_riscv := (shr (pi_flags it) 8 AND 7 = 1), is_arm := (shr (pi_flags it) 8 AND 7 = 0),
             is_rp2350 := (shr (pi_flags it) 12 AND 7 = 1)\<rparr>
      else if pi_type it = 0x44 \<and> length (pi_words it) \<ge> 2 then info\<lparr>entry_pc := pi_words it ! 0, entry_sp := pi_words it ! 1\<rparr>
      else if pi_type it = 0x03 \<and> pi_words it \<noteq> [] then info\<lparr>pb_vtor := pi_words it ! 0\<rparr>
      else info)"

definition words_from :: "(nat \<Rightarrow> u8) \<Rightarrow> nat \<Rightarrow> u32 list \<Rightarrow> bool" where
  "words_from flash pos ws \<longleftrightarrow> (\<forall>k < length ws. rd32 flash (pos + 4 * k) = ws ! k)"

lemma all_less_add: "(\<forall>k < a + b. P k) \<longleftrightarrow> (\<forall>k < a. P k) \<and> (\<forall>k < b. P (a + k))" for a b :: nat
  by (induction b) (auto simp: less_Suc_eq)

lemma words_from_append:
  "words_from flash pos (xs @ ys) \<longleftrightarrow> words_from flash pos xs \<and> words_from flash (pos + 4 * length xs) ys"
proof -
  have "(\<forall>k < length xs + length ys. rd32 flash (pos + 4 * k) = (xs @ ys) ! k) \<longleftrightarrow>
    (\<forall>k < length xs. rd32 flash (pos + 4 * k) = xs ! k) \<and> (\<forall>k < length ys. rd32 flash (pos + 4 * (length xs + k)) = ys ! k)"
    unfolding all_less_add by (simp add: nth_append)
  then show ?thesis by (simp add: words_from_def add_mult_distrib2 add.assoc)
qed

lemma words_from_Cons: "words_from flash pos (w # ws) \<longleftrightarrow> rd32 flash pos = w \<and> words_from flash (pos + 4) ws"
  using words_from_append [of flash pos "[w]" ws] by (simp add: words_from_def)

lemma pack_fields:
  fixes t :: u8 and n :: u32 and fl :: u16
  assumes "n < 2 ^ 8"
  defines "w \<equiv> ucast t OR shl n 8 OR shl (ucast fl) 16"
  shows "w AND 0xFF = ucast t" "shr w 8 AND 0xFF = n" "shr w 16 = ucast fl"
proof -
  have "take_bit 8 n = n" using assms(1) by (simp add: less_mask_eq take_bit_eq_mask)
  then have n: "bit n i \<Longrightarrow> i < 8" for i by (metis bit_take_bit_iff)
  have t: "bit t i \<Longrightarrow> i < 8" for i using bit_imp_le_length [of t i] by simp
  show "w AND 0xFF = ucast t" unfolding w_def numeral_masks by (rule bit_word_eqI) (use t in \<open>auto simp: bit_simps\<close>)
  show "shr w 8 AND 0xFF = n"
    unfolding w_def numeral_masks by (rule bit_word_eqI) (auto simp: bit_simps dest: n t)
  have f: "bit fl i \<Longrightarrow> i < 16" for i using bit_imp_le_length [of fl i] by simp
  show "shr w 16 = ucast fl" unfolding w_def by (rule bit_word_eqI) (auto simp: bit_simps dest: n t f)
qed

lemma item_header:
  assumes "length (pi_words it) < 255"
  defines "w \<equiv> ucast (pi_type it) OR shl (of_nat (length (pi_words it) + 1)) 8 OR shl (ucast (pi_flags it)) 16 :: u32"
  shows "w AND 0xFF = ucast (pi_type it)" "shr w 8 AND 0xFF = of_nat (length (pi_words it) + 1)" "shr w 16 = ucast (pi_flags it)"
proof -
  let ?n = "of_nat (length (pi_words it) + 1) :: u32"
  have "unat ?n = length (pi_words it) + 1" using assms(1) by (intro unat_of_nat_lt) simp
  then have "?n < 2 ^ 8" using assms(1) by (simp only: word_less_nat_alt) simp
  from pack_fields [OF this, of "pi_type it" "pi_flags it"]
  show "w AND 0xFF = ucast (pi_type it)" "shr w 8 AND 0xFF = ?n" "shr w 16 = ucast (pi_flags it)"
    unfolding w_def by blast+
qed

lemma ucast_eq_small:
  "(ucast (t :: u8) = (0x42 :: u32)) = (t = 0x42)" "(ucast t = (0x44 :: u32)) = (t = 0x44)" "(ucast t = (3 :: u32)) = (t = 3)"
  "(ucast t = (0xFF :: u32)) = (t = 0xFF)"
  using ucast_down_up [of t, where 'a = 32] by (auto dest: arg_cong [of _ _ "\<lambda>x. ucast x :: u8"])

lemma flag_field:
  "(shr (ucast (fl :: u16) :: u32) n AND 7 = 1) = (shr fl n AND 7 = 1)" "(shr (ucast fl :: u32) n AND 7 = 0) = (shr fl n AND 7 = 0)"
proof -
  have e: "shr (ucast fl :: u32) n AND 7 = ucast (shr fl n AND 7)"
    by (rule bit_word_eqI) (auto simp: bit_simps dest: bit_imp_le_length)
  show "(shr (ucast fl :: u32) n AND 7 = 1) = (shr fl n AND 7 = 1)" "(shr (ucast fl :: u32) n AND 7 = 0) = (shr fl n AND 7 = 0)"
    unfolding e using ucast_down_up [of "shr fl n AND 7", where 'a = 32]
    by (auto dest: arg_cong [of _ _ "\<lambda>x. ucast x :: u16"])
qed

lemma picobin_item_effect:
  assumes "item_ok it" "words_from flash pos (item_words it)" "pos + 4 * length (item_words it) \<le> scan_size"
  shows "picobin_item flash scan_size pos info = item_effect it info"
proof -
  have l: "length (pi_words it) < 255" using assms(1) by (simp add: item_ok_def)
  note h = item_header [OF l]
  have w: "rd32 flash pos = ucast (pi_type it) OR shl (of_nat (length (pi_words it) + 1)) 8 OR shl (ucast (pi_flags it)) 16"
    and ws: "words_from flash (pos + 4) (pi_words it)"
    using assms(2) by (simp_all only: item_words_def words_from_Cons)
  have n: "unat (of_nat (length (pi_words it) + 1) :: u32) = length (pi_words it) + 1" using l by (intro unat_of_nat_lt) simp
  have sz: "(of_nat (length (pi_words it) + 1) \<ge> (3 :: u32)) = (length (pi_words it) \<ge> 2)"
    "(of_nat (length (pi_words it) + 1) \<ge> (2 :: u32)) = (pi_words it \<noteq> [])"
    unfolding word_le_nat_alt n by (auto simp: Suc_le_eq)
  have e: "length (pi_words it) \<ge> 2 \<Longrightarrow> pos + 12 \<le> scan_size \<and> rd32 flash (pos + 4) = pi_words it ! 0 \<and> rd32 flash (pos + 8) = pi_words it ! 1"
    using ws [unfolded words_from_def, rule_format, of 0] ws [unfolded words_from_def, rule_format, of 1] assms(3)
    by (cases "pi_words it"; cases "tl (pi_words it)") (simp_all add: item_words_def add.assoc)
  have v: "pi_words it \<noteq> [] \<Longrightarrow> pos + 8 \<le> scan_size \<and> rd32 flash (pos + 4) = pi_words it ! 0"
    using ws [unfolded words_from_def, rule_format, of 0] assms(3) by (cases "pi_words it") (simp_all add: item_words_def)
  have b: "bit (ucast (pi_flags it) :: u32) 0 = bit (pi_flags it) 0" by (simp add: bit_simps)
  show ?thesis
    unfolding picobin_item_def item_effect_def Let_def w h sz ucast_eq_small flag_field b
    using e v by simp
qed

lemma picobin_items_effect:
  assumes "\<forall>it \<in> set items. item_ok it" "words_from flash pos (concat (map item_words items) @ [lst])" "lst AND 0xFF = 0xFF"
    "pos + 4 * length (concat (map item_words items) @ [lst]) \<le> scan_size"
  shows "picobin_items flash scan_size pos info = (fold item_effect items info)\<lparr>pb_found := True\<rparr>"
  using assms(1,2,4)
proof (induction items arbitrary: pos info)
  case Nil
  then show ?case using assms(3) by (simp add: picobin_items.simps [of flash scan_size pos] words_from_def)
next
  case (Cons it items)
  have l: "item_ok it" "length (pi_words it) < 255" using Cons.prems(1) by (simp_all add: item_ok_def)
  note h = item_header [OF l(2)]
  have it: "words_from flash pos (item_words it)"
    and rest: "words_from flash (pos + 4 * length (item_words it)) (concat (map item_words items) @ [lst])"
    using Cons.prems(2) by (simp_all add: words_from_append)
  have w: "rd32 flash pos = ucast (pi_type it) OR shl (of_nat (length (pi_words it) + 1)) 8 OR shl (ucast (pi_flags it)) 16"
    using it by (simp only: item_words_def words_from_Cons)
  have n: "unat (of_nat (length (pi_words it) + 1) :: u32) = length (item_words it)"
    using l(2) unat_of_nat_lt [of "length (pi_words it) + 1", where 'a = 32] by (simp add: item_words_def)
  have "picobin_items flash scan_size pos info = picobin_items flash scan_size (pos + length (item_words it) * 4) (item_effect it info)"
    using l(1) Cons.prems(3) picobin_item_effect [OF l(1) it, of scan_size info]
    by (subst picobin_items.simps) (simp only: w h n ucast_eq_small Let_def, simp add: item_ok_def item_words_def)
  also have "\<dots> = (fold item_effect items (item_effect it info))\<lparr>pb_found := True\<rparr>"
    using Cons.prems rest by (intro Cons.IH) (simp_all add: mult.commute)
  finally show ?case by simp
qed

lemma picobin_skip:
  assumes "\<forall>k < n. rd32 flash (pos + 4 * k) \<noteq> 0xFFFFDED3" "pos + 4 * n + 8 \<le> scan_size"
  shows "picobin_blocks flash scan_size pos info = picobin_blocks flash scan_size (pos + 4 * n) info"
  using assms
proof (induction n arbitrary: pos)
  case (Suc n)
  have "rd32 flash (pos + 4 + 4 * k) \<noteq> 0xFFFFDED3" if "k < n" for k
    using Suc.prems(1) [rule_format, of "Suc k"] that by (simp add: add.assoc)
  with Suc show ?case
    using Suc.prems(1) [rule_format, of 0] by (subst picobin_blocks.simps) (simp add: add.assoc)
qed simp

text \<open>The scan finds the boot block: if flash holds, at an aligned position before which there is no
  marker, a block of any items and the closing item, the result is what the items say, in their order.\<close>

theorem picobin_round_trip:
  assumes "\<forall>it \<in> set items. item_ok it" "lst AND 0xFF = 0xFF"
    and "\<forall>k < n. rd32 flash (4 * k) \<noteq> 0xFFFFDED3"
    and "words_from flash (4 * n) (0xFFFFDED3 # concat (map item_words items) @ [lst])"
    and "4 * n + 4 * length (0xFFFFDED3 # concat (map item_words items) @ [lst]) \<le> scan_size"
  shows "picobin_scan flash scan_size = (fold item_effect items picobin_zero)\<lparr>pb_found := True\<rparr>"
proof -
  have m: "rd32 flash (4 * n) = 0xFFFFDED3" "words_from flash (4 * n + 4) (concat (map item_words items) @ [lst])"
    using assms(4) by (simp_all add: words_from_Cons)
  have "picobin_scan flash scan_size = picobin_blocks flash scan_size (4 * n) picobin_zero"
    using assms(5) picobin_skip [of n flash 0 scan_size picobin_zero] assms(3) by (simp add: picobin_scan_def)
  also have "\<dots> = (fold item_effect items picobin_zero)\<lparr>pb_found := True\<rparr>"
    using picobin_items_effect [OF assms(1) m(2) assms(2)] assms(5) m(1)
    by (subst picobin_blocks.simps) (simp add: Let_def)
  finally show ?thesis .
qed

definition pico_flash :: "nat \<Rightarrow> u8" where
  "pico_flash = wr32 (wr32 (wr32 (wr32 (wr32 (wr32 (\<lambda>_. 0xFF) 4 0xFFFFDED3) 8 0x11010142) 12 0x344) 16 0x10000001) 20 0x20082000) 24 0x2FF"

theorem picobin_round_trip_witness:
  "picobin_scan pico_flash 4096 =
    \<lparr>pb_found = True, is_riscv = True, is_arm = False, is_rp2350 = True, entry_pc = 0x10000001, entry_sp = 0x20082000, pb_vtor = 0\<rparr>"
proof -
  let ?items = "[\<lparr>pi_type = 0x42, pi_flags = 0x1101, pi_words = []\<rparr>, \<lparr>pi_type = 0x44, pi_flags = 0, pi_words = [0x10000001, 0x20082000]\<rparr>]"
  have "rd32 pico_flash 0 \<noteq> 0xFFFFDED3" "rd32 pico_flash 4 = 0xFFFFDED3" "rd32 pico_flash 8 = 0x11010142" "rd32 pico_flash 12 = 0x344"
    "rd32 pico_flash 16 = 0x10000001" "rd32 pico_flash 20 = 0x20082000" "rd32 pico_flash 24 = 0x2FF"
    by (simp_all add: pico_flash_def rd32_wr32_other) (simp add: rd32_def)
  then have "picobin_scan pico_flash 4096 = (fold item_effect ?items picobin_zero)\<lparr>pb_found := True\<rparr>"
    by (intro picobin_round_trip [of _ "0x2FF" 1]) (simp_all add: item_ok_def item_words_def words_from_Cons, simp add: words_from_def)
  then show ?thesis by (simp add: item_effect_def picobin_zero_def)
qed

section \<open>Restoring the saved flash\<close>

lemma restore_sectors_other: "i \<notin> set js \<Longrightarrow> restore_sectors fw f js flash (i * 4096 + j) = flash (i * 4096 + j)" if "j < 4096"
proof (induction js arbitrary: flash)
  case (Cons k js)
  have "put_bytes (k * 4096) (file_read f (k * 4096) 4096) flash (i * 4096 + j) = flash (i * 4096 + j)"
    using Cons.prems that length_file_read [of f "k * 4096" 4096] by (intro put_bytes_outside) auto
  then show ?case using Cons by (simp add: Let_def)
qed simp

lemma restore_sectors_exact:
  assumes "j < 4096" "a \<le> i" "i < b"
  shows "restore_sectors fw f [a..<b] flash (i * 4096 + j) =
    (if fw i \<or> length f < (i + 1) * 4096 then flash (i * 4096 + j) else f ! (i * 4096 + j))"
  using assms(2,3)
proof (induction "b - a" arbitrary: a flash)
  case (Suc n)
  have u: "[a..<b] = a # [Suc a..<b]" using Suc by (simp add: upt_conv_Cons)
  have l: "length (file_read f (a * 4096) 4096) < 4096 \<longleftrightarrow> length f < (a + 1) * 4096" by (auto simp: file_read_def)
  show ?case
  proof (cases "a = i")
    case True
    have "restore_sectors fw f [Suc a..<b] m (i * 4096 + j) = m (i * 4096 + j)" for m
      using True by (intro restore_sectors_other [OF assms(1)]) simp
    moreover have "file_read f (a * 4096) 4096 ! j = f ! (a * 4096 + j)" if "(a + 1) * 4096 \<le> length f"
      using that assms(1) by (simp add: file_read_def)
    ultimately show ?thesis
      using True l assms(1) by (auto simp: u [unfolded True] Let_def put_bytes_def file_read_def)
  next
    case False
    then have s: "Suc a \<le> i" "n = b - Suc a" using Suc by auto
    have p: "put_bytes (a * 4096) (file_read f (a * 4096) 4096) flash (i * 4096 + j) = flash (i * 4096 + j)"
      using s(1) length_file_read [of f "a * 4096" 4096] by (intro put_bytes_outside) auto
    show ?thesis
      using Suc.hyps(1) [OF s(2,1) Suc.prems(2), of "if fw a then flash else put_bytes (a * 4096) (file_read f (a * 4096) 4096) flash"] l p s(1)
      by (cases "length f < (a + 1) * 4096") (simp_all add: u Let_def)
  qed
qed simp

text \<open>Restoring the saved flash keeps the firmware: in the first 2 MB a sector that holds firmware stays
  as it was loaded, and every other sector is that of the file, as far as the file has it in full.\<close>

theorem restore_flash_exact:
  assumes "i < 512" "j < 4096"
  shows "ld_flash (restore_flash (Some f) l) (i * 4096 + j) =
    (if fw_sector (ld_flash l) i \<or> length f < (i + 1) * 4096 then ld_flash l (i * 4096 + j) else f ! (i * 4096 + j))"
  using restore_sectors_exact [OF assms(2), of 0 i 512] assms(1) by (simp add: restore_flash_def)

theorem restore_flash_witness:
  "ld_flash (restore_flash (Some (replicate 4096 7)) blank_loader) 5 = 7 \<and>
   ld_flash (restore_flash (Some (replicate 4096 7)) (blank_loader\<lparr>ld_flash := (\<lambda>_. 0xFF)(0 := 1)\<rparr>)) 5 = 0xFF"
proof -
  have "\<not> fw_sector (ld_flash blank_loader) 0" by (simp add: fw_sector_def blank_loader_def)
  moreover have "fw_sector ((\<lambda>_. 0xFF)(0 := 1)) 0" unfolding fw_sector_def by (rule bexI [of _ 0]) simp_all
  ultimately show ?thesis
    using restore_flash_exact [of 0 5 "replicate 4096 7" blank_loader]
      restore_flash_exact [of 0 5 "replicate 4096 7" "blank_loader\<lparr>ld_flash := (\<lambda>_. 0xFF)(0 := 1)\<rparr>"]
    by simp
qed

section \<open>Deviations\<close>

text \<open>The ELF loader takes RAM segments of up to 520 KB, but the array behind it has 264 KB: an accepted segment
  writes over what follows in the structure of the CPU.\<close>

lemma elf_overruns_ram:
  assumes "p_type ph = 1" "p_vaddr ph = 0x20042000" "p_memsz ph = 4" "p_filesz ph = 0" "p_paddr ph = 0x20042000"
    "unat (p_offset ph) \<le> length f" "k < 4"
  shows "ld_behind (snd (elf_load_segment lm f ph (n, l))) (0x42000 + k) = 0"
  using assms
  by (simp add: elf_load_segment_def region_contains_def elf_ram_segment_def segment_bytes_def fill_bytes_def set_ram_bytes_def)

text \<open>A UF2 file without family says nothing of the architecture; what an earlier file left stays, although the
  program reports that it assumes the RP2040.\<close>

lemma uf2_without_family:
  assumes "\<not> bit (ub_flags b) 13"
  shows "detected_arch (ul_loader (uf2_load_block b s)) = detected_arch (ul_loader s)"
  using assms by (simp add: uf2_load_block_def uf2_family_def Let_def split: option.split)

text \<open>A padding block without the family flag is written like any other.\<close>

lemma uf2_pad_written:
  assumes "uf2_magic_ok b" "\<not> bit (ub_flags b) 13" "target_addr b = 0x10FFFF00" "payload_size b = 256" "ub_data b = x # xs"
  shows "ld_flash (ul_loader (uf2_load_block b s)) 0xFFFF00 = x"
  using assms by (simp add: uf2_load_block_def uf2_family_def uf2_block_flash_offset_def put_bytes_def)

end
