(* ===== verification/Rom.thy ===== *)
theory Rom
  imports System
begin

text \<open>
  The boot ROM of the Arm cores, \<^verbatim>\<open>src/rom.c\<close>: the image with its tables and its Thumb routines, the changes
  to it for the RP2350, and the calls that the emulator performs itself when a core reaches their stubs
  (floating point, flash programming, system information, reboot). The arithmetic of the host's floating point,
  the file that mirrors flash and the request to end the program are parameters. The routines of the image are
  run by the model of the processor.
\<close>

section \<open>The image\<close>

definition rom_write16 :: "nat \<Rightarrow> u16 \<Rightarrow> (nat \<Rightarrow> u8) \<Rightarrow> nat \<Rightarrow> u8" where
  "rom_write16 offset val rom = wr16 rom offset val"

text \<open>Consecutive halfwords.\<close>

fun rom_halves :: "nat \<Rightarrow> u16 list \<Rightarrow> (nat \<Rightarrow> u8) \<Rightarrow> nat \<Rightarrow> u8" where
  "rom_halves offset [] rom = rom"
| "rom_halves offset (h # hs) rom = rom_halves (offset + 2) hs (rom_write16 offset h rom)"

definition rom_place_lookup_fn :: "(nat \<Rightarrow> u8) \<Rightarrow> nat \<Rightarrow> u8" where
  "rom_place_lookup_fn = rom_halves 0x200
     [0x8802, 0x2A00, 0xD005, 0x428A, 0xD001, 0x3004, 0xE7F8, 0x8840, 0x4770, 0x2000, 0x4770]"

definition rom_place_memcpy :: "(nat \<Rightarrow> u8) \<Rightarrow> nat \<Rightarrow> u8" where
  "rom_place_memcpy = rom_halves 0x300
     [0xB510, 0x0003, 0x2A00, 0xDD05, 0x780C, 0x701C, 0x3301, 0x3101, 0x3A01, 0xDCF9, 0xBD10]"

definition rom_place_memset :: "(nat \<Rightarrow> u8) \<Rightarrow> nat \<Rightarrow> u8" where
  "rom_place_memset = rom_halves 0x320 [0x0003, 0x2A00, 0xDD03, 0x7019, 0x3301, 0x3A01, 0xDCFB, 0x4770]"

definition rom_place_popcount :: "(nat \<Rightarrow> u8) \<Rightarrow> nat \<Rightarrow> u8" where
  "rom_place_popcount = rom_halves 0x340
     [0x2100, 0x2800, 0xD004, 0x0002, 0x3A01, 0x4010, 0x3101, 0xE7F8, 0x0008, 0x4770]"

definition rom_place_clz :: "(nat \<Rightarrow> u8) \<Rightarrow> nat \<Rightarrow> u8" where
  "rom_place_clz = rom_halves 0x360
     [0x2100, 0x2800, 0xD005, 0x0040, 0xD201, 0x3101, 0xE7FB, 0x0008, 0x4770, 0x2020, 0x4770]"

definition rom_place_ctz :: "(nat \<Rightarrow> u8) \<Rightarrow> nat \<Rightarrow> u8" where
  "rom_place_ctz = rom_halves 0x380
     [0x2100, 0x2800, 0xD007, 0x2201, 0x4210, 0xD102, 0x0840, 0x3101, 0xE7F9, 0x0008, 0x4770, 0x2020, 0x4770]"

definition rom_place_reverse_stub :: "(nat \<Rightarrow> u8) \<Rightarrow> nat \<Rightarrow> u8" where
  "rom_place_reverse_stub = rom_halves 0x3A0 [0x2000, 0x4770]"

definition rom_place_flash_stubs :: "(nat \<Rightarrow> u8) \<Rightarrow> nat \<Rightarrow> u8" where
  "rom_place_flash_stubs = fold (\<lambda>a. rom_write16 a 0x4770) [0x3B0, 0x3B4, 0x3B8, 0x3BC, 0x3C0, 0x3C4]"

definition rom_place_float_double_tables :: "(nat \<Rightarrow> u8) \<Rightarrow> nat \<Rightarrow> u8" where
  "rom_place_float_double_tables rom =
     fold (\<lambda>i. rom_write16 (0x540 + i * 2) 0x4770) [0..<20]
      (fold (\<lambda>i. rom_write16 (0x500 + i * 2) 0x4770) [0..<20]
        (fold (\<lambda>i. rom_write16 (0x440 + i * 2) (of_nat (0x540 + i * 2) OR 1)) [0..<20]
          (fold (\<lambda>i. rom_write16 (0x400 + i * 2) (of_nat (0x500 + i * 2) OR 1)) [0..<20] rom)))"

text \<open>The codes of the functions, two letters each, with the addresses of their code (Thumb bit set).\<close>

definition rom_functions :: "(u16 \<times> u16) list" where
  "rom_functions =
     [(0x434D, 0x301), (0x3443, 0x301), (0x534D, 0x321), (0x3453, 0x321), (0x3350, 0x341), (0x334C, 0x361), (0x3354, 0x381),
      (0x3352, 0x3A1), (0x4649, 0x3B1), (0x5845, 0x3B5), (0x4552, 0x3B9), (0x5052, 0x3BD), (0x4346, 0x3C1), (0x5843, 0x3C5)]"

definition rom_build_func_table :: "(nat \<Rightarrow> u8) \<Rightarrow> nat \<Rightarrow> u8" where
  "rom_build_func_table = rom_halves 0x100 (concat (map (\<lambda>(code, ptr). [code, ptr]) rom_functions) @ [0, 0])"

definition rom_build_data_table :: "(nat \<Rightarrow> u8) \<Rightarrow> nat \<Rightarrow> u8" where
  "rom_build_data_table = rom_halves 0x180 [0x4653, 0x400, 0x4453, 0x440, 0, 0]"

definition rom_init :: "nat \<Rightarrow> u8" where
  "rom_init =
     rom_place_float_double_tables (rom_place_flash_stubs (rom_place_reverse_stub (rom_place_ctz (rom_place_clz
       (rom_place_popcount (rom_place_memset (rom_place_memcpy (rom_place_lookup_fn (rom_build_data_table
         (rom_build_func_table (rom_halves 0x14 [0x100, 0x180, 0x201] ((\<lambda>_. 0)(0x10 := 0x4D, 0x11 := 0x75, 0x12 := 1)))))))))))))"

text \<open>The RP2350 has the same functions in a table of words, three more, and its own lookup.\<close>

definition rom_patch_rp2350_arm :: "(nat \<Rightarrow> u8) \<Rightarrow> nat \<Rightarrow> u8" where
  "rom_patch_rp2350_arm rom =
     rom_write16 0x7CC 0x4770 (rom_write16 0x7CA 0x4770 (rom_write16 0x7C8 0x4770
       (rom_halves 0x740 (concat (map (\<lambda>(code, ptr). [code, 0, ptr, 0])
            (rom_functions @ [(0x5347, 0x7C9), (0x5242, 0x7CB), (0x5253, 0x7CD)])) @ [0, 0, 0, 0])
         (rom_halves 0x700
            [0xB430, 0x4C07, 0x6825, 0x2D00, 0xD007, 0x42A8, 0xD102, 0x6860, 0xBC30, 0x4770, 0x3408, 0xE7F5, 0xBF00, 0x2000,
             0xBC30, 0x4770, 0x0740, 0x0000]
           (rom(0x10 := 0x52, 0x11 := 0x50, 0x12 := 2, 0x13 := 0, 0x14 := 0, 0x15 := 1, 0x16 := 1, 0x17 := 7, 0x18 := 0x80,
                0x19 := 1, 0x1A := 0, 0x1B := 0, 0x1C := 0, 0x1D := 0, 0x1E := 0, 0x1F := 0))))))"

section \<open>Calls performed by the emulator\<close>

text \<open>The host's floating point on bit patterns of one width: conversions to and from 32-bit integers, the
  power of two \<open>2 ^ n\<close>, and the test for a negative number.\<close>

record 'w host_float =
  hf_add :: "'w \<Rightarrow> 'w \<Rightarrow> 'w"
  hf_sub :: "'w \<Rightarrow> 'w \<Rightarrow> 'w"
  hf_mul :: "'w \<Rightarrow> 'w \<Rightarrow> 'w"
  hf_div :: "'w \<Rightarrow> 'w \<Rightarrow> 'w"
  hf_sqrt :: "'w \<Rightarrow> 'w"
  hf_cos :: "'w \<Rightarrow> 'w"
  hf_sin :: "'w \<Rightarrow> 'w"
  hf_tan :: "'w \<Rightarrow> 'w"
  hf_exp :: "'w \<Rightarrow> 'w"
  hf_log :: "'w \<Rightarrow> 'w"
  hf_to_int :: "'w \<Rightarrow> u32"
  hf_to_uint :: "'w \<Rightarrow> u32"
  hf_of_int :: "u32 \<Rightarrow> 'w"
  hf_of_uint :: "u32 \<Rightarrow> 'w"
  hf_ldexp :: "nat \<Rightarrow> 'w"
  hf_negative :: "'w \<Rightarrow> bool"

record 'm rom_host =
  rh_float :: "u32 host_float"
  rh_double :: "u64 host_float"
  flash_persist_sync :: "u32 \<Rightarrow> u32 \<Rightarrow> 'm \<Rightarrow> 'm"
  semihost_exit :: "u32 \<Rightarrow> 'm \<Rightarrow> 'm"

definition rom_scale :: "'w host_float \<Rightarrow> u32 \<Rightarrow> 'w" where
  "rom_scale hf n = hf_ldexp hf (unat (if n > 60 then 60 else n))"

text \<open>What a function of the floating-point tables returns: a number, an integer, or nothing for the two
  indices that are not used. \<open>a\<close> and \<open>b\<close> are the operands, \<open>i\<close> the first register as an integer, \<open>n\<close> the
  scale.\<close>

datatype 'w rom_result = Rom_Float 'w | Rom_Int u32

definition rom_float_op :: "'w host_float \<Rightarrow> nat \<Rightarrow> 'w \<Rightarrow> 'w \<Rightarrow> u32 \<Rightarrow> u32 \<Rightarrow> u32 \<Rightarrow> 'w rom_result option" where
  "rom_float_op hf k a b i n_from n_to =
     (let to_uint = (\<lambda>x. if hf_negative hf x then 0 else hf_to_uint hf x) in
      if k = 0 then Some (Rom_Float (hf_add hf a b))
      else if k = 1 then Some (Rom_Float (hf_sub hf a b))
      else if k = 2 then Some (Rom_Float (hf_mul hf a b))
      else if k = 3 then Some (Rom_Float (hf_div hf a b))
      else if k = 5 then Some (Rom_Float (hf_sqrt hf a))
      else if k = 6 then Some (Rom_Int (hf_to_int hf a))
      else if k = 7 then Some (Rom_Int (hf_to_int hf (hf_mul hf a (rom_scale hf n_from))))
      else if k = 8 then Some (Rom_Int (to_uint a))
      else if k = 9 then Some (Rom_Int (to_uint (hf_mul hf a (rom_scale hf n_from))))
      else if k = 10 then Some (Rom_Float (hf_of_int hf i))
      else if k = 11 then Some (Rom_Float (hf_div hf (hf_of_int hf i) (rom_scale hf n_to)))
      else if k = 12 then Some (Rom_Float (hf_of_uint hf i))
      else if k = 13 then Some (Rom_Float (hf_div hf (hf_of_uint hf i) (rom_scale hf n_to)))
      else if k = 14 then Some (Rom_Float (hf_cos hf a))
      else if k = 15 then Some (Rom_Float (hf_sin hf a))
      else if k = 16 then Some (Rom_Float (hf_tan hf a))
      else if k = 18 then Some (Rom_Float (hf_exp hf a))
      else if k = 19 then Some (Rom_Float (hf_log hf a))
      else None)"

definition rom_intercept_float :: "u32 host_float \<Rightarrow> nat \<Rightarrow> cpu_state \<Rightarrow> cpu_state option" where
  "rom_intercept_float hf k c =
     (case rom_float_op hf k (cpu_r c 0) (cpu_r c 1) (cpu_r c 0) (cpu_r c 1) (cpu_r c 1) of
        None \<Rightarrow> None
      | Some (Rom_Float v) \<Rightarrow> Some (set_r 0 v c)
      | Some (Rom_Int v) \<Rightarrow> Some (set_r 0 v c))"

definition u2d :: "u32 \<Rightarrow> u32 \<Rightarrow> u64" where
  "u2d lo hi = shl (ucast hi) 32 OR ucast lo"

definition d2u :: "u64 \<Rightarrow> cpu_state \<Rightarrow> cpu_state" where
  "d2u d c = set_r 1 (ucast (shr d 32)) (set_r 0 (ucast d) c)"

definition rom_intercept_double :: "u64 host_float \<Rightarrow> nat \<Rightarrow> cpu_state \<Rightarrow> cpu_state option" where
  "rom_intercept_double hf k c =
     (case rom_float_op hf k (u2d (cpu_r c 0) (cpu_r c 1)) (u2d (cpu_r c 2) (cpu_r c 3)) (cpu_r c 0) (cpu_r c 2) (cpu_r c 1) of
        None \<Rightarrow> None
      | Some (Rom_Float d) \<Rightarrow> Some (d2u d c)
      | Some (Rom_Int v) \<Rightarrow> Some (set_r 0 v c))"

definition flash_put :: "nat \<Rightarrow> u8 \<Rightarrow> ('d, 'e, 'x) emu \<Rightarrow> ('d, 'e, 'x) emu" where
  "flash_put o1 v = upd_bus (\<lambda>b. b\<lparr>b_flash := (b_flash b)(o1 := v)\<rparr>)"

fun flash_erase :: "nat \<Rightarrow> nat \<Rightarrow> ('d, 'e, 'x) emu \<Rightarrow> ('d, 'e, 'x) emu" where
  "flash_erase o1 0 m = m"
| "flash_erase o1 (Suc n) m = flash_erase (o1 + 1) n (flash_put o1 0xFF m)"

fun flash_program :: "('d, 'e, 'x) emu devices \<Rightarrow> nat \<Rightarrow> u32 \<Rightarrow> nat \<Rightarrow> ('d, 'e, 'x) emu \<Rightarrow> ('d, 'e, 'x) emu" where
  "flash_program dv o1 src 0 m = m"
| "flash_program dv o1 src (Suc n) m =
     (let (v, m1) = mem_read8 dv src m in flash_program dv (o1 + 1) (src + 1) n (flash_put o1 v m1))"

definition rom_intercept_flash :: "('d, 'e, 'x) emu devices \<Rightarrow> ('d, 'e, 'x) emu rom_host \<Rightarrow> u32 \<Rightarrow>
    ('d, 'e, 'x) emu \<Rightarrow> ('d, 'e, 'x) emu" where
  "rom_intercept_flash dv h pc m =
     (let offs = reg m 0; fits = (\<lambda>count. offs < 0x1000000 \<and> count \<le> 0x1000000 - offs) in
      if pc = 0x3B8 then
        (if fits (reg m 1) then flash_persist_sync h offs (reg m 1) (flash_erase (unat offs) (unat (reg m 1)) m) else m)
      else if pc = 0x3BC then
        (if fits (reg m 2)
         then flash_persist_sync h offs (reg m 2) (flash_program dv (unat offs) (reg m 1) (unat (reg m 2)) m) else m)
      else m)"

text \<open>The words of the system information that the flags ask for.\<close>

definition rom_sys_info :: "u32 \<Rightarrow> u32 list" where
  "rom_sys_info flags =
     [flags] @ (if bit flags 0 then [0, 0x23500001, 1] else []) @ (if bit flags 1 then [0xB08] else []) @
     (if bit flags 2 then [0x01000200] else []) @ (if bit flags 3 then [0xA204] else []) @
     (if bit flags 4 then [0x2350C0DE, 0x12345678, 0x89ABCDEF, 0x0BADF00D] else []) @
     (if bit flags 5 then [0x10203040, 0x50607080] else []) @ (if bit flags 6 then [0, 0, 0, 0] else [])"

fun write_info :: "('d, 'e, 'x) emu devices \<Rightarrow> u32 \<Rightarrow> u32 list \<Rightarrow> ('d, 'e, 'x) emu \<Rightarrow> ('d, 'e, 'x) emu" where
  "write_info dv a [] m = m"
| "write_info dv a (w # ws) m = write_info dv (a + 4) ws (mem_write32 dv a w m)"

definition rom_return :: "cpu_state \<Rightarrow> cpu_state" where
  "rom_return c = (set_r 15 (cpu_r c 14 AND NOT 1) c)\<lparr>cpu_step_count := cpu_step_count c + 1\<rparr>"

definition rom_get_sys_info :: "('d, 'e, 'x) emu devices \<Rightarrow> ('d, 'e, 'x) emu \<Rightarrow> ('d, 'e, 'x) emu" where
  "rom_get_sys_info dv m =
     (let ws = take (unat (reg m 1)) (rom_sys_info (reg m 2)); m1 = write_info dv (reg m 0) ws m
      in upd_cpu (\<lambda>c. rom_return (set_r 0 (of_nat (length ws)) c)) m1)"

definition stub_call :: "u32 \<Rightarrow> u32 \<Rightarrow> (nat \<Rightarrow> cpu_state \<Rightarrow> cpu_state option) \<Rightarrow> ('d, 'e, 'x) emu \<Rightarrow> ('d, 'e, 'x) emu option" where
  "stub_call start pc f m =
     (if start \<le> pc \<and> pc < start + 40
      then map_option (\<lambda>c. upd_cpu (\<lambda>_. rom_return c) m) (f (unat ((pc - start) div 2)) (m_cpu m)) else None)"

definition rom_intercept :: "('d, 'e, 'x) emu devices \<Rightarrow> ('d, 'e, 'x) emu rom_host \<Rightarrow> u32 \<Rightarrow>
    ('d, 'e, 'x) emu \<Rightarrow> bool \<times> ('d, 'e, 'x) emu" where
  "rom_intercept dv h pc m =
     (case stub_call 0x500 pc (rom_intercept_float (rh_float h)) m of
        Some m1 \<Rightarrow> (True, m1)
      | None \<Rightarrow>
        (case stub_call 0x540 pc (rom_intercept_double (rh_double h)) m of
           Some m1 \<Rightarrow> (True, m1)
         | None \<Rightarrow>
           if pc = 0x3B8 \<or> pc = 0x3BC then (False, rom_intercept_flash dv h pc m)
           else if rp2350 m \<and> (pc = 0x7C8 \<or> pc = 0x750) then (True, rom_get_sys_info dv m)
           else if rp2350 m \<and> (pc = 0x7CA \<or> pc = 0x752) then (True, upd_cpu (set_r 15 0xFFFFFFFF) (semihost_exit h 0 m))
           else (False, m)))"

section \<open>Reading the image\<close>

declare rom_halves.simps [simp del]

lemma rd16_wr16:
  "even a \<Longrightarrow> even b \<Longrightarrow> rd16 (wr16 m a v) b = (if a = b then v else rd16 m b)"
proof -
  assume "even a" "even b"
  then have "a = b \<or> (b \<noteq> a \<and> b \<noteq> a + 1 \<and> b + 1 \<noteq> a \<and> b + 1 \<noteq> a + 1)" by (metis add_right_cancel even_plus_one_iff)
  then show ?thesis by (auto simp: rd16_def wr16_def rd16_wr16_same [unfolded rd16_def wr16_def, simplified])
qed

lemma rd16_halves:
  "even off \<Longrightarrow> even b \<Longrightarrow>
    rd16 (rom_halves off hs m) b = (if off \<le> b \<and> b < off + 2 * length hs then hs ! ((b - off) div 2) else rd16 m b)"
proof (induction hs arbitrary: off m)
  case (Cons h hs)
  have "off \<noteq> b \<Longrightarrow> off \<le> b \<Longrightarrow> off + 2 \<le> b \<and> (b - off) div 2 = Suc ((b - (off + 2)) div 2)"
    using Cons.prems by (auto elim!: evenE)
  then show ?case
    using Cons.prems by (auto simp: Cons.IH rom_halves.simps rom_write16_def rd16_wr16)
qed (auto simp: rom_halves.simps)

lemma rd16_fold_writes:
  "(\<forall>i \<in> set is. even (f i) \<and> f i \<noteq> b) \<Longrightarrow> even b \<Longrightarrow> rd16 (fold (\<lambda>i. rom_write16 (f i) (v i)) is m) b = rd16 m b"
  by (induction "is" arbitrary: m) (simp_all add: rom_write16_def rd16_wr16)

lemma rd16_rom_init:
  assumes "even b" "b < 0x3A0" "0x20 \<le> b"
  shows "rd16 rom_init b =
    (let at = (\<lambda>off hs rest. if off \<le> b \<and> b < off + 2 * length hs then hs ! ((b - off) div 2) else rest) in
     at 0x380 [0x2100, 0x2800, 0xD007, 0x2201, 0x4210, 0xD102, 0x0840, 0x3101, 0xE7F9, 0x0008, 0x4770, 0x2020, 0x4770]
      (at 0x360 [0x2100, 0x2800, 0xD005, 0x0040, 0xD201, 0x3101, 0xE7FB, 0x0008, 0x4770, 0x2020, 0x4770]
       (at 0x340 [0x2100, 0x2800, 0xD004, 0x0002, 0x3A01, 0x4010, 0x3101, 0xE7F8, 0x0008, 0x4770]
        (at 0x320 [0x0003, 0x2A00, 0xDD03, 0x7019, 0x3301, 0x3A01, 0xDCFB, 0x4770]
         (at 0x300 [0xB510, 0x0003, 0x2A00, 0xDD05, 0x780C, 0x701C, 0x3301, 0x3101, 0x3A01, 0xDCF9, 0xBD10]
          (at 0x200 [0x8802, 0x2A00, 0xD005, 0x428A, 0xD001, 0x3004, 0xE7F8, 0x8840, 0x4770, 0x2000, 0x4770]
           (at 0x180 [0x4653, 0x400, 0x4453, 0x440, 0, 0]
            (at 0x100 (concat (map (\<lambda>(code, ptr). [code, ptr]) rom_functions) @ [0, 0]) 0))))))))"
proof -
  have f: "rd16 (rom_place_float_double_tables m) b = rd16 m b" for m
    using assms unfolding rom_place_float_double_tables_def by (subst rd16_fold_writes; auto)+
  have s: "rd16 (rom_place_flash_stubs m) b = rd16 m b" for m
    using assms unfolding rom_place_flash_stubs_def by (subst rd16_fold_writes) auto
  have z: "rd16 ((\<lambda>_. 0)(0x10 := 0x4D, 0x11 := 0x75, 0x12 := 1)) b = 0" using assms(3) by (simp add: rd16_def)
  show ?thesis
    using assms
    by (simp only: rom_init_def f s rom_place_reverse_stub_def rom_place_ctz_def rom_place_clz_def rom_place_popcount_def
        rom_place_memset_def rom_place_memcpy_def rom_place_lookup_fn_def rom_build_data_table_def rom_build_func_table_def Let_def)
      (simp add: rd16_halves z)
qed

lemmas rom_code = rd16_rom_init [unfolded rom_functions_def, simplified]

section \<open>Running the routines of the image\<close>

text \<open>One instruction fetched from memory; interrupts, which the engine looks for between instructions, apart.\<close>

definition rom_step :: "('d, 'e, 'x) emu devices \<Rightarrow> ('d, 'e, 'x) emu \<Rightarrow> ('d, 'e, 'x) emu" where
  "rom_step dv m = exec_fetched (system_platform dv) (reg m 15) False m"

definition rom_in :: "('d, 'e, 'x) emu \<Rightarrow> bool" where
  "rom_in m \<longleftrightarrow> b_rom (m_bus m) = rom_init"

lemma timing_tick_keeps [simp]:
  "m_cpu (timing_tick (system_platform dv) k m) = m_cpu m" "b_rom (m_bus (timing_tick (system_platform dv) k m)) = b_rom (m_bus m)"
  by (simp_all add: timing_tick_def tick_us_def system_platform_def bus_timer1_tick_def upd_bus_def upd_nv_def Let_def split_beta)

text \<open>How an instruction that works on the registers changes them.\<close>

definition cpu_next :: "(cpu_state \<Rightarrow> cpu_state) \<Rightarrow> cpu_state \<Rightarrow> cpu_state" where
  "cpu_next g c =
     (let c1 = (g (c\<lparr>cpu_step_count := cpu_step_count c + 1, pc_updated := False\<rparr>))\<lparr>cpu_it_suppress := False\<rparr>
      in if pc_updated c1 then c1 else set_r 15 (cpu_r c 15 + 2) c1)"

lemma rom_step_cpu:
  assumes "rom_in m" "reg m 15 < 0x3FFF" "rd16 rom_init (unat (reg m 15)) = i" "i \<noteq> 0" "\<not> shr i 11 \<ge> 0x1D"
    and "\<And>m'. m_cpu m' = (m_cpu m)\<lparr>cpu_step_count := cpu_step_count (m_cpu m) + 1, pc_updated := False\<rparr> \<Longrightarrow> m_bus m' = m_bus m \<Longrightarrow>
      dispatch_table (system_platform dv) (unat (shr i 8)) i m' = upd_cpu g m'"
  shows "m_cpu (rom_step dv m) = cpu_next g (m_cpu m)" "rom_in (rom_step dv m)"
proof -
  let ?p = "system_platform dv" and ?pc = "reg m 15"
  let ?m = "icache_fill ?pc i (unat (shr i 8)) (upd_cpu (\<lambda>c. c\<lparr>cpu_step_count := cpu_step_count c + 1, pc_updated := False\<rparr>) m)"
  have f: "pl_fetch16 ?p ?pc m = (i, m)" using assms(1-3) by (simp add: system_platform_def cpu_fetch16_fast_def rom_in_def)
  have d: "dispatch_table ?p (unat (shr i 8)) i ?m = upd_cpu g ?m"
    by (rule assms(6)) (simp_all add: icache_fill_def upd_cpu_def)
  have u: "upd_cpu (\<lambda>c. c\<lparr>pc_updated := False, cpu_it_suppress := cpu_it_suppress c\<rparr>) (upd_cpu (\<lambda>c. c\<lparr>cpu_step_count := cpu_step_count c + 1\<rparr>) m) =
      upd_cpu (\<lambda>c. c\<lparr>cpu_step_count := cpu_step_count c + 1, pc_updated := False\<rparr>) m"
    by (simp add: upd_cpu_def)
  have c: "m_cpu ?m = (m_cpu m)\<lparr>cpu_step_count := cpu_step_count (m_cpu m) + 1, pc_updated := False\<rparr>" "m_bus ?m = m_bus m"
    by (simp_all add: icache_fill_def upd_cpu_def)
  have e: "rom_step dv m = exec_16 ?p ?pc False i None (upd_cpu (\<lambda>c. c\<lparr>cpu_step_count := cpu_step_count c + 1\<rparr>) m)"
    using assms(4,5) by (simp add: rom_step_def exec_fetched_def f)
  show "m_cpu (rom_step dv m) = cpu_next g (m_cpu m)" "rom_in (rom_step dv m)"
    unfolding e exec_16_def Let_def option.case prod.case if_False simp_thms u d cpu_next_def
    using assms(1) c by (simp_all add: upd_cpu_def rom_in_def)
qed

lemmas rom_step_on_cpu = rom_step_cpu [where g = "f i" for f i]

text \<open>Flags as the branches read them.\<close>

lemma flags_after_sub:
  "bcond_taken (cpu_xpsr (update_sub_flags a b (a - b) c)) 0 = (a = b)"
  "bcond_taken (cpu_xpsr (update_sub_flags a b (a - b) c)) 1 = (a \<noteq> b)"
  by (simp_all add: bcond_taken_def update_sub_flags_def cond_mask_def Let_def bit_simps)

lemma flags_after_nz:
  "bcond_taken (cpu_xpsr (update_nz_flags v c)) 0 = (v = 0)" "bcond_taken (cpu_xpsr (update_nz_flags v c)) 1 = (v \<noteq> 0)"
  "bcond_taken (cpu_xpsr (update_nz_flags v (set_r k w (set_carry b c)))) 2 = b"
  by (simp_all add: bcond_taken_def update_nz_flags_def set_carry_def set_r_def Let_def bit_simps)

lemma flag_updates [simp]:
  "cpu_r (update_sub_flags a b r c) = cpu_r c" "cpu_r (update_add_flags a b r c) = cpu_r c" "cpu_r (update_nz_flags v c) = cpu_r c"
  "cpu_r (set_carry x c) = cpu_r c" "pc_updated (update_sub_flags a b r c) = pc_updated c"
  "pc_updated (update_add_flags a b r c) = pc_updated c" "pc_updated (update_nz_flags v c) = pc_updated c"
  "pc_updated (set_carry x c) = pc_updated c" "cpu_r (set_r k w c) = (cpu_r c)(k := w)" "pc_updated (set_r k w c) = pc_updated c"
  "cpu_xpsr (set_r k w c) = cpu_xpsr c"
  by (simp_all add: update_sub_flags_def update_add_flags_def update_nz_flags_def set_carry_def set_r_def Let_def)

lemma run_reg:
  assumes "rom_in m" "reg m 15 = pc" "rd16 rom_init (unat pc) = i" "pc < 0x3FFF" "i \<noteq> 0" "\<not> shr i 11 \<ge> 0x1D"
    and "dispatch_table (system_platform dv) (unat (shr i 8)) = on_cpu f"
  shows "m_cpu (rom_step dv m) = cpu_next (f i) (m_cpu m) \<and> rom_in (rom_step dv m)"
proof -
  have "dispatch_table (system_platform dv) (unat (shr i 8)) i m' = upd_cpu (f i) m'" for m'
    unfolding assms(7) by (simp add: on_cpu_def)
  then show ?thesis using rom_step_cpu [where g = "f i" and i = i, of m dv] assms(1-6) by simp
qed

text \<open>The registers after a step, as an update of those before.\<close>

definition runs_to :: "('d, 'e, 'x) emu devices \<Rightarrow> ('d, 'e, 'x) emu \<Rightarrow> (nat \<Rightarrow> u32) \<Rightarrow> bool" where
  "runs_to dv m r \<longleftrightarrow> rom_in (rom_step dv m) \<and> cpu_r (m_cpu (rom_step dv m)) = r"

abbreviation taken :: "('d, 'e, 'x) emu \<Rightarrow> nat \<Rightarrow> bool" where
  "taken m cond \<equiv> bcond_taken (cpu_xpsr (m_cpu m)) cond"

lemmas run_defs = runs_to_def cpu_next_def instr_movs_imm8_def instr_cmp_imm8_def instr_bcond_def instr_shift_logical_left_def
  instr_shift_logical_right_def instr_subs_imm8_def instr_adds_imm8_def dispatch_alu_40_def instr_bitwise_and_def
  dispatch_alu_42_def instr_tst_reg_reg_def instr_cmp_alu_def instr_b_uncond_def dispatch_table_def Let_def

lemma run_bx:
  assumes "rom_in m" "reg m 15 = pc" "rd16 rom_init (unat pc) = 0x4770" "pc < 0x3FFF" "reg m 14 AND 0xFFFFFFF0 \<noteq> 0xFFFFFFF0"
  shows "runs_to dv m ((cpu_r (m_cpu m))(15 := reg m 14 AND NOT 1))"
proof -
  let ?g = "\<lambda>c. (set_r 15 (cpu_r c 14 AND NOT 1) c)\<lparr>pc_updated := True\<rparr>"
  have "m_cpu (rom_step dv m) = cpu_next ?g (m_cpu m) \<and> rom_in (rom_step dv m)"
    using assms
    by (intro conjI rom_step_cpu [where i = "0x4770"])
      (simp_all add: dispatch_table_def dispatch_special_47_def instr_bx_def upd_cpu_def)
  then show ?thesis by (simp add: runs_to_def cpu_next_def)
qed

text \<open>An instruction of the image, at the program counter.\<close>

definition rom_at :: "('d, 'e, 'x) emu \<Rightarrow> u32 \<Rightarrow> u16 \<Rightarrow> bool" where
  "rom_at m pc i \<longleftrightarrow> rom_in m \<and> reg m 15 = pc \<and> pc < 0x3FFF \<and> rd16 rom_init (unat pc) = i \<and> i \<noteq> 0 \<and> unat (shr i 11) < 0x1D"

lemma run_at:
  assumes "rom_at m pc i" "dispatch_table (system_platform dv) (unat (shr i 8)) = on_cpu f"
  shows "m_cpu (rom_step dv m) = cpu_next (f i) (m_cpu m) \<and> rom_in (rom_step dv m)"
  using assms by (intro run_reg [of m pc]) (simp_all add: rom_at_def word_le_nat_alt)

lemma run_movs_imm:
  assumes "rom_at m pc i" "unat (shr i 8) \<in> {0x20..0x27}"
  shows "runs_to dv m ((cpu_r (m_cpu m))(idx i 8 7 := ucast (i AND 0xFF), 15 := pc + 2))"
  using run_at [OF assms(1), of dv instr_movs_imm8] assms by (simp add: run_defs rom_at_def)

lemma run_cmp_imm:
  assumes "rom_at m pc i" "unat (shr i 8) \<in> {0x28..0x2F}"
  shows "runs_to dv m ((cpu_r (m_cpu m))(15 := pc + 2)) \<and> taken (rom_step dv m) 0 = (reg m (idx i 8 7) = ucast (i AND 0xFF))"
  using run_at [OF assms(1), of dv instr_cmp_imm8] assms by (simp add: run_defs rom_at_def flags_after_sub)

lemma run_cmp_reg:
  assumes "rom_at m pc i" "unat (shr i 8) = 0x42" "idx i 6 3 = 2"
  shows "runs_to dv m ((cpu_r (m_cpu m))(15 := pc + 2)) \<and> taken (rom_step dv m) 0 = (reg m (idx i 0 7) = reg m (idx i 3 7))"
  using run_at [OF assms(1), of dv dispatch_alu_42] assms by (simp add: run_defs rom_at_def flags_after_sub)

lemma run_bcond:
  assumes "rom_at m pc i" "unat (shr i 8) \<in> {0xD0..0xDD}"
  shows "taken m (idx i 8 0xF) \<Longrightarrow> runs_to dv m ((cpu_r (m_cpu m))(15 := pc + (4 + scast (ucast (i AND 0xFF) :: u8) * 2)))"
    "\<not> taken m (idx i 8 0xF) \<Longrightarrow> runs_to dv m ((cpu_r (m_cpu m))(15 := pc + 2))"
  using run_at [OF assms(1), of dv instr_bcond] assms by (simp_all add: run_defs rom_at_def)

lemma run_b:
  assumes "rom_at m pc i" "unat (shr i 8) \<in> {0xE4..0xE7}" "(i AND 0x7FF) AND 0x400 \<noteq> 0"
  shows "runs_to dv m ((cpu_r (m_cpu m))(15 := pc + (4 + shl (scast ((i AND 0x7FF) OR 0xF800)) 1)))"
  using run_at [OF assms(1), of dv instr_b_uncond] assms by (simp add: run_defs rom_at_def)

lemma run_mov_reg:
  assumes "rom_at m pc i" "unat (shr i 8) \<le> 7" "idx i 6 0x1F = 0"
  shows "runs_to dv m ((cpu_r (m_cpu m))(idx i 0 7 := reg m (idx i 3 7), 15 := pc + 2))"
  using run_at [OF assms(1), of dv instr_shift_logical_left] assms by (simp add: run_defs rom_at_def)

lemma run_lsl_1:
  assumes "rom_at m pc i" "unat (shr i 8) \<le> 7" "idx i 6 0x1F = 1"
  shows "runs_to dv m ((cpu_r (m_cpu m))(idx i 0 7 := shl (reg m (idx i 3 7)) 1, 15 := pc + 2)) \<and>
    taken (rom_step dv m) 2 = bit (reg m (idx i 3 7)) 31"
  using run_at [OF assms(1), of dv instr_shift_logical_left] assms by (simp add: run_defs rom_at_def flags_after_nz)

lemma run_lsr_1:
  assumes "rom_at m pc i" "unat (shr i 8) \<in> {8..0xF}" "idx i 6 0x1F = 1"
  shows "runs_to dv m ((cpu_r (m_cpu m))(idx i 0 7 := shr (reg m (idx i 3 7)) 1, 15 := pc + 2))"
  using run_at [OF assms(1), of dv instr_shift_logical_right] assms by (simp add: run_defs rom_at_def)

lemma run_add_imm:
  assumes "rom_at m pc i" "unat (shr i 8) \<in> {0x30..0x37}"
  shows "runs_to dv m ((cpu_r (m_cpu m))(idx i 8 7 := reg m (idx i 8 7) + ucast (i AND 0xFF), 15 := pc + 2))"
  using run_at [OF assms(1), of dv instr_adds_imm8] assms by (simp add: run_defs rom_at_def)

lemma run_sub_imm:
  assumes "rom_at m pc i" "unat (shr i 8) \<in> {0x38..0x3F}"
  shows "runs_to dv m ((cpu_r (m_cpu m))(idx i 8 7 := reg m (idx i 8 7) - ucast (i AND 0xFF), 15 := pc + 2))"
  using run_at [OF assms(1), of dv instr_subs_imm8] assms by (simp add: run_defs rom_at_def)

lemma run_and:
  assumes "rom_at m pc i" "unat (shr i 8) = 0x40" "idx i 6 3 = 0"
  shows "runs_to dv m ((cpu_r (m_cpu m))(idx i 0 7 := reg m (idx i 0 7) AND reg m (idx i 3 7), 15 := pc + 2))"
  using run_at [OF assms(1), of dv dispatch_alu_40] assms by (simp add: run_defs rom_at_def)

lemma run_tst:
  assumes "rom_at m pc i" "unat (shr i 8) = 0x42" "idx i 6 3 = 0"
  shows "runs_to dv m ((cpu_r (m_cpu m))(15 := pc + 2)) \<and> taken (rom_step dv m) 1 = (reg m (idx i 0 7) AND reg m (idx i 3 7) \<noteq> 0)"
  using run_at [OF assms(1), of dv dispatch_alu_42] assms
  by (simp add: run_defs rom_at_def flags_after_nz flags_after_nz(2) [unfolded One_nat_def])

lemma popcount_code:
  assumes "rom_in m"
  shows "reg m 15 = 0x340 \<Longrightarrow> runs_to dv m ((cpu_r (m_cpu m))(1 := 0, 15 := 0x342))"
    "reg m 15 = 0x342 \<Longrightarrow> runs_to dv m ((cpu_r (m_cpu m))(15 := 0x344)) \<and> taken (rom_step dv m) 0 = (reg m 0 = 0)"
    "reg m 15 = 0x344 \<Longrightarrow> taken m 0 \<Longrightarrow> runs_to dv m ((cpu_r (m_cpu m))(15 := 0x350))"
    "reg m 15 = 0x344 \<Longrightarrow> \<not> taken m 0 \<Longrightarrow> runs_to dv m ((cpu_r (m_cpu m))(15 := 0x346))"
    "reg m 15 = 0x346 \<Longrightarrow> runs_to dv m ((cpu_r (m_cpu m))(2 := reg m 0, 15 := 0x348))"
    "reg m 15 = 0x348 \<Longrightarrow> runs_to dv m ((cpu_r (m_cpu m))(2 := reg m 2 - 1, 15 := 0x34A))"
    "reg m 15 = 0x34A \<Longrightarrow> runs_to dv m ((cpu_r (m_cpu m))(0 := reg m 0 AND reg m 2, 15 := 0x34C))"
    "reg m 15 = 0x34C \<Longrightarrow> runs_to dv m ((cpu_r (m_cpu m))(1 := reg m 1 + 1, 15 := 0x34E))"
    "reg m 15 = 0x34E \<Longrightarrow> runs_to dv m ((cpu_r (m_cpu m))(15 := 0x342))"
    "reg m 15 = 0x350 \<Longrightarrow> runs_to dv m ((cpu_r (m_cpu m))(0 := reg m 1, 15 := 0x352))"
  using run_movs_imm [of m "0x340" "0x2100" dv] assms apply (simp add: rom_at_def rom_code)
  using run_cmp_imm [of m "0x342" "0x2800" dv] assms apply (simp add: rom_at_def rom_code)
  using run_bcond(1) [of m "0x344" "0xD004" dv] assms apply (simp add: rom_at_def rom_code)
  using run_bcond(2) [of m "0x344" "0xD004" dv] assms apply (simp add: rom_at_def rom_code)
  using run_mov_reg [of m "0x346" "0x0002" dv] assms apply (simp add: rom_at_def rom_code)
  using run_sub_imm [of m "0x348" "0x3A01" dv] assms apply (simp add: rom_at_def rom_code)
  using run_and [of m "0x34A" "0x4010" dv] assms apply (simp add: rom_at_def rom_code)
  using run_add_imm [of m "0x34C" "0x3101" dv] assms apply (simp add: rom_at_def rom_code)
  using run_b [of m "0x34E" "0xE7F8" dv] assms apply (simp add: rom_at_def rom_code)
  using run_mov_reg [of m "0x350" "0x0008" dv] assms apply (simp add: rom_at_def rom_code)
  done

lemma clz_code:
  assumes "rom_in m"
  shows "reg m 15 = 0x360 \<Longrightarrow> runs_to dv m ((cpu_r (m_cpu m))(1 := 0, 15 := 0x362))"
    "reg m 15 = 0x362 \<Longrightarrow> runs_to dv m ((cpu_r (m_cpu m))(15 := 0x364)) \<and> taken (rom_step dv m) 0 = (reg m 0 = 0)"
    "reg m 15 = 0x364 \<Longrightarrow> taken m 0 \<Longrightarrow> runs_to dv m ((cpu_r (m_cpu m))(15 := 0x372))"
    "reg m 15 = 0x364 \<Longrightarrow> \<not> taken m 0 \<Longrightarrow> runs_to dv m ((cpu_r (m_cpu m))(15 := 0x366))"
    "reg m 15 = 0x366 \<Longrightarrow> runs_to dv m ((cpu_r (m_cpu m))(0 := shl (reg m 0) 1, 15 := 0x368)) \<and> taken (rom_step dv m) 2 = bit (reg m 0) 31"
    "reg m 15 = 0x368 \<Longrightarrow> taken m 2 \<Longrightarrow> runs_to dv m ((cpu_r (m_cpu m))(15 := 0x36E))"
    "reg m 15 = 0x368 \<Longrightarrow> \<not> taken m 2 \<Longrightarrow> runs_to dv m ((cpu_r (m_cpu m))(15 := 0x36A))"
    "reg m 15 = 0x36A \<Longrightarrow> runs_to dv m ((cpu_r (m_cpu m))(1 := reg m 1 + 1, 15 := 0x36C))"
    "reg m 15 = 0x36C \<Longrightarrow> runs_to dv m ((cpu_r (m_cpu m))(15 := 0x366))"
    "reg m 15 = 0x36E \<Longrightarrow> runs_to dv m ((cpu_r (m_cpu m))(0 := reg m 1, 15 := 0x370))"
    "reg m 15 = 0x372 \<Longrightarrow> runs_to dv m ((cpu_r (m_cpu m))(0 := 32, 15 := 0x374))"
  using run_movs_imm [of m "0x360" "0x2100" dv] assms apply (simp add: rom_at_def rom_code)
  using run_cmp_imm [of m "0x362" "0x2800" dv] assms apply (simp add: rom_at_def rom_code)
  using run_bcond(1) [of m "0x364" "0xD005" dv] assms apply (simp add: rom_at_def rom_code)
  using run_bcond(2) [of m "0x364" "0xD005" dv] assms apply (simp add: rom_at_def rom_code)
  using run_lsl_1 [of m "0x366" "0x0040" dv] assms apply (simp add: rom_at_def rom_code)
  using run_bcond(1) [of m "0x368" "0xD201" dv] assms apply (simp add: rom_at_def rom_code)
  using run_bcond(2) [of m "0x368" "0xD201" dv] assms apply (simp add: rom_at_def rom_code)
  using run_add_imm [of m "0x36A" "0x3101" dv] assms apply (simp add: rom_at_def rom_code)
  using run_b [of m "0x36C" "0xE7FB" dv] assms apply (simp add: rom_at_def rom_code)
  using run_mov_reg [of m "0x36E" "0x0008" dv] assms apply (simp add: rom_at_def rom_code)
  using run_movs_imm [of m "0x372" "0x2020" dv] assms apply (simp add: rom_at_def rom_code)
  done

lemma ctz_code:
  assumes "rom_in m"
  shows "reg m 15 = 0x380 \<Longrightarrow> runs_to dv m ((cpu_r (m_cpu m))(1 := 0, 15 := 0x382))"
    "reg m 15 = 0x382 \<Longrightarrow> runs_to dv m ((cpu_r (m_cpu m))(15 := 0x384)) \<and> taken (rom_step dv m) 0 = (reg m 0 = 0)"
    "reg m 15 = 0x384 \<Longrightarrow> taken m 0 \<Longrightarrow> runs_to dv m ((cpu_r (m_cpu m))(15 := 0x396))"
    "reg m 15 = 0x384 \<Longrightarrow> \<not> taken m 0 \<Longrightarrow> runs_to dv m ((cpu_r (m_cpu m))(15 := 0x386))"
    "reg m 15 = 0x386 \<Longrightarrow> runs_to dv m ((cpu_r (m_cpu m))(2 := 1, 15 := 0x388))"
    "reg m 15 = 0x388 \<Longrightarrow> runs_to dv m ((cpu_r (m_cpu m))(15 := 0x38A)) \<and> taken (rom_step dv m) 1 = (reg m 0 AND reg m 2 \<noteq> 0)"
    "reg m 15 = 0x38A \<Longrightarrow> taken m 1 \<Longrightarrow> runs_to dv m ((cpu_r (m_cpu m))(15 := 0x392))"
    "reg m 15 = 0x38A \<Longrightarrow> \<not> taken m 1 \<Longrightarrow> runs_to dv m ((cpu_r (m_cpu m))(15 := 0x38C))"
    "reg m 15 = 0x38C \<Longrightarrow> runs_to dv m ((cpu_r (m_cpu m))(0 := shr (reg m 0) 1, 15 := 0x38E))"
    "reg m 15 = 0x38E \<Longrightarrow> runs_to dv m ((cpu_r (m_cpu m))(1 := reg m 1 + 1, 15 := 0x390))"
    "reg m 15 = 0x390 \<Longrightarrow> runs_to dv m ((cpu_r (m_cpu m))(15 := 0x386))"
    "reg m 15 = 0x392 \<Longrightarrow> runs_to dv m ((cpu_r (m_cpu m))(0 := reg m 1, 15 := 0x394))"
    "reg m 15 = 0x396 \<Longrightarrow> runs_to dv m ((cpu_r (m_cpu m))(0 := 32, 15 := 0x398))"
  using run_movs_imm [of m "0x380" "0x2100" dv] assms apply (simp add: rom_at_def rom_code)
  using run_cmp_imm [of m "0x382" "0x2800" dv] assms apply (simp add: rom_at_def rom_code)
  using run_bcond(1) [of m "0x384" "0xD007" dv] assms apply (simp add: rom_at_def rom_code)
  using run_bcond(2) [of m "0x384" "0xD007" dv] assms apply (simp add: rom_at_def rom_code)
  using run_movs_imm [of m "0x386" "0x2201" dv] assms apply (simp add: rom_at_def rom_code)
  using run_tst [of m "0x388" "0x4210" dv] assms apply (simp add: rom_at_def rom_code)
  using run_bcond(1) [of m "0x38A" "0xD102" dv] assms apply (simp add: rom_at_def rom_code)
  using run_bcond(2) [of m "0x38A" "0xD102" dv] assms apply (simp add: rom_at_def rom_code)
  using run_lsr_1 [of m "0x38C" "0x0840" dv] assms apply (simp add: rom_at_def rom_code)
  using run_add_imm [of m "0x38E" "0x3101" dv] assms apply (simp add: rom_at_def rom_code)
  using run_b [of m "0x390" "0xE7F9" dv] assms apply (simp add: rom_at_def rom_code)
  using run_mov_reg [of m "0x392" "0x0008" dv] assms apply (simp add: rom_at_def rom_code)
  using run_movs_imm [of m "0x396" "0x2020" dv] assms apply (simp add: rom_at_def rom_code)
  done

section \<open>The bit-counting functions\<close>

text \<open>Some number of steps leads to these registers, with a condition on the state.\<close>

definition after :: "('d, 'e, 'x) emu devices \<Rightarrow> ('d, 'e, 'x) emu \<Rightarrow> (nat \<Rightarrow> u32) \<Rightarrow> (('d, 'e, 'x) emu \<Rightarrow> bool) \<Rightarrow> bool" where
  "after dv m r P \<longleftrightarrow> (\<exists>n. rom_in ((rom_step dv ^^ n) m) \<and> cpu_r (m_cpu ((rom_step dv ^^ n) m)) = r \<and> P ((rom_step dv ^^ n) m))"

lemma after_start: "rom_in m \<Longrightarrow> P m \<Longrightarrow> after dv m (cpu_r (m_cpu m)) P"
  unfolding after_def by (rule exI [of _ 0]) simp

lemma after_trans:
  assumes "after dv m r P" "\<And>m'. rom_in m' \<Longrightarrow> cpu_r (m_cpu m') = r \<Longrightarrow> P m' \<Longrightarrow> after dv m' s Q"
  shows "after dv m s Q"
proof -
  from assms(1) obtain n where "rom_in ((rom_step dv ^^ n) m)" "cpu_r (m_cpu ((rom_step dv ^^ n) m)) = r" "P ((rom_step dv ^^ n) m)"
    by (auto simp: after_def)
  from assms(2) [OF this] obtain k where "rom_in ((rom_step dv ^^ (k + n)) m)" "cpu_r (m_cpu ((rom_step dv ^^ (k + n)) m)) = s"
      "Q ((rom_step dv ^^ (k + n)) m)"
    by (auto simp: after_def funpow_add)
  then show ?thesis unfolding after_def by blast
qed

lemma after_step:
  assumes "after dv m r P"
    and "\<And>m'. rom_in m' \<Longrightarrow> cpu_r (m_cpu m') = r \<Longrightarrow> P m' \<Longrightarrow> runs_to dv m' s \<and> Q (rom_step dv m')"
  shows "after dv m s Q"
proof (rule after_trans [OF assms(1)])
  fix m' :: "('a, 'b, 'c) emu"
  assume "rom_in m'" "cpu_r (m_cpu m') = r" "P m'"
  from assms(2) [OF this] have "rom_in ((rom_step dv ^^ 1) m') \<and> cpu_r (m_cpu ((rom_step dv ^^ 1) m')) = s \<and> Q ((rom_step dv ^^ 1) m')"
    by (simp add: runs_to_def)
  then show "after dv m' s Q" unfolding after_def by blast
qed

lemma after_bx:
  assumes "after dv m r P" "rd16 rom_init (unat (r 15)) = 0x4770" "r 15 < 0x3FFF" "r 14 AND 0xFFFFFFF0 \<noteq> 0xFFFFFFF0"
  shows "after dv m (r(15 := r 14 AND NOT 1)) (\<lambda>_. True)"
  by (rule after_step [OF assms(1)]) (use assms(2-) run_bx in auto)

abbreviation anything :: "'m \<Rightarrow> bool" where "anything \<equiv> \<lambda>_. True"

lemma popcount_round:
  assumes "rom_in m" "reg m 15 = 0x342" "reg m 0 \<noteq> 0"
  shows "after dv m ((cpu_r (m_cpu m))(0 := reg m 0 AND (reg m 0 - 1), 1 := reg m 1 + 1, 2 := reg m 0 - 1)) anything"
proof -
  let ?r = "cpu_r (m_cpu m)"
  have "after dv m ?r (\<lambda>m. reg m 0 \<noteq> 0)" using assms by (intro after_start)
  then have "after dv m (?r(15 := 0x344)) (\<lambda>m. \<not> taken m 0)" by (rule after_step) (use popcount_code(2) assms(2,3) in fastforce)
  then have "after dv m (?r(15 := 0x346)) anything" by (rule after_step) (use popcount_code(4) in fastforce)
  then have "after dv m (?r(2 := ?r 0, 15 := 0x348)) anything" by (rule after_step) (use popcount_code(5) in fastforce)
  then have "after dv m (?r(2 := ?r 0 - 1, 15 := 0x34A)) anything" by (rule after_step) (use popcount_code(6) in fastforce)
  then have "after dv m (?r(2 := ?r 0 - 1, 0 := ?r 0 AND (?r 0 - 1), 15 := 0x34C)) anything"
    by (rule after_step) (use popcount_code(7) in fastforce)
  then have "after dv m (?r(2 := ?r 0 - 1, 0 := ?r 0 AND (?r 0 - 1), 1 := ?r 1 + 1, 15 := 0x34E)) anything"
    by (rule after_step) (use popcount_code(8) in fastforce)
  then have "after dv m (?r(2 := ?r 0 - 1, 0 := ?r 0 AND (?r 0 - 1), 1 := ?r 1 + 1, 15 := 0x342)) anything"
    by (rule after_step) (use popcount_code(9) in fastforce)
  then show ?thesis using assms(2) by (simp add: fun_upd_twist fun_upd_idem)
qed

lemma bits_without_lowest:
  assumes "(x :: u32) \<noteq> 0"
  shows "card {i. bit x i} = Suc (card {i. bit (x AND (x - 1)) i})"
proof -
  have "finite {i. bit x i}" by (rule finite_subset [of _ "{..<32}"]) (auto dest: bit_imp_le_length)
  moreover have "{i. bit (x AND (x - 1)) i} = {i. bit x i} - {ctz32 x}"
    using assms by (auto simp: and_minus_1_clears_lowest bit_unset_bit_iff)
  ultimately show ?thesis using card.remove [of "{i. bit x i}" "ctz32 x"] ctz32_props(1) [OF assms] by simp
qed

lemma after_again:
  assumes "after dv m r P" "\<And>m'. rom_in m' \<Longrightarrow> cpu_r (m_cpu m') = r \<Longrightarrow> P m' \<Longrightarrow> \<exists>s. after dv m' s anything \<and> Q s"
  shows "\<exists>s. after dv m s anything \<and> Q s"
proof -
  from assms(1) obtain n where n: "rom_in ((rom_step dv ^^ n) m)" "cpu_r (m_cpu ((rom_step dv ^^ n) m)) = r" "P ((rom_step dv ^^ n) m)"
    by (auto simp: after_def)
  from assms(2) [OF this] obtain s k where "rom_in ((rom_step dv ^^ (k + n)) m)" "cpu_r (m_cpu ((rom_step dv ^^ (k + n)) m)) = s" "Q s"
    by (auto simp: after_def funpow_add)
  then show ?thesis unfolding after_def by blast
qed

lemma popcount_loop:
  assumes "rom_in m" "reg m 15 = 0x342"
  shows "\<exists>r. after dv m r anything \<and> r 15 = 0x350 \<and> r 1 = reg m 1 + of_nat (card {i. bit (reg m 0) i}) \<and> r 14 = reg m 14"
  using assms
proof (induction "card {i. bit (reg m 0) i}" arbitrary: m)
  case 0
  have "finite {i. bit (reg m 0) i}" by (rule finite_subset [of _ "{..<32}"]) (auto dest: bit_imp_le_length)
  with 0 have z: "reg m 0 = 0" by (auto intro!: bit_word_eqI)
  let ?r = "cpu_r (m_cpu m)"
  have "after dv m ?r anything" using 0 by (intro after_start) simp_all
  then have "after dv m (?r(15 := 0x344)) (\<lambda>m. taken m 0)" by (rule after_step) (use popcount_code(2) 0(3) z in fastforce)
  then have "after dv m (?r(15 := 0x350)) anything" by (rule after_step) (use popcount_code(3) in fastforce)
  then show ?case using z by - (rule exI, rule conjI, assumption, simp)
next
  case (Suc k)
  let ?x = "reg m 0" and ?r = "cpu_r (m_cpu m)"
  let ?s = "?r(0 := ?x AND (?x - 1), 1 := reg m 1 + 1, 2 := ?x - 1)"
  have x: "?x \<noteq> 0"
  proof
    assume "?x = 0"
    then have "{i. bit ?x i} = {}" by auto
    then have "card {i. bit ?x i} = 0" by (simp only: card.empty)
    then show False using Suc.hyps(2) by linarith
  qed
  have c: "card {i. bit ?x i} = Suc (card {i. bit (?x AND (?x - 1)) i})" by (rule bits_without_lowest [OF x])
  have a: "after dv m ?s anything" by (rule popcount_round [OF Suc.prems x])
  show ?case
  proof (rule after_again [OF a])
    fix m' :: "('a, 'b, 'c) emu"
    assume m': "rom_in m'" "cpu_r (m_cpu m') = ?s"
    with Suc.hyps(1) [of m'] c Suc.hyps(2) Suc.prems(2)
    show "\<exists>r. after dv m' r anything \<and> r 15 = 0x350 \<and> r 1 = reg m 1 + of_nat (card {i. bit ?x i}) \<and> r 14 = reg m 14"
      by (simp add: algebra_simps)
  qed
qed

text \<open>The number of leading and of trailing zeros of a word that is not zero.\<close>

definition leading_zeros :: "u32 \<Rightarrow> nat \<Rightarrow> bool" where
  "leading_zeros x n \<longleftrightarrow> n < 32 \<and> bit x (31 - n) \<and> (\<forall>j < n. \<not> bit x (31 - j))"

definition trailing_zeros :: "u32 \<Rightarrow> nat \<Rightarrow> bool" where
  "trailing_zeros x n \<longleftrightarrow> n < 32 \<and> bit x n \<and> (\<forall>j < n. \<not> bit x j)"

lemma clz_loop:
  assumes "rom_in m" "reg m 15 = 0x366" "reg m 0 = shl x k" "reg m 1 = of_nat k" "leading_zeros x n" "k \<le> n"
  shows "\<exists>r. after dv m r anything \<and> r 15 = 0x36E \<and> r 1 = of_nat n \<and> r 14 = reg m 14"
  using assms
proof (induction "n - k" arbitrary: k m)
  case 0
  let ?r = "cpu_r (m_cpu m)"
  have b: "bit (reg m 0) 31" using 0 by (simp add: leading_zeros_def bit_push_bit_iff)
  have "after dv m ?r anything" using 0 by (intro after_start) simp_all
  then have "after dv m (?r(0 := shl (?r 0) 1, 15 := 0x368)) (\<lambda>m. taken m 2)"
    by (rule after_step) (use clz_code(5) 0(3) b in fastforce)
  then have "after dv m (?r(0 := shl (?r 0) 1, 15 := 0x36E)) anything" by (rule after_step) (use clz_code(6) in fastforce)
  then show ?case using 0 by - (rule exI, rule conjI, assumption, simp)
next
  case (Suc j)
  let ?r = "cpu_r (m_cpu m)"
  have k: "k < n" "n < 32" using Suc.hyps(2) Suc.prems(5) by (auto simp: leading_zeros_def)
  have b: "\<not> bit (reg m 0) 31" using Suc.prems(3,5) k by (auto simp: leading_zeros_def bit_push_bit_iff)
  have "after dv m ?r anything" using Suc.prems by (intro after_start) simp_all
  then have "after dv m (?r(0 := shl (?r 0) 1, 15 := 0x368)) (\<lambda>m. \<not> taken m 2)"
    by (rule after_step) (use clz_code(5) Suc.prems(2) b in fastforce)
  then have "after dv m (?r(0 := shl (?r 0) 1, 15 := 0x36A)) anything" by (rule after_step) (use clz_code(7) in fastforce)
  then have "after dv m (?r(0 := shl (?r 0) 1, 1 := ?r 1 + 1, 15 := 0x36C)) anything" by (rule after_step) (use clz_code(8) in fastforce)
  then have a: "after dv m (?r(0 := shl (?r 0) 1, 1 := ?r 1 + 1, 15 := 0x366)) anything" by (rule after_step) (use clz_code(9) in fastforce)
  show ?case
  proof (rule after_again [OF a])
    fix m' :: "('a, 'b, 'c) emu"
    assume "rom_in m'" "cpu_r (m_cpu m') = ?r(0 := shl (?r 0) 1, 1 := ?r 1 + 1, 15 := 0x366)"
    then show "\<exists>r. after dv m' r anything \<and> r 15 = 0x36E \<and> r 1 = of_nat n \<and> r 14 = reg m 14"
      using Suc.hyps(1) [of "Suc k" m'] Suc.hyps(2) Suc.prems k by (simp add: add.commute)
  qed
qed

lemma ctz_loop:
  assumes "rom_in m" "reg m 15 = 0x386" "reg m 0 = shr x k" "reg m 1 = of_nat k" "trailing_zeros x n" "k \<le> n"
  shows "\<exists>r. after dv m r anything \<and> r 15 = 0x392 \<and> r 1 = of_nat n \<and> r 14 = reg m 14"
  using assms
proof (induction "n - k" arbitrary: k m)
  case 0
  let ?r = "cpu_r (m_cpu m)"
  have "odd (?r 0)" using 0 by (simp add: trailing_zeros_def bit_iff_odd_drop_bit)
  then have b: "?r 0 AND 1 \<noteq> 0" by (simp add: and_one_eq odd_iff_mod_2_eq_one)
  have "after dv m ?r anything" using 0 by (intro after_start) simp_all
  then have "after dv m (?r(2 := 1, 15 := 0x388)) anything" by (rule after_step) (use ctz_code(5) 0(3) in fastforce)
  then have "after dv m (?r(2 := 1, 15 := 0x38A)) (\<lambda>m. taken m 1)" by (rule after_step) (use ctz_code(6) b in fastforce)
  then have "after dv m (?r(2 := 1, 15 := 0x392)) anything" by (rule after_step) (use ctz_code(7) in fastforce)
  then show ?case using 0 by - (rule exI, rule conjI, assumption, simp)
next
  case (Suc j)
  let ?r = "cpu_r (m_cpu m)"
  have k: "k < n" "n < 32" using Suc.hyps(2) Suc.prems(5) by (auto simp: trailing_zeros_def)
  have "even (?r 0)" using Suc.prems(3,5) k by (simp add: trailing_zeros_def bit_iff_odd_drop_bit)
  then have b: "?r 0 AND 1 = 0" by (simp add: and_one_eq even_iff_mod_2_eq_zero)
  have "after dv m ?r anything" using Suc.prems by (intro after_start) simp_all
  then have "after dv m (?r(2 := 1, 15 := 0x388)) anything" by (rule after_step) (use ctz_code(5) Suc.prems(2) in fastforce)
  then have "after dv m (?r(2 := 1, 15 := 0x38A)) (\<lambda>m. \<not> taken m 1)" by (rule after_step) (use ctz_code(6) b in fastforce)
  then have "after dv m (?r(2 := 1, 15 := 0x38C)) anything" by (rule after_step) (use ctz_code(8) in fastforce)
  then have "after dv m (?r(2 := 1, 0 := shr (?r 0) 1, 15 := 0x38E)) anything" by (rule after_step) (use ctz_code(9) in fastforce)
  then have "after dv m (?r(2 := 1, 0 := shr (?r 0) 1, 1 := ?r 1 + 1, 15 := 0x390)) anything" by (rule after_step) (use ctz_code(10) in fastforce)
  then have a: "after dv m (?r(2 := 1, 0 := shr (?r 0) 1, 1 := ?r 1 + 1, 15 := 0x386)) anything" by (rule after_step) (use ctz_code(11) in fastforce)
  show ?case
  proof (rule after_again [OF a])
    fix m' :: "('a, 'b, 'c) emu"
    assume "rom_in m'" "cpu_r (m_cpu m') = ?r(2 := 1, 0 := shr (?r 0) 1, 1 := ?r 1 + 1, 15 := 0x386)"
    then show "\<exists>r. after dv m' r anything \<and> r 15 = 0x392 \<and> r 1 = of_nat n \<and> r 14 = reg m 14"
      using Suc.hyps(1) [of "Suc k" m'] Suc.hyps(2) Suc.prems k by (simp add: add.commute)
  qed
qed

lemma zero_returns_32:
  assumes "rom_in m" "reg m 0 = 0" "reg m 15 = 0x360 \<or> reg m 15 = 0x380"
  shows "\<exists>r. after dv m r anything \<and> r 0 = 32 \<and> (r 15 = 0x374 \<or> r 15 = 0x398) \<and> r 14 = reg m 14"
  using assms(3)
proof
  let ?r = "cpu_r (m_cpu m)"
  have s: "after dv m ?r anything" using assms by (intro after_start) simp_all
  assume pc: "reg m 15 = 0x360"
  from s have "after dv m (?r(1 := 0, 15 := 0x362)) anything" by (rule after_step) (use clz_code(1) pc in fastforce)
  then have "after dv m (?r(1 := 0, 15 := 0x364)) (\<lambda>m. taken m 0)" by (rule after_step) (use clz_code(2) assms(2) in fastforce)
  then have "after dv m (?r(1 := 0, 15 := 0x372)) anything" by (rule after_step) (use clz_code(3) in fastforce)
  then have "after dv m (?r(1 := 0, 0 := 32, 15 := 0x374)) anything" by (rule after_step) (use clz_code(11) in fastforce)
  then show ?thesis by - (rule exI, rule conjI, assumption, simp)
next
  let ?r = "cpu_r (m_cpu m)"
  have s: "after dv m ?r anything" using assms by (intro after_start) simp_all
  assume pc: "reg m 15 = 0x380"
  from s have "after dv m (?r(1 := 0, 15 := 0x382)) anything" by (rule after_step) (use ctz_code(1) pc in fastforce)
  then have "after dv m (?r(1 := 0, 15 := 0x384)) (\<lambda>m. taken m 0)" by (rule after_step) (use ctz_code(2) assms(2) in fastforce)
  then have "after dv m (?r(1 := 0, 15 := 0x396)) anything" by (rule after_step) (use ctz_code(3) in fastforce)
  then have "after dv m (?r(1 := 0, 0 := 32, 15 := 0x398)) anything" by (rule after_step) (use ctz_code(13) in fastforce)
  then show ?thesis by - (rule exI, rule conjI, assumption, simp)
qed

lemma popcount_result:
  assumes "rom_in m" "reg m 15 = 0x340"
  shows "\<exists>r. after dv m r anything \<and> r 0 = of_nat (card {i. bit (reg m 0) i}) \<and> r 15 = 0x352 \<and> r 14 = reg m 14"
proof -
  let ?r = "cpu_r (m_cpu m)"
  have "after dv m ?r anything" using assms by (intro after_start) simp_all
  then have a: "after dv m (?r(1 := 0, 15 := 0x342)) anything" by (rule after_step) (use popcount_code(1) assms(2) in fastforce)
  have "\<exists>r. after dv m r anything \<and> r 15 = 0x350 \<and> r 1 = of_nat (card {i. bit (reg m 0) i}) \<and> r 14 = reg m 14"
    by (rule after_again [OF a]) (use popcount_loop in fastforce)
  then obtain r where r: "after dv m r anything" "r 15 = 0x350" "r 1 = of_nat (card {i. bit (reg m 0) i})" "r 14 = reg m 14" by blast
  from r(1) have "after dv m (r(0 := r 1, 15 := 0x352)) anything" by (rule after_step) (use popcount_code(10) r(2) in fastforce)
  then show ?thesis using r by - (rule exI, rule conjI, assumption, simp)
qed

lemma clz_result:
  assumes "rom_in m" "reg m 15 = 0x360" "leading_zeros (reg m 0) n"
  shows "\<exists>r. after dv m r anything \<and> r 0 = of_nat n \<and> r 15 = 0x370 \<and> r 14 = reg m 14"
proof -
  let ?r = "cpu_r (m_cpu m)"
  have x: "reg m 0 \<noteq> 0" using assms(3) by (auto simp: leading_zeros_def)
  have "after dv m ?r anything" using assms by (intro after_start) simp_all
  then have "after dv m (?r(1 := 0, 15 := 0x362)) anything" by (rule after_step) (use clz_code(1) assms(2) in fastforce)
  then have "after dv m (?r(1 := 0, 15 := 0x364)) (\<lambda>m. \<not> taken m 0)" by (rule after_step) (use clz_code(2) x in fastforce)
  then have a: "after dv m (?r(1 := 0, 15 := 0x366)) anything" by (rule after_step) (use clz_code(4) in fastforce)
  have "\<exists>r. after dv m r anything \<and> r 15 = 0x36E \<and> r 1 = of_nat n \<and> r 14 = reg m 14"
    by (rule after_again [OF a]) (use clz_loop [where x = "reg m 0" and k = 0] assms(3) in fastforce)
  then obtain r where r: "after dv m r anything" "r 15 = 0x36E" "r 1 = of_nat n" "r 14 = reg m 14" by blast
  from r(1) have "after dv m (r(0 := r 1, 15 := 0x370)) anything" by (rule after_step) (use clz_code(10) r(2) in fastforce)
  then show ?thesis using r by - (rule exI, rule conjI, assumption, simp)
qed

lemma ctz_result:
  assumes "rom_in m" "reg m 15 = 0x380" "trailing_zeros (reg m 0) n"
  shows "\<exists>r. after dv m r anything \<and> r 0 = of_nat n \<and> r 15 = 0x394 \<and> r 14 = reg m 14"
proof -
  let ?r = "cpu_r (m_cpu m)"
  have x: "reg m 0 \<noteq> 0" using assms(3) by (auto simp: trailing_zeros_def)
  have "after dv m ?r anything" using assms by (intro after_start) simp_all
  then have "after dv m (?r(1 := 0, 15 := 0x382)) anything" by (rule after_step) (use ctz_code(1) assms(2) in fastforce)
  then have "after dv m (?r(1 := 0, 15 := 0x384)) (\<lambda>m. \<not> taken m 0)" by (rule after_step) (use ctz_code(2) x in fastforce)
  then have a: "after dv m (?r(1 := 0, 15 := 0x386)) anything" by (rule after_step) (use ctz_code(4) in fastforce)
  have "\<exists>r. after dv m r anything \<and> r 15 = 0x392 \<and> r 1 = of_nat n \<and> r 14 = reg m 14"
    by (rule after_again [OF a]) (use ctz_loop [where x = "reg m 0" and k = 0] assms(3) in fastforce)
  then obtain r where r: "after dv m r anything" "r 15 = 0x392" "r 1 = of_nat n" "r 14 = reg m 14" by blast
  from r(1) have "after dv m (r(0 := r 1, 15 := 0x394)) anything" by (rule after_step) (use ctz_code(12) r(2) in fastforce)
  then show ?thesis using r by - (rule exI, rule conjI, assumption, simp)
qed

lemma returns_from:
  assumes "after dv m r anything" "rd16 rom_init (unat (r 15)) = 0x4770" "r 15 < 0x3FFF" "r 14 = reg m 14"
    "reg m 14 AND 0xFFFFFFF0 \<noteq> 0xFFFFFFF0"
  shows "\<exists>n. reg ((rom_step dv ^^ n) m) 0 = r 0 \<and> reg ((rom_step dv ^^ n) m) 15 = reg m 14 AND NOT 1"
proof -
  from after_bx [OF assms(1-3)] assms(4,5) obtain n where "cpu_r (m_cpu ((rom_step dv ^^ n) m)) = r(15 := r 14 AND NOT 1)"
    by (auto simp: after_def)
  then show ?thesis using assms(4) by (intro exI [of _ n]) simp
qed

text \<open>C22. The bit-counting functions of the ROM are right: run by the processor from their entries, they return to
  the caller with the number of ones, of leading zeros and of trailing zeros of the argument.\<close>

theorem rom_bit_functions:
  assumes "rom_in m" "reg m 14 AND 0xFFFFFFF0 \<noteq> 0xFFFFFFF0" "reg m 15 = entry"
    and "entry = 0x340 \<and> result = of_nat (card {i. bit (reg m 0) i}) \<or>
      entry = 0x360 \<and> (if reg m 0 = 0 then result = 32 else \<exists>k. leading_zeros (reg m 0) k \<and> result = of_nat k) \<or>
      entry = 0x380 \<and> (if reg m 0 = 0 then result = 32 else \<exists>k. trailing_zeros (reg m 0) k \<and> result = of_nat k)"
  shows "\<exists>n. reg ((rom_step dv ^^ n) m) 0 = result \<and> reg ((rom_step dv ^^ n) m) 15 = reg m 14 AND NOT 1"
proof -
  have "\<exists>r. after dv m r anything \<and> r 0 = result \<and> r 15 \<in> {0x352, 0x370, 0x374, 0x394, 0x398} \<and> r 14 = reg m 14"
    using assms(3,4) popcount_result [OF assms(1), of dv] clz_result [OF assms(1), of _ dv] ctz_result [OF assms(1), of _ dv]
      zero_returns_32 [OF assms(1), of dv]
    by (fastforce split: if_splits)
  then obtain r where r: "after dv m r anything" "r 0 = result" "r 15 \<in> {0x352, 0x370, 0x374, 0x394, 0x398}" "r 14 = reg m 14" by blast
  have "rd16 rom_init (unat (r 15)) = 0x4770 \<and> r 15 < 0x3FFF" using r(3) by (auto simp: rom_code)
  then show ?thesis using returns_from [OF r(1) _ _ r(4) assms(2)] r(2) by blast
qed

definition rom_demo :: "u32 \<Rightarrow> u32 \<Rightarrow> u32 \<Rightarrow> (unit, unit, unit) emu" where
  "rom_demo entry r0 r1 = upd_cpu (\<lambda>c. set_r 15 entry (set_r 14 0x10000101 (set_r 1 r1 (set_r 0 r0 c))))
     (upd_bus (\<lambda>b. b\<lparr>b_rom := rom_init\<rparr>) (emu_boot False))"

lemma rom_demo_simps:
  "rom_in (rom_demo entry r0 r1)" "reg (rom_demo entry r0 r1) 15 = entry" "reg (rom_demo entry r0 r1) 14 = 0x10000101"
  "reg (rom_demo entry r0 r1) 0 = r0" "reg (rom_demo entry r0 r1) 1 = r1"
  by (simp_all add: rom_demo_def rom_in_def upd_cpu_def upd_bus_def set_r_def)

theorem rom_bit_functions_witness:
  "\<exists>n. reg ((rom_step no_devices ^^ n) (rom_demo 0x340 7 0)) 0 = 3 \<and> reg ((rom_step no_devices ^^ n) (rom_demo 0x340 7 0)) 15 = 0x10000100"
proof -
  have "(7 :: u32) = mask 3" by (simp add: mask_eq_exp_minus_1)
  then have "{i. bit (7 :: u32) i} = {0, 1, 2}" by (simp only: bit_mask_iff) (auto simp: possible_bit_def)
  then have "0x340 = (0x340 :: u32) \<and> (3 :: u32) = of_nat (card {i. bit (reg (rom_demo 0x340 7 0) 0) i})"
    by (simp add: rom_demo_simps)
  then show ?thesis
    using rom_bit_functions [of "rom_demo 0x340 7 0" "0x340" 3 no_devices] by (simp add: rom_demo_simps)
qed

section \<open>The lookup function\<close>

lemma rom_read16_low:
  assumes "rom_in m" "a < 0x3F00"
  shows "mem_read16 dv a m = (rd16 rom_init (unat a), m)"
proof -
  have a: "unat a < 0x3F00" using assms(2) by (simp add: word_less_nat_alt)
  have "a < 2 ^ 14" using a by (simp add: word_less_nat_alt)
  from less_mask_eq [OF this] have m: "a AND 0x3FFF = a" by (simp add: mask_eq_exp_minus_1)
  have "unat (a + 1) = unat a + 1" using a by (simp add: unat_word_ariths)
  then have "a + 1 < 0x4000" "a < 0x4000" using a by (simp_all add: word_less_nat_alt)
  moreover have "sram_alias_translate a = a" using a by (simp add: sram_alias_translate_def in_block_def word_le_nat_alt)
  ultimately show ?thesis using assms(1) by (simp add: mem_read16_def rom_read16_def m rom_in_def Let_def)
qed

lemma run_ldrh:
  assumes "rom_at m pc i" "unat (shr i 8) \<in> {0x88..0x8F}"
    and "reg m (idx i 3 7) + shl (ucast (shr i 6 AND 0x1F)) 1 = a" "a < 0x3F00"
  shows "runs_to dv m ((cpu_r (m_cpu m))(idx i 0 7 := ucast (rd16 rom_init (unat a)), 15 := pc + 2))"
proof -
  have "dispatch_table (system_platform dv) (unat (shr i 8)) i m' = upd_cpu (set_r (idx i 0 7) (ucast (rd16 rom_init (unat a)))) m'"
    if "m_cpu m' = (m_cpu m)\<lparr>cpu_step_count := cpu_step_count (m_cpu m) + 1, pc_updated := False\<rparr>" "m_bus m' = m_bus m" for m'
  proof -
    have "rom_in m'" using that(2) assms(1) by (simp add: rom_at_def rom_in_def)
    moreover have "reg m' (idx i 3 7) + shl (ucast (shr i 6 AND 0x1F)) 1 = a" using that(1) assms(3) by simp
    ultimately show ?thesis
      using assms(2) rom_read16_low [OF _ assms(4), of m' dv]
      by (simp add: dispatch_table_def instr_ldrh_imm5_def system_platform_def)
  qed
  then have "m_cpu (rom_step dv m) = cpu_next (set_r (idx i 0 7) (ucast (rd16 rom_init (unat a)))) (m_cpu m) \<and> rom_in (rom_step dv m)"
    using assms(1) rom_step_cpu [where i = i and dv = dv and m = m] by (simp add: rom_at_def word_le_nat_alt)
  then show ?thesis using assms(1) by (simp add: runs_to_def cpu_next_def rom_at_def)
qed

lemma lookup_code:
  assumes "rom_in m"
  shows "reg m 15 = 0x200 \<Longrightarrow> reg m 0 < 0x3F00 \<Longrightarrow> runs_to dv m ((cpu_r (m_cpu m))(2 := ucast (rd16 rom_init (unat (reg m 0))), 15 := 0x202))"
    "reg m 15 = 0x202 \<Longrightarrow> runs_to dv m ((cpu_r (m_cpu m))(15 := 0x204)) \<and> taken (rom_step dv m) 0 = (reg m 2 = 0)"
    "reg m 15 = 0x204 \<Longrightarrow> taken m 0 \<Longrightarrow> runs_to dv m ((cpu_r (m_cpu m))(15 := 0x212))"
    "reg m 15 = 0x204 \<Longrightarrow> \<not> taken m 0 \<Longrightarrow> runs_to dv m ((cpu_r (m_cpu m))(15 := 0x206))"
    "reg m 15 = 0x206 \<Longrightarrow> runs_to dv m ((cpu_r (m_cpu m))(15 := 0x208)) \<and> taken (rom_step dv m) 0 = (reg m 2 = reg m 1)"
    "reg m 15 = 0x208 \<Longrightarrow> taken m 0 \<Longrightarrow> runs_to dv m ((cpu_r (m_cpu m))(15 := 0x20E))"
    "reg m 15 = 0x208 \<Longrightarrow> \<not> taken m 0 \<Longrightarrow> runs_to dv m ((cpu_r (m_cpu m))(15 := 0x20A))"
    "reg m 15 = 0x20A \<Longrightarrow> runs_to dv m ((cpu_r (m_cpu m))(0 := reg m 0 + 4, 15 := 0x20C))"
    "reg m 15 = 0x20C \<Longrightarrow> runs_to dv m ((cpu_r (m_cpu m))(15 := 0x200))"
    "reg m 15 = 0x20E \<Longrightarrow> reg m 0 + 2 < 0x3F00 \<Longrightarrow> runs_to dv m ((cpu_r (m_cpu m))(0 := ucast (rd16 rom_init (unat (reg m 0 + 2))), 15 := 0x210))"
    "reg m 15 = 0x212 \<Longrightarrow> runs_to dv m ((cpu_r (m_cpu m))(0 := 0, 15 := 0x214))"
  using run_ldrh [of m "0x200" "0x8802" "reg m 0" dv] assms apply (simp add: rom_at_def rom_code)
  using run_cmp_imm [of m "0x202" "0x2A00" dv] assms apply (simp add: rom_at_def rom_code)
  using run_bcond(1) [of m "0x204" "0xD005" dv] assms apply (simp add: rom_at_def rom_code)
  using run_bcond(2) [of m "0x204" "0xD005" dv] assms apply (simp add: rom_at_def rom_code)
  using run_cmp_reg [of m "0x206" "0x428A" dv] assms apply (simp add: rom_at_def rom_code)
  using run_bcond(1) [of m "0x208" "0xD001" dv] assms apply (simp add: rom_at_def rom_code)
  using run_bcond(2) [of m "0x208" "0xD001" dv] assms apply (simp add: rom_at_def rom_code)
  using run_add_imm [of m "0x20A" "0x3004" dv] assms apply (simp add: rom_at_def rom_code)
  using run_b [of m "0x20C" "0xE7F8" dv] assms apply (simp add: rom_at_def rom_code)
  using run_ldrh [of m "0x20E" "0x8840" "reg m 0 + 2" dv] assms apply (simp add: rom_at_def rom_code)
  using run_movs_imm [of m "0x212" "0x2000" dv] assms apply (simp add: rom_at_def rom_code)
  done

text \<open>A table in the image: pairs of a code and a pointer, closed by a zero code.\<close>

fun rom_table :: "u32 \<Rightarrow> (u16 \<times> u16) list \<Rightarrow> bool" where
  "rom_table t [] \<longleftrightarrow> t < 0x3F00 \<and> rd16 rom_init (unat t) = 0"
| "rom_table t ((code, ptr) # es) \<longleftrightarrow> t < 0x3F00 \<and> t + 2 < 0x3F00 \<and> rd16 rom_init (unat t) = code \<and> code \<noteq> 0 \<and>
     rd16 rom_init (unat (t + 2)) = ptr \<and> rom_table (t + 4) es"

definition table_result :: "(u16 \<times> u16) list \<Rightarrow> u32 \<Rightarrow> u32" where
  "table_result es code = (case map_of (map (\<lambda>(c, p). (ucast c, ucast p)) es) code of None \<Rightarrow> 0 | Some p \<Rightarrow> p)"

lemma ucast_u16_zero: "ucast (c :: u16) = (0 :: u32) \<longleftrightarrow> c = 0"
  using ucast_down_up [of c, where 'a = 32] by (auto dest: arg_cong [of _ _ "\<lambda>x. ucast x :: u16"])

lemma lookup_round:
  assumes "rom_in m" "reg m 15 = 0x200" "reg m 0 < 0x3F00" "c = ucast (rd16 rom_init (unat (reg m 0)))" "c \<noteq> 0" "c \<noteq> reg m 1"
  shows "after dv m ((cpu_r (m_cpu m))(2 := c, 0 := reg m 0 + 4, 15 := 0x200)) anything"
proof -
  let ?r = "cpu_r (m_cpu m)"
  have "after dv m ?r anything" using assms by (intro after_start) simp_all
  then have "after dv m (?r(2 := c, 15 := 0x202)) anything" by (rule after_step) (use lookup_code(1) assms(2-4) in fastforce)
  then have "after dv m (?r(2 := c, 15 := 0x204)) (\<lambda>m. \<not> taken m 0)" by (rule after_step) (use lookup_code(2) assms(5) in fastforce)
  then have "after dv m (?r(2 := c, 15 := 0x206)) anything" by (rule after_step) (use lookup_code(4) in fastforce)
  then have "after dv m (?r(2 := c, 15 := 0x208)) (\<lambda>m. \<not> taken m 0)" by (rule after_step) (use lookup_code(5) assms(6) in fastforce)
  then have "after dv m (?r(2 := c, 15 := 0x20A)) anything" by (rule after_step) (use lookup_code(7) in fastforce)
  then have "after dv m (?r(2 := c, 0 := ?r 0 + 4, 15 := 0x20C)) anything" by (rule after_step) (use lookup_code(8) in fastforce)
  then show "after dv m (?r(2 := c, 0 := ?r 0 + 4, 15 := 0x200)) anything" by (rule after_step) (use lookup_code(9) in fastforce)
qed

lemma lookup_ends:
  assumes "rom_in m" "reg m 15 = 0x200" "reg m 0 < 0x3F00" "c = ucast (rd16 rom_init (unat (reg m 0)))"
  shows "c = 0 \<Longrightarrow> after dv m ((cpu_r (m_cpu m))(2 := c, 0 := 0, 15 := 0x214)) anything"
    "c \<noteq> 0 \<Longrightarrow> c = reg m 1 \<Longrightarrow> reg m 0 + 2 < 0x3F00 \<Longrightarrow>
       after dv m ((cpu_r (m_cpu m))(2 := c, 0 := ucast (rd16 rom_init (unat (reg m 0 + 2))), 15 := 0x210)) anything"
proof -
  let ?r = "cpu_r (m_cpu m)"
  have "after dv m ?r anything" using assms by (intro after_start) simp_all
  then have s: "after dv m (?r(2 := c, 15 := 0x202)) anything" by (rule after_step) (use lookup_code(1) assms(2-4) in fastforce)
  {
    assume "c = 0"
    with s have "after dv m (?r(2 := c, 15 := 0x204)) (\<lambda>m. taken m 0)" by - (rule after_step, assumption, use lookup_code(2) in fastforce)
    then have "after dv m (?r(2 := c, 15 := 0x212)) anything" by (rule after_step) (use lookup_code(3) in fastforce)
    then show "after dv m (?r(2 := c, 0 := 0, 15 := 0x214)) anything" by (rule after_step) (use lookup_code(11) in fastforce)
  }
  assume c: "c \<noteq> 0" "c = reg m 1" "reg m 0 + 2 < 0x3F00"
  from s have "after dv m (?r(2 := c, 15 := 0x204)) (\<lambda>m. \<not> taken m 0)" by (rule after_step) (use lookup_code(2) c(1) in fastforce)
  then have "after dv m (?r(2 := c, 15 := 0x206)) anything" by (rule after_step) (use lookup_code(4) in fastforce)
  then have "after dv m (?r(2 := c, 15 := 0x208)) (\<lambda>m. taken m 0)" by (rule after_step) (use lookup_code(5) c(2) in fastforce)
  then have "after dv m (?r(2 := c, 15 := 0x20E)) anything" by (rule after_step) (use lookup_code(6) in fastforce)
  then show "after dv m (?r(2 := c, 0 := ucast (rd16 rom_init (unat (?r 0 + 2))), 15 := 0x210)) anything"
    by (rule after_step) (use lookup_code(10) c(3) in fastforce)
qed

lemma lookup_result:
  assumes "rom_in m" "reg m 15 = 0x200" "rom_table (reg m 0) es"
  shows "\<exists>r. after dv m r anything \<and> r 0 = table_result es (reg m 1) \<and> (r 15 = 0x210 \<or> r 15 = 0x214) \<and> r 14 = reg m 14"
  using assms
proof (induction es arbitrary: m)
  case Nil
  have "after dv m ((cpu_r (m_cpu m))(2 := 0, 0 := 0, 15 := 0x214)) anything"
    using lookup_ends(1) [of m 0 dv] Nil by simp
  then show ?case by - (rule exI, rule conjI, assumption, simp add: table_result_def)
next
  case (Cons e es)
  obtain code ptr where e: "e = (code, ptr)" by (cases e)
  note t = Cons.prems(3) [unfolded e rom_table.simps]
  have nz: "ucast code \<noteq> (0 :: u32)" using t by (simp add: ucast_u16_zero)
  show ?case
  proof (cases "ucast code = reg m 1")
    case True
    have "after dv m ((cpu_r (m_cpu m))(2 := ucast code, 0 := ucast ptr, 15 := 0x210)) anything"
      using lookup_ends(2) [of m "ucast code" dv] Cons.prems t nz True by simp
    then show ?thesis using True by - (rule exI, rule conjI, assumption, simp add: table_result_def e)
  next
    case False
    have a: "after dv m ((cpu_r (m_cpu m))(2 := ucast code, 0 := reg m 0 + 4, 15 := 0x200)) anything"
      using t nz False Cons.prems by (intro lookup_round) simp_all
    show ?thesis
    proof (rule after_again [OF a])
      fix m' :: "('a, 'b, 'c) emu"
      assume "rom_in m'" "cpu_r (m_cpu m') = (cpu_r (m_cpu m))(2 := ucast code, 0 := reg m 0 + 4, 15 := 0x200)"
      then show "\<exists>r. after dv m' r anything \<and> r 0 = table_result (e # es) (reg m 1) \<and> (r 15 = 0x210 \<or> r 15 = 0x214) \<and> r 14 = reg m 14"
        using Cons.IH [of m'] t False by (simp add: table_result_def e)
    qed
  qed
qed

lemma rom_tables: "rom_table 0x100 rom_functions" "rom_table 0x180 [(0x4653, 0x400), (0x4453, 0x440)]"
  by (simp_all add: rom_functions_def rom_code)

text \<open>C23. The lookup function of the ROM finds every function and every table: run by the processor with the
  table of functions or of data and any code, it returns to the caller with the pointer of that code, or
  with zero if the code is not in the table.\<close>

theorem rom_lookup_complete:
  assumes "rom_in m" "reg m 14 AND 0xFFFFFFF0 \<noteq> 0xFFFFFFF0" "reg m 15 = 0x200"
    and "reg m 0 = 0x100 \<and> es = rom_functions \<or> reg m 0 = 0x180 \<and> es = [(0x4653, 0x400), (0x4453, 0x440)]"
  shows "\<exists>n. reg ((rom_step dv ^^ n) m) 0 = table_result es (reg m 1) \<and> reg ((rom_step dv ^^ n) m) 15 = reg m 14 AND NOT 1"
proof -
  have "rom_table (reg m 0) es" using assms(4) rom_tables by auto
  from lookup_result [OF assms(1,3) this] obtain r
    where r: "after dv m r anything" "r 0 = table_result es (reg m 1)" "r 15 = 0x210 \<or> r 15 = 0x214" "r 14 = reg m 14" by blast
  have "rd16 rom_init (unat (r 15)) = 0x4770 \<and> r 15 < 0x3FFF" using r(3) by (auto simp: rom_code)
  then show ?thesis using returns_from [OF r(1) _ _ r(4) assms(2)] r(2) by metis
qed

theorem rom_lookup_witness:
  "\<exists>n. reg ((rom_step no_devices ^^ n) (rom_demo 0x200 0x100 0x334C)) 0 = 0x361 \<and>
       reg ((rom_step no_devices ^^ n) (rom_demo 0x200 0x100 0x334C)) 15 = 0x10000100"
  using rom_lookup_complete [of "rom_demo 0x200 0x100 0x334C" rom_functions no_devices]
  by (simp add: rom_demo_simps rom_demo_simps(5) [unfolded One_nat_def] table_result_def rom_functions_def)

section \<open>Flash programming\<close>

abbreviation flash_of :: "('d, 'e, 'x) emu \<Rightarrow> nat \<Rightarrow> u8" where
  "flash_of m \<equiv> b_flash (m_bus m)"

definition with_flash :: "(nat \<Rightarrow> u8) \<Rightarrow> ('d, 'e, 'x) emu \<Rightarrow> ('d, 'e, 'x) emu" where
  "with_flash f = upd_bus (\<lambda>b. b\<lparr>b_flash := f\<rparr>)"

lemma with_flash_simps [simp]:
  "with_flash f (with_flash g m) = with_flash f m" "flash_of (with_flash f m) = f" "m_cpu (with_flash f m) = m_cpu m"
  "flash_put o1 v m = with_flash ((flash_of m)(o1 := v)) m" "with_flash (flash_of m) m = m"
  "ram_word a (m_bus (with_flash f m)) = ram_word a (m_bus m)" "get_ram (m_bus (with_flash f m)) = get_ram (m_bus m)"
  "ram_offset a (m_bus (with_flash f m)) = ram_offset a (m_bus m)"
  by (simp_all add: with_flash_def flash_put_def upd_bus_def ram_word_def ram_ready_def get_ram_def ram_offset_def in_active_ram_def Let_def
      split: ram_ptr.split)

lemma with_flash_none: "with_flash (\<lambda>i. if o1 \<le> i \<and> i < o1 then f i else flash_of m i) m = m"
proof -
  have "(\<lambda>i. if o1 \<le> i \<and> i < o1 then f i else flash_of m i) = flash_of m" by (auto simp: fun_eq_iff)
  then show ?thesis by simp
qed

lemma flash_erase_eq: "flash_erase o1 n m = with_flash (\<lambda>i. if o1 \<le> i \<and> i < o1 + n then 0xFF else flash_of m i) m"
proof (induction n arbitrary: o1 m)
  case (Suc n)
  have "(\<lambda>i. if Suc o1 \<le> i \<and> i < Suc o1 + n then 0xFF else ((flash_of m)(o1 := 0xFF)) i) =
      (\<lambda>i. if o1 \<le> i \<and> i < o1 + Suc n then 0xFF else flash_of m i)"
    by (auto simp: fun_eq_iff)
  then show ?case unfolding flash_erase.simps Suc.IH with_flash_simps Suc_eq_plus1 [symmetric] by (simp only:)
qed (simp add: with_flash_none)

lemma read_ram_byte:
  assumes "ram_word a (m_bus m)"
  shows "mem_read8 dv a m = (get_ram (m_bus m) (ram_offset a (m_bus m)), m)"
  using assms ram_not_code_elsewhere [OF assms] ram_word_canonical [OF assms]
  by (simp add: mem_read8_def Let_def in_rom_alias_def ram_word_def)

text \<open>A range of RAM whose bytes can be read one by one.\<close>

definition ram_bytes :: "u32 \<Rightarrow> nat \<Rightarrow> ('d, 'e, 'x) emu \<Rightarrow> bool" where
  "ram_bytes src n m \<longleftrightarrow> (\<forall>k < n. ram_word (src + of_nat k) (m_bus m))"

lemma flash_program_eq:
  "ram_bytes src n m \<Longrightarrow> flash_program dv o1 src n m =
    with_flash (\<lambda>i. if o1 \<le> i \<and> i < o1 + n then get_ram (m_bus m) (ram_offset (src + of_nat (i - o1)) (m_bus m)) else flash_of m i) m"
proof (induction n arbitrary: o1 src m)
  case (Suc n)
  let ?v = "get_ram (m_bus m) (ram_offset src (m_bus m))" and ?m = "with_flash ((flash_of m)(o1 := get_ram (m_bus m) (ram_offset src (m_bus m)))) m"
  have w: "ram_word src (m_bus m)" using Suc.prems by (auto simp: ram_bytes_def dest: spec [of _ 0])
  have r: "mem_read8 dv src m = (?v, m)" by (rule read_ram_byte [OF w])
  have "ram_bytes (src + 1) n ?m"
    unfolding ram_bytes_def
  proof (intro allI impI)
    fix k assume "k < n"
    then show "ram_word (src + 1 + of_nat k) (m_bus ?m)"
      using Suc.prems [unfolded ram_bytes_def, rule_format, of "Suc k"] by (simp add: add.assoc)
  qed
  note ih = Suc.IH [OF this, of "Suc o1"]
  have "(\<lambda>i. if Suc o1 \<le> i \<and> i < Suc o1 + n then get_ram (m_bus m) (ram_offset (src + 1 + of_nat (i - Suc o1)) (m_bus m)) else ((flash_of m)(o1 := ?v)) i) =
      (\<lambda>i. if o1 \<le> i \<and> i < o1 + Suc n then get_ram (m_bus m) (ram_offset (src + of_nat (i - o1)) (m_bus m)) else flash_of m i)"
  proof
    fix i
    have "Suc o1 \<le> i \<Longrightarrow> src + 1 + of_nat (i - Suc o1) = src + of_nat (i - o1)"
      by (metis Suc_diff_Suc Suc_le_lessD add.assoc of_nat_Suc)
    then show "(if Suc o1 \<le> i \<and> i < Suc o1 + n then get_ram (m_bus m) (ram_offset (src + 1 + of_nat (i - Suc o1)) (m_bus m)) else ((flash_of m)(o1 := ?v)) i) =
      (if o1 \<le> i \<and> i < o1 + Suc n then get_ram (m_bus m) (ram_offset (src + of_nat (i - o1)) (m_bus m)) else flash_of m i)"
      by (cases "i = o1") auto
  qed
  then show ?case unfolding flash_program.simps r Let_def prod.case with_flash_simps ih [unfolded with_flash_simps] Suc_eq_plus1 [symmetric] by (simp only:)
qed (simp add: with_flash_none)

text \<open>The flash functions do as asked: reached by a core, the stub of the erase function sets exactly the
  given range of flash to ones, that of the program function copies exactly the given bytes of RAM; a range
  that leaves the 16 MB of flash is ignored. The return to the caller is left to the stub.\<close>

theorem rom_flash_update:
  assumes "pc = 0x3B8 \<or> pc = 0x3BC" "n = unat (if pc = 0x3B8 then reg m 1 else reg m 2)" "o1 = unat (reg m 0)"
    "pc = 0x3BC \<longrightarrow> ram_bytes (reg m 1) n m" "\<And>offs k m. flash_persist_sync h offs k m = m"
  shows "rom_intercept dv h pc m = (False,
    if o1 < 0x1000000 \<and> o1 + n \<le> 0x1000000
    then with_flash (\<lambda>i. if o1 \<le> i \<and> i < o1 + n
      then (if pc = 0x3B8 then 0xFF else get_ram (m_bus m) (ram_offset (reg m 1 + of_nat (i - o1)) (m_bus m)))
      else flash_of m i) m
    else m)"
proof -
  have fits: "(reg m 0 < 0x1000000 \<and> k \<le> 0x1000000 - reg m 0) = (o1 < 0x1000000 \<and> o1 + unat k \<le> 0x1000000)" for k
    using assms(3) unat_sub [of "reg m 0" "0x1000000"] by (auto simp: word_less_nat_alt word_le_nat_alt)
  have s: "stub_call 0x500 pc f m = None" "stub_call 0x540 pc f m = None" for f using assms(1) by (auto simp: stub_call_def)
  have i: "rom_intercept dv h pc m = (False, rom_intercept_flash dv h pc m)"
    using assms(1) by (auto simp: rom_intercept_def s)
  show ?thesis
    using assms(1)
  proof
    assume p: "pc = 0x3B8"
    show ?thesis unfolding i rom_intercept_flash_def Let_def assms(5) fits using p assms(2,3) by (simp add: flash_erase_eq cong: if_cong)
  next
    assume p: "pc = 0x3BC"
    show ?thesis unfolding i rom_intercept_flash_def Let_def assms(5) fits using p assms(2-4) by (simp add: flash_program_eq cong: if_cong)
  qed
qed

definition demo_float :: "'w :: len word host_float" where
  "demo_float = \<lparr>hf_add = (+), hf_sub = (-), hf_mul = (*), hf_div = (div), hf_sqrt = id, hf_cos = id, hf_sin = id, hf_tan = id,
     hf_exp = id, hf_log = id, hf_to_int = ucast, hf_to_uint = ucast, hf_of_int = ucast, hf_of_uint = ucast,
     hf_ldexp = of_nat, hf_negative = (\<lambda>w. w <s 0)\<rparr>"

definition demo_host :: "'m rom_host" where
  "demo_host = \<lparr>rh_float = demo_float, rh_double = demo_float, flash_persist_sync = (\<lambda>_ _ m. m), semihost_exit = (\<lambda>_ m. m)\<rparr>"

theorem rom_flash_update_witness:
  "\<exists>m'. rom_intercept no_devices demo_host 0x3B8 (rom_demo 0x3B8 0x1000 0x1000) = (False, m') \<and>
     flash_of m' 0x1004 = 0xFF \<and> flash_of m' 0x2000 = flash_of (rom_demo 0x3B8 0x1000 0x1000) 0x2000"
proof -
  define m where "m = rom_demo 0x3B8 0x1000 0x1000"
  have r: "reg m 0 = 0x1000" "reg m 1 = 0x1000" unfolding m_def by (rule rom_demo_simps)+
  have p: "(0x3B8 :: u32) = 0x3B8 \<or> (0x3B8 :: u32) = 0x3BC" "0x1000 = unat (if (0x3B8 :: u32) = 0x3B8 then reg m 1 else reg m 2)"
    "0x1000 = unat (reg m 0)" "(0x3B8 :: u32) = 0x3BC \<longrightarrow> ram_bytes (reg m 1) 0x1000 m"
    by (simp_all only: r) simp_all
  have s: "flash_persist_sync demo_host offs k x = x" for offs k and x :: "(unit, unit, unit) emu" by (simp add: demo_host_def)
  show ?thesis
    unfolding m_def [symmetric] using rom_flash_update [OF p s, of no_devices] by (simp cong: if_cong)
qed

section \<open>Where the image and its services deviate\<close>

text \<open>The table of the RP2350 ends where the first stub is placed, so its end marker is lost and the lookup runs
  into the code; the information asked for with every flag is longer than the buffer of sixteen words.\<close>

lemma rp2350_table_end_lost: "rd16 (rom_patch_rp2350_arm rom) 0x7C8 = 0x4770"
  unfolding rom_patch_rp2350_arm_def rom_write16_def by (simp add: rd16_def wr16_def)

lemma rom_sys_info_overflow: "length (rom_sys_info 0x7F) = 17"
  by (simp add: rom_sys_info_def)

end
