(* ===== verification/Vfp.thy ===== *)
theory Vfp
  imports Thumb32
begin

unbundle bit_operations_syntax

text \<open>
  The floating-point unit and the coprocessors of the M33 (\<^verbatim>\<open>src/thumb32.c\<close>): single precision, the
  double-precision coprocessor, which computes when a result is read, and the GPIO coprocessor. Registers hold
  bit patterns; the rounding arithmetic of the host is the argument \<open>hp\<close>, the pins are the argument \<open>gp\<close>.
\<close>

section \<open>Floating point\<close>

text \<open>The arithmetic of the host on bit patterns. Comparison, sign and truncation need no rounding and are
  defined below.\<close>

record host_fp =
  f_add :: "u32 \<Rightarrow> u32 \<Rightarrow> u32"
  f_sub :: "u32 \<Rightarrow> u32 \<Rightarrow> u32"
  f_mul :: "u32 \<Rightarrow> u32 \<Rightarrow> u32"
  f_div :: "u32 \<Rightarrow> u32 \<Rightarrow> u32"
  f_sqrt :: "u32 \<Rightarrow> u32"
  f_of_int :: "u32 \<Rightarrow> u32"
  f_of_uint :: "u32 \<Rightarrow> u32"
  d_add :: "u64 \<Rightarrow> u64 \<Rightarrow> u64"
  d_sub :: "u64 \<Rightarrow> u64 \<Rightarrow> u64"
  d_mul :: "u64 \<Rightarrow> u64 \<Rightarrow> u64"
  d_div :: "u64 \<Rightarrow> u64 \<Rightarrow> u64"
  d_sqrt :: "u64 \<Rightarrow> u64"
  d_of_int :: "u32 \<Rightarrow> u64"
  d_of_uint :: "u32 \<Rightarrow> u64"
  d_trunc :: "u64 \<Rightarrow> u64"
  d_near :: "u64 \<Rightarrow> u64"
  widen :: "u32 \<Rightarrow> u64"
  narrow :: "u64 \<Rightarrow> u32"

text \<open>Numbers of either width are ordered like their patterns read as sign and magnitude.\<close>

definition f_nan :: "u32 \<Rightarrow> bool" where
  "f_nan x \<longleftrightarrow> x AND 0x7FFFFFFF > 0x7F800000"

definition f_key :: "u32 \<Rightarrow> int" where
  "f_key x = (if bit x 31 then - uint (x AND 0x7FFFFFFF) else uint (x AND 0x7FFFFFFF))"

definition f_int :: "u32 \<Rightarrow> int" where
  "f_int x =
     (let e = idx x 23 0xFF; man = uint ((x AND 0x7FFFFF) OR 0x800000);
          v = (if e < 127 then 0 else if e \<ge> 150 then man * 2 ^ (e - 150) else man div 2 ^ (150 - e))
      in if bit x 31 then - v else v)"

definition d_nan :: "u64 \<Rightarrow> bool" where
  "d_nan x \<longleftrightarrow> x AND 0x7FFFFFFFFFFFFFFF > 0x7FF0000000000000"

definition d_key :: "u64 \<Rightarrow> int" where
  "d_key x = (if bit x 63 then - uint (x AND 0x7FFFFFFFFFFFFFFF) else uint (x AND 0x7FFFFFFFFFFFFFFF))"

definition d_int :: "u64 \<Rightarrow> int" where
  "d_int x =
     (let e = idx x 52 0x7FF; man = uint ((x AND 0xFFFFFFFFFFFFF) OR 0x10000000000000);
          v = (if e < 1023 then 0 else if e \<ge> 1075 then man * 2 ^ (e - 1075) else man div 2 ^ (1075 - e))
      in if bit x 63 then - v else v)"

definition upd_fp :: "(fp_state \<Rightarrow> fp_state) \<Rightarrow> cpu_state \<Rightarrow> cpu_state" where
  "upd_fp f c = c\<lparr>cpu_fp := f (cpu_fp c)\<rparr>"

definition vfp_s_get :: "nat \<Rightarrow> cpu_state \<Rightarrow> u32" where
  "vfp_s_get s c = vfp_s (cpu_fp c) (s mod 32)"

definition vfp_s_set :: "nat \<Rightarrow> u32 \<Rightarrow> cpu_state \<Rightarrow> cpu_state" where
  "vfp_s_set s v = upd_fp (\<lambda>f. f\<lparr>vfp_s := (vfp_s f)(s mod 32 := v)\<rparr>)"

definition vfp_d_get :: "nat \<Rightarrow> cpu_state \<Rightarrow> u64" where
  "vfp_d_get d c = ucast (vfp_s_get (2 * (d mod 16)) c) OR shl (ucast (vfp_s_get (2 * (d mod 16) + 1) c)) 32"

definition vfp_d_set :: "nat \<Rightarrow> u64 \<Rightarrow> cpu_state \<Rightarrow> cpu_state" where
  "vfp_d_set d v c = vfp_s_set (2 * (d mod 16) + 1) (ucast (shr v 32)) (vfp_s_set (2 * (d mod 16)) (ucast v) c)"

definition vfp_Sd :: "u16 \<Rightarrow> u16 \<Rightarrow> nat" where
  "vfp_Sd upper lower = 2 * idx lower 12 0xF + idx upper 6 1"

definition vfp_Sn :: "u16 \<Rightarrow> u16 \<Rightarrow> nat" where
  "vfp_Sn upper lower = 2 * idx upper 0 0xF + idx lower 7 1"

definition vfp_Sm :: "u16 \<Rightarrow> nat" where
  "vfp_Sm lower = 2 * idx lower 0 0xF + idx lower 5 1"

definition vfp_expand_imm :: "u8 \<Rightarrow> u32" where
  "vfp_expand_imm imm8 =
     (let i = ucast imm8; a = shr i 7 AND 1; b = shr i 6 AND 1; not_b = b XOR 1;
          ex = shl not_b 7 OR shl b 6 OR shl b 5 OR shl b 4 OR shl b 3 OR shl b 2 OR shl (shr i 5 AND 1) 1 OR (shr i 4 AND 1);
          frac = shl (i AND 0xF) 19
      in shl a 31 OR shl ex 23 OR frac)"

text \<open>Conversions to integers, with the bounds as the patterns of the constants of the source.\<close>

definition vfp_f2i :: "u32 \<Rightarrow> u32" where
  "vfp_f2i f =
     (if f_nan f then 0
      else if f_key f \<ge> f_key 0x4F000000 then 0x7FFFFFFF
      else if f_key f \<le> f_key 0xCF000000 then 0x80000000
      else word_of_int (f_int f))"

definition vfp_f2u :: "host_fp \<Rightarrow> u32 \<Rightarrow> u32" where
  "vfp_f2u hp f =
     (if f_nan f then 0
      else if f_key f \<le> 0 then 0
      else if f_key f \<ge> f_key 0x4F800000 then 0xFFFFFFFF
      else if f_key f < f_key 0x4F000000 then word_of_int (f_int f)
      else word_of_int (f_int (f_sub hp f 0x4F000000)) + 0x80000000)"

definition dcp_d2i :: "host_fp \<Rightarrow> u64 \<Rightarrow> bool \<Rightarrow> u32" where
  "dcp_d2i hp f rnd =
     (let r = (if rnd then d_near hp f else d_trunc hp f) in
      if d_nan r then 0
      else if d_key r \<ge> d_key 0x41E0000000000000 then 0x7FFFFFFF
      else if d_key r \<le> d_key 0xC1E0000000000000 then 0x80000000
      else word_of_int (d_int r))"

definition dcp_d2u :: "host_fp \<Rightarrow> u64 \<Rightarrow> bool \<Rightarrow> u32" where
  "dcp_d2u hp f rnd =
     (let r = (if rnd then d_near hp f else d_trunc hp f) in
      if d_nan r then 0
      else if d_key r \<le> 0 then 0
      else if d_key r \<ge> d_key 0x41F0000000000000 then 0xFFFFFFFF
      else if d_key r < d_key 0x41E0000000000000 then word_of_int (d_int r)
      else word_of_int (d_int (d_sub hp r 0x41E0000000000000)) + 0x80000000)"

definition vfp_cmp :: "u32 \<Rightarrow> u32 \<Rightarrow> cpu_state \<Rightarrow> cpu_state" where
  "vfp_cmp a b =
     upd_fp (\<lambda>f. f\<lparr>vfp_fpscr := (if f_nan a \<or> f_nan b then FLAG_C else if f_key a = f_key b then FLAG_Z OR FLAG_C
        else if f_key a < f_key b then FLAG_N else 0)\<rparr>)"

definition dcp_cmp_flags :: "u64 \<Rightarrow> u64 \<Rightarrow> u32" where
  "dcp_cmp_flags a b =
     (if d_nan a \<or> d_nan b then FLAG_V else if d_key a = d_key b then FLAG_Z OR FLAG_C
      else if d_key a < d_key b then FLAG_N else FLAG_C)"

definition dcp_mantissa :: "u64 \<Rightarrow> u64" where
  "dcp_mantissa u =
     (let ex = shr u 52 AND 0x7FF; man = u AND 0xFFFFFFFFFFFFF
      in if ex \<noteq> 0 \<and> ex \<noteq> 0x7FF then man OR shl 1 52 else man)"

text \<open>Register pairs of a 64-bit transfer; the program counter is not written.\<close>

definition set_pair :: "nat \<Rightarrow> nat \<Rightarrow> u64 \<Rightarrow> cpu_state \<Rightarrow> cpu_state" where
  "set_pair rt rt2 v c = set_rd rt2 (ucast (shr v 32)) (set_rd rt (ucast v) c)"

definition get_pair :: "nat \<Rightarrow> nat \<Rightarrow> cpu_state \<Rightarrow> u64" where
  "get_pair rt rt2 c = ucast (cpu_r c rt) OR shl (ucast (cpu_r c rt2)) 32"

definition vfp_pair_move :: "u16 \<Rightarrow> u16 \<Rightarrow> cpu_state \<Rightarrow> cpu_state" where
  "vfp_pair_move upper lower c =
     (let rt = idx lower 12 0xF; rt2 = idx upper 0 0xF; dm = idx lower 0 0xF in
      if bit upper 4 then set_pair rt rt2 (vfp_d_get dm c) c else vfp_d_set dm (get_pair rt rt2 c) c)"

definition load_s :: "'b platform \<Rightarrow> nat \<Rightarrow> u32 \<Rightarrow> 'b mach \<Rightarrow> 'b mach" where
  "load_s p s addr m = (let (v, m1) = pl_read32 p addr m in upd_cpu (vfp_s_set s v) m1)"

definition store_s :: "'b platform \<Rightarrow> nat \<Rightarrow> u32 \<Rightarrow> 'b mach \<Rightarrow> 'b mach" where
  "store_s p s addr m = pl_write32 p addr (vfp_s_get s (m_cpu m)) m"

definition vfp_multiple :: "'b platform \<Rightarrow> u16 \<Rightarrow> u16 \<Rightarrow> 'b mach \<Rightarrow> 'b mach" where
  "vfp_multiple p upper lower m =
     (let u = bit upper 7; pre = bit upper 8; rn = idx upper 0 0xF; count = idx lower 0 0xFF; bytes = of_nat (4 * count);
          start_s = (if idx lower 8 0xF = 0xB then idx lower 12 0xF * 2 else vfp_Sd upper lower);
          base = reg m rn;
          start = (if \<not> pre \<and> u then base else if pre \<and> u then base + 4 else if \<not> pre then base - bytes + 4 else base - bytes);
          m1 = fold (\<lambda>i m. let a = start + of_nat (4 * i) in
                 if bit upper 4 then load_s p (start_s + i) a m else store_s p (start_s + i) a m) [0..<count] m
      in if count = 0 then m
         else if rn \<noteq> 15 then upd_cpu (set_r rn (if u then base + bytes else base - bytes)) m1 else m1)"

definition vfp_single :: "'b platform \<Rightarrow> u32 \<Rightarrow> u16 \<Rightarrow> u16 \<Rightarrow> 'b mach \<Rightarrow> 'b mach" where
  "vfp_single p pc upper lower m =
     (let rn = idx upper 0 0xF; off = (if bit upper 7 then fld lower 0 0xFF * 4 else - (fld lower 0 0xFF * 4));
          base = (if rn = 15 then (pc + 4) AND NOT 3 else reg m rn); addr = (if bit upper 8 then base + off else base);
          m1 = (if idx lower 8 0xF = 0xB then
                  (let dd = idx lower 12 0xF in
                   if bit upper 4 then
                     (let (lo, m1) = pl_read32 p addr m; (hi, m2) = pl_read32 p (addr + 4) m1
                      in upd_cpu (vfp_d_set dd (ucast lo OR shl (ucast hi) 32)) m2)
                   else
                     (let v = vfp_d_get dd (m_cpu m)
                      in pl_write32 p (addr + 4) (ucast (shr v 32)) (pl_write32 p addr (ucast v) m)))
                else if bit upper 4 then load_s p (vfp_Sd upper lower) addr m
                else store_s p (vfp_Sd upper lower) addr m)
      in if bit upper 5 \<and> rn \<noteq> 15 then upd_cpu (set_r rn (if bit upper 8 then addr else base + off)) m1 else m1)"

abbreviation f_neg :: "u32 \<Rightarrow> u32" where
  "f_neg x \<equiv> x XOR 0x80000000"

text \<open>The operations with three operands, by opcode; the fused ones round once, through a double.\<close>

definition vfp_arith :: "host_fp \<Rightarrow> nat \<Rightarrow> bool \<Rightarrow> u32 \<Rightarrow> u32 \<Rightarrow> u32 \<Rightarrow> u32" where
  "vfp_arith hp opc neg d n k =
     (if opc = 0 then (if neg then f_sub hp d (f_mul hp n k) else f_add hp d (f_mul hp n k))
      else if opc = 1 then f_neg (if neg then f_sub hp d (f_mul hp n k) else f_add hp d (f_mul hp n k))
      else if opc = 2 then (if neg then f_neg (f_mul hp n k) else f_mul hp n k)
      else if opc = 3 then (if neg then f_sub hp n k else f_add hp n k)
      else if opc = 4 then f_div hp n k
      else narrow hp (d_add hp (widen hp d)
             (d_mul hp (d_mul hp (if neg then 0xBFF0000000000000 else 0x3FF0000000000000) (widen hp n)) (widen hp k))))"

definition vfp_status_move :: "u16 \<Rightarrow> u16 \<Rightarrow> cpu_state \<Rightarrow> cpu_state" where
  "vfp_status_move upper lower c =
     (let rt = idx lower 12 0xF; fpscr = vfp_fpscr (cpu_fp c) in
      if upper = 0xEEF1 then
        (if rt = 15 then c\<lparr>cpu_xpsr := (cpu_xpsr c AND NOT 0xF0000000) OR (fpscr AND 0xF0000000)\<rparr> else set_r rt fpscr c)
      else upd_fp (\<lambda>f. f\<lparr>vfp_fpscr := (fpscr AND NOT 0xF8000000) OR (cpu_r c rt AND 0xF8000000)\<rparr>) c)"

definition vfp_unary :: "host_fp \<Rightarrow> u16 \<Rightarrow> u16 \<Rightarrow> cpu_state \<Rightarrow> cpu_state" where
  "vfp_unary hp upper lower c =
     (let sd = vfp_Sd upper lower; v = vfp_s_get (vfp_Sm lower) c in
      if upper AND 0x0008 \<noteq> 0 then
        (if \<not> bit upper 2 then vfp_s_set sd (if bit lower 7 then f_of_int hp v else f_of_uint hp v) c
         else vfp_s_set sd (if bit upper 0 then vfp_f2i v else vfp_f2u hp v) c)
      else if upper AND 0x0004 \<noteq> 0 then vfp_cmp (vfp_s_get sd c) v c
      else vfp_s_set sd (if bit upper 0 \<and> \<not> bit lower 7 then f_neg v
             else if \<not> bit upper 0 \<and> bit lower 7 then v AND 0x7FFFFFFF
             else if bit upper 0 \<and> bit lower 7 then f_sqrt hp v else v) c)"

definition vfp_data :: "host_fp \<Rightarrow> u16 \<Rightarrow> u16 \<Rightarrow> cpu_state \<Rightarrow> cpu_state option" where
  "vfp_data hp upper lower c =
     (let u74 = shr upper 4 AND 0xF; sd = vfp_Sd upper lower; sub_a = (idx lower 8 0xF = 0xA);
          opc = 4 * idx upper 7 1 + idx upper 4 3 in
      if u74 AND NOT 4 = 0xB \<and> idx lower 4 0xF = 0 \<and> sub_a then
        Some (vfp_s_set sd (vfp_expand_imm (ucast (shl (upper AND 0xF) 4 OR (lower AND 0xF)))) c)
      else if u74 \<le> 1 \<and> sub_a then
        (let rt = idx lower 12 0xF; sn = vfp_Sn upper lower
         in Some (if bit upper 4 then set_rd rt (vfp_s_get sn c) c else vfp_s_set sn (cpu_r c rt) c))
      else if sub_a \<and> (opc \<le> 4 \<or> opc = 6) then
        Some (vfp_s_set sd (vfp_arith hp opc (bit lower 6) (vfp_s_get sd c) (vfp_s_get (vfp_Sn upper lower) c)
               (vfp_s_get (vfp_Sm lower) c)) c)
      else if (upper = 0xEEF1 \<or> upper = 0xEEE1) \<and> lower AND 0x0FFF = 0x0A10 then Some (vfp_status_move upper lower c)
      else if u74 AND NOT 4 = 0xB \<and> sub_a then Some (vfp_unary hp upper lower c)
      else None)"

definition t32_vfp :: "'b platform \<Rightarrow> host_fp \<Rightarrow> u32 \<Rightarrow> u16 \<Rightarrow> u16 \<Rightarrow> 'b mach \<Rightarrow> 'b mach option" where
  "t32_vfp p hp pc upper lower m =
     (let sub = idx lower 8 0xF; grp = upper AND 0x0F00;
          is_vfp_ls = ((sub = 0xA \<or> sub = 0xB) \<and> (grp = 0x0C00 \<or> grp = 0x0D00)) in
      if upper AND 0x0FE0 = 0x0C40 \<and> lower AND 0x0FF0 = 0x0B10 then Some (upd_cpu (vfp_pair_move upper lower) m)
      else if is_vfp_ls \<and> (grp = 0x0C00 \<or> bit upper 5 \<and> grp = 0x0D00) then Some (vfp_multiple p upper lower m)
      else if grp = 0x0D00 then (if sub \<noteq> 0xA \<and> sub \<noteq> 0xB then None else Some (vfp_single p pc upper lower m))
      else if grp \<noteq> 0x0E00 then None
      else map_option (\<lambda>c. upd_cpu (\<lambda>_. c) m) (vfp_data hp upper lower (m_cpu m)))"

definition t32_vsel :: "u16 \<Rightarrow> u16 \<Rightarrow> cpu_state \<Rightarrow> cpu_state option" where
  "t32_vsel upper lower c =
     (if upper AND 0xFF00 \<noteq> 0xFE00 \<or> idx lower 8 0xF \<noteq> 0xA then None
      else let c2 = idx upper 4 3; cond = (if c2 = 0 then 0 else if c2 = 1 then 6 else if c2 = 2 then 0xA else 0xC)
           in Some (vfp_s_set (vfp_Sd upper lower)
                (if t32_check_cond (cpu_xpsr c) cond then vfp_s_get (vfp_Sn upper lower) c else vfp_s_get (vfp_Sm lower) c) c))"

section \<open>The coprocessors\<close>

text \<open>What the GPIO coprocessor uses of the pins.\<close>

record 'm gpio_port =
  gp_set_pin :: "u8 \<Rightarrow> bool \<Rightarrow> 'm \<Rightarrow> 'm"
  gp_set_direction :: "u8 \<Rightarrow> bool \<Rightarrow> 'm \<Rightarrow> 'm"
  gp_effective_pins :: "'m \<Rightarrow> u32"

definition gpio_coproc :: "c_undefined \<Rightarrow> 'b mach gpio_port \<Rightarrow> u16 \<Rightarrow> u16 \<Rightarrow> 'b mach \<Rightarrow> 'b mach option" where
  "gpio_coproc uc gp upper lower m =
     (let pin = reg m (idx lower 12 0xF); val = reg m (idx upper 0 0xF); opc1 = idx lower 4 0xF; crm = idx lower 0 0xF;
          pin8 = ucast pin;
          cur = (if pin < 32 then bit (gp_effective_pins gp m) (unat pin) else bit (uc_shr uc (gp_effective_pins gp m) (unat pin)) 0) in
      if upper AND 0xFFF0 = 0xEC40 \<and> lower AND 0x0F00 = 0 \<and> (crm = 0 \<or> crm = 4) \<and> pin < 48 then
        (if opc1 = 4 then Some (if crm = 0 then gp_set_pin gp pin8 (val \<noteq> 0) m else gp_set_direction gp pin8 (val \<noteq> 0) m)
         else if opc1 \<ge> 5 \<and> opc1 \<le> 7 then
           Some (if val = 0 then m
                 else if crm = 0 then gp_set_pin gp pin8 (if opc1 = 5 then \<not> cur else opc1 = 6) m
                 else gp_set_direction gp pin8 (opc1 = 5 \<or> opc1 = 6) m)
         else None)
      else None)"

definition dcp_write :: "host_fp \<Rightarrow> u16 \<Rightarrow> u16 \<Rightarrow> cpu_state \<Rightarrow> cpu_state option" where
  "dcp_write hp upper lower c =
     (let rt = idx lower 12 0xF; v = get_pair rt (idx upper 0 0xF) c; opc1 = idx lower 4 0xF; crm = idx lower 0 0xF;
          fx = (\<lambda>g. Some (upd_fp g c)); single = (\<lambda>f. if crm = 0 then Some (upd_fp f c) else None) in
      if opc1 = 0 then
        (if crm = 0 then fx (\<lambda>f. f\<lparr>dcp_x := v\<rparr>) else if crm = 1 then fx (\<lambda>f. f\<lparr>dcp_y := v\<rparr>)
         else if crm = 2 then fx (\<lambda>f. f\<lparr>dcp_ef := v\<rparr>) else None)
      else if opc1 = 1 then
        (if crm = 0 then fx (\<lambda>f. f\<lparr>dcp_x := v, dcp_from_int := False\<rparr>)
         else if crm = 1 then fx (\<lambda>f. f\<lparr>dcp_y := v, dcp_from_int := False\<rparr>)
         else if crm = 2 then fx (\<lambda>f. f\<lparr>dcp_x := widen hp (ucast v), dcp_y := widen hp (ucast (shr v 32)), dcp_from_int := False\<rparr>)
         else None)
      else if opc1 \<in> {2, 3, 4, 5} then single id
      else if opc1 = 6 then single (\<lambda>f. f\<lparr>dcp_x := d_of_uint hp (cpu_r c rt), dcp_from_int := True\<rparr>)
      else if opc1 = 7 then single (\<lambda>f. f\<lparr>dcp_x := d_of_int hp (cpu_r c rt), dcp_from_int := True\<rparr>)
      else if opc1 = 8 then single (\<lambda>f. f\<lparr>dcp_x := v, dcp_from_int := False\<rparr>)
      else if opc1 = 9 then (if crm = 2 then fx (\<lambda>f. f\<lparr>dcp_x := widen hp (ucast v), dcp_from_int := False\<rparr>) else None)
      else if opc1 \<in> {10, 11, 12} then (if crm = 0 \<or> crm = 2 then Some c else None)
      else None)"

definition dcp_saved :: "nat \<Rightarrow> fp_state \<Rightarrow> u64 option" where
  "dcp_saved crm f = (if crm = 8 then Some (dcp_x f) else if crm = 9 then Some (dcp_y f) else if crm = 10 then Some (dcp_ef f) else None)"

definition dcp_result :: "host_fp \<Rightarrow> nat \<Rightarrow> fp_state \<Rightarrow> u64 option" where
  "dcp_result hp opc1 f =
     (let x = dcp_x f; y = dcp_y f in
      if opc1 = 1 then Some (d_add hp x y)
      else if opc1 = 3 then Some (if dcp_from_int f then x else d_sub hp x y)
      else if opc1 = 5 then Some (d_mul hp x y)
      else if opc1 = 7 then Some (d_div hp x y)
      else if opc1 = 9 then Some (d_sqrt hp x)
      else if opc1 = 11 then Some x
      else None)"

definition dcp_halves :: "nat \<Rightarrow> fp_state \<Rightarrow> u64 option" where
  "dcp_halves opc1 f =
     (let x = dcp_x f; y = dcp_y f in
      if opc1 = 1 then Some (shr x 32 OR shl (shr y 32) 32)
      else if opc1 = 2 then Some (shr y 32 OR shl y 32)
      else if opc1 = 4 then Some (shr x 32 OR shl x 32)
      else None)"

definition dcp_read :: "host_fp \<Rightarrow> u16 \<Rightarrow> u16 \<Rightarrow> cpu_state \<Rightarrow> cpu_state option" where
  "dcp_read hp upper lower c =
     (let opc1 = idx lower 4 0xF; crm = idx lower 0 0xF; f = cpu_fp c;
          v = (if opc1 = 0 then dcp_saved crm f
               else if crm = 4 \<or> crm = 5 then Some (dcp_mantissa (if crm = 4 then dcp_x f else dcp_y f))
               else if crm = 1 then dcp_halves opc1 f
               else if crm = 0 then dcp_result hp opc1 f
               else None)
      in map_option (\<lambda>v. set_pair (idx lower 12 0xF) (idx upper 0 0xF) v c) v)"

definition dcp_status :: "host_fp \<Rightarrow> u16 \<Rightarrow> cpu_state \<Rightarrow> cpu_state option" where
  "dcp_status hp lower c =
     (let rt = idx lower 12 0xF; opc2 = idx lower 5 7; crm = idx lower 0 0xF; f = cpu_fp c; x = dcp_x f in
      if crm = 0 \<and> opc2 = 0 then Some (set_rd rt 1 c)
      else if crm = 0 \<and> opc2 = 1 then
        (let fl = dcp_cmp_flags x (dcp_y f)
         in Some (if rt = 15 then c\<lparr>cpu_xpsr := (cpu_xpsr c AND NOT 0xF0000000) OR fl\<rparr> else set_r rt fl c))
      else if crm = 2 \<and> opc2 \<le> 5 then Some (set_rd rt (narrow hp x) c)
      else if crm = 3 \<and> opc2 \<le> 1 then Some (set_rd rt (if opc2 \<noteq> 0 then dcp_d2u hp x (dcp_rmode f) else dcp_d2i hp x (dcp_rmode f)) c)
      else None)"

definition dcp_operation :: "u16 \<Rightarrow> u16 \<Rightarrow> cpu_state \<Rightarrow> cpu_state" where
  "dcp_operation upper lower c =
     (let opc1 = idx upper 4 0xF; opc2 = idx lower 5 7; crm = idx lower 0 0xF in
      if opc1 = 8 \<and> crm = 0 \<and> opc2 = 2 then upd_fp (\<lambda>f. f\<lparr>dcp_rmode := False\<rparr>) c
      else if opc1 = 8 \<and> crm = 0 \<and> opc2 = 3 then upd_fp (\<lambda>f. f\<lparr>dcp_rmode := True\<rparr>) c
      else c)"

definition dcp_double :: "host_fp \<Rightarrow> u16 \<Rightarrow> u16 \<Rightarrow> cpu_state \<Rightarrow> cpu_state option" where
  "dcp_double hp upper lower c =
     (if lower AND 0x0F00 \<noteq> 0x0400 then None
      else if upper AND 0xFFF0 = 0xEC40 then dcp_write hp upper lower c
      else if upper AND 0xFFF0 = 0xEC50 then dcp_read hp upper lower c
      else if upper = 0xEE10 then dcp_status hp lower c
      else if upper AND 0xFF00 = 0xEE00 then Some (dcp_operation upper lower c)
      else None)"

definition t32_dcp :: "c_undefined \<Rightarrow> host_fp \<Rightarrow> 'b mach gpio_port \<Rightarrow> u16 \<Rightarrow> u16 \<Rightarrow> 'b mach \<Rightarrow> 'b mach option" where
  "t32_dcp uc hp gp upper lower m =
     (case gpio_coproc uc gp upper lower m of
        Some m1 \<Rightarrow> Some m1
      | None \<Rightarrow> map_option (\<lambda>c. upd_cpu (\<lambda>_. c) m) (dcp_double hp upper lower (m_cpu m)))"

definition t32_dcp2 :: "u16 \<Rightarrow> u16 \<Rightarrow> cpu_state \<Rightarrow> cpu_state option" where
  "t32_dcp2 upper lower c =
     (let rt = idx lower 12 0xF; opc2 = idx lower 5 7; crm = idx lower 0 0xF in
      if upper = 0xFE10 \<and> lower AND 0x0F00 = 0x0400 then
        (if crm = 0 \<and> opc2 = 1
         then Some (if rt = 15 then c\<lparr>cpu_xpsr := cpu_xpsr c AND NOT FLAG_N\<rparr> else set_r rt 0 c) else None)
      else if upper AND 0xFFF0 = 0xFC50 \<and> lower AND 0x0F00 = 0x0400 then
        (if idx lower 4 0xF = 0 then map_option (\<lambda>v. set_pair rt (idx upper 0 0xF) v c) (dcp_saved crm (cpu_fp c)) else None)
      else None)"

section \<open>Saving and restoring the double-precision coprocessor\<close>

lemma pair_parts: "(ucast (ucast v :: u32) :: u64) OR shl (ucast (ucast (shr v 32) :: u32)) 32 = v" for v :: u64
  by (rule bit_word_eqI) (auto simp: bit_simps)

text \<open>An interrupt handler can save and restore the double-precision coprocessor: what it reads of an operand
  or of the state word into two core registers and later writes back from them is the old 64-bit value,
  whatever was computed in between.\<close>

theorem dcp_save_restore:
  assumes "u1 AND 0xFFF0 = 0xFC50" "l1 AND 0x0F00 = 0x0400" "idx l1 4 0xF = 0" "idx l1 0 0xF = 8 + k" "k < 3"
    and "u2 AND 0xFFF0 = 0xEC40" "l2 AND 0x0F00 = 0x0400" "idx l2 4 0xF = 0" "idx l2 0 0xF = k"
    and "idx l1 12 0xF = rt" "idx u1 0 0xF = rt2" "idx l2 12 0xF = rt" "idx u2 0 0xF = rt2" "rt < 15" "rt2 < 15" "rt \<noteq> rt2"
    and "t32_dcp2 u1 l1 c = Some c1" "cpu_r c' rt = cpu_r c1 rt" "cpu_r c' rt2 = cpu_r c1 rt2"
  shows "\<exists>c2. dcp_double hp u2 l2 c' = Some c2 \<and> dcp_saved (8 + k) (cpu_fp c2) = dcp_saved (8 + k) (cpu_fp c)"
proof -
  have k: "k = 0 \<or> k = 1 \<or> k = 2" using assms(5) by auto
  then obtain v where v: "dcp_saved (8 + k) (cpu_fp c) = Some v" by (auto simp: dcp_saved_def)
  have "u1 \<noteq> 0xFE10" using assms(1) by auto
  then have "c1 = set_pair rt rt2 v c" using assms(17) v
    unfolding t32_dcp2_def Let_def assms(1-4,10,11) by simp
  then have g: "get_pair rt rt2 c' = v"
    using assms(14-16,18,19) pair_parts [of v] by (simp add: get_pair_def set_pair_def set_rd_def)
  have "dcp_double hp u2 l2 c' = dcp_write hp u2 l2 c'" using assms(6,7) by (simp add: dcp_double_def)
  also have "\<dots> = Some (upd_fp (\<lambda>f. if k = 0 then f\<lparr>dcp_x := v\<rparr> else if k = 1 then f\<lparr>dcp_y := v\<rparr> else f\<lparr>dcp_ef := v\<rparr>) c')"
    unfolding dcp_write_def Let_def assms(8,9,12,13) g using k by auto
  finally show ?thesis using k v by (auto simp: upd_fp_def dcp_saved_def)
qed

theorem dcp_save_restore_witness:
  "\<forall>hp. \<exists>c1 c2. t32_dcp2 0xFC51 0x0408 (upd_fp (\<lambda>f. f\<lparr>dcp_x := 0x3FF8000000000000\<rparr>) cpu_zero) = Some c1 \<and>
     dcp_double hp 0xEC41 0x0400 (upd_fp (\<lambda>f. f\<lparr>dcp_x := 0\<rparr>) c1) = Some c2 \<and> dcp_saved 8 (cpu_fp c2) = Some 0x3FF8000000000000"
proof
  fix hp
  let ?c = "upd_fp (\<lambda>f. f\<lparr>dcp_x := 0x3FF8000000000000\<rparr>) cpu_zero"
  define c1 where "c1 = set_pair 0 1 0x3FF8000000000000 ?c"
  have s: "t32_dcp2 0xFC51 0x0408 ?c = Some c1" by (simp add: t32_dcp2_def dcp_saved_def c1_def upd_fp_def)
  obtain c2 where "dcp_double hp 0xEC41 0x0400 (upd_fp (\<lambda>f. f\<lparr>dcp_x := 0\<rparr>) c1) = Some c2"
      "dcp_saved (8 + 0) (cpu_fp c2) = dcp_saved (8 + 0) (cpu_fp ?c)"
    using dcp_save_restore [of "0xFC51" "0x0408" 0 "0xEC41" "0x0400" 0 1, OF _ _ _ _ _ _ _ _ _ _ _ _ _ _ _ _ s, of "upd_fp (\<lambda>f. f\<lparr>dcp_x := 0\<rparr>) c1" hp]
    by (auto simp: upd_fp_def)
  then show "\<exists>c1 c2. t32_dcp2 0xFC51 0x0408 ?c = Some c1 \<and>
     dcp_double hp 0xEC41 0x0400 (upd_fp (\<lambda>f. f\<lparr>dcp_x := 0\<rparr>) c1) = Some c2 \<and> dcp_saved 8 (cpu_fp c2) = Some 0x3FF8000000000000"
    using s by (auto simp: dcp_saved_def upd_fp_def)
qed

section \<open>Where the code deviates\<close>

text \<open>A multiply-accumulate into an even register is decoded as a move from a core register; a comparison
  with zero compares with register 0; a load of several registers always writes its base back.\<close>

lemma vmla_is_move: "vfp_data hp 0xEE00 0x0A81 c = Some (vfp_s_set 1 (cpu_r c 0) c)"
  by (simp add: vfp_data_def vfp_Sn_def)

lemma vcmp_zero_compares_s0: "vfp_data hp 0xEEB5 0x0A40 c = Some (vfp_cmp (vfp_s_get 0 c) (vfp_s_get 0 c) c)"
  by (simp add: vfp_data_def vfp_unary_def vfp_Sd_def vfp_Sm_def word_le_nat_alt)

lemma vldm_always_writes_back:
  "reg (vfp_multiple p 0xEC91 0x0A01 m) 1 = reg m 1 + 4"
  by (simp add: vfp_multiple_def load_s_def Let_def split: prod.split)

text \<open>A comparison that finds the first number greater clears the carry, which the architecture sets.\<close>

lemma vcmp_greater_clears_carry: "vfp_fpscr (cpu_fp (vfp_cmp 0x40000000 0x3F800000 c)) = 0"
  by (simp add: vfp_cmp_def upd_fp_def f_nan_def f_key_def)

end
