(* ===== verification/Thumb32_Step.thy ===== *)
theory Thumb32_Step
  imports Vfp
begin

unbundle bit_operations_syntax

text \<open>
  The vector instructions and the decoder of the 32-bit instructions (\<^verbatim>\<open>src/thumb32.c\<close>). Signed arithmetic on
  elements is exact; the source computes it in wider integers.
\<close>

section \<open>Vectors\<close>

text \<open>A vector register is four single-precision registers. The state of a predicated block is global.\<close>

definition mve_qw :: "nat \<Rightarrow> nat \<Rightarrow> cpu_state \<Rightarrow> u32" where
  "mve_qw q w c = vfp_s (cpu_fp c) ((q * 4 + w) mod 32)"

definition mve_qw_set :: "nat \<Rightarrow> nat \<Rightarrow> u32 \<Rightarrow> cpu_state \<Rightarrow> cpu_state" where
  "mve_qw_set q w v = upd_fp (\<lambda>f. f\<lparr>vfp_s := (vfp_s f)((q * 4 + w) mod 32 := v)\<rparr>)"

definition mve_q_set :: "nat \<Rightarrow> (nat \<Rightarrow> u32) \<Rightarrow> cpu_state \<Rightarrow> cpu_state" where
  "mve_q_set q ws c = fold (\<lambda>w. mve_qw_set q w (ws w)) [0..<4] c"

definition mve_lane_active :: "nat \<Rightarrow> 'b mach \<Rightarrow> bool" where
  "mve_lane_active e m = (if \<not> mve_in_vpt m then True else bit (mve_vpr_p0 m) (e div 4))"

definition mve_qc :: "bool \<Rightarrow> cpu_state \<Rightarrow> cpu_state" where
  "mve_qc q = (if q then upd_fp (\<lambda>f. f\<lparr>vfp_fpscr := vfp_fpscr f OR shl 1 27\<rparr>) else id)"

definition mve_ebits :: "nat \<Rightarrow> nat" where
  "mve_ebits sz = (if sz = 0 then 8 else if sz = 1 then 16 else 32)"

definition mve_mask :: "nat \<Rightarrow> u32" where
  "mve_mask ebits = (if ebits = 32 then 0xFFFFFFFF else shl 1 ebits - 1)"

text \<open>Element \<open>e\<close> of a vector and its signed value.\<close>

definition mve_elem :: "nat \<Rightarrow> (nat \<Rightarrow> u32) \<Rightarrow> nat \<Rightarrow> u32" where
  "mve_elem ebits ws e = shr (ws (e * ebits div 32)) (e * ebits mod 32) AND mve_mask ebits"

definition mve_put :: "nat \<Rightarrow> nat \<Rightarrow> u32 \<Rightarrow> (nat \<Rightarrow> u32) \<Rightarrow> nat \<Rightarrow> u32" where
  "mve_put ebits e r ws =
     (let w = e * ebits div 32; b = e * ebits mod 32; msk = mve_mask ebits
      in ws(w := (ws w AND NOT (shl msk b)) OR shl (r AND msk) b))"

definition mve_signed :: "nat \<Rightarrow> u32 \<Rightarrow> int" where
  "mve_signed ebits v = (if ebits = 8 then sint (ucast v :: u8) else if ebits = 16 then sint (ucast v :: u16) else sint v)"

text \<open>An operation on the active elements: from the elements of two sources and of the destination, the
  result and whether it was saturated.\<close>

definition mve_lanes :: "(u32 \<Rightarrow> u32 \<Rightarrow> u32 \<Rightarrow> u32 \<times> bool) \<Rightarrow> nat \<Rightarrow> nat \<Rightarrow> nat \<Rightarrow> nat \<Rightarrow> 'b mach \<Rightarrow> 'b mach" where
  "mve_lanes f ebits qd qn qm m =
     (let c = m_cpu m;
          (out, q) = fold (\<lambda>e (out, q).
             if mve_lane_active e m then
               (let (r, q1) = f (mve_elem ebits (\<lambda>w. mve_qw qn w c) e) (mve_elem ebits (\<lambda>w. mve_qw qm w c) e) (mve_elem ebits out e)
                in (mve_put ebits e r out, q \<or> q1))
             else (out, q)) [0..<128 div ebits] (\<lambda>w. mve_qw qd w c, False)
      in (upd_cpu (\<lambda>c. mve_q_set qd out (mve_qc q c)) m)\<lparr>mve_in_vpt := False\<rparr>)"

definition mve_header :: "u16 \<Rightarrow> u16 \<Rightarrow> 'b mach \<Rightarrow> 'b mach option" where
  "mve_header upper lower m =
     (if upper = 0xFE71 \<and> lower = 0x0F4D then Some (m\<lparr>mve_in_vpt := True, mve_vpr_p0 := 0xF\<rparr>)
      else if upper AND 0xFF90 = 0xFE50 \<and> lower AND 0xFF90 = 0x0F00 then
        (let msk = fld lower 0 0xF in Some (m\<lparr>mve_in_vpt := True, mve_vpr_p0 := (if msk \<noteq> 0 then msk else 0xF)\<rparr>))
      else None)"

definition mve_predicate_move :: "u16 \<Rightarrow> u16 \<Rightarrow> 'b mach \<Rightarrow> 'b mach option" where
  "mve_predicate_move upper lower m =
     (let rt = idx lower 12 0xF in
      if (upper = 0xEEE1 \<or> upper = 0xEEF1) \<and> lower AND 0x0FFF = 0x0A90 then
        Some (if upper = 0xEEF1 then upd_cpu (\<lambda>c. set_rd rt (mve_vpr (cpu_fp c)) c) m
              else upd_cpu (\<lambda>c. upd_fp (\<lambda>f. f\<lparr>mve_vpr := cpu_r c rt\<rparr>) c) m)
      else None)"

definition load_q :: "'b platform \<Rightarrow> nat \<Rightarrow> u32 \<Rightarrow> nat \<Rightarrow> 'b mach \<Rightarrow> 'b mach" where
  "load_q p qd addr w m = (let (v, m1) = pl_read32 p (addr + 4 * of_nat w) m in upd_cpu (mve_qw_set qd w v) m1)"

definition mve_memory :: "'b platform \<Rightarrow> u16 \<Rightarrow> u16 \<Rightarrow> 'b mach \<Rightarrow> 'b mach option" where
  "mve_memory p upper lower m =
     (let qd = idx lower 13 7; addr = reg m (idx upper 0 0xF) in
      if (upper = 0xED90 \<or> upper = 0xED80) \<and> (lower AND 0x0FFF = 0x0F00 \<or> lower AND 0x0FFF = 0x0E00) then
        Some (if upper = 0xED90 then fold (load_q p qd addr) [0..<4] m
              else fold (\<lambda>w m. pl_write32 p (addr + 4 * of_nat w) (mve_qw qd w (m_cpu m)) m) [0..<4] m)
      else None)"

definition mve_dup :: "u16 \<Rightarrow> u16 \<Rightarrow> 'b mach \<Rightarrow> 'b mach option" where
  "mve_dup upper lower m =
     (let l = lower AND 0x0FF0; v = reg m (idx upper 0 0xF);
          w = (if upper = 0xEEE0 then (v AND 0xFF) * 0x01010101 else if l = 0x0B30 then (v AND 0xFFFF) OR shl (v AND 0xFFFF) 16 else v) in
      if upper = 0xEEE0 \<and> l = 0x0B10 \<or> upper = 0xEEA0 \<and> (l = 0x0B30 \<or> l = 0x0B10)
      then Some (upd_cpu (mve_q_set (idx lower 13 7) (\<lambda>_. w)) m) else None)"

definition mve_shift_imm :: "nat \<Rightarrow> u16 \<Rightarrow> nat" where
  "mve_shift_imm ebits upper = ebits - unat (upper AND (if ebits = 8 then 7 else if ebits = 16 then 15 else 31))"

text \<open>The shift of an element by an element: a negative count shifts right.\<close>

definition mve_shift_elem :: "c_undefined \<Rightarrow> bool \<Rightarrow> nat \<Rightarrow> u32 \<Rightarrow> u32 \<Rightarrow> u32" where
  "mve_shift_elem uc rounding ebits av bv =
     (let sh = sint (ucast bv :: u8); n = nat (- sh); s = mve_signed ebits av;
          rnd = (if rounding \<and> n \<le> 31 then 2 ^ (n - 1) else 0) in
      if sh \<ge> 0 then c_shl uc av (nat sh) AND mve_mask ebits
      else word_of_int ((s + rnd) div 2 ^ (min n 31)) AND mve_mask ebits)"

definition mve_shift_op :: "c_undefined \<Rightarrow> u16 \<Rightarrow> nat \<Rightarrow> nat \<Rightarrow> u32 \<Rightarrow> u32 \<Rightarrow> u32 \<Rightarrow> u32" where
  "mve_shift_op uc upper op_lo ebits av bv cur =
     (let u74 = idx upper 4 0xF; msk = mve_mask ebits; imm = idx upper 0 7; ri = mve_shift_imm ebits upper mod 32 in
      if op_lo = 0x55 \<and> u74 = 8 \<and> idx upper 8 0xFF = 0xEF then shl av imm AND msk
      else if op_lo = 0x55 \<and> u74 = 8 then
        (let keep = (if imm \<ge> ebits then msk else shl msk (ebits - imm)) in (cur AND keep) OR ((shl av imm AND msk) AND NOT keep))
      else if op_lo = 0x05 \<and> u74 = 8 then word_of_int (mve_signed ebits av div 2 ^ ri) AND msk
      else if op_lo = 0x55 then mve_shift_elem uc True ebits av bv
      else if op_lo = 0x54 then mve_shift_elem uc False ebits av bv
      else let keep = (if ri \<ge> ebits then msk else msk XOR (c_shl uc 1 (ebits - ri) - 1))
           in (cur AND keep) OR ((shr av ri AND msk) AND NOT keep))"

definition mve_shift :: "c_undefined \<Rightarrow> u16 \<Rightarrow> u16 \<Rightarrow> 'b mach \<Rightarrow> 'b mach option" where
  "mve_shift uc upper lower m =
     (let op_lo = idx lower 4 0xFF; u74 = idx upper 4 0xF; ebits = mve_ebits (idx upper 4 3) in
      if (upper AND 0xFF00 = 0xEF00 \<or> upper AND 0xFF00 = 0xFF00) \<and>
         ((op_lo = 0x55 \<or> op_lo = 0x05 \<or> op_lo = 0x45) \<and> u74 = 8 \<or> (op_lo = 0x55 \<or> op_lo = 0x54) \<and> u74 = 0)
      then Some (mve_lanes (\<lambda>av bv cur. (mve_shift_op uc upper op_lo ebits av bv cur, False)) ebits
             (idx lower 13 7) (idx upper 1 7) (idx lower 1 7) m)
      else None)"

definition mve_saturate :: "bool \<Rightarrow> nat \<Rightarrow> int \<Rightarrow> u32 \<times> bool" where
  "mve_saturate is_u ebits s = (let (lo, hi) = sat_limits is_u ebits; (r, q) = saturate lo hi s in (word_of_int r, q))"

definition mve_value :: "bool \<Rightarrow> nat \<Rightarrow> u32 \<Rightarrow> int" where
  "mve_value is_u ebits v = (if is_u then uint v else mve_signed ebits v)"

definition mve_alu_op :: "u16 \<Rightarrow> nat \<Rightarrow> bool \<Rightarrow> nat \<Rightarrow> u32 \<Rightarrow> u32 \<Rightarrow> u32 \<times> bool" where
  "mve_alu_op upper op_lo same ebits av bv =
     (let ff = bit upper 12; key = op_lo + (if ff then 0x1000 else 0); val = mve_value ff ebits; sg = mve_signed ebits in
      if key = 0x84 then (av + bv, False)
      else if key = 0x1084 then (av - bv, False)
      else if key = 0x95 then (av * bv, False)
      else if key = 0x15 then (if same then av else if ff \<or> upper AND 0xF0 = 0x20 then av OR bv else av AND bv, False)
      else if key = 0x1015 then (av XOR bv, False)
      else if key = 0x00 \<or> key = 0x05 then mve_saturate ff ebits (val av + val bv)
      else if key = 0x20 \<or> key = 0x25 then mve_saturate ff ebits (val av - val bv)
      else if key = 0x64 then (if sg av > sg bv then av else bv, False)
      else if key = 0x65 then (if sg av < sg bv then av else bv, False)
      else if key = 0x74 then (word_of_int \<bar>sg av - sg bv\<bar>, False)
      else if key = 0xB4 then mve_saturate False ebits (sg av * sg bv * 2 div 2 ^ ebits)
      else (0, False))"

definition mve_alu :: "u16 \<Rightarrow> u16 \<Rightarrow> 'b mach \<Rightarrow> 'b mach option" where
  "mve_alu upper lower m =
     (let op_lo = idx lower 4 0xFF; sz = idx upper 4 3; ebits = mve_ebits sz; qn = idx upper 1 7; qm = idx lower 1 7 in
      if (upper AND 0xFF00 = 0xEF00 \<or> upper AND 0xFF00 = 0xFF00) \<and> sz \<le> 2 \<and>
         (op_lo = 0x84 \<or> op_lo = 0x95 \<or> op_lo div 16 = 1 \<or> op_lo div 16 = 0 \<or> op_lo div 16 = 6 \<or> op_lo = 0x74 \<or> op_lo = 0xB4)
      then Some (mve_lanes (\<lambda>av bv cur. mve_alu_op upper op_lo (qm = qn) ebits av bv) ebits (idx lower 13 7) qn qm m)
      else None)"

definition mve_move :: "u16 \<Rightarrow> u16 \<Rightarrow> 'b mach \<Rightarrow> 'b mach option" where
  "mve_move upper lower m =
     (if upper = 0xEF22 \<and> lower AND 0x0FF0 = 0x0150
      then Some ((upd_cpu (\<lambda>c. fold (\<lambda>w c. mve_qw_set (idx lower 13 7) w (mve_qw (idx upper 1 7) w c) c) [0..<4] c) m)\<lparr>mve_in_vpt := False\<rparr>)
      else None)"

definition mve_across :: "u16 \<Rightarrow> u16 \<Rightarrow> 'b mach \<Rightarrow> 'b mach option" where
  "mve_across upper lower m =
     (let l = lower AND 0x0FF0; rda = idx lower 12 0xF; c = m_cpu m; ebits = mve_ebits (idx upper 2 3); es = [0..<128 div ebits];
          a = (\<lambda>e. mve_signed ebits (mve_elem ebits (\<lambda>w. mve_qw (idx upper 1 7) w c) e));
          b = (\<lambda>e. mve_signed ebits (mve_elem ebits (\<lambda>w. mve_qw (idx lower 1 7) w c) e));
          acc = (if rda = 15 then 0 else sint (cpu_r c rda));
          best = (if l = 0x0F80 then fold (\<lambda>e r. if a e < r then a e else r) es (a 0) else fold (\<lambda>e r. if a e > r then a e else r) es (a 0));
          r = (if upper = 0xEEF1 then acc + sum_list (map a es)
               else if upper = 0xEEF2 then acc + sum_list (map (\<lambda>e. a e * b e) es) else best) in
      if upper = 0xEEF1 \<and> l = 0x0F00 \<or> upper = 0xEEF2 \<and> l = 0x0F20 \<or> upper = 0xEEE0 \<and> (l = 0x0F00 \<or> l = 0x0F80)
      then Some ((upd_cpu (set_rd rda (word_of_int r)) m)\<lparr>mve_in_vpt := False\<rparr>) else None)"

definition mve_iota :: "u16 \<Rightarrow> u16 \<Rightarrow> 'b mach \<Rightarrow> 'b mach option" where
  "mve_iota upper lower m =
     (if upper = 0xEE01 \<and> lower AND 0x0FF0 = 0x0F60
      then Some ((upd_cpu (\<lambda>c. mve_q_set (idx lower 13 7) (\<lambda>e. (cpu_r c (idx upper 1 7) + of_nat e) AND 0xFF) c) m)\<lparr>mve_in_vpt := False\<rparr>)
      else None)"

definition t32_mve :: "'b platform \<Rightarrow> c_undefined \<Rightarrow> u16 \<Rightarrow> u16 \<Rightarrow> 'b mach \<Rightarrow> 'b mach option" where
  "t32_mve p uc upper lower =
     first_of [mve_header upper lower, mve_predicate_move upper lower, mve_memory p upper lower, mve_dup upper lower,
       mve_shift uc upper lower, mve_alu upper lower, mve_move upper lower, mve_across upper lower, mve_iota upper lower]"

section \<open>The dispatcher\<close>

definition t32_exclusive :: "'b platform \<Rightarrow> u16 \<Rightarrow> u16 \<Rightarrow> 'b mach \<Rightarrow> 'b mach option" where
  "t32_exclusive p upper lower m =
     (let sz = idx lower 4 3; rt = idx lower 12 0xF; addr = reg m (idx upper 0 0xF) in
      if (upper AND 0xFFF0 = 0xE8C0 \<or> upper AND 0xFFF0 = 0xE8D0) \<and> lower AND 0x0F00 = 0x0F00 \<and> bit upper 4 = bit lower 7 then
        (if bit upper 4 then
           (let (v, m1) = t32_read p sz addr m
            in Some (arm_excl_set (int (get_active_core m1)) addr (upd_cpu (set_rd rt v) m1)))
         else
           (let (ok, m1) = arm_excl_store (int (get_active_core m)) addr m; m2 = (if ok then t32_write p sz rt addr m1 else m1)
            in Some (upd_cpu (set_rd (idx lower 0 0xF) (if ok then 0 else 1)) m2)))
      else None)"

definition t32_acquire :: "'b platform \<Rightarrow> u16 \<Rightarrow> u16 \<Rightarrow> 'b mach \<Rightarrow> 'b mach option" where
  "t32_acquire p upper lower m =
     (let sub = idx lower 4 0xF; rt = idx lower 12 0xF; addr = reg m (idx upper 0 0xF) in
      if (upper AND 0xFFF0 = 0xE8C0 \<or> upper AND 0xFFF0 = 0xE8D0) \<and> lower AND 0x0F00 = 0x0F00 \<and> lower AND 0xF = 0xF \<and>
         8 \<le> sub \<and> sub \<le> 0xA then
        Some (if bit upper 4 then let (v, m1) = t32_read p (sub - 8) addr m in upd_cpu (set_rd rt v) m1
              else t32_write p (sub - 8) rt addr m)
      else None)"

definition t32_test_target :: "u16 \<Rightarrow> u16 \<Rightarrow> 'b mach \<Rightarrow> 'b mach option" where
  "t32_test_target upper lower m =
     (if upper AND 0xFFF0 = 0xE840 \<and> lower AND 0xFF0F = 0xF200
      then Some (upd_cpu (set_rd (idx lower 8 0xF)
             (tt_answer (cpu_control (m_cpu m)) (m_nv m) (reg m (idx upper 0 0xF)) (idx lower 4 0xF \<noteq> 0))) m)
      else None)"

definition t32_ldrex :: "'b platform \<Rightarrow> u16 \<Rightarrow> u16 \<Rightarrow> 'b mach \<Rightarrow> 'b mach option" where
  "t32_ldrex p upper lower m =
     (let rt = idx lower 12 0xF; addr = reg m (idx upper 0 0xF) in
      if upper AND 0xFFF0 = 0xE850 \<and> lower AND 0xF000 \<noteq> 0xF000 \<and> lower AND 0x0FFF = 0x0F00
      then (let m1 = (if rt \<noteq> 15 then load32 p rt addr m else m) in Some (arm_excl_set (int (get_active_core m1)) addr m1))
      else None)"

definition t32_strex :: "'b platform \<Rightarrow> u16 \<Rightarrow> u16 \<Rightarrow> 'b mach \<Rightarrow> 'b mach option" where
  "t32_strex p upper lower m =
     (let addr = reg m (idx upper 0 0xF) in
      if upper AND 0xFFF0 = 0xE840 \<and> lower AND 0xF000 \<noteq> 0xF000 \<and> lower AND 0x00FF = 0 \<and> idx lower 8 0xF \<noteq> 0xF then
        (let (ok, m1) = arm_excl_store (int (get_active_core m)) addr m;
             m2 = (if ok then pl_write32 p addr (reg m1 (idx lower 12 0xF)) m1 else m1)
         in Some (upd_cpu (set_rd (idx lower 8 0xF) (if ok then 0 else 1)) m2))
      else None)"

definition t32_table_branch :: "'b platform \<Rightarrow> u32 \<Rightarrow> u16 \<Rightarrow> u16 \<Rightarrow> 'b mach \<Rightarrow> 'b mach option" where
  "t32_table_branch p pc upper lower m =
     (if upper AND 0xFFF0 = 0xE8D0 \<and> lower AND 0xF000 = 0xF000 then Some (t32_tbb_tbh p pc upper lower m) else None)"

text \<open>Operations on the registers alone, as operations on the machine.\<close>

definition on_regs :: "(cpu_state \<Rightarrow> cpu_state option) \<Rightarrow> 'b mach \<Rightarrow> 'b mach option" where
  "on_regs f m = map_option (\<lambda>c. upd_cpu (\<lambda>_. c) m) (f (m_cpu m))"

definition t32_group_1d :: "'b platform \<Rightarrow> c_undefined \<Rightarrow> host_fp \<Rightarrow> 'b mach gpio_port \<Rightarrow> u32 \<Rightarrow> u16 \<Rightarrow> u16 \<Rightarrow> 'b mach \<Rightarrow> 'b mach" where
  "t32_group_1d p uc hp gp pc upper lower m =
     (case first_of [t32_mve p uc upper lower, on_regs (t32_misc uc upper lower), t32_dcp uc hp gp upper lower] m of
        Some m1 \<Rightarrow> m1
      | None \<Rightarrow>
        if upper AND 0xFC00 = 0xEC00 \<or> upper AND 0xFE00 = 0xEE00 then
          (case t32_vfp p hp pc upper lower m of Some m1 \<Rightarrow> m1 | None \<Rightarrow> m)
        else
          (case first_of [(\<lambda>m. if upper AND 0xFF00 = 0xED00 then t32_vfp p hp pc upper lower m else None),
               t32_test_target upper lower, t32_exclusive p upper lower, t32_acquire p upper lower,
               t32_table_branch p pc upper lower, t32_ldrex p upper lower, t32_strex p upper lower] m of
             Some m1 \<Rightarrow> m1
           | None \<Rightarrow>
             if idx upper 9 3 = 0 then
               (if upper AND 0x0040 \<noteq> 0 then t32_ldrd_strd p upper lower m else t32_ldst_multiple p pc upper lower m)
             else upd_cpu (t32_dp_shifted_reg upper lower) m))"

definition t32_group_1e :: "'b platform \<Rightarrow> c_undefined \<Rightarrow> u32 \<Rightarrow> u16 \<Rightarrow> u16 \<Rightarrow> 'b mach \<Rightarrow> 'b mach" where
  "t32_group_1e p uc pc upper lower m =
     (case t32_misc uc upper lower (m_cpu m) of
        Some c \<Rightarrow> upd_cpu (\<lambda>_. c) m
      | None \<Rightarrow>
        if upper AND 0xEF00 = 0xEE00 \<or> upper AND 0xEF00 = 0xED00 then m
        else if lower AND 0xD000 = 0xD000 then upd_cpu (t32_bl pc upper lower) m
        else if lower AND 0x8000 \<noteq> 0 then upd_cpu (t32_branch pc upper lower) m
        else if upper AND 0x0200 \<noteq> 0 then t32_dp_plain_imm p pc upper lower m
        else upd_cpu (t32_dp_mod_imm upper lower) m)"

definition t32_group_1f :: "'b platform \<Rightarrow> c_undefined \<Rightarrow> u32 \<Rightarrow> u16 \<Rightarrow> u16 \<Rightarrow> 'b mach \<Rightarrow> 'b mach" where
  "t32_group_1f p uc pc upper lower m =
     (case first_of [t32_mve p uc upper lower, on_regs (t32_dcp2 upper lower), on_regs (t32_vsel upper lower),
          on_regs (t32_misc uc upper lower)] m of
        Some m1 \<Rightarrow> m1 | None \<Rightarrow> t32_ldst_single p pc upper lower m)"

definition thumb32_step :: "'b platform \<Rightarrow> c_undefined \<Rightarrow> host_fp \<Rightarrow> 'b mach gpio_port \<Rightarrow> u32 \<Rightarrow> u16 \<Rightarrow> u16 \<Rightarrow>
    'b mach \<Rightarrow> bool \<times> 'b mach" where
  "thumb32_step p uc hp gp pc upper lower m0 =
     (let m = upd_cpu (\<lambda>c. (set_r 15 (pc + 4) c)\<lparr>pc_updated := True\<rparr>) m0; top5 = idx upper 11 0x1F in
      if top5 = 0x1D then (True, t32_group_1d p uc hp gp pc upper lower m)
      else if top5 = 0x1E then (True, t32_group_1e p uc pc upper lower m)
      else if top5 = 0x1F then (True, t32_group_1f p uc pc upper lower m)
      else (False, m))"

section \<open>Decoding\<close>

text \<open>A test of the upper half fails when its high byte does.\<close>

lemma high_byte_differs:
  fixes u k v :: u16
  shows "shr u 8 AND shr k 8 \<noteq> shr v 8 \<Longrightarrow> (u AND k = v) = False" "shr u 8 \<noteq> shr v 8 \<Longrightarrow> (u = v) = False"
  by (auto simp flip: drop_bit_and)

lemma high_byte: "shr u 8 = v \<longleftrightarrow> unat u div 256 = unat v" for u v :: u16
  unfolding word_unat_eq_iff [of "shr u 8"] unat_drop_bit_eq by (simp add: drop_bit_eq_div)

lemma plain_not_coprocessor:
  assumes "shr upper 8 = 0xE8 \<or> shr upper 8 = 0xE9 \<or> shr upper 8 = 0xEB"
  shows "t32_mve p uc upper lower m = None" "t32_misc uc upper lower c = None" "t32_dcp uc hp gp upper lower m = None"
    "\<not> (upper AND 0xFC00 = 0xEC00 \<or> upper AND 0xFE00 = 0xEE00)" "upper AND 0xFF00 \<noteq> 0xED00"
proof -
  have "mve_header upper lower m = None" "mve_predicate_move upper lower m = None" "mve_memory p upper lower m = None"
    "mve_dup upper lower m = None" "mve_shift uc upper lower m = None" "mve_alu upper lower m = None" "mve_move upper lower m = None"
    "mve_across upper lower m = None" "mve_iota upper lower m = None"
    unfolding mve_header_def mve_predicate_move_def mve_memory_def mve_dup_def mve_shift_def mve_alu_def mve_move_def mve_across_def
      mve_iota_def Let_def
    using assms by (elim disjE; simp add: high_byte_differs)+
  then show "t32_mve p uc upper lower m = None" by (simp add: t32_mve_def)
  have "t32_parallel upper lower c = None" "t32_dual upper lower c = None" "t32_select upper lower c = None" "t32_pack upper lower c = None"
    "t32_sat16 upper lower c = None" "t32_system upper lower c = None" "t32_divide uc upper lower c = None" "t32_multiply upper lower c = None"
    "t32_bits upper lower c = None" "t32_field uc upper lower c = None" "t32_sat upper lower c = None" "t32_insert uc upper lower c = None"
    "t32_extend upper lower c = None" "t32_rev upper lower c = None" "t32_shift_reg upper lower c = None" "t32_hint upper lower c = None"
    unfolding t32_parallel_def t32_dual_def t32_select_def t32_pack_def t32_sat16_def t32_system_def t32_divide_def t32_multiply_def
      t32_bits_def t32_field_def t32_sat_def t32_insert_def t32_extend_def t32_rev_def t32_shift_reg_def t32_hint_def Let_def
    using assms by (elim disjE; simp add: high_byte_differs)+
  then show "t32_misc uc upper lower c = None" by (simp add: t32_misc_def)
  show "t32_dcp uc hp gp upper lower m = None"
    unfolding t32_dcp_def gpio_coproc_def dcp_double_def Let_def using assms by (auto simp: high_byte_differs)
  show "\<not> (upper AND 0xFC00 = 0xEC00 \<or> upper AND 0xFE00 = 0xEE00)" "upper AND 0xFF00 \<noteq> 0xED00"
    using assms by (auto simp: high_byte_differs)
qed

lemma step_shifted_reg:
  assumes "shr upper 8 = 0xEB"
  shows "thumb32_step p uc hp gp pc upper lower m =
    (True, upd_cpu (\<lambda>c. t32_dp_shifted_reg upper lower ((set_r 15 (pc + 4) c)\<lparr>pc_updated := True\<rparr>)) m)"
proof -
  let ?m = "upd_cpu (\<lambda>c. (set_r 15 (pc + 4) c)\<lparr>pc_updated := True\<rparr>) m"
  note n = plain_not_coprocessor [OF disjI2 [OF disjI2 [OF assms]]]
  have f: "unat upper div 256 = 0xEB" using assms by (simp only: high_byte) simp
  then have "unat upper div 256 div 8 = 0x1D" "unat upper div 256 div 2 mod 4 = 1" by simp_all
  then have i: "idx upper 11 0x1F = 0x1D" "idx upper 9 3 = 1"
    by (simp_all add: t32_fields flip: div_mult2_eq)
  have "t32_test_target upper lower ?m = None" "t32_exclusive p upper lower ?m = None" "t32_acquire p upper lower ?m = None"
    "t32_table_branch p pc upper lower ?m = None" "t32_ldrex p upper lower ?m = None" "t32_strex p upper lower ?m = None"
    unfolding t32_test_target_def t32_exclusive_def t32_acquire_def t32_table_branch_def t32_ldrex_def t32_strex_def Let_def
    using assms by (simp_all add: high_byte_differs)
  then have "t32_group_1d p uc hp gp pc upper lower ?m = upd_cpu (t32_dp_shifted_reg upper lower) ?m"
    unfolding t32_group_1d_def by (simp add: n i(2) on_regs_def)
  then show ?thesis by (simp add: thumb32_step_def i(1))
qed

text \<open>C7. The 64-bit comparison of compiled code decides correctly: after CMP.W on the low and SBCS.W on the high
  words of two 64-bit numbers, executed by the decoder, the carry says whether the first is at least the second
  as unsigned numbers, and the sign and overflow flags differ exactly when it is less as signed numbers.\<close>

theorem t32_compare_64:
  assumes "rd < 15" "a < 15" "b < 15" "a' < 15" "b' < 15"
    and "enc_cmp_w a b = (u1, l1)" "enc_sbcs_w rd a' b' = (u2, l2)"
    and "m' = snd (thumb32_step p uc hp gp (pc + 4) u2 l2 (snd (thumb32_step p uc hp gp pc u1 l1 m)))"
  shows "(flag_c (m_cpu m') \<longleftrightarrow> unat (reg m b') * 2 ^ 32 + unat (reg m b) \<le> unat (reg m a') * 2 ^ 32 + unat (reg m a)) \<and>
    (flag_n (m_cpu m') \<noteq> flag_v (m_cpu m') \<longleftrightarrow>
      sint (reg m a') * 2 ^ 32 + uint (reg m a) < sint (reg m b') * 2 ^ 32 + uint (reg m b))"
proof -
  have u: "unat u1 = 16 * 0xEBB + a" "unat u2 = 16 * 0xEB7 + a'"
    using assms(2,4,6,7) unat_of_nat_lt [of "16 * 0xEBB + a", where 'a = 16] unat_of_nat_lt [of "16 * 0xEB7 + a'", where 'a = 16]
    by (auto simp: enc_cmp_w_def enc_sbcs_w_def simp del: of_nat_add of_nat_mult)
  have h: "shr u1 8 = 0xEB" "shr u2 8 = 0xEB"
    using u assms(2,4) nibble_div(5) [of a "0xEBB"] nibble_div(5) [of a' "0xEB7"]
    by (simp_all add: high_byte)
  define c0 where "c0 = (set_r 15 (pc + 4) (m_cpu m))\<lparr>pc_updated := True\<rparr>"
  define c1 where "c1 = update_sub_flags (cpu_r c0 a) (cpu_r c0 b) (cpu_r c0 a - cpu_r c0 b) c0"
  define c2 where "c2 = (set_r 15 (pc + 4 + 4) c1)\<lparr>pc_updated := True\<rparr>"
  define bw :: u32 where "bw = (if flag_c c2 then 0 else 1)"
  have r: "cpu_r c0 i = reg m i" "cpu_r c2 i = reg m i" if "i < 15" for i
    using that by (simp_all add: c0_def c1_def c2_def update_sub_flags_def Let_def)
  have m': "m_cpu m' = set_r rd (cpu_r c2 a' - cpu_r c2 b' - bw) (t32_sbc_flags (cpu_r c2 a') (cpu_r c2 b') bw c2)"
  proof -
    have "m_cpu (snd (thumb32_step p uc hp gp pc u1 l1 m)) = c1"
      using exec_cmp_w [OF assms(2,3,6), of c0] by (simp add: step_shifted_reg [OF h(1)] c1_def [symmetric] flip: c0_def)
    then have "m_cpu m' = t32_dp_shifted_reg u2 l2 c2"
      unfolding assms(8) step_shifted_reg [OF h(2)] by (simp add: c2_def)
    then show ?thesis using exec_sbcs_w [OF assms(1,4,5,7) bw_def] by simp
  qed
  have f: "cpu_xpsr (t32_sbc_flags x y bw c2) = cpu_xpsr (t32_sbc_flags x y bw c1)" for x y
    by (simp add: t32_sbc_flags_def Let_def c2_def)
  have bw: "bw = (if flag_c c1 then 0 else 1)" by (simp add: bw_def c2_def)
  note c = compare_64 [OF c1_def bw refl, of "reg m a'" "reg m b'"]
  show ?thesis using c assms(2-5) by (simp add: m' f r)
qed

theorem t32_compare_64_witness:
  "\<forall>p uc hp gp. flag_c (m_cpu (snd (thumb32_step p uc hp gp 4 0xEB71 0x0203 (snd (thumb32_step p uc hp gp 0 0xEBB0 0x0F02
     (upd_cpu (set_r 1 1) (mach_boot ())))))))"
proof (intro allI)
  fix p :: "unit platform" and uc hp gp
  let ?m = "upd_cpu (set_r 1 1) (mach_boot ())"
  have "enc_cmp_w 0 2 = (0xEBB0, 0x0F02)" "enc_sbcs_w 2 1 3 = (0xEB71, 0x0203)"
    by (simp_all add: enc_cmp_w_def enc_sbcs_w_def)
  from t32_compare_64 [OF _ _ _ _ _ this refl, of p uc hp gp 0 ?m]
  show "flag_c (m_cpu (snd (thumb32_step p uc hp gp 4 0xEB71 0x0203 (snd (thumb32_step p uc hp gp 0 0xEBB0 0x0F02 ?m)))))"
    by (simp add: mach_boot_def cpu_zero_def upd_cpu_def set_r_def)
qed

section \<open>Where the decoder deviates\<close>

text \<open>A test of a target address into any register but 2 is executed as a store of two words, an exclusive load
  of a byte as a load of two; a preload hint jumps; a predicated block is never recognised, and an unsigned
  saturating addition of vectors gives zero.\<close>

lemma tt_other_register_stores:
  "snd (thumb32_step p uc hp gp pc 0xE842 0xF300 m) =
     t32_ldrd_strd p 0xE842 0xF300 (upd_cpu (\<lambda>c. (set_r 15 (pc + 4) c)\<lparr>pc_updated := True\<rparr>) m)"
  by (simp add: thumb32_step_def t32_group_1d_def plain_not_coprocessor on_regs_def t32_test_target_def t32_exclusive_def t32_acquire_def
      t32_table_branch_def t32_ldrex_def t32_strex_def Let_def)

lemma ldrexb_loads_two_words:
  "snd (thumb32_step p uc hp gp pc 0xE8D0 0x1F4F m) =
     t32_ldrd_strd p 0xE8D0 0x1F4F (upd_cpu (\<lambda>c. (set_r 15 (pc + 4) c)\<lparr>pc_updated := True\<rparr>) m)"
  by (simp add: thumb32_step_def t32_group_1d_def plain_not_coprocessor on_regs_def t32_test_target_def t32_exclusive_def t32_acquire_def
      t32_table_branch_def t32_ldrex_def t32_strex_def Let_def)

lemma preload_jumps:
  "t32_ldst_single p pc 0xF890 0xF000 m = (let (v, m1) = pl_read8 p (reg m 0) m in upd_cpu (set_r 15 (ucast v)) m1)"
  by (simp add: t32_ldst_single_def t32_ldst_imm12_def load8_def)

lemma vpt_never: "upper AND 0xFF90 \<noteq> 0xFE50" for upper :: u16
proof
  assume "upper AND 0xFF90 = 0xFE50"
  then have "bit (upper AND 0xFF90) 6 = bit (0xFE50 :: u16) 6" by simp
  then show False by (simp add: bit_simps)
qed

lemma vqadd_unsigned_zero: "mve_alu_op 0xFF02 0x05 False 8 av bv = (0, False)"
  by (simp add: mve_alu_op_def)

lemma vqadd_unsigned_decoded: "mve_alu 0xFF02 0x0054 m = Some (mve_lanes (\<lambda>av bv cur. mve_alu_op 0xFF02 0x05 False 8 av bv) 8 0 1 2 m)"
  by (simp add: mve_alu_def mve_ebits_def)

end
