(* ===== verification/M33.thy ===== *)
theory M33
  imports System Thumb32_Step
begin

unbundle bit_operations_syntax

text \<open>
  The M33 on the memory bus: the decoder of the 32-bit instructions as the one the engine calls, with the pins
  of \<open>Gpio\<close> behind its coprocessor, and what follows for code with wide instructions and for two cores.
\<close>

section \<open>The decoder on the bus\<close>

definition gpio_port_emu :: "('d, 'e, 'x) emu gpio_port" where
  "gpio_port_emu = \<lparr>
     gp_set_pin = (\<lambda>pin v m. let (g, nv) = gpio_set_pin pin v (b_gpio (m_bus m), m_nv m)
                    in (upd_bus (\<lambda>b. b\<lparr>b_gpio := g\<rparr>) m)\<lparr>m_nv := nv\<rparr>),
     gp_set_direction = (\<lambda>pin out. upd_bus (\<lambda>b. b\<lparr>b_gpio := gpio_set_direction pin out (b_gpio b)\<rparr>)),
     gp_effective_pins = (\<lambda>m. gpio_effective_pins (b_gpio (m_bus m)))\<rparr>"

text \<open>The devices of an M33: the decoder works on the bus it is part of.\<close>

definition m33_devices :: "c_undefined \<Rightarrow> host_fp \<Rightarrow> ('d, 'e, 'x) emu devices \<Rightarrow> ('d, 'e, 'x) emu devices" where
  "m33_devices uc hp dv = dv\<lparr>thumb32_step := Thumb32_Step.thumb32_step (system_platform dv) uc hp gpio_port_emu\<rparr>"

lemma m33_platform:
  "pl_thumb32_step (system_platform (m33_devices uc hp dv)) = Thumb32_Step.thumb32_step (system_platform dv) uc hp gpio_port_emu"
  by (simp add: system_platform_def m33_devices_def)

section \<open>Wide push and pop\<close>

text \<open>C8. A function compiled for the M33 gets its registers back: LDMIA.W on the stack restores the registers that
  STMDB.W stored, with the saved link register going back to itself or to the program counter, and the stack
  pointer, when the code in between keeps the stack pointer and the saved words.\<close>

theorem wide_push_pop_round_trip:
  assumes "\<not> bit l 13" "\<not> bit l 15" "epilogue_list l l2" "n = length (list_regs l)" "4 * n \<le> unat (reg m 13)"
    and "words_room ram_word (reg m 13 - of_nat (4 * n)) n (m_bus m)"
    and "reg m2 13 = reg (t32_ldst_multiple (system_platform dv) pc 0xE92D l m) 13"
    and "words_at ram_rd (reg m2 13) n (m_bus m2) = words_at ram_rd (reg m2 13) n (m_bus (t32_ldst_multiple (system_platform dv) pc 0xE92D l m))"
    and "words_room ram_word (reg m2 13) n (m_bus m2)" "bit l2 15 \<longrightarrow> reg m 14 AND 0xFFFFFFF0 \<noteq> 0xFFFFFFF0"
  shows "t32_ldst_multiple (system_platform dv) pc2 0xE8BD l2 m2 = upd_cpu (\<lambda>c. c\<lparr>
     cpu_r := (\<lambda>i. if i = 13 then reg m 13 else if i < 13 \<and> bit l i \<or> i = 14 \<and> bit l2 14 then reg m i
                  else if i = 15 \<and> bit l2 15 then reg m 14 AND NOT 1 else cpu_r c i),
     pc_updated := (bit l2 15 \<or> pc_updated c)\<rparr>) m2"
  by (rule emu_ram.wide_push_pop [OF assms])

theorem wide_push_pop_witness:
  "let p = system_platform no_devices; m2 = t32_ldst_multiple p 0 0xE92D 0x4010 exc_demo in
   reg (t32_ldst_multiple p 4 0xE8BD 0x8010 m2) 13 = 0x20001000 \<and> reg (t32_ldst_multiple p 4 0xE8BD 0x8010 m2) 15 = 14 \<and>
   reg (t32_ldst_multiple p 4 0xE8BD 0x8010 m2) 4 = reg exc_demo 4"
proof -
  let ?p = "system_platform no_devices :: (unit, unit, unit) bus platform"
  have l: "list_regs 0x4010 = [4, 14]" by (simp add: list_regs_def upt_rec)
  have n: "\<not> bit (0x4010 :: u16) 13" "\<not> bit (0x4010 :: u16) 15" "2 = length (list_regs 0x4010)" by (simp_all add: l)
  have e: "epilogue_list 0x4010 0x8010" by (auto simp: epilogue_list_def less_Suc_eq numeral_eq_Suc)
  have low: "4 * 2 \<le> unat (reg exc_demo 13)" by (simp add: exc_demo_fields)
  have room: "words_room ram_word (reg exc_demo 13 - of_nat (4 * 2)) 2 (m_bus exc_demo)"
    by (simp add: words_room_def exc_demo_fields upt_rec ram_word_def ram_ready_def in_active_ram_def in_block_def bus_boot_def)
  obtain m1 where m1: "t32_ldst_multiple ?p 0 0xE92D 0x4010 exc_demo = m1" "reg m1 13 = reg exc_demo 13 - of_nat (4 * 2)"
      "\<forall>a. ram_word a (m_bus m1) = ram_word a (m_bus exc_demo)"
    using emu_ram.wide_push [OF n low room] by fastforce
  have room2: "words_room ram_word (reg m1 13) 2 (m_bus m1)" using room m1(3) by (simp add: m1(2) words_room_def)
  have lr: "bit (0x8010 :: u16) 15 \<longrightarrow> reg exc_demo 14 AND 0xFFFFFFF0 \<noteq> 0xFFFFFFF0" by (simp add: exc_demo_def)
  have "t32_ldst_multiple ?p 4 0xE8BD 0x8010 m1 = upd_cpu (\<lambda>c. c\<lparr>
     cpu_r := (\<lambda>i. if i = 13 then reg exc_demo 13 else if i < 13 \<and> bit (0x4010 :: u16) i \<or> i = 14 \<and> bit (0x8010 :: u16) 14 then reg exc_demo i
                  else if i = 15 \<and> bit (0x8010 :: u16) 15 then reg exc_demo 14 AND NOT 1 else cpu_r c i),
     pc_updated := (bit (0x8010 :: u16) 15 \<or> pc_updated c)\<rparr>) m1"
    by (rule wide_push_pop_round_trip [OF n(1,2) e n(3) low room _ _ room2 lr, of no_devices 0]) (simp_all add: m1(1))
  then show ?thesis by (simp add: Let_def m1(1) exc_demo_fields) (simp add: exc_demo_def)
qed

section \<open>Floating-point registers of two cores\<close>

text \<open>A core that is unbound and bound again finds the floating-point and coprocessor registers the engine had
  before its turn: what it computed is lost, whatever state \<open>m2\<close> it reached.\<close>

lemma fp_registers_lost:
  assumes "cpu_bind_core_context (system_platform dv) k m = Some (ctx, m1)"
    and "cpu_bind_core_context (system_platform dv) k (cpu_unbind_core_context (system_platform dv) k ctx m2) = Some (ctx', m3)"
  shows "cpu_fp (m_cpu m3) = cpu_fp (m_cpu m)"
proof -
  have s: "m_cpu (set_active_core k x) = m_cpu x" for k and x :: "('a, 'b, 'c) emu" by (simp add: set_active_core_def)
  have "cpu_fp (m_cpu m3) = cpu_fp ctx"
    using assms by (auto simp: cpu_bind_core_context_def cpu_unbind_core_context_def s load_core_def restore_context_def Let_def
        split: if_splits)
  moreover have "ctx = m_cpu m" using assms(1) by (auto simp: cpu_bind_core_context_def split: if_splits)
  ultimately show ?thesis by simp
qed

end
