(* ===== verification/Spec2Isabelle.thy ===== *)
theory Spec2Isabelle
  imports Dma_Engine Rv_Bootrom Pio Loaders Rom M33
begin

text \<open>
  A verification development for picoemu, an emulator of the Raspberry Pi RP2040 and RP2350
  microcontrollers: two Arm cores (Cortex-M0+ and M33) or two RISC-V harts, their memories and
  peripherals, running firmware images unchanged.

  \<^bold>\<open>The program and its parts.\<close> A step of the emulator lets one core execute one instruction (or a
  cached block of them), with every access to memory going through the bus (\<^verbatim>\<open>src/membus.c\<close> for the Arm
  cores, \<^verbatim>\<open>src/rp2350_rv/rv_membus.c\<close> for the harts); the bus routes an address to a memory or to a
  peripheral; the cycles spent advance the timers; a peripheral that wants attention raises a line
  of the interrupt controller (\<^verbatim>\<open>src/nvic.c\<close>, \<^verbatim>\<open>src/rp2350_rv/rv_clint.c\<close>), which the next step of a core
  turns into an exception. The scheduler (\<^verbatim>\<open>src/cpu.c\<close>) binds one core after the other to the single
  engine. The C program keeps all this in global variables; here each component has a record for
  its state, each C function is a definition that takes and returns the state it touches, and
  callbacks and registered devices are arguments. Machine integers keep their width, so wrap-around
  is the C behaviour; \<^verbatim>\<open>switch\<close> statements over addresses and offsets are chains of conditionals
  with the same constants; a failing operation returns what the source returns, as an option, a
  flag or a status word.

  \<^bold>\<open>Theories.\<close> In the order of their dependencies:

  \<^item> \<open>Emu_Prelude\<close>: integer types, shifts, masks, little-endian access, bit counting; the locales
    \<open>fifo_queue\<close> (a bounded queue that loses nothing and keeps its order) and \<open>lock_bank\<close> (locks that
    exclude), with what follows from their laws.
  \<^item> \<open>Nvic\<close>: interrupt controller, SysTick, MPU and SAU (\<^verbatim>\<open>src/nvic.c\<close>, \<^verbatim>\<open>include/nvic.h\<close>). The choice of the
    pending interrupt, batched SysTick against single ticks, region lookup; the locale \<open>irq_lines\<close> is the
    contract that peripherals use to raise a line.
  \<^item> \<open>Timer\<close>, \<open>Rtc\<close>: alarms and wake-up time (\<^verbatim>\<open>src/timer.c\<close>), the calendar (\<^verbatim>\<open>src/rtc.c\<close>) against a day count.
  \<^item> \<open>Sio\<close>: mailboxes, spinlocks, dividers and interpolators (\<^verbatim>\<open>src/cpu.c\<close>, \<^verbatim>\<open>src/membus.c\<close>).
  \<^item> \<open>Machine\<close>: registers, per-core state, exclusive monitors (\<^verbatim>\<open>include/emulator.h\<close>, \<^verbatim>\<open>src/cpu.c\<close>).
  \<^item> \<open>Thumb_Alu\<close>, \<open>Exceptions\<close>, \<open>Thumb\<close>: the 16-bit instructions (\<^verbatim>\<open>src/instructions.c\<close>) and exception entry and
    return (\<^verbatim>\<open>src/cpu.c\<close>). Memory is the argument \<open>platform\<close>; the locale \<open>ram_bus\<close> says what the proofs ask
    of it.
  \<^item> \<open>Code_Cache\<close>, \<open>Cpu\<close>: the two code caches and the engine's step and clock (\<^verbatim>\<open>src/cpu.c\<close>), with the locale
    \<open>shared_clock\<close>.
  \<^item> \<open>Dual_Core\<close>, \<open>Core1_Boot\<close>: binding and unbinding of cores, the scheduler, sleep, and the launch of the
    second core (\<^verbatim>\<open>src/cpu.c\<close>), with the locales \<open>core_memory\<close> and \<open>quiet_host\<close>.
  \<^item> \<open>Uart\<close>, \<open>Spi\<close>, \<open>I2c\<close>, \<open>Gpio\<close>, \<open>Adc\<close>, \<open>Pwm\<close>, \<open>Clocks\<close>, \<open>Xip\<close>, \<open>Blocks\<close>, \<open>Hstx\<close>, \<open>Dma\<close>: one peripheral each, from
    the file of that name (\<open>Xip\<close> from \<^verbatim>\<open>src/membus.c\<close>; \<open>Blocks\<close> and \<open>Hstx\<close> from \<^verbatim>\<open>src/devtools.c\<close>). Their queues are
    interpretations of \<open>fifo_queue\<close>.
  \<^item> \<open>Pio\<close>: the programmable IO blocks (\<^verbatim>\<open>src/pio.c\<close>).
  \<^item> \<open>Rp2350_Periph\<close>: the peripherals only the RP2350 has (\<^verbatim>\<open>src/rp2350_rv/rp2350_periph.c\<close>).
  \<^item> \<open>Bus_Devices\<close>, \<open>Membus\<close>: address decoding, atomic aliases and all accesses (\<^verbatim>\<open>src/membus.c\<close>).
  \<^item> \<open>System\<close>: the engine and the scheduler on the bus. The locales of \<open>Exceptions\<close>, \<open>Cpu\<close> and \<open>Dual_Core\<close> are
    interpreted here, so that the theorems about cores hold of the emulator with its real memory.
  \<^item> \<open>Dma_Engine\<close>: transfers and chains of the DMA controller on that bus (\<^verbatim>\<open>src/dma.c\<close>).
  \<^item> \<open>Rv_Core\<close>, \<open>Rv_Laws\<close>: the RISC-V processor (\<^verbatim>\<open>src/rp2350_rv/rv_cpu.c\<close>), instruction by instruction, and its
    laws: precise traps, compressed instructions as their expansions; the locale \<open>rv_semihost\<close> is
    what a bus must leave alone.
  \<^item> \<open>Rv_Clint\<close>, \<open>Rv_Membus\<close>, \<open>Rv_Bootrom\<close>: its interrupts, its bus and its boot ROM, in the files of those
    names under \<^verbatim>\<open>src/rp2350_rv/\<close>; the boot ROM's own code is executed by the model of the processor.
  \<^item> \<open>Rom\<close>: the boot ROM of the Arm cores (\<^verbatim>\<open>src/rom.c\<close>), its image and the calls the emulator performs; the
    routines of the image are executed by the model of the processor, on the bus of \<open>System\<close>.
  \<^item> \<open>Loaders\<close>: UF2 and ELF files (\<^verbatim>\<open>src/uf2.c\<close>, \<^verbatim>\<open>src/elf.c\<close>), the boot block of the RP2350
    (\<^verbatim>\<open>src/rp2350_rv/picobin.c\<close>) and the start-up of \<^verbatim>\<open>src/main.c\<close> that chooses a loader and restores a saved flash.
  \<^item> \<open>Thumb32\<close>, \<open>Vfp\<close>, \<open>Thumb32_Step\<close>: the 32-bit Thumb instructions (\<^verbatim>\<open>src/thumb32.c\<close>): data processing, multiplication,
    saturation, bit fields, loads and stores; the floating-point unit and the coprocessors for double precision
    and for pins; the integer vector instructions, the exclusive accesses and the dispatch \<^verbatim>\<open>thumb32_step\<close>.
  \<^item> \<open>M33\<close>: this decoder as the one the engine calls, on the bus of \<open>System\<close> with the pins of \<open>Gpio\<close>.

  \<^bold>\<open>What the theorems show.\<close> Of the cores: an exception stacks and its return restores the interrupted
  context, also through the bus; switching cores isolates them; a core that executes code it has
  just written sees the new code although two caches stand between; sleeping cores wake; the clock loses no
  cycle; push and pop are inverse; comparisons and conditional branches agree with integer order; exclusive stores
  exclude; wide instructions compare 64-bit numbers, save and restore registers, saturate and insert
  fields as the architecture says. Of the RISC-V core: exceptions are precise, the compressed instructions of
  the C extension equal their expansions, a hart that waits for its timer wakes on the microsecond, an interrupt is delivered exactly when it is pending and enabled, the boot code hands
  over. Of the memories: a read returns what was last written, whatever the aliases and widths; ROM
  and flash cannot be changed by stores. Of the peripherals: queues deliver in order without loss
  (a refinement to lists), locks exclude, the timers fire exactly the due alarms, the hash engine
  computes SHA-256, DMA copies what it should and chains end, programmable IO keeps its state well
  formed, runs at the rate of its divider and ends every cycle when no program executes data. Of the
  start: an image written as UF2 or ELF is in memory after loading, no file makes a loader write outside
  the flash, and none outside the RAM but an ELF file with a segment that ends behind it, and the routines
  of the ROM compute what their names say.
  Lemmas under the heading of deviations state where the code does not do what it means to; the
  manifest lists them as findings.

  \<^bold>\<open>Bounds.\<close> Nested DMA (a transfer that writes the trigger of another channel) recurses in the source
  without a bound; the model takes a depth, and \<open>Dma_Engine\<close> proves that 17 is enough for chains, since
  each channel of the sixteen runs once before its count is used up. When all cores sleep, fewer
  than 5000 rounds of the scheduler pass before one runs, since every round adds at least one to the count of
  microseconds that the source bounds by 5000. The loops over flash pages, queues and table
  entries are structural. The execution of data by a state machine of the programmable IO is a
  partial function whose value \<open>None\<close> is a chain that never ends; that it returns is proved where
  no instruction executes data.

  \<^bold>\<open>Parameters.\<close> What is not under \<^verbatim>\<open>src/\<close> or is left out is an argument of the definitions that use it: the
  devices attached to SPI and I2C, the host's clock and poll hook, the network boards, the
  rounding arithmetic of the floating-point instructions (\<open>host_fp\<close>), and the values C leaves undefined, of
  a shift by 32 or more and of the quotient of the least number by minus one (\<open>c_undefined\<close>). The engine
  reaches the 32-bit decoder and the interception of Arm ROM calls through fields of \<open>platform\<close>; \<open>M33\<close> and
  \<open>Rom\<close> define them.

  \<^bold>\<open>Not modelled.\<close> The USB controller (\<^verbatim>\<open>src/usb.c\<close>), whose enumeration is driven by callbacks of the host;
  the debugger (\<^verbatim>\<open>src/gdb.c\<close>), the traces and statistics of \<^verbatim>\<open>src/devtools.c\<close>, the
  network and storage boards (\<^verbatim>\<open>src/w5500.c\<close>, \<^verbatim>\<open>src/w6300.c\<close>, \<^verbatim>\<open>src/cyw43.c\<close>, \<^verbatim>\<open>src/sdcard.c\<close>, \<^verbatim>\<open>src/emmc.c\<close>), the
  virtual network and the mounted file system, which work on sockets and files of the host; the
  attached sensors; host threads and the wiring of several instances; the command line and the
  browser build.
\<close>

end
